(* ===== verification/Prelude.thy ===== *)
theory Prelude
  imports Main "HOL-Library.Word" "HOL-Library.Monad_Syntax"
begin

text \<open>
  Shared vocabulary of the development.

  The C code works on byte buffers of fixed size through pointers. A buffer is a list of
  bytes whose length never changes, and every access goes through the four functions
  \<open>rd\<close>, \<open>wr\<close>, \<open>rdn\<close> and \<open>wrn\<close> below (a load, a store, the source and the destination
  of a \<open>memcpy\<close>). An access outside the buffer is undefined behaviour in C; here it is
  the value \<open>None\<close>, and the \<open>option\<close> monad carries it to the caller, so that "returns
  \<open>Some\<close>" always includes "touched no byte outside its buffers".

  The rest are the byte encodings the protocols share (big endian and little endian 16-bit
  fields, 24-bit information object addresses) and the generic list lemmas used by more than
  one component.
\<close>

unbundle bit_operations_syntax

type_synonym u8 = "8 word"
type_synonym u16 = "16 word"
type_synonym u32 = "32 word"
type_synonym bytes = "8 word list"

named_theorems mem_simps \<open>loads and stores that stay inside their buffer\<close>
named_theorems byte_simps \<open>values of the byte encodings\<close>

section \<open>Checked access to a buffer\<close>

definition rd :: "'a list \<Rightarrow> nat \<Rightarrow> 'a option" where
  "rd buf i = (if i < length buf then Some (buf ! i) else None)"

definition wr :: "'a list \<Rightarrow> nat \<Rightarrow> 'a \<Rightarrow> 'a list option" where
  "wr buf i x = (if i < length buf then Some (buf[i := x]) else None)"

definition rdn :: "'a list \<Rightarrow> nat \<Rightarrow> nat \<Rightarrow> 'a list option" where
  "rdn buf off n = (if off + n \<le> length buf then Some (take n (drop off buf)) else None)"

definition wrn :: "'a list \<Rightarrow> nat \<Rightarrow> 'a list \<Rightarrow> 'a list option" where
  "wrn buf off xs =
     (if off + length xs \<le> length buf
      then Some (take off buf @ xs @ drop (off + length xs) buf) else None)"

lemma rd_in [mem_simps]: "i < length buf \<Longrightarrow> rd buf i = Some (buf ! i)"
  by (simp add: rd_def)

lemma wr_in [mem_simps]: "i < length buf \<Longrightarrow> wr buf i x = Some (buf[i := x])"
  by (simp add: wr_def)

lemma rdn_in [mem_simps]: "off + n \<le> length buf \<Longrightarrow> rdn buf off n = Some (take n (drop off buf))"
  by (simp add: rdn_def)

lemma wrn_in [mem_simps]:
  "off + length xs \<le> length buf \<Longrightarrow>
   wrn buf off xs = Some (take off buf @ xs @ drop (off + length xs) buf)"
  by (simp add: wrn_def)

lemma rd_Some_iff: "rd buf i = Some x \<longleftrightarrow> i < length buf \<and> x = buf ! i"
  by (auto simp: rd_def)

lemma wr_Some_iff: "wr buf i x = Some b \<longleftrightarrow> i < length buf \<and> b = buf[i := x]"
  by (auto simp: wr_def)

lemma rdn_Some_iff: "rdn buf off n = Some x \<longleftrightarrow> off + n \<le> length buf \<and> x = take n (drop off buf)"
  by (auto simp: rdn_def)

lemma wrn_Some_iff:
  "wrn buf off xs = Some b \<longleftrightarrow>
     off + length xs \<le> length buf \<and> b = take off buf @ xs @ drop (off + length xs) buf"
  by (auto simp: wrn_def)

lemma wr_length: "wr buf i x = Some b \<Longrightarrow> length b = length buf"
  by (auto simp: wr_Some_iff)

lemma wrn_length: "wrn buf off xs = Some b \<Longrightarrow> length b = length buf"
  by (auto simp: wrn_Some_iff)

lemma wrn_None_iff: "wrn buf off xs = None \<longleftrightarrow> length buf < off + length xs"
  by (auto simp: wrn_def)

text \<open>A block written right after a known prefix extends the prefix.\<close>

lemma wrn_extends_prefix:
  assumes "wrn buf n xs = Some b" and "take n buf = p"
  shows "take (n + length xs) b = p @ xs"
  using assms by (auto simp: wrn_Some_iff)

lemma take_wrn_same:
  "wrn buf off xs = Some b \<Longrightarrow> n \<le> off \<Longrightarrow> take n b = take n buf"
  by (auto simp: wrn_Some_iff min_def)

lemma bind_Some_iff: "Option.bind m f = Some y \<longleftrightarrow> (\<exists>x. m = Some x \<and> f x = Some y)"
  by (cases m) auto

section \<open>Multi-byte fields\<close>

lemma unat_u8_of_int: "0 \<le> i \<Longrightarrow> i < 256 \<Longrightarrow> unat (word_of_int i :: u8) = nat i"
  by (simp add: unsigned_of_int take_bit_int_eq_self)

text \<open>Bits rounded up to bytes, as the code writes it.\<close>

lemma div_round_up_8: "n div 8 + (if n mod 8 \<noteq> 0 then 1 else 0) = (n + 7) div (8 :: nat)"
  by arith

text \<open>\<open>x >> 8\<close> and \<open>x & 0xff\<close> stored into a byte, and the two ways the code reads them back.\<close>

definition hi8 :: "nat \<Rightarrow> u8" where
  "hi8 n = word_of_nat (n div 256)"

definition lo8 :: "nat \<Rightarrow> u8" where
  "lo8 n = word_of_nat n"

definition be16 :: "u8 \<Rightarrow> u8 \<Rightarrow> nat" where
  "be16 h l = 256 * unat h + unat l"

lemma unat_hi8 [byte_simps]: "unat (hi8 n) = n div 256 mod 256"
  by (simp add: hi8_def unat_of_nat)

lemma unat_lo8 [byte_simps]: "unat (lo8 n) = n mod 256"
  by (simp add: lo8_def unat_of_nat)

lemma unat_u8_bound [simp]: "unat (b :: u8) < 256"
  using unsigned_less [of b, where 'a = nat] by simp

lemma be16_bound: "be16 h l < 65536"
  using unat_u8_bound [of h] unat_u8_bound [of l] by (simp add: be16_def del: unat_u8_bound)

lemma be16_hi8_lo8 [byte_simps]: "be16 (hi8 n) (lo8 n) = n mod 65536"
proof -
  have "n div 256 mod 256 * 256 + n mod 256 = n mod (256 * 256)"
    by (metis mod_mult2_eq add.commute mult.commute)
  then show ?thesis by (simp add: be16_def byte_simps mult.commute)
qed

lemma hi8_be16 [byte_simps]: "hi8 (be16 h l) = h"
  by (simp add: hi8_def be16_def)

lemma lo8_be16 [byte_simps]: "lo8 (be16 h l) = l"
proof -
  have "(256 :: u8) = 0" by simp
  then have "256 * h = 0" by (simp only: mult_zero_left)
  then show ?thesis by (simp add: lo8_def be16_def)
qed

section \<open>Lists\<close>

lemma foldl_two_lists_neq:
  assumes inj_state: "\<And>x. inj (\<lambda>s. f s x)"
    and "s \<noteq> t"
  shows "foldl f s xs \<noteq> foldl f t xs"
  using \<open>s \<noteq> t\<close>
proof (induction xs arbitrary: s t)
  case Nil
  then show ?case by simp
next
  case (Cons x xs)
  have "f s x \<noteq> f t x"
    using inj_state [of x] Cons.prems by (auto dest: injD)
  then show ?case using Cons.IH by simp
qed

lemma concat_nonempty_Nil:
  assumes "[] \<notin> set xss" and "concat xss = []"
  shows "xss = []"
  using assms by (cases xss) auto

end
