(* ===== verification/Crc.thy ===== *)
theory Crc
  imports Prelude
begin

text \<open>
  The checksums of \<open>wow_iot/src/encrypt/wow_crc.c\<close>. Every CRC of the file is one of two
  loops over the bytes of the message: the reflected one (shift right, polynomial inverted by
  \<open>InvertUint8/16/32\<close>) and the plain one (shift left). The lemmas show that the reflected loop
  is the mirror image of the plain one, and that both detect every error confined to one byte
  (the 16-bit ones, to two neighbouring bytes).
\<close>

section \<open>The code\<close>

text \<open>\<open>for(i...) if(srcBuf[0] & (1 << i)) tmp[0] |= 1 << (w-1-i);\<close>\<close>

definition invert_loop :: "nat \<Rightarrow> 'a::len word \<Rightarrow> 'a word" where
  "invert_loop w src =
     fold (\<lambda>i tmp. if bit src i then tmp OR push_bit (w - 1 - i) 1 else tmp) [0..<w] 0"

definition InvertUint8 :: "u8 \<Rightarrow> u8" where
  "InvertUint8 src = invert_loop 8 src"

definition InvertUint16 :: "u16 \<Rightarrow> u16" where
  "InvertUint16 src = invert_loop 16 src"

definition InvertUint32 :: "u32 \<Rightarrow> u32" where
  "InvertUint32 src = invert_loop 32 src"

text \<open>One round of the inner loop, in the reflected and in the plain direction.\<close>

definition crc_shr :: "'a::len word \<Rightarrow> 'a word \<Rightarrow> 'a word" where
  "crc_shr poly crc = (if bit crc 0 then drop_bit 1 crc XOR poly else drop_bit 1 crc)"

definition crc_shl :: "'a::len word \<Rightarrow> 'a word \<Rightarrow> 'a word" where
  "crc_shl poly crc =
     (if bit crc (LENGTH('a) - 1) then push_bit 1 crc XOR poly else push_bit 1 crc)"

text \<open>The body of \<open>while (u32Size--)\<close>: xor the byte in, then eight rounds.\<close>

definition crc_shr_byte :: "'a::len word \<Rightarrow> 'a word \<Rightarrow> u8 \<Rightarrow> 'a word" where
  "crc_shr_byte poly crc b = (crc_shr poly ^^ 8) (crc XOR ucast b)"

definition crc_shl_byte :: "'a::len word \<Rightarrow> 'a word \<Rightarrow> u8 \<Rightarrow> 'a word" where
  "crc_shl_byte poly crc b = (crc_shl poly ^^ 8) (crc XOR push_bit (LENGTH('a) - 8) (ucast b))"

definition wow_crc8_add :: "bytes \<Rightarrow> u8" where
  "wow_crc8_add data = foldl (\<lambda>crc b. crc + b) 0 data"

definition wow_crc8 :: "bytes \<Rightarrow> u8" where
  "wow_crc8 data = foldl (crc_shl_byte 0x07) 0x00 data"

definition wow_crc8_itu :: "bytes \<Rightarrow> u8" where
  "wow_crc8_itu data = foldl (crc_shl_byte 0x07) 0x00 data XOR 0x55"

definition wow_crc8_rohc :: "bytes \<Rightarrow> u8" where
  "wow_crc8_rohc data = foldl (crc_shr_byte (InvertUint8 0x07)) 0xFF data"

definition wow_crc8_maxim :: "bytes \<Rightarrow> u8" where
  "wow_crc8_maxim data = foldl (crc_shr_byte (InvertUint8 0x31)) 0x00 data"

definition wow_crc16_ccitt :: "bytes \<Rightarrow> u16" where
  "wow_crc16_ccitt data = foldl (crc_shr_byte (InvertUint16 0x1021)) 0x0000 data"

definition wow_crc16_xmodem :: "bytes \<Rightarrow> u16" where
  "wow_crc16_xmodem data = foldl (crc_shl_byte 0x1021) 0x0000 data"

definition wow_crc16_x25 :: "bytes \<Rightarrow> u16" where
  "wow_crc16_x25 data = foldl (crc_shr_byte (InvertUint16 0x1021)) 0xFFFF data XOR 0xFFFF"

definition wow_crc16_modbus :: "bytes \<Rightarrow> u16" where
  "wow_crc16_modbus data = foldl (crc_shr_byte (InvertUint16 0x8005)) 0xFFFF data"

definition wow_crc16_ibm :: "bytes \<Rightarrow> u16" where
  "wow_crc16_ibm data = foldl (crc_shr_byte (InvertUint16 0x8005)) 0x0000 data"

definition wow_crc16_maxim :: "bytes \<Rightarrow> u16" where
  "wow_crc16_maxim data = foldl (crc_shr_byte (InvertUint16 0x8005)) 0x0000 data XOR 0xFFFF"

definition wow_crc16_usb :: "bytes \<Rightarrow> u16" where
  "wow_crc16_usb data = foldl (crc_shr_byte (InvertUint16 0x8005)) 0xFFFF data XOR 0xFFFF"

definition wow_crc16_dnp :: "bytes \<Rightarrow> u16" where
  "wow_crc16_dnp data = foldl (crc_shr_byte (InvertUint16 0x3D65)) 0x0000 data XOR 0xFFFF"

definition wow_crc16_add :: "bytes \<Rightarrow> u16" where
  "wow_crc16_add data = foldl (\<lambda>crc b. crc + ucast b) 0 data"

definition wow_crc32 :: "bytes \<Rightarrow> u32" where
  "wow_crc32 data = foldl (crc_shr_byte (InvertUint32 0x04C11DB7)) 0xFFFFFFFF data XOR 0xFFFFFFFF"

definition wow_crc32_mpeg :: "bytes \<Rightarrow> u32" where
  "wow_crc32_mpeg data = foldl (crc_shl_byte 0x04C11DB7) 0xFFFFFFFF data"

section \<open>Bit reversal\<close>

lemma bit_invert_fold:
  fixes src :: "'a::len word"
  assumes "n \<le> LENGTH('a)"
  shows "bit (fold (\<lambda>i tmp. if bit src i then tmp OR push_bit (LENGTH('a) - 1 - i) 1 else tmp)
             [0..<n] (0 :: 'a word)) j
         \<longleftrightarrow> j < LENGTH('a) \<and> LENGTH('a) - 1 - j < n \<and> bit src (LENGTH('a) - 1 - j)"
  using assms
proof (induction n)
  case 0
  then show ?case by simp
next
  case (Suc n)
  have eq: "n = LENGTH('a) - Suc j \<longleftrightarrow> j = LENGTH('a) - Suc n" if "j < LENGTH('a)"
    using that Suc.prems by auto
  show ?case
    using Suc by (cases "j < LENGTH('a)")
      (auto simp: bit_or_iff bit_exp_iff less_Suc_eq eq dest: bit_imp_le_length)
qed

lemma bit_invert_loop:
  "bit (invert_loop LENGTH('a) (src :: 'a::len word)) j \<longleftrightarrow>
     j < LENGTH('a) \<and> bit src (LENGTH('a) - 1 - j)"
  using bit_invert_fold [of "LENGTH('a)" src j] by (auto simp: invert_loop_def)

lemma invert_loop_invert_loop:
  "invert_loop LENGTH('a) (invert_loop LENGTH('a) (src :: 'a::len word)) = src"
  by (rule bit_word_eqI) (simp add: bit_invert_loop)

lemma invert_loop_xor:
  "invert_loop LENGTH('a) (x XOR y) =
   invert_loop LENGTH('a) x XOR invert_loop LENGTH('a) (y :: 'a::len word)"
  by (rule bit_word_eqI) (simp add: bit_invert_loop bit_xor_iff)

lemma InvertUint8_loop: "InvertUint8 = invert_loop LENGTH(8)"
  by (rule ext) (simp add: InvertUint8_def)

lemma InvertUint16_loop: "InvertUint16 = invert_loop LENGTH(16)"
  by (rule ext) (simp add: InvertUint16_def)

lemma InvertUint32_loop: "InvertUint32 = invert_loop LENGTH(32)"
  by (rule ext) (simp add: InvertUint32_def)

lemma bit_InvertUint8: "bit (InvertUint8 w) j \<longleftrightarrow> j < 8 \<and> bit w (7 - j)"
  using bit_invert_loop [of w j] by (simp add: InvertUint8_def)

lemma bit_InvertUint16: "bit (InvertUint16 w) j \<longleftrightarrow> j < 16 \<and> bit w (15 - j)"
  using bit_invert_loop [of w j] by (simp add: InvertUint16_def)

lemma bit_InvertUint32: "bit (InvertUint32 w) j \<longleftrightarrow> j < 32 \<and> bit w (31 - j)"
  using bit_invert_loop [of w j] by (simp add: InvertUint32_def)

section \<open>The rounds are linear and lose no information\<close>

lemma crc_shr_xor: "crc_shr poly (x XOR y) = crc_shr poly x XOR crc_shr poly y"
  by (rule bit_word_eqI) (auto simp: crc_shr_def bit_xor_iff drop_bit_xor)

lemma crc_shl_xor: "crc_shl poly (x XOR y) = crc_shl poly x XOR crc_shl poly y"
  by (rule bit_word_eqI) (auto simp: crc_shl_def bit_xor_iff push_bit_xor)

lemma crc_shr_0 [simp]: "crc_shr poly 0 = 0"
  by (simp add: crc_shr_def)

lemma crc_shl_0 [simp]: "crc_shl poly 0 = 0"
  by (simp add: crc_shl_def)

lemma funpow_xor:
  fixes f :: "'a::len word \<Rightarrow> 'a word"
  assumes "\<And>x y. f (x XOR y) = f x XOR f y"
  shows "(f ^^ n) (x XOR y) = (f ^^ n) x XOR (f ^^ n) y"
  using assms by (induction n) simp_all

text \<open>A linear map whose only zero is 0 is injective.\<close>

lemma linear_inj:
  fixes f :: "'a::len word \<Rightarrow> 'b::len word"
  assumes lin: "\<And>x y. f (x XOR y) = f x XOR f y"
    and ker: "\<And>x. f x = 0 \<Longrightarrow> x = 0"
  shows "inj f"
proof (rule injI)
  fix x y
  assume "f x = f y"
  then have "f (x XOR y) = 0" by (simp add: lin)
  then have "x XOR y = 0" by (rule ker)
  then show "x = y" by (metis xor.left_neutral xor.right_neutral xor.assoc xor_self_eq)
qed

lemma crc_shr_inj:
  fixes poly :: "'a::len word"
  assumes top: "bit poly (LENGTH('a) - 1)"
  shows "inj (crc_shr poly)"
proof (rule linear_inj)
  show "crc_shr poly (x XOR y) = crc_shr poly x XOR crc_shr poly y" for x y
    by (rule crc_shr_xor)
next
  fix x :: "'a word"
  assume z: "crc_shr poly x = 0"
  have "\<not> bit x LENGTH('a)" by (simp add: bit_imp_le_length)
  then have low: "\<not> bit x 0"
    using z top
    by (auto simp: crc_shr_def bit_xor_iff bit_drop_bit_eq bit_eq_iff dest!: spec [of _ "LENGTH('a) - 1"]
        split: if_splits)
  with z have d: "drop_bit 1 x = 0" by (simp add: crc_shr_def)
  show "x = 0"
  proof (rule bit_word_eqI)
    fix n
    show "bit x n \<longleftrightarrow> bit (0 :: 'a word) n"
    proof (cases n)
      case 0
      with low show ?thesis by simp
    next
      case (Suc m)
      have "bit (drop_bit 1 x) m = bit x (Suc m)" by (simp add: bit_drop_bit_eq)
      with d Suc show ?thesis by simp
    qed
  qed
qed

lemma crc_shl_inj:
  fixes poly :: "'a::len word"
  assumes low: "bit poly 0"
  shows "inj (crc_shl poly)"
proof (rule linear_inj)
  show "crc_shl poly (x XOR y) = crc_shl poly x XOR crc_shl poly y" for x y
    by (rule crc_shl_xor)
next
  fix x :: "'a word"
  assume z: "crc_shl poly x = 0"
  have "bit (push_bit 1 x XOR poly) 0"
    using low by (simp add: bit_xor_iff bit_push_bit_iff del: push_bit_Suc)
  then have "push_bit 1 x XOR poly \<noteq> 0" by auto
  with z have top: "\<not> bit x (LENGTH('a) - 1)"
    by (auto simp: crc_shl_def)
  with z have d: "push_bit 1 x = 0" by (simp add: crc_shl_def)
  show "x = 0"
  proof (rule bit_word_eqI)
    fix n
    assume n: "n < LENGTH('a)"
    have "bit (push_bit 1 x) (Suc n) \<longleftrightarrow> Suc n < LENGTH('a) \<and> bit x n"
      by (simp add: bit_push_bit_iff del: push_bit_Suc)
    with d top n show "bit x n \<longleftrightarrow> bit (0 :: 'a word) n"
      by (cases "Suc n < LENGTH('a)") (auto simp: not_less less_Suc_eq_le dest: le_antisym)
  qed
qed

lemma ucast_u8_inj:
  assumes "8 \<le> LENGTH('a::len)"
  shows "inj (ucast :: u8 \<Rightarrow> 'a word)"
proof (rule injI)
  fix a b :: u8
  assume e: "(ucast a :: 'a word) = ucast b"
  show "a = b"
  proof (rule bit_word_eqI)
    fix n
    assume "n < LENGTH(8)"
    then show "bit a n = bit b n"
      using assms arg_cong [OF e, of "\<lambda>w. bit w n"] by (simp add: bit_ucast_iff)
  qed
qed

lemma xor_left_inj: "inj (\<lambda>c. c XOR (a :: 'a::len word))"
  by (rule injI) (metis xor.assoc xor_self_eq xor.right_neutral)

lemma xor_right_inj: "inj (\<lambda>c. (a :: 'a::len word) XOR c)"
  by (rule injI) (metis xor.assoc xor_self_eq xor.left_neutral)

lemma crc_shr_byte_inj_state:
  fixes poly :: "'a::len word"
  assumes "bit poly (LENGTH('a) - 1)"
  shows "inj (\<lambda>c. crc_shr_byte poly c b)"
  unfolding crc_shr_byte_def
  using inj_compose [OF inj_fn [OF crc_shr_inj [OF assms], of 8] xor_left_inj [of "ucast b"]]
  by (simp add: comp_def)

lemma crc_shr_byte_inj_byte:
  fixes poly :: "'a::len word"
  assumes "bit poly (LENGTH('a) - 1)" and "8 \<le> LENGTH('a)"
  shows "inj (crc_shr_byte poly c)"
proof -
  have "inj ((crc_shr poly ^^ 8) \<circ> ((\<lambda>w. c XOR w) \<circ> (ucast :: u8 \<Rightarrow> 'a word)))"
    by (intro inj_compose inj_fn crc_shr_inj assms xor_right_inj ucast_u8_inj)
  then show ?thesis by (simp add: crc_shr_byte_def [abs_def] comp_def)
qed

lemma crc_shl_byte_inj_state:
  fixes poly :: "'a::len word"
  assumes "bit poly 0"
  shows "inj (\<lambda>c. crc_shl_byte poly c b)"
  unfolding crc_shl_byte_def
  using inj_compose [OF inj_fn [OF crc_shl_inj [OF assms], of 8]
      xor_left_inj [of "push_bit (LENGTH('a) - 8) (ucast b)"]]
  by (simp add: comp_def)

text \<open>
  Two messages that differ in one byte leave the register in different states: the byte that
  differs makes them differ, and no later byte can make them agree again.
\<close>

lemma crc_shr_one_byte:
  fixes poly :: "'a::len word"
  assumes "bit poly (LENGTH('a) - 1)" and "8 \<le> LENGTH('a)" and "a \<noteq> b"
  shows "foldl (crc_shr_byte poly) c (p @ a # s) \<noteq> foldl (crc_shr_byte poly) c (p @ b # s)"
proof -
  have "crc_shr_byte poly (foldl (crc_shr_byte poly) c p) a
        \<noteq> crc_shr_byte poly (foldl (crc_shr_byte poly) c p) b"
    using crc_shr_byte_inj_byte [OF assms(1,2)] assms(3) by (auto dest: injD)
  then show ?thesis
    by (simp add: foldl_two_lists_neq [OF crc_shr_byte_inj_state [OF assms(1)]])
qed

text \<open>
  Two neighbouring bytes are 16 bits: on a register of at least 16 bits, eight rounds only
  move the second byte down, so the two bytes enter the register together, as one 16-bit word.
\<close>

lemma crc_shr_push:
  fixes v :: "'a::len word"
  assumes "\<And>m. 8 \<le> m \<Longrightarrow> \<not> bit v m" and "16 \<le> LENGTH('a)" and "k < 8"
  shows "crc_shr poly (push_bit (Suc k) v) = push_bit k v"
proof -
  have "\<not> bit (push_bit (Suc k) v) 0" by (simp add: bit_push_bit_iff del: push_bit_Suc)
  moreover have "drop_bit 1 (push_bit (Suc k) v) = push_bit k v"
  proof (rule bit_word_eqI)
    fix n
    assume n: "n < LENGTH('a)"
    have "bit v (n - k) \<Longrightarrow> k \<le> n \<Longrightarrow> Suc n < LENGTH('a)"
      using assms(1) [of "n - k"] assms(2,3) by (cases "8 \<le> n - k") auto
    with n show "bit (drop_bit 1 (push_bit (Suc k) v)) n = bit (push_bit k v) n"
      by (auto simp: bit_push_bit_iff bit_drop_bit_eq simp del: push_bit_Suc)
  qed
  ultimately show ?thesis by (simp add: crc_shr_def del: push_bit_Suc)
qed

lemma crc_shr_funpow_push:
  fixes v :: "'a::len word"
  assumes v: "\<And>m. 8 \<le> m \<Longrightarrow> \<not> bit v m" and w: "16 \<le> LENGTH('a)"
  shows "n \<le> 8 \<Longrightarrow> (crc_shr poly ^^ n) (push_bit n v) = v"
proof (induction n)
  case 0
  then show ?case by simp
next
  case (Suc n)
  then have "(crc_shr poly ^^ Suc n) (push_bit (Suc n) v) = (crc_shr poly ^^ n) (push_bit n v)"
    by (simp add: funpow_Suc_right crc_shr_push [OF v w] del: funpow.simps push_bit_Suc)
  with Suc show ?case by simp
qed

lemma crc_shr_two_bytes:
  fixes poly c :: "'a::len word"
  assumes w: "16 \<le> LENGTH('a)"
  shows "crc_shr_byte poly (crc_shr_byte poly c a) b =
         (crc_shr poly ^^ 16) (c XOR (ucast a XOR push_bit 8 (ucast b)))"
proof -
  let ?f = "crc_shr poly ^^ 8"
  have up: "?f (push_bit 8 (ucast b)) = ucast b"
    by (rule crc_shr_funpow_push) (auto simp: bit_ucast_iff w dest: bit_imp_le_length)
  have "crc_shr_byte poly (crc_shr_byte poly c a) b = ?f (?f (c XOR ucast a) XOR ?f (push_bit 8 (ucast b)))"
    by (simp add: crc_shr_byte_def up)
  also have "\<dots> = ?f (?f ((c XOR ucast a) XOR push_bit 8 (ucast b)))"
    by (simp only: funpow_xor [of "crc_shr poly", OF crc_shr_xor])
  also have "\<dots> = (crc_shr poly ^^ (8 + 8)) ((c XOR ucast a) XOR push_bit 8 (ucast b))"
    by (simp only: funpow_add comp_def)
  finally show ?thesis by (simp add: xor.assoc)
qed

lemma two_bytes_word_inj:
  fixes a b a' b' :: u8
  assumes e: "(ucast a XOR push_bit 8 (ucast b) :: 'a::len word) = ucast a' XOR push_bit 8 (ucast b')"
    and w: "16 \<le> LENGTH('a)"
  shows "a = a' \<and> b = b'"
proof
  have lo: "bit (ucast x XOR push_bit 8 (ucast y) :: 'a word) n = bit x n" if "n < 8" for x y :: u8 and n
    using that w by (simp add: bit_xor_iff bit_push_bit_iff bit_ucast_iff)
  have hi: "bit (ucast x XOR push_bit 8 (ucast y) :: 'a word) (8 + n) = bit y n" if "n < 8" for x y :: u8 and n
  proof -
    have "\<not> bit x (8 + n)" using bit_imp_le_length [of x "8 + n"] by auto
    then show ?thesis
      using that w by (simp add: bit_xor_iff bit_push_bit_iff bit_ucast_iff)
  qed
  show "a = a'"
  proof (rule bit_word_eqI)
    fix n
    assume "n < LENGTH(8)"
    then have n: "n < 8" by simp
    show "bit a n = bit a' n" using lo [OF n, of a b] lo [OF n, of a' b'] e by metis
  qed
  show "b = b'"
  proof (rule bit_word_eqI)
    fix n
    assume "n < LENGTH(8)"
    then have n: "n < 8" by simp
    show "bit b n = bit b' n" using hi [OF n, of a b] hi [OF n, of a' b'] e by metis
  qed
qed

lemma crc_shr_two_byte_burst:
  fixes poly :: "'a::len word"
  assumes "bit poly (LENGTH('a) - 1)" and w: "16 \<le> LENGTH('a)" and "(a, b) \<noteq> (a', b')"
  shows "foldl (crc_shr_byte poly) c (p @ a # b # s) \<noteq> foldl (crc_shr_byte poly) c (p @ a' # b' # s)"
proof -
  let ?c = "foldl (crc_shr_byte poly) c p"
  have "inj ((crc_shr poly ^^ 16) \<circ> (\<lambda>v. ?c XOR v))"
    by (intro inj_compose inj_fn crc_shr_inj assms xor_right_inj)
  moreover have "(ucast a XOR push_bit 8 (ucast b) :: 'a word) \<noteq> ucast a' XOR push_bit 8 (ucast b')"
    using two_bytes_word_inj [where 'a = 'a, OF _ w] assms(3) by blast
  ultimately have "crc_shr_byte poly (crc_shr_byte poly ?c a) b \<noteq> crc_shr_byte poly (crc_shr_byte poly ?c a') b'"
    unfolding crc_shr_two_bytes [OF w] comp_def using injD by fastforce
  then show ?thesis
    by (simp add: foldl_two_lists_neq [OF crc_shr_byte_inj_state [OF assms(1)]])
qed

section \<open>The reflected loop is the mirror image of the plain loop\<close>

lemma invert_drop_push:
  "invert_loop LENGTH('a) (drop_bit 1 (x :: 'a::len word)) = push_bit 1 (invert_loop LENGTH('a) x)"
proof (rule bit_word_eqI)
  fix n
  assume n: "n < LENGTH('a)"
  show "bit (invert_loop LENGTH('a) (drop_bit 1 x)) n = bit (push_bit 1 (invert_loop LENGTH('a) x)) n"
  proof (cases n)
    case 0
    have "\<not> bit x LENGTH('a)" using bit_imp_le_length [of x "LENGTH('a)"] by auto
    with 0 show ?thesis
      by (simp add: bit_invert_loop bit_push_bit_iff bit_drop_bit_eq del: push_bit_Suc)
  next
    case (Suc m)
    with n have "Suc (LENGTH('a) - Suc (Suc m)) = LENGTH('a) - Suc m" by simp
    with Suc n show ?thesis
      by (simp add: bit_invert_loop bit_push_bit_iff bit_drop_bit_eq del: push_bit_Suc)
  qed
qed

lemma crc_shr_mirror:
  "invert_loop LENGTH('a) (crc_shr (invert_loop LENGTH('a) poly) x) =
   crc_shl poly (invert_loop LENGTH('a) (x :: 'a::len word))"
proof -
  have "bit (invert_loop LENGTH('a) x) (LENGTH('a) - 1) = bit x 0"
    by (simp add: bit_invert_loop)
  then show ?thesis
    by (simp add: crc_shr_def crc_shl_def invert_loop_xor invert_loop_invert_loop invert_drop_push
        del: push_bit_Suc One_nat_def)
qed

lemma crc_shr_mirror_funpow:
  "invert_loop LENGTH('a) ((crc_shr (invert_loop LENGTH('a) poly) ^^ n) x) =
   (crc_shl poly ^^ n) (invert_loop LENGTH('a) (x :: 'a::len word))"
  by (induction n) (simp_all add: crc_shr_mirror)

lemma invert_ucast:
  assumes "8 \<le> LENGTH('a)"
  shows "invert_loop LENGTH('a) (ucast (b :: u8) :: 'a::len word) =
         push_bit (LENGTH('a) - 8) (ucast (InvertUint8 b))"
proof (rule bit_word_eqI)
  fix n
  assume n: "n < LENGTH('a)"
  have lhs: "bit (invert_loop LENGTH('a) (ucast b :: 'a word)) n = bit b (LENGTH('a) - 1 - n)"
    using n by (simp add: bit_invert_loop bit_ucast_iff)
  have rhs: "bit (push_bit (LENGTH('a) - 8) (ucast (InvertUint8 b)) :: 'a word) n \<longleftrightarrow>
      LENGTH('a) - 8 \<le> n \<and> bit b (7 - (n - (LENGTH('a) - 8)))"
    using n assms by (auto simp: bit_InvertUint8 bit_push_bit_iff bit_ucast_iff)
  show "bit (invert_loop LENGTH('a) (ucast b :: 'a word)) n =
        bit (push_bit (LENGTH('a) - 8) (ucast (InvertUint8 b)) :: 'a word) n"
  proof (cases "LENGTH('a) - 8 \<le> n")
    case True
    with n assms have "LENGTH('a) - 1 - n = 7 - (n - (LENGTH('a) - 8))" by arith
    with True show ?thesis unfolding lhs rhs by simp
  next
    case False
    then have "\<not> bit b (LENGTH('a) - 1 - n)"
      using bit_imp_le_length [of b "LENGTH('a) - 1 - n"] by auto
    with False show ?thesis unfolding lhs rhs by simp
  qed
qed

lemma crc_shr_byte_mirror:
  assumes "8 \<le> LENGTH('a)"
  shows "invert_loop LENGTH('a) (crc_shr_byte (invert_loop LENGTH('a) poly) c b) =
         crc_shl_byte poly (invert_loop LENGTH('a) (c :: 'a::len word)) (InvertUint8 b)"
  unfolding crc_shr_byte_def crc_shl_byte_def
  by (simp add: crc_shr_mirror_funpow invert_loop_xor invert_ucast assms)

lemma crc_fold_mirror:
  assumes "8 \<le> LENGTH('a)"
  shows "invert_loop LENGTH('a) (foldl (crc_shr_byte (invert_loop LENGTH('a) poly)) c data) =
         foldl (crc_shl_byte poly) (invert_loop LENGTH('a) (c :: 'a::len word)) (map InvertUint8 data)"
  by (induction data arbitrary: c) (simp_all add: crc_shr_byte_mirror assms)

section \<open>Properties of the checksums\<close>

lemma InvertUint16_top: "bit (InvertUint16 poly) 15 = bit poly 0"
  by (simp add: bit_InvertUint16)

lemma InvertUint32_top: "bit (InvertUint32 poly) 31 = bit poly 0"
  by (simp add: bit_InvertUint32)

lemma crc16_modbus_burst_unequal:
  assumes "(a, b) \<noteq> (a', b')"
  shows "wow_crc16_modbus (p @ a # b # s) \<noteq> wow_crc16_modbus (p @ a' # b' # s)"
  unfolding wow_crc16_modbus_def
  by (rule crc_shr_two_byte_burst) (use assms in \<open>simp_all add: InvertUint16_top\<close>)

text \<open>The Modbus checksum detects every error burst that is confined to two neighbouring bytes.\<close>

theorem crc16_modbus_burst:
  assumes "(a, b) \<noteq> (a', b')"
  shows "wow_crc16_modbus (p @ a # b # s) \<noteq> wow_crc16_modbus (p @ a' # b' # s)"
  by (rule crc16_modbus_burst_unequal [OF assms])

theorem crc16_modbus_burst_witness:
  "wow_crc16_modbus [1, 3, 0, 0] \<noteq> wow_crc16_modbus [1, 4, 9, 0]"
  using crc16_modbus_burst [of 3 0 4 9 "[1]" "[0]"] by simp

text \<open>C9. The reflected CRC-16 is the bit reversal of the unreflected CRC (same generator
  polynomial, written most significant bit first) of the bit-reversed message.\<close>

theorem crc16_modbus_mirror:
  "wow_crc16_modbus data =
   InvertUint16 (foldl (crc_shl_byte 0x8005) 0xFFFF (map InvertUint8 data))"
proof -
  have ff: "invert_loop LENGTH(16) (0xFFFF :: u16) = 0xFFFF"
    by (simp add: invert_loop_def upt_rec)
  have "InvertUint16 (wow_crc16_modbus data) =
        foldl (crc_shl_byte 0x8005) (invert_loop LENGTH(16) 0xFFFF) (map InvertUint8 data)"
    unfolding wow_crc16_modbus_def InvertUint16_loop by (rule crc_fold_mirror) simp
  then show ?thesis
    by (metis ff InvertUint16_loop invert_loop_invert_loop)
qed

text \<open>The values of the published test message \<open>123456789\<close>.\<close>

definition check_message :: bytes where
  "check_message = [0x31, 0x32, 0x33, 0x34, 0x35, 0x36, 0x37, 0x38, 0x39]"

lemma funpow_8: "(f ^^ 8) x = f (f (f (f (f (f (f (f x)))))))"
  by (simp add: eval_nat_numeral)

lemma InvertUint_polys:
  "InvertUint8 0x07 = 0xE0" "InvertUint8 0x31 = 0x8C"
  "InvertUint16 0x1021 = 0x8408" "InvertUint16 0x8005 = 0xA001" "InvertUint16 0x3D65 = 0xA6BC"
  "InvertUint32 0x04C11DB7 = 0xEDB88320"
  by (simp_all add: InvertUint8_def InvertUint16_def InvertUint32_def invert_loop_def upt_rec)

lemmas crc_eval = crc_shl_byte_def crc_shl_def crc_shr_byte_def crc_shr_def
  funpow_8 InvertUint_polys

text \<open>Every CRC of the file yields the published check value of its parameter set: width,
  polynomial, initial value, reflection and final xor are the ones its comment names.\<close>

theorem crc_check_values:
  "wow_crc8 check_message = 0xF4 \<and> wow_crc8_itu check_message = 0xA1 \<and>
   wow_crc8_rohc check_message = 0xD0 \<and> wow_crc8_maxim check_message = 0xA1 \<and>
   wow_crc16_ccitt check_message = 0x2189 \<and> wow_crc16_xmodem check_message = 0x31C3 \<and>
   wow_crc16_x25 check_message = 0x906E \<and> wow_crc16_modbus check_message = 0x4B37 \<and>
   wow_crc16_ibm check_message = 0xBB3D \<and> wow_crc16_maxim check_message = 0x44C2 \<and>
   wow_crc16_usb check_message = 0xB4C8 \<and> wow_crc16_dnp check_message = 0xEA82 \<and>
   wow_crc32 check_message = 0xCBF43926 \<and> wow_crc32_mpeg check_message = 0x0376E6E7"
  by (intro conjI)
     (simp_all only: wow_crc8_def wow_crc8_itu_def wow_crc8_rohc_def wow_crc8_maxim_def
        wow_crc16_ccitt_def wow_crc16_xmodem_def wow_crc16_x25_def wow_crc16_modbus_def
        wow_crc16_ibm_def wow_crc16_maxim_def wow_crc16_usb_def wow_crc16_dnp_def
        wow_crc32_def wow_crc32_mpeg_def check_message_def,
      simp_all add: crc_eval)

text \<open>The two plain sums are the byte sum modulo the width.\<close>

lemma foldl_plus_word:
  "foldl (\<lambda>c b. c + (of_nat (f b) :: 'a::len word)) (of_nat k) data = of_nat (k + sum_list (map f data))"
proof (induction data arbitrary: k)
  case Nil
  then show ?case by simp
next
  case (Cons b data)
  have "foldl (\<lambda>c b. c + (of_nat (f b) :: 'a word)) (of_nat k) (b # data) =
        foldl (\<lambda>c b. c + of_nat (f b)) (of_nat (k + f b)) data" by simp
  also have "\<dots> = of_nat (k + f b + sum_list (map f data))" by (rule Cons)
  finally show ?case by (simp add: add.assoc)
qed

lemma wow_crc8_add_sum: "unat (wow_crc8_add data) = sum_list (map unat data) mod 256"
  using foldl_plus_word [where 'a = 8, of unat 0 data]
  by (simp add: wow_crc8_add_def unat_of_nat)

lemma wow_crc16_add_sum: "unat (wow_crc16_add data) = sum_list (map unat data) mod 65536"
  using foldl_plus_word [where 'a = 16, of unat 0 data]
  by (simp add: wow_crc16_add_def unat_of_nat)

end
