(* ===== verification/Port.thy ===== *)
theory Port
  imports Prelude
begin

text \<open>
  The link layer of \<open>wow_iot/src/protocol/wow_proto_port.c\<close>: a table of four functions
  (\<open>ProtoPortCtx_T\<close>) over a port, filled in for a TCP server, a TCP client or a serial line.

  The sockets themselves are below this layer. What a port still has to deliver is \<open>rx\<close>, one
  list element per chunk that arrives together; the empty chunk is a read that times out. A read
  of \<open>n\<close> bytes returns at most \<open>n\<close> bytes of the first chunk. \<open>tx\<close> collects what was written,
  \<open>tx_cap\<close> bounds what one write accepts. A \<open>Tcp_T*\<close> is null, live or freed, and closing a
  freed one is undefined (\<open>None\<close>). The callback that \<open>eth_link_aceept_cb\<close> runs after it has stored a new client
  belongs to the station above the port, and runs there.
\<close>

section \<open>Ports and the function table\<close>

datatype handle = Null | Live | Freed

record proto_port =
  server :: handle
  client :: handle
  conn :: bool
  disconn :: bool
  uart_opened :: bool
  rx :: "bytes list"
  tx :: "bytes list"
  tx_cap :: nat

text \<open>What the calls into the socket layer answer while a link is opened.\<close>

record open_env =
  open_ok :: bool
  listen_ok :: bool
  accept_cb_ok :: bool
  connect_ok :: bool

record 's ProtoPortCtx =
  link_open :: "open_env \<Rightarrow> 's \<Rightarrow> (int \<times> 's) option"
  link_send :: "'s \<Rightarrow> bytes \<Rightarrow> (int \<times> 's) option"
  link_recv :: "'s \<Rightarrow> nat \<Rightarrow> (int \<times> bytes \<times> 's) option"
  link_close :: "'s \<Rightarrow> 's option"

section \<open>The socket layer below\<close>

definition wow_tcp_close :: "handle \<Rightarrow> handle option" where
  "wow_tcp_close h = (case h of Null \<Rightarrow> Some Null | Live \<Rightarrow> Some Freed | Freed \<Rightarrow> None)"

definition os_write :: "proto_port \<Rightarrow> bytes \<Rightarrow> int \<times> proto_port" where
  "os_write p d = (let s = take (tx_cap p) d in (int (length s), p\<lparr>tx := tx p @ [s]\<rparr>))"

definition os_read :: "proto_port \<Rightarrow> nat \<Rightarrow> int \<times> bytes \<times> proto_port" where
  "os_read p n =
     (case rx p of
        [] \<Rightarrow> (0, [], p)
      | c # cs \<Rightarrow>
          if c = [] then (0, [], p\<lparr>rx := cs\<rparr>)
          else (int (length (take n c)), take n c,
                p\<lparr>rx := (if length c \<le> n then cs else drop n c # cs)\<rparr>))"

section \<open>TCP ports\<close>

definition eth_link_aceept_cb :: "proto_port \<Rightarrow> bytes list \<Rightarrow> proto_port option" where
  "eth_link_aceept_cb p incoming =
     do {
       p \<leftarrow> (if client p \<noteq> Null
             then map_option (\<lambda>_. p\<lparr>client := Null\<rparr>) (wow_tcp_close (client p))
             else Some p);
       Some (p\<lparr>client := Live, rx := incoming\<rparr>)
     }"

definition eth_link_server_open :: "open_env \<Rightarrow> proto_port \<Rightarrow> (int \<times> proto_port) option" where
  "eth_link_server_open env p =
     (let p = p\<lparr>server := (if open_ok env then Live else Null)\<rparr> in
      if server p = Null then Some (-1, p)
      else if \<not> listen_ok env \<or> \<not> accept_cb_ok env
      then do { h \<leftarrow> wow_tcp_close (server p); Some (-1, p\<lparr>server := h\<rparr>) }
      else Some (0, p))"

definition eth_link_client_open :: "open_env \<Rightarrow> proto_port \<Rightarrow> (int \<times> proto_port) option" where
  "eth_link_client_open env p =
     (let p = p\<lparr>client := (if open_ok env then Live else Null)\<rparr> in
      if client p = Null then Some (-1, p)
      else if \<not> connect_ok env
      then do { _ \<leftarrow> wow_tcp_close (client p); Some (-1, p\<lparr>client := Null\<rparr>) }
      else Some (0, p))"

definition eth_link_send :: "proto_port \<Rightarrow> bytes \<Rightarrow> (int \<times> proto_port) option" where
  "eth_link_send p d =
     (case client p of Null \<Rightarrow> Some (-1, p) | Live \<Rightarrow> Some (os_write p d) | Freed \<Rightarrow> None)"

definition eth_link_recv :: "proto_port \<Rightarrow> nat \<Rightarrow> (int \<times> bytes \<times> proto_port) option" where
  "eth_link_recv p n =
     (case client p of Null \<Rightarrow> Some (-1, [], p) | Live \<Rightarrow> Some (os_read p n) | Freed \<Rightarrow> None)"

definition eth_link_close :: "proto_port \<Rightarrow> proto_port option" where
  "eth_link_close p =
     (if client p = Null then Some p
      else do { _ \<leftarrow> wow_tcp_close (client p); Some (p\<lparr>client := Null\<rparr>) })"

definition new_port :: proto_port where
  "new_port = \<lparr>server = Null, client = Null, conn = False, disconn = False,
     uart_opened = False, rx = [], tx = [], tx_cap = 1500\<rparr>"

definition proto_port_eth_slave_init :: "proto_port ProtoPortCtx \<times> proto_port" where
  "proto_port_eth_slave_init =
     (\<lparr>link_open = eth_link_server_open, link_send = eth_link_send,
       link_recv = eth_link_recv, link_close = eth_link_close\<rparr>, new_port)"

definition proto_port_eth_master_init :: "proto_port ProtoPortCtx \<times> proto_port" where
  "proto_port_eth_master_init =
     (\<lparr>link_open = eth_link_client_open, link_send = eth_link_send,
       link_recv = eth_link_recv, link_close = eth_link_close\<rparr>, new_port)"

definition proto_port_eth_set_connected_cb :: "proto_port \<Rightarrow> bool \<Rightarrow> int \<times> proto_port" where
  "proto_port_eth_set_connected_cb p cb =
     (if \<not> cb then (-101, p) else (0, p\<lparr>conn := True\<rparr>))"

definition proto_port_eth_set_disconnected_cb :: "proto_port \<Rightarrow> bool \<Rightarrow> int \<times> proto_port" where
  "proto_port_eth_set_disconnected_cb p cb =
     (if \<not> cb then (-101, p) else (0, p\<lparr>disconn := True\<rparr>))"

text \<open>The exits free the port; their result is the pair of handles they leave behind.\<close>

definition proto_port_eth_slave_exit :: "proto_port \<Rightarrow> (handle \<times> handle) option" where
  "proto_port_eth_slave_exit p =
     do {
       c \<leftarrow> (if client p \<noteq> Null then wow_tcp_close (client p) else Some Null);
       s \<leftarrow> (if server p \<noteq> Null then wow_tcp_close (server p) else Some Null);
       Some (c, s)
     }"

definition proto_port_eth_master_exit :: "proto_port \<Rightarrow> handle option" where
  "proto_port_eth_master_exit p =
     (if client p \<noteq> Null then wow_tcp_close (client p) else Some Null)"

section \<open>Serial ports\<close>

definition uart_link_open :: "open_env \<Rightarrow> proto_port \<Rightarrow> (int \<times> proto_port) option" where
  "uart_link_open env p =
     (if \<not> open_ok env then Some (-1, p) else Some (0, p\<lparr>uart_opened := True\<rparr>))"

definition uart_link_send :: "proto_port \<Rightarrow> bytes \<Rightarrow> (int \<times> proto_port) option" where
  "uart_link_send p d = (if \<not> uart_opened p then Some (-1, p) else Some (os_write p d))"

definition uart_link_recv :: "proto_port \<Rightarrow> nat \<Rightarrow> (int \<times> bytes \<times> proto_port) option" where
  "uart_link_recv p n = (if \<not> uart_opened p then Some (-1, [], p) else Some (os_read p n))"

definition uart_link_close :: "proto_port \<Rightarrow> proto_port option" where
  "uart_link_close p = Some (p\<lparr>uart_opened := False\<rparr>)"

definition proto_port_uart_init :: "proto_port ProtoPortCtx \<times> proto_port" where
  "proto_port_uart_init =
     (\<lparr>link_open = uart_link_open, link_send = uart_link_send,
       link_recv = uart_link_recv, link_close = uart_link_close\<rparr>, new_port)"

definition proto_port_uart_exit :: "proto_port \<Rightarrow> proto_port option" where
  "proto_port_uart_exit p = uart_link_close p"

section \<open>The contract of a link\<close>

text \<open>
  What a protocol relies on: on a usable link a read returns (no undefined behaviour), returns
  at most what was asked for, in order, and consumes exactly what it returned.
\<close>

locale proto_link =
  fixes ops :: "'s ProtoPortCtx"
    and pending :: "'s \<Rightarrow> bytes"
    and ready :: "'s \<Rightarrow> bool"
  assumes recv_total: "ready s \<Longrightarrow> \<exists>ret d s'. link_recv ops s n = Some (ret, d, s')"
    and recv_ready: "ready s \<Longrightarrow> link_recv ops s n = Some (ret, d, s') \<Longrightarrow> ready s'"
    and recv_data: "ready s \<Longrightarrow> link_recv ops s n = Some (ret, d, s') \<Longrightarrow>
      length d \<le> n \<and> ret = int (length d) \<and> pending s = d @ pending s'"
    and send_total: "ready s \<Longrightarrow> \<exists>ret s'. link_send ops s d = Some (ret, s')"
    and send_ready: "ready s \<Longrightarrow> link_send ops s d = Some (ret, s') \<Longrightarrow> ready s'"

text \<open>A link in good order: while bytes are pending no read times out. \<open>sent\<close> is what the other end
  has seen of it, which reading does not change.\<close>

locale prompt_link = proto_link ops pending ready
  for ops :: "'s ProtoPortCtx" and pending :: "'s \<Rightarrow> bytes" and ready :: "'s \<Rightarrow> bool" +
  fixes prompt :: "'s \<Rightarrow> bool"
    and sent :: "'s \<Rightarrow> 'o"
  assumes recv_prompt: "ready s \<Longrightarrow> prompt s \<Longrightarrow> pending s \<noteq> [] \<Longrightarrow> 0 < n \<Longrightarrow>
      link_recv ops s n = Some (ret, d, s') \<Longrightarrow> d \<noteq> []"
    and prompt_recv: "ready s \<Longrightarrow> prompt s \<Longrightarrow> link_recv ops s n = Some (ret, d, s') \<Longrightarrow>
      prompt s' \<and> sent s' = sent s"

text \<open>A link with a direction each way: a write of a message takes all of it, adds it to what was
  \<open>sent\<close>, and leaves what is pending alone.\<close>

locale duplex_link = prompt_link ops pending ready prompt sent
  for ops :: "'s ProtoPortCtx" and pending :: "'s \<Rightarrow> bytes" and ready :: "'s \<Rightarrow> bool"
    and prompt :: "'s \<Rightarrow> bool" and sent :: "'s \<Rightarrow> bytes list" +
  assumes prompt_send: "ready s \<Longrightarrow> prompt s \<Longrightarrow> length d \<le> 260 \<Longrightarrow>
      link_send ops s d = Some (ret, s') \<Longrightarrow>
      ret = int (length d) \<and> prompt s' \<and> sent s' = sent s @ [d] \<and> pending s' = pending s"

text \<open>When a port is in good order: no empty chunk (a read that times out) is queued, and one write
  accepts a whole message.\<close>

definition port_prompt :: "proto_port \<Rightarrow> bool" where
  "port_prompt p \<longleftrightarrow> [] \<notin> set (rx p) \<and> 260 \<le> tx_cap p"

lemma os_read_data:
  "os_read p n = (ret, d, p') \<Longrightarrow>
   length d \<le> n \<and> ret = int (length d) \<and> concat (rx p) = d @ concat (rx p')"
  by (auto simp: os_read_def split: list.splits if_splits)

lemma os_read_frame:
  "os_read p n = (ret, d, p') \<Longrightarrow>
   client p' = client p \<and> uart_opened p' = uart_opened p \<and> tx p' = tx p \<and> tx_cap p' = tx_cap p"
  by (auto simp: os_read_def split: list.splits if_splits)

lemma os_read_prompt:
  "os_read p n = (ret, d, p') \<Longrightarrow> port_prompt p \<Longrightarrow>
   port_prompt p' \<and> (0 < n \<longrightarrow> concat (rx p) \<noteq> [] \<longrightarrow> d \<noteq> [])"
  by (auto simp: os_read_def port_prompt_def split: list.splits if_splits)

lemma os_write_frame:
  "os_write p d = (ret, p') \<Longrightarrow> client p' = client p \<and> uart_opened p' = uart_opened p \<and> rx p' = rx p"
  by (auto simp: os_write_def Let_def)

lemma os_write_prompt:
  "os_write p d = (ret, p') \<Longrightarrow> port_prompt p \<Longrightarrow> length d \<le> 260 \<Longrightarrow>
   ret = int (length d) \<and> port_prompt p' \<and> tx p' = tx p @ [d]"
  by (auto simp: os_write_def port_prompt_def Let_def)

interpretation eth_slave: duplex_link "fst proto_port_eth_slave_init" "\<lambda>p. concat (rx p)"
  "\<lambda>p. client p = Live" port_prompt tx
  by unfold_locales
     (auto simp: proto_port_eth_slave_init_def eth_link_recv_def eth_link_send_def
       dest: os_read_data os_read_frame os_read_prompt os_write_frame os_write_prompt
       intro: prod_cases3 [of "os_read _ _"] surj_pair)

interpretation eth_master: duplex_link "fst proto_port_eth_master_init" "\<lambda>p. concat (rx p)"
  "\<lambda>p. client p = Live" port_prompt tx
  by unfold_locales
     (auto simp: proto_port_eth_master_init_def eth_link_recv_def eth_link_send_def
       dest: os_read_data os_read_frame os_read_prompt os_write_frame os_write_prompt
       intro: prod_cases3 [of "os_read _ _"] surj_pair)

interpretation uart: duplex_link "fst proto_port_uart_init" "\<lambda>p. concat (rx p)"
  "\<lambda>p. uart_opened p" port_prompt tx
  by unfold_locales
     (auto simp: proto_port_uart_init_def uart_link_recv_def uart_link_send_def
       dest: os_read_data os_read_frame os_read_prompt os_write_frame os_write_prompt
       intro: prod_cases3 [of "os_read _ _"] surj_pair)

section \<open>Properties of the ports\<close>

text \<open>A TCP server port whose \<open>link_open\<close> fails after the socket was created (listen or the
  accept callback is refused) keeps a dangling \<open>server\<close> pointer: the clean-up its callers run
  next, \<open>proto_port_eth_slave_exit\<close>, closes the freed handle a second time.\<close>

theorem slave_open_failure_double_close:
  assumes "open_ok env" and "\<not> listen_ok env \<or> \<not> accept_cb_ok env" and "client p = Null"
  shows "\<exists>p'. eth_link_server_open env p = Some (-1, p') \<and> proto_port_eth_slave_exit p' = None"
  using assms by (auto simp: eth_link_server_open_def proto_port_eth_slave_exit_def wow_tcp_close_def)

theorem slave_open_failure_double_close_witness:
  "\<exists>p'. eth_link_server_open \<lparr>open_ok = True, listen_ok = False, accept_cb_ok = True, connect_ok = True\<rparr>
          new_port = Some (-1, p') \<and> proto_port_eth_slave_exit p' = None"
  by (rule slave_open_failure_double_close) (simp_all add: new_port_def)

lemma master_open_failure_safe:
  "eth_link_client_open env p = Some (-1, p') \<Longrightarrow> proto_port_eth_master_exit p' = Some Null"
  by (auto simp: eth_link_client_open_def proto_port_eth_master_exit_def wow_tcp_close_def Let_def
      split: if_splits)

end
