(* ===== verification/ModbusCtx.thy ===== *)
theory ModbusCtx
  imports Crc Port
begin

text \<open>
  The transport-specific half of Modbus: \<open>wow_iot/src/protocol/modbus/modbus_rtu.c\<close>,
  \<open>modbus_tcp.c\<close> and the types of \<open>modbus_internal.h\<close>. The code keeps the six operations
  that depend on the transport in a table of function pointers, \<open>ModbusCtx_T\<close>, with the two
  instances \<open>gt_modbusRtuCtx\<close> and \<open>gt_modbusTcpCtx\<close>; here the table is a record of functions.
  The contract the master and the slave rely on is the locale \<open>modbus_backend\<close>, and both
  tables are interpretations of it.
\<close>

section \<open>Types and constants\<close>

datatype ModbusFunctionMode_E =
    MODBUS_READ_COILS
  | MODBUS_READ_DISCRETE_INPUTS
  | MODBUS_READ_HOLDING_REGISTERS
  | MODBUS_READ_INPUT_REGISTERS
  | MODBUS_WRITE_SINGLE_COIL
  | MODBUS_WRITE_SINGLE_REGISTER
  | MODBUS_READ_EXCEPTION_STATUS
  | MODBUS_WRITE_MULTIPLE_COILS
  | MODBUS_WRITE_MULTIPLE_REGISTERS
  | MODBUS_REPORT_SLAVE_ID

fun afn_code :: "ModbusFunctionMode_E \<Rightarrow> nat" where
  "afn_code MODBUS_READ_COILS = 0x01"
| "afn_code MODBUS_READ_DISCRETE_INPUTS = 0x02"
| "afn_code MODBUS_READ_HOLDING_REGISTERS = 0x03"
| "afn_code MODBUS_READ_INPUT_REGISTERS = 0x04"
| "afn_code MODBUS_WRITE_SINGLE_COIL = 0x05"
| "afn_code MODBUS_WRITE_SINGLE_REGISTER = 0x06"
| "afn_code MODBUS_READ_EXCEPTION_STATUS = 0x07"
| "afn_code MODBUS_WRITE_MULTIPLE_COILS = 0x0F"
| "afn_code MODBUS_WRITE_MULTIPLE_REGISTERS = 0x10"
| "afn_code MODBUS_REPORT_SLAVE_ID = 0x11"

text \<open>The \<open>switch\<close> on a function code read from the wire: \<open>None\<close> is its \<open>default\<close> branch.\<close>

definition afn_of :: "nat \<Rightarrow> ModbusFunctionMode_E option" where
  "afn_of c =
     (if c = 0x01 then Some MODBUS_READ_COILS
      else if c = 0x02 then Some MODBUS_READ_DISCRETE_INPUTS
      else if c = 0x03 then Some MODBUS_READ_HOLDING_REGISTERS
      else if c = 0x04 then Some MODBUS_READ_INPUT_REGISTERS
      else if c = 0x05 then Some MODBUS_WRITE_SINGLE_COIL
      else if c = 0x06 then Some MODBUS_WRITE_SINGLE_REGISTER
      else if c = 0x07 then Some MODBUS_READ_EXCEPTION_STATUS
      else if c = 0x0F then Some MODBUS_WRITE_MULTIPLE_COILS
      else if c = 0x10 then Some MODBUS_WRITE_MULTIPLE_REGISTERS
      else if c = 0x11 then Some MODBUS_REPORT_SLAVE_ID
      else None)"

lemma afn_of_code [simp]: "afn_of (afn_code f) = Some f"
  by (cases f) (simp_all add: afn_of_def)

lemma afn_of_Some: "afn_of c = Some f \<longleftrightarrow> c = afn_code f"
  by (cases f) (auto simp: afn_of_def)

lemma afn_code_small: "afn_code f < 18"
  by (cases f) simp_all

text \<open>The exception codes of \<open>ModbusErrorCode_E\<close>.\<close>

definition MODBUS_ILLEGAL_FUNCTION :: int where "MODBUS_ILLEGAL_FUNCTION = 1"
definition MODBUS_ILLEGAL_DATA_VALUE :: int where "MODBUS_ILLEGAL_DATA_VALUE = 3"
definition MODBUS_ERROR_MAX :: int where "MODBUS_ERROR_MAX = 7"

definition MAX_MESSAGE_LENGTH :: nat where "MAX_MESSAGE_LENGTH = 260"
definition MODBUS_MAX_READ_BITS :: nat where "MODBUS_MAX_READ_BITS = 2000"
definition MODBUS_MAX_WRITE_BITS :: nat where "MODBUS_MAX_WRITE_BITS = 1968"
definition MODBUS_MAX_READ_REGISTERS :: nat where "MODBUS_MAX_READ_REGISTERS = 125"
definition MODBUS_MAX_WRITE_REGISTERS :: nat where "MODBUS_MAX_WRITE_REGISTERS = 123"

lemmas modbus_consts = MODBUS_ILLEGAL_FUNCTION_def MODBUS_ILLEGAL_DATA_VALUE_def
  MODBUS_ERROR_MAX_def MAX_MESSAGE_LENGTH_def MODBUS_MAX_READ_BITS_def
  MODBUS_MAX_WRITE_BITS_def MODBUS_MAX_READ_REGISTERS_def MODBUS_MAX_WRITE_REGISTERS_def

datatype MsgType_E = MSG_INDICATION | MSG_CONFIRMATION

datatype Step_E = STEP_FUNCTION | STEP_META | STEP_DATA

datatype ModbusBackendType_E = MODBUS_BACKEND_TYPE_RTU | MODBUS_BACKEND_TYPE_TCP

record sft_t =
  sft_slave :: int
  sft_function :: int
  sft_t_id :: nat

record ModbusCtx_T =
  backend_type :: ModbusBackendType_E
  header_length :: nat
  checksum_length :: nat
  max_adu_length :: nat
  build_request_basis :: "u16 \<Rightarrow> bytes \<Rightarrow> int \<Rightarrow> int \<Rightarrow> nat \<Rightarrow> nat \<Rightarrow> (u16 \<times> bytes \<times> nat) option"
  build_response_basis :: "sft_t \<Rightarrow> bytes \<Rightarrow> (bytes \<times> nat) option"
  prepare_response_tid :: "bytes \<Rightarrow> nat \<Rightarrow> nat option"
  send_msg_pre :: "bytes \<Rightarrow> nat \<Rightarrow> (bytes \<times> nat) option"
  check_integrity :: "bytes \<Rightarrow> nat \<Rightarrow> int option"
  check_confirmation_pre :: "bytes \<Rightarrow> bytes \<Rightarrow> nat \<Rightarrow> int option"

text \<open>\<open>Modbus_T\<close>: the two 260-byte buffers, the transaction id of TCP, the retry budget, the link.\<close>

record 's Modbus_T =
  t_id :: u16
  timeout :: u32
  times :: u16
  mb_ctx :: ModbusCtx_T
  mb_ops :: "'s ProtoPortCtx"
  link :: 's
  req :: bytes
  rsp :: bytes

section \<open>modbus\_rtu.c\<close>

definition modbus_rtu_build_request_basis ::
  "u16 \<Rightarrow> bytes \<Rightarrow> int \<Rightarrow> int \<Rightarrow> nat \<Rightarrow> nat \<Rightarrow> (u16 \<times> bytes \<times> nat) option" where
  "modbus_rtu_build_request_basis tid rq slave function addr nb =
     do {
       rq \<leftarrow> wrn rq 0 [word_of_int slave, word_of_int function, hi8 addr, lo8 addr, hi8 nb, lo8 nb];
       Some (tid, rq, 6)
     }"

definition modbus_rtu_build_response_basis :: "sft_t \<Rightarrow> bytes \<Rightarrow> (bytes \<times> nat) option" where
  "modbus_rtu_build_response_basis sft rs =
     do {
       rs \<leftarrow> wrn rs 0 [word_of_int (sft_slave sft), word_of_int (sft_function sft)];
       Some (rs, 2)
     }"

definition modbus_rtu_prepare_response_tid :: "bytes \<Rightarrow> nat \<Rightarrow> nat option" where
  "modbus_rtu_prepare_response_tid rq req_length = Some 0"

definition modbus_rtu_send_msg_pre :: "bytes \<Rightarrow> nat \<Rightarrow> (bytes \<times> nat) option" where
  "modbus_rtu_send_msg_pre rq req_length =
     do {
       msg \<leftarrow> rdn rq 0 req_length;
       let crc = unat (wow_crc16_modbus msg);
       rq \<leftarrow> wr rq req_length (lo8 crc);
       rq \<leftarrow> wr rq (req_length + 1) (hi8 crc);
       Some (rq, req_length + 2)
     }"

definition modbus_rtu_check_confirmation :: "bytes \<Rightarrow> bytes \<Rightarrow> nat \<Rightarrow> int option" where
  "modbus_rtu_check_confirmation rq rs rsp_length =
     (if \<not> rsp_length \<ge> 1 then Some (-1)
      else do {
        q0 \<leftarrow> rd rq 0;
        r0 \<leftarrow> rd rs 0;
        Some (if q0 = r0 then 0 else -1)
      })"

definition modbus_rtu_check_integrity :: "bytes \<Rightarrow> nat \<Rightarrow> int option" where
  "modbus_rtu_check_integrity msg msg_length =
     (if \<not> msg_length \<ge> 2 then Some (-1)
      else do {
        body \<leftarrow> rdn msg 0 (msg_length - 2);
        h \<leftarrow> rd msg (msg_length - 1);
        l \<leftarrow> rd msg (msg_length - 2);
        Some (if unat (wow_crc16_modbus body) = be16 h l then 0 else -1)
      })"

definition gt_modbusRtuCtx :: ModbusCtx_T where
  "gt_modbusRtuCtx =
     \<lparr>backend_type = MODBUS_BACKEND_TYPE_RTU, header_length = 1, checksum_length = 2,
      max_adu_length = 256,
      build_request_basis = modbus_rtu_build_request_basis,
      build_response_basis = modbus_rtu_build_response_basis,
      prepare_response_tid = modbus_rtu_prepare_response_tid,
      send_msg_pre = modbus_rtu_send_msg_pre,
      check_integrity = modbus_rtu_check_integrity,
      check_confirmation_pre = modbus_rtu_check_confirmation\<rparr>"

section \<open>modbus\_tcp.c\<close>

text \<open>Bytes 4 and 5, the length field, are left as they are until \<open>send_msg_pre\<close>.\<close>

definition modbus_tcp_build_request_basis ::
  "u16 \<Rightarrow> bytes \<Rightarrow> int \<Rightarrow> int \<Rightarrow> nat \<Rightarrow> nat \<Rightarrow> (u16 \<times> bytes \<times> nat) option" where
  "modbus_tcp_build_request_basis tid rq slave function addr nb =
     do {
       let tid = (if unat tid < 65535 then tid + 1 else 0);
       rq \<leftarrow> wrn rq 0 [hi8 (unat tid), lo8 (unat tid), 0, 0];
       rq \<leftarrow> wrn rq 6 [word_of_int slave, word_of_int function, hi8 addr, lo8 addr, hi8 nb, lo8 nb];
       Some (tid, rq, 12)
     }"

definition modbus_tcp_build_response_basis :: "sft_t \<Rightarrow> bytes \<Rightarrow> (bytes \<times> nat) option" where
  "modbus_tcp_build_response_basis sft rs =
     do {
       rs \<leftarrow> wrn rs 0 [hi8 (sft_t_id sft), lo8 (sft_t_id sft), 0, 0];
       rs \<leftarrow> wrn rs 6 [word_of_int (sft_slave sft), word_of_int (sft_function sft)];
       Some (rs, 8)
     }"

definition modbus_tcp_prepare_response_tid :: "bytes \<Rightarrow> nat \<Rightarrow> nat option" where
  "modbus_tcp_prepare_response_tid rq req_length =
     do { h \<leftarrow> rd rq 0; l \<leftarrow> rd rq 1; Some (be16 h l) }"

definition modbus_tcp_send_msg_pre :: "bytes \<Rightarrow> nat \<Rightarrow> (bytes \<times> nat) option" where
  "modbus_tcp_send_msg_pre rq req_length =
     do {
       let mbap_length = int req_length - 6;
       rq \<leftarrow> wr rq 4 (word_of_int (mbap_length div 256));
       rq \<leftarrow> wr rq 5 (word_of_int mbap_length);
       Some (rq, req_length)
     }"

definition modbus_tcp_check_integrity :: "bytes \<Rightarrow> nat \<Rightarrow> int option" where
  "modbus_tcp_check_integrity msg msg_length = Some 0"

definition modbus_tcp_check_confirmation :: "bytes \<Rightarrow> bytes \<Rightarrow> nat \<Rightarrow> int option" where
  "modbus_tcp_check_confirmation rq rs rsp_length =
     (if \<not> rsp_length \<ge> 4 then Some (-1)
      else do {
        q \<leftarrow> rdn rq 0 2;
        r \<leftarrow> rdn rs 0 2;
        proto \<leftarrow> rdn rs 2 2;
        Some (if q \<noteq> r then -1 else if proto \<noteq> [0, 0] then -1 else 0)
      })"

definition gt_modbusTcpCtx :: ModbusCtx_T where
  "gt_modbusTcpCtx =
     \<lparr>backend_type = MODBUS_BACKEND_TYPE_TCP, header_length = 7, checksum_length = 0,
      max_adu_length = 260,
      build_request_basis = modbus_tcp_build_request_basis,
      build_response_basis = modbus_tcp_build_response_basis,
      prepare_response_tid = modbus_tcp_prepare_response_tid,
      send_msg_pre = modbus_tcp_send_msg_pre,
      check_integrity = modbus_tcp_check_integrity,
      check_confirmation_pre = modbus_tcp_check_confirmation\<rparr>"

section \<open>The contract of a transport\<close>

text \<open>
  A body is the slave address, the function code and the rest of the protocol data unit.
  \<open>adu tid body\<close> is the finished frame that carries it; \<open>holds tid body buf\<close> says that the
  buffer carries it unfinished (before \<open>send_msg_pre\<close>). The body starts at offset
  \<open>header_length - 1\<close>, which is where both sides look for the slave address.
\<close>

locale modbus_backend =
  fixes ctx :: ModbusCtx_T
    and adu :: "nat \<Rightarrow> bytes \<Rightarrow> bytes"
    and holds :: "nat \<Rightarrow> bytes \<Rightarrow> bytes \<Rightarrow> bool"
  assumes header_pos: "1 \<le> header_length ctx"
    and header_small: "header_length ctx \<le> 7" and checksum_small: "checksum_length ctx \<le> 2"
    and adu_limit: "header_length ctx + 252 + checksum_length ctx \<le> max_adu_length ctx"
      "max_adu_length ctx \<le> 260"
    and adu_length: "length (adu tid body) = header_length ctx - 1 + length body + checksum_length ctx"
    and adu_body: "take (length body) (drop (header_length ctx - 1) (adu tid body)) = body"
    and request_basis: "length rq = 260 \<Longrightarrow> \<exists>tid' rq'.
      build_request_basis ctx tid0 rq slave fn addr nb = Some (tid', rq', header_length ctx + 5) \<and>
      length rq' = 260 \<and>
      holds (unat tid') [word_of_int slave, word_of_int fn, hi8 addr, lo8 addr, hi8 nb, lo8 nb] rq'"
    and response_basis: "length rs = 260 \<Longrightarrow> \<exists>rs'.
      build_response_basis ctx sft rs = Some (rs', header_length ctx + 1) \<and>
      length rs' = 260 \<and>
      holds (sft_t_id sft) [word_of_int (sft_slave sft), word_of_int (sft_function sft)] rs'"
    and holds_append: "holds tid body buf \<Longrightarrow>
      wrn buf (header_length ctx - 1 + length body) xs = Some buf' \<Longrightarrow> holds tid (body @ xs) buf'"
    and finish: "holds tid body buf \<Longrightarrow> length buf = 260 \<Longrightarrow>
      length body + header_length ctx - 1 + checksum_length ctx \<le> 260 \<Longrightarrow> \<exists>buf'.
      send_msg_pre ctx buf (header_length ctx - 1 + length body) = Some (buf', length (adu tid body)) \<and>
      length buf' = 260 \<and> take (length (adu tid body)) buf' = adu tid body"
    and integrity: "take (length (adu tid body)) msg = adu tid body \<Longrightarrow>
      check_integrity ctx msg (length (adu tid body)) = Some 0"
    and integrity_total: "n \<le> length msg \<Longrightarrow> check_integrity ctx msg n \<noteq> None"
    and response_tid: "take (length (adu tid body)) rq = adu tid body \<Longrightarrow> \<exists>t.
      prepare_response_tid ctx rq n = Some t \<and> (\<forall>body'. adu t body' = adu tid body')"
    and response_tid_total: "length rq = 260 \<Longrightarrow> prepare_response_tid ctx rq n \<noteq> None"
    and confirmation: "body \<noteq> [] \<Longrightarrow> take 1 body' = take 1 body \<Longrightarrow>
      take (length (adu tid body)) rq = adu tid body \<Longrightarrow>
      take (length (adu tid body')) rs = adu tid body' \<Longrightarrow>
      check_confirmation_pre ctx rq rs (length (adu tid body')) = Some 0"
    and confirmation_total: "length rq = 260 \<Longrightarrow> length rs = 260 \<Longrightarrow>
      check_confirmation_pre ctx rq rs n \<noteq> None"

section \<open>RTU satisfies the contract\<close>

definition rtu_adu :: "nat \<Rightarrow> bytes \<Rightarrow> bytes" where
  "rtu_adu tid body =
     (let crc = unat (wow_crc16_modbus body) in body @ [lo8 crc, hi8 crc])"

definition rtu_holds :: "nat \<Rightarrow> bytes \<Rightarrow> bytes \<Rightarrow> bool" where
  "rtu_holds tid body buf \<longleftrightarrow> take (length body) buf = body"

lemma length_rtu_adu [simp]: "length (rtu_adu tid body) = length body + 2"
  by (simp add: rtu_adu_def Let_def)

lemma take_prefix_length: "take (length p) xs = p \<Longrightarrow> length p \<le> length xs"
  by (metis length_take min.cobounded1)

lemma rtu_finish:
  assumes "rtu_holds tid body buf" and "length body + 2 \<le> length buf"
  shows "\<exists>buf'. modbus_rtu_send_msg_pre buf (length body) = Some (buf', length body + 2) \<and>
           length buf' = length buf \<and> take (length body + 2) buf' = rtu_adu tid body"
  using assms
  by (auto simp: modbus_rtu_send_msg_pre_def rtu_holds_def rtu_adu_def mem_simps Let_def
      take_Suc_conv_app_nth take_update_swap list_update_append)

lemma rtu_integrity:
  assumes "take (length body + 2) msg = rtu_adu tid body"
  shows "modbus_rtu_check_integrity msg (length body + 2) = Some 0"
proof -
  let ?crc = "unat (wow_crc16_modbus body)"
  have "length body + 2 \<le> length msg"
    using assms take_prefix_length [of "rtu_adu tid body" msg] by simp
  moreover obtain s where m: "msg = rtu_adu tid body @ s"
    by (metis append_take_drop_id assms)
  moreover have "?crc < 65536"
    using unsigned_less [of "wow_crc16_modbus body", where 'a = nat] by simp
  ultimately show ?thesis
    by (simp add: modbus_rtu_check_integrity_def mem_simps rtu_adu_def Let_def nth_append
        be16_hi8_lo8)
qed

interpretation rtu: modbus_backend gt_modbusRtuCtx rtu_adu rtu_holds
proof unfold_locales
  fix tid :: u16 and rq :: bytes and slave fn :: int and addr nb :: nat
  assume "length rq = (260 :: nat)"
  then show "\<exists>tid' rq'. build_request_basis gt_modbusRtuCtx tid rq slave fn addr nb =
        Some (tid', rq', header_length gt_modbusRtuCtx + 5) \<and> length rq' = 260 \<and>
      rtu_holds (unat tid') [word_of_int slave, word_of_int fn, hi8 addr, lo8 addr, hi8 nb, lo8 nb] rq'"
    by (simp add: gt_modbusRtuCtx_def modbus_rtu_build_request_basis_def mem_simps rtu_holds_def)
next
  fix tid body and buf :: bytes
  assume "rtu_holds tid body buf" and "length buf = 260"
    and "length body + header_length gt_modbusRtuCtx - 1 + checksum_length gt_modbusRtuCtx \<le> 260"
  then show "\<exists>buf'. send_msg_pre gt_modbusRtuCtx buf (header_length gt_modbusRtuCtx - 1 + length body) =
        Some (buf', length (rtu_adu tid body)) \<and> length buf' = 260 \<and>
        take (length (rtu_adu tid body)) buf' = rtu_adu tid body"
    using rtu_finish [of tid body buf] by (auto simp: gt_modbusRtuCtx_def)
next
  fix tid body msg
  assume "take (length (rtu_adu tid body)) msg = rtu_adu tid body"
  then show "check_integrity gt_modbusRtuCtx msg (length (rtu_adu tid body)) = Some 0"
    using rtu_integrity by (simp add: gt_modbusRtuCtx_def)
next
  fix body body' tid rq rs
  assume b: "body \<noteq> []" "take 1 body' = take 1 body"
    and q: "take (length (rtu_adu tid body)) rq = rtu_adu tid body"
    and r: "take (length (rtu_adu tid body')) rs = rtu_adu tid body'"
  obtain sq sr where "rq = rtu_adu tid body @ sq" and "rs = rtu_adu tid body' @ sr"
    by (metis append_take_drop_id q r)
  with b show "check_confirmation_pre gt_modbusRtuCtx rq rs (length (rtu_adu tid body')) = Some 0"
    by (cases body; cases body')
       (simp_all add: gt_modbusRtuCtx_def modbus_rtu_check_confirmation_def rd_def rtu_adu_def Let_def)
next
  fix tid body rq and n :: nat
  show "\<exists>t. prepare_response_tid gt_modbusRtuCtx rq n = Some t \<and>
        (\<forall>body'. rtu_adu t body' = rtu_adu tid body')"
    by (simp add: gt_modbusRtuCtx_def modbus_rtu_prepare_response_tid_def rtu_adu_def)
qed (auto simp: gt_modbusRtuCtx_def modbus_rtu_build_response_basis_def rtu_holds_def rtu_adu_def
      mem_simps Let_def modbus_rtu_check_integrity_def modbus_rtu_prepare_response_tid_def
      modbus_rtu_check_confirmation_def wrn_Some_iff)

section \<open>TCP satisfies the contract\<close>

definition tcp_adu :: "nat \<Rightarrow> bytes \<Rightarrow> bytes" where
  "tcp_adu tid body =
     [hi8 tid, lo8 tid, 0, 0, hi8 (length body), lo8 (length body)] @ body"

definition tcp_holds :: "nat \<Rightarrow> bytes \<Rightarrow> bytes \<Rightarrow> bool" where
  "tcp_holds tid body buf \<longleftrightarrow>
     6 \<le> length buf \<and> take 4 buf = [hi8 tid, lo8 tid, 0, 0] \<and> take (length body) (drop 6 buf) = body"

lemma length_tcp_adu [simp]: "length (tcp_adu tid body) = length body + 6"
  by (simp add: tcp_adu_def)

lemma tcp_finish:
  assumes "tcp_holds tid body buf" and "length body + 6 \<le> length buf"
  shows "\<exists>buf'. modbus_tcp_send_msg_pre buf (6 + length body) = Some (buf', length body + 6) \<and>
           length buf' = length buf \<and> take (length body + 6) buf' = tcp_adu tid body"
proof -
  have hi: "word_of_int (int (length body) div 256) = hi8 (length body)"
    by (metis hi8_def of_int_of_nat_eq of_nat_numeral zdiv_int)
  obtain a b c d e f r where "buf = a # b # c # d # e # f # r"
    using assms(1) by (auto simp: tcp_holds_def Suc_le_length_iff eval_nat_numeral)
  then show ?thesis
    using assms
    by (simp add: modbus_tcp_send_msg_pre_def tcp_holds_def tcp_adu_def mem_simps lo8_def hi numeral_eq_Suc)
qed

lemma tcp_prefix:
  assumes "take (length (tcp_adu tid body)) msg = tcp_adu tid body"
  shows "\<exists>s. msg = tcp_adu tid body @ s"
  by (metis append_take_drop_id assms)

interpretation tcp: modbus_backend gt_modbusTcpCtx tcp_adu tcp_holds
proof unfold_locales
  fix tid :: u16 and rq :: bytes and slave fn :: int and addr nb :: nat
  assume "length rq = 260"
  then show "\<exists>tid' rq'. build_request_basis gt_modbusTcpCtx tid rq slave fn addr nb =
        Some (tid', rq', header_length gt_modbusTcpCtx + 5) \<and> length rq' = 260 \<and>
      tcp_holds (unat tid') [word_of_int slave, word_of_int fn, hi8 addr, lo8 addr, hi8 nb, lo8 nb] rq'"
    by (simp add: gt_modbusTcpCtx_def modbus_tcp_build_request_basis_def mem_simps tcp_holds_def Let_def)
next
  fix sft and rs :: bytes
  assume "length rs = 260"
  then show "\<exists>rs'. build_response_basis gt_modbusTcpCtx sft rs = Some (rs', header_length gt_modbusTcpCtx + 1) \<and>
      length rs' = 260 \<and>
      tcp_holds (sft_t_id sft) [word_of_int (sft_slave sft), word_of_int (sft_function sft)] rs'"
    by (simp add: gt_modbusTcpCtx_def modbus_tcp_build_response_basis_def mem_simps tcp_holds_def)
next
  fix tid body and buf :: bytes
  assume "tcp_holds tid body buf" and "length buf = 260"
    and "length body + header_length gt_modbusTcpCtx - 1 + checksum_length gt_modbusTcpCtx \<le> 260"
  then show "\<exists>buf'. send_msg_pre gt_modbusTcpCtx buf (header_length gt_modbusTcpCtx - 1 + length body) =
        Some (buf', length (tcp_adu tid body)) \<and> length buf' = 260 \<and>
        take (length (tcp_adu tid body)) buf' = tcp_adu tid body"
    using tcp_finish [of tid body buf] by (auto simp: gt_modbusTcpCtx_def)
next
  fix tid body and buf buf' xs :: bytes
  assume h: "tcp_holds tid body buf"
    and w: "wrn buf (header_length gt_modbusTcpCtx - 1 + length body) xs = Some buf'"
  obtain a b c d e f r where "buf = a # b # c # d # e # f # r"
    using h by (auto simp: tcp_holds_def Suc_le_length_iff eval_nat_numeral)
  with h w show "tcp_holds tid (body @ xs) buf'"
    by (auto simp: tcp_holds_def gt_modbusTcpCtx_def wrn_Some_iff numeral_eq_Suc)
next
  fix tid body rq and n :: nat
  assume "take (length (tcp_adu tid body)) rq = tcp_adu tid body"
  then obtain s where "rq = tcp_adu tid body @ s" using tcp_prefix by blast
  then have "prepare_response_tid gt_modbusTcpCtx rq n = Some (tid mod 65536)"
    by (simp add: gt_modbusTcpCtx_def modbus_tcp_prepare_response_tid_def tcp_adu_def mem_simps
        be16_hi8_lo8)
  moreover have "tcp_adu (tid mod 65536) body' = tcp_adu tid body'" for body'
    by (simp add: tcp_adu_def) (metis be16_hi8_lo8 hi8_be16 lo8_be16)
  ultimately show "\<exists>t. prepare_response_tid gt_modbusTcpCtx rq n = Some t \<and>
        (\<forall>body'. tcp_adu t body' = tcp_adu tid body')" by blast
next
  fix body body' tid rq rs
  assume "take (length (tcp_adu tid body)) rq = tcp_adu tid body"
    and "take (length (tcp_adu tid body')) rs = tcp_adu tid body'"
  then obtain sq sr where "rq = tcp_adu tid body @ sq" and "rs = tcp_adu tid body' @ sr"
    using tcp_prefix by metis
  then show "check_confirmation_pre gt_modbusTcpCtx rq rs (length (tcp_adu tid body')) = Some 0"
    by (simp add: gt_modbusTcpCtx_def modbus_tcp_check_confirmation_def mem_simps tcp_adu_def)
qed (auto simp: gt_modbusTcpCtx_def modbus_tcp_check_integrity_def tcp_adu_def
      modbus_tcp_prepare_response_tid_def modbus_tcp_check_confirmation_def mem_simps)

section \<open>Corrupted frames\<close>

text \<open>C8. An RTU frame in which two neighbouring bytes of the body were altered on the line, in any way,
  is rejected by the integrity check.\<close>

theorem rtu_burst_rejected:
  assumes "(a, b) \<noteq> (a', b')" and "rtu_adu tid (p @ a # b # s) = (p @ a # b # s) @ crc"
  shows "modbus_rtu_check_integrity (p @ a' # b' # s @ crc) (length p + length s + 4) = Some (-1)"
proof -
  have crc: "crc = [lo8 (unat (wow_crc16_modbus (p @ a # b # s))), hi8 (unat (wow_crc16_modbus (p @ a # b # s)))]"
    using assms(2) by (simp add: rtu_adu_def Let_def)
  have lt: "unat (wow_crc16_modbus m) < 65536" for m
    using unsigned_less [of "wow_crc16_modbus m", where 'a = nat] by simp
  have "unat (wow_crc16_modbus (p @ a' # b' # s)) \<noteq> unat (wow_crc16_modbus (p @ a # b # s))"
    using crc16_modbus_burst_unequal [OF assms(1), of p s] by (metis unsigned_word_eqI)
  then show ?thesis
    using lt by (simp add: modbus_rtu_check_integrity_def mem_simps crc nth_append be16_hi8_lo8)
qed

theorem rtu_burst_rejected_witness:
  "modbus_rtu_check_integrity ([1] @ 4 # 9 # [0] @ drop 4 (rtu_adu 0 [1, 3, 0, 0])) (length [1 :: u8] + length [0 :: u8] + 4) = Some (-1)"
  by (rule rtu_burst_rejected [of 3 0 4 9 0]) (simp_all add: rtu_adu_def Let_def)

end
