(* ===== verification/ModbusRecv.thy ===== *)
theory ModbusRecv
  imports ModbusCtx
begin

text \<open>
  Message reception, the part of \<open>wow_modbus_s.c\<close> and \<open>wow_modbus_m.c\<close> that the two files
  share: the loop of \<open>modbus_receive_msg\<close> reads the header and the function code, learns from
  it how many bytes of meta data follow, and from those how many bytes of data. The loop has no
  bound of its own besides the retry budget \<open>try\<close>, so it is a \<open>partial_function\<close>: \<open>None\<close> is a
  loop that does not end or an access outside the 260-byte buffer. The lemmas prove that neither
  happens on any link that keeps its contract, and that a frame that is pending is received
  whatever the chunks it arrives in.
\<close>

section \<open>The code\<close>

definition compute_meta_length_after_function :: "nat \<Rightarrow> MsgType_E \<Rightarrow> nat" where
  "compute_meta_length_after_function function type =
     (if type = MSG_INDICATION then
        (if function \<le> afn_code MODBUS_WRITE_SINGLE_REGISTER then 4
         else if function = afn_code MODBUS_WRITE_MULTIPLE_COILS \<or>
                 function = afn_code MODBUS_WRITE_MULTIPLE_REGISTERS then 5
         else 0)
      else
        (case afn_of function of
           Some MODBUS_WRITE_SINGLE_COIL \<Rightarrow> 4
         | Some MODBUS_WRITE_SINGLE_REGISTER \<Rightarrow> 4
         | Some MODBUS_WRITE_MULTIPLE_COILS \<Rightarrow> 4
         | Some MODBUS_WRITE_MULTIPLE_REGISTERS \<Rightarrow> 4
         | _ \<Rightarrow> 1))"

definition compute_data_length_after_meta :: "ModbusCtx_T \<Rightarrow> bytes \<Rightarrow> MsgType_E \<Rightarrow> nat option" where
  "compute_data_length_after_meta ctx msg type =
     do {
       function \<leftarrow> map_option unat (rd msg (header_length ctx));
       len \<leftarrow> (if type = MSG_INDICATION then
                 (if function = afn_code MODBUS_WRITE_MULTIPLE_COILS \<or>
                     function = afn_code MODBUS_WRITE_MULTIPLE_REGISTERS
                  then map_option unat (rd msg (header_length ctx + 5)) else Some 0)
               else
                 (if function \<le> afn_code MODBUS_READ_INPUT_REGISTERS \<or>
                     function = afn_code MODBUS_REPORT_SLAVE_ID
                  then map_option unat (rd msg (header_length ctx + 1)) else Some 0));
       Some (len + checksum_length ctx)
     }"

text \<open>The \<open>switch (step)\<close> that runs when the bytes asked for have arrived: the next number of
  bytes and the next step, or \<open>None\<close> for \<open>return -1\<close>.\<close>

definition modbus_meta_step ::
  "ModbusCtx_T \<Rightarrow> MsgType_E \<Rightarrow> bytes \<Rightarrow> nat \<Rightarrow> (nat \<times> Step_E) option option" where
  "modbus_meta_step ctx type data msg_length =
     do {
       len \<leftarrow> compute_data_length_after_meta ctx data type;
       Some (if msg_length + len > max_adu_length ctx then None else Some (len, STEP_DATA))
     }"

definition modbus_next_step ::
  "ModbusCtx_T \<Rightarrow> MsgType_E \<Rightarrow> bytes \<Rightarrow> nat \<Rightarrow> Step_E \<Rightarrow> (nat \<times> Step_E) option option" where
  "modbus_next_step ctx type data msg_length step =
     (case step of
        STEP_FUNCTION \<Rightarrow>
          do {
            f \<leftarrow> rd data (header_length ctx);
            let len = compute_meta_length_after_function (unat f) type;
            if len \<noteq> 0 then Some (Some (len, STEP_META))
            else modbus_meta_step ctx type data msg_length
          }
      | STEP_META \<Rightarrow> modbus_meta_step ctx type data msg_length
      | STEP_DATA \<Rightarrow> Some (Some (0, STEP_DATA)))"

text \<open>The loop returns the message length (\<open>None\<close> for the early \<open>return -1\<close>), the buffer, the
  link and what is left of the retry budget.\<close>

partial_function (option) modbus_recv_loop ::
  "'s ProtoPortCtx \<Rightarrow> ModbusCtx_T \<Rightarrow> MsgType_E \<Rightarrow> bytes \<Rightarrow> nat \<Rightarrow> nat \<Rightarrow> Step_E \<Rightarrow> nat \<Rightarrow> 's \<Rightarrow>
   (nat option \<times> bytes \<times> 's \<times> nat) option" where
  "modbus_recv_loop ops ctx type data msg_length to_read step tries s =
     (if to_read = 0 \<or> tries = 0 then Some (Some msg_length, data, s, tries)
      else do {
        (ret, d, s) \<leftarrow> link_recv ops s to_read;
        if ret \<le> 0
        then modbus_recv_loop ops ctx type data msg_length to_read step (tries - 1) s
        else do {
          data \<leftarrow> wrn data msg_length d;
          let msg_length = msg_length + length d;
          if to_read - length d \<noteq> 0
          then modbus_recv_loop ops ctx type data msg_length (to_read - length d) step tries s
          else do {
            next \<leftarrow> modbus_next_step ctx type data msg_length step;
            case next of
              None \<Rightarrow> Some (None, data, s, tries)
            | Some (len, step) \<Rightarrow> modbus_recv_loop ops ctx type data msg_length len step tries s
          }
        }
      })"

text \<open>\<open>while(1){ ret = link_recv(req, 260); if(ret <= 0) break; }\<close>\<close>

partial_function (option) modbus_drain ::
  "'s ProtoPortCtx \<Rightarrow> bytes \<Rightarrow> 's \<Rightarrow> (bytes \<times> 's) option" where
  "modbus_drain ops buf s =
     do {
       (ret, d, s) \<leftarrow> link_recv ops s MAX_MESSAGE_LENGTH;
       buf \<leftarrow> wrn buf 0 d;
       if ret \<le> 0 then Some (buf, s) else modbus_drain ops buf s
     }"

definition modbus_m_receive_msg :: "'s Modbus_T \<Rightarrow> MsgType_E \<Rightarrow> (int \<times> 's Modbus_T) option" where
  "modbus_m_receive_msg m type =
     do {
       data \<leftarrow> wrn (rsp m) 0 (replicate MAX_MESSAGE_LENGTH 0);
       (r, data, s, tries) \<leftarrow> modbus_recv_loop (mb_ops m) (mb_ctx m) type data 0
          (header_length (mb_ctx m) + 1) STEP_FUNCTION (unat (times m)) (link m);
       let m = m\<lparr>rsp := data, link := s\<rparr>;
       case r of
         None \<Rightarrow> Some (-1, m)
       | Some msg_length \<Rightarrow>
           if tries = 0 then Some (-1, m)
           else do {
             ret \<leftarrow> check_integrity (mb_ctx m) data msg_length;
             Some (if ret \<noteq> 0 then (-1, m) else (int msg_length, m))
           }
     }"

definition modbus_s_receive_msg :: "'s Modbus_T \<Rightarrow> MsgType_E \<Rightarrow> (int \<times> 's Modbus_T) option" where
  "modbus_s_receive_msg m type =
     do {
       data \<leftarrow> wrn (req m) 0 (replicate MAX_MESSAGE_LENGTH 0);
       (r, data, s, tries) \<leftarrow> modbus_recv_loop (mb_ops m) (mb_ctx m) type data 0
          (header_length (mb_ctx m) + 1) STEP_FUNCTION (unat (times m)) (link m);
       let m = m\<lparr>req := data, link := s\<rparr>;
       case r of
         None \<Rightarrow> Some (-1, m)
       | Some msg_length \<Rightarrow>
           if tries = 0 then Some (-1, m)
           else do {
             ret \<leftarrow> check_integrity (mb_ctx m) data msg_length;
             if ret \<noteq> 0
             then do {
               (buf, s) \<leftarrow> modbus_drain (mb_ops m) data s;
               buf \<leftarrow> wrn buf 0 (replicate MAX_MESSAGE_LENGTH 0);
               Some (0, m\<lparr>req := buf, link := s\<rparr>)
             }
             else Some (int msg_length, m)
           }
     }"

section \<open>Every call returns, and stays inside the buffer\<close>

lemma compute_meta_bound: "compute_meta_length_after_function f type \<le> 5"
  by (simp add: compute_meta_length_after_function_def split: option.splits ModbusFunctionMode_E.splits)

text \<open>A link and a transport together: what \<open>modbus_receive_msg\<close> runs on.\<close>

locale modbus_link =
  proto_link ops pending ready + modbus_backend ctx adu holds
  for ops :: "'s ProtoPortCtx" and pending :: "'s \<Rightarrow> bytes" and ready :: "'s \<Rightarrow> bool"
    and ctx :: ModbusCtx_T and adu and holds
begin

lemma meta_step_total:
  assumes "length data = 260"
  shows "\<exists>r. modbus_meta_step ctx type data n = Some r \<and>
    (\<forall>len st. r = Some (len, st) \<longrightarrow> st = STEP_DATA \<and> n + len \<le> max_adu_length ctx)"
  using assms header_small
  by (simp add: modbus_meta_step_def compute_data_length_after_meta_def mem_simps)

text \<open>How many bytes may still arrive: the buffer has room for all of them.\<close>

definition room :: "Step_E \<Rightarrow> nat" where
  "room step = (case step of STEP_FUNCTION \<Rightarrow> header_length ctx + 1 | STEP_META \<Rightarrow> header_length ctx + 6
     | STEP_DATA \<Rightarrow> max_adu_length ctx)"

definition rank :: "Step_E \<Rightarrow> nat" where
  "rank step = (case step of STEP_FUNCTION \<Rightarrow> 2 | STEP_META \<Rightarrow> 1 | STEP_DATA \<Rightarrow> 0)"

lemma room_bound: "room step \<le> 260"
  using header_small adu_limit by (cases step) (auto simp: room_def)

lemma next_step_total:
  assumes "length data = 260" and "n \<le> room step"
  shows "\<exists>r. modbus_next_step ctx type data n step = Some r \<and>
    (\<forall>len st. r = Some (len, st) \<longrightarrow> n + len \<le> room st \<and> (len = 0 \<or> rank st < rank step))"
proof (cases step)
  case STEP_FUNCTION
  then show ?thesis
    using assms header_small meta_step_total [OF assms(1), of type n]
      compute_meta_bound [of "unat (data ! header_length ctx)" type]
    by (auto simp: modbus_next_step_def mem_simps Let_def room_def rank_def)
next
  case STEP_META
  then show ?thesis
    using assms meta_step_total [OF assms(1), of type n]
    by (auto simp: modbus_next_step_def room_def rank_def)
next
  case STEP_DATA
  then show ?thesis
    using assms by (auto simp: modbus_next_step_def room_def rank_def)
qed

lemma recv_loop_total:
  assumes "ready s" and "length data = 260" and "n + to_read \<le> room step"
  shows "\<exists>r data' s' t. modbus_recv_loop ops ctx type data n to_read step tries s = Some (r, data', s', t) \<and>
    length data' = 260 \<and> ready s' \<and> (\<forall>k. r = Some k \<longrightarrow> k \<le> 260)"
  using assms
proof (induction "(step, to_read, tries)" arbitrary: step to_read tries data n s
    rule: wf_induct_rule [OF wf_measures [of "[\<lambda>(st, _, _). rank st, \<lambda>(_, r, _). r, \<lambda>(_, _, t). t]"]])
  case less: 1
  note simps = modbus_recv_loop.simps [of ops ctx type data n to_read step tries s]
  have IH: "\<exists>r data' s' t. modbus_recv_loop ops ctx type data n rd st tr s = Some (r, data', s', t) \<and>
      length data' = 260 \<and> ready s' \<and> (\<forall>k. r = Some k \<longrightarrow> k \<le> 260)"
    if "rank st < rank step \<or> rank st = rank step \<and> (rd < to_read \<or> rd = to_read \<and> tr < tries)"
      and "ready s" "length data = 260" "n + rd \<le> room st" for st rd tr data n s
    by (rule less.hyps [OF _ that(2-4)]) (use that(1) in auto)
  show ?case
  proof (cases "to_read = 0 \<or> tries = 0")
    case True
    then show ?thesis
      using less.prems room_bound [of step] by (simp add: simps)
  next
    case False
    obtain ret d s' where r: "link_recv ops s to_read = Some (ret, d, s')"
      using recv_total less.prems(1) by blast
    have s': "ready s'" and d: "length d \<le> to_read" "ret = int (length d)"
      using recv_ready recv_data less.prems(1) r by blast+
    show ?thesis
    proof (cases "d = []")
      case True
      with False d r s' show ?thesis
        using IH [of step to_read "tries - 1" s' data n] less.prems
        by (simp add: simps)
    next
      case nonempty: False
      have w: "wrn data n d = Some (take n data @ d @ drop (n + length d) data)"
        using less.prems d room_bound [of step] by (simp add: mem_simps)
      let ?data = "take n data @ d @ drop (n + length d) data"
      have len: "length ?data = 260" using w less.prems(2) wrn_length by metis
      have smaller: "to_read - length d < to_read" using nonempty False by (cases d) auto
      show ?thesis
      proof (cases "to_read - length d = 0")
        case more: False
        show ?thesis
          using IH [of step "to_read - length d" tries s' ?data "n + length d"] less.prems d r w s' False nonempty more smaller len
          by (simp add: simps)
      next
        case fin: True
        obtain nx where nx: "modbus_next_step ctx type ?data (n + length d) step = Some nx"
          "\<forall>len st. nx = Some (len, st) \<longrightarrow> (n + length d) + len \<le> room st \<and> (len = 0 \<or> rank st < rank step)"
          using next_step_total [OF len, of "n + length d" step type] less.prems(3) d by auto
        show ?thesis
        proof (cases nx)
          case None
          then have "modbus_recv_loop ops ctx type data n to_read step tries s =
            Some (None, ?data, s', tries)"
            unfolding simps using r w d False nonempty fin nx by simp
          with len s' show ?thesis by simp
        next
          case (Some p)
          obtain l st where p: "p = (l, st)" by (cases p)
          have step: "modbus_recv_loop ops ctx type data n to_read step tries s =
            modbus_recv_loop ops ctx type ?data (n + length d) l st tries s'"
            unfolding simps using r w d False nonempty fin nx Some p by (simp add: Let_def)
          have inv: "n + length d + l \<le> room st" "l = 0 \<or> rank st < rank step"
            using nx Some p by auto
          show ?thesis
          proof (cases "l = 0")
            case True
            then show ?thesis
              using inv room_bound [of st] len s'
              by (simp add: step modbus_recv_loop.simps [of ops ctx type ?data _ 0])
          next
            case False
            with inv len s' show ?thesis
              using IH [of st l tries s' ?data "n + length d"] by (simp add: step)
          qed
        qed
      qed
    qed
  qed
qed

lemma drain_total:
  assumes "ready s" and "length buf = 260"
  shows "\<exists>buf' s'. modbus_drain ops buf s = Some (buf', s') \<and> length buf' = 260 \<and> ready s'"
  using assms
proof (induction "length (pending s)" arbitrary: s buf rule: less_induct)
  case less
  obtain ret d s' where r: "link_recv ops s MAX_MESSAGE_LENGTH = Some (ret, d, s')"
    using recv_total less.prems(1) by blast
  have s': "ready s'" and d: "length d \<le> 260" "ret = int (length d)" "pending s = d @ pending s'"
    using recv_ready recv_data less.prems(1) r by (auto simp: MAX_MESSAGE_LENGTH_def)
  obtain buf' where w: "wrn buf 0 d = Some buf'" and len: "length buf' = 260"
    using d(1) less.prems(2) wrn_length by (fastforce simp: mem_simps)
  show ?case
  proof (cases "d = []")
    case True
    then show ?thesis
      using r d w len s' by (simp add: modbus_drain.simps [of ops buf s])
  next
    case False
    then have "length (pending s') < length (pending s)" using d by simp
    from less.hyps [OF this s' len] False r d w show ?thesis
      by (simp add: modbus_drain.simps [of ops buf s])
  qed
qed

lemma s_receive_total:
  assumes "mb_ops m = ops" "mb_ctx m = ctx" "ready (link m)" "length (req m) = 260"
  shows "\<exists>ret m'. modbus_s_receive_msg m type = Some (ret, m') \<and> length (req m') = 260 \<and>
    ready (link m') \<and> ret \<le> 260 \<and> rsp m' = rsp m \<and> mb_ops m' = ops \<and> mb_ctx m' = ctx"
proof -
  have "0 + (header_length ctx + 1) \<le> room STEP_FUNCTION" by (simp add: room_def)
  from recv_loop_total [OF assms(3) _ this, of "replicate 260 0" type "unat (times m)"]
  obtain r data s' t where l:
    "modbus_recv_loop ops ctx type (replicate 260 0) 0 (header_length ctx + 1) STEP_FUNCTION
       (unat (times m)) (link m) = Some (r, data, s', t)"
    "length data = 260" "ready s'" "\<forall>k. r = Some k \<longrightarrow> k \<le> 260" by auto
  have w: "wrn (req m) 0 (replicate MAX_MESSAGE_LENGTH 0) = Some (replicate 260 0)"
    using assms(4) by (simp add: mem_simps MAX_MESSAGE_LENGTH_def)
  show ?thesis
  proof (cases "r = None \<or> t = 0")
    case True
    then show ?thesis
      using l w assms by (cases r) (auto simp: modbus_s_receive_msg_def Let_def)
  next
    case False
    then obtain k where k: "r = Some k" "k \<le> 260" using l(4) by auto
    obtain ret where i: "check_integrity ctx data k = Some ret"
      using integrity_total [of k data] k l(2) by auto
    obtain buf s'' where d: "modbus_drain ops data s' = Some (buf, s'')" "length buf = 260" "ready s''"
      using drain_total l by blast
    then have "wrn buf 0 (replicate MAX_MESSAGE_LENGTH 0) = Some (replicate 260 0)"
      by (simp add: mem_simps MAX_MESSAGE_LENGTH_def)
    with False k i d l w assms show ?thesis
      by (cases "ret = 0") (simp_all add: modbus_s_receive_msg_def Let_def)
  qed
qed

lemma m_receive_total:
  assumes "mb_ops m = ops" "mb_ctx m = ctx" "ready (link m)" "length (rsp m) = 260"
  shows "\<exists>ret m'. modbus_m_receive_msg m type = Some (ret, m') \<and> length (rsp m') = 260 \<and>
    ready (link m') \<and> ret \<le> 260 \<and> req m' = req m \<and> mb_ops m' = ops \<and> mb_ctx m' = ctx"
proof -
  have "0 + (header_length ctx + 1) \<le> room STEP_FUNCTION" by (simp add: room_def)
  from recv_loop_total [OF assms(3) _ this, of "replicate 260 0" type "unat (times m)"]
  obtain r data s' t where l:
    "modbus_recv_loop ops ctx type (replicate 260 0) 0 (header_length ctx + 1) STEP_FUNCTION
       (unat (times m)) (link m) = Some (r, data, s', t)"
    "length data = 260" "ready s'" "\<forall>k. r = Some k \<longrightarrow> k \<le> 260" by auto
  have w: "wrn (rsp m) 0 (replicate MAX_MESSAGE_LENGTH 0) = Some (replicate 260 0)"
    using assms(4) by (simp add: mem_simps MAX_MESSAGE_LENGTH_def)
  show ?thesis
  proof (cases "r = None \<or> t = 0")
    case True
    then show ?thesis
      using l w assms by (cases r) (auto simp: modbus_m_receive_msg_def Let_def)
  next
    case False
    then obtain k where k: "r = Some k" "k \<le> 260" using l(4) by auto
    obtain ret where "check_integrity ctx data k = Some ret"
      using integrity_total [of k data] k l(2) by auto
    with False k l w assms show ?thesis
      by (cases "ret = 0") (simp_all add: modbus_m_receive_msg_def Let_def)
  qed
qed

end

section \<open>A pending frame is received, however it is cut into chunks\<close>

text \<open>A frame whose length is the one the two length computations announce.\<close>

definition modbus_frame :: "ModbusCtx_T \<Rightarrow> MsgType_E \<Rightarrow> bytes \<Rightarrow> bool" where
  "modbus_frame ctx type fr \<longleftrightarrow>
     (let n = header_length ctx + 1 +
            compute_meta_length_after_function (unat (fr ! header_length ctx)) type in
      n \<le> length fr \<and> length fr \<le> max_adu_length ctx \<and>
      compute_data_length_after_meta ctx fr type = Some (length fr - n))"

lemma compute_data_agree:
  assumes "take n fr = take n fr'" and "n \<le> length fr" and "n \<le> length fr'"
    and "n = header_length ctx + 1 + compute_meta_length_after_function (unat (fr ! header_length ctx)) type"
  shows "compute_data_length_after_meta ctx fr type = compute_data_length_after_meta ctx fr' type"
proof -
  have eq: "fr ! i = fr' ! i" if "i < n" for i
    using assms(1) that by (metis nth_take)
  show ?thesis
    using assms(2-4) eq [of "header_length ctx"] eq [of "header_length ctx + 1"] eq [of "header_length ctx + 5"]
    by (cases type)
       (auto simp: compute_data_length_after_meta_def compute_meta_length_after_function_def rd_def
         afn_of_def split: if_splits option.splits ModbusFunctionMode_E.splits)
qed

locale modbus_prompt_link =
  modbus_link ops pending ready ctx adu holds + prompt_link ops pending ready prompt sent
  for ops :: "'s ProtoPortCtx" and pending :: "'s \<Rightarrow> bytes" and ready :: "'s \<Rightarrow> bool"
    and ctx :: ModbusCtx_T and adu and holds and prompt :: "'s \<Rightarrow> bool"
    and sent :: "'s \<Rightarrow> 'o"
begin

lemma recv_fill:
  assumes "ready s" "prompt s" "0 < k" "k \<le> length (pending s)" "length data = 260" "n + k \<le> 260"
    and "0 < tries"
  defines "filled \<equiv> take n data @ take k (pending s) @ drop (n + k) data"
  shows "\<exists>s'. ready s' \<and> prompt s' \<and> sent s' = sent s \<and> pending s' = drop k (pending s) \<and>
    modbus_recv_loop ops ctx type data n k step tries s =
    Option.bind (modbus_next_step ctx type filled (n + k) step) (\<lambda>nx. case nx of
        None \<Rightarrow> Some (None, filled, s', tries)
      | Some (len, st) \<Rightarrow> modbus_recv_loop ops ctx type filled (n + k) len st tries s')"
  using assms(1-6) unfolding filled_def
proof (induction k arbitrary: s data n rule: less_induct)
  case (less k)
  obtain ret d s' where r: "link_recv ops s k = Some (ret, d, s')"
    using recv_total less.prems(1) by blast
  have d: "length d \<le> k" "ret = int (length d)" "pending s = d @ pending s'" and s': "ready s'" "prompt s'" "sent s' = sent s"
    using recv_ready recv_data prompt_recv less.prems(1,2) r by blast+
  have "pending s \<noteq> []" using less.prems(3,4) by auto
  then have ne: "d \<noteq> []" using recv_prompt [OF less.prems(1,2) _ less.prems(3) r] by simp
  let ?data = "take n data @ d @ drop (n + length d) data"
  have w: "wrn data n d = Some ?data" using less.prems d by (simp add: mem_simps)
  have len: "length ?data = 260" using w less.prems(5) wrn_length by metis
  show ?case
  proof (cases "length d = k")
    case True
    then have "take k (pending s) = d" "drop k (pending s) = pending s'" using d by simp_all
    then show ?thesis
      using r d s' ne w True \<open>0 < tries\<close> less.prems(3)
      by (intro exI [of _ s']) (simp add: Let_def modbus_recv_loop.simps [of ops ctx type data n k step tries s])
  next
    case False
    then have lt: "length d < k" using d by simp
    have k': "k - length d < k" "0 < k - length d" "k - length d \<le> length (pending s')"
      "n + length d + (k - length d) \<le> 260"
      using lt ne d less.prems by auto
    have nk: "n + length d + (k - length d) = n + k" using lt by simp
    have F: "take (n + length d) ?data @ take (k - length d) (pending s') @ drop (n + k) ?data =
        take n data @ take k (pending s) @ drop (n + k) data"
      using d lt less.prems by (simp add: min_def add.commute)
    have D: "drop (k - length d) (pending s') = drop k (pending s)" using d lt by simp
    have "modbus_recv_loop ops ctx type data n k step tries s =
          modbus_recv_loop ops ctx type ?data (n + length d) (k - length d) step tries s'"
      using r d ne w lt \<open>0 < tries\<close>
      by (simp add: Let_def modbus_recv_loop.simps [of ops ctx type data n k step tries s])
    with less.IH [OF k'(1) s'(1,2) k'(2,3) len k'(4), unfolded nk F D] s'(3) show ?thesis by simp
  qed
qed

lemma recv_fill_frame:
  assumes "ready s" "prompt s" "0 < k" "0 < tries" "length fr \<le> 260" "n + k \<le> length fr"
    and "pending s = drop n fr @ rest"
  shows "\<exists>s'. ready s' \<and> prompt s' \<and> sent s' = sent s \<and> pending s' = drop (n + k) fr @ rest \<and>
    modbus_recv_loop ops ctx type (take n fr @ replicate (260 - n) 0) n k step tries s =
    Option.bind (modbus_next_step ctx type (take (n + k) fr @ replicate (260 - (n + k)) 0) (n + k) step)
      (\<lambda>nx. case nx of
        None \<Rightarrow> Some (None, take (n + k) fr @ replicate (260 - (n + k)) 0, s', tries)
      | Some (len, st) \<Rightarrow> modbus_recv_loop ops ctx type (take (n + k) fr @ replicate (260 - (n + k)) 0)
          (n + k) len st tries s')"
proof -
  let ?data = "take n fr @ replicate (260 - n) (0 :: u8)"
  have f: "take n ?data @ take k (pending s) @ drop (n + k) ?data =
        take (n + k) fr @ replicate (260 - (n + k)) 0"
    using assms(3,5-7) by (simp add: min_def take_add)
  have d: "drop k (pending s) = drop (n + k) fr @ rest"
    using assms(6,7) by (simp add: add.commute)
  have "length ?data = 260" "n + k \<le> 260" "k \<le> length (pending s)"
    using assms(5-7) by auto
  from recv_fill [OF assms(1-3) this(3,1,2) assms(4), of type step, unfolded f d]
  show ?thesis by blast
qed

lemma recv_loop_zero [simp]:
  "modbus_recv_loop ops ctx type data n 0 step tries s = Some (Some n, data, s, tries)"
  by (simp add: modbus_recv_loop.simps)

lemma recv_data_part:
  assumes "ready s" "prompt s" "0 < tries" "length fr \<le> 260" "n \<le> length fr"
    and "pending s = drop n fr @ rest"
  shows "\<exists>s'. ready s' \<and> prompt s' \<and> sent s' = sent s \<and> pending s' = rest \<and>
    modbus_recv_loop ops ctx type (take n fr @ replicate (260 - n) 0) n (length fr - n) STEP_DATA tries s =
    Some (Some (length fr), fr @ replicate (260 - length fr) 0, s', tries)"
proof (cases "n = length fr")
  case True
  with assms show ?thesis by auto
next
  case False
  with assms recv_fill_frame [of s "length fr - n" tries fr n rest type STEP_DATA] show ?thesis
    by (auto simp: modbus_next_step_def)
qed

lemma recv_frame:
  assumes "ready s" "prompt s" "0 < tries" "modbus_frame ctx type fr" "pending s = fr @ rest"
  shows "\<exists>s'. ready s' \<and> prompt s' \<and> sent s' = sent s \<and> pending s' = rest \<and>
    modbus_recv_loop ops ctx type (replicate 260 0) 0 (header_length ctx + 1) STEP_FUNCTION tries s =
    Some (Some (length fr), fr @ replicate (260 - length fr) 0, s', tries)"
proof -
  let ?H = "header_length ctx"
  let ?m = "compute_meta_length_after_function (unat (fr ! ?H)) type"
  let ?Z = "\<lambda>k. take k fr @ replicate (260 - k) (0 :: u8)"
  have fr: "?H + 1 + ?m \<le> length fr" "length fr \<le> max_adu_length ctx" "length fr \<le> 260"
    and dl: "compute_data_length_after_meta ctx fr type = Some (length fr - (?H + 1 + ?m))"
    using assms(4) adu_limit by (auto simp: modbus_frame_def Let_def)
  have H: "?Z (?H + 1) ! ?H = fr ! ?H" using fr by (simp add: nth_append)
  have meta: "modbus_meta_step ctx type (?Z (?H + 1 + ?m)) (?H + 1 + ?m) =
      Some (Some (length fr - (?H + 1 + ?m), STEP_DATA))"
  proof -
    have "compute_data_length_after_meta ctx fr type = compute_data_length_after_meta ctx (?Z (?H + 1 + ?m)) type"
      by (rule compute_data_agree [of "?H + 1 + ?m"]) (use fr in \<open>simp_all add: min_def\<close>)
    with dl fr show ?thesis by (simp add: modbus_meta_step_def)
  qed
  have pos: "0 < ?H + 1" and room0: "0 + (?H + 1) \<le> length fr" and start: "pending s = drop 0 fr @ rest"
    using fr assms(5) by simp_all
  have zero: "take 0 fr @ replicate (260 - 0) (0 :: u8) = replicate 260 0" "0 + (?H + 1) = ?H + 1"
    by simp_all
  obtain s1 where s1: "ready s1" "prompt s1" "sent s1 = sent s" "pending s1 = drop (?H + 1) fr @ rest"
    "modbus_recv_loop ops ctx type (replicate 260 0) 0 (?H + 1) STEP_FUNCTION tries s =
     Option.bind (modbus_next_step ctx type (?Z (?H + 1)) (?H + 1) STEP_FUNCTION) (\<lambda>nx. case nx of
        None \<Rightarrow> Some (None, ?Z (?H + 1), s1, tries)
      | Some (len, st) \<Rightarrow> modbus_recv_loop ops ctx type (?Z (?H + 1)) (?H + 1) len st tries s1)"
    using recv_fill_frame [OF assms(1,2) pos assms(3) fr(3) room0 start, of type STEP_FUNCTION]
    unfolding zero by blast
  show ?thesis
  proof (cases "?m = 0")
    case True
    then have "modbus_next_step ctx type (?Z (?H + 1)) (?H + 1) STEP_FUNCTION =
        Some (Some (length fr - (?H + 1), STEP_DATA))"
      using meta fr H by (simp add: modbus_next_step_def mem_simps)
    with s1 show ?thesis
      using recv_data_part [OF s1(1,2) assms(3) fr(3) _ s1(4), of type] fr by simp
  next
    case False
    then have "modbus_next_step ctx type (?Z (?H + 1)) (?H + 1) STEP_FUNCTION = Some (Some (?m, STEP_META))"
      using fr H by (simp add: modbus_next_step_def mem_simps)
    moreover obtain s2 where s2: "ready s2" "prompt s2" "sent s2 = sent s1" "pending s2 = drop (?H + 1 + ?m) fr @ rest"
      "modbus_recv_loop ops ctx type (?Z (?H + 1)) (?H + 1) ?m STEP_META tries s1 =
       Option.bind (modbus_next_step ctx type (?Z (?H + 1 + ?m)) (?H + 1 + ?m) STEP_META) (\<lambda>nx. case nx of
          None \<Rightarrow> Some (None, ?Z (?H + 1 + ?m), s2, tries)
        | Some (len, st) \<Rightarrow> modbus_recv_loop ops ctx type (?Z (?H + 1 + ?m)) (?H + 1 + ?m) len st tries s2)"
      using recv_fill_frame [OF s1(1,2) _ assms(3) fr(3) fr(1) s1(4), of type STEP_META] False by blast
    moreover have "modbus_next_step ctx type (?Z (?H + 1 + ?m)) (?H + 1 + ?m) STEP_META =
        Some (Some (length fr - (?H + 1 + ?m), STEP_DATA))"
      using meta by (simp add: modbus_next_step_def)
    ultimately show ?thesis
      using s1(3,5) s2(3) recv_data_part [OF s2(1,2) assms(3) fr(3) fr(1) s2(4), of type] by simp
  qed
qed

end

text \<open>The same over a link with a direction each way.\<close>

locale modbus_duplex_link =
  modbus_prompt_link ops pending ready ctx adu holds prompt sent + duplex_link ops pending ready prompt sent
  for ops :: "'s ProtoPortCtx" and pending :: "'s \<Rightarrow> bytes" and ready :: "'s \<Rightarrow> bool"
    and ctx :: ModbusCtx_T and adu and holds and prompt :: "'s \<Rightarrow> bool"
    and sent :: "'s \<Rightarrow> bytes list"

section \<open>The three links the code opens\<close>

text \<open>RTU over a serial port, TCP as a server (slave) and TCP as a client (master).\<close>

interpretation rtu_uart: modbus_duplex_link "fst proto_port_uart_init" "\<lambda>p. concat (rx p)"
  "\<lambda>p. uart_opened p" gt_modbusRtuCtx rtu_adu rtu_holds port_prompt tx
  by unfold_locales

interpretation tcp_slave: modbus_duplex_link "fst proto_port_eth_slave_init" "\<lambda>p. concat (rx p)"
  "\<lambda>p. client p = Live" gt_modbusTcpCtx tcp_adu tcp_holds port_prompt tx
  by unfold_locales

interpretation tcp_master: modbus_duplex_link "fst proto_port_eth_master_init" "\<lambda>p. concat (rx p)"
  "\<lambda>p. client p = Live" gt_modbusTcpCtx tcp_adu tcp_holds port_prompt tx
  by unfold_locales

end
