(* ===== verification/ModbusSlave.thy ===== *)
theory ModbusSlave
  imports ModbusRecv
begin

text \<open>
  The Modbus slave, \<open>wow_iot/src/protocol/modbus/wow_modbus_s.c\<close>: one round of its service
  thread receives a request, asks the device through the two callbacks of
  \<open>ModbusSlaverDevCtx_T\<close> and sends the response. The device state is a type parameter; a
  callback that is not set (a null pointer) is \<open>None\<close>, and calling it is undefined.
\<close>

section \<open>The code\<close>

text \<open>A get callback answers a return code and the bytes it stored through its \<open>data\<close> pointer; a
  set callback is given the request from the data on.\<close>

record 'd ModbusSlaverDevCtx =
  get_afn_addr_val :: "('d \<Rightarrow> nat \<Rightarrow> nat \<Rightarrow> nat \<Rightarrow> nat \<Rightarrow> int \<times> bytes \<times> 'd) option"
  set_afn_addr_val :: "('d \<Rightarrow> nat \<Rightarrow> nat \<Rightarrow> nat \<Rightarrow> bytes \<Rightarrow> nat \<Rightarrow> int \<times> 'd) option"

record ('s, 'd) ModbusSlaver_T =
  modbus :: "'s Modbus_T"
  priv :: 'd
  dev :: "'d ModbusSlaverDevCtx option"
  tflag :: bool

definition Align8 :: "nat \<Rightarrow> nat" where
  "Align8 x = push_bit 3 (drop_bit 3 (x + 7))"

definition response_exception :: "'s Modbus_T \<Rightarrow> sft_t \<Rightarrow> int \<Rightarrow> (nat \<times> 's Modbus_T) option" where
  "response_exception m sft code =
     do {
       (rs, n) \<leftarrow> build_response_basis (mb_ctx m) (sft\<lparr>sft_function := sft_function sft + 0x80\<rparr>) (rsp m);
       rs \<leftarrow> wr rs n (word_of_int code);
       Some (n + 1, m\<lparr>rsp := rs\<rparr>)
     }"

text \<open>The label \<open>out:\<close>.\<close>

definition reply_out ::
  "('s, 'd) ModbusSlaver_T \<Rightarrow> sft_t \<Rightarrow> int \<Rightarrow> (int \<times> ('s, 'd) ModbusSlaver_T) option" where
  "reply_out sm sft ret =
     (if ret = MODBUS_ERROR_MAX then Some (0, sm)
      else do {
        (n, m) \<leftarrow> response_exception (modbus sm) sft ret;
        (rs, n) \<leftarrow> send_msg_pre (mb_ctx m) (rsp m) n;
        Some (int n, sm\<lparr>modbus := m\<lparr>rsp := rs\<rparr>\<rparr>)
      })"

definition set_rsp :: "('s, 'd) ModbusSlaver_T \<Rightarrow> bytes \<Rightarrow> ('s, 'd) ModbusSlaver_T" where
  "set_rsp sm rs = sm\<lparr>modbus := (modbus sm)\<lparr>rsp := rs\<rparr>\<rparr>"

text \<open>The two read cases differ in the bound on \<open>bulk\<close> and in the number of data bytes.\<close>

definition reply_read ::
  "('s, 'd) ModbusSlaver_T \<Rightarrow> 'd ModbusSlaverDevCtx \<Rightarrow> sft_t \<Rightarrow> nat \<Rightarrow> nat \<Rightarrow> nat \<Rightarrow> nat \<Rightarrow> nat \<Rightarrow>
   (int \<times> ('s, 'd) ModbusSlaver_T) option" where
  "reply_read sm dv sft slave afn addr bulk nbytes =
     do {
       (rs, n) \<leftarrow> build_response_basis (mb_ctx (modbus sm)) sft (rsp (modbus sm));
       rs \<leftarrow> wr rs n (word_of_nat nbytes);
       let n = n + 1;
       get \<leftarrow> get_afn_addr_val dv;
       let (ret, bytes, d) = get (priv sm) slave afn addr bulk;
       rs \<leftarrow> wrn rs n bytes;
       let sm = (set_rsp sm rs)\<lparr>priv := d\<rparr>;
       if ret \<noteq> 0 then reply_out sm sft ret
       else do {
         (rs, n) \<leftarrow> send_msg_pre (mb_ctx (modbus sm)) rs (n + nbytes);
         Some (int n, set_rsp sm rs)
       }
     }"

text \<open>The two single writes answer with a copy of the request.\<close>

definition reply_write_single ::
  "('s, 'd) ModbusSlaver_T \<Rightarrow> 'd ModbusSlaverDevCtx \<Rightarrow> sft_t \<Rightarrow> nat \<Rightarrow> nat \<Rightarrow> nat \<Rightarrow> bytes \<Rightarrow> nat \<Rightarrow>
   (int \<times> ('s, 'd) ModbusSlaver_T) option" where
  "reply_write_single sm dv sft slave afn addr data req_length =
     do {
       set \<leftarrow> set_afn_addr_val dv;
       let (ret, d) = set (priv sm) slave afn addr data 1;
       let sm = sm\<lparr>priv := d\<rparr>;
       if ret \<noteq> 0 then reply_out sm sft ret
       else do {
         copy \<leftarrow> rdn (req (modbus sm)) 0 req_length;
         rs \<leftarrow> wrn (rsp (modbus sm)) 0 copy;
         Some (int req_length, set_rsp sm rs)
       }
     }"

text \<open>The two multiple writes answer with address and quantity.\<close>

definition reply_write_multiple ::
  "('s, 'd) ModbusSlaver_T \<Rightarrow> 'd ModbusSlaverDevCtx \<Rightarrow> sft_t \<Rightarrow> nat \<Rightarrow> nat \<Rightarrow> nat \<Rightarrow> bytes \<Rightarrow> nat \<Rightarrow>
   (int \<times> ('s, 'd) ModbusSlaver_T) option" where
  "reply_write_multiple sm dv sft slave afn addr data nb =
     do {
       set \<leftarrow> set_afn_addr_val dv;
       let (ret, d) = set (priv sm) slave afn addr data nb;
       let sm = sm\<lparr>priv := d\<rparr>;
       if ret \<noteq> 0 then reply_out sm sft ret
       else do {
         (rs, n) \<leftarrow> build_response_basis (mb_ctx (modbus sm)) sft (rsp (modbus sm));
         echo \<leftarrow> rdn (req (modbus sm)) n 4;
         rs \<leftarrow> wrn rs n echo;
         (rs, n) \<leftarrow> send_msg_pre (mb_ctx (modbus sm)) rs (n + 4);
         Some (int n, set_rsp sm rs)
       }
     }"

definition modbus_s_reply ::
  "('s, 'd) ModbusSlaver_T \<Rightarrow> nat \<Rightarrow> (int \<times> ('s, 'd) ModbusSlaver_T) option" where
  "modbus_s_reply sm req_length =
     (case dev sm of None \<Rightarrow> Some (-1, sm) | Some dv \<Rightarrow>
      do {
        let m = modbus sm;
        let offset = header_length (mb_ctx m);
        slave \<leftarrow> map_option unat (rd (req m) (offset - 1));
        afn \<leftarrow> map_option unat (rd (req m) offset);
        ah \<leftarrow> rd (req m) (offset + 1);
        al \<leftarrow> rd (req m) (offset + 2);
        qh \<leftarrow> rd (req m) (offset + 3);
        ql \<leftarrow> rd (req m) (offset + 4);
        let addr = be16 ah al;
        let bulk = be16 qh ql;
        tid \<leftarrow> prepare_response_tid (mb_ctx m) (req m) req_length;
        let sft = \<lparr>sft_slave = int slave, sft_function = int afn, sft_t_id = tid\<rparr>;
        if get_afn_addr_val dv = None then Some (0, sm)
        else case afn_of afn of
          Some MODBUS_READ_COILS \<Rightarrow>
            if \<not> (bulk \<ge> 1 \<and> bulk \<le> MODBUS_MAX_READ_BITS) then reply_out sm sft MODBUS_ILLEGAL_DATA_VALUE
            else reply_read sm dv sft slave afn addr bulk (Align8 bulk div 8)
        | Some MODBUS_READ_DISCRETE_INPUTS \<Rightarrow>
            if \<not> (bulk \<ge> 1 \<and> bulk \<le> MODBUS_MAX_READ_BITS) then reply_out sm sft MODBUS_ILLEGAL_DATA_VALUE
            else reply_read sm dv sft slave afn addr bulk (Align8 bulk div 8)
        | Some MODBUS_READ_HOLDING_REGISTERS \<Rightarrow>
            if \<not> (bulk \<ge> 1 \<and> bulk \<le> MODBUS_MAX_READ_REGISTERS) then reply_out sm sft MODBUS_ILLEGAL_DATA_VALUE
            else reply_read sm dv sft slave afn addr bulk (push_bit 1 bulk)
        | Some MODBUS_READ_INPUT_REGISTERS \<Rightarrow>
            if \<not> (bulk \<ge> 1 \<and> bulk \<le> MODBUS_MAX_READ_REGISTERS) then reply_out sm sft MODBUS_ILLEGAL_DATA_VALUE
            else reply_read sm dv sft slave afn addr bulk (push_bit 1 bulk)
        | Some MODBUS_WRITE_SINGLE_COIL \<Rightarrow>
            if \<not> (bulk = 0xFF00 \<or> bulk = 0x0) then reply_out sm sft MODBUS_ILLEGAL_DATA_VALUE
            else reply_write_single sm dv sft slave afn addr [if bulk \<noteq> 0 then 1 else 0] req_length
        | Some MODBUS_WRITE_SINGLE_REGISTER \<Rightarrow>
            reply_write_single sm dv sft slave afn addr (drop (offset + 3) (req m)) req_length
        | Some MODBUS_WRITE_MULTIPLE_COILS \<Rightarrow>
            if \<not> (bulk \<ge> 1 \<and> bulk \<le> MODBUS_MAX_WRITE_BITS) then reply_out sm sft MODBUS_ILLEGAL_DATA_VALUE
            else reply_write_multiple sm dv sft slave afn addr (drop (offset + 6) (req m)) bulk
        | Some MODBUS_WRITE_MULTIPLE_REGISTERS \<Rightarrow>
            if \<not> (bulk \<ge> 1 \<and> bulk \<le> MODBUS_MAX_WRITE_REGISTERS) then reply_out sm sft MODBUS_ILLEGAL_DATA_VALUE
            else reply_write_multiple sm dv sft slave afn addr (drop (offset + 6) (req m)) bulk
        | _ \<Rightarrow> reply_out sm sft MODBUS_ILLEGAL_FUNCTION
      })"

text \<open>One round of \<open>modbus_s_exec_thread\<close>, between \<open>wow_mutex_lock\<close> and \<open>wow_mutex_unlock\<close>.\<close>

definition modbus_s_exec_round :: "('s, 'd) ModbusSlaver_T \<Rightarrow> ('s, 'd) ModbusSlaver_T option" where
  "modbus_s_exec_round sm =
     do {
       (rlen, m) \<leftarrow> modbus_s_receive_msg (modbus sm) MSG_INDICATION;
       let sm = sm\<lparr>modbus := m\<rparr>;
       if \<not> rlen > 0 then Some sm
       else do {
         (rlen, sm) \<leftarrow> modbus_s_reply sm (nat rlen);
         if \<not> rlen > 0 then Some sm
         else do {
           msg \<leftarrow> rdn (rsp (modbus sm)) 0 (nat rlen);
           (_, l) \<leftarrow> link_send (mb_ops (modbus sm)) (link (modbus sm)) msg;
           Some (sm\<lparr>modbus := (modbus sm)\<lparr>link := l\<rparr>\<rparr>)
         }
       }
     }"

text \<open>\<open>while(s_modbus->thread.tflag)\<close>, for a number of rounds after which the flag is cleared.\<close>

fun modbus_s_exec_thread :: "nat \<Rightarrow> ('s, 'd) ModbusSlaver_T \<Rightarrow> ('s, 'd) ModbusSlaver_T option" where
  "modbus_s_exec_thread 0 sm = Some sm"
| "modbus_s_exec_thread (Suc n) sm =
     (if tflag sm then do { sm \<leftarrow> modbus_s_exec_round sm; modbus_s_exec_thread n sm } else Some sm)"

section \<open>Opening and closing\<close>

text \<open>What the calls of an open function meet: the parameters, the two allocations, the link, the thread.\<close>

record open_call =
  para_given :: bool
  calloc_ok :: bool
  port_calloc_ok :: bool
  link_env :: open_env
  thread_ok :: bool

definition new_modbus :: "ModbusCtx_T \<Rightarrow> 's ProtoPortCtx \<times> 's \<Rightarrow> 's Modbus_T" where
  "new_modbus ctx port =
     \<lparr>t_id = 0, timeout = 100, times = 10, mb_ctx = ctx, mb_ops = fst port, link = snd port,
      req = replicate MAX_MESSAGE_LENGTH 0, rsp = replicate MAX_MESSAGE_LENGTH 0\<rparr>"

definition wow_modbus_s_rtu_open ::
  "open_call \<Rightarrow> 'd ModbusSlaverDevCtx option \<Rightarrow> 'd \<Rightarrow> (proto_port, 'd) ModbusSlaver_T option option" where
  "wow_modbus_s_rtu_open call dv arg =
     (if \<not> para_given call \<or> \<not> calloc_ok call \<or> \<not> port_calloc_ok call then Some None
      else do {
        let port = proto_port_uart_init;
        (ret, l) \<leftarrow> link_open (fst port) (link_env call) (snd port);
        if ret \<noteq> 0 \<or> \<not> thread_ok call
        then do { _ \<leftarrow> proto_port_uart_exit l; Some None }
        else Some (Some \<lparr>modbus = new_modbus gt_modbusRtuCtx (fst port, l), priv = arg, dev = dv, tflag = True\<rparr>)
      })"

definition wow_modbus_s_tcp_open ::
  "open_call \<Rightarrow> 'd ModbusSlaverDevCtx option \<Rightarrow> 'd \<Rightarrow> (proto_port, 'd) ModbusSlaver_T option option" where
  "wow_modbus_s_tcp_open call dv arg =
     (if \<not> para_given call \<or> \<not> calloc_ok call \<or> \<not> port_calloc_ok call then Some None
      else do {
        let port = proto_port_eth_slave_init;
        (ret, l) \<leftarrow> link_open (fst port) (link_env call) (snd port);
        if ret \<noteq> 0 \<or> \<not> thread_ok call
        then do { _ \<leftarrow> proto_port_eth_slave_exit l; Some None }
        else Some (Some \<lparr>modbus = new_modbus gt_modbusTcpCtx (fst port, l), priv = arg, dev = dv, tflag = True\<rparr>)
      })"

definition wow_modbus_s_rtu_close :: "(proto_port, 'd) ModbusSlaver_T \<Rightarrow> unit option" where
  "wow_modbus_s_rtu_close sm =
     do {
       l \<leftarrow> link_close (mb_ops (modbus sm)) (link (modbus sm));
       _ \<leftarrow> proto_port_uart_exit l;
       Some ()
     }"

definition wow_modbus_s_tcp_close :: "(proto_port, 'd) ModbusSlaver_T \<Rightarrow> unit option" where
  "wow_modbus_s_tcp_close sm =
     do {
       l \<leftarrow> link_close (mb_ops (modbus sm)) (link (modbus sm));
       _ \<leftarrow> proto_port_eth_slave_exit l;
       Some ()
     }"

section \<open>What a slave promises\<close>

text \<open>How many data bytes a quantity stands for.\<close>

definition modbus_bytes :: "nat \<Rightarrow> nat \<Rightarrow> nat" where
  "modbus_bytes afn n =
     (case afn_of afn of
        Some MODBUS_READ_COILS \<Rightarrow> (n + 7) div 8
      | Some MODBUS_READ_DISCRETE_INPUTS \<Rightarrow> (n + 7) div 8
      | Some MODBUS_WRITE_MULTIPLE_COILS \<Rightarrow> (n + 7) div 8
      | Some MODBUS_WRITE_SINGLE_COIL \<Rightarrow> 1
      | _ \<Rightarrow> 2 * n)"

text \<open>The device behind the callbacks: a read that succeeds stores exactly the bytes of the quantity
  (and never more), a write looks at no more than those.\<close>

definition device_ok ::
  "('d \<Rightarrow> nat \<Rightarrow> nat \<Rightarrow> nat \<Rightarrow> nat \<Rightarrow> int \<times> bytes \<times> 'd) \<Rightarrow>
   ('d \<Rightarrow> nat \<Rightarrow> nat \<Rightarrow> nat \<Rightarrow> bytes \<Rightarrow> nat \<Rightarrow> int \<times> 'd) \<Rightarrow> bool" where
  "device_ok getf setf \<longleftrightarrow>
     (\<forall>d s f a n ret bytes d'. getf d s f a n = (ret, bytes, d') \<longrightarrow>
        length bytes \<le> modbus_bytes f n \<and> (ret = 0 \<longrightarrow> length bytes = modbus_bytes f n)) \<and>
     (\<forall>d s f a n data junk. modbus_bytes f n \<le> length data \<longrightarrow>
        setf d s f a (data @ junk) n = setf d s f a data n)"

lemma device_ok_get:
  "device_ok getf setf \<Longrightarrow> getf d s f a n = (ret, bytes, d') \<Longrightarrow>
   length bytes \<le> modbus_bytes f n \<and> (ret = 0 \<longrightarrow> length bytes = modbus_bytes f n)"
  unfolding device_ok_def by blast

lemma device_ok_set:
  "device_ok getf setf \<Longrightarrow> modbus_bytes f n \<le> length data \<Longrightarrow>
   setf d s f a (data @ junk) n = setf d s f a data n"
  unfolding device_ok_def by blast

text \<open>The response to a request, as bodies (slave address first); \<open>None\<close> is no response.\<close>

definition exception_body :: "u8 \<Rightarrow> u8 \<Rightarrow> int \<Rightarrow> bytes" where
  "exception_body sl fn code = [sl, fn + 0x80, word_of_int code]"

definition slave_outcome :: "u8 \<Rightarrow> u8 \<Rightarrow> int \<Rightarrow> bytes \<Rightarrow> bytes option" where
  "slave_outcome sl fn ret ok =
     (if ret = 0 then Some ok else if ret = 7 then None else Some (exception_body sl fn ret))"

fun modbus_slave_spec ::
  "('d \<Rightarrow> nat \<Rightarrow> nat \<Rightarrow> nat \<Rightarrow> nat \<Rightarrow> int \<times> bytes \<times> 'd) \<Rightarrow>
   ('d \<Rightarrow> nat \<Rightarrow> nat \<Rightarrow> nat \<Rightarrow> bytes \<Rightarrow> nat \<Rightarrow> int \<times> 'd) \<Rightarrow>
   'd \<Rightarrow> bytes \<Rightarrow> bytes option \<times> 'd" where
  "modbus_slave_spec getf setf d (sl # fn # ah # al # qh # ql # rest) =
     (let s = unat sl; f = unat fn; addr = be16 ah al; q = be16 qh ql;
          illegal = (\<lambda>code. (Some (exception_body sl fn code), d));
          read = (case getf d s f addr q of (ret, bytes, d') \<Rightarrow>
            (slave_outcome sl fn ret (sl # fn # word_of_nat (modbus_bytes f q) # bytes), d'));
          write = (\<lambda>data n. case setf d s f addr data n of (ret, d') \<Rightarrow>
            (slave_outcome sl fn ret [sl, fn, ah, al, qh, ql], d'))
      in case afn_of f of
           Some MODBUS_READ_COILS \<Rightarrow> if 1 \<le> q \<and> q \<le> 2000 then read else illegal 3
         | Some MODBUS_READ_DISCRETE_INPUTS \<Rightarrow> if 1 \<le> q \<and> q \<le> 2000 then read else illegal 3
         | Some MODBUS_READ_HOLDING_REGISTERS \<Rightarrow> if 1 \<le> q \<and> q \<le> 125 then read else illegal 3
         | Some MODBUS_READ_INPUT_REGISTERS \<Rightarrow> if 1 \<le> q \<and> q \<le> 125 then read else illegal 3
         | Some MODBUS_WRITE_SINGLE_COIL \<Rightarrow>
             if q = 0xFF00 \<or> q = 0 then write [if q \<noteq> 0 then 1 else 0] 1 else illegal 3
         | Some MODBUS_WRITE_SINGLE_REGISTER \<Rightarrow> write [qh, ql] 1
         | Some MODBUS_WRITE_MULTIPLE_COILS \<Rightarrow>
             if 1 \<le> q \<and> q \<le> 1968 then write (tl rest) q else illegal 3
         | Some MODBUS_WRITE_MULTIPLE_REGISTERS \<Rightarrow>
             if 1 \<le> q \<and> q \<le> 123 then write (tl rest) q else illegal 3
         | _ \<Rightarrow> illegal 1)"
| "modbus_slave_spec getf setf d [sl, fn] = (Some (exception_body sl fn 1), d)"
| "modbus_slave_spec getf setf d body = (None, d)"

text \<open>A request body as the receive loop delivers it: six bytes for the functions up to 6, the byte
  count and that many data bytes (enough for the quantity) after them for a multiple write, nothing
  but slave and function for any other function.\<close>

definition request_body :: "bytes \<Rightarrow> bool" where
  "request_body body \<longleftrightarrow> 2 \<le> length body \<and>
     (let f = unat (body ! 1) in
      if f \<le> 6 then length body = 6
      else if f = 15 \<or> f = 16 then 7 \<le> length body \<and> length body = 7 + unat (body ! 6) \<and>
        modbus_bytes f (be16 (body ! 4) (body ! 5)) \<le> unat (body ! 6)
      else length body = 2)"

text \<open>The slave's answer \<open>r\<close> and response buffer \<open>rs\<close> carry the response \<open>resp\<close>.\<close>

definition answers :: "(nat \<Rightarrow> bytes \<Rightarrow> bytes) \<Rightarrow> nat \<Rightarrow> bytes option \<Rightarrow> int \<Rightarrow> bytes \<Rightarrow> bool" where
  "answers adu tid resp r rs =
     (case resp of
        None \<Rightarrow> r = 0
      | Some b \<Rightarrow> r = int (length (adu tid b)) \<and> take (length (adu tid b)) rs = adu tid b)"

section \<open>The slave keeps its promise\<close>

lemma set_rsp_simps [simp]:
  "mb_ctx (modbus (set_rsp sm rs)) = mb_ctx (modbus sm)" "rsp (modbus (set_rsp sm rs)) = rs"
  "req (modbus (set_rsp sm rs)) = req (modbus sm)" "link (modbus (set_rsp sm rs)) = link (modbus sm)"
  "mb_ops (modbus (set_rsp sm rs)) = mb_ops (modbus sm)" "times (modbus (set_rsp sm rs)) = times (modbus sm)"
  "priv (set_rsp sm rs) = priv sm" "dev (set_rsp sm rs) = dev sm" "tflag (set_rsp sm rs) = tflag sm"
  "set_rsp (set_rsp sm rs) rs' = set_rsp sm rs'"
  "set_rsp (sm\<lparr>priv := d\<rparr>) rs = (set_rsp sm rs)\<lparr>priv := d\<rparr>"
  by (simp_all add: set_rsp_def)

lemma Align8_div: "Align8 n div 8 = (n + 7) div 8"
  by (simp add: Align8_def push_bit_eq_mult drop_bit_eq_div)

context modbus_backend
begin

lemma body_at:
  assumes "take (length (adu tid body)) buf = adu tid body" and "i < length body"
  shows "rd buf (header_length ctx - 1 + i) = Some (body ! i)"
proof -
  let ?k = "header_length ctx - 1 + i"
  have k: "?k < length (adu tid body)" using assms(2) by (simp add: adu_length)
  have "body ! i = take (length body) (drop (header_length ctx - 1) (adu tid body)) ! i"
    by (simp only: adu_body)
  also have "\<dots> = adu tid body ! ?k"
    using assms(2) by (simp add: adu_length)
  also have "\<dots> = buf ! ?k" using assms(1) k by (metis nth_take)
  finally show ?thesis
    using take_prefix_length [OF assms(1)] k by (simp add: rd_def)
qed

lemma body_slice:
  assumes "take (length (adu tid body)) buf = adu tid body"
  shows "drop (header_length ctx - 1) buf = body @ drop (header_length ctx - 1 + length body) buf"
proof -
  have "take (length body) (drop (header_length ctx - 1) buf) =
        take (length body) (drop (header_length ctx - 1) (take (length (adu tid body)) buf))"
    by (simp add: drop_take min_def adu_length)
  also have "\<dots> = body" unfolding assms(1) by (rule adu_body)
  finally show ?thesis
    by (metis append_take_drop_id drop_drop add.commute)
qed

lemma reply_out_answers:
  assumes m: "mb_ctx (modbus sm) = ctx" "length (rsp (modbus sm)) = 260"
    and t: "\<And>b. adu (sft_t_id sft) b = adu tid b"
    and sft: "sft_slave sft = int (unat sl)" "sft_function sft = int (unat fn)"
  shows "\<exists>r rs. reply_out sm sft ret = Some (r, set_rsp sm rs) \<and> length rs = 260 \<and>
    answers adu tid (if ret = 7 then None else Some (exception_body sl fn ret)) r rs"
proof (cases "ret = 7")
  case True
  then show ?thesis
    using m by (intro exI [of _ 0] exI [of _ "rsp (modbus sm)"])
      (simp add: reply_out_def modbus_consts set_rsp_def answers_def)
next
  case False
  let ?sft = "sft\<lparr>sft_function := sft_function sft + 0x80\<rparr>"
  have fn': "word_of_int (int (unat fn) + 128) = fn + 128" by simp
  obtain rs1 where b: "build_response_basis ctx ?sft (rsp (modbus sm)) = Some (rs1, header_length ctx + 1)"
    "length rs1 = 260" "holds (sft_t_id sft) [sl, fn + 128] rs1"
    using response_basis [OF m(2), of ?sft] by (auto simp: sft fn')
  let ?H = "header_length ctx - 1"
  have pos: "header_length ctx + 1 = ?H + length [sl, fn + 128]" using header_pos by simp
  let ?rs2 = "rs1[header_length ctx + 1 := word_of_int ret]"
  have lt: "header_length ctx + 1 < 260" using header_small by simp
  have w: "wrn rs1 (?H + length [sl, fn + 128]) [word_of_int ret] = Some ?rs2"
    using lt b(2) unfolding pos [symmetric]
    by (simp add: mem_simps upd_conv_take_nth_drop)
  have h: "holds (sft_t_id sft) (exception_body sl fn ret) ?rs2"
    using holds_append [OF b(3) w] by (simp add: exception_body_def)
  have le: "length (exception_body sl fn ret) + header_length ctx - 1 + checksum_length ctx \<le> 260"
    using header_small checksum_small by (simp add: exception_body_def)
  have n: "?H + length (exception_body sl fn ret) = header_length ctx + 2"
    using header_pos by (simp add: exception_body_def)
  obtain rs where f: "send_msg_pre ctx ?rs2 (header_length ctx + 2) =
      Some (rs, length (adu tid (exception_body sl fn ret)))" "length rs = 260"
    "take (length (adu tid (exception_body sl fn ret))) rs = adu tid (exception_body sl fn ret)"
    using finish [OF h _ le] b(2) unfolding n t by auto
  show ?thesis
    using False m b f lt
    by (intro exI [of _ "int (length (adu tid (exception_body sl fn ret)))"] exI [of _ rs])
       (simp add: reply_out_def response_exception_def modbus_consts set_rsp_def answers_def mem_simps)
qed


text \<open>The tail shared by the three successful replies: append to the basis and finish.\<close>

lemma append_finish:
  assumes h: "holds tid body buf" and len: "length buf = 260"
    and le: "length body + length xs \<le> 253"
  shows "\<exists>buf1 buf2. wrn buf (header_length ctx - 1 + length body) xs = Some buf1 \<and> length buf1 = 260 \<and>
    send_msg_pre ctx buf1 (header_length ctx - 1 + (length body + length xs)) =
      Some (buf2, length (adu tid (body @ xs))) \<and>
    length buf2 = 260 \<and> take (length (adu tid (body @ xs))) buf2 = adu tid (body @ xs)"
proof -
  have "header_length ctx - 1 + length body + length xs \<le> length buf"
    using le len adu_limit header_pos by simp
  then obtain buf1 where w: "wrn buf (header_length ctx - 1 + length body) xs = Some buf1"
    by (auto simp: wrn_def)
  have len1: "length buf1 = 260" using wrn_length [OF w] len by simp
  have "length (body @ xs) + header_length ctx - 1 + checksum_length ctx \<le> 260"
    using le adu_limit header_pos by simp
  from finish [OF holds_append [OF h w] len1 this] show ?thesis
    using w len1 by auto
qed

lemma reply_read_answers:
  assumes m: "mb_ctx (modbus sm) = ctx" "length (rsp (modbus sm)) = 260"
    and t: "\<And>b. adu (sft_t_id sft) b = adu tid b"
    and sft: "sft_slave sft = int (unat sl)" "sft_function sft = int (unat fn)"
    and g: "get_afn_addr_val dv = Some getf" "getf (priv sm) s f addr q = (ret, bytes, d)"
      "length bytes \<le> nb" "ret = 0 \<longrightarrow> length bytes = nb" "nb \<le> 250"
  shows "\<exists>r rs. reply_read sm dv sft s f addr q nb = Some (r, (set_rsp sm rs)\<lparr>priv := d\<rparr>) \<and>
    length rs = 260 \<and>
    answers adu tid (slave_outcome sl fn ret (sl # fn # word_of_nat nb # bytes)) r rs"
proof -
  let ?H = "header_length ctx - 1"
  obtain rs1 where b: "build_response_basis ctx sft (rsp (modbus sm)) = Some (rs1, header_length ctx + 1)"
    "length rs1 = 260" "holds (sft_t_id sft) [sl, fn] rs1"
    using response_basis [OF m(2), of sft] by (auto simp: sft)
  have pos: "header_length ctx + 1 = ?H + length [sl, fn]" using header_pos by simp
  have lt: "header_length ctx + 1 < 260" using header_small by simp
  let ?rs2 = "rs1[header_length ctx + 1 := word_of_nat nb]"
  have "wrn rs1 (?H + length [sl, fn]) [word_of_nat nb] = Some ?rs2"
    using lt b(2) unfolding pos [symmetric] by (simp add: mem_simps upd_conv_take_nth_drop)
  from holds_append [OF b(3) this]
  have h: "holds (sft_t_id sft) [sl, fn, word_of_nat nb] ?rs2" by simp
  have pos2: "?H + length [sl, fn, word_of_nat nb] = header_length ctx + 2" using header_pos by simp
  obtain rs3 rs where f: "wrn ?rs2 (header_length ctx + 2) bytes = Some rs3" "length rs3 = 260"
    "send_msg_pre ctx rs3 (?H + (3 + length bytes)) =
       Some (rs, length (adu tid (sl # fn # word_of_nat nb # bytes)))"
    "length rs = 260" "take (length (adu tid (sl # fn # word_of_nat nb # bytes))) rs =
       adu tid (sl # fn # word_of_nat nb # bytes)"
    using append_finish [OF h, of bytes, unfolded pos2 t] b(2) g(3,5) by (auto simp: numeral_3_eq_3)
  show ?thesis
  proof (cases "ret = 0")
    case True
    then have "?H + (3 + length bytes) = header_length ctx + 2 + nb"
      using g(4) header_pos by simp
    with True m b f lt g show ?thesis
      by (intro exI [of _ "int (length (adu tid (sl # fn # word_of_nat nb # bytes)))"] exI [of _ rs])
         (simp add: reply_read_def Let_def mem_simps answers_def slave_outcome_def)
  next
    case False
    let ?sm = "(set_rsp sm rs3)\<lparr>priv := d\<rparr>"
    obtain r rs4 where "reply_out ?sm sft ret = Some (r, set_rsp ?sm rs4)" "length rs4 = 260"
      "answers adu tid (if ret = 7 then None else Some (exception_body sl fn ret)) r rs4"
      using reply_out_answers [of ?sm, OF _ _ t sft, of ret] m f(2)
      by fastforce
    with False m b f lt g show ?thesis
      by (intro exI [of _ r] exI [of _ rs4])
         (simp add: reply_read_def Let_def mem_simps slave_outcome_def)
  qed
qed

lemma reply_write_single_answers:
  assumes m: "mb_ctx (modbus sm) = ctx" "length (rsp (modbus sm)) = 260"
    and t: "\<And>b. adu (sft_t_id sft) b = adu tid b"
    and sft: "sft_slave sft = int (unat sl)" "sft_function sft = int (unat fn)"
    and q: "take (length (adu tid body)) (req (modbus sm)) = adu tid body" "length (adu tid body) \<le> 260"
    and s: "set_afn_addr_val dv = Some setf" "setf (priv sm) s f addr data 1 = (ret, d)"
  shows "\<exists>r rs. reply_write_single sm dv sft s f addr data (length (adu tid body)) =
      Some (r, (set_rsp sm rs)\<lparr>priv := d\<rparr>) \<and>
    length rs = 260 \<and> answers adu tid (slave_outcome sl fn ret body) r rs"
proof (cases "ret = 0")
  case True
  have "rdn (req (modbus sm)) 0 (length (adu tid body)) = Some (adu tid body)"
    using q take_prefix_length [OF q(1)] by (simp add: mem_simps)
  moreover obtain rs where "wrn (rsp (modbus sm)) 0 (adu tid body) = Some rs"
    "length rs = 260" "take (length (adu tid body)) rs = adu tid body"
    using m(2) q(2) by (auto simp: mem_simps)
  ultimately show ?thesis
    using True s by (intro exI [of _ "int (length (adu tid body))"] exI [of _ rs])
      (simp add: reply_write_single_def Let_def answers_def slave_outcome_def)
next
  case False
  let ?sm = "sm\<lparr>priv := d\<rparr>"
  obtain r rs where "reply_out ?sm sft ret = Some (r, set_rsp ?sm rs)" "length rs = 260"
    "answers adu tid (if ret = 7 then None else Some (exception_body sl fn ret)) r rs"
    using reply_out_answers [of ?sm, OF _ _ t sft, of ret] m by fastforce
  with False s show ?thesis
    by (intro exI [of _ r] exI [of _ rs])
       (simp add: reply_write_single_def Let_def slave_outcome_def)
qed

lemma reply_write_multiple_answers:
  assumes m: "mb_ctx (modbus sm) = ctx" "length (rsp (modbus sm)) = 260"
    and t: "\<And>b. adu (sft_t_id sft) b = adu tid b"
    and sft: "sft_slave sft = int (unat sl)" "sft_function sft = int (unat fn)"
    and q: "take (length (adu tid body)) (req (modbus sm)) = adu tid body"
      "body = sl # fn # ah # al # qh # ql # rest"
    and s: "set_afn_addr_val dv = Some setf" "setf (priv sm) s f addr data nb = (ret, d)"
  shows "\<exists>r rs. reply_write_multiple sm dv sft s f addr data nb = Some (r, (set_rsp sm rs)\<lparr>priv := d\<rparr>) \<and>
    length rs = 260 \<and> answers adu tid (slave_outcome sl fn ret [sl, fn, ah, al, qh, ql]) r rs"
proof (cases "ret = 0")
  case True
  let ?H = "header_length ctx - 1" and ?echo = "[ah, al, qh, ql]"
  obtain rs1 where b: "build_response_basis ctx sft (rsp (modbus sm)) = Some (rs1, header_length ctx + 1)"
    "length rs1 = 260" "holds (sft_t_id sft) [sl, fn] rs1"
    using response_basis [OF m(2), of sft] by (auto simp: sft)
  have pos: "?H + length [sl, fn] = header_length ctx + 1" using header_pos by simp
  have "drop (header_length ctx + 1) (req (modbus sm)) = drop 2 (drop ?H (req (modbus sm)))"
    using header_pos by (simp add: add.commute)
  also have "\<dots> = [ah, al, qh, ql] @ rest @ drop (?H + length body) (req (modbus sm))"
    unfolding body_slice [OF q(1)] by (simp add: q(2))
  finally have "take 4 (drop (header_length ctx + 1) (req (modbus sm))) = ?echo" by simp
  moreover have "header_length ctx + 1 + 4 \<le> length (req (modbus sm))"
    using take_prefix_length [OF q(1)] header_pos by (simp add: adu_length q(2))
  ultimately have e: "rdn (req (modbus sm)) (header_length ctx + 1) 4 = Some ?echo"
    by (simp add: rdn_in)
  have fin: "?H + (length [sl, fn] + length ?echo) = header_length ctx + 1 + 4"
    using header_pos by simp
  obtain rs3 rs where f: "wrn rs1 (header_length ctx + 1) ?echo = Some rs3" "length rs3 = 260"
    "send_msg_pre ctx rs3 (header_length ctx + 1 + 4) = Some (rs, length (adu tid ([sl, fn] @ ?echo)))"
    "length rs = 260" "take (length (adu tid ([sl, fn] @ ?echo))) rs = adu tid ([sl, fn] @ ?echo)"
    using append_finish [OF b(3,2), of ?echo, unfolded pos t fin] by auto
  with True m b e s show ?thesis
    by (intro exI [of _ "int (length (adu tid ([sl, fn] @ ?echo)))"] exI [of _ rs])
       (simp add: reply_write_multiple_def Let_def answers_def slave_outcome_def)
next
  case False
  let ?sm = "sm\<lparr>priv := d\<rparr>"
  obtain r rs where "reply_out ?sm sft ret = Some (r, set_rsp ?sm rs)" "length rs = 260"
    "answers adu tid (if ret = 7 then None else Some (exception_body sl fn ret)) r rs"
    using reply_out_answers [of ?sm, OF _ _ t sft, of ret] m by fastforce
  with False s show ?thesis
    by (intro exI [of _ r] exI [of _ rs])
       (simp add: reply_write_multiple_def Let_def slave_outcome_def)
qed

text \<open>What the reply reads from the request buffer, for a request with the four bytes of meta data.\<close>

lemma request_fields:
  assumes q: "take (length (adu tid body)) rq = adu tid body"
    and b: "body = sl # fn # ah # al # qh # ql # rest"
  shows "rd rq (header_length ctx - 1) = Some sl" "rd rq (header_length ctx) = Some fn"
    "rd rq (header_length ctx + 1) = Some ah" "rd rq (header_length ctx + 2) = Some al"
    "rd rq (header_length ctx + 3) = Some qh" "rd rq (header_length ctx + 4) = Some ql"
    "\<exists>junk. drop (header_length ctx + 3) rq = qh # ql # rest @ junk"
proof -
  have at: "i < length body \<Longrightarrow> rd rq (header_length ctx - 1 + i) = Some (body ! i)" for i
    by (rule body_at [OF q])
  show "rd rq (header_length ctx - 1) = Some sl" "rd rq (header_length ctx) = Some fn"
    "rd rq (header_length ctx + 1) = Some ah" "rd rq (header_length ctx + 2) = Some al"
    "rd rq (header_length ctx + 3) = Some qh" "rd rq (header_length ctx + 4) = Some ql"
    using at [of 0] at [of 1] at [of 2] at [of 3] at [of 4] at [of 5] header_pos
    by (simp_all add: b eval_nat_numeral)
  have "drop (header_length ctx + 3) rq = drop 4 (drop (header_length ctx - 1) rq)"
    using header_pos by (simp add: add.commute)
  then show "\<exists>junk. drop (header_length ctx + 3) rq = qh # ql # rest @ junk"
    unfolding body_slice [OF q] by (simp add: b)
qed

lemma reply_answers_six:
  assumes m: "mb_ctx (modbus sm) = ctx" "length (rsp (modbus sm)) = 260"
    and q: "take (length (adu tid body)) (req (modbus sm)) = adu tid body" "length (adu tid body) \<le> 260"
    and b: "body = sl # fn # ah # al # qh # ql # rest" "request_body body"
    and dv: "dev sm = Some dv" "get_afn_addr_val dv = Some getf" "set_afn_addr_val dv = Some setf"
      "device_ok getf setf"
    and spec: "modbus_slave_spec getf setf (priv sm) body = (resp, d)"
  shows "\<exists>r rs. modbus_s_reply sm (length (adu tid body)) = Some (r, (set_rsp sm rs)\<lparr>priv := d\<rparr>) \<and>
    length rs = 260 \<and> answers adu tid resp r rs"
proof -
  let ?q = "be16 qh ql" and ?f = "unat fn" and ?s = "unat sl" and ?a = "be16 ah al"
  obtain t where t: "prepare_response_tid ctx (req (modbus sm)) (length (adu tid body)) = Some t"
    "\<And>b. adu t b = adu tid b"
    using response_tid [OF q(1)] by blast
  let ?sft = "\<lparr>sft_slave = int ?s, sft_function = int ?f, sft_t_id = t\<rparr>"
  have t': "adu (sft_t_id ?sft) b = adu tid b" for b using t(2) by simp
  have sft: "sft_slave ?sft = int ?s" "sft_function ?sft = int ?f" by simp_all
  note fields = request_fields [OF q(1) b(1)]
  note start = modbus_s_reply_def Let_def m(1) fields(1-6) [simplified] t(1) dv(1,2)
  note spec' = spec [unfolded b(1), simplified, unfolded Let_def]
  obtain junk where junk: "drop (header_length ctx + 3) (req (modbus sm)) = qh # ql # rest @ junk"
    using fields(7) by blast
  have out: "\<exists>r rs. reply_out sm ?sft code = Some (r, (set_rsp sm rs)\<lparr>priv := priv sm\<rparr>) \<and>
      length rs = 260 \<and> answers adu tid (Some (exception_body sl fn code)) r rs" if "code \<noteq> 7" for code
    using reply_out_answers [OF m t' sft, of code] that by (auto simp: set_rsp_def)
  have read: "\<exists>r rs. reply_read sm dv ?sft ?s ?f ?a ?q (modbus_bytes ?f ?q) = Some (r, (set_rsp sm rs)\<lparr>priv := d'\<rparr>) \<and>
      length rs = 260 \<and>
      answers adu tid (slave_outcome sl fn ret (sl # fn # word_of_nat (modbus_bytes ?f ?q) # bs)) r rs"
    if "getf (priv sm) ?s ?f ?a ?q = (ret, bs, d')" "modbus_bytes ?f ?q \<le> 250" for ret bs d'
    using device_ok_get [OF dv(4) that(1)] that(2)
    by (intro reply_read_answers [OF m t' sft dv(2) that(1)]) auto
  have single: "\<exists>r rs. reply_write_single sm dv ?sft ?s ?f ?a data (length (adu tid body)) =
        Some (r, (set_rsp sm rs)\<lparr>priv := d'\<rparr>) \<and>
      length rs = 260 \<and> answers adu tid (slave_outcome sl fn ret [sl, fn, ah, al, qh, ql]) r rs"
    if "setf (priv sm) ?s ?f ?a data 1 = (ret, d')" "rest = []" for data ret d'
    using reply_write_single_answers [OF m t' sft q dv(3) that(1)] b(1) that(2) by simp
  have multiple: "\<exists>r rs. reply_write_multiple sm dv ?sft ?s ?f ?a data nb = Some (r, (set_rsp sm rs)\<lparr>priv := d'\<rparr>) \<and>
      length rs = 260 \<and> answers adu tid (slave_outcome sl fn ret [sl, fn, ah, al, qh, ql]) r rs"
    if "setf (priv sm) ?s ?f ?a data nb = (ret, d')" for data nb ret d'
    by (rule reply_write_multiple_answers [OF m t' sft q(1) b(1) dv(3) that])
  have written: "setf (priv sm) ?s ?f ?a (data @ junk) n = setf (priv sm) ?s ?f ?a data n"
    if "modbus_bytes ?f n \<le> length data" for data n
    by (rule device_ok_set [OF dv(4) that])
  have d6: "drop (header_length ctx + 6) (req (modbus sm)) = tl rest @ junk" if "rest \<noteq> []"
  proof -
    have "drop (header_length ctx + 6) (req (modbus sm)) = drop 3 (drop (header_length ctx + 3) (req (modbus sm)))"
      by (simp add: add.commute)
    then show ?thesis using that by (cases rest) (simp_all add: junk)
  qed
  show ?thesis
  proof (cases "afn_of ?f")
    case None
    then show ?thesis
      using spec' out [of 1] by (simp add: start modbus_consts)
  next
    case (Some f)
    then have f: "?f = afn_code f" by (simp add: afn_of_Some)
    note body6 = b(2) [unfolded request_body_def Let_def b(1)]
    obtain ret bs d' where get: "getf (priv sm) ?s ?f ?a ?q = (ret, bs, d')"
      by (cases "getf (priv sm) ?s ?f ?a ?q") auto
    note reading = start modbus_consts Some modbus_bytes_def Align8_div push_bit_eq_mult mult.commute [of _ 2]
    show ?thesis
    proof (cases f)
      case MODBUS_READ_COILS
      then show ?thesis
        using spec' out [of 3] read [OF get] get
        by (cases "1 \<le> ?q \<and> ?q \<le> 2000") (auto simp: reading)
    next
      case MODBUS_READ_DISCRETE_INPUTS
      then show ?thesis
        using spec' out [of 3] read [OF get] get
        by (cases "1 \<le> ?q \<and> ?q \<le> 2000") (auto simp: reading)
    next
      case MODBUS_READ_HOLDING_REGISTERS
      then show ?thesis
        using spec' out [of 3] read [OF get] get
        by (cases "1 \<le> ?q \<and> ?q \<le> 125") (auto simp: reading)
    next
      case MODBUS_READ_INPUT_REGISTERS
      then show ?thesis
        using spec' out [of 3] read [OF get] get
        by (cases "1 \<le> ?q \<and> ?q \<le> 125") (auto simp: reading)
    next
      case MODBUS_WRITE_SINGLE_COIL
      let ?v = "[if ?q \<noteq> 0 then 1 else 0 :: u8]"
      obtain ret d' where set: "setf (priv sm) ?s ?f ?a ?v 1 = (ret, d')"
        by (cases "setf (priv sm) ?s ?f ?a ?v 1")
      have "rest = []" using body6 f MODBUS_WRITE_SINGLE_COIL by simp
      then show ?thesis
        using MODBUS_WRITE_SINGLE_COIL spec' out [of 3] single [OF set] set
        by (auto simp: start modbus_consts Some split: if_splits)
    next
      case MODBUS_WRITE_SINGLE_REGISTER
      obtain ret d' where set: "setf (priv sm) ?s ?f ?a [qh, ql] 1 = (ret, d')"
        by (cases "setf (priv sm) ?s ?f ?a [qh, ql] 1")
      have "rest = []" using body6 f MODBUS_WRITE_SINGLE_REGISTER by simp
      then show ?thesis
        using MODBUS_WRITE_SINGLE_REGISTER spec' set written [of 1 "[qh, ql]"] junk set
          single [of "qh # ql # junk" ret d']
        by (auto simp: start modbus_consts Some modbus_bytes_def)
    next
      case MODBUS_READ_EXCEPTION_STATUS
      then show ?thesis
        using spec' out [of 1] by (simp add: start Some modbus_consts)
    next
      case MODBUS_WRITE_MULTIPLE_COILS
      obtain ret d' where set: "setf (priv sm) ?s ?f ?a (tl rest) ?q = (ret, d')"
        by (cases "setf (priv sm) ?s ?f ?a (tl rest) ?q")
      have "rest \<noteq> []" "modbus_bytes ?f ?q \<le> length (tl rest)"
        using body6 f MODBUS_WRITE_MULTIPLE_COILS by (auto simp: nth_Cons')
      then show ?thesis
        using MODBUS_WRITE_MULTIPLE_COILS spec' out [of 3] set written [of ?q "tl rest"] d6 
          multiple [of "tl rest @ junk" ?q ret d']
        by (auto simp: start modbus_consts Some split: if_splits)
    next
      case MODBUS_WRITE_MULTIPLE_REGISTERS
      obtain ret d' where set: "setf (priv sm) ?s ?f ?a (tl rest) ?q = (ret, d')"
        by (cases "setf (priv sm) ?s ?f ?a (tl rest) ?q")
      have "rest \<noteq> []" "modbus_bytes ?f ?q \<le> length (tl rest)"
        using body6 f MODBUS_WRITE_MULTIPLE_REGISTERS by (auto simp: nth_Cons')
      then show ?thesis
        using MODBUS_WRITE_MULTIPLE_REGISTERS spec' out [of 3] set written [of ?q "tl rest"] d6 
          multiple [of "tl rest @ junk" ?q ret d']
        by (auto simp: start modbus_consts Some split: if_splits)
    next
      case MODBUS_REPORT_SLAVE_ID
      then show ?thesis
        using spec' out [of 1] by (simp add: start Some modbus_consts)
    qed
  qed
qed

lemma reply_answers_two:
  assumes m: "mb_ctx (modbus sm) = ctx" "length (rsp (modbus sm)) = 260" "length (req (modbus sm)) = 260"
    and q: "take (length (adu tid [sl, fn])) (req (modbus sm)) = adu tid [sl, fn]"
    and b: "request_body [sl, fn]"
    and dv: "dev sm = Some dv" "get_afn_addr_val dv \<noteq> None"
  shows "\<exists>r rs. modbus_s_reply sm (length (adu tid [sl, fn])) = Some (r, set_rsp sm rs) \<and>
    length rs = 260 \<and> answers adu tid (Some (exception_body sl fn 1)) r rs"
proof -
  let ?f = "unat fn"
  obtain t where t: "prepare_response_tid ctx (req (modbus sm)) (length (adu tid [sl, fn])) = Some t"
    "\<And>b. adu t b = adu tid b"
    using response_tid [OF q] by blast
  let ?sft = "\<lparr>sft_slave = int (unat sl), sft_function = int ?f, sft_t_id = t\<rparr>"
  have at: "rd (req (modbus sm)) (header_length ctx - 1) = Some sl"
    "rd (req (modbus sm)) (header_length ctx) = Some fn"
    using body_at [OF q, of 0] body_at [OF q, of 1] header_pos by simp_all
  have f: "afn_of ?f \<in> {None, Some MODBUS_READ_EXCEPTION_STATUS, Some MODBUS_REPORT_SLAVE_ID}"
    using b by (auto simp: request_body_def afn_of_def split: if_splits)
  have "\<exists>r rs. reply_out sm ?sft 1 = Some (r, set_rsp sm rs) \<and> length rs = 260 \<and>
      answers adu tid (Some (exception_body sl fn 1)) r rs"
    using reply_out_answers [OF m(1,2), of ?sft tid sl fn 1] t(2) by auto
  then show ?thesis
    using f at t(1) dv m header_small
    by (auto simp: modbus_s_reply_def Let_def rd_in modbus_consts simp flip: One_nat_def)
qed

lemma reply_answers:
  assumes m: "mb_ctx (modbus sm) = ctx" "length (rsp (modbus sm)) = 260" "length (req (modbus sm)) = 260"
    and q: "take (length (adu tid body)) (req (modbus sm)) = adu tid body"
    and b: "request_body body"
    and dv: "dev sm = Some dv" "get_afn_addr_val dv = Some getf" "set_afn_addr_val dv = Some setf"
      "device_ok getf setf"
    and spec: "modbus_slave_spec getf setf (priv sm) body = (resp, d)"
  shows "\<exists>r rs. modbus_s_reply sm (length (adu tid body)) = Some (r, (set_rsp sm rs)\<lparr>priv := d\<rparr>) \<and>
    length rs = 260 \<and> answers adu tid resp r rs"
proof (cases "6 \<le> length body")
  case True
  then obtain sl fn ah al qh ql rest where "body = sl # fn # ah # al # qh # ql # rest"
    by (auto simp: Suc_le_length_iff eval_nat_numeral)
  from reply_answers_six [OF m(1,2) q _ this b dv spec] take_prefix_length [OF q] m(3)
  show ?thesis by simp
next
  case False
  then have "length body = 2" using b by (auto simp: request_body_def Let_def split: if_splits)
  then obtain sl fn where body: "body = [sl, fn]" by (auto simp: length_Suc_conv eval_nat_numeral)
  have upd: "(set_rsp sm rs)\<lparr>priv := priv sm\<rparr> = set_rsp sm rs" for rs by (simp add: set_rsp_def)
  show ?thesis
    using reply_answers_two [OF m, of tid sl fn] q b dv spec by (auto simp: body upd)
qed

text \<open>The receive loop takes exactly the request and nothing behind it.\<close>

lemma request_frame:
  assumes "request_body body" and "length body \<le> 253"
  shows "modbus_frame ctx MSG_INDICATION (adu tid body)"
proof -
  have le: "header_length ctx - 1 + length body + checksum_length ctx \<le> max_adu_length ctx"
    using assms(2) adu_limit header_pos by simp
  have at: "i < length body \<Longrightarrow> rd (adu tid body) (header_length ctx - 1 + i) = Some (body ! i)" for i
    by (rule body_at [of tid]) simp_all
  have H: "header_length ctx - 1 + 1 = header_length ctx" "header_length ctx - 1 + 6 = header_length ctx + 5"
    using header_pos by simp_all
  have fn: "rd (adu tid body) (header_length ctx) = Some (body ! 1)"
    and cnt: "6 < length body \<Longrightarrow> rd (adu tid body) (header_length ctx + 5) = Some (body ! 6)"
    using at [of 1, unfolded H] at [of 6, unfolded H] assms(1) by (simp_all add: request_body_def)
  then have "adu tid body ! header_length ctx = body ! 1" by (simp add: rd_Some_iff)
  with assms(1) fn cnt le show ?thesis
    using header_pos
    by (auto simp: modbus_frame_def Let_def request_body_def adu_length
        compute_meta_length_after_function_def compute_data_length_after_meta_def split: if_splits)
qed

text \<open>Whatever the 260 bytes of the request buffer hold, the reply stays inside its buffers.\<close>

lemma answers_bound: "answers adu tid resp r rs \<Longrightarrow> length rs = 260 \<Longrightarrow> r \<le> 260"
  using take_prefix_length [of _ rs] by (auto simp: answers_def split: option.splits)

lemma reply_out_total:
  fixes sl fn :: u8
  assumes "mb_ctx (modbus sm) = ctx" "length (rsp (modbus sm)) = 260"
    and "sft_slave sft = int (unat sl)" "sft_function sft = int (unat fn)"
  shows "\<exists>r rs. reply_out sm sft ret = Some (r, set_rsp sm rs) \<and> length rs = 260 \<and> r \<le> 260"
proof -
  have t: "adu (sft_t_id sft) b = adu (sft_t_id sft) b" for b by (rule refl)
  from reply_out_answers [OF assms(1,2) t assms(3,4), of ret] answers_bound show ?thesis by blast
qed

lemma reply_read_total:
  fixes sl fn :: u8
  assumes m: "mb_ctx (modbus sm) = ctx" "length (rsp (modbus sm)) = 260"
    and sft: "sft_slave sft = int (unat sl)" "sft_function sft = int (unat fn)"
    and g: "get_afn_addr_val dv = Some getf" "device_ok getf setf"
      "modbus_bytes f q = nb" "nb \<le> 250"
  shows "\<exists>r rs d. reply_read sm dv sft s f addr q nb = Some (r, (set_rsp sm rs)\<lparr>priv := d\<rparr>) \<and>
    length rs = 260 \<and> r \<le> 260"
proof -
  obtain ret bytes d where get: "getf (priv sm) s f addr q = (ret, bytes, d)"
    by (cases "getf (priv sm) s f addr q") auto
  have "length bytes \<le> nb" "ret = 0 \<longrightarrow> length bytes = nb"
    using device_ok_get [OF g(2) get] g(3) by auto
  moreover have t: "adu (sft_t_id sft) b = adu (sft_t_id sft) b" for b by (rule refl)
  ultimately show ?thesis
    using reply_read_answers [OF m t sft g(1) get _ _ g(4)] answers_bound by blast
qed

lemma reply_write_single_total:
  fixes sl fn :: u8
  assumes m: "mb_ctx (modbus sm) = ctx" "length (rsp (modbus sm)) = 260" "length (req (modbus sm)) = 260"
    and sft: "sft_slave sft = int (unat sl)" "sft_function sft = int (unat fn)"
    and s: "set_afn_addr_val dv = Some setf" "n \<le> 260"
  shows "\<exists>r rs d. reply_write_single sm dv sft s f addr data n = Some (r, (set_rsp sm rs)\<lparr>priv := d\<rparr>) \<and>
    length rs = 260 \<and> r \<le> 260"
proof -
  obtain ret d where set: "setf (priv sm) s f addr data 1 = (ret, d)" by fastforce
  show ?thesis
  proof (cases "ret = 0")
    case True
    then show ?thesis
      using m s set by (auto simp: reply_write_single_def Let_def mem_simps)
  next
    case False
    have "mb_ctx (modbus (sm\<lparr>priv := d\<rparr>)) = ctx" "length (rsp (modbus (sm\<lparr>priv := d\<rparr>))) = 260"
      using m by simp_all
    from reply_out_total [OF this sft, of ret] False s set show ?thesis
      by (auto simp: reply_write_single_def Let_def)
  qed
qed

lemma reply_write_multiple_total:
  fixes sl fn :: u8
  assumes m: "mb_ctx (modbus sm) = ctx" "length (rsp (modbus sm)) = 260" "length (req (modbus sm)) = 260"
    and sft: "sft_slave sft = int (unat sl)" "sft_function sft = int (unat fn)"
    and s: "set_afn_addr_val dv = Some setf"
  shows "\<exists>r rs d. reply_write_multiple sm dv sft s f addr data n = Some (r, (set_rsp sm rs)\<lparr>priv := d\<rparr>) \<and>
    length rs = 260 \<and> r \<le> 260"
proof -
  obtain ret d where set: "setf (priv sm) s f addr data n = (ret, d)" by fastforce
  show ?thesis
  proof (cases "ret = 0")
    case True
    let ?H = "header_length ctx - 1" and ?echo = "take 4 (drop (header_length ctx + 1) (req (modbus sm)))"
    obtain rs1 where b: "build_response_basis ctx sft (rsp (modbus sm)) = Some (rs1, header_length ctx + 1)"
      "length rs1 = 260" "holds (sft_t_id sft) [sl, fn] rs1"
      using response_basis [OF m(2), of sft] by (auto simp: sft)
    have pos: "?H + length [sl, fn] = header_length ctx + 1" using header_pos by simp
    have e: "rdn (req (modbus sm)) (header_length ctx + 1) 4 = Some ?echo" "length ?echo = 4"
      using header_small m(3) by (simp_all add: rdn_in)
    then have fin: "?H + (length [sl, fn] + length ?echo) = header_length ctx + 1 + 4"
      using header_pos by simp
    obtain rs3 rs where f: "wrn rs1 (header_length ctx + 1) ?echo = Some rs3"
      "send_msg_pre ctx rs3 (header_length ctx + 1 + 4) = Some (rs, length (adu (sft_t_id sft) ([sl, fn] @ ?echo)))"
      "length rs = 260" "take (length (adu (sft_t_id sft) ([sl, fn] @ ?echo))) rs = adu (sft_t_id sft) ([sl, fn] @ ?echo)"
      using append_finish [OF b(3,2), of ?echo, unfolded pos fin] e(2) by auto
    have "length (adu (sft_t_id sft) ([sl, fn] @ ?echo)) \<le> 260"
      using take_prefix_length [OF f(4)] f(3) by simp
    with f True m b e(1) s set show ?thesis
      by (auto simp: reply_write_multiple_def Let_def)
  next
    case False
    have "mb_ctx (modbus (sm\<lparr>priv := d\<rparr>)) = ctx" "length (rsp (modbus (sm\<lparr>priv := d\<rparr>))) = 260"
      using m by simp_all
    from reply_out_total [OF this sft, of ret] False s set show ?thesis
      by (auto simp: reply_write_multiple_def Let_def)
  qed
qed

lemma reply_total:
  assumes m: "mb_ctx (modbus sm) = ctx" "length (rsp (modbus sm)) = 260" "length (req (modbus sm)) = 260"
    and n: "n \<le> 260"
    and dv: "dev sm = Some dv" "get_afn_addr_val dv = Some getf" "set_afn_addr_val dv = Some setf"
      "device_ok getf setf"
  shows "\<exists>r rs d. modbus_s_reply sm n = Some (r, (set_rsp sm rs)\<lparr>priv := d\<rparr>) \<and> length rs = 260 \<and> r \<le> 260"
proof -
  obtain sl fn ah al qh ql where at:
    "rd (req (modbus sm)) (header_length ctx - 1) = Some sl" "rd (req (modbus sm)) (header_length ctx) = Some fn"
    "rd (req (modbus sm)) (header_length ctx + 1) = Some ah" "rd (req (modbus sm)) (header_length ctx + 2) = Some al"
    "rd (req (modbus sm)) (header_length ctx + 3) = Some qh" "rd (req (modbus sm)) (header_length ctx + 4) = Some ql"
    using header_small m(3) by (simp add: rd_in)
  obtain t where t: "prepare_response_tid ctx (req (modbus sm)) n = Some t"
    using response_tid_total [OF m(3)] by auto
  let ?q = "be16 qh ql" and ?f = "unat fn"
  let ?sft = "\<lparr>sft_slave = int (unat sl), sft_function = int ?f, sft_t_id = t\<rparr>"
  have sft: "sft_slave ?sft = int (unat sl)" "sft_function ?sft = int ?f" by simp_all
  have "(set_rsp sm rs)\<lparr>priv := priv sm\<rparr> = set_rsp sm rs" for rs by (simp add: set_rsp_def)
  then have out: "\<exists>r rs d. reply_out sm ?sft code = Some (r, (set_rsp sm rs)\<lparr>priv := d\<rparr>) \<and>
      length rs = 260 \<and> r \<le> 260" for code
    using reply_out_total [OF m(1,2) sft, of code] by metis
  note part = reply_read_total [OF m(1,2) sft dv(2,4) refl, of ?f ?q] reply_write_single_total [OF m sft dv(3) n]
    reply_write_multiple_total [OF m sft dv(3)]
  note start = modbus_s_reply_def Let_def m(1) at [simplified] t dv(1,2) modbus_consts Align8_div
    push_bit_eq_mult mult.commute [of _ 2]
  show ?thesis
  proof (cases "afn_of ?f")
    case None
    then show ?thesis using out [of 1] by (simp add: start)
  next
    case (Some f)
    have bytes: "modbus_bytes ?f ?q = (if f \<in> {MODBUS_READ_COILS, MODBUS_READ_DISCRETE_INPUTS}
        then (?q + 7) div 8 else 2 * ?q)"
      if "f \<in> {MODBUS_READ_COILS, MODBUS_READ_DISCRETE_INPUTS, MODBUS_READ_HOLDING_REGISTERS, MODBUS_READ_INPUT_REGISTERS}"
      using that Some by (auto simp: modbus_bytes_def)
    have small: "(?q + 7) div 8 \<le> 250" if "?q \<le> 2000" using that by simp
    show ?thesis
      using Some out part bytes small
      by (cases f) (simp_all add: start)
  qed
qed

end

end
