(* ===== verification/ModbusServe.thy ===== *)
theory ModbusServe
  imports ModbusSlave
begin

text \<open>
  The service thread of the Modbus slave (\<open>modbus_s_exec_thread\<close> of \<open>wow_modbus_s.c\<close>) on the
  links the code opens: it never leaves its buffers whatever arrives, and a stream of requests is
  answered one by one with the responses of \<open>modbus_slave_spec\<close>.
\<close>

section \<open>The state between two rounds\<close>

definition slave_ok ::
  "'s ProtoPortCtx \<Rightarrow> ('s \<Rightarrow> bool) \<Rightarrow> ModbusCtx_T \<Rightarrow> ('s, 'd) ModbusSlaver_T \<Rightarrow> bool" where
  "slave_ok ops ready ctx sm \<longleftrightarrow>
     mb_ops (modbus sm) = ops \<and> mb_ctx (modbus sm) = ctx \<and> ready (link (modbus sm)) \<and>
     length (req (modbus sm)) = 260 \<and> length (rsp (modbus sm)) = 260 \<and>
     (\<exists>dv getf setf. dev sm = Some dv \<and> get_afn_addr_val dv = Some getf \<and>
        set_afn_addr_val dv = Some setf \<and> device_ok getf setf)"

section \<open>No input makes the thread leave its buffers\<close>

context modbus_link
begin

lemma exec_round_total:
  assumes "slave_ok ops ready ctx sm"
  shows "\<exists>sm'. modbus_s_exec_round sm = Some sm' \<and> slave_ok ops ready ctx sm' \<and> tflag sm' = tflag sm"
proof -
  obtain dv getf setf where sm: "mb_ops (modbus sm) = ops" "mb_ctx (modbus sm) = ctx" "ready (link (modbus sm))"
    "length (req (modbus sm)) = 260" "length (rsp (modbus sm)) = 260"
    and dv: "dev sm = Some dv" "get_afn_addr_val dv = Some getf" "set_afn_addr_val dv = Some setf"
      "device_ok getf setf"
    using assms by (auto simp: slave_ok_def)
  obtain ret m where r: "modbus_s_receive_msg (modbus sm) MSG_INDICATION = Some (ret, m)"
    "length (req m) = 260" "ready (link m)" "ret \<le> 260" "rsp m = rsp (modbus sm)" "mb_ops m = ops" "mb_ctx m = ctx"
    using s_receive_total [OF sm(1-4)] by blast
  let ?sm = "sm\<lparr>modbus := m\<rparr>"
  have "mb_ctx (modbus ?sm) = ctx" "length (rsp (modbus ?sm)) = 260" "length (req (modbus ?sm)) = 260"
    "dev ?sm = Some dv" "nat ret \<le> 260"
    using r sm dv by simp_all
  from reply_total [OF this(1-3,5,4) dv(2-4)]
  obtain k rs d where reply: "modbus_s_reply ?sm (nat ret) = Some (k, (set_rsp ?sm rs)\<lparr>priv := d\<rparr>)"
    "length rs = 260" "k \<le> 260" by blast
  obtain q l where "link_send ops (link m) (take (nat k) rs) = Some (q, l)" "ready l"
    using send_total [OF r(3)] send_ready [OF r(3)] by blast
  with r reply dv show ?thesis
    by (auto simp: modbus_s_exec_round_def Let_def slave_ok_def mem_simps sm)
qed

lemma exec_thread_total:
  assumes "slave_ok ops ready ctx sm"
  shows "\<exists>sm'. modbus_s_exec_thread n sm = Some sm' \<and> slave_ok ops ready ctx sm'"
  using assms
proof (induction n arbitrary: sm)
  case 0
  then show ?case by simp
next
  case (Suc n)
  obtain sm1 where "modbus_s_exec_round sm = Some sm1" "slave_ok ops ready ctx sm1"
    using exec_round_total [OF Suc.prems] by blast
  then show ?case using Suc.IH [of sm1] Suc.prems by simp
qed

end

section \<open>Requests are answered in order\<close>

text \<open>A stream of requests, and the responses and the device state a correct slave ends with.\<close>

fun modbus_slave_stream ::
  "('d \<Rightarrow> nat \<Rightarrow> nat \<Rightarrow> nat \<Rightarrow> nat \<Rightarrow> int \<times> bytes \<times> 'd) \<Rightarrow>
   ('d \<Rightarrow> nat \<Rightarrow> nat \<Rightarrow> nat \<Rightarrow> bytes \<Rightarrow> nat \<Rightarrow> int \<times> 'd) \<Rightarrow>
   'd \<Rightarrow> (nat \<times> bytes) list \<Rightarrow> (nat \<times> bytes) list \<times> 'd" where
  "modbus_slave_stream getf setf d [] = ([], d)"
| "modbus_slave_stream getf setf d ((tid, body) # reqs) =
     (let (resp, d) = modbus_slave_spec getf setf d body;
          (resps, d) = modbus_slave_stream getf setf d reqs
      in ((case resp of None \<Rightarrow> resps | Some b \<Rightarrow> (tid, b) # resps), d))"

definition request_ok :: "nat \<times> bytes \<Rightarrow> bool" where
  "request_ok r \<longleftrightarrow> request_body (snd r) \<and> length (snd r) \<le> 253"

lemma spec_response_nonempty: "modbus_slave_spec getf setf d body = (Some b, d') \<Longrightarrow> b \<noteq> []"
  by (induction getf setf d body rule: modbus_slave_spec.induct)
     (auto simp: Let_def slave_outcome_def exception_body_def
       split: prod.splits option.splits ModbusFunctionMode_E.splits if_splits)

context modbus_prompt_link
begin

lemma s_receive_frame:
  assumes m: "mb_ops m = ops" "mb_ctx m = ctx" "ready (link m)" "prompt (link m)" "length (req m) = 260" "0 < times m"
    and p: "pending (link m) = adu tid body @ rest" and f: "modbus_frame ctx type (adu tid body)"
  shows "\<exists>l. modbus_s_receive_msg m type =
      Some (int (length (adu tid body)), m\<lparr>req := adu tid body @ replicate (260 - length (adu tid body)) 0, link := l\<rparr>) \<and>
    ready l \<and> prompt l \<and> sent l = sent (link m) \<and> pending l = rest"
proof -
  have t: "0 < unat (times m)" using m(6) by (simp add: word_less_nat_alt)
  have "wrn (req m) 0 (replicate MAX_MESSAGE_LENGTH 0) = Some (replicate 260 0)"
    using m(5) by (simp add: mem_simps MAX_MESSAGE_LENGTH_def)
  moreover obtain l where "ready l" "prompt l" "sent l = sent (link m)" "pending l = rest"
    "modbus_recv_loop ops ctx type (replicate 260 0) 0 (header_length ctx + 1) STEP_FUNCTION (unat (times m)) (link m) =
     Some (Some (length (adu tid body)), adu tid body @ replicate (260 - length (adu tid body)) 0, l, unat (times m))"
    using recv_frame [OF m(3,4) t f p] by blast
  moreover have "check_integrity ctx (adu tid body @ replicate (260 - length (adu tid body)) 0)
      (length (adu tid body)) = Some 0"
    by (rule integrity) simp
  ultimately show ?thesis
    using m t by (auto simp: modbus_s_receive_msg_def Let_def)
qed

end

context modbus_duplex_link
begin

lemma exec_round_serves:
  assumes sm: "mb_ops (modbus sm) = ops" "mb_ctx (modbus sm) = ctx" "ready (link (modbus sm))"
      "prompt (link (modbus sm))" "length (req (modbus sm)) = 260" "length (rsp (modbus sm)) = 260"
      "0 < times (modbus sm)"
    and dv: "dev sm = Some dv" "get_afn_addr_val dv = Some getf" "set_afn_addr_val dv = Some setf"
      "device_ok getf setf"
    and p: "pending (link (modbus sm)) = adu tid body @ rest" and b: "request_ok (tid, body)"
    and spec: "modbus_slave_spec getf setf (priv sm) body = (resp, d)"
  shows "\<exists>sm'. modbus_s_exec_round sm = Some sm' \<and> mb_ops (modbus sm') = ops \<and> mb_ctx (modbus sm') = ctx \<and>
    ready (link (modbus sm')) \<and> prompt (link (modbus sm')) \<and> length (req (modbus sm')) = 260 \<and>
    length (rsp (modbus sm')) = 260 \<and> times (modbus sm') = times (modbus sm) \<and> dev sm' = dev sm \<and>
    tflag sm' = tflag sm \<and> pending (link (modbus sm')) = rest \<and> priv sm' = d \<and>
    sent (link (modbus sm')) = sent (link (modbus sm)) @ (case resp of None \<Rightarrow> [] | Some r \<Rightarrow> [adu tid r])"
proof -
  have rb: "request_body body" "length body \<le> 253" using b by (simp_all add: request_ok_def)
  note f = request_frame [OF rb, of tid]
  have le: "length (adu tid body) \<le> 260" using f adu_limit by (auto simp: modbus_frame_def Let_def)
  let ?rq = "adu tid body @ replicate (260 - length (adu tid body)) 0"
  obtain l where l: "modbus_s_receive_msg (modbus sm) MSG_INDICATION =
      Some (int (length (adu tid body)), (modbus sm)\<lparr>req := ?rq, link := l\<rparr>)"
    "ready l" "prompt l" "sent l = sent (link (modbus sm))" "pending l = rest"
    using s_receive_frame [OF sm(1-5,7) p f] by blast
  let ?sm = "sm\<lparr>modbus := (modbus sm)\<lparr>req := ?rq, link := l\<rparr>\<rparr>"
  have "mb_ctx (modbus ?sm) = ctx" "length (rsp (modbus ?sm)) = 260" "length (req (modbus ?sm)) = 260"
    "take (length (adu tid body)) (req (modbus ?sm)) = adu tid body" "dev ?sm = Some dv"
    "modbus_slave_spec getf setf (priv ?sm) body = (resp, d)"
    using sm dv le spec by simp_all
  from reply_answers [OF this(1-4) rb(1) this(5) dv(2-4) this(6)]
  obtain r rs where r: "modbus_s_reply ?sm (length (adu tid body)) = Some (r, (set_rsp ?sm rs)\<lparr>priv := d\<rparr>)"
    "length rs = 260" "answers adu tid resp r rs" by blast
  have pos: "0 < length (adu tid body)" using rb by (auto simp: adu_length request_body_def)
  show ?thesis
  proof (cases resp)
    case None
    then show ?thesis
      using l r sm le pos by (auto simp: modbus_s_exec_round_def Let_def answers_def)
  next
    case (Some b)
    then have b: "r = int (length (adu tid b))" "take (length (adu tid b)) rs = adu tid b"
      using r(3) by (simp_all add: answers_def)
    have "length (adu tid b) \<le> 260" using take_prefix_length [OF b(2)] r(2) by simp
    moreover obtain q l' where s: "link_send ops l (adu tid b) = Some (q, l')" "ready l'"
      using send_total [OF l(2)] send_ready [OF l(2)] by blast
    ultimately have "q = int (length (adu tid b)) \<and> prompt l' \<and> sent l' = sent l @ [adu tid b] \<and> pending l' = pending l"
      using prompt_send [OF l(2,3)] by blast
    moreover have "0 < length (adu tid b)"
      using spec_response_nonempty [OF spec [unfolded Some]] by (simp add: adu_length)
    ultimately show ?thesis
      using Some l r sm le pos b s \<open>length (adu tid b) \<le> 260\<close>
      by (auto simp: modbus_s_exec_round_def Let_def mem_simps)
  qed
qed

lemma thread_serves:
  assumes sm: "mb_ops (modbus sm) = ops" "mb_ctx (modbus sm) = ctx" "ready (link (modbus sm))"
      "prompt (link (modbus sm))" "length (req (modbus sm)) = 260" "length (rsp (modbus sm)) = 260"
      "0 < times (modbus sm)" "tflag sm"
    and dv: "dev sm = Some dv" "get_afn_addr_val dv = Some getf" "set_afn_addr_val dv = Some setf"
      "device_ok getf setf"
    and p: "pending (link (modbus sm)) = concat (map (\<lambda>(tid, body). adu tid body) reqs) @ rest"
    and b: "list_all request_ok reqs"
    and spec: "modbus_slave_stream getf setf (priv sm) reqs = (resps, d)"
  shows "\<exists>sm'. modbus_s_exec_thread (length reqs) sm = Some sm' \<and> priv sm' = d \<and>
    pending (link (modbus sm')) = rest \<and>
    sent (link (modbus sm')) = sent (link (modbus sm)) @ map (\<lambda>(tid, body). adu tid body) resps"
  using sm dv(1) p b spec
proof (induction reqs arbitrary: sm resps)
  case Nil
  then show ?case by simp
next
  case (Cons r reqs)
  obtain tid body where r: "r = (tid, body)" by (cases r)
  obtain resp d1 where s1: "modbus_slave_spec getf setf (priv sm) body = (resp, d1)" by fastforce
  obtain resps1 d2 where s2: "modbus_slave_stream getf setf d1 reqs = (resps1, d2)" by fastforce
  have p1: "pending (link (modbus sm)) = adu tid body @ (concat (map (\<lambda>(tid, body). adu tid body) reqs) @ rest)"
    using Cons.prems by (simp add: r)
  have b1: "request_ok (tid, body)" using Cons.prems by (simp add: r)
  obtain sm1 where one: "modbus_s_exec_round sm = Some sm1" "priv sm1 = d1"
    "sent (link (modbus sm1)) = sent (link (modbus sm)) @ (case resp of None \<Rightarrow> [] | Some r \<Rightarrow> [adu tid r])"
    and inv: "mb_ops (modbus sm1) = ops" "mb_ctx (modbus sm1) = ctx" "ready (link (modbus sm1))"
      "prompt (link (modbus sm1))" "length (req (modbus sm1)) = 260" "length (rsp (modbus sm1)) = 260"
      "0 < times (modbus sm1)" "tflag sm1" "dev sm1 = Some dv"
      "pending (link (modbus sm1)) = concat (map (\<lambda>(tid, body). adu tid body) reqs) @ rest"
    using exec_round_serves [OF Cons.prems(1-7,9) dv(2-4) p1 b1 s1] Cons.prems(7-9) by auto
  from Cons.IH [OF inv(1-10), of resps1] one s1 s2 Cons.prems inv show ?case
    by (auto simp: r split: option.splits)
qed

end

section \<open>A register bank\<close>

text \<open>The device of the witnesses: 16-bit registers behind the functions 3, 4 (read), 6 and 16 (write);
  everything else is refused with exception code 2.\<close>

definition bank_get :: "(nat \<Rightarrow> nat) \<Rightarrow> nat \<Rightarrow> nat \<Rightarrow> nat \<Rightarrow> nat \<Rightarrow> int \<times> bytes \<times> (nat \<Rightarrow> nat)" where
  "bank_get d s f a n =
     (if f = 3 \<or> f = 4 then (0, concat (map (\<lambda>i. [hi8 (d (a + i)), lo8 (d (a + i))]) [0..<n]), d)
      else (2, [], d))"

definition bank_set :: "(nat \<Rightarrow> nat) \<Rightarrow> nat \<Rightarrow> nat \<Rightarrow> nat \<Rightarrow> bytes \<Rightarrow> nat \<Rightarrow> int \<times> (nat \<Rightarrow> nat)" where
  "bank_set d s f a data n =
     (if f = 6 \<or> f = 16
      then (0, \<lambda>i. if a \<le> i \<and> i < a + n then be16 (data ! (2 * (i - a))) (data ! (2 * (i - a) + 1)) else d i)
      else (2, d))"

definition bank :: "(nat \<Rightarrow> nat) ModbusSlaverDevCtx" where
  "bank = \<lparr>get_afn_addr_val = Some bank_get, set_afn_addr_val = Some bank_set\<rparr>"

lemma length_concat_pairs: "length (concat (map (\<lambda>i. [f i, g i]) xs)) = 2 * length xs"
  by (induction xs) simp_all

lemma bank_ok: "device_ok bank_get bank_set"
proof -
  have "length bytes \<le> modbus_bytes f n \<and> (ret = 0 \<longrightarrow> length bytes = modbus_bytes f n)"
    if "bank_get d s f a n = (ret, bytes, d')" for d s f a n ret bytes d'
    using that by (auto simp: bank_get_def modbus_bytes_def afn_of_def length_concat_pairs split: if_splits)
  moreover have "bank_set d s f a (data @ junk) n = bank_set d s f a data n"
    if "modbus_bytes f n \<le> length data" for d s f a data junk n
    using that by (auto simp: bank_set_def modbus_bytes_def afn_of_def nth_append fun_eq_iff)
  ultimately show ?thesis unfolding device_ok_def by blast
qed

section \<open>The slave over a serial line and over TCP\<close>

text \<open>Bytes arriving at the port of an opened slave; a TCP slave gets its first with its client.\<close>

definition incoming :: "bytes list \<Rightarrow> (proto_port, 'd) ModbusSlaver_T \<Rightarrow> (proto_port, 'd) ModbusSlaver_T" where
  "incoming cs sm = sm\<lparr>modbus := (modbus sm)\<lparr>link := (link (modbus sm))\<lparr>rx := cs\<rparr>\<rparr>\<rparr>"

definition tcp_accepted :: "bytes list \<Rightarrow> (proto_port, 'd) ModbusSlaver_T \<Rightarrow> (proto_port, 'd) ModbusSlaver_T option" where
  "tcp_accepted cs sm =
     do { l \<leftarrow> eth_link_aceept_cb (link (modbus sm)) cs; Some (sm\<lparr>modbus := (modbus sm)\<lparr>link := l\<rparr>\<rparr>) }"

lemma rtu_opened:
  assumes "wow_modbus_s_rtu_open call dv arg = Some (Some sm)"
  shows "sm = \<lparr>modbus = new_modbus gt_modbusRtuCtx (fst proto_port_uart_init, new_port\<lparr>uart_opened := True\<rparr>),
    priv = arg, dev = dv, tflag = True\<rparr>"
  using assms
  by (auto simp: wow_modbus_s_rtu_open_def proto_port_uart_init_def uart_link_open_def
      proto_port_uart_exit_def uart_link_close_def Let_def split: if_splits)

lemma tcp_opened:
  assumes "wow_modbus_s_tcp_open call dv arg = Some (Some sm)" and "tcp_accepted cs sm = Some sm'"
  shows "sm' = \<lparr>modbus = new_modbus gt_modbusTcpCtx (fst proto_port_eth_slave_init,
      new_port\<lparr>server := Live, client := Live, rx := cs\<rparr>), priv = arg, dev = dv, tflag = True\<rparr>"
  using assms
  by (auto simp: wow_modbus_s_tcp_open_def proto_port_eth_slave_init_def eth_link_server_open_def
      tcp_accepted_def eth_link_aceept_cb_def new_modbus_def new_port_def
      wow_tcp_close_def Let_def bind_Some_iff split: if_splits)

lemma new_modbus_simps [simp]:
  "mb_ops (new_modbus ctx port) = fst port" "mb_ctx (new_modbus ctx port) = ctx"
  "link (new_modbus ctx port) = snd port" "length (req (new_modbus ctx port)) = 260"
  "length (rsp (new_modbus ctx port)) = 260" "times (new_modbus ctx port) = 10"
  by (simp_all add: new_modbus_def MAX_MESSAGE_LENGTH_def)

text \<open>C5. Whatever chunks of bytes arrive on the serial line of an opened RTU slave, for any number of
  rounds of its thread every access stays inside the two 260-byte buffers and every loop ends, as
  long as the device's callbacks keep to the bytes of the quantity they are asked for.\<close>

theorem rtu_slave_safe:
  assumes "wow_modbus_s_rtu_open call (Some dv) arg = Some (Some sm)"
    and "get_afn_addr_val dv = Some getf" and "set_afn_addr_val dv = Some setf" and "device_ok getf setf"
  shows "modbus_s_exec_thread n (incoming cs sm) \<noteq> None"
proof -
  have "slave_ok (fst proto_port_uart_init) (\<lambda>p. uart_opened p) gt_modbusRtuCtx (incoming cs sm)"
    using assms(2-4) by (simp add: rtu_opened [OF assms(1)] slave_ok_def incoming_def)
  from rtu_uart.exec_thread_total [OF this] show ?thesis by auto
qed

lemma rtu_open_bank:
  "wow_modbus_s_rtu_open \<lparr>para_given = True, calloc_ok = True, port_calloc_ok = True,
     link_env = \<lparr>open_ok = True, listen_ok = True, accept_cb_ok = True, connect_ok = True\<rparr>, thread_ok = True\<rparr>
     (Some bank) d =
   Some (Some \<lparr>modbus = new_modbus gt_modbusRtuCtx (fst proto_port_uart_init, new_port\<lparr>uart_opened := True\<rparr>),
     priv = d, dev = Some bank, tflag = True\<rparr>)"
  by (simp add: wow_modbus_s_rtu_open_def proto_port_uart_init_def uart_link_open_def)

lemma tcp_open_bank:
  "wow_modbus_s_tcp_open \<lparr>para_given = True, calloc_ok = True, port_calloc_ok = True,
     link_env = \<lparr>open_ok = True, listen_ok = True, accept_cb_ok = True, connect_ok = True\<rparr>, thread_ok = True\<rparr>
     (Some bank) d =
   Some (Some \<lparr>modbus = new_modbus gt_modbusTcpCtx (fst proto_port_eth_slave_init, new_port\<lparr>server := Live\<rparr>),
     priv = d, dev = Some bank, tflag = True\<rparr>)"
  by (simp add: wow_modbus_s_tcp_open_def proto_port_eth_slave_init_def eth_link_server_open_def)

theorem rtu_slave_safe_witness:
  "modbus_s_exec_thread 3 (incoming [[1, 3], [], [0xFF, 0xFF, 0xFF, 0xFF, 0, 0, 16]]
     \<lparr>modbus = new_modbus gt_modbusRtuCtx (fst proto_port_uart_init, new_port\<lparr>uart_opened := True\<rparr>),
      priv = (\<lambda>_. 0), dev = Some bank, tflag = True\<rparr>) \<noteq> None"
  by (rule rtu_slave_safe [OF rtu_open_bank _ _ bank_ok]) (simp_all add: bank_def)

text \<open>C6. For an opened TCP slave and whatever its accepted client sends, the same holds: for any number of rounds
  every access stays inside the two 260-byte buffers and every loop ends.\<close>

theorem tcp_slave_safe:
  assumes "wow_modbus_s_tcp_open call (Some dv) arg = Some (Some sm)" and "tcp_accepted cs sm = Some sm'"
    and "get_afn_addr_val dv = Some getf" and "set_afn_addr_val dv = Some setf" and "device_ok getf setf"
  shows "modbus_s_exec_thread n sm' \<noteq> None"
proof -
  have "slave_ok (fst proto_port_eth_slave_init) (\<lambda>p. client p = Live) gt_modbusTcpCtx sm'"
    using assms(3-5) by (simp add: tcp_opened [OF assms(1,2)] slave_ok_def)
  from tcp_slave.exec_thread_total [OF this] show ?thesis by auto
qed

theorem tcp_slave_safe_witness:
  "modbus_s_exec_thread 2
     \<lparr>modbus = new_modbus gt_modbusTcpCtx (fst proto_port_eth_slave_init,
        new_port\<lparr>server := Live, client := Live, rx := [[0, 1, 0, 0, 0, 6, 1, 99], [], [7]]\<rparr>),
      priv = (\<lambda>_. 0), dev = Some bank, tflag = True\<rparr> \<noteq> None"
  by (rule tcp_slave_safe [OF tcp_open_bank _ _ _ bank_ok])
     (simp_all add: bank_def tcp_accepted_def eth_link_aceept_cb_def new_modbus_def new_port_def)

lemma bank_session:
  "modbus_slave_stream bank_get bank_set (\<lambda>_. 7)
     [(1, [1, 6, 0, 5, 0x12, 0x34]), (2, [1, 3, 0, 5, 0, 2]), (3, [1, 0x2B]), (4, [1, 3, 0, 5, 0, 126])] =
   ([(1, [1, 6, 0, 5, 0x12, 0x34]), (2, [1, 3, 4, 0x12, 0x34, 0, 7]), (3, [1, 0xAB, 1]), (4, [1, 0x83, 3])],
    \<lambda>i. if 5 \<le> i \<and> i < 6 then 0x1234 else 7)"
  "list_all request_ok [(1, [1, 6, 0, 5, 0x12, 0x34]), (2, [1, 3, 0, 5, 0, 2]), (3, [1, 0x2B]), (4, [1, 3, 0, 5, 0, 126])]"
  by (auto simp: bank_get_def bank_set_def be16_def afn_of_def slave_outcome_def exception_body_def
      modbus_bytes_def hi8_def lo8_def Let_def upt_rec request_ok_def request_body_def fun_eq_iff)

lemma length_four: "length [a, b, c, d] = 4" by simp

text \<open>C1. An RTU slave answers a stream of requests in order: however the bytes of the requests are cut
  into chunks, after as many rounds as there are requests the line carries exactly the responses of
  the specification (results, exception responses, or nothing where the device asks for silence)
  and the device is in the state the specification computes.\<close>

theorem rtu_slave_serves:
  assumes "wow_modbus_s_rtu_open call (Some dv) arg = Some (Some sm)"
    and "get_afn_addr_val dv = Some getf" and "set_afn_addr_val dv = Some setf" and "device_ok getf setf"
    and "concat cs = concat (map (\<lambda>(tid, body). rtu_adu tid body) reqs)" and "[] \<notin> set cs"
    and "list_all request_ok reqs"
    and "modbus_slave_stream getf setf arg reqs = (resps, d)"
  shows "\<exists>sm'. modbus_s_exec_thread (length reqs) (incoming cs sm) = Some sm' \<and> priv sm' = d \<and>
    tx (link (modbus sm')) = map (\<lambda>(tid, body). rtu_adu tid body) resps"
proof -
  let ?sm = "incoming cs sm"
  note sm = rtu_opened [OF assms(1)]
  have "concat (rx (link (modbus ?sm))) = concat (map (\<lambda>(tid, body). rtu_adu tid body) reqs) @ []"
    "modbus_slave_stream getf setf (priv ?sm) reqs = (resps, d)"
    using assms(5,8) by (simp_all add: incoming_def sm)
  moreover have "port_prompt (link (modbus ?sm))"
    using assms(6) by (simp add: incoming_def sm port_prompt_def new_port_def)
  ultimately show ?thesis
    using rtu_uart.thread_serves [of ?sm dv getf setf reqs "[]" resps d] assms(2-4,7)
    by (simp add: incoming_def sm) (auto simp: new_port_def)
qed

theorem rtu_slave_serves_witness:
  "\<exists>sm'. modbus_s_exec_thread 4 (incoming
      (map (\<lambda>b. [b]) (concat [rtu_adu 1 [1, 6, 0, 5, 0x12, 0x34], rtu_adu 2 [1, 3, 0, 5, 0, 2], rtu_adu 3 [1, 0x2B], rtu_adu 4 [1, 3, 0, 5, 0, 126]]))
     \<lparr>modbus = new_modbus gt_modbusRtuCtx (fst proto_port_uart_init, new_port\<lparr>uart_opened := True\<rparr>),
      priv = (\<lambda>_. 7), dev = Some bank, tflag = True\<rparr>) = Some sm' \<and>
    priv sm' 5 = 0x1234 \<and> tx (link (modbus sm')) =
      [rtu_adu 1 [1, 6, 0, 5, 0x12, 0x34], rtu_adu 2 [1, 3, 4, 0x12, 0x34, 0, 7], rtu_adu 3 [1, 0xAB, 1], rtu_adu 4 [1, 0x83, 3]]"
proof -
  have "concat (map (\<lambda>b. [b]) xs) = xs" "[] \<notin> set (map (\<lambda>b. [b]) xs)" for xs :: bytes
    by (induction xs) auto
  note rtu_slave_serves [OF rtu_open_bank _ _ bank_ok _ this(2) bank_session(2,1), unfolded this(1)]
  from this [of "concat [rtu_adu 1 [1, 6, 0, 5, 0x12, 0x34], rtu_adu 2 [1, 3, 0, 5, 0, 2], rtu_adu 3 [1, 0x2B],
      rtu_adu 4 [1, 3, 0, 5, 0, 126]]"]
  show ?thesis by (auto simp: bank_def length_four simp del: modbus_s_exec_thread.simps list.size)
qed

text \<open>C2. A TCP slave answers the stream of requests of its client in order, whatever chunks the bytes come in:
  each response carries the transaction id of its request and the body the specification computes,
  and the device ends in the specified state.\<close>

theorem tcp_slave_serves:
  assumes "wow_modbus_s_tcp_open call (Some dv) arg = Some (Some sm)" and "tcp_accepted cs sm = Some sm1"
    and "get_afn_addr_val dv = Some getf" and "set_afn_addr_val dv = Some setf" and "device_ok getf setf"
    and "concat cs = concat (map (\<lambda>(tid, body). tcp_adu tid body) reqs)" and "[] \<notin> set cs"
    and "list_all request_ok reqs"
    and "modbus_slave_stream getf setf arg reqs = (resps, d)"
  shows "\<exists>sm'. modbus_s_exec_thread (length reqs) sm1 = Some sm' \<and> priv sm' = d \<and>
    tx (link (modbus sm')) = map (\<lambda>(tid, body). tcp_adu tid body) resps"
proof -
  note sm = tcp_opened [OF assms(1,2)]
  have "concat (rx (link (modbus sm1))) = concat (map (\<lambda>(tid, body). tcp_adu tid body) reqs) @ []"
    "modbus_slave_stream getf setf (priv sm1) reqs = (resps, d)"
    using assms(6,9) by (simp_all add: sm)
  moreover have "port_prompt (link (modbus sm1))"
    using assms(7) by (simp add: sm port_prompt_def new_port_def)
  ultimately show ?thesis
    using tcp_slave.thread_serves [of sm1 dv getf setf reqs "[]" resps d] assms(3-5,8)
    by (simp add: sm) (auto simp: new_port_def)
qed

theorem tcp_slave_serves_witness:
  "\<exists>sm'. modbus_s_exec_thread 4
     \<lparr>modbus = new_modbus gt_modbusTcpCtx (fst proto_port_eth_slave_init,
        new_port\<lparr>server := Live, client := Live, rx :=
          [tcp_adu 1 [1, 6, 0, 5, 0x12, 0x34] @ tcp_adu 2 [1, 3, 0, 5, 0, 2] @ tcp_adu 3 [1, 0x2B], tcp_adu 4 [1, 3, 0, 5, 0, 126]]\<rparr>),
      priv = (\<lambda>_. 7), dev = Some bank, tflag = True\<rparr> = Some sm' \<and>
    priv sm' 5 = 0x1234 \<and> tx (link (modbus sm')) =
      [tcp_adu 1 [1, 6, 0, 5, 0x12, 0x34], tcp_adu 2 [1, 3, 4, 0x12, 0x34, 0, 7], tcp_adu 3 [1, 0xAB, 1], tcp_adu 4 [1, 0x83, 3]]"
proof -
  note tcp_slave_serves [OF tcp_open_bank _ _ _ bank_ok _ _ bank_session(2,1), unfolded length_four, of
    "[tcp_adu 1 [1, 6, 0, 5, 0x12, 0x34] @ tcp_adu 2 [1, 3, 0, 5, 0, 2] @ tcp_adu 3 [1, 0x2B], tcp_adu 4 [1, 3, 0, 5, 0, 126]]"]
  then show ?thesis
    by (auto simp: bank_def tcp_accepted_def eth_link_aceept_cb_def new_modbus_def new_port_def tcp_adu_def simp del: modbus_s_exec_thread.simps)
qed

end
