(* ===== verification/ModbusMaster.thy ===== *)
theory ModbusMaster
  imports ModbusRecv
begin

text \<open>
  The Modbus master, \<open>wow_iot/src/protocol/modbus/wow_modbus_m.c\<close>: build a request, send it,
  receive the response, check it against the request, hand the data to the caller.
\<close>

section \<open>The code\<close>

text \<open>\<open>MSG_LENGTH_UNDEFINED\<close> is -1, so the length is an \<open>int\<close>.\<close>

definition compute_response_length_from_request :: "ModbusCtx_T \<Rightarrow> bytes \<Rightarrow> int option" where
  "compute_response_length_from_request ctx rq =
     do {
       let offset = header_length ctx;
       function \<leftarrow> map_option unat (rd rq offset);
       nb \<leftarrow> (do { h \<leftarrow> rd rq (offset + 3); l \<leftarrow> rd rq (offset + 4); Some (be16 h l) });
       let total = (\<lambda>len. Some (int (offset + len + checksum_length ctx)));
       case afn_of function of
         Some MODBUS_READ_COILS \<Rightarrow> total (2 + nb div 8 + (if nb mod 8 \<noteq> 0 then 1 else 0))
       | Some MODBUS_READ_DISCRETE_INPUTS \<Rightarrow> total (2 + nb div 8 + (if nb mod 8 \<noteq> 0 then 1 else 0))
       | Some MODBUS_READ_HOLDING_REGISTERS \<Rightarrow> total (2 + 2 * nb)
       | Some MODBUS_READ_INPUT_REGISTERS \<Rightarrow> total (2 + 2 * nb)
       | Some MODBUS_READ_EXCEPTION_STATUS \<Rightarrow> total 3
       | Some MODBUS_REPORT_SLAVE_ID \<Rightarrow> Some (-1)
       | _ \<Rightarrow> total 5
     }"

text \<open>The quantity the request asked for and the one the response reports, by function code.\<close>

definition confirmation_values :: "ModbusCtx_T \<Rightarrow> nat \<Rightarrow> bytes \<Rightarrow> bytes \<Rightarrow> (nat \<times> nat) option" where
  "confirmation_values ctx function rq rs =
     do {
       let offset = header_length ctx;
       req_nb \<leftarrow> (do { h \<leftarrow> rd rq (offset + 3); l \<leftarrow> rd rq (offset + 4); Some (be16 h l) });
       rsp_nb \<leftarrow> (do { h \<leftarrow> rd rs (offset + 3); l \<leftarrow> rd rs (offset + 4); Some (be16 h l) });
       rsp_count \<leftarrow> map_option unat (rd rs (offset + 1));
       Some (case afn_of function of
         Some MODBUS_READ_COILS \<Rightarrow> (req_nb div 8 + (if req_nb mod 8 \<noteq> 0 then 1 else 0), rsp_count)
       | Some MODBUS_READ_DISCRETE_INPUTS \<Rightarrow> (req_nb div 8 + (if req_nb mod 8 \<noteq> 0 then 1 else 0), rsp_count)
       | Some MODBUS_READ_HOLDING_REGISTERS \<Rightarrow> (req_nb * 2, rsp_count)
       | Some MODBUS_READ_INPUT_REGISTERS \<Rightarrow> (req_nb * 2, rsp_count)
       | Some MODBUS_WRITE_MULTIPLE_COILS \<Rightarrow> (req_nb, rsp_nb)
       | Some MODBUS_WRITE_MULTIPLE_REGISTERS \<Rightarrow> (req_nb, rsp_nb)
       | Some MODBUS_REPORT_SLAVE_ID \<Rightarrow> (rsp_count, rsp_count)
       | _ \<Rightarrow> (1, 1))
     }"

definition check_confirmation :: "ModbusCtx_T \<Rightarrow> bytes \<Rightarrow> bytes \<Rightarrow> nat \<Rightarrow> int option" where
  "check_confirmation ctx rq rs rsp_len =
     do {
       function \<leftarrow> map_option unat (rd rs (header_length ctx));
       asked \<leftarrow> map_option unat (rd rq (header_length ctx));
       if function \<noteq> asked then Some (-1)
       else do {
         ret \<leftarrow> check_confirmation_pre ctx rq rs rsp_len;
         if ret \<noteq> 0 then Some (-1)
         else do {
           rsp_len_cal \<leftarrow> compute_response_length_from_request ctx rq;
           if \<not> (int rsp_len = rsp_len_cal \<or> rsp_len_cal = -1) then Some (-1)
           else do {
             (req_nb_value, rsp_nb_value) \<leftarrow> confirmation_values ctx function rq rs;
             Some (if req_nb_value \<noteq> rsp_nb_value then -1 else int rsp_nb_value)
           }
         }
       }
     }"

text \<open>Send what \<open>req\<close> holds, receive and check: the common tail of read and write. The result is the
  value of \<open>check_confirmation\<close>, or the error code: \<open>send_err\<close> of a send that was cut short.\<close>

definition modbus_m_transact :: "'s Modbus_T \<Rightarrow> nat \<Rightarrow> int \<Rightarrow> (int \<times> 's Modbus_T) option" where
  "modbus_m_transact m req_len send_err =
     do {
       msg \<leftarrow> rdn (req m) 0 req_len;
       (ret, l) \<leftarrow> link_send (mb_ops m) (link m) msg;
       let m = m\<lparr>link := l\<rparr>;
       if ret \<noteq> int req_len then Some (send_err, m)
       else do {
         (ret, m) \<leftarrow> modbus_m_receive_msg m MSG_CONFIRMATION;
         if \<not> ret > 0 then Some (-1, m)
         else do {
           ret \<leftarrow> check_confirmation (mb_ctx m) (req m) (rsp m) (nat ret);
           Some (if \<not> ret > 0 then -1 else ret, m)
         }
       }
     }"

text \<open>The result: the return code, what was stored through \<open>pu8Data\<close>, and the master afterwards.\<close>

definition wow_modbus_m_read_data ::
  "'s Modbus_T \<Rightarrow> int \<Rightarrow> ModbusFunctionMode_E \<Rightarrow> u32 \<Rightarrow> u32 \<Rightarrow> (int \<times> bytes \<times> 's Modbus_T) option" where
  "wow_modbus_m_read_data m nSlave eAfn u32Addr u32Size =
     (if \<not> (nSlave > 0 \<and> nSlave \<le> 247) then Some (-104, [], m)
      else if \<not> (case eAfn of
          MODBUS_READ_COILS \<Rightarrow> unat u32Size \<le> MODBUS_MAX_READ_BITS
        | MODBUS_READ_DISCRETE_INPUTS \<Rightarrow> unat u32Size \<le> MODBUS_MAX_READ_BITS
        | MODBUS_READ_HOLDING_REGISTERS \<Rightarrow> unat u32Size \<le> MODBUS_MAX_READ_REGISTERS
        | MODBUS_READ_INPUT_REGISTERS \<Rightarrow> unat u32Size \<le> MODBUS_MAX_READ_REGISTERS
        | _ \<Rightarrow> False) then Some (-1, [], m)
      else do {
        (tid, rq, req_len) \<leftarrow> build_request_basis (mb_ctx m) (t_id m) (req m) nSlave
           (int (afn_code eAfn)) (unat u32Addr) (unat u32Size);
        (rq, req_len) \<leftarrow> send_msg_pre (mb_ctx m) rq req_len;
        (ret, m) \<leftarrow> modbus_m_transact (m\<lparr>t_id := tid, req := rq\<rparr>) req_len (-2);
        if \<not> ret > 0 then Some (ret, [], m)
        else do {
          data \<leftarrow> rdn (rsp m) (header_length (mb_ctx m) + 2) (nat ret);
          Some (0, data, m)
        }
      })"

text \<open>The request of a write, ready for \<open>send_msg_pre\<close>; \<open>None\<close> inside is \<open>return -1\<close>.\<close>

definition modbus_m_build_write ::
  "'s Modbus_T \<Rightarrow> int \<Rightarrow> ModbusFunctionMode_E \<Rightarrow> u32 \<Rightarrow> u32 \<Rightarrow> bytes \<Rightarrow> (u16 \<times> bytes \<times> nat) option option" where
  "modbus_m_build_write m nSlave eAfn u32Addr u32Size pu8Data =
     (let basis = (\<lambda>nb. build_request_basis (mb_ctx m) (t_id m) (req m) nSlave
                     (int (afn_code eAfn)) (unat u32Addr) nb);
          append = (\<lambda>nb count len. do {
              (tid, rq, req_len) \<leftarrow> basis nb;
              rq \<leftarrow> wr rq req_len count;
              data \<leftarrow> rdn pu8Data 0 len;
              rq \<leftarrow> wrn rq (req_len + 1) data;
              Some (Some (tid, rq, req_len + 1 + len)) })
      in case eAfn of
        MODBUS_WRITE_SINGLE_COIL \<Rightarrow>
          do { v \<leftarrow> rdn pu8Data 0 2; map_option Some (basis (if v \<noteq> [0, 0] then 0xFF00 else 0)) }
      | MODBUS_WRITE_SINGLE_REGISTER \<Rightarrow>
          do { h \<leftarrow> rd pu8Data 0; l \<leftarrow> rd pu8Data 1; map_option Some (basis (be16 h l)) }
      | MODBUS_WRITE_MULTIPLE_COILS \<Rightarrow>
          (let byte_count = unat u32Size div 8 + (if unat u32Size mod 8 \<noteq> 0 then 1 else 0)
           in append (unat u32Size) (word_of_nat byte_count) byte_count)
      | MODBUS_WRITE_MULTIPLE_REGISTERS \<Rightarrow>
          append (unat u32Size) (ucast (u32Size * 2)) (unat (u32Size * 2))
      | _ \<Rightarrow> Some None)"

definition wow_modbus_m_write_data ::
  "'s Modbus_T \<Rightarrow> int \<Rightarrow> ModbusFunctionMode_E \<Rightarrow> u32 \<Rightarrow> u32 \<Rightarrow> bytes \<Rightarrow> (int \<times> 's Modbus_T) option" where
  "wow_modbus_m_write_data m nSlave eAfn u32Addr u32Size pu8Data =
     (if \<not> (nSlave > 0 \<and> nSlave \<le> 247) then Some (-104, m)
      else do {
        built \<leftarrow> modbus_m_build_write m nSlave eAfn u32Addr u32Size pu8Data;
        case built of
          None \<Rightarrow> Some (-1, m)
        | Some (tid, rq, req_len) \<Rightarrow>
            do {
              (rq, req_len) \<leftarrow> send_msg_pre (mb_ctx m) rq req_len;
              (ret, m) \<leftarrow> modbus_m_transact (m\<lparr>t_id := tid, req := rq\<rparr>) req_len (-1);
              Some (if \<not> ret > 0 then ret else 0, m)
            }
      })"

definition wow_modbus_m_set_timeout :: "'s Modbus_T \<Rightarrow> u32 \<Rightarrow> 's Modbus_T" where
  "wow_modbus_m_set_timeout m u32Msec = m\<lparr>timeout := u32Msec\<rparr>"

section \<open>Opening and closing\<close>

text \<open>Parameters, allocations and link as an open call meets them; \<open>None\<close> inside is a null result.\<close>

definition wow_modbus_m_rtu_open :: "bool \<Rightarrow> bool \<Rightarrow> bool \<Rightarrow> open_env \<Rightarrow> proto_port Modbus_T option option" where
  "wow_modbus_m_rtu_open para calloc_ok port_ok env =
     (if \<not> para \<or> \<not> calloc_ok \<or> \<not> port_ok then Some None
      else do {
        let port = proto_port_uart_init;
        (ret, l) \<leftarrow> link_open (fst port) env (snd port);
        if ret \<noteq> 0 then do { _ \<leftarrow> proto_port_uart_exit l; Some None }
        else Some (Some \<lparr>t_id = 0, timeout = 100, times = 10, mb_ctx = gt_modbusRtuCtx, mb_ops = fst port,
          link = l, req = replicate MAX_MESSAGE_LENGTH 0, rsp = replicate MAX_MESSAGE_LENGTH 0\<rparr>)
      })"

definition wow_modbus_m_tcp_open :: "bool \<Rightarrow> bool \<Rightarrow> bool \<Rightarrow> open_env \<Rightarrow> proto_port Modbus_T option option" where
  "wow_modbus_m_tcp_open para calloc_ok port_ok env =
     (if \<not> para \<or> \<not> calloc_ok \<or> \<not> port_ok then Some None
      else do {
        let port = proto_port_eth_master_init;
        (ret, l) \<leftarrow> link_open (fst port) env (snd port);
        if ret \<noteq> 0 then do { _ \<leftarrow> proto_port_eth_master_exit l; Some None }
        else Some (Some \<lparr>t_id = 0, timeout = 100, times = 10, mb_ctx = gt_modbusTcpCtx, mb_ops = fst port,
          link = l, req = replicate MAX_MESSAGE_LENGTH 0, rsp = replicate MAX_MESSAGE_LENGTH 0\<rparr>)
      })"

definition wow_modbus_m_rtu_close :: "proto_port Modbus_T \<Rightarrow> unit option" where
  "wow_modbus_m_rtu_close m =
     do { l \<leftarrow> link_close (mb_ops m) (link m); _ \<leftarrow> proto_port_uart_exit l; Some () }"

definition wow_modbus_m_tcp_close :: "proto_port Modbus_T \<Rightarrow> unit option" where
  "wow_modbus_m_tcp_close m =
     do { l \<leftarrow> link_close (mb_ops m) (link m); _ \<leftarrow> proto_port_eth_master_exit l; Some () }"

end
