(* ===== verification/ModbusExchange.thy ===== *)
theory ModbusExchange
  imports ModbusServe ModbusMaster
begin

text \<open>
  The Modbus master (\<open>wow_modbus_m.c\<close>) against a peer: what a read or a write returns when the
  response arrives, and the whole exchange with the slave of \<open>wow_modbus_s.c\<close>.
\<close>

section \<open>Responses as the receive loop takes them\<close>

definition response_body :: "bytes \<Rightarrow> bool" where
  "response_body body \<longleftrightarrow> 3 \<le> length body \<and> length body \<le> 253 \<and>
     (let f = unat (body ! 1) in
      if f \<in> {5, 6, 15, 16} then length body = 6
      else if f \<le> 4 then length body = 3 + unat (body ! 2)
      else f \<noteq> 17 \<and> length body = 3)"

context modbus_backend
begin

lemma response_frame:
  assumes "response_body body"
  shows "modbus_frame ctx MSG_CONFIRMATION (adu tid body)"
proof -
  have le: "header_length ctx - 1 + length body + checksum_length ctx \<le> max_adu_length ctx"
    using assms [unfolded response_body_def, THEN conjunct2, THEN conjunct1] adu_limit header_pos by simp
  have at: "i < length body \<Longrightarrow> rd (adu tid body) (header_length ctx - 1 + i) = Some (body ! i)" for i
    by (rule body_at [of tid]) simp_all
  have H: "header_length ctx - 1 + 1 = header_length ctx" "header_length ctx - 1 + 2 = header_length ctx + 1"
    using header_pos by simp_all
  have fn: "rd (adu tid body) (header_length ctx) = Some (body ! 1)"
    and cnt: "rd (adu tid body) (header_length ctx + 1) = Some (body ! 2)"
    using at [of 1, unfolded H] at [of 2, unfolded H] assms by (simp_all add: response_body_def)
  then have "adu tid body ! header_length ctx = body ! 1" by (simp add: rd_Some_iff)
  with assms fn cnt le show ?thesis
    using header_pos
    by (auto simp: modbus_frame_def Let_def response_body_def adu_length afn_of_def
        compute_meta_length_after_function_def compute_data_length_after_meta_def split: if_splits)
qed

text \<open>What \<open>check_confirmation\<close> reads of the request and of the response.\<close>

lemma response_fields:
  assumes r: "take (length (adu tid body)) rs = adu tid body" and b: "body = sl # fn # cnt # rest"
    and len: "length rs = 260"
  shows "rd rs (header_length ctx) = Some fn" "rd rs (header_length ctx + 1) = Some cnt"
    "\<exists>x. rd rs (header_length ctx + 3) = Some x" "\<exists>x. rd rs (header_length ctx + 4) = Some x"
    "length rest = 3 \<longrightarrow> rd rs (header_length ctx + 3) = Some (rest ! 1) \<and> rd rs (header_length ctx + 4) = Some (rest ! 2)"
    "rdn rs (header_length ctx + 2) (length rest) = Some rest"
proof -
  have at: "i < length body \<Longrightarrow> rd rs (header_length ctx - 1 + i) = Some (body ! i)" for i
    by (rule body_at [OF r])
  have H: "header_length ctx - 1 + 1 = header_length ctx" "header_length ctx - 1 + 2 = header_length ctx + 1"
    "header_length ctx - 1 + 4 = header_length ctx + 3" "header_length ctx - 1 + 5 = header_length ctx + 4"
    using header_pos by simp_all
  show "rd rs (header_length ctx) = Some fn" "rd rs (header_length ctx + 1) = Some cnt"
    "length rest = 3 \<longrightarrow> rd rs (header_length ctx + 3) = Some (rest ! 1) \<and> rd rs (header_length ctx + 4) = Some (rest ! 2)"
    using at [of 1, unfolded H] at [of 2, unfolded H] at [of 4, unfolded H] at [of 5, unfolded H]
    by (simp_all add: b eval_nat_numeral)
  show "\<exists>x. rd rs (header_length ctx + 3) = Some x" "\<exists>x. rd rs (header_length ctx + 4) = Some x"
    using len header_small by (simp_all add: rd_in)
  have "drop (header_length ctx + 2) rs = drop 3 (drop (header_length ctx - 1) rs)"
    using header_pos by (simp add: add.commute)
  then have "take (length rest) (drop (header_length ctx + 2) rs) = rest"
    unfolding body_slice [OF r] by (simp add: b)
  moreover have "header_length ctx + 2 + length rest \<le> length rs"
    using take_prefix_length [OF r] header_pos by (simp add: adu_length b)
  ultimately show "rdn rs (header_length ctx + 2) (length rest) = Some rest" by (simp add: rdn_in)
qed

lemma response_length:
  assumes q: "take (length (adu tid body)) rq = adu tid body" and b: "body = sl # fn # ah # al # qh # ql # rest"
    and f: "afn_of (unat fn) = Some f" "f \<noteq> MODBUS_REPORT_SLAVE_ID" "f \<noteq> MODBUS_READ_EXCEPTION_STATUS"
  shows "compute_response_length_from_request ctx rq =
    Some (int (header_length ctx + (if f \<in> {MODBUS_READ_COILS, MODBUS_READ_DISCRETE_INPUTS,
        MODBUS_READ_HOLDING_REGISTERS, MODBUS_READ_INPUT_REGISTERS}
      then 2 + modbus_bytes (unat fn) (be16 qh ql) else 5) + checksum_length ctx))"
proof -
  show ?thesis
    using f request_fields(2,5,6) [OF q b] div_round_up_8 [of "be16 qh ql"]
    by (cases f) (simp_all add: compute_response_length_from_request_def Let_def modbus_bytes_def)
qed

lemma confirm_read:
  assumes q: "take (length (adu tid body)) rq = adu tid body" "body = sl # fn # ah # al # qh # ql # rest" "length rq = 260"
    and r: "take (length (adu tid resp)) rs = adu tid resp" "resp = sl # fn # word_of_nat (length data) # data" "length rs = 260"
    and f: "afn_of (unat fn) \<in> Some ` {MODBUS_READ_COILS, MODBUS_READ_DISCRETE_INPUTS,
        MODBUS_READ_HOLDING_REGISTERS, MODBUS_READ_INPUT_REGISTERS}"
    and n: "length data = modbus_bytes (unat fn) (be16 qh ql)" "length data \<le> 250"
  shows "check_confirmation ctx rq rs (length (adu tid resp)) = Some (int (length data))"
proof -
  have pre: "check_confirmation_pre ctx rq rs (length (adu tid resp)) = Some 0"
    by (rule confirmation [OF _ _ q(1) r(1)]) (simp_all add: q r)
  note rf = response_fields [OF r(1,2,3)]
  obtain x y where xy: "rd rs (header_length ctx + 3) = Some x" "rd rs (header_length ctx + 4) = Some y"
    using rf(3,4) by blast
  have cnt: "unat (word_of_nat (length data) :: u8) = length data"
    using n(2) by (simp add: unat_of_nat)
  obtain f' where f': "afn_of (unat fn) = Some f'" "f' \<in> {MODBUS_READ_COILS, MODBUS_READ_DISCRETE_INPUTS,
        MODBUS_READ_HOLDING_REGISTERS, MODBUS_READ_INPUT_REGISTERS}" using f by auto
  have vals: "confirmation_values ctx (unat fn) rq rs = Some (length data, length data)"
    using request_fields(5,6) [OF q(1,2)] rf(2) xy f' cnt n(1) div_round_up_8 [of "be16 qh ql"]
    by (auto simp: confirmation_values_def modbus_bytes_def)
  have len: "compute_response_length_from_request ctx rq = Some (int (length (adu tid resp)))"
    using response_length [OF q(1,2) f'(1)] f' n(1) header_pos by (auto simp: adu_length r(2))
  show ?thesis
    using request_fields(2) [OF q(1,2)] rf(1) pre vals len by (simp add: check_confirmation_def)
qed

lemma confirm_write:
  assumes q: "take (length (adu tid body)) rq = adu tid body" "body = sl # fn # ah # al # qh # ql # rest" "length rq = 260"
    and r: "take (length (adu tid resp)) rs = adu tid resp" "resp = [sl, fn, ah, al, qh, ql]" "length rs = 260"
    and f: "afn_of (unat fn) \<in> Some ` {MODBUS_WRITE_SINGLE_COIL, MODBUS_WRITE_SINGLE_REGISTER} \<or>
      afn_of (unat fn) \<in> Some ` {MODBUS_WRITE_MULTIPLE_COILS, MODBUS_WRITE_MULTIPLE_REGISTERS} \<and> 0 < be16 qh ql"
  shows "\<exists>k. check_confirmation ctx rq rs (length (adu tid resp)) = Some k \<and> 0 < k"
proof -
  have pre: "check_confirmation_pre ctx rq rs (length (adu tid resp)) = Some 0"
    by (rule confirmation [OF _ _ q(1) r(1)]) (simp_all add: q r)
  note rf = response_fields [OF r(1) r(2) r(3)]
  obtain f' where f': "afn_of (unat fn) = Some f'" "f' \<in> {MODBUS_WRITE_SINGLE_COIL, MODBUS_WRITE_SINGLE_REGISTER,
      MODBUS_WRITE_MULTIPLE_COILS, MODBUS_WRITE_MULTIPLE_REGISTERS}" using f by auto
  have rq: "rd rs (header_length ctx + 3) = Some qh" "rd rs (header_length ctx + 4) = Some ql"
    using rf(5) by simp_all
  obtain k where vals: "confirmation_values ctx (unat fn) rq rs = Some (k, k)" "0 < k"
    using request_fields(5,6) [OF q(1,2)] rf(2) rq f f'
    by (auto simp: confirmation_values_def)
  have len: "compute_response_length_from_request ctx rq = Some (int (length (adu tid resp)))"
    using response_length [OF q(1,2) f'(1)] f' header_pos by (auto simp: adu_length r(2))
  show ?thesis
    using request_fields(2) [OF q(1,2)] rf(1) pre vals len by (simp add: check_confirmation_def)
qed

lemma confirm_exception:
  assumes q: "take (length (adu tid body)) rq = adu tid body" "body = sl # fn # ah # al # qh # ql # rest"
    and r: "take (length (adu tid resp)) rs = adu tid resp" "resp = sl # fn' # cnt # rest'" "length rs = 260"
    and "fn' \<noteq> fn"
  shows "check_confirmation ctx rq rs k = Some (-1)"
  using request_fields(2) [OF q] response_fields(1) [OF r] assms(6) [unfolded word_unat_eq_iff]
  by (simp add: check_confirmation_def)

end

section \<open>A read and a write whose response arrives\<close>

text \<open>The body of the request the master builds.\<close>

definition master_request :: "int \<Rightarrow> ModbusFunctionMode_E \<Rightarrow> nat \<Rightarrow> nat \<Rightarrow> bytes" where
  "master_request slave f addr nb =
     [word_of_int slave, word_of_nat (afn_code f), hi8 addr, lo8 addr, hi8 nb, lo8 nb]"

text \<open>A master between two calls, on a link \<open>ops\<close> with transport \<open>ctx\<close>.\<close>

definition master_ok :: "'s ProtoPortCtx \<Rightarrow> ('s \<Rightarrow> bool) \<Rightarrow> ModbusCtx_T \<Rightarrow> 's Modbus_T \<Rightarrow> bool" where
  "master_ok ops ready ctx m \<longleftrightarrow>
     mb_ops m = ops \<and> mb_ctx m = ctx \<and> ready (link m) \<and> length (req m) = 260 \<and> length (rsp m) = 260 \<and> 0 < times m"

text \<open>The peer on the other end of \<open>s\<close> takes a request, its response becomes pending, and \<open>seen\<close> is
  what the link shows of the peer afterwards.\<close>

definition peer_answers ::
  "'s ProtoPortCtx \<Rightarrow> ('s \<Rightarrow> bool) \<Rightarrow> ('s \<Rightarrow> bool) \<Rightarrow> ('s \<Rightarrow> bytes) \<Rightarrow> ('s \<Rightarrow> 'o) \<Rightarrow> (nat \<Rightarrow> bytes \<Rightarrow> bytes) \<Rightarrow>
   's \<Rightarrow> bytes \<Rightarrow> bytes \<Rightarrow> 'o \<Rightarrow> bool" where
  "peer_answers ops ready prompt pending sent adu s body resp seen \<longleftrightarrow>
     (\<forall>tid. \<exists>l. link_send ops s (adu tid body) = Some (int (length (adu tid body)), l) \<and>
        ready l \<and> prompt l \<and> pending l = adu tid resp \<and> sent l = seen)"

context modbus_prompt_link
begin

lemma m_receive_frame:
  assumes m: "master_ok ops ready ctx m" "prompt (link m)"
    and p: "pending (link m) = adu tid body @ rest" and f: "modbus_frame ctx type (adu tid body)"
  shows "\<exists>l. modbus_m_receive_msg m type =
      Some (int (length (adu tid body)), m\<lparr>rsp := adu tid body @ replicate (260 - length (adu tid body)) 0, link := l\<rparr>) \<and>
    ready l \<and> prompt l \<and> sent l = sent (link m) \<and> pending l = rest"
proof -
  have t: "0 < unat (times m)" using m(1) by (simp add: master_ok_def word_less_nat_alt)
  have "wrn (rsp m) 0 (replicate MAX_MESSAGE_LENGTH 0) = Some (replicate 260 0)"
    using m(1) by (simp add: mem_simps MAX_MESSAGE_LENGTH_def master_ok_def)
  moreover obtain l where "ready l" "prompt l" "sent l = sent (link m)" "pending l = rest"
    "modbus_recv_loop ops ctx type (replicate 260 0) 0 (header_length ctx + 1) STEP_FUNCTION (unat (times m)) (link m) =
     Some (Some (length (adu tid body)), adu tid body @ replicate (260 - length (adu tid body)) 0, l, unat (times m))"
    using recv_frame [OF _ m(2) t f p] m(1) unfolding master_ok_def by blast
  moreover have "check_integrity ctx (adu tid body @ replicate (260 - length (adu tid body)) 0)
      (length (adu tid body)) = Some 0"
    by (rule integrity) simp
  ultimately show ?thesis
    using m t by (auto simp: modbus_m_receive_msg_def Let_def master_ok_def)
qed

lemma transact:
  assumes m: "master_ok ops ready ctx m" and q: "take (length (adu tid body)) (req m) = adu tid body"
    and s: "link_send ops (link m) (adu tid body) = Some (int (length (adu tid body)), l)"
      "ready l" "prompt l" "pending l = adu tid resp"
    and r: "response_body resp"
  shows "\<exists>l'. modbus_m_transact m (length (adu tid body)) e =
      map_option (\<lambda>k. (if \<not> k > 0 then -1 else k,
          m\<lparr>link := l', rsp := adu tid resp @ replicate (260 - length (adu tid resp)) 0\<rparr>))
        (check_confirmation ctx (req m) (adu tid resp @ replicate (260 - length (adu tid resp)) 0)
          (length (adu tid resp))) \<and>
    ready l' \<and> prompt l' \<and> pending l' = [] \<and> sent l' = sent l"
proof -
  let ?m = "m\<lparr>link := l\<rparr>"
  have ok: "master_ok ops ready ctx ?m" using m s by (simp add: master_ok_def)
  have p: "prompt (link ?m)" "pending (link ?m) = adu tid resp @ []" using s by simp_all
  obtain l' where l': "modbus_m_receive_msg ?m MSG_CONFIRMATION = Some (int (length (adu tid resp)),
      ?m\<lparr>rsp := adu tid resp @ replicate (260 - length (adu tid resp)) 0, link := l'\<rparr>)"
    "ready l'" "prompt l'" "sent l' = sent l" "pending l' = []"
    using m_receive_frame [OF ok p response_frame [OF r]] by auto
  have "rdn (req m) 0 (length (adu tid body)) = Some (adu tid body)"
    using q take_prefix_length [OF q] by (simp add: rdn_in)
  moreover have "0 < length (adu tid resp)" using r by (auto simp: adu_length response_body_def)
  moreover have "mb_ops m = ops" "mb_ctx m = ctx" using m by (simp_all add: master_ok_def)
  ultimately have "modbus_m_transact m (length (adu tid body)) e =
      map_option (\<lambda>k. (if \<not> k > 0 then -1 else k,
          m\<lparr>link := l', rsp := adu tid resp @ replicate (260 - length (adu tid resp)) 0\<rparr>))
        (check_confirmation ctx (req m) (adu tid resp @ replicate (260 - length (adu tid resp)) 0)
          (length (adu tid resp)))"
    using s(1) l'(1)
    by (cases "check_confirmation ctx (req m) (adu tid resp @ replicate (260 - length (adu tid resp)) 0)
          (length (adu tid resp))")
       (simp_all add: modbus_m_transact_def Let_def)
  with l' show ?thesis by blast
qed

definition rest_ok :: "'s Modbus_T \<Rightarrow> 'o \<Rightarrow> bool" where
  "rest_ok m seen \<longleftrightarrow> master_ok ops ready ctx m \<and> prompt (link m) \<and> pending (link m) = [] \<and> sent (link m) = seen"

text \<open>The common part of a read and a write: the request is on its way, the response has been checked.\<close>

lemma exchange:
  assumes m: "master_ok ops ready ctx m" "take (length (adu tid body)) (req m) = adu tid body"
    and peer: "peer_answers ops ready prompt pending sent adu (link m) body resp seen"
    and r: "response_body resp"
  shows "\<exists>m' rs. modbus_m_transact m (length (adu tid body)) e =
      map_option (\<lambda>k. (if \<not> k > 0 then -1 else k, m')) (check_confirmation ctx (req m) rs (length (adu tid resp))) \<and>
    rsp m' = rs \<and> length rs = 260 \<and> take (length (adu tid resp)) rs = adu tid resp \<and> rest_ok m' seen"
proof -
  obtain l where "link_send ops (link m) (adu tid body) = Some (int (length (adu tid body)), l)"
    "ready l" "prompt l" "pending l = adu tid resp" "sent l = seen"
    using peer by (auto simp: peer_answers_def)
  moreover obtain l' where "modbus_m_transact m (length (adu tid body)) e =
      map_option (\<lambda>k. (if \<not> k > 0 then -1 else k,
          m\<lparr>link := l', rsp := adu tid resp @ replicate (260 - length (adu tid resp)) 0\<rparr>))
        (check_confirmation ctx (req m) (adu tid resp @ replicate (260 - length (adu tid resp)) 0)
          (length (adu tid resp)))" "ready l'" "prompt l'" "pending l' = []" "sent l' = sent l"
    using transact [OF m calculation(1-4) r, of e] by blast
  moreover have "length (adu tid resp) \<le> 260"
    using response_frame [OF r, of tid] adu_limit by (simp add: modbus_frame_def Let_def)
  ultimately show ?thesis
    using m(1)
    by (intro exI [of _ "m\<lparr>link := l', rsp := adu tid resp @ replicate (260 - length (adu tid resp)) 0\<rparr>"]
        exI [of _ "adu tid resp @ replicate (260 - length (adu tid resp)) 0"])
      (simp add: rest_ok_def master_ok_def)
qed

lemma request_built:
  assumes "master_ok ops ready ctx m"
  shows "\<exists>tid rq rq'. build_request_basis ctx (t_id m) (req m) slave (int (afn_code f)) a nb =
      Some (tid, rq, header_length ctx + 5) \<and>
    send_msg_pre ctx rq (header_length ctx + 5) = Some (rq', length (adu (unat tid) (master_request slave f a nb))) \<and>
    length rq' = 260 \<and> take (length (adu (unat tid) (master_request slave f a nb))) rq' =
      adu (unat tid) (master_request slave f a nb)"
proof -
  obtain tid rq where b: "build_request_basis ctx (t_id m) (req m) slave (int (afn_code f)) a nb =
      Some (tid, rq, header_length ctx + 5)" "length rq = 260" "holds (unat tid) (master_request slave f a nb) rq"
    using request_basis [of "req m" "t_id m" slave "int (afn_code f)" a nb] assms
    by (auto simp: master_ok_def master_request_def)
  have "header_length ctx - 1 + length (master_request slave f a nb) = header_length ctx + 5"
    using header_pos by (simp add: master_request_def)
  moreover have "length (master_request slave f a nb) + header_length ctx - 1 + checksum_length ctx \<le> 260"
    using adu_limit by (simp add: master_request_def)
  ultimately show ?thesis using finish [OF b(3,2)] b(1) by auto
qed

lemma read_answered:
  assumes m: "master_ok ops ready ctx m" and sl: "0 < slave" "slave \<le> 247"
    and f: "f \<in> {MODBUS_READ_COILS, MODBUS_READ_DISCRETE_INPUTS, MODBUS_READ_HOLDING_REGISTERS, MODBUS_READ_INPUT_REGISTERS}"
    and n: "0 < unat n" "unat n \<le> (if f \<in> {MODBUS_READ_COILS, MODBUS_READ_DISCRETE_INPUTS} then 2000 else 125)"
    and d: "length data = modbus_bytes (afn_code f) (unat n)"
    and peer: "peer_answers ops ready prompt pending sent adu (link m) (master_request slave f (unat a) (unat n))
      (word_of_int slave # word_of_nat (afn_code f) # word_of_nat (length data) # data) seen"
  shows "\<exists>m'. wow_modbus_m_read_data m slave f a n = Some (0, data, m') \<and> rest_ok m' seen"
proof -
  let ?body = "master_request slave f (unat a) (unat n)"
  let ?resp = "word_of_int slave # word_of_nat (afn_code f) # word_of_nat (length data) # data"
  obtain tid rq rq' where b: "build_request_basis ctx (t_id m) (req m) slave (int (afn_code f)) (unat a) (unat n) =
      Some (tid, rq, header_length ctx + 5)"
    "send_msg_pre ctx rq (header_length ctx + 5) = Some (rq', length (adu (unat tid) ?body))"
    "length rq' = 260" "take (length (adu (unat tid) ?body)) rq' = adu (unat tid) ?body"
    using request_built [OF m] by blast
  let ?m = "m\<lparr>t_id := tid, req := rq'\<rparr>"
  have len: "length data \<le> 250" "0 < length data"
    using n d f by (auto simp: modbus_bytes_def split: if_splits)
  have fn: "unat (word_of_nat (afn_code f) :: u8) = afn_code f"
    using afn_code_small [of f] by (simp add: unat_of_nat)
  have cnt: "unat (word_of_nat (length data) :: u8) = length data"
    using len by (simp add: unat_of_nat)
  have r: "response_body ?resp"
    using f len fn cnt by (auto simp: response_body_def Let_def)
  have ok: "master_ok ops ready ctx ?m" using m b(3) by (simp add: master_ok_def)
  have q: "take (length (adu (unat tid) ?body)) (req ?m) = adu (unat tid) ?body" using b(4) by simp
  have "peer_answers ops ready prompt pending sent adu (link ?m) ?body ?resp seen" using peer by simp
  from exchange [OF ok q this r, of "-2"] obtain m' rs where
    t: "modbus_m_transact ?m (length (adu (unat tid) ?body)) (-2) =
      map_option (\<lambda>k. (if \<not> k > 0 then -1 else k, m'))
        (check_confirmation ctx (req ?m) rs (length (adu (unat tid) ?resp)))"
    "rsp m' = rs" "length rs = 260" "take (length (adu (unat tid) ?resp)) rs = adu (unat tid) ?resp" "rest_ok m' seen"
    by blast
  have q16: "be16 (hi8 (unat n)) (lo8 (unat n)) = unat n"
    using n by (simp add: be16_hi8_lo8 split: if_splits)
  have "check_confirmation ctx (req ?m) rs (length (adu (unat tid) ?resp)) = Some (int (length data))"
    using confirm_read [OF q master_request_def _ t(4) refl t(3) _ _ len(1)] b(3) f d by (auto simp: fn q16)
  moreover have "rdn rs (header_length ctx + 2) (length data) = Some data"
    using response_fields(6) [OF t(4) refl t(3)] .
  moreover have "mb_ctx m' = ctx" using t(5) by (simp add: rest_ok_def master_ok_def)
  moreover have "mb_ctx m = ctx" using m by (simp add: master_ok_def)
  ultimately show ?thesis
    using sl f n b(1,2) t(1,2,5) len(2)
    by (auto simp: wow_modbus_m_read_data_def modbus_consts)
qed

lemma read_refused:
  assumes m: "master_ok ops ready ctx m" and sl: "0 < slave" "slave \<le> 247"
    and f: "f \<in> {MODBUS_READ_COILS, MODBUS_READ_DISCRETE_INPUTS, MODBUS_READ_HOLDING_REGISTERS, MODBUS_READ_INPUT_REGISTERS}"
    and n: "unat n \<le> (if f \<in> {MODBUS_READ_COILS, MODBUS_READ_DISCRETE_INPUTS} then 2000 else 125)"
    and peer: "peer_answers ops ready prompt pending sent adu (link m) (master_request slave f (unat a) (unat n))
      (exception_body (word_of_int slave) (word_of_nat (afn_code f)) code) seen"
  shows "\<exists>m'. wow_modbus_m_read_data m slave f a n = Some (-1, [], m') \<and> rest_ok m' seen"
proof -
  let ?body = "master_request slave f (unat a) (unat n)"
  let ?resp = "exception_body (word_of_int slave) (word_of_nat (afn_code f)) code"
  obtain tid rq rq' where b: "build_request_basis ctx (t_id m) (req m) slave (int (afn_code f)) (unat a) (unat n) =
      Some (tid, rq, header_length ctx + 5)"
    "send_msg_pre ctx rq (header_length ctx + 5) = Some (rq', length (adu (unat tid) ?body))"
    "length rq' = 260" "take (length (adu (unat tid) ?body)) rq' = adu (unat tid) ?body"
    using request_built [OF m] by blast
  let ?m = "m\<lparr>t_id := tid, req := rq'\<rparr>"
  have fn: "unat (word_of_nat (afn_code f) + 0x80 :: u8) = afn_code f + 128"
    using f by auto
  have r: "response_body ?resp"
    using f fn by (auto simp: response_body_def Let_def exception_body_def)
  have ok: "master_ok ops ready ctx ?m" using m b(3) by (simp add: master_ok_def)
  have q: "take (length (adu (unat tid) ?body)) (req ?m) = adu (unat tid) ?body" using b(4) by simp
  have "peer_answers ops ready prompt pending sent adu (link ?m) ?body ?resp seen" using peer by simp
  from exchange [OF ok q this r, of "-2"] obtain m' rs where
    t: "modbus_m_transact ?m (length (adu (unat tid) ?body)) (-2) =
      map_option (\<lambda>k. (if \<not> k > 0 then -1 else k, m'))
        (check_confirmation ctx (req ?m) rs (length (adu (unat tid) ?resp)))"
    "length rs = 260" "take (length (adu (unat tid) ?resp)) rs = adu (unat tid) ?resp" "rest_ok m' seen"
    by blast
  have "(word_of_nat (afn_code f) + 0x80 :: u8) \<noteq> word_of_nat (afn_code f)" by simp
  then have "check_confirmation ctx (req ?m) rs (length (adu (unat tid) ?resp)) = Some (-1)"
    by (rule confirm_exception [OF q master_request_def t(3) exception_body_def t(2)])
  moreover have "mb_ctx m = ctx" using m by (simp add: master_ok_def)
  ultimately show ?thesis
    using sl f n b(1,2) t(1,4) by (auto simp: wow_modbus_m_read_data_def modbus_consts)
qed

text \<open>A write, whatever its body, once it has been built.\<close>

lemma write_answered:
  assumes m: "master_ok ops ready ctx m" and sl: "0 < slave" "slave \<le> 247"
    and b: "modbus_m_build_write m slave f a n pu = Some (Some (tid, rq, header_length ctx - 1 + length body))"
      "holds (unat tid) body rq" "length rq = 260" "length body \<le> 253"
    and body: "body = sl # word_of_nat (afn_code f) # ah # al # qh # ql # more'"
    and f: "f \<in> {MODBUS_WRITE_SINGLE_COIL, MODBUS_WRITE_SINGLE_REGISTER} \<or>
      f \<in> {MODBUS_WRITE_MULTIPLE_COILS, MODBUS_WRITE_MULTIPLE_REGISTERS} \<and> 0 < be16 qh ql"
    and peer: "peer_answers ops ready prompt pending sent adu (link m) body
      [sl, word_of_nat (afn_code f), ah, al, qh, ql] seen"
  shows "\<exists>m'. wow_modbus_m_write_data m slave f a n pu = Some (0, m') \<and> rest_ok m' seen"
proof -
  let ?resp = "[sl, word_of_nat (afn_code f), ah, al, qh, ql]"
  have "length body + header_length ctx - 1 + checksum_length ctx \<le> 260"
    using b(4) adu_limit header_pos by simp
  from finish [OF b(2,3) this] obtain rq' where
    p: "send_msg_pre ctx rq (header_length ctx - 1 + length body) = Some (rq', length (adu (unat tid) body))"
    "length rq' = 260" "take (length (adu (unat tid) body)) rq' = adu (unat tid) body" by blast
  let ?m = "m\<lparr>t_id := tid, req := rq'\<rparr>"
  have fn: "unat (word_of_nat (afn_code f) :: u8) = afn_code f"
    using afn_code_small [of f] by (simp add: unat_of_nat)
  have r: "response_body ?resp"
    using f fn by (auto simp: response_body_def Let_def)
  have ok: "master_ok ops ready ctx ?m" using m p(2) by (simp add: master_ok_def)
  have q: "take (length (adu (unat tid) body)) (req ?m) = adu (unat tid) body" "length (req ?m) = 260"
    using p by simp_all
  have "peer_answers ops ready prompt pending sent adu (link ?m) body ?resp seen" using peer by simp
  from exchange [OF ok q(1) this r, of "-1"] obtain m' rs where
    t: "modbus_m_transact ?m (length (adu (unat tid) body)) (-1) =
      map_option (\<lambda>k. (if \<not> k > 0 then -1 else k, m'))
        (check_confirmation ctx (req ?m) rs (length (adu (unat tid) ?resp)))"
    "length rs = 260" "take (length (adu (unat tid) ?resp)) rs = adu (unat tid) ?resp" "rest_ok m' seen"
    by blast
  have "afn_of (unat (word_of_nat (afn_code f) :: u8)) \<in> Some ` {MODBUS_WRITE_SINGLE_COIL, MODBUS_WRITE_SINGLE_REGISTER} \<or>
      afn_of (unat (word_of_nat (afn_code f) :: u8)) \<in> Some ` {MODBUS_WRITE_MULTIPLE_COILS, MODBUS_WRITE_MULTIPLE_REGISTERS} \<and> 0 < be16 qh ql"
    using f by (auto simp: fn)
  from confirm_write [OF q(1) body q(2) t(3) refl t(2) this]
  obtain k where "check_confirmation ctx (req ?m) rs (length (adu (unat tid) ?resp)) = Some k" "0 < k" by blast
  moreover have "mb_ctx m = ctx" using m by (simp add: master_ok_def)
  ultimately show ?thesis
    using sl b(1) p(1) t(1,4) by (simp add: wow_modbus_m_write_data_def)
qed

text \<open>What the four kinds of write build.\<close>

lemma write_single_built:
  assumes m: "master_ok ops ready ctx m" and f: "f \<in> {MODBUS_WRITE_SINGLE_COIL, MODBUS_WRITE_SINGLE_REGISTER}"
    and d: "2 \<le> length pu"
  defines "v \<equiv> if f = MODBUS_WRITE_SINGLE_COIL then (if take 2 pu \<noteq> [0, 0] then 0xFF00 else 0) else be16 (pu ! 0) (pu ! 1)"
  shows "\<exists>tid rq. modbus_m_build_write m slave f a n pu = Some (Some (tid, rq, header_length ctx - 1 + length (master_request slave f (unat a) v))) \<and>
    holds (unat tid) (master_request slave f (unat a) v) rq \<and> length rq = 260"
proof -
  obtain tid rq where b: "build_request_basis ctx (t_id m) (req m) slave (int (afn_code f)) (unat a) v =
      Some (tid, rq, header_length ctx + 5)" "length rq = 260" "holds (unat tid) (master_request slave f (unat a) v) rq"
    using request_basis [of "req m" "t_id m" slave "int (afn_code f)" "unat a" v] m
    by (auto simp: master_ok_def master_request_def)
  have "header_length ctx - 1 + length (master_request slave f (unat a) v) = header_length ctx + 5"
    using header_pos by (simp add: master_request_def)
  moreover have "mb_ctx m = ctx" using m by (simp add: master_ok_def)
  moreover have "rdn pu 0 2 = Some (take 2 pu)" "rd pu 0 = Some (pu ! 0)" "rd pu 1 = Some (pu ! 1)"
    using d by (auto simp: rd_def rdn_def)
  ultimately show ?thesis
    using f b by (auto simp: modbus_m_build_write_def Let_def v_def)
qed

lemma write_multiple_built:
  fixes slave :: int and a n :: u32
  assumes m: "master_ok ops ready ctx m" and f: "f \<in> {MODBUS_WRITE_MULTIPLE_COILS, MODBUS_WRITE_MULTIPLE_REGISTERS}"
    and n: "unat n \<le> (if f = MODBUS_WRITE_MULTIPLE_COILS then 1968 else 123)"
    and d: "modbus_bytes (afn_code f) (unat n) \<le> length pu"
  defines "body \<equiv> master_request slave f (unat a) (unat n) @ word_of_nat (modbus_bytes (afn_code f) (unat n)) #
      take (modbus_bytes (afn_code f) (unat n)) pu"
  shows "\<exists>tid rq. modbus_m_build_write m slave f a n pu = Some (Some (tid, rq, header_length ctx - 1 + length body)) \<and>
    holds (unat tid) body rq \<and> length rq = 260 \<and> length body \<le> 253"
proof -
  let ?H = "header_length ctx - 1" and ?nb = "modbus_bytes (afn_code f) (unat n)"
  let ?b0 = "master_request slave f (unat a) (unat n)"
  obtain tid rq where b: "build_request_basis ctx (t_id m) (req m) slave (int (afn_code f)) (unat a) (unat n) =
      Some (tid, rq, header_length ctx + 5)" "length rq = 260" "holds (unat tid) ?b0 rq"
    using request_basis [of "req m" "t_id m" slave "int (afn_code f)" "unat a" "unat n"] m
    by (auto simp: master_ok_def master_request_def)
  have l0: "?H + length ?b0 = header_length ctx + 5" using header_pos by (simp add: master_request_def)
  have nb: "?nb \<le> 246" using n f by (auto simp: modbus_bytes_def split: if_splits)
  have H: "header_length ctx + 5 < 260" using header_small by simp
  let ?rq1 = "rq[header_length ctx + 5 := word_of_nat ?nb]"
  have "wrn rq (?H + length ?b0) [word_of_nat ?nb] = Some ?rq1"
    unfolding l0 using H b(2) by (simp add: mem_simps upd_conv_take_nth_drop)
  from holds_append [OF b(3) this] have h1: "holds (unat tid) (?b0 @ [word_of_nat ?nb]) ?rq1" .
  have l1: "?H + length (?b0 @ [word_of_nat ?nb :: u8]) = header_length ctx + 6"
    using header_pos by (simp add: master_request_def)
  have "header_length ctx + 6 + length (take ?nb pu) \<le> length ?rq1"
    using nb d b(2) header_small by simp
  then obtain rq2 where w: "wrn ?rq1 (header_length ctx + 6) (take ?nb pu) = Some rq2"
    by (auto simp: wrn_def)
  have h2: "holds (unat tid) body rq2"
    using holds_append [OF h1] w unfolding l1 body_def by simp
  have "length rq2 = 260" using wrn_length [OF w] b(2) by simp
  moreover have "length body \<le> 253" using nb by (simp add: body_def master_request_def)
  moreover have "modbus_m_build_write m slave f a n pu = Some (Some (tid, rq2, ?H + length body))"
  proof -
    have "mb_ctx m = ctx" using m by (simp add: master_ok_def)
    moreover have "rdn pu 0 ?nb = Some (take ?nb pu)" using d by (simp add: mem_simps)
    moreover have "wr rq (header_length ctx + 5) (word_of_nat ?nb) = Some ?rq1"
      using H b(2) by (simp add: mem_simps)
    moreover have "?H + length body = header_length ctx + 6 + ?nb"
      using d header_pos by (simp add: body_def master_request_def)
    moreover have "unat n div 8 + (if unat n mod 8 \<noteq> 0 then 1 else 0) = ?nb" if "f = MODBUS_WRITE_MULTIPLE_COILS"
      using that div_round_up_8 [of "unat n"] by (simp add: modbus_bytes_def afn_of_def)
    moreover have "unat (n * 2) = ?nb" "ucast (n * 2) = (word_of_nat ?nb :: u8)" if "f = MODBUS_WRITE_MULTIPLE_REGISTERS"
    proof -
      have "unat (n * 2) = 2 * unat n"
        using n that by (simp add: unat_word_ariths split: if_splits)
      moreover have "ucast (n * 2) = (word_of_nat (unat (n * 2)) :: u8)" by simp
      moreover have "?nb = 2 * unat n" using that by (simp add: modbus_bytes_def afn_of_def)
      ultimately show "unat (n * 2) = ?nb" "ucast (n * 2) = (word_of_nat ?nb :: u8)"
        by (simp_all del: of_nat_unat)
    qed
    moreover have "wrn ?rq1 (6 + header_length ctx) (take ?nb pu) = Some rq2"
      using w by (simp add: add.commute)
    ultimately show ?thesis
      using f b(1) by (auto simp: modbus_m_build_write_def Let_def)
  qed
  ultimately show ?thesis using h2 by blast
qed

end

end
