(* ===== verification/ModbusSession.thy ===== *)
theory ModbusSession
  imports ModbusExchange
begin

text \<open>
  Master and slave on one line. The link of the master is a wire: what it sends arrives at the port
  of the slave, the slave's thread runs a round, and what the slave writes becomes pending for the
  master. On that wire the calls of \<open>wow_modbus_m.c\<close> read and write the device behind the
  callbacks of \<open>wow_modbus_s.c\<close>.
\<close>

section \<open>The wire\<close>

record 'd wire =
  peer :: "(proto_port, 'd) ModbusSlaver_T"
  inbox :: "bytes list"

definition wire_send :: "'d wire \<Rightarrow> bytes \<Rightarrow> (int \<times> 'd wire) option" where
  "wire_send w msg =
     do {
       let line = link (modbus (peer w));
       sm \<leftarrow> modbus_s_exec_round (incoming (rx line @ [msg]) (peer w));
       let answer = drop (length (tx line)) (tx (link (modbus sm)));
       Some (int (length msg), \<lparr>peer = sm, inbox = inbox w @ answer\<rparr>)
     }"

definition wire_recv :: "'d wire \<Rightarrow> nat \<Rightarrow> (int \<times> bytes \<times> 'd wire) option" where
  "wire_recv w n =
     (case os_read (new_port\<lparr>rx := inbox w\<rparr>) n of (ret, d, p) \<Rightarrow> Some (ret, d, w\<lparr>inbox := rx p\<rparr>))"

definition wire_ops :: "'d wire ProtoPortCtx" where
  "wire_ops = \<lparr>link_open = (\<lambda>_ w. Some (0, w)), link_send = wire_send, link_recv = wire_recv, link_close = Some\<rparr>"

definition wire_ready :: "proto_port ProtoPortCtx \<Rightarrow> (proto_port \<Rightarrow> bool) \<Rightarrow> ModbusCtx_T \<Rightarrow> 'd wire \<Rightarrow> bool" where
  "wire_ready ops ready ctx w \<longleftrightarrow> slave_ok ops ready ctx (peer w)"

definition wire_prompt :: "'d wire \<Rightarrow> bool" where
  "wire_prompt w \<longleftrightarrow> [] \<notin> set (inbox w) \<and> port_prompt (link (modbus (peer w))) \<and>
     rx (link (modbus (peer w))) = [] \<and> 0 < times (modbus (peer w))"

definition wire_seen :: "'d wire \<Rightarrow> 'd \<times> 'd ModbusSlaverDevCtx option" where
  "wire_seen w = (priv (peer w), dev (peer w))"

lemma wire_recv_facts:
  assumes "wire_recv w n = Some (ret, d, w')"
  shows "peer w' = peer w" "length d \<le> n" "ret = int (length d)" "concat (inbox w) = d @ concat (inbox w')"
    "[] \<notin> set (inbox w) \<Longrightarrow> [] \<notin> set (inbox w') \<and> (0 < n \<longrightarrow> concat (inbox w) \<noteq> [] \<longrightarrow> d \<noteq> [])"
proof -
  obtain p where p: "os_read (new_port\<lparr>rx := inbox w\<rparr>) n = (ret, d, p)" "w' = w\<lparr>inbox := rx p\<rparr>"
    using assms by (auto simp: wire_recv_def split: prod.splits)
  show "peer w' = peer w" using p by simp
  show "length d \<le> n" "ret = int (length d)" "concat (inbox w) = d @ concat (inbox w')"
    using os_read_data [OF p(1)] p(2) by simp_all
  show "[] \<notin> set (inbox w) \<Longrightarrow> [] \<notin> set (inbox w') \<and> (0 < n \<longrightarrow> concat (inbox w) \<noteq> [] \<longrightarrow> d \<noteq> [])"
    using os_read_prompt [OF p(1)] p(2) by (simp add: port_prompt_def new_port_def)
qed

text \<open>A slave on a port, ready for whatever is queued in it.\<close>

locale port_slave =
  modbus_duplex_link ops "\<lambda>p. concat (rx p)" ready ctx adu holds port_prompt tx
  for ops :: "proto_port ProtoPortCtx" and ready :: "proto_port \<Rightarrow> bool"
    and ctx :: ModbusCtx_T and adu and holds +
  assumes ready_rx: "ready (p\<lparr>rx := cs\<rparr>) = ready p"
begin

lemma incoming_ok: "slave_ok ops ready ctx sm \<Longrightarrow> slave_ok ops ready ctx (incoming cs sm)"
  by (simp add: slave_ok_def incoming_def ready_rx)

lemma wire_send_total:
  assumes "wire_ready ops ready ctx w"
  shows "\<exists>ret w'. wire_send w msg = Some (ret, w') \<and> wire_ready ops ready ctx w'"
proof -
  let ?cs = "rx (link (modbus (peer w))) @ [msg]"
  obtain sm where "modbus_s_exec_round (incoming ?cs (peer w)) = Some sm" "slave_ok ops ready ctx sm"
    using exec_round_total incoming_ok assms unfolding wire_ready_def by blast
  then show ?thesis by (simp add: wire_send_def wire_ready_def)
qed

end

sublocale port_slave \<subseteq> wire: modbus_prompt_link wire_ops "\<lambda>w. concat (inbox w)" "wire_ready ops ready ctx"
  ctx adu holds wire_prompt wire_seen
proof unfold_locales
  fix s :: "'a wire" and n
  show "\<exists>ret d s'. link_recv wire_ops s n = Some (ret, d, s')"
    by (simp add: wire_ops_def wire_recv_def split: prod.splits)
next
  fix s :: "'a wire" and d
  assume "wire_ready ops ready ctx s"
  then show "\<exists>ret s'. link_send wire_ops s d = Some (ret, s')"
    using wire_send_total by (simp add: wire_ops_def) blast
next
  fix s s' :: "'a wire" and d ret
  assume "wire_ready ops ready ctx s" and "link_send wire_ops s d = Some (ret, s')"
  then show "wire_ready ops ready ctx s'"
    using wire_send_total [of s d] by (auto simp: wire_ops_def)
qed (auto simp: wire_ops_def wire_ready_def wire_prompt_def wire_seen_def dest: wire_recv_facts)

section \<open>Calls over the wire\<close>

text \<open>Between two calls: master and slave idle, the device in state \<open>d\<close> behind the callbacks \<open>dv\<close>.\<close>

definition session ::
  "proto_port ProtoPortCtx \<Rightarrow> (proto_port \<Rightarrow> bool) \<Rightarrow> ModbusCtx_T \<Rightarrow> 'd wire Modbus_T \<Rightarrow> 'd \<Rightarrow> 'd ModbusSlaverDevCtx \<Rightarrow> bool" where
  "session ops ready ctx m d dv \<longleftrightarrow>
     master_ok wire_ops (wire_ready ops ready ctx) ctx m \<and> wire_prompt (link m) \<and>
     concat (inbox (link m)) = [] \<and> wire_seen (link m) = (d, Some dv)"

context port_slave
begin

lemma session_rest: "session ops ready ctx m d dv \<longleftrightarrow> wire.rest_ok m (d, Some dv)"
  by (auto simp: session_def wire.rest_ok_def)

lemma wire_answers:
  assumes s: "session ops ready ctx m d dv"
    and dv: "get_afn_addr_val dv = Some getf" "set_afn_addr_val dv = Some setf" "device_ok getf setf"
    and b: "request_body body" "length body \<le> 253"
    and spec: "modbus_slave_spec getf setf d body = (Some resp, d')"
  shows "peer_answers wire_ops (wire_ready ops ready ctx) wire_prompt (\<lambda>w. concat (inbox w)) wire_seen adu
    (link m) body resp (d', Some dv)"
  unfolding peer_answers_def
proof
  fix tid
  let ?w = "link m" and ?line = "link (modbus (peer (link m)))"
  have w: "wire_ready ops ready ctx ?w" "wire_prompt ?w" "concat (inbox ?w) = []" "dev (peer ?w) = Some dv" "priv (peer ?w) = d"
    using s by (auto simp: session_def wire_seen_def master_ok_def)
  let ?sm = "incoming (rx ?line @ [adu tid body]) (peer ?w)"
  have ok: "slave_ok ops ready ctx ?sm" using incoming_ok w(1) by (simp add: wire_ready_def)
  have "adu tid body \<noteq> []" using b(1) adu_length [of tid body] by (auto simp: request_body_def)
  then have sm: "mb_ops (modbus ?sm) = ops" "mb_ctx (modbus ?sm) = ctx" "ready (link (modbus ?sm))"
      "port_prompt (link (modbus ?sm))" "length (req (modbus ?sm)) = 260" "length (rsp (modbus ?sm)) = 260"
      "0 < times (modbus ?sm)" "dev ?sm = Some dv" "priv ?sm = d"
      "concat (rx (link (modbus ?sm))) = adu tid body @ []"
    using ok w(2,4,5) by (auto simp: slave_ok_def incoming_def wire_prompt_def port_prompt_def)
  have "request_ok (tid, body)" using b by (simp add: request_ok_def)
  from exec_round_serves [OF sm(1-8) dv sm(10) this spec [folded sm(9)]] obtain sm' where
    r: "modbus_s_exec_round ?sm = Some sm'" "mb_ops (modbus sm') = ops" "mb_ctx (modbus sm') = ctx"
      "ready (link (modbus sm'))" "port_prompt (link (modbus sm'))" "length (req (modbus sm')) = 260"
      "length (rsp (modbus sm')) = 260" "times (modbus sm') = times (modbus ?sm)" "dev sm' = Some dv"
      "concat (rx (link (modbus sm'))) = []" "priv sm' = d'" "tx (link (modbus sm')) = tx (link (modbus ?sm)) @ [adu tid resp]"
    using sm(8) by auto
  have "resp \<noteq> []" by (rule spec_response_nonempty [OF spec])
  then have ne: "adu tid resp \<noteq> []" using adu_length [of tid resp] by auto
  have "rx (link (modbus sm')) = []"
    using concat_nonempty_Nil r(5,10) by (auto simp: port_prompt_def)
  moreover have "tx (link (modbus ?sm)) = tx ?line" by (simp add: incoming_def)
  moreover have "times (modbus ?sm) = times (modbus (peer ?w))" by (simp add: incoming_def)
  moreover have "inbox ?w = []" using w(2,3) concat_nonempty_Nil by (auto simp: wire_prompt_def)
  ultimately show "\<exists>l. link_send wire_ops ?w (adu tid body) = Some (int (length (adu tid body)), l) \<and>
      wire_ready ops ready ctx l \<and> wire_prompt l \<and> concat (inbox l) = adu tid resp \<and> wire_seen l = (d', Some dv)"
    using r w(2) dv ne
    by (auto simp: wire_ops_def wire_send_def Let_def wire_ready_def slave_ok_def wire_prompt_def wire_seen_def)
qed

text \<open>What the slave makes of the four reads.\<close>

lemma spec_read:
  assumes f: "f \<in> {MODBUS_READ_COILS, MODBUS_READ_DISCRETE_INPUTS, MODBUS_READ_HOLDING_REGISTERS, MODBUS_READ_INPUT_REGISTERS}"
    and n: "0 < n" "n \<le> (if f \<in> {MODBUS_READ_COILS, MODBUS_READ_DISCRETE_INPUTS} then 2000 else 125)"
    and g: "getf d (unat (word_of_int slave :: u8)) (afn_code f) (a mod 65536) n = (ret, data, d')"
  shows "modbus_slave_spec getf setf d (master_request slave f a n) =
      (slave_outcome (word_of_int slave) (word_of_nat (afn_code f)) ret
        (word_of_int slave # word_of_nat (afn_code f) # word_of_nat (modbus_bytes (afn_code f) n) # data), d')"
proof -
  have fn: "unat (word_of_nat (afn_code f) :: u8) = afn_code f"
    using afn_code_small [of f] by (simp add: unat_of_nat)
  have q: "be16 (hi8 n) (lo8 n) = n" using n by (simp add: be16_hi8_lo8 split: if_splits)
  show "modbus_slave_spec getf setf d (master_request slave f a n) =
      (slave_outcome (word_of_int slave) (word_of_nat (afn_code f)) ret
        (word_of_int slave # word_of_nat (afn_code f) # word_of_nat (modbus_bytes (afn_code f) n) # data), d')"
    using f n g by (auto simp: master_request_def fn q be16_hi8_lo8 Let_def)
qed

lemma read_request_body:
  "f \<in> {MODBUS_READ_COILS, MODBUS_READ_DISCRETE_INPUTS, MODBUS_READ_HOLDING_REGISTERS, MODBUS_READ_INPUT_REGISTERS} \<Longrightarrow>
   request_body (master_request slave f a n)"
  by (auto simp: request_body_def master_request_def)

lemma read_over_wire:
  assumes s: "session ops ready ctx m d dv" and sl: "0 < slave" "slave \<le> 247"
    and dv: "get_afn_addr_val dv = Some getf" "set_afn_addr_val dv = Some setf" "device_ok getf setf"
    and f: "f \<in> {MODBUS_READ_COILS, MODBUS_READ_DISCRETE_INPUTS, MODBUS_READ_HOLDING_REGISTERS, MODBUS_READ_INPUT_REGISTERS}"
    and n: "0 < unat n" "unat n \<le> (if f \<in> {MODBUS_READ_COILS, MODBUS_READ_DISCRETE_INPUTS} then 2000 else 125)"
    and g: "getf d (nat slave) (afn_code f) (unat a mod 65536) (unat n) = (ret, data, d')" and ret: "ret \<noteq> 7"
  shows "\<exists>m'. wow_modbus_m_read_data m slave f a n = Some (if ret = 0 then (0, data, m') else (-1, [], m')) \<and>
    session ops ready ctx m' d' dv"
proof -
  let ?body = "master_request slave f (unat a) (unat n)"
  have "unat (word_of_int slave :: u8) = nat slave"
    using sl by (simp add: unat_u8_of_int)
  with g have g': "getf d (unat (word_of_int slave :: u8)) (afn_code f) (unat a mod 65536) (unat n) = (ret, data, d')"
    by simp
  note spec = spec_read [OF f n, of getf d slave "unat a" ret data d' setf, OF g'] read_request_body [OF f, of slave "unat a" "unat n"]
  have len: "length ?body \<le> 253" by (simp add: master_request_def)
  have m: "master_ok wire_ops (wire_ready ops ready ctx) ctx m" using s by (simp add: session_def)
  show ?thesis
  proof (cases "ret = 0")
    case True
    then have d: "length data = modbus_bytes (afn_code f) (unat n)"
      using device_ok_get [OF dv(3) g] by simp
    have "modbus_slave_spec getf setf d ?body =
        (Some (word_of_int slave # word_of_nat (afn_code f) # word_of_nat (length data) # data), d')"
      using spec(1) True by (simp add: slave_outcome_def d)
    from wire.read_answered [OF m sl f n d wire_answers [OF s dv spec(2) len this]] True
    show ?thesis by (simp add: session_rest)
  next
    case False
    then have "modbus_slave_spec getf setf d ?body =
        (Some (exception_body (word_of_int slave) (word_of_nat (afn_code f)) ret), d')"
      using spec(1) ret by (simp add: slave_outcome_def)
    from wire.read_refused [OF m sl f n(2) wire_answers [OF s dv spec(2) len this]] False
    show ?thesis by (simp add: session_rest)
  qed
qed

text \<open>The writes.\<close>

lemma write_register_over_wire:
  assumes s: "session ops ready ctx m d dv" and sl: "0 < slave" "slave \<le> 247"
    and dv: "get_afn_addr_val dv = Some getf" "set_afn_addr_val dv = Some setf" "device_ok getf setf"
    and pu: "2 \<le> length pu"
    and g: "setf d (nat slave) 6 (unat a mod 65536) (take 2 pu) 1 = (0, d')"
  shows "\<exists>m'. wow_modbus_m_write_data m slave MODBUS_WRITE_SINGLE_REGISTER a n pu = Some (0, m') \<and>
    session ops ready ctx m' d' dv"
proof -
  let ?f = MODBUS_WRITE_SINGLE_REGISTER
  let ?body = "master_request slave ?f (unat a) (be16 (pu ! 0) (pu ! 1))"
  have m: "master_ok wire_ops (wire_ready ops ready ctx) ctx m" using s by (simp add: session_def)
  obtain tid rq where b: "modbus_m_build_write m slave ?f a n pu = Some (Some (tid, rq, header_length ctx - 1 + length ?body))"
    "holds (unat tid) ?body rq" "length rq = 260"
    using wire.write_single_built [OF m, of ?f pu slave a n] pu by auto
  have sl8: "unat (word_of_int slave :: u8) = nat slave"
    using sl by (simp add: unat_u8_of_int)
  have t: "take 2 pu = [pu ! 0, pu ! 1]"
    using pu by (auto simp: numeral_2_eq_2 Suc_le_length_iff)
  have body: "?body = [word_of_int slave, word_of_nat (afn_code ?f), hi8 (unat a), lo8 (unat a), pu ! 0, pu ! 1]"
    by (simp add: master_request_def hi8_be16 lo8_be16)
  have "request_body ?body" by (simp add: request_body_def master_request_def)
  moreover have "length ?body \<le> 253" by (simp add: master_request_def)
  moreover have "modbus_slave_spec getf setf d ?body =
      (Some [word_of_int slave, word_of_nat (afn_code ?f), hi8 (unat a), lo8 (unat a), pu ! 0, pu ! 1], d')"
    unfolding body using g by (simp add: sl8 t Let_def be16_hi8_lo8 slave_outcome_def afn_of_def)
  ultimately have pa: "peer_answers wire_ops (wire_ready ops ready ctx) wire_prompt (\<lambda>w. concat (inbox w)) wire_seen adu
      (link m) ?body [word_of_int slave, word_of_nat (afn_code ?f), hi8 (unat a), lo8 (unat a), pu ! 0, pu ! 1] (d', Some dv)"
    by (rule wire_answers [OF s dv])
  show ?thesis
    using wire.write_answered [OF m sl b _ body _ pa] by (simp add: session_rest master_request_def)
qed

lemma write_multiple_over_wire:
  assumes s: "session ops ready ctx m d dv" and sl: "0 < slave" "slave \<le> 247"
    and dv: "get_afn_addr_val dv = Some getf" "set_afn_addr_val dv = Some setf" "device_ok getf setf"
    and f: "f \<in> {MODBUS_WRITE_MULTIPLE_COILS, MODBUS_WRITE_MULTIPLE_REGISTERS}"
    and n: "0 < unat n" "unat n \<le> (if f = MODBUS_WRITE_MULTIPLE_COILS then 1968 else 123)"
    and pu: "modbus_bytes (afn_code f) (unat n) \<le> length pu"
    and g: "setf d (nat slave) (afn_code f) (unat a mod 65536) (take (modbus_bytes (afn_code f) (unat n)) pu) (unat n) = (0, d')"
  shows "\<exists>m'. wow_modbus_m_write_data m slave f a n pu = Some (0, m') \<and> session ops ready ctx m' d' dv"
proof -
  let ?nb = "modbus_bytes (afn_code f) (unat n)"
  let ?body = "master_request slave f (unat a) (unat n) @ word_of_nat ?nb # take ?nb pu"
  have m: "master_ok wire_ops (wire_ready ops ready ctx) ctx m" using s by (simp add: session_def)
  obtain tid rq where b: "modbus_m_build_write m slave f a n pu = Some (Some (tid, rq, header_length ctx - 1 + length ?body))"
    "holds (unat tid) ?body rq" "length rq = 260" "length ?body \<le> 253"
    using wire.write_multiple_built [OF m f n(2) pu, of slave a] by blast
  have sl8: "unat (word_of_int slave :: u8) = nat slave"
    using sl by (simp add: unat_u8_of_int)
  have fn: "unat (word_of_nat (afn_code f) :: u8) = afn_code f"
    using afn_code_small [of f] by (simp add: unat_of_nat)
  have q: "be16 (hi8 (unat n)) (lo8 (unat n)) = unat n" using n by (simp add: be16_hi8_lo8 split: if_splits)
  have nb: "?nb \<le> 246" using n f by (auto simp: modbus_bytes_def split: if_splits)
  have body: "?body = word_of_int slave # word_of_nat (afn_code f) # hi8 (unat a) # lo8 (unat a) #
      hi8 (unat n) # lo8 (unat n) # word_of_nat ?nb # take ?nb pu"
    by (simp add: master_request_def)
  have cnt: "unat (word_of_nat ?nb :: u8) = ?nb" using nb by (simp add: unat_of_nat)
  have "request_body ?body"
    unfolding body using f pu by (auto simp: request_body_def fn q cnt Let_def)
  moreover have "modbus_slave_spec getf setf d ?body =
      (Some [word_of_int slave, word_of_nat (afn_code f), hi8 (unat a), lo8 (unat a), hi8 (unat n), lo8 (unat n)], d')"
    unfolding body using f n g by (auto simp: sl8 fn q Let_def be16_hi8_lo8 slave_outcome_def)
  ultimately have "peer_answers wire_ops (wire_ready ops ready ctx) wire_prompt (\<lambda>w. concat (inbox w)) wire_seen adu
      (link m) ?body [word_of_int slave, word_of_nat (afn_code f), hi8 (unat a), lo8 (unat a), hi8 (unat n), lo8 (unat n)] (d', Some dv)"
    using b(4) by (intro wire_answers [OF s dv])
  then show ?thesis
    using wire.write_answered [OF m sl b body _, of "(d', Some dv)"] f n by (simp add: session_rest q)
qed

end

section \<open>The two pairs\<close>

interpretation rtu_pair: port_slave "fst proto_port_uart_init" "\<lambda>p. uart_opened p" gt_modbusRtuCtx rtu_adu rtu_holds
  by unfold_locales simp

interpretation tcp_pair: port_slave "fst proto_port_eth_slave_init" "\<lambda>p. client p = Live" gt_modbusTcpCtx tcp_adu tcp_holds
  by unfold_locales simp

definition rtu_session :: "'d wire Modbus_T \<Rightarrow> 'd \<Rightarrow> 'd ModbusSlaverDevCtx \<Rightarrow> bool" where
  "rtu_session = session (fst proto_port_uart_init) (\<lambda>p. uart_opened p) gt_modbusRtuCtx"

definition tcp_session :: "'d wire Modbus_T \<Rightarrow> 'd \<Rightarrow> 'd ModbusSlaverDevCtx \<Rightarrow> bool" where
  "tcp_session = session (fst proto_port_eth_slave_init) (\<lambda>p. client p = Live) gt_modbusTcpCtx"

text \<open>A session starts with a slave opened on the callbacks and a fresh master on the wire to it.\<close>

definition on_wire :: "ModbusCtx_T \<Rightarrow> (proto_port, 'd) ModbusSlaver_T \<Rightarrow> 'd wire Modbus_T" where
  "on_wire ctx sm = new_modbus ctx (wire_ops, \<lparr>peer = sm, inbox = []\<rparr>)"

lemma rtu_session_opened:
  assumes "wow_modbus_s_rtu_open call (Some dv) d = Some (Some sm)"
    and "get_afn_addr_val dv = Some getf" and "set_afn_addr_val dv = Some setf" and "device_ok getf setf"
  shows "rtu_session (on_wire gt_modbusRtuCtx sm) d dv"
  using assms(2-4)
  by (simp add: rtu_opened [OF assms(1)] rtu_session_def session_def on_wire_def master_ok_def wire_ready_def
      slave_ok_def wire_prompt_def wire_seen_def port_prompt_def new_port_def)

lemma tcp_session_opened:
  assumes "wow_modbus_s_tcp_open call (Some dv) d = Some (Some sm)" and "tcp_accepted [] sm = Some sm'"
    and "get_afn_addr_val dv = Some getf" and "set_afn_addr_val dv = Some setf" and "device_ok getf setf"
  shows "tcp_session (on_wire gt_modbusTcpCtx sm') d dv"
  using assms(3-5)
  by (simp add: tcp_opened [OF assms(1,2)] tcp_session_def session_def on_wire_def master_ok_def wire_ready_def
      slave_ok_def wire_prompt_def wire_seen_def port_prompt_def new_port_def)

lemma bank_session_opened:
  "\<exists>m. rtu_session m d bank" "\<exists>m. tcp_session m d bank"
  using rtu_session_opened [OF rtu_open_bank, of bank_get bank_set d]
    tcp_session_opened [OF tcp_open_bank, of d _ bank_get bank_set] bank_ok
  by (auto simp: bank_def tcp_accepted_def eth_link_aceept_cb_def new_port_def)

text \<open>C3. A read through the master returns what the slave's get callback answers: on success the code 0
  and exactly the bytes of the device, on an exception -1 and no data; the session stays usable and the
  device is in the state the callback left. This holds over RTU and over TCP.\<close>

theorem master_reads_device:
  assumes "S \<in> {rtu_session, tcp_session}" and "S m d dv" and "0 < slave" "slave \<le> 247"
    and "get_afn_addr_val dv = Some getf" "set_afn_addr_val dv = Some setf" "device_ok getf setf"
    and "f \<in> {MODBUS_READ_COILS, MODBUS_READ_DISCRETE_INPUTS, MODBUS_READ_HOLDING_REGISTERS, MODBUS_READ_INPUT_REGISTERS}"
    and "0 < unat n" "unat n \<le> (if f \<in> {MODBUS_READ_COILS, MODBUS_READ_DISCRETE_INPUTS} then 2000 else 125)"
    and "getf d (nat slave) (afn_code f) (unat a mod 65536) (unat n) = (ret, data, d')" and "ret \<noteq> 7"
  shows "\<exists>m'. wow_modbus_m_read_data m slave f a n = Some (if ret = 0 then (0, data, m') else (-1, [], m')) \<and> S m' d' dv"
  using assms(1,2) rtu_pair.read_over_wire [OF _ assms(3-12)] tcp_pair.read_over_wire [OF _ assms(3-12)]
  unfolding rtu_session_def tcp_session_def by blast

theorem master_reads_device_witness:
  "\<exists>(m :: (nat \<Rightarrow> nat) wire Modbus_T) m'. wow_modbus_m_read_data m 17 MODBUS_READ_HOLDING_REGISTERS 0x6B 3 = Some (0, [0, 7, 0, 7, 0, 7], m')"
proof -
  obtain m where "rtu_session m (\<lambda>_. 7) bank" using bank_session_opened by blast
  from master_reads_device [where S = rtu_session, OF _ this, where slave = 17 and n = 3 and a = "0x6B" and ret = 0
      and f = MODBUS_READ_HOLDING_REGISTERS and data = "[0, 7, 0, 7, 0, 7]" and d' = "\<lambda>_. 7"
      and getf = bank_get and setf = bank_set] bank_ok
  show ?thesis by (auto simp: bank_def bank_get_def hi8_def lo8_def upt_rec)
qed

text \<open>C4. A multiple write through the master calls the slave's set callback once, with the slave
  address, function, 16-bit address, quantity and exactly the bytes of the quantity; when the callback
  accepts them the call returns 0, over RTU and over TCP.\<close>

theorem master_writes_device:
  assumes "S \<in> {rtu_session, tcp_session}" and "S m d dv" and "0 < slave" "slave \<le> 247"
    and "get_afn_addr_val dv = Some getf" "set_afn_addr_val dv = Some setf" "device_ok getf setf"
    and "f \<in> {MODBUS_WRITE_MULTIPLE_COILS, MODBUS_WRITE_MULTIPLE_REGISTERS}"
    and "0 < unat n" "unat n \<le> (if f = MODBUS_WRITE_MULTIPLE_COILS then 1968 else 123)"
    and "modbus_bytes (afn_code f) (unat n) \<le> length pu"
    and "setf d (nat slave) (afn_code f) (unat a mod 65536) (take (modbus_bytes (afn_code f) (unat n)) pu) (unat n) = (0, d')"
  shows "\<exists>m'. wow_modbus_m_write_data m slave f a n pu = Some (0, m') \<and> S m' d' dv"
  using assms(1,2) rtu_pair.write_multiple_over_wire [OF _ assms(3-12)] tcp_pair.write_multiple_over_wire [OF _ assms(3-12)]
  unfolding rtu_session_def tcp_session_def by blast

theorem master_writes_device_witness:
  "\<exists>m m' d. wow_modbus_m_write_data m 17 MODBUS_WRITE_MULTIPLE_REGISTERS 1 2 [0, 10, 1, 2] = Some (0, m') \<and>
     tcp_session m' d bank \<and> d 2 = 0x0102"
proof -
  obtain m where "tcp_session m (\<lambda>_. 7) bank" using bank_session_opened by blast
  from master_writes_device [where S = tcp_session, OF _ this, where slave = 17 and n = 2 and a = 1
      and f = MODBUS_WRITE_MULTIPLE_REGISTERS and pu = "[0, 10, 1, 2]" and getf = bank_get and setf = bank_set
      and d' = "snd (bank_set (\<lambda>_. 7) 17 16 1 [0, 10, 1, 2] 2)"] bank_ok
  obtain m' where "wow_modbus_m_write_data m 17 MODBUS_WRITE_MULTIPLE_REGISTERS 1 2 [0, 10, 1, 2] = Some (0, m')"
    "tcp_session m' (snd (bank_set (\<lambda>_. 7) 17 16 1 [0, 10, 1, 2] 2)) bank"
    by (auto simp: bank_def bank_set_def modbus_bytes_def afn_of_def)
  moreover have "snd (bank_set (\<lambda>_. 7) 17 16 1 [0, 10, 1, 2] 2) 2 = 0x0102"
    by (simp add: bank_set_def be16_def)
  ultimately show ?thesis by blast
qed

lemma bank_read_back:
  assumes "2 * n \<le> length pu"
  shows "bank_get (snd (bank_set d s 16 a (take (2 * n) pu) n)) s' 3 a n =
    (0, take (2 * n) pu, snd (bank_set d s 16 a (take (2 * n) pu) n))"
proof -
  have "concat (map (\<lambda>i. [hi8 (be16 (xs ! (2 * i)) (xs ! (2 * i + 1))), lo8 (be16 (xs ! (2 * i)) (xs ! (2 * i + 1)))]) [0..<k]) =
      take (2 * k) xs" if "2 * k \<le> length xs" for k and xs :: bytes
    using that
  proof (induction k)
    case (Suc k)
    have "take (2 * Suc k) xs = take (2 * k) xs @ [xs ! (2 * k), xs ! (2 * k + 1)]"
      using Suc.prems by (simp add: take_Suc_conv_app_nth)
    with Suc show ?case by (simp add: hi8_be16 lo8_be16)
  qed simp
  note bytes = this [of n "take (2 * n) pu"]
  let ?v = "\<lambda>i. be16 (take (2 * n) pu ! (2 * i)) (take (2 * n) pu ! (2 * i + 1))"
  have same: "map (\<lambda>i. [hi8 (snd (bank_set d s 16 a (take (2 * n) pu) n) (a + i)), lo8 (snd (bank_set d s 16 a (take (2 * n) pu) n) (a + i))]) [0..<n] =
      map (\<lambda>i. [hi8 (?v i), lo8 (?v i)]) [0..<n]"
    by (rule map_cong) (simp_all add: bank_set_def)
  show ?thesis
    unfolding bank_get_def same using bytes assms by simp
qed

text \<open>C7. Registers written through the master read back: after a multiple write of \<open>n\<close> registers to a
  register bank, a read of the same registers returns the bytes that were written, over RTU and TCP.\<close>

theorem master_reads_back_writes:
  assumes "S \<in> {rtu_session, tcp_session}" and "S m d bank" and "0 < slave" "slave \<le> 247"
    and "0 < unat n" "unat n \<le> 123" and "2 * unat n \<le> length pu"
  shows "\<exists>m' m''. wow_modbus_m_write_data m slave MODBUS_WRITE_MULTIPLE_REGISTERS a n pu = Some (0, m') \<and>
    wow_modbus_m_read_data m' slave MODBUS_READ_HOLDING_REGISTERS a n = Some (0, take (2 * unat n) pu, m'')"
proof -
  let ?d = "snd (bank_set d (nat slave) 16 (unat a mod 65536) (take (2 * unat n) pu) (unat n))"
  let ?read = "\<lambda>m. \<exists>m''. wow_modbus_m_read_data m slave MODBUS_READ_HOLDING_REGISTERS a n = Some (0, take (2 * unat n) pu, m'')"
  have cb: "get_afn_addr_val bank = Some bank_get" "set_afn_addr_val bank = Some bank_set" by (simp_all add: bank_def)
  have nb: "modbus_bytes (afn_code MODBUS_WRITE_MULTIPLE_REGISTERS) k = 2 * k" "modbus_bytes 16 k = 2 * k" for k
    by (simp_all add: modbus_bytes_def afn_of_def)
  have w: "bank_set d (nat slave) (afn_code MODBUS_WRITE_MULTIPLE_REGISTERS) (unat a mod 65536) (take (2 * unat n) pu) (unat n) = (0, ?d)"
    by (simp add: bank_set_def)
  have r: "bank_get ?d (nat slave) (afn_code MODBUS_READ_HOLDING_REGISTERS) (unat a mod 65536) (unat n) =
      (0, take (2 * unat n) pu, ?d)"
    using bank_read_back [OF assms(7)] by simp
  have rtu: ?thesis if s: "rtu_session m d bank"
  proof -
    obtain m' where m': "wow_modbus_m_write_data m slave MODBUS_WRITE_MULTIPLE_REGISTERS a n pu = Some (0, m')"
      "rtu_session m' ?d bank"
      using rtu_pair.write_multiple_over_wire [OF s [unfolded rtu_session_def] assms(3,4) cb bank_ok, of MODBUS_WRITE_MULTIPLE_REGISTERS n pu a ?d]
        assms(5-7) w by (auto simp: rtu_session_def nb)
    moreover have "?read m'"
      using rtu_pair.read_over_wire [where f = MODBUS_READ_HOLDING_REGISTERS and n = n and a = a and ret = 0 and d' = ?d
          and data = "take (2 * unat n) pu", OF m'(2) [unfolded rtu_session_def] assms(3,4) cb bank_ok]
        assms(5,6) r by auto
    ultimately show ?thesis by blast
  qed
  have tcp: ?thesis if s: "tcp_session m d bank"
  proof -
    obtain m' where m': "wow_modbus_m_write_data m slave MODBUS_WRITE_MULTIPLE_REGISTERS a n pu = Some (0, m')"
      "tcp_session m' ?d bank"
      using tcp_pair.write_multiple_over_wire [OF s [unfolded tcp_session_def] assms(3,4) cb bank_ok, of MODBUS_WRITE_MULTIPLE_REGISTERS n pu a ?d]
        assms(5-7) w by (auto simp: tcp_session_def nb)
    moreover have "?read m'"
      using tcp_pair.read_over_wire [where f = MODBUS_READ_HOLDING_REGISTERS and n = n and a = a and ret = 0 and d' = ?d
          and data = "take (2 * unat n) pu", OF m'(2) [unfolded tcp_session_def] assms(3,4) cb bank_ok]
        assms(5,6) r by auto
    ultimately show ?thesis by blast
  qed
  show ?thesis using assms(1,2) rtu tcp by blast
qed

theorem master_reads_back_writes_witness:
  "\<exists>(m :: (nat \<Rightarrow> nat) wire Modbus_T) m' m''. wow_modbus_m_write_data m 1 MODBUS_WRITE_MULTIPLE_REGISTERS 40 2 [1, 2, 3, 4, 5] = Some (0, m') \<and>
     wow_modbus_m_read_data m' 1 MODBUS_READ_HOLDING_REGISTERS 40 2 = Some (0, [1, 2, 3, 4], m'')"
proof -
  obtain m where "rtu_session m (\<lambda>_. 7) bank" using bank_session_opened by blast
  from master_reads_back_writes [where S = rtu_session, OF _ this, where slave = 1 and n = 2 and a = 40 and pu = "[1, 2, 3, 4, 5]"]
  show ?thesis by auto
qed

section \<open>Where the calls are undefined\<close>

text \<open>C10. \<open>wow_modbus_m_write_data\<close> has no limit on the quantity: over RTU, a multiple write of 126 to
  32767 registers writes past the end of the 260-byte request buffer.\<close>

theorem rtu_write_overflow:
  assumes "mb_ctx m = gt_modbusRtuCtx" and "length (req m) = 260" and "0 < slave" "slave \<le> 247"
    and "126 \<le> unat n" "unat n \<le> 32767"
  shows "wow_modbus_m_write_data m slave MODBUS_WRITE_MULTIPLE_REGISTERS a n pu = None"
proof -
  have n2: "unat (n * 2) = 2 * unat n" using assms(5,6) by (simp add: unat_word_ariths)
  show ?thesis
    using assms
    by (auto simp: wow_modbus_m_write_data_def modbus_m_build_write_def Let_def n2 gt_modbusRtuCtx_def
        modbus_rtu_build_request_basis_def modbus_rtu_send_msg_pre_def wrn_def wr_def rdn_def bind_eq_None_conv
        split: option.splits if_splits)
qed

theorem rtu_write_overflow_witness:
  "wow_modbus_m_write_data (new_modbus gt_modbusRtuCtx proto_port_uart_init) 1 MODBUS_WRITE_MULTIPLE_REGISTERS 0 126
     (replicate 252 0) = None"
  by (rule rtu_write_overflow) simp_all

text \<open>Opening a TCP slave whose port is taken (the listen fails) is undefined: the clean-up of
  \<open>wow_modbus_s_tcp_open\<close> closes the server socket a second time.\<close>

theorem tcp_slave_open_undefined:
  assumes "para_given call" "calloc_ok call" "port_calloc_ok call" and "open_ok (link_env call)" and "\<not> listen_ok (link_env call)"
  shows "wow_modbus_s_tcp_open call dv arg = None"
  using assms
  by (simp add: wow_modbus_s_tcp_open_def proto_port_eth_slave_init_def eth_link_server_open_def
      proto_port_eth_slave_exit_def wow_tcp_close_def new_port_def Let_def)

theorem tcp_slave_open_undefined_witness:
  "wow_modbus_s_tcp_open \<lparr>para_given = True, calloc_ok = True, port_calloc_ok = True,
     link_env = \<lparr>open_ok = True, listen_ok = False, accept_cb_ok = True, connect_ok = True\<rparr>, thread_ok = True\<rparr>
     (Some bank) (\<lambda>_. 0) = None"
  by (rule tcp_slave_open_undefined) simp_all

end
