(* ===== verification/Iec104Base.thy ===== *)
theory Iec104Base
  imports Port
begin

text \<open>
  The IEC 60870-5-104 frame format: \<open>iec10x_base.h\<close>, \<open>iec104_base.h\<close> and \<open>wow_iec10x.h\<close>. The
  packed structures the code lays over its buffers are read and written here byte by byte, the
  bit fields least significant bit first and multi-byte fields little endian, as the compiler
  lays them out:

  byte 0 head 0x68, 1 length, 2 to 5 control field, 6 type, 7 number (7 bits) and SQ, 8 and 9
  reason (14 bits, PN, test), 10 and 11 common address, 12 to 14 object address, 15 elements.
\<close>

section \<open>Constants\<close>

definition IEC104_MAX_BUF_LEN :: nat where "IEC104_MAX_BUF_LEN = 256"
definition IEC104_HEAD :: u8 where "IEC104_HEAD = 0x68"

definition IEC104_U_FUNC_STARTDT :: u8 where "IEC104_U_FUNC_STARTDT = 0x07"
definition IEC104_U_FUNC_STOPDT :: u8 where "IEC104_U_FUNC_STOPDT = 0x13"
definition IEC104_U_FUNC_TESTER :: u8 where "IEC104_U_FUNC_TESTER = 0x43"
definition IEC104_U_FUNC_STARTDT_ACK :: u8 where "IEC104_U_FUNC_STARTDT_ACK = 0x0b"
definition IEC104_U_FUNC_STOPDT_ACK :: u8 where "IEC104_U_FUNC_STOPDT_ACK = 0x23"
definition IEC104_U_FUNC_TESTER_ACK :: u8 where "IEC104_U_FUNC_TESTER_ACK = 0x83"

lemmas iec104_u_funcs = IEC104_U_FUNC_STARTDT_def IEC104_U_FUNC_STOPDT_def IEC104_U_FUNC_TESTER_def
  IEC104_U_FUNC_STARTDT_ACK_def IEC104_U_FUNC_STOPDT_ACK_def IEC104_U_FUNC_TESTER_ACK_def

definition IEC10X_M_SP_NA_1 :: nat where "IEC10X_M_SP_NA_1 = 1"
definition IEC10X_M_DP_NA_1 :: nat where "IEC10X_M_DP_NA_1 = 3"
definition IEC10X_M_ME_NA_1 :: nat where "IEC10X_M_ME_NA_1 = 9"
definition IEC10X_M_ME_NC_1 :: nat where "IEC10X_M_ME_NC_1 = 13"
definition IEC10X_M_IT_NA_1 :: nat where "IEC10X_M_IT_NA_1 = 15"
definition IEC10X_M_IT_TA_1 :: nat where "IEC10X_M_IT_TA_1 = 16"
definition IEC10X_M_SP_TB_1 :: nat where "IEC10X_M_SP_TB_1 = 30"
definition IEC10X_M_DP_TB_1 :: nat where "IEC10X_M_DP_TB_1 = 31"
definition IEC10X_M_ME_TD_1 :: nat where "IEC10X_M_ME_TD_1 = 34"
definition IEC10X_M_ME_TF_1 :: nat where "IEC10X_M_ME_TF_1 = 36"
definition IEC10X_C_SC_NA_1 :: nat where "IEC10X_C_SC_NA_1 = 45"
definition IEC10X_C_DC_NA_1 :: nat where "IEC10X_C_DC_NA_1 = 46"
definition IEC10X_C_SE_NA_1 :: nat where "IEC10X_C_SE_NA_1 = 48"
definition IEC10X_C_SE_NC_1 :: nat where "IEC10X_C_SE_NC_1 = 50"
definition IEC10x_M_EI_NA_1 :: nat where "IEC10x_M_EI_NA_1 = 70"
definition IEC10X_C_IC_NA_1 :: nat where "IEC10X_C_IC_NA_1 = 100"
definition IEC10X_C_CI_NA_1 :: nat where "IEC10X_C_CI_NA_1 = 101"
definition IEC10X_C_CS_NA_1 :: nat where "IEC10X_C_CS_NA_1 = 103"

lemmas iec10x_types = IEC10X_M_SP_NA_1_def IEC10X_M_DP_NA_1_def IEC10X_M_IT_TA_1_def IEC10X_M_DP_TB_1_def
  IEC10X_M_ME_NA_1_def IEC10X_M_ME_NC_1_def
  IEC10X_M_IT_NA_1_def IEC10X_M_SP_TB_1_def IEC10X_M_ME_TD_1_def IEC10X_M_ME_TF_1_def
  IEC10X_C_SC_NA_1_def IEC10X_C_DC_NA_1_def IEC10X_C_SE_NA_1_def IEC10X_C_SE_NC_1_def
  IEC10x_M_EI_NA_1_def IEC10X_C_IC_NA_1_def IEC10X_C_CI_NA_1_def IEC10X_C_CS_NA_1_def

definition IEC10X_COT_PER_CYC :: nat where "IEC10X_COT_PER_CYC = 1"
definition IEC10X_COT_SPONT :: nat where "IEC10X_COT_SPONT = 3"
definition IEC10X_COT_INIT :: nat where "IEC10X_COT_INIT = 4"
definition IEC10X_COT_REQ :: nat where "IEC10X_COT_REQ = 5"
definition IEC10X_COT_ACT :: nat where "IEC10X_COT_ACT = 6"
definition IEC10X_COT_ACTCON :: nat where "IEC10X_COT_ACTCON = 7"
definition IEC10X_COT_ACTTERM :: nat where "IEC10X_COT_ACTTERM = 10"
definition IEC10X_COT_INTROGEN :: nat where "IEC10X_COT_INTROGEN = 20"
definition IEC10X_COT_INTRO1 :: nat where "IEC10X_COT_INTRO1 = 21"
definition IEC10X_COT_INTRO2 :: nat where "IEC10X_COT_INTRO2 = 22"
definition IEC10X_COT_REQCOGEN :: nat where "IEC10X_COT_REQCOGEN = 37"

lemmas iec10x_cots = IEC10X_COT_PER_CYC_def IEC10X_COT_REQ_def IEC10X_COT_SPONT_def IEC10X_COT_INIT_def IEC10X_COT_ACT_def
  IEC10X_COT_ACTCON_def IEC10X_COT_ACTTERM_def IEC10X_COT_INTROGEN_def IEC10X_COT_INTRO1_def
  IEC10X_COT_INTRO2_def IEC10X_COT_REQCOGEN_def

definition IEC10X_CIRCLE_TESTER_U :: int where "IEC10X_CIRCLE_TESTER_U = 30 * 1000"
definition IEC10X_TESTER_U_TIMEOUT :: int where "IEC10X_TESTER_U_TIMEOUT = 3 * 1000"
definition IEC10X_CONNECT_TIMEOUT :: int where "IEC10X_CONNECT_TIMEOUT = 3 * 1000"

datatype Iec10xStat_E =
    IEC10X_STA_LINK_INIT | IEC10X_STA_LINK_OPEN | IEC10X_STA_LINK_CONNECT
  | IEC10X_STA_LINK_CONNECT_OK | IEC10X_STA_LINK_DISCONNECT | IEC10X_STA_LINK_IDLE
  | IEC10X_STA_LINK_CLOSE
  | IEC10X_STA_CALL_ALL_IDLE | IEC10X_STA_CALL_ALL_START | IEC10X_STA_CALL_ALL_CONFIRM
  | IEC10X_STA_CALL_ALL_YX | IEC10X_STA_CALL_ALL_YC | IEC10X_STA_CALL_ALL_SUCCESS
  | IEC10X_STA_CALL_ALL_FAILD
  | IEC10X_STA_CALL_PULSE_IDLE | IEC10X_STA_CALL_PULSE_START | IEC10X_STA_CALL_PULSE_CONFIRM
  | IEC10X_STA_CALL_PULSE_YM | IEC10X_STA_CALL_PULSE_SUCCESS | IEC10X_STA_CALL_PULSE_FAILD
  | IEC10X_STA_YK_CMD_IDLE | IEC10X_STA_YK_CMD_START | IEC10X_STA_YK_CMD_CONFIRM
  | IEC10X_STA_YK_CMD_EXEC | IEC10X_STA_YK_CMD_SUCCESS | IEC10X_STA_YK_CMD_FAILD
  | IEC10X_STA_YT_CMD_IDLE | IEC10X_STA_YT_CMD_START | IEC10X_STA_YT_CMD_CONFIRM
  | IEC10X_STA_YT_CMD_EXEC | IEC10X_STA_YT_CMD_SUCCESS | IEC10X_STA_YT_CMD_FAILD
  | IE10X_STA_TESTER_IDLE | IE10X_STA_TESTER_START | IE10X_STA_TESTER_STOP

section \<open>Nodes and values\<close>

datatype DevDataType_E =
    DATA_BOOL | DATA_UINT_8 | DATA_SINT_8 | DATA_UINT_16 | DATA_SINT_16 | DATA_UINT_32
  | DATA_SINT_32 | DATA_UINT_64 | DATA_SINT_64 | DATA_FLOAT | DATA_DOUBLE | DATA_FUNC | DATA_MAX

datatype DevTypeMod_E = DEV_TYPE_YX | DEV_TYPE_YC | DEV_TYPE_YM | DEV_TYPE_YT | DEV_TYPE_YK

record DevNodeInfo_T =
  node_mode :: DevTypeMod_E
  node_addr :: u16
  node_type :: DevDataType_E

text \<open>A value is the 64-bit content of the union \<open>DevValue_U\<close>; its members are the low bytes. The time
  is the seven bytes of \<open>CP56Time2a_T\<close>, the year the low seven bits of the last.\<close>

type_synonym DevValue_U = "64 word"

record DevNodeVal_T =
  val_bits :: DevValue_U
  val_time :: bytes

record DevNodeCtrl_T =
  ctrl_info :: DevNodeInfo_T
  ctrl_value :: DevNodeVal_T

definition cp56_year :: "bytes \<Rightarrow> nat" where
  "cp56_year t = unat (t ! 6) mod 128"

section \<open>Little-endian fields\<close>

definition le_bytes :: "nat \<Rightarrow> nat \<Rightarrow> bytes" where
  "le_bytes k n = map (\<lambda>i. lo8 (n div 256 ^ i)) [0..<k]"

fun le_val :: "bytes \<Rightarrow> nat" where
  "le_val [] = 0"
| "le_val (b # bs) = unat b + 256 * le_val bs"

lemma length_le_bytes [simp]: "length (le_bytes k n) = k"
  by (simp add: le_bytes_def)

lemma le_bytes_Suc: "le_bytes (Suc k) n = lo8 n # le_bytes k (n div 256)"
  by (simp add: le_bytes_def upt_conv_Cons map_Suc_upt [symmetric] div_mult2_eq del: upt_Suc)

lemma le_bytes_0 [simp]: "le_bytes 0 n = []"
  by (simp add: le_bytes_def)

lemma le_bytes_numeral: "le_bytes (numeral k) n = lo8 n # le_bytes (pred_numeral k) (n div 256)"
  unfolding numeral_eq_Suc [of k] by (rule le_bytes_Suc)

lemma le_val_le_bytes [simp]: "le_val (le_bytes k n) = n mod 256 ^ k"
proof (induction k arbitrary: n)
  case 0
  then show ?case by (simp add: le_bytes_def)
next
  case (Suc k)
  have "n mod 256 ^ Suc k = 256 * (n div 256 mod 256 ^ k) + n mod 256"
    by (metis mod_mult2_eq power_Suc)
  with Suc show ?case by (simp add: le_bytes_Suc byte_simps)
qed

lemma le_val_bound: "le_val bs < 256 ^ length bs"
proof (induction bs)
  case (Cons b bs)
  then have "256 * le_val bs + 256 \<le> 256 * 256 ^ length bs" by simp
  moreover have "unat b < 256" by simp
  ultimately show ?case by (simp del: unat_u8_bound)
qed simp

lemma le_bytes_le_val: "le_bytes (length bs) (le_val bs) = bs"
proof (induction bs)
  case (Cons b bs)
  have "lo8 (unat b + 256 * le_val bs) = b"
    by (simp add: word_unat_eq_iff byte_simps)
  with Cons show ?case by (simp add: le_bytes_Suc)
qed (simp add: le_bytes_def)

section \<open>Control fields and the ASDU header\<close>

text \<open>The bit fields take the low bits of what is assigned to them.\<close>

definition ctrl_i :: "int \<Rightarrow> int \<Rightarrow> bytes" where
  "ctrl_i send recv =
     le_bytes 2 (nat (2 * (send mod 32768))) @ le_bytes 2 (nat (2 * (recv mod 32768)))"

definition ctrl_s :: "int \<Rightarrow> bytes" where
  "ctrl_s recv = [1, 0] @ le_bytes 2 (nat (2 * (recv mod 32768)))"

definition ctrl_u :: "u8 \<Rightarrow> bytes" where
  "ctrl_u func = [func, 0, 0, 0]"

definition asdu_head :: "nat \<Rightarrow> nat \<Rightarrow> nat \<Rightarrow> nat \<Rightarrow> u16 \<Rightarrow> bytes" where
  "asdu_head type sq num reason addr =
     [lo8 type, lo8 (num mod 128 + 128 * (sq mod 2))] @ le_bytes 2 (reason mod 16384) @ le_bytes 2 (unat addr)"

text \<open>What the code reads back out of a frame at offset \<open>o\<close> of a buffer.\<close>

definition frame_type1 :: "bytes \<Rightarrow> nat \<Rightarrow> nat option" where
  "frame_type1 buf off = map_option (\<lambda>b. unat b mod 2) (rd buf (off + 2))"

definition frame_type2 :: "bytes \<Rightarrow> nat \<Rightarrow> nat option" where
  "frame_type2 buf off = map_option (\<lambda>b. unat b div 2 mod 2) (rd buf (off + 2))"

definition frame_send_sn :: "bytes \<Rightarrow> nat \<Rightarrow> nat option" where
  "frame_send_sn buf off = map_option (\<lambda>x. le_val x div 2) (rdn buf (off + 2) 2)"

definition frame_recv_sn :: "bytes \<Rightarrow> nat \<Rightarrow> nat option" where
  "frame_recv_sn buf off = map_option (\<lambda>x. le_val x div 2) (rdn buf (off + 4) 2)"

definition asdu_type :: "bytes \<Rightarrow> nat \<Rightarrow> nat option" where
  "asdu_type buf off = map_option unat (rd buf (off + 6))"

definition asdu_num :: "bytes \<Rightarrow> nat \<Rightarrow> nat option" where
  "asdu_num buf off = map_option (\<lambda>b. unat b mod 128) (rd buf (off + 7))"

definition asdu_sq :: "bytes \<Rightarrow> nat \<Rightarrow> nat option" where
  "asdu_sq buf off = map_option (\<lambda>b. unat b div 128) (rd buf (off + 7))"

definition asdu_reason :: "bytes \<Rightarrow> nat \<Rightarrow> nat option" where
  "asdu_reason buf off = map_option (\<lambda>x. le_val x mod 16384) (rdn buf (off + 8) 2)"

definition asdu_addr_field :: "bytes \<Rightarrow> nat \<Rightarrow> nat option" where
  "asdu_addr_field buf off = map_option le_val (rdn buf (off + 10) 2)"

lemmas frame_fields = frame_type1_def frame_type2_def frame_send_sn_def frame_recv_sn_def
  asdu_type_def asdu_num_def asdu_sq_def asdu_reason_def asdu_addr_field_def

end
