(* ===== verification/Iec104Slave.thy ===== *)
theory Iec104Slave
  imports Iec104Base
begin

text \<open>
  The IEC 104 controlled station, \<open>wow_iot/src/protocol/iec10x/wow_iec104s.c\<close>: frame builders
  that fill a 256-byte buffer and send it, the handlers of the received commands, the frame
  parser, the link state machine and the API.

  The application behind the callbacks is a value of type \<open>'d\<close>, its private pointers are of type
  \<open>'p\<close>. A callback that is not set is \<open>None\<close>. Lists of nodes are the lists that the linked lists
  of \<open>wow_slist.c\<close> hold. The sequence counters are C ints that only ever count sent frames; their
  overflow after 2^31 frames is not modelled, and histories of a station (theory \<open>Iec104Invariant\<close>) end before it. Every builder writes into its buffer through the checked stores of
  \<open>Prelude\<close>, so \<open>None\<close> is a write past the 256 bytes or a read past the receive buffer.
\<close>

section \<open>State\<close>

datatype Ie10xServeice_E =
    IEC10X_CLOCK_SYNC | IEC10X_CONNECTED | IEC10X_DISCONNECTED
  | IEC10X_CALL_ALL_SUCCESS | IEC10X_CALL_ALL_FAILD | IEC10X_CALL_PULSE_SUCCESS | IEC10X_CALL_PULSE_FAILD
  | IEC10X_YT_CMD_SUCCESS | IEC10X_YT_CMD_FAILD | IEC10X_YK_CMD_SUCCESS | IEC10X_YK_CMD_FAILD
  | IEC10X_YX_SPON_SUCCESS | IEC10X_YX_SPON_FAILD | IEC10X_YC_SPON_SUCCESS | IEC10X_YC_SPON_FAILD

record Iec10xState_T =
  st_init :: Iec10xStat_E
  st_callall :: Iec10xStat_E
  st_callpulse :: Iec10xStat_E
  st_yt :: Iec10xStat_E
  st_yk :: Iec10xStat_E
  st_test :: Iec10xStat_E

record Iec104Sn_T =
  build_send :: int
  build_recv :: int
  deal_send :: int
  deal_recv :: int

record Iec10xTime_T =
  tm_init :: int
  tm_callall :: int
  tm_callpulse :: int
  tm_yt :: int
  tm_yk :: int
  tm_test :: int
  tm_timer :: int

record ('s, 'p, 'd) iec104s_t =
  asdu_addr :: u16
  stat :: Iec10xState_T
  sn :: Iec104Sn_T
  time :: Iec10xTime_T
  set_val_cb :: "('p \<Rightarrow> DevNodeInfo_T \<Rightarrow> DevValue_U \<Rightarrow> 'd \<Rightarrow> 'd) option"
  get_val_cb :: "('p \<Rightarrow> DevNodeInfo_T \<Rightarrow> 'd \<Rightarrow> int \<times> DevValue_U \<times> 'd) option"
  serv_cb :: "('p \<Rightarrow> Ie10xServeice_E \<Rightarrow> 'd \<Rightarrow> 'd) option"
  set_val_priv :: 'p
  get_val_priv :: 'p
  serv_priv :: 'p
  yx_list :: "DevNodeInfo_T list"
  yc_n_list :: "DevNodeInfo_T list"
  yc_f_list :: "DevNodeInfo_T list"
  ym_list :: "DevNodeInfo_T list"
  link_ctx :: "'s ProtoPortCtx"
  lnk :: 's
  app :: 'd
  clocks :: "bytes list"
  running :: bool
  started :: bool

text \<open>\<open>clocks\<close> collects the times handed to \<open>wow_time_set_cp56\<close>.\<close>

definition slist_peek_by_index :: "'a list \<Rightarrow> nat \<Rightarrow> 'a option" where
  "slist_peek_by_index xs i = (if i < length xs then Some (xs ! i) else None)"

section \<open>Building and sending frames\<close>

text \<open>The common head of an I frame: the number of the frame is taken from \<open>build_send++\<close>.\<close>

definition iec104_s_begin_i ::
  "('s, 'p, 'd) iec104s_t \<Rightarrow> nat \<Rightarrow> nat \<Rightarrow> nat \<Rightarrow> nat \<Rightarrow> bytes \<times> ('s, 'p, 'd) iec104s_t" where
  "iec104_s_begin_i s type sq num reason =
     ([IEC104_HEAD, 0] @ ctrl_i (build_send (sn s)) (build_recv (sn s)) @ asdu_head type sq num reason (asdu_addr s) @
        replicate (IEC104_MAX_BUF_LEN - 12) 0,
      s\<lparr>sn := (sn s)\<lparr>build_send := build_send (sn s) + 1\<rparr>\<rparr>)"

text \<open>\<open>len = ptr - send_buf; Len = len - 2; link_send(send_buf, len)\<close>, with \<open>uint8_t len\<close>.\<close>

definition iec104_s_send :: "('s, 'p, 'd) iec104s_t \<Rightarrow> bytes \<Rightarrow> nat \<Rightarrow> (int \<times> ('s, 'p, 'd) iec104s_t) option" where
  "iec104_s_send s buf ptr =
     do {
       let len = ptr mod 256;
       buf \<leftarrow> wr buf 1 (word_of_nat len - 2);
       msg \<leftarrow> rdn buf 0 len;
       (_, l) \<leftarrow> link_send (link_ctx s) (lnk s) msg;
       Some (0, s\<lparr>lnk := l\<rparr>)
     }"

definition iec104_s_build_init_finsh :: "('s, 'p, 'd) iec104s_t \<Rightarrow> (int \<times> ('s, 'p, 'd) iec104s_t) option" where
  "iec104_s_build_init_finsh s =
     do {
       let (buf, s) = iec104_s_begin_i s IEC10x_M_EI_NA_1 0 1 IEC10X_COT_INIT;
       buf \<leftarrow> wrn buf 12 (le_bytes 3 0);
       buf \<leftarrow> wr buf 15 0;
       iec104_s_send s buf 16
     }"

definition iec104_s_build_call_ack :: "('s, 'p, 'd) iec104s_t \<Rightarrow> u8 \<Rightarrow> (int \<times> ('s, 'p, 'd) iec104s_t) option" where
  "iec104_s_build_call_ack s qoi =
     do {
       let (buf, s) = iec104_s_begin_i s IEC10X_C_IC_NA_1 0 1 IEC10X_COT_ACTCON;
       buf \<leftarrow> wrn buf 12 (le_bytes 3 0);
       buf \<leftarrow> wr buf 15 qoi;
       iec104_s_send s buf 16
     }"

text \<open>The get callback is called with the private pointer of the set callback.\<close>

definition iec104_s_get :: "('s, 'p, 'd) iec104s_t \<Rightarrow> DevNodeInfo_T \<Rightarrow> (int \<times> DevValue_U \<times> ('s, 'p, 'd) iec104s_t) option" where
  "iec104_s_get s node =
     do {
       cb \<leftarrow> get_val_cb s;
       let (ret, v, d) = cb (set_val_priv s) node (app s);
       Some (ret, v, s\<lparr>app := d\<rparr>)
     }"

text \<open>The loops over the nodes; an inner \<open>None\<close> is the early \<open>return -1\<close>.\<close>

fun iec104_s_yx_fill ::
  "DevNodeInfo_T list \<Rightarrow> nat \<Rightarrow> nat \<Rightarrow> ('s, 'p, 'd) iec104s_t \<Rightarrow> bytes \<Rightarrow> nat \<Rightarrow> (('s, 'p, 'd) iec104s_t \<times> (bytes \<times> nat) option) option" where
  "iec104_s_yx_fill nodes index 0 s buf ptr = Some (s, Some (buf, ptr))"
| "iec104_s_yx_fill nodes index (Suc n) s buf ptr =
     (case slist_peek_by_index nodes index of
        None \<Rightarrow> Some (s, None)
      | Some node \<Rightarrow> do {
          (ret, v, s) \<leftarrow> iec104_s_get s node;
          buf \<leftarrow> wr buf ptr (if ret = 0 then ucast v else 0xFF);
          iec104_s_yx_fill nodes (index + 1) n s buf (ptr + 1)
        })"

fun iec104_s_yc_fill ::
  "DevNodeInfo_T list \<Rightarrow> nat \<Rightarrow> nat \<Rightarrow> ('s, 'p, 'd) iec104s_t \<Rightarrow> bytes \<Rightarrow> nat \<Rightarrow> (('s, 'p, 'd) iec104s_t \<times> (bytes \<times> nat) option) option" where
  "iec104_s_yc_fill nodes index 0 s buf ptr = Some (s, Some (buf, ptr))"
| "iec104_s_yc_fill nodes index (Suc n) s buf ptr =
     (case slist_peek_by_index nodes index of
        None \<Rightarrow> Some (s, None)
      | Some node \<Rightarrow> do {
          (ret, v, s) \<leftarrow> iec104_s_get s node;
          let data = (if node_type node = DATA_FLOAT
                      then le_bytes 4 (if ret \<noteq> 0 then 0xFFFFFFFF else unat v)
                      else le_bytes 2 (if ret \<noteq> 0 then 0xFFFF else unat v));
          buf \<leftarrow> wrn buf ptr data;
          buf \<leftarrow> wr buf (ptr + length data) 0;
          iec104_s_yc_fill nodes (index + 1) n s buf (ptr + length data + 1)
        })"

fun iec104_s_ym_fill ::
  "DevNodeInfo_T list \<Rightarrow> nat \<Rightarrow> nat \<Rightarrow> nat \<Rightarrow> ('s, 'p, 'd) iec104s_t \<Rightarrow> bytes \<Rightarrow> nat \<Rightarrow> (('s, 'p, 'd) iec104s_t \<times> (bytes \<times> nat) option) option" where
  "iec104_s_ym_fill nodes index i 0 s buf ptr = Some (s, Some (buf, ptr))"
| "iec104_s_ym_fill nodes index i (Suc n) s buf ptr =
     (case slist_peek_by_index nodes (index + i) of
        None \<Rightarrow> Some (s, None)
      | Some node \<Rightarrow> do {
          (ret, v, s) \<leftarrow> iec104_s_get s node;
          buf \<leftarrow> wrn buf ptr (le_bytes 4 (if ret \<noteq> 0 then 0xFFFFFFFF else unat v));
          buf \<leftarrow> wr buf (ptr + 4) (word_of_nat i);
          iec104_s_ym_fill nodes index (i + 1) n s buf (ptr + 5)
        })"

definition iec104_s_build_yx ::
  "nat \<Rightarrow> DevNodeInfo_T list \<Rightarrow> nat \<Rightarrow> nat \<Rightarrow> ('s, 'p, 'd) iec104s_t \<Rightarrow> (int \<times> ('s, 'p, 'd) iec104s_t) option" where
  "iec104_s_build_yx reason nodes index count s =
     (case slist_peek_by_index nodes index of
        None \<Rightarrow> Some (-1, s)
      | Some node \<Rightarrow> do {
          let (buf, s) = iec104_s_begin_i s IEC10X_M_SP_NA_1 1 count reason;
          buf \<leftarrow> wrn buf 12 (le_bytes 3 (unat (node_addr node)));
          (s, r) \<leftarrow> iec104_s_yx_fill nodes index (count mod 128) s buf 15;
          case r of None \<Rightarrow> Some (-1, s) | Some (buf, ptr) \<Rightarrow> iec104_s_send s buf ptr
        })"

definition iec104_s_build_yc ::
  "nat \<Rightarrow> DevNodeInfo_T list \<Rightarrow> nat \<Rightarrow> nat \<Rightarrow> ('s, 'p, 'd) iec104s_t \<Rightarrow> (int \<times> ('s, 'p, 'd) iec104s_t) option" where
  "iec104_s_build_yc reason nodes index count s =
     (case slist_peek_by_index nodes index of
        None \<Rightarrow> Some (-1, s)
      | Some node \<Rightarrow> do {
          let (buf, s) = iec104_s_begin_i s
             (if node_type node = DATA_FLOAT then IEC10X_M_ME_NC_1 else IEC10X_M_ME_NA_1) 1 count reason;
          buf \<leftarrow> wrn buf 12 (le_bytes 3 (unat (node_addr node)));
          (s, r) \<leftarrow> iec104_s_yc_fill nodes index (count mod 128) s buf 15;
          case r of None \<Rightarrow> Some (-1, s) | Some (buf, ptr) \<Rightarrow> iec104_s_send s buf ptr
        })"

definition iec104_s_build_ym ::
  "nat \<Rightarrow> DevNodeInfo_T list \<Rightarrow> nat \<Rightarrow> nat \<Rightarrow> ('s, 'p, 'd) iec104s_t \<Rightarrow> (int \<times> ('s, 'p, 'd) iec104s_t) option" where
  "iec104_s_build_ym reason nodes index count s =
     (case slist_peek_by_index nodes index of
        None \<Rightarrow> Some (-1, s)
      | Some node \<Rightarrow> do {
          let (buf, s) = iec104_s_begin_i s IEC10X_M_IT_NA_1 1 count reason;
          buf \<leftarrow> wrn buf 12 (le_bytes 3 (unat (node_addr node)));
          (s, r) \<leftarrow> iec104_s_ym_fill nodes index 0 (count mod 128) s buf 15;
          case r of None \<Rightarrow> Some (-1, s) | Some (buf, ptr) \<Rightarrow> iec104_s_send s buf ptr
        })"

text \<open>\<open>IEC10X_INFO_ADDR_SIG_BASE + IEC10X_INFO_ADDR_SIG_TEMP_HX_OFF\<close> is 0x1001.\<close>

definition iec104_s_build_call_finsh :: "('s, 'p, 'd) iec104s_t \<Rightarrow> u8 \<Rightarrow> (int \<times> ('s, 'p, 'd) iec104s_t) option" where
  "iec104_s_build_call_finsh s qoi =
     do {
       let (buf, s) = iec104_s_begin_i s IEC10X_C_IC_NA_1 1 0 IEC10X_COT_ACTTERM;
       buf \<leftarrow> wrn buf 12 (le_bytes 3 (0x0001 + 0x1000));
       buf \<leftarrow> wr buf 15 qoi;
       iec104_s_send s buf 16
     }"

definition iec104_s_send_ctrl :: "('s, 'p, 'd) iec104s_t \<Rightarrow> bytes \<Rightarrow> (int \<times> ('s, 'p, 'd) iec104s_t) option" where
  "iec104_s_send_ctrl s ctrl =
     iec104_s_send s ([IEC104_HEAD, 0] @ ctrl @ replicate (IEC104_MAX_BUF_LEN - 6) 0) 6"

definition iec104_s_build_u :: "('s, 'p, 'd) iec104s_t \<Rightarrow> u8 \<Rightarrow> (int \<times> ('s, 'p, 'd) iec104s_t) option" where
  "iec104_s_build_u s UType =
     (if UType = IEC104_U_FUNC_STARTDT then iec104_s_send_ctrl s (ctrl_u IEC104_U_FUNC_STARTDT)
      else if UType = IEC104_U_FUNC_STOPDT then iec104_s_send_ctrl s (ctrl_u IEC104_U_FUNC_TESTER)
      else if UType = IEC104_U_FUNC_TESTER then iec104_s_send_ctrl s (ctrl_u IEC104_U_FUNC_TESTER)
      else Some (-1, s))"

definition iec104_s_build_u_ack :: "('s, 'p, 'd) iec104s_t \<Rightarrow> u8 \<Rightarrow> (int \<times> ('s, 'p, 'd) iec104s_t) option" where
  "iec104_s_build_u_ack s UType =
     (if UType = IEC104_U_FUNC_STARTDT then iec104_s_send_ctrl s (ctrl_u IEC104_U_FUNC_STARTDT_ACK)
      else if UType = IEC104_U_FUNC_STOPDT then iec104_s_send_ctrl s (ctrl_u IEC104_U_FUNC_STOPDT_ACK)
      else if UType = IEC104_U_FUNC_TESTER then iec104_s_send_ctrl s (ctrl_u IEC104_U_FUNC_TESTER_ACK)
      else Some (-1, s))"

definition iec104_s_build_s_ack :: "('s, 'p, 'd) iec104s_t \<Rightarrow> (int \<times> ('s, 'p, 'd) iec104s_t) option" where
  "iec104_s_build_s_ack s = iec104_s_send_ctrl s (ctrl_s (build_recv (sn s)))"

section \<open>Interrogations\<close>

definition IEC104X_YX_NODE_NUM :: nat where "IEC104X_YX_NODE_NUM = 50"

text \<open>\<open>for (i = 0; i < size; i += count) { count = ...; build(..., i, count); }\<close>; what the builder
  returns is ignored.\<close>

function iec104_s_send_list ::
  "(nat \<Rightarrow> nat \<Rightarrow> 'a \<Rightarrow> (int \<times> 'a) option) \<Rightarrow> nat \<Rightarrow> nat \<Rightarrow> 'a \<Rightarrow> 'a option" where
  "iec104_s_send_list build sz i s =
     (if i < sz then do {
        let count = (if sz - i > IEC104X_YX_NODE_NUM then IEC104X_YX_NODE_NUM else sz - i);
        (_, s) \<leftarrow> build i count s;
        iec104_s_send_list build sz (i + count) s
      } else Some s)"
  by pat_completeness auto
termination
  by (relation "measure (\<lambda>(_, sz, i, _). sz - i)") (auto simp: IEC104X_YX_NODE_NUM_def split: if_splits)

declare iec104_s_send_list.simps [simp del]

definition iec104_s_asdu_call_all ::
  "('s, 'p, 'd) iec104s_t \<Rightarrow> bytes \<Rightarrow> nat \<Rightarrow> (int \<times> ('s, 'p, 'd) iec104s_t) option" where
  "iec104_s_asdu_call_all s rbuf off =
     do {
       qoi \<leftarrow> rd rbuf (off + 15);
       if get_val_cb s = None then Some (-1, s)
       else do {
         addr \<leftarrow> map_option le_val (rdn rbuf (off + 12) 3);
         reason \<leftarrow> asdu_reason rbuf off;
         if addr \<noteq> 0 \<or> reason \<noteq> IEC10X_COT_ACT then Some (-1, s)
         else if unat qoi = IEC10X_COT_INTROGEN
         then do {
           (_, s) \<leftarrow> iec104_s_build_call_ack s qoi;
           s \<leftarrow> iec104_s_send_list (iec104_s_build_yx (unat qoi) (yx_list s)) (length (yx_list s)) 0 s;
           s \<leftarrow> iec104_s_send_list (iec104_s_build_yc (unat qoi) (yc_n_list s)) (length (yc_n_list s)) 0 s;
           s \<leftarrow> iec104_s_send_list (iec104_s_build_yc (unat qoi) (yc_f_list s)) (length (yc_f_list s)) 0 s;
           (_, s) \<leftarrow> iec104_s_build_call_finsh s qoi;
           Some (0, s)
         }
         else if unat qoi = IEC10X_COT_INTRO1 \<or> unat qoi = IEC10X_COT_INTRO2 then Some (0, s)
         else Some (-1, s)
       }
     }"

definition iec104_s_asdu_call_pulse ::
  "('s, 'p, 'd) iec104s_t \<Rightarrow> bytes \<Rightarrow> nat \<Rightarrow> (int \<times> ('s, 'p, 'd) iec104s_t) option" where
  "iec104_s_asdu_call_pulse s rbuf off =
     do {
       qcc \<leftarrow> rd rbuf (off + 15);
       if get_val_cb s = None then Some (-1, s)
       else do {
         addr \<leftarrow> map_option le_val (rdn rbuf (off + 12) 3);
         reason \<leftarrow> asdu_reason rbuf off;
         if addr \<noteq> 0 \<or> reason \<noteq> IEC10X_COT_ACT \<or> qcc AND 0x3F \<noteq> 0x05 then Some (-1, s)
         else do {
           (_, s) \<leftarrow> iec104_s_build_call_ack s qcc;
           s \<leftarrow> iec104_s_send_list (iec104_s_build_ym IEC10X_COT_REQCOGEN (ym_list s)) (length (ym_list s)) 0 s;
           (_, s) \<leftarrow> iec104_s_build_call_finsh s qcc;
           Some (0, s)
         }
       }
     }"

definition iec104_s_asdu_clock ::
  "('s, 'p, 'd) iec104s_t \<Rightarrow> bytes \<Rightarrow> nat \<Rightarrow> (int \<times> ('s, 'p, 'd) iec104s_t) option" where
  "iec104_s_asdu_clock s rbuf off =
     do {
       addr \<leftarrow> rdn rbuf (off + 12) 3;
       if addr \<noteq> [0, 0, 0] then Some (-1, s)
       else do {
         cp56time2a \<leftarrow> rdn rbuf (off + 15) 7;
         reason \<leftarrow> asdu_reason rbuf off;
         if reason = IEC10X_COT_ACT then Some (0, s\<lparr>clocks := clocks s @ [cp56time2a]\<rparr>)
         else Some (0, s)
       }
     }"

section \<open>Commands\<close>

text \<open>\<open>if(iec104s->set_val_cb) iec104s->set_val_cb(iec104s->set_val_priv, &node, &val)\<close>; of the union only
  the member that was assigned is determined, the other bits are zero here.\<close>

definition iec104_s_set :: "('s, 'p, 'd) iec104s_t \<Rightarrow> DevNodeInfo_T \<Rightarrow> DevValue_U \<Rightarrow> ('s, 'p, 'd) iec104s_t" where
  "iec104_s_set s node v =
     (case set_val_cb s of None \<Rightarrow> s | Some cb \<Rightarrow> s\<lparr>app := cb (set_val_priv s) node v (app s)\<rparr>)"

text \<open>The set-point loops: \<open>w\<close> is the width of the value, 2 for the normalised and 4 for the float type.
  With SQ one address is followed by \<open>n\<close> elements, without it every element has its own. An element
  whose qualifier has the select bit is skipped.\<close>

fun iec104_s_yt_sq ::
  "bytes \<Rightarrow> nat \<Rightarrow> DevDataType_E \<Rightarrow> nat \<Rightarrow> nat \<Rightarrow> nat \<Rightarrow> nat \<Rightarrow> ('s, 'p, 'd) iec104s_t \<Rightarrow> ('s, 'p, 'd) iec104s_t option" where
  "iec104_s_yt_sq rbuf w ty addr ptr i 0 s = Some s"
| "iec104_s_yt_sq rbuf w ty addr ptr i (Suc n) s =
     do {
       v \<leftarrow> rdn rbuf ptr w;
       qds \<leftarrow> rd rbuf (ptr + w);
       let node = \<lparr>node_mode = DEV_TYPE_YT, node_addr = word_of_nat (addr mod 65536 + i), node_type = ty\<rparr>;
       iec104_s_yt_sq rbuf w ty addr (ptr + w + 1) (i + 1) n
         (if qds AND 0x80 \<noteq> 0 then s else iec104_s_set s node (word_of_nat (le_val v)))
     }"

fun iec104_s_yt_single ::
  "bytes \<Rightarrow> nat \<Rightarrow> DevDataType_E \<Rightarrow> nat \<Rightarrow> nat \<Rightarrow> ('s, 'p, 'd) iec104s_t \<Rightarrow> ('s, 'p, 'd) iec104s_t option" where
  "iec104_s_yt_single rbuf w ty ptr 0 s = Some s"
| "iec104_s_yt_single rbuf w ty ptr (Suc n) s =
     do {
       addr \<leftarrow> map_option le_val (rdn rbuf ptr 3);
       v \<leftarrow> rdn rbuf (ptr + 3) w;
       qds \<leftarrow> rd rbuf (ptr + 3 + w);
       let node = \<lparr>node_mode = DEV_TYPE_YT, node_addr = word_of_nat addr, node_type = ty\<rparr>;
       iec104_s_yt_single rbuf w ty (ptr + w + 4) n
         (if qds AND 0x80 \<noteq> 0 then s else iec104_s_set s node (word_of_nat (le_val v)))
     }"

definition iec104_s_asdu_yt ::
  "('s, 'p, 'd) iec104s_t \<Rightarrow> bytes \<Rightarrow> nat \<Rightarrow> (int \<times> ('s, 'p, 'd) iec104s_t) option" where
  "iec104_s_asdu_yt s rbuf off =
     do {
       type \<leftarrow> asdu_type rbuf off;
       n \<leftarrow> asdu_num rbuf off;
       sq \<leftarrow> asdu_sq rbuf off;
       reason \<leftarrow> asdu_reason rbuf off;
       let run = (\<lambda>w ty.
         if sq = 1 then do {
           addr \<leftarrow> map_option le_val (rdn rbuf (off + 12) 3);
           s \<leftarrow> iec104_s_yt_sq rbuf w ty addr (off + 15) 0 n s;
           Some (0, s)
         } else do { s \<leftarrow> iec104_s_yt_single rbuf w ty (off + 12) n s; Some (0, s) });
       if reason \<noteq> IEC10X_COT_ACT then Some (-1, s)
       else if type = IEC10X_C_SE_NA_1 then run 2 DATA_SINT_16
       else if type = IEC10X_C_SE_NC_1 then run 4 DATA_FLOAT
       else Some (-1, s)
     }"

definition iec104_s_build_yt_ack ::
  "('s, 'p, 'd) iec104s_t \<Rightarrow> bytes \<Rightarrow> nat \<Rightarrow> (int \<times> ('s, 'p, 'd) iec104s_t) option" where
  "iec104_s_build_yt_ack s rbuf off =
     do {
       type \<leftarrow> asdu_type rbuf off;
       n \<leftarrow> asdu_num rbuf off;
       sq \<leftarrow> asdu_sq rbuf off;
       let (buf, s) = iec104_s_begin_i s type sq n IEC10X_COT_ACTCON;
       let copy = (\<lambda>w.
         if sq = 1 then do {
           addr \<leftarrow> rdn rbuf (off + 12) 3;
           buf \<leftarrow> wrn buf 12 addr;
           data \<leftarrow> rdn rbuf (off + 15) (n * (w + 1));
           buf \<leftarrow> wrn buf 15 data;
           iec104_s_send s buf (15 + n * (w + 1))
         } else do {
           data \<leftarrow> rdn rbuf (off + 12) (n * (w + 4));
           buf \<leftarrow> wrn buf 12 data;
           iec104_s_send s buf (12 + n * (w + 4))
         });
       if type = IEC10X_C_SE_NA_1 then copy 2
       else if type = IEC10X_C_SE_NC_1 then copy 4
       else Some (-1, s)
     }"

text \<open>Single and double commands: \<open>msk\<close> is 0x01 and 0x03.\<close>

fun iec104_s_yk_sq ::
  "bytes \<Rightarrow> u8 \<Rightarrow> nat \<Rightarrow> nat \<Rightarrow> nat \<Rightarrow> nat \<Rightarrow> ('s, 'p, 'd) iec104s_t \<Rightarrow> ('s, 'p, 'd) iec104s_t option" where
  "iec104_s_yk_sq rbuf msk addr ptr i 0 s = Some s"
| "iec104_s_yk_sq rbuf msk addr ptr i (Suc n) s =
     do {
       sco \<leftarrow> rd rbuf ptr;
       let node = \<lparr>node_mode = DEV_TYPE_YK, node_addr = word_of_nat (addr mod 65536 + i), node_type = DATA_SINT_8\<rparr>;
       iec104_s_yk_sq rbuf msk addr (ptr + 1) (i + 1) n
         (if sco AND 0x80 \<noteq> 0 then s else iec104_s_set s node (ucast (sco AND msk)))
     }"

fun iec104_s_yk_single ::
  "bytes \<Rightarrow> u8 \<Rightarrow> nat \<Rightarrow> nat \<Rightarrow> ('s, 'p, 'd) iec104s_t \<Rightarrow> ('s, 'p, 'd) iec104s_t option" where
  "iec104_s_yk_single rbuf msk ptr 0 s = Some s"
| "iec104_s_yk_single rbuf msk ptr (Suc n) s =
     do {
       addr \<leftarrow> map_option le_val (rdn rbuf ptr 3);
       sco \<leftarrow> rd rbuf (ptr + 3);
       let node = \<lparr>node_mode = DEV_TYPE_YK, node_addr = word_of_nat addr, node_type = DATA_SINT_8\<rparr>;
       iec104_s_yk_single rbuf msk (ptr + 4) n
         (if sco AND 0x80 \<noteq> 0 then s else iec104_s_set s node (ucast (sco AND msk)))
     }"

definition iec104_s_asdu_yk ::
  "('s, 'p, 'd) iec104s_t \<Rightarrow> bytes \<Rightarrow> nat \<Rightarrow> (int \<times> ('s, 'p, 'd) iec104s_t) option" where
  "iec104_s_asdu_yk s rbuf off =
     do {
       type \<leftarrow> asdu_type rbuf off;
       n \<leftarrow> asdu_num rbuf off;
       sq \<leftarrow> asdu_sq rbuf off;
       reason \<leftarrow> asdu_reason rbuf off;
       let run = (\<lambda>msk.
         if sq = 1 then do {
           addr \<leftarrow> map_option le_val (rdn rbuf (off + 12) 3);
           s \<leftarrow> iec104_s_yk_sq rbuf msk addr (off + 15) 0 n s;
           Some (0, s)
         } else do { s \<leftarrow> iec104_s_yk_single rbuf msk (off + 12) n s; Some (0, s) });
       if reason \<noteq> IEC10X_COT_ACT then Some (-1, s)
       else if type = IEC10X_C_SC_NA_1 then run 0x01
       else if type = IEC10X_C_DC_NA_1 then run 0x03
       else Some (-1, s)
     }"

definition iec104_s_build_yk_ack ::
  "('s, 'p, 'd) iec104s_t \<Rightarrow> bytes \<Rightarrow> nat \<Rightarrow> (int \<times> ('s, 'p, 'd) iec104s_t) option" where
  "iec104_s_build_yk_ack s rbuf off =
     do {
       type \<leftarrow> asdu_type rbuf off;
       n \<leftarrow> asdu_num rbuf off;
       sq \<leftarrow> asdu_sq rbuf off;
       let (buf, s) = iec104_s_begin_i s type sq n IEC10X_COT_ACTCON;
       if type = IEC10X_C_SC_NA_1 \<or> type = IEC10X_C_DC_NA_1
       then if sq = 1 then do {
           addr \<leftarrow> rdn rbuf (off + 12) 3;
           buf \<leftarrow> wrn buf 12 addr;
           data \<leftarrow> rdn rbuf (off + 15) n;
           buf \<leftarrow> wrn buf 15 data;
           iec104_s_send s buf (15 + n)
         } else do {
           data \<leftarrow> rdn rbuf (off + 12) (n * 4);
           buf \<leftarrow> wrn buf 12 data;
           iec104_s_send s buf (12 + n * 4)
         }
       else Some (-1, s)
     }"

section \<open>Received frames\<close>

definition iec104_s_deal_sn :: "('s, 'p, 'd) iec104s_t \<Rightarrow> nat \<Rightarrow> nat \<Rightarrow> int \<times> ('s, 'p, 'd) iec104s_t" where
  "iec104_s_deal_sn s SendSn RecvSn =
     (0, s\<lparr>sn := (sn s)\<lparr>build_recv := int SendSn + 1, deal_send := int SendSn, deal_recv := int RecvSn\<rparr>\<rparr>)"

definition iec104_s_frame_i_parse ::
  "('s, 'p, 'd) iec104s_t \<Rightarrow> bytes \<Rightarrow> nat \<Rightarrow> (int \<times> ('s, 'p, 'd) iec104s_t) option" where
  "iec104_s_frame_i_parse s rbuf off =
     do {
       SendSn \<leftarrow> frame_send_sn rbuf off;
       RecvSn \<leftarrow> frame_recv_sn rbuf off;
       addr \<leftarrow> asdu_addr_field rbuf off;
       if unat (asdu_addr s) \<noteq> addr then Some (-1, s)
       else do {
         let (_, s) = iec104_s_deal_sn s SendSn RecvSn;
         type \<leftarrow> asdu_type rbuf off;
         if type = IEC10X_C_IC_NA_1 then do { (_, s) \<leftarrow> iec104_s_asdu_call_all s rbuf off; Some (0, s) }
         else if type = IEC10X_C_CI_NA_1 then do { (_, s) \<leftarrow> iec104_s_asdu_call_pulse s rbuf off; Some (0, s) }
         else if type = IEC10X_C_CS_NA_1
         then do {
           (_, s) \<leftarrow> iec104_s_asdu_clock s rbuf off;
           (_, s) \<leftarrow> iec104_s_build_s_ack s;
           Some (0, s)
         }
         else if type = IEC10X_C_SC_NA_1 \<or> type = IEC10X_C_DC_NA_1
         then do {
           (_, s) \<leftarrow> iec104_s_asdu_yk s rbuf off;
           (_, s) \<leftarrow> iec104_s_build_yk_ack s rbuf off;
           Some (0, s)
         }
         else if type = IEC10X_C_SE_NA_1 \<or> type = IEC10X_C_SE_NC_1
         then do {
           (_, s) \<leftarrow> iec104_s_asdu_yt s rbuf off;
           (_, s) \<leftarrow> iec104_s_build_yt_ack s rbuf off;
           Some (0, s)
         }
         else Some (-1, s)
       }
     }"

definition set_init :: "Iec10xStat_E \<Rightarrow> ('s, 'p, 'd) iec104s_t \<Rightarrow> ('s, 'p, 'd) iec104s_t" where
  "set_init st s = s\<lparr>stat := (stat s)\<lparr>st_init := st\<rparr>\<rparr>"

definition set_test :: "Iec10xStat_E \<Rightarrow> ('s, 'p, 'd) iec104s_t \<Rightarrow> ('s, 'p, 'd) iec104s_t" where
  "set_test st s = s\<lparr>stat := (stat s)\<lparr>st_test := st\<rparr>\<rparr>"

definition iec104_s_close :: "('s, 'p, 'd) iec104s_t \<Rightarrow> ('s, 'p, 'd) iec104s_t option" where
  "iec104_s_close s = do { l \<leftarrow> link_close (link_ctx s) (lnk s); Some (s\<lparr>lnk := l\<rparr>) }"

definition iec104_s_frame_u_parse ::
  "('s, 'p, 'd) iec104s_t \<Rightarrow> bytes \<Rightarrow> nat \<Rightarrow> (int \<times> ('s, 'p, 'd) iec104s_t) option" where
  "iec104_s_frame_u_parse s rbuf off =
     do {
       func \<leftarrow> rd rbuf (off + 2);
       if func = IEC104_U_FUNC_STARTDT then Some (0, set_init IEC10X_STA_LINK_CONNECT_OK s)
       else if func = IEC104_U_FUNC_STOPDT
       then do { s \<leftarrow> iec104_s_close s; Some (0, set_init IEC10X_STA_LINK_DISCONNECT s) }
       else if func = IEC104_U_FUNC_TESTER
       then do { (_, s) \<leftarrow> iec104_s_build_u_ack s IEC104_U_FUNC_TESTER; Some (0, s) }
       else if func = IEC104_U_FUNC_TESTER_ACK then Some (0, set_test IE10X_STA_TESTER_STOP s)
       else Some (0, s)
     }"

text \<open>The loop over the frames of one read: \<open>off\<close> is \<open>BufTemp - buf\<close>, and \<open>LenRemain\<close> is \<open>len - off\<close>.
  The length byte is read before the remaining length is checked.\<close>

function iec104_s_frame_parse_loop ::
  "bytes \<Rightarrow> nat \<Rightarrow> nat \<Rightarrow> ('s, 'p, 'd) iec104s_t \<Rightarrow> ('s, 'p, 'd) iec104s_t option" where
  "iec104_s_frame_parse_loop rbuf len off s =
     (if off < len then do {
        head \<leftarrow> rd rbuf off;
        if head \<noteq> IEC104_HEAD then Some s
        else do {
          LenTmp \<leftarrow> map_option (\<lambda>b. unat b + 2) (rd rbuf (off + 1));
          if \<not> len - off \<ge> 6 then Some s
          else do {
            type1 \<leftarrow> frame_type1 rbuf off;
            type2 \<leftarrow> frame_type2 rbuf off;
            (_, s) \<leftarrow> (if type1 = 0 then iec104_s_frame_i_parse s rbuf off
                     else if type2 = 0 then Some (0, s)
                     else iec104_s_frame_u_parse s rbuf off);
            iec104_s_frame_parse_loop rbuf len (off + LenTmp) s
          }
        }
      } else Some s)"
  by pat_completeness auto
termination
  by (relation "measure (\<lambda>(_, len, off, _). len - off)") auto

declare iec104_s_frame_parse_loop.simps [simp del]

definition iec104_s_frame_parse ::
  "('s, 'p, 'd) iec104s_t \<Rightarrow> bytes \<Rightarrow> nat \<Rightarrow> ('s, 'p, 'd) iec104s_t option" where
  "iec104_s_frame_parse s rbuf len = iec104_s_frame_parse_loop rbuf len 0 s"

section \<open>The link state machine and the thread\<close>

definition iec104_s_reset_param :: "('s, 'p, 'd) iec104s_t \<Rightarrow> ('s, 'p, 'd) iec104s_t" where
  "iec104_s_reset_param s =
     s\<lparr>stat := \<lparr>st_init = IEC10X_STA_LINK_INIT, st_callall = IEC10X_STA_CALL_ALL_IDLE,
          st_callpulse = IEC10X_STA_CALL_PULSE_IDLE, st_yt = IEC10X_STA_YT_CMD_IDLE,
          st_yk = IEC10X_STA_YK_CMD_IDLE, st_test = IE10X_STA_TESTER_START\<rparr>,
       sn := \<lparr>build_send = 0, build_recv = 0, deal_send = -1, deal_recv = 0\<rparr>,
       time := (time s)\<lparr>tm_init := 0, tm_callall := 0, tm_callpulse := 0, tm_yt := 0, tm_yk := 0, tm_test := 0\<rparr>\<rparr>"

definition iec104_s_serve :: "('s, 'p, 'd) iec104s_t \<Rightarrow> Ie10xServeice_E \<Rightarrow> ('s, 'p, 'd) iec104s_t" where
  "iec104_s_serve s ev =
     (case serv_cb s of None \<Rightarrow> s | Some cb \<Rightarrow> s\<lparr>app := cb (serv_priv s) ev (app s)\<rparr>)"

text \<open>\<open>t0\<close> and \<open>t1\<close> are what \<open>wow_time_get_msec\<close> answers to the first and to the second switch.\<close>

definition iec104_s_link_step :: "int \<Rightarrow> ('s, 'p, 'd) iec104s_t \<Rightarrow> ('s, 'p, 'd) iec104s_t option" where
  "iec104_s_link_step t0 s =
     (case st_init (stat s) of
        IEC10X_STA_LINK_INIT \<Rightarrow> Some (set_init IEC10X_STA_LINK_OPEN (iec104_s_reset_param s))
      | IEC10X_STA_LINK_CONNECT_OK \<Rightarrow>
          do {
            (_, s) \<leftarrow> iec104_s_build_u_ack s IEC104_U_FUNC_STARTDT;
            (_, s) \<leftarrow> iec104_s_build_init_finsh s;
            let s = set_init IEC10X_STA_LINK_IDLE s;
            let s = s\<lparr>time := (time s)\<lparr>tm_timer := t0\<rparr>\<rparr>;
            Some (iec104_s_serve s IEC10X_CONNECTED)
          }
      | IEC10X_STA_LINK_DISCONNECT \<Rightarrow>
          Some (iec104_s_serve (set_init IEC10X_STA_LINK_INIT s) IEC10X_DISCONNECTED)
      | IEC10X_STA_LINK_CLOSE \<Rightarrow>
          do {
            (_, s) \<leftarrow> iec104_s_build_u s IEC104_U_FUNC_STOPDT;
            Some (set_init IEC10X_STA_LINK_INIT s)
          }
      | _ \<Rightarrow> Some s)"

definition iec104_s_tester_step :: "int \<Rightarrow> ('s, 'p, 'd) iec104s_t \<Rightarrow> ('s, 'p, 'd) iec104s_t option" where
  "iec104_s_tester_step t1 s =
     (case st_test (stat s) of
        IE10X_STA_TESTER_START \<Rightarrow>
          (let s = s\<lparr>time := (time s)\<lparr>tm_test := t1\<rparr>\<rparr> in
           if tm_test (time s) - tm_timer (time s) > IEC10X_CIRCLE_TESTER_U
           then do {
             (_, s) \<leftarrow> iec104_s_build_u s IEC104_U_FUNC_TESTER;
             Some (set_test IE10X_STA_TESTER_IDLE (s\<lparr>time := (time s)\<lparr>tm_timer := tm_test (time s)\<rparr>\<rparr>))
           }
           else Some s)
      | IE10X_STA_TESTER_IDLE \<Rightarrow>
          (if t1 - tm_test (time s) > IEC10X_TESTER_U_TIMEOUT
           then do { s \<leftarrow> iec104_s_close s; Some (set_init IEC10X_STA_LINK_INIT s) }
           else Some s)
      | IE10X_STA_TESTER_STOP \<Rightarrow>
          Some (set_test IE10X_STA_TESTER_START (s\<lparr>time := (time s)\<lparr>tm_test := 0\<rparr>\<rparr>))
      | _ \<Rightarrow> Some s)"

definition iec104_s_state_machine :: "int \<Rightarrow> int \<Rightarrow> ('s, 'p, 'd) iec104s_t \<Rightarrow> ('s, 'p, 'd) iec104s_t option" where
  "iec104_s_state_machine t0 t1 s =
     do {
       s \<leftarrow> iec104_s_link_step t0 s;
       if st_init (stat s) \<noteq> IEC10X_STA_LINK_IDLE then Some s else iec104_s_tester_step t1 s
     }"

text \<open>One round of the thread; \<open>rbuf\<close> is \<open>recv_buf[1500]\<close>, which keeps its old bytes behind a read.\<close>

definition iec104_s_exec_round ::
  "int \<Rightarrow> int \<Rightarrow> bytes \<times> ('s, 'p, 'd) iec104s_t \<Rightarrow> (bytes \<times> ('s, 'p, 'd) iec104s_t) option" where
  "iec104_s_exec_round t0 t1 st =
     (case st of (rbuf, s) \<Rightarrow>
      do {
        s \<leftarrow> iec104_s_state_machine t0 t1 s;
        (rlen, d, l) \<leftarrow> link_recv (link_ctx s) (lnk s) 1500;
        rbuf \<leftarrow> wrn rbuf 0 d;
        let s = s\<lparr>lnk := l\<rparr>;
        if rlen > 0
        then do { s \<leftarrow> iec104_s_frame_parse s rbuf (nat rlen); Some (rbuf, s) }
        else Some (rbuf, s)
      })"

fun iec104_s_exec_thread ::
  "(int \<times> int) list \<Rightarrow> bytes \<times> ('s, 'p, 'd) iec104s_t \<Rightarrow> (bytes \<times> ('s, 'p, 'd) iec104s_t) option" where
  "iec104_s_exec_thread [] st = Some st"
| "iec104_s_exec_thread ((t0, t1) # ts) st =
     (if running (snd st) then do { st \<leftarrow> iec104_s_exec_round t0 t1 st; iec104_s_exec_thread ts st } else Some st)"

end
