(* ===== verification/Iec104Report.thy ===== *)
theory Iec104Report
  imports Iec104Slave
begin

text \<open>
  What the frame builders of the IEC 104 controlled station put on the wire. \<open>i_frame\<close> is the
  information frame of the standard as one byte list; \<open>report\<close> and \<open>chunk_frames\<close> say, without
  buffers and cursors, which bytes the reporting of a list of nodes consists of. The locale \<open>node_fill\<close> is
  the contract of the three loops that fill a buffer with node values; inside the locale
  \<open>duplex_link\<close> of a working link it is proved that the builders send exactly these frames, or
  run past their 256-byte buffer exactly when the report does not fit.
\<close>

section \<open>The frames of the standard\<close>

definition i_frame :: "u16 \<Rightarrow> int \<Rightarrow> int \<Rightarrow> nat \<Rightarrow> nat \<Rightarrow> nat \<Rightarrow> nat \<Rightarrow> bytes \<Rightarrow> bytes" where
  "i_frame addr send recv type sq num cot body =
     [IEC104_HEAD, word_of_nat (10 + length body)] @ ctrl_i send recv @ asdu_head type sq num cot addr @ body"

definition u_frame :: "bytes \<Rightarrow> bytes" where
  "u_frame ctrl = [IEC104_HEAD, 4] @ ctrl"

text \<open>The bytes the application's values become: one pass over the nodes, each asked once, in order.\<close>

fun report ::
  "(nat \<Rightarrow> DevNodeInfo_T \<Rightarrow> int \<Rightarrow> DevValue_U \<Rightarrow> bytes) \<Rightarrow> (DevNodeInfo_T \<Rightarrow> 'd \<Rightarrow> int \<times> DevValue_U \<times> 'd) \<Rightarrow>
   nat \<Rightarrow> DevNodeInfo_T list \<Rightarrow> 'd \<Rightarrow> bytes \<times> 'd" where
  "report enc get i [] d = ([], d)"
| "report enc get i (node # nodes) d =
     (let (ret, v, d) = get node d; (bs, d) = report enc get (i + 1) nodes d in (enc i node ret v @ bs, d))"

definition yx_enc :: "nat \<Rightarrow> DevNodeInfo_T \<Rightarrow> int \<Rightarrow> DevValue_U \<Rightarrow> bytes" where
  "yx_enc i node ret v = [if ret = 0 then ucast v else 0xFF]"

definition yc_enc :: "nat \<Rightarrow> DevNodeInfo_T \<Rightarrow> int \<Rightarrow> DevValue_U \<Rightarrow> bytes" where
  "yc_enc i node ret v =
     (if node_type node = DATA_FLOAT then le_bytes 4 (if ret \<noteq> 0 then 0xFFFFFFFF else unat v)
      else le_bytes 2 (if ret \<noteq> 0 then 0xFFFF else unat v)) @ [0]"

definition ym_enc :: "nat \<Rightarrow> DevNodeInfo_T \<Rightarrow> int \<Rightarrow> DevValue_U \<Rightarrow> bytes" where
  "ym_enc i node ret v = le_bytes 4 (if ret \<noteq> 0 then 0xFFFFFFFF else unat v) @ [word_of_nat i]"

lemma length_report:
  assumes "\<And>i node ret v. node \<in> set nodes \<Longrightarrow> length (enc i node ret v) = w"
  shows "length (fst (report enc get i nodes d)) = w * length nodes"
  using assms by (induction nodes arbitrary: i d) (auto simp: split_beta)

lemma length_encs [simp]:
  "length (yx_enc i node ret v) = 1"
  "length (yc_enc i node ret v) = (if node_type node = DATA_FLOAT then 5 else 3)"
  "length (ym_enc i node ret v) = 5"
  by (simp_all add: yx_enc_def yc_enc_def ym_enc_def)

section \<open>The loops that fill a buffer\<close>

lemma wr_as_wrn: "wr buf p x = wrn buf p [x]"
  by (simp add: wr_def wrn_def upd_conv_take_nth_drop)

lemma wrn_wrn:
  "Option.bind (wrn buf p xs) (\<lambda>b. wrn b (p + length xs) ys) = wrn buf p (xs @ ys)"
  by (auto simp: wrn_def min_def add.assoc add.commute [of "length ys"] simp flip: length_greater_0_conv)

lemma wrn_wrn_k:
  "q = p + length xs \<Longrightarrow>
   Option.bind (wrn buf p xs) (\<lambda>b. Option.bind (wrn b q ys) k) = Option.bind (wrn buf p (xs @ ys)) k"
  using wrn_wrn [of buf p xs ys] by (cases "wrn buf p xs") auto

lemma wrn_wrn_self: "wrn buf p xs = Some b \<Longrightarrow> wrn b (p + length xs) ys = wrn buf p (xs @ ys)"
  using wrn_wrn [of buf p xs ys] by simp

text \<open>The contract: a loop over \<open>n\<close> nodes from position \<open>i\<close>, which appends the encoding of each.\<close>

locale node_fill =
  fixes nodes :: "DevNodeInfo_T list"
    and index :: nat
    and enc :: "nat \<Rightarrow> DevNodeInfo_T \<Rightarrow> int \<Rightarrow> DevValue_U \<Rightarrow> bytes"
    and fill :: "nat \<Rightarrow> nat \<Rightarrow> ('s, 'p, 'd) iec104s_t \<Rightarrow> bytes \<Rightarrow> nat \<Rightarrow>
                 (('s, 'p, 'd) iec104s_t \<times> (bytes \<times> nat) option) option"
  assumes fill_0: "fill i 0 s buf ptr = Some (s, Some (buf, ptr))"
    and fill_Suc: "fill i (Suc n) s buf ptr =
      (case slist_peek_by_index nodes (index + i) of
         None \<Rightarrow> Some (s, None)
       | Some node \<Rightarrow> do {
           (ret, v, s) \<leftarrow> iec104_s_get s node;
           buf \<leftarrow> wrn buf ptr (enc i node ret v);
           fill (i + 1) n s buf (ptr + length (enc i node ret v))
         })"
begin

text \<open>The loop writes the report of its nodes behind the cursor, or leaves the buffer.\<close>

lemma fill_report:
  assumes "get_val_cb s = Some cb" and "index + i + n \<le> length nodes" and "ptr \<le> length buf"
    and "report enc (cb (set_val_priv s)) i (take n (drop (index + i) nodes)) (app s) = (bs, d)"
  shows "fill i n s buf ptr = do { b \<leftarrow> wrn buf ptr bs; Some (s\<lparr>app := d\<rparr>, Some (b, ptr + length bs)) }"
  using assms
proof (induction n arbitrary: i s buf ptr bs)
  case 0
  then show ?case by (simp add: fill_0 wrn_def)
next
  case (Suc n)
  define node where "node = nodes ! (index + i)"
  obtain ret v d1 where g: "cb (set_val_priv s) node (app s) = (ret, v, d1)" by (metis prod_cases3)
  have ns: "take (Suc n) (drop (index + i) nodes) = node # take n (drop (index + Suc i) nodes)"
    using Suc.prems(2) by (simp add: node_def Cons_nth_drop_Suc [symmetric])
  obtain bs1 where r: "report enc (cb (set_val_priv s)) (Suc i) (take n (drop (index + Suc i) nodes)) d1 = (bs1, d)"
    and bs: "bs = enc i node ret v @ bs1"
    using Suc.prems(4) by (auto simp: ns g split: prod.splits)
  have pk: "slist_peek_by_index nodes (index + i) = Some node"
    using Suc.prems(2) by (simp add: slist_peek_by_index_def node_def)
  have gt: "iec104_s_get s node = Some (ret, v, s\<lparr>app := d1\<rparr>)"
    using Suc.prems(1) g by (simp add: iec104_s_get_def)
  show ?case
  proof (cases "wrn buf ptr (enc i node ret v)")
    case None
    then have "wrn buf ptr bs = None" by (simp add: bs wrn_None_iff)
    with None show ?thesis by (simp add: fill_Suc pk gt)
  next
    case (Some b)
    have "length b = length buf" and "ptr + length (enc i node ret v) \<le> length buf"
      using Some by (auto simp: wrn_Some_iff)
    then have "fill (Suc i) n (s\<lparr>app := d1\<rparr>) b (ptr + length (enc i node ret v)) =
        do { b \<leftarrow> wrn b (ptr + length (enc i node ret v)) bs1;
             Some (s\<lparr>app := d1, app := d\<rparr>, Some (b, ptr + length (enc i node ret v) + length bs1)) }"
      using Suc.prems(1,2) r by (intro Suc.IH) simp_all
    then show ?thesis
      by (simp add: fill_Suc pk gt Some bs wrn_wrn_self [OF Some] add.assoc)
  qed
qed

end

interpretation yx_loop: node_fill nodes index yx_enc "\<lambda>i. iec104_s_yx_fill nodes (index + i)" for nodes index
  by unfold_locales (simp_all add: yx_enc_def wr_as_wrn split: option.split)

interpretation yc_loop: node_fill nodes index yc_enc "\<lambda>i. iec104_s_yc_fill nodes (index + i)" for nodes index
  by unfold_locales
     (simp_all add: yc_enc_def wr_as_wrn wrn_wrn_k Let_def add.assoc split: option.split)

interpretation ym_loop: node_fill nodes index ym_enc "iec104_s_ym_fill nodes index" for nodes index
  by unfold_locales (simp_all add: ym_enc_def wr_as_wrn wrn_wrn_k split: option.split)

section \<open>One frame\<close>

lemma length_ctrl [simp]: "length (ctrl_i x y) = 4" "length (ctrl_s y) = 4" "length (ctrl_u u) = 4"
  by (simp_all add: ctrl_i_def ctrl_s_def ctrl_u_def)

lemma length_asdu_head [simp]: "length (asdu_head ty sq num cot addr) = 6"
  by (simp add: asdu_head_def)

lemma wrn_at_end:
  "n = length h \<Longrightarrow> wrn (h @ replicate k 0) n xs =
     (if length xs \<le> k then Some (h @ xs @ replicate (k - length xs) 0) else None)"
  by (simp add: wrn_def)

lemma send_message:
  assumes "ptr = 2 + length rest" and "ptr < 256"
  shows "iec104_s_send s (h # 0 # rest @ z) ptr =
    do { (_, l) \<leftarrow> link_send (link_ctx s) (lnk s) (h # word_of_nat (length rest) # rest); Some (0, s\<lparr>lnk := l\<rparr>) }"
  using assms by (simp add: iec104_s_send_def mem_simps Let_def nth_append)

text \<open>The number of the next information frame is used up.\<close>

definition numbered :: "nat \<Rightarrow> ('s, 'p, 'd) iec104s_t \<Rightarrow> ('s, 'p, 'd) iec104s_t" where
  "numbered n s = s\<lparr>sn := (sn s)\<lparr>build_send := build_send (sn s) + int n\<rparr>\<rparr>"

lemma numbered_fields [simp]:
  "asdu_addr (numbered n s) = asdu_addr s" "link_ctx (numbered n s) = link_ctx s" "lnk (numbered n s) = lnk s"
  "app (numbered n s) = app s" "get_val_cb (numbered n s) = get_val_cb s"
  "set_val_priv (numbered n s) = set_val_priv s" "build_send (sn (numbered n s)) = build_send (sn s) + int n"
  "build_recv (sn (numbered n s)) = build_recv (sn s)"
  by (simp_all add: numbered_def)

lemma numbered_app [simp]: "(numbered n s)\<lparr>app := app s\<rparr> = numbered n s"
  by (simp add: numbered_def)

text \<open>The twelve bytes in front of the objects, while the length is still 0.\<close>

definition i_head :: "('s, 'p, 'd) iec104s_t \<Rightarrow> nat \<Rightarrow> nat \<Rightarrow> nat \<Rightarrow> nat \<Rightarrow> bytes" where
  "i_head s ty sq num cot =
     [IEC104_HEAD, 0] @ ctrl_i (build_send (sn s)) (build_recv (sn s)) @ asdu_head ty sq num cot (asdu_addr s)"

lemma length_i_head [simp]: "length (i_head s ty sq num cot) = 12"
  by (simp add: i_head_def)

lemma begin_i: "iec104_s_begin_i s ty sq num cot = (i_head s ty sq num cot @ replicate 244 0, numbered 1 s)"
  by (simp add: iec104_s_begin_i_def numbered_def i_head_def IEC104_MAX_BUF_LEN_def)

text \<open>The next information frame of a station.\<close>

definition next_frame :: "('s, 'p, 'd) iec104s_t \<Rightarrow> nat \<Rightarrow> nat \<Rightarrow> nat \<Rightarrow> nat \<Rightarrow> bytes \<Rightarrow> bytes" where
  "next_frame s = i_frame (asdu_addr s) (build_send (sn s)) (build_recv (sn s))"

lemma length_next_frame [simp]: "length (next_frame s ty sq num cot body) = 12 + length body"
  by (simp add: next_frame_def i_frame_def)

lemma send_i_frame:
  assumes "length body \<le> 243" and "ptr = 12 + length body"
  shows "iec104_s_send s1 (i_head s ty sq num cot @ body @ z) ptr =
    do { (_, l) \<leftarrow> link_send (link_ctx s1) (lnk s1) (next_frame s ty sq num cot body); Some (0, s1\<lparr>lnk := l\<rparr>) }"
  using send_message [of ptr "ctrl_i (build_send (sn s)) (build_recv (sn s)) @ asdu_head ty sq num cot (asdu_addr s) @ body"
      s1 IEC104_HEAD z] assms
  by (simp add: next_frame_def i_frame_def i_head_def)

section \<open>One report frame\<close>

text \<open>The tail that the three builders share, once their loop is known to write \<open>bs\<close>.\<close>

lemma build_report:
  assumes "\<And>buf. length buf = 256 \<Longrightarrow>
    fill buf = do { b \<leftarrow> wrn buf 15 bs; Some ((numbered 1 s)\<lparr>app := d\<rparr>, Some (b, 15 + length bs)) }"
  shows "do {
      buf \<leftarrow> wrn (i_head s ty 1 count cot @ replicate 244 0) 12 (le_bytes 3 a);
      (s, r) \<leftarrow> fill buf;
      case r of None \<Rightarrow> Some (-1, s) | Some (buf, ptr) \<Rightarrow> iec104_s_send s buf ptr
    } =
    (if length bs \<le> 241
     then iec104_s_send ((numbered 1 s)\<lparr>app := d\<rparr>)
       (i_head s ty 1 count cot @ (le_bytes 3 a @ bs) @ replicate (241 - length bs) 0) (12 + length (le_bytes 3 a @ bs))
     else None)"
proof -
  have 1: "wrn (i_head s ty 1 count cot @ replicate 244 0) 12 (le_bytes 3 a) =
      Some ((i_head s ty 1 count cot @ le_bytes 3 a) @ replicate 241 0)"
    by (simp add: wrn_at_end)
  have 2: "wrn ((i_head s ty 1 count cot @ le_bytes 3 a) @ replicate 241 0) 15 bs =
      (if length bs \<le> 241
       then Some ((i_head s ty 1 count cot @ le_bytes 3 a) @ bs @ replicate (241 - length bs) 0) else None)"
    by (rule wrn_at_end) simp
  show ?thesis unfolding 1 by (simp add: assms 2 [simplified])
qed

text \<open>What a station asks its application.\<close>

definition node_value :: "('s, 'p, 'd) iec104s_t \<Rightarrow> DevNodeInfo_T \<Rightarrow> 'd \<Rightarrow> int \<times> DevValue_U \<times> 'd" where
  "node_value s = the (get_val_cb s) (set_val_priv s)"

text \<open>The bytes of the nodes of one frame, and what the builder does with them.\<close>

definition frame_report ::
  "(nat \<Rightarrow> DevNodeInfo_T \<Rightarrow> int \<Rightarrow> DevValue_U \<Rightarrow> bytes) \<Rightarrow> DevNodeInfo_T list \<Rightarrow> nat \<Rightarrow> nat \<Rightarrow> ('s, 'p, 'd) iec104s_t \<Rightarrow> bytes \<times> 'd" where
  "frame_report enc nodes index count s =
     report enc (the (get_val_cb s) (set_val_priv s)) 0 (take count (drop index nodes)) (app s)"

definition send_report ::
  "nat \<Rightarrow> nat \<Rightarrow> DevNodeInfo_T list \<Rightarrow> nat \<Rightarrow> nat \<Rightarrow> ('s, 'p, 'd) iec104s_t \<Rightarrow> bytes \<times> 'd \<Rightarrow> (int \<times> ('s, 'p, 'd) iec104s_t) option" where
  "send_report ty cot nodes index count s r =
     (case r of (bs, d) \<Rightarrow>
      if length bs \<le> 241
      then iec104_s_send ((numbered 1 s)\<lparr>app := d\<rparr>)
        (i_head s ty 1 count cot @ (le_bytes 3 (unat (node_addr (nodes ! index))) @ bs) @ replicate (241 - length bs) 0)
        (12 + length (le_bytes 3 (unat (node_addr (nodes ! index))) @ bs))
      else None)"

definition yc_type :: "DevNodeInfo_T \<Rightarrow> nat" where
  "yc_type node = (if node_type node = DATA_FLOAT then IEC10X_M_ME_NC_1 else IEC10X_M_ME_NA_1)"

lemma build_yx:
  assumes "get_val_cb s \<noteq> None" and "index + count \<le> length nodes" and "0 < count" and "count < 128"
  shows "iec104_s_build_yx cot nodes index count s =
    send_report IEC10X_M_SP_NA_1 cot nodes index count s (frame_report yx_enc nodes index count s)"
proof -
  obtain bs d where r: "frame_report yx_enc nodes index count s = (bs, d)" by fastforce
  have "iec104_s_yx_fill nodes index count (numbered 1 s) buf 15 =
      do { b \<leftarrow> wrn buf 15 bs; Some ((numbered 1 s)\<lparr>app := d\<rparr>, Some (b, 15 + length bs)) }" if "length buf = 256" for buf
    using yx_loop.fill_report [of "numbered 1 s" "the (get_val_cb s)" index 0 count nodes 15 buf bs d] assms r that
    by (auto simp: frame_report_def)
  from build_report [where fill = "\<lambda>buf. iec104_s_yx_fill nodes index count (numbered 1 s) buf 15", OF this] show ?thesis
    using assms r by (simp add: iec104_s_build_yx_def slist_peek_by_index_def begin_i send_report_def)
qed

lemma build_yc:
  assumes "get_val_cb s \<noteq> None" and "index + count \<le> length nodes" and "0 < count" and "count < 128"
  shows "iec104_s_build_yc cot nodes index count s =
    send_report (yc_type (nodes ! index)) cot nodes index count s (frame_report yc_enc nodes index count s)"
proof -
  obtain bs d where r: "frame_report yc_enc nodes index count s = (bs, d)" by fastforce
  have "iec104_s_yc_fill nodes index count (numbered 1 s) buf 15 =
      do { b \<leftarrow> wrn buf 15 bs; Some ((numbered 1 s)\<lparr>app := d\<rparr>, Some (b, 15 + length bs)) }" if "length buf = 256" for buf
    using yc_loop.fill_report [of "numbered 1 s" "the (get_val_cb s)" index 0 count nodes 15 buf bs d] assms r that
    by (auto simp: frame_report_def)
  from build_report [where fill = "\<lambda>buf. iec104_s_yc_fill nodes index count (numbered 1 s) buf 15", OF this] show ?thesis
    using assms r by (simp add: iec104_s_build_yc_def slist_peek_by_index_def begin_i send_report_def yc_type_def)
qed

lemma build_ym:
  assumes "get_val_cb s \<noteq> None" and "index + count \<le> length nodes" and "0 < count" and "count < 128"
  shows "iec104_s_build_ym cot nodes index count s =
    send_report IEC10X_M_IT_NA_1 cot nodes index count s (frame_report ym_enc nodes index count s)"
proof -
  obtain bs d where r: "frame_report ym_enc nodes index count s = (bs, d)" by fastforce
  have "iec104_s_ym_fill nodes index 0 count (numbered 1 s) buf 15 =
      do { b \<leftarrow> wrn buf 15 bs; Some ((numbered 1 s)\<lparr>app := d\<rparr>, Some (b, 15 + length bs)) }" if "length buf = 256" for buf
    using ym_loop.fill_report [of "numbered 1 s" "the (get_val_cb s)" index 0 count nodes 15 buf bs d] assms r that
    by (auto simp: frame_report_def)
  from build_report [where fill = "\<lambda>buf. iec104_s_ym_fill nodes index 0 count (numbered 1 s) buf 15", OF this] show ?thesis
    using assms r by (simp add: iec104_s_build_ym_def slist_peek_by_index_def begin_i send_report_def)
qed

section \<open>A list of nodes as frames\<close>

text \<open>The list is cut into frames of at most 50 nodes, numbered consecutively from \<open>k\<close>.\<close>

fun chunks :: "'a list \<Rightarrow> 'a list list" where
  "chunks [] = []"
| "chunks (x # xs) = (x # take 49 xs) # chunks (drop 49 xs)"

fun chunk_frames ::
  "(DevNodeInfo_T \<Rightarrow> nat) \<Rightarrow> (nat \<Rightarrow> DevNodeInfo_T \<Rightarrow> int \<Rightarrow> DevValue_U \<Rightarrow> bytes) \<Rightarrow>
   (DevNodeInfo_T \<Rightarrow> 'd \<Rightarrow> int \<times> DevValue_U \<times> 'd) \<Rightarrow> u16 \<Rightarrow> int \<Rightarrow> nat \<Rightarrow> int \<Rightarrow>
   DevNodeInfo_T list list \<Rightarrow> 'd \<Rightarrow> bytes list \<times> 'd" where
  "chunk_frames ty enc get addr recv cot k [] d = ([], d)"
| "chunk_frames ty enc get addr recv cot k (c # cs) d =
     (let (bs, d) = report enc get 0 c d;
          (fs, d) = chunk_frames ty enc get addr recv cot (k + 1) cs d
      in (i_frame addr k recv (ty (hd c)) 1 (length c) cot (le_bytes 3 (unat (node_addr (hd c))) @ bs) # fs, d))"

lemma length_chunk_frames [simp]:
  "length (fst (chunk_frames ty enc get addr recv cot k cs d)) = length cs"
  by (induction cs arbitrary: k d) (auto simp: split_beta)

lemma concat_chunks [simp]: "concat (chunks xs) = xs"
  by (induction xs rule: chunks.induct) auto

lemma chunks_bound: "c \<in> set (chunks xs) \<Longrightarrow> 0 < length c \<and> length c \<le> 50 \<and> length c \<le> length xs"
  by (induction xs rule: chunks.induct) auto

lemma chunks_drop:
  assumes "i < length xs"
  shows "chunks (drop i xs) = take 50 (drop i xs) # chunks (drop (i + 50) xs)"
proof (cases "drop i xs")
  case Nil
  then show ?thesis using assms by simp
next
  case (Cons y ys)
  have "drop (i + 50) xs = drop 50 (drop i xs)" by (simp add: add.commute)
  then show ?thesis using Cons by simp
qed

section \<open>Frames on a working link\<close>

context duplex_link
begin

definition online :: "('s, 'p, 'd) iec104s_t \<Rightarrow> bool" where
  "online s \<longleftrightarrow> link_ctx s = ops \<and> ready (lnk s) \<and> prompt (lnk s)"

text \<open>From \<open>s\<close> to \<open>s'\<close> the station sends the frames \<open>fs\<close>, \<open>n\<close> of them numbered, and its application
  goes to \<open>d\<close>; nothing else changes and what is pending stays.\<close>

definition transmits ::
  "nat \<Rightarrow> ('s, 'p, 'd) iec104s_t \<Rightarrow> ('s, 'p, 'd) iec104s_t \<Rightarrow> 'd \<Rightarrow> bytes list \<Rightarrow> bool" where
  "transmits n s s' d fs \<longleftrightarrow>
     online s' \<and> s' = (numbered n s)\<lparr>lnk := lnk s', app := d\<rparr> \<and>
     sent (lnk s') = sent (lnk s) @ fs \<and> pending (lnk s') = pending (lnk s)"

lemma transmits_trans:
  assumes "transmits n s s1 d fs" and "transmits m s1 s2 e gs"
  shows "transmits (n + m) s s2 e (fs @ gs)"
proof -
  have 1: "s1 = (numbered n s)\<lparr>lnk := lnk s1, app := d\<rparr>"
    and 2: "s2 = (numbered m s1)\<lparr>lnk := lnk s2, app := e\<rparr>"
    using assms by (simp_all add: transmits_def)
  have "s2 = (numbered (n + m) s)\<lparr>lnk := lnk s2, app := e\<rparr>"
    by (subst 2, subst 1) (simp add: numbered_def add.assoc)
  then show ?thesis using assms by (simp add: transmits_def)
qed

lemma transmits_refl: "online s \<Longrightarrow> transmits 0 s s (app s) []"
  by (simp add: transmits_def numbered_def)

lemma transmits_fields:
  assumes "transmits n s s' d fs"
  shows "online s'" and "app s' = d" and "asdu_addr s' = asdu_addr s" and "build_send (sn s') = build_send (sn s) + int n"
    and "build_recv (sn s') = build_recv (sn s)" and "get_val_cb s' = get_val_cb s" and "set_val_priv s' = set_val_priv s"
    and "yx_list s' = yx_list s" and "yc_n_list s' = yc_n_list s" and "yc_f_list s' = yc_f_list s"
    and "ym_list s' = ym_list s" and "stat s' = stat s" and "serv_cb s' = serv_cb s"
    and "sent (lnk s') = sent (lnk s) @ fs" and "pending (lnk s') = pending (lnk s)"
proof -
  have e: "s' = (numbered n s)\<lparr>lnk := lnk s', app := d\<rparr>" and "online s'"
    using assms by (simp_all add: transmits_def)
  then show "online s'" by simp
  show "app s' = d" "asdu_addr s' = asdu_addr s" "build_send (sn s') = build_send (sn s) + int n"
    "build_recv (sn s') = build_recv (sn s)" "get_val_cb s' = get_val_cb s" "set_val_priv s' = set_val_priv s"
    "yx_list s' = yx_list s" "yc_n_list s' = yc_n_list s" "yc_f_list s' = yc_f_list s"
    "ym_list s' = ym_list s" "stat s' = stat s" "serv_cb s' = serv_cb s"
    by (subst e, simp add: numbered_def)+
qed (use assms in \<open>simp_all add: transmits_def\<close>)

lemma send_on_link:
  assumes "online s" and "length msg \<le> 260"
  obtains l where "link_send ops (lnk s) msg = Some (int (length msg), l)" and "ready l" and "prompt l"
    and "sent l = sent (lnk s) @ [msg]" and "pending l = pending (lnk s)"
proof -
  have o: "ready (lnk s)" "prompt (lnk s)" using assms(1) by (simp_all add: online_def)
  obtain ret l where "link_send ops (lnk s) msg = Some (ret, l)" using send_total [OF o(1)] by blast
  with prompt_send [OF o assms(2) this] send_ready [OF o(1) this] show thesis using that by auto
qed

text \<open>Sending what a builder has put together.\<close>

lemma transmits_i_frame:
  assumes "online s" and "length body \<le> 243" and "ptr = 12 + length body"
  shows "\<exists>s'. iec104_s_send ((numbered 1 s)\<lparr>app := d\<rparr>)
        (i_head s ty sq num cot @ body @ z) ptr = Some (0, s') \<and>
      transmits 1 s s' d [next_frame s ty sq num cot body]"
proof -
  obtain l where "link_send ops (lnk s) (next_frame s ty sq num cot body) =
        Some (int (length (next_frame s ty sq num cot body)), l)" and "ready l" and "prompt l"
      and "sent l = sent (lnk s) @ [next_frame s ty sq num cot body]" and "pending l = pending (lnk s)"
    using assms(1,2) by (auto elim!: send_on_link [of s "next_frame s ty sq num cot body"])
  then show ?thesis
    using assms by (simp add: send_i_frame transmits_def online_def)
qed

lemma transmits_ctrl:
  assumes "online s" and "length ctrl = 4"
  shows "\<exists>s'. iec104_s_send_ctrl s ctrl = Some (0, s') \<and> transmits 0 s s' (app s) [u_frame ctrl]"
proof -
  have m: "u_frame ctrl = IEC104_HEAD # word_of_nat (length ctrl) # ctrl"
    using assms(2) by (simp add: u_frame_def)
  obtain l where "link_send ops (lnk s) (u_frame ctrl) = Some (int (length (u_frame ctrl)), l)"
      and "ready l" and "prompt l"
      and "sent l = sent (lnk s) @ [u_frame ctrl]" and "pending l = pending (lnk s)"
    using assms by (auto elim!: send_on_link [of s "u_frame ctrl"] simp: u_frame_def)
  then show ?thesis
    using assms send_message [of 6 ctrl s IEC104_HEAD "replicate 250 0"]
    by (simp add: iec104_s_send_ctrl_def m transmits_def online_def numbered_def IEC104_MAX_BUF_LEN_def)
qed

text \<open>The fixed frames.\<close>

lemma transmits_init_finsh:
  assumes "online s"
  shows "\<exists>s'. iec104_s_build_init_finsh s = Some (0, s') \<and>
    transmits 1 s s' (app s) [next_frame s IEC10x_M_EI_NA_1 0 1 IEC10X_COT_INIT (le_bytes 3 0 @ [0])]"
  using transmits_i_frame [OF assms, of "le_bytes 3 0 @ [0]" 16 "app s" IEC10x_M_EI_NA_1 0 1 IEC10X_COT_INIT "replicate 240 0"]
  by (simp add: iec104_s_build_init_finsh_def begin_i wr_as_wrn wrn_wrn_k wrn_at_end)

lemma transmits_call_ack:
  assumes "online s"
  shows "\<exists>s'. iec104_s_build_call_ack s q = Some (0, s') \<and>
    transmits 1 s s' (app s) [next_frame s IEC10X_C_IC_NA_1 0 1 IEC10X_COT_ACTCON (le_bytes 3 0 @ [q])]"
  using transmits_i_frame [OF assms, of "le_bytes 3 0 @ [q]" 16 "app s" IEC10X_C_IC_NA_1 0 1 IEC10X_COT_ACTCON "replicate 240 0"]
  by (simp add: iec104_s_build_call_ack_def begin_i wr_as_wrn wrn_wrn_k wrn_at_end)

lemma transmits_call_finsh:
  assumes "online s"
  shows "\<exists>s'. iec104_s_build_call_finsh s q = Some (0, s') \<and>
    transmits 1 s s' (app s) [next_frame s IEC10X_C_IC_NA_1 1 0 IEC10X_COT_ACTTERM (le_bytes 3 0x1001 @ [q])]"
  using transmits_i_frame [OF assms, of "le_bytes 3 0x1001 @ [q]" 16 "app s" IEC10X_C_IC_NA_1 1 0 IEC10X_COT_ACTTERM "replicate 240 0"]
  by (simp add: iec104_s_build_call_finsh_def begin_i wr_as_wrn wrn_wrn_k wrn_at_end)

text \<open>Report frames and lists of them; \<open>w\<close> bounds the bytes of one node.\<close>

lemma transmits_report:
  assumes "online s" and "frame_report enc nodes index count s = (bs, d)" and "length bs \<le> 240"
  shows "\<exists>s'. send_report ty cot nodes index count s (bs, d) = Some (0, s') \<and>
    transmits 1 s s' d [next_frame s ty 1 count cot (le_bytes 3 (unat (node_addr (nodes ! index))) @ bs)]"
  using transmits_i_frame [OF assms(1), of "le_bytes 3 (unat (node_addr (nodes ! index))) @ bs"
      "12 + length (le_bytes 3 (unat (node_addr (nodes ! index))) @ bs)" d ty 1 count cot
      "replicate (241 - length bs) 0"] assms(3)
  by (simp add: send_report_def)

lemma transmits_list:
  assumes build: "\<And>i count s. get_val_cb s \<noteq> None \<Longrightarrow> i + count \<le> length nodes \<Longrightarrow> 0 < count \<Longrightarrow> count < 128 \<Longrightarrow>
      build i count s = send_report (ty (nodes ! i)) cot nodes i count s (frame_report enc nodes i count s)"
    and width: "\<And>node i ret v. node \<in> set nodes \<Longrightarrow> length (enc i node ret v) = w"
    and fits: "w * min 50 (length nodes) \<le> 240"
    and "online s" and "get_val_cb s = Some cb"
    and "chunk_frames ty enc (cb (set_val_priv s)) (asdu_addr s) (build_recv (sn s)) cot (build_send (sn s))
           (chunks (drop i nodes)) (app s) = (fs, d)"
  shows "\<exists>s'. iec104_s_send_list build (length nodes) i s = Some s' \<and> transmits (length fs) s s' d fs"
  using assms(4-6)
proof (induction "length nodes - i" arbitrary: i s fs rule: less_induct)
  case less
  show ?case
  proof (cases "i < length nodes")
    case False
    then have "fs = []" and "d = app s" using less.prems(3) by auto
    with False transmits_refl [OF less.prems(1)] show ?thesis
      by (subst iec104_s_send_list.simps) simp
  next
    case True
    define count where "count = min 50 (length nodes - i)"
    define c where "c = take count (drop i nodes)"
    have c: "c = take 50 (drop i nodes)" by (simp add: c_def count_def min_def)
    have count: "(if length nodes - i > 50 then 50 else length nodes - i) = count"
      by (simp add: count_def)
    have cnt: "0 < count" "count \<le> 50" "i + count \<le> length nodes" "length c = count" and hd: "hd c = nodes ! i"
      using True by (auto simp: count_def c_def hd_drop_conv_nth)
    have rest: "drop (i + 50) nodes = drop (i + count) nodes" by (simp add: count_def min_def)
    have ch: "chunks (drop i nodes) = c # chunks (drop (i + count) nodes)"
      by (simp only: chunks_drop [OF True] rest c)
    obtain bs d1 where r: "report enc (cb (set_val_priv s)) 0 c (app s) = (bs, d1)" by fastforce
    obtain gs where g: "chunk_frames ty enc (cb (set_val_priv s)) (asdu_addr s) (build_recv (sn s)) cot
          (build_send (sn s) + 1) (chunks (drop (i + count) nodes)) d1 = (gs, d)"
      and fs: "fs = next_frame s (ty (nodes ! i)) 1 count cot (le_bytes 3 (unat (node_addr (nodes ! i))) @ bs) # gs"
      using less.prems(3) by (auto simp: ch r cnt(4) hd next_frame_def split: prod.splits)
    have "length (fst (report enc (cb (set_val_priv s)) 0 c (app s))) = w * length c"
      by (intro length_report width) (auto simp: c_def dest!: in_set_takeD in_set_dropD)
    moreover have "count \<le> min 50 (length nodes)" using cnt(2,3) by simp
    then have "w * count \<le> 240" using fits by (meson le_trans mult_le_mono2)
    ultimately have "length bs \<le> 240" by (simp add: r cnt)
    moreover have f: "frame_report enc nodes i count s = (bs, d1)"
      using r less.prems(2) by (simp add: frame_report_def c_def)
    ultimately obtain s1 where s1: "build i count s = Some (0, s1)"
        and t1: "transmits 1 s s1 d1 [next_frame s (ty (nodes ! i)) 1 count cot (le_bytes 3 (unat (node_addr (nodes ! i))) @ bs)]"
      using transmits_report [OF less.prems(1) f, of "ty (nodes ! i)" cot] build [of s i count] less.prems(2) cnt by auto
    note f1 = transmits_fields [OF t1]
    have "chunk_frames ty enc (cb (set_val_priv s1)) (asdu_addr s1) (build_recv (sn s1)) cot (build_send (sn s1))
        (chunks (drop (i + count) nodes)) (app s1) = (gs, d)"
      using g f1 by simp
    moreover have "length nodes - (i + count) < length nodes - i" using True cnt(1) by linarith
    ultimately obtain s2 where s2: "iec104_s_send_list build (length nodes) (i + count) s1 = Some s2"
        and t2: "transmits (length gs) s1 s2 d gs"
      using less.hyps [of "i + count" s1 gs] f1(1,6) less.prems(2) by auto
    have "iec104_s_send_list build (length nodes) i s = Some s2"
      unfolding iec104_s_send_list.simps [of build "length nodes" i s] IEC104X_YX_NODE_NUM_def count
      by (simp add: True s1 s2)
    moreover have "transmits (length fs) s s2 d fs"
      using transmits_trans [OF t1 t2] by (simp add: fs)
    ultimately show ?thesis by blast
  qed
qed

text \<open>The four kinds of lists. One byte or three per node always fit; five fit up to 48 nodes.\<close>

lemma transmits_yx:
  assumes "online s" and "get_val_cb s \<noteq> None"
    and "chunk_frames (\<lambda>_. IEC10X_M_SP_NA_1) yx_enc (node_value s) (asdu_addr s) (build_recv (sn s)) cot
           (build_send (sn s)) (chunks nodes) (app s) = (fs, d)"
  shows "\<exists>s'. iec104_s_send_list (iec104_s_build_yx cot nodes) (length nodes) 0 s = Some s' \<and>
    transmits (length fs) s s' d fs"
  using assms by (intro transmits_list [OF build_yx, where w = 1]) (auto simp: node_value_def)

lemma transmits_yc_n:
  assumes "online s" and "get_val_cb s \<noteq> None" and "\<forall>n \<in> set nodes. node_type n \<noteq> DATA_FLOAT"
    and "chunk_frames yc_type yc_enc (node_value s) (asdu_addr s) (build_recv (sn s)) cot
           (build_send (sn s)) (chunks nodes) (app s) = (fs, d)"
  shows "\<exists>s'. iec104_s_send_list (iec104_s_build_yc cot nodes) (length nodes) 0 s = Some s' \<and>
    transmits (length fs) s s' d fs"
  using assms by (intro transmits_list [OF build_yc, where w = 3]) (auto simp: node_value_def)

lemma transmits_yc_f:
  assumes "online s" and "get_val_cb s \<noteq> None" and "\<forall>n \<in> set nodes. node_type n = DATA_FLOAT"
    and "length nodes \<le> 48"
    and "chunk_frames yc_type yc_enc (node_value s) (asdu_addr s) (build_recv (sn s)) cot
           (build_send (sn s)) (chunks nodes) (app s) = (fs, d)"
  shows "\<exists>s'. iec104_s_send_list (iec104_s_build_yc cot nodes) (length nodes) 0 s = Some s' \<and>
    transmits (length fs) s s' d fs"
  using assms by (intro transmits_list [OF build_yc, where w = 5]) (auto simp: node_value_def)

lemma transmits_ym:
  assumes "online s" and "get_val_cb s \<noteq> None" and "length nodes \<le> 48"
    and "chunk_frames (\<lambda>_. IEC10X_M_IT_NA_1) ym_enc (node_value s) (asdu_addr s) (build_recv (sn s)) cot
           (build_send (sn s)) (chunks nodes) (app s) = (fs, d)"
  shows "\<exists>s'. iec104_s_send_list (iec104_s_build_ym cot nodes) (length nodes) 0 s = Some s' \<and>
    transmits (length fs) s s' d fs"
  using assms by (intro transmits_list [OF build_ym, where w = 5]) (auto simp: node_value_def)

end

text \<open>A first chunk of 49 or more five-byte nodes does not fit, whatever the link does.\<close>

lemma send_list_overflow:
  assumes build: "\<And>i count s. get_val_cb s \<noteq> None \<Longrightarrow> i + count \<le> length nodes \<Longrightarrow> 0 < count \<Longrightarrow> count < 128 \<Longrightarrow>
      build i count s = send_report (ty (nodes ! i)) cot nodes i count s (frame_report enc nodes i count s)"
    and width: "\<And>node i ret v. node \<in> set nodes \<Longrightarrow> length (enc i node ret v) = 5"
    and "49 \<le> length nodes" and "get_val_cb s \<noteq> None"
  shows "iec104_s_send_list build (length nodes) 0 s = None"
proof -
  define count where "count = (if length nodes > 50 then 50 else length nodes)"
  have cnt: "49 \<le> count" "count \<le> length nodes" "count < 128" using assms(3) by (auto simp: count_def)
  obtain bs d where r: "frame_report enc nodes 0 count s = (bs, d)" by fastforce
  have "length (fst (frame_report enc nodes 0 count s)) = 5 * length (take count nodes)"
    unfolding frame_report_def drop_0 by (intro length_report width) (auto dest: in_set_takeD)
  then have "245 \<le> length bs" using cnt by (simp add: r)
  then have "build 0 count s = None"
    using build [of s 0 count] assms(4) cnt by (simp add: r send_report_def)
  then show ?thesis
    unfolding iec104_s_send_list.simps [of build "length nodes" 0 s] IEC104X_YX_NODE_NUM_def
    using cnt by (auto simp: count_def split: if_splits)
qed

end
