(* ===== verification/Errno.thy ===== *)
theory Errno
  imports Main
begin

text \<open>
  The error codes of \<open>wow_errno.h\<close> and \<open>wow_iot_errno.h\<close> that the modelled code returns. Most
  functions return the negated code, some the code itself, and \<open>0\<close> for success.
\<close>

definition WOW_SUCCESS :: int where "WOW_SUCCESS = 0"
definition WOW_FAILED :: int where "WOW_FAILED = 1"

definition PARAM_INPUT_STRUCT_IS_NULL :: int where "PARAM_INPUT_STRUCT_IS_NULL = 100"
definition PARAM_INPUT_FUNC_IS_NULL :: int where "PARAM_INPUT_FUNC_IS_NULL = 101"
definition PARAM_INPUT_DATA_IS_NULL :: int where "PARAM_INPUT_DATA_IS_NULL = 102"
definition PARAM_INPUT_DATA_ERROR :: int where "PARAM_INPUT_DATA_ERROR = 103"
definition PARAM_INPUT_ARG_INVALID :: int where "PARAM_INPUT_ARG_INVALID = 104"
definition PARAM_INPUT_SIZE_IS_SMALL :: int where "PARAM_INPUT_SIZE_IS_SMALL = 106"
definition PARAM_INPUT_SIZE_IS_BIG :: int where "PARAM_INPUT_SIZE_IS_BIG = 107"
definition SYSTEM_MALLOC_FAILED :: int where "SYSTEM_MALLOC_FAILED = 200"

definition RING_BUFFER_NO_SPACE :: int where "RING_BUFFER_NO_SPACE = 10200"
definition BYTE_ARRAY_NOT_FIND :: int where "BYTE_ARRAY_NOT_FIND = 10300"
definition SLIST_CREATE_FAILED :: int where "SLIST_CREATE_FAILED = 10600"
definition SLIST_INSERT_FAILED :: int where "SLIST_INSERT_FAILED = 10601"
definition SLIST_NO_ENTRY :: int where "SLIST_NO_ENTRY = 10602"
definition SLIST_NOT_MATCH :: int where "SLIST_NOT_MATCH = 10603"
definition THREAD_CREATE_FAILED :: int where "THREAD_CREATE_FAILED = 10800"

definition PROTO_LINK_OPEN_ERROR :: int where "PROTO_LINK_OPEN_ERROR = 30302"
definition IEC10X_STATUS_ERROR :: int where "IEC10X_STATUS_ERROR = 30700"

lemmas errnos = WOW_SUCCESS_def WOW_FAILED_def PARAM_INPUT_STRUCT_IS_NULL_def
  PARAM_INPUT_FUNC_IS_NULL_def PARAM_INPUT_DATA_IS_NULL_def PARAM_INPUT_DATA_ERROR_def
  PARAM_INPUT_ARG_INVALID_def PARAM_INPUT_SIZE_IS_SMALL_def PARAM_INPUT_SIZE_IS_BIG_def SYSTEM_MALLOC_FAILED_def
  RING_BUFFER_NO_SPACE_def BYTE_ARRAY_NOT_FIND_def SLIST_CREATE_FAILED_def SLIST_INSERT_FAILED_def SLIST_NO_ENTRY_def
  SLIST_NOT_MATCH_def THREAD_CREATE_FAILED_def PROTO_LINK_OPEN_ERROR_def IEC10X_STATUS_ERROR_def

end
