(* ===== verification/Iec104Api.thy ===== *)
theory Iec104Api
  imports Iec104Slave Errno
begin

text \<open>
  The calls an application makes on the IEC 104 controlled station: creation, configuration,
  start and exit, and the spontaneous transmissions. \<open>this\<close> pointers are taken to be valid; the
  other pointer arguments are \<open>option\<close>s whose \<open>None\<close> is the null pointer.
\<close>

section \<open>Life cycle\<close>

text \<open>\<open>ptEthPar\<close> says whether the parameter block, which goes to the port, is there.
  \<open>CALLOC\<close> clears the structure. \<open>mallocs\<close> answers the five allocations of the station and its lists,
  \<open>port_ok\<close> that of the port; any failure frees the station and returns \<open>NULL\<close>. The private
  pointers are \<open>null\<close> until they are set.\<close>

definition wow_iec104_s_init ::
  "u16 \<Rightarrow> bool \<Rightarrow> bool list \<Rightarrow> bool \<Rightarrow> 'p \<Rightarrow> 'd \<Rightarrow> (proto_port, 'p, 'd) iec104s_t option" where
  "wow_iec104_s_init u16Addr ptEthPar mallocs port_ok null d =
     (if \<not> (ptEthPar \<and> length mallocs = 5 \<and> list_all id mallocs \<and> port_ok) then None
      else
        (let s = \<lparr>asdu_addr = u16Addr,
           stat = \<lparr>st_init = IEC10X_STA_LINK_INIT, st_callall = IEC10X_STA_LINK_INIT,
             st_callpulse = IEC10X_STA_LINK_INIT, st_yt = IEC10X_STA_LINK_INIT,
             st_yk = IEC10X_STA_LINK_INIT, st_test = IEC10X_STA_LINK_INIT\<rparr>,
           sn = \<lparr>build_send = 0, build_recv = 0, deal_send = 0, deal_recv = 0\<rparr>,
           time = \<lparr>tm_init = 0, tm_callall = 0, tm_callpulse = 0, tm_yt = 0, tm_yk = 0,
             tm_test = 0, tm_timer = 0\<rparr>,
           set_val_cb = None, get_val_cb = None, serv_cb = None,
           set_val_priv = null, get_val_priv = null, serv_priv = null,
           yx_list = [], yc_n_list = [], yc_f_list = [], ym_list = [],
           link_ctx = fst proto_port_eth_slave_init,
           lnk = snd (proto_port_eth_set_connected_cb (snd proto_port_eth_slave_init) True),
           app = d, clocks = [], running = False, started = False\<rparr>;
          s = iec104_s_reset_param s
         in Some (s\<lparr>running := True\<rparr>)))"

text \<open>The exit waits for the thread's last signal; without a thread nobody sends it and the call does not
  return (\<open>None\<close>). The result is what becomes of the two sockets.\<close>

definition wow_iec104_s_exit :: "(proto_port, 'p, 'd) iec104s_t \<Rightarrow> (handle \<times> handle) option" where
  "wow_iec104_s_exit s =
     (if \<not> started s then None else proto_port_eth_slave_exit (lnk s))"

definition wow_iec104_s_start ::
  "(proto_port, 'p, 'd) iec104s_t \<Rightarrow> open_env \<Rightarrow> bool \<Rightarrow> (int \<times> (proto_port, 'p, 'd) iec104s_t) option" where
  "wow_iec104_s_start s env thread_ok =
     do {
       (ret, l) \<leftarrow> link_open (link_ctx s) env (lnk s);
       let s = s\<lparr>lnk := l\<rparr>;
       if ret \<noteq> 0 then Some (- PROTO_LINK_OPEN_ERROR, s)
       else if \<not> thread_ok then Some (- THREAD_CREATE_FAILED, s)
       else Some (0, s\<lparr>started := True\<rparr>)
     }"

text \<open>A client connects: the accept callback of the port runs, and through it \<open>iec104_s_reset_param\<close>.\<close>

definition iec104_s_connected ::
  "(proto_port, 'p, 'd) iec104s_t \<Rightarrow> bytes list \<Rightarrow> (proto_port, 'p, 'd) iec104s_t option" where
  "iec104_s_connected s incoming =
     do {
       l \<leftarrow> eth_link_aceept_cb (lnk s) incoming;
       let s = (if conn (lnk s) then iec104_s_reset_param s else s);
       Some (s\<lparr>lnk := l\<rparr>)
     }"

section \<open>Configuration\<close>

text \<open>\<open>mallocs\<close> answers the allocations of the list entries; when it is used up memory is exhausted.
  Nodes of the other modes are ignored.\<close>

fun iec104_s_add_nodes ::
  "bool list \<Rightarrow> DevNodeInfo_T list \<Rightarrow> ('s, 'p, 'd) iec104s_t \<Rightarrow> int \<times> ('s, 'p, 'd) iec104s_t" where
  "iec104_s_add_nodes mallocs [] s = (0, s)"
| "iec104_s_add_nodes mallocs (node # nodes) s =
     (if node_mode node = DEV_TYPE_YT \<or> node_mode node = DEV_TYPE_YK
      then iec104_s_add_nodes mallocs nodes s
      else (case mallocs of
          True # mallocs \<Rightarrow>
            iec104_s_add_nodes mallocs nodes
              (if node_mode node = DEV_TYPE_YX then s\<lparr>yx_list := yx_list s @ [node]\<rparr>
               else if node_mode node = DEV_TYPE_YM then s\<lparr>ym_list := ym_list s @ [node]\<rparr>
               else if node_type node = DATA_FLOAT then s\<lparr>yc_f_list := yc_f_list s @ [node]\<rparr>
               else s\<lparr>yc_n_list := yc_n_list s @ [node]\<rparr>)
        | _ \<Rightarrow> (- SLIST_INSERT_FAILED, s)))"

definition wow_iec104_s_set_node_info ::
  "bool list \<Rightarrow> ('s, 'p, 'd) iec104s_t \<Rightarrow> DevNodeInfo_T list \<Rightarrow> int \<times> ('s, 'p, 'd) iec104s_t" where
  "wow_iec104_s_set_node_info mallocs s ptNode = iec104_s_add_nodes mallocs ptNode s"

definition wow_iec104_s_set_value_handle ::
  "('s, 'p, 'd) iec104s_t \<Rightarrow> ('p \<Rightarrow> DevNodeInfo_T \<Rightarrow> DevValue_U \<Rightarrow> 'd \<Rightarrow> 'd) option \<Rightarrow> 'p \<Rightarrow> int \<times> ('s, 'p, 'd) iec104s_t" where
  "wow_iec104_s_set_value_handle s fCallBack pArg =
     (if fCallBack = None then (- PARAM_INPUT_FUNC_IS_NULL, s)
      else (0, s\<lparr>set_val_cb := fCallBack, set_val_priv := pArg\<rparr>))"

definition wow_iec104_s_get_value_handle ::
  "('s, 'p, 'd) iec104s_t \<Rightarrow> ('p \<Rightarrow> DevNodeInfo_T \<Rightarrow> 'd \<Rightarrow> int \<times> DevValue_U \<times> 'd) option \<Rightarrow> 'p \<Rightarrow> int \<times> ('s, 'p, 'd) iec104s_t" where
  "wow_iec104_s_get_value_handle s fCallBack pArg =
     (if fCallBack = None then (- PARAM_INPUT_FUNC_IS_NULL, s)
      else (0, s\<lparr>get_val_cb := fCallBack, get_val_priv := pArg\<rparr>))"

definition wow_iec104_s_set_service_handle ::
  "('s, 'p, 'd) iec104s_t \<Rightarrow> ('p \<Rightarrow> Ie10xServeice_E \<Rightarrow> 'd \<Rightarrow> 'd) option \<Rightarrow> 'p \<Rightarrow> int \<times> ('s, 'p, 'd) iec104s_t" where
  "wow_iec104_s_set_service_handle s fCallBack pArg =
     (if fCallBack = None then (- PARAM_INPUT_FUNC_IS_NULL, s)
      else (0, s\<lparr>serv_cb := fCallBack, serv_priv := pArg\<rparr>))"

section \<open>Spontaneous transmission\<close>

text \<open>One information object of each kind, as the loops write it. In the measured values type and time stamp are
  those of the first node; in the single points every node decides for itself whether its time is sent.\<close>

definition iec104_s_yx_object :: "DevNodeCtrl_T \<Rightarrow> bytes" where
  "iec104_s_yx_object node =
     le_bytes 3 (unat (node_addr (ctrl_info node))) @ [ucast (val_bits (ctrl_value node))] @
     (if cp56_year (val_time (ctrl_value node)) > 0 then take 7 (val_time (ctrl_value node)) else [])"

definition iec104_s_yc_object :: "DevNodeCtrl_T \<Rightarrow> DevNodeCtrl_T \<Rightarrow> bytes" where
  "iec104_s_yc_object first node =
     le_bytes 3 (unat (node_addr (ctrl_info node))) @
     (if node_type (ctrl_info first) = DATA_FLOAT
      then le_bytes 4 (unat (val_bits (ctrl_value node))) else le_bytes 2 (unat (val_bits (ctrl_value node)))) @
     [0] @
     (if cp56_year (val_time (ctrl_value first)) > 0 then take 7 (val_time (ctrl_value node)) else [])"

fun iec104_s_spon_fill ::
  "(DevNodeCtrl_T \<Rightarrow> bytes) \<Rightarrow> DevNodeCtrl_T list \<Rightarrow> nat \<Rightarrow> nat \<Rightarrow> bytes \<Rightarrow> nat \<Rightarrow> (bytes \<times> nat) option" where
  "iec104_s_spon_fill obj ptNode i 0 buf ptr = Some (buf, ptr)"
| "iec104_s_spon_fill obj ptNode i (Suc n) buf ptr =
     do {
       node \<leftarrow> rd ptNode i;
       buf \<leftarrow> wrn buf ptr (obj node);
       iec104_s_spon_fill obj ptNode (i + 1) n buf (ptr + length (obj node))
     }"

definition wow_iec104_s_build_yx_spon ::
  "('s, 'p, 'd) iec104s_t \<Rightarrow> DevNodeCtrl_T list option \<Rightarrow> u8 \<Rightarrow> (int \<times> ('s, 'p, 'd) iec104s_t) option" where
  "wow_iec104_s_build_yx_spon s ptNode u8Count =
     (case ptNode of
        None \<Rightarrow> Some (- PARAM_INPUT_STRUCT_IS_NULL, s)
      | Some nodes \<Rightarrow>
          if \<not> unat u8Count > 0 then Some (- PARAM_INPUT_STRUCT_IS_NULL, s)
          else if st_init (stat s) \<noteq> IEC10X_STA_LINK_IDLE then Some (- IEC10X_STATUS_ERROR, s)
          else do {
            first \<leftarrow> rd nodes 0;
            let (buf, s) = iec104_s_begin_i s
              (if cp56_year (val_time (ctrl_value first)) = 0 then IEC10X_M_SP_NA_1 else IEC10X_M_SP_TB_1)
              0 (unat u8Count) IEC10X_COT_SPONT;
            (buf, ptr) \<leftarrow> iec104_s_spon_fill iec104_s_yx_object nodes 0 (unat u8Count) buf 12;
            iec104_s_send s buf ptr
          })"

definition iec104_s_yc_spon_type :: "DevNodeCtrl_T \<Rightarrow> nat" where
  "iec104_s_yc_spon_type first =
     (if node_type (ctrl_info first) = DATA_FLOAT
      then if cp56_year (val_time (ctrl_value first)) > 0 then IEC10X_M_ME_TF_1 else IEC10X_M_ME_NC_1
      else if cp56_year (val_time (ctrl_value first)) > 0 then IEC10X_M_ME_TD_1 else IEC10X_M_ME_NA_1)"

definition wow_iec104_s_build_yc_spon ::
  "('s, 'p, 'd) iec104s_t \<Rightarrow> DevNodeCtrl_T list option \<Rightarrow> u8 \<Rightarrow> (int \<times> ('s, 'p, 'd) iec104s_t) option" where
  "wow_iec104_s_build_yc_spon s ptNode u8Count =
     (case ptNode of
        None \<Rightarrow> Some (- PARAM_INPUT_STRUCT_IS_NULL, s)
      | Some nodes \<Rightarrow>
          if \<not> unat u8Count > 0 then Some (- PARAM_INPUT_STRUCT_IS_NULL, s)
          else if st_init (stat s) \<noteq> IEC10X_STA_LINK_IDLE then Some (- IEC10X_STATUS_ERROR, s)
          else do {
            first \<leftarrow> rd nodes 0;
            let (buf, s) = iec104_s_begin_i s (iec104_s_yc_spon_type first) 0 (unat u8Count) IEC10X_COT_SPONT;
            (buf, ptr) \<leftarrow> iec104_s_spon_fill (iec104_s_yc_object first) nodes 0 (unat u8Count) buf 12;
            iec104_s_send s buf ptr
          })"

end
