(* ===== verification/Iec104Interrogation.thy ===== *)
theory Iec104Interrogation
  imports Iec104Report Iec104Api
begin

text \<open>
  The answer of the IEC 104 controlled station to a general interrogation and to a counter
  interrogation: which frames it sends, that they are numbered without a gap and carry every
  configured node once and in order, and the lists for which the answer leaves the 256-byte frame buffer.
\<close>

section \<open>The answers\<close>

definition call_all_answer :: "('s, 'p, 'd) iec104s_t \<Rightarrow> bytes list \<times> 'd" where
  "call_all_answer s =
     (let frames = (\<lambda>ty enc n nodes d. chunk_frames ty enc (node_value s) (asdu_addr s) (build_recv (sn s))
            IEC10X_COT_INTROGEN (build_send (sn s) + int n) (chunks nodes) d);
          frame = (\<lambda>n. i_frame (asdu_addr s) (build_send (sn s) + int n) (build_recv (sn s)));
          (f1, d) = frames (\<lambda>_. IEC10X_M_SP_NA_1) yx_enc 1 (yx_list s) (app s);
          (f2, d) = frames yc_type yc_enc (1 + length f1) (yc_n_list s) d;
          (f3, d) = frames yc_type yc_enc (1 + length f1 + length f2) (yc_f_list s) d
      in ([frame 0 IEC10X_C_IC_NA_1 0 1 IEC10X_COT_ACTCON (le_bytes 3 0 @ [20])] @ f1 @ f2 @ f3 @
          [frame (1 + length f1 + length f2 + length f3) IEC10X_C_IC_NA_1 1 0 IEC10X_COT_ACTTERM
             (le_bytes 3 0x1001 @ [20])], d))"

definition call_pulse_answer :: "('s, 'p, 'd) iec104s_t \<Rightarrow> u8 \<Rightarrow> bytes list \<times> 'd" where
  "call_pulse_answer s qcc =
     (let frame = (\<lambda>n. i_frame (asdu_addr s) (build_send (sn s) + int n) (build_recv (sn s)));
          (f1, d) = chunk_frames (\<lambda>_. IEC10X_M_IT_NA_1) ym_enc (node_value s) (asdu_addr s) (build_recv (sn s))
            IEC10X_COT_REQCOGEN (build_send (sn s) + 1) (chunks (ym_list s)) (app s)
      in ([frame 0 IEC10X_C_IC_NA_1 0 1 IEC10X_COT_ACTCON (le_bytes 3 0 @ [qcc])] @ f1 @
          [frame (1 + length f1) IEC10X_C_IC_NA_1 1 0 IEC10X_COT_ACTTERM (le_bytes 3 0x1001 @ [qcc])], d))"

text \<open>The configuration that \<open>wow_iec104_s_set_node_info\<close> keeps: the float values are in a list of their
  own.\<close>

definition lists_sorted :: "('s, 'p, 'd) iec104s_t \<Rightarrow> bool" where
  "lists_sorted s \<longleftrightarrow>
     (\<forall>n \<in> set (yc_n_list s). node_type n \<noteq> DATA_FLOAT) \<and> (\<forall>n \<in> set (yc_f_list s). node_type n = DATA_FLOAT)"

text \<open>An activation of an interrogation at offset \<open>off\<close> of the receive buffer.\<close>

definition activation :: "bytes \<Rightarrow> nat \<Rightarrow> u8 \<Rightarrow> bool" where
  "activation rbuf off q \<longleftrightarrow>
     rd rbuf (off + 15) = Some q \<and> rdn rbuf (off + 12) 3 = Some [0, 0, 0] \<and>
     asdu_reason rbuf off = Some IEC10X_COT_ACT"

section \<open>On a working link\<close>

context duplex_link
begin

lemma transmits_call_all:
  assumes "online s" and "get_val_cb s \<noteq> None" and "lists_sorted s" and "length (yc_f_list s) \<le> 48"
    and "activation rbuf off 20" and "call_all_answer s = (fs, d)"
  shows "\<exists>s'. iec104_s_asdu_call_all s rbuf off = Some (0, s') \<and> transmits (length fs) s s' d fs"
proof -
  let ?ack = "next_frame s IEC10X_C_IC_NA_1 0 1 IEC10X_COT_ACTCON (le_bytes 3 0 @ [20])"
  obtain f1 d1 where 1: "chunk_frames (\<lambda>_. IEC10X_M_SP_NA_1) yx_enc (node_value s) (asdu_addr s)
      (build_recv (sn s)) 20 (build_send (sn s) + 1) (chunks (yx_list s)) (app s) = (f1, d1)" by fastforce
  obtain f2 d2 where 2: "chunk_frames yc_type yc_enc (node_value s) (asdu_addr s)
      (build_recv (sn s)) 20 (build_send (sn s) + int (1 + length f1)) (chunks (yc_n_list s)) d1 = (f2, d2)" by fastforce
  obtain f3 d3 where 3: "chunk_frames yc_type yc_enc (node_value s) (asdu_addr s)
      (build_recv (sn s)) 20 (build_send (sn s) + int (1 + length f1 + length f2)) (chunks (yc_f_list s)) d2 = (f3, d3)" by fastforce
  obtain s0 where s0: "iec104_s_build_call_ack s 20 = Some (0, s0)" and t0: "transmits 1 s s0 (app s) [?ack]"
    using transmits_call_ack [OF assms(1)] by blast
  note f = transmits_fields [OF t0]
  have "\<exists>s'. iec104_s_send_list (iec104_s_build_yx 20 (yx_list s)) (length (yx_list s)) 0 s0 = Some s' \<and>
      transmits (length f1) s0 s' d1 f1"
    by (rule transmits_yx) (use f 1 assms(2) in \<open>simp_all add: node_value_def\<close>)
  then obtain s1 where s1: "iec104_s_send_list (iec104_s_build_yx 20 (yx_list s)) (length (yx_list s)) 0 s0 = Some s1"
      and t1: "transmits (1 + length f1) s s1 d1 ([?ack] @ f1)"
    using transmits_trans [OF t0] by blast
  note f = transmits_fields [OF t0] transmits_fields [OF t1]
  have "\<exists>s'. iec104_s_send_list (iec104_s_build_yc 20 (yc_n_list s)) (length (yc_n_list s)) 0 s1 = Some s' \<and>
      transmits (length f2) s1 s' d2 f2"
    by (rule transmits_yc_n) (use f 2 assms(2,3) in \<open>simp_all add: node_value_def lists_sorted_def\<close>)
  then obtain s2 where s2: "iec104_s_send_list (iec104_s_build_yc 20 (yc_n_list s)) (length (yc_n_list s)) 0 s1 = Some s2"
      and t2: "transmits (1 + length f1 + length f2) s s2 d2 (([?ack] @ f1) @ f2)"
    using transmits_trans [OF t1] by blast
  note f = transmits_fields [OF t0] transmits_fields [OF t1] transmits_fields [OF t2]
  have "\<exists>s'. iec104_s_send_list (iec104_s_build_yc 20 (yc_f_list s)) (length (yc_f_list s)) 0 s2 = Some s' \<and>
      transmits (length f3) s2 s' d3 f3"
    by (rule transmits_yc_f) (use f 3 assms(2,3,4) in \<open>simp_all add: node_value_def lists_sorted_def\<close>)
  then obtain s3 where s3: "iec104_s_send_list (iec104_s_build_yc 20 (yc_f_list s)) (length (yc_f_list s)) 0 s2 = Some s3"
      and t3: "transmits (1 + length f1 + length f2 + length f3) s s3 d3 ((([?ack] @ f1) @ f2) @ f3)"
    using transmits_trans [OF t2] by blast
  note f = f transmits_fields [OF t3]
  obtain s4 where s4: "iec104_s_build_call_finsh s3 20 = Some (0, s4)"
      and t4: "transmits (1 + length f1 + length f2 + length f3 + 1) s s4 d3 (((([?ack] @ f1) @ f2) @ f3) @
        [next_frame s3 IEC10X_C_IC_NA_1 1 0 IEC10X_COT_ACTTERM (le_bytes 3 0x1001 @ [20])])"
    using transmits_call_finsh [OF transmits_fields(1) [OF t3]] transmits_trans [OF t3] transmits_fields(2) [OF t3] by blast
  have "iec104_s_asdu_call_all s rbuf off = Some (0, s4)"
    using assms(2,5) f s0 s1 s2 s3 s4
    by (simp add: iec104_s_asdu_call_all_def activation_def iec10x_cots)
  moreover have "fs = ((([?ack] @ f1) @ f2) @ f3) @
        [next_frame s3 IEC10X_C_IC_NA_1 1 0 IEC10X_COT_ACTTERM (le_bytes 3 0x1001 @ [20])] \<and> d = d3"
    using assms(6) 1 2 3 f by (auto simp: call_all_answer_def next_frame_def IEC10X_COT_INTROGEN_def add.assoc)
  ultimately show ?thesis using t4 by (auto simp: add.assoc)
qed

lemma transmits_call_pulse:
  assumes "online s" and "get_val_cb s \<noteq> None" and "length (ym_list s) \<le> 48"
    and "activation rbuf off qcc" and "qcc AND 0x3F = 0x05" and "call_pulse_answer s qcc = (fs, d)"
  shows "\<exists>s'. iec104_s_asdu_call_pulse s rbuf off = Some (0, s') \<and> transmits (length fs) s s' d fs"
proof -
  let ?ack = "next_frame s IEC10X_C_IC_NA_1 0 1 IEC10X_COT_ACTCON (le_bytes 3 0 @ [qcc])"
  obtain f1 d1 where 1: "chunk_frames (\<lambda>_. IEC10X_M_IT_NA_1) ym_enc (node_value s) (asdu_addr s)
      (build_recv (sn s)) IEC10X_COT_REQCOGEN (build_send (sn s) + 1) (chunks (ym_list s)) (app s) = (f1, d1)" by fastforce
  obtain s0 where s0: "iec104_s_build_call_ack s qcc = Some (0, s0)" and t0: "transmits 1 s s0 (app s) [?ack]"
    using transmits_call_ack [OF assms(1)] by blast
  note f = transmits_fields [OF t0]
  have "\<exists>s'. iec104_s_send_list (iec104_s_build_ym IEC10X_COT_REQCOGEN (ym_list s)) (length (ym_list s)) 0 s0 = Some s' \<and>
      transmits (length f1) s0 s' d1 f1"
    by (rule transmits_ym) (use f 1 assms(2,3) in \<open>simp_all add: node_value_def\<close>)
  then obtain s1 where s1: "iec104_s_send_list (iec104_s_build_ym IEC10X_COT_REQCOGEN (ym_list s)) (length (ym_list s)) 0 s0 = Some s1"
      and t1: "transmits (1 + length f1) s s1 d1 ([?ack] @ f1)"
    using transmits_trans [OF t0] by blast
  note f = f transmits_fields [OF t1]
  obtain s2 where s2: "iec104_s_build_call_finsh s1 qcc = Some (0, s2)"
      and t2: "transmits (1 + length f1 + 1) s s2 d1 (([?ack] @ f1) @
        [next_frame s1 IEC10X_C_IC_NA_1 1 0 IEC10X_COT_ACTTERM (le_bytes 3 0x1001 @ [qcc])])"
    using transmits_call_finsh [OF transmits_fields(1) [OF t1]] transmits_trans [OF t1] transmits_fields(2) [OF t1] by blast
  have "iec104_s_asdu_call_pulse s rbuf off = Some (0, s2)"
    using assms(2,4,5) f s0 s1 s2
    by (simp add: iec104_s_asdu_call_pulse_def activation_def iec10x_cots)
  moreover have "fs = ([?ack] @ f1) @
        [next_frame s1 IEC10X_C_IC_NA_1 1 0 IEC10X_COT_ACTTERM (le_bytes 3 0x1001 @ [qcc])] \<and> d = d1"
    using assms(6) 1 f by (auto simp: call_pulse_answer_def next_frame_def add.assoc)
  ultimately show ?thesis using t2 by auto
qed

text \<open>With 49 or more float values the answer leaves the frame buffer.\<close>

lemma call_all_overflow:
  assumes "online s" and "get_val_cb s \<noteq> None" and "lists_sorted s" and "49 \<le> length (yc_f_list s)"
    and "activation rbuf off 20"
  shows "iec104_s_asdu_call_all s rbuf off = None"
proof -
  obtain s0 where s0: "iec104_s_build_call_ack s 20 = Some (0, s0)"
      and t0: "transmits 1 s s0 (app s) [next_frame s IEC10X_C_IC_NA_1 0 1 IEC10X_COT_ACTCON (le_bytes 3 0 @ [20])]"
    using transmits_call_ack [OF assms(1)] by blast
  note f = transmits_fields [OF t0]
  obtain f1 d1 where 1: "chunk_frames (\<lambda>_. IEC10X_M_SP_NA_1) yx_enc (node_value s0) (asdu_addr s0)
      (build_recv (sn s0)) 20 (build_send (sn s0)) (chunks (yx_list s)) (app s0) = (f1, d1)" by fastforce
  obtain s1 where s1: "iec104_s_send_list (iec104_s_build_yx 20 (yx_list s)) (length (yx_list s)) 0 s0 = Some s1"
      and t1: "transmits (length f1) s0 s1 d1 f1"
    using transmits_yx [OF f(1) _ 1] f assms(2) by auto
  note g = transmits_fields [OF t1]
  obtain f2 d2 where 2: "chunk_frames yc_type yc_enc (node_value s1) (asdu_addr s1)
      (build_recv (sn s1)) 20 (build_send (sn s1)) (chunks (yc_n_list s)) (app s1) = (f2, d2)" by fastforce
  obtain s2 where s2: "iec104_s_send_list (iec104_s_build_yc 20 (yc_n_list s)) (length (yc_n_list s)) 0 s1 = Some s2"
      and t2: "transmits (length f2) s1 s2 d2 f2"
    using transmits_yc_n [OF g(1) _ _ 2] f g assms(2,3) by (auto simp: lists_sorted_def)
  note h = transmits_fields [OF t2]
  have "iec104_s_send_list (iec104_s_build_yc 20 (yc_f_list s)) (length (yc_f_list s)) 0 s2 = None"
    by (rule send_list_overflow [OF build_yc]) (use f g h assms(2,3,4) in \<open>auto simp: lists_sorted_def\<close>)
  with s0 s1 s2 assms(2,5) f g h show ?thesis
    by (simp add: iec104_s_asdu_call_all_def activation_def iec10x_cots)
qed

end

section \<open>What the answers contain\<close>

text \<open>Cutting a list into frames neither loses nor repeats a node, provided an encoding does not depend on the
  position: the objects of the frames are the report of the whole list.\<close>

lemma report_shift:
  assumes "\<And>i j node ret v. enc i node ret v = enc j node ret v"
  shows "report enc get k ys d = report enc get j ys d"
proof (induction ys arbitrary: k j d)
  case (Cons y ys)
  have "enc k y r v = enc j y r v" for r v by (rule assms)
  with Cons [of "k + 1" _ "j + 1"] show ?case by (simp add: Let_def split_beta)
qed simp

lemma report_append:
  assumes enc: "\<And>i j node ret v. enc i node ret v = enc j node ret v"
  shows "report enc get 0 (xs @ ys) d =
    (let (a, d) = report enc get 0 xs d; (b, d) = report enc get 0 ys d in (a @ b, d))"
proof (induction xs arbitrary: d)
  case (Cons x xs)
  note sh = report_shift [of enc get 1 _ _ 0, OF enc]
  from Cons show ?case by (simp add: Let_def split_beta sh [simplified])
qed (simp add: split_beta)

lemma drop_i_frame: "drop 15 (i_frame addr k recv ty sq num cot (le_bytes 3 a @ bs)) = bs"
  by (simp add: i_frame_def)

lemma chunk_frames_objects:
  assumes "\<And>i j node ret v. enc i node ret v = enc j node ret v"
  shows "(concat (map (drop 15) (fst (chunk_frames ty enc get addr recv cot k cs d))),
          snd (chunk_frames ty enc get addr recv cot k cs d)) = report enc get 0 (concat cs) d"
proof (induction cs arbitrary: k d)
  case Nil
  then show ?case by simp
next
  case (Cons c cs)
  show ?case
    using Cons [of "k + 1" "snd (report enc get 0 c d)"]
    by (simp add: report_append [of enc, OF assms] split_beta drop_i_frame Let_def prod_eq_iff)
qed

lemma i_frame_numbers:
  "frame_type1 (i_frame addr k recv ty sq num cot bs) 0 = Some 0"
  "frame_send_sn (i_frame addr k recv ty sq num cot bs) 0 = Some (nat (k mod 32768))"
  "frame_recv_sn (i_frame addr k recv ty sq num cot bs) 0 = Some (nat (recv mod 32768))"
proof -
  have e: "nat (2 * (m mod 32768)) mod 65536 = nat (2 * (m mod 32768))" for m :: int
  proof -
    have "0 \<le> m mod 32768" and "m mod 32768 < 32768" by simp_all
    then show ?thesis by (intro mod_less) linarith
  qed
  have h: "nat (2 * (m mod 32768)) div 2 = nat (m mod 32768)" for m :: int
    by (simp add: nat_mult_distrib)
  have le2: "le_bytes 2 n = [lo8 n, lo8 (n div 256)]" for n
    by (simp add: le_bytes_def upt_rec)
  have v: "le_val [lo8 n, lo8 (n div 256)] = n mod 65536" for n
    using le_val_le_bytes [of 2 n] by (simp add: le2)
  have ev: "nat (2 * x) mod 256 mod 2 = 0" for x :: int
    by (simp add: nat_mult_distrib mod_mod_cancel)
  show "frame_type1 (i_frame addr k recv ty sq num cot bs) 0 = Some 0"
    by (simp add: frame_type1_def i_frame_def ctrl_i_def le2 rd_def byte_simps ev)
  show "frame_send_sn (i_frame addr k recv ty sq num cot bs) 0 = Some (nat (k mod 32768))"
    "frame_recv_sn (i_frame addr k recv ty sq num cot bs) 0 = Some (nat (recv mod 32768))"
    by (simp_all add: frame_send_sn_def frame_recv_sn_def i_frame_def ctrl_i_def le2 rdn_def v e h
        del: le_val.simps)
qed

text \<open>Frames numbered consecutively from \<open>k\<close>, all acknowledging \<open>recv\<close>, as the receiver reads them.\<close>

definition in_sequence :: "int \<Rightarrow> int \<Rightarrow> bytes list \<Rightarrow> bool" where
  "in_sequence k recv fs \<longleftrightarrow>
     (\<forall>i < length fs. frame_type1 (fs ! i) 0 = Some 0 \<and>
        frame_send_sn (fs ! i) 0 = Some (nat ((k + int i) mod 32768)) \<and>
        frame_recv_sn (fs ! i) 0 = Some (nat (recv mod 32768)))"

lemma in_sequence_Nil [simp]: "in_sequence k recv []"
  by (simp add: in_sequence_def)

lemma in_sequence_Cons [simp]:
  "in_sequence k recv (f # fs) \<longleftrightarrow>
     frame_type1 f 0 = Some 0 \<and> frame_send_sn f 0 = Some (nat (k mod 32768)) \<and>
     frame_recv_sn f 0 = Some (nat (recv mod 32768)) \<and> in_sequence (k + 1) recv fs"
  by (auto simp: in_sequence_def less_Suc_eq_0_disj add.assoc)

lemma in_sequence_append [simp]:
  "in_sequence k recv (fs @ gs) \<longleftrightarrow> in_sequence k recv fs \<and> in_sequence (k + int (length fs)) recv gs"
  by (induction fs arbitrary: k) (auto simp: add.assoc)

lemma chunk_frames_in_sequence:
  "in_sequence k recv (fst (chunk_frames ty enc get addr recv cot k cs d))"
  by (induction cs arbitrary: k d) (simp_all add: split_beta i_frame_numbers Let_def)

lemma chunk_frames_in_sequence':
  "chunk_frames ty enc get addr recv cot k cs d = (fs, e) \<Longrightarrow> in_sequence k recv fs"
  using chunk_frames_in_sequence [of k recv ty enc get addr cot cs d] by simp

section \<open>Properties\<close>

definition station_online :: "(proto_port, 'p, 'd) iec104s_t \<Rightarrow> bool" where
  "station_online s \<longleftrightarrow>
     link_ctx s = fst proto_port_eth_slave_init \<and> client (lnk s) = Live \<and> port_prompt (lnk s)"

lemma station_online_iff: "station_online s = eth_slave.online s"
  by (simp add: station_online_def eth_slave.online_def)

text \<open>A small station for the witnesses: two single points, two normalised values and one float value.\<close>

definition demo_get :: "nat \<Rightarrow> DevNodeInfo_T \<Rightarrow> nat \<Rightarrow> int \<times> DevValue_U \<times> nat" where
  "demo_get priv node d = (0, ucast (node_addr node), d + 1)"

definition demo_nodes :: "DevNodeInfo_T list" where
  "demo_nodes =
     [\<lparr>node_mode = DEV_TYPE_YX, node_addr = 1, node_type = DATA_BOOL\<rparr>,
      \<lparr>node_mode = DEV_TYPE_YC, node_addr = 0x4001, node_type = DATA_SINT_16\<rparr>,
      \<lparr>node_mode = DEV_TYPE_YX, node_addr = 2, node_type = DATA_BOOL\<rparr>,
      \<lparr>node_mode = DEV_TYPE_YC, node_addr = 0x4002, node_type = DATA_FLOAT\<rparr>,
      \<lparr>node_mode = DEV_TYPE_YC, node_addr = 0x4003, node_type = DATA_SINT_16\<rparr>]"

definition demo_station :: "DevNodeInfo_T list \<Rightarrow> (proto_port, nat, nat) iec104s_t" where
  "demo_station nodes =
     (let s = the (wow_iec104_s_init 7 True [True, True, True, True, True] True 0 0);
          s = snd (wow_iec104_s_set_node_info (map (\<lambda>_. True) nodes) s nodes);
          s = snd (wow_iec104_s_get_value_handle s (Some demo_get) 3)
      in s\<lparr>lnk := (lnk s)\<lparr>server := Live, client := Live\<rparr>\<rparr>)"

definition demo_request :: "bytes" where
  "demo_request = i_frame 7 4 0 IEC10X_C_IC_NA_1 0 1 IEC10X_COT_ACT (le_bytes 3 0 @ [20])"

lemmas demo_defs = demo_station_def demo_get_def wow_iec104_s_init_def wow_iec104_s_set_node_info_def
  wow_iec104_s_get_value_handle_def iec104_s_reset_param_def proto_port_eth_set_connected_cb_def
  proto_port_eth_slave_init_def new_port_def

lemma demo_station_fields:
  "station_online (demo_station demo_nodes)" "get_val_cb (demo_station demo_nodes) = Some demo_get"
  "set_val_priv (demo_station demo_nodes) = 0" "app (demo_station demo_nodes) = 0"
  "map node_addr (yx_list (demo_station demo_nodes)) = [1, 2]"
  "map node_addr (yc_n_list (demo_station demo_nodes)) = [0x4001, 0x4003]"
  "map node_addr (yc_f_list (demo_station demo_nodes)) = [0x4002]"
  "lists_sorted (demo_station demo_nodes)" "tx (lnk (demo_station demo_nodes)) = []"
  by (simp_all add: station_online_def demo_nodes_def demo_defs port_prompt_def lists_sorted_def Let_def)

lemma demo_activation: "activation demo_request 0 20"
  by (simp add: activation_def demo_request_def i_frame_def ctrl_i_def asdu_head_def asdu_reason_def
      le_bytes_numeral le_bytes_Suc rd_def rdn_def iec10x_cots byte_simps lo8_def)

text \<open>Asked for a general interrogation, a station on a working connection with at most 48
  float values returns and sends exactly the acknowledgement, the reports of its single points,
  normalised values and float values, and the termination, asking the application for every node once.\<close>

theorem general_interrogation:
  assumes "station_online s" and "get_val_cb s \<noteq> None" and "lists_sorted s" and "length (yc_f_list s) \<le> 48"
    and "activation rbuf off 20"
  shows "\<exists>s'. iec104_s_asdu_call_all s rbuf off = Some (0, s') \<and>
    tx (lnk s') = tx (lnk s) @ fst (call_all_answer s) \<and> app s' = snd (call_all_answer s) \<and>
    build_send (sn s') = build_send (sn s) + int (length (fst (call_all_answer s))) \<and> stat s' = stat s"
proof -
  obtain fs d where a: "call_all_answer s = (fs, d)" by fastforce
  from eth_slave.transmits_call_all [OF _ assms(2-5) a] assms(1)
  obtain s' where "iec104_s_asdu_call_all s rbuf off = Some (0, s')" and t: "eth_slave.transmits (length fs) s s' d fs"
    by (auto simp: station_online_iff)
  with a eth_slave.transmits_fields [OF t] show ?thesis by simp
qed

theorem general_interrogation_witness:
  "\<exists>s'. iec104_s_asdu_call_all (demo_station demo_nodes) demo_request 0 = Some (0, s') \<and>
    tx (lnk s') = fst (call_all_answer (demo_station demo_nodes)) \<and> length (tx (lnk s')) = 5 \<and> app s' = 5"
proof -
  have "length (fst (call_all_answer (demo_station demo_nodes))) = 5 \<and> snd (call_all_answer (demo_station demo_nodes)) = 5"
    by (simp add: call_all_answer_def demo_defs demo_nodes_def node_value_def Let_def)
  moreover have "length (yc_f_list (demo_station demo_nodes)) \<le> 48"
    by (simp add: demo_defs demo_nodes_def Let_def)
  ultimately show ?thesis
    using general_interrogation [OF demo_station_fields(1) _ demo_station_fields(8) _ demo_activation] demo_station_fields
    by auto
qed

text \<open>The frames of the specified answer are numbered without a gap, and their objects are the reports of the lists.\<close>

lemma answer_complete:
  "in_sequence (build_send (sn s)) (build_recv (sn s)) (fst (call_all_answer s)) \<and>
   (concat (map (drop 15) (butlast (tl (fst (call_all_answer s))))), snd (call_all_answer s)) =
     (let (a, d) = report yx_enc (node_value s) 0 (yx_list s) (app s);
          (b, d) = report yc_enc (node_value s) 0 (yc_n_list s @ yc_f_list s) d
      in (a @ b, d))"
proof -
  define fr where "fr ty enc n nodes d = chunk_frames ty enc (node_value s) (asdu_addr s) (build_recv (sn s))
      IEC10X_COT_INTROGEN (build_send (sn s) + int n) (chunks nodes) d" for ty enc n nodes and d
  obtain f1 d1 where 1: "fr (\<lambda>_. IEC10X_M_SP_NA_1) yx_enc 1 (yx_list s) (app s) = (f1, d1)" by fastforce
  obtain f2 d2 where 2: "fr yc_type yc_enc (1 + length f1) (yc_n_list s) d1 = (f2, d2)" by fastforce
  obtain f3 d3 where 3: "fr yc_type yc_enc (1 + length f1 + length f2) (yc_f_list s) d2 = (f3, d3)" by fastforce
  have seq: "in_sequence (build_send (sn s) + int n) (build_recv (sn s)) fs"
    if "fr ty enc n nodes d = (fs, e)" for ty enc n nodes d fs e
    by (rule chunk_frames_in_sequence' [OF that [unfolded fr_def]])
  have yx: "yx_enc i = yx_enc j" and yc: "yc_enc i = yc_enc j" for i j
    by (auto simp: yx_enc_def yc_enc_def fun_eq_iff)
  have obj: "report enc (node_value s) 0 nodes d = (concat (map (drop 15) fs), e)"
    if "fr ty enc n nodes d = (fs, e)" and "\<And>i j. enc i = enc j" for ty enc n nodes d fs e
    using that(1) chunk_frames_objects [of enc ty "node_value s" "asdu_addr s" "build_recv (sn s)" IEC10X_COT_INTROGEN
        "build_send (sn s) + int n" "chunks nodes" d, OF fun_cong [OF fun_cong [OF fun_cong [OF that(2)]]]]
    by (simp add: fr_def)
  have "report yc_enc (node_value s) 0 (yc_n_list s @ yc_f_list s) d1 = (concat (map (drop 15) (f2 @ f3)), d3)"
    using obj [OF 2 yc] obj [OF 3 yc] report_append [of yc_enc "node_value s" "yc_n_list s" "yc_f_list s" d1]
    by (simp add: yc_enc_def)
  moreover have "call_all_answer s =
      ([i_frame (asdu_addr s) (build_send (sn s)) (build_recv (sn s)) IEC10X_C_IC_NA_1 0 1 IEC10X_COT_ACTCON (le_bytes 3 0 @ [20])] @
       f1 @ f2 @ f3 @ [i_frame (asdu_addr s) (build_send (sn s) + int (1 + length f1 + length f2 + length f3))
         (build_recv (sn s)) IEC10X_C_IC_NA_1 1 0 IEC10X_COT_ACTTERM (le_bytes 3 0x1001 @ [20])], d3)"
    using 1 2 3 by (simp add: call_all_answer_def fr_def)
  ultimately show ?thesis
    using obj [OF 1 yx] seq [OF 1] seq [OF 2] seq [OF 3]
    by (simp add: butlast_append i_frame_numbers add.assoc)
qed

text \<open>C13. Asked for a general interrogation on a working connection, a station with a get callback whose lists are as the configuration
  leaves them, at most 48 of the nodes being floats, returns without error, and what it has put on the wire is complete: the frames are
  numbered without a gap from its send counter, which then has counted them, and all acknowledge its receive counter; the first is the
  acknowledgement and the last the termination; the objects of the frames between them are the values the application gave for all single
  points, all normalised values and all float values, each node asked for once and reported once, in order.\<close>

theorem interrogation_complete:
  assumes "station_online s" and "get_val_cb s \<noteq> None" and "lists_sorted s" and "length (yc_f_list s) \<le> 48"
    and "activation rbuf off 20"
  shows "\<exists>s' fs. iec104_s_asdu_call_all s rbuf off = Some (0, s') \<and> tx (lnk s') = tx (lnk s) @ fs \<and>
    in_sequence (build_send (sn s)) (build_recv (sn s)) fs \<and> build_send (sn s') = build_send (sn s) + int (length fs) \<and>
    hd fs = i_frame (asdu_addr s) (build_send (sn s)) (build_recv (sn s)) IEC10X_C_IC_NA_1 0 1 IEC10X_COT_ACTCON (le_bytes 3 0 @ [20]) \<and>
    last fs = i_frame (asdu_addr s) (build_send (sn s') - 1) (build_recv (sn s)) IEC10X_C_IC_NA_1 1 0 IEC10X_COT_ACTTERM
      (le_bytes 3 0x1001 @ [20]) \<and>
    (concat (map (drop 15) (butlast (tl fs))), app s') =
      (let (a, d) = report yx_enc (node_value s) 0 (yx_list s) (app s);
           (b, d) = report yc_enc (node_value s) 0 (yc_n_list s @ yc_f_list s) d
       in (a @ b, d))"
proof -
  let ?fs = "fst (call_all_answer s)"
  obtain s' where s': "iec104_s_asdu_call_all s rbuf off = Some (0, s')" "tx (lnk s') = tx (lnk s) @ ?fs"
    "app s' = snd (call_all_answer s)" "build_send (sn s') = build_send (sn s) + int (length ?fs)"
    using general_interrogation [OF assms] by blast
  have "hd ?fs = i_frame (asdu_addr s) (build_send (sn s)) (build_recv (sn s)) IEC10X_C_IC_NA_1 0 1 IEC10X_COT_ACTCON (le_bytes 3 0 @ [20])"
    "last ?fs = i_frame (asdu_addr s) (build_send (sn s) + int (length ?fs) - 1) (build_recv (sn s)) IEC10X_C_IC_NA_1 1 0 IEC10X_COT_ACTTERM
      (le_bytes 3 0x1001 @ [20])"
    by (simp_all add: call_all_answer_def Let_def split_beta algebra_simps)
  with s' answer_complete [of s] show ?thesis by (intro exI [of _ s'] exI [of _ ?fs]) (simp add: add.assoc)
qed

text \<open>The five nodes of the small station: five frames, the values being the low bytes of the addresses.\<close>

theorem interrogation_complete_witness:
  "\<exists>s' fs. iec104_s_asdu_call_all (demo_station demo_nodes) demo_request 0 = Some (0, s') \<and> tx (lnk s') = fs \<and> in_sequence 0 0 fs \<and>
     concat (map (drop 15) (butlast (tl fs))) = [1, 2, 1, 0x40, 0, 3, 0x40, 0, 2, 0x40, 0, 0, 0] \<and> app s' = 5"
proof -
  let ?s = "demo_station demo_nodes"
  have "length (yc_f_list ?s) \<le> 48" by (simp add: demo_defs demo_nodes_def Let_def)
  moreover have "build_send (sn ?s) = 0" "build_recv (sn ?s) = 0" by (simp_all add: demo_defs demo_nodes_def Let_def)
  moreover have "(let (a, d) = report yx_enc (node_value ?s) 0 (yx_list ?s) (app ?s);
           (b, d) = report yc_enc (node_value ?s) 0 (yc_n_list ?s @ yc_f_list ?s) d
       in (a @ b, d)) = ([1, 2, 1, 0x40, 0, 3, 0x40, 0, 2, 0x40, 0, 0, 0], 5)"
    by (simp add: demo_defs demo_nodes_def node_value_def yx_enc_def yc_enc_def le_bytes_numeral le_bytes_Suc lo8_def Let_def)
  ultimately show ?thesis
    using interrogation_complete [OF demo_station_fields(1) _ demo_station_fields(8) _ demo_activation] demo_station_fields(2,9)
    by auto
qed

text \<open>A counter interrogation on a working connection with at most 48 counters returns and sends exactly its
  acknowledgement, the counters in frames of up to 50, and the termination.\<close>

theorem counter_interrogation:
  assumes "station_online s" and "get_val_cb s \<noteq> None" and "length (ym_list s) \<le> 48"
    and "activation rbuf off qcc" and "qcc AND 0x3F = 0x05"
  shows "\<exists>s'. iec104_s_asdu_call_pulse s rbuf off = Some (0, s') \<and>
    tx (lnk s') = tx (lnk s) @ fst (call_pulse_answer s qcc) \<and> app s' = snd (call_pulse_answer s qcc) \<and>
    in_sequence (build_send (sn s)) (build_recv (sn s)) (fst (call_pulse_answer s qcc))"
proof -
  obtain fs d where a: "call_pulse_answer s qcc = (fs, d)" by fastforce
  from eth_slave.transmits_call_pulse [OF _ assms(2-5) a] assms(1)
  obtain s' where "iec104_s_asdu_call_pulse s rbuf off = Some (0, s')" and t: "eth_slave.transmits (length fs) s s' d fs"
    by (auto simp: station_online_iff)
  moreover have "in_sequence (build_send (sn s)) (build_recv (sn s)) fs"
    using a by (auto simp: call_pulse_answer_def i_frame_numbers add.assoc
        dest: chunk_frames_in_sequence' split: prod.splits)
  ultimately show ?thesis using a eth_slave.transmits_fields [OF t] by simp
qed

theorem counter_interrogation_witness:
  "\<exists>s'. iec104_s_asdu_call_pulse (demo_station [\<lparr>node_mode = DEV_TYPE_YM, node_addr = 0x6401, node_type = DATA_UINT_32\<rparr>])
      (i_frame 7 4 0 IEC10X_C_CI_NA_1 0 1 IEC10X_COT_ACT (le_bytes 3 0 @ [5])) 0 = Some (0, s') \<and>
    length (tx (lnk s')) = 3 \<and> app s' = 1"
proof -
  let ?s = "demo_station [\<lparr>node_mode = DEV_TYPE_YM, node_addr = 0x6401, node_type = DATA_UINT_32\<rparr>]"
  have "station_online ?s" and "get_val_cb ?s \<noteq> None" and "length (ym_list ?s) \<le> 48" and "tx (lnk ?s) = []"
    by (simp_all add: station_online_def demo_defs port_prompt_def Let_def)
  moreover have "activation (i_frame 7 4 0 IEC10X_C_CI_NA_1 0 1 IEC10X_COT_ACT (le_bytes 3 0 @ [5])) 0 5"
    by (simp add: activation_def i_frame_def ctrl_i_def asdu_head_def asdu_reason_def
        le_bytes_numeral le_bytes_Suc rd_def rdn_def iec10x_cots byte_simps lo8_def)
  moreover have "length (fst (call_pulse_answer ?s 5)) = 3 \<and> snd (call_pulse_answer ?s 5) = 1"
    by (simp add: call_pulse_answer_def demo_defs node_value_def Let_def)
  ultimately show ?thesis
    using counter_interrogation [of ?s "i_frame 7 4 0 IEC10X_C_CI_NA_1 0 1 IEC10X_COT_ACT (le_bytes 3 0 @ [5])" 0 5] by auto
qed

text \<open>With 49 or more float values the general interrogation is undefined: the frames are cut at 50 nodes for
  every type, and 49 float values of five bytes do not fit the 256-byte buffer on the stack.\<close>

theorem float_interrogation_overflow:
  assumes "station_online s" and "get_val_cb s \<noteq> None" and "lists_sorted s" and "49 \<le> length (yc_f_list s)"
    and "activation rbuf off 20"
  shows "iec104_s_asdu_call_all s rbuf off = None"
  using assms by (simp add: station_online_iff eth_slave.call_all_overflow)

theorem float_interrogation_overflow_witness:
  "iec104_s_asdu_call_all ((demo_station demo_nodes)
     \<lparr>yc_f_list := replicate 49 \<lparr>node_mode = DEV_TYPE_YC, node_addr = 0x4002, node_type = DATA_FLOAT\<rparr>\<rparr>) demo_request 0 = None"
  by (rule float_interrogation_overflow)
     (use demo_station_fields demo_activation in \<open>simp_all add: station_online_def lists_sorted_def\<close>)

text \<open>Setting the nodes distributes them over the four lists by their kind, in order, float values apart from the
  others, and rejects nothing but a failing allocation.\<close>

theorem set_node_info_lists:
  assumes "length nodes \<le> length mallocs" and "list_all id mallocs"
  shows "wow_iec104_s_set_node_info mallocs s nodes =
    (0, s\<lparr>yx_list := yx_list s @ filter (\<lambda>n. node_mode n = DEV_TYPE_YX) nodes,
          yc_n_list := yc_n_list s @ filter (\<lambda>n. node_mode n = DEV_TYPE_YC \<and> node_type n \<noteq> DATA_FLOAT) nodes,
          yc_f_list := yc_f_list s @ filter (\<lambda>n. node_mode n = DEV_TYPE_YC \<and> node_type n = DATA_FLOAT) nodes,
          ym_list := ym_list s @ filter (\<lambda>n. node_mode n = DEV_TYPE_YM) nodes\<rparr>)"
proof -
  have "iec104_s_add_nodes mallocs nodes s =
    (0, s\<lparr>yx_list := yx_list s @ filter (\<lambda>n. node_mode n = DEV_TYPE_YX) nodes,
          yc_n_list := yc_n_list s @ filter (\<lambda>n. node_mode n = DEV_TYPE_YC \<and> node_type n \<noteq> DATA_FLOAT) nodes,
          yc_f_list := yc_f_list s @ filter (\<lambda>n. node_mode n = DEV_TYPE_YC \<and> node_type n = DATA_FLOAT) nodes,
          ym_list := ym_list s @ filter (\<lambda>n. node_mode n = DEV_TYPE_YM) nodes\<rparr>)"
    using assms
  proof (induction nodes arbitrary: s mallocs)
    case (Cons n nodes)
    then obtain ms where m: "mallocs = True # ms" "list_all id ms" "length nodes \<le> length ms"
      by (cases mallocs) (auto simp: id_def)
    have "length nodes \<le> length mallocs" using m by simp
    with Cons.IH [OF _ m(2)] Cons.IH [OF _ Cons.prems(2)] m show ?case
      by (cases "node_mode n") simp_all
  qed simp
  then show ?thesis by (simp add: wow_iec104_s_set_node_info_def)
qed

theorem set_node_info_lists_witness:
  "map node_addr (yc_n_list (snd (wow_iec104_s_set_node_info (replicate 5 True) (demo_station []) demo_nodes))) = [0x4001, 0x4003]"
proof -
  have "length demo_nodes \<le> length (replicate 5 True)" and "list_all id (replicate 5 True)"
    by (simp_all add: demo_nodes_def list_all_iff)
  from set_node_info_lists [OF this, of "demo_station []"] show ?thesis
    by (simp add: demo_defs demo_nodes_def Let_def)
qed

end
