(* ===== verification/Iec104Link.thy ===== *)
theory Iec104Link
  imports Iec104Interrogation
begin

text \<open>
  Receiving on the IEC 104 controlled station: how the frames of one read are taken apart, what
  each kind of frame does, the transitions of the link state machine, and the start of
  a connection from the accept callback to the first interrogation.
\<close>

section \<open>Frames inside the receive buffer\<close>

lemma rd_at: "i < length f \<Longrightarrow> rd (pre @ f @ post) (length pre + i) = rd f i"
  by (simp add: rd_def nth_append)

lemma rdn_at: "i + n \<le> length f \<Longrightarrow> rdn (pre @ f @ post) (length pre + i) n = rdn f i n"
  by (simp add: rdn_def)

lemma le2: "le_bytes 2 n = [lo8 n, lo8 (n div 256)]"
  by (simp add: le_bytes_numeral le_bytes_Suc)

lemma le_val2: "le_val [lo8 n, lo8 (n div 256)] = n mod 65536"
  using le_val_le_bytes [of 2 n] by (simp add: le2)

lemma length_i_frame [simp]: "length (i_frame addr k r ty sq num cot bs) = 12 + length bs"
  by (simp add: i_frame_def)

lemma skip_head: "length h = 12 \<Longrightarrow> rd (h @ bs) (12 + i) = rd bs i \<and> rdn (h @ bs) (12 + i) n = rdn bs i n"
  by (auto simp: rd_def rdn_def nth_append)

lemma i_frame_reads:
  "rd (i_frame addr k r ty sq num cot bs) 0 = Some IEC104_HEAD"
  "rd (i_frame addr k r ty sq num cot bs) 1 = Some (word_of_nat (10 + length bs))"
  "rd (i_frame addr k r ty sq num cot bs) 6 = Some (lo8 ty)"
  "rd (i_frame addr k r ty sq num cot bs) 7 = Some (lo8 (num mod 128 + 128 * (sq mod 2)))"
  "rdn (i_frame addr k r ty sq num cot bs) 8 2 = Some (le_bytes 2 (cot mod 16384))"
  "rdn (i_frame addr k r ty sq num cot bs) 10 2 = Some (le_bytes 2 (unat addr))"
  by (simp_all add: i_frame_def ctrl_i_def asdu_head_def le2 rd_def rdn_def)

lemma i_frame_body:
  "rd (i_frame addr k r ty sq num cot bs) (12 + i) = rd bs i"
  "rdn (i_frame addr k r ty sq num cot bs) (12 + i) n = rdn bs i n"
  using skip_head [of "[IEC104_HEAD, word_of_nat (10 + length bs)] @ ctrl_i k r @ asdu_head ty sq num cot addr" bs i n]
  by (simp_all add: i_frame_def)

text \<open>What the station reads of an information frame at offset \<open>length pre\<close>.\<close>

lemma i_frame_at:
  assumes buf_def: "buf = pre @ i_frame addr k r ty sq num cot bs @ post" and off_def: "off = length pre"
  shows "rd buf off = Some IEC104_HEAD"
    and "rd buf (Suc off) = Some (word_of_nat (10 + length bs))"
    and "frame_type1 buf off = Some 0"
    and "frame_send_sn buf off = Some (nat (k mod 32768))"
    and "frame_recv_sn buf off = Some (nat (r mod 32768))"
    and "asdu_type buf off = Some (ty mod 256)"
    and "asdu_num buf off = Some (num mod 128)"
    and "asdu_sq buf off = Some (sq mod 2)"
    and "asdu_reason buf off = Some (cot mod 16384)"
    and "asdu_addr_field buf off = Some (unat addr)"
    and "i < length bs \<Longrightarrow> rd buf (off + (12 + i)) = rd bs i"
    and "i + n \<le> length bs \<Longrightarrow> rdn buf (off + (12 + i)) n = rdn bs i n"
proof -
  define f where "f = i_frame addr k r ty sq num cot bs"
  note at = rd_at [of _ f pre post, folded off_def, unfolded f_def, folded buf_def, folded f_def]
    rdn_at [of _ _ f pre post, folded off_def, unfolded f_def, folded buf_def, folded f_def]
  have len: "length f = 12 + length bs" by (simp add: f_def)
  note rds = i_frame_reads [of addr k r ty sq num cot bs, folded f_def] i_frame_body [of addr k r ty sq num cot bs, folded f_def]
  have "unat addr < 65536" using unsigned_less [of addr, where 'a = nat] by simp
  then have v: "le_val [lo8 (unat addr), lo8 (unat addr div 256)] = unat addr"
    and w: "le_val [lo8 (cot mod 16384), lo8 (cot mod 16384 div 256)] = cot mod 16384"
    by (simp_all add: le_val2 del: le_val.simps)
  have "(num mod 128 + 128 * (sq mod 2)) mod 256 = num mod 128 + 128 * (sq mod 2)"
    by (rule mod_less) (use mod_less_divisor [of 2 sq] mod_less_divisor [of 128 num] in linarith)
  then have b: "unat (lo8 (num mod 128 + 128 * (sq mod 2))) = num mod 128 + 128 * (sq mod 2)"
    by (simp add: byte_simps)
  show "rd buf off = Some IEC104_HEAD" using at(1) [of 0] rds(1) by (simp add: len)
  show "rd buf (Suc off) = Some (word_of_nat (10 + length bs))" using at(1) [of 1] rds(2) by (simp add: len)
  show "frame_type1 buf off = Some 0"
    using at(1) [of 2] i_frame_numbers(1) [of addr k r ty sq num cot bs] by (simp add: frame_type1_def len f_def del: add_2_eq_Suc add_2_eq_Suc')
  show "frame_send_sn buf off = Some (nat (k mod 32768))"
    using at(2) [of 2 2] i_frame_numbers(2) [of addr k r ty sq num cot bs] by (simp add: frame_send_sn_def len f_def del: add_2_eq_Suc add_2_eq_Suc')
  show "frame_recv_sn buf off = Some (nat (r mod 32768))"
    using at(2) [of 4 2] i_frame_numbers(3) [of addr k r ty sq num cot bs] by (simp add: frame_recv_sn_def len f_def)
  show "asdu_type buf off = Some (ty mod 256)"
    using at(1) [of 6] by (simp add: asdu_type_def len rds byte_simps)
  show "asdu_num buf off = Some (num mod 128)" "asdu_sq buf off = Some (sq mod 2)"
    using at(1) [of 7] by (simp_all add: asdu_num_def asdu_sq_def len rds b)
  show "asdu_reason buf off = Some (cot mod 16384)"
    using at(2) [of 8 2] w by (simp add: asdu_reason_def len rds le2 del: le_val.simps)
  show "asdu_addr_field buf off = Some (unat addr)"
    using at(2) [of 10 2] v by (simp add: asdu_addr_field_def len rds le2 del: le_val.simps)
  show "i < length bs \<Longrightarrow> rd buf (off + (12 + i)) = rd bs i"
    using at(1) [of "12 + i"] rds(7) by (simp add: len)
  show "i + n \<le> length bs \<Longrightarrow> rdn buf (off + (12 + i)) n = rdn bs i n"
    using at(2) [of "12 + i" n] rds(8) by (simp add: len)
qed

section \<open>The parser\<close>

definition handle_frame :: "bytes \<Rightarrow> nat \<Rightarrow> ('s, 'p, 'd) iec104s_t \<Rightarrow> ('s, 'p, 'd) iec104s_t option" where
  "handle_frame rbuf off s =
     do {
       type1 \<leftarrow> frame_type1 rbuf off;
       type2 \<leftarrow> frame_type2 rbuf off;
       (_, s) \<leftarrow> (if type1 = 0 then iec104_s_frame_i_parse s rbuf off
                else if type2 = 0 then Some (0, s)
                else iec104_s_frame_u_parse s rbuf off);
       Some s
     }"

lemma parse_frame:
  assumes "off + 6 \<le> len" and "len \<le> length rbuf" and "rbuf ! off = IEC104_HEAD"
  shows "iec104_s_frame_parse_loop rbuf len off s =
    do { s \<leftarrow> handle_frame rbuf off s; iec104_s_frame_parse_loop rbuf len (off + (unat (rbuf ! (off + 1)) + 2)) s }"
proof -
  have "6 \<le> len - off" and "off < len" and "off < length rbuf" and "Suc off < length rbuf" using assms by linarith+
  then show ?thesis
    using assms(3) by (subst iec104_s_frame_parse_loop.simps) (simp add: handle_frame_def rd_def case_prod_unfold)
qed

text \<open>A frame as the standard delimits it.\<close>

definition apdu :: "bytes \<Rightarrow> bool" where
  "apdu f \<longleftrightarrow> 6 \<le> length f \<and> f ! 0 = IEC104_HEAD \<and> length f = unat (f ! 1) + 2"

fun handle_frames :: "bytes \<Rightarrow> nat \<Rightarrow> bytes list \<Rightarrow> ('s, 'p, 'd) iec104s_t \<Rightarrow> ('s, 'p, 'd) iec104s_t option" where
  "handle_frames rbuf off [] s = Some s"
| "handle_frames rbuf off (f # fs) s =
     do { s \<leftarrow> handle_frame rbuf off s; handle_frames rbuf (off + length f) fs s }"

lemma parse_frames:
  assumes "list_all apdu fs"
  shows "iec104_s_frame_parse_loop (pre @ concat fs @ post) (length pre + length (concat fs)) (length pre) s =
    handle_frames (pre @ concat fs @ post) (length pre) fs s"
  using assms
proof (induction fs arbitrary: pre s)
  case Nil
  then show ?case by (subst iec104_s_frame_parse_loop.simps) simp
next
  case (Cons f fs)
  then have f: "6 \<le> length f" "f ! 0 = IEC104_HEAD" "length f = unat (f ! 1) + 2" and "list_all apdu fs"
    by (auto simp: apdu_def [of f])
  let ?buf = "pre @ concat (f # fs) @ post"
  have "iec104_s_frame_parse_loop ?buf (length pre + length (concat (f # fs))) (length pre) s =
      do { s \<leftarrow> handle_frame ?buf (length pre) s;
           iec104_s_frame_parse_loop ?buf (length pre + length (concat (f # fs))) (length pre + length f) s }"
    using f by (subst parse_frame) (simp_all add: nth_append)
  also have "\<dots> = do { s \<leftarrow> handle_frame ?buf (length pre) s; handle_frames ?buf (length pre + length f) fs s }"
    using Cons.IH [OF \<open>list_all apdu fs\<close>, of "pre @ f"] by (simp add: add.assoc)
  finally show ?case by simp
qed

section \<open>Single frames\<close>

definition received :: "int \<Rightarrow> int \<Rightarrow> ('s, 'p, 'd) iec104s_t \<Rightarrow> ('s, 'p, 'd) iec104s_t" where
  "received k r s = s\<lparr>sn := (sn s)\<lparr>build_recv := k mod 32768 + 1, deal_send := k mod 32768, deal_recv := r mod 32768\<rparr>\<rparr>"

lemma received_fields [simp]:
  "asdu_addr (received k r s) = asdu_addr s" "stat (received k r s) = stat s" "time (received k r s) = time s"
  "get_val_cb (received k r s) = get_val_cb s" "set_val_cb (received k r s) = set_val_cb s"
  "set_val_priv (received k r s) = set_val_priv s" "serv_cb (received k r s) = serv_cb s"
  "yx_list (received k r s) = yx_list s" "yc_n_list (received k r s) = yc_n_list s"
  "yc_f_list (received k r s) = yc_f_list s" "ym_list (received k r s) = ym_list s"
  "link_ctx (received k r s) = link_ctx s" "lnk (received k r s) = lnk s" "app (received k r s) = app s"
  "build_send (sn (received k r s)) = build_send (sn s)" "build_recv (sn (received k r s)) = k mod 32768 + 1"
  by (simp_all add: received_def)

lemma deal_sn: "iec104_s_deal_sn s (nat (k mod 32768)) (nat (r mod 32768)) = (0, received k r s)"
  by (simp add: iec104_s_deal_sn_def received_def)

text \<open>An information frame: its type decides, after the numbers have been taken over.\<close>

lemma handle_i_frame:
  assumes "buf = pre @ i_frame (asdu_addr s) k r ty sq num cot bs @ post" and "off = length pre"
  shows "handle_frame buf off s =
    (let s = received k r s in
     if ty mod 256 = IEC10X_C_IC_NA_1 then map_option snd (iec104_s_asdu_call_all s buf off)
     else if ty mod 256 = IEC10X_C_CI_NA_1 then map_option snd (iec104_s_asdu_call_pulse s buf off)
     else if ty mod 256 = IEC10X_C_CS_NA_1
     then do { (_, s) \<leftarrow> iec104_s_asdu_clock s buf off; (_, s) \<leftarrow> iec104_s_build_s_ack s; Some s }
     else if ty mod 256 = IEC10X_C_SC_NA_1 \<or> ty mod 256 = IEC10X_C_DC_NA_1
     then do { (_, s) \<leftarrow> iec104_s_asdu_yk s buf off; (_, s) \<leftarrow> iec104_s_build_yk_ack s buf off; Some s }
     else if ty mod 256 = IEC10X_C_SE_NA_1 \<or> ty mod 256 = IEC10X_C_SE_NC_1
     then do { (_, s) \<leftarrow> iec104_s_asdu_yt s buf off; (_, s) \<leftarrow> iec104_s_build_yt_ack s buf off; Some s }
     else Some s)"
proof -
  note at = i_frame_at [OF assms]
  obtain b where "rd buf (Suc (Suc off)) = Some b" using at(3) by (auto simp: frame_type1_def)
  then have t2: "frame_type2 buf off = Some (unat b div 2 mod 2)" by (simp add: frame_type2_def)
  show ?thesis
    by (simp add: handle_frame_def at t2 iec104_s_frame_i_parse_def deal_sn Let_def case_prod_unfold
        map_option_case split: option.split)
qed

text \<open>A control frame of one byte that counts.\<close>

lemma u_frame_reads:
  assumes "buf = pre @ u_frame (ctrl_u u) @ post" and "off = length pre"
  shows "rd buf off = Some IEC104_HEAD" and "rd buf (Suc off) = Some 4" and "rd buf (off + 2) = Some u"
  using rd_at [of 0 "u_frame (ctrl_u u)" pre post] rd_at [of 1 "u_frame (ctrl_u u)" pre post]
    rd_at [of 2 "u_frame (ctrl_u u)" pre post] assms
  by (simp_all add: u_frame_def ctrl_u_def rd_def)

lemma handle_u_frame:
  assumes "buf = pre @ u_frame (ctrl_u u) @ post" and "off = length pre"
    and "unat u mod 2 = 1" and "unat u div 2 mod 2 = 1"
  shows "handle_frame buf off s =
    (if u = IEC104_U_FUNC_STARTDT then Some (set_init IEC10X_STA_LINK_CONNECT_OK s)
     else if u = IEC104_U_FUNC_STOPDT then map_option (set_init IEC10X_STA_LINK_DISCONNECT) (iec104_s_close s)
     else if u = IEC104_U_FUNC_TESTER then map_option snd (iec104_s_build_u_ack s IEC104_U_FUNC_TESTER)
     else if u = IEC104_U_FUNC_TESTER_ACK then Some (set_test IE10X_STA_TESTER_STOP s)
     else Some s)"
  using u_frame_reads [OF assms(1,2)] assms(3,4)
  by (simp add: handle_frame_def frame_type1_def frame_type2_def iec104_s_frame_u_parse_def case_prod_unfold
      map_option_case split: option.split)

text \<open>A read that delivers one frame.\<close>

lemma parse_one:
  assumes "apdu f"
  shows "iec104_s_frame_parse s (f @ post) (length f) = handle_frame (f @ post) 0 s"
  using parse_frames [of "[f]" "[]" post s] assms
  by (cases "handle_frame (f @ post) 0 s") (simp_all add: iec104_s_frame_parse_def)

lemma apdu_u_frame: "length c = 4 \<Longrightarrow> apdu (u_frame c)"
  by (simp add: apdu_def u_frame_def)

lemma apdu_i_frame: "length bs \<le> 245 \<Longrightarrow> apdu (i_frame addr k r ty sq num cot bs)"
  using length_i_frame [of addr k r ty sq num cot bs]
  by (simp add: apdu_def i_frame_def unat_word_ariths unat_of_nat)

lemma activation_i_frame:
  "activation (i_frame addr k r ty sq 1 IEC10X_COT_ACT (le_bytes 3 0 @ [q]) @ post) 0 q"
proof -
  note at = i_frame_at [of _ "[]" addr k r ty sq 1 IEC10X_COT_ACT "le_bytes 3 0 @ [q]" post, OF refl refl]
  show ?thesis
    using at(9) at(11) [of 3] at(12) [of 0 3]
    by (simp add: activation_def IEC10X_COT_ACT_def rd_def rdn_def le_bytes_numeral le_bytes_Suc lo8_def)
qed

section \<open>The state machine\<close>

lemma numbered_lnk_app: "(numbered n s)\<lparr>lnk := l, app := app s\<rparr> = (numbered n s)\<lparr>lnk := l\<rparr>"
  by (simp add: numbered_def)

text \<open>From \<open>CONNECT_OK\<close> the station confirms the start, announces the end of its initialisation and tells its
  application.\<close>

definition connected_state :: "int \<Rightarrow> ('s, 'p, 'd) iec104s_t \<Rightarrow> ('s, 'p, 'd) iec104s_t" where
  "connected_state t0 s =
     iec104_s_serve ((set_init IEC10X_STA_LINK_IDLE (numbered 1 s))\<lparr>time := (time s)\<lparr>tm_timer := t0\<rparr>\<rparr>) IEC10X_CONNECTED"

definition start_frames :: "('s, 'p, 'd) iec104s_t \<Rightarrow> bytes list" where
  "start_frames s = [u_frame (ctrl_u IEC104_U_FUNC_STARTDT_ACK),
     next_frame s IEC10x_M_EI_NA_1 0 1 IEC10X_COT_INIT (le_bytes 3 0 @ [0])]"

context duplex_link
begin

lemma link_step_connect:
  assumes "online s" and "st_init (stat s) = IEC10X_STA_LINK_CONNECT_OK"
  shows "\<exists>l. iec104_s_link_step t0 s = Some ((connected_state t0 s)\<lparr>lnk := l\<rparr>) \<and> ready l \<and> prompt l \<and>
    sent l = sent (lnk s) @ start_frames s \<and> pending l = pending (lnk s)"
proof -
  obtain s1 where s1: "iec104_s_send_ctrl s (ctrl_u IEC104_U_FUNC_STARTDT_ACK) = Some (0, s1)"
      and t1: "transmits 0 s s1 (app s) [u_frame (ctrl_u IEC104_U_FUNC_STARTDT_ACK)]"
    using transmits_ctrl [OF assms(1), of "ctrl_u IEC104_U_FUNC_STARTDT_ACK"] by auto
  note f = transmits_fields [OF t1]
  obtain s2 where s2: "iec104_s_build_init_finsh s1 = Some (0, s2)"
      and t2: "transmits 1 s1 s2 (app s1) [next_frame s1 IEC10x_M_EI_NA_1 0 1 IEC10X_COT_INIT (le_bytes 3 0 @ [0])]"
    using transmits_init_finsh [OF f(1)] by blast
  note t = transmits_trans [OF t1 t2]
  have n: "next_frame s1 = next_frame s" using f by (simp add: next_frame_def fun_eq_iff)
  have "s2 = (numbered 1 s)\<lparr>lnk := lnk s2\<rparr>"
    using t f(2) numbered_lnk_app [where n = 1 and s = s and l = "lnk s2"] by (simp add: transmits_def)
  then obtain l where e: "s2 = (numbered 1 s)\<lparr>lnk := l\<rparr>" by blast
  have "iec104_s_link_step t0 s = Some ((connected_state t0 s)\<lparr>lnk := l\<rparr>)"
    using assms(2) s1 s2
    by (simp add: iec104_s_link_step_def iec104_s_build_u_ack_def Let_def e connected_state_def
        iec104_s_serve_def set_init_def numbered_def split: option.split)
  moreover have "ready l \<and> prompt l" using transmits_fields(1) [OF t] by (simp add: online_def e)
  ultimately show ?thesis
    using transmits_fields(14,15) [OF t] by (intro exI [of _ l] conjI) (simp_all add: start_frames_def n e)
qed

text \<open>The line test: an idle half minute, then a test frame, then the acknowledgement or the end.\<close>

lemma tester_fires:
  assumes "online s" and "st_test (stat s) = IE10X_STA_TESTER_START" and "t1 - tm_timer (time s) > IEC10X_CIRCLE_TESTER_U"
  shows "\<exists>l. iec104_s_tester_step t1 s =
      Some (set_test IE10X_STA_TESTER_IDLE (s\<lparr>time := (time s)\<lparr>tm_test := t1, tm_timer := t1\<rparr>, lnk := l\<rparr>)) \<and>
    ready l \<and> prompt l \<and> sent l = sent (lnk s) @ [u_frame (ctrl_u IEC104_U_FUNC_TESTER)] \<and> pending l = pending (lnk s)"
proof -
  let ?s = "s\<lparr>time := (time s)\<lparr>tm_test := t1\<rparr>\<rparr>"
  have "online ?s" using assms(1) by (simp add: online_def)
  then obtain s1 where s1: "iec104_s_send_ctrl ?s (ctrl_u IEC104_U_FUNC_TESTER) = Some (0, s1)"
      and t: "transmits 0 ?s s1 (app s) [u_frame (ctrl_u IEC104_U_FUNC_TESTER)]"
    using transmits_ctrl [of ?s "ctrl_u IEC104_U_FUNC_TESTER"] by auto
  have "s1 = ?s\<lparr>lnk := lnk s1\<rparr>" using t by (simp add: transmits_def numbered_def)
  then obtain l where e: "s1 = ?s\<lparr>lnk := l\<rparr>" by blast
  have "iec104_s_tester_step t1 s =
      Some (set_test IE10X_STA_TESTER_IDLE (s\<lparr>time := (time s)\<lparr>tm_test := t1, tm_timer := t1\<rparr>, lnk := l\<rparr>))"
    using assms(2,3) s1
    by (simp add: iec104_s_tester_step_def iec104_s_build_u_def Let_def set_test_def iec104_u_funcs e)
  then show ?thesis
    using transmits_fields(1,14,15) [OF t] by (intro exI [of _ l] conjI) (simp_all add: e online_def)
qed

end

lemma tester_quiet:
  "st_test (stat s) = IE10X_STA_TESTER_START \<Longrightarrow> t1 - tm_timer (time s) \<le> IEC10X_CIRCLE_TESTER_U \<Longrightarrow>
   iec104_s_tester_step t1 s = Some (s\<lparr>time := (time s)\<lparr>tm_test := t1\<rparr>\<rparr>)"
  by (simp add: iec104_s_tester_step_def Let_def)

text \<open>A round of the thread in which nothing arrives, and one in which one frame does.\<close>

lemma round_silent:
  assumes "iec104_s_state_machine t0 t1 s = Some s1" and "link_ctx s1 = fst proto_port_eth_slave_init"
    and "client (lnk s1) \<noteq> Freed" and "rx (lnk s1) = []"
  shows "iec104_s_exec_round t0 t1 (rbuf, s) = Some (rbuf, s1)"
  using assms
  by (cases "client (lnk s1)")
     (simp_all add: iec104_s_exec_round_def proto_port_eth_slave_init_def eth_link_recv_def os_read_def wrn_def Let_def)

lemma round_one_frame:
  assumes "iec104_s_state_machine t0 t1 s = Some s1" and "station_online s1" and "rx (lnk s1) = f # cs"
    and "apdu f" and "length f \<le> length rbuf" and "length rbuf = 1500"
  shows "iec104_s_exec_round t0 t1 (rbuf, s) =
    map_option (\<lambda>s'. (f @ drop (length f) rbuf, s'))
      (handle_frame (f @ drop (length f) rbuf) 0 (s1\<lparr>lnk := (lnk s1)\<lparr>rx := cs\<rparr>\<rparr>))"
proof -
  have "f \<noteq> []" and "length f \<le> 1500" using assms(4-6) by (auto simp: apdu_def)
  then have "link_recv (link_ctx s1) (lnk s1) 1500 = Some (int (length f), f, (lnk s1)\<lparr>rx := cs\<rparr>)"
    using assms(2,3) by (simp add: station_online_def proto_port_eth_slave_init_def eth_link_recv_def os_read_def)
  with assms \<open>f \<noteq> []\<close> show ?thesis
    by (simp add: iec104_s_exec_round_def mem_simps parse_one Let_def map_option_case split: option.split)
qed

section \<open>From the connection to the first answer\<close>

lemma call_all_answer_cong:
  assumes "asdu_addr s = asdu_addr s'" "build_send (sn s) = build_send (sn s')" "build_recv (sn s) = build_recv (sn s')"
    "get_val_cb s = get_val_cb s'" "set_val_priv s = set_val_priv s'" "yx_list s = yx_list s'" "yc_n_list s = yc_n_list s'"
    "yc_f_list s = yc_f_list s'" "app s = app s'"
  shows "call_all_answer s = call_all_answer s'"
  using assms by (simp add: call_all_answer_def node_value_def)

text \<open>Sending leaves the queued chunks of the port alone.\<close>

lemma send_rx:
  assumes "iec104_s_send s buf ptr = Some (ret, s')" and "link_ctx s = fst proto_port_eth_slave_init"
  shows "rx (lnk s') = rx (lnk s) \<and> link_ctx s' = link_ctx s \<and> stat s' = stat s"
  using assms
  by (cases "client (lnk s)")
     (auto simp: iec104_s_send_def bind_Some_iff Let_def proto_port_eth_slave_init_def eth_link_send_def os_write_def
      split: prod.splits)

lemma link_step_connect_rx:
  assumes "iec104_s_link_step t0 s = Some s'" and "st_init (stat s) = IEC10X_STA_LINK_CONNECT_OK"
    and "link_ctx s = fst proto_port_eth_slave_init"
  shows "rx (lnk s') = rx (lnk s)"
proof -
  obtain r1 s1 r2 s2 where a: "iec104_s_build_u_ack s IEC104_U_FUNC_STARTDT = Some (r1, s1)"
      and b: "iec104_s_build_init_finsh s1 = Some (r2, s2)" and c: "lnk s' = lnk s2"
    using assms(1,2)
    by (auto simp: iec104_s_link_step_def iec104_s_serve_def set_init_def bind_Some_iff Let_def split: option.splits)
  have 1: "rx (lnk s1) = rx (lnk s)" "link_ctx s1 = fst proto_port_eth_slave_init"
    using a assms(3) by (auto simp: iec104_s_build_u_ack_def iec104_s_send_ctrl_def dest: send_rx)
  have "rx (lnk s2) = rx (lnk (numbered 1 s1))"
    using b 1(2) by (auto simp: iec104_s_build_init_finsh_def begin_i bind_Some_iff dest!: send_rx)
  then show ?thesis using 1 c by simp
qed

text \<open>Receiving a general interrogation.\<close>

lemma handle_general_interrogation:
  assumes "station_online s" and "get_val_cb s \<noteq> None" and "lists_sorted s" and "length (yc_f_list s) \<le> 48"
    and "buf = i_frame (asdu_addr s) k r IEC10X_C_IC_NA_1 0 1 IEC10X_COT_ACT (le_bytes 3 0 @ [20]) @ post"
  shows "\<exists>s'. handle_frame buf 0 s = Some s' \<and> tx (lnk s') = tx (lnk s) @ fst (call_all_answer (received k r s)) \<and>
    app s' = snd (call_all_answer (received k r s)) \<and> stat s' = stat s"
proof -
  have "handle_frame buf 0 s = map_option snd (iec104_s_asdu_call_all (received k r s) buf 0)"
    using handle_i_frame [of buf "[]" s k r IEC10X_C_IC_NA_1 0 1 IEC10X_COT_ACT "le_bytes 3 0 @ [20]" post 0] assms(5)
    by (simp add: iec10x_types Let_def)
  moreover have "activation buf 0 20" unfolding assms(5) by (rule activation_i_frame)
  moreover obtain fs d where a: "call_all_answer (received k r s) = (fs, d)" by fastforce
  moreover have "eth_slave.online (received k r s)" and "lists_sorted (received k r s)"
    using assms(1,3) by (simp_all add: station_online_iff [symmetric] station_online_def lists_sorted_def)
  ultimately obtain s' where "handle_frame buf 0 s = Some s'"
      and t: "eth_slave.transmits (length fs) (received k r s) s' d fs"
    using eth_slave.transmits_call_all [of "received k r s" buf 0 fs d] assms(2,4) by auto
  with eth_slave.transmits_fields [OF t] a show ?thesis by auto
qed

text \<open>The round that receives the start command, and the round that confirms it and answers an interrogation.\<close>

lemma round_start:
  assumes "station_online s" and "st_init (stat s) = IEC10X_STA_LINK_INIT" and "length rbuf = 1500"
    and "rx (lnk s) = u_frame (ctrl_u IEC104_U_FUNC_STARTDT) # cs"
  shows "iec104_s_exec_round u0 u1 (rbuf, s) = Some (u_frame (ctrl_u IEC104_U_FUNC_STARTDT) @ drop 6 rbuf,
    set_init IEC10X_STA_LINK_CONNECT_OK ((iec104_s_reset_param s)\<lparr>lnk := (lnk s)\<lparr>rx := cs\<rparr>\<rparr>))"
proof -
  let ?su = "u_frame (ctrl_u IEC104_U_FUNC_STARTDT)"
  let ?op = "set_init IEC10X_STA_LINK_OPEN (iec104_s_reset_param s)"
  have sm: "iec104_s_state_machine u0 u1 s = Some ?op"
    using assms(2) by (simp add: iec104_s_state_machine_def iec104_s_link_step_def set_init_def)
  have op: "station_online ?op" "lnk ?op = lnk s"
    using assms(1) by (simp_all add: station_online_def set_init_def iec104_s_reset_param_def)
  have h: "handle_frame (?su @ drop 6 rbuf) 0 x = Some (set_init IEC10X_STA_LINK_CONNECT_OK x)" for x
    using handle_u_frame [of "?su @ drop 6 rbuf" "[]" IEC104_U_FUNC_STARTDT "drop 6 rbuf" 0 x]
    by (simp add: iec104_u_funcs)
  have su: "length ?su = 6" "apdu ?su" by (simp add: u_frame_def) (simp add: apdu_u_frame)
  have "iec104_s_exec_round u0 u1 (rbuf, s) =
      map_option (\<lambda>s'. (?su @ drop 6 rbuf, s')) (handle_frame (?su @ drop 6 rbuf) 0 (?op\<lparr>lnk := (lnk s)\<lparr>rx := cs\<rparr>\<rparr>))"
    using round_one_frame [OF sm op(1) _ su(2), of cs rbuf] op(2) assms(3,4) by (simp add: su(1))
  then show ?thesis unfolding h by (simp add: set_init_def)
qed

lemma round_interrogate:
  assumes "station_online a" and "st_init (stat a) = IEC10X_STA_LINK_CONNECT_OK"
    and "st_test (stat a) = IE10X_STA_TESTER_START" and "t1 - t0 \<le> IEC10X_CIRCLE_TESTER_U"
    and "get_val_cb a \<noteq> None" and "lists_sorted a" and "length (yc_f_list a) \<le> 48" and "length rbuf = 1500"
    and "rx (lnk a) = [i_frame (asdu_addr a) k r IEC10X_C_IC_NA_1 0 1 IEC10X_COT_ACT (le_bytes 3 0 @ [20])]"
  shows "\<exists>rbuf' s'. iec104_s_exec_round t0 t1 (rbuf, a) = Some (rbuf', s') \<and>
    tx (lnk s') = tx (lnk a) @ start_frames a @ fst (call_all_answer (received k r (connected_state t0 a))) \<and>
    app s' = snd (call_all_answer (received k r (connected_state t0 a))) \<and> st_init (stat s') = IEC10X_STA_LINK_IDLE"
proof -
  let ?gi = "i_frame (asdu_addr a) k r IEC10X_C_IC_NA_1 0 1 IEC10X_COT_ACT (le_bytes 3 0 @ [20])"
  obtain l where ls: "iec104_s_link_step t0 a = Some ((connected_state t0 a)\<lparr>lnk := l\<rparr>)"
      and l: "client l = Live" "port_prompt l" "tx l = tx (lnk a) @ start_frames a"
    using eth_slave.link_step_connect [of a t0] assms(1,2) by (auto simp: station_online_iff)
  have rxl: "rx l = [?gi]"
    using link_step_connect_rx [OF ls assms(2)] assms(1,9) by (simp add: station_online_def)
  define a2 where "a2 = (connected_state t0 a)\<lparr>lnk := l\<rparr>"
  define a3 where "a3 = a2\<lparr>time := (time a2)\<lparr>tm_test := t1\<rparr>\<rparr>"
  have a2: "st_init (stat a2) = IEC10X_STA_LINK_IDLE" "st_test (stat a2) = IE10X_STA_TESTER_START" "tm_timer (time a2) = t0"
    "link_ctx a2 = fst proto_port_eth_slave_init" "asdu_addr a2 = asdu_addr a" "get_val_cb a2 = get_val_cb a"
    "yc_f_list a2 = yc_f_list a" "lists_sorted a2 = lists_sorted a" "lnk a2 = l"
    using assms(1,3)
    by (simp_all add: a2_def connected_state_def iec104_s_serve_def set_init_def numbered_def station_online_def
        lists_sorted_def split: option.split)
  have sm: "iec104_s_state_machine t0 t1 a = Some a3"
    using ls a2(1-3) assms(4) tester_quiet [of a2 t1]
    by (simp add: iec104_s_state_machine_def a2_def [symmetric] a3_def)
  have a3: "station_online a3" "rx (lnk a3) = [?gi]"
    using a2 l rxl by (simp_all add: a3_def station_online_def)
  let ?a4 = "a3\<lparr>lnk := (lnk a3)\<lparr>rx := []\<rparr>\<rparr>"
  have "\<exists>s2. handle_frame (?gi @ drop 16 rbuf) 0 ?a4 = Some s2 \<and>
      tx (lnk s2) = tx (lnk ?a4) @ fst (call_all_answer (received k r ?a4)) \<and>
      app s2 = snd (call_all_answer (received k r ?a4)) \<and> stat s2 = stat ?a4"
    by (rule handle_general_interrogation)
       (use a3(1) a2 assms(5-7) in \<open>simp_all add: a3_def station_online_def lists_sorted_def port_prompt_def\<close>)
  then obtain s2 where h: "handle_frame (?gi @ drop 16 rbuf) 0 ?a4 = Some s2"
      and s2: "tx (lnk s2) = tx l @ fst (call_all_answer (received k r ?a4))"
        "app s2 = snd (call_all_answer (received k r ?a4))" "stat s2 = stat a2"
    by (auto simp: a3_def a2(9))
  moreover have "call_all_answer (received k r ?a4) = call_all_answer (received k r (connected_state t0 a))"
    by (rule call_all_answer_cong) (simp_all add: a3_def a2_def)
  moreover have "iec104_s_exec_round t0 t1 (rbuf, a) = Some (?gi @ drop 16 rbuf, s2)"
    using round_one_frame [OF sm a3(1) a3(2) apdu_i_frame] assms(8) h by simp
  ultimately show ?thesis using l(3) a2(1) by simp
qed

text \<open>C11. A master that connects, starts the data transfer and asks for a general interrogation, in two reads of the station, gets the start confirmation, the end of
  initialisation numbered 0 and the whole answer numbered from 1 that acknowledges its request, within two rounds of the station's
  thread, whatever the states, counters and times of the station were before. The station runs as the slave of a TCP link whose socket
  takes whole frames and has a connection callback, it has a get callback, its lists are as the configuration leaves them with at most
  48 floats (with more the answer overruns its buffer), and the second round is not so late that the tester interferes.\<close>

theorem start_and_interrogate:
  assumes "link_ctx s0 = fst proto_port_eth_slave_init" and "260 \<le> tx_cap (lnk s0)" and "conn (lnk s0)" and "running s0"
    and "get_val_cb s0 \<noteq> None" and "lists_sorted s0" and "length (yc_f_list s0) \<le> 48"
    and "length rbuf = 1500" and "t1 - t0 \<le> IEC10X_CIRCLE_TESTER_U"
    and con: "iec104_s_connected s0 [u_frame (ctrl_u IEC104_U_FUNC_STARTDT),
      i_frame (asdu_addr s0) k r IEC10X_C_IC_NA_1 0 1 IEC10X_COT_ACT (le_bytes 3 0 @ [20])] = Some s"
    and ini: "s' = (iec104_s_serve (iec104_s_reset_param s0) IEC10X_CONNECTED)
      \<lparr>sn := \<lparr>build_send = 1, build_recv = k mod 32768 + 1, deal_send = 0, deal_recv = 0\<rparr>\<rparr>"
  shows "\<exists>rbuf2 s2. iec104_s_exec_thread [(u0, u1), (t0, t1)] (rbuf, s) = Some (rbuf2, s2) \<and>
    tx (lnk s2) = tx (lnk s0) @ [u_frame (ctrl_u IEC104_U_FUNC_STARTDT_ACK),
      i_frame (asdu_addr s0) 0 0 IEC10x_M_EI_NA_1 0 1 IEC10X_COT_INIT (le_bytes 3 0 @ [0])] @ fst (call_all_answer s') \<and>
    app s2 = snd (call_all_answer s') \<and> st_init (stat s2) = IEC10X_STA_LINK_IDLE"
proof -
  let ?su = "u_frame (ctrl_u IEC104_U_FUNC_STARTDT)"
  let ?gi = "i_frame (asdu_addr s0) k r IEC10X_C_IC_NA_1 0 1 IEC10X_COT_ACT (le_bytes 3 0 @ [20])"
  define l where "l = (lnk s0)\<lparr>client := Live, rx := [?su, ?gi]\<rparr>"
  define a where "a = set_init IEC10X_STA_LINK_CONNECT_OK
    ((iec104_s_reset_param ((iec104_s_reset_param s0)\<lparr>lnk := l\<rparr>))\<lparr>lnk := l\<lparr>rx := [?gi]\<rparr>\<rparr>)"
  have s: "s = (iec104_s_reset_param s0)\<lparr>lnk := l\<rparr>"
    using con assms(3) by (auto simp: iec104_s_connected_def eth_link_aceept_cb_def bind_Some_iff l_def split: if_splits)
  have r1: "iec104_s_exec_round u0 u1 (rbuf, s) = Some (?su @ drop 6 rbuf, a)"
    using round_start [of s rbuf "[?gi]" u0 u1] assms(1,2,8)
    by (simp add: s a_def station_online_def port_prompt_def l_def iec104_s_reset_param_def u_frame_def i_frame_def)
  have "station_online a" and f: "rx (lnk a) = [?gi]" "tx (lnk a) = tx (lnk s0)" "asdu_addr a = asdu_addr s0" "running a = running s0"
    "st_init (stat a) = IEC10X_STA_LINK_CONNECT_OK" "st_test (stat a) = IE10X_STA_TESTER_START"
    "get_val_cb a = get_val_cb s0" "yc_f_list a = yc_f_list s0" "lists_sorted a = lists_sorted s0"
    "build_send (sn a) = 0" "build_recv (sn a) = 0"
    using assms(1,2)
    by (simp_all add: a_def set_init_def iec104_s_reset_param_def l_def station_online_def port_prompt_def
        lists_sorted_def i_frame_def)
  then obtain rbuf2 s2 where r2: "iec104_s_exec_round t0 t1 (?su @ drop 6 rbuf, a) = Some (rbuf2, s2)"
      and s2: "tx (lnk s2) = tx (lnk a) @ start_frames a @ fst (call_all_answer (received k r (connected_state t0 a)))"
        "app s2 = snd (call_all_answer (received k r (connected_state t0 a)))" "st_init (stat s2) = IEC10X_STA_LINK_IDLE"
    using round_interrogate [of a t1 t0 "?su @ drop 6 rbuf" k r] assms(5-9) by (auto simp: u_frame_def)
  have "call_all_answer (received k r (connected_state t0 a)) = call_all_answer s'"
    by (rule call_all_answer_cong)
       (simp_all add: ini a_def connected_state_def iec104_s_serve_def set_init_def numbered_def iec104_s_reset_param_def
         split: option.split)
  moreover have "start_frames a = [u_frame (ctrl_u IEC104_U_FUNC_STARTDT_ACK),
      i_frame (asdu_addr s0) 0 0 IEC10x_M_EI_NA_1 0 1 IEC10X_COT_INIT (le_bytes 3 0 @ [0])]"
    using f by (simp add: start_frames_def next_frame_def)
  moreover have "running s" using assms(4) by (simp add: s iec104_s_reset_param_def)
  ultimately show ?thesis using r1 r2 f(2,4) assms(4) s2 by simp
qed

theorem start_and_interrogate_witness:
  "\<exists>s rbuf2 s2. iec104_s_connected (demo_station demo_nodes) [u_frame (ctrl_u IEC104_U_FUNC_STARTDT), demo_request] = Some s \<and>
    iec104_s_exec_thread [(0, 0), (0, 0)] (replicate 1500 0, s) = Some (rbuf2, s2) \<and>
    length (tx (lnk s2)) = 7 \<and> app s2 = 5 \<and> st_init (stat s2) = IEC10X_STA_LINK_IDLE"
proof -
  let ?s0 = "demo_station demo_nodes"
  define s' where "s' = (iec104_s_serve (iec104_s_reset_param ?s0) IEC10X_CONNECTED)
      \<lparr>sn := \<lparr>build_send = 1, build_recv = 4 mod 32768 + 1, deal_send = 0, deal_recv = 0\<rparr>\<rparr>"
  have pre: "link_ctx ?s0 = fst proto_port_eth_slave_init" "260 \<le> tx_cap (lnk ?s0)" "conn (lnk ?s0)" "running ?s0"
    "get_val_cb ?s0 \<noteq> None" "lists_sorted ?s0" "length (yc_f_list ?s0) \<le> 48" "asdu_addr ?s0 = 7"
    by (simp_all add: demo_defs demo_nodes_def lists_sorted_def Let_def)
  have "iec104_s_connected ?s0 [u_frame (ctrl_u IEC104_U_FUNC_STARTDT), demo_request] \<noteq> None"
    using pre(3) by (simp add: iec104_s_connected_def eth_link_aceept_cb_def wow_tcp_close_def demo_defs demo_nodes_def Let_def)
  then obtain s where s: "iec104_s_connected ?s0 [u_frame (ctrl_u IEC104_U_FUNC_STARTDT), demo_request] = Some s" by blast
  have ans: "length (fst (call_all_answer s')) = 5 \<and> snd (call_all_answer s') = 5"
    by (simp add: s'_def iec104_s_serve_def call_all_answer_def demo_defs demo_nodes_def node_value_def Let_def)
  have t: "0 - 0 \<le> IEC10X_CIRCLE_TESTER_U" by (simp add: IEC10X_CIRCLE_TESTER_U_def)
  from start_and_interrogate [OF pre(1-7) _ t s [unfolded demo_request_def, folded pre(8)] s'_def,
      of "replicate 1500 0" 0 0] s ans demo_station_fields(9)
  show ?thesis by auto
qed

text \<open>The frames of one read are handled one after another, in order, whatever each of them does.\<close>

theorem frames_in_order:
  assumes "list_all apdu fs"
  shows "iec104_s_frame_parse s (concat fs @ post) (length (concat fs)) = handle_frames (concat fs @ post) 0 fs s"
  using parse_frames [OF assms, of "[]"] by (simp add: iec104_s_frame_parse_def)

theorem frames_in_order_witness:
  "iec104_s_frame_parse (demo_station demo_nodes)
     (concat [u_frame (ctrl_u IEC104_U_FUNC_STARTDT), u_frame (ctrl_u IEC104_U_FUNC_TESTER_ACK)] @ [1, 2, 3]) 12 =
   Some (set_test IE10X_STA_TESTER_STOP (set_init IEC10X_STA_LINK_CONNECT_OK (demo_station demo_nodes)))"
proof -
  let ?a = "u_frame (ctrl_u IEC104_U_FUNC_STARTDT)" and ?b = "u_frame (ctrl_u IEC104_U_FUNC_TESTER_ACK)"
  let ?buf = "concat [?a, ?b] @ [1, 2, 3]"
  have "list_all apdu [?a, ?b]" by (simp add: apdu_u_frame)
  from frames_in_order [OF this, of "demo_station demo_nodes" "[1, 2, 3]"]
  have "iec104_s_frame_parse (demo_station demo_nodes) ?buf 12 = handle_frames ?buf 0 [?a, ?b] (demo_station demo_nodes)"
    by (simp add: u_frame_def)
  moreover have "handle_frame ?buf 0 x = Some (set_init IEC10X_STA_LINK_CONNECT_OK x)" for x :: "(proto_port, nat, nat) iec104s_t"
    using handle_u_frame [of ?buf "[]" IEC104_U_FUNC_STARTDT "?b @ [1, 2, 3]" 0 x] by (simp add: iec104_u_funcs)
  moreover have "handle_frame ?buf (length ?a) x = Some (set_test IE10X_STA_TESTER_STOP x)" for x :: "(proto_port, nat, nat) iec104s_t"
    using handle_u_frame [of ?buf ?a IEC104_U_FUNC_TESTER_ACK "[1, 2, 3]" "length ?a" x] by (simp add: iec104_u_funcs)
  ultimately show ?thesis by simp
qed

text \<open>C15. A connected station whose peer stays silent sends one test frame once half a minute has passed since the
  last activity it counts, and three seconds later closes the connection and starts over.\<close>

theorem silent_peer_closed:
  assumes "station_online s" and "running s" and "rx (lnk s) = []" and "length rbuf = 1500"
    and "st_init (stat s) = IEC10X_STA_LINK_IDLE" and "st_test (stat s) = IE10X_STA_TESTER_START"
    and "t1 - tm_timer (time s) > IEC10X_CIRCLE_TESTER_U" and "t2 - t1 > IEC10X_TESTER_U_TIMEOUT"
  shows "\<exists>s'. iec104_s_exec_thread [(u1, t1), (u2, t2)] (rbuf, s) = Some (rbuf, s') \<and>
    client (lnk s') = Null \<and> st_init (stat s') = IEC10X_STA_LINK_INIT \<and>
    tx (lnk s') = tx (lnk s) @ [u_frame (ctrl_u IEC104_U_FUNC_TESTER)]"
proof -
  obtain l where fire: "iec104_s_tester_step t1 s =
        Some (set_test IE10X_STA_TESTER_IDLE (s\<lparr>time := (time s)\<lparr>tm_test := t1, tm_timer := t1\<rparr>, lnk := l\<rparr>))"
      and l: "client l = Live" "port_prompt l" "tx l = tx (lnk s) @ [u_frame (ctrl_u IEC104_U_FUNC_TESTER)]" "concat (rx l) = []"
    using eth_slave.tester_fires [of s t1] assms(1,3,6,7) by (auto simp: station_online_iff)
  define s1 where "s1 = set_test IE10X_STA_TESTER_IDLE (s\<lparr>time := (time s)\<lparr>tm_test := t1, tm_timer := t1\<rparr>, lnk := l\<rparr>)"
  define s2 where "s2 = set_init IEC10X_STA_LINK_INIT (s1\<lparr>lnk := l\<lparr>client := Null\<rparr>\<rparr>)"
  have rx: "rx l = []" using l(2,4) by (auto simp: port_prompt_def dest: concat_nonempty_Nil)
  have idle: "iec104_s_link_step u s = Some s" if "st_init (stat s) = IEC10X_STA_LINK_IDLE"
    for u and s :: "(proto_port, 'a, 'b) iec104s_t"
    using that by (simp add: iec104_s_link_step_def)
  have 1: "iec104_s_exec_round u1 t1 (rbuf, s) = Some (rbuf, s1)"
    by (rule round_silent)
       (use fire assms(1,5) rx l(1) idle in \<open>simp_all add: iec104_s_state_machine_def s1_def set_test_def station_online_def\<close>)
  have "iec104_s_tester_step t2 s1 = Some s2"
    using assms(1,8) l(1)
    by (simp add: iec104_s_tester_step_def s1_def s2_def set_test_def iec104_s_close_def station_online_def
        proto_port_eth_slave_init_def eth_link_close_def wow_tcp_close_def)
  moreover have "st_init (stat s1) = IEC10X_STA_LINK_IDLE" using assms(5) by (simp add: s1_def set_test_def)
  ultimately have 2: "iec104_s_exec_round u2 t2 (rbuf, s1) = Some (rbuf, s2)"
    by (intro round_silent)
       (use assms(1) rx idle in \<open>simp_all add: iec104_s_state_machine_def s2_def s1_def set_test_def set_init_def station_online_def\<close>)
  show ?thesis using 1 2 assms(2) l(3) by (simp add: s1_def s2_def set_test_def set_init_def)
qed

theorem silent_peer_closed_witness:
  "\<exists>s'. iec104_s_exec_thread [(0, 40000), (0, 50000)]
      (replicate 1500 0, set_init IEC10X_STA_LINK_IDLE (demo_station demo_nodes)) = Some (replicate 1500 0, s') \<and>
    client (lnk s') = Null \<and> st_init (stat s') = IEC10X_STA_LINK_INIT \<and>
    tx (lnk s') = [u_frame (ctrl_u IEC104_U_FUNC_TESTER)]"
  using silent_peer_closed [of "set_init IEC10X_STA_LINK_IDLE (demo_station demo_nodes)" "replicate 1500 0" 40000 50000 0 0]
    demo_station_fields(1,9)
  by (simp add: demo_defs demo_nodes_def set_init_def station_online_def IEC10X_CIRCLE_TESTER_U_def
      IEC10X_TESTER_U_TIMEOUT_def Let_def)

end
