(* ===== verification/Iec104Command.thy ===== *)
theory Iec104Command
  imports Iec104Link
begin

text \<open>
  Commands to the IEC 104 controlled station (single and double commands, normalised and float
  set points) and the spontaneous transmissions of the application: what is handed to the
  application, what is sent, and where the 256-byte frame buffer is left.
\<close>

section \<open>Command objects\<close>

text \<open>An object is its address, its value bytes and a qualifier; \<open>keep\<close> is false for objects whose qualifier
  has the select bit. \<open>effect\<close> hands the others to the application, in order.\<close>

definition cmd_bytes :: "nat \<times> bytes \<times> u8 \<Rightarrow> bytes" where
  "cmd_bytes = (\<lambda>(a, v, q). le_bytes 3 a @ v @ [q])"

definition effect :: "('s, 'p, 'd) iec104s_t \<Rightarrow> (DevNodeInfo_T \<times> DevValue_U) list \<Rightarrow> 'd" where
  "effect s cmds =
     (case set_val_cb s of None \<Rightarrow> app s | Some cb \<Rightarrow> foldl (\<lambda>d (node, v). cb (set_val_priv s) node v d) (app s) cmds)"

definition yt_commands :: "DevDataType_E \<Rightarrow> (nat \<times> bytes \<times> u8) list \<Rightarrow> (DevNodeInfo_T \<times> DevValue_U) list" where
  "yt_commands ty objs =
     map (\<lambda>(a, v, q). (\<lparr>node_mode = DEV_TYPE_YT, node_addr = word_of_nat a, node_type = ty\<rparr>, word_of_nat (le_val v)))
       (filter (\<lambda>(a, v, q). q AND 0x80 = 0) objs)"

definition yk_commands :: "u8 \<Rightarrow> (nat \<times> bytes \<times> u8) list \<Rightarrow> (DevNodeInfo_T \<times> DevValue_U) list" where
  "yk_commands msk objs =
     map (\<lambda>(a, v, q). (\<lparr>node_mode = DEV_TYPE_YK, node_addr = word_of_nat a, node_type = DATA_SINT_8\<rparr>, ucast (q AND msk)))
       (filter (\<lambda>(a, v, q). q AND 0x80 = 0) objs)"

lemma effect_Nil [simp]: "effect s [] = app s"
  by (simp add: effect_def split: option.split)

lemma effect_Cons: "effect s ((node, v) # cmds) = effect (iec104_s_set s node v) cmds"
  by (simp add: effect_def iec104_s_set_def split: option.split)

lemma set_app: "(iec104_s_set s node v)\<lparr>app := d\<rparr> = s\<lparr>app := d\<rparr>"
  by (simp add: iec104_s_set_def split: option.split)

lemma cmd_read:
  assumes "length v = w"
  shows "rdn (pre @ cmd_bytes (a, v, q) @ post) (length pre) 3 = Some (le_bytes 3 a)"
    and "rdn (pre @ cmd_bytes (a, v, q) @ post) (length pre + 3) w = Some v"
    and "rd (pre @ cmd_bytes (a, v, q) @ post) (length pre + 3 + w) = Some q"
  using assms by (simp_all add: cmd_bytes_def rdn_def rd_def nth_append)

lemma word_of_addr: "(word_of_nat (le_val (le_bytes 3 a)) :: u16) = word_of_nat a"
proof -
  have "(word_of_nat (a mod 16777216) :: u16) = word_of_nat a"
    by (simp add: word_unat_eq_iff unat_of_nat mod_mod_cancel)
  then show ?thesis by simp
qed

lemma yt_single_objects:
  assumes "\<forall>(a, v, q) \<in> set objs. length v = w"
  shows "iec104_s_yt_single (pre @ concat (map cmd_bytes objs) @ post) w ty (length pre) (length objs) s =
    Some (s\<lparr>app := effect s (yt_commands ty objs)\<rparr>)"
  using assms
proof (induction objs arbitrary: pre s)
  case Nil
  then show ?case by (simp add: yt_commands_def)
next
  case (Cons x objs)
  obtain a v q where x: "x = (a, v, q)" by (cases x)
  have w: "length v = w" and IHp: "\<forall>(a, v, q) \<in> set objs. length v = w" using Cons.prems by (auto simp: x)
  note rds = cmd_read [OF w, of pre a q "concat (map cmd_bytes objs) @ post"]
  have len: "length (cmd_bytes (a, v, q)) = w + 4" using w by (simp add: cmd_bytes_def)
  show ?case
    using rds Cons.IH [OF IHp, of "pre @ cmd_bytes (a, v, q)"]
    by (simp add: x len word_of_addr yt_commands_def effect_Cons set_app add.assoc del: le_val_le_bytes)
qed

lemma yk_single_objects:
  assumes "\<forall>(a, v, q) \<in> set objs. length v = 0"
  shows "iec104_s_yk_single (pre @ concat (map cmd_bytes objs) @ post) msk (length pre) (length objs) s =
    Some (s\<lparr>app := effect s (yk_commands msk objs)\<rparr>)"
  using assms
proof (induction objs arbitrary: pre s)
  case Nil
  then show ?case by (simp add: yk_commands_def)
next
  case (Cons x objs)
  obtain a v q where x: "x = (a, v, q)" by (cases x)
  have w: "length v = 0" and IHp: "\<forall>(a, v, q) \<in> set objs. length v = 0" using Cons.prems by (auto simp: x)
  note rds = cmd_read [OF w, of pre a q "concat (map cmd_bytes objs) @ post"]
  have len: "length (cmd_bytes (a, v, q)) = 4" using w by (simp add: cmd_bytes_def)
  show ?case
    using rds Cons.IH [OF IHp, of "pre @ cmd_bytes (a, v, q)"]
    by (simp add: x len word_of_addr yk_commands_def effect_Cons set_app add.assoc del: le_val_le_bytes)
qed

lemma length_cmds:
  "\<forall>(a, v, q) \<in> set objs. length v = w \<Longrightarrow> length (concat (map cmd_bytes objs)) = length objs * (w + 4)"
  by (induction objs) (auto simp: cmd_bytes_def)

section \<open>The confirmation mirrors the command\<close>

lemma mirror_bytes:
  assumes "buf = pre @ i_frame addr k r ty 0 num cot body @ post" and "off = length pre" and "n = length body"
  shows "rdn buf (off + 12) n = Some body"
  using i_frame_at(12) [OF assms(1,2), of 0 n] assms(3) by (simp add: rdn_def)

context duplex_link
begin

lemma transmits_mirror:
  assumes "online s" and "length body \<le> 243" and "ptr = 12 + length body"
  shows "\<exists>s'. do { buf \<leftarrow> wrn (i_head s ty sq num cot @ replicate 244 0) 12 body; iec104_s_send (numbered 1 s) buf ptr } =
      Some (0, s') \<and> transmits 1 s s' (app s) [next_frame s ty sq num cot body]"
  using transmits_i_frame [OF assms, of "app s" ty sq num cot "replicate (244 - length body) 0"] assms(2)
  by (simp add: wrn_at_end)

lemma transmits_yk_ack:
  assumes "buf = pre @ i_frame addr k r ty 0 (length objs) cot (concat (map cmd_bytes objs)) @ post" and "off = length pre"
    and "ty = IEC10X_C_SC_NA_1 \<or> ty = IEC10X_C_DC_NA_1"
    and "\<forall>(a, v, q) \<in> set objs. length v = 0" and "length objs \<le> 60" and "online s"
  shows "\<exists>s'. iec104_s_build_yk_ack s buf off = Some (0, s') \<and>
    transmits 1 s s' (app s) [next_frame s ty 0 (length objs) IEC10X_COT_ACTCON (concat (map cmd_bytes objs))]"
proof -
  note at = i_frame_at [OF assms(1,2)] and len = length_cmds [OF assms(4)]
  have "ty mod 256 = ty" and "length objs mod 128 = length objs"
    using assms(3,5) by (auto simp: iec10x_types)
  moreover have "rdn buf (off + 12) (length objs * 4) = Some (concat (map cmd_bytes objs))"
    using mirror_bytes [OF assms(1,2), of "length objs * 4"] len by simp
  ultimately show ?thesis
    using transmits_mirror [OF assms(6), of "concat (map cmd_bytes objs)" "12 + length objs * 4" ty 0 "length objs" IEC10X_COT_ACTCON]
      at(6-8) len assms(3,5)
    by (simp add: iec104_s_build_yk_ack_def begin_i)
qed

lemma transmits_yt_ack:
  assumes "buf = pre @ i_frame addr k r ty 0 (length objs) cot (concat (map cmd_bytes objs)) @ post" and "off = length pre"
    and "ty = IEC10X_C_SE_NA_1 \<and> w = 2 \<or> ty = IEC10X_C_SE_NC_1 \<and> w = 4"
    and "\<forall>(a, v, q) \<in> set objs. length v = w" and "length objs * (w + 4) \<le> 243" and "online s"
  shows "\<exists>s'. iec104_s_build_yt_ack s buf off = Some (0, s') \<and>
    transmits 1 s s' (app s) [next_frame s ty 0 (length objs) IEC10X_COT_ACTCON (concat (map cmd_bytes objs))]"
proof -
  note at = i_frame_at [OF assms(1,2)] and len = length_cmds [OF assms(4)]
  have "length objs * 4 \<le> length objs * (w + 4)" by simp
  then have "ty mod 256 = ty" and "length objs mod 128 = length objs"
    using assms(3,5) by (auto simp: iec10x_types)
  moreover have "rdn buf (off + 12) (length objs * (w + 4)) = Some (concat (map cmd_bytes objs))"
    using mirror_bytes [OF assms(1,2), of "length objs * (w + 4)"] len by simp
  ultimately show ?thesis
    using transmits_mirror [OF assms(6), of "concat (map cmd_bytes objs)" "12 + length objs * (w + 4)" ty 0 "length objs" IEC10X_COT_ACTCON]
      at(6-8) len assms(3,5)
    by (auto simp: iec104_s_build_yt_ack_def begin_i iec10x_types)
qed

end

section \<open>Properties of commands\<close>

lemma online_app: "station_online (s\<lparr>app := d\<rparr>) = station_online s"
  by (simp add: station_online_def)

lemma effect_received [simp]: "effect (received k r s) cmds = effect s cmds"
  by (cases "set_val_cb s") (simp_all add: effect_def)

lemma i_frame_split:
  obtains h where "i_frame addr k r ty sq num cot bs = h @ bs" and "length h = 12"
proof
  show "i_frame addr k r ty sq num cot bs = ([IEC104_HEAD, word_of_nat (10 + length bs)] @ ctrl_i k r @ asdu_head ty sq num cot addr) @ bs"
    by (simp add: i_frame_def)
qed simp

lemma station_executes_yk:
  assumes "station_online s" and "ty = IEC10X_C_SC_NA_1 \<and> msk = 1 \<or> ty = IEC10X_C_DC_NA_1 \<and> msk = 3"
    and "\<forall>(a, v, q) \<in> set objs. length v = 0" and "length objs \<le> 60"
    and "buf = pre @ i_frame (asdu_addr s) k r ty 0 (length objs) IEC10X_COT_ACT (concat (map cmd_bytes objs)) @ post"
  shows "\<exists>s'. handle_frame buf (length pre) s = Some s' \<and> app s' = effect s (yk_commands msk objs) \<and>
    tx (lnk s') = tx (lnk s) @ [i_frame (asdu_addr s) (build_send (sn s)) (k mod 32768 + 1) ty 0 (length objs)
      IEC10X_COT_ACTCON (concat (map cmd_bytes objs))] \<and>
    station_online s' \<and> s' = (numbered 1 (received k r s))\<lparr>lnk := lnk s', app := app s'\<rparr>"
proof -
  let ?s = "(received k r s)\<lparr>app := effect s (yk_commands msk objs)\<rparr>"
  note at = i_frame_at [OF assms(5) refl]
  have ty: "ty mod 256 = ty" "ty = IEC10X_C_SC_NA_1 \<or> ty = IEC10X_C_DC_NA_1" "length objs mod 128 = length objs"
    "IEC10X_COT_ACT mod 16384 = IEC10X_COT_ACT"
    using assms(2,4) by (auto simp: iec10x_types iec10x_cots)
  have fld: "asdu_type buf (length pre) = Some ty" "asdu_num buf (length pre) = Some (length objs)"
    "asdu_sq buf (length pre) = Some 0" "asdu_reason buf (length pre) = Some IEC10X_COT_ACT"
    using at(6-9) ty by simp_all
  obtain h where h: "i_frame (asdu_addr s) k r ty 0 (length objs) IEC10X_COT_ACT (concat (map cmd_bytes objs)) =
      h @ concat (map cmd_bytes objs)" "length h = 12" by (rule i_frame_split)
  have "iec104_s_yk_single buf msk (length pre + 12) (length objs) (received k r s) = Some ?s"
    using yk_single_objects [OF assms(3), of "pre @ h" post msk "received k r s"] h assms(5) by simp
  then have yk: "iec104_s_asdu_yk (received k r s) buf (length pre) = Some (0, ?s)"
    using fld assms(2) by (elim disjE conjE) (simp_all add: iec104_s_asdu_yk_def iec10x_types)
  have "eth_slave.online ?s" using assms(1) by (simp add: station_online_iff [symmetric] station_online_def)
  from eth_slave.transmits_yk_ack [OF assms(5) refl ty(2) assms(3,4) this]
  obtain s' where ack: "iec104_s_build_yk_ack ?s buf (length pre) = Some (0, s')"
      and t: "eth_slave.transmits 1 ?s s' (app ?s) [next_frame ?s ty 0 (length objs) IEC10X_COT_ACTCON (concat (map cmd_bytes objs))]"
    by blast
  have "handle_frame buf (length pre) s = Some s'"
    using yk ack ty(2) handle_i_frame [OF assms(5) refl] ty(1)
    by (auto simp: Let_def iec10x_types)
  moreover have "station_online s'" and "s' = (numbered 1 ?s)\<lparr>lnk := lnk s', app := app s'\<rparr>"
    using t eth_slave.transmits_fields(1,2) [OF t] by (simp_all add: station_online_iff eth_slave.transmits_def)
  then have "station_online s' \<and> s' = (numbered 1 (received k r s))\<lparr>lnk := lnk s', app := app s'\<rparr>"
    by (simp add: numbered_def)
  ultimately show ?thesis using eth_slave.transmits_fields(2,14) [OF t] by (simp add: next_frame_def)
qed

text \<open>C14. A single or double command frame of up to 60 objects hands every object that is not a mere selection
  to the application, in order, with its address and state, and is confirmed by a frame that repeats
  its objects and acknowledges its number.\<close>

theorem yk_executed:
  assumes "station_online s" and "ty = IEC10X_C_SC_NA_1 \<and> msk = 1 \<or> ty = IEC10X_C_DC_NA_1 \<and> msk = 3"
    and "\<forall>(a, v, q) \<in> set objs. length v = 0" and "length objs \<le> 60"
    and "buf = pre @ i_frame (asdu_addr s) k r ty 0 (length objs) IEC10X_COT_ACT (concat (map cmd_bytes objs)) @ post"
  shows "\<exists>s'. handle_frame buf (length pre) s = Some s' \<and> app s' = effect s (yk_commands msk objs) \<and>
    tx (lnk s') = tx (lnk s) @ [i_frame (asdu_addr s) (build_send (sn s)) (k mod 32768 + 1) ty 0 (length objs)
      IEC10X_COT_ACTCON (concat (map cmd_bytes objs))]"
  using station_executes_yk [OF assms] by blast

text \<open>The same for set points, normalised and float, as long as the objects fit a frame.\<close>

theorem yt_executed:
  assumes "station_online s"
    and "ty = IEC10X_C_SE_NA_1 \<and> w = 2 \<and> d = DATA_SINT_16 \<or> ty = IEC10X_C_SE_NC_1 \<and> w = 4 \<and> d = DATA_FLOAT"
    and "\<forall>(a, v, q) \<in> set objs. length v = w" and "length objs * (w + 4) \<le> 243"
    and "buf = pre @ i_frame (asdu_addr s) k r ty 0 (length objs) IEC10X_COT_ACT (concat (map cmd_bytes objs)) @ post"
  shows "\<exists>s'. handle_frame buf (length pre) s = Some s' \<and> app s' = effect s (yt_commands d objs) \<and>
    tx (lnk s') = tx (lnk s) @ [i_frame (asdu_addr s) (build_send (sn s)) (k mod 32768 + 1) ty 0 (length objs)
      IEC10X_COT_ACTCON (concat (map cmd_bytes objs))]"
proof -
  let ?s = "(received k r s)\<lparr>app := effect s (yt_commands d objs)\<rparr>"
  note at = i_frame_at [OF assms(5) refl]
  have "length objs * 4 \<le> length objs * (w + 4)" by simp
  then have ty: "ty mod 256 = ty" "ty = IEC10X_C_SE_NA_1 \<and> w = 2 \<or> ty = IEC10X_C_SE_NC_1 \<and> w = 4"
    "length objs mod 128 = length objs" "IEC10X_COT_ACT mod 16384 = IEC10X_COT_ACT"
    using assms(2,4) by (auto simp: iec10x_types iec10x_cots)
  have fld: "asdu_type buf (length pre) = Some ty" "asdu_num buf (length pre) = Some (length objs)"
    "asdu_sq buf (length pre) = Some 0" "asdu_reason buf (length pre) = Some IEC10X_COT_ACT"
    using at(6-9) ty by simp_all
  obtain h where h: "i_frame (asdu_addr s) k r ty 0 (length objs) IEC10X_COT_ACT (concat (map cmd_bytes objs)) =
      h @ concat (map cmd_bytes objs)" "length h = 12" by (rule i_frame_split)
  have "iec104_s_yt_single buf w d (length pre + 12) (length objs) (received k r s) = Some ?s"
    using yt_single_objects [OF assms(3), of "pre @ h" post d "received k r s"] h assms(5) by simp
  then have yt: "iec104_s_asdu_yt (received k r s) buf (length pre) = Some (0, ?s)"
    using fld assms(2) by (elim disjE conjE) (simp_all add: iec104_s_asdu_yt_def iec10x_types)
  have "eth_slave.online ?s" using assms(1) by (simp add: station_online_iff [symmetric] station_online_def)
  from eth_slave.transmits_yt_ack [OF assms(5) refl ty(2) assms(3,4) this]
  obtain s' where ack: "iec104_s_build_yt_ack ?s buf (length pre) = Some (0, s')"
      and t: "eth_slave.transmits 1 ?s s' (app ?s) [next_frame ?s ty 0 (length objs) IEC10X_COT_ACTCON (concat (map cmd_bytes objs))]"
    by blast
  have "handle_frame buf (length pre) s = Some s'"
    using yt ack ty(2) handle_i_frame [OF assms(5) refl] ty(1)
    by (auto simp: Let_def iec10x_types)
  with eth_slave.transmits_fields(2,14) [OF t] show ?thesis by (simp add: next_frame_def)
qed

definition demo_set :: "nat \<Rightarrow> DevNodeInfo_T \<Rightarrow> DevValue_U \<Rightarrow> nat \<Rightarrow> nat" where
  "demo_set priv node v d = 1000 * d + unat (node_addr node) * 10 + unat v"

theorem yk_executed_witness:
  "\<exists>s'. handle_frame ([9, 9] @ i_frame 7 5 0 IEC10X_C_SC_NA_1 0 2 IEC10X_COT_ACT
        (concat (map cmd_bytes [(1, [], 1), (2, [], 0x81)])) @ [0]) 2 ((demo_station [])\<lparr>set_val_cb := Some demo_set\<rparr>) = Some s' \<and>
    app s' = 11 \<and>
    tx (lnk s') = [i_frame 7 0 6 IEC10X_C_SC_NA_1 0 2 IEC10X_COT_ACTCON (concat (map cmd_bytes [(1, [], 1), (2, [], 0x81)]))]"
proof -
  let ?s = "(demo_station [])\<lparr>set_val_cb := Some demo_set\<rparr>"
  let ?objs = "[(1, [], 1), (2, [], 0x81)] :: (nat \<times> bytes \<times> u8) list"
  have s: "station_online ?s" "tx (lnk ?s) = []" "build_send (sn ?s) = 0" "asdu_addr ?s = 7" "app ?s = 0"
    by (simp_all add: station_online_def demo_defs port_prompt_def Let_def)
  have "effect ?s (yk_commands 1 ?objs) = 11"
    by (simp add: effect_def yk_commands_def demo_set_def s(5))
  moreover have "(\<forall>(a, v, q) \<in> set ?objs. length v = 0) \<and> length ?objs \<le> 60" by simp
  ultimately show ?thesis
    using yk_executed [OF s(1), of IEC10X_C_SC_NA_1 1 ?objs _ "[9, 9]" 5 0 "[0]", OF _ _ _ refl] s
    by (auto simp: numeral_2_eq_2)
qed

theorem yt_executed_witness:
  "\<exists>s'. handle_frame (i_frame 7 5 0 IEC10X_C_SE_NA_1 0 1 IEC10X_COT_ACT (concat (map cmd_bytes [(3, [4, 0], 0)]))) 0
      ((demo_station [])\<lparr>set_val_cb := Some demo_set\<rparr>) = Some s' \<and> app s' = 34 \<and> length (tx (lnk s')) = 1"
proof -
  let ?s = "(demo_station [])\<lparr>set_val_cb := Some demo_set\<rparr>"
  let ?objs = "[(3, [4, 0], 0)] :: (nat \<times> bytes \<times> u8) list"
  have s: "station_online ?s" "tx (lnk ?s) = []" "asdu_addr ?s = 7" "app ?s = 0"
    by (simp_all add: station_online_def demo_defs port_prompt_def Let_def)
  have "effect ?s (yt_commands DATA_SINT_16 ?objs) = 34"
    by (simp add: effect_def yt_commands_def demo_set_def s(4))
  moreover have "(\<forall>(a, v, q) \<in> set ?objs. length v = 2) \<and> length ?objs * (2 + 4) \<le> 243" by simp
  ultimately show ?thesis
    using yt_executed [OF s(1), of IEC10X_C_SE_NA_1 2 DATA_SINT_16 ?objs _ "[]" 5 0 "[]", OF _ _ _ refl] s by auto
qed

text \<open>A received float set-point frame that announces 31 or more separate objects is undefined behaviour,
  whatever else it contains: the confirmation copies the announced objects into the 256-byte frame
  buffer without looking at its size.\<close>

theorem yt_count_overflow:
  assumes "frame_type1 buf off = Some 0" and "asdu_addr_field buf off = Some (unat (asdu_addr s))"
    and "asdu_type buf off = Some IEC10X_C_SE_NC_1" and "asdu_num buf off = Some n" and "31 \<le> n"
    and "asdu_sq buf off = Some 0"
  shows "handle_frame buf off s = None"
proof -
  have "iec104_s_build_yt_ack s' buf off = None" for s' :: "('a, 'b, 'c) iec104s_t"
    using assms(3-6) by (auto simp: iec104_s_build_yt_ack_def begin_i iec10x_types wrn_at_end rdn_def)
  then have "iec104_s_frame_i_parse s buf off = None"
    using assms(2,3)
    by (auto simp: iec104_s_frame_i_parse_def iec104_s_deal_sn_def iec10x_types Let_def
        case_prod_unfold split: bind_split)
  then show ?thesis using assms(1) by (simp add: handle_frame_def split: bind_split)
qed

theorem yt_count_overflow_witness:
  "handle_frame (i_frame 7 0 0 IEC10X_C_SE_NC_1 0 127 IEC10X_COT_ACT [] @ replicate 1488 0) 0 (demo_station []) = None"
proof -
  note at = i_frame_at [of _ "[]" 7 0 0 IEC10X_C_SE_NC_1 0 127 IEC10X_COT_ACT "[]" "replicate 1488 0", OF refl refl]
  show ?thesis
    by (rule yt_count_overflow [of _ _ _ 127]) (use at(3,6-10) in \<open>simp_all add: iec10x_types demo_defs Let_def\<close>)
qed

section \<open>Spontaneous transmissions\<close>

lemma spon_fill:
  assumes "ptr \<le> length buf" and "i \<le> length nodes"
  shows "iec104_s_spon_fill obj nodes i n buf ptr =
    (if i + n \<le> length nodes
     then do { b \<leftarrow> wrn buf ptr (concat (map obj (take n (drop i nodes))));
               Some (b, ptr + length (concat (map obj (take n (drop i nodes))))) }
     else None)"
  using assms
proof (induction n arbitrary: i buf ptr)
  case 0
  then show ?case by (auto simp: wrn_def)
next
  case (Suc n)
  show ?case
  proof (cases "i < length nodes")
    case False
    then show ?thesis by (simp add: rd_def)
  next
    case True
    let ?o = "obj (nodes ! i)" and ?r = "concat (map obj (take n (drop (Suc i) nodes)))"
    have t: "take (Suc n) (drop i nodes) = nodes ! i # take n (drop (Suc i) nodes)"
      using True by (simp add: Cons_nth_drop_Suc [symmetric])
    show ?thesis
    proof (cases "wrn buf ptr ?o")
      case None
      then have "wrn buf ptr (?o @ ?r) = None" by (simp add: wrn_None_iff)
      with None True show ?thesis by (simp add: rd_def t)
    next
      case (Some b)
      then have "ptr + length ?o \<le> length b" by (auto simp: wrn_Some_iff)
      with Some True Suc.IH [OF this Suc_leI [OF True]] show ?thesis
        by (simp add: rd_def t wrn_wrn_self [OF Some] add.assoc)
    qed
  qed
qed

text \<open>What a spontaneous frame of \<open>count\<close> nodes contains.\<close>

definition spon_body :: "(DevNodeCtrl_T \<Rightarrow> bytes) \<Rightarrow> DevNodeCtrl_T list \<Rightarrow> u8 \<Rightarrow> bytes" where
  "spon_body obj nodes count = concat (map obj (take (unat count) nodes))"

definition yx_spon_type :: "DevNodeCtrl_T \<Rightarrow> nat" where
  "yx_spon_type first = (if cp56_year (val_time (ctrl_value first)) = 0 then IEC10X_M_SP_NA_1 else IEC10X_M_SP_TB_1)"

lemma build_yx_spon:
  assumes "st_init (stat s) = IEC10X_STA_LINK_IDLE" and "0 < unat count" and "unat count \<le> length nodes"
  shows "wow_iec104_s_build_yx_spon s (Some nodes) count =
    do { b \<leftarrow> wrn (i_head s (yx_spon_type (nodes ! 0)) 0 (unat count) IEC10X_COT_SPONT @ replicate 244 0) 12
           (spon_body iec104_s_yx_object nodes count);
         iec104_s_send (numbered 1 s) b (12 + length (spon_body iec104_s_yx_object nodes count)) }"
proof -
  have "0 < length nodes" using assms(2,3) by linarith
  then show ?thesis
    using assms by (simp add: wow_iec104_s_build_yx_spon_def rd_def begin_i spon_fill spon_body_def yx_spon_type_def
        case_prod_unfold)
qed

lemma build_yc_spon:
  assumes "st_init (stat s) = IEC10X_STA_LINK_IDLE" and "0 < unat count" and "unat count \<le> length nodes"
  shows "wow_iec104_s_build_yc_spon s (Some nodes) count =
    do { b \<leftarrow> wrn (i_head s (iec104_s_yc_spon_type (nodes ! 0)) 0 (unat count) IEC10X_COT_SPONT @ replicate 244 0) 12
           (spon_body (iec104_s_yc_object (nodes ! 0)) nodes count);
         iec104_s_send (numbered 1 s) b (12 + length (spon_body (iec104_s_yc_object (nodes ! 0)) nodes count)) }"
proof -
  have "0 < length nodes" using assms(2,3) by linarith
  then show ?thesis
    using assms by (simp add: wow_iec104_s_build_yc_spon_def rd_def begin_i spon_fill spon_body_def case_prod_unfold)
qed

text \<open>A spontaneous transmission of single points that fits the frame buffer with a byte to spare sends one
  frame: the type says whether the first node has a time, the objects are the nodes in order.\<close>

theorem yx_spon_sent:
  assumes "station_online s" and "st_init (stat s) = IEC10X_STA_LINK_IDLE" and "0 < unat count" and "unat count \<le> length nodes"
    and "length (spon_body iec104_s_yx_object nodes count) \<le> 243"
  shows "\<exists>s'. wow_iec104_s_build_yx_spon s (Some nodes) count = Some (0, s') \<and>
    tx (lnk s') = tx (lnk s) @ [i_frame (asdu_addr s) (build_send (sn s)) (build_recv (sn s)) (yx_spon_type (nodes ! 0)) 0
      (unat count) IEC10X_COT_SPONT (spon_body iec104_s_yx_object nodes count)] \<and>
    build_send (sn s') = build_send (sn s) + 1"
proof -
  have "eth_slave.online s" using assms(1) by (simp add: station_online_iff)
  from eth_slave.transmits_mirror [OF this assms(5) refl, of "yx_spon_type (nodes ! 0)" 0 "unat count" IEC10X_COT_SPONT]
  obtain s' where "wow_iec104_s_build_yx_spon s (Some nodes) count = Some (0, s')"
      and t: "eth_slave.transmits 1 s s' (app s) [next_frame s (yx_spon_type (nodes ! 0)) 0 (unat count) IEC10X_COT_SPONT
        (spon_body iec104_s_yx_object nodes count)]"
    using build_yx_spon [OF assms(2-4)] by auto
  with eth_slave.transmits_fields(4,14) [OF t] show ?thesis by (simp add: next_frame_def)
qed

definition demo_ctrl :: "u16 \<Rightarrow> DevNodeCtrl_T" where
  "demo_ctrl a = \<lparr>ctrl_info = \<lparr>node_mode = DEV_TYPE_YX, node_addr = a, node_type = DATA_BOOL\<rparr>,
     ctrl_value = \<lparr>val_bits = 1, val_time = replicate 7 0\<rparr>\<rparr>"

lemma demo_ctrl_object [simp]: "length (iec104_s_yx_object (demo_ctrl a)) = 4"
  by (simp add: iec104_s_yx_object_def demo_ctrl_def cp56_year_def)

lemma length_demo_body:
  "unat count \<le> n \<Longrightarrow> length (spon_body iec104_s_yx_object (replicate n (demo_ctrl a)) count) = 4 * unat count"
  by (simp add: spon_body_def length_concat sum_list_replicate map_replicate)

definition idle_station :: "(proto_port, nat, nat) iec104s_t" where
  "idle_station = set_init IEC10X_STA_LINK_IDLE (demo_station [])"

lemma idle_station:
  "station_online idle_station" "st_init (stat idle_station) = IEC10X_STA_LINK_IDLE" "tx (lnk idle_station) = []"
  "build_send (sn idle_station) = 0" "build_recv (sn idle_station) = 0" "asdu_addr idle_station = 7"
  by (simp_all add: idle_station_def set_init_def station_online_def demo_defs port_prompt_def Let_def)

theorem yx_spon_sent_witness:
  "\<exists>s'. wow_iec104_s_build_yx_spon idle_station (Some (replicate 60 (demo_ctrl 5))) 60 = Some (0, s') \<and>
    map length (tx (lnk s')) = [252]"
proof -
  have "0 < unat (60 :: u8)" "unat (60 :: u8) \<le> length (replicate 60 (demo_ctrl 5))"
    "length (spon_body iec104_s_yx_object (replicate 60 (demo_ctrl 5)) 60) \<le> 243"
    by (simp_all add: length_demo_body)
  from yx_spon_sent [OF idle_station(1,2) this] idle_station(3) show ?thesis
    by (auto simp: length_demo_body)
qed

text \<open>Sixty-one untimed single points fill the buffer exactly; their 256 bytes wrap the 8-bit length to 0, so
  an empty message is sent, 0 is returned and a sequence number is lost.\<close>

theorem yx_spon_wrap:
  assumes "station_online s" and "st_init (stat s) = IEC10X_STA_LINK_IDLE" and "0 < unat count" and "unat count \<le> length nodes"
    and "length (spon_body iec104_s_yx_object nodes count) = 244"
  shows "\<exists>s'. wow_iec104_s_build_yx_spon s (Some nodes) count = Some (0, s') \<and> tx (lnk s') = tx (lnk s) @ [[]] \<and>
    build_send (sn s') = build_send (sn s) + 1"
proof -
  have "client (lnk s) = Live" and "link_ctx s = fst proto_port_eth_slave_init" using assms(1) by (simp_all add: station_online_def)
  then show ?thesis
    using assms(5) build_yx_spon [OF assms(2-4)]
    by (simp add: wrn_at_end iec104_s_send_def mem_simps Let_def proto_port_eth_slave_init_def eth_link_send_def os_write_def)
qed

theorem yx_spon_wrap_witness:
  "\<exists>s'. wow_iec104_s_build_yx_spon idle_station (Some (replicate 61 (demo_ctrl 5))) 61 = Some (0, s') \<and> tx (lnk s') = [[]]"
proof -
  have "0 < unat (61 :: u8)" "unat (61 :: u8) \<le> length (replicate 61 (demo_ctrl 5))"
    "length (spon_body iec104_s_yx_object (replicate 61 (demo_ctrl 5)) 61) = 244"
    by (simp_all add: length_demo_body)
  from yx_spon_wrap [OF idle_station(1,2) this] idle_station(3) show ?thesis by auto
qed

text \<open>Spontaneous transmissions whose objects need more than 244 bytes overrun the frame buffer: no count
  is too large for the two functions, although \<open>uint8_t\<close> allows 255 nodes.\<close>

theorem spon_overflow:
  assumes "st_init (stat s) = IEC10X_STA_LINK_IDLE" and "0 < unat count" and "unat count \<le> length nodes"
  shows "(244 < length (spon_body iec104_s_yx_object nodes count) \<longrightarrow> wow_iec104_s_build_yx_spon s (Some nodes) count = None) \<and>
    (244 < length (spon_body (iec104_s_yc_object (nodes ! 0)) nodes count) \<longrightarrow>
       wow_iec104_s_build_yc_spon s (Some nodes) count = None)"
  using build_yx_spon [OF assms] build_yc_spon [OF assms] by (simp add: wrn_at_end)

theorem spon_overflow_witness:
  "wow_iec104_s_build_yx_spon idle_station (Some (replicate 62 (demo_ctrl 5))) 62 = None"
proof -
  have "0 < unat (62 :: u8)" "unat (62 :: u8) \<le> length (replicate 62 (demo_ctrl 5))"
    "244 < length (spon_body iec104_s_yx_object (replicate 62 (demo_ctrl 5)) 62)"
    by (simp_all add: length_demo_body)
  with spon_overflow [OF idle_station(2) this(1,2)] show ?thesis by blast
qed

text \<open>Without nodes, with a count of 0, or while the link is not in its idle state, nothing is sent and nothing
  changes: the two functions return their error codes.\<close>

theorem spon_rejected:
  assumes "nodes = None \<or> count = 0 \<or> st_init (stat s) \<noteq> IEC10X_STA_LINK_IDLE"
  shows "\<exists>e. wow_iec104_s_build_yx_spon s nodes count = Some (e, s) \<and> wow_iec104_s_build_yc_spon s nodes count = Some (e, s) \<and>
    e = (if nodes = None \<or> count = 0 then -100 else -30700)"
  using assms
  by (cases nodes)
     (auto simp: wow_iec104_s_build_yx_spon_def wow_iec104_s_build_yc_spon_def errnos unat_gt_0)

theorem spon_rejected_witness:
  "\<exists>e. wow_iec104_s_build_yx_spon (demo_station []) (Some [demo_ctrl 1]) 1 = Some (e, demo_station []) \<and>
    wow_iec104_s_build_yc_spon (demo_station []) (Some [demo_ctrl 1]) 1 = Some (e, demo_station []) \<and> e = -30700"
  using spon_rejected [of "Some [demo_ctrl 1]" 1 "demo_station []"] by (simp add: demo_defs Let_def)

end
