(* ===== verification/Iec104Invariant.thy ===== *)
theory Iec104Invariant
  imports Iec104Command
begin

text \<open>
  The states an IEC 104 controlled station can get into. \<open>station_step\<close> is everything that can
  happen to it: a round of its thread with whatever the socket delivers, a client that connects,
  and the calls of the application. The invariant holds for every input, well formed or not.
\<close>

section \<open>What sending leaves alone\<close>

definition only_sends :: "('s, 'p, 'd) iec104s_t \<Rightarrow> ('s, 'p, 'd) iec104s_t \<Rightarrow> bool" where
  "only_sends s s' \<longleftrightarrow>
     (\<exists>l d c n. s' = s\<lparr>lnk := l, app := d, clocks := c, sn := (sn s)\<lparr>build_send := build_send (sn s) + int n\<rparr>\<rparr>)"

named_theorems sends_intros

lemma only_sends_refl [sends_intros]: "only_sends s s"
  unfolding only_sends_def by (intro exI [of _ "lnk s"] exI [of _ "app s"] exI [of _ "clocks s"] exI [of _ 0]) simp

lemma only_sends_trans: "only_sends s s1 \<Longrightarrow> only_sends s1 s2 \<Longrightarrow> only_sends s s2"
proof -
  assume "only_sends s s1" and "only_sends s1 s2"
  then obtain l d c n l' d' c' m
    where "s1 = s\<lparr>lnk := l, app := d, clocks := c, sn := (sn s)\<lparr>build_send := build_send (sn s) + int n\<rparr>\<rparr>"
      and "s2 = s1\<lparr>lnk := l', app := d', clocks := c', sn := (sn s1)\<lparr>build_send := build_send (sn s1) + int m\<rparr>\<rparr>"
    by (auto simp: only_sends_def)
  then have "s2 = s\<lparr>lnk := l', app := d', clocks := c', sn := (sn s)\<lparr>build_send := build_send (sn s) + int (n + m)\<rparr>\<rparr>"
    by (simp add: add.assoc)
  then show ?thesis unfolding only_sends_def by blast
qed

lemma only_sends_lnk: "only_sends s (s\<lparr>lnk := l\<rparr>)"
  unfolding only_sends_def by (intro exI [of _ l] exI [of _ "app s"] exI [of _ "clocks s"] exI [of _ 0]) simp

lemma only_sends_app: "only_sends s (s\<lparr>app := d\<rparr>)"
  unfolding only_sends_def by (intro exI [of _ "lnk s"] exI [of _ d] exI [of _ "clocks s"] exI [of _ 0]) simp

lemma only_sends_clocks: "only_sends s (s\<lparr>clocks := c\<rparr>)"
  unfolding only_sends_def by (intro exI [of _ "lnk s"] exI [of _ "app s"] exI [of _ c] exI [of _ 0]) simp

lemma only_sends_numbered: "only_sends s (numbered n s)"
  unfolding only_sends_def numbered_def
  by (intro exI [of _ "lnk s"] exI [of _ "app s"] exI [of _ "clocks s"] exI [of _ n]) simp

lemma only_sends_numberedD: "only_sends (numbered n s) s' \<Longrightarrow> only_sends s s'"
  by (rule only_sends_trans [OF only_sends_numbered])

lemma only_sends_set: "only_sends s (iec104_s_set s node v)"
  by (simp add: iec104_s_set_def only_sends_app only_sends_refl split: option.split)

lemma only_sends_send: "iec104_s_send s buf ptr = Some (r, s') \<Longrightarrow> only_sends s s'"
  by (auto simp: iec104_s_send_def bind_Some_iff Let_def only_sends_lnk)

lemma only_sends_get: "iec104_s_get s node = Some (r, v, s') \<Longrightarrow> only_sends s s'"
  by (auto simp: iec104_s_get_def bind_Some_iff case_prod_unfold Let_def intro: only_sends_app)

lemma only_sends_begin: "iec104_s_begin_i s ty sq num cot = (buf, s') \<Longrightarrow> only_sends s s'"
  by (auto simp: begin_i only_sends_numbered)

lemmas sends = only_sends_send only_sends_get only_sends_begin

text \<open>The loops.\<close>

lemma only_sends_yx_fill: "iec104_s_yx_fill nodes index n s buf ptr = Some (s', r) \<Longrightarrow> only_sends s s'"
proof (induction n arbitrary: index s buf ptr)
  case (Suc n)
  then show ?case
    by (auto simp: bind_Some_iff only_sends_refl split: option.splits
        intro: only_sends_trans dest!: only_sends_get)
qed (auto simp: only_sends_refl)

lemma only_sends_yc_fill: "iec104_s_yc_fill nodes index n s buf ptr = Some (s', r) \<Longrightarrow> only_sends s s'"
proof (induction n arbitrary: index s buf ptr)
  case (Suc n)
  then show ?case
    by (auto simp: bind_Some_iff Let_def only_sends_refl split: option.splits
        intro: only_sends_trans dest!: only_sends_get)
qed (auto simp: only_sends_refl)

lemma only_sends_ym_fill: "iec104_s_ym_fill nodes index i n s buf ptr = Some (s', r) \<Longrightarrow> only_sends s s'"
proof (induction n arbitrary: i s buf ptr)
  case (Suc n)
  then show ?case
    by (auto simp: bind_Some_iff only_sends_refl split: option.splits
        intro: only_sends_trans dest!: only_sends_get)
qed (auto simp: only_sends_refl)

lemma only_sends_yt_sq: "iec104_s_yt_sq rbuf w ty addr ptr i n s = Some s' \<Longrightarrow> only_sends s s'"
proof (induction n arbitrary: ptr i s)
  case (Suc n)
  from Suc.prems show ?case
    by (auto simp: bind_Some_iff Let_def split: if_splits dest!: Suc.IH intro: only_sends_trans [OF only_sends_set])
qed (auto simp: only_sends_refl)

lemma only_sends_yt_single: "iec104_s_yt_single rbuf w ty ptr n s = Some s' \<Longrightarrow> only_sends s s'"
proof (induction n arbitrary: ptr s)
  case (Suc n)
  from Suc.prems show ?case
    by (auto simp: bind_Some_iff Let_def split: if_splits dest!: Suc.IH intro: only_sends_trans [OF only_sends_set])
qed (auto simp: only_sends_refl)

lemma only_sends_yk_sq: "iec104_s_yk_sq rbuf msk addr ptr i n s = Some s' \<Longrightarrow> only_sends s s'"
proof (induction n arbitrary: ptr i s)
  case (Suc n)
  from Suc.prems show ?case
    by (auto simp: bind_Some_iff Let_def split: if_splits dest!: Suc.IH intro: only_sends_trans [OF only_sends_set])
qed (auto simp: only_sends_refl)

lemma only_sends_yk_single: "iec104_s_yk_single rbuf msk ptr n s = Some s' \<Longrightarrow> only_sends s s'"
proof (induction n arbitrary: ptr s)
  case (Suc n)
  from Suc.prems show ?case
    by (auto simp: bind_Some_iff Let_def split: if_splits dest!: Suc.IH intro: only_sends_trans [OF only_sends_set])
qed (auto simp: only_sends_refl)

lemma only_sends_list:
  assumes "\<And>i count s r s'. build i count s = Some (r, s') \<Longrightarrow> only_sends s s'"
    and "iec104_s_send_list build sz i s = Some s'"
  shows "only_sends s s'"
  using assms(2)
proof (induction "sz - i" arbitrary: i s rule: less_induct)
  case less
  show ?case
  proof (cases "i < sz")
    case False
    then show ?thesis using less.prems by (simp add: iec104_s_send_list.simps only_sends_refl)
  next
    case True
    define count where "count = (if sz - i > IEC104X_YX_NODE_NUM then IEC104X_YX_NODE_NUM else sz - i)"
    have "0 < count" using True by (simp add: count_def IEC104X_YX_NODE_NUM_def)
    obtain r s1 where "build i count s = Some (r, s1)" and rest: "iec104_s_send_list build sz (i + count) s1 = Some s'"
      using less.prems True unfolding iec104_s_send_list.simps [of build sz i s] count_def
      by (auto simp: bind_Some_iff Let_def)
    moreover have "sz - (i + count) < sz - i" using True \<open>0 < count\<close> by linarith
    ultimately show ?thesis using less.hyps [OF _ rest] assms(1) only_sends_trans by blast
  qed
qed

text \<open>The builders and handlers.\<close>

lemma only_sends_ctrl: "iec104_s_send_ctrl s c = Some (r, s') \<Longrightarrow> only_sends s s'"
  by (auto simp: iec104_s_send_ctrl_def dest: only_sends_send)

lemma only_sends_after_begin: "iec104_s_send (numbered n s) buf ptr = Some (r, s') \<Longrightarrow> only_sends s s'"
  by (blast dest: only_sends_send intro: only_sends_trans only_sends_numbered)

lemma only_sends_fixed:
  "iec104_s_build_init_finsh s = Some (r, s') \<Longrightarrow> only_sends s s'"
  "iec104_s_build_call_ack s q = Some (r, s') \<Longrightarrow> only_sends s s'"
  "iec104_s_build_call_finsh s q = Some (r, s') \<Longrightarrow> only_sends s s'"
  "iec104_s_build_u s t = Some (r, s') \<Longrightarrow> only_sends s s'"
  "iec104_s_build_u_ack s t = Some (r, s') \<Longrightarrow> only_sends s s'"
  "iec104_s_build_s_ack s = Some (r, s') \<Longrightarrow> only_sends s s'"
  by (auto simp: iec104_s_build_init_finsh_def iec104_s_build_call_ack_def iec104_s_build_call_finsh_def
      iec104_s_build_u_def iec104_s_build_u_ack_def iec104_s_build_s_ack_def begin_i bind_Some_iff
      split: if_splits intro: only_sends_after_begin only_sends_ctrl only_sends_refl)

lemma only_sends_reports:
  "iec104_s_build_yx cot nodes i n s = Some (r, s') \<Longrightarrow> only_sends s s'"
  "iec104_s_build_yc cot nodes i n s = Some (r, s') \<Longrightarrow> only_sends s s'"
  "iec104_s_build_ym cot nodes i n s = Some (r, s') \<Longrightarrow> only_sends s s'"
  by (auto simp: iec104_s_build_yx_def iec104_s_build_yc_def iec104_s_build_ym_def begin_i bind_Some_iff
      split: option.splits if_splits
      dest!: only_sends_yx_fill only_sends_yc_fill only_sends_ym_fill only_sends_send only_sends_numberedD
      intro: only_sends_refl only_sends_numbered only_sends_trans)

lemma only_sends_reports_list:
  "iec104_s_send_list (iec104_s_build_yx cot nodes) sz i s = Some s' \<Longrightarrow> only_sends s s'"
  "iec104_s_send_list (iec104_s_build_yc cot nodes) sz i s = Some s' \<Longrightarrow> only_sends s s'"
  "iec104_s_send_list (iec104_s_build_ym cot nodes) sz i s = Some s' \<Longrightarrow> only_sends s s'"
  by (erule only_sends_list [rotated], erule only_sends_reports)+

lemma only_sends_call_all:
  assumes "iec104_s_asdu_call_all s rbuf off = Some (r, s')"
  shows "only_sends s s'"
  using assms
  by (auto simp: iec104_s_asdu_call_all_def bind_Some_iff only_sends_refl split: if_splits
      dest!: only_sends_fixed only_sends_reports_list) (meson only_sends_trans)

lemma only_sends_call_pulse:
  assumes "iec104_s_asdu_call_pulse s rbuf off = Some (r, s')"
  shows "only_sends s s'"
  using assms
  by (auto simp: iec104_s_asdu_call_pulse_def bind_Some_iff only_sends_refl split: if_splits
      dest!: only_sends_fixed only_sends_reports_list intro: only_sends_trans)

lemma only_sends_commands:
  "iec104_s_asdu_clock s rbuf off = Some (r, s') \<Longrightarrow> only_sends s s'"
  "iec104_s_asdu_yt s rbuf off = Some (r, s') \<Longrightarrow> only_sends s s'"
  "iec104_s_asdu_yk s rbuf off = Some (r, s') \<Longrightarrow> only_sends s s'"
  by (auto simp: iec104_s_asdu_clock_def iec104_s_asdu_yt_def iec104_s_asdu_yk_def Let_def bind_Some_iff
      only_sends_refl only_sends_clocks split: if_splits
      dest!: only_sends_yt_sq only_sends_yt_single only_sends_yk_sq only_sends_yk_single)

lemma only_sends_confirmations:
  "iec104_s_build_yt_ack s rbuf off = Some (r, s') \<Longrightarrow> only_sends s s'"
  "iec104_s_build_yk_ack s rbuf off = Some (r, s') \<Longrightarrow> only_sends s s'"
  by (auto simp: iec104_s_build_yt_ack_def iec104_s_build_yk_ack_def begin_i Let_def bind_Some_iff
      split: if_splits intro: only_sends_after_begin only_sends_numbered)

lemma only_sends_spon:
  "wow_iec104_s_build_yx_spon s nodes count = Some (r, s') \<Longrightarrow> only_sends s s'"
  "wow_iec104_s_build_yc_spon s nodes count = Some (r, s') \<Longrightarrow> only_sends s s'"
  by (auto simp: wow_iec104_s_build_yx_spon_def wow_iec104_s_build_yc_spon_def begin_i bind_Some_iff
      split: if_splits option.splits intro: only_sends_after_begin only_sends_refl)

section \<open>The invariant\<close>

definition station_inv :: "('s, 'p, 'd) iec104s_t \<Rightarrow> bool" where
  "station_inv s \<longleftrightarrow>
     st_init (stat s) \<in> {IEC10X_STA_LINK_INIT, IEC10X_STA_LINK_OPEN, IEC10X_STA_LINK_CONNECT_OK,
       IEC10X_STA_LINK_DISCONNECT, IEC10X_STA_LINK_IDLE} \<and>
     st_test (stat s) \<in> {IE10X_STA_TESTER_IDLE, IE10X_STA_TESTER_START, IE10X_STA_TESTER_STOP} \<and>
     st_callall (stat s) = IEC10X_STA_CALL_ALL_IDLE \<and> st_callpulse (stat s) = IEC10X_STA_CALL_PULSE_IDLE \<and>
     st_yt (stat s) = IEC10X_STA_YT_CMD_IDLE \<and> st_yk (stat s) = IEC10X_STA_YK_CMD_IDLE \<and>
     0 \<le> build_send (sn s) \<and> 0 \<le> build_recv (sn s) \<and> build_recv (sn s) \<le> 32768 \<and>
     -1 \<le> deal_send (sn s) \<and> deal_send (sn s) < 32768 \<and> 0 \<le> deal_recv (sn s) \<and> deal_recv (sn s) < 32768 \<and>
     lists_sorted s"

lemma inv_only_sends: "station_inv s \<Longrightarrow> only_sends s s' \<Longrightarrow> station_inv s'"
  by (auto simp: station_inv_def only_sends_def lists_sorted_def)

lemma inv_reset: "station_inv s \<Longrightarrow> station_inv (iec104_s_reset_param s)"
  by (simp add: station_inv_def iec104_s_reset_param_def lists_sorted_def)

lemma inv_fields:
  "station_inv (s\<lparr>lnk := l\<rparr>) = station_inv s" "station_inv (s\<lparr>time := t\<rparr>) = station_inv s"
  "station_inv (s\<lparr>app := d\<rparr>) = station_inv s" "station_inv (s\<lparr>started := b\<rparr>) = station_inv s"
  "station_inv (s\<lparr>running := b\<rparr>) = station_inv s"
  by (simp_all add: station_inv_def lists_sorted_def)

lemma inv_serve: "station_inv (iec104_s_serve s ev) = station_inv s"
  by (simp add: iec104_s_serve_def inv_fields split: option.split)

lemma frame_sn_bound:
  "frame_send_sn buf off = Some k \<Longrightarrow> k < 32768" "frame_recv_sn buf off = Some k \<Longrightarrow> k < 32768"
proof -
  have "le_val x div 2 < 32768" if "rdn buf i 2 = Some x" for i and x
    using le_val_bound [of x] that by (auto simp: rdn_Some_iff)
  then show "frame_send_sn buf off = Some k \<Longrightarrow> k < 32768" "frame_recv_sn buf off = Some k \<Longrightarrow> k < 32768"
    by (auto simp: frame_send_sn_def frame_recv_sn_def)
qed

lemma inv_i_parse:
  assumes "station_inv s" and "iec104_s_frame_i_parse s rbuf off = Some (r, s')"
  shows "station_inv s'"
proof -
  obtain k m where km: "frame_send_sn rbuf off = Some k" "frame_recv_sn rbuf off = Some m"
    using assms(2) by (auto simp: iec104_s_frame_i_parse_def bind_Some_iff)
  define s1 where "s1 = snd (iec104_s_deal_sn s k m)"
  have "station_inv s1"
    using assms(1) frame_sn_bound(1) [OF km(1)] frame_sn_bound(2) [OF km(2)]
    by (simp add: s1_def iec104_s_deal_sn_def station_inv_def lists_sorted_def)
  moreover have "s' = s \<or> only_sends s1 s'"
    using assms(2) km
    by (auto simp: iec104_s_frame_i_parse_def iec104_s_deal_sn_def s1_def bind_Some_iff Let_def only_sends_refl split: if_splits
        dest!: only_sends_call_all only_sends_call_pulse only_sends_commands only_sends_confirmations only_sends_fixed
        intro: only_sends_trans)
  ultimately show ?thesis using assms(1) inv_only_sends by blast
qed

lemma inv_set_init:
  "station_inv s \<Longrightarrow> st \<in> {IEC10X_STA_LINK_INIT, IEC10X_STA_LINK_OPEN, IEC10X_STA_LINK_CONNECT_OK,
     IEC10X_STA_LINK_DISCONNECT, IEC10X_STA_LINK_IDLE} \<Longrightarrow> station_inv (set_init st s)"
  by (auto simp: station_inv_def set_init_def lists_sorted_def)

lemma inv_set_test:
  "station_inv s \<Longrightarrow> st \<in> {IE10X_STA_TESTER_IDLE, IE10X_STA_TESTER_START, IE10X_STA_TESTER_STOP} \<Longrightarrow>
   station_inv (set_test st s)"
  by (auto simp: station_inv_def set_test_def lists_sorted_def)

lemma inv_close: "station_inv s \<Longrightarrow> iec104_s_close s = Some s' \<Longrightarrow> station_inv s'"
  by (auto simp: iec104_s_close_def bind_Some_iff inv_fields)

lemmas inv_intros = inv_set_init inv_set_test inv_close inv_reset inv_only_sends

lemma inv_u_parse:
  assumes "station_inv s" and "iec104_s_frame_u_parse s rbuf off = Some (r, s')"
  shows "station_inv s'"
  using assms
  by (auto simp: iec104_s_frame_u_parse_def bind_Some_iff split: if_splits
      dest: only_sends_fixed intro: inv_intros)

lemma inv_handle_frame: "station_inv s \<Longrightarrow> handle_frame rbuf off s = Some s' \<Longrightarrow> station_inv s'"
  by (auto simp: handle_frame_def bind_Some_iff split: if_splits intro: inv_i_parse inv_u_parse)

lemma parse_loop_step:
  assumes "iec104_s_frame_parse_loop rbuf len off s = Some s'" and "s' \<noteq> s"
  obtains z :: u8 and s1 where "off < len" and "handle_frame rbuf off s = Some s1"
    and "iec104_s_frame_parse_loop rbuf len (off + (unat z + 2)) s1 = Some s'"
proof -
  note u = iec104_s_frame_parse_loop.simps [of rbuf len off s]
  have 1: "off < len" "rd rbuf off = Some IEC104_HEAD"
    using assms unfolding u by (auto simp: bind_Some_iff split: if_splits)
  have 2: "6 \<le> len - off"
    using assms 1 unfolding u by (auto simp: bind_Some_iff split: if_splits)
  obtain z :: u8 where 3: "rd rbuf (off + 1) = Some z"
    using assms 1 unfolding u by (auto simp: bind_Some_iff)
  have "iec104_s_frame_parse_loop rbuf len off s =
      Option.bind (handle_frame rbuf off s) (iec104_s_frame_parse_loop rbuf len (off + (unat z + 2)))"
    unfolding u using 1 2 3 by (simp add: handle_frame_def case_prod_unfold)
  with assms(1) obtain s1 where "handle_frame rbuf off s = Some s1"
      and "iec104_s_frame_parse_loop rbuf len (off + (unat z + 2)) s1 = Some s'"
    by (cases "handle_frame rbuf off s") auto
  with that 1(1) show thesis by blast
qed

lemma inv_parse_loop:
  "station_inv s \<Longrightarrow> iec104_s_frame_parse_loop rbuf len off s = Some s' \<Longrightarrow> station_inv s'"
proof (induction "len - off" arbitrary: off s rule: less_induct)
  case less
  show ?case
  proof (cases "s' = s")
    case False
    from less.prems(2) this obtain z :: u8 and s1 where "off < len" and "handle_frame rbuf off s = Some s1"
        and "iec104_s_frame_parse_loop rbuf len (off + (unat z + 2)) s1 = Some s'"
      by (rule parse_loop_step)
    moreover have "len - (off + (unat z + 2)) < len - off" using \<open>off < len\<close> by linarith
    ultimately show ?thesis using less.hyps less.prems(1) inv_handle_frame by blast
  qed (use less.prems(1) in simp)
qed

lemma inv_state_machine:
  assumes "station_inv s" and "iec104_s_state_machine t0 t1 s = Some s'"
  shows "station_inv s'"
proof -
  obtain s1 where s1: "iec104_s_link_step t0 s = Some s1"
      and rest: "s' = s1 \<or> iec104_s_tester_step t1 s1 = Some s'"
    using assms(2) by (auto simp: iec104_s_state_machine_def bind_Some_iff split: if_splits)
  have 1: "station_inv s1"
  proof (cases "st_init (stat s) \<in> {IEC10X_STA_LINK_INIT, IEC10X_STA_LINK_DISCONNECT}")
    case True
    with assms(1) s1 show ?thesis
      by (auto simp: iec104_s_link_step_def inv_serve intro!: inv_set_init inv_reset)
  next
    case False
    show ?thesis
    proof (cases "st_init (stat s) = IEC10X_STA_LINK_CONNECT_OK")
      case True
      with s1 obtain r a b where "iec104_s_build_u_ack s IEC104_U_FUNC_STARTDT = Some (r, a)"
          and "iec104_s_build_init_finsh a = Some b"
          and s1': "s1 = iec104_s_serve ((set_init IEC10X_STA_LINK_IDLE (snd b))
            \<lparr>time := (time (set_init IEC10X_STA_LINK_IDLE (snd b)))\<lparr>tm_timer := t0\<rparr>\<rparr>) IEC10X_CONNECTED"
        by (auto simp: iec104_s_link_step_def bind_Some_iff Let_def)
      then have "station_inv (snd b)"
        using assms(1) only_sends_fixed(1,5) inv_only_sends by (metis prod.collapse)
      then show ?thesis unfolding s1' by (simp add: inv_serve inv_fields inv_set_init)
    next
      case other: False
      have "st_init (stat s) \<noteq> IEC10X_STA_LINK_CLOSE" using assms(1) by (auto simp: station_inv_def)
      then have "s1 = s"
        using s1 False other by (cases "st_init (stat s)") (simp_all add: iec104_s_link_step_def)
      with assms(1) show ?thesis by simp
    qed
  qed
  have "station_inv s'" if t: "iec104_s_tester_step t1 s1 = Some s'"
  proof (cases "st_test (stat s1)")
    case IE10X_STA_TESTER_START
    let ?s = "s1\<lparr>time := (time s1)\<lparr>tm_test := t1\<rparr>\<rparr>"
    have "s' = ?s \<or> (\<exists>r a. iec104_s_build_u ?s IEC104_U_FUNC_TESTER = Some (r, a) \<and>
        s' = set_test IE10X_STA_TESTER_IDLE (a\<lparr>time := (time a)\<lparr>tm_timer := tm_test (time a)\<rparr>\<rparr>))"
      using t IE10X_STA_TESTER_START
      by (auto simp: iec104_s_tester_step_def Let_def bind_Some_iff split: if_splits)
    then consider "s' = ?s" | r a where "iec104_s_build_u ?s IEC104_U_FUNC_TESTER = Some (r, a)"
        and "s' = set_test IE10X_STA_TESTER_IDLE (a\<lparr>time := (time a)\<lparr>tm_timer := tm_test (time a)\<rparr>\<rparr>)"
      by blast
    then show ?thesis
    proof cases
      case 2
      have "station_inv ?s" using 1 by (simp add: inv_fields)
      then have "station_inv a" using inv_only_sends only_sends_fixed(4) [OF 2(1)] by blast
      then show ?thesis unfolding 2(2) by (simp add: inv_set_test inv_fields)
    qed (use 1 in \<open>simp add: inv_fields\<close>)
  qed (use 1 t in \<open>auto simp: iec104_s_tester_step_def bind_Some_iff inv_fields split: if_splits intro: inv_intros\<close>)
  with 1 rest show ?thesis by blast
qed

lemma inv_exec_round:
  assumes "station_inv s" and "iec104_s_exec_round t0 t1 (rbuf, s) = Some (rbuf', s')"
  shows "station_inv s'"
proof -
  obtain s1 l where s1: "iec104_s_state_machine t0 t1 s = Some s1"
      and s': "s' = s1\<lparr>lnk := l\<rparr> \<or> (\<exists>buf n. iec104_s_frame_parse (s1\<lparr>lnk := l\<rparr>) buf n = Some s')"
    using assms(2) by (auto simp: iec104_s_exec_round_def bind_Some_iff Let_def split: if_splits)
  have "station_inv (s1\<lparr>lnk := l\<rparr>)" using inv_state_machine [OF assms(1) s1] by (simp add: inv_fields)
  with s' inv_parse_loop show ?thesis unfolding iec104_s_frame_parse_def by blast
qed

lemma inv_add_node:
  assumes "station_inv s"
  shows "station_inv (s\<lparr>yx_list := l\<rparr>)" and "station_inv (s\<lparr>ym_list := l\<rparr>)"
    and "node_type node = DATA_FLOAT \<Longrightarrow> station_inv (s\<lparr>yc_f_list := yc_f_list s @ [node]\<rparr>)"
    and "node_type node \<noteq> DATA_FLOAT \<Longrightarrow> station_inv (s\<lparr>yc_n_list := yc_n_list s @ [node]\<rparr>)"
  using assms by (auto simp: station_inv_def lists_sorted_def)

lemma inv_add_nodes:
  "station_inv s \<Longrightarrow> station_inv (snd (iec104_s_add_nodes mallocs nodes s))"
proof (induction nodes arbitrary: mallocs s)
  case (Cons node nodes)
  show ?case
  proof (cases mallocs)
    case Nil
    then show ?thesis using Cons by simp
  next
    case m: (Cons b ms)
    then show ?thesis
      using Cons.prems inv_add_node [OF Cons.prems] by (cases b) (auto intro!: Cons.IH)
  qed
qed simp

section \<open>Reachable states\<close>

inductive station_step :: "(proto_port, 'p, 'd) iec104s_t \<Rightarrow> (proto_port, 'p, 'd) iec104s_t \<Rightarrow> bool" where
  step_round: "running s \<Longrightarrow> iec104_s_exec_round t0 t1 (rbuf, s) = Some (rbuf', s') \<Longrightarrow> station_step s s'"
| step_connect: "iec104_s_connected s incoming = Some s' \<Longrightarrow> station_step s s'"
| step_arrive: "station_step s (s\<lparr>lnk := (lnk s)\<lparr>rx := rx (lnk s) @ cs\<rparr>\<rparr>)"
| step_start: "wow_iec104_s_start s env ok = Some (r, s') \<Longrightarrow> station_step s s'"
| step_nodes: "station_step s (snd (wow_iec104_s_set_node_info mallocs s nodes))"
| step_set_cb: "station_step s (snd (wow_iec104_s_set_value_handle s cb priv))"
| step_get_cb: "station_step s (snd (wow_iec104_s_get_value_handle s gcb priv))"
| step_serv_cb: "station_step s (snd (wow_iec104_s_set_service_handle s scb priv))"
| step_yx_spon: "wow_iec104_s_build_yx_spon s ctrls count = Some (r, s') \<Longrightarrow> station_step s s'"
| step_yc_spon: "wow_iec104_s_build_yc_spon s ctrls count = Some (r, s') \<Longrightarrow> station_step s s'"

text \<open>The number of frames sent is an \<open>int\<close> in C and counts on until the next connection: a history ends with the step in which it
  would overflow.\<close>

inductive reachable :: "(proto_port, 'p, 'd) iec104s_t \<Rightarrow> bool" where
  reach_init: "wow_iec104_s_init addr par mallocs ok null d = Some s \<Longrightarrow> reachable s"
| reach_step: "reachable s \<Longrightarrow> station_step s s' \<Longrightarrow> build_send (sn s') < 2 ^ 31 \<Longrightarrow> reachable s'"

lemma inv_init: "wow_iec104_s_init addr par mallocs ok null d = Some s \<Longrightarrow> station_inv s"
  by (auto simp: wow_iec104_s_init_def station_inv_def iec104_s_reset_param_def lists_sorted_def Let_def split: if_splits)

lemma init_numbers: "wow_iec104_s_init addr par mallocs ok null d = Some s \<Longrightarrow> build_send (sn s) = 0"
  by (auto simp: wow_iec104_s_init_def iec104_s_reset_param_def Let_def split: if_splits)

lemma inv_callbacks:
  "station_inv s \<Longrightarrow> station_inv (snd (wow_iec104_s_set_value_handle s cb priv))"
  "station_inv s \<Longrightarrow> station_inv (snd (wow_iec104_s_get_value_handle s gcb priv))"
  "station_inv s \<Longrightarrow> station_inv (snd (wow_iec104_s_set_service_handle s scb priv))"
  by (simp_all add: wow_iec104_s_set_value_handle_def wow_iec104_s_get_value_handle_def
      wow_iec104_s_set_service_handle_def station_inv_def lists_sorted_def)

lemma inv_step: "station_step s s' \<Longrightarrow> station_inv s \<Longrightarrow> station_inv s'"
proof (induction rule: station_step.induct)
  case (step_connect s incoming s')
  then show ?case
    by (auto simp: iec104_s_connected_def bind_Some_iff Let_def inv_fields inv_reset split: if_splits)
next
  case (step_start s env ok r s')
  then show ?case
    by (auto simp: wow_iec104_s_start_def bind_Some_iff Let_def inv_fields split: if_splits)
next
  case (step_nodes s mallocs nodes)
  then show ?case by (simp add: wow_iec104_s_set_node_info_def inv_add_nodes)
next
  case (step_round s t0 t1 rbuf rbuf' s')
  then show ?case by (blast intro: inv_exec_round)
next
  case (step_arrive s cs)
  then show ?case by (simp add: inv_fields)
next
  case (step_yx_spon s ctrls count r s')
  then show ?case by (blast intro: inv_only_sends only_sends_spon(1))
next
  case (step_yc_spon s ctrls count r s')
  then show ?case by (blast intro: inv_only_sends only_sends_spon(2))
qed (rule inv_callbacks, assumption)+



end
