(* ===== verification/Iec104Master.thy ===== *)
theory Iec104Master
  imports Iec104Slave Errno
begin

text \<open>
  The IEC 104 controlling station, \<open>wow_iot/src/protocol/iec10x/wow_iec104m.c\<close>: the control frames
  and commands it sends, the handlers of what a controlled station reports and confirms, the frame
  parser, the link state machine and its thread, and the API.

  As in the controlled station the application behind the callbacks is a value of type \<open>'d\<close>, a
  callback that is not set is \<open>None\<close>, and \<open>None\<close> as the result of an operation is an access outside
  a buffer. Confirming a command clears the select bits of the received objects in place, so the
  handlers return the receive buffer together with the state. The lengths in the frame parser are natural
  numbers: the thread hands over reads of at most 1500 bytes, which fit \<open>uint16_t\<close> and \<open>int16_t\<close>.
\<close>

section \<open>State\<close>

record ('s, 'p, 'd) iec104m_t =
  m_addr :: u16
  m_stat :: Iec10xState_T
  m_sn :: Iec104Sn_T
  m_time :: Iec10xTime_T
  m_val_cb :: "('p \<Rightarrow> DevNodeInfo_T \<Rightarrow> DevValue_U \<Rightarrow> 'd \<Rightarrow> 'd) option"
  m_val_priv :: 'p
  m_serv_cb :: "('p \<Rightarrow> Ie10xServeice_E \<Rightarrow> 'd \<Rightarrow> 'd) option"
  m_serv_priv :: 'p
  m_ctx :: "'s ProtoPortCtx"
  m_lnk :: 's
  m_app :: 'd
  m_running :: bool
  m_started :: bool

definition m_set_init :: "Iec10xStat_E \<Rightarrow> ('s, 'p, 'd) iec104m_t \<Rightarrow> ('s, 'p, 'd) iec104m_t" where
  "m_set_init st s = s\<lparr>m_stat := (m_stat s)\<lparr>st_init := st\<rparr>\<rparr>"

definition m_set_test :: "Iec10xStat_E \<Rightarrow> ('s, 'p, 'd) iec104m_t \<Rightarrow> ('s, 'p, 'd) iec104m_t" where
  "m_set_test st s = s\<lparr>m_stat := (m_stat s)\<lparr>st_test := st\<rparr>\<rparr>"

definition m_set_timer :: "int \<Rightarrow> ('s, 'p, 'd) iec104m_t \<Rightarrow> ('s, 'p, 'd) iec104m_t" where
  "m_set_timer t s = s\<lparr>m_time := (m_time s)\<lparr>tm_timer := t\<rparr>\<rparr>"

text \<open>The two callbacks, called when they are set. Of the union handed over with a value only the
  member that was assigned is determined; the other bits are zero here.\<close>

definition iec104_m_value :: "('s, 'p, 'd) iec104m_t \<Rightarrow> DevNodeInfo_T \<Rightarrow> DevValue_U \<Rightarrow> ('s, 'p, 'd) iec104m_t" where
  "iec104_m_value s node v =
     (case m_val_cb s of None \<Rightarrow> s | Some cb \<Rightarrow> s\<lparr>m_app := cb (m_val_priv s) node v (m_app s)\<rparr>)"

definition iec104_m_serve :: "('s, 'p, 'd) iec104m_t \<Rightarrow> Ie10xServeice_E \<Rightarrow> ('s, 'p, 'd) iec104m_t" where
  "iec104_m_serve s ev =
     (case m_serv_cb s of None \<Rightarrow> s | Some cb \<Rightarrow> s\<lparr>m_app := cb (m_serv_priv s) ev (m_app s)\<rparr>)"

section \<open>Building and sending frames\<close>

definition iec104_m_begin_i ::
  "('s, 'p, 'd) iec104m_t \<Rightarrow> nat \<Rightarrow> nat \<Rightarrow> nat \<Rightarrow> bytes \<times> ('s, 'p, 'd) iec104m_t" where
  "iec104_m_begin_i s type sq num =
     ([IEC104_HEAD, 0] @ ctrl_i (build_send (m_sn s)) (build_recv (m_sn s)) @
        asdu_head type sq num IEC10X_COT_ACT (m_addr s) @ replicate (IEC104_MAX_BUF_LEN - 12) 0,
      s\<lparr>m_sn := (m_sn s)\<lparr>build_send := build_send (m_sn s) + 1\<rparr>\<rparr>)"

text \<open>\<open>len = ptr - send_buf; Len = len - 2; link_send(send_buf, len)\<close>, with \<open>uint8_t len\<close>; the result is
  that of the link.\<close>

definition iec104_m_send :: "('s, 'p, 'd) iec104m_t \<Rightarrow> bytes \<Rightarrow> nat \<Rightarrow> (int \<times> ('s, 'p, 'd) iec104m_t) option" where
  "iec104_m_send s buf ptr =
     do {
       let len = ptr mod 256;
       buf \<leftarrow> wr buf 1 (word_of_nat len - 2);
       msg \<leftarrow> rdn buf 0 len;
       (ret, l) \<leftarrow> link_send (m_ctx s) (m_lnk s) msg;
       Some (ret, s\<lparr>m_lnk := l\<rparr>)
     }"

definition iec104_m_send_ctrl :: "('s, 'p, 'd) iec104m_t \<Rightarrow> bytes \<Rightarrow> (int \<times> ('s, 'p, 'd) iec104m_t) option" where
  "iec104_m_send_ctrl s ctrl =
     do {
       (_, s) \<leftarrow> iec104_m_send s ([IEC104_HEAD, 0] @ ctrl @ replicate (IEC104_MAX_BUF_LEN - 6) 0) 6;
       Some (0, s)
     }"

definition iec104_m_build_u :: "('s, 'p, 'd) iec104m_t \<Rightarrow> u8 \<Rightarrow> (int \<times> ('s, 'p, 'd) iec104m_t) option" where
  "iec104_m_build_u s UType =
     (if UType = IEC104_U_FUNC_STARTDT then iec104_m_send_ctrl s (ctrl_u IEC104_U_FUNC_STARTDT)
      else if UType = IEC104_U_FUNC_STOPDT then iec104_m_send_ctrl s (ctrl_u IEC104_U_FUNC_TESTER)
      else if UType = IEC104_U_FUNC_TESTER then iec104_m_send_ctrl s (ctrl_u IEC104_U_FUNC_TESTER)
      else Some (-1, s))"

definition iec104_m_build_u_ack :: "('s, 'p, 'd) iec104m_t \<Rightarrow> u8 \<Rightarrow> (int \<times> ('s, 'p, 'd) iec104m_t) option" where
  "iec104_m_build_u_ack s UType =
     (if UType = IEC104_U_FUNC_STARTDT then iec104_m_send_ctrl s (ctrl_u IEC104_U_FUNC_STARTDT_ACK)
      else if UType = IEC104_U_FUNC_STOPDT then iec104_m_send_ctrl s (ctrl_u IEC104_U_FUNC_STOPDT_ACK)
      else if UType = IEC104_U_FUNC_TESTER then iec104_m_send_ctrl s (ctrl_u IEC104_U_FUNC_TESTER_ACK)
      else Some (-1, s))"

definition iec104_m_build_s_ack :: "('s, 'p, 'd) iec104m_t \<Rightarrow> (int \<times> ('s, 'p, 'd) iec104m_t) option" where
  "iec104_m_build_s_ack s = iec104_m_send_ctrl s (ctrl_s (build_recv (m_sn s)))"

section \<open>Answers to interrogations and the clock\<close>

text \<open>The two handlers differ in the events they raise.\<close>

definition iec104_m_call_answer ::
  "Ie10xServeice_E \<Rightarrow> Ie10xServeice_E \<Rightarrow> ('s, 'p, 'd) iec104m_t \<Rightarrow> bytes \<Rightarrow> nat \<Rightarrow> (int \<times> ('s, 'p, 'd) iec104m_t) option" where
  "iec104_m_call_answer success faild s rbuf off =
     do {
       reason \<leftarrow> asdu_reason rbuf off;
       addr \<leftarrow> rdn rbuf (off + 12) 3;
       if addr \<noteq> [0, 0, 0] then Some (-1, s)
       else if reason = IEC10X_COT_ACTCON then Some (0, s)
       else if reason = IEC10X_COT_INTROGEN \<or> reason = IEC10X_COT_ACTTERM
       then do { (_, s) \<leftarrow> iec104_m_build_s_ack (iec104_m_serve s success); Some (0, s) }
       else Some (0, iec104_m_serve s faild)
     }"

definition iec104_m_asdu_call_all ::
  "('s, 'p, 'd) iec104m_t \<Rightarrow> bytes \<Rightarrow> nat \<Rightarrow> (int \<times> ('s, 'p, 'd) iec104m_t) option" where
  "iec104_m_asdu_call_all = iec104_m_call_answer IEC10X_CALL_ALL_SUCCESS IEC10X_CALL_ALL_FAILD"

definition iec104_m_asdu_call_pulse ::
  "('s, 'p, 'd) iec104m_t \<Rightarrow> bytes \<Rightarrow> nat \<Rightarrow> (int \<times> ('s, 'p, 'd) iec104m_t) option" where
  "iec104_m_asdu_call_pulse = iec104_m_call_answer IEC10X_CALL_PULSE_SUCCESS IEC10X_CALL_PULSE_FAILD"

definition iec104_m_asdu_clock ::
  "('s, 'p, 'd) iec104m_t \<Rightarrow> bytes \<Rightarrow> nat \<Rightarrow> (int \<times> ('s, 'p, 'd) iec104m_t) option" where
  "iec104_m_asdu_clock s rbuf off =
     do {
       addr \<leftarrow> rdn rbuf (off + 12) 3;
       if addr \<noteq> [0, 0, 0] then Some (-1, s)
       else do {
         cp56time2a \<leftarrow> rdn rbuf (off + 15) 7;
         reason \<leftarrow> asdu_reason rbuf off;
         if reason = IEC10X_COT_SPONT \<or> reason = IEC10X_COT_ACT
         then do { (_, s) \<leftarrow> iec104_m_build_s_ack (iec104_m_serve s IEC10X_CLOCK_SYNC); Some (0, s) }
         else Some (0, s)
       }
     }"

section \<open>Reported values\<close>

text \<open>With SQ one address is followed by the values of consecutive nodes, without it every value follows its own
  address. A value has \<open>w\<close> bytes and the next one starts \<open>step\<close> bytes further. The loop over normalised
  values with addresses of their own adds its counter to them all the same (\<open>inc\<close>).\<close>

fun iec104_m_values_sq ::
  "bytes \<Rightarrow> DevTypeMod_E \<Rightarrow> DevDataType_E \<Rightarrow> nat \<Rightarrow> nat \<Rightarrow> nat \<Rightarrow> nat \<Rightarrow> nat \<Rightarrow> nat \<Rightarrow>
   ('s, 'p, 'd) iec104m_t \<Rightarrow> ('s, 'p, 'd) iec104m_t option" where
  "iec104_m_values_sq rbuf mode ty w step addr ptr i 0 s = Some s"
| "iec104_m_values_sq rbuf mode ty w step addr ptr i (Suc n) s =
     do {
       v \<leftarrow> rdn rbuf ptr w;
       let node = \<lparr>node_mode = mode, node_addr = word_of_nat (addr mod 65536 + i), node_type = ty\<rparr>;
       iec104_m_values_sq rbuf mode ty w step addr (ptr + step) (i + 1) n
         (iec104_m_value s node (word_of_nat (le_val v)))
     }"

fun iec104_m_values_single ::
  "bytes \<Rightarrow> DevTypeMod_E \<Rightarrow> DevDataType_E \<Rightarrow> nat \<Rightarrow> nat \<Rightarrow> bool \<Rightarrow> nat \<Rightarrow> nat \<Rightarrow> nat \<Rightarrow>
   ('s, 'p, 'd) iec104m_t \<Rightarrow> ('s, 'p, 'd) iec104m_t option" where
  "iec104_m_values_single rbuf mode ty w step inc ptr i 0 s = Some s"
| "iec104_m_values_single rbuf mode ty w step inc ptr i (Suc n) s =
     do {
       addr \<leftarrow> map_option le_val (rdn rbuf ptr 3);
       v \<leftarrow> rdn rbuf (ptr + 3) w;
       let node = \<lparr>node_mode = mode, node_addr = word_of_nat (addr mod 65536 + (if inc then i else 0)), node_type = ty\<rparr>;
       iec104_m_values_single rbuf mode ty w step inc (ptr + step) (i + 1) n
         (iec104_m_value s node (word_of_nat (le_val v)))
     }"

definition iec104_m_values ::
  "DevTypeMod_E \<Rightarrow> DevDataType_E \<Rightarrow> nat \<Rightarrow> nat \<Rightarrow> bool \<Rightarrow> ('s, 'p, 'd) iec104m_t \<Rightarrow> bytes \<Rightarrow> nat \<Rightarrow> (int \<times> ('s, 'p, 'd) iec104m_t) option" where
  "iec104_m_values mode ty w step inc s rbuf off =
     do {
       n \<leftarrow> asdu_num rbuf off;
       sq \<leftarrow> asdu_sq rbuf off;
       if sq = 1 then do {
         addr \<leftarrow> map_option le_val (rdn rbuf (off + 12) 3);
         s \<leftarrow> iec104_m_values_sq rbuf mode ty w step addr (off + 15) 0 n s;
         Some (0, s)
       } else do {
         s \<leftarrow> iec104_m_values_single rbuf mode ty w (step + 3) inc (off + 12) 0 n s;
         Some (0, s)
       }
     }"

definition iec104_m_asdu_yx ::
  "('s, 'p, 'd) iec104m_t \<Rightarrow> bytes \<Rightarrow> nat \<Rightarrow> (int \<times> ('s, 'p, 'd) iec104m_t) option" where
  "iec104_m_asdu_yx s rbuf off =
     do {
       type \<leftarrow> asdu_type rbuf off;
       reason \<leftarrow> asdu_reason rbuf off;
       if \<not> (reason = IEC10X_COT_PER_CYC \<or> reason = IEC10X_COT_INTROGEN \<or> reason = IEC10X_COT_SPONT)
       then Some (-1, s)
       else if type = IEC10X_M_SP_NA_1 \<or> type = IEC10X_M_DP_NA_1
       then iec104_m_values DEV_TYPE_YX DATA_SINT_8 1 1 False s rbuf off
       else if type = IEC10X_M_SP_TB_1 \<or> type = IEC10X_M_DP_TB_1 then Some (0, s)
       else Some (-1, s)
     }"

definition iec104_m_asdu_yc ::
  "('s, 'p, 'd) iec104m_t \<Rightarrow> bytes \<Rightarrow> nat \<Rightarrow> (int \<times> ('s, 'p, 'd) iec104m_t) option" where
  "iec104_m_asdu_yc s rbuf off =
     do {
       type \<leftarrow> asdu_type rbuf off;
       reason \<leftarrow> asdu_reason rbuf off;
       if \<not> (reason = IEC10X_COT_PER_CYC \<or> reason = IEC10X_COT_INTROGEN \<or> reason = IEC10X_COT_SPONT)
       then Some (-1, s)
       else if type = IEC10X_M_ME_NA_1 then iec104_m_values DEV_TYPE_YC DATA_SINT_16 2 3 True s rbuf off
       else if type = IEC10X_M_ME_NC_1 then iec104_m_values DEV_TYPE_YC DATA_FLOAT 4 5 False s rbuf off
       else if type = IEC10X_M_ME_TD_1 \<or> type = IEC10X_M_ME_TF_1 then Some (0, s)
       else Some (-1, s)
     }"

definition iec104_m_asdu_ym ::
  "('s, 'p, 'd) iec104m_t \<Rightarrow> bytes \<Rightarrow> nat \<Rightarrow> (int \<times> ('s, 'p, 'd) iec104m_t) option" where
  "iec104_m_asdu_ym s rbuf off =
     do {
       type \<leftarrow> asdu_type rbuf off;
       reason \<leftarrow> asdu_reason rbuf off;
       if \<not> (reason = IEC10X_COT_REQ \<or> reason = IEC10X_COT_REQCOGEN \<or> reason = IEC10X_COT_SPONT)
       then Some (-1, s)
       else do {
         _ \<leftarrow> rdn rbuf (off + 12) 3;
         if type = IEC10X_M_IT_NA_1 then iec104_m_values DEV_TYPE_YM DATA_SINT_32 4 5 False s rbuf off
         else if type = IEC10X_M_IT_TA_1 then Some (0, s)
         else Some (-1, s)
       }
     }"

section \<open>Confirmed commands\<close>

text \<open>\<open>*p &= 0x7F\<close> at \<open>n\<close> places of the receive buffer.\<close>

fun iec104_m_clear_select :: "nat \<Rightarrow> nat \<Rightarrow> nat \<Rightarrow> bytes \<Rightarrow> bytes option" where
  "iec104_m_clear_select step ptr 0 rbuf = Some rbuf"
| "iec104_m_clear_select step ptr (Suc n) rbuf =
     do {
       b \<leftarrow> rd rbuf ptr;
       rbuf \<leftarrow> wr rbuf ptr (b AND 0x7F);
       iec104_m_clear_select step (ptr + step) n rbuf
     }"

definition iec104_m_build_yt_ack ::
  "('s, 'p, 'd) iec104m_t \<Rightarrow> bytes \<Rightarrow> nat \<Rightarrow> (int \<times> bytes \<times> ('s, 'p, 'd) iec104m_t) option" where
  "iec104_m_build_yt_ack s rbuf off =
     do {
       type \<leftarrow> asdu_type rbuf off;
       n \<leftarrow> asdu_num rbuf off;
       sq \<leftarrow> asdu_sq rbuf off;
       let (buf, s) = iec104_m_begin_i s type sq n;
       let copy = (\<lambda>w.
         if sq = 1 then do {
           addr \<leftarrow> rdn rbuf (off + 12) 3;
           buf \<leftarrow> wrn buf 12 addr;
           rbuf \<leftarrow> iec104_m_clear_select (w + 1) (off + 15 + w) n rbuf;
           data \<leftarrow> rdn rbuf (off + 15) (n * (w + 1));
           buf \<leftarrow> wrn buf 15 data;
           (_, s) \<leftarrow> iec104_m_send s buf (15 + n * (w + 1));
           Some (0, rbuf, s)
         } else do {
           rbuf \<leftarrow> iec104_m_clear_select (w + 4) (off + 15 + w) n rbuf;
           data \<leftarrow> rdn rbuf (off + 12) (n * (w + 4));
           buf \<leftarrow> wrn buf 12 data;
           (_, s) \<leftarrow> iec104_m_send s buf (12 + n * (w + 4));
           Some (0, rbuf, s)
         });
       if type = IEC10X_C_SE_NA_1 then copy 2
       else if type = IEC10X_C_SE_NC_1 then copy 4
       else Some (-1, rbuf, s)
     }"

definition iec104_m_asdu_yt ::
  "('s, 'p, 'd) iec104m_t \<Rightarrow> bytes \<Rightarrow> nat \<Rightarrow> (int \<times> bytes \<times> ('s, 'p, 'd) iec104m_t) option" where
  "iec104_m_asdu_yt s rbuf off =
     do {
       reason \<leftarrow> asdu_reason rbuf off;
       if reason = IEC10X_COT_ACTCON
       then do { (_, rbuf, s) \<leftarrow> iec104_m_build_yt_ack s rbuf off; Some (0, rbuf, s) }
       else if reason = IEC10X_COT_ACTTERM then Some (0, rbuf, iec104_m_serve s IEC10X_YT_CMD_SUCCESS)
       else Some (0, rbuf, iec104_m_serve s IEC10X_YT_CMD_FAILD)
     }"

definition iec104_m_build_yk_ack ::
  "('s, 'p, 'd) iec104m_t \<Rightarrow> bytes \<Rightarrow> nat \<Rightarrow> (int \<times> bytes \<times> ('s, 'p, 'd) iec104m_t) option" where
  "iec104_m_build_yk_ack s rbuf off =
     do {
       type \<leftarrow> asdu_type rbuf off;
       n \<leftarrow> asdu_num rbuf off;
       sq \<leftarrow> asdu_sq rbuf off;
       let (buf, s) = iec104_m_begin_i s type sq n;
       if type = IEC10X_C_SC_NA_1 \<or> type = IEC10X_C_DC_NA_1
       then do {
         rbuf \<leftarrow> iec104_m_clear_select (if sq = 1 then 1 else 4) (off + 15) n rbuf;
         let len = (if sq = 1 then n + 3 else n * 4);
         data \<leftarrow> rdn rbuf (off + 12) len;
         buf \<leftarrow> wrn buf 12 data;
         (_, s) \<leftarrow> iec104_m_send s buf (12 + len);
         Some (0, rbuf, s)
       }
       else Some (-1, rbuf, s)
     }"

text \<open>\<open>sco && 0x80\<close>: every \<open>sco\<close> but 0 is taken for a selection.\<close>

definition iec104_m_asdu_yk ::
  "('s, 'p, 'd) iec104m_t \<Rightarrow> bytes \<Rightarrow> nat \<Rightarrow> (int \<times> bytes \<times> ('s, 'p, 'd) iec104m_t) option" where
  "iec104_m_asdu_yk s rbuf off =
     do {
       sco \<leftarrow> rd rbuf (off + 15);
       reason \<leftarrow> asdu_reason rbuf off;
       if reason = IEC10X_COT_ACTCON
       then if sco \<noteq> 0 then do { (_, rbuf, s) \<leftarrow> iec104_m_build_yk_ack s rbuf off; Some (0, rbuf, s) }
         else Some (0, rbuf, iec104_m_serve s IEC10X_YK_CMD_SUCCESS)
       else Some (0, rbuf, iec104_m_serve s IEC10X_YK_CMD_FAILD)
     }"

section \<open>Received frames\<close>

definition iec104_m_deal_sn :: "('s, 'p, 'd) iec104m_t \<Rightarrow> nat \<Rightarrow> nat \<Rightarrow> int \<times> ('s, 'p, 'd) iec104m_t" where
  "iec104_m_deal_sn s SendSn RecvSn =
     (if \<not> (int SendSn \<ge> deal_send (m_sn s) \<and> int RecvSn \<ge> deal_recv (m_sn s)) then (-1, s)
      else (0, s\<lparr>m_sn := (m_sn s)\<lparr>build_recv := int SendSn + 1, deal_send := int SendSn, deal_recv := int RecvSn\<rparr>\<rparr>))"

definition iec104_m_frame_i_parse ::
  "('s, 'p, 'd) iec104m_t \<Rightarrow> bytes \<Rightarrow> nat \<Rightarrow> (int \<times> bytes \<times> ('s, 'p, 'd) iec104m_t) option" where
  "iec104_m_frame_i_parse s rbuf off =
     do {
       SendSn \<leftarrow> frame_send_sn rbuf off;
       RecvSn \<leftarrow> frame_recv_sn rbuf off;
       addr \<leftarrow> asdu_addr_field rbuf off;
       if unat (m_addr s) \<noteq> addr then Some (-1, rbuf, s)
       else do {
         let (ret, s) = iec104_m_deal_sn s SendSn RecvSn;
         if ret \<noteq> 0 then Some (-1, rbuf, s)
         else do {
           type \<leftarrow> asdu_type rbuf off;
           if type = IEC10x_M_EI_NA_1 then do { (_, s) \<leftarrow> iec104_m_build_s_ack s; Some (0, rbuf, s) }
           else if type = IEC10X_C_IC_NA_1 then do { (_, s) \<leftarrow> iec104_m_asdu_call_all s rbuf off; Some (0, rbuf, s) }
           else if type = IEC10X_C_CI_NA_1 then do { (_, s) \<leftarrow> iec104_m_asdu_call_pulse s rbuf off; Some (0, rbuf, s) }
           else if type = IEC10X_C_CS_NA_1 then do { (_, s) \<leftarrow> iec104_m_asdu_clock s rbuf off; Some (0, rbuf, s) }
           else if type = IEC10X_C_SC_NA_1 \<or> type = IEC10X_C_DC_NA_1
           then do { (_, rbuf, s) \<leftarrow> iec104_m_asdu_yk s rbuf off; Some (0, rbuf, s) }
           else if type = IEC10X_C_SE_NA_1 \<or> type = IEC10X_C_SE_NC_1
           then do { (_, rbuf, s) \<leftarrow> iec104_m_asdu_yt s rbuf off; Some (0, rbuf, s) }
           else if type \<in> {IEC10X_M_SP_NA_1, IEC10X_M_DP_NA_1, IEC10X_M_SP_TB_1, IEC10X_M_DP_TB_1}
           then do { (_, s) \<leftarrow> iec104_m_asdu_yx s rbuf off; Some (0, rbuf, s) }
           else if type \<in> {IEC10X_M_ME_NA_1, IEC10X_M_ME_NC_1, IEC10X_M_ME_TD_1, IEC10X_M_ME_TF_1}
           then do { (_, s) \<leftarrow> iec104_m_asdu_yc s rbuf off; Some (0, rbuf, s) }
           else if type \<in> {IEC10X_M_IT_NA_1, IEC10X_M_IT_TA_1}
           then do { (_, s) \<leftarrow> iec104_m_asdu_ym s rbuf off; Some (0, rbuf, s) }
           else Some (-1, rbuf, s)
         }
       }
     }"

definition iec104_m_frame_s_parse ::
  "('s, 'p, 'd) iec104m_t \<Rightarrow> bytes \<Rightarrow> nat \<Rightarrow> (int \<times> ('s, 'p, 'd) iec104m_t) option" where
  "iec104_m_frame_s_parse s rbuf off = Some (0, s)"

definition iec104_m_frame_u_parse ::
  "('s, 'p, 'd) iec104m_t \<Rightarrow> bytes \<Rightarrow> nat \<Rightarrow> (int \<times> ('s, 'p, 'd) iec104m_t) option" where
  "iec104_m_frame_u_parse s rbuf off =
     do {
       func \<leftarrow> rd rbuf (off + 2);
       if func = IEC104_U_FUNC_STARTDT_ACK then Some (0, m_set_init IEC10X_STA_LINK_CONNECT_OK s)
       else if func = IEC104_U_FUNC_STOPDT_ACK
       then do {
         (_, s) \<leftarrow> iec104_m_build_u_ack (m_set_init IEC10X_STA_LINK_DISCONNECT s) IEC104_U_FUNC_STOPDT_ACK;
         Some (0, s)
       }
       else if func = IEC104_U_FUNC_TESTER
       then do { (_, s) \<leftarrow> iec104_m_build_u_ack s IEC104_U_FUNC_TESTER; Some (0, s) }
       else if func = IEC104_U_FUNC_TESTER_ACK then Some (0, m_set_test IE10X_STA_TESTER_STOP s)
       else Some (0, s)
     }"

text \<open>The loop over the frames of one read. \<open>clk off\<close> is what \<open>wow_time_get_msec\<close> answers after the frame at
  \<open>off\<close> has been handled.\<close>

function iec104_m_frame_parse_loop ::
  "(nat \<Rightarrow> int) \<Rightarrow> nat \<Rightarrow> nat \<Rightarrow> bytes \<Rightarrow> ('s, 'p, 'd) iec104m_t \<Rightarrow> (bytes \<times> ('s, 'p, 'd) iec104m_t) option" where
  "iec104_m_frame_parse_loop clk len off rbuf s =
     (if off < len then do {
        head \<leftarrow> rd rbuf off;
        if head \<noteq> IEC104_HEAD then Some (rbuf, s)
        else do {
          LenTmp \<leftarrow> map_option (\<lambda>b. unat b + 2) (rd rbuf (off + 1));
          if \<not> len - off \<ge> 6 then Some (rbuf, s)
          else do {
            type1 \<leftarrow> frame_type1 rbuf off;
            type2 \<leftarrow> frame_type2 rbuf off;
            (_, rbuf, s) \<leftarrow> (if type1 = 0 then iec104_m_frame_i_parse s rbuf off
              else if type2 = 0 then do { (r, s) \<leftarrow> iec104_m_frame_s_parse s rbuf off; Some (r, rbuf, s) }
              else do { (r, s) \<leftarrow> iec104_m_frame_u_parse s rbuf off; Some (r, rbuf, s) });
            iec104_m_frame_parse_loop clk len (off + LenTmp) rbuf (m_set_timer (clk off) s)
          }
        }
      } else Some (rbuf, s))"
  by pat_completeness auto
termination
  by (relation "measure (\<lambda>(_, len, off, _). len - off)") auto

declare iec104_m_frame_parse_loop.simps [simp del]

definition iec104_m_frame_parse ::
  "(nat \<Rightarrow> int) \<Rightarrow> ('s, 'p, 'd) iec104m_t \<Rightarrow> bytes \<Rightarrow> nat \<Rightarrow> (bytes \<times> ('s, 'p, 'd) iec104m_t) option" where
  "iec104_m_frame_parse clk s rbuf len = iec104_m_frame_parse_loop clk len 0 rbuf s"

section \<open>The link state machine and the thread\<close>

definition iec104_m_reset_param :: "('s, 'p, 'd) iec104m_t \<Rightarrow> ('s, 'p, 'd) iec104m_t" where
  "iec104_m_reset_param s =
     s\<lparr>m_stat := \<lparr>st_init = IEC10X_STA_LINK_INIT, st_callall = IEC10X_STA_CALL_ALL_IDLE,
          st_callpulse = IEC10X_STA_CALL_PULSE_IDLE, st_yt = IEC10X_STA_YT_CMD_IDLE,
          st_yk = IEC10X_STA_YK_CMD_IDLE, st_test = IE10X_STA_TESTER_START\<rparr>,
       m_sn := \<lparr>build_send = 0, build_recv = 0, deal_send = -1, deal_recv = 0\<rparr>,
       m_time := (m_time s)\<lparr>tm_init := 0, tm_callall := 0, tm_callpulse := 0, tm_yt := 0, tm_yk := 0, tm_test := 0\<rparr>\<rparr>"

definition iec104_m_close :: "('s, 'p, 'd) iec104m_t \<Rightarrow> ('s, 'p, 'd) iec104m_t option" where
  "iec104_m_close s = do { l \<leftarrow> link_close (m_ctx s) (m_lnk s); Some (s\<lparr>m_lnk := l\<rparr>) }"

text \<open>\<open>t0\<close> and \<open>t1\<close> are what \<open>wow_time_get_msec\<close> answers in the first and in the second switch, \<open>env\<close> is what
  the socket layer answers if the link is opened.\<close>

definition iec104_m_link_step :: "open_env \<Rightarrow> int \<Rightarrow> ('s, 'p, 'd) iec104m_t \<Rightarrow> ('s, 'p, 'd) iec104m_t option" where
  "iec104_m_link_step env t0 s =
     (case st_init (m_stat s) of
        IEC10X_STA_LINK_INIT \<Rightarrow> Some (m_set_init IEC10X_STA_LINK_OPEN (iec104_m_reset_param s))
      | IEC10X_STA_LINK_OPEN \<Rightarrow>
          do {
            (ret, l) \<leftarrow> link_open (m_ctx s) env (m_lnk s);
            let s = s\<lparr>m_lnk := l\<rparr>;
            if ret = 0
            then do {
              (_, s) \<leftarrow> iec104_m_build_u (m_set_timer t0 (m_set_init IEC10X_STA_LINK_CONNECT s)) IEC104_U_FUNC_STARTDT;
              Some s
            }
            else Some s
          }
      | IEC10X_STA_LINK_CONNECT \<Rightarrow>
          (if t0 - tm_init (m_time s) > IEC10X_CONNECT_TIMEOUT
           then do { s \<leftarrow> iec104_m_close s; Some (m_set_init IEC10X_STA_LINK_INIT s) }
           else Some s)
      | IEC10X_STA_LINK_CONNECT_OK \<Rightarrow>
          (let s = s\<lparr>m_time := (m_time s)\<lparr>tm_init := 0\<rparr>\<rparr>;
               s = m_set_init IEC10X_STA_LINK_IDLE s;
               s = m_set_timer t0 s
           in Some (iec104_m_serve s IEC10X_CONNECTED))
      | IEC10X_STA_LINK_DISCONNECT \<Rightarrow>
          do {
            s \<leftarrow> iec104_m_close s;
            Some (iec104_m_serve (m_set_init IEC10X_STA_LINK_INIT s) IEC10X_DISCONNECTED)
          }
      | IEC10X_STA_LINK_CLOSE \<Rightarrow>
          do {
            (_, s) \<leftarrow> iec104_m_build_u s IEC104_U_FUNC_STOPDT;
            Some (m_set_init IEC10X_STA_LINK_INIT s)
          }
      | _ \<Rightarrow> Some s)"

definition iec104_m_tester_step :: "int \<Rightarrow> ('s, 'p, 'd) iec104m_t \<Rightarrow> ('s, 'p, 'd) iec104m_t option" where
  "iec104_m_tester_step t1 s =
     (case st_test (m_stat s) of
        IE10X_STA_TESTER_START \<Rightarrow>
          (let s = s\<lparr>m_time := (m_time s)\<lparr>tm_test := t1\<rparr>\<rparr> in
           if tm_test (m_time s) - tm_timer (m_time s) > IEC10X_CIRCLE_TESTER_U
           then do {
             (_, s) \<leftarrow> iec104_m_build_u s IEC104_U_FUNC_TESTER;
             Some (m_set_test IE10X_STA_TESTER_IDLE (m_set_timer (tm_test (m_time s)) s))
           }
           else Some s)
      | IE10X_STA_TESTER_IDLE \<Rightarrow>
          (if t1 - tm_test (m_time s) > IEC10X_TESTER_U_TIMEOUT
           then do { s \<leftarrow> iec104_m_close s; Some (m_set_init IEC10X_STA_LINK_INIT s) }
           else Some s)
      | IE10X_STA_TESTER_STOP \<Rightarrow>
          Some (m_set_test IE10X_STA_TESTER_START (s\<lparr>m_time := (m_time s)\<lparr>tm_test := 0\<rparr>\<rparr>))
      | _ \<Rightarrow> Some s)"

definition iec104_m_state_machine :: "open_env \<Rightarrow> int \<Rightarrow> int \<Rightarrow> ('s, 'p, 'd) iec104m_t \<Rightarrow> ('s, 'p, 'd) iec104m_t option" where
  "iec104_m_state_machine env t0 t1 s =
     do {
       s \<leftarrow> iec104_m_link_step env t0 s;
       if st_init (m_stat s) \<noteq> IEC10X_STA_LINK_IDLE then Some s else iec104_m_tester_step t1 s
     }"

text \<open>One round of the thread, which reads before it looks at its state; \<open>rbuf\<close> is \<open>recv_buf[1500]\<close>, which keeps
  its old bytes behind a read.\<close>

record round_env =
  r_clk :: "nat \<Rightarrow> int"
  r_env :: open_env
  r_t0 :: int
  r_t1 :: int

definition iec104_m_exec_round ::
  "round_env \<Rightarrow> bytes \<times> ('s, 'p, 'd) iec104m_t \<Rightarrow> (bytes \<times> ('s, 'p, 'd) iec104m_t) option" where
  "iec104_m_exec_round e st =
     (case st of (rbuf, s) \<Rightarrow>
      do {
        (rlen, d, l) \<leftarrow> link_recv (m_ctx s) (m_lnk s) 1500;
        rbuf \<leftarrow> wrn rbuf 0 d;
        let s = s\<lparr>m_lnk := l\<rparr>;
        (rbuf, s) \<leftarrow> (if rlen > 0 then iec104_m_frame_parse (r_clk e) s rbuf (nat rlen) else Some (rbuf, s));
        s \<leftarrow> iec104_m_state_machine (r_env e) (r_t0 e) (r_t1 e) s;
        Some (rbuf, s)
      })"

fun iec104_m_exec_thread ::
  "round_env list \<Rightarrow> bytes \<times> ('s, 'p, 'd) iec104m_t \<Rightarrow> (bytes \<times> ('s, 'p, 'd) iec104m_t) option" where
  "iec104_m_exec_thread [] st = Some st"
| "iec104_m_exec_thread (e # es) st =
     (if m_running (snd st) then do { st \<leftarrow> iec104_m_exec_round e st; iec104_m_exec_thread es st } else Some st)"

section \<open>The API\<close>

text \<open>\<open>this\<close> pointers are taken to be valid, the other pointer arguments are \<open>option\<close>s. \<open>calloc_ok\<close> and \<open>port_ok\<close>
  answer the allocations of the station and of its port.\<close>

definition wow_iec104_m_init ::
  "u16 \<Rightarrow> bool \<Rightarrow> bool \<Rightarrow> bool \<Rightarrow> 'p \<Rightarrow> 'd \<Rightarrow> (proto_port, 'p, 'd) iec104m_t option" where
  "wow_iec104_m_init u16Addr ptEthPar calloc_ok port_ok null d =
     (if \<not> (ptEthPar \<and> calloc_ok \<and> port_ok) then None
      else
        (let s = \<lparr>m_addr = u16Addr,
           m_stat = \<lparr>st_init = IEC10X_STA_LINK_INIT, st_callall = IEC10X_STA_LINK_INIT,
             st_callpulse = IEC10X_STA_LINK_INIT, st_yt = IEC10X_STA_LINK_INIT,
             st_yk = IEC10X_STA_LINK_INIT, st_test = IEC10X_STA_LINK_INIT\<rparr>,
           m_sn = \<lparr>build_send = 0, build_recv = 0, deal_send = 0, deal_recv = 0\<rparr>,
           m_time = \<lparr>tm_init = 0, tm_callall = 0, tm_callpulse = 0, tm_yt = 0, tm_yk = 0,
             tm_test = 0, tm_timer = 0\<rparr>,
           m_val_cb = None, m_val_priv = null, m_serv_cb = None, m_serv_priv = null,
           m_ctx = fst proto_port_eth_master_init, m_lnk = snd proto_port_eth_master_init,
           m_app = d, m_running = False, m_started = False\<rparr>;
          s = iec104_m_reset_param s
         in Some (s\<lparr>m_running := True\<rparr>)))"

definition wow_iec104_m_start :: "('s, 'p, 'd) iec104m_t \<Rightarrow> bool \<Rightarrow> int \<times> ('s, 'p, 'd) iec104m_t" where
  "wow_iec104_m_start s thread_ok =
     (if \<not> thread_ok then (- THREAD_CREATE_FAILED, s) else (0, s\<lparr>m_started := True\<rparr>))"

text \<open>The exit waits for the thread's last signal; without a thread nobody sends it and the call does not
  return (\<open>None\<close>).\<close>

definition wow_iec104_m_exit :: "(proto_port, 'p, 'd) iec104m_t \<Rightarrow> handle option" where
  "wow_iec104_m_exit s = (if \<not> m_started s then None else proto_port_eth_master_exit (m_lnk s))"

definition wow_iec104_m_set_value_handle ::
  "('s, 'p, 'd) iec104m_t \<Rightarrow> ('p \<Rightarrow> DevNodeInfo_T \<Rightarrow> DevValue_U \<Rightarrow> 'd \<Rightarrow> 'd) option \<Rightarrow> 'p \<Rightarrow> int \<times> ('s, 'p, 'd) iec104m_t" where
  "wow_iec104_m_set_value_handle s fCallBack pArg =
     (if fCallBack = None then (- PARAM_INPUT_FUNC_IS_NULL, s)
      else (0, s\<lparr>m_val_cb := fCallBack, m_val_priv := pArg\<rparr>))"

definition wow_iec104_m_set_service_handle ::
  "('s, 'p, 'd) iec104m_t \<Rightarrow> ('p \<Rightarrow> Ie10xServeice_E \<Rightarrow> 'd \<Rightarrow> 'd) option \<Rightarrow> 'p \<Rightarrow> int \<times> ('s, 'p, 'd) iec104m_t" where
  "wow_iec104_m_set_service_handle s fCallBack pArg =
     (if fCallBack = None then (- PARAM_INPUT_FUNC_IS_NULL, s)
      else (0, s\<lparr>m_serv_cb := fCallBack, m_serv_priv := pArg\<rparr>))"

definition wow_iec104_m_build_call_all :: "('s, 'p, 'd) iec104m_t \<Rightarrow> (int \<times> ('s, 'p, 'd) iec104m_t) option" where
  "wow_iec104_m_build_call_all s =
     (if st_init (m_stat s) \<noteq> IEC10X_STA_LINK_IDLE then Some (- IEC10X_STATUS_ERROR, s)
      else do {
        let (buf, s) = iec104_m_begin_i s IEC10X_C_IC_NA_1 0 1;
        buf \<leftarrow> wrn buf 12 (le_bytes 3 0);
        buf \<leftarrow> wr buf 15 (word_of_nat IEC10X_COT_INTROGEN);
        (ret, s) \<leftarrow> iec104_m_send s buf 16;
        Some (if ret = 16 then 0 else -1, s)
      })"

definition wow_iec104_m_build_call_pulse :: "('s, 'p, 'd) iec104m_t \<Rightarrow> (int \<times> ('s, 'p, 'd) iec104m_t) option" where
  "wow_iec104_m_build_call_pulse s =
     (if st_init (m_stat s) \<noteq> IEC10X_STA_LINK_IDLE then Some (- IEC10X_STATUS_ERROR, s)
      else do {
        let (buf, s) = iec104_m_begin_i s IEC10X_C_CI_NA_1 0 1;
        buf \<leftarrow> wrn buf 12 (le_bytes 3 0);
        buf \<leftarrow> wr buf 15 0x05;
        (ret, s) \<leftarrow> iec104_m_send s buf 16;
        Some (if ret = 16 then 0 else -1, s)
      })"

text \<open>One object of a command, with the select bit, and the loop over \<open>ptNode[0]\<close> to \<open>ptNode[u8Count - 1]\<close>. Width and
  type of all set points are those of the first.\<close>

definition iec104_m_yk_object :: "DevNodeCtrl_T \<Rightarrow> bytes" where
  "iec104_m_yk_object node =
     le_bytes 3 (unat (node_addr (ctrl_info node))) @ [0x80 OR ucast (val_bits (ctrl_value node))]"

definition iec104_m_yt_object :: "DevNodeCtrl_T \<Rightarrow> DevNodeCtrl_T \<Rightarrow> bytes" where
  "iec104_m_yt_object first node =
     le_bytes 3 (unat (node_addr (ctrl_info node))) @
     (if node_type (ctrl_info first) = DATA_FLOAT
      then le_bytes 4 (unat (val_bits (ctrl_value node))) else le_bytes 2 (unat (val_bits (ctrl_value node)))) @
     [0x80]"

fun iec104_m_objects_fill ::
  "(DevNodeCtrl_T \<Rightarrow> bytes) \<Rightarrow> DevNodeCtrl_T list \<Rightarrow> nat \<Rightarrow> nat \<Rightarrow> bytes \<Rightarrow> nat \<Rightarrow> (bytes \<times> nat) option" where
  "iec104_m_objects_fill obj ptNode i 0 buf ptr = Some (buf, ptr)"
| "iec104_m_objects_fill obj ptNode i (Suc n) buf ptr =
     do {
       node \<leftarrow> rd ptNode i;
       buf \<leftarrow> wrn buf ptr (obj node);
       iec104_m_objects_fill obj ptNode (i + 1) n buf (ptr + length (obj node))
     }"

definition wow_iec104_m_build_yk ::
  "('s, 'p, 'd) iec104m_t \<Rightarrow> DevNodeCtrl_T list option \<Rightarrow> u8 \<Rightarrow> (int \<times> ('s, 'p, 'd) iec104m_t) option" where
  "wow_iec104_m_build_yk s ptNode u8Count =
     (case ptNode of
        None \<Rightarrow> Some (- PARAM_INPUT_DATA_IS_NULL, s)
      | Some ptNode \<Rightarrow>
          if \<not> u8Count > 0 then Some (- PARAM_INPUT_DATA_IS_NULL, s)
          else if st_init (m_stat s) \<noteq> IEC10X_STA_LINK_IDLE then Some (- IEC10X_STATUS_ERROR, s)
          else do {
            let (buf, s) = iec104_m_begin_i s IEC10X_C_SC_NA_1 0 (unat u8Count);
            (buf, ptr) \<leftarrow> iec104_m_objects_fill iec104_m_yk_object ptNode 0 (unat u8Count) buf 12;
            (_, s) \<leftarrow> iec104_m_send s buf ptr;
            Some (0, s)
          })"

definition wow_iec104_m_build_yt ::
  "('s, 'p, 'd) iec104m_t \<Rightarrow> DevNodeCtrl_T list option \<Rightarrow> u8 \<Rightarrow> (int \<times> ('s, 'p, 'd) iec104m_t) option" where
  "wow_iec104_m_build_yt s ptNode u8Count =
     (case ptNode of
        None \<Rightarrow> Some (- PARAM_INPUT_DATA_IS_NULL, s)
      | Some ptNode \<Rightarrow>
          if \<not> u8Count > 0 then Some (- PARAM_INPUT_DATA_IS_NULL, s)
          else if st_init (m_stat s) \<noteq> IEC10X_STA_LINK_IDLE then Some (- IEC10X_STATUS_ERROR, s)
          else do {
            first \<leftarrow> rd ptNode 0;
            let (buf, s) = iec104_m_begin_i s
              (if node_type (ctrl_info first) = DATA_FLOAT then IEC10X_C_SE_NC_1 else IEC10X_C_SE_NA_1) 0 (unat u8Count);
            (buf, ptr) \<leftarrow> iec104_m_objects_fill (iec104_m_yt_object first) ptNode 0 (unat u8Count) buf 12;
            (_, s) \<leftarrow> iec104_m_send s buf ptr;
            Some (0, s)
          })"

end
