(* ===== verification/Iec104Delivery.thy ===== *)
theory Iec104Delivery
  imports Iec104Master Iec104Command
begin

text \<open>
  What the IEC 104 controlling station makes of the frames of a controlled station: each frame of
  a read is handled in turn, a report hands its values to the application, and the answer to a
  general interrogation, sent by the model of the controlled station, delivers the values of
  all its nodes.
\<close>

section \<open>The frames of one read\<close>

definition m_handle_frame ::
  "(nat \<Rightarrow> int) \<Rightarrow> nat \<Rightarrow> bytes \<Rightarrow> ('s, 'p, 'd) iec104m_t \<Rightarrow> (bytes \<times> ('s, 'p, 'd) iec104m_t) option" where
  "m_handle_frame clk off rbuf s =
     do {
       type1 \<leftarrow> frame_type1 rbuf off;
       type2 \<leftarrow> frame_type2 rbuf off;
       (_, rbuf, s) \<leftarrow> (if type1 = 0 then iec104_m_frame_i_parse s rbuf off
         else if type2 = 0 then do { (r, s) \<leftarrow> iec104_m_frame_s_parse s rbuf off; Some (r, rbuf, s) }
         else do { (r, s) \<leftarrow> iec104_m_frame_u_parse s rbuf off; Some (r, rbuf, s) });
       Some (rbuf, m_set_timer (clk off) s)
     }"

lemma m_parse_step:
  assumes "off + 6 \<le> len" and "len \<le> length rbuf" and "rbuf ! off = IEC104_HEAD"
  shows "iec104_m_frame_parse_loop clk len off rbuf s =
    do { (b, s) \<leftarrow> m_handle_frame clk off rbuf s;
         iec104_m_frame_parse_loop clk len (off + (unat (rbuf ! (off + 1)) + 2)) b s }"
proof -
  have "6 \<le> len - off" and "off < len" and "off < length rbuf" and "Suc off < length rbuf" using assms by linarith+
  then show ?thesis
    using assms(3) by (subst iec104_m_frame_parse_loop.simps) (simp add: m_handle_frame_def rd_def case_prod_unfold)
qed

lemma m_parse_end: "\<not> off < len \<Longrightarrow> iec104_m_frame_parse_loop clk len off rbuf s = Some (rbuf, s)"
  by (subst iec104_m_frame_parse_loop.simps) simp

text \<open>\<open>takes fs P Q\<close>: wherever the frames stand in a buffer and whatever the clock says, a state with \<open>P\<close> handles them one after
  the other without touching the buffer, and \<open>Q\<close> holds in the end. What holds between two frames is left open, so that the frames
  can be handed over in any number of reads.\<close>

fun takes :: "bytes list \<Rightarrow> (('s, 'p, 'd) iec104m_t \<Rightarrow> bool) \<Rightarrow> (('s, 'p, 'd) iec104m_t \<Rightarrow> bool) \<Rightarrow> bool" where
  "takes [] P Q \<longleftrightarrow> (\<forall>s. P s \<longrightarrow> Q s)"
| "takes (f # fs) P Q \<longleftrightarrow>
     (\<exists>R. (\<forall>s clk pre post. P s \<longrightarrow>
        (\<exists>s'. m_handle_frame clk (length pre) (pre @ f @ post) s = Some (pre @ f @ post, s') \<and> R s')) \<and> takes fs R Q)"

lemma takes_weaken:
  assumes "\<And>s. P' s \<Longrightarrow> P s" and "takes fs P Q"
  shows "takes fs P' Q"
proof (cases fs)
  case Nil
  then show ?thesis using assms by auto
next
  case (Cons f gs)
  show ?thesis using assms unfolding Cons takes.simps by blast
qed

lemma takes_append: "takes fs P R \<Longrightarrow> takes gs R Q \<Longrightarrow> takes (fs @ gs) P Q"
proof (induction fs arbitrary: P)
  case Nil
  then show ?case using takes_weaken [of P R gs Q] by simp
next
  case (Cons f fs)
  then show ?case by fastforce
qed

lemma takes_split: "takes (fs @ gs) P Q \<Longrightarrow> \<exists>R. takes fs P R \<and> takes gs R Q"
proof (induction fs arbitrary: P)
  case Nil
  then show ?case by auto
next
  case (Cons f fs)
  then show ?case by (simp add: ex_simps [symmetric] del: ex_simps) blast
qed

lemma takes_loop:
  assumes "takes fs P Q" and "list_all apdu fs" and "P s"
  shows "\<exists>s'. iec104_m_frame_parse_loop clk (length pre + length (concat fs)) (length pre) (pre @ concat fs @ post) s =
    Some (pre @ concat fs @ post, s') \<and> Q s'"
  using assms
proof (induction fs arbitrary: pre s P)
  case Nil
  then show ?case by (simp add: m_parse_end)
next
  case (Cons f fs)
  then have f: "6 \<le> length f" "f ! 0 = IEC104_HEAD" "length f = unat (f ! 1) + 2" and fs: "list_all apdu fs"
    by (auto simp: apdu_def [of f])
  let ?buf = "pre @ concat (f # fs) @ post"
  obtain R where R: "takes fs R Q" and h: "\<exists>s'. m_handle_frame clk (length pre) (pre @ f @ post') s = Some (pre @ f @ post', s') \<and> R s'" for post'
    using Cons.prems(1,3) by auto
  obtain s1 where s1: "m_handle_frame clk (length pre) ?buf s = Some (?buf, s1)" "R s1" using h [of "concat fs @ post"] by auto
  have "iec104_m_frame_parse_loop clk (length pre + length (concat (f # fs))) (length pre) ?buf s =
      iec104_m_frame_parse_loop clk (length pre + length (concat (f # fs))) (length pre + length f) ?buf s1"
    using f s1(1) by (subst m_parse_step) (simp_all add: nth_append)
  with Cons.IH [OF R fs s1(2), of "pre @ f"] show ?case by (simp add: add.assoc)
qed

text \<open>Reads of whole frames, each with its own clock.\<close>

fun m_reads :: "((nat \<Rightarrow> int) \<times> bytes list) list \<Rightarrow> ('s, 'p, 'd) iec104m_t \<Rightarrow> ('s, 'p, 'd) iec104m_t option" where
  "m_reads [] s = Some s"
| "m_reads ((clk, fs) # rs) s =
     do { (_, s) \<leftarrow> iec104_m_frame_parse clk s (concat fs) (length (concat fs)); m_reads rs s }"

lemma takes_reads:
  assumes "takes (concat (map snd rs)) P Q" and "list_all apdu (concat (map snd rs))" and "P s"
  shows "\<exists>s'. m_reads rs s = Some s' \<and> Q s'"
  using assms
proof (induction rs arbitrary: P s)
  case (Cons r rs)
  obtain clk fs where r: "r = (clk, fs)" by fastforce
  obtain R where R: "takes fs P R" "takes (concat (map snd rs)) R Q"
    using takes_split [of fs "concat (map snd rs)" P Q] Cons.prems(1) by (auto simp: r)
  obtain s1 where s1: "iec104_m_frame_parse clk s (concat fs) (length (concat fs)) = Some (concat fs, s1)" "R s1"
    using takes_loop [OF R(1) _ Cons.prems(3), of clk "[]" "[]"] Cons.prems(2) by (auto simp: r iec104_m_frame_parse_def)
  with Cons.IH [OF R(2) _ s1(2)] Cons.prems(2) show ?case by (simp add: r)
qed simp

section \<open>Values handed to the application\<close>

definition m_effect :: "('s, 'p, 'd) iec104m_t \<Rightarrow> (DevNodeInfo_T \<times> DevValue_U) list \<Rightarrow> 'd" where
  "m_effect s vals =
     (case m_val_cb s of None \<Rightarrow> m_app s | Some cb \<Rightarrow> foldl (\<lambda>d (node, v). cb (m_val_priv s) node v d) (m_app s) vals)"

lemma m_effect_Nil [simp]: "m_effect s [] = m_app s"
  by (simp add: m_effect_def split: option.split)

lemma m_effect_Cons: "m_effect s ((node, v) # vals) = m_effect (iec104_m_value s node v) vals"
  by (simp add: m_effect_def iec104_m_value_def split: option.split)

lemma m_value_app: "(iec104_m_value s node v)\<lparr>m_app := d\<rparr> = s\<lparr>m_app := d\<rparr>"
  by (simp add: iec104_m_value_def split: option.split)

lemma m_effect_append: "m_effect s (xs @ ys) = m_effect (s\<lparr>m_app := m_effect s xs\<rparr>) ys"
  by (simp add: m_effect_def split: option.split)

lemma m_effect_cong: "m_val_cb s = m_val_cb t \<Longrightarrow> m_val_priv s = m_val_priv t \<Longrightarrow> m_app s = m_app t \<Longrightarrow> m_effect s = m_effect t"
  by (simp add: m_effect_def fun_eq_iff split: option.split)

text \<open>The values of a frame with one address and elements \<open>objs\<close>.\<close>

definition block_values ::
  "DevTypeMod_E \<Rightarrow> DevDataType_E \<Rightarrow> nat \<Rightarrow> nat \<Rightarrow> nat \<Rightarrow> bytes list \<Rightarrow> (DevNodeInfo_T \<times> DevValue_U) list" where
  "block_values mode ty w addr i objs =
     map (\<lambda>(j, x). (\<lparr>node_mode = mode, node_addr = word_of_nat (addr mod 65536 + j), node_type = ty\<rparr>,
       word_of_nat (le_val (take w x)))) (enumerate i objs)"

lemma values_sq_block:
  assumes "\<forall>x \<in> set objs. length x = step" and "w \<le> step"
  shows "iec104_m_values_sq (pre @ concat objs @ post) mode ty w step addr (length pre) i (length objs) s =
    Some (s\<lparr>m_app := m_effect s (block_values mode ty w addr i objs)\<rparr>)"
  using assms
proof (induction objs arbitrary: pre i s)
  case Nil
  then show ?case by (simp add: block_values_def)
next
  case (Cons x objs)
  then have x: "length x = step" by simp
  then have "rdn (pre @ (x @ concat objs) @ post) (length pre) w = Some (take w x)"
    using Cons.prems(2) by (simp add: rdn_def)
  with Cons.IH [of "pre @ x" "Suc i"] Cons.prems x show ?case
    by (simp add: block_values_def m_effect_Cons m_value_app Let_def)
qed

section \<open>A report frame\<close>

text \<open>The kinds of reports: type and cause of the frame, mode and type of its nodes, bytes of a value
  and of an element.\<close>

definition report_kind :: "nat \<Rightarrow> nat \<Rightarrow> DevTypeMod_E \<Rightarrow> DevDataType_E \<Rightarrow> nat \<Rightarrow> nat \<Rightarrow> bool" where
  "report_kind ty cot mode dt w step \<longleftrightarrow>
     (cot = IEC10X_COT_INTROGEN \<and>
       (ty, mode, dt, w, step) \<in> {(IEC10X_M_SP_NA_1, DEV_TYPE_YX, DATA_SINT_8, 1, 1),
          (IEC10X_M_ME_NA_1, DEV_TYPE_YC, DATA_SINT_16, 2, 3), (IEC10X_M_ME_NC_1, DEV_TYPE_YC, DATA_FLOAT, 4, 5)}) \<or>
     (cot = IEC10X_COT_REQCOGEN \<and> (ty, mode, dt, w, step) = (IEC10X_M_IT_NA_1, DEV_TYPE_YM, DATA_SINT_32, 4, 5))"

definition in_order :: "('s, 'p, 'd) iec104m_t \<Rightarrow> int \<Rightarrow> int \<Rightarrow> bool" where
  "in_order s k r \<longleftrightarrow> deal_send (m_sn s) \<le> k mod 32768 \<and> deal_recv (m_sn s) \<le> r mod 32768"

definition m_received :: "int \<Rightarrow> int \<Rightarrow> 'd \<Rightarrow> ('s, 'p, 'd) iec104m_t \<Rightarrow> ('s, 'p, 'd) iec104m_t" where
  "m_received k r d s =
     s\<lparr>m_sn := (m_sn s)\<lparr>build_recv := k mod 32768 + 1, deal_send := k mod 32768, deal_recv := r mod 32768\<rparr>, m_app := d\<rparr>"

lemma m_received_fields [simp]:
  "m_addr (m_received k r d s) = m_addr s" "m_stat (m_received k r d s) = m_stat s" "m_time (m_received k r d s) = m_time s"
  "m_val_cb (m_received k r d s) = m_val_cb s" "m_val_priv (m_received k r d s) = m_val_priv s"
  "m_serv_cb (m_received k r d s) = m_serv_cb s" "m_serv_priv (m_received k r d s) = m_serv_priv s"
  "m_ctx (m_received k r d s) = m_ctx s" "m_lnk (m_received k r d s) = m_lnk s" "m_app (m_received k r d s) = d"
  "build_send (m_sn (m_received k r d s)) = build_send (m_sn s)"
  by (simp_all add: m_received_def)

lemma m_deal_sn:
  "iec104_m_deal_sn s (nat (k mod 32768)) (nat (r mod 32768)) =
    (if in_order s k r then (0, m_received k r (m_app s) s) else (-1, s))"
  by (simp add: iec104_m_deal_sn_def in_order_def m_received_def)

text \<open>Only the type matters once address and numbers have been accepted.\<close>

definition m_dispatch :: "nat \<Rightarrow> bytes \<Rightarrow> nat \<Rightarrow> ('s, 'p, 'd) iec104m_t \<Rightarrow> (bytes \<times> ('s, 'p, 'd) iec104m_t) option" where
  "m_dispatch type buf off s =
     (if type = IEC10x_M_EI_NA_1 then do { (_, s) \<leftarrow> iec104_m_build_s_ack s; Some (buf, s) }
      else if type = IEC10X_C_IC_NA_1 then do { (_, s) \<leftarrow> iec104_m_asdu_call_all s buf off; Some (buf, s) }
      else if type = IEC10X_C_CI_NA_1 then do { (_, s) \<leftarrow> iec104_m_asdu_call_pulse s buf off; Some (buf, s) }
      else if type = IEC10X_C_CS_NA_1 then do { (_, s) \<leftarrow> iec104_m_asdu_clock s buf off; Some (buf, s) }
      else if type = IEC10X_C_SC_NA_1 \<or> type = IEC10X_C_DC_NA_1
      then do { (_, buf, s) \<leftarrow> iec104_m_asdu_yk s buf off; Some (buf, s) }
      else if type = IEC10X_C_SE_NA_1 \<or> type = IEC10X_C_SE_NC_1
      then do { (_, buf, s) \<leftarrow> iec104_m_asdu_yt s buf off; Some (buf, s) }
      else if type \<in> {IEC10X_M_SP_NA_1, IEC10X_M_DP_NA_1, IEC10X_M_SP_TB_1, IEC10X_M_DP_TB_1}
      then do { (_, s) \<leftarrow> iec104_m_asdu_yx s buf off; Some (buf, s) }
      else if type \<in> {IEC10X_M_ME_NA_1, IEC10X_M_ME_NC_1, IEC10X_M_ME_TD_1, IEC10X_M_ME_TF_1}
      then do { (_, s) \<leftarrow> iec104_m_asdu_yc s buf off; Some (buf, s) }
      else if type \<in> {IEC10X_M_IT_NA_1, IEC10X_M_IT_TA_1}
      then do { (_, s) \<leftarrow> iec104_m_asdu_ym s buf off; Some (buf, s) }
      else Some (buf, s))"

lemma m_handle_i_frame:
  assumes "buf = pre @ i_frame (m_addr s) k r ty sq num cot bs @ post" and "off = length pre" and "ty < 256"
    and "in_order s k r"
  shows "m_handle_frame clk off buf s =
    map_option (\<lambda>(b, s). (b, m_set_timer (clk off) s)) (m_dispatch ty buf off (m_received k r (m_app s) s))"
proof -
  note at = i_frame_at [OF assms(1,2)]
  obtain b where "rd buf (Suc (Suc off)) = Some b" using at(3) by (auto simp: frame_type1_def)
  then have t2: "frame_type2 buf off = Some (unat b div 2 mod 2)" by (simp add: frame_type2_def)
  show ?thesis
    using assms(3,4)
    by (simp add: m_handle_frame_def at t2 iec104_m_frame_i_parse_def m_deal_sn m_dispatch_def Let_def
        case_prod_unfold map_option_bind bind_map_option o_def cong: if_cong)
qed

lemma m_handle_report:
  assumes "buf = pre @ i_frame (m_addr s) k r ty 1 (length objs) cot (le_bytes 3 a @ concat objs) @ post"
    and "off = length pre" and "report_kind ty cot mode dt w step" and "length objs < 128"
    and "\<forall>x \<in> set objs. length x = step" and "in_order s k r" and "a < 65536"
  shows "m_handle_frame clk off buf s =
    Some (buf, m_set_timer (clk off) (m_received k r (m_effect s (block_values mode dt w a 0 objs)) s))"
proof -
  note at = i_frame_at [OF assms(1,2)]
  obtain h where h: "i_frame (m_addr s) k r ty 1 (length objs) cot (le_bytes 3 a @ concat objs) = h @ le_bytes 3 a @ concat objs"
    and lh: "length h = 12" by (rule i_frame_split)
  define s1 where "s1 = m_received k r (m_app s) s"
  have "w \<le> step" using assms(3) by (auto simp: report_kind_def)
  have ty: "ty < 256" using assms(3) by (auto simp: report_kind_def iec10x_types)
  have cot: "cot mod 16384 = cot" using assms(3) by (auto simp: report_kind_def iec10x_cots)
  have a: "rdn buf (off + 12) 3 = Some (le_bytes 3 a)"
    using at(12) [of 0 3] by (simp add: rdn_def)
  have "iec104_m_values_sq buf mode dt w step a (off + 15) 0 (length objs) s1 =
      Some (s1\<lparr>m_app := m_effect s1 (block_values mode dt w a 0 objs)\<rparr>)"
    using values_sq_block [OF assms(5) \<open>w \<le> step\<close>, of "pre @ h @ le_bytes 3 a" post mode dt a 0 s1] lh
    by (simp add: assms(1,2) h [simplified] add.assoc)
  then have "iec104_m_values mode dt w step inc s1 buf off =
      Some (0, s1\<lparr>m_app := m_effect s1 (block_values mode dt w a 0 objs)\<rparr>)" for inc
    using at(7,8) a assms(4,7) by (simp add: iec104_m_values_def)
  moreover have "m_effect s1 = m_effect s" by (rule m_effect_cong) (simp_all add: s1_def)
  moreover have "s1\<lparr>m_app := d\<rparr> = m_received k r d s" for d by (simp add: s1_def m_received_def)
  ultimately have v: "iec104_m_values mode dt w step inc s1 buf off =
      Some (0, m_received k r (m_effect s (block_values mode dt w a 0 objs)) s)" for inc by simp
  have sc: "asdu_type buf off = Some ty" "asdu_reason buf off = Some cot" using at(6,9) ty cot by simp_all
  show ?thesis
    using assms(3) v [of True] v [of False]
    by (subst m_handle_i_frame [OF assms(1,2) ty assms(6)])
      (auto simp: report_kind_def m_dispatch_def iec104_m_asdu_yx_def iec104_m_asdu_yc_def iec104_m_asdu_ym_def
        s1_def [symmetric] sc a iec10x_types iec10x_cots)
qed

section \<open>Lists of nodes\<close>

text \<open>One question per node, in order, and what was answered.\<close>

fun polls ::
  "(DevNodeInfo_T \<Rightarrow> 'd \<Rightarrow> int \<times> DevValue_U \<times> 'd) \<Rightarrow> DevNodeInfo_T list \<Rightarrow> 'd \<Rightarrow> (DevNodeInfo_T \<times> int \<times> DevValue_U) list \<times> 'd" where
  "polls get [] d = ([], d)"
| "polls get (node # nodes) d =
     (let (ret, v, d) = get node d; (ps, d) = polls get nodes d in ((node, ret, v) # ps, d))"

definition told ::
  "DevTypeMod_E \<Rightarrow> DevDataType_E \<Rightarrow> nat \<Rightarrow> (nat \<Rightarrow> DevNodeInfo_T \<Rightarrow> int \<Rightarrow> DevValue_U \<Rightarrow> bytes) \<Rightarrow>
   (DevNodeInfo_T \<times> int \<times> DevValue_U) list \<Rightarrow> (DevNodeInfo_T \<times> DevValue_U) list" where
  "told mode dt w enc ps =
     map (\<lambda>(node, ret, v). (\<lparr>node_mode = mode, node_addr = node_addr node, node_type = dt\<rparr>,
       word_of_nat (le_val (take w (enc 0 node ret v))))) ps"

definition consecutive :: "DevNodeInfo_T list \<Rightarrow> bool" where
  "consecutive nodes \<longleftrightarrow> (\<forall>i < length nodes. node_addr (nodes ! i) = node_addr (nodes ! 0) + word_of_nat i)"

lemma length_polls [simp]: "length (fst (polls get nodes d)) = length nodes"
  by (induction nodes arbitrary: d) (auto simp: split_beta Let_def)

lemma map_polls [simp]: "map fst (fst (polls get nodes d)) = nodes"
  by (induction nodes arbitrary: d) (auto simp: split_beta Let_def)

lemma polls_append:
  "polls get (xs @ ys) d = (let (a, d) = polls get xs d; (b, d) = polls get ys d in (a @ b, d))"
  by (induction xs arbitrary: d) (simp_all add: split_beta Let_def)

lemma told_append: "told mode dt w enc (ps @ qs) = told mode dt w enc ps @ told mode dt w enc qs"
  by (simp add: told_def)

lemma report_polls:
  assumes "\<And>i j node ret v. enc i node ret v = enc j node ret v"
  shows "report enc get i nodes d =
    (concat (map (\<lambda>(node, ret, v). enc 0 node ret v) (fst (polls get nodes d))), snd (polls get nodes d))"
proof (induction nodes arbitrary: i d)
  case (Cons x xs)
  have "enc i x r v = enc 0 x r v" for r v by (rule assms)
  with Cons show ?case by (simp add: split_beta Let_def)
qed simp

lemma consecutive_part: "consecutive (xs @ ys @ zs) \<Longrightarrow> consecutive ys"
  unfolding consecutive_def
proof (intro allI impI)
  fix i
  assume a: "\<forall>i < length (xs @ ys @ zs). node_addr ((xs @ ys @ zs) ! i) = node_addr ((xs @ ys @ zs) ! 0) + word_of_nat i"
    and i: "i < length ys"
  have "ys \<noteq> []" using i by auto
  with a [rule_format, of "length xs + i"] a [rule_format, of "length xs + 0"] i
  show "node_addr (ys ! i) = node_addr (ys ! 0) + word_of_nat i"
    by (simp add: nth_append)
qed

lemma chunk_part: "c \<in> set (chunks xs) \<Longrightarrow> \<exists>ys zs. xs = ys @ c @ zs"
proof (induction xs rule: chunks.induct)
  case (2 x xs)
  then consider "c = x # take 49 xs" | ys zs where "drop 49 xs = ys @ c @ zs" by auto
  then show ?case
  proof cases
    case 1
    then have "x # xs = [] @ c @ drop 49 xs" by simp
    then show ?thesis by blast
  next
    case 2
    then have "x # xs = (x # take 49 xs @ ys) @ c @ zs" by (metis append.assoc append_Cons append_take_drop_id)
    then show ?thesis by blast
  qed
qed simp

lemma block_values_told:
  assumes "consecutive nodes" and "nodes \<noteq> []"
  shows "block_values mode dt w (unat (node_addr (hd nodes))) 0
      (map (\<lambda>(node, ret, v). enc 0 node ret v) (fst (polls get nodes d))) =
    told mode dt w enc (fst (polls get nodes d))"
proof -
  define ps where "ps = fst (polls get nodes d)"
  have len: "length ps = length nodes" by (simp add: ps_def)
  have a: "unat (node_addr (hd nodes)) mod 65536 = unat (node_addr (hd nodes))"
    using unsigned_less [of "node_addr (hd nodes)", where 'a = nat] by simp
  have "block_values mode dt w (unat (node_addr (hd nodes))) 0 (map (\<lambda>(node, ret, v). enc 0 node ret v) ps) =
      told mode dt w enc ps"
  proof (rule nth_equalityI)
    fix i
    assume "i < length (block_values mode dt w (unat (node_addr (hd nodes))) 0 (map (\<lambda>(node, ret, v). enc 0 node ret v) ps))"
    then have i: "i < length ps" by (simp add: block_values_def)
    obtain ret v where p: "ps ! i = (nodes ! i, ret, v)"
      using i len by (metis map_polls nth_map prod.collapse ps_def)
    have n: "node_addr (nodes ! i) = word_of_nat (unat (node_addr (hd nodes)) mod 65536 + i)"
      using assms(1) [unfolded consecutive_def, rule_format, of i] assms(2) i len unfolding a by (simp add: hd_conv_nth)
    have e: "enumerate 0 (map (\<lambda>(node, ret, v). enc 0 node ret v) ps) ! i = (i, enc 0 (nodes ! i) ret v)"
      using i p by (simp add: nth_enumerate_eq)
    show "block_values mode dt w (unat (node_addr (hd nodes))) 0 (map (\<lambda>(node, ret, v). enc 0 node ret v) ps) ! i =
        told mode dt w enc ps ! i"
      using i unfolding block_values_def told_def by (simp add: e p n del: of_nat_add)
  qed (simp add: block_values_def told_def)
  then show ?thesis by (simp add: ps_def)
qed

section \<open>The frames of a list\<close>

definition m_listens :: "('s, 'p, 'd) iec104m_t \<Rightarrow> 'd \<Rightarrow> ('s, 'p, 'd) iec104m_t \<Rightarrow> bool" where
  "m_listens s d s' \<longleftrightarrow>
     m_app s' = d \<and> m_addr s' = m_addr s \<and> m_stat s' = m_stat s \<and> build_send (m_sn s') = build_send (m_sn s) \<and>
     m_val_cb s' = m_val_cb s \<and> m_val_priv s' = m_val_priv s \<and> m_serv_cb s' = m_serv_cb s \<and>
     m_serv_priv s' = m_serv_priv s \<and> m_ctx s' = m_ctx s \<and> m_lnk s' = m_lnk s \<and>
     m_running s' = m_running s \<and> m_started s' = m_started s"

lemma m_listens_refl: "m_listens s (m_app s) s"
  by (simp add: m_listens_def)

lemma m_listens_trans: "m_listens s d s1 \<Longrightarrow> m_listens s1 e s2 \<Longrightarrow> m_listens s e s2"
  by (simp add: m_listens_def)

lemma m_listens_received: "m_listens s d (m_set_timer t (m_received k r d s))"
  by (simp add: m_listens_def m_set_timer_def m_received_def)

definition accepts :: "('s, 'p, 'd) iec104m_t \<Rightarrow> int \<Rightarrow> int \<Rightarrow> bool" where
  "accepts s k r \<longleftrightarrow> deal_send (m_sn s) \<le> k \<and> deal_recv (m_sn s) \<le> r mod 32768"

lemma accepts_in_order: "accepts s k r \<Longrightarrow> 0 \<le> k \<Longrightarrow> k < 32768 \<Longrightarrow> in_order s k r"
  by (simp add: accepts_def in_order_def)

lemma accepts_received: "0 \<le> k \<Longrightarrow> k < 32768 \<Longrightarrow> accepts (m_set_timer t (m_received k r d s)) (k + 1) r"
  by (simp add: accepts_def m_set_timer_def m_received_def)

lemma m_effect_listens: "m_listens s (m_effect s vs) s' \<Longrightarrow> m_effect s' ws = m_effect s (vs @ ws)"
  by (simp add: m_effect_append) (rule m_effect_cong [THEN fun_cong]; simp add: m_listens_def)

text \<open>Encodings whose size does not depend on the value and that do not use the position.\<close>

definition fixed_enc :: "(nat \<Rightarrow> DevNodeInfo_T \<Rightarrow> int \<Rightarrow> DevValue_U \<Rightarrow> bytes) \<Rightarrow> nat \<Rightarrow> DevNodeInfo_T list \<Rightarrow> bool" where
  "fixed_enc enc step nodes \<longleftrightarrow>
     (\<forall>i j node ret v. enc i node ret v = enc j node ret v) \<and>
     (\<forall>node \<in> set nodes. \<forall>i ret v. length (enc i node ret v) = step)"

text \<open>The station has handed the values \<open>vs\<close> to its application and expects the frame with number \<open>k\<close>.\<close>

definition hears :: "('s, 'p, 'd) iec104m_t \<Rightarrow> (DevNodeInfo_T \<times> DevValue_U) list \<Rightarrow> int \<Rightarrow> int \<Rightarrow> ('s, 'p, 'd) iec104m_t \<Rightarrow> bool" where
  "hears m vs k r s \<longleftrightarrow> m_listens m (m_effect m vs) s \<and> accepts s k r"

lemma hears_next:
  assumes "hears m vs k r s" and "0 \<le> k" and "k < 32768"
  shows "hears m (vs @ ws) (k + 1) r (m_set_timer t (m_received k r (m_effect s ws) s))"
proof -
  have "m_effect s ws = m_effect m (vs @ ws)" using assms(1) by (simp add: hears_def m_effect_listens)
  moreover have "m_listens m (m_effect s ws) (m_set_timer t (m_received k r (m_effect s ws) s))"
    using m_listens_trans [OF _ m_listens_received] assms(1) by (auto simp: hears_def)
  ultimately show ?thesis using accepts_received [OF assms(2,3)] by (simp add: hears_def)
qed

lemma chunks_taken:
  assumes "chunk_frames ty enc get (m_addr m) r cot k cs d = (fs, e)"
    and "\<forall>c \<in> set cs. c \<noteq> [] \<and> length c < 128 \<and> consecutive c \<and> ty (hd c) = t"
    and "report_kind t cot mode dt w step" and "fixed_enc enc step (concat cs)"
    and "0 \<le> k" and "k + int (length cs) \<le> 32768"
  shows "takes fs (hears m vs k r) (hears m (vs @ told mode dt w enc (fst (polls get (concat cs) d))) (k + int (length cs)) r) \<and>
    e = snd (polls get (concat cs) d)"
  using assms
proof (induction cs arbitrary: k d vs fs)
  case Nil
  then show ?case by (auto simp: told_def)
next
  case (Cons c cs)
  have enc: "enc i node ret v = enc j node ret v" for i j node ret v
    using Cons.prems(4) unfolding fixed_enc_def by blast
  define ps where "ps = fst (polls get c d)"
  define d1 where "d1 = snd (polls get c d)"
  define objs where "objs = map (\<lambda>(node, ret, v). enc 0 node ret v) ps"
  define a where "a = unat (node_addr (hd c))"
  have rep: "report enc get 0 c d = (concat objs, d1)"
    by (simp add: report_polls [of enc, OF enc] objs_def ps_def d1_def)
  define f where "f = i_frame (m_addr m) k r t 1 (length objs) cot (le_bytes 3 a @ concat objs)"
  obtain gs where g: "chunk_frames ty enc get (m_addr m) r cot (k + 1) cs d1 = (gs, e)" and fs: "fs = f # gs"
    using Cons.prems(1,2) by (auto simp: rep a_def objs_def ps_def f_def split: prod.splits)
  have "set (map fst ps) = set c" by (simp add: ps_def)
  then have "node \<in> set (c @ concat cs)" if "(node, ret, v) \<in> set ps" for node ret v
    using that by (metis UnI1 image_eqI fst_conv set_append set_map)
  then have objs: "\<forall>x \<in> set objs. length x = step" "length objs < 128"
    using Cons.prems(2,4) by (auto simp: objs_def fixed_enc_def) (simp add: ps_def)
  have a: "a < 65536" using unsigned_less [of "node_addr (hd c)", where 'a = nat] by (simp add: a_def)
  have k: "0 \<le> k" "k < 32768" using Cons.prems(5,6) by simp_all
  have b: "block_values mode dt w a 0 objs = told mode dt w enc ps"
    using block_values_told [of c mode dt w enc get d] Cons.prems(2) by (simp add: a_def objs_def ps_def)
  have h: "\<exists>s'. m_handle_frame clk (length pre) (pre @ f @ post) s = Some (pre @ f @ post, s') \<and> hears m (vs @ told mode dt w enc ps) (k + 1) r s'"
    if s: "hears m vs k r s" for s clk pre post
  proof -
    have "m_addr s = m_addr m" "in_order s k r" using s k by (simp_all add: hears_def m_listens_def accepts_in_order)
    then show ?thesis
      using m_handle_report [OF _ refl Cons.prems(3) objs(2,1) _ a, of "pre @ f @ post" pre s k r post clk] hears_next [OF s k]
      by (simp add: f_def b)
  qed
  have "takes gs (hears m (vs @ told mode dt w enc ps) (k + 1) r)
      (hears m ((vs @ told mode dt w enc ps) @ told mode dt w enc (fst (polls get (concat cs) d1))) (k + 1 + int (length cs)) r) \<and>
    e = snd (polls get (concat cs) d1)"
    using Cons.prems(2-6) by (intro Cons.IH [OF g]) (simp_all add: fixed_enc_def)
  moreover from this h have "takes fs (hears m vs k r)
      (hears m ((vs @ told mode dt w enc ps) @ told mode dt w enc (fst (polls get (concat cs) d1))) (k + 1 + int (length cs)) r)"
    unfolding fs takes.simps by blast
  ultimately show ?case by (simp add: polls_append split_beta told_append ps_def d1_def add_ac Let_def)
qed

lemma chunk_frames_apdu:
  assumes "fixed_enc enc step (concat cs)" and "\<forall>c \<in> set cs. step * length c \<le> 242"
  shows "list_all apdu (fst (chunk_frames ty enc get addr r cot k cs d))"
  using assms
proof (induction cs arbitrary: k d)
  case (Cons c cs)
  have l: "length (fst (report enc get 0 c d)) = step * length c"
    by (rule length_report) (use Cons.prems(1) in \<open>auto simp: fixed_enc_def\<close>)
  have "fixed_enc enc step (concat cs)" using Cons.prems(1) by (simp add: fixed_enc_def)
  from Cons.IH [OF this, of "k + 1" "snd (report enc get 0 c d)"] Cons.prems(2) l show ?case
    by (auto simp: split_beta Let_def intro!: apdu_i_frame)
qed simp

section \<open>What the other end is told\<close>

text \<open>The low \<open>n\<close> bits of a value, or all ones where the controlled station had none.\<close>

definition sees ::
  "DevTypeMod_E \<Rightarrow> DevDataType_E \<Rightarrow> nat \<Rightarrow> (DevNodeInfo_T \<times> int \<times> DevValue_U) list \<Rightarrow> (DevNodeInfo_T \<times> DevValue_U) list" where
  "sees mode dt n ps =
     map (\<lambda>(node, ret, v). (\<lparr>node_mode = mode, node_addr = node_addr node, node_type = dt\<rparr>,
       if ret = 0 then take_bit n v else mask n)) ps"

definition station_view :: "('s, 'p, 'd) iec104s_t \<Rightarrow> (DevNodeInfo_T \<times> DevValue_U) list" where
  "station_view s =
     (let (p1, d) = polls (node_value s) (yx_list s) (app s);
          (p2, d) = polls (node_value s) (yc_n_list s) d;
          (p3, d) = polls (node_value s) (yc_f_list s) d
      in sees DEV_TYPE_YX DATA_SINT_8 8 p1 @ sees DEV_TYPE_YC DATA_SINT_16 16 p2 @ sees DEV_TYPE_YC DATA_FLOAT 32 p3)"

lemma word_of_low_bits: "(word_of_nat (unat (v :: DevValue_U) mod 2 ^ n) :: DevValue_U) = take_bit n v"
proof -
  have "(word_of_nat (unat (take_bit n v)) :: DevValue_U) = take_bit n v" by (simp only: of_nat_unat ucast_id)
  then show ?thesis by (simp only: unsigned_take_bit_eq take_bit_eq_mod [of n "unat v"])
qed

lemma told_yx: "told DEV_TYPE_YX DATA_SINT_8 1 yx_enc ps = sees DEV_TYPE_YX DATA_SINT_8 8 ps"
proof -
  have "(ucast (ucast v :: u8) :: DevValue_U) = take_bit 8 v" for v :: DevValue_U
    by (rule bit_word_eqI) (auto simp: bit_simps)
  then show ?thesis by (auto simp: told_def sees_def yx_enc_def mask_eq_exp_minus_1 split_beta)
qed

lemma told_yc:
  "(\<forall>(node, ret, v) \<in> set ps. node_type node \<noteq> DATA_FLOAT) \<Longrightarrow>
   told DEV_TYPE_YC DATA_SINT_16 2 yc_enc ps = sees DEV_TYPE_YC DATA_SINT_16 16 ps"
  "(\<forall>(node, ret, v) \<in> set ps. node_type node = DATA_FLOAT) \<Longrightarrow>
   told DEV_TYPE_YC DATA_FLOAT 4 yc_enc ps = sees DEV_TYPE_YC DATA_FLOAT 32 ps"
  using word_of_low_bits [of _ 16] word_of_low_bits [of _ 32]
  by (auto simp: told_def sees_def yc_enc_def mask_eq_exp_minus_1)

lemma polls_nodes: "(node, ret, v) \<in> set (fst (polls get nodes d)) \<Longrightarrow> node \<in> set nodes"
  by (metis fst_conv image_eqI list.set_map map_polls)

lemma chunks_usable:
  assumes "consecutive nodes" and "\<forall>node \<in> set nodes. ty node = t"
  shows "\<forall>c \<in> set (chunks nodes). c \<noteq> [] \<and> length c < 128 \<and> consecutive c \<and> ty (hd c) = t"
proof
  fix c
  assume c: "c \<in> set (chunks nodes)"
  obtain ys zs where n: "nodes = ys @ c @ zs" using chunk_part [OF c] by blast
  have "c \<noteq> []" and "length c < 128" using chunks_bound [OF c] by auto
  then show "c \<noteq> [] \<and> length c < 128 \<and> consecutive c \<and> ty (hd c) = t"
    using assms consecutive_part [of ys c zs] by (simp add: n)
qed

lemma fixed_encs:
  "fixed_enc yx_enc 1 nodes"
  "\<forall>node \<in> set nodes. node_type node \<noteq> DATA_FLOAT \<Longrightarrow> fixed_enc yc_enc 3 nodes"
  "\<forall>node \<in> set nodes. node_type node = DATA_FLOAT \<Longrightarrow> fixed_enc yc_enc 5 nodes"
  by (auto simp: fixed_enc_def) (auto simp: yx_enc_def yc_enc_def)

section \<open>The answer to a general interrogation, delivered\<close>

lemma consecutive_part_apdu:
  assumes "fixed_enc enc step nodes" and "length nodes * step \<le> 242 \<or> step \<le> 3"
    and "chunk_frames ty enc get addr r cot k (chunks nodes) d = (fs, e)"
  shows "list_all apdu fs"
proof -
  have "step * length c \<le> 242" if "c \<in> set (chunks nodes)" for c
  proof (cases "step \<le> 3")
    case True
    then have "step * length c \<le> 3 * 50" by (intro mult_le_mono) (use chunks_bound [OF that] in simp_all)
    then show ?thesis by simp
  next
    case False
    have "step * length c \<le> step * length nodes" using chunks_bound [OF that] by (intro mult_le_mono2) simp
    moreover have "step * length nodes \<le> 242" using assms(2) False by (simp add: mult.commute)
    ultimately show ?thesis by (rule le_trans)
  qed
  then show ?thesis
    using chunk_frames_apdu [of enc step "chunks nodes" ty get addr r cot k d] assms(1,3) by simp
qed

text \<open>Acknowledgement and termination of an interrogation say nothing to the application: the second
  carries an object address that the controlling station refuses.\<close>

lemma m_handle_call_frame:
  assumes "buf = pre @ i_frame (m_addr s) k r IEC10X_C_IC_NA_1 sq num cot (le_bytes 3 a @ bs) @ post"
    and "off = length pre" and "in_order s k r"
    and "cot = IEC10X_COT_ACTCON \<or> (a mod 16777216 \<noteq> 0 \<and> cot < 16384)"
  shows "m_handle_frame clk off buf s = Some (buf, m_set_timer (clk off) (m_received k r (m_app s) s))"
proof -
  note at = i_frame_at [OF assms(1,2)]
  have a: "rdn buf (off + 12) 3 = Some (le_bytes 3 a)"
    using at(12) [of 0 3] by (simp add: rdn_def)
  have c: "cot mod 16384 = cot" using assms(4) by (auto simp: iec10x_cots)
  have z: "le_bytes 3 a = [0, 0, 0] \<Longrightarrow> a mod 16777216 = 0"
    using le_val_le_bytes [of 3 a] by simp
  show ?thesis
    by (subst m_handle_i_frame [OF assms(1,2) _ assms(3)])
      (use assms(4) z at(9) in \<open>auto simp: m_dispatch_def iec10x_types iec104_m_asdu_call_all_def iec104_m_call_answer_def a c
        split: if_splits\<close>)
qed

lemma length_chunk_frames':
  "chunk_frames ty enc get addr r cot k cs d = (fs, e) \<Longrightarrow> length fs = length cs"
  by (metis fst_conv length_chunk_frames)

lemma call_frame_taken:
  assumes "0 \<le> k" and "k < 32768" and "cot = IEC10X_COT_ACTCON \<or> (a mod 16777216 \<noteq> 0 \<and> cot < 16384)"
  shows "takes [i_frame (m_addr m) k r IEC10X_C_IC_NA_1 sq num cot (le_bytes 3 a @ bs)] (hears m vs k r) (hears m vs (k + 1) r)"
proof -
  let ?f = "i_frame (m_addr m) k r IEC10X_C_IC_NA_1 sq num cot (le_bytes 3 a @ bs)"
  have "\<exists>s'. m_handle_frame clk (length pre) (pre @ ?f @ post) s = Some (pre @ ?f @ post, s') \<and> hears m vs (k + 1) r s'"
    if s: "hears m vs k r s" for s clk pre post
  proof -
    have "m_addr s = m_addr m" "in_order s k r" using s assms(1,2) by (simp_all add: hears_def m_listens_def accepts_in_order)
    then show ?thesis
      using m_handle_call_frame [OF _ refl _ assms(3), of "pre @ ?f @ post" pre s k r sq num bs post clk] hears_next [OF s assms(1,2), of "[]"]
      by simp
  qed
  then show ?thesis unfolding takes.simps by blast
qed

lemma answer_taken:
  assumes "call_all_answer s = (fs, d)" and "lists_sorted s" and "length (yc_f_list s) \<le> 48"
    and "consecutive (yx_list s)" and "consecutive (yc_n_list s)" and "consecutive (yc_f_list s)"
    and "m_addr m = asdu_addr s" and "0 \<le> build_send (sn s)" and "build_send (sn s) + int (length fs) \<le> 32768"
  shows "takes fs (hears m [] (build_send (sn s)) (build_recv (sn s)))
      (hears m (station_view s) (build_send (sn s) + int (length fs)) (build_recv (sn s)))"
    and "list_all apdu fs"
proof -
  define get where "get = node_value s"
  define ad where "ad = asdu_addr s"
  define r where "r = build_recv (sn s)"
  define k where "k = build_send (sn s)"
  note yn = assms(2) [unfolded lists_sorted_def]
  obtain f1 d1 where 1: "chunk_frames (\<lambda>_. IEC10X_M_SP_NA_1) yx_enc get ad r IEC10X_COT_INTROGEN (k + 1)
      (chunks (yx_list s)) (app s) = (f1, d1)" by fastforce
  obtain f2 d2 where 2: "chunk_frames yc_type yc_enc get ad r IEC10X_COT_INTROGEN (k + int (1 + length f1))
      (chunks (yc_n_list s)) d1 = (f2, d2)" by fastforce
  obtain f3 d3 where 3: "chunk_frames yc_type yc_enc get ad r IEC10X_COT_INTROGEN (k + int (1 + length f1 + length f2))
      (chunks (yc_f_list s)) d2 = (f3, d3)" by fastforce
  define a where "a = i_frame ad k r IEC10X_C_IC_NA_1 0 1 IEC10X_COT_ACTCON (le_bytes 3 0 @ [20])"
  define n where "n = k + int (1 + length f1 + length f2 + length f3)"
  define z where "z = i_frame ad n r IEC10X_C_IC_NA_1 1 0 IEC10X_COT_ACTTERM (le_bytes 3 0x1001 @ [20])"
  have fs: "fs = [a] @ f1 @ f2 @ f3 @ [z]"
    using assms(1) 1 2 3 unfolding call_all_answer_def
    by (simp add: get_def [symmetric] ad_def [symmetric] r_def [symmetric] k_def [symmetric] Let_def a_def z_def n_def)
  have len: "length f1 = length (chunks (yx_list s))" "length f2 = length (chunks (yc_n_list s))"
    "length f3 = length (chunks (yc_f_list s))"
    by (rule length_chunk_frames' [OF 1] length_chunk_frames' [OF 2] length_chunk_frames' [OF 3])+
  have k: "0 \<le> k" "n + 1 \<le> 32768" using assms(8,9) by (simp_all add: k_def n_def fs)
  have ad: "ad = m_addr m" using assms(7) by (simp add: ad_def)
  have yx: "fixed_enc yx_enc 1 (concat (chunks (yx_list s)))" "report_kind IEC10X_M_SP_NA_1 IEC10X_COT_INTROGEN DEV_TYPE_YX DATA_SINT_8 1 1"
    "fixed_enc yc_enc 3 (concat (chunks (yc_n_list s)))" "report_kind IEC10X_M_ME_NA_1 IEC10X_COT_INTROGEN DEV_TYPE_YC DATA_SINT_16 2 3"
    "fixed_enc yc_enc 5 (concat (chunks (yc_f_list s)))" "report_kind IEC10X_M_ME_NC_1 IEC10X_COT_INTROGEN DEV_TYPE_YC DATA_FLOAT 4 5"
    using fixed_encs yn by (simp_all add: report_kind_def)
  show "list_all apdu fs"
  proof -
    have "list_all apdu f1" by (rule consecutive_part_apdu [OF _ _ 1, of 1]) (use fixed_encs(1) [of "yx_list s"] in simp_all)
    moreover have "list_all apdu f2" by (rule consecutive_part_apdu [OF _ _ 2, of 3]) (use fixed_encs yn in simp_all)
    moreover have "list_all apdu f3" by (rule consecutive_part_apdu [OF _ _ 3, of 5]) (use fixed_encs yn assms(3) in simp_all)
    ultimately show ?thesis by (simp add: fs a_def z_def apdu_i_frame)
  qed
  define v1 where "v1 = told DEV_TYPE_YX DATA_SINT_8 1 yx_enc (fst (polls get (yx_list s) (app s)))"
  define v2 where "v2 = told DEV_TYPE_YC DATA_SINT_16 2 yc_enc (fst (polls get (yc_n_list s) d1))"
  define v3 where "v3 = told DEV_TYPE_YC DATA_FLOAT 4 yc_enc (fst (polls get (yc_f_list s) d2))"
  have ta: "takes [a] (hears m [] k r) (hears m [] (k + 1) r)"
    unfolding a_def ad by (rule call_frame_taken) (use k in \<open>simp_all add: n_def\<close>)
  have t1: "takes f1 (hears m [] (k + 1) r) (hears m v1 (k + int (1 + length f1)) r)" and d1: "d1 = snd (polls get (yx_list s) (app s))"
    using chunks_taken [OF 1 [unfolded ad] chunks_usable [OF assms(4), where t = IEC10X_M_SP_NA_1] yx(2,1), of "[]"] k
    by (simp_all add: len n_def v1_def add_ac)
  have t2: "takes f2 (hears m v1 (k + int (1 + length f1)) r) (hears m (v1 @ v2) (k + int (1 + length f1 + length f2)) r)"
    and d2: "d2 = snd (polls get (yc_n_list s) d1)"
    using chunks_taken [OF 2 [unfolded ad] chunks_usable [OF assms(5), where t = IEC10X_M_ME_NA_1] yx(4,3), of v1] k yn
    by (simp_all add: len n_def v2_def yc_type_def add_ac)
  have t3: "takes f3 (hears m (v1 @ v2) (k + int (1 + length f1 + length f2)) r) (hears m (v1 @ v2 @ v3) n r)"
    using chunks_taken [OF 3 [unfolded ad] chunks_usable [OF assms(6), where t = IEC10X_M_ME_NC_1] yx(6,5), of "v1 @ v2"] k yn
    by (simp_all add: len n_def v3_def yc_type_def add_ac)
  have tz: "takes [z] (hears m (v1 @ v2 @ v3) n r) (hears m (v1 @ v2 @ v3) (n + 1) r)"
    unfolding z_def ad by (rule call_frame_taken) (use k in \<open>simp_all add: n_def iec10x_cots\<close>)
  have "\<forall>(node, ret, v) \<in> set (fst (polls get (yc_n_list s) d1)). node_type node \<noteq> DATA_FLOAT"
    "\<forall>(node, ret, v) \<in> set (fst (polls get (yc_f_list s) d2)). node_type node = DATA_FLOAT"
    using yn by (auto dest!: polls_nodes)
  then have "v1 @ v2 @ v3 = station_view s"
    by (simp add: v1_def v2_def v3_def told_yx [simplified] told_yc station_view_def get_def d1 d2 split_beta Let_def)
  with takes_append [OF ta takes_append [OF t1 takes_append [OF t2 takes_append [OF t3 tz]]]]
  show "takes fs (hears m [] (build_send (sn s)) (build_recv (sn s)))
      (hears m (station_view s) (build_send (sn s) + int (length fs)) (build_recv (sn s)))"
    by (simp add: fs k_def r_def n_def add_ac)
qed

text \<open>However the frames of an answer are spread over reads, the station ends up having heard all of it.\<close>

lemma answer_heard:
  assumes "call_all_answer s = (fs, d)" and "lists_sorted s" and "length (yc_f_list s) \<le> 48"
    and "consecutive (yx_list s)" and "consecutive (yc_n_list s)" and "consecutive (yc_f_list s)"
    and "m_addr m = asdu_addr s" and "accepts m (build_send (sn s)) (build_recv (sn s))"
    and "0 \<le> build_send (sn s)" and "build_send (sn s) + int (length fs) \<le> 32768" and "concat (map snd rs) = fs"
  shows "\<exists>m'. m_reads rs m = Some m' \<and> m_listens m (m_effect m (station_view s)) m'"
proof -
  note t = answer_taken [OF assms(1-7,9,10)]
  have start: "hears m [] (build_send (sn s)) (build_recv (sn s)) m" using assms(8) by (simp add: hears_def m_listens_refl)
  have "\<exists>m'. m_reads rs m = Some m' \<and> hears m (station_view s) (build_send (sn s) + int (length fs)) (build_recv (sn s)) m'"
    by (rule takes_reads [where P = "hears m [] (build_send (sn s)) (build_recv (sn s))"]) (use t start assms(11) in simp_all)
  then show ?thesis by (auto simp: hears_def)
qed

text \<open>Two stations for the witnesses.\<close>

definition demo_master :: "(proto_port, nat, (u16 \<times> DevValue_U) list) iec104m_t" where
  "demo_master =
     (let m = the (wow_iec104_m_init 7 True True True 0 []);
          m = snd (wow_iec104_m_set_value_handle m (Some (\<lambda>p node v d. d @ [(node_addr node, v)])) 0)
      in m_set_init IEC10X_STA_LINK_IDLE (m\<lparr>m_lnk := (m_lnk m)\<lparr>client := Live\<rparr>\<rparr>))"

lemmas demo_master_defs = demo_master_def wow_iec104_m_init_def wow_iec104_m_set_value_handle_def iec104_m_reset_param_def
  proto_port_eth_master_init_def new_port_def m_set_init_def

definition dense_nodes :: "DevNodeInfo_T list" where
  "dense_nodes =
     [\<lparr>node_mode = DEV_TYPE_YX, node_addr = 1, node_type = DATA_BOOL\<rparr>,
      \<lparr>node_mode = DEV_TYPE_YX, node_addr = 2, node_type = DATA_BOOL\<rparr>,
      \<lparr>node_mode = DEV_TYPE_YC, node_addr = 0x4001, node_type = DATA_SINT_16\<rparr>]"

lemma dense_station:
  "station_online (demo_station dense_nodes)" "get_val_cb (demo_station dense_nodes) \<noteq> None"
  "lists_sorted (demo_station dense_nodes)" "length (yc_f_list (demo_station dense_nodes)) \<le> 48"
  "consecutive (yx_list (demo_station dense_nodes))" "consecutive (yc_n_list (demo_station dense_nodes))"
  "consecutive (yc_f_list (demo_station dense_nodes))"
  "build_send (sn (demo_station dense_nodes)) + int (length (fst (call_all_answer (demo_station dense_nodes)))) \<le> 32768"
  "tx (lnk (demo_station dense_nodes)) = []" "asdu_addr (demo_station dense_nodes) = 7"
  "build_send (sn (demo_station dense_nodes)) = 0"
  "m_effect demo_master (station_view (demo_station dense_nodes)) = [(1, 1), (2, 2), (0x4001, 0x4001)]"
proof -
  let ?s = "demo_station dense_nodes"
  have l: "yx_list ?s = take 2 dense_nodes" "yc_n_list ?s = drop 2 dense_nodes" "yc_f_list ?s = []"
    by (simp_all add: demo_defs dense_nodes_def Let_def)
  show "consecutive (yx_list ?s)" "consecutive (yc_n_list ?s)" "consecutive (yc_f_list ?s)"
    unfolding l by (auto simp: consecutive_def dense_nodes_def less_Suc_eq numeral_2_eq_2)
  show "station_online ?s" "get_val_cb ?s \<noteq> None" "lists_sorted ?s" "length (yc_f_list ?s) \<le> 48" "tx (lnk ?s) = []"
    "asdu_addr ?s = 7" "build_send (sn ?s) = 0"
    by (simp_all add: station_online_def lists_sorted_def demo_defs dense_nodes_def port_prompt_def Let_def)
  show "build_send (sn ?s) + int (length (fst (call_all_answer ?s))) \<le> 32768"
    by (simp add: call_all_answer_def demo_defs dense_nodes_def node_value_def Let_def)
  have g: "node_value ?s = demo_get 0" "app ?s = 0"
    by (simp_all add: node_value_def demo_station_def wow_iec104_s_get_value_handle_def demo_defs dense_nodes_def Let_def fun_eq_iff)
  have v: "map (\<lambda>(node, v). (node_addr node, v)) (station_view ?s) = [(1, 1), (2, 2), (0x4001, 0x4001)]"
    unfolding station_view_def l g by (simp add: sees_def dense_nodes_def demo_get_def)
  have "m_val_cb demo_master = Some (\<lambda>p node v d. d @ [(node_addr node, v)])" "m_app demo_master = []"
    by (simp_all add: demo_master_defs Let_def)
  moreover have "foldl (\<lambda>d (node, v). d @ [(node_addr node, v)]) e vs = e @ map (\<lambda>(node, v). (node_addr node, v)) vs"
    for e and vs :: "(DevNodeInfo_T \<times> DevValue_U) list" by (induction vs arbitrary: e) auto
  ultimately show "m_effect demo_master (station_view ?s) = [(1, 1), (2, 2), (0x4001, 0x4001)]"
    using v by (simp add: m_effect_def)
qed

end
