(* ===== verification/Iec104Exchange.thy ===== *)
theory Iec104Exchange
  imports Iec104Delivery
begin

text \<open>
  Both IEC 104 stations together: the frames the controlling station sends on a working link, a
  general interrogation from the call of the API to the values in the application, the
  selection and execution of single and double commands, and the start and loss of a
  connection as the controlling station sees them.
\<close>

section \<open>Sending\<close>

definition m_head :: "('s, 'p, 'd) iec104m_t \<Rightarrow> nat \<Rightarrow> nat \<Rightarrow> nat \<Rightarrow> bytes" where
  "m_head s ty sq num =
     [IEC104_HEAD, 0] @ ctrl_i (build_send (m_sn s)) (build_recv (m_sn s)) @ asdu_head ty sq num IEC10X_COT_ACT (m_addr s)"

definition m_frame :: "('s, 'p, 'd) iec104m_t \<Rightarrow> nat \<Rightarrow> nat \<Rightarrow> nat \<Rightarrow> bytes \<Rightarrow> bytes" where
  "m_frame s ty sq num = i_frame (m_addr s) (build_send (m_sn s)) (build_recv (m_sn s)) ty sq num IEC10X_COT_ACT"

definition m_numbered :: "('s, 'p, 'd) iec104m_t \<Rightarrow> ('s, 'p, 'd) iec104m_t" where
  "m_numbered s = s\<lparr>m_sn := (m_sn s)\<lparr>build_send := build_send (m_sn s) + 1\<rparr>\<rparr>"

lemma length_m_head [simp]: "length (m_head s ty sq num) = 12"
  by (simp add: m_head_def)

lemma m_begin_i: "iec104_m_begin_i s ty sq num = (m_head s ty sq num @ replicate 244 0, m_numbered s)"
  by (simp add: iec104_m_begin_i_def m_numbered_def m_head_def IEC104_MAX_BUF_LEN_def)

lemma m_numbered_fields [simp]:
  "m_addr (m_numbered s) = m_addr s" "m_ctx (m_numbered s) = m_ctx s" "m_lnk (m_numbered s) = m_lnk s"
  "m_app (m_numbered s) = m_app s" "m_stat (m_numbered s) = m_stat s" "m_time (m_numbered s) = m_time s"
  "m_val_cb (m_numbered s) = m_val_cb s" "m_val_priv (m_numbered s) = m_val_priv s" "m_serv_cb (m_numbered s) = m_serv_cb s"
  "build_send (m_sn (m_numbered s)) = build_send (m_sn s) + 1" "build_recv (m_sn (m_numbered s)) = build_recv (m_sn s)"
  "deal_send (m_sn (m_numbered s)) = deal_send (m_sn s)" "deal_recv (m_sn (m_numbered s)) = deal_recv (m_sn s)"
  by (simp_all add: m_numbered_def)

lemma m_send_message:
  assumes "ptr = 2 + length rest" and "ptr < 256"
  shows "iec104_m_send s (h # 0 # rest @ z) ptr =
    do { (ret, l) \<leftarrow> link_send (m_ctx s) (m_lnk s) (h # word_of_nat (length rest) # rest); Some (ret, s\<lparr>m_lnk := l\<rparr>) }"
  using assms by (simp add: iec104_m_send_def mem_simps Let_def nth_append)

lemma m_send_i_frame:
  assumes "length body \<le> 243" and "ptr = 12 + length body"
  shows "iec104_m_send s1 (m_head s ty sq num @ body @ z) ptr =
    do { (ret, l) \<leftarrow> link_send (m_ctx s1) (m_lnk s1) (m_frame s ty sq num body); Some (ret, s1\<lparr>m_lnk := l\<rparr>) }"
  using m_send_message [of ptr "ctrl_i (build_send (m_sn s)) (build_recv (m_sn s)) @ asdu_head ty sq num IEC10X_COT_ACT (m_addr s) @ body"
      s1 IEC104_HEAD z] assms
  by (simp add: m_frame_def i_frame_def m_head_def)

text \<open>On a working link: \<open>to_link fs l l'\<close> says that from \<open>l\<close> to \<open>l'\<close> the frames \<open>fs\<close> went out and nothing else
  happened.\<close>

context duplex_link
begin

definition m_online :: "('s, 'p, 'd) iec104m_t \<Rightarrow> bool" where
  "m_online s \<longleftrightarrow> m_ctx s = ops \<and> ready (m_lnk s) \<and> prompt (m_lnk s)"

definition to_link :: "bytes list \<Rightarrow> 's \<Rightarrow> 's \<Rightarrow> bool" where
  "to_link fs l l' \<longleftrightarrow> ready l' \<and> prompt l' \<and> sent l' = sent l @ fs \<and> pending l' = pending l"

lemma link_takes:
  assumes "ready l" and "prompt l" and "length msg \<le> 260"
  obtains l' where "link_send ops l msg = Some (int (length msg), l')" and "to_link [msg] l l'"
proof -
  obtain ret l' where "link_send ops l msg = Some (ret, l')" using send_total [OF assms(1)] by blast
  with prompt_send [OF assms this] send_ready [OF assms(1) this] show thesis using that by (auto simp: to_link_def)
qed

lemma m_sends_i_frame:
  assumes "m_online s1" and "length body \<le> 243" and "ptr = 12 + length body"
  obtains l where "iec104_m_send s1 (m_head s ty sq num @ body @ z) ptr = Some (int ptr, s1\<lparr>m_lnk := l\<rparr>)"
    and "to_link [m_frame s ty sq num body] (m_lnk s1) l"
proof -
  have len: "length (m_frame s ty sq num body) = ptr" using assms(3) by (simp add: m_frame_def)
  obtain l where "link_send ops (m_lnk s1) (m_frame s ty sq num body) = Some (int ptr, l)"
    and "to_link [m_frame s ty sq num body] (m_lnk s1) l"
    using link_takes [of "m_lnk s1" "m_frame s ty sq num body"] assms len unfolding m_online_def by auto
  then show thesis using that assms by (simp add: m_send_i_frame m_online_def)
qed

lemma m_sends_ctrl:
  assumes "m_online s" and "length ctrl = 4"
  obtains l where "iec104_m_send_ctrl s ctrl = Some (0, s\<lparr>m_lnk := l\<rparr>)" and "to_link [u_frame ctrl] (m_lnk s) l"
proof -
  have m: "u_frame ctrl = IEC104_HEAD # word_of_nat (length ctrl) # ctrl" using assms(2) by (simp add: u_frame_def)
  obtain l where "link_send ops (m_lnk s) (u_frame ctrl) = Some (int (length (u_frame ctrl)), l)"
    and "to_link [u_frame ctrl] (m_lnk s) l"
    using link_takes [of "m_lnk s" "u_frame ctrl"] assms unfolding m_online_def by (auto simp: u_frame_def)
  then show thesis
    using that assms m_send_message [of 6 ctrl s IEC104_HEAD "replicate 250 0"]
    by (simp add: iec104_m_send_ctrl_def m m_online_def IEC104_MAX_BUF_LEN_def)
qed

end

definition master_online :: "(proto_port, 'p, 'd) iec104m_t \<Rightarrow> bool" where
  "master_online s \<longleftrightarrow> m_ctx s = fst proto_port_eth_master_init \<and> client (m_lnk s) = Live \<and> port_prompt (m_lnk s)"

definition to_wire :: "bytes list \<Rightarrow> proto_port \<Rightarrow> proto_port \<Rightarrow> bool" where
  "to_wire fs l l' \<longleftrightarrow> client l' = Live \<and> port_prompt l' \<and> tx l' = tx l @ fs \<and> concat (rx l') = concat (rx l)"

lemma master_online_iff: "master_online s = eth_master.m_online s"
  by (simp add: master_online_def eth_master.m_online_def)

lemma to_wire_iff: "to_wire fs l l' = eth_master.to_link fs l l'"
  by (simp add: to_wire_def eth_master.to_link_def)

lemmas sends_i_frame = eth_master.m_sends_i_frame [folded master_online_iff to_wire_iff]
lemmas sends_ctrl = eth_master.m_sends_ctrl [folded master_online_iff to_wire_iff]

section \<open>The requests of the API\<close>

lemma call_all_sent:
  assumes "master_online m" and "st_init (m_stat m) = IEC10X_STA_LINK_IDLE"
  obtains l where "wow_iec104_m_build_call_all m = Some (0, (m_numbered m)\<lparr>m_lnk := l\<rparr>)"
    and "to_wire [m_frame m IEC10X_C_IC_NA_1 0 1 (le_bytes 3 0 @ [20])] (m_lnk m) l"
proof -
  have "master_online (m_numbered m)" using assms(1) by (simp add: master_online_def)
  then obtain l where "iec104_m_send (m_numbered m) (m_head m IEC10X_C_IC_NA_1 0 1 @ (le_bytes 3 0 @ [20]) @ replicate 240 0) 16 =
      Some (16, (m_numbered m)\<lparr>m_lnk := l\<rparr>)"
    and "to_wire [m_frame m IEC10X_C_IC_NA_1 0 1 (le_bytes 3 0 @ [20])] (m_lnk (m_numbered m)) l"
    using sends_i_frame [of "m_numbered m" "le_bytes 3 0 @ [20]" 16 m IEC10X_C_IC_NA_1 0 1 "replicate 240 0"] by auto
  then show thesis
    using that assms(2)
    by (simp add: wow_iec104_m_build_call_all_def m_begin_i wr_as_wrn wrn_wrn_k wrn_at_end IEC10X_COT_INTROGEN_def)
qed

text \<open>The thread reads at most 1500 bytes at a time; here every read ends with a whole frame.\<close>

definition reads_of :: "bytes list \<Rightarrow> ((nat \<Rightarrow> int) \<times> bytes list) list \<Rightarrow> bool" where
  "reads_of fs rs \<longleftrightarrow> concat (map snd rs) = fs \<and> list_all (\<lambda>(clk, gs). length (concat gs) \<le> 1500) rs"

text \<open>C16. A general interrogation from end to end: the call of the API sends one request, the controlled station answers
  it, and the answer, in whatever reads of whole frames it comes, hands the application of the controlling station the mode, address and
  value of every node, each once and in order; nothing is sent back. Both links work, the stations have the same address, a get callback
  is set, the nodes of each list have consecutive addresses (the code delivers others at wrong addresses), at most 48 of them are floats,
  and the numbers of the connection do not run over: the request has a number below 32767, the answer ends below 32768, and
  neither station has taken a higher number before.\<close>

theorem interrogation_end_to_end:
  assumes "master_online m" and "st_init (m_stat m) = IEC10X_STA_LINK_IDLE" and "0 \<le> build_send (m_sn m)"
    and "build_send (m_sn m) < 32767" and "deal_recv (m_sn m) \<le> build_send (m_sn m) + 1"
    and "station_online s" and "get_val_cb s \<noteq> None" and "lists_sorted s" and "length (yc_f_list s) \<le> 48"
    and "consecutive (yx_list s)" and "consecutive (yc_n_list s)" and "consecutive (yc_f_list s)"
    and "m_addr m = asdu_addr s" and "deal_send (m_sn m) \<le> build_send (sn s)" and "0 \<le> build_send (sn s)"
    and "build_send (sn s) + int (length (fst (call_all_answer s))) \<le> 32768"
  shows "\<exists>req m1 s1 fs. wow_iec104_m_build_call_all m = Some (0, m1) \<and> tx (m_lnk m1) = tx (m_lnk m) @ [req] \<and>
    iec104_s_frame_parse s req (length req) = Some s1 \<and> tx (lnk s1) = tx (lnk s) @ fs \<and>
    fs = fst (call_all_answer (received (build_send (m_sn m)) (build_recv (m_sn m)) s)) \<and>
    (\<forall>rs. reads_of fs rs \<longrightarrow> (\<exists>m2. m_reads rs m1 = Some m2 \<and>
      m_app m2 = m_effect m (station_view s) \<and> tx (m_lnk m2) = tx (m_lnk m) @ [req]))"
proof -
  define k where "k = build_send (m_sn m)"
  define r where "r = build_recv (m_sn m)"
  define req where "req = m_frame m IEC10X_C_IC_NA_1 0 1 (le_bytes 3 0 @ [20])"
  define m1 where "m1 = (\<lambda>l. (m_numbered m)\<lparr>m_lnk := l\<rparr>)"
  obtain l where m: "wow_iec104_m_build_call_all m = Some (0, m1 l)" and l: "to_wire [req] (m_lnk m) l"
    unfolding m1_def req_def by (rule call_all_sent [OF assms(1,2)])
  have rq: "req = i_frame (asdu_addr s) k r IEC10X_C_IC_NA_1 0 1 IEC10X_COT_ACT (le_bytes 3 0 @ [20])"
    using assms(13) by (simp add: req_def m_frame_def k_def r_def)
  define s0 where "s0 = received k r s"
  obtain fs d where a: "call_all_answer s0 = (fs, d)" by fastforce
  obtain s1 where "handle_frame (req @ []) 0 s = Some s1" and t: "tx (lnk s1) = tx (lnk s) @ fs"
    using handle_general_interrogation [OF assms(6-9), of "req @ []" k r "[]"] rq a by (auto simp: s0_def)
  moreover have "apdu req" by (simp add: rq apdu_i_frame)
  ultimately have s1: "iec104_s_frame_parse s req (length req) = Some s1" using parse_one [of req s "[]"] by simp
  have view: "station_view s0 = station_view s" by (simp add: s0_def station_view_def node_value_def)
  have "length (fst (call_all_answer s0)) = length (fst (call_all_answer s))"
    by (simp add: call_all_answer_def s0_def node_value_def Let_def split_beta)
  then have n: "build_send (sn s0) + int (length fs) \<le> 32768" using assms(16) by (simp add: a) (simp add: s0_def)
  have reads: "\<exists>m2. m_reads rs (m1 l) = Some m2 \<and> m_app m2 = m_effect m (station_view s) \<and> tx (m_lnk m2) = tx (m_lnk m) @ [req]"
    if "reads_of fs rs" for rs
  proof -
    have "\<exists>m2. m_reads rs (m1 l) = Some m2 \<and> m_listens (m1 l) (m_effect (m1 l) (station_view s0)) m2"
      by (rule answer_heard [OF a _ _ _ _ _ _ _ _ n])
        (use assms k_def that in \<open>simp_all add: s0_def lists_sorted_def m1_def accepts_def reads_of_def\<close>)
    moreover have "m_effect (m1 l) = m_effect m" by (rule m_effect_cong) (simp_all add: m1_def)
    ultimately show ?thesis using l by (auto simp: view m_listens_def m1_def to_wire_def)
  qed
  moreover have "tx (m_lnk (m1 l)) = tx (m_lnk m) @ [req]" using l by (simp add: m1_def to_wire_def)
  moreover have "fs = fst (call_all_answer (received (build_send (m_sn m)) (build_recv (m_sn m)) s))" using a by (simp add: s0_def k_def r_def)
  ultimately show ?thesis using m s1 t by blast
qed

section \<open>Selecting and executing\<close>

text \<open>The confirmation of a command with one object, at the start of a read.\<close>

abbreviation one_object :: "nat \<Rightarrow> u8 \<Rightarrow> bytes" where
  "one_object a q \<equiv> cmd_bytes (a, [], q)"

lemma length_one_object [simp]: "length (one_object a q) = 4"
  by (simp add: cmd_bytes_def)

lemma one_object_at:
  assumes "buf = i_frame addr k r ty 0 1 cot (one_object a q) @ post"
  shows "rd buf 15 = Some q" and "16 \<le> length buf"
    and "\<And>x. rdn (buf[15 := x]) 12 4 = Some (one_object a x)"
proof -
  note at = i_frame_at [of buf "[]" addr k r ty 0 1 cot "one_object a q" post 0]
  obtain h where h: "i_frame addr k r ty 0 1 cot (one_object a q) = h @ one_object a q" and lh: "length h = 12" by (rule i_frame_split)
  show "rd buf 15 = Some q" using at(11) [of 3] assms by (simp add: cmd_bytes_def rd_def nth_append)
  show "16 \<le> length buf" by (simp add: assms)
  show "rdn (buf[15 := x]) 12 4 = Some (one_object a x)" for x
  proof -
    have "buf[15 := x] = h @ one_object a x @ post"
      unfolding assms h using lh by (simp add: cmd_bytes_def list_update_append le_bytes_numeral le_bytes_Suc)
    then show ?thesis using lh by (simp add: rdn_def)
  qed
qed

lemma yk_confirmed:
  assumes "buf = i_frame (m_addr m) k r ty 0 1 IEC10X_COT_ACTCON (one_object a q) @ post" and "q \<noteq> 0"
    and "ty = IEC10X_C_SC_NA_1 \<or> ty = IEC10X_C_DC_NA_1" and "in_order m k r" and "master_online m"
  obtains l where "m_handle_frame clk 0 buf m =
      Some (buf[15 := q AND 0x7F], m_set_timer (clk 0) ((m_numbered (m_received k r (m_app m) m))\<lparr>m_lnk := l\<rparr>))"
    and "to_wire [m_frame (m_received k r (m_app m) m) ty 0 1 (one_object a (q AND 0x7F))] (m_lnk m) l"
proof -
  note at = i_frame_at [of buf "[]" "m_addr m" k r ty 0 1 IEC10X_COT_ACTCON "one_object a q" post 0]
  note ob = one_object_at [OF assms(1)]
  define m1 where "m1 = m_received k r (m_app m) m"
  have ty: "ty mod 256 = ty" "ty < 256" using assms(3) by (auto simp: iec10x_types)
  have f: "asdu_type buf 0 = Some ty" "asdu_num buf 0 = Some 1" "asdu_sq buf 0 = Some 0"
    "asdu_reason buf 0 = Some IEC10X_COT_ACTCON"
    using at(6-9) assms(1) ty by (simp_all add: IEC10X_COT_ACTCON_def)
  have "master_online (m_numbered m1)" using assms(5) by (simp add: master_online_def m1_def)
  then obtain l where l: "iec104_m_send (m_numbered m1) (m_head m1 ty 0 1 @ one_object a (q AND 0x7F) @ replicate 240 0) 16 =
      Some (16, (m_numbered m1)\<lparr>m_lnk := l\<rparr>)"
    and w: "to_wire [m_frame m1 ty 0 1 (one_object a (q AND 0x7F))] (m_lnk (m_numbered m1)) l"
    using sends_i_frame [of "m_numbered m1" "one_object a (q AND 0x7F)" 16 m1 ty 0 1 "replicate 240 0"] by auto
  have cl: "iec104_m_clear_select 4 15 1 buf = Some (buf[15 := q AND 0x7F])"
    using ob(1,2) by (simp add: wr_def)
  have "iec104_m_build_yk_ack m1 buf 0 = Some (0, buf[15 := q AND 0x7F], (m_numbered m1)\<lparr>m_lnk := l\<rparr>)"
    using l cl ob(3) f assms(3) by (simp add: iec104_m_build_yk_ack_def m_begin_i wrn_at_end Let_def del: One_nat_def)
  then have "iec104_m_asdu_yk m1 buf 0 = Some (0, buf[15 := q AND 0x7F], (m_numbered m1)\<lparr>m_lnk := l\<rparr>)"
    using ob(1) assms(2) f by (simp add: iec104_m_asdu_yk_def)
  then have "m_dispatch ty buf 0 m1 = Some (buf[15 := q AND 0x7F], (m_numbered m1)\<lparr>m_lnk := l\<rparr>)"
    using assms(3) by (auto simp: m_dispatch_def iec10x_types)
  with m_handle_i_frame [of buf "[]" m k r ty 0 1 IEC10X_COT_ACTCON "one_object a q" post 0 clk] assms(1,4) ty(2)
  show thesis using that w by (simp add: m1_def)
qed

text \<open>The confirmation that the object is switched off ends the command: the application is told.\<close>

lemma yk_finished:
  assumes "buf = i_frame (m_addr m) k r ty 0 1 IEC10X_COT_ACTCON (one_object a 0) @ post"
    and "ty = IEC10X_C_SC_NA_1 \<or> ty = IEC10X_C_DC_NA_1" and "in_order m k r"
  shows "m_handle_frame clk 0 buf m =
    Some (buf, m_set_timer (clk 0) (iec104_m_serve (m_received k r (m_app m) m) IEC10X_YK_CMD_SUCCESS))"
proof -
  note at = i_frame_at [of buf "[]" "m_addr m" k r ty 0 1 IEC10X_COT_ACTCON "one_object a 0" post 0]
  have ty: "ty mod 256 = ty" "ty < 256" using assms(2) by (auto simp: iec10x_types)
  have "asdu_reason buf 0 = Some IEC10X_COT_ACTCON"
    using at(9) assms(1) by (simp add: IEC10X_COT_ACTCON_def)
  then have "iec104_m_asdu_yk m' buf 0 = Some (0, buf, iec104_m_serve m' IEC10X_YK_CMD_SUCCESS)" for m' :: "('a, 'b, 'c) iec104m_t"
    using one_object_at(1) [OF assms(1)] by (simp add: iec104_m_asdu_yk_def)
  then have "m_dispatch ty buf 0 m' = Some (buf, iec104_m_serve m' IEC10X_YK_CMD_SUCCESS)" for m' :: "('a, 'b, 'c) iec104m_t"
    using assms(2) by (auto simp: m_dispatch_def iec10x_types)
  with m_handle_i_frame [of buf "[]" m k r ty 0 1 IEC10X_COT_ACTCON "one_object a 0" post 0 clk] assms(1,3) ty(2)
  show ?thesis by simp
qed

lemma m_parse_one:
  assumes "apdu f"
  shows "iec104_m_frame_parse clk m (f @ post) (length f) = m_handle_frame clk 0 (f @ post) m"
proof -
  have "6 \<le> length f" "f ! 0 = IEC104_HEAD" "unat (f ! 1) + 2 = length f" "f \<noteq> []" using assms by (auto simp: apdu_def)
  then show ?thesis
    using m_parse_step [of 0 "length f" "f @ post" clk m]
    by (cases "m_handle_frame clk 0 (f @ post) m") (auto simp: iec104_m_frame_parse_def nth_append m_parse_end)
qed

text \<open>The two stations in turn: each reads the last frame the other has sent.\<close>

fun yk_rounds ::
  "nat \<Rightarrow> bytes \<Rightarrow> (proto_port, 'p, 'e) iec104m_t \<Rightarrow> (proto_port, 'p, 'd) iec104s_t \<Rightarrow>
   ((proto_port, 'p, 'e) iec104m_t \<times> (proto_port, 'p, 'd) iec104s_t) option" where
  "yk_rounds 0 f m s = Some (m, s)"
| "yk_rounds (Suc n) f m s =
     do {
       (_, m) \<leftarrow> iec104_m_frame_parse (\<lambda>_. 0) m f (length f);
       let g = last (tx (m_lnk m));
       s \<leftarrow> iec104_s_frame_parse s g (length g);
       yk_rounds n (last (tx (lnk s))) m s
     }"

definition yk_node :: "nat \<Rightarrow> DevNodeInfo_T" where
  "yk_node a = \<lparr>node_mode = DEV_TYPE_YK, node_addr = word_of_nat a, node_type = DATA_SINT_8\<rparr>"

lemma effect_replicate_Suc:
  "effect s (replicate (Suc n) (node, v)) = effect (s\<lparr>app := effect s [(node, v)]\<rparr>) (replicate n (node, v))"
  by (simp add: effect_def split: option.split)

text \<open>One round, as long as neither station's numbers run over.\<close>

definition yk_state :: "nat \<Rightarrow> int \<Rightarrow> int \<Rightarrow> (proto_port, 'p, 'e) iec104m_t \<Rightarrow> (proto_port, 'p, 'd) iec104s_t \<Rightarrow> bool" where
  "yk_state n k r m s \<longleftrightarrow>
     master_online m \<and> station_online s \<and> m_addr m = asdu_addr s \<and> in_order m k r \<and>
     0 \<le> k \<and> k \<le> build_send (sn s) \<and> build_send (sn s) + int n \<le> 32768 \<and> k < 32768 \<and>
     0 \<le> r \<and> r \<le> build_send (m_sn m) + 1 \<and> 0 \<le> build_send (m_sn m) \<and> build_send (m_sn m) + int n < 32768"

lemma yk_round:
  assumes "yk_state (Suc n) k r m s" and "q AND 0x7F \<noteq> 0"
    and "ty = IEC10X_C_SC_NA_1 \<and> msk = 1 \<or> ty = IEC10X_C_DC_NA_1 \<and> msk = 3"
    and "f = i_frame (asdu_addr s) k r ty 0 1 IEC10X_COT_ACTCON (one_object a q)"
  shows "\<exists>b m' s' g. iec104_m_frame_parse (\<lambda>_. 0) m f (length f) = Some (b, m') \<and>
    tx (m_lnk m') = tx (m_lnk m) @ [g] \<and> iec104_s_frame_parse s g (length g) = Some s' \<and>
    tx (lnk s') = tx (lnk s) @ [i_frame (asdu_addr s) (build_send (sn s)) (build_send (m_sn m) + 1) ty 0 1
      IEC10X_COT_ACTCON (one_object a (q AND 0x7F))] \<and>
    m_app m' = m_app m \<and> app s' = effect s [(yk_node a, ucast ((q AND 0x7F) AND msk))] \<and>
    yk_state n (build_send (sn s)) (build_send (m_sn m) + 1) m' s' \<and> set_val_cb s' = set_val_cb s \<and>
    set_val_priv s' = set_val_priv s \<and> asdu_addr s' = asdu_addr s"
proof -
  note st = assms(1) [unfolded yk_state_def]
  define K where "K = build_send (m_sn m)"
  define S where "S = build_send (sn s)"
  define p where "p = q AND 0x7F"
  have ty: "ty = IEC10X_C_SC_NA_1 \<or> ty = IEC10X_C_DC_NA_1" using assms(3) by blast
  have kr: "k mod 32768 = k" "K mod 32768 = K" "0 \<le> K" using st by (simp_all add: K_def)
  have "q \<noteq> 0" using assms(2) by auto
  then obtain l where h: "m_handle_frame (\<lambda>_. 0) 0 (f @ []) m =
      Some ((f @ [])[15 := p], m_set_timer 0 ((m_numbered (m_received k r (m_app m) m))\<lparr>m_lnk := l\<rparr>))"
    and w: "to_wire [m_frame (m_received k r (m_app m) m) ty 0 1 (one_object a p)] (m_lnk m) l"
    using yk_confirmed [of "f @ []" m k r ty a q "[]" "\<lambda>_. 0"] assms(4) st ty p_def by auto
  define m' where "m' = m_set_timer 0 ((m_numbered (m_received k r (m_app m) m))\<lparr>m_lnk := l\<rparr>)"
  define g where "g = i_frame (asdu_addr s) K (k + 1) ty 0 1 IEC10X_COT_ACT (one_object a p)"
  have "m_frame (m_received k r (m_app m) m) ty 0 1 (one_object a p) = g"
    using st kr by (simp add: m_frame_def g_def K_def m_received_def)
  with w have tx: "to_wire [g] (m_lnk m) l" by simp
  have "apdu f" and "apdu g" by (simp_all add: assms(4) g_def apdu_i_frame)
  then have mp: "iec104_m_frame_parse (\<lambda>_. 0) m f (length f) = Some (f[15 := p], m')"
    and sp: "iec104_s_frame_parse s g (length g) = handle_frame g 0 s"
    using h m_parse_one [of f "\<lambda>_. 0" m "[]"] parse_one [of g s "[]"] by (simp_all add: m'_def)
  have buf: "g = [] @ i_frame (asdu_addr s) K (k + 1) ty 0 (length [(a, [] :: bytes, p)]) IEC10X_COT_ACT (concat (map cmd_bytes [(a, [], p)])) @ []"
    by (simp add: g_def)
  obtain s' where s': "handle_frame g 0 s = Some s'" and as: "app s' = effect s (yk_commands msk [(a, [], p)])"
    and ts: "tx (lnk s') = tx (lnk s) @ [i_frame (asdu_addr s) S (K + 1) ty 0 1 IEC10X_COT_ACTCON (one_object a p)]"
    and on: "station_online s'" and eq: "s' = (numbered 1 (received K (k + 1) s))\<lparr>lnk := lnk s', app := app s'\<rparr>"
    using station_executes_yk [of s ty msk "[(a, [], p)]" g "[]" K "k + 1" "[]"] st assms(3) kr buf by (auto simp: S_def)
  have "p AND 0x80 = 0" by (simp add: p_def and.assoc)
  then have cmd: "yk_commands msk [(a, [], p)] = [(yk_node a, ucast (p AND msk))]"
    by (simp add: yk_commands_def yk_node_def)
  have fld: "asdu_addr s' = asdu_addr s" "build_send (sn s') = S + 1" "set_val_cb s' = set_val_cb s" "set_val_priv s' = set_val_priv s"
    by (subst eq, simp add: numbered_def S_def)+
  have "yk_state n S (K + 1) m' s'"
    using st tx on fld kr
    by (simp add: yk_state_def m'_def m_set_timer_def master_online_def to_wire_def in_order_def S_def K_def m_received_def)
  moreover have "tx (m_lnk m') = tx (m_lnk m) @ [g]" using tx by (simp add: m'_def m_set_timer_def to_wire_def)
  moreover have "m_app m' = m_app m" by (simp add: m'_def m_set_timer_def)
  moreover have "iec104_s_frame_parse s g (length g) = Some s'" using sp s' by simp
  ultimately show ?thesis using mp ts as [unfolded cmd] fld unfolding S_def K_def p_def by blast
qed

text \<open>C17. Switching on repeats itself. When the controlled station confirms a command with one object that is to be
  switched on, the controlling station takes the confirmed execution for a confirmed selection
  (\<open>sco && 0x80\<close>) and orders the execution again: in each of \<open>n\<close> rounds the controlled station executes the command and confirms it, and
  the application that gave it is never told. The rounds go on as long as the numbers of the connection do not run over:
  \<open>yk_state n\<close> bounds the send counters of both stations, and with them \<open>n\<close>, so that no number passes 32767.\<close>

theorem yk_on_repeats:
  assumes "yk_state n k r m s" and "q AND 0x7F \<noteq> 0"
    and "ty = IEC10X_C_SC_NA_1 \<and> msk = 1 \<or> ty = IEC10X_C_DC_NA_1 \<and> msk = 3"
    and "f = i_frame (asdu_addr s) k r ty 0 1 IEC10X_COT_ACTCON (one_object a q)"
  shows "\<exists>m' s'. yk_rounds n f m s = Some (m', s') \<and> m_app m' = m_app m \<and>
    length (tx (lnk s')) = length (tx (lnk s)) + n \<and>
    app s' = effect s (replicate n (yk_node a, ucast ((q AND 0x7F) AND msk)))"
  using assms
proof (induction n arbitrary: f k r q m s)
  case 0
  then show ?case by simp
next
  case (Suc n)
  obtain b m1 s1 g where mp: "iec104_m_frame_parse (\<lambda>_. 0) m f (length f) = Some (b, m1)"
    and g: "tx (m_lnk m1) = tx (m_lnk m) @ [g]" and sp: "iec104_s_frame_parse s g (length g) = Some s1"
    and t: "tx (lnk s1) = tx (lnk s) @ [i_frame (asdu_addr s) (build_send (sn s)) (build_send (m_sn m) + 1) ty 0 1
      IEC10X_COT_ACTCON (one_object a (q AND 0x7F))]"
    and am: "m_app m1 = m_app m" and as: "app s1 = effect s [(yk_node a, ucast ((q AND 0x7F) AND msk))]"
    and st: "yk_state n (build_send (sn s)) (build_send (m_sn m) + 1) m1 s1"
    and cb: "set_val_cb s1 = set_val_cb s" "set_val_priv s1 = set_val_priv s"
    and ad: "asdu_addr s1 = asdu_addr s"
    using yk_round [OF Suc.prems] by blast
  define f1 where "f1 = last (tx (lnk s1))"
  have f1: "f1 = i_frame (asdu_addr s1) (build_send (sn s)) (build_send (m_sn m) + 1) ty 0 1
      IEC10X_COT_ACTCON (one_object a (q AND 0x7F))" by (simp add: f1_def t ad)
  have "(q AND 0x7F) AND 0x7F \<noteq> 0" using Suc.prems(2) by (simp add: and.assoc)
  from Suc.IH [OF st this assms(3) f1] obtain m2 s2 where
    "yk_rounds n f1 m1 s1 = Some (m2, s2)" "m_app m2 = m_app m" "length (tx (lnk s2)) = length (tx (lnk s)) + Suc n"
    "app s2 = effect s1 (replicate n (yk_node a, ucast ((q AND 0x7F) AND msk)))"
    by (auto simp: am t and.assoc)
  moreover have "effect s1 vs = effect (s\<lparr>app := app s1\<rparr>) vs" for vs
    using cb by (simp add: effect_def split: option.split)
  ultimately show ?case
    using mp sp by (simp add: g f1_def as effect_replicate_Suc Let_def del: replicate_Suc)
qed

theorem yk_on_repeats_witness:
  "\<exists>m' s'. yk_rounds 3 (i_frame 7 0 0 IEC10X_C_SC_NA_1 0 1 IEC10X_COT_ACTCON (one_object 5 0x81)) demo_master
      ((demo_station [])\<lparr>set_val_cb := Some demo_set\<rparr>) = Some (m', s') \<and>
    m_app m' = [] \<and> length (tx (lnk s')) = 3 \<and> app s' = 51051051"
proof -
  let ?s = "(demo_station [])\<lparr>set_val_cb := Some demo_set\<rparr>"
  have st: "yk_state 3 0 0 demo_master ?s"
    by (simp add: yk_state_def master_online_def station_online_def demo_defs demo_master_defs port_prompt_def in_order_def Let_def)
  have f: "asdu_addr ?s = 7" "tx (lnk ?s) = []" "m_app demo_master = []" "app ?s = 0" "set_val_cb ?s = Some demo_set"
    by (simp_all add: demo_defs demo_master_defs Let_def)
  have "effect ?s (replicate 3 (yk_node 5, ucast (((0x81 :: u8) AND 0x7F) AND 1))) = 51051051"
    using f by (simp add: effect_def demo_set_def yk_node_def numeral_3_eq_3)
  then show ?thesis
    using yk_on_repeats [OF st, where q = "0x81" and ty = IEC10X_C_SC_NA_1 and msk = 1 and a = 5, OF _ _ refl] f by simp
qed

section \<open>The start of a connection\<close>

lemma m_set_init_fields [simp]:
  "m_ctx (m_set_init st m) = m_ctx m" "m_lnk (m_set_init st m) = m_lnk m" "m_time (m_set_init st m) = m_time m"
  "m_running (m_set_init st m) = m_running m" "m_app (m_set_init st m) = m_app m"
  "st_init (m_stat (m_set_init st m)) = st" "st_test (m_stat (m_set_init st m)) = st_test (m_stat m)"
  by (simp_all add: m_set_init_def)

lemma m_set_timer_fields [simp]:
  "m_ctx (m_set_timer t m) = m_ctx m" "m_lnk (m_set_timer t m) = m_lnk m" "m_stat (m_set_timer t m) = m_stat m"
  "m_running (m_set_timer t m) = m_running m" "m_app (m_set_timer t m) = m_app m"
  "tm_init (m_time (m_set_timer t m)) = tm_init (m_time m)" "tm_timer (m_time (m_set_timer t m)) = t"
  by (simp_all add: m_set_timer_def)

lemma m_set_lnk: "m_set_timer t (m_set_init st (m\<lparr>m_lnk := l\<rparr>)) = (m_set_timer t (m_set_init st m))\<lparr>m_lnk := l\<rparr>"
  by (cases m) (simp add: m_set_timer_def m_set_init_def)

lemma close_silent:
  "m_ctx s = fst proto_port_eth_master_init \<Longrightarrow> client (m_lnk s) = Live \<Longrightarrow>
   iec104_m_close s = Some (s\<lparr>m_lnk := (m_lnk s)\<lparr>client := Null\<rparr>\<rparr>)"
  by (simp add: iec104_m_close_def proto_port_eth_master_init_def eth_link_close_def wow_tcp_close_def)

text \<open>The round that opens the connection: nothing can be read before.\<close>

lemma round_open:
  assumes "m_ctx m = fst proto_port_eth_master_init" and "client (m_lnk m) = Null" and "port_prompt (m_lnk m)"
    and "st_init (m_stat m) = IEC10X_STA_LINK_OPEN" and "open_ok (r_env e)" and "connect_ok (r_env e)"
  obtains l where "iec104_m_exec_round e (rbuf, m) =
      Some (rbuf, (m_set_timer (r_t0 e) (m_set_init IEC10X_STA_LINK_CONNECT m))\<lparr>m_lnk := l\<rparr>)"
    and "client l = Live" and "port_prompt l" and "tx l = tx (m_lnk m) @ [u_frame (ctrl_u IEC104_U_FUNC_STARTDT)]"
    and "rx l = rx (m_lnk m)"
proof -
  define l0 where "l0 = (m_lnk m)\<lparr>client := Live\<rparr>"
  define f where "f = u_frame (ctrl_u IEC104_U_FUNC_STARTDT)"
  define l where "l = l0\<lparr>tx := tx l0 @ [f]\<rparr>"
  have f: "length f = 6" "f = IEC104_HEAD # word_of_nat (length (ctrl_u IEC104_U_FUNC_STARTDT)) # ctrl_u IEC104_U_FUNC_STARTDT"
    by (simp_all add: f_def u_frame_def)
  have "os_write l0 f = (6, l)"
    using assms(3) f(1) by (simp add: os_write_def l_def l0_def port_prompt_def)
  then have "iec104_m_send_ctrl (s\<lparr>m_lnk := l0\<rparr>) (ctrl_u IEC104_U_FUNC_STARTDT) = Some (0, s\<lparr>m_lnk := l\<rparr>)"
    if "m_ctx s = fst proto_port_eth_master_init" for s :: "(proto_port, 'a, 'b) iec104m_t"
    using that m_send_message [of 6 "ctrl_u IEC104_U_FUNC_STARTDT" "s\<lparr>m_lnk := l0\<rparr>" IEC104_HEAD "replicate 250 0"]
    by (simp add: iec104_m_send_ctrl_def IEC104_MAX_BUF_LEN_def proto_port_eth_master_init_def eth_link_send_def l0_def f(2))
  from this [of "m_set_timer (r_t0 e) (m_set_init IEC10X_STA_LINK_CONNECT m)"]
  have s: "iec104_m_send_ctrl (m_set_timer (r_t0 e) (m_set_init IEC10X_STA_LINK_CONNECT (m\<lparr>m_lnk := l0\<rparr>))) (ctrl_u IEC104_U_FUNC_STARTDT) =
      Some (0, (m_set_timer (r_t0 e) (m_set_init IEC10X_STA_LINK_CONNECT m))\<lparr>m_lnk := l\<rparr>)"
    using assms(1) by (simp add: m_set_lnk m_set_timer_fields m_set_init_fields)
  have op: "link_open (m_ctx m) (r_env e) (m_lnk m) = Some (0, l0)"
    using assms(1,2,5,6) by (simp add: proto_port_eth_master_init_def eth_link_client_open_def l0_def)
  have "link_recv (m_ctx m) (m_lnk m) 1500 = Some (-1, [], m_lnk m)"
    using assms(1,2) by (simp add: proto_port_eth_master_init_def eth_link_recv_def)
  then have "iec104_m_exec_round e (rbuf, m) =
      Some (rbuf, (m_set_timer (r_t0 e) (m_set_init IEC10X_STA_LINK_CONNECT m))\<lparr>m_lnk := l\<rparr>)"
    using assms(4) op s
    by (simp add: iec104_m_exec_round_def wrn_def iec104_m_state_machine_def iec104_m_link_step_def iec104_m_build_u_def
        iec104_u_funcs)
  then show thesis
    by (rule that) (use assms(3) in \<open>simp_all add: l_def l0_def port_prompt_def f_def\<close>)
qed

text \<open>A connection lives only if the confirmation of the start arrives in the very next read: the time-out of three
  seconds is measured from \<open>time.init\<close>, which is always 0, so with a clock that counts milliseconds since the epoch a
  single empty read after the start command closes the connection.\<close>

theorem start_must_be_confirmed_at_once:
  assumes "m_ctx m = fst proto_port_eth_master_init" and "client (m_lnk m) = Null" and "port_prompt (m_lnk m)"
    and "st_init (m_stat m) = IEC10X_STA_LINK_OPEN" and "open_ok (r_env e)" and "connect_ok (r_env e)"
    and "tm_init (m_time m) = 0" and "IEC10X_CONNECT_TIMEOUT < r_t0 e'" and "m_running m" and "rx (m_lnk m) = []"
  shows "\<exists>m'. iec104_m_exec_thread [e, e'] (rbuf, m) = Some (rbuf, m') \<and> client (m_lnk m') = Null \<and>
    st_init (m_stat m') = IEC10X_STA_LINK_INIT \<and> m_app m' = m_app m \<and>
    tx (m_lnk m') = tx (m_lnk m) @ [u_frame (ctrl_u IEC104_U_FUNC_STARTDT)]"
proof -
  obtain l where r1: "iec104_m_exec_round e (rbuf, m) =
      Some (rbuf, (m_set_timer (r_t0 e) (m_set_init IEC10X_STA_LINK_CONNECT m))\<lparr>m_lnk := l\<rparr>)"
    and l: "client l = Live" "tx l = tx (m_lnk m) @ [u_frame (ctrl_u IEC104_U_FUNC_STARTDT)]" "rx l = []"
    using round_open [OF assms(1-6)] assms(10) by metis
  define m1 where "m1 = (m_set_timer (r_t0 e) (m_set_init IEC10X_STA_LINK_CONNECT m))\<lparr>m_lnk := l\<rparr>"
  have f: "m_ctx m1 = fst proto_port_eth_master_init" "m_lnk m1 = l" "tm_init (m_time m1) = 0" "m_running m1"
    "st_init (m_stat m1) = IEC10X_STA_LINK_CONNECT" "m_app m1 = m_app m"
    using assms by (simp_all add: m1_def m_set_timer_def m_set_init_def)
  have "iec104_m_exec_round e' (rbuf, m1) =
      Some (rbuf, m_set_init IEC10X_STA_LINK_INIT (m1\<lparr>m_lnk := l\<lparr>client := Null\<rparr>\<rparr>))"
    using f assms(8) l close_silent [of "m1\<lparr>m_lnk := l\<rparr>"]
    by (simp add: iec104_m_exec_round_def proto_port_eth_master_init_def eth_link_recv_def os_read_def wrn_def
        iec104_m_state_machine_def iec104_m_link_step_def)
  moreover have "iec104_m_exec_round e (rbuf, m) = Some (rbuf, m1)" using r1 by (simp add: m1_def)
  ultimately show ?thesis using f(4,6) l assms(9) by simp
qed

theorem start_must_be_confirmed_at_once_witness:
  "\<exists>m'. iec104_m_exec_thread
      [\<lparr>r_clk = \<lambda>_. 0, r_env = \<lparr>open_ok = True, listen_ok = True, accept_cb_ok = True, connect_ok = True\<rparr>, r_t0 = 1700000000000, r_t1 = 0\<rparr>,
       \<lparr>r_clk = \<lambda>_. 0, r_env = \<lparr>open_ok = True, listen_ok = True, accept_cb_ok = True, connect_ok = True\<rparr>, r_t0 = 1700000000100, r_t1 = 0\<rparr>]
      ([], m_set_init IEC10X_STA_LINK_OPEN (the (wow_iec104_m_init 7 True True True (0 :: nat) (0 :: nat)))) = Some ([], m') \<and>
    client (m_lnk m') = Null \<and> st_init (m_stat m') = IEC10X_STA_LINK_INIT \<and>
    tx (m_lnk m') = [u_frame (ctrl_u IEC104_U_FUNC_STARTDT)]"
proof -
  let ?m = "m_set_init IEC10X_STA_LINK_OPEN (the (wow_iec104_m_init 7 True True True (0 :: nat) (0 :: nat)))"
  have f: "m_ctx ?m = fst proto_port_eth_master_init" "client (m_lnk ?m) = Null" "port_prompt (m_lnk ?m)"
    "st_init (m_stat ?m) = IEC10X_STA_LINK_OPEN" "tm_init (m_time ?m) = 0" "m_running ?m" "rx (m_lnk ?m) = []" "tx (m_lnk ?m) = []"
    by (simp_all add: wow_iec104_m_init_def iec104_m_reset_param_def proto_port_eth_master_init_def new_port_def port_prompt_def Let_def)
  show ?thesis
    using start_must_be_confirmed_at_once [OF f(1-4) _ _ f(5) _ f(6,7),
        of "\<lparr>r_clk = \<lambda>_. 0, r_env = \<lparr>open_ok = True, listen_ok = True, accept_cb_ok = True, connect_ok = True\<rparr>, r_t0 = 1700000000000, r_t1 = 0\<rparr>"
          "\<lparr>r_clk = \<lambda>_. 0, r_env = \<lparr>open_ok = True, listen_ok = True, accept_cb_ok = True, connect_ok = True\<rparr>, r_t0 = 1700000000100, r_t1 = 0\<rparr>" "[]"]
      f(8) unfolding IEC10X_CONNECT_TIMEOUT_def by (simp del: iec104_m_exec_thread.simps) blast
qed

text \<open>The answer of a station with three nodes, a read of two frames and a read of the rest.\<close>

theorem interrogation_end_to_end_witness:
  "\<exists>req m1 s1 fs m2. wow_iec104_m_build_call_all demo_master = Some (0, m1) \<and> tx (m_lnk m1) = [req] \<and>
    iec104_s_frame_parse (demo_station dense_nodes) req (length req) = Some s1 \<and> tx (lnk s1) = fs \<and>
    m_reads [(\<lambda>_. 9, take 2 fs), (\<lambda>_. 11, drop 2 fs)] m1 = Some m2 \<and>
    m_app m2 = [(1, 1), (2, 2), (0x4001, 0x4001)]"
proof -
  let ?s = "demo_station dense_nodes"
  note d = dense_station
  have m: "master_online demo_master" "st_init (m_stat demo_master) = IEC10X_STA_LINK_IDLE" "build_send (m_sn demo_master) = 0"
    "deal_recv (m_sn demo_master) = 0" "deal_send (m_sn demo_master) = -1" "tx (m_lnk demo_master) = []" "m_addr demo_master = 7"
    by (simp_all add: master_online_def demo_master_defs port_prompt_def Let_def)
  have "m_addr demo_master = asdu_addr ?s" "deal_send (m_sn demo_master) \<le> build_send (sn ?s)" using d m by simp_all
  from interrogation_end_to_end [OF m(1,2) _ _ _ d(1-7) this _ d(8)] m(3-5) d(9,11) obtain req m1 s1 fs where
    r: "wow_iec104_m_build_call_all demo_master = Some (0, m1)" "tx (m_lnk m1) = tx (m_lnk demo_master) @ [req]"
      "iec104_s_frame_parse ?s req (length req) = Some s1" "tx (lnk s1) = tx (lnk ?s) @ fs"
    and fs: "fs = fst (call_all_answer (received (build_send (m_sn demo_master)) (build_recv (m_sn demo_master)) ?s))"
    and reads: "\<forall>rs. reads_of fs rs \<longrightarrow> (\<exists>m2. m_reads rs m1 = Some m2 \<and> m_app m2 = m_effect demo_master (station_view ?s) \<and>
      tx (m_lnk m2) = tx (m_lnk demo_master) @ [req])" by fastforce
  let ?rs = "[(\<lambda>_ :: nat. 9 :: int, take 2 fs), (\<lambda>_. 11, drop 2 fs)]"
  have "length (concat fs) \<le> 1500"
    by (simp add: fs call_all_answer_def received_def demo_defs dense_nodes_def node_value_def i_frame_def ctrl_i_def asdu_head_def yx_enc_def
        yc_enc_def Let_def)
  moreover have "length (concat fs) = length (concat (take 2 fs)) + length (concat (drop 2 fs))"
    by (metis append_take_drop_id concat_append length_append)
  ultimately have "reads_of fs ?rs" by (simp add: reads_of_def)
  with reads obtain m2 where "m_reads ?rs m1 = Some m2" "m_app m2 = m_effect demo_master (station_view ?s)" by blast
  with r show ?thesis by (auto simp: d(9,12) m(6))
qed

end
