(* ===== verification/SizeT.thy ===== *)
theory SizeT
  imports Prelude
begin

text \<open>
  \<open>size_t\<close> is 64 bits wide and \<open>int\<close> 32 bits. A value of \<open>int\<close> is an integer; the two conversions
  that C inserts are the sign extension \<open>size_of_int\<close> and the truncation \<open>int_of_size\<close>.
  Division by zero is undefined behaviour.
\<close>

type_synonym size_t = "64 word"

definition size_of_int :: "int \<Rightarrow> size_t" where
  "size_of_int i = word_of_int i"

definition int_of_size :: "size_t \<Rightarrow> int" where
  "int_of_size w = sint (ucast w :: 32 word)"

definition size_mod :: "size_t \<Rightarrow> size_t \<Rightarrow> size_t option" where
  "size_mod a b = (if b = 0 then None else Some (a mod b))"

text \<open>\<open>i++\<close> on a non-negative \<open>int\<close>.\<close>

definition int_succ :: "nat \<Rightarrow> nat option" where
  "int_succ i = (if i + 1 < 2 ^ 31 then Some (i + 1) else None)"

lemma int_succ_Some: "Suc i < 2 ^ 31 \<Longrightarrow> int_succ i = Some (Suc i)"
  by (simp add: int_succ_def)

named_theorems size_simps \<open>arithmetic of \<open>size_t\<close> and \<open>int\<close> values that fit\<close>

lemma size_of_int_nat [size_simps]: "size_of_int (int n) = word_of_nat n"
  by (simp add: size_of_int_def)

lemma int_of_size_small [size_simps]: "unat w < 2 ^ 31 \<Longrightarrow> int_of_size w = int (unat w)"
proof -
  assume w: "unat w < 2 ^ 31"
  have "(ucast w :: 32 word) = word_of_nat (unat w)"
    by (rule of_nat_unat [symmetric])
  moreover have "sint (word_of_nat n :: 32 word) = int n" if "n < 2 ^ 31" for n
    using that by (simp add: signed_of_nat signed_take_bit_int_eq_self)
  ultimately show ?thesis using w by (simp only: int_of_size_def)
qed

lemma int_of_size_eq: "unat w = k \<Longrightarrow> k < 2 ^ 31 \<Longrightarrow> int_of_size w = int k"
  by (simp only: int_of_size_small)

lemma size_of_int_unat [simp]: "size_of_int (int (unat w)) = w"
  by (simp add: size_of_int_def)

lemma unat_size_of_nat [size_simps]: "n < 2 ^ 63 \<Longrightarrow> unat (word_of_nat n :: size_t) = n"
  by (simp add: unat_of_nat)

lemma unat_size_mod [size_simps]:
  assumes "0 < n" and "n < 2 ^ 63"
  shows "unat (word_of_nat (x mod n) :: size_t) = x mod n"
  using mod_less_divisor [OF assms(1), of x] assms(2) by (intro unat_size_of_nat) linarith

lemma size_mod_small [size_simps]:
  "unat b \<noteq> 0 \<Longrightarrow> size_mod a b = Some (word_of_nat (unat a mod unat b))"
  by (auto simp: size_mod_def unat_eq_0 word_arith_nat_mod)

lemma unat_size_add [size_simps]:
  "unat a + unat b < 2 ^ 64 \<Longrightarrow> unat (a + b :: size_t) = unat a + unat b"
  using unat_add_lem [of a b] by simp

lemma unat_u32_of_size: "unat w < 2 ^ 32 \<Longrightarrow> unat (ucast w :: u32) = unat w" for w :: size_t
proof -
  assume w: "unat w < 2 ^ 32"
  have "(ucast w :: u32) = word_of_nat (unat w)" by (rule of_nat_unat [symmetric])
  moreover have "unat (word_of_nat k :: u32) = k" if "k < 2 ^ 32" for k
    using that by (simp add: unat_of_nat)
  ultimately show ?thesis using w by (simp only:)
qed

lemma size_of_nat_pos: "0 < k \<Longrightarrow> k < 2 ^ 63 \<Longrightarrow> (0 :: size_t) < word_of_nat k"
  by (simp add: word_less_nat_alt unat_size_of_nat)

lemma unat_size_diff [size_simps]:
  "unat b \<le> unat a \<Longrightarrow> unat (a - b :: size_t) = unat a - unat b"
  by (simp add: unat_sub word_le_nat_alt)

end
