(* ===== verification/ByteArray.thy ===== *)
theory ByteArray
  imports SizeT Errno
begin

text \<open>
  The growing byte array of \<open>wow_byte_array.c\<close>. The data area is a buffer of \<open>capicity\<close> bytes of which the first
  \<open>size\<close> are in use. An access outside the area is \<open>None\<close>; \<open>heap n\<close> tells whether \<open>n\<close> bytes can be allocated. A null
  array is \<open>None\<close> in the argument; the result is the return value and the array afterwards. Loop counters are of type \<open>int\<close>: one that
  overflows is \<open>None\<close>, and a size taken as one may be negative. Sums and differences of sizes wrap at 64 bits.
\<close>

definition DEFALUT_BYTE_ARRAY_SZIE :: nat where "DEFALUT_BYTE_ARRAY_SZIE = 128"

record ByteArray_T =
  ba_size :: nat
  ba_capicity :: nat
  ba_data :: bytes

section \<open>Operations\<close>

text \<open>\<open>memset\<close> and \<open>memmove\<close> inside one area.\<close>

definition mem_clear :: "bytes \<Rightarrow> nat \<Rightarrow> nat \<Rightarrow> bytes option" where
  "mem_clear buf off n = wrn buf off (replicate n 0)"

definition mem_move :: "bytes \<Rightarrow> nat \<Rightarrow> nat \<Rightarrow> nat \<Rightarrow> bytes option" where
  "mem_move buf dst src n = do { x \<leftarrow> rdn buf src n; wrn buf dst x }"

text \<open>A negative size is a request for almost \<open>2 ^ 64\<close> bytes, which fails. \<open>ok\<close> answers the allocation of the
  structure.\<close>

definition wow_byte_array_new :: "(nat \<Rightarrow> bool) \<Rightarrow> bool \<Rightarrow> int \<Rightarrow> ByteArray_T option" where
  "wow_byte_array_new heap ok nSize =
     (if \<not> ok then None
      else if nSize < 0 then None
      else let capicity = (if nSize = 0 then DEFALUT_BYTE_ARRAY_SZIE else nat nSize) in
        if \<not> heap capicity then None
        else Some \<lparr>ba_size = 0, ba_capicity = capicity, ba_data = replicate capicity 0\<rparr>)"

definition wow_byte_array_free :: "ByteArray_T option \<Rightarrow> ByteArray_T option" where
  "wow_byte_array_free a = None"

definition wow_byte_array_size :: "ByteArray_T option \<Rightarrow> int" where
  "wow_byte_array_size ptArray =
     (case ptArray of None \<Rightarrow> - PARAM_INPUT_STRUCT_IS_NULL | Some a \<Rightarrow> int_of_size (of_nat (ba_size a)))"

text \<open>The operations on a null array fail; the others run on the structure.\<close>

definition on_array :: "ByteArray_T option \<Rightarrow> (ByteArray_T \<Rightarrow> (int \<times> ByteArray_T) option) \<Rightarrow> (int \<times> ByteArray_T option) option" where
  "on_array ptArray f =
     (case ptArray of
        None \<Rightarrow> Some (- PARAM_INPUT_STRUCT_IS_NULL, None)
      | Some a \<Rightarrow> do { (r, a) \<leftarrow> f a; Some (r, Some a) })"

definition wow_byte_array_clear :: "ByteArray_T \<Rightarrow> (int \<times> ByteArray_T) option" where
  "wow_byte_array_clear a =
     do { d \<leftarrow> mem_clear (ba_data a) 0 (ba_size a); Some (WOW_SUCCESS, a\<lparr>ba_data := d, ba_size := 0\<rparr>) }"

text \<open>The reallocated area keeps its bytes, a failure leaves the array as it is.\<close>

definition byte_array_resize :: "(nat \<Rightarrow> bool) \<Rightarrow> ByteArray_T \<Rightarrow> nat \<Rightarrow> (int \<times> ByteArray_T) option" where
  "byte_array_resize heap a nSize =
     (if \<not> heap nSize then Some (-1, a)
      else do {
        let new_data = take nSize (ba_data a) @ replicate (nSize - length (ba_data a)) 0;
        new_data \<leftarrow> mem_clear new_data (ba_capicity a) (nSize - ba_capicity a);
        Some (0, a\<lparr>ba_data := new_data, ba_capicity := nSize\<rparr>)
      })"

definition wow_byte_array_append_data :: "(nat \<Rightarrow> bool) \<Rightarrow> u8 \<Rightarrow> ByteArray_T \<Rightarrow> (int \<times> ByteArray_T) option" where
  "wow_byte_array_append_data heap u8Value a =
     do {
       (_, a) \<leftarrow> (if ba_size a \<ge> ba_capicity a then byte_array_resize heap a (ba_size a * 2) else Some (0, a));
       d \<leftarrow> wr (ba_data a) (ba_size a) u8Value;
       Some (WOW_SUCCESS, a\<lparr>ba_data := d, ba_size := ba_size a + 1\<rparr>)
     }"

text \<open>The length is a \<open>uint8_t\<close>; \<open>u8Value\<close> is what the pointer refers to.\<close>

definition wow_byte_array_append_ndata ::
  "(nat \<Rightarrow> bool) \<Rightarrow> bytes option \<Rightarrow> u8 \<Rightarrow> ByteArray_T \<Rightarrow> (int \<times> ByteArray_T) option" where
  "wow_byte_array_append_ndata heap u8Value snLen a =
     (case u8Value of
        None \<Rightarrow> Some (- PARAM_INPUT_DATA_IS_NULL, a)
      | Some src \<Rightarrow>
          do {
            let n = unat snLen;
            (_, a) \<leftarrow> (if ba_size a + n \<ge> ba_capicity a
                     then byte_array_resize heap a
                            (if ba_size a + n > ba_size a * 2 then ba_size a + n else ba_size a * 2)
                     else Some (0, a));
            x \<leftarrow> rdn src 0 n;
            d \<leftarrow> wrn (ba_data a) (ba_size a) x;
            Some (WOW_SUCCESS, a\<lparr>ba_data := d, ba_size := ba_size a + n\<rparr>)
          })"

definition wow_byte_array_append_array :: "ByteArray_T option \<Rightarrow> ByteArray_T \<Rightarrow> (int \<times> ByteArray_T) option" where
  "wow_byte_array_append_array ptToadd a =
     (case ptToadd of
        None \<Rightarrow> Some (- PARAM_INPUT_STRUCT_IS_NULL, a)
      | Some b \<Rightarrow>
          if \<not> ba_size b < ba_capicity a - ba_size a then Some (- PARAM_INPUT_ARG_INVALID, a)
          else do {
            x \<leftarrow> rdn (ba_data b) 0 (ba_size b);
            d \<leftarrow> wrn (ba_data a) (ba_size a) x;
            Some (WOW_SUCCESS, a\<lparr>ba_data := d, ba_size := ba_size a + ba_size b\<rparr>)
          })"

text \<open>\<open>for (i = size; i > snIdx; i--) data[i] = data[i - 1]\<close>. The counter is an \<open>int\<close>: the size is truncated to it. A
  negative counter compares as a \<open>size_t\<close> above every index, so that the loop starts and leaves the area.\<close>

fun insert_loop :: "nat \<Rightarrow> nat \<Rightarrow> bytes \<Rightarrow> bytes option" where
  "insert_loop snIdx 0 d = Some d"
| "insert_loop snIdx (Suc i) d =
     (if Suc i > snIdx then do { x \<leftarrow> rd d i; d \<leftarrow> wr d (Suc i) x; insert_loop snIdx i d } else Some d)"

definition wow_byte_array_insert :: "(nat \<Rightarrow> bool) \<Rightarrow> nat \<Rightarrow> u8 \<Rightarrow> ByteArray_T \<Rightarrow> (int \<times> ByteArray_T) option" where
  "wow_byte_array_insert heap snIdx u8Value a =
     (if \<not> snIdx < ba_size a then Some (- PARAM_INPUT_ARG_INVALID, a)
      else do {
        (_, a) \<leftarrow> (if ba_size a \<ge> ba_capicity a then byte_array_resize heap a (ba_size a * 2) else Some (0, a));
        let i = int_of_size (of_nat (ba_size a));
        d \<leftarrow> (if i < 0 then None else insert_loop snIdx (nat i) (ba_data a));
        d \<leftarrow> wr d snIdx u8Value;
        Some (WOW_SUCCESS, a\<lparr>ba_data := d, ba_size := ba_size a + 1\<rparr>)
      })"

definition wow_byte_array_left :: "nat \<Rightarrow> ByteArray_T \<Rightarrow> (int \<times> ByteArray_T) option" where
  "wow_byte_array_left snLen a =
     (if \<not> ba_size a > snLen then Some (- PARAM_INPUT_ARG_INVALID, a)
      else do {
        d \<leftarrow> mem_clear (ba_data a) snLen (ba_size a - snLen);
        Some (WOW_SUCCESS, a\<lparr>ba_data := d, ba_size := snLen\<rparr>)
      })"

definition wow_byte_array_right :: "nat \<Rightarrow> ByteArray_T \<Rightarrow> (int \<times> ByteArray_T) option" where
  "wow_byte_array_right snLen a =
     (if \<not> ba_size a > snLen then Some (- PARAM_INPUT_ARG_INVALID, a)
      else do {
        d \<leftarrow> mem_move (ba_data a) 0 (ba_size a - snLen) snLen;
        d \<leftarrow> mem_clear d snLen (ba_size a - snLen);
        Some (WOW_SUCCESS, a\<lparr>ba_data := d, ba_size := snLen\<rparr>)
      })"

text \<open>Sums and differences of \<open>size_t\<close> values wrap.\<close>

definition size_plus :: "nat \<Rightarrow> nat \<Rightarrow> nat" where
  "size_plus m n = (m + n) mod 2 ^ 64"

definition size_minus :: "nat \<Rightarrow> nat \<Rightarrow> nat" where
  "size_minus m n = (m + (2 ^ 64 - n)) mod 2 ^ 64"

definition wow_byte_array_mid :: "nat \<Rightarrow> nat \<Rightarrow> ByteArray_T \<Rightarrow> (int \<times> ByteArray_T) option" where
  "wow_byte_array_mid snIdx snLen a =
     (if \<not> snIdx < ba_size a then Some (- PARAM_INPUT_ARG_INVALID, a)
      else if ba_size a > size_plus snLen snIdx
      then do {
        d \<leftarrow> mem_move (ba_data a) 0 snIdx (size_minus (ba_size a) snLen);
        d \<leftarrow> mem_clear d snLen (size_minus (ba_size a) snLen);
        Some (WOW_SUCCESS, a\<lparr>ba_data := d, ba_size := snLen\<rparr>)
      }
      else do {
        d \<leftarrow> mem_move (ba_data a) 0 snIdx (ba_size a - snIdx);
        d \<leftarrow> mem_clear d snLen (ba_size a - snIdx);
        Some (WOW_SUCCESS, a\<lparr>ba_data := d, ba_size := ba_size a - snIdx\<rparr>)
      })"

text \<open>The result of a look-up is the return value and the byte stored.\<close>

definition wow_byte_array_get :: "nat \<Rightarrow> ByteArray_T \<Rightarrow> (int \<times> u8 option) option" where
  "wow_byte_array_get snIdx a =
     (if \<not> snIdx < ba_size a then Some (- PARAM_INPUT_ARG_INVALID, None)
      else do { x \<leftarrow> rd (ba_data a) snIdx; Some (0, Some x) })"

definition wow_byte_array_set :: "nat \<Rightarrow> u8 \<Rightarrow> ByteArray_T \<Rightarrow> (int \<times> ByteArray_T) option" where
  "wow_byte_array_set snIdx u8Value a =
     (if \<not> snIdx < ba_size a then Some (- PARAM_INPUT_ARG_INVALID, a)
      else do { d \<leftarrow> wr (ba_data a) snIdx u8Value; Some (WOW_SUCCESS, a\<lparr>ba_data := d\<rparr>) })"

text \<open>The counters of the next two loops are of type \<open>int\<close>: the step from \<open>2 ^ 31 - 1\<close> is undefined.\<close>

fun find_loop :: "u8 \<Rightarrow> bytes \<Rightarrow> nat \<Rightarrow> nat \<Rightarrow> int option" where
  "find_loop u8Value d i 0 = Some (- BYTE_ARRAY_NOT_FIND)"
| "find_loop u8Value d i (Suc n) =
     do { x \<leftarrow> rd d i; if u8Value = x then Some (int i) else do { i \<leftarrow> int_succ i; find_loop u8Value d i n } }"

definition wow_byte_array_find :: "u8 \<Rightarrow> ByteArray_T \<Rightarrow> int option" where
  "wow_byte_array_find u8Value a = find_loop u8Value (ba_data a) 0 (ba_size a)"

fun replace_bytes_loop :: "u8 \<Rightarrow> u8 \<Rightarrow> nat \<Rightarrow> nat \<Rightarrow> bytes \<Rightarrow> bytes option" where
  "replace_bytes_loop u8Obj u8Value i 0 d = Some d"
| "replace_bytes_loop u8Obj u8Value i (Suc n) d =
     do {
       x \<leftarrow> rd d i;
       d \<leftarrow> (if u8Obj = x then wr d i u8Value else Some d);
       i \<leftarrow> int_succ i;
       replace_bytes_loop u8Obj u8Value i n d
     }"

definition wow_byte_array_replace :: "u8 \<Rightarrow> u8 \<Rightarrow> ByteArray_T \<Rightarrow> (int \<times> ByteArray_T) option" where
  "wow_byte_array_replace u8Obj u8Value a =
     do { d \<leftarrow> replace_bytes_loop u8Obj u8Value 0 (ba_size a) (ba_data a); Some (WOW_SUCCESS, a\<lparr>ba_data := d\<rparr>) }"

definition wow_byte_array_remove :: "nat \<Rightarrow> nat \<Rightarrow> ByteArray_T \<Rightarrow> (int \<times> ByteArray_T) option" where
  "wow_byte_array_remove snIdx snLen a =
     (if \<not> snIdx < ba_size a then Some (- PARAM_INPUT_ARG_INVALID, a)
      else if ba_size a > size_plus snLen snIdx
      then do {
        d \<leftarrow> mem_move (ba_data a) 0 (size_plus snIdx snLen) (size_minus (ba_size a) snLen);
        d \<leftarrow> mem_clear d (size_minus (ba_size a) snLen) snLen;
        Some (WOW_SUCCESS, a\<lparr>ba_data := d, ba_size := size_minus (ba_size a) snLen\<rparr>)
      }
      else do {
        d \<leftarrow> mem_clear (ba_data a) snIdx (ba_size a - snIdx);
        Some (WOW_SUCCESS, a\<lparr>ba_data := d, ba_size := snIdx\<rparr>)
      })"

section \<open>The bytes of an array\<close>

definition ba_wf :: "ByteArray_T \<Rightarrow> bool" where
  "ba_wf a \<longleftrightarrow> length (ba_data a) = ba_capicity a \<and> ba_size a \<le> ba_capicity a \<and> 0 < ba_capicity a"

definition ba_bytes :: "ByteArray_T \<Rightarrow> bytes" where
  "ba_bytes a = take (ba_size a) (ba_data a)"

named_theorems array_simps \<open>what an operation leaves in the array\<close>

lemma length_ba_bytes [simp]: "ba_wf a \<Longrightarrow> length (ba_bytes a) = ba_size a"
  by (simp add: ba_wf_def ba_bytes_def)

lemma wf_new: "wow_byte_array_new heap ok nSize = Some a \<Longrightarrow> ba_wf a \<and> ba_bytes a = []"
  by (auto simp: wow_byte_array_new_def ba_wf_def ba_bytes_def DEFALUT_BYTE_ARRAY_SZIE_def Let_def split: if_splits)

text \<open>Writing \<open>xs\<close> behind \<open>n\<close> bytes and taking \<open>n + length xs\<close> of them into use.\<close>

lemma store_at:
  assumes "ba_wf a" and "n \<le> ba_size a" and "n + length xs \<le> ba_capicity a"
  shows "\<exists>d. wrn (ba_data a) n xs = Some d \<and> ba_wf (a\<lparr>ba_data := d, ba_size := n + length xs\<rparr>) \<and>
    ba_bytes (a\<lparr>ba_data := d, ba_size := n + length xs\<rparr>) = take n (ba_bytes a) @ xs"
  by (intro exI [of _ "take n (ba_data a) @ xs @ drop (n + length xs) (ba_data a)"])
    (use assms in \<open>auto simp: ba_wf_def ba_bytes_def min_def wrn_def neq_Nil_conv\<close>)

text \<open>The guarded growth before an insertion, which then needs \<open>k\<close> bytes.\<close>

lemma ensure_room:
  assumes "ba_wf a" and "\<forall>n. heap n" and "c \<Longrightarrow> ba_capicity a \<le> n \<and> k \<le> n" and "\<not> c \<Longrightarrow> k \<le> ba_capicity a"
  shows "\<exists>r b. (if c then byte_array_resize heap a n else Some (0, a)) = Some (r, b) \<and> ba_wf b \<and>
    ba_size b = ba_size a \<and> ba_bytes b = ba_bytes a \<and> k \<le> ba_capicity b"
proof (cases c)
  case True
  let ?d = "ba_data a @ replicate (n - ba_capicity a) 0"
  have n: "ba_capicity a \<le> n" "k \<le> n" using True assms(3) by simp_all
  have "mem_clear (take n (ba_data a) @ replicate (n - length (ba_data a)) 0) (ba_capicity a) (n - ba_capicity a) = Some ?d"
    using assms(1) n by (simp add: mem_clear_def wrn_def ba_wf_def)
  then have "byte_array_resize heap a n = Some (0, a\<lparr>ba_data := ?d, ba_capicity := n\<rparr>)"
    using assms(1,2) n by (simp add: byte_array_resize_def ba_wf_def)
  then show ?thesis
    using True n assms(1)
    by (intro exI [of _ "0 :: int"] exI [of _ "a\<lparr>ba_data := ?d, ba_capicity := n\<rparr>"]) (auto simp: ba_bytes_def ba_wf_def)
qed (use assms in auto)

lemma append_data_bytes:
  assumes "ba_wf a" and "\<forall>n. heap n"
  shows "\<exists>a'. wow_byte_array_append_data heap x a = Some (WOW_SUCCESS, a') \<and> ba_wf a' \<and> ba_bytes a' = ba_bytes a @ [x]"
proof -
  obtain r b where b: "(if ba_size a \<ge> ba_capicity a then byte_array_resize heap a (ba_size a * 2) else Some (0, a)) = Some (r, b)"
    "ba_wf b" "ba_size b = ba_size a" "ba_bytes b = ba_bytes a" "ba_size a + 1 \<le> ba_capicity b"
    using ensure_room [of a heap "ba_size a \<ge> ba_capicity a" "ba_size a * 2" "ba_size a + 1"] assms
    by (auto simp: ba_wf_def)
  obtain d where d: "wrn (ba_data b) (ba_size b) [x] = Some d"
    "ba_wf (b\<lparr>ba_data := d, ba_size := ba_size b + 1\<rparr>) \<and> ba_bytes (b\<lparr>ba_data := d, ba_size := ba_size b + 1\<rparr>) = ba_bytes b @ [x]"
    using store_at [of b "ba_size b" "[x]"] b by (auto simp: ba_bytes_def)
  have "wr (ba_data b) (ba_size b) x = Some d"
    using d(1) by (auto simp: wr_def wrn_def upd_conv_take_nth_drop split: if_splits)
  then show ?thesis
    using b(1,4) d(2) by (simp add: wow_byte_array_append_data_def)
qed

lemma append_ndata_bytes:
  assumes "ba_wf a" and "\<forall>n. heap n" and "unat n \<le> length src"
  shows "\<exists>a'. wow_byte_array_append_ndata heap (Some src) n a = Some (WOW_SUCCESS, a') \<and> ba_wf a' \<and>
    ba_bytes a' = ba_bytes a @ take (unat n) src"
proof -
  define n' where "n' = (if ba_size a + unat n > ba_size a * 2 then ba_size a + unat n else ba_size a * 2)"
  have n': "ba_size a + unat n \<le> n'" by (simp add: n'_def)
  then obtain r b where b: "(if ba_size a + unat n \<ge> ba_capicity a then byte_array_resize heap a n' else Some (0, a)) = Some (r, b)"
    "ba_wf b" "ba_size b = ba_size a" "ba_bytes b = ba_bytes a" "ba_size a + unat n \<le> ba_capicity b"
    using ensure_room [of a heap "ba_size a + unat n \<ge> ba_capicity a" n' "ba_size a + unat n"] assms(1,2)
    by auto
  obtain d where d: "wrn (ba_data b) (ba_size b) (take (unat n) src) = Some d"
    "ba_wf (b\<lparr>ba_data := d, ba_size := ba_size b + unat n\<rparr>) \<and>
     ba_bytes (b\<lparr>ba_data := d, ba_size := ba_size b + unat n\<rparr>) = ba_bytes b @ take (unat n) src"
    using store_at [of b "ba_size b" "take (unat n) src"] b(2,3,5) assms(3) by (auto simp: ba_bytes_def min_absorb2)
  show ?thesis
    unfolding wow_byte_array_append_ndata_def option.case Let_def n'_def [symmetric] b(1)
    using b(4) d assms(3) by (simp add: rdn_def)
qed

lemma clear_bytes:
  "ba_wf a \<Longrightarrow> \<exists>a'. wow_byte_array_clear a = Some (WOW_SUCCESS, a') \<and> ba_wf a' \<and> ba_bytes a' = []"
  by (auto simp: wow_byte_array_clear_def mem_clear_def wrn_def ba_wf_def ba_bytes_def)

lemma left_bytes:
  "ba_wf a \<Longrightarrow> n < ba_size a \<Longrightarrow> \<exists>a'. wow_byte_array_left n a = Some (WOW_SUCCESS, a') \<and> ba_wf a' \<and> ba_bytes a' = take n (ba_bytes a)"
  by (auto simp: wow_byte_array_left_def mem_clear_def wrn_def ba_wf_def ba_bytes_def min_def)

lemma right_bytes:
  "ba_wf a \<Longrightarrow> n < ba_size a \<Longrightarrow>
   \<exists>a'. wow_byte_array_right n a = Some (WOW_SUCCESS, a') \<and> ba_wf a' \<and> ba_bytes a' = drop (ba_size a - n) (ba_bytes a)"
  by (auto simp: wow_byte_array_right_def mem_clear_def mem_move_def wrn_def rdn_def ba_wf_def ba_bytes_def min_def take_drop)

lemma size_plus_small: "m + n < 2 ^ 64 \<Longrightarrow> size_plus m n = m + n"
  by (simp add: size_plus_def)

lemma size_minus_small: "n \<le> m \<Longrightarrow> m < 2 ^ 64 \<Longrightarrow> size_minus m n = m - n"
  by (simp add: size_minus_def mod_if)

lemma remove_front_bytes:
  assumes "ba_wf a" and "0 < ba_size a" and "ba_size a < 2 ^ 64" and "n < 2 ^ 64"
  shows "\<exists>a'. wow_byte_array_remove 0 n a = Some (WOW_SUCCESS, a') \<and> ba_wf a' \<and> ba_bytes a' = drop n (ba_bytes a) \<and>
    ba_capicity a' = ba_capicity a"
proof (cases "n < ba_size a")
  case True
  then show ?thesis
    using assms by (auto simp: wow_byte_array_remove_def size_plus_small size_minus_small mem_clear_def mem_move_def wrn_def
        rdn_def ba_wf_def ba_bytes_def take_drop)
next
  case False
  then show ?thesis
    using assms by (auto simp: wow_byte_array_remove_def size_plus_small mem_clear_def wrn_def ba_wf_def ba_bytes_def)
qed

lemma set_bytes:
  "ba_wf a \<Longrightarrow> i < ba_size a \<Longrightarrow> \<exists>a'. wow_byte_array_set i x a = Some (WOW_SUCCESS, a') \<and> ba_wf a' \<and> ba_bytes a' = (ba_bytes a)[i := x]"
  by (auto simp: wow_byte_array_set_def wr_def ba_wf_def ba_bytes_def take_update_swap)

lemma get_bytes:
  "ba_wf a \<Longrightarrow> i < ba_size a \<Longrightarrow> wow_byte_array_get i a = Some (0, Some (ba_bytes a ! i))"
  by (auto simp: wow_byte_array_get_def rd_def ba_wf_def ba_bytes_def)

lemma find_loop_first:
  "i + n \<le> length d \<Longrightarrow> i + n < 2 ^ 31 \<Longrightarrow> find_loop x d i n =
     Some (if x \<in> set (take n (drop i d)) then int (i + length (takeWhile (\<lambda>y. y \<noteq> x) (take n (drop i d)))) else - BYTE_ARRAY_NOT_FIND)"
proof (induction n arbitrary: i)
  case (Suc n)
  have "take (Suc n) (drop i d) = d ! i # take n (drop (Suc i) d)"
    using Suc.prems by (simp flip: Cons_nth_drop_Suc)
  then show ?case using Suc by (auto simp: mem_simps int_succ_Some)
qed simp

lemma find_bytes:
  "ba_wf a \<Longrightarrow> ba_size a < 2 ^ 31 \<Longrightarrow> wow_byte_array_find x a =
     Some (if x \<in> set (ba_bytes a) then int (length (takeWhile (\<lambda>y. y \<noteq> x) (ba_bytes a))) else - BYTE_ARRAY_NOT_FIND)"
  using find_loop_first [of 0 "ba_size a" "ba_data a" x] by (simp add: wow_byte_array_find_def ba_wf_def ba_bytes_def)

lemma replace_bytes_loop_map:
  "i + n \<le> length d \<Longrightarrow> i + n < 2 ^ 31 \<Longrightarrow> replace_bytes_loop x y i n d =
     Some (take i d @ map (\<lambda>z. if z = x then y else z) (take n (drop i d)) @ drop (i + n) d)"
proof (induction n arbitrary: i d)
  case (Suc n)
  let ?d = "d[i := if d ! i = x then y else d ! i]"
  have "take (Suc n) (drop i d) = d ! i # take n (drop (Suc i) d)"
    using Suc.prems by (simp flip: Cons_nth_drop_Suc)
  moreover have "replace_bytes_loop x y i (Suc n) d = replace_bytes_loop x y (Suc i) n ?d"
    using Suc.prems by (auto simp: mem_simps int_succ_Some)
  ultimately show ?case
    using Suc.IH [of "Suc i" ?d] Suc.prems by (auto simp: upd_conv_take_nth_drop add.commute)
qed simp

lemma replace_bytes:
  "ba_wf a \<Longrightarrow> ba_size a < 2 ^ 31 \<Longrightarrow> \<exists>a'. wow_byte_array_replace x y a = Some (WOW_SUCCESS, a') \<and> ba_wf a' \<and>
     ba_bytes a' = map (\<lambda>z. if z = x then y else z) (ba_bytes a)"
  using replace_bytes_loop_map [of 0 "ba_size a" "ba_data a" x y]
  by (auto simp: wow_byte_array_replace_def ba_wf_def ba_bytes_def)

lemma insert_loop_shifts:
  "k \<le> i \<Longrightarrow> i < length d \<Longrightarrow> insert_loop k i d = Some (take (k + 1) d @ take (i - k) (drop k d) @ drop (i + 1) d)"
proof (induction i arbitrary: d)
  case (Suc i)
  show ?case
  proof (cases "k = Suc i")
    case False
    let ?d = "d[Suc i := d ! i]"
    have "insert_loop k i ?d = Some (take (k + 1) ?d @ take (i - k) (drop k ?d) @ drop (i + 1) ?d)"
      using Suc False by simp
    moreover have "take (k + 1) ?d = take (k + 1) d" using Suc.prems False by simp
    moreover have "take (Suc i - k) (drop k d) = take (i - k) (drop k d) @ [d ! i]"
      using Suc.prems False by (simp add: Suc_diff_le take_Suc_conv_app_nth)
    moreover have "take (i - k) (drop k ?d) = take (i - k) (drop k d)"
      using Suc.prems False by (simp add: drop_update_swap)
    moreover have "drop (i + 1) ?d = d ! i # drop (Suc i + 1) d"
      using Suc.prems by (simp add: drop_update_swap flip: Cons_nth_drop_Suc)
    ultimately show ?thesis using Suc.prems False by (simp add: mem_simps)
  qed simp
qed simp

lemma insert_bytes:
  assumes "ba_wf a" and "\<forall>n. heap n" and "i < ba_size a" and "ba_size a < 2 ^ 31"
  shows "\<exists>a'. wow_byte_array_insert heap i x a = Some (WOW_SUCCESS, a') \<and> ba_wf a' \<and>
    ba_bytes a' = take i (ba_bytes a) @ [x] @ drop i (ba_bytes a)"
proof -
  obtain r b where b: "(if ba_size a \<ge> ba_capicity a then byte_array_resize heap a (ba_size a * 2) else Some (0, a)) = Some (r, b)"
    "ba_wf b" "ba_size b = ba_size a" "ba_bytes b = ba_bytes a" "ba_size a + 1 \<le> ba_capicity b"
    using ensure_room [of a heap "ba_size a \<ge> ba_capicity a" "ba_size a * 2" "ba_size a + 1"] assms
    by (auto simp: ba_wf_def)
  let ?n = "ba_size a"
  let ?d = "take (i + 1) (ba_data b) @ take (?n - i) (drop i (ba_data b)) @ drop (?n + 1) (ba_data b)"
  have "int_of_size (of_nat ?n) = int ?n"
    using assms(4) by (intro int_of_size_eq) (simp_all add: size_simps)
  moreover have "insert_loop i ?n (ba_data b) = Some ?d"
    using b assms(3) by (intro insert_loop_shifts) (auto simp: ba_wf_def)
  moreover have "wr ?d i x = Some (take i (ba_data b) @ [x] @ take (?n - i) (drop i (ba_data b)) @ drop (?n + 1) (ba_data b))"
    (is "_ = Some ?e")
    using b assms(3) by (auto simp: wr_def ba_wf_def upd_conv_take_nth_drop min_def)
  moreover have "take (?n + 1) ?e = take i (ba_bytes b) @ [x] @ drop i (ba_bytes b)" "length ?e = ba_capicity b"
    using b(2,3,5) assms(3) by (simp_all add: ba_wf_def ba_bytes_def min_def drop_take Suc_diff_le)
  ultimately show ?thesis
    unfolding wow_byte_array_insert_def using b assms(3)
    by (simp add: ba_wf_def) (simp add: ba_bytes_def)
qed

section \<open>Histories\<close>

datatype array_op =
    Append u8 | Append_n bytes u8 | Insert nat u8 | Left nat | Right nat | Put nat u8 | Get nat | Find u8 | Replace u8 u8
  | Remove_front nat | Clear

text \<open>The code; a result is the return value and, of a look-up, the byte.\<close>

definition plain :: "(int \<times> ByteArray_T) option \<Rightarrow> ((int \<times> u8 option) \<times> ByteArray_T) option" where
  "plain = map_option (\<lambda>(r, a). ((r, None), a))"

fun array_exec :: "(nat \<Rightarrow> bool) \<Rightarrow> array_op \<Rightarrow> ByteArray_T \<Rightarrow> ((int \<times> u8 option) \<times> ByteArray_T) option" where
  "array_exec heap (Append x) a = plain (wow_byte_array_append_data heap x a)"
| "array_exec heap (Append_n src n) a = plain (wow_byte_array_append_ndata heap (Some src) n a)"
| "array_exec heap (Insert i x) a = plain (wow_byte_array_insert heap i x a)"
| "array_exec heap (Left n) a = plain (wow_byte_array_left n a)"
| "array_exec heap (Right n) a = plain (wow_byte_array_right n a)"
| "array_exec heap (Put i x) a = plain (wow_byte_array_set i x a)"
| "array_exec heap (Get i) a = map_option (\<lambda>r. (r, a)) (wow_byte_array_get i a)"
| "array_exec heap (Find x) a = map_option (\<lambda>r. ((r, None), a)) (wow_byte_array_find x a)"
| "array_exec heap (Replace x y) a = plain (wow_byte_array_replace x y a)"
| "array_exec heap (Remove_front n) a = plain (wow_byte_array_remove 0 n a)"
| "array_exec heap Clear a = plain (wow_byte_array_clear a)"

text \<open>The specification on lists of bytes. A position outside the list, and a cut that would keep the whole list, are
  refused.\<close>

definition guarded :: "bool \<Rightarrow> bytes \<Rightarrow> bytes \<Rightarrow> (int \<times> u8 option) \<times> bytes" where
  "guarded ok xs ys = (if ok then ((WOW_SUCCESS, None), ys) else ((- PARAM_INPUT_ARG_INVALID, None), xs))"

fun list_exec :: "array_op \<Rightarrow> bytes \<Rightarrow> (int \<times> u8 option) \<times> bytes" where
  "list_exec (Append x) xs = guarded True xs (xs @ [x])"
| "list_exec (Append_n src n) xs = guarded True xs (xs @ take (unat n) src)"
| "list_exec (Insert i x) xs = guarded (i < length xs) xs (take i xs @ [x] @ drop i xs)"
| "list_exec (Left n) xs = guarded (n < length xs) xs (take n xs)"
| "list_exec (Right n) xs = guarded (n < length xs) xs (drop (length xs - n) xs)"
| "list_exec (Put i x) xs = guarded (i < length xs) xs (xs[i := x])"
| "list_exec (Get i) xs =
     (if i < length xs then ((0, Some (xs ! i)), xs) else ((- PARAM_INPUT_ARG_INVALID, None), xs))"
| "list_exec (Find x) xs =
     ((if x \<in> set xs then int (length (takeWhile (\<lambda>y. y \<noteq> x) xs)) else - BYTE_ARRAY_NOT_FIND, None), xs)"
| "list_exec (Replace x y) xs = guarded True xs (map (\<lambda>z. if z = x then y else z) xs)"
| "list_exec (Remove_front n) xs = guarded (xs \<noteq> []) xs (drop n xs)"
| "list_exec Clear xs = guarded True xs []"

fun op_ok :: "array_op \<Rightarrow> bool" where
  "op_ok (Append_n src n) \<longleftrightarrow> unat n \<le> length src"
| "op_ok (Remove_front n) \<longleftrightarrow> n < 2 ^ 64"
| "op_ok _ \<longleftrightarrow> True"

fun array_run :: "(nat \<Rightarrow> bool) \<Rightarrow> array_op list \<Rightarrow> ByteArray_T \<Rightarrow> ((int \<times> u8 option) list \<times> ByteArray_T) option" where
  "array_run heap [] a = Some ([], a)"
| "array_run heap (op # ops) a =
     do { (r, a) \<leftarrow> array_exec heap op a; (rs, a) \<leftarrow> array_run heap ops a; Some (r # rs, a) }"

fun list_run :: "array_op list \<Rightarrow> bytes \<Rightarrow> (int \<times> u8 option) list \<times> bytes" where
  "list_run [] xs = ([], xs)"
| "list_run (op # ops) xs =
     (let (r, xs) = list_exec op xs; (rs, xs) = list_run ops xs in (r # rs, xs))"

text \<open>The contents a history works on have fewer than \<open>2 ^ 31\<close> bytes: from there on the counters and the result of the look-up
  would overflow.\<close>

fun list_fits :: "array_op list \<Rightarrow> bytes \<Rightarrow> bool" where
  "list_fits [] xs \<longleftrightarrow> True"
| "list_fits (op # ops) xs \<longleftrightarrow> length xs < 2 ^ 31 \<and> list_fits ops (snd (list_exec op xs))"

lemma refused:
  assumes "\<not> i < ba_size a"
  shows "wow_byte_array_insert heap i x a = Some (- PARAM_INPUT_ARG_INVALID, a)"
    "wow_byte_array_left i a = Some (- PARAM_INPUT_ARG_INVALID, a)"
    "wow_byte_array_right i a = Some (- PARAM_INPUT_ARG_INVALID, a)"
    "wow_byte_array_set i x a = Some (- PARAM_INPUT_ARG_INVALID, a)"
    "wow_byte_array_get i a = Some (- PARAM_INPUT_ARG_INVALID, None)"
    "i = 0 \<Longrightarrow> wow_byte_array_remove i n a = Some (- PARAM_INPUT_ARG_INVALID, a)"
  using assms by (simp_all add: wow_byte_array_insert_def wow_byte_array_left_def wow_byte_array_right_def
      wow_byte_array_set_def wow_byte_array_get_def wow_byte_array_remove_def)

lemma array_exec_list:
  assumes "ba_wf a" and "\<forall>n. heap n" and "op_ok op" and "ba_size a < 2 ^ 31"
  shows "\<exists>a'. array_exec heap op a = Some (fst (list_exec op (ba_bytes a)), a') \<and> ba_wf a' \<and>
    ba_bytes a' = snd (list_exec op (ba_bytes a))"
proof (cases op)
  case (Append x)
  then show ?thesis using append_data_bytes [OF assms(1,2), of x] by (auto simp: plain_def guarded_def)
next
  case (Append_n src n)
  then show ?thesis using append_ndata_bytes [OF assms(1,2), of n src] assms(3) by (auto simp: plain_def guarded_def)
next
  case (Insert i x)
  then show ?thesis
    using insert_bytes [OF assms(1,2) _ assms(4), of i x] refused [of i a] assms(1)
    by (cases "i < ba_size a") (auto simp: plain_def guarded_def)
next
  case (Left n)
  then show ?thesis using left_bytes [OF assms(1), of n] refused [of n a] assms(1)
    by (cases "n < ba_size a") (auto simp: plain_def guarded_def)
next
  case (Right n)
  then show ?thesis using right_bytes [OF assms(1), of n] refused [of n a] assms(1)
    by (cases "n < ba_size a") (auto simp: plain_def guarded_def)
next
  case (Put i x)
  then show ?thesis using set_bytes [OF assms(1), of i x] refused [of i a] assms(1)
    by (cases "i < ba_size a") (auto simp: plain_def guarded_def)
next
  case (Get i)
  then show ?thesis using get_bytes [OF assms(1), of i] refused [of i a] assms(1)
    by (cases "i < ba_size a") auto
next
  case (Find x)
  then show ?thesis using find_bytes [OF assms(1,4), of x] assms(1) by auto
next
  case (Replace x y)
  then show ?thesis using replace_bytes [OF assms(1,4), of x y] by (auto simp: plain_def guarded_def)
next
  case (Remove_front n)
  have "ba_bytes a = [] \<longleftrightarrow> \<not> 0 < ba_size a" using assms(1) by (auto simp: ba_bytes_def ba_wf_def)
  then show ?thesis using Remove_front remove_front_bytes [OF assms(1), of n] refused [of 0 a] assms(1,3,4)
    by (cases "0 < ba_size a") (auto simp: plain_def guarded_def)
next
  case Clear
  then show ?thesis using clear_bytes [OF assms(1)] by (auto simp: plain_def guarded_def)
qed



text \<open>From \<open>2 ^ 31\<close> bytes on an insertion leaves the area: the counter starts negative.\<close>

lemma insert_overflow:
  assumes "ba_size a = 2 ^ 31" and "i < ba_size a" and "ba_size a < ba_capicity a"
  shows "wow_byte_array_insert heap i x a = None"
proof -
  have "int_of_size (of_nat (2 ^ 31)) < 0" by (simp add: int_of_size_def)
  then show ?thesis using assms by (simp add: wow_byte_array_insert_def)
qed

text \<open>Removing bytes from the middle of the array removes what stands before them as well, and what was behind the end of the
  contents becomes part of it.\<close>

theorem remove_middle_loses_front:
  assumes "ba_wf a" and "0 < i" and "0 < n" and "i + n < ba_size a" and "i + ba_size a \<le> ba_capicity a"
    and "ba_size a < 2 ^ 64"
  shows "\<exists>a'. wow_byte_array_remove i n a = Some (WOW_SUCCESS, a') \<and>
    ba_bytes a' = drop (i + n) (ba_bytes a) @ take i (drop (ba_size a) (ba_data a))"
proof -
  have "take (ba_size a - n) (drop (i + n) (ba_data a)) = drop (i + n) (take (ba_size a) (ba_data a)) @ take i (drop (ba_size a) (ba_data a))"
    using assms(2-5) take_add [of "ba_size a - (i + n)" i "drop (i + n) (ba_data a)"] by (simp add: drop_take)
  then show ?thesis
    using assms by (auto simp: wow_byte_array_remove_def size_plus_small size_minus_small add.commute mem_move_def mem_clear_def
        rdn_def wrn_def ba_wf_def ba_bytes_def)
qed

theorem remove_middle_loses_front_witness:
  "\<exists>a'. wow_byte_array_remove 1 1 \<lparr>ba_size = 3, ba_capicity = 4, ba_data = [1, 2, 3, 0]\<rparr> = Some (WOW_SUCCESS, a') \<and>
     ba_bytes a' = [3, 0]"
  using remove_middle_loses_front [of "\<lparr>ba_size = 3, ba_capicity = 4, ba_data = [1, 2, 3, 0]\<rparr>" 1 1]
  by (simp add: ba_wf_def ba_bytes_def)

end
