(* ===== verification/Iec101Base.thy ===== *)
theory Iec101Base
  imports Iec104Slave ByteArray
begin

text \<open>
  The frames of serial IEC 60870-5-101: \<open>iec101_base.h\<close>. The packed structures are read and written byte by byte:

  a fixed frame is 0x10, control, link address (2), check sum, 0x16; a variable frame is 0x68, length, length again,
  0x68, 4 control, 5 and 6 link address, 7 type, 8 number (7 bits) and SQ, 9 reason (6 bits, PN, test), 10 and 11
  common address, 12 and 13 object address, 14 elements, then check sum and 0x16. The length counts the bytes from the control
  field to the elements.
\<close>

section \<open>Constants\<close>

definition IEC101_MAX_BUF_LEN :: nat where "IEC101_MAX_BUF_LEN = 256"
definition IEC101_STABLE_BEGING :: u8 where "IEC101_STABLE_BEGING = 0x10"
definition IEC101_STABLE_END :: u8 where "IEC101_STABLE_END = 0x16"
definition IEC101_STABLE_LEN :: nat where "IEC101_STABLE_LEN = 6"
definition IEC101_VARIABLE_BEGING :: u8 where "IEC101_VARIABLE_BEGING = 0x68"
definition IEC101_VARIABLE_END :: u8 where "IEC101_VARIABLE_END = 0x16"

text \<open>\<open>IEC101_VARIABLE_LEN\<close> is the head (7), the ASDU head (5), the object address (2), check sum and end.\<close>

definition IEC101_VARIABLE_LEN :: nat where "IEC101_VARIABLE_LEN = 7 + 5 + 2 + 2"

definition IEC101_CTRL_ACD_NONE_DATA :: nat where "IEC101_CTRL_ACD_NONE_DATA = 0"
definition IEC101_CTRL_ACD_WITH_DATA :: nat where "IEC101_CTRL_ACD_WITH_DATA = 1"
definition IEC101_CTRL_DFC_CAN_REC :: nat where "IEC101_CTRL_DFC_CAN_REC = 0"
definition IEC101_CTRL_PRM_MASTER :: nat where "IEC101_CTRL_PRM_MASTER = 1"
definition IEC101_CTRL_PRM_SLAVE :: nat where "IEC101_CTRL_PRM_SLAVE = 0"
definition IEC101_CTRL_DIR_UP :: nat where "IEC101_CTRL_DIR_UP = 0"

definition IEC101_CTRL_RESET_LINK :: nat where "IEC101_CTRL_RESET_LINK = 0x00"
definition IEC101_CTRL_SEND_USR_DATA_ACK :: nat where "IEC101_CTRL_SEND_USR_DATA_ACK = 0x03"
definition IEC101_CTRL_REQ_LINK_STATUS :: nat where "IEC101_CTRL_REQ_LINK_STATUS = 0x09"
definition IEC101_CTRL_REQ_USR_DATA_1 :: nat where "IEC101_CTRL_REQ_USR_DATA_1 = 0x0A"
definition IEC101_CTRL_REQ_USR_DATA_2 :: nat where "IEC101_CTRL_REQ_USR_DATA_2 = 0x0B"

definition IEC101_CTRL_CONFIRM_ACK :: nat where "IEC101_CTRL_CONFIRM_ACK = 0x00"
definition IEC101_CTRL_RES_USR_DATA_ACK :: nat where "IEC101_CTRL_RES_USR_DATA_ACK = 0x08"
definition IEC101_CTRL_RES_USR_DATA_NACK :: nat where "IEC101_CTRL_RES_USR_DATA_NACK = 0x09"
definition IEC101_CTRL_RES_LINK_STATUS :: nat where "IEC101_CTRL_RES_LINK_STATUS = 0x0B"

lemmas iec101_ctrls = IEC101_CTRL_ACD_NONE_DATA_def IEC101_CTRL_ACD_WITH_DATA_def IEC101_CTRL_DFC_CAN_REC_def
  IEC101_CTRL_PRM_MASTER_def IEC101_CTRL_PRM_SLAVE_def IEC101_CTRL_DIR_UP_def
  IEC101_CTRL_RESET_LINK_def IEC101_CTRL_SEND_USR_DATA_ACK_def IEC101_CTRL_REQ_LINK_STATUS_def
  IEC101_CTRL_REQ_USR_DATA_1_def IEC101_CTRL_REQ_USR_DATA_2_def IEC101_CTRL_CONFIRM_ACK_def
  IEC101_CTRL_RES_USR_DATA_ACK_def IEC101_CTRL_RES_USR_DATA_NACK_def IEC101_CTRL_RES_LINK_STATUS_def

lemmas iec101_bytes = IEC101_STABLE_BEGING_def IEC101_STABLE_END_def IEC101_VARIABLE_BEGING_def IEC101_VARIABLE_END_def

lemmas iec101_lens = IEC101_MAX_BUF_LEN_def IEC101_STABLE_LEN_def IEC101_VARIABLE_LEN_def

definition IEC10X_C_CD_NA_1 :: nat where "IEC10X_C_CD_NA_1 = 106"
definition IEC10X_COT_REQCO1 :: nat where "IEC10X_COT_REQCO1 = 38"
definition IEC10X_COT_REQCO2 :: nat where "IEC10X_COT_REQCO2 = 39"
definition IEC10X_CALL_ALL_TIMEOUT :: int where "IEC10X_CALL_ALL_TIMEOUT = 30 * 1000"
definition IEC10X_YK_CMD_TIMEOUT :: int where "IEC10X_YK_CMD_TIMEOUT = 10 * 1000"
definition IEC10X_YT_CMD_TIMEOUT :: int where "IEC10X_YT_CMD_TIMEOUT = 10 * 1000"

text \<open>The sizes of \<open>DevNodeInfo_T\<close> and \<open>DevNodeVal_T\<close> with their alignment.\<close>

definition sizeof_DevNodeInfo_T :: nat where "sizeof_DevNodeInfo_T = 8"
definition sizeof_DevNodeVal_T :: nat where "sizeof_DevNodeVal_T = 16"

section \<open>Control field and check sum\<close>

definition iec101_ctrl_up :: "nat \<Rightarrow> nat \<Rightarrow> nat \<Rightarrow> nat \<Rightarrow> nat \<Rightarrow> u8" where
  "iec101_ctrl_up func dfc acd prm dir = word_of_nat (func mod 16 + 16 * dfc + 32 * acd + 64 * prm + 128 * dir)"

definition iec101_ctrl_func :: "u8 \<Rightarrow> nat" where
  "iec101_ctrl_func c = unat c mod 16"

definition iec101_ctrl_prm :: "u8 \<Rightarrow> nat" where
  "iec101_ctrl_prm c = unat c div 64 mod 2"

text \<open>\<open>cs_temp += send_buf[i]\<close> over the bytes from \<open>i\<close> on, as the builders do it with an \<open>int\<close> counter.\<close>

definition iec101_cs :: "bytes \<Rightarrow> nat \<Rightarrow> nat \<Rightarrow> u8" where
  "iec101_cs buf i n = sum_list (take (n - i) (drop i buf))"

section \<open>The end of a frame\<close>

text \<open>Length, check sum and end of a variable frame, with \<open>uint8_t len\<close>; \<open>len - 2\<close> is an \<open>int\<close> index. The result is what is sent.\<close>

definition iec101_end :: "bytes \<Rightarrow> nat \<Rightarrow> bytes option" where
  "iec101_end buf l =
     do {
       let len = l mod 256;
       buf \<leftarrow> wr buf 2 (word_of_nat len - 6);
       buf \<leftarrow> wr buf 1 (word_of_nat len - 6);
       if len < 2 then None
       else do {
         buf \<leftarrow> wr buf (len - 2) (iec101_cs buf 4 (len - 2));
         buf \<leftarrow> wr buf (len - 1) IEC101_VARIABLE_END;
         rdn buf 0 len
       }
     }"

text \<open>The sum when the counter is a \<open>uint8_t\<close>, as in the receivers; an endless loop is \<open>None\<close>.\<close>

partial_function (option) iec101_cs_loop :: "bytes \<Rightarrow> u8 \<Rightarrow> nat \<Rightarrow> u8 \<Rightarrow> u8 option" where
  "iec101_cs_loop buf i n cs_temp =
     (if unat i < n then do { b \<leftarrow> rd buf (unat i); iec101_cs_loop buf (i + 1) n (cs_temp + b) } else Some cs_temp)"

lemma iec101_cs_loop_sum:
  assumes "n \<le> 255" and "n \<le> length buf" and "unat i \<le> n"
  shows "iec101_cs_loop buf i n cs = Some (cs + iec101_cs buf (unat i) n)"
  using assms(3)
proof (induction "n - unat i" arbitrary: i cs)
  case 0
  then show ?case by (simp add: iec101_cs_loop.simps iec101_cs_def)
next
  case (Suc k)
  then have lt: "unat i < n" by linarith
  have i1: "unat (i + 1) = Suc (unat i)"
    using lt assms(1) unat_add_lem [of i 1] by simp
  have "take (Suc (n - Suc (unat i))) (drop (unat i) buf) =
    buf ! unat i # take (n - Suc (unat i)) (drop (Suc (unat i)) buf)"
    using lt assms(2) by (simp add: Cons_nth_drop_Suc [symmetric])
  moreover have "n - unat i = Suc (n - Suc (unat i))" using lt by simp
  ultimately show ?case
    using Suc.hyps(1) [of "i + 1" "cs + buf ! unat i"] Suc.hyps(2) lt i1 assms(2)
    by (simp add: iec101_cs_loop.simps [of buf i] rd_def iec101_cs_def add.assoc)
qed

lemma iec101_cs_loop_hangs:
  assumes "255 < n"
  shows "iec101_cs_loop buf i n cs = None"
proof -
  have le_unat_255: "m \<le> 255" if "m \<le> unat j" for m and j :: u8
    using that unat_u8_bound [of j] by linarith
  have "n \<le> 255" if "iec101_cs_loop buf i n cs = Some r" for r
    using _ that
    by (rule iec101_cs_loop.raw_induct [where P = "\<lambda>buf i n cs r. n \<le> 255"])
      (auto simp: bind_Some_iff not_less split: if_splits dest: le_unat_255)
  then show ?thesis using assms by (cases "iec101_cs_loop buf i n cs") auto
qed

end
