(* ===== verification/Iec101Slave.thy ===== *)
theory Iec101Slave
  imports Iec101Base
begin

text \<open>
  The serial IEC 101 controlled station, \<open>wow_iot/src/protocol/iec10x/wow_iec101s.c\<close>: frame builders, the handlers of received
  frames, the five state machines and the thread. The master polls: a request for class 1 data only sets \<open>tack\<close>, and
  the state machines send what they have to say when they find it set.

  Received bytes are collected in the byte array of \<open>ByteArray\<close>, whose data area is the memory that the handlers read. The
  application behind the callbacks is modelled as in \<open>Iec104Slave\<close>. A list of nodes is here a list of runs, each a list. \<open>None\<close> is undefined
  behaviour or a loop that does not end.

  One overrun decides how far histories reach, and depends on the compiler: the handlers clear sixteen bytes at a local structure of
  eight. \<open>s_pad\<close> is the number of bytes behind that structure which the compiler leaves unused in the frame of the
  function. With eight of them the overrun does nothing; with fewer it is undefined. C itself promises none.
\<close>

section \<open>State\<close>

record ('s, 'p, 'd) iec101s_t =
  s_addr :: u16
  s_stat :: Iec10xState_T
  s_time :: Iec10xTime_T
  s_set_cb :: "('p \<Rightarrow> DevNodeInfo_T \<Rightarrow> DevValue_U \<Rightarrow> 'd \<Rightarrow> 'd) option"
  s_get_cb :: "('p \<Rightarrow> DevNodeInfo_T \<Rightarrow> 'd \<Rightarrow> int \<times> DevValue_U \<times> 'd) option"
  s_serv_cb :: "('p \<Rightarrow> Ie10xServeice_E \<Rightarrow> 'd \<Rightarrow> 'd) option"
  s_set_priv :: 'p
  s_get_priv :: 'p
  s_serv_priv :: 'p
  s_yx_list :: "DevNodeInfo_T list list"
  s_yc_n_list :: "DevNodeInfo_T list list"
  s_yc_f_list :: "DevNodeInfo_T list list"
  s_ym_list :: "DevNodeInfo_T list list"
  s_link_ctx :: "'s ProtoPortCtx"
  s_lnk :: 's
  s_array :: ByteArray_T
  s_tack :: int
  s_yk_bak :: "bytes option"
  s_yt_bak :: "bytes option"
  s_app :: 'd
  s_running :: bool
  s_started :: bool
  s_pad :: nat

type_synonym ('s, 'p, 'd) iec101_result = "(int \<times> ('s, 'p, 'd) iec101s_t) option"

definition iec101_s_write :: "('s, 'p, 'd) iec101s_t \<Rightarrow> bytes \<Rightarrow> ('s, 'p, 'd) iec101_result" where
  "iec101_s_write s msg = do { (_, l) \<leftarrow> link_send (s_link_ctx s) (s_lnk s) msg; Some (0, s\<lparr>s_lnk := l\<rparr>) }"

section \<open>Fixed frames\<close>

definition iec101_s_stable :: "('s, 'p, 'd) iec101s_t \<Rightarrow> nat \<Rightarrow> nat \<Rightarrow> ('s, 'p, 'd) iec101_result" where
  "iec101_s_stable s acd func =
     (let head = [IEC101_STABLE_BEGING, iec101_ctrl_up func IEC101_CTRL_DFC_CAN_REC acd IEC101_CTRL_PRM_SLAVE IEC101_CTRL_DIR_UP] @
        le_bytes 2 (unat (s_addr s))
      in iec101_s_write s (head @ [head ! 1 + head ! 2 + head ! 3, IEC101_STABLE_END]))"

definition iec101_s_build_link_status_ack :: "('s, 'p, 'd) iec101s_t \<Rightarrow> ('s, 'p, 'd) iec101_result" where
  "iec101_s_build_link_status_ack s = iec101_s_stable s IEC101_CTRL_ACD_NONE_DATA IEC101_CTRL_RES_LINK_STATUS"

definition iec101_s_build_request_confirm :: "('s, 'p, 'd) iec101s_t \<Rightarrow> ('s, 'p, 'd) iec101_result" where
  "iec101_s_build_request_confirm s = iec101_s_stable s IEC101_CTRL_ACD_NONE_DATA IEC101_CTRL_CONFIRM_ACK"

definition iec101_s_build_request_user_nack :: "('s, 'p, 'd) iec101s_t \<Rightarrow> ('s, 'p, 'd) iec101_result" where
  "iec101_s_build_request_user_nack s = iec101_s_stable s IEC101_CTRL_ACD_NONE_DATA IEC101_CTRL_RES_USR_DATA_NACK"

definition iec101_s_build_request_user_ack :: "('s, 'p, 'd) iec101s_t \<Rightarrow> ('s, 'p, 'd) iec101_result" where
  "iec101_s_build_request_user_ack s = iec101_s_stable s IEC101_CTRL_ACD_WITH_DATA IEC101_CTRL_CONFIRM_ACK"

section \<open>Variable frames\<close>

text \<open>The 256-byte buffer up to the common address. The bit fields take the low bits of what is assigned to them.\<close>

definition iec101_s_begin ::
  "('s, 'p, 'd) iec101s_t \<Rightarrow> nat \<Rightarrow> nat \<Rightarrow> nat \<Rightarrow> nat \<Rightarrow> nat \<Rightarrow> bytes" where
  "iec101_s_begin s acd type sq num reason =
     [IEC101_VARIABLE_BEGING, 0, 0, IEC101_VARIABLE_BEGING,
      iec101_ctrl_up IEC101_CTRL_RES_USR_DATA_ACK IEC101_CTRL_DFC_CAN_REC acd IEC101_CTRL_PRM_SLAVE IEC101_CTRL_DIR_UP] @
     le_bytes 2 (unat (s_addr s)) @ [lo8 type, lo8 (num mod 128 + 128 * sq), lo8 (reason mod 64)] @
     le_bytes 2 (unat (s_addr s)) @ replicate (IEC101_MAX_BUF_LEN - 12) 0"

definition iec101_s_finish :: "('s, 'p, 'd) iec101s_t \<Rightarrow> bytes \<Rightarrow> nat \<Rightarrow> ('s, 'p, 'd) iec101_result" where
  "iec101_s_finish s buf l = do { msg \<leftarrow> iec101_end buf l; iec101_s_write s msg }"

text \<open>\<open>if(get_val_cb) { get_val_cb(priv, node, &val); ... }\<close>: \<open>None\<close> is no callback.\<close>

definition iec101_s_get :: "('s, 'p, 'd) iec101s_t \<Rightarrow> DevNodeInfo_T \<Rightarrow> DevValue_U option \<times> ('s, 'p, 'd) iec101s_t" where
  "iec101_s_get s node =
     (case s_get_cb s of
        None \<Rightarrow> (None, s)
      | Some cb \<Rightarrow> (let (_, v, d) = cb (s_get_priv s) node (s_app s) in (Some v, s\<lparr>s_app := d\<rparr>)))"

definition put_value :: "DevValue_U option \<Rightarrow> nat \<Rightarrow> bytes \<Rightarrow> nat \<Rightarrow> bytes option" where
  "put_value v w buf ptr = (case v of None \<Rightarrow> Some buf | Some v \<Rightarrow> wrn buf ptr (le_bytes w (unat v)))"

text \<open>The loops over the nodes; an inner \<open>None\<close> is the early \<open>return -1\<close>.\<close>

type_synonym ('s, 'p, 'd) iec101_fill = "(('s, 'p, 'd) iec101s_t \<times> (bytes \<times> nat) option) option"

fun iec101_s_yx_fill ::
  "DevNodeInfo_T list \<Rightarrow> nat \<Rightarrow> nat \<Rightarrow> ('s, 'p, 'd) iec101s_t \<Rightarrow> bytes \<Rightarrow> nat \<Rightarrow> ('s, 'p, 'd) iec101_fill" where
  "iec101_s_yx_fill nodes i 0 s buf ptr = Some (s, Some (buf, ptr))"
| "iec101_s_yx_fill nodes i (Suc n) s buf ptr =
     (case slist_peek_by_index nodes i of
        None \<Rightarrow> Some (s, None)
      | Some node \<Rightarrow> do {
          let (v, s) = iec101_s_get s node;
          buf \<leftarrow> put_value v 1 buf ptr;
          iec101_s_yx_fill nodes (i + 1) n s buf (ptr + 1)
        })"

fun iec101_s_yc_fill ::
  "DevNodeInfo_T list \<Rightarrow> nat \<Rightarrow> nat \<Rightarrow> ('s, 'p, 'd) iec101s_t \<Rightarrow> bytes \<Rightarrow> nat \<Rightarrow> ('s, 'p, 'd) iec101_fill" where
  "iec101_s_yc_fill nodes i 0 s buf ptr = Some (s, Some (buf, ptr))"
| "iec101_s_yc_fill nodes i (Suc n) s buf ptr =
     (case slist_peek_by_index nodes i of
        None \<Rightarrow> Some (s, None)
      | Some node \<Rightarrow> do {
          let w = (if node_type node = DATA_FLOAT then 4 else 2);
          let (v, s) = iec101_s_get s node;
          buf \<leftarrow> put_value v w buf ptr;
          buf \<leftarrow> wr buf (ptr + w) 0;
          iec101_s_yc_fill nodes (i + 1) n s buf (ptr + w + 1)
        })"

fun iec101_s_ym_fill ::
  "DevNodeInfo_T list \<Rightarrow> nat \<Rightarrow> nat \<Rightarrow> ('s, 'p, 'd) iec101s_t \<Rightarrow> bytes \<Rightarrow> nat \<Rightarrow> ('s, 'p, 'd) iec101_fill" where
  "iec101_s_ym_fill nodes i 0 s buf ptr = Some (s, Some (buf, ptr))"
| "iec101_s_ym_fill nodes i (Suc n) s buf ptr =
     (case slist_peek_by_index nodes i of
        None \<Rightarrow> Some (s, None)
      | Some node \<Rightarrow> do {
          let (v, s) = iec101_s_get s node;
          buf \<leftarrow> put_value v 4 buf ptr;
          buf \<leftarrow> wr buf (ptr + 4) (word_of_nat i);
          iec101_s_ym_fill nodes (i + 1) n s buf (ptr + 5)
        })"

definition iec101_s_report ::
  "(DevNodeInfo_T list \<Rightarrow> nat \<Rightarrow> nat \<Rightarrow> ('s, 'p, 'd) iec101s_t \<Rightarrow> bytes \<Rightarrow> nat \<Rightarrow> ('s, 'p, 'd) iec101_fill) \<Rightarrow>
   (DevNodeInfo_T \<Rightarrow> nat) \<Rightarrow> ('s, 'p, 'd) iec101s_t \<Rightarrow> nat \<Rightarrow> DevNodeInfo_T list \<Rightarrow> ('s, 'p, 'd) iec101_result" where
  "iec101_s_report fill ty s reason nodes =
     (case slist_peek_by_index nodes 0 of
        None \<Rightarrow> Some (-1, s)
      | Some node \<Rightarrow> do {
          let buf = iec101_s_begin s IEC101_CTRL_ACD_WITH_DATA (ty node) 1 (length nodes) reason;
          buf \<leftarrow> wrn buf 12 (le_bytes 2 (unat (node_addr node)));
          (s, r) \<leftarrow> fill nodes 0 (length nodes mod 128) s buf 14;
          case r of None \<Rightarrow> Some (-1, s) | Some (buf, ptr) \<Rightarrow> iec101_s_finish s buf (ptr + 2)
        })"

definition iec101_s_build_yx ::
  "('s, 'p, 'd) iec101s_t \<Rightarrow> nat \<Rightarrow> DevNodeInfo_T list \<Rightarrow> ('s, 'p, 'd) iec101_result" where
  "iec101_s_build_yx = iec101_s_report iec101_s_yx_fill (\<lambda>_. IEC10X_M_SP_NA_1)"

definition iec101_s_build_yc ::
  "('s, 'p, 'd) iec101s_t \<Rightarrow> nat \<Rightarrow> DevNodeInfo_T list \<Rightarrow> ('s, 'p, 'd) iec101_result" where
  "iec101_s_build_yc = iec101_s_report iec101_s_yc_fill
     (\<lambda>node. if node_type node = DATA_FLOAT then IEC10X_M_ME_NC_1 else IEC10X_M_ME_NA_1)"

definition iec101_s_build_ym ::
  "('s, 'p, 'd) iec101s_t \<Rightarrow> nat \<Rightarrow> DevNodeInfo_T list \<Rightarrow> ('s, 'p, 'd) iec101_result" where
  "iec101_s_build_ym = iec101_s_report iec101_s_ym_fill (\<lambda>_. IEC10X_M_IT_NA_1)"

definition iec101_s_build_call_ack :: "('s, 'p, 'd) iec101s_t \<Rightarrow> ('s, 'p, 'd) iec101_result" where
  "iec101_s_build_call_ack s =
     do {
       let buf = iec101_s_begin s IEC101_CTRL_ACD_WITH_DATA IEC10X_C_IC_NA_1 0 1 IEC10X_COT_ACTCON;
       buf \<leftarrow> wrn buf 12 (le_bytes 2 0);
       buf \<leftarrow> wr buf 14 (word_of_nat IEC10X_COT_INTROGEN);
       iec101_s_finish s buf (IEC101_VARIABLE_LEN + 1)
     }"

definition iec101_s_build_call_finsh :: "('s, 'p, 'd) iec101s_t \<Rightarrow> u8 \<Rightarrow> ('s, 'p, 'd) iec101_result" where
  "iec101_s_build_call_finsh s qoi =
     do {
       let buf = iec101_s_begin s IEC101_CTRL_ACD_NONE_DATA IEC10X_C_IC_NA_1 0 1 IEC10X_COT_ACTTERM;
       buf \<leftarrow> wrn buf 12 (le_bytes 2 0);
       buf \<leftarrow> wr buf 14 qoi;
       iec101_s_finish s buf (IEC101_VARIABLE_LEN + 1)
     }"

text \<open>The acknowledgement of a command copies the ASDU kept in \<open>back\<close>; the length is computed from its number of objects alone.\<close>

definition iec101_s_build_cmd_ack ::
  "(('s, 'p, 'd) iec101s_t \<Rightarrow> bytes option) \<Rightarrow> ('s, 'p, 'd) iec101s_t \<Rightarrow> nat \<Rightarrow> ('s, 'p, 'd) iec101_result" where
  "iec101_s_build_cmd_ack bak s reason =
     do {
       let buf = take 7 (iec101_s_begin s IEC101_CTRL_ACD_WITH_DATA 0 0 0 0) @ replicate (IEC101_MAX_BUF_LEN - 7) 0;
       asdu \<leftarrow> bak s;
       buf \<leftarrow> wrn buf 7 asdu;
       r \<leftarrow> rd buf 9;
       buf \<leftarrow> wr buf 9 ((r AND 0xC0) OR word_of_nat (reason mod 64));
       num \<leftarrow> rd buf 8;
       iec101_s_finish s buf (IEC101_VARIABLE_LEN + unat num mod 128)
     }"

definition iec101_s_build_yt_ack :: "('s, 'p, 'd) iec101s_t \<Rightarrow> nat \<Rightarrow> ('s, 'p, 'd) iec101_result" where
  "iec101_s_build_yt_ack = iec101_s_build_cmd_ack s_yt_bak"

definition iec101_s_build_yk_ack :: "('s, 'p, 'd) iec101s_t \<Rightarrow> nat \<Rightarrow> ('s, 'p, 'd) iec101_result" where
  "iec101_s_build_yk_ack = iec101_s_build_cmd_ack s_yk_bak"

section \<open>Commands\<close>

definition iec101_s_set :: "('s, 'p, 'd) iec101s_t \<Rightarrow> DevNodeInfo_T \<Rightarrow> DevValue_U \<Rightarrow> ('s, 'p, 'd) iec101s_t" where
  "iec101_s_set s node v =
     (case s_set_cb s of None \<Rightarrow> s | Some cb \<Rightarrow> s\<lparr>s_app := cb (s_set_priv s) node v (s_app s)\<rparr>)"

definition iec101_s_serve :: "('s, 'p, 'd) iec101s_t \<Rightarrow> Ie10xServeice_E \<Rightarrow> ('s, 'p, 'd) iec101s_t" where
  "iec101_s_serve s ev =
     (case s_serv_cb s of None \<Rightarrow> s | Some cb \<Rightarrow> s\<lparr>s_app := cb (s_serv_priv s) ev (s_app s)\<rparr>)"

definition s_set_yk :: "Iec10xStat_E \<Rightarrow> ('s, 'p, 'd) iec101s_t \<Rightarrow> ('s, 'p, 'd) iec101s_t" where
  "s_set_yk st s = s\<lparr>s_stat := (s_stat s)\<lparr>st_yk := st\<rparr>\<rparr>"

definition s_set_yt :: "Iec10xStat_E \<Rightarrow> ('s, 'p, 'd) iec101s_t \<Rightarrow> ('s, 'p, 'd) iec101s_t" where
  "s_set_yt st s = s\<lparr>s_stat := (s_stat s)\<lparr>st_yt := st\<rparr>\<rparr>"

definition s_set_callall :: "Iec10xStat_E \<Rightarrow> ('s, 'p, 'd) iec101s_t \<Rightarrow> ('s, 'p, 'd) iec101s_t" where
  "s_set_callall st s = s\<lparr>s_stat := (s_stat s)\<lparr>st_callall := st\<rparr>\<rparr>"

definition s_set_callpulse :: "Iec10xStat_E \<Rightarrow> ('s, 'p, 'd) iec101s_t \<Rightarrow> ('s, 'p, 'd) iec101s_t" where
  "s_set_callpulse st s = s\<lparr>s_stat := (s_stat s)\<lparr>st_callpulse := st\<rparr>\<rparr>"

definition s_set_init :: "Iec10xStat_E \<Rightarrow> ('s, 'p, 'd) iec101s_t \<Rightarrow> ('s, 'p, 'd) iec101s_t" where
  "s_set_init st s = s\<lparr>s_stat := (s_stat s)\<lparr>st_init := st\<rparr>\<rparr>"

lemmas s_set_defs = s_set_yk_def s_set_yt_def s_set_callall_def s_set_callpulse_def s_set_init_def

text \<open>The fields of the ASDU of a received variable frame.\<close>

definition iec101_asdu_type :: "bytes \<Rightarrow> nat option" where
  "iec101_asdu_type buf = map_option unat (rd buf 7)"

definition iec101_asdu_num :: "bytes \<Rightarrow> nat option" where
  "iec101_asdu_num buf = map_option (\<lambda>b. unat b mod 128) (rd buf 8)"

definition iec101_asdu_sq :: "bytes \<Rightarrow> nat option" where
  "iec101_asdu_sq buf = map_option (\<lambda>b. unat b div 128) (rd buf 8)"

definition iec101_asdu_reason :: "bytes \<Rightarrow> nat option" where
  "iec101_asdu_reason buf = map_option (\<lambda>b. unat b mod 64) (rd buf 9)"

definition iec101_info_addr :: "bytes \<Rightarrow> nat \<Rightarrow> nat option" where
  "iec101_info_addr buf ptr = map_option le_val (rdn buf ptr 2)"

lemmas iec101_fields = iec101_asdu_type_def iec101_asdu_num_def iec101_asdu_sq_def iec101_asdu_reason_def iec101_info_addr_def

text \<open>\<open>memset(&node, 0, sizeof(DevNodeVal_T))\<close> on the local \<open>DevNodeInfo_T node\<close>, whatever it contains, with \<open>pad\<close> unused bytes
  behind it.\<close>

definition iec101_node_memset :: "nat \<Rightarrow> bytes option" where
  "iec101_node_memset pad = mem_clear (replicate (sizeof_DevNodeInfo_T + pad) 0) 0 sizeof_DevNodeVal_T"

lemma node_memset_undefined: "iec101_node_memset pad = None \<longleftrightarrow> pad < 8"
  by (auto simp: iec101_node_memset_def mem_clear_def wrn_def sizeof_DevNodeInfo_T_def sizeof_DevNodeVal_T_def)

text \<open>\<open>val.val.s16 = (float)x\<close>: a conversion towards zero of the number with the given bits, undefined when it does not fit.\<close>

definition float_to_s16 :: "u32 \<Rightarrow> u16 option" where
  "float_to_s16 x =
     (let e = unat x div 2 ^ 23 mod 256;
          f = unat x mod 2 ^ 23 + (if e = 0 then 0 else 2 ^ 23);
          n = int (if e \<ge> 150 then f * 2 ^ (e - 150) else f div 2 ^ (150 - max e 1));
          v = (if bit x 31 then - n else n)
      in if e = 255 \<or> v < - (2 ^ 15) \<or> v \<ge> 2 ^ 15 then None else Some (word_of_int v))"

text \<open>The set-point loops: \<open>w\<close> is the width of the value and \<open>conv\<close> what is stored of it. A qualifier with the select bit leaves the
  loop (\<open>goto out\<close>); the flag of the result says whether the loop came to its end.\<close>

fun iec101_s_yt_sq ::
  "bytes \<Rightarrow> nat \<Rightarrow> DevDataType_E \<Rightarrow> nat \<Rightarrow> nat \<Rightarrow> nat \<Rightarrow> nat \<Rightarrow> ('s, 'p, 'd) iec101s_t \<Rightarrow> (bool \<times> ('s, 'p, 'd) iec101s_t) option" where
  "iec101_s_yt_sq rbuf w ty addr ptr i 0 s = Some (True, s)"
| "iec101_s_yt_sq rbuf w ty addr ptr i (Suc n) s =
     do {
       v \<leftarrow> map_option le_val (rdn rbuf ptr w);
       qds \<leftarrow> rd rbuf (ptr + w);
       let node = \<lparr>node_mode = DEV_TYPE_YT, node_addr = word_of_nat (addr + i), node_type = ty\<rparr>;
       if qds AND 0x80 \<noteq> 0 then Some (False, s)
       else iec101_s_yt_sq rbuf w ty addr (ptr + w + 1) (i + 1) n (iec101_s_set s node (word_of_nat v))
     }"

fun iec101_s_yt_single ::
  "bytes \<Rightarrow> nat \<Rightarrow> (nat \<Rightarrow> DevValue_U option) \<Rightarrow> DevDataType_E \<Rightarrow> nat \<Rightarrow> nat \<Rightarrow> ('s, 'p, 'd) iec101s_t \<Rightarrow> (bool \<times> ('s, 'p, 'd) iec101s_t) option" where
  "iec101_s_yt_single rbuf w conv ty ptr 0 s = Some (True, s)"
| "iec101_s_yt_single rbuf w conv ty ptr (Suc n) s =
     do {
       addr \<leftarrow> iec101_info_addr rbuf ptr;
       v \<leftarrow> map_option le_val (rdn rbuf (ptr + 2) w);
       v \<leftarrow> conv v;
       qds \<leftarrow> rd rbuf (ptr + 2 + w);
       let node = \<lparr>node_mode = DEV_TYPE_YT, node_addr = word_of_nat addr, node_type = ty\<rparr>;
       if qds AND 0x80 \<noteq> 0 then Some (False, s)
       else iec101_s_yt_single rbuf w conv ty (ptr + 2 + w + 1) n (iec101_s_set s node v)
     }"

text \<open>\<open>bak = malloc(size); memcpy(bak, Iec10x_Asdu, size)\<close> with \<open>size = len - 8\<close> in a \<open>uint16_t\<close>; \<open>heap\<close> answers the allocation. The former
  copy is leaked.\<close>

definition iec101_backup :: "(nat \<Rightarrow> bool) \<Rightarrow> bytes \<Rightarrow> nat \<Rightarrow> bytes option" where
  "iec101_backup heap rbuf len =
     (let n = nat ((int len - 8) mod 65536) in if n > 0 \<and> \<not> heap n then None else rdn rbuf 7 n)"

definition iec101_s_asdu_yt ::
  "(nat \<Rightarrow> bool) \<Rightarrow> ('s, 'p, 'd) iec101s_t \<Rightarrow> bytes \<Rightarrow> nat \<Rightarrow> ('s, 'p, 'd) iec101_result" where
  "iec101_s_asdu_yt heap s rbuf len =
     do {
       type \<leftarrow> iec101_asdu_type rbuf;
       n \<leftarrow> iec101_asdu_num rbuf;
       sq \<leftarrow> iec101_asdu_sq rbuf;
       reason \<leftarrow> iec101_asdu_reason rbuf;
       let run = (\<lambda>w conv ty.
         if sq = 1 then do {
           addr \<leftarrow> iec101_info_addr rbuf 12;
           _ \<leftarrow> iec101_node_memset (s_pad s);
           iec101_s_yt_sq rbuf w ty addr 14 0 n s
         } else do {
           _ \<leftarrow> iec101_node_memset (s_pad s);
           iec101_s_yt_single rbuf w conv ty 12 n s
         });
       let out = (\<lambda>(ended, s). do {
         let s = (if ended then s_set_yk IEC10X_STA_YK_CMD_EXEC s else s);
         bak \<leftarrow> iec101_backup heap rbuf len;
         Some (0, (s_set_yt IEC10X_STA_YT_CMD_START s)\<lparr>s_yt_bak := Some bak\<rparr>)
       });
       if reason \<noteq> IEC10X_COT_ACT then Some (-1, s)
       else if type = IEC10X_C_SE_NA_1
       then do { r \<leftarrow> run 2 (\<lambda>v. Some (word_of_nat v)) DATA_SINT_16; out r }
       else if type = IEC10X_C_SE_NC_1
       then do { r \<leftarrow> run 4 (\<lambda>v. map_option ucast (float_to_s16 (word_of_nat v))) DATA_FLOAT; out r }
       else Some (-1, iec101_s_serve s IEC10X_YT_CMD_FAILD)
     }"

text \<open>Single and double commands: \<open>msk\<close> is 0x01 and 0x03.\<close>

fun iec101_s_yk_sq ::
  "bytes \<Rightarrow> u8 \<Rightarrow> nat \<Rightarrow> nat \<Rightarrow> nat \<Rightarrow> nat \<Rightarrow> ('s, 'p, 'd) iec101s_t \<Rightarrow> ('s, 'p, 'd) iec101s_t option" where
  "iec101_s_yk_sq rbuf msk addr ptr i 0 s = Some s"
| "iec101_s_yk_sq rbuf msk addr ptr i (Suc n) s =
     do {
       sco \<leftarrow> rd rbuf ptr;
       let node = \<lparr>node_mode = DEV_TYPE_YK, node_addr = word_of_nat (addr + i), node_type = DATA_SINT_8\<rparr>;
       iec101_s_yk_sq rbuf msk addr (ptr + 1) (i + 1) n
         (if sco AND 0x80 \<noteq> 0 then s else iec101_s_set s node (ucast (sco AND msk)))
     }"

fun iec101_s_yk_single ::
  "bytes \<Rightarrow> u8 \<Rightarrow> nat \<Rightarrow> nat \<Rightarrow> ('s, 'p, 'd) iec101s_t \<Rightarrow> ('s, 'p, 'd) iec101s_t option" where
  "iec101_s_yk_single rbuf msk ptr 0 s = Some s"
| "iec101_s_yk_single rbuf msk ptr (Suc n) s =
     do {
       addr \<leftarrow> iec101_info_addr rbuf ptr;
       sco \<leftarrow> rd rbuf (ptr + 2);
       let node = \<lparr>node_mode = DEV_TYPE_YK, node_addr = word_of_nat addr, node_type = DATA_SINT_8\<rparr>;
       iec101_s_yk_single rbuf msk (ptr + 3) n
         (if sco AND 0x80 \<noteq> 0 then s else iec101_s_set s node (ucast (sco AND msk)))
     }"

definition iec101_s_asdu_yk ::
  "(nat \<Rightarrow> bool) \<Rightarrow> ('s, 'p, 'd) iec101s_t \<Rightarrow> bytes \<Rightarrow> nat \<Rightarrow> ('s, 'p, 'd) iec101_result" where
  "iec101_s_asdu_yk heap s rbuf len =
     do {
       type \<leftarrow> iec101_asdu_type rbuf;
       n \<leftarrow> iec101_asdu_num rbuf;
       sq \<leftarrow> iec101_asdu_sq rbuf;
       reason \<leftarrow> iec101_asdu_reason rbuf;
       let run = (\<lambda>msk s.
         if sq = 1 then do {
           addr \<leftarrow> iec101_info_addr rbuf 12;
           s \<leftarrow> iec101_s_yk_sq rbuf msk addr 14 0 n s;
           Some (0, s)
         } else do { s \<leftarrow> iec101_s_yk_single rbuf msk 12 n s; Some (0, s) });
       if reason \<noteq> IEC10X_COT_ACT then Some (-1, s)
       else do {
         sco \<leftarrow> rd rbuf 14;
         if sco AND 0x80 \<noteq> 0
         then do {
           bak \<leftarrow> iec101_backup heap rbuf len;
           Some (0, (s_set_yk IEC10X_STA_YK_CMD_START s)\<lparr>s_yk_bak := Some bak\<rparr>)
         }
         else do {
           let s = s_set_yk IEC10X_STA_YK_CMD_EXEC s;
           if type = IEC10X_C_SC_NA_1 then do { _ \<leftarrow> iec101_node_memset (s_pad s); run 0x01 s }
           else if type = IEC10X_C_DC_NA_1 then run 0x03 s
           else Some (-1, iec101_s_serve s IEC10X_YK_CMD_FAILD)
         }
       }
     }"

definition iec101_s_asdu_call_all :: "('s, 'p, 'd) iec101s_t \<Rightarrow> bytes \<Rightarrow> ('s, 'p, 'd) iec101_result" where
  "iec101_s_asdu_call_all s rbuf =
     do {
       qoi \<leftarrow> rd rbuf 14;
       addr \<leftarrow> iec101_info_addr rbuf 12;
       reason \<leftarrow> iec101_asdu_reason rbuf;
       if addr \<noteq> 0 then Some (-1, s)
       else if reason \<noteq> IEC10X_COT_ACT then Some (-1, s)
       else if unat qoi = IEC10X_COT_INTROGEN then Some (0, s_set_callall IEC10X_STA_CALL_ALL_START s)
       else if unat qoi = IEC10X_COT_INTRO1 \<or> unat qoi = IEC10X_COT_INTRO2 then Some (0, s)
       else Some (-1, s)
     }"

text \<open>The counter interrogation sets \<open>callall\<close>, not \<open>callpulse\<close>.\<close>

definition iec101_s_asdu_call_pulse :: "('s, 'p, 'd) iec101s_t \<Rightarrow> bytes \<Rightarrow> ('s, 'p, 'd) iec101_result" where
  "iec101_s_asdu_call_pulse s rbuf =
     do {
       qcc \<leftarrow> rd rbuf 14;
       addr \<leftarrow> iec101_info_addr rbuf 12;
       reason \<leftarrow> iec101_asdu_reason rbuf;
       if addr \<noteq> 0 then Some (-1, s)
       else if reason \<noteq> IEC10X_COT_ACT then Some (-1, s)
       else if unat qcc = IEC10X_COT_REQCOGEN then Some (0, s_set_callall IEC10X_STA_CALL_PULSE_START s)
       else if unat qcc = IEC10X_COT_REQCO1 \<or> unat qcc = IEC10X_COT_REQCO2 then Some (0, s)
       else Some (-1, s)
     }"

definition iec101_s_asdu_clock :: "('s, 'p, 'd) iec101s_t \<Rightarrow> ('s, 'p, 'd) iec101_result" where
  "iec101_s_asdu_clock s = do { (_, s) \<leftarrow> iec101_s_build_request_confirm s; Some (0, s) }"

section \<open>Received frames\<close>

definition iec101_s_deal_10 :: "('s, 'p, 'd) iec101s_t \<Rightarrow> bytes \<Rightarrow> nat \<Rightarrow> ('s, 'p, 'd) iec101_result" where
  "iec101_s_deal_10 s buf len =
     do {
       cs_temp \<leftarrow> iec101_cs_loop buf 1 (len - 2) 0;
       cs \<leftarrow> rd buf 4;
       fin \<leftarrow> rd buf 5;
       ctrl \<leftarrow> rd buf 1;
       let cfun = iec101_ctrl_func ctrl;
       if cs \<noteq> cs_temp then Some (-1, s)
       else if fin \<noteq> 0x16 then Some (-1, s)
       else if iec101_ctrl_prm ctrl = IEC101_CTRL_PRM_MASTER
       then if cfun = IEC101_CTRL_RESET_LINK then do { (_, s) \<leftarrow> iec101_s_build_request_confirm s; Some (0, s) }
         else if cfun = IEC101_CTRL_REQ_LINK_STATUS
         then do { (_, s) \<leftarrow> iec101_s_build_link_status_ack s; Some (0, s_set_init IEC10X_STA_LINK_CONNECT_OK s) }
         else if cfun = IEC101_CTRL_REQ_USR_DATA_1 then Some (0, s\<lparr>s_tack := 1\<rparr>)
         else if cfun = IEC101_CTRL_REQ_USR_DATA_2 then do { (_, s) \<leftarrow> iec101_s_build_request_user_nack s; Some (0, s) }
         else Some (0, s)
       else Some (0, s)
     }"

text \<open>A counter interrogation falls through to the next case.\<close>

definition iec101_s_deal_68 ::
  "(nat \<Rightarrow> bool) \<Rightarrow> ('s, 'p, 'd) iec101s_t \<Rightarrow> bytes \<Rightarrow> nat \<Rightarrow> ('s, 'p, 'd) iec101_result" where
  "iec101_s_deal_68 heap s buf len =
     do {
       cs_temp \<leftarrow> iec101_cs_loop buf 4 (len - 2) 0;
       cs \<leftarrow> rd buf (len - 2);
       fin \<leftarrow> rd buf (len - 1);
       flen \<leftarrow> rd buf 1;
       flen_cfm \<leftarrow> rd buf 2;
       if cs \<noteq> cs_temp then Some (-1, s)
       else if fin \<noteq> IEC101_VARIABLE_END then Some (-1, s)
       else if unat flen + 6 \<noteq> len then Some (-1, s)
       else if flen \<noteq> flen_cfm then Some (-1, s)
       else do {
         ctrl \<leftarrow> rd buf 4;
         let cfun = iec101_ctrl_func ctrl;
         type \<leftarrow> iec101_asdu_type buf;
         if cfun = IEC101_CTRL_SEND_USR_DATA_ACK
         then if type = IEC10X_C_IC_NA_1 then do { (_, s) \<leftarrow> iec101_s_asdu_call_all s buf; Some (0, s) }
           else if type = IEC10X_C_CI_NA_1
           then do {
             (_, s) \<leftarrow> iec101_s_asdu_call_pulse s buf;
             (_, s) \<leftarrow> iec101_s_build_request_confirm s;
             Some (0, s)
           }
           else if type = IEC10X_C_CD_NA_1 then do { (_, s) \<leftarrow> iec101_s_build_request_confirm s; Some (0, s) }
           else if type = IEC10X_C_SC_NA_1 \<or> type = IEC10X_C_DC_NA_1
           then do { (_, s) \<leftarrow> iec101_s_asdu_yk heap s buf len; Some (0, s) }
           else if type = IEC10X_C_SE_NA_1 \<or> type = IEC10X_C_SE_NC_1
           then do { (_, s) \<leftarrow> iec101_s_asdu_yt heap s buf len; Some (0, s) }
           else Some (0, s)
         else if cfun = IEC101_CTRL_RES_USR_DATA_ACK
         then if type = IEC10X_C_CS_NA_1 then do { (_, s) \<leftarrow> iec101_s_asdu_clock s; Some (0, s) } else Some (0, s)
         else Some (0, s)
       }
     }"

end
