(* ===== verification/Iec101Machine.thy ===== *)
theory Iec101Machine
  imports Iec101Slave
begin

text \<open>
  The serial IEC 101 controlled station, second part of \<open>wow_iec101s.c\<close>: the state machines of the link, the interrogations and
  the commands, the search for frames in the received bytes, the thread and the API. The clock readings \<open>wow_time_get_msec\<close> of one round are
  a function \<open>t\<close> of the position of the call.
\<close>

section \<open>State machines\<close>

definition iec101_s_reset_param :: "('s, 'p, 'd) iec101s_t \<Rightarrow> ('s, 'p, 'd) iec101s_t" where
  "iec101_s_reset_param s =
     s\<lparr>s_tack := 0,
       s_stat := \<lparr>st_init = IEC10X_STA_LINK_INIT, st_callall = IEC10X_STA_CALL_ALL_IDLE,
         st_callpulse = IEC10X_STA_CALL_PULSE_IDLE, st_yt = IEC10X_STA_YT_CMD_IDLE,
         st_yk = IEC10X_STA_YK_CMD_IDLE, st_test = IE10X_STA_TESTER_START\<rparr>\<rparr>"

definition iec101_s_state_machine_work :: "('s, 'p, 'd) iec101s_t \<Rightarrow> ('s, 'p, 'd) iec101s_t option" where
  "iec101_s_state_machine_work s =
     (case st_init (s_stat s) of
        IEC10X_STA_LINK_INIT \<Rightarrow> Some (s_set_init IEC10X_STA_LINK_OPEN (iec101_s_reset_param s))
      | IEC10X_STA_LINK_OPEN \<Rightarrow> Some (s_set_init IEC10X_STA_LINK_CONNECT s)
      | IEC10X_STA_LINK_CONNECT_OK \<Rightarrow> Some (iec101_s_serve (s_set_init IEC10X_STA_LINK_IDLE s) IEC10X_CONNECTED)
      | IEC10X_STA_LINK_DISCONNECT \<Rightarrow>
          do {
            l \<leftarrow> link_close (s_link_ctx s) (s_lnk s);
            Some (iec101_s_serve (s_set_init IEC10X_STA_LINK_INIT (s\<lparr>s_lnk := l\<rparr>)) IEC10X_DISCONNECTED)
          }
      | IEC10X_STA_LINK_CLOSE \<Rightarrow> Some (s_set_init IEC10X_STA_LINK_INIT s)
      | _ \<Rightarrow> Some s)"

text \<open>\<open>for(i = 0; i < size; i++) build(list[i])\<close>; what the builder returns is ignored.\<close>

fun iec101_s_send_runs ::
  "('r \<Rightarrow> ('s, 'p, 'd) iec101s_t \<Rightarrow> ('s, 'p, 'd) iec101_result) \<Rightarrow> 'r list \<Rightarrow> ('s, 'p, 'd) iec101s_t \<Rightarrow> ('s, 'p, 'd) iec101s_t option" where
  "iec101_s_send_runs build [] s = Some s"
| "iec101_s_send_runs build (r # rs) s = do { (_, s) \<leftarrow> build r s; iec101_s_send_runs build rs s }"

text \<open>Empty runs are not reported.\<close>

lemma send_empty_runs: "\<forall>r \<in> set runs. r = [] \<Longrightarrow> iec101_s_send_runs (\<lambda>r s. iec101_s_build_yx s q r) runs s = Some s"
  by (induction runs) (simp_all add: iec101_s_build_yx_def iec101_s_report_def slist_peek_by_index_def)

definition callall_timeout :: "int \<Rightarrow> ('s, 'p, 'd) iec101s_t \<Rightarrow> ('s, 'p, 'd) iec101s_t" where
  "callall_timeout t s =
     (if t - tm_callall (s_time s) > IEC10X_CALL_ALL_TIMEOUT then s_set_callall IEC10X_STA_CALL_ALL_FAILD s else s)"

definition iec101_s_state_machine_callall :: "int \<Rightarrow> ('s, 'p, 'd) iec101s_t \<Rightarrow> ('s, 'p, 'd) iec101s_t option" where
  "iec101_s_state_machine_callall t s =
     (case st_callall (s_stat s) of
        IEC10X_STA_CALL_ALL_START \<Rightarrow>
          do {
            let s = s\<lparr>s_time := (s_time s)\<lparr>tm_callall := t\<rparr>\<rparr>;
            (_, s) \<leftarrow> iec101_s_build_request_user_ack s;
            Some (s_set_callall IEC10X_STA_CALL_ALL_CONFIRM s)
          }
      | IEC10X_STA_CALL_ALL_CONFIRM \<Rightarrow>
          do {
            s \<leftarrow> (if s_tack s = 1
              then do {
                (_, s) \<leftarrow> iec101_s_build_call_ack s;
                Some (s_set_callall IEC10X_STA_CALL_ALL_YX (s\<lparr>s_tack := 0\<rparr>))
              }
              else Some s);
            Some (callall_timeout t s)
          }
      | IEC10X_STA_CALL_ALL_YX \<Rightarrow>
          do {
            s \<leftarrow> (if s_tack s = 1
              then do {
                s \<leftarrow> iec101_s_send_runs (\<lambda>r s. iec101_s_build_yx s IEC10X_COT_INTROGEN r) (s_yx_list s) s;
                Some ((s_set_callall IEC10X_STA_CALL_ALL_YC s)\<lparr>s_tack := 0\<rparr>)
              }
              else Some s);
            Some (callall_timeout t s)
          }
      | IEC10X_STA_CALL_ALL_YC \<Rightarrow>
          do {
            s \<leftarrow> (if s_tack s = 1
              then do {
                s \<leftarrow> iec101_s_send_runs (\<lambda>r s. iec101_s_build_yc s IEC10X_COT_INTROGEN r) (s_yc_n_list s) s;
                s \<leftarrow> iec101_s_send_runs (\<lambda>r s. iec101_s_build_yc s IEC10X_COT_INTROGEN r) (s_yc_f_list s) s;
                Some ((s_set_callall IEC10X_STA_CALL_ALL_SUCCESS s)\<lparr>s_tack := 0\<rparr>)
              }
              else Some s);
            Some (callall_timeout t s)
          }
      | IEC10X_STA_CALL_ALL_SUCCESS \<Rightarrow>
          (if s_tack s = 1
           then do {
             (_, s) \<leftarrow> iec101_s_build_call_finsh s (word_of_nat IEC10X_COT_INTROGEN);
             Some (s_set_callall IEC10X_STA_CALL_ALL_IDLE ((iec101_s_serve s IEC10X_CALL_ALL_SUCCESS)\<lparr>s_tack := 0\<rparr>))
           }
           else Some s)
      | IEC10X_STA_CALL_ALL_FAILD \<Rightarrow>
          Some (s_set_callall IEC10X_STA_CALL_ALL_IDLE (iec101_s_serve s IEC10X_CALL_ALL_FAILD))
      | _ \<Rightarrow> Some s)"

definition iec101_s_state_machine_callpulse :: "int \<Rightarrow> ('s, 'p, 'd) iec101s_t \<Rightarrow> ('s, 'p, 'd) iec101s_t option" where
  "iec101_s_state_machine_callpulse t s =
     (case st_callpulse (s_stat s) of
        IEC10X_STA_CALL_PULSE_START \<Rightarrow>
          do {
            let s = s\<lparr>s_time := (s_time s)\<lparr>tm_callpulse := t\<rparr>\<rparr>;
            (_, s) \<leftarrow> iec101_s_build_request_user_ack s;
            Some (s_set_callpulse IEC10X_STA_CALL_PULSE_CONFIRM s)
          }
      | IEC10X_STA_CALL_PULSE_CONFIRM \<Rightarrow>
          do {
            s \<leftarrow> (if s_tack s = 1
              then do {
                (_, s) \<leftarrow> iec101_s_build_call_ack s;
                Some (s_set_callpulse IEC10X_STA_CALL_PULSE_YM (s\<lparr>s_tack := 0\<rparr>))
              }
              else Some s);
            Some (if t - tm_callpulse (s_time s) > IEC10X_CALL_ALL_TIMEOUT
                  then s_set_callpulse IEC10X_STA_CALL_PULSE_IDLE s else s)
          }
      | IEC10X_STA_CALL_PULSE_YM \<Rightarrow>
          do {
            s \<leftarrow> (if s_tack s = 1
              then do {
                s \<leftarrow> iec101_s_send_runs (\<lambda>r s. iec101_s_build_ym s IEC10X_COT_REQCOGEN r) (s_ym_list s) s;
                Some ((s_set_callpulse IEC10X_STA_CALL_PULSE_SUCCESS s)\<lparr>s_tack := 0\<rparr>)
              }
              else Some s);
            Some (if t - tm_callpulse (s_time s) > IEC10X_CALL_ALL_TIMEOUT
                  then s_set_callall IEC10X_STA_CALL_PULSE_IDLE s else s)
          }
      | IEC10X_STA_CALL_PULSE_SUCCESS \<Rightarrow>
          (if s_tack s = 1
           then do {
             (_, s) \<leftarrow> iec101_s_build_call_finsh s (word_of_nat IEC10X_COT_INTROGEN);
             Some (s_set_callpulse IEC10X_STA_CALL_PULSE_IDLE ((iec101_s_serve s IEC10X_CALL_PULSE_SUCCESS)\<lparr>s_tack := 0\<rparr>))
           }
           else Some s)
      | _ \<Rightarrow> Some s)"

definition yt_timeout :: "int \<Rightarrow> ('s, 'p, 'd) iec101s_t \<Rightarrow> ('s, 'p, 'd) iec101s_t" where
  "yt_timeout t s = (if t - tm_yt (s_time s) > IEC10X_YT_CMD_TIMEOUT then s_set_yt IEC10X_STA_YT_CMD_FAILD s else s)"

definition iec101_s_state_machine_yt :: "int \<Rightarrow> int \<Rightarrow> ('s, 'p, 'd) iec101s_t \<Rightarrow> ('s, 'p, 'd) iec101s_t option" where
  "iec101_s_state_machine_yt t t' s =
     (case st_yt (s_stat s) of
        IEC10X_STA_YT_CMD_START \<Rightarrow>
          do {
            let s = s\<lparr>s_time := (s_time s)\<lparr>tm_yt := t\<rparr>\<rparr>;
            (_, s) \<leftarrow> iec101_s_build_request_user_ack s;
            Some (yt_timeout t' (s_set_yt IEC10X_STA_YT_CMD_CONFIRM s))
          }
      | IEC10X_STA_YT_CMD_CONFIRM \<Rightarrow>
          do {
            s \<leftarrow> (if s_tack s = 1
              then do { (_, s) \<leftarrow> iec101_s_build_yt_ack s IEC10X_COT_ACTCON; Some (s\<lparr>s_tack := 0\<rparr>) }
              else Some s);
            Some (yt_timeout t s)
          }
      | IEC10X_STA_YT_CMD_EXEC \<Rightarrow>
          do {
            (_, s) \<leftarrow> iec101_s_build_request_user_ack s;
            Some (yt_timeout t ((s_set_yt IEC10X_STA_YT_CMD_SUCCESS s)\<lparr>s_tack := 0\<rparr>))
          }
      | IEC10X_STA_YT_CMD_SUCCESS \<Rightarrow>
          do {
            s \<leftarrow> (if s_tack s = 1
              then do {
                (_, s) \<leftarrow> iec101_s_build_yt_ack s IEC10X_COT_ACTTERM;
                Some ((iec101_s_serve s IEC10X_YT_CMD_SUCCESS)\<lparr>s_tack := 0\<rparr>)
              }
              else Some s);
            Some (s_set_yt IEC10X_STA_YT_CMD_IDLE s)
          }
      | IEC10X_STA_YT_CMD_FAILD \<Rightarrow>
          Some (s_set_yt IEC10X_STA_YT_CMD_IDLE (iec101_s_serve s IEC10X_YT_CMD_FAILD))
      | _ \<Rightarrow> Some s)"

definition yk_timeout :: "int \<Rightarrow> ('s, 'p, 'd) iec101s_t \<Rightarrow> ('s, 'p, 'd) iec101s_t" where
  "yk_timeout t s = (if t - tm_yk (s_time s) > IEC10X_YK_CMD_TIMEOUT then s_set_yk IEC10X_STA_YK_CMD_FAILD s else s)"

text \<open>In \<open>IEC10X_STA_YK_CMD_EXEC\<close> the code assigns the next state to \<open>yt\<close>.\<close>

definition iec101_s_state_machine_yk :: "int \<Rightarrow> int \<Rightarrow> ('s, 'p, 'd) iec101s_t \<Rightarrow> ('s, 'p, 'd) iec101s_t option" where
  "iec101_s_state_machine_yk t t' s =
     (case st_yk (s_stat s) of
        IEC10X_STA_YK_CMD_START \<Rightarrow>
          do {
            let s = s\<lparr>s_time := (s_time s)\<lparr>tm_yk := t\<rparr>\<rparr>;
            (_, s) \<leftarrow> iec101_s_build_request_user_ack s;
            Some (yk_timeout t' (s_set_yk IEC10X_STA_YK_CMD_CONFIRM s))
          }
      | IEC10X_STA_YK_CMD_CONFIRM \<Rightarrow>
          do {
            s \<leftarrow> (if s_tack s = 1
              then do { (_, s) \<leftarrow> iec101_s_build_yk_ack s IEC10X_COT_ACTCON; Some (s\<lparr>s_tack := 0\<rparr>) }
              else Some s);
            Some (yk_timeout t s)
          }
      | IEC10X_STA_YK_CMD_EXEC \<Rightarrow>
          do {
            (_, s) \<leftarrow> iec101_s_build_request_user_ack s;
            Some (yk_timeout t ((s_set_yt IEC10X_STA_YK_CMD_SUCCESS s)\<lparr>s_tack := 0\<rparr>))
          }
      | IEC10X_STA_YK_CMD_SUCCESS \<Rightarrow>
          do {
            s \<leftarrow> (if s_tack s = 1
              then do {
                (_, s) \<leftarrow> iec101_s_build_yk_ack s IEC10X_COT_ACTTERM;
                Some ((iec101_s_serve (s\<lparr>s_yk_bak := None\<rparr>) IEC10X_YK_CMD_SUCCESS)\<lparr>s_tack := 0\<rparr>)
              }
              else Some s);
            Some (s_set_yk IEC10X_STA_YK_CMD_IDLE s)
          }
      | IEC10X_STA_YK_CMD_FAILD \<Rightarrow>
          Some (s_set_yk IEC10X_STA_YK_CMD_IDLE (iec101_s_serve (s\<lparr>s_yk_bak := None\<rparr>) IEC10X_YK_CMD_FAILD))
      | _ \<Rightarrow> Some s)"

definition iec101_s_state_machine :: "(nat \<Rightarrow> int) \<Rightarrow> ('s, 'p, 'd) iec101s_t \<Rightarrow> ('s, 'p, 'd) iec101s_t option" where
  "iec101_s_state_machine t s =
     do {
       s \<leftarrow> iec101_s_state_machine_work s;
       if st_init (s_stat s) \<noteq> IEC10X_STA_LINK_IDLE then Some s
       else do {
         s \<leftarrow> iec101_s_state_machine_callall (t 0) s;
         s \<leftarrow> iec101_s_state_machine_callpulse (t 1) s;
         s \<leftarrow> iec101_s_state_machine_yt (t 2) (t 3) s;
         iec101_s_state_machine_yk (t 4) (t 5) s
       }
     }"

section \<open>Frames in the received bytes\<close>

definition iec101_s_drop :: "nat \<Rightarrow> ('s, 'p, 'd) iec101s_t \<Rightarrow> ('s, 'p, 'd) iec101s_t option" where
  "iec101_s_drop n s = do { (_, a) \<leftarrow> wow_byte_array_remove 0 n (s_array s); Some (s\<lparr>s_array := a\<rparr>) }"

text \<open>The two labels \<open>exec_68\<close> and \<open>exec_10\<close>.\<close>

definition iec101_s_exec_68 :: "(nat \<Rightarrow> bool) \<Rightarrow> nat \<Rightarrow> ('s, 'p, 'd) iec101s_t \<Rightarrow> ('s, 'p, 'd) iec101s_t option" where
  "iec101_s_exec_68 heap index_68 s =
     do {
       s \<leftarrow> iec101_s_drop index_68 s;
       let sz = wow_byte_array_size (Some (s_array s));
       if \<not> sz \<ge> int IEC101_STABLE_LEN then Some s
       else do {
         let data = ba_data (s_array s);
         tlen \<leftarrow> map_option unat (rd data 1);
         if \<not> sz \<ge> int (tlen + IEC101_STABLE_LEN) then Some s
         else do {
           e \<leftarrow> rd data (tlen + IEC101_STABLE_LEN - 1);
           if e = IEC101_VARIABLE_END
           then do {
             (_, s) \<leftarrow> iec101_s_deal_68 heap s data (tlen + IEC101_STABLE_LEN);
             iec101_s_drop (tlen + IEC101_STABLE_LEN) s
           }
           else iec101_s_drop 1 s
         }
       }
     }"

definition iec101_s_exec_10 :: "nat \<Rightarrow> ('s, 'p, 'd) iec101s_t \<Rightarrow> ('s, 'p, 'd) iec101s_t option" where
  "iec101_s_exec_10 index_10 s =
     do {
       s \<leftarrow> iec101_s_drop index_10 s;
       if \<not> wow_byte_array_size (Some (s_array s)) \<ge> int IEC101_STABLE_LEN then Some s
       else do {
         let data = ba_data (s_array s);
         e \<leftarrow> rd data (IEC101_STABLE_LEN - 1);
         if e = IEC101_VARIABLE_END
         then do { (_, s) \<leftarrow> iec101_s_deal_10 s data IEC101_STABLE_LEN; iec101_s_drop IEC101_STABLE_LEN s }
         else iec101_s_drop 1 s
       }
     }"

definition iec101_s_frame_parse :: "(nat \<Rightarrow> bool) \<Rightarrow> ('s, 'p, 'd) iec101s_t \<Rightarrow> ('s, 'p, 'd) iec101s_t option" where
  "iec101_s_frame_parse heap s =
     do {
       index_10 \<leftarrow> wow_byte_array_find IEC101_STABLE_BEGING (s_array s);
       index_68 \<leftarrow> wow_byte_array_find IEC101_VARIABLE_BEGING (s_array s);
       if \<not> (index_10 \<ge> 0 \<or> index_68 \<ge> 0) then Some s
       else if index_10 < 0 \<and> index_68 \<ge> 0 then iec101_s_exec_68 heap (nat index_68) s
       else if index_10 \<ge> 0 \<and> index_68 < 0 then iec101_s_exec_10 (nat index_10) s
       else if index_10 < index_68 then iec101_s_exec_10 (nat index_10) s
       else iec101_s_exec_68 heap (nat index_68) s
     }"

section \<open>The thread\<close>

text \<open>One round; \<open>rbuf\<close> is \<open>recv_buf[1500]\<close>, and the length of a read is cut to the \<open>uint8_t\<close> of
  \<open>wow_byte_array_append_ndata\<close>.\<close>

definition iec101_s_exec_round ::
  "(nat \<Rightarrow> bool) \<Rightarrow> (nat \<Rightarrow> int) \<Rightarrow> bytes \<times> ('s, 'p, 'd) iec101s_t \<Rightarrow> (bytes \<times> ('s, 'p, 'd) iec101s_t) option" where
  "iec101_s_exec_round heap t st =
     (case st of (rbuf, s) \<Rightarrow>
      do {
        (rlen, d, l) \<leftarrow> link_recv (s_link_ctx s) (s_lnk s) 1500;
        rbuf \<leftarrow> wrn rbuf 0 d;
        let s = s\<lparr>s_lnk := l\<rparr>;
        s \<leftarrow> (if rlen > 0
          then do {
            (_, a) \<leftarrow> wow_byte_array_append_ndata heap (Some rbuf) (word_of_int rlen) (s_array s);
            Some (s\<lparr>s_array := a\<rparr>)
          }
          else Some s);
        s \<leftarrow> iec101_s_frame_parse heap s;
        s \<leftarrow> iec101_s_state_machine t s;
        Some (rbuf, s)
      })"

fun iec101_s_exec_thread ::
  "(nat \<Rightarrow> bool) \<Rightarrow> (nat \<Rightarrow> int) list \<Rightarrow> bytes \<times> ('s, 'p, 'd) iec101s_t \<Rightarrow> (bytes \<times> ('s, 'p, 'd) iec101s_t) option" where
  "iec101_s_exec_thread heap [] st = Some st"
| "iec101_s_exec_thread heap (t # ts) st =
     (if s_running (snd st) then do { st \<leftarrow> iec101_s_exec_round heap t st; iec101_s_exec_thread heap ts st } else Some st)"

end
