(* ===== verification/Iec101Frames.thy ===== *)
theory Iec101Frames
  imports Iec101Base Port Iec104Report
begin

text \<open>
  The frames of serial IEC 101 as byte lists, what the code reads of a frame in its byte array, and how both stations take a frame from the line: the locale
  \<open>serial_receiver\<close> is the search for a frame in the received bytes, \<open>serial_thread\<close> a round of the thread around it. Each station interprets them.
\<close>

section \<open>The frames of the standard\<close>

definition frame10 :: "u8 \<Rightarrow> nat \<Rightarrow> bytes" where
  "frame10 c addr = [0x10, c] @ le_bytes 2 addr @ [sum_list (c # le_bytes 2 addr), 0x16]"

definition frame68 :: "bytes \<Rightarrow> bytes" where
  "frame68 body = [0x68, lo8 (length body), lo8 (length body), 0x68] @ body @ [sum_list body, 0x16]"

text \<open>The body of a variable frame: control field, link address, type, number, reason, common address, objects.\<close>

definition body68 :: "u8 \<Rightarrow> nat \<Rightarrow> nat \<Rightarrow> nat \<Rightarrow> nat \<Rightarrow> nat \<Rightarrow> bytes \<Rightarrow> bytes" where
  "body68 c laddr type num reason caddr obj =
     [c] @ le_bytes 2 laddr @ [lo8 type, lo8 num, lo8 reason] @ le_bytes 2 caddr @ obj"

lemma length_frame68 [simp]: "length (frame68 body) = length body + 6"
  by (simp add: frame68_def)

lemma length_body68 [simp]: "length (body68 c laddr type num reason caddr obj) = 8 + length obj"
  by (simp add: body68_def)

lemma length_frame10 [simp]: "length (frame10 c addr) = 6"
  by (simp add: frame10_def)

lemma wrn_behind:
  "length xs \<le> k \<Longrightarrow> n = length pre \<Longrightarrow> wrn (pre @ replicate k 0) n xs = Some (pre @ xs @ replicate (k - length xs) 0)"
  by (simp add: wrn_def)

lemma wr_mid: "i = length pre \<Longrightarrow> wr (pre @ y # post) i x = Some (pre @ x # post)"
  by (simp add: wr_def)

lemma le_bytes_two: "le_bytes 2 n = [lo8 n, lo8 (n div 256)]"
  by (simp add: le_bytes_numeral le_bytes_Suc numeral_2_eq_2)

lemma end_frame:
  assumes "length body \<le> 249" and "2 \<le> k" and "l = length body + 6"
  shows "iec101_end ([0x68, 0, 0, 0x68] @ body @ replicate k 0) l = Some (frame68 body)"
proof -
  obtain k' where k: "k = Suc (Suc k')" using assms(2) by (metis add_2_eq_Suc le_Suc_ex)
  let ?h = "[0x68, lo8 (length body), lo8 (length body), 0x68] :: bytes"
  have l: "l mod 256 = length body + 6" using assms(1,3) by simp
  have w: "(word_of_nat (length body + 6) - 6 :: u8) = lo8 (length body)" by (simp add: lo8_def)
  have e: "length body + 6 - 2 = length body + 4" "length body + 6 - 1 = length body + 5" "(length body + 6 < 2) = False"
    by simp_all
  have cs: "iec101_cs (?h @ body @ replicate k 0) 4 (length body + 4) = sum_list body"
    by (simp add: iec101_cs_def)
  have "wr (?h @ body @ 0 # 0 # replicate k' 0) (length body + 4) x = Some (?h @ body @ x # 0 # replicate k' 0)" for x
    using wr_mid [of "length body + 4" "?h @ body"] by simp
  moreover have "wr (?h @ body @ x # 0 # replicate k' 0) (length body + 5) y = Some (?h @ body @ x # y # replicate k' 0)" for x y
    using wr_mid [of "length body + 5" "?h @ body @ [x]"] by simp
  moreover have "rdn (?h @ body @ x # y # replicate k' 0) 0 (length body + 6) = Some (?h @ body @ [x, y])" for x y
    by (simp add: rdn_def numeral_eq_Suc)
  moreover have "wr ([0x68, 0, 0, 0x68] @ b) 2 x = Some ([0x68, 0, x, 0x68] @ b)"
    "wr ([0x68, 0, x, 0x68] @ b) 1 x = Some ([0x68, x, x, 0x68] @ b)" for b :: bytes and x
    by (simp_all add: wr_def numeral_2_eq_2)
  ultimately show ?thesis
    using cs
    by (simp only: iec101_end_def Let_def l w k e iec101_bytes replicate_Suc bind.bind_lunit if_False frame68_def)
qed

section \<open>Reading a frame\<close>

lemma array_size: "ba_wf a \<Longrightarrow> length (ba_bytes a) < 2 ^ 31 \<Longrightarrow> wow_byte_array_size (Some a) = int (length (ba_bytes a))"
  by (simp add: wow_byte_array_size_def size_simps)

lemma array_data: "ba_wf a \<Longrightarrow> i < length (ba_bytes a) \<Longrightarrow> rd (ba_data a) i = Some (ba_bytes a ! i)"
  by (simp add: rd_def ba_wf_def ba_bytes_def)

lemma array_block: "ba_wf a \<Longrightarrow> i + n \<le> length (ba_bytes a) \<Longrightarrow> rdn (ba_data a) i n = Some (take n (drop i (ba_bytes a)))"
  by (auto simp: rdn_def ba_wf_def ba_bytes_def drop_take min_def split: if_splits)

lemma take_data: "ba_wf a \<Longrightarrow> take (length (ba_bytes a)) (ba_data a) = ba_bytes a"
  by (simp add: ba_wf_def ba_bytes_def)

text \<open>The checks of the two handlers on a well-formed frame, and what they read of it.\<close>

lemma frame68_nth:
  "i < length body \<Longrightarrow> frame68 body ! (i + 4) = body ! i" "frame68 body ! (length body + 4) = sum_list body"
  "frame68 body ! (length body + 5) = 0x16"
  by (simp_all add: frame68_def nth_append)

lemma frame68_reads:
  assumes "ba_wf a" and "ba_bytes a = frame68 body" and "length body \<le> 251"
  shows "iec101_cs_loop (ba_data a) 4 (length body + 4) 0 = Some (sum_list body)"
    and "rd (ba_data a) (length body + 4) = Some (sum_list body)"
    and "rd (ba_data a) (length body + 5) = Some 0x16"
    and "rd (ba_data a) 1 = Some (lo8 (length body))"
    and "rd (ba_data a) 2 = Some (lo8 (length body))"
    and "i < length body \<Longrightarrow> rd (ba_data a) (i + 4) = Some (body ! i)"
    and "i + n \<le> length body \<Longrightarrow> rdn (ba_data a) (i + 4) n = Some (take n (drop i body))"
proof -
  have len: "length (ba_bytes a) = length body + 6" by (simp add: assms(2))
  have "take (length body + 6) (ba_data a) = frame68 body" using take_data [OF assms(1)] len assms(2) by simp
  then have d: "ba_data a = frame68 body @ drop (length body + 6) (ba_data a)" by (metis append_take_drop_id)
  have "iec101_cs (ba_data a) 4 (length body + 4) = sum_list body"
    by (subst d) (simp add: iec101_cs_def frame68_def)
  moreover have "length body + 4 \<le> length (ba_data a)" by (subst d) simp
  ultimately show "iec101_cs_loop (ba_data a) 4 (length body + 4) 0 = Some (sum_list body)"
    using iec101_cs_loop_sum [of "length body + 4" "ba_data a" 4 0] assms(3) by simp
  show "rd (ba_data a) (length body + 4) = Some (sum_list body)" "rd (ba_data a) (length body + 5) = Some 0x16"
    using array_data [OF assms(1)] assms(2) by (simp_all add: frame68_nth)
  show "rd (ba_data a) 1 = Some (lo8 (length body))" "rd (ba_data a) 2 = Some (lo8 (length body))"
    using array_data [OF assms(1), of 1] array_data [OF assms(1), of 2] assms(2) by (simp_all add: frame68_def)
  show "rd (ba_data a) (i + 4) = Some (body ! i)" if "i < length body"
    using array_data [OF assms(1), of "i + 4"] assms(2) that by (simp add: frame68_nth)
  show "rdn (ba_data a) (i + 4) n = Some (take n (drop i body))" if "i + n \<le> length body"
    using array_block [OF assms(1), of "i + 4" n] assms(2) that by (simp add: frame68_def flip: drop_drop)
qed

lemma frame10_reads:
  assumes "ba_wf a" and "ba_bytes a = frame10 c la"
  shows "iec101_cs_loop (ba_data a) 1 4 0 = Some (sum_list (c # le_bytes 2 la))"
    and "rd (ba_data a) 4 = Some (sum_list (c # le_bytes 2 la))"
    and "rd (ba_data a) 5 = Some 0x16" and "rd (ba_data a) 1 = Some c"
proof -
  have "take 6 (ba_data a) = frame10 c la" using take_data [OF assms(1)] assms(2) by simp
  then have d: "ba_data a = frame10 c la @ drop 6 (ba_data a)" by (metis append_take_drop_id)
  have "iec101_cs (ba_data a) 1 4 = sum_list (c # le_bytes 2 la)"
    by (subst d) (simp add: iec101_cs_def frame10_def le_bytes_two)
  moreover have "4 \<le> length (ba_data a)" by (subst d) simp
  ultimately show "iec101_cs_loop (ba_data a) 1 4 0 = Some (sum_list (c # le_bytes 2 la))"
    using iec101_cs_loop_sum [of 4 "ba_data a" 1 0] by simp
  show "rd (ba_data a) 4 = Some (sum_list (c # le_bytes 2 la))" "rd (ba_data a) 5 = Some 0x16" "rd (ba_data a) 1 = Some c"
    using array_data [OF assms(1), of 4] array_data [OF assms(1), of 5] array_data [OF assms(1), of 1] assms(2)
    by (simp_all add: frame10_def le_bytes_two)
qed

section \<open>Taking a frame from the line\<close>

text \<open>What the two stations have in common: a byte array in the state, a handler for either kind of frame, and the search with its two labels.\<close>

locale serial_receiver =
  fixes arr :: "'st \<Rightarrow> ByteArray_T" and put :: "ByteArray_T \<Rightarrow> 'st \<Rightarrow> 'st"
    and deal_68 :: "(nat \<Rightarrow> bool) \<Rightarrow> 'st \<Rightarrow> bytes \<Rightarrow> nat \<Rightarrow> (int \<times> 'st) option"
    and deal_10 :: "'st \<Rightarrow> bytes \<Rightarrow> nat \<Rightarrow> (int \<times> 'st) option"
    and drop_bytes :: "nat \<Rightarrow> 'st \<Rightarrow> 'st option"
    and search_68 :: "(nat \<Rightarrow> bool) \<Rightarrow> nat \<Rightarrow> 'st \<Rightarrow> 'st option" and search_10 :: "nat \<Rightarrow> 'st \<Rightarrow> 'st option"
    and parse_frame :: "(nat \<Rightarrow> bool) \<Rightarrow> 'st \<Rightarrow> 'st option"
  assumes arr_put: "arr (put a s) = a" and put_put: "put a (put b s) = put a s"
    and drop_bytes: "drop_bytes n s = do { (_, a) \<leftarrow> wow_byte_array_remove 0 n (arr s); Some (put a s) }"
    and exec_68: "search_68 heap i s =
      do {
        s \<leftarrow> drop_bytes i s;
        let sz = wow_byte_array_size (Some (arr s));
        if \<not> sz \<ge> int IEC101_STABLE_LEN then Some s
        else do {
          let data = ba_data (arr s);
          tlen \<leftarrow> map_option unat (rd data 1);
          if \<not> sz \<ge> int (tlen + IEC101_STABLE_LEN) then Some s
          else do {
            e \<leftarrow> rd data (tlen + IEC101_STABLE_LEN - 1);
            if e = IEC101_VARIABLE_END
            then do { (_, s) \<leftarrow> deal_68 heap s data (tlen + IEC101_STABLE_LEN); drop_bytes (tlen + IEC101_STABLE_LEN) s }
            else drop_bytes 1 s
          }
        }
      }"
    and exec_10: "search_10 i s =
      do {
        s \<leftarrow> drop_bytes i s;
        if \<not> wow_byte_array_size (Some (arr s)) \<ge> int IEC101_STABLE_LEN then Some s
        else do {
          let data = ba_data (arr s);
          e \<leftarrow> rd data (IEC101_STABLE_LEN - 1);
          if e = IEC101_VARIABLE_END
          then do { (_, s) \<leftarrow> deal_10 s data IEC101_STABLE_LEN; drop_bytes IEC101_STABLE_LEN s }
          else drop_bytes 1 s
        }
      }"
    and parse: "parse_frame heap s =
      do {
        index_10 \<leftarrow> wow_byte_array_find IEC101_STABLE_BEGING (arr s);
        index_68 \<leftarrow> wow_byte_array_find IEC101_VARIABLE_BEGING (arr s);
        if \<not> (index_10 \<ge> 0 \<or> index_68 \<ge> 0) then Some s
        else if index_10 < 0 \<and> index_68 \<ge> 0 then search_68 heap (nat index_68) s
        else if index_10 \<ge> 0 \<and> index_68 < 0 then search_10 (nat index_10) s
        else if index_10 < index_68 then search_10 (nat index_10) s
        else search_68 heap (nat index_68) s
      }"
begin

lemma drop_front:
  assumes "ba_wf (arr s)" and "ba_bytes (arr s) \<noteq> []" and "length (ba_bytes (arr s)) < 2 ^ 64" and "n < 2 ^ 64"
  shows "\<exists>a. drop_bytes n s = Some (put a s) \<and> ba_wf a \<and> ba_bytes a = drop n (ba_bytes (arr s))"
proof -
  have "0 < ba_size (arr s)" using assms by (metis length_ba_bytes length_greater_0_conv)
  from remove_front_bytes [OF assms(1) this, of n] assms(1,3,4) show ?thesis by (auto simp: drop_bytes)
qed

lemma find_front:
  assumes "ba_wf (arr s)" and "length (ba_bytes (arr s)) < 2 ^ 31"
  shows "wow_byte_array_find x (arr s) =
     Some (if x \<in> set (ba_bytes (arr s)) then int (length (takeWhile (\<lambda>y. y \<noteq> x) (ba_bytes (arr s)))) else - BYTE_ARRAY_NOT_FIND)"
  using find_bytes [OF assms(1), of x] assms by simp

text \<open>A whole frame in front goes to its handler and is removed.\<close>

lemma parse_68:
  assumes "ba_wf (arr s)" and "ba_bytes (arr s) = c" and "c ! 0 = 0x68" and "length c = unat (c ! 1) + 6"
    and "last c = 0x16"
  shows "\<exists>a. ba_wf a \<and> ba_bytes a = c \<and> parse_frame heap s =
    do { (_, s') \<leftarrow> deal_68 heap (put a s) (ba_data a) (length c); drop_bytes (length c) s' }"
proof -
  have ne: "c \<noteq> []" using assms(4) by auto
  then have hd: "hd c = 0x68" using assms(3) by (simp add: hd_conv_nth)
  have c: "length c \<le> 261" using unat_u8_bound [of "c ! 1"] assms(4) by linarith
  obtain a where a: "drop_bytes 0 s = Some (put a s)" "ba_wf a" "ba_bytes a = c"
    using drop_front [of s 0] assms(1,2) ne c by auto
  have find: "wow_byte_array_find x (arr s) =
      Some (if x \<in> set c then int (length (takeWhile (\<lambda>y. y \<noteq> x) c)) else - BYTE_ARRAY_NOT_FIND)" for x
    using find_front [OF assms(1), of x] assms(2) c by simp
  have sz: "wow_byte_array_size (Some a) = int (length c)" using array_size [of a] a c by simp
  have r: "rd (ba_data a) 1 = Some (c ! 1)" "rd (ba_data a) (5 + unat (c ! 1)) = Some 0x16"
    using array_data [of a 1] array_data [of a "5 + unat (c ! 1)"] a assms(4,5) ne by (simp_all add: last_conv_nth)
  have "search_68 heap 0 s =
      do { (_, s') \<leftarrow> deal_68 heap (put a s) (ba_data a) (length c); drop_bytes (length c) s' }"
    using a(1) sz r assms(4) by (simp add: exec_68 arr_put iec101_lens iec101_bytes Let_def)
  moreover have "parse_frame heap s = search_68 heap 0 s"
  proof (cases "0x10 \<in> set c")
    case True
    have "wow_byte_array_find 0x68 (arr s) = Some 0"
      using find [of "0x68"] ne hd by (cases c) auto
    moreover have "wow_byte_array_find 0x10 (arr s) = Some (int (length (takeWhile (\<lambda>y. y \<noteq> 0x10) c)))"
      using find [of "0x10"] True by auto
    ultimately show ?thesis by (simp add: parse iec101_bytes)
  next
    case False
    have "wow_byte_array_find 0x68 (arr s) = Some 0"
      using find [of "0x68"] ne hd by (cases c) auto
    moreover have "wow_byte_array_find 0x10 (arr s) = Some (- BYTE_ARRAY_NOT_FIND)"
      using find [of "0x10"] False by auto
    ultimately show ?thesis by (simp add: parse iec101_bytes BYTE_ARRAY_NOT_FIND_def)
  qed
  ultimately show ?thesis using a(2,3) by auto
qed

lemma parse_10:
  assumes "ba_wf (arr s)" and "ba_bytes (arr s) = c" and "c ! 0 = 0x10" and "length c = 6" and "c ! 5 = 0x16"
  shows "\<exists>a. ba_wf a \<and> ba_bytes a = c \<and> parse_frame heap s =
    do { (_, s') \<leftarrow> deal_10 (put a s) (ba_data a) 6; drop_bytes 6 s' }"
proof -
  have ne: "c \<noteq> []" using assms(4) by auto
  then have hd: "hd c = 0x10" using assms(3) by (simp add: hd_conv_nth)
  obtain a where a: "drop_bytes 0 s = Some (put a s)" "ba_wf a" "ba_bytes a = c"
    using drop_front [of s 0] assms(1,2,4) ne by auto
  have find: "wow_byte_array_find x (arr s) =
      Some (if x \<in> set c then int (length (takeWhile (\<lambda>y. y \<noteq> x) c)) else - BYTE_ARRAY_NOT_FIND)" for x
    using find_front [OF assms(1), of x] assms(2,4) by simp
  have sz: "wow_byte_array_size (Some a) = 6" using array_size [of a] a assms(4) by simp
  have r: "rd (ba_data a) 5 = Some 0x16"
    using array_data [of a 5] a assms(4,5) by simp
  have "search_10 0 s =
      do { (_, s') \<leftarrow> deal_10 (put a s) (ba_data a) 6; drop_bytes 6 s' }"
    using a(1) sz r by (simp add: exec_10 arr_put iec101_lens iec101_bytes Let_def)
  moreover have f10: "wow_byte_array_find 0x10 (arr s) = Some 0"
    using find [of "0x10"] ne hd by (cases c) auto
  moreover have "parse_frame heap s = search_10 0 s"
  proof (cases "0x68 \<in> set c")
    case True
    have "0 < length (takeWhile (\<lambda>y. y \<noteq> 0x68) c)" using ne hd by (cases c) auto
    moreover have "wow_byte_array_find 0x68 (arr s) = Some (int (length (takeWhile (\<lambda>y. y \<noteq> 0x68) c)))"
      using find [of "0x68"] True by auto
    ultimately show ?thesis using f10 by (simp add: parse iec101_bytes)
  next
    case False
    then have "wow_byte_array_find 0x68 (arr s) = Some (- BYTE_ARRAY_NOT_FIND)"
      using find [of "0x68"] by auto
    then show ?thesis using f10 by (simp add: parse iec101_bytes BYTE_ARRAY_NOT_FIND_def)
  qed
  ultimately show ?thesis using a(2,3) by auto
qed



text \<open>A handler that leaves the array alone consumes its frame.\<close>

lemma consume_68:
  assumes "ba_wf (arr s)" and "ba_bytes (arr s) = frame68 body" and "length body \<le> 251"
    and "\<And>a. ba_wf a \<Longrightarrow> ba_bytes a = frame68 body \<Longrightarrow>
      \<exists>r. deal_68 heap (put a s) (ba_data a) (length body + 6) = Some (r, put a s') "
  shows "\<exists>a. ba_wf a \<and> ba_bytes a = [] \<and> parse_frame heap s = Some (put a s')"
proof -
  let ?c = "frame68 body"
  have h: "?c ! 0 = 0x68" "length ?c = unat (?c ! 1) + 6" "last ?c = 0x16"
    using assms(3) by (simp_all add: frame68_def byte_simps)
  obtain a where a: "ba_wf a" "ba_bytes a = ?c" "parse_frame heap s =
      do { (_, s') \<leftarrow> deal_68 heap (put a s) (ba_data a) (length ?c); drop_bytes (length ?c) s' }"
    using parse_68 [OF assms(1,2) h, of heap] by auto
  moreover obtain a' where "drop_bytes (length ?c) (put a s') = Some (put a' (put a s'))" "ba_wf a'" "ba_bytes a' = []"
    using drop_front [of "put a s'" "length ?c"] a(1,2) assms(3) by (auto simp: arr_put frame68_def)
  ultimately show ?thesis using assms(4) [of a] by (intro exI [of _ a']) (auto simp: put_put)
qed

lemma consume_10:
  assumes "ba_wf (arr s)" and "ba_bytes (arr s) = frame10 c la"
    and "\<And>a. ba_wf a \<Longrightarrow> ba_bytes a = frame10 c la \<Longrightarrow> \<exists>r. deal_10 (put a s) (ba_data a) 6 = Some (r, put a s')"
  shows "\<exists>a. ba_wf a \<and> ba_bytes a = [] \<and> parse_frame heap s = Some (put a s')"
proof -
  obtain a where a: "ba_wf a" "ba_bytes a = frame10 c la" "parse_frame heap s =
      do { (_, s') \<leftarrow> deal_10 (put a s) (ba_data a) 6; drop_bytes 6 s' }"
    using parse_10 [OF assms(1,2), of heap] by (auto simp: frame10_def le_bytes_two)
  moreover obtain a' where "drop_bytes 6 (put a s') = Some (put a' (put a s'))" "ba_wf a'" "ba_bytes a' = []"
    using drop_front [of "put a s'" 6] a(1,2) by (auto simp: arr_put frame10_def)
  ultimately show ?thesis using assms(3) [of a] by (intro exI [of _ a']) (auto simp: put_put)
qed

lemma parse_empty:
  assumes "ba_wf (arr s)" and "ba_bytes (arr s) = []"
  shows "parse_frame heap s = Some s"
  using find_front [OF assms(1), of IEC101_STABLE_BEGING] find_front [OF assms(1), of IEC101_VARIABLE_BEGING] assms(2)
  by (simp add: parse BYTE_ARRAY_NOT_FIND_def)

end

text \<open>A round of the thread: read, collect, search, run the state machines.\<close>

definition serial_line :: "proto_port ProtoPortCtx \<Rightarrow> proto_port \<Rightarrow> bool" where
  "serial_line ctx l \<longleftrightarrow> ctx = fst proto_port_uart_init \<and> uart_opened l \<and> 260 \<le> tx_cap l"

locale serial_thread = serial_receiver arr put deal_68 deal_10 drop_bytes search_68 search_10 parse_frame
  for arr :: "'st \<Rightarrow> ByteArray_T" and put deal_68 deal_10 drop_bytes search_68 search_10 parse_frame +
  fixes ctx :: "'st \<Rightarrow> proto_port ProtoPortCtx" and lnk :: "'st \<Rightarrow> proto_port" and put_lnk :: "proto_port \<Rightarrow> 'st \<Rightarrow> 'st"
    and machine :: "(nat \<Rightarrow> int) \<Rightarrow> 'st \<Rightarrow> 'st option"
    and exec_round :: "(nat \<Rightarrow> bool) \<Rightarrow> (nat \<Rightarrow> int) \<Rightarrow> bytes \<times> 'st \<Rightarrow> (bytes \<times> 'st) option"
  assumes arr_lnk: "arr (put_lnk l s) = arr s" and lnk_lnk: "put_lnk (lnk s) s = s"
    and exec_round: "exec_round heap t (rbuf, s) =
      do {
        (rlen, d, l) \<leftarrow> link_recv (ctx s) (lnk s) 1500;
        rbuf \<leftarrow> wrn rbuf 0 d;
        let s = put_lnk l s;
        s \<leftarrow> (if rlen > 0
          then do {
            (_, a) \<leftarrow> wow_byte_array_append_ndata heap (Some rbuf) (word_of_int rlen) (arr s);
            Some (put a s)
          }
          else Some s);
        s \<leftarrow> parse_frame heap s;
        s \<leftarrow> machine t s;
        Some (rbuf, s)
      }"
begin

lemma round_chunk:
  assumes "serial_line (ctx s) (lnk s)" and "ba_wf (arr s)" and "rx (lnk s) = x # cs" and "x \<noteq> []" and "length x \<le> 255"
    and "length rbuf = 1500" and "\<forall>n. heap n"
  shows "\<exists>rbuf' a. length rbuf' = 1500 \<and> ba_wf a \<and> ba_bytes a = ba_bytes (arr s) @ x \<and>
    exec_round heap t (rbuf, s) =
      do {
        s \<leftarrow> parse_frame heap (put a (put_lnk ((lnk s)\<lparr>rx := cs\<rparr>) s));
        s \<leftarrow> machine t s;
        Some (rbuf', s)
      }"
proof -
  have recv: "link_recv (ctx s) (lnk s) 1500 = Some (int (length x), x, (lnk s)\<lparr>rx := cs\<rparr>)"
    using assms(1,3-5) by (simp add: serial_line_def proto_port_uart_init_def uart_link_recv_def os_read_def)
  let ?rbuf = "x @ drop (length x) rbuf"
  have buf: "wrn rbuf 0 x = Some ?rbuf" using assms(5,6) by (simp add: wrn_def)
  have n: "unat (word_of_int (int (length x)) :: u8) = length x"
    using unat_u8_of_int [of "int (length x)"] assms(5) by simp
  obtain a where a: "wow_byte_array_append_ndata heap (Some ?rbuf) (word_of_int (int (length x))) (arr s) = Some (WOW_SUCCESS, a)"
    "ba_wf a" "ba_bytes a = ba_bytes (arr s) @ x"
    using append_ndata_bytes [OF assms(2,7), of "word_of_int (int (length x))" ?rbuf] n by auto
  show ?thesis
    using a recv buf assms(4-6)
    by (intro exI [of _ ?rbuf] exI [of _ a]) (simp add: exec_round arr_lnk)
qed

text \<open>A chunk that is a whole frame, and a silent line.\<close>

lemma round_68:
  assumes "serial_line (ctx s) (lnk s)" and "ba_wf (arr s)" and "ba_bytes (arr s) = []" and "rx (lnk s) = frame68 body # cs"
    and "length body \<le> 249" and "length rbuf = 1500" and "\<forall>n. heap n"
    and "\<And>a. ba_wf a \<Longrightarrow> ba_bytes a = frame68 body \<Longrightarrow>
      \<exists>r. deal_68 heap (put a (put_lnk ((lnk s)\<lparr>rx := cs\<rparr>) s)) (ba_data a) (length body + 6) = Some (r, put a s')"
  shows "\<exists>rbuf' a. length rbuf' = 1500 \<and> ba_wf a \<and> ba_bytes a = [] \<and>
    exec_round heap t (rbuf, s) = do { s \<leftarrow> machine t (put a s'); Some (rbuf', s) }"
proof -
  obtain rbuf' a where r: "length rbuf' = 1500" "ba_wf a" "ba_bytes a = frame68 body" "exec_round heap t (rbuf, s) =
      do { s \<leftarrow> parse_frame heap (put a (put_lnk ((lnk s)\<lparr>rx := cs\<rparr>) s)); s \<leftarrow> machine t s; Some (rbuf', s) }"
    using round_chunk [OF assms(1,2,4) _ _ assms(6,7), of t] assms(3,5) by (auto simp: frame68_def)
  obtain a' where "ba_wf a'" "ba_bytes a' = []" "parse_frame heap (put a (put_lnk ((lnk s)\<lparr>rx := cs\<rparr>) s)) = Some (put a' s')"
    using consume_68 [of "put a (put_lnk ((lnk s)\<lparr>rx := cs\<rparr>) s)" body heap s'] r(2,3) assms(5,8) by (auto simp: arr_put put_put)
  then show ?thesis using r(1,4) by auto
qed

lemma round_10:
  assumes "serial_line (ctx s) (lnk s)" and "ba_wf (arr s)" and "ba_bytes (arr s) = []" and "rx (lnk s) = frame10 c la # cs"
    and "length rbuf = 1500" and "\<forall>n. heap n"
    and "\<And>a. ba_wf a \<Longrightarrow> ba_bytes a = frame10 c la \<Longrightarrow>
      \<exists>r. deal_10 (put a (put_lnk ((lnk s)\<lparr>rx := cs\<rparr>) s)) (ba_data a) 6 = Some (r, put a s')"
  shows "\<exists>rbuf' a. length rbuf' = 1500 \<and> ba_wf a \<and> ba_bytes a = [] \<and>
    exec_round heap t (rbuf, s) = do { s \<leftarrow> machine t (put a s'); Some (rbuf', s) }"
proof -
  obtain rbuf' a where r: "length rbuf' = 1500" "ba_wf a" "ba_bytes a = frame10 c la" "exec_round heap t (rbuf, s) =
      do { s \<leftarrow> parse_frame heap (put a (put_lnk ((lnk s)\<lparr>rx := cs\<rparr>) s)); s \<leftarrow> machine t s; Some (rbuf', s) }"
    using round_chunk [OF assms(1,2,4) _ _ assms(5,6), of t] assms(3) by (auto simp: frame10_def)
  obtain a' where "ba_wf a'" "ba_bytes a' = []" "parse_frame heap (put a (put_lnk ((lnk s)\<lparr>rx := cs\<rparr>) s)) = Some (put a' s')"
    using consume_10 [of "put a (put_lnk ((lnk s)\<lparr>rx := cs\<rparr>) s)" c la s' heap] r(2,3) assms(7) by (auto simp: arr_put put_put)
  then show ?thesis using r(1,4) by auto
qed

lemma round_quiet:
  assumes "serial_line (ctx s) (lnk s)" and "rx (lnk s) = []" and "ba_wf (arr s)" and "ba_bytes (arr s) = []"
  shows "exec_round heap t (rbuf, s) = do { s \<leftarrow> machine t s; Some (rbuf, s) }"
proof -
  have "link_recv (ctx s) (lnk s) 1500 = Some (0, [], lnk s)"
    using assms(1,2) by (simp add: serial_line_def proto_port_uart_init_def uart_link_recv_def os_read_def)
  then show ?thesis using parse_empty [OF assms(3,4), of heap] by (simp add: exec_round wrn_def lnk_lnk)
qed

end

end
