(* ===== verification/Iec101Report.thy ===== *)
theory Iec101Report
  imports Iec101Machine Iec101Frames Iec104Report
begin

text \<open>
  What the serial IEC 101 station sends: the builders are shown to write exactly the frames of the standard. The locale \<open>serial_fill\<close> is the contract of the three loops that write the values of the nodes.
\<close>

text \<open>A report of the station itself, with data waiting or not.\<close>

definition up68 :: "u16 \<Rightarrow> nat \<Rightarrow> nat \<Rightarrow> nat \<Rightarrow> nat \<Rightarrow> bytes \<Rightarrow> bytes" where
  "up68 addr acd type num reason obj =
     frame68 (body68 (if acd = 1 then 0x28 else 0x08) (unat addr) type num reason (unat addr) obj)"

section \<open>The builders\<close>

lemma stable_frame:
  assumes "acd \<le> 1" and "func < 16"
  shows "iec101_s_stable s acd func = iec101_s_write s (frame10 (word_of_nat (func + 32 * acd)) (unat (s_addr s)))"
  using assms
  by (simp add: iec101_s_stable_def frame10_def iec101_ctrl_up_def iec101_ctrls iec101_bytes le_bytes_numeral le_bytes_Suc add.assoc Let_def
      numeral_2_eq_2)

lemma finish_frame:
  assumes "length body \<le> 249" and "2 \<le> k" and "l = length body + 6"
  shows "iec101_s_finish s ([0x68, 0, 0, 0x68] @ body @ replicate k 0) l = iec101_s_write s (frame68 body)"
  by (simp only: iec101_s_finish_def end_frame [OF assms] bind.bind_lunit)

lemma begin_bytes:
  assumes "acd \<le> 1"
  shows "iec101_s_begin s acd type sq num reason =
    [0x68, 0, 0, 0x68] @ body68 (if acd = 1 then 0x28 else 0x08) (unat (s_addr s)) type (num mod 128 + 128 * sq) (reason mod 64)
      (unat (s_addr s)) [] @ replicate 244 0"
  using assms
  by (auto simp: iec101_s_begin_def body68_def iec101_ctrl_up_def iec101_ctrls iec101_bytes iec101_lens le_Suc_eq)

text \<open>Objects written behind the head, then the end of the frame.\<close>

lemma begin_objects:
  assumes "acd \<le> 1" and "length obj \<le> 244"
  shows "wrn (iec101_s_begin s acd type sq num reason) 12 obj =
    Some ([0x68, 0, 0, 0x68] @ body68 (if acd = 1 then 0x28 else 0x08) (unat (s_addr s)) type (num mod 128 + 128 * sq) (reason mod 64)
      (unat (s_addr s)) obj @ replicate (244 - length obj) 0)"
  using wrn_behind [of obj 244 12 "[0x68, 0, 0, 0x68] @ body68 (if acd = 1 then 0x28 else 0x08) (unat (s_addr s)) type
      (num mod 128 + 128 * sq) (reason mod 64) (unat (s_addr s)) []"] assms(2)
  unfolding begin_bytes [OF assms(1)]
  by (simp add: body68_def)

lemma send_objects:
  assumes "acd \<le> 1" and "length obj \<le> 241" and "l = length obj + 14"
  shows "do { buf \<leftarrow> wrn (iec101_s_begin s acd type sq num reason) 12 obj; iec101_s_finish s' buf l } =
    iec101_s_write s' (up68 (s_addr s) acd type (num mod 128 + 128 * sq) (reason mod 64) obj)"
  using assms finish_frame [of "body68 (if acd = 1 then 0x28 else 0x08) (unat (s_addr s)) type (num mod 128 + 128 * sq) (reason mod 64)
      (unat (s_addr s)) obj" "244 - length obj" l s']
  by (simp add: begin_objects up68_def)

lemma call_ack_frame:
  "iec101_s_build_call_ack s = iec101_s_write s (up68 (s_addr s) 1 100 1 7 [0, 0, 20])"
  using send_objects [of 1 "[0, 0, 20]" 17 s 100 0 1 7 s]
  by (simp add: iec101_s_build_call_ack_def wr_as_wrn wrn_wrn_k iec101_ctrls iec10x_types iec10x_cots iec101_lens
      le_bytes_two lo8_def)

lemma call_finsh_frame:
  "iec101_s_build_call_finsh s qoi = iec101_s_write s (up68 (s_addr s) 0 100 1 10 [0, 0, qoi])"
  using send_objects [of 0 "[0, 0, qoi]" 17 s 100 0 1 10 s]
  by (simp add: iec101_s_build_call_finsh_def wr_as_wrn wrn_wrn_k iec101_ctrls iec10x_types iec10x_cots iec101_lens
      le_bytes_two lo8_def)

section \<open>Reports of nodes\<close>

definition yx_enc101 :: "nat \<Rightarrow> DevNodeInfo_T \<Rightarrow> int \<Rightarrow> DevValue_U \<Rightarrow> bytes" where
  "yx_enc101 i node ret v = le_bytes 1 (unat v)"

definition yc_enc101 :: "nat \<Rightarrow> DevNodeInfo_T \<Rightarrow> int \<Rightarrow> DevValue_U \<Rightarrow> bytes" where
  "yc_enc101 i node ret v = le_bytes (if node_type node = DATA_FLOAT then 4 else 2) (unat v) @ [0]"

definition ym_enc101 :: "nat \<Rightarrow> DevNodeInfo_T \<Rightarrow> int \<Rightarrow> DevValue_U \<Rightarrow> bytes" where
  "ym_enc101 i node ret v = le_bytes 4 (unat v) @ [word_of_nat i]"

lemma length_encs101 [simp]:
  "length (yx_enc101 i node ret v) = 1"
  "length (yc_enc101 i node ret v) = (if node_type node = DATA_FLOAT then 5 else 3)"
  "length (ym_enc101 i node ret v) = 5"
  by (simp_all add: yx_enc101_def yc_enc101_def ym_enc101_def)

locale serial_fill =
  fixes enc :: "nat \<Rightarrow> DevNodeInfo_T \<Rightarrow> int \<Rightarrow> DevValue_U \<Rightarrow> bytes"
    and fill :: "DevNodeInfo_T list \<Rightarrow> nat \<Rightarrow> nat \<Rightarrow> ('s, 'p, 'd) iec101s_t \<Rightarrow> bytes \<Rightarrow> nat \<Rightarrow> ('s, 'p, 'd) iec101_fill"
  assumes fill_0: "fill nodes i 0 s buf ptr = Some (s, Some (buf, ptr))"
    and fill_Suc: "i < length nodes \<Longrightarrow> s_get_cb s = Some cb \<Longrightarrow> cb (s_get_priv s) (nodes ! i) (s_app s) = (ret, v, d) \<Longrightarrow>
      fill nodes i (Suc n) s buf ptr =
        do {
          buf \<leftarrow> wrn buf ptr (enc i (nodes ! i) ret v);
          fill nodes (i + 1) n (s\<lparr>s_app := d\<rparr>) buf (ptr + length (enc i (nodes ! i) ret v))
        }"
begin

text \<open>The loop writes the report of its nodes behind the cursor, or leaves the buffer.\<close>

lemma fill_report:
  assumes "s_get_cb s = Some cb" and "i + n \<le> length nodes" and "ptr \<le> length buf"
    and "report enc (cb (s_get_priv s)) i (take n (drop i nodes)) (s_app s) = (bs, d)"
  shows "fill nodes i n s buf ptr = do { b \<leftarrow> wrn buf ptr bs; Some (s\<lparr>s_app := d\<rparr>, Some (b, ptr + length bs)) }"
  using assms
proof (induction n arbitrary: i s buf ptr bs)
  case 0
  then show ?case by (simp add: fill_0 wrn_def)
next
  case (Suc n)
  define node where "node = nodes ! i"
  obtain ret v d1 where g: "cb (s_get_priv s) node (s_app s) = (ret, v, d1)" by (metis prod_cases3)
  have ns: "take (Suc n) (drop i nodes) = node # take n (drop (Suc i) nodes)"
    using Suc.prems(2) by (simp add: node_def Cons_nth_drop_Suc [symmetric])
  obtain bs1 where r: "report enc (cb (s_get_priv s)) (Suc i) (take n (drop (Suc i) nodes)) d1 = (bs1, d)"
    and bs: "bs = enc i node ret v @ bs1"
    using Suc.prems(4) by (auto simp: ns g split: prod.splits)
  have step: "fill nodes i (Suc n) s buf ptr = do {
      buf \<leftarrow> wrn buf ptr (enc i node ret v);
      fill nodes (Suc i) n (s\<lparr>s_app := d1\<rparr>) buf (ptr + length (enc i node ret v)) }"
    using fill_Suc [of i nodes s cb ret v d1 n buf ptr] Suc.prems(1,2) g by (simp add: node_def)
  show ?case
  proof (cases "wrn buf ptr (enc i node ret v)")
    case None
    then have "wrn buf ptr bs = None" by (simp add: bs wrn_None_iff)
    with None show ?thesis by (simp add: step)
  next
    case (Some b)
    have "length b = length buf" and "ptr + length (enc i node ret v) \<le> length buf"
      using Some by (auto simp: wrn_Some_iff)
    then have "fill nodes (Suc i) n (s\<lparr>s_app := d1\<rparr>) b (ptr + length (enc i node ret v)) =
        do { b \<leftarrow> wrn b (ptr + length (enc i node ret v)) bs1;
             Some (s\<lparr>s_app := d1, s_app := d\<rparr>, Some (b, ptr + length (enc i node ret v) + length bs1)) }"
      using Suc.prems(1,2) r by (intro Suc.IH) simp_all
    then show ?thesis
      by (simp add: step Some bs wrn_wrn_self [OF Some] add.assoc)
  qed
qed

lemma report_frame:
  assumes "s_get_cb s = Some cb" and "nodes \<noteq> []" and "length nodes \<le> 127"
    and "report enc (cb (s_get_priv s)) 0 nodes (s_app s) = (bs, d)" and "length bs \<le> 239"
  shows "iec101_s_report fill ty s reason nodes =
    iec101_s_write (s\<lparr>s_app := d\<rparr>)
      (up68 (s_addr s) 1 (ty (hd nodes)) (length nodes + 128) (reason mod 64) (le_bytes 2 (unat (node_addr (hd nodes))) @ bs))"
proof -
  let ?head = "iec101_s_begin s 1 (ty (hd nodes)) 1 (length nodes) reason"
  let ?a = "le_bytes 2 (unat (node_addr (hd nodes)))"
  obtain b where b: "wrn ?head 12 ?a = Some b" using begin_objects [of 1 ?a s] by simp
  have "length b = 256"
    using wrn_length [OF b] by (simp add: begin_bytes)
  then have fill: "fill nodes 0 (length nodes) s b 14 = do { b \<leftarrow> wrn b 14 bs; Some (s\<lparr>s_app := d\<rparr>, Some (b, 14 + length bs)) }"
    using assms(1,4) by (intro fill_report) simp_all
  have "wrn b 14 bs = wrn ?head 12 (?a @ bs)" using wrn_wrn_self [OF b, of bs] by simp
  then have "do { r \<leftarrow> fill nodes 0 (length nodes mod 128) s b 14;
        case r of (s, None) \<Rightarrow> Some (-1, s) | (s, Some (buf, ptr)) \<Rightarrow> iec101_s_finish s buf (ptr + 2) } =
      do { buf \<leftarrow> wrn ?head 12 (?a @ bs); iec101_s_finish (s\<lparr>s_app := d\<rparr>) buf (14 + length bs + 2) }"
    using assms(3) by (cases "wrn ?head 12 (?a @ bs)") (simp_all add: fill)
  moreover have "slist_peek_by_index nodes 0 = Some (hd nodes)"
    using assms(2) by (simp add: slist_peek_by_index_def hd_conv_nth)
  moreover have "do { buf \<leftarrow> wrn ?head 12 (?a @ bs); iec101_s_finish (s\<lparr>s_app := d\<rparr>) buf (14 + length bs + 2) } =
    iec101_s_write (s\<lparr>s_app := d\<rparr>) (up68 (s_addr s) 1 (ty (hd nodes)) (length nodes + 128) (reason mod 64) (?a @ bs))"
    using send_objects [of 1 "?a @ bs" "14 + length bs + 2" s "ty (hd nodes)" 1 "length nodes" reason "s\<lparr>s_app := d\<rparr>"] assms(3,5) by simp
  ultimately show ?thesis
    using b by (simp add: iec101_s_report_def IEC101_CTRL_ACD_WITH_DATA_def split_beta case_prod_unfold)
qed

lemma report_empty: "iec101_s_report fill ty s reason [] = Some (-1, s)"
  by (simp add: iec101_s_report_def slist_peek_by_index_def)

end

lemma get_some:
  "s_get_cb s = Some cb \<Longrightarrow> cb (s_get_priv s) node (s_app s) = (ret, v, d) \<Longrightarrow> iec101_s_get s node = (Some v, s\<lparr>s_app := d\<rparr>)"
  by (simp add: iec101_s_get_def)

interpretation yx101: serial_fill yx_enc101 iec101_s_yx_fill
  by unfold_locales (simp_all add: yx_enc101_def slist_peek_by_index_def get_some put_value_def)

interpretation yc101: serial_fill yc_enc101 iec101_s_yc_fill
  by unfold_locales (simp_all add: yc_enc101_def slist_peek_by_index_def get_some put_value_def wr_as_wrn wrn_wrn_k add.assoc)

interpretation ym101: serial_fill ym_enc101 iec101_s_ym_fill
  by unfold_locales (simp_all add: ym_enc101_def slist_peek_by_index_def get_some put_value_def wr_as_wrn wrn_wrn_k add.assoc)

end
