(* ===== verification/Iec101Api.thy ===== *)
theory Iec101Api
  imports Iec101Machine Errno
begin

text \<open>
  The calls an application makes on the serial IEC 101 controlled station, the rest of \<open>wow_iec101s.c\<close>: creation,
  configuration, start and exit, and the spontaneous transmissions. \<open>this\<close> pointers are taken to be valid.
\<close>

section \<open>Life cycle\<close>

text \<open>\<open>mallocs\<close> answers the allocations of the station, its four lists and the structure of the byte array, \<open>heap\<close> that of the array's
  area, \<open>port_ok\<close> that of the port; \<open>pad\<close> is the compiler's choice of \<open>s_pad\<close>. Any failure frees the station and returns \<open>NULL\<close>.\<close>

definition wow_iec101_s_init ::
  "nat \<Rightarrow> (nat \<Rightarrow> bool) \<Rightarrow> u16 \<Rightarrow> bool \<Rightarrow> bool list \<Rightarrow> bool \<Rightarrow> 'p \<Rightarrow> 'd \<Rightarrow> (proto_port, 'p, 'd) iec101s_t option" where
  "wow_iec101_s_init pad heap u16Addr ptUartPar mallocs port_ok null d =
     (if \<not> (ptUartPar \<and> length mallocs = 6 \<and> list_all id (take 5 mallocs)) then None
      else do {
        array \<leftarrow> wow_byte_array_new heap (mallocs ! 5) 2048;
        if \<not> port_ok then None
        else
          Some ((iec101_s_reset_param \<lparr>s_addr = u16Addr,
           s_stat = \<lparr>st_init = IEC10X_STA_LINK_INIT, st_callall = IEC10X_STA_LINK_INIT,
             st_callpulse = IEC10X_STA_LINK_INIT, st_yt = IEC10X_STA_LINK_INIT,
             st_yk = IEC10X_STA_LINK_INIT, st_test = IEC10X_STA_LINK_INIT\<rparr>,
           s_time = \<lparr>tm_init = 0, tm_callall = 0, tm_callpulse = 0, tm_yt = 0, tm_yk = 0,
             tm_test = 0, tm_timer = 0\<rparr>,
           s_set_cb = None, s_get_cb = None, s_serv_cb = None,
           s_set_priv = null, s_get_priv = null, s_serv_priv = null,
           s_yx_list = [], s_yc_n_list = [], s_yc_f_list = [], s_ym_list = [],
           s_link_ctx = fst proto_port_uart_init, s_lnk = snd proto_port_uart_init,
           s_array = array, s_tack = 0, s_yk_bak = None, s_yt_bak = None,
           s_app = d, s_running = False, s_started = False, s_pad = pad\<rparr>)\<lparr>s_running := True\<rparr>)
      })"

text \<open>The exit waits for the thread's last signal; without a thread nobody sends it and the call does not
  return (\<open>None\<close>).\<close>

definition wow_iec101_s_exit :: "(proto_port, 'p, 'd) iec101s_t \<Rightarrow> proto_port option" where
  "wow_iec101_s_exit s = (if \<not> s_started s then None else proto_port_uart_exit (s_lnk s))"

definition wow_iec101_s_start ::
  "(proto_port, 'p, 'd) iec101s_t \<Rightarrow> open_env \<Rightarrow> bool \<Rightarrow> (proto_port, 'p, 'd) iec101_result" where
  "wow_iec101_s_start s env thread_ok =
     do {
       (ret, l) \<leftarrow> link_open (s_link_ctx s) env (s_lnk s);
       let s = s\<lparr>s_lnk := l\<rparr>;
       if ret \<noteq> 0 then Some (- PROTO_LINK_OPEN_ERROR, s)
       else if \<not> thread_ok then Some (- THREAD_CREATE_FAILED, s)
       else Some (0, s\<lparr>s_started := True\<rparr>)
     }"

section \<open>Configuration\<close>

text \<open>The label \<open>here\<close>: a new run is created and appended to the list. \<open>mallocs\<close> answers the allocations (none are
  left when memory is exhausted); the result is the error code, if any, with what is left of them and the list.\<close>

definition iec101_s_new_run ::
  "int \<Rightarrow> bool list \<Rightarrow> DevNodeInfo_T list list \<Rightarrow> int option \<times> bool list \<times> DevNodeInfo_T list list" where
  "iec101_s_new_run create_err mallocs runs =
     (case mallocs of
        True # True # ms \<Rightarrow> (None, ms, runs @ [[]])
      | True # ms \<Rightarrow> (Some (- SLIST_INSERT_FAILED), tl ms, runs)
      | _ \<Rightarrow> (Some create_err, tl mallocs, runs))"

text \<open>One of the four loops over the nodes: \<open>sel\<close> is the test of \<open>CHECK_RET_CONTINUE\<close>. The node goes into the last run when its
  address is one below that of the node before, and starts a new, empty run otherwise.\<close>

fun iec101_s_add_runs ::
  "(DevNodeInfo_T \<Rightarrow> bool) \<Rightarrow> nat \<Rightarrow> int \<Rightarrow> int \<Rightarrow> bool list \<Rightarrow> DevNodeInfo_T list \<Rightarrow> int \<Rightarrow> DevNodeInfo_T list list \<Rightarrow>
   int option \<times> bool list \<times> DevNodeInfo_T list list" where
  "iec101_s_add_runs sel limit create_err insert_err mallocs [] baddr runs = (None, mallocs, runs)"
| "iec101_s_add_runs sel limit create_err insert_err mallocs (node # nodes) baddr runs =
     (if \<not> sel node then iec101_s_add_runs sel limit create_err insert_err mallocs nodes baddr runs
      else
        (let (err, mallocs, runs) =
           (if baddr = int (unat (node_addr node)) + 1
            then (case mallocs of
                True # ms \<Rightarrow>
                  (let run = last runs @ [node]; runs = butlast runs @ [run] in
                   if length run \<ge> limit then iec101_s_new_run create_err ms runs else (None, ms, runs))
              | _ \<Rightarrow> (Some insert_err, tl mallocs, runs))
            else iec101_s_new_run create_err mallocs runs)
         in case err of
              Some e \<Rightarrow> (Some e, mallocs, runs)
            | None \<Rightarrow> iec101_s_add_runs sel limit create_err insert_err mallocs nodes (int (unat (node_addr node))) runs))"

definition wow_iec101_s_set_node_info ::
  "bool list \<Rightarrow> ('s, 'p, 'd) iec101s_t \<Rightarrow> DevNodeInfo_T list \<Rightarrow> int \<times> ('s, 'p, 'd) iec101s_t" where
  "wow_iec101_s_set_node_info mallocs s ptNode =
     (let (err, ms, l) = iec101_s_add_runs (\<lambda>n. node_mode n = DEV_TYPE_YX) 200 (-1) (- SLIST_CREATE_FAILED) mallocs ptNode (-1) (s_yx_list s);
          s = s\<lparr>s_yx_list := l\<rparr>
      in case err of Some e \<Rightarrow> (e, s) | None \<Rightarrow>
        (let (err, ms, l) = iec101_s_add_runs (\<lambda>n. node_mode n = DEV_TYPE_YC \<and> node_type n \<noteq> DATA_FLOAT) 100 (-1) (- SLIST_CREATE_FAILED)
               ms ptNode (-1) (s_yc_n_list s);
             s = s\<lparr>s_yc_n_list := l\<rparr>
         in case err of Some e \<Rightarrow> (e, s) | None \<Rightarrow>
           (let (err, ms, l) = iec101_s_add_runs (\<lambda>n. node_mode n = DEV_TYPE_YC \<and> node_type n = DATA_FLOAT) 50 (-1) (- SLIST_CREATE_FAILED)
                  ms ptNode (-1) (s_yc_f_list s);
                s = s\<lparr>s_yc_f_list := l\<rparr>
            in case err of Some e \<Rightarrow> (e, s) | None \<Rightarrow>
              (let (err, ms, l) = iec101_s_add_runs (\<lambda>n. node_mode n = DEV_TYPE_YM) 50 (- SLIST_CREATE_FAILED) (- SLIST_INSERT_FAILED)
                     ms ptNode (-1) (s_ym_list s);
                   s = s\<lparr>s_ym_list := l\<rparr>
               in case err of Some e \<Rightarrow> (e, s) | None \<Rightarrow> (0, s)))))"

definition wow_iec101_s_set_value_handle ::
  "('s, 'p, 'd) iec101s_t \<Rightarrow> ('p \<Rightarrow> DevNodeInfo_T \<Rightarrow> DevValue_U \<Rightarrow> 'd \<Rightarrow> 'd) option \<Rightarrow> 'p \<Rightarrow> int \<times> ('s, 'p, 'd) iec101s_t" where
  "wow_iec101_s_set_value_handle s fCallBack pArg =
     (if fCallBack = None then (- PARAM_INPUT_FUNC_IS_NULL, s)
      else (0, s\<lparr>s_set_cb := fCallBack, s_set_priv := pArg\<rparr>))"

definition wow_iec101_s_get_value_handle ::
  "('s, 'p, 'd) iec101s_t \<Rightarrow> ('p \<Rightarrow> DevNodeInfo_T \<Rightarrow> 'd \<Rightarrow> int \<times> DevValue_U \<times> 'd) option \<Rightarrow> 'p \<Rightarrow> int \<times> ('s, 'p, 'd) iec101s_t" where
  "wow_iec101_s_get_value_handle s fCallBack pArg =
     (if fCallBack = None then (- PARAM_INPUT_FUNC_IS_NULL, s)
      else (0, s\<lparr>s_get_cb := fCallBack, s_get_priv := pArg\<rparr>))"

definition wow_iec101_s_set_service_handle ::
  "('s, 'p, 'd) iec101s_t \<Rightarrow> ('p \<Rightarrow> Ie10xServeice_E \<Rightarrow> 'd \<Rightarrow> 'd) option \<Rightarrow> 'p \<Rightarrow> int \<times> ('s, 'p, 'd) iec101s_t" where
  "wow_iec101_s_set_service_handle s fCallBack pArg =
     (if fCallBack = None then (- PARAM_INPUT_FUNC_IS_NULL, s)
      else (0, s\<lparr>s_serv_cb := fCallBack, s_serv_priv := pArg\<rparr>))"

section \<open>Spontaneous transmission\<close>

text \<open>One information object; whether the time is sent depends on the first node.\<close>

definition iec101_s_yx_object :: "DevNodeCtrl_T \<Rightarrow> DevNodeCtrl_T \<Rightarrow> bytes" where
  "iec101_s_yx_object first node =
     le_bytes 2 (unat (node_addr (ctrl_info node))) @ [ucast (val_bits (ctrl_value node))] @
     (if cp56_year (val_time (ctrl_value first)) > 0 then take 7 (val_time (ctrl_value node)) else [])"

definition iec101_s_yc_object :: "DevNodeCtrl_T \<Rightarrow> DevNodeCtrl_T \<Rightarrow> bytes" where
  "iec101_s_yc_object first node =
     le_bytes 2 (unat (node_addr (ctrl_info node))) @
     (if node_type (ctrl_info node) = DATA_FLOAT
      then le_bytes 4 (unat (val_bits (ctrl_value node))) else le_bytes 2 (unat (val_bits (ctrl_value node)))) @
     [0] @
     (if cp56_year (val_time (ctrl_value first)) > 0 then take 7 (val_time (ctrl_value node)) else [])"

fun iec101_s_spon_fill ::
  "(DevNodeCtrl_T \<Rightarrow> bytes) \<Rightarrow> DevNodeCtrl_T list \<Rightarrow> nat \<Rightarrow> nat \<Rightarrow> bytes \<Rightarrow> nat \<Rightarrow> (bytes \<times> nat) option" where
  "iec101_s_spon_fill obj ptNode i 0 buf ptr = Some (buf, ptr)"
| "iec101_s_spon_fill obj ptNode i (Suc n) buf ptr =
     do {
       node \<leftarrow> rd ptNode i;
       buf \<leftarrow> wrn buf ptr (obj node);
       iec101_s_spon_fill obj ptNode (i + 1) n buf (ptr + length (obj node))
     }"

definition iec101_s_spon ::
  "(DevNodeCtrl_T \<Rightarrow> nat) \<Rightarrow> (DevNodeCtrl_T \<Rightarrow> DevNodeCtrl_T \<Rightarrow> bytes) \<Rightarrow>
   ('s, 'p, 'd) iec101s_t \<Rightarrow> DevNodeCtrl_T list option \<Rightarrow> u8 \<Rightarrow> ('s, 'p, 'd) iec101_result" where
  "iec101_s_spon ty obj s ptNode u8Count =
     (case ptNode of
        None \<Rightarrow> Some (- PARAM_INPUT_STRUCT_IS_NULL, s)
      | Some nodes \<Rightarrow>
          if \<not> unat u8Count > 0 then Some (- PARAM_INPUT_STRUCT_IS_NULL, s)
          else if st_init (s_stat s) \<noteq> IEC10X_STA_LINK_IDLE then Some (- IEC10X_STATUS_ERROR, s)
          else do {
            first \<leftarrow> rd nodes 0;
            let buf = iec101_s_begin s IEC101_CTRL_ACD_NONE_DATA (ty first) 0 (unat u8Count) IEC10X_COT_SPONT;
            (buf, ptr) \<leftarrow> iec101_s_spon_fill (obj first) nodes 0 (unat u8Count) buf 12;
            iec101_s_finish s buf (ptr + 2)
          })"

text \<open>The type with a time is given to single points without one, and the other way round.\<close>

definition wow_iec101_s_build_yx_spon ::
  "('s, 'p, 'd) iec101s_t \<Rightarrow> DevNodeCtrl_T list option \<Rightarrow> u8 \<Rightarrow> ('s, 'p, 'd) iec101_result" where
  "wow_iec101_s_build_yx_spon =
     iec101_s_spon (\<lambda>first. if cp56_year (val_time (ctrl_value first)) > 0 then IEC10X_M_SP_NA_1 else IEC10X_M_SP_TB_1) iec101_s_yx_object"

definition wow_iec101_s_build_yc_spon ::
  "('s, 'p, 'd) iec101s_t \<Rightarrow> DevNodeCtrl_T list option \<Rightarrow> u8 \<Rightarrow> ('s, 'p, 'd) iec101_result" where
  "wow_iec101_s_build_yc_spon =
     iec101_s_spon (\<lambda>first.
       if node_type (ctrl_info first) = DATA_FLOAT
       then if cp56_year (val_time (ctrl_value first)) > 0 then IEC10X_M_ME_TF_1 else IEC10X_M_ME_NC_1
       else if cp56_year (val_time (ctrl_value first)) > 0 then IEC10X_M_ME_TD_1 else IEC10X_M_ME_NA_1) iec101_s_yc_object"

end
