(* ===== verification/Iec101Station.thy ===== *)
theory Iec101Station
  imports Iec101Report Iec101Api
begin

text \<open>
  The serial IEC 101 station at work: how a round of the thread takes a frame out of the received bytes, what the state machines
  do with it, and the exchange of a general interrogation, in which the master polls for every part of the answer.
\<close>

section \<open>Sending on the serial line\<close>

definition sent101 :: "bytes list \<Rightarrow> (proto_port, 'p, 'd) iec101s_t \<Rightarrow> (proto_port, 'p, 'd) iec101s_t" where
  "sent101 ms s = s\<lparr>s_lnk := (s_lnk s)\<lparr>tx := tx (s_lnk s) @ ms\<rparr>\<rparr>"

definition serial_open :: "(proto_port, 'p, 'd) iec101s_t \<Rightarrow> bool" where
  "serial_open s \<longleftrightarrow> serial_line (s_link_ctx s) (s_lnk s)"

lemma write_sent:
  "serial_open s \<Longrightarrow> length msg \<le> 260 \<Longrightarrow> iec101_s_write s msg = Some (0, sent101 [msg] s)"
  by (simp add: iec101_s_write_def serial_open_def serial_line_def proto_port_uart_init_def uart_link_send_def os_write_def sent101_def Let_def)

lemma sent101_fields [simp]:
  "s_addr (sent101 ms s) = s_addr s" "s_stat (sent101 ms s) = s_stat s" "s_time (sent101 ms s) = s_time s"
  "s_get_cb (sent101 ms s) = s_get_cb s" "s_get_priv (sent101 ms s) = s_get_priv s" "s_serv_cb (sent101 ms s) = s_serv_cb s"
  "s_serv_priv (sent101 ms s) = s_serv_priv s" "s_yx_list (sent101 ms s) = s_yx_list s" "s_yc_n_list (sent101 ms s) = s_yc_n_list s"
  "s_yc_f_list (sent101 ms s) = s_yc_f_list s" "s_link_ctx (sent101 ms s) = s_link_ctx s" "s_array (sent101 ms s) = s_array s"
  "s_tack (sent101 ms s) = s_tack s" "s_app (sent101 ms s) = s_app s" "s_running (sent101 ms s) = s_running s"
  "rx (s_lnk (sent101 ms s)) = rx (s_lnk s)" "tx (s_lnk (sent101 ms s)) = tx (s_lnk s) @ ms"
  "uart_opened (s_lnk (sent101 ms s)) = uart_opened (s_lnk s)" "tx_cap (s_lnk (sent101 ms s)) = tx_cap (s_lnk s)"
  by (simp_all add: sent101_def)

lemma sent101_open [simp]: "serial_open (sent101 ms s) = serial_open s"
  by (simp add: serial_open_def serial_line_def)

lemma sent101_append [simp]: "sent101 ms (sent101 ns s) = sent101 (ns @ ms) s"
  by (simp add: sent101_def)

lemma sent101_Nil [simp]: "sent101 [] s = s"
  by (simp add: sent101_def)

text \<open>What the reports of a list of runs put on the line; an empty run is skipped.\<close>

fun run_frames ::
  "(nat \<Rightarrow> DevNodeInfo_T \<Rightarrow> int \<Rightarrow> DevValue_U \<Rightarrow> bytes) \<Rightarrow> (DevNodeInfo_T \<Rightarrow> nat) \<Rightarrow> u16 \<Rightarrow>
   (DevNodeInfo_T \<Rightarrow> 'd \<Rightarrow> int \<times> DevValue_U \<times> 'd) \<Rightarrow> DevNodeInfo_T list list \<Rightarrow> 'd \<Rightarrow> bytes list \<times> 'd" where
  "run_frames enc ty addr get [] d = ([], d)"
| "run_frames enc ty addr get (r # rs) d =
     (if r = [] then run_frames enc ty addr get rs d
      else
        (let (bs, d) = report enc get 0 r d; (fs, d) = run_frames enc ty addr get rs d
         in (up68 addr 1 (ty (hd r)) (length r + 128) 20 (le_bytes 2 (unat (node_addr (hd r))) @ bs) # fs, d)))"

text \<open>The loops on the serial line, each with the width of an object: runs that fit are reported frame by frame.\<close>

locale serial_runs = serial_fill enc fill
  for enc :: "nat \<Rightarrow> DevNodeInfo_T \<Rightarrow> int \<Rightarrow> DevValue_U \<Rightarrow> bytes"
    and fill :: "DevNodeInfo_T list \<Rightarrow> nat \<Rightarrow> nat \<Rightarrow> (proto_port, 'p, 'd) iec101s_t \<Rightarrow> bytes \<Rightarrow> nat \<Rightarrow> (proto_port, 'p, 'd) iec101_fill" +
  fixes width :: "DevNodeInfo_T \<Rightarrow> nat"
  assumes width: "length (enc i node ret v) = width node"
begin

lemma length_report_width: "length (fst (report enc get i nodes d)) = sum_list (map width nodes)"
  by (induction nodes arbitrary: i d) (auto simp: split_beta Let_def width)

lemma send_runs_frames:
  assumes "serial_open s" and "s_get_cb s = Some cb"
    and "\<forall>r \<in> set runs. length r \<le> 127 \<and> sum_list (map width r) \<le> 239"
    and "run_frames enc ty (s_addr s) (cb (s_get_priv s)) runs (s_app s) = (fs, d)"
  shows "iec101_s_send_runs (\<lambda>r s. iec101_s_report fill ty s 20 r) runs s = Some (sent101 fs (s\<lparr>s_app := d\<rparr>))"
  using assms
proof (induction runs arbitrary: s fs)
  case (Cons r runs)
  show ?case
  proof (cases "r = []")
    case True
    then show ?thesis using Cons by (simp add: report_empty)
  next
    case False
    obtain bs d1 where r: "report enc (cb (s_get_priv s)) 0 r (s_app s) = (bs, d1)" by force
    obtain fs1 where f: "run_frames enc ty (s_addr s) (cb (s_get_priv s)) runs d1 = (fs1, d)"
      and fs: "fs = up68 (s_addr s) 1 (ty (hd r)) (length r + 128) 20 (le_bytes 2 (unat (node_addr (hd r))) @ bs) # fs1"
      using Cons.prems(4) False r by (auto split: prod.splits)
    have len: "length bs \<le> 239" "length r \<le> 127"
      using length_report_width [of "cb (s_get_priv s)" 0 r "s_app s"] r Cons.prems(3) by simp_all
    let ?m = "up68 (s_addr s) 1 (ty (hd r)) (length r + 128) 20 (le_bytes 2 (unat (node_addr (hd r))) @ bs)"
    have op: "serial_open (s\<lparr>s_app := d1\<rparr>)" using Cons.prems(1) by (simp add: serial_open_def)
    have "iec101_s_report fill ty s 20 r = Some (0, sent101 [?m] (s\<lparr>s_app := d1\<rparr>))"
      using report_frame [OF Cons.prems(2) False len(2) r len(1), of ty 20] write_sent [OF op, of ?m] len
      by (simp add: up68_def)
    moreover have "iec101_s_send_runs (\<lambda>r s. iec101_s_report fill ty s 20 r) runs (sent101 [?m] (s\<lparr>s_app := d1\<rparr>)) =
        Some (sent101 fs1 ((sent101 [?m] (s\<lparr>s_app := d1\<rparr>))\<lparr>s_app := d\<rparr>))"
      using Cons.prems f op by (intro Cons.IH) simp_all
    ultimately show ?thesis by (simp add: fs sent101_def)
  qed
qed simp

end

definition yc_width :: "DevNodeInfo_T \<Rightarrow> nat" where
  "yc_width node = (if node_type node = DATA_FLOAT then 5 else 3)"

interpretation yx_runs: serial_runs yx_enc101 iec101_s_yx_fill "\<lambda>_. 1"
  by unfold_locales simp

interpretation yc_runs: serial_runs yc_enc101 iec101_s_yc_fill yc_width
  by unfold_locales (simp add: yc_width_def)

interpretation ym_runs: serial_runs ym_enc101 iec101_s_ym_fill "\<lambda>_. 5"
  by unfold_locales simp

section \<open>A frame in the received bytes\<close>

text \<open>The station is one of the two serial stations.\<close>

interpretation slave: serial_thread s_array "\<lambda>a s. s\<lparr>s_array := a\<rparr>" iec101_s_deal_68 iec101_s_deal_10 iec101_s_drop iec101_s_exec_68
  iec101_s_exec_10 iec101_s_frame_parse s_link_ctx s_lnk "\<lambda>l s. s\<lparr>s_lnk := l\<rparr>" iec101_s_state_machine iec101_s_exec_round
  by unfold_locales (simp_all add: iec101_s_drop_def iec101_s_exec_68_def iec101_s_exec_10_def iec101_s_frame_parse_def iec101_s_exec_round_def)

text \<open>A variable frame reaches the dispatch on its function and type.\<close>

lemma deal_68_dispatch:
  assumes "ba_wf a" and "ba_bytes a = frame68 body" and "9 \<le> length body" and "length body \<le> 251"
    and "iec101_ctrl_func (body ! 0) = IEC101_CTRL_SEND_USR_DATA_ACK"
  shows "iec101_s_deal_68 heap s (ba_data a) (length body + 6) =
    (let type = unat (body ! 3); run = (\<lambda>f. do { (_, s) \<leftarrow> f; Some (0, s) })
     in if type = IEC10X_C_IC_NA_1 then run (iec101_s_asdu_call_all s (ba_data a))
        else if type = IEC10X_C_CI_NA_1
        then do { (_, s) \<leftarrow> iec101_s_asdu_call_pulse s (ba_data a); run (iec101_s_build_request_confirm s) }
        else if type = IEC10X_C_CD_NA_1 then run (iec101_s_build_request_confirm s)
        else if type = IEC10X_C_SC_NA_1 \<or> type = IEC10X_C_DC_NA_1 then run (iec101_s_asdu_yk heap s (ba_data a) (length body + 6))
        else if type = IEC10X_C_SE_NA_1 \<or> type = IEC10X_C_SE_NC_1 then run (iec101_s_asdu_yt heap s (ba_data a) (length body + 6))
        else Some (0, s))"
proof -
  note reads = frame68_reads [OF assms(1,2,4)]
  have e: "length body + 6 - 2 = length body + 4" "length body + 6 - 1 = length body + 5" "unat (lo8 (length body)) = length body"
    using assms(4) by (simp_all add: byte_simps)
  have l: "0 < length body" "3 < length body" using assms(3) by linarith+
  have "rd (ba_data a) 4 = Some (body ! 0)" "rd (ba_data a) 7 = Some (body ! 3)"
    using reads(6) [of 0, OF l(1)] reads(6) [of 3, OF l(2)] by simp_all
  then show ?thesis
    unfolding iec101_s_deal_68_def e
    using reads(1-5) assms(5) e(3) by (simp add: iec101_bytes iec101_asdu_type_def Let_def)
qed

end
