(* ===== verification/Iec101Exchange.thy ===== *)
theory Iec101Exchange
  imports Iec101Station
begin

text \<open>
  Rounds of the serial IEC 101 station: the general interrogation, in which every poll fetches a part of the answer, and the
  inputs that the station does not survive or answers wrongly.
\<close>

section \<open>One round\<close>

lemmas round_chunk = slave.round_chunk [folded serial_open_def]

lemmas round_quiet101 = slave.round_quiet [folded serial_open_def]

section \<open>The frames of the master\<close>

definition is_poll :: "u8 \<Rightarrow> bool" where
  "is_poll c \<longleftrightarrow> iec101_ctrl_func c = IEC101_CTRL_REQ_USR_DATA_1 \<and> iec101_ctrl_prm c = IEC101_CTRL_PRM_MASTER"

definition is_user_data :: "u8 \<Rightarrow> bool" where
  "is_user_data c \<longleftrightarrow> iec101_ctrl_func c = IEC101_CTRL_SEND_USR_DATA_ACK"

lemma parse_poll:
  fixes s :: "(proto_port, 'p, 'd) iec101s_t"
  assumes "ba_wf (s_array s)" and "ba_bytes (s_array s) = frame10 c la" and "is_poll c"
  shows "\<exists>a. ba_wf a \<and> ba_bytes a = [] \<and> iec101_s_frame_parse heap s = Some (s\<lparr>s_tack := 1, s_array := a\<rparr>)"
proof -
  have "iec101_s_deal_10 (s\<lparr>s_array := a\<rparr>) (ba_data a) 6 = Some (0, s\<lparr>s_tack := 1, s_array := a\<rparr>)"
    if "ba_wf a" "ba_bytes a = frame10 c la" for a
    using assms(3) frame10_reads [OF that] by (simp add: iec101_s_deal_10_def is_poll_def iec101_ctrls)
  then show ?thesis using slave.consume_10 [OF assms(1,2), of "s\<lparr>s_tack := 1\<rparr>" heap] by auto
qed

lemma parse_user_data:
  fixes s :: "(proto_port, 'p, 'd) iec101s_t"
  assumes "ba_wf (s_array s)" and "ba_bytes (s_array s) = frame68 body" and "length body \<le> 251"
    and "\<And>a. ba_wf a \<Longrightarrow> ba_bytes a = frame68 body \<Longrightarrow>
      iec101_s_deal_68 heap (s\<lparr>s_array := a\<rparr>) (ba_data a) (length body + 6) = Some (0, f (s\<lparr>s_array := a\<rparr>))"
    and "\<And>s a. (f s)\<lparr>s_array := a\<rparr> = f (s\<lparr>s_array := a\<rparr>)"
  shows "\<exists>a. ba_wf a \<and> ba_bytes a = [] \<and> iec101_s_frame_parse heap s = Some (f (s\<lparr>s_array := a\<rparr>))"
  using slave.consume_68 [OF assms(1-3), of heap "f s"] assms(4,5) by auto

definition call68 :: "u8 \<Rightarrow> nat \<Rightarrow> nat \<Rightarrow> nat \<Rightarrow> nat \<Rightarrow> bytes" where
  "call68 c la num rs ca = frame68 (body68 c la 100 num rs ca [0, 0, 20])"

lemma body68_fields:
  "body68 c la ty num rs ca obj ! 0 = c" "body68 c la ty num rs ca obj ! 3 = lo8 ty" "body68 c la ty num rs ca obj ! 4 = lo8 num"
  "body68 c la ty num rs ca obj ! 5 = lo8 rs" "drop 8 (body68 c la ty num rs ca obj) = obj"
  by (simp_all add: body68_def le_bytes_two)

lemma body68_objs: "body68 c la ty num rs ca obj ! (i + 8) = obj ! i"
  by (simp add: body68_def le_bytes_two)

lemma deal_call:
  assumes "ba_wf a" and "ba_bytes a = call68 c la num rs ca" and "is_user_data c" and "rs mod 64 = 6"
  shows "iec101_s_deal_68 heap s (ba_data a) 17 = Some (0, s_set_callall IEC10X_STA_CALL_ALL_START s)"
proof -
  let ?body = "body68 c la 100 num rs ca [0, 0, 20]"
  note a = assms(1) assms(2) [unfolded call68_def]
  note reads = frame68_reads [OF a]
  have "rd (ba_data a) 14 = Some 20" "rd (ba_data a) 9 = Some (lo8 rs)" "rdn (ba_data a) 12 2 = Some [0, 0]"
    using reads(6) [of 10] reads(6) [of 5] reads(7) [of 8 2] body68_objs [of c la 100 num rs ca "[0, 0, 20]" 2]
    by (simp_all add: body68_fields lo8_def)
  moreover have "unat (lo8 rs) mod 64 = 6" using assms(4) by (simp add: unat_lo8 mod_mod_cancel)
  ultimately show ?thesis
    using deal_68_dispatch [OF a, of heap s] assms(3)
    by (simp add: body68_fields is_user_data_def iec101_s_asdu_call_all_def iec101_fields iec10x_types iec10x_cots byte_simps)
qed

lemma parse_call:
  fixes s :: "(proto_port, 'p, 'd) iec101s_t"
  assumes "ba_wf (s_array s)" and "ba_bytes (s_array s) = call68 c la num rs ca" and "is_user_data c" and "rs mod 64 = 6"
  shows "\<exists>a. ba_wf a \<and> ba_bytes a = [] \<and>
    iec101_s_frame_parse heap s = Some (s_set_callall IEC10X_STA_CALL_ALL_START (s\<lparr>s_array := a\<rparr>))"
proof (rule parse_user_data [OF assms(1) assms(2) [unfolded call68_def]])
  let ?body = "body68 c la 100 num rs ca [0, 0, 20]"
  fix a assume a: "ba_wf a" "ba_bytes a = frame68 ?body"
  show "iec101_s_deal_68 heap (s\<lparr>s_array := a\<rparr>) (ba_data a) (length ?body + 6) = Some (0, s_set_callall IEC10X_STA_CALL_ALL_START (s\<lparr>s_array := a\<rparr>))"
    using deal_call [OF a(1) a(2) [folded call68_def] assms(3,4), of heap "s\<lparr>s_array := a\<rparr>"] by simp
qed (simp_all add: s_set_defs)

section \<open>A general interrogation\<close>

text \<open>Nothing but the interrogation is under way.\<close>

definition serial_idle :: "(proto_port, 'p, 'd) iec101s_t \<Rightarrow> bool" where
  "serial_idle s \<longleftrightarrow> serial_open s \<and> s_running s \<and> ba_wf (s_array s) \<and> ba_bytes (s_array s) = [] \<and>
     st_init (s_stat s) = IEC10X_STA_LINK_IDLE \<and> st_callpulse (s_stat s) = IEC10X_STA_CALL_PULSE_IDLE \<and>
     st_yt (s_stat s) = IEC10X_STA_YT_CMD_IDLE \<and> st_yk (s_stat s) = IEC10X_STA_YK_CMD_IDLE"

lemma state_machine_callall:
  assumes "serial_idle s" and "iec101_s_state_machine_callall (t 0) s = Some s'" and "serial_idle s'"
  shows "iec101_s_state_machine t s = Some s'"
  using assms
  by (simp add: iec101_s_state_machine_def iec101_s_state_machine_work_def iec101_s_state_machine_callpulse_def
      iec101_s_state_machine_yt_def iec101_s_state_machine_yk_def serial_idle_def)

text \<open>The station in the middle of the exchange, as far as it differs from the one it began in.\<close>

definition stage ::
  "(proto_port, 'p, 'd) iec101s_t \<Rightarrow> Iec10xStat_E \<Rightarrow> int \<Rightarrow> bytes list \<Rightarrow> 'd \<Rightarrow> bytes list \<Rightarrow> (proto_port, 'p, 'd) iec101s_t \<Rightarrow> bool" where
  "stage s0 st tm ms d cs s \<longleftrightarrow> (\<exists>a tk. ba_wf a \<and> ba_bytes a = [] \<and>
     s = s0\<lparr>s_array := a, s_stat := (s_stat s0)\<lparr>st_callall := st\<rparr>, s_time := (s_time s0)\<lparr>tm_callall := tm\<rparr>, s_tack := tk,
       s_lnk := (s_lnk s0)\<lparr>tx := tx (s_lnk s0) @ ms, rx := cs\<rparr>, s_app := d\<rparr>)"

lemma stage_idle: "serial_idle s0 \<Longrightarrow> stage s0 st tm ms d cs s \<Longrightarrow> serial_idle s"
  by (auto simp: stage_def serial_idle_def serial_open_def serial_line_def)

lemma stage_poll:
  assumes "serial_idle s0" and "stage s0 st tm ms d (frame10 c la # cs) s" and "is_poll c" and "length rbuf = 1500" and "\<forall>n. heap n"
    and "\<And>s1. stage s0 st tm ms d cs s1 \<Longrightarrow> s_tack s1 = 1 \<Longrightarrow>
      \<exists>s'. iec101_s_state_machine_callall (t 0) s1 = Some s' \<and> stage s0 st' tm (ms @ new) d' cs s'"
  shows "\<exists>rbuf' s'. length rbuf' = 1500 \<and> iec101_s_exec_round heap t (rbuf, s) = Some (rbuf', s') \<and>
    stage s0 st' tm (ms @ new) d' cs s'"
proof -
  have idle: "serial_idle s" using stage_idle [OF assms(1,2)] .
  have "rx (s_lnk s) = frame10 c la # cs" using assms(2) by (auto simp: stage_def)
  then obtain rbuf' a where r: "length rbuf' = 1500" "ba_wf a" "ba_bytes a = frame10 c la" "iec101_s_exec_round heap t (rbuf, s) =
      do {
        s \<leftarrow> iec101_s_frame_parse heap (s\<lparr>s_lnk := (s_lnk s)\<lparr>rx := cs\<rparr>, s_array := a\<rparr>);
        s \<leftarrow> iec101_s_state_machine t s;
        Some (rbuf', s) }"
    using round_chunk [of s "frame10 c la" cs rbuf heap t] idle assms(4,5) by (auto simp: serial_idle_def frame10_def)
  obtain a' where p: "ba_wf a'" "ba_bytes a' = []" "iec101_s_frame_parse heap (s\<lparr>s_lnk := (s_lnk s)\<lparr>rx := cs\<rparr>, s_array := a\<rparr>) =
      Some (s\<lparr>s_lnk := (s_lnk s)\<lparr>rx := cs\<rparr>, s_tack := 1, s_array := a'\<rparr>)"
    using parse_poll [of "s\<lparr>s_lnk := (s_lnk s)\<lparr>rx := cs\<rparr>, s_array := a\<rparr>" c la heap] r(2,3) assms(3) by auto
  let ?s1 = "s\<lparr>s_lnk := (s_lnk s)\<lparr>rx := cs\<rparr>, s_tack := 1, s_array := a'\<rparr>"
  have s1: "stage s0 st tm ms d cs ?s1"
    using assms(2) p(1,2) unfolding stage_def by (intro exI [of _ a'] exI [of _ 1]) auto
  obtain s' where s': "iec101_s_state_machine_callall (t 0) ?s1 = Some s'" "stage s0 st' tm (ms @ new) d' cs s'"
    using assms(6) [OF s1] by auto
  have "iec101_s_state_machine t ?s1 = Some s'"
    using state_machine_callall [of ?s1 t s', OF stage_idle [OF assms(1) s1] s'(1) stage_idle [OF assms(1) s'(2)]] .
  then show ?thesis using r(1,4) p(3) s'(2) by simp
qed


lemma stage_call:
  assumes "serial_idle s" and "rx (s_lnk s) = call68 c la num rs ca # cs" and "is_user_data c" and "rs mod 64 = 6" and "length rbuf = 1500"
    and "\<forall>n. heap n"
  shows "\<exists>rbuf' s'. length rbuf' = 1500 \<and> iec101_s_exec_round heap t (rbuf, s) = Some (rbuf', s') \<and>
    stage s IEC10X_STA_CALL_ALL_CONFIRM (t 0) [frame10 0x20 (unat (s_addr s))] (s_app s) cs s'"
proof -
  obtain rbuf' a where r: "length rbuf' = 1500" "ba_wf a" "ba_bytes a = call68 c la num rs ca" "iec101_s_exec_round heap t (rbuf, s) =
      do {
        s \<leftarrow> iec101_s_frame_parse heap (s\<lparr>s_lnk := (s_lnk s)\<lparr>rx := cs\<rparr>, s_array := a\<rparr>);
        s \<leftarrow> iec101_s_state_machine t s;
        Some (rbuf', s) }"
    using round_chunk [of s "call68 c la num rs ca" cs rbuf heap t] assms by (auto simp: serial_idle_def call68_def frame68_def)
  obtain a' where p: "ba_wf a'" "ba_bytes a' = []" "iec101_s_frame_parse heap (s\<lparr>s_lnk := (s_lnk s)\<lparr>rx := cs\<rparr>, s_array := a\<rparr>) =
      Some (s_set_callall IEC10X_STA_CALL_ALL_START (s\<lparr>s_lnk := (s_lnk s)\<lparr>rx := cs\<rparr>, s_array := a'\<rparr>))"
    using parse_call [of "s\<lparr>s_lnk := (s_lnk s)\<lparr>rx := cs\<rparr>, s_array := a\<rparr>" c la num rs ca heap] r(2,3) assms(3,4) by auto
  let ?s1 = "s_set_callall IEC10X_STA_CALL_ALL_START (s\<lparr>s_lnk := (s_lnk s)\<lparr>rx := cs\<rparr>, s_array := a'\<rparr>)"
  let ?s2 = "sent101 [frame10 0x20 (unat (s_addr s))] (?s1\<lparr>s_time := (s_time s)\<lparr>tm_callall := t 0\<rparr>\<rparr>)"
  let ?s' = "s_set_callall IEC10X_STA_CALL_ALL_CONFIRM ?s2"
  have "serial_open (?s1\<lparr>s_time := (s_time s)\<lparr>tm_callall := t 0\<rparr>\<rparr>)" using assms(1) by (simp add: serial_idle_def serial_open_def serial_line_def s_set_defs)
  then have "iec101_s_state_machine_callall (t 0) ?s1 = Some ?s'"
    by (simp add: iec101_s_state_machine_callall_def iec101_s_build_request_user_ack_def stable_frame iec101_ctrls write_sent s_set_defs)
  moreover have "serial_idle ?s1" "serial_idle ?s'" using assms(1) p(1,2) by (auto simp: serial_idle_def serial_open_def serial_line_def s_set_defs)
  ultimately have "iec101_s_state_machine t ?s1 = Some ?s'" by (intro state_machine_callall)
  moreover have "stage s IEC10X_STA_CALL_ALL_CONFIRM (t 0) [frame10 0x20 (unat (s_addr s))] (s_app s) cs ?s'"
    using p(1,2) unfolding stage_def by (intro exI [of _ a'] exI [of _ "s_tack s"]) (simp add: s_set_defs sent101_def)
  ultimately show ?thesis using r(1,4) p(3) by auto
qed

text \<open>What the station answers: the acknowledgements, a report of every run that is not empty, and the end, and what becomes of the
  application, which is asked for every value and told of the end.\<close>

definition tell101 :: "(proto_port, 'p, 'd) iec101s_t \<Rightarrow> Ie10xServeice_E \<Rightarrow> 'd \<Rightarrow> 'd" where
  "tell101 s ev d = (case s_serv_cb s of None \<Rightarrow> d | Some cb \<Rightarrow> cb (s_serv_priv s) ev d)"

definition yc_type :: "DevNodeInfo_T \<Rightarrow> nat" where
  "yc_type node = (if node_type node = DATA_FLOAT then IEC10X_M_ME_NC_1 else IEC10X_M_ME_NA_1)"

definition serial_answer ::
  "(proto_port, 'p, 'd) iec101s_t \<Rightarrow> (DevNodeInfo_T \<Rightarrow> 'd \<Rightarrow> int \<times> DevValue_U \<times> 'd) \<Rightarrow> bytes list \<times> 'd" where
  "serial_answer s get =
     (let (f1, d) = run_frames yx_enc101 (\<lambda>_. IEC10X_M_SP_NA_1) (s_addr s) get (s_yx_list s) (s_app s);
          (f2, d) = run_frames yc_enc101 yc_type (s_addr s) get (s_yc_n_list s) d;
          (f3, d) = run_frames yc_enc101 yc_type (s_addr s) get (s_yc_f_list s) d
      in ([frame10 0x20 (unat (s_addr s)), up68 (s_addr s) 1 100 1 7 [0, 0, 20]] @ f1 @ f2 @ f3 @
            [up68 (s_addr s) 0 100 1 10 [0, 0, 20]],
          tell101 s IEC10X_CALL_ALL_SUCCESS d))"

lemma in_time: "t - tm_callall (s_time s) \<le> IEC10X_CALL_ALL_TIMEOUT \<Longrightarrow> callall_timeout t s = s"
  by (simp add: callall_timeout_def)

lemma stageD:
  assumes "serial_idle s0" and "stage s0 st tm ms d cs s"
  shows "serial_open s" "s_addr s = s_addr s0" "st_callall (s_stat s) = st" "tm_callall (s_time s) = tm" "s_app s = d"
    "s_get_cb s = s_get_cb s0" "s_get_priv s = s_get_priv s0" "s_yx_list s = s_yx_list s0" "s_yc_n_list s = s_yc_n_list s0"
    "s_yc_f_list s = s_yc_f_list s0" "s_serv_cb s = s_serv_cb s0" "s_serv_priv s = s_serv_priv s0"
  using assms by (auto simp: stage_def serial_idle_def serial_open_def serial_line_def)

lemma stage_next:
  assumes "stage s0 st tm ms d cs s"
  shows "stage s0 st' tm (ms @ new) d' cs ((s_set_callall st' (sent101 new s))\<lparr>s_app := d', s_tack := tk\<rparr>)"
proof -
  obtain a tk' where "ba_wf a" "ba_bytes a = []" "s = s0\<lparr>s_array := a, s_stat := (s_stat s0)\<lparr>st_callall := st\<rparr>,
      s_time := (s_time s0)\<lparr>tm_callall := tm\<rparr>, s_tack := tk', s_lnk := (s_lnk s0)\<lparr>tx := tx (s_lnk s0) @ ms, rx := cs\<rparr>, s_app := d\<rparr>"
    using assms by (auto simp: stage_def)
  then show ?thesis
    unfolding stage_def by (intro exI [of _ a] exI [of _ tk]) (simp add: s_set_defs sent101_def)
qed

lemma step_confirm:
  assumes "serial_idle s0" and "stage s0 IEC10X_STA_CALL_ALL_CONFIRM tm ms d cs s" and "s_tack s = 1" and "t - tm \<le> 30000"
  shows "\<exists>s'. iec101_s_state_machine_callall t s = Some s' \<and>
    stage s0 IEC10X_STA_CALL_ALL_YX tm (ms @ [up68 (s_addr s0) 1 100 1 7 [0, 0, 20]]) d cs s'"
proof -
  note f = stageD [OF assms(1,2)]
  let ?m = "up68 (s_addr s0) 1 100 1 7 [0, 0, 20]"
  let ?s' = "(s_set_callall IEC10X_STA_CALL_ALL_YX (sent101 [?m] s))\<lparr>s_app := d, s_tack := 0\<rparr>"
  have "iec101_s_build_call_ack s = Some (0, sent101 [?m] s)"
    using write_sent [OF f(1), of ?m] f(2) by (simp add: call_ack_frame up68_def)
  then have "iec101_s_state_machine_callall t s = Some ?s'"
    using f assms(3,4)
    by (simp add: iec101_s_state_machine_callall_def in_time IEC10X_CALL_ALL_TIMEOUT_def s_set_defs sent101_def)
  with stage_next [OF assms(2)] show ?thesis by blast
qed


lemma step_yx:
  assumes "serial_idle s0" and "stage s0 IEC10X_STA_CALL_ALL_YX tm ms d cs s" and "s_tack s = 1" and "t - tm \<le> 30000"
    and "s_get_cb s0 = Some cb" and "\<forall>r \<in> set (s_yx_list s0). length r \<le> 127"
    and "run_frames yx_enc101 (\<lambda>_. IEC10X_M_SP_NA_1) (s_addr s0) (cb (s_get_priv s0)) (s_yx_list s0) d = (fs, d')"
  shows "\<exists>s'. iec101_s_state_machine_callall t s = Some s' \<and> stage s0 IEC10X_STA_CALL_ALL_YC tm (ms @ fs) d' cs s'"
proof -
  note f = stageD [OF assms(1,2)]
  let ?s' = "(s_set_callall IEC10X_STA_CALL_ALL_YC (sent101 fs s))\<lparr>s_app := d', s_tack := 0\<rparr>"
  have "\<forall>r \<in> set (s_yx_list s). length r \<le> 127 \<and> sum_list (map (\<lambda>_. 1 :: nat) r) \<le> 239"
    using assms(6) f(8) by (auto simp: sum_list_triv)
  from yx_runs.send_runs_frames [OF f(1) _ this, of cb "\<lambda>_. IEC10X_M_SP_NA_1" fs d']
  have "iec101_s_send_runs (\<lambda>r s. iec101_s_build_yx s IEC10X_COT_INTROGEN r) (s_yx_list s) s = Some (sent101 fs (s\<lparr>s_app := d'\<rparr>))"
    using f assms(5,7) by (simp add: iec101_s_build_yx_def iec10x_cots)
  then have "iec101_s_state_machine_callall t s = Some ?s'"
    using f assms(3,4)
    by (simp add: iec101_s_state_machine_callall_def in_time IEC10X_CALL_ALL_TIMEOUT_def s_set_defs sent101_def)
  with stage_next [OF assms(2)] show ?thesis by blast
qed

text \<open>The values that fit a frame: 79 integers or 47 floats in a run.\<close>

definition yc_fits :: "DevNodeInfo_T list list \<Rightarrow> bool" where
  "yc_fits runs \<longleftrightarrow> (\<forall>r \<in> set runs. sum_list (map yc_width r) \<le> 239)"

lemma yc_fits_length:
  assumes "yc_fits runs" and "r \<in> set runs"
  shows "length r \<le> 127"
proof -
  have "3 * length r \<le> sum_list (map yc_width r)"
    by (induction r) (auto simp: yc_width_def)
  then show ?thesis using assms by (auto simp: yc_fits_def)
qed

lemma send_yc:
  assumes "serial_open s" and "s_get_cb s = Some cb" and "yc_fits runs"
    and "run_frames yc_enc101 yc_type (s_addr s) (cb (s_get_priv s)) runs (s_app s) = (fs, d)"
  shows "iec101_s_send_runs (\<lambda>r s. iec101_s_build_yc s IEC10X_COT_INTROGEN r) runs s = Some (sent101 fs (s\<lparr>s_app := d\<rparr>))"
  using yc_runs.send_runs_frames [OF assms(1,2) _ assms(4)] yc_fits_length [OF assms(3)] assms(3)
  by (simp add: iec101_s_build_yc_def iec10x_cots yc_fits_def yc_type_def [abs_def])

lemma step_yc:
  assumes "serial_idle s0" and "stage s0 IEC10X_STA_CALL_ALL_YC tm ms d cs s" and "s_tack s = 1" and "t - tm \<le> 30000"
    and "s_get_cb s0 = Some cb" and "yc_fits (s_yc_n_list s0)" and "yc_fits (s_yc_f_list s0)"
    and "run_frames yc_enc101 yc_type (s_addr s0) (cb (s_get_priv s0)) (s_yc_n_list s0) d = (fs, d1)"
    and "run_frames yc_enc101 yc_type (s_addr s0) (cb (s_get_priv s0)) (s_yc_f_list s0) d1 = (gs, d2)"
  shows "\<exists>s'. iec101_s_state_machine_callall t s = Some s' \<and> stage s0 IEC10X_STA_CALL_ALL_SUCCESS tm (ms @ fs @ gs) d2 cs s'"
proof -
  note f = stageD [OF assms(1,2)]
  let ?s1 = "sent101 fs (s\<lparr>s_app := d1\<rparr>)"
  let ?s' = "(s_set_callall IEC10X_STA_CALL_ALL_SUCCESS (sent101 (fs @ gs) s))\<lparr>s_app := d2, s_tack := 0\<rparr>"
  have "iec101_s_send_runs (\<lambda>r s. iec101_s_build_yc s IEC10X_COT_INTROGEN r) (s_yc_n_list s) s = Some ?s1"
    using send_yc [OF f(1), of cb "s_yc_n_list s" fs d1] f assms(5,6,8) by simp
  moreover have "serial_open ?s1" using f(1) by (simp add: serial_open_def serial_line_def)
  then have "iec101_s_send_runs (\<lambda>r s. iec101_s_build_yc s IEC10X_COT_INTROGEN r) (s_yc_f_list s) ?s1 =
      Some (sent101 gs (?s1\<lparr>s_app := d2\<rparr>))"
    using send_yc [of ?s1 cb "s_yc_f_list s" gs d2] f assms(5,7,9) by simp
  ultimately have "iec101_s_state_machine_callall t s = Some ?s'"
    using f assms(3,4)
    by (simp add: iec101_s_state_machine_callall_def in_time IEC10X_CALL_ALL_TIMEOUT_def s_set_defs sent101_def)
  with stage_next [OF assms(2), of _ "fs @ gs"] show ?thesis by blast
qed

lemma step_finish:
  assumes "serial_idle s0" and "stage s0 IEC10X_STA_CALL_ALL_SUCCESS tm ms d cs s" and "s_tack s = 1"
  shows "\<exists>s'. iec101_s_state_machine_callall t s = Some s' \<and>
    stage s0 IEC10X_STA_CALL_ALL_IDLE tm (ms @ [up68 (s_addr s0) 0 100 1 10 [0, 0, 20]]) (tell101 s0 IEC10X_CALL_ALL_SUCCESS d) cs s'"
proof -
  note f = stageD [OF assms(1,2)]
  let ?m = "up68 (s_addr s0) 0 100 1 10 [0, 0, 20]"
  let ?s' = "(s_set_callall IEC10X_STA_CALL_ALL_IDLE (sent101 [?m] s))\<lparr>s_app := tell101 s0 IEC10X_CALL_ALL_SUCCESS d, s_tack := 0\<rparr>"
  have "iec101_s_build_call_finsh s 20 = Some (0, sent101 [?m] s)"
    using write_sent [OF f(1), of ?m] f(2) by (simp add: call_finsh_frame up68_def)
  then have "iec101_s_state_machine_callall t s = Some ?s'"
    using f assms(3)
    by (cases "s_serv_cb s0")
      (simp_all add: iec101_s_state_machine_callall_def s_set_defs sent101_def iec101_s_serve_def tell101_def iec10x_cots)
  with stage_next [OF assms(2)] show ?thesis by blast
qed

text \<open>C33. A general interrogation over the serial line, of an open station at rest (\<open>serial_idle\<close>) whose get callback is set and whose runs
  fit a frame: at most 127 single points, 79 integers or 47 floats (239 bytes of elements, \<open>yc_fits\<close>). The configuration accepts runs of 200 points
  and 100 integers; nothing is claimed of these. The chunks that the station reads are an activation frame of the
  master, in which the test and sign bits are free, and four polls, one a round; the first three of them are handled within half a minute of the activation.
  Then the station sends exactly the acknowledgements, one report for every non-empty run of single points, of integers and of
  floats, in order, and the end of activation; it tells its application of the success and is at rest again. The link address and the common address of
  the frames are arbitrary.\<close>

theorem serial_interrogation:
  assumes "serial_idle s" and "s_get_cb s = Some cb" and "\<forall>n. heap n" and "length rbuf = 1500"
    and "\<forall>r \<in> set (s_yx_list s). length r \<le> 127" and "yc_fits (s_yc_n_list s)" and "yc_fits (s_yc_f_list s)"
    and "rx (s_lnk s) = call68 c la num rs ca # map (\<lambda>(c, la). frame10 c la) [p1, p2, p3, p4]"
    and "is_user_data c" and "\<forall>p \<in> {p1, p2, p3, p4}. is_poll (fst p)"
    and "t1 0 - t0 0 \<le> 30000" and "t2 0 - t0 0 \<le> 30000" and "t3 0 - t0 0 \<le> 30000" and "rs mod 64 = 6"
  shows "\<exists>rbuf' s'. iec101_s_exec_thread heap [t0, t1, t2, t3, t4] (rbuf, s) = Some (rbuf', s') \<and>
    tx (s_lnk s') = tx (s_lnk s) @ fst (serial_answer s (cb (s_get_priv s))) \<and>
    s_app s' = snd (serial_answer s (cb (s_get_priv s))) \<and>
    serial_idle s' \<and> st_callall (s_stat s') = IEC10X_STA_CALL_ALL_IDLE"
proof -
  have rx: "rx (s_lnk s) = call68 c la num rs ca # [frame10 (fst p1) (snd p1), frame10 (fst p2) (snd p2), frame10 (fst p3) (snd p3), frame10 (fst p4) (snd p4)]"
    using assms(8) by (simp add: split_beta)
  obtain fs d1 where f1: "run_frames yx_enc101 (\<lambda>_. IEC10X_M_SP_NA_1) (s_addr s) (cb (s_get_priv s)) (s_yx_list s) (s_app s) = (fs, d1)"
    by force
  obtain gs d2 where f2: "run_frames yc_enc101 yc_type (s_addr s) (cb (s_get_priv s)) (s_yc_n_list s) d1 = (gs, d2)" by force
  obtain hs d3 where f3: "run_frames yc_enc101 yc_type (s_addr s) (cb (s_get_priv s)) (s_yc_f_list s) d2 = (hs, d3)" by force
  have p1: "is_poll (fst p1)" and p2: "is_poll (fst p2)" and p3: "is_poll (fst p3)" and p4: "is_poll (fst p4)"
    using assms(10) by simp_all
  have run: "s_running s'" if "stage s st tm ms d cs s'" for st tm ms d cs s'
    using stage_idle [OF assms(1) that] by (simp add: serial_idle_def)
  obtain b1 s1 where r1: "length b1 = 1500" "iec101_s_exec_round heap t0 (rbuf, s) = Some (b1, s1)"
    "stage s IEC10X_STA_CALL_ALL_CONFIRM (t0 0) [frame10 0x20 (unat (s_addr s))] (s_app s)
       [frame10 (fst p1) (snd p1), frame10 (fst p2) (snd p2), frame10 (fst p3) (snd p3), frame10 (fst p4) (snd p4)] s1"
    using stage_call [OF assms(1) rx assms(9,14,4,3)] by blast
  obtain b2 s2 where r2: "length b2 = 1500" "iec101_s_exec_round heap t1 (b1, s1) = Some (b2, s2)"
    "stage s IEC10X_STA_CALL_ALL_YX (t0 0) ([frame10 0x20 (unat (s_addr s))] @ [up68 (s_addr s) 1 100 1 7 [0, 0, 20]]) (s_app s)
       [frame10 (fst p2) (snd p2), frame10 (fst p3) (snd p3), frame10 (fst p4) (snd p4)] s2"
    using stage_poll [where t = t1 and st' = IEC10X_STA_CALL_ALL_YX and d' = "s_app s" and new = "[up68 (s_addr s) 1 100 1 7 [0, 0, 20]]",
        OF assms(1) r1(3) p1 r1(1) assms(3) step_confirm [OF assms(1) _ _ assms(11)]]
    by blast
  obtain b3 s3 where r3: "length b3 = 1500" "iec101_s_exec_round heap t2 (b2, s2) = Some (b3, s3)"
    "stage s IEC10X_STA_CALL_ALL_YC (t0 0) (([frame10 0x20 (unat (s_addr s))] @ [up68 (s_addr s) 1 100 1 7 [0, 0, 20]]) @ fs) d1
       [frame10 (fst p3) (snd p3), frame10 (fst p4) (snd p4)] s3"
    using stage_poll [where t = t2 and st' = IEC10X_STA_CALL_ALL_YC and d' = d1 and new = fs,
        OF assms(1) r2(3) p2 r2(1) assms(3) step_yx [OF assms(1) _ _ assms(12,2,5) f1]]
    by blast
  obtain b4 s4 where r4: "length b4 = 1500" "iec101_s_exec_round heap t3 (b3, s3) = Some (b4, s4)"
    "stage s IEC10X_STA_CALL_ALL_SUCCESS (t0 0)
       ((([frame10 0x20 (unat (s_addr s))] @ [up68 (s_addr s) 1 100 1 7 [0, 0, 20]]) @ fs) @ gs @ hs) d3 [frame10 (fst p4) (snd p4)] s4"
    using stage_poll [where t = t3 and st' = IEC10X_STA_CALL_ALL_SUCCESS and d' = d3 and new = "gs @ hs",
        OF assms(1) r3(3) p3 r3(1) assms(3) step_yc [OF assms(1) _ _ assms(13,2,6,7) f2 f3]]
    by blast
  obtain b5 s5 where r5: "iec101_s_exec_round heap t4 (b4, s4) = Some (b5, s5)"
    "stage s IEC10X_STA_CALL_ALL_IDLE (t0 0) (((([frame10 0x20 (unat (s_addr s))] @ [up68 (s_addr s) 1 100 1 7 [0, 0, 20]]) @ fs) @ gs @ hs) @
       [up68 (s_addr s) 0 100 1 10 [0, 0, 20]]) (tell101 s IEC10X_CALL_ALL_SUCCESS d3) [] s5"
    using stage_poll [where t = t4 and st' = IEC10X_STA_CALL_ALL_IDLE and d' = "tell101 s IEC10X_CALL_ALL_SUCCESS d3" and
        new = "[up68 (s_addr s) 0 100 1 10 [0, 0, 20]]", OF assms(1) r4(3) p4 r4(1) assms(3) step_finish [OF assms(1)]] by blast
  have "iec101_s_exec_thread heap [t0, t1, t2, t3, t4] (rbuf, s) = Some (b5, s5)"
    using r1(2) r2(2) r3(2) r4(2) r5(1) run [OF r1(3)] run [OF r2(3)] run [OF r3(3)] run [OF r4(3)] assms(1)
    by (simp add: serial_idle_def)
  moreover have "tx (s_lnk s5) = tx (s_lnk s) @ fst (serial_answer s (cb (s_get_priv s)))"
    "s_app s5 = snd (serial_answer s (cb (s_get_priv s)))" "st_callall (s_stat s5) = IEC10X_STA_CALL_ALL_IDLE"
    using r5(2) f1 f2 f3 by (auto simp: stage_def serial_answer_def)
  ultimately show ?thesis using stage_idle [OF assms(1) r5(2)] by blast
qed


text \<open>A station with one point, whose application answers with the address and keeps a list of what it is told.\<close>

definition demo101 :: "bytes list \<Rightarrow> (proto_port, unit, (nat + Ie10xServeice_E) list) iec101s_t" where
  "demo101 input = \<lparr>s_addr = 1,
     s_stat = \<lparr>st_init = IEC10X_STA_LINK_IDLE, st_callall = IEC10X_STA_CALL_ALL_IDLE, st_callpulse = IEC10X_STA_CALL_PULSE_IDLE,
       st_yt = IEC10X_STA_YT_CMD_IDLE, st_yk = IEC10X_STA_YK_CMD_IDLE, st_test = IE10X_STA_TESTER_START\<rparr>,
     s_time = \<lparr>tm_init = 0, tm_callall = 0, tm_callpulse = 0, tm_yt = 0, tm_yk = 0, tm_test = 0, tm_timer = 0\<rparr>,
     s_set_cb = Some (\<lambda>_ node v d. d @ [Inl (256 * unat (node_addr node) + unat v)]),
     s_get_cb = Some (\<lambda>_ node d. (0, ucast (node_addr node), d)),
     s_serv_cb = Some (\<lambda>_ ev d. d @ [Inr ev]), s_set_priv = (), s_get_priv = (), s_serv_priv = (),
     s_yx_list = [[], [\<lparr>node_mode = DEV_TYPE_YX, node_addr = 5, node_type = DATA_SINT_8\<rparr>]], s_yc_n_list = [], s_yc_f_list = [], s_ym_list = [],
     s_link_ctx = fst proto_port_uart_init, s_lnk = new_port\<lparr>uart_opened := True, rx := input\<rparr>,
     s_array = \<lparr>ba_size = 0, ba_capicity = 1, ba_data = [0]\<rparr>, s_tack = 0, s_yk_bak = None, s_yt_bak = None,
     s_app = [], s_running = True, s_started = True, s_pad = 0\<rparr>"

lemma demo101_fields [simp]:
  "serial_idle (demo101 input)" "s_get_cb (demo101 input) = Some (\<lambda>_ node d. (0, ucast (node_addr node), d))"
  "s_set_cb (demo101 input) = Some (\<lambda>_ node v d. d @ [Inl (256 * unat (node_addr node) + unat v)])"
  "s_serv_cb (demo101 input) = Some (\<lambda>_ ev d. d @ [Inr ev])" "s_addr (demo101 input) = 1"
  "s_yx_list (demo101 input) = [[], [\<lparr>node_mode = DEV_TYPE_YX, node_addr = 5, node_type = DATA_SINT_8\<rparr>]]"
  "s_yc_n_list (demo101 input) = []" "s_yc_f_list (demo101 input) = []" "s_app (demo101 input) = []"
  "rx (s_lnk (demo101 input)) = input" "tx (s_lnk (demo101 input)) = []" "tm_yk (s_time (demo101 input)) = 0" "s_pad (demo101 input) = 0"
  "st_callall (s_stat (demo101 input)) = IEC10X_STA_CALL_ALL_IDLE" "st_yk (s_stat (demo101 input)) = IEC10X_STA_YK_CMD_IDLE"
  by (simp_all add: demo101_def serial_idle_def serial_open_def serial_line_def new_port_def ba_wf_def ba_bytes_def)

theorem serial_interrogation_witness:
  "\<exists>rbuf' s'. iec101_s_exec_thread (\<lambda>_. True) [\<lambda>_. 0, \<lambda>_. 9, \<lambda>_. 99, \<lambda>_. 999, \<lambda>_. 9999]
       (replicate 1500 0, demo101 (call68 0x73 1 1 6 1 # map (\<lambda>(c, la). frame10 c la) [(0x5A, 1), (0x7A, 1), (0x5A, 1), (0x7A, 1)])) =
       Some (rbuf', s') \<and>
     tx (s_lnk s') = [frame10 0x20 1, up68 1 1 100 1 7 [0, 0, 20], up68 1 1 1 129 20 [5, 0, 5], up68 1 0 100 1 10 [0, 0, 20]] \<and>
     s_app s' = [Inr IEC10X_CALL_ALL_SUCCESS]"
proof -
  let ?s = "demo101 (call68 0x73 1 1 6 1 # map (\<lambda>(c, la). frame10 c la) [(0x5A, 1), (0x7A, 1), (0x5A, 1), (0x7A, 1)])"
  have "serial_answer ?s (\<lambda>node d. (0, ucast (node_addr node), d)) =
      ([frame10 0x20 1, up68 1 1 100 1 7 [0, 0, 20], up68 1 1 1 129 20 [5, 0, 5], up68 1 0 100 1 10 [0, 0, 20]], [Inr IEC10X_CALL_ALL_SUCCESS])"
    by (simp add: serial_answer_def yx_enc101_def tell101_def IEC10X_M_SP_NA_1_def le_bytes_two le_bytes_Suc lo8_def)
  then show ?thesis
    using serial_interrogation [of ?s "\<lambda>_ node d. (0, ucast (node_addr node), d)" "\<lambda>_. True" "replicate 1500 0" "0x73" 1 1 6 1
      "(0x5A, 1)" "(0x7A, 1)" "(0x5A, 1)" "(0x7A, 1)" "\<lambda>_. 9" "\<lambda>_. 0" "\<lambda>_. 99" "\<lambda>_. 999" "\<lambda>_. 9999"]
    by (auto simp: yc_fits_def is_user_data_def is_poll_def iec101_ctrl_func_def iec101_ctrl_prm_def iec101_ctrls
      simp del: iec101_s_exec_thread.simps)
qed

section \<open>Input the station does not survive\<close>

text \<open>C36. A received frame whose length field is 252 or more makes the station hang for ever, whatever else it contains: the counter of the check sum
  is a byte and cannot reach the end of the frame.\<close>

theorem long_frame_hangs:
  assumes "serial_open s" and "ba_wf (s_array s)" and "ba_bytes (s_array s) @ x = c" and "rx (s_lnk s) = x # cs" and "x \<noteq> []"
    and "length x \<le> 255" and "c ! 0 = 0x68" and "length c = unat (c ! 1) + 6" and "last c = 0x16" and "252 \<le> unat (c ! 1)"
    and "length rbuf = 1500" and "\<forall>n. heap n"
  shows "iec101_s_exec_round heap t (rbuf, s) = None"
proof -
  obtain rbuf' a where r: "ba_wf a" "ba_bytes a = c" "iec101_s_exec_round heap t (rbuf, s) =
      do {
        s \<leftarrow> iec101_s_frame_parse heap (s\<lparr>s_lnk := (s_lnk s)\<lparr>rx := cs\<rparr>, s_array := a\<rparr>);
        s \<leftarrow> iec101_s_state_machine t s;
        Some (rbuf', s) }"
    using round_chunk [OF assms(1,2,4-6,11,12), of t] assms(3) by auto
  have "iec101_s_deal_68 heap s' d (length c) = None" for s' :: "(proto_port, 'a, 'b) iec101s_t" and d
    using iec101_cs_loop_hangs [of "length c - 2" d 4 0] assms(8,10) by (simp add: iec101_s_deal_68_def)
  then have "iec101_s_frame_parse heap (s\<lparr>s_lnk := (s_lnk s)\<lparr>rx := cs\<rparr>, s_array := a\<rparr>) = None"
    using slave.parse_68 [of "s\<lparr>s_lnk := (s_lnk s)\<lparr>rx := cs\<rparr>, s_array := a\<rparr>" c heap] r(1,2) assms(7-9) by auto
  then show ?thesis using r(3) by simp
qed

theorem long_frame_hangs_witness:
  "iec101_s_exec_round (\<lambda>_. True) (\<lambda>_. 0)
     (replicate 1500 0, (demo101 [replicate 10 0 @ [0x16]])\<lparr>s_array :=
        \<lparr>ba_size = 247, ba_capicity = 300, ba_data = [0x68, 252] @ replicate 298 0\<rparr>\<rparr>) = None"
proof (rule long_frame_hangs [where c = "[0x68, 252] @ replicate 255 0 @ [0x16]" and x = "replicate 10 0 @ [0x16]" and cs = "[]"])
  let ?a = "\<lparr>ba_size = 247, ba_capicity = 300, ba_data = [0x68, 252] @ replicate 298 0\<rparr>"
  have "replicate 245 (0 :: u8) @ replicate 10 0 = replicate 255 0" by (simp flip: replicate_add)
  then show "ba_bytes (s_array ((demo101 [replicate 10 0 @ [0x16]])\<lparr>s_array := ?a\<rparr>)) @ replicate 10 0 @ [0x16] =
      [0x68, 252] @ replicate 255 0 @ [0x16]"
    by (simp add: ba_bytes_def append_assoc [symmetric] del: append_assoc)
qed (use demo101_fields(1) in \<open>simp_all add: serial_idle_def serial_open_def serial_line_def ba_wf_def\<close>)

text \<open>Unless the compiler leaves eight unused bytes behind the structure, a single command that is not a selection and every set point,
  normalised or float, is undefined: the handler clears sixteen bytes of a structure of eight.\<close>

lemma commands_undefined:
  assumes "serial_open s" and "ba_wf (s_array s)" and "ba_bytes (s_array s) = []"
    and "rx (s_lnk s) = frame68 (body68 c la ty num 6 ca obj) # cs" and "is_user_data c"
    and "ty = IEC10X_C_SE_NA_1 \<or> ty = IEC10X_C_SE_NC_1 \<or> ty = IEC10X_C_SC_NA_1 \<and> obj ! 2 AND 0x80 = 0"
    and "3 \<le> length obj" and "length obj \<le> 241" and "length rbuf = 1500" and "\<forall>n. heap n" and "s_pad s < 8"
  shows "iec101_s_exec_round heap t (rbuf, s) = None"
proof -
  let ?body = "body68 c la ty num 6 ca obj"
  obtain rbuf' a where r: "ba_wf a" "ba_bytes a = frame68 ?body" "iec101_s_exec_round heap t (rbuf, s) =
      do {
        s \<leftarrow> iec101_s_frame_parse heap (s\<lparr>s_lnk := (s_lnk s)\<lparr>rx := cs\<rparr>, s_array := a\<rparr>);
        s \<leftarrow> iec101_s_state_machine t s;
        Some (rbuf', s) }"
    using round_chunk [OF assms(1,2,4) _ _ assms(9,10), of t] assms(3,8) by (auto simp: frame68_def)
  have ty: "unat (lo8 ty) = ty" using assms(6) by (auto simp: byte_simps iec10x_types)
  have undefined: "iec101_s_deal_68 heap s' (ba_data b) (length ?body + 6) = None" if b: "ba_wf b" "ba_bytes b = frame68 ?body"
      "s_pad s' < 8"
    for b and s' :: "(proto_port, 'a, 'b) iec101s_t"
  proof -
    have l: "length ?body \<le> 251" "9 \<le> length ?body" "3 < length ?body" "5 < length ?body" "10 < length ?body" using assms(7,8) by simp_all
    note reads = frame68_reads [OF b(1,2) l(1)]
    have f: "rd (ba_data b) 7 = Some (lo8 ty)" "rd (ba_data b) 9 = Some 6" "rd (ba_data b) 14 = Some (obj ! 2)"
      using reads(6) [OF l(3)] reads(6) [OF l(4)] reads(6) [OF l(5)] body68_objs [of c la ty num 6 ca obj 2]
      by (simp_all add: body68_fields lo8_def)
    have m: "iec101_node_memset (s_pad s') = None" using b(3) by (simp add: node_memset_undefined)
    have "iec101_s_asdu_yt heap s' (ba_data b) n = None" if "ty = 48 \<or> ty = 50" for n
      using that f ty m
      by (auto simp: iec101_s_asdu_yt_def iec101_fields iec10x_types iec10x_cots Let_def split: option.splits bind_splits)
    moreover have "iec101_s_asdu_yk heap s' (ba_data b) n = None" if "ty = 45" "obj ! 2 AND 0x80 = 0" for n
      using that f ty m
      by (auto simp: iec101_s_asdu_yk_def s_set_defs iec101_fields iec10x_types iec10x_cots Let_def split: option.splits bind_splits)
    ultimately show ?thesis
      using deal_68_dispatch [OF b(1,2) l(2,1), of heap s'] assms(5,6) ty
      by (auto simp: body68_fields is_user_data_def iec10x_types IEC10X_C_CD_NA_1_def)
  qed
  have h: "frame68 ?body ! 0 = 0x68" "length (frame68 ?body) = unat (frame68 ?body ! 1) + 6" "last (frame68 ?body) = 0x16"
    using assms(8) by (simp_all add: frame68_def byte_simps)
  have "iec101_s_frame_parse heap (s\<lparr>s_lnk := (s_lnk s)\<lparr>rx := cs\<rparr>, s_array := a\<rparr>) = None"
    using slave.parse_68 [of "s\<lparr>s_lnk := (s_lnk s)\<lparr>rx := cs\<rparr>, s_array := a\<rparr>", OF _ _ h, of heap] r(1,2) undefined assms(11) by auto
  then show ?thesis using r(3) by simp
qed

lemma commands_undefined_witness:
  "iec101_s_exec_round (\<lambda>_. True) (\<lambda>_. 0) (replicate 1500 0, demo101 [frame68 (body68 0x73 1 45 1 6 1 [5, 0, 1])]) = None"
  by (rule commands_undefined [where c = "0x73" and la = 1 and ty = 45 and num = 1 and ca = 1 and obj = "[5, 0, 1]" and cs = "[]"])
    (use demo101_fields(1) [of "[frame68 (body68 0x73 1 45 1 6 1 [5, 0, 1])]"] in
     \<open>simp_all add: serial_idle_def is_user_data_def iec101_ctrl_func_def iec101_ctrls iec10x_types\<close>)


section \<open>A double command\<close>

text \<open>The station after a command, as far as it differs from the one the command came to.\<close>

definition commanded ::
  "(proto_port, 'p, 'd) iec101s_t \<Rightarrow> Iec10xStat_E \<Rightarrow> nat \<Rightarrow> 'd \<Rightarrow> (proto_port, 'p, 'd) iec101s_t \<Rightarrow> bool" where
  "commanded s0 yk n d s \<longleftrightarrow> (\<exists>a tk yt bk. ba_wf a \<and> ba_bytes a = [] \<and> yt \<in> {IEC10X_STA_YT_CMD_IDLE, IEC10X_STA_YK_CMD_SUCCESS} \<and>
     s = s0\<lparr>s_array := a, s_stat := (s_stat s0)\<lparr>st_yk := yk, st_yt := yt\<rparr>, s_tack := tk, s_yk_bak := bk,
       s_lnk := (s_lnk s0)\<lparr>tx := tx (s_lnk s0) @ replicate n (frame10 0x20 (unat (s_addr s0))), rx := []\<rparr>, s_app := d\<rparr>)"

definition serial_quiet :: "(proto_port, 'p, 'd) iec101s_t \<Rightarrow> bool" where
  "serial_quiet s \<longleftrightarrow> serial_idle s \<and> st_callall (s_stat s) = IEC10X_STA_CALL_ALL_IDLE"

lemma commandedD:
  assumes "serial_quiet s0" and "commanded s0 yk n d s"
  shows "serial_open s" "s_running s" "ba_wf (s_array s)" "ba_bytes (s_array s) = []" "rx (s_lnk s) = []" "s_addr s = s_addr s0"
    "st_yk (s_stat s) = yk" "tm_yk (s_time s) = tm_yk (s_time s0)" "s_app s = d" "s_serv_cb s = s_serv_cb s0" "s_serv_priv s = s_serv_priv s0"
    "tx (s_lnk s) = tx (s_lnk s0) @ replicate n (frame10 0x20 (unat (s_addr s0)))"
    "iec101_s_state_machine t s = iec101_s_state_machine_yk (t 4) (t 5) s"
  using assms
  by (auto simp: commanded_def serial_quiet_def serial_idle_def serial_open_def serial_line_def iec101_s_state_machine_def iec101_s_state_machine_work_def
      iec101_s_state_machine_callall_def iec101_s_state_machine_callpulse_def iec101_s_state_machine_yt_def)

lemma commanded_exec:
  assumes "serial_quiet s0" and "commanded s0 IEC10X_STA_YK_CMD_EXEC n d s"
  shows "\<exists>s'. iec101_s_state_machine t s = Some s' \<and>
    commanded s0 (if t 4 - tm_yk (s_time s0) > 10000 then IEC10X_STA_YK_CMD_FAILD else IEC10X_STA_YK_CMD_EXEC) (Suc n) d s'"
proof -
  note f = commandedD [OF assms]
  let ?m = "frame10 0x20 (unat (s_addr s0))"
  let ?s' = "yk_timeout (t 4) ((s_set_yt IEC10X_STA_YK_CMD_SUCCESS (sent101 [?m] s))\<lparr>s_tack := 0\<rparr>)"
  have "iec101_s_state_machine t s = Some ?s'"
    using f by (simp add: iec101_s_state_machine_yk_def iec101_s_build_request_user_ack_def stable_frame iec101_ctrls write_sent)
  moreover obtain a tk yt bk where s: "ba_wf a" "ba_bytes a = []"
    "s = s0\<lparr>s_array := a, s_stat := (s_stat s0)\<lparr>st_yk := IEC10X_STA_YK_CMD_EXEC, st_yt := yt\<rparr>, s_tack := tk, s_yk_bak := bk,
       s_lnk := (s_lnk s0)\<lparr>tx := tx (s_lnk s0) @ replicate n ?m, rx := []\<rparr>, s_app := d\<rparr>"
    using assms(2) by (auto simp: commanded_def)
  have "commanded s0 (if t 4 - tm_yk (s_time s0) > 10000 then IEC10X_STA_YK_CMD_FAILD else IEC10X_STA_YK_CMD_EXEC) (Suc n) d ?s'"
    unfolding commanded_def
    by (intro exI [of _ a] exI [of _ "0 :: int"] exI [of _ IEC10X_STA_YK_CMD_SUCCESS] exI [of _ bk])
      (use s in \<open>simp add: yk_timeout_def IEC10X_YK_CMD_TIMEOUT_def s_set_defs sent101_def replicate_append_same\<close>)
  ultimately show ?thesis by blast
qed

lemma commanded_failed:
  assumes "serial_quiet s0" and "commanded s0 IEC10X_STA_YK_CMD_FAILD n d s"
  shows "\<exists>s'. iec101_s_exec_round heap t (rbuf, s) = Some (rbuf, s') \<and>
    commanded s0 IEC10X_STA_YK_CMD_IDLE n (tell101 s0 IEC10X_YK_CMD_FAILD d) s'"
proof -
  note f = commandedD [OF assms]
  let ?m = "frame10 0x20 (unat (s_addr s0))"
  let ?s' = "s_set_yk IEC10X_STA_YK_CMD_IDLE (iec101_s_serve (s\<lparr>s_yk_bak := None\<rparr>) IEC10X_YK_CMD_FAILD)"
  have "iec101_s_exec_round heap t (rbuf, s) = Some (rbuf, ?s')"
    using round_quiet101 [OF f(1,5,3,4), of heap t rbuf] f(7,13) by (simp add: iec101_s_state_machine_yk_def)
  moreover obtain a tk yt bk where s: "ba_wf a" "ba_bytes a = []" "yt \<in> {IEC10X_STA_YT_CMD_IDLE, IEC10X_STA_YK_CMD_SUCCESS}"
    "s = s0\<lparr>s_array := a, s_stat := (s_stat s0)\<lparr>st_yk := IEC10X_STA_YK_CMD_FAILD, st_yt := yt\<rparr>, s_tack := tk, s_yk_bak := bk,
       s_lnk := (s_lnk s0)\<lparr>tx := tx (s_lnk s0) @ replicate n ?m, rx := []\<rparr>, s_app := d\<rparr>"
    using assms(2) by (auto simp: commanded_def)
  have "commanded s0 IEC10X_STA_YK_CMD_IDLE n (tell101 s0 IEC10X_YK_CMD_FAILD d) ?s'"
    unfolding commanded_def
    by (intro exI [of _ a] exI [of _ tk] exI [of _ yt] exI [of _ "None"])
      (use s in \<open>cases "s_serv_cb s0"; simp add: iec101_s_serve_def tell101_def s_set_defs\<close>)
  ultimately show ?thesis by blast
qed

lemma commanded_rounds:
  assumes "serial_quiet s0" and "commanded s0 IEC10X_STA_YK_CMD_EXEC n d s" and "\<forall>t \<in> set ts. t 4 - tm_yk (s_time s0) \<le> 10000"
    and "late 4 - tm_yk (s_time s0) > 10000"
  shows "\<exists>s'. iec101_s_exec_thread heap (ts @ [late, final]) (rbuf, s) = Some (rbuf, s') \<and>
    commanded s0 IEC10X_STA_YK_CMD_IDLE (n + length ts + 1) (tell101 s0 IEC10X_YK_CMD_FAILD d) s'"
  using assms(2,3)
proof (induction ts arbitrary: n s)
  case Nil
  note f = commandedD [OF assms(1) Nil(1)]
  obtain s1 where s1: "iec101_s_exec_round heap late (rbuf, s) = Some (rbuf, s1)" "commanded s0 IEC10X_STA_YK_CMD_FAILD (Suc n) d s1"
    using commanded_exec [OF assms(1) Nil(1), of late] round_quiet101 [OF f(1,5,3,4), of heap late rbuf] assms(4) by auto
  obtain s2 where s2: "iec101_s_exec_round heap final (rbuf, s1) = Some (rbuf, s2)"
    "commanded s0 IEC10X_STA_YK_CMD_IDLE (Suc n) (tell101 s0 IEC10X_YK_CMD_FAILD d) s2"
    using commanded_failed [OF assms(1) s1(2)] by blast
  then show ?case using s1 f(2) commandedD(2) [OF assms(1) s1(2)] by (intro exI [of _ s2]) simp
next
  case (Cons t ts)
  note f = commandedD [OF assms(1) Cons.prems(1)]
  obtain s1 where s1: "iec101_s_exec_round heap t (rbuf, s) = Some (rbuf, s1)" "commanded s0 IEC10X_STA_YK_CMD_EXEC (Suc n) d s1"
    using commanded_exec [OF assms(1) Cons.prems(1), of t] round_quiet101 [OF f(1,5,3,4), of heap t rbuf] Cons.prems(2) by auto
  then show ?case using Cons.IH [OF s1(2)] Cons.prems(2) f(2) by simp
qed

text \<open>The frame of the command is taken in the first round.\<close>

lemma double_command_taken:
  assumes "serial_quiet s" and "s_set_cb s = Some cb" and "v AND 0x80 = 0" and "is_user_data c" and "length rbuf = 1500" and "\<forall>n. heap n"
    and "rx (s_lnk s) = [frame68 (body68 c la 46 1 6 ca [a0, a1, v])]"
  shows "\<exists>rbuf' s1. iec101_s_exec_round heap t (rbuf, s) = do { s \<leftarrow> iec101_s_state_machine t s1; Some (rbuf', s) } \<and>
    commanded s IEC10X_STA_YK_CMD_EXEC 0
      (cb (s_set_priv s) \<lparr>node_mode = DEV_TYPE_YK, node_addr = word_of_nat (le_val [a0, a1]), node_type = DATA_SINT_8\<rparr> (ucast (v AND 3)) (s_app s)) s1"
proof -
  let ?body = "body68 c la 46 1 6 ca [a0, a1, v]"
  let ?node = "\<lparr>node_mode = DEV_TYPE_YK, node_addr = word_of_nat (le_val [a0, a1]), node_type = DATA_SINT_8\<rparr>"
  let ?d = "cb (s_set_priv s) ?node (ucast (v AND 3)) (s_app s)"
  obtain rbuf' a where r: "ba_wf a" "ba_bytes a = frame68 ?body" "iec101_s_exec_round heap t (rbuf, s) =
      do {
        s \<leftarrow> iec101_s_frame_parse heap (s\<lparr>s_lnk := (s_lnk s)\<lparr>rx := []\<rparr>, s_array := a\<rparr>);
        s \<leftarrow> iec101_s_state_machine t s;
        Some (rbuf', s) }"
    using round_chunk [of s "frame68 ?body" "[]" rbuf heap t] assms by (auto simp: serial_quiet_def serial_idle_def frame68_def)
  have "\<exists>b. ba_wf b \<and> ba_bytes b = [] \<and> iec101_s_frame_parse heap (s\<lparr>s_lnk := (s_lnk s)\<lparr>rx := []\<rparr>, s_array := a\<rparr>) =
      Some ((\<lambda>s1. (s_set_yk IEC10X_STA_YK_CMD_EXEC s1)\<lparr>s_app := ?d\<rparr>) ((s\<lparr>s_lnk := (s_lnk s)\<lparr>rx := []\<rparr>, s_array := a\<rparr>)\<lparr>s_array := b\<rparr>))"
  proof (rule parse_user_data)
    fix b assume b: "ba_wf b" "ba_bytes b = frame68 ?body"
    note reads = frame68_reads [OF b]
    let ?s1 = "(s\<lparr>s_lnk := (s_lnk s)\<lparr>rx := []\<rparr>, s_array := a\<rparr>)\<lparr>s_array := b\<rparr>"
    have "rd (ba_data b) 7 = Some 46" "rd (ba_data b) 8 = Some 1" "rd (ba_data b) 9 = Some 6" "rd (ba_data b) 14 = Some v"
      "rdn (ba_data b) 12 2 = Some [a0, a1]"
      using reads(6) [of 3] reads(6) [of 4] reads(6) [of 5] reads(6) [of 10] reads(7) [of 8 2]
        body68_objs [of c la 46 1 6 ca "[a0, a1, v]" 2]
      by (simp_all add: body68_fields lo8_def)
    then have "iec101_s_asdu_yk heap ?s1 (ba_data b) n = Some (0, (s_set_yk IEC10X_STA_YK_CMD_EXEC ?s1)\<lparr>s_app := ?d\<rparr>)" for n
      using assms(2,3)
      by (simp add: iec101_s_asdu_yk_def iec101_fields iec10x_types iec10x_cots Let_def iec101_s_set_def s_set_defs)
    then show "iec101_s_deal_68 heap ?s1 (ba_data b) (length ?body + 6) = Some (0, (s_set_yk IEC10X_STA_YK_CMD_EXEC ?s1)\<lparr>s_app := ?d\<rparr>)"
      using deal_68_dispatch [OF b, of heap ?s1] assms(4)
      by (simp add: body68_fields is_user_data_def iec10x_types IEC10X_C_CD_NA_1_def byte_simps)
  qed (use r in \<open>simp_all add: s_set_defs\<close>)
  then obtain b where b: "ba_wf b" "ba_bytes b = []" "iec101_s_frame_parse heap (s\<lparr>s_lnk := (s_lnk s)\<lparr>rx := []\<rparr>, s_array := a\<rparr>) =
      Some ((s_set_yk IEC10X_STA_YK_CMD_EXEC (s\<lparr>s_lnk := (s_lnk s)\<lparr>rx := []\<rparr>, s_array := b\<rparr>))\<lparr>s_app := ?d\<rparr>)"
    by auto
  have "commanded s IEC10X_STA_YK_CMD_EXEC 0 ?d ((s_set_yk IEC10X_STA_YK_CMD_EXEC (s\<lparr>s_lnk := (s_lnk s)\<lparr>rx := []\<rparr>, s_array := b\<rparr>))\<lparr>s_app := ?d\<rparr>)"
    unfolding commanded_def
    by (intro exI [of _ b] exI [of _ "s_tack s"] exI [of _ IEC10X_STA_YT_CMD_IDLE] exI [of _ "s_yk_bak s"])
      (use b(1,2) assms(1) in \<open>simp add: s_set_defs serial_quiet_def serial_idle_def\<close>)
  then show ?thesis using r(3) b(3) by (intro exI [of _ rbuf']) auto
qed

text \<open>C35. A double command that executes is handed to the application, and then reported to it as failed: the station acknowledges the command on
  the link again in every round until ten seconds have passed since the last selection (none: in the first round), and never
  confirms it.\<close>

theorem double_command_fails:
  assumes "serial_quiet s" and "s_set_cb s = Some cb" and "v AND 0x80 = 0" and "is_user_data c" and "length rbuf = 1500" and "\<forall>n. heap n"
    and "rx (s_lnk s) = [frame68 (body68 c la 46 1 6 ca [a0, a1, v])]"
    and "\<forall>t \<in> set ts. t 4 - tm_yk (s_time s) \<le> 10000" and "late 4 - tm_yk (s_time s) > 10000"
    and "d = cb (s_set_priv s) \<lparr>node_mode = DEV_TYPE_YK, node_addr = word_of_nat (le_val [a0, a1]), node_type = DATA_SINT_8\<rparr> (ucast (v AND 3)) (s_app s)"
  shows "\<exists>rbuf' s'. iec101_s_exec_thread heap (ts @ [late, final]) (rbuf, s) = Some (rbuf', s') \<and>
    s_app s' = tell101 s IEC10X_YK_CMD_FAILD d \<and> st_yk (s_stat s') = IEC10X_STA_YK_CMD_IDLE \<and>
    tx (s_lnk s') = tx (s_lnk s) @ replicate (length ts + 1) (frame10 0x20 (unat (s_addr s)))"
proof -
  have run: "s_running s" using assms(1) by (simp add: serial_quiet_def serial_idle_def)
  have first: "\<exists>rbuf' s2. iec101_s_exec_round heap t (rbuf, s) = Some (rbuf', s2) \<and>
      commanded s (if t 4 - tm_yk (s_time s) > 10000 then IEC10X_STA_YK_CMD_FAILD else IEC10X_STA_YK_CMD_EXEC) 1 d s2" for t
  proof -
    obtain rbuf' s1 where "iec101_s_exec_round heap t (rbuf, s) = do { s \<leftarrow> iec101_s_state_machine t s1; Some (rbuf', s) }"
      "commanded s IEC10X_STA_YK_CMD_EXEC 0 d s1"
      using double_command_taken [OF assms(1-7), of t] assms(10) by blast
    then show ?thesis using commanded_exec [OF assms(1), of 0 d s1 t] by auto
  qed
  obtain rbuf' s' where "iec101_s_exec_thread heap (ts @ [late, final]) (rbuf, s) = Some (rbuf', s')"
    "commanded s IEC10X_STA_YK_CMD_IDLE (length ts + 1) (tell101 s IEC10X_YK_CMD_FAILD d) s'"
  proof (cases ts)
    case Nil
    obtain rbuf' s2 where s2: "iec101_s_exec_round heap late (rbuf, s) = Some (rbuf', s2)" "commanded s IEC10X_STA_YK_CMD_FAILD 1 d s2"
      using first [of late] assms(9) by auto
    then show thesis
      using that commanded_failed [OF assms(1) s2(2), of heap final rbuf'] commandedD(2) [OF assms(1) s2(2)] run Nil by auto
  next
    case (Cons t ts')
    obtain rbuf' s2 where s2: "iec101_s_exec_round heap t (rbuf, s) = Some (rbuf', s2)" "commanded s IEC10X_STA_YK_CMD_EXEC 1 d s2"
      using first [of t] assms(8) Cons by auto
    have "\<forall>t \<in> set ts'. t 4 - tm_yk (s_time s) \<le> 10000" using assms(8) Cons by simp
    from commanded_rounds [where late = late and ts = ts', OF assms(1) s2(2) this assms(9), of heap final rbuf'] show thesis
      using that s2(1) run Cons by auto
  qed
  then show ?thesis using commandedD(7,9,12) [OF assms(1)] by blast
qed

theorem double_command_fails_witness:
  "\<exists>rbuf' s'. iec101_s_exec_thread (\<lambda>_. True) [\<lambda>_. 123456, \<lambda>_. 123556]
       (replicate 1500 0, demo101 [frame68 (body68 0x73 1 46 1 6 1 [5, 0, 2])]) = Some (rbuf', s') \<and>
     s_app s' = [Inl 1282, Inr IEC10X_YK_CMD_FAILD] \<and> tx (s_lnk s') = [frame10 0x20 1]"
proof -
  let ?s = "demo101 [frame68 (body68 0x73 1 46 1 6 1 [5, 0, 2])]"
  have "serial_quiet ?s" by (simp add: serial_quiet_def)
  then show ?thesis
    using double_command_fails [of ?s "\<lambda>_ node v d. d @ [Inl (256 * unat (node_addr node) + unat v)]" 2 "0x73" "replicate 1500 0" "\<lambda>_. True"
      1 1 5 0 "[]" "\<lambda>_. 123456" "[Inl 1282]" "\<lambda>_. 123556"]
    by (auto simp: is_user_data_def iec101_ctrl_func_def iec101_ctrls tell101_def simp del: iec101_s_exec_thread.simps)
qed

end
