(* ===== verification/Iec101Master.thy ===== *)
theory Iec101Master
  imports Iec101Slave Errno
begin

text \<open>
  The serial IEC 101 controlling station, \<open>wow_iot/src/protocol/iec10x/wow_iec101m.c\<close>, first part: its state, the frames it builds and
  the handlers of received frames. The conventions are those of \<open>Iec101Slave\<close>.

  The two \<open>static uint8_t fcb\<close> of the builders belong to the function and not to a station; they are part of the state here, so that one station
  runs in the process. \<open>None\<close> is undefined behaviour. \<open>c_pad\<close> is here the number of unused bytes behind the node structure that every report overruns.
\<close>

section \<open>Constants\<close>

definition IEC101_CTRL_DIR_DOWN :: nat where "IEC101_CTRL_DIR_DOWN = 1"
definition IEC101_CTRL_FCB_OPPO_NONE :: nat where "IEC101_CTRL_FCB_OPPO_NONE = 0"
definition IEC101_CTRL_FCV_ENABLE :: nat where "IEC101_CTRL_FCV_ENABLE = 1"
definition IEC101_CTRL_FCV_DISABLE :: nat where "IEC101_CTRL_FCV_DISABLE = 0"
definition IEC101_HEARTBEART_TIMEOUT :: int where "IEC101_HEARTBEART_TIMEOUT = 1000"
definition IEC10X_CALL_PULSE_TIMEOUT :: int where "IEC10X_CALL_PULSE_TIMEOUT = 30 * 1000"

lemmas iec101_downs = IEC101_CTRL_DIR_DOWN_def IEC101_CTRL_FCB_OPPO_NONE_def IEC101_CTRL_FCV_ENABLE_def IEC101_CTRL_FCV_DISABLE_def

definition iec101_ctrl_down :: "nat \<Rightarrow> nat \<Rightarrow> nat \<Rightarrow> nat \<Rightarrow> nat \<Rightarrow> u8" where
  "iec101_ctrl_down func fcv fcb prm dir = word_of_nat (func mod 16 + 16 * fcv + 32 * fcb + 64 * prm + 128 * dir)"

definition iec101_asdu_pn :: "bytes \<Rightarrow> nat option" where
  "iec101_asdu_pn buf = map_option (\<lambda>b. unat b div 64 mod 2) (rd buf 9)"

text \<open>The number of an event, taken for that of a state: \<open>stat.yk = IEC10X_YK_CMD_FAILD\<close> assigns a value of the wrong enumeration.\<close>

fun stat_of_service :: "Ie10xServeice_E \<Rightarrow> Iec10xStat_E" where
  "stat_of_service IEC10X_CLOCK_SYNC = IEC10X_STA_LINK_INIT"
| "stat_of_service IEC10X_CONNECTED = IEC10X_STA_LINK_OPEN"
| "stat_of_service IEC10X_DISCONNECTED = IEC10X_STA_LINK_CONNECT"
| "stat_of_service IEC10X_CALL_ALL_SUCCESS = IEC10X_STA_LINK_CONNECT_OK"
| "stat_of_service IEC10X_CALL_ALL_FAILD = IEC10X_STA_LINK_DISCONNECT"
| "stat_of_service IEC10X_CALL_PULSE_SUCCESS = IEC10X_STA_LINK_IDLE"
| "stat_of_service IEC10X_CALL_PULSE_FAILD = IEC10X_STA_LINK_CLOSE"
| "stat_of_service IEC10X_YT_CMD_SUCCESS = IEC10X_STA_CALL_ALL_IDLE"
| "stat_of_service IEC10X_YT_CMD_FAILD = IEC10X_STA_CALL_ALL_START"
| "stat_of_service IEC10X_YK_CMD_SUCCESS = IEC10X_STA_CALL_ALL_CONFIRM"
| "stat_of_service IEC10X_YK_CMD_FAILD = IEC10X_STA_CALL_ALL_YX"
| "stat_of_service IEC10X_YX_SPON_SUCCESS = IEC10X_STA_CALL_ALL_YC"
| "stat_of_service IEC10X_YX_SPON_FAILD = IEC10X_STA_CALL_ALL_SUCCESS"
| "stat_of_service IEC10X_YC_SPON_SUCCESS = IEC10X_STA_CALL_ALL_FAILD"
| "stat_of_service IEC10X_YC_SPON_FAILD = IEC10X_STA_CALL_PULSE_IDLE"

section \<open>State\<close>

record ('s, 'p, 'd) iec101m_t =
  c_addr :: u16
  c_stat :: Iec10xState_T
  c_time :: Iec10xTime_T
  c_val_cb :: "('p \<Rightarrow> DevNodeInfo_T \<Rightarrow> DevValue_U \<Rightarrow> 'd \<Rightarrow> 'd) option"
  c_val_priv :: 'p
  c_serv_cb :: "('p \<Rightarrow> Ie10xServeice_E \<Rightarrow> 'd \<Rightarrow> 'd) option"
  c_serv_priv :: 'p
  c_link_ctx :: "'s ProtoPortCtx"
  c_lnk :: 's
  c_array :: ByteArray_T
  c_tack :: int
  c_fcb_1 :: u8
  c_fcb_2 :: u8
  c_app :: 'd
  c_running :: bool
  c_started :: bool
  c_pad :: nat

type_synonym ('s, 'p, 'd) iec101_m_result = "(int \<times> ('s, 'p, 'd) iec101m_t) option"

definition c_set_init :: "Iec10xStat_E \<Rightarrow> ('s, 'p, 'd) iec101m_t \<Rightarrow> ('s, 'p, 'd) iec101m_t" where
  "c_set_init st s = s\<lparr>c_stat := (c_stat s)\<lparr>st_init := st\<rparr>\<rparr>"

definition c_set_callall :: "Iec10xStat_E \<Rightarrow> ('s, 'p, 'd) iec101m_t \<Rightarrow> ('s, 'p, 'd) iec101m_t" where
  "c_set_callall st s = s\<lparr>c_stat := (c_stat s)\<lparr>st_callall := st\<rparr>\<rparr>"

definition c_set_callpulse :: "Iec10xStat_E \<Rightarrow> ('s, 'p, 'd) iec101m_t \<Rightarrow> ('s, 'p, 'd) iec101m_t" where
  "c_set_callpulse st s = s\<lparr>c_stat := (c_stat s)\<lparr>st_callpulse := st\<rparr>\<rparr>"

definition c_set_yt :: "Iec10xStat_E \<Rightarrow> ('s, 'p, 'd) iec101m_t \<Rightarrow> ('s, 'p, 'd) iec101m_t" where
  "c_set_yt st s = s\<lparr>c_stat := (c_stat s)\<lparr>st_yt := st\<rparr>\<rparr>"

definition c_set_yk :: "Iec10xStat_E \<Rightarrow> ('s, 'p, 'd) iec101m_t \<Rightarrow> ('s, 'p, 'd) iec101m_t" where
  "c_set_yk st s = s\<lparr>c_stat := (c_stat s)\<lparr>st_yk := st\<rparr>\<rparr>"

lemmas c_set_defs = c_set_init_def c_set_callall_def c_set_callpulse_def c_set_yt_def c_set_yk_def

definition iec101_m_value :: "('s, 'p, 'd) iec101m_t \<Rightarrow> DevNodeInfo_T \<Rightarrow> DevValue_U \<Rightarrow> ('s, 'p, 'd) iec101m_t" where
  "iec101_m_value s node v =
     (case c_val_cb s of None \<Rightarrow> s | Some cb \<Rightarrow> s\<lparr>c_app := cb (c_val_priv s) node v (c_app s)\<rparr>)"

text \<open>The service callback is called with the private pointer of the value callback.\<close>

definition iec101_m_serve :: "('s, 'p, 'd) iec101m_t \<Rightarrow> Ie10xServeice_E \<Rightarrow> ('s, 'p, 'd) iec101m_t" where
  "iec101_m_serve s ev =
     (case c_serv_cb s of None \<Rightarrow> s | Some cb \<Rightarrow> s\<lparr>c_app := cb (c_val_priv s) ev (c_app s)\<rparr>)"

definition iec101_m_write :: "('s, 'p, 'd) iec101m_t \<Rightarrow> bytes \<Rightarrow> ('s, 'p, 'd) iec101_m_result" where
  "iec101_m_write s msg = do { (_, l) \<leftarrow> link_send (c_link_ctx s) (c_lnk s) msg; Some (0, s\<lparr>c_lnk := l\<rparr>) }"

section \<open>Fixed frames\<close>

definition iec101_m_stable :: "('s, 'p, 'd) iec101m_t \<Rightarrow> nat \<Rightarrow> nat \<Rightarrow> nat \<Rightarrow> ('s, 'p, 'd) iec101_m_result" where
  "iec101_m_stable s fcb fcv func =
     (let head = [IEC101_STABLE_BEGING, iec101_ctrl_down func fcv fcb IEC101_CTRL_PRM_MASTER IEC101_CTRL_DIR_UP] @ le_bytes 2 (unat (c_addr s))
      in iec101_m_write s (head @ [head ! 1 + head ! 2 + head ! 3, IEC101_STABLE_END]))"

definition iec101_m_build_request_user_ack :: "('s, 'p, 'd) iec101m_t \<Rightarrow> ('s, 'p, 'd) iec101_m_result" where
  "iec101_m_build_request_user_ack s =
     (let fcb = NOT (c_fcb_1 s)
      in iec101_m_stable (s\<lparr>c_fcb_1 := fcb\<rparr>) (unat fcb mod 2) IEC101_CTRL_FCV_ENABLE IEC101_CTRL_REQ_USR_DATA_1)"

definition iec101_m_build_request_user_data :: "('s, 'p, 'd) iec101m_t \<Rightarrow> ('s, 'p, 'd) iec101_m_result" where
  "iec101_m_build_request_user_data s =
     (let fcb = NOT (c_fcb_2 s)
      in iec101_m_stable (s\<lparr>c_fcb_2 := fcb\<rparr>) (unat fcb mod 2) IEC101_CTRL_FCV_ENABLE IEC101_CTRL_REQ_USR_DATA_2)"

definition iec101_m_build_request_link_status :: "('s, 'p, 'd) iec101m_t \<Rightarrow> ('s, 'p, 'd) iec101_m_result" where
  "iec101_m_build_request_link_status s =
     iec101_m_stable s IEC101_CTRL_FCB_OPPO_NONE IEC101_CTRL_FCV_DISABLE IEC101_CTRL_REQ_LINK_STATUS"

definition iec101_m_build_reset_remote_link :: "('s, 'p, 'd) iec101m_t \<Rightarrow> ('s, 'p, 'd) iec101_m_result" where
  "iec101_m_build_reset_remote_link s =
     iec101_m_stable s IEC101_CTRL_FCB_OPPO_NONE IEC101_CTRL_FCV_DISABLE IEC101_CTRL_RESET_LINK"

section \<open>Variable frames\<close>

text \<open>The 256-byte buffer up to the common address, with the bytes of the number and of the reason; cleared behind it.\<close>

definition iec101_m_begin :: "('s, 'p, 'd) iec101m_t \<Rightarrow> nat \<Rightarrow> u8 \<Rightarrow> u8 \<Rightarrow> bytes" where
  "iec101_m_begin s type num reason =
     [IEC101_VARIABLE_BEGING, 0, 0, IEC101_VARIABLE_BEGING,
      iec101_ctrl_down IEC101_CTRL_SEND_USR_DATA_ACK IEC101_CTRL_FCV_ENABLE IEC101_CTRL_FCB_OPPO_NONE IEC101_CTRL_PRM_MASTER IEC101_CTRL_DIR_DOWN] @
     le_bytes 2 (unat (c_addr s)) @ [lo8 type, num, reason] @ le_bytes 2 (unat (c_addr s)) @ replicate (IEC101_MAX_BUF_LEN - 12) 0"

definition iec101_m_num :: "nat \<Rightarrow> nat \<Rightarrow> u8" where
  "iec101_m_num sq num = lo8 (num mod 128 + 128 * sq)"

definition iec101_m_finish :: "('s, 'p, 'd) iec101m_t \<Rightarrow> bytes \<Rightarrow> nat \<Rightarrow> ('s, 'p, 'd) iec101_m_result" where
  "iec101_m_finish s buf l = do { msg \<leftarrow> iec101_end buf l; iec101_m_write s msg }"

section \<open>Reports\<close>

text \<open>The loops over consecutive objects and over objects with addresses: \<open>w\<close> bytes of value, \<open>step\<close> bytes of element.\<close>

fun iec101_m_objects_sq ::
  "bytes \<Rightarrow> DevTypeMod_E \<Rightarrow> DevDataType_E \<Rightarrow> nat \<Rightarrow> nat \<Rightarrow> nat \<Rightarrow> nat \<Rightarrow> nat \<Rightarrow> nat \<Rightarrow> ('s, 'p, 'd) iec101m_t \<Rightarrow> ('s, 'p, 'd) iec101m_t option" where
  "iec101_m_objects_sq rbuf mode ty w step addr ptr i 0 s = Some s"
| "iec101_m_objects_sq rbuf mode ty w step addr ptr i (Suc n) s =
     do {
       v \<leftarrow> map_option le_val (rdn rbuf ptr w);
       let node = \<lparr>node_mode = mode, node_addr = word_of_nat (addr + i), node_type = ty\<rparr>;
       iec101_m_objects_sq rbuf mode ty w step addr (ptr + step) (i + 1) n (iec101_m_value s node (word_of_nat v))
     }"

fun iec101_m_objects ::
  "bytes \<Rightarrow> DevTypeMod_E \<Rightarrow> DevDataType_E \<Rightarrow> nat \<Rightarrow> nat \<Rightarrow> nat \<Rightarrow> nat \<Rightarrow> ('s, 'p, 'd) iec101m_t \<Rightarrow> ('s, 'p, 'd) iec101m_t option" where
  "iec101_m_objects rbuf mode ty w step ptr 0 s = Some s"
| "iec101_m_objects rbuf mode ty w step ptr (Suc n) s =
     do {
       addr \<leftarrow> iec101_info_addr rbuf ptr;
       v \<leftarrow> map_option le_val (rdn rbuf (ptr + 2) w);
       let node = \<lparr>node_mode = mode, node_addr = word_of_nat addr, node_type = ty\<rparr>;
       iec101_m_objects rbuf mode ty w step (ptr + 2 + step) n (iec101_m_value s node (word_of_nat v))
     }"

definition iec101_m_report ::
  "DevTypeMod_E \<Rightarrow> DevDataType_E \<Rightarrow> nat \<Rightarrow> nat \<Rightarrow> bytes \<Rightarrow> ('s, 'p, 'd) iec101m_t \<Rightarrow> ('s, 'p, 'd) iec101m_t option" where
  "iec101_m_report mode ty w step rbuf s =
     do {
       n \<leftarrow> iec101_asdu_num rbuf;
       sq \<leftarrow> iec101_asdu_sq rbuf;
       _ \<leftarrow> iec101_node_memset (c_pad s);
       if sq = 1
       then do { addr \<leftarrow> iec101_info_addr rbuf 12; iec101_m_objects_sq rbuf mode ty w step addr 14 0 n s }
       else iec101_m_objects rbuf mode ty w step 12 n s
     }"

definition iec101_m_asdu_yx :: "('s, 'p, 'd) iec101m_t \<Rightarrow> bytes \<Rightarrow> ('s, 'p, 'd) iec101_m_result" where
  "iec101_m_asdu_yx s rbuf =
     do {
       type \<leftarrow> iec101_asdu_type rbuf;
       reason \<leftarrow> iec101_asdu_reason rbuf;
       let ack = (\<lambda>s. do { (_, s) \<leftarrow> iec101_m_build_request_user_ack s; Some (0, s) });
       if \<not> (reason = IEC10X_COT_PER_CYC \<or> reason = IEC10X_COT_INTROGEN \<or> reason = IEC10X_COT_SPONT) then Some (-1, s)
       else if type = IEC10X_M_SP_NA_1 \<or> type = IEC10X_M_DP_NA_1
       then do { s \<leftarrow> iec101_m_report DEV_TYPE_YX DATA_SINT_8 1 1 rbuf s; ack s }
       else if type = IEC10X_M_SP_TB_1 \<or> type = IEC10X_M_DP_TB_1 then ack s
       else Some (-1, s)
     }"

definition iec101_m_asdu_yc :: "('s, 'p, 'd) iec101m_t \<Rightarrow> bytes \<Rightarrow> ('s, 'p, 'd) iec101_m_result" where
  "iec101_m_asdu_yc s rbuf =
     do {
       type \<leftarrow> iec101_asdu_type rbuf;
       reason \<leftarrow> iec101_asdu_reason rbuf;
       let ack = (\<lambda>s. do { (_, s) \<leftarrow> iec101_m_build_request_user_ack s; Some (0, s) });
       if \<not> (reason = IEC10X_COT_PER_CYC \<or> reason = IEC10X_COT_INTROGEN \<or> reason = IEC10X_COT_SPONT) then Some (-1, s)
       else do {
         _ \<leftarrow> iec101_info_addr rbuf 12;
         if type = IEC10X_M_ME_NA_1
         then do { s \<leftarrow> iec101_m_report DEV_TYPE_YC DATA_SINT_16 2 3 rbuf s; ack (c_set_callall IEC10X_STA_CALL_ALL_YC s) }
         else if type = IEC10X_M_ME_NC_1
         then do { s \<leftarrow> iec101_m_report DEV_TYPE_YC DATA_FLOAT 4 5 rbuf s; ack s }
         else if type = IEC10X_M_ME_TD_1 \<or> type = IEC10X_M_ME_TF_1 then ack s
         else Some (-1, s)
       }
     }"

text \<open>Counters are accepted with the reason \<open>IEC10X_COT_REQ\<close> only.\<close>

definition iec101_m_asdu_ym :: "('s, 'p, 'd) iec101m_t \<Rightarrow> bytes \<Rightarrow> ('s, 'p, 'd) iec101_m_result" where
  "iec101_m_asdu_ym s rbuf =
     do {
       type \<leftarrow> iec101_asdu_type rbuf;
       reason \<leftarrow> iec101_asdu_reason rbuf;
       let ack = (\<lambda>s. do { (_, s) \<leftarrow> iec101_m_build_request_user_ack s; Some (0, s) });
       if reason \<noteq> IEC10X_COT_REQ then Some (-1, s)
       else if type = IEC10X_M_IT_NA_1 then do { s \<leftarrow> iec101_m_report DEV_TYPE_YM DATA_SINT_32 4 5 rbuf s; ack s }
       else if type = IEC10X_M_IT_TA_1 then ack s
       else Some (-1, s)
     }"

section \<open>Confirmations of commands\<close>

text \<open>\<open>*ptr &= 0x7F\<close> on \<open>n\<close> bytes at a distance of \<open>step\<close>.\<close>

fun iec101_m_clear :: "nat \<Rightarrow> nat \<Rightarrow> bytes \<Rightarrow> nat \<Rightarrow> bytes option" where
  "iec101_m_clear step ptr buf 0 = Some buf"
| "iec101_m_clear step ptr buf (Suc n) =
     do { b \<leftarrow> rd buf ptr; buf \<leftarrow> wr buf ptr (b AND 0x7F); iec101_m_clear step (ptr + step) buf n }"

text \<open>In the acknowledgement of a set point \<open>ptr\<close> is \<open>NULL\<close> and never set; a null pointer is moved and subtracted from the buffer.\<close>

definition null_moved :: "nat \<Rightarrow> nat option" where
  "null_moved n = None"

definition iec101_m_build_yt_ack :: "('s, 'p, 'd) iec101m_t \<Rightarrow> bytes \<Rightarrow> ('s, 'p, 'd) iec101_m_result" where
  "iec101_m_build_yt_ack s rbuf =
     (if st_init (c_stat s) \<noteq> IEC10X_STA_LINK_IDLE then Some (-1, s)
      else do {
        type \<leftarrow> iec101_asdu_type rbuf;
        n \<leftarrow> iec101_asdu_num rbuf;
        sq \<leftarrow> iec101_asdu_sq rbuf;
        let buf = iec101_m_begin s type (iec101_m_num sq n) (word_of_nat IEC10X_COT_ACT);
        let copy = (\<lambda>w.
          if sq = 1 then do {
            rbuf \<leftarrow> iec101_m_clear (w + 1) (14 + w) rbuf n;
            els \<leftarrow> rdn rbuf 14 (n * (w + 1));
            buf \<leftarrow> wrn buf 12 els;
            ptr \<leftarrow> null_moved (n * (w + 1));
            iec101_m_finish s buf (ptr + 2)
          } else do {
            rbuf \<leftarrow> iec101_m_clear (w + 3) (14 + w) rbuf n;
            els \<leftarrow> rdn rbuf 12 (n * (w + 3));
            buf \<leftarrow> wrn buf 12 els;
            ptr \<leftarrow> null_moved (n * (w + 3));
            iec101_m_finish s buf (ptr + 2)
          });
        if type = IEC10X_C_SE_NA_1 then copy 2 else if type = IEC10X_C_SE_NC_1 then copy 4 else Some (-1, s)
      })"

definition iec101_m_asdu_yt :: "('s, 'p, 'd) iec101m_t \<Rightarrow> bytes \<Rightarrow> ('s, 'p, 'd) iec101_m_result" where
  "iec101_m_asdu_yt s rbuf =
     do {
       reason \<leftarrow> iec101_asdu_reason rbuf;
       pn \<leftarrow> iec101_asdu_pn rbuf;
       if pn = 1 then Some (0, c_set_yt (stat_of_service IEC10X_YT_CMD_FAILD) s)
       else if reason = IEC10X_COT_ACTCON
       then do { (_, s) \<leftarrow> iec101_m_build_yt_ack (c_set_yt IEC10X_STA_YT_CMD_EXEC s) rbuf; Some (0, s) }
       else if reason = IEC10X_COT_ACTTERM then Some (0, c_set_yt IEC10X_STA_YT_CMD_SUCCESS s)
       else Some (0, c_set_yt (stat_of_service IEC10X_YT_CMD_FAILD) s)
     }"

definition iec101_m_build_yk_ack :: "('s, 'p, 'd) iec101m_t \<Rightarrow> bytes \<Rightarrow> ('s, 'p, 'd) iec101_m_result" where
  "iec101_m_build_yk_ack s rbuf =
     (if st_init (c_stat s) \<noteq> IEC10X_STA_LINK_IDLE then Some (-1, s)
      else do {
        type \<leftarrow> iec101_asdu_type rbuf;
        n \<leftarrow> iec101_asdu_num rbuf;
        sq \<leftarrow> iec101_asdu_sq rbuf;
        let buf = iec101_m_begin s type (iec101_m_num sq n) (word_of_nat IEC10X_COT_ACT);
        if type = IEC10X_C_SC_NA_1 \<or> type = IEC10X_C_DC_NA_1
        then if sq = 1 then do {
            els \<leftarrow> rdn rbuf 12 (n + 2);
            buf \<leftarrow> wrn buf 12 els;
            buf \<leftarrow> iec101_m_clear 1 14 buf n;
            iec101_m_finish s buf (14 + n + 2)
          } else do {
            els \<leftarrow> rdn rbuf 12 (n * 3);
            buf \<leftarrow> wrn buf 12 els;
            buf \<leftarrow> iec101_m_clear 3 14 buf n;
            iec101_m_finish s buf (12 + n * 3 + 2)
          }
        else Some (-1, s)
      })"

definition iec101_m_asdu_yk :: "('s, 'p, 'd) iec101m_t \<Rightarrow> bytes \<Rightarrow> ('s, 'p, 'd) iec101_m_result" where
  "iec101_m_asdu_yk s rbuf =
     do {
       reason \<leftarrow> iec101_asdu_reason rbuf;
       pn \<leftarrow> iec101_asdu_pn rbuf;
       if pn = 1 then Some (0, c_set_yk (stat_of_service IEC10X_YK_CMD_FAILD) s)
       else if reason = IEC10X_COT_ACTCON
       then do { (_, s) \<leftarrow> iec101_m_build_yk_ack (c_set_yk IEC10X_STA_YK_CMD_EXEC s) rbuf; Some (0, s) }
       else if reason = IEC10X_COT_ACTTERM then Some (0, c_set_yk IEC10X_STA_YK_CMD_SUCCESS s)
       else Some (0, c_set_yk (stat_of_service IEC10X_YK_CMD_FAILD) s)
     }"

section \<open>Confirmations of interrogations\<close>

definition iec101_m_asdu_call_all :: "('s, 'p, 'd) iec101m_t \<Rightarrow> bytes \<Rightarrow> ('s, 'p, 'd) iec101_m_result" where
  "iec101_m_asdu_call_all s rbuf =
     do {
       qoi \<leftarrow> rd rbuf 14;
       addr \<leftarrow> iec101_info_addr rbuf 12;
       reason \<leftarrow> iec101_asdu_reason rbuf;
       if addr \<noteq> 0 then Some (-1, s)
       else if reason = IEC10X_COT_ACTCON
       then if unat qoi = IEC10X_COT_INTROGEN
         then do { (_, s) \<leftarrow> iec101_m_build_request_user_ack (c_set_callall IEC10X_STA_CALL_ALL_YX s); Some (0, s) }
         else if unat qoi = IEC10X_COT_INTRO1 \<or> unat qoi = IEC10X_COT_INTRO2 then Some (0, s)
         else Some (-1, s)
       else if reason = IEC10X_COT_ACTTERM then Some (0, c_set_callall IEC10X_STA_CALL_ALL_SUCCESS s)
       else Some (0, s)
     }"

definition iec101_m_asdu_call_pulse :: "('s, 'p, 'd) iec101m_t \<Rightarrow> bytes \<Rightarrow> ('s, 'p, 'd) iec101_m_result" where
  "iec101_m_asdu_call_pulse s rbuf =
     do {
       qoi \<leftarrow> rd rbuf 14;
       addr \<leftarrow> iec101_info_addr rbuf 12;
       reason \<leftarrow> iec101_asdu_reason rbuf;
       if addr \<noteq> 0 then Some (-1, s)
       else if reason = IEC10X_COT_ACTCON
       then if unat qoi = IEC10X_COT_REQCOGEN
         then do { (_, s) \<leftarrow> iec101_m_build_request_user_ack (c_set_callpulse IEC10X_STA_CALL_PULSE_YM s); Some (0, s) }
         else if unat qoi = IEC10X_COT_REQCO1 \<or> unat qoi = IEC10X_COT_REQCO2 then Some (0, s)
         else Some (-1, s)
       else if reason = IEC10X_COT_ACTTERM then Some (0, c_set_callpulse IEC10X_STA_CALL_PULSE_SUCCESS s)
       else Some (0, s)
     }"

definition iec101_m_asdu_clock :: "('s, 'p, 'd) iec101m_t \<Rightarrow> ('s, 'p, 'd) iec101_m_result" where
  "iec101_m_asdu_clock s = Some (0, s)"

section \<open>Received frames\<close>

definition iec101_m_deal_10 :: "('s, 'p, 'd) iec101m_t \<Rightarrow> bytes \<Rightarrow> nat \<Rightarrow> ('s, 'p, 'd) iec101_m_result" where
  "iec101_m_deal_10 s buf len =
     do {
       cs_temp \<leftarrow> iec101_cs_loop buf 1 (len - 2) 0;
       cs \<leftarrow> rd buf 4;
       fin \<leftarrow> rd buf 5;
       ctrl \<leftarrow> rd buf 1;
       let cfun = iec101_ctrl_func ctrl;
       if cs \<noteq> cs_temp then Some (-1, s)
       else if fin \<noteq> 0x16 then Some (-1, s)
       else if iec101_ctrl_prm ctrl = IEC101_CTRL_PRM_SLAVE
       then if cfun = IEC101_CTRL_RES_LINK_STATUS
         then do { (_, s) \<leftarrow> iec101_m_build_reset_remote_link s; Some (0, c_set_init IEC10X_STA_LINK_CONNECT_OK s) }
         else if cfun = IEC101_CTRL_CONFIRM_ACK then Some (0, s\<lparr>c_tack := 1\<rparr>)
         else Some (0, s)
       else Some (0, s)
     }"

text \<open>Frames with the function of a send fall through to the dispatch of the answers, and counters fall through to the interrogation.\<close>

definition iec101_m_deal_68 :: "('s, 'p, 'd) iec101m_t \<Rightarrow> bytes \<Rightarrow> nat \<Rightarrow> ('s, 'p, 'd) iec101_m_result" where
  "iec101_m_deal_68 s buf len =
     do {
       cs_temp \<leftarrow> iec101_cs_loop buf 4 (len - 2) 0;
       cs \<leftarrow> rd buf (len - 2);
       fin \<leftarrow> rd buf (len - 1);
       flen \<leftarrow> rd buf 1;
       flen_cfm \<leftarrow> rd buf 2;
       if cs \<noteq> cs_temp then Some (-1, s)
       else if fin \<noteq> IEC101_VARIABLE_END then Some (-1, s)
       else if unat flen + 6 \<noteq> len then Some (-1, s)
       else if flen \<noteq> flen_cfm then Some (-1, s)
       else do {
         ctrl \<leftarrow> rd buf 4;
         let cfun = iec101_ctrl_func ctrl;
         type \<leftarrow> iec101_asdu_type buf;
         (_, s) \<leftarrow> (if cfun = IEC101_CTRL_SEND_USR_DATA_ACK \<and> type = IEC10X_C_CS_NA_1 then iec101_m_asdu_clock s else Some (0, s));
         if cfun = IEC101_CTRL_SEND_USR_DATA_ACK \<or> cfun = IEC101_CTRL_RES_USR_DATA_ACK
         then do {
           (_, s) \<leftarrow>
             (if type \<in> {IEC10X_M_SP_NA_1, IEC10X_M_DP_NA_1, IEC10X_M_SP_TB_1, IEC10X_M_DP_TB_1} then iec101_m_asdu_yx s buf
              else if type \<in> {IEC10X_M_ME_NA_1, IEC10X_M_ME_NC_1, IEC10X_M_ME_TD_1, IEC10X_M_ME_TF_1} then iec101_m_asdu_yc s buf
              else if type \<in> {IEC10X_M_IT_NA_1, IEC10X_M_IT_TA_1}
              then do { (_, s) \<leftarrow> iec101_m_asdu_ym s buf; iec101_m_asdu_call_all s buf }
              else if type = IEC10X_C_IC_NA_1 then iec101_m_asdu_call_all s buf
              else if type = IEC10X_C_CI_NA_1 then iec101_m_asdu_call_pulse s buf
              else if type = IEC10X_C_SC_NA_1 \<or> type = IEC10X_C_DC_NA_1 then iec101_m_asdu_yk s buf
              else if type = IEC10X_C_SE_NA_1 \<or> type = IEC10X_C_SE_NC_1 then iec101_m_asdu_yt s buf
              else Some (0, s));
           Some (0, s)
         }
         else Some (0, s)
       }
     }"

end
