(* ===== verification/Iec101MasterApi.thy ===== *)
theory Iec101MasterApi
  imports Iec101Master
begin

text \<open>
  The serial IEC 101 controlling station, second part of \<open>wow_iec101m.c\<close>: the state machines, the search for frames, the thread and the calls of
  the application. The clock readings of one round are a function \<open>t\<close> of the position of the call.
\<close>

section \<open>State machines\<close>

definition iec101_m_reset_param :: "('s, 'p, 'd) iec101m_t \<Rightarrow> ('s, 'p, 'd) iec101m_t" where
  "iec101_m_reset_param s =
     s\<lparr>c_tack := 0,
       c_stat := \<lparr>st_init = IEC10X_STA_LINK_INIT, st_callall = IEC10X_STA_CALL_ALL_IDLE,
         st_callpulse = IEC10X_STA_CALL_PULSE_IDLE, st_yt = IEC10X_STA_YT_CMD_IDLE,
         st_yk = IEC10X_STA_YK_CMD_IDLE, st_test = IE10X_STA_TESTER_START\<rparr>\<rparr>"

definition iec101_m_state_machine_work :: "int \<Rightarrow> int \<Rightarrow> ('s, 'p, 'd) iec101m_t \<Rightarrow> ('s, 'p, 'd) iec101m_t option" where
  "iec101_m_state_machine_work t t' s =
     (case st_init (c_stat s) of
        IEC10X_STA_LINK_INIT \<Rightarrow> Some (c_set_init IEC10X_STA_LINK_OPEN (iec101_m_reset_param s))
      | IEC10X_STA_LINK_OPEN \<Rightarrow>
          do { (_, s) \<leftarrow> iec101_m_build_request_link_status s; Some (c_set_init IEC10X_STA_LINK_CONNECT s) }
      | IEC10X_STA_LINK_CONNECT_OK \<Rightarrow>
          Some (if c_tack s = 1
                then c_set_init IEC10X_STA_LINK_IDLE (iec101_m_serve (s\<lparr>c_tack := 0\<rparr>) IEC10X_CONNECTED) else s)
      | IEC10X_STA_LINK_DISCONNECT \<Rightarrow>
          do {
            let s = c_set_init IEC10X_STA_LINK_INIT s;
            l \<leftarrow> link_close (c_link_ctx s) (c_lnk s);
            Some (iec101_m_serve (s\<lparr>c_lnk := l\<rparr>) IEC10X_DISCONNECTED)
          }
      | IEC10X_STA_LINK_CLOSE \<Rightarrow> Some (c_set_init IEC10X_STA_LINK_INIT s)
      | IEC10X_STA_LINK_IDLE \<Rightarrow>
          (if t - tm_init (c_time s) > IEC101_HEARTBEART_TIMEOUT
           then do {
             (_, s) \<leftarrow> iec101_m_build_request_user_data s;
             Some (s\<lparr>c_time := (c_time s)\<lparr>tm_init := t'\<rparr>\<rparr>)
           }
           else Some s)
      | _ \<Rightarrow> Some s)"

text \<open>\<open>if(tack == 1) { build_request_user_ack(); tack = 0; }\<close>\<close>

definition iec101_m_poll :: "('s, 'p, 'd) iec101m_t \<Rightarrow> ('s, 'p, 'd) iec101m_t option" where
  "iec101_m_poll s =
     (if c_tack s = 1
      then do { (_, s) \<leftarrow> iec101_m_build_request_user_ack s; Some (s\<lparr>c_tack := 0\<rparr>) }
      else Some s)"

text \<open>A time-out assigns the number of an event to the state.\<close>

definition iec101_m_state_machine_callall :: "int \<Rightarrow> ('s, 'p, 'd) iec101m_t \<Rightarrow> ('s, 'p, 'd) iec101m_t option" where
  "iec101_m_state_machine_callall t s =
     (let late = (\<lambda>s. if t - tm_callall (c_time s) > IEC10X_CALL_ALL_TIMEOUT then c_set_callall (stat_of_service IEC10X_CALL_ALL_FAILD) s else s) in
      case st_callall (c_stat s) of
        IEC10X_STA_CALL_ALL_START \<Rightarrow>
          Some (c_set_callall IEC10X_STA_CALL_ALL_CONFIRM (s\<lparr>c_time := (c_time s)\<lparr>tm_callall := t\<rparr>\<rparr>))
      | IEC10X_STA_CALL_ALL_CONFIRM \<Rightarrow> do { s \<leftarrow> iec101_m_poll s; Some (late s) }
      | IEC10X_STA_CALL_ALL_YX \<Rightarrow> Some (late s)
      | IEC10X_STA_CALL_ALL_YC \<Rightarrow> Some (late s)
      | IEC10X_STA_CALL_ALL_SUCCESS \<Rightarrow>
          do {
            (_, s) \<leftarrow> iec101_m_build_request_user_ack s;
            Some (iec101_m_serve (c_set_callall IEC10X_STA_CALL_ALL_IDLE s) IEC10X_CALL_ALL_SUCCESS)
          }
      | IEC10X_STA_CALL_ALL_FAILD \<Rightarrow> Some (iec101_m_serve (c_set_callall IEC10X_STA_CALL_ALL_IDLE s) IEC10X_CALL_ALL_FAILD)
      | _ \<Rightarrow> Some s)"

definition iec101_m_state_machine_callpulse :: "int \<Rightarrow> ('s, 'p, 'd) iec101m_t \<Rightarrow> ('s, 'p, 'd) iec101m_t option" where
  "iec101_m_state_machine_callpulse t s =
     (let late = (\<lambda>s. if t - tm_callpulse (c_time s) > IEC10X_CALL_PULSE_TIMEOUT
            then c_set_callpulse (stat_of_service IEC10X_CALL_PULSE_FAILD) s else s) in
      case st_callpulse (c_stat s) of
        IEC10X_STA_CALL_PULSE_START \<Rightarrow>
          Some (c_set_callpulse IEC10X_STA_CALL_PULSE_CONFIRM (s\<lparr>c_time := (c_time s)\<lparr>tm_callpulse := t\<rparr>\<rparr>))
      | IEC10X_STA_CALL_PULSE_CONFIRM \<Rightarrow> do { s \<leftarrow> iec101_m_poll s; Some (late s) }
      | IEC10X_STA_CALL_PULSE_YM \<Rightarrow> Some (late s)
      | IEC10X_STA_CALL_PULSE_SUCCESS \<Rightarrow>
          do {
            (_, s) \<leftarrow> iec101_m_build_request_user_ack s;
            let s = iec101_m_serve (c_set_callpulse IEC10X_STA_CALL_PULSE_IDLE s) IEC10X_CALL_PULSE_SUCCESS;
            Some (s\<lparr>c_time := (c_time s)\<lparr>tm_init := t\<rparr>\<rparr>)
          }
      | IEC10X_STA_CALL_PULSE_FAILD \<Rightarrow> Some (iec101_m_serve (c_set_callpulse IEC10X_STA_CALL_PULSE_IDLE s) IEC10X_CALL_PULSE_FAILD)
      | _ \<Rightarrow> Some s)"

definition iec101_m_state_machine_yt :: "int \<Rightarrow> ('s, 'p, 'd) iec101m_t \<Rightarrow> ('s, 'p, 'd) iec101m_t option" where
  "iec101_m_state_machine_yt t s =
     (let wait = (\<lambda>s. do {
        s \<leftarrow> iec101_m_poll s;
        Some (if t - tm_yt (c_time s) > IEC10X_YT_CMD_TIMEOUT then c_set_yt IEC10X_STA_YT_CMD_FAILD s else s)
      }) in
      case st_yt (c_stat s) of
        IEC10X_STA_YT_CMD_START \<Rightarrow> Some (c_set_yt IEC10X_STA_YT_CMD_CONFIRM (s\<lparr>c_time := (c_time s)\<lparr>tm_yt := t\<rparr>\<rparr>))
      | IEC10X_STA_YT_CMD_CONFIRM \<Rightarrow> wait s
      | IEC10X_STA_YT_CMD_EXEC \<Rightarrow> wait s
      | IEC10X_STA_YT_CMD_SUCCESS \<Rightarrow> Some (iec101_m_serve (c_set_yt IEC10X_STA_YT_CMD_IDLE s) IEC10X_YT_CMD_SUCCESS)
      | IEC10X_STA_YT_CMD_FAILD \<Rightarrow> Some (iec101_m_serve (c_set_yt IEC10X_STA_YT_CMD_IDLE s) IEC10X_YT_CMD_FAILD)
      | _ \<Rightarrow> Some s)"

definition iec101_m_state_machine_yk :: "int \<Rightarrow> ('s, 'p, 'd) iec101m_t \<Rightarrow> ('s, 'p, 'd) iec101m_t option" where
  "iec101_m_state_machine_yk t s =
     (let wait = (\<lambda>s. do {
        s \<leftarrow> iec101_m_poll s;
        Some (if t - tm_yk (c_time s) > IEC10X_YK_CMD_TIMEOUT then c_set_yk IEC10X_STA_YK_CMD_FAILD s else s)
      }) in
      case st_yk (c_stat s) of
        IEC10X_STA_YK_CMD_START \<Rightarrow> Some (c_set_yk IEC10X_STA_YK_CMD_CONFIRM (s\<lparr>c_time := (c_time s)\<lparr>tm_yk := t\<rparr>\<rparr>))
      | IEC10X_STA_YK_CMD_CONFIRM \<Rightarrow> wait s
      | IEC10X_STA_YK_CMD_EXEC \<Rightarrow> wait s
      | IEC10X_STA_YK_CMD_SUCCESS \<Rightarrow> Some (iec101_m_serve (c_set_yk IEC10X_STA_YK_CMD_IDLE s) IEC10X_YK_CMD_SUCCESS)
      | IEC10X_STA_YK_CMD_FAILD \<Rightarrow> Some (iec101_m_serve (c_set_yk IEC10X_STA_YK_CMD_IDLE s) IEC10X_YK_CMD_FAILD)
      | _ \<Rightarrow> Some s)"

definition iec101_m_state_machine :: "(nat \<Rightarrow> int) \<Rightarrow> ('s, 'p, 'd) iec101m_t \<Rightarrow> ('s, 'p, 'd) iec101m_t option" where
  "iec101_m_state_machine t s =
     do {
       s \<leftarrow> iec101_m_state_machine_work (t 0) (t 1) s;
       if st_init (c_stat s) \<noteq> IEC10X_STA_LINK_IDLE then Some s
       else do {
         s \<leftarrow> iec101_m_state_machine_callall (t 2) s;
         s \<leftarrow> iec101_m_state_machine_callpulse (t 3) s;
         s \<leftarrow> iec101_m_state_machine_yt (t 4) s;
         iec101_m_state_machine_yk (t 5) s
       }
     }"

section \<open>Frames in the received bytes and the thread\<close>

definition iec101_m_drop :: "nat \<Rightarrow> ('s, 'p, 'd) iec101m_t \<Rightarrow> ('s, 'p, 'd) iec101m_t option" where
  "iec101_m_drop n s = do { (_, a) \<leftarrow> wow_byte_array_remove 0 n (c_array s); Some (s\<lparr>c_array := a\<rparr>) }"

definition iec101_m_exec_68 :: "nat \<Rightarrow> ('s, 'p, 'd) iec101m_t \<Rightarrow> ('s, 'p, 'd) iec101m_t option" where
  "iec101_m_exec_68 index_68 s =
     do {
       s \<leftarrow> iec101_m_drop index_68 s;
       let sz = wow_byte_array_size (Some (c_array s));
       if \<not> sz \<ge> int IEC101_STABLE_LEN then Some s
       else do {
         let data = ba_data (c_array s);
         tlen \<leftarrow> map_option unat (rd data 1);
         if \<not> sz \<ge> int (tlen + IEC101_STABLE_LEN) then Some s
         else do {
           e \<leftarrow> rd data (tlen + IEC101_STABLE_LEN - 1);
           if e = IEC101_VARIABLE_END
           then do {
             (_, s) \<leftarrow> iec101_m_deal_68 s data (tlen + IEC101_STABLE_LEN);
             iec101_m_drop (tlen + IEC101_STABLE_LEN) s
           }
           else iec101_m_drop 1 s
         }
       }
     }"

definition iec101_m_exec_10 :: "nat \<Rightarrow> ('s, 'p, 'd) iec101m_t \<Rightarrow> ('s, 'p, 'd) iec101m_t option" where
  "iec101_m_exec_10 index_10 s =
     do {
       s \<leftarrow> iec101_m_drop index_10 s;
       if \<not> wow_byte_array_size (Some (c_array s)) \<ge> int IEC101_STABLE_LEN then Some s
       else do {
         let data = ba_data (c_array s);
         e \<leftarrow> rd data (IEC101_STABLE_LEN - 1);
         if e = IEC101_VARIABLE_END
         then do { (_, s) \<leftarrow> iec101_m_deal_10 s data IEC101_STABLE_LEN; iec101_m_drop IEC101_STABLE_LEN s }
         else iec101_m_drop 1 s
       }
     }"

definition iec101_m_frame_parse :: "('s, 'p, 'd) iec101m_t \<Rightarrow> ('s, 'p, 'd) iec101m_t option" where
  "iec101_m_frame_parse s =
     do {
       index_10 \<leftarrow> wow_byte_array_find IEC101_STABLE_BEGING (c_array s);
       index_68 \<leftarrow> wow_byte_array_find IEC101_VARIABLE_BEGING (c_array s);
       if \<not> (index_10 \<ge> 0 \<or> index_68 \<ge> 0) then Some s
       else if index_10 < 0 \<and> index_68 \<ge> 0 then iec101_m_exec_68 (nat index_68) s
       else if index_10 \<ge> 0 \<and> index_68 < 0 then iec101_m_exec_10 (nat index_10) s
       else if index_10 < index_68 then iec101_m_exec_10 (nat index_10) s
       else iec101_m_exec_68 (nat index_68) s
     }"

definition iec101_m_exec_round ::
  "(nat \<Rightarrow> bool) \<Rightarrow> (nat \<Rightarrow> int) \<Rightarrow> bytes \<times> ('s, 'p, 'd) iec101m_t \<Rightarrow> (bytes \<times> ('s, 'p, 'd) iec101m_t) option" where
  "iec101_m_exec_round heap t st =
     (case st of (rbuf, s) \<Rightarrow>
      do {
        (rlen, d, l) \<leftarrow> link_recv (c_link_ctx s) (c_lnk s) 1500;
        rbuf \<leftarrow> wrn rbuf 0 d;
        let s = s\<lparr>c_lnk := l\<rparr>;
        s \<leftarrow> (if rlen > 0
          then do {
            (_, a) \<leftarrow> wow_byte_array_append_ndata heap (Some rbuf) (word_of_int rlen) (c_array s);
            Some (s\<lparr>c_array := a\<rparr>)
          }
          else Some s);
        s \<leftarrow> iec101_m_frame_parse s;
        s \<leftarrow> iec101_m_state_machine t s;
        Some (rbuf, s)
      })"

fun iec101_m_exec_thread ::
  "(nat \<Rightarrow> bool) \<Rightarrow> (nat \<Rightarrow> int) list \<Rightarrow> bytes \<times> ('s, 'p, 'd) iec101m_t \<Rightarrow> (bytes \<times> ('s, 'p, 'd) iec101m_t) option" where
  "iec101_m_exec_thread heap [] st = Some st"
| "iec101_m_exec_thread heap (t # ts) st =
     (if c_running (snd st) then do { st \<leftarrow> iec101_m_exec_round heap t st; iec101_m_exec_thread heap ts st } else Some st)"

section \<open>Life cycle\<close>

text \<open>\<open>malloc_ok\<close> and \<open>array_ok\<close> answer the allocations of the station and of the structure of the byte array, \<open>heap\<close> that of the array's
  area, \<open>port_ok\<close> that of the port, \<open>pad\<close> is the compiler's choice of \<open>c_pad\<close>. The function statics start at zero.\<close>

definition wow_iec101_m_init ::
  "nat \<Rightarrow> (nat \<Rightarrow> bool) \<Rightarrow> u16 \<Rightarrow> bool \<Rightarrow> bool \<Rightarrow> bool \<Rightarrow> bool \<Rightarrow> 'p \<Rightarrow> 'd \<Rightarrow> (proto_port, 'p, 'd) iec101m_t option" where
  "wow_iec101_m_init pad heap u16Addr ptUartPar malloc_ok array_ok port_ok null d =
     (if \<not> (ptUartPar \<and> malloc_ok) then None
      else do {
        array \<leftarrow> wow_byte_array_new heap array_ok 2048;
        if \<not> port_ok then None
        else
          Some ((iec101_m_reset_param \<lparr>c_addr = u16Addr,
           c_stat = \<lparr>st_init = IEC10X_STA_LINK_INIT, st_callall = IEC10X_STA_LINK_INIT,
             st_callpulse = IEC10X_STA_LINK_INIT, st_yt = IEC10X_STA_LINK_INIT,
             st_yk = IEC10X_STA_LINK_INIT, st_test = IEC10X_STA_LINK_INIT\<rparr>,
           c_time = \<lparr>tm_init = 0, tm_callall = 0, tm_callpulse = 0, tm_yt = 0, tm_yk = 0,
             tm_test = 0, tm_timer = 0\<rparr>,
           c_val_cb = None, c_val_priv = null, c_serv_cb = None, c_serv_priv = null,
           c_link_ctx = fst proto_port_uart_init, c_lnk = snd proto_port_uart_init,
           c_array = array, c_tack = 0, c_fcb_1 = 0, c_fcb_2 = 0,
           c_app = d, c_running = False, c_started = False, c_pad = pad\<rparr>)\<lparr>c_running := True\<rparr>)
      })"

text \<open>Without a thread the exit waits for ever.\<close>

definition wow_iec101_m_exit :: "(proto_port, 'p, 'd) iec101m_t \<Rightarrow> proto_port option" where
  "wow_iec101_m_exit s = (if \<not> c_started s then None else proto_port_uart_exit (c_lnk s))"

definition wow_iec101_m_start ::
  "(proto_port, 'p, 'd) iec101m_t \<Rightarrow> open_env \<Rightarrow> bool \<Rightarrow> (proto_port, 'p, 'd) iec101_m_result" where
  "wow_iec101_m_start s env thread_ok =
     do {
       (ret, l) \<leftarrow> link_open (c_link_ctx s) env (c_lnk s);
       let s = s\<lparr>c_lnk := l\<rparr>;
       if ret \<noteq> 0 then Some (- PROTO_LINK_OPEN_ERROR, s)
       else if \<not> thread_ok then Some (- THREAD_CREATE_FAILED, s)
       else Some (0, s\<lparr>c_started := True\<rparr>)
     }"

definition wow_iec101_m_set_value_handle ::
  "('s, 'p, 'd) iec101m_t \<Rightarrow> ('p \<Rightarrow> DevNodeInfo_T \<Rightarrow> DevValue_U \<Rightarrow> 'd \<Rightarrow> 'd) option \<Rightarrow> 'p \<Rightarrow> int \<times> ('s, 'p, 'd) iec101m_t" where
  "wow_iec101_m_set_value_handle s fCallBack pArg =
     (if fCallBack = None then (- PARAM_INPUT_FUNC_IS_NULL, s)
      else (0, s\<lparr>c_val_cb := fCallBack, c_val_priv := pArg\<rparr>))"

definition wow_iec101_m_set_service_handle ::
  "('s, 'p, 'd) iec101m_t \<Rightarrow> ('p \<Rightarrow> Ie10xServeice_E \<Rightarrow> 'd \<Rightarrow> 'd) option \<Rightarrow> 'p \<Rightarrow> int \<times> ('s, 'p, 'd) iec101m_t" where
  "wow_iec101_m_set_service_handle s fCallBack pArg =
     (if fCallBack = None then (- PARAM_INPUT_FUNC_IS_NULL, s)
      else (0, s\<lparr>c_serv_cb := fCallBack, c_serv_priv := pArg\<rparr>))"

section \<open>Requests\<close>

text \<open>The buffer of an interrogation is not cleared: \<open>junk\<close> holds what is in it at the number and the reason, of which the other bit fields
  are assigned.\<close>

definition iec101_m_build_call ::
  "nat \<Rightarrow> nat \<Rightarrow> u8 \<times> u8 \<Rightarrow> ('s, 'p, 'd) iec101m_t \<Rightarrow> ('s, 'p, 'd) iec101_m_result" where
  "iec101_m_build_call type qoi junk s =
     do {
       let buf = iec101_m_begin s type ((fst junk AND 0x80) OR 1) ((snd junk AND 0xC0) OR word_of_nat IEC10X_COT_ACT);
       buf \<leftarrow> wrn buf 12 (le_bytes 2 0);
       buf \<leftarrow> wr buf 14 (word_of_nat qoi);
       iec101_m_finish s buf (IEC101_VARIABLE_LEN + 1)
     }"

definition wow_iec101_m_build_call_all :: "u8 \<times> u8 \<Rightarrow> ('s, 'p, 'd) iec101m_t \<Rightarrow> ('s, 'p, 'd) iec101_m_result" where
  "wow_iec101_m_build_call_all junk s =
     do { (_, s) \<leftarrow> iec101_m_build_call IEC10X_C_IC_NA_1 IEC10X_COT_INTROGEN junk s; Some (0, c_set_callall IEC10X_STA_CALL_ALL_START s) }"

definition wow_iec101_m_build_call_pulse :: "u8 \<times> u8 \<Rightarrow> ('s, 'p, 'd) iec101m_t \<Rightarrow> ('s, 'p, 'd) iec101_m_result" where
  "wow_iec101_m_build_call_pulse junk s =
     do { (_, s) \<leftarrow> iec101_m_build_call IEC10X_C_CI_NA_1 IEC10X_COT_REQCOGEN junk s; Some (0, c_set_callpulse IEC10X_STA_CALL_PULSE_START s) }"

definition iec101_m_yk_object :: "DevNodeCtrl_T \<Rightarrow> DevNodeCtrl_T \<Rightarrow> bytes" where
  "iec101_m_yk_object first node =
     le_bytes 2 (unat (node_addr (ctrl_info node))) @ [0x80 OR ucast (val_bits (ctrl_value node))]"

definition iec101_m_yt_object :: "DevNodeCtrl_T \<Rightarrow> DevNodeCtrl_T \<Rightarrow> bytes" where
  "iec101_m_yt_object first node =
     le_bytes 2 (unat (node_addr (ctrl_info node))) @
     (if node_type (ctrl_info first) = DATA_FLOAT
      then le_bytes 4 (unat (val_bits (ctrl_value node))) else le_bytes 2 (unat (val_bits (ctrl_value node)))) @ [0x80]"

fun iec101_m_fill :: "(DevNodeCtrl_T \<Rightarrow> bytes) \<Rightarrow> DevNodeCtrl_T list \<Rightarrow> nat \<Rightarrow> nat \<Rightarrow> bytes \<Rightarrow> nat \<Rightarrow> (bytes \<times> nat) option" where
  "iec101_m_fill obj ptNode i 0 buf ptr = Some (buf, ptr)"
| "iec101_m_fill obj ptNode i (Suc n) buf ptr =
     do {
       node \<leftarrow> rd ptNode i;
       buf \<leftarrow> wrn buf ptr (obj node);
       iec101_m_fill obj ptNode (i + 1) n buf (ptr + length (obj node))
     }"

definition iec101_m_build_cmd ::
  "(DevNodeCtrl_T \<Rightarrow> nat) \<Rightarrow> (DevNodeCtrl_T \<Rightarrow> DevNodeCtrl_T \<Rightarrow> bytes) \<Rightarrow>
   (('s, 'p, 'd) iec101m_t \<Rightarrow> ('s, 'p, 'd) iec101m_t) \<Rightarrow> ('s, 'p, 'd) iec101m_t \<Rightarrow> DevNodeCtrl_T list option \<Rightarrow> u8 \<Rightarrow>
   ('s, 'p, 'd) iec101_m_result" where
  "iec101_m_build_cmd ty obj begun s ptNode u8Count =
     (case ptNode of
        None \<Rightarrow> Some (- PARAM_INPUT_STRUCT_IS_NULL, s)
      | Some nodes \<Rightarrow>
          if \<not> unat u8Count > 0 then Some (- PARAM_INPUT_STRUCT_IS_NULL, s)
          else if st_init (c_stat s) \<noteq> IEC10X_STA_LINK_IDLE then Some (- IEC10X_STATUS_ERROR, s)
          else do {
            first \<leftarrow> rd nodes 0;
            let buf = iec101_m_begin s (ty first) (iec101_m_num 0 (unat u8Count)) (word_of_nat IEC10X_COT_ACT);
            (buf, ptr) \<leftarrow> iec101_m_fill (obj first) nodes 0 (unat u8Count) buf 12;
            (_, s) \<leftarrow> iec101_m_finish s buf (ptr + 2);
            Some (0, begun s)
          })"

definition wow_iec101_m_build_yk ::
  "('s, 'p, 'd) iec101m_t \<Rightarrow> DevNodeCtrl_T list option \<Rightarrow> u8 \<Rightarrow> ('s, 'p, 'd) iec101_m_result" where
  "wow_iec101_m_build_yk = iec101_m_build_cmd (\<lambda>_. IEC10X_C_SC_NA_1) iec101_m_yk_object (c_set_yk IEC10X_STA_YK_CMD_START)"

definition wow_iec101_m_build_yt ::
  "('s, 'p, 'd) iec101m_t \<Rightarrow> DevNodeCtrl_T list option \<Rightarrow> u8 \<Rightarrow> ('s, 'p, 'd) iec101_m_result" where
  "wow_iec101_m_build_yt =
     iec101_m_build_cmd (\<lambda>first. if node_type (ctrl_info first) = DATA_FLOAT then IEC10X_C_SE_NC_1 else IEC10X_C_SE_NA_1)
       iec101_m_yt_object (c_set_yt IEC10X_STA_YT_CMD_START)"

end
