(* ===== verification/Iec101Line.thy ===== *)
theory Iec101Line
  imports Iec101Exchange Iec101MasterApi
begin

text \<open>
  The two serial IEC 101 stations on one line. The controlling station is the second interpretation of the locales of \<open>Iec101Frames\<close>; \<open>serial_turns\<close>
  runs both threads in turn and hands over what each has sent.
\<close>

section \<open>The controlling station on the line\<close>

interpretation master: serial_thread c_array "\<lambda>a s. s\<lparr>c_array := a\<rparr>" "\<lambda>heap. iec101_m_deal_68" iec101_m_deal_10 iec101_m_drop
  "\<lambda>heap. iec101_m_exec_68" iec101_m_exec_10 "\<lambda>heap. iec101_m_frame_parse" c_link_ctx c_lnk "\<lambda>l s. s\<lparr>c_lnk := l\<rparr>"
  iec101_m_state_machine iec101_m_exec_round
  by unfold_locales (simp_all add: iec101_m_drop_def iec101_m_exec_68_def iec101_m_exec_10_def iec101_m_frame_parse_def iec101_m_exec_round_def)

definition m_sent :: "bytes list \<Rightarrow> (proto_port, 'p, 'd) iec101m_t \<Rightarrow> (proto_port, 'p, 'd) iec101m_t" where
  "m_sent ms s = s\<lparr>c_lnk := (c_lnk s)\<lparr>tx := tx (c_lnk s) @ ms\<rparr>\<rparr>"

definition m_open :: "(proto_port, 'p, 'd) iec101m_t \<Rightarrow> bool" where
  "m_open s \<longleftrightarrow> serial_line (c_link_ctx s) (c_lnk s)"

lemma m_write_sent:
  "m_open s \<Longrightarrow> length msg \<le> 260 \<Longrightarrow> iec101_m_write s msg = Some (0, m_sent [msg] s)"
  by (simp add: iec101_m_write_def m_open_def serial_line_def proto_port_uart_init_def uart_link_send_def os_write_def m_sent_def Let_def)

lemma m_open_fields [simp]:
  "m_open (s\<lparr>c_fcb_1 := f\<rparr>) = m_open s" "m_open (s\<lparr>c_fcb_2 := f\<rparr>) = m_open s" "m_open (s\<lparr>c_stat := st\<rparr>) = m_open s"
  "m_open (s\<lparr>c_tack := k\<rparr>) = m_open s" "m_open (s\<lparr>c_array := a\<rparr>) = m_open s" "m_open (s\<lparr>c_time := tm\<rparr>) = m_open s"
  by (simp_all add: m_open_def)

lemma m_stable_frame:
  assumes "m_open s" and "fcb \<le> 1" and "fcv \<le> 1" and "func < 16"
  shows "iec101_m_stable s fcb fcv func = Some (0, m_sent [frame10 (word_of_nat (func + 16 * fcv + 32 * fcb + 64)) (unat (c_addr s))] s)"
proof -
  have "iec101_m_stable s fcb fcv func = iec101_m_write s (frame10 (word_of_nat (func + 16 * fcv + 32 * fcb + 64)) (unat (c_addr s)))"
    using assms(2-4)
    by (simp add: iec101_m_stable_def frame10_def iec101_ctrl_down_def iec101_ctrls iec101_bytes le_bytes_numeral le_bytes_Suc add.assoc Let_def
        numeral_2_eq_2)
  then show ?thesis using assms(1) by (simp add: m_write_sent)
qed

definition poll_ctrl :: "(proto_port, 'p, 'd) iec101m_t \<Rightarrow> u8" where
  "poll_ctrl s = word_of_nat (90 + 32 * (unat (NOT (c_fcb_1 s)) mod 2))"

lemma poll_is_poll: "is_poll (poll_ctrl s)"
proof -
  have "unat (NOT (c_fcb_1 s)) mod 2 = 0 \<or> unat (NOT (c_fcb_1 s)) mod 2 = 1" by auto
  then show ?thesis
    by (elim disjE) (simp_all add: poll_ctrl_def is_poll_def iec101_ctrl_func_def iec101_ctrl_prm_def iec101_ctrls)
qed

lemma poll_sent:
  assumes "m_open s"
  shows "iec101_m_build_request_user_ack s =
    Some (0, m_sent [frame10 (poll_ctrl s) (unat (c_addr s))] (s\<lparr>c_fcb_1 := NOT (c_fcb_1 s)\<rparr>))"
proof -
  have "unat (NOT (c_fcb_1 s)) mod 2 \<le> 1" by simp
  with assms show ?thesis
    by (simp add: iec101_m_build_request_user_ack_def m_stable_frame iec101_downs iec101_ctrls poll_ctrl_def Let_def)
qed

text \<open>A frame of the master with objects.\<close>

definition down68 :: "u16 \<Rightarrow> nat \<Rightarrow> u8 \<Rightarrow> u8 \<Rightarrow> bytes \<Rightarrow> bytes" where
  "down68 addr type num reason obj = frame68 (body68 0xD3 (unat addr) type (unat num) (unat reason) (unat addr) obj)"

lemma m_begin_objects:
  assumes "length obj \<le> 244"
  shows "wrn (iec101_m_begin s type num reason) 12 obj =
    Some ([0x68, 0, 0, 0x68] @ body68 0xD3 (unat (c_addr s)) type (unat num) (unat reason) (unat (c_addr s)) obj @ replicate (244 - length obj) 0)"
proof -
  have "lo8 (unat x) = x" for x :: u8 by (simp add: lo8_def)
  then have "iec101_m_begin s type num reason =
      [0x68, 0, 0, 0x68] @ body68 0xD3 (unat (c_addr s)) type (unat num) (unat reason) (unat (c_addr s)) [] @ replicate 244 0"
    by (simp add: iec101_m_begin_def body68_def iec101_ctrl_down_def iec101_downs iec101_ctrls iec101_bytes iec101_lens)
  then show ?thesis
    using wrn_behind [of obj 244 12 "[0x68, 0, 0, 0x68] @ body68 0xD3 (unat (c_addr s)) type (unat num) (unat reason) (unat (c_addr s)) []"] assms
    by (simp add: body68_def)
qed

lemma m_send_objects:
  assumes "m_open s'" and "length obj \<le> 241" and "l = length obj + 14"
  shows "do { buf \<leftarrow> wrn (iec101_m_begin s type num reason) 12 obj; iec101_m_finish s' buf l } =
    Some (0, m_sent [down68 (c_addr s) type num reason obj] s')"
  using assms end_frame [of "body68 0xD3 (unat (c_addr s)) type (unat num) (unat reason) (unat (c_addr s)) obj" "244 - length obj" l]
  by (simp add: m_begin_objects iec101_m_finish_def down68_def m_write_sent)

section \<open>Both threads in turn\<close>

text \<open>What one has sent is what the other receives next.\<close>

type_synonym ('p, 'd, 'q, 'e) serial_pair =
  "(bytes \<times> (proto_port, 'p, 'd) iec101m_t) \<times> (bytes \<times> (proto_port, 'q, 'e) iec101s_t)"

definition to_station ::
  "(proto_port, 'p, 'd) iec101m_t \<times> (proto_port, 'q, 'e) iec101s_t \<Rightarrow> (proto_port, 'p, 'd) iec101m_t \<times> (proto_port, 'q, 'e) iec101s_t" where
  "to_station = (\<lambda>(m, s). (m\<lparr>c_lnk := (c_lnk m)\<lparr>tx := []\<rparr>\<rparr>, s\<lparr>s_lnk := (s_lnk s)\<lparr>rx := rx (s_lnk s) @ tx (c_lnk m)\<rparr>\<rparr>))"

definition to_master ::
  "(proto_port, 'p, 'd) iec101m_t \<times> (proto_port, 'q, 'e) iec101s_t \<Rightarrow> (proto_port, 'p, 'd) iec101m_t \<times> (proto_port, 'q, 'e) iec101s_t" where
  "to_master = (\<lambda>(m, s). (m\<lparr>c_lnk := (c_lnk m)\<lparr>rx := rx (c_lnk m) @ tx (s_lnk s)\<rparr>\<rparr>, s\<lparr>s_lnk := (s_lnk s)\<lparr>tx := []\<rparr>\<rparr>))"

definition serial_turn ::
  "(nat \<Rightarrow> bool) \<Rightarrow> (nat \<Rightarrow> int) \<times> (nat \<Rightarrow> int) \<Rightarrow> ('p, 'd, 'q, 'e) serial_pair \<Rightarrow> ('p, 'd, 'q, 'e) serial_pair option" where
  "serial_turn heap clks st =
     (case st of ((mb, m), (sb, s)) \<Rightarrow>
      do {
        (mb, m) \<leftarrow> iec101_m_exec_round heap (fst clks) (mb, m);
        let (m, s) = to_station (m, s);
        (sb, s) \<leftarrow> iec101_s_exec_round heap (snd clks) (sb, s);
        let (m, s) = to_master (m, s);
        Some ((mb, m), (sb, s))
      })"

fun serial_turns ::
  "(nat \<Rightarrow> bool) \<Rightarrow> ((nat \<Rightarrow> int) \<times> (nat \<Rightarrow> int)) list \<Rightarrow> ('p, 'd, 'q, 'e) serial_pair \<Rightarrow> ('p, 'd, 'q, 'e) serial_pair option" where
  "serial_turns heap [] st = Some st"
| "serial_turns heap (c # cs) st = do { st \<leftarrow> serial_turn heap c st; serial_turns heap cs st }"

text \<open>A station in the middle of an exchange, as far as it differs from the one it began as: what is on its way to it and from it, its states, its
  flag, its application and its clocks. Array, toggles and buffers are whatever they are.\<close>

definition m_now ::
  "(proto_port, 'p, 'd) iec101m_t \<Rightarrow> bytes list \<Rightarrow> bytes list \<Rightarrow> Iec10xState_T \<Rightarrow> int \<Rightarrow> 'd \<Rightarrow> Iec10xTime_T \<Rightarrow> (proto_port, 'p, 'd) iec101m_t \<Rightarrow> bool" where
  "m_now m0 r t st k d tm m \<longleftrightarrow> (\<exists>a l f1 f2. ba_wf a \<and> ba_bytes a = [] \<and> serial_line (c_link_ctx m0) l \<and> rx l = r \<and> tx l = t \<and>
     m = m0\<lparr>c_array := a, c_lnk := l, c_stat := st, c_tack := k, c_app := d, c_fcb_1 := f1, c_fcb_2 := f2, c_time := tm\<rparr>)"

definition s_now ::
  "(proto_port, 'p, 'd) iec101s_t \<Rightarrow> bytes list \<Rightarrow> bytes list \<Rightarrow> Iec10xState_T \<Rightarrow> int \<Rightarrow> 'd \<Rightarrow> Iec10xTime_T \<Rightarrow> bytes option \<Rightarrow>
   (proto_port, 'p, 'd) iec101s_t \<Rightarrow> bool" where
  "s_now s0 r t st k d tm bk s \<longleftrightarrow> (\<exists>a l. ba_wf a \<and> ba_bytes a = [] \<and> serial_line (s_link_ctx s0) l \<and> rx l = r \<and> tx l = t \<and>
     s = s0\<lparr>s_array := a, s_lnk := l, s_stat := st, s_tack := k, s_app := d, s_time := tm, s_yk_bak := bk\<rparr>)"

lemma m_nowD:
  assumes "m_now m0 r t st k d tm m"
  shows "m_open m" "c_stat m = st" "c_tack m = k" "c_app m = d" "c_time m = tm" "rx (c_lnk m) = r" "tx (c_lnk m) = t" "c_addr m = c_addr m0"
    "ba_wf (c_array m)" "ba_bytes (c_array m) = []" "c_serv_cb m = c_serv_cb m0" "c_val_priv m = c_val_priv m0" "c_running m = c_running m0"
    "serial_line (c_link_ctx m) (c_lnk m)" "c_link_ctx m = c_link_ctx m0"
  using assms by (auto simp: m_now_def m_open_def)

lemma s_nowD:
  assumes "s_now s0 r t st k d tm bk s"
  shows "serial_open s" "s_stat s = st" "s_tack s = k" "s_app s = d" "s_time s = tm" "rx (s_lnk s) = r" "tx (s_lnk s) = t" "s_addr s = s_addr s0"
    "ba_wf (s_array s)" "ba_bytes (s_array s) = []" "s_serv_cb s = s_serv_cb s0" "s_serv_priv s = s_serv_priv s0" "s_running s = s_running s0"
    "serial_line (s_link_ctx s) (s_lnk s)" "s_yk_bak s = bk" "s_get_cb s = s_get_cb s0" "s_get_priv s = s_get_priv s0" "s_yx_list s = s_yx_list s0"
  using assms by (auto simp: s_now_def serial_open_def)

lemma m_now_update:
  assumes "m_now m0 r t st k d tm m"
  shows "ba_wf a \<Longrightarrow> ba_bytes a = [] \<Longrightarrow> m_now m0 r t st k d tm (m\<lparr>c_array := a\<rparr>)"
    and "m_now m0 r t st' k d tm (m\<lparr>c_stat := st'\<rparr>)"
    and "m_now m0 r t st k' d tm (m\<lparr>c_tack := k'\<rparr>)"
    and "m_now m0 r t st k d' tm (m\<lparr>c_app := d'\<rparr>)"
    and "m_now m0 r t st k d tm' (m\<lparr>c_time := tm'\<rparr>)"
    and "m_now m0 r t st k d tm (m\<lparr>c_fcb_1 := f\<rparr>)"
    and "m_now m0 r (t @ ms) st k d tm (m_sent ms m)"
    and "m_now m0 r' t st k d tm (m\<lparr>c_lnk := (c_lnk m)\<lparr>rx := r'\<rparr>\<rparr>)"
    and "m_now m0 r t' st k d tm (m\<lparr>c_lnk := (c_lnk m)\<lparr>tx := t'\<rparr>\<rparr>)"
proof -
  obtain a l f1 f2 where m: "ba_wf a" "ba_bytes a = []" "serial_line (c_link_ctx m0) l" "rx l = r" "tx l = t"
    "m = m0\<lparr>c_array := a, c_lnk := l, c_stat := st, c_tack := k, c_app := d, c_fcb_1 := f1, c_fcb_2 := f2, c_time := tm\<rparr>"
    using assms by (auto simp: m_now_def)
  show "ba_wf a \<Longrightarrow> ba_bytes a = [] \<Longrightarrow> m_now m0 r t st k d tm (m\<lparr>c_array := a\<rparr>)" for a
    unfolding m_now_def by (intro exI [of _ a] exI [of _ l] exI [of _ f1] exI [of _ f2]) (simp add: m)
  show "m_now m0 r t st' k d tm (m\<lparr>c_stat := st'\<rparr>)" "m_now m0 r t st k' d tm (m\<lparr>c_tack := k'\<rparr>)" "m_now m0 r t st k d' tm (m\<lparr>c_app := d'\<rparr>)"
    "m_now m0 r t st k d tm' (m\<lparr>c_time := tm'\<rparr>)"
    unfolding m_now_def by (intro exI [of _ a] exI [of _ l] exI [of _ f1] exI [of _ f2], simp add: m)+
  show "m_now m0 r t st k d tm (m\<lparr>c_fcb_1 := f\<rparr>)"
    unfolding m_now_def by (intro exI [of _ a] exI [of _ l] exI [of _ f] exI [of _ f2]) (simp add: m)
  show "m_now m0 r (t @ ms) st k d tm (m_sent ms m)"
    unfolding m_now_def by (intro exI [of _ a] exI [of _ "l\<lparr>tx := t @ ms\<rparr>"] exI [of _ f1] exI [of _ f2]) (use m in \<open>simp add: m_sent_def serial_line_def\<close>)
  show "m_now m0 r' t st k d tm (m\<lparr>c_lnk := (c_lnk m)\<lparr>rx := r'\<rparr>\<rparr>)"
    unfolding m_now_def by (intro exI [of _ a] exI [of _ "l\<lparr>rx := r'\<rparr>"] exI [of _ f1] exI [of _ f2]) (use m in \<open>simp add: serial_line_def\<close>)
  show "m_now m0 r t' st k d tm (m\<lparr>c_lnk := (c_lnk m)\<lparr>tx := t'\<rparr>\<rparr>)"
    unfolding m_now_def by (intro exI [of _ a] exI [of _ "l\<lparr>tx := t'\<rparr>"] exI [of _ f1] exI [of _ f2]) (use m in \<open>simp add: serial_line_def\<close>)
qed

lemma s_now_update:
  assumes "s_now s0 r t st k d tm bk s"
  shows "ba_wf a \<Longrightarrow> ba_bytes a = [] \<Longrightarrow> s_now s0 r t st k d tm bk (s\<lparr>s_array := a\<rparr>)"
    and "s_now s0 r t st' k d tm bk (s\<lparr>s_stat := st'\<rparr>)"
    and "s_now s0 r t st k' d tm bk (s\<lparr>s_tack := k'\<rparr>)"
    and "s_now s0 r t st k d' tm bk (s\<lparr>s_app := d'\<rparr>)"
    and "s_now s0 r t st k d tm' bk (s\<lparr>s_time := tm'\<rparr>)"
    and "s_now s0 r t st k d tm bk' (s\<lparr>s_yk_bak := bk'\<rparr>)"
    and "s_now s0 r (t @ ms) st k d tm bk (sent101 ms s)"
    and "s_now s0 r' t st k d tm bk (s\<lparr>s_lnk := (s_lnk s)\<lparr>rx := r'\<rparr>\<rparr>)"
    and "s_now s0 r t' st k d tm bk (s\<lparr>s_lnk := (s_lnk s)\<lparr>tx := t'\<rparr>\<rparr>)"
proof -
  obtain a l where s: "ba_wf a" "ba_bytes a = []" "serial_line (s_link_ctx s0) l" "rx l = r" "tx l = t"
    "s = s0\<lparr>s_array := a, s_lnk := l, s_stat := st, s_tack := k, s_app := d, s_time := tm, s_yk_bak := bk\<rparr>"
    using assms by (auto simp: s_now_def)
  show "ba_wf a \<Longrightarrow> ba_bytes a = [] \<Longrightarrow> s_now s0 r t st k d tm bk (s\<lparr>s_array := a\<rparr>)" for a
    unfolding s_now_def by (intro exI [of _ a] exI [of _ l]) (simp add: s)
  show "s_now s0 r t st' k d tm bk (s\<lparr>s_stat := st'\<rparr>)" "s_now s0 r t st k' d tm bk (s\<lparr>s_tack := k'\<rparr>)" "s_now s0 r t st k d' tm bk (s\<lparr>s_app := d'\<rparr>)"
    "s_now s0 r t st k d tm' bk (s\<lparr>s_time := tm'\<rparr>)" "s_now s0 r t st k d tm bk' (s\<lparr>s_yk_bak := bk'\<rparr>)"
    unfolding s_now_def by (intro exI [of _ a] exI [of _ l], simp add: s)+
  show "s_now s0 r (t @ ms) st k d tm bk (sent101 ms s)"
    unfolding s_now_def by (intro exI [of _ a] exI [of _ "l\<lparr>tx := t @ ms\<rparr>"]) (use s in \<open>simp add: sent101_def serial_line_def\<close>)
  show "s_now s0 r' t st k d tm bk (s\<lparr>s_lnk := (s_lnk s)\<lparr>rx := r'\<rparr>\<rparr>)"
    unfolding s_now_def by (intro exI [of _ a] exI [of _ "l\<lparr>rx := r'\<rparr>"]) (use s in \<open>simp add: serial_line_def\<close>)
  show "s_now s0 r t' st k d tm bk (s\<lparr>s_lnk := (s_lnk s)\<lparr>tx := t'\<rparr>\<rparr>)"
    unfolding s_now_def by (intro exI [of _ a] exI [of _ "l\<lparr>tx := t'\<rparr>"]) (use s in \<open>simp add: serial_line_def\<close>)
qed

lemma serial_turn_now:
  assumes "iec101_m_exec_round heap tc (mb, m) = Some (mb', m')" and "m_now m0 r out st k d tm m'"
    and "s_now s0 [] [] st1 k1 d1 tm1 bk1 s"
    and "\<And>u. s_now s0 out [] st1 k1 d1 tm1 bk1 u \<Longrightarrow> \<exists>sb' s'. length sb' = 1500 \<and> iec101_s_exec_round heap ts (sb, u) = Some (sb', s') \<and>
      s_now s0 r' ans st2 k2 d2 tm2 bk2 s'"
  shows "\<exists>m' sb' s'. length sb' = 1500 \<and> serial_turn heap (tc, ts) ((mb, m), (sb, s)) = Some ((mb', m'), (sb', s')) \<and>
    m_now m0 (r @ ans) [] st k d tm m' \<and> s_now s0 r' [] st2 k2 d2 tm2 bk2 s'"
proof -
  let ?m1 = "m'\<lparr>c_lnk := (c_lnk m')\<lparr>tx := []\<rparr>\<rparr>" and ?u = "s\<lparr>s_lnk := (s_lnk s)\<lparr>rx := rx (s_lnk s) @ tx (c_lnk m')\<rparr>\<rparr>"
  have m1: "m_now m0 r [] st k d tm ?m1" using m_now_update(9) [OF assms(2)] .
  have "s_now s0 out [] st1 k1 d1 tm1 bk1 ?u"
    using s_now_update(8) [OF assms(3), of out] s_nowD [OF assms(3)] m_nowD [OF assms(2)] by simp
  from assms(4) [OF this] obtain sb' s' where s': "length sb' = 1500" "iec101_s_exec_round heap ts (sb, ?u) = Some (sb', s')"
    "s_now s0 r' ans st2 k2 d2 tm2 bk2 s'" by blast
  let ?m2 = "?m1\<lparr>c_lnk := (c_lnk ?m1)\<lparr>rx := rx (c_lnk ?m1) @ tx (s_lnk s')\<rparr>\<rparr>" and ?s2 = "s'\<lparr>s_lnk := (s_lnk s')\<lparr>tx := []\<rparr>\<rparr>"
  have "m_now m0 (r @ ans) [] st k d tm ?m2"
    using m_now_update(8) [OF m1, of "r @ ans"] m_nowD(6) [OF m1] s_nowD(7) [OF s'(3)] by simp
  moreover have "s_now s0 r' [] st2 k2 d2 tm2 bk2 ?s2" using s_now_update(9) [OF s'(3)] .
  moreover have "serial_turn heap (tc, ts) ((mb, m), (sb, s)) = Some ((mb', ?m2), (sb', ?s2))"
    using assms(1) s'(2) by (simp add: serial_turn_def to_station_def to_master_def)
  ultimately show ?thesis using s'(1) by blast
qed

section \<open>Rounds of a station in an exchange\<close>

lemma m_round_quiet:
  assumes "m_now m0 [] out0 st k d tm m" and "length b = 1500"
    and "\<And>u. m_now m0 [] out0 st k d tm u \<Longrightarrow> \<exists>u'. iec101_m_state_machine tc u = Some u' \<and> Q u'"
  shows "\<exists>b' m'. length b' = 1500 \<and> iec101_m_exec_round heap tc (b, m) = Some (b', m') \<and> Q m'"
  using master.round_quiet [of m heap tc b] m_nowD [OF assms(1)] assms by fastforce

lemma m_round_fixed:
  assumes "m_now m0 (frame10 c la # cs) [] st k d tm m" and "length b = 1500" and "\<forall>n. heap n"
    and "\<And>u a. m_now m0 cs [] st k d tm u \<Longrightarrow> ba_wf a \<Longrightarrow> ba_bytes a = frame10 c la \<Longrightarrow>
      \<exists>r. iec101_m_deal_10 (u\<lparr>c_array := a\<rparr>) (ba_data a) 6 = Some (r, (f u)\<lparr>c_array := a\<rparr>)"
    and "\<And>u a. m_now m0 cs [] st k d tm u \<Longrightarrow> ba_wf a \<Longrightarrow> ba_bytes a = [] \<Longrightarrow>
      \<exists>u'. iec101_m_state_machine tc ((f u)\<lparr>c_array := a\<rparr>) = Some u' \<and> Q u'"
  shows "\<exists>b' m'. length b' = 1500 \<and> iec101_m_exec_round heap tc (b, m) = Some (b', m') \<and> Q m'"
proof -
  let ?u = "m\<lparr>c_lnk := (c_lnk m)\<lparr>rx := cs\<rparr>\<rparr>"
  note d = m_nowD [OF assms(1)]
  have u: "m_now m0 cs [] st k d tm ?u" using m_now_update(8) [OF assms(1)] .
  obtain b' a where r: "length b' = 1500" "ba_wf a" "ba_bytes a = []"
    "iec101_m_exec_round heap tc (b, m) = do { s \<leftarrow> iec101_m_state_machine tc ((f ?u)\<lparr>c_array := a\<rparr>); Some (b', s) }"
    using master.round_10 [of m c la cs b heap "f ?u" tc] d assms(2-3) assms(4) [OF u] by auto
  with assms(5) [OF u r(2,3)] show ?thesis by auto
qed

lemma m_round_variable:
  assumes "m_now m0 (frame68 body # cs) [] st k d tm m" and "length b = 1500" and "\<forall>n. heap n" and "length body \<le> 249"
    and "\<And>u a. m_now m0 cs [] st k d tm u \<Longrightarrow> ba_wf a \<Longrightarrow> ba_bytes a = frame68 body \<Longrightarrow>
      \<exists>r. iec101_m_deal_68 (u\<lparr>c_array := a\<rparr>) (ba_data a) (length body + 6) = Some (r, (f u)\<lparr>c_array := a\<rparr>)"
    and "\<And>u a. m_now m0 cs [] st k d tm u \<Longrightarrow> ba_wf a \<Longrightarrow> ba_bytes a = [] \<Longrightarrow>
      \<exists>u'. iec101_m_state_machine tc ((f u)\<lparr>c_array := a\<rparr>) = Some u' \<and> Q u'"
  shows "\<exists>b' m'. length b' = 1500 \<and> iec101_m_exec_round heap tc (b, m) = Some (b', m') \<and> Q m'"
proof -
  let ?u = "m\<lparr>c_lnk := (c_lnk m)\<lparr>rx := cs\<rparr>\<rparr>"
  note d = m_nowD [OF assms(1)]
  have u: "m_now m0 cs [] st k d tm ?u" using m_now_update(8) [OF assms(1)] .
  obtain b' a where r: "length b' = 1500" "ba_wf a" "ba_bytes a = []"
    "iec101_m_exec_round heap tc (b, m) = do { s \<leftarrow> iec101_m_state_machine tc ((f ?u)\<lparr>c_array := a\<rparr>); Some (b', s) }"
    using master.round_68 [of m body cs b heap "f ?u" tc] d assms(2-4) assms(5) [OF u] by auto
  with assms(6) [OF u r(2,3)] show ?thesis by auto
qed

lemma m_round_10:
  assumes "m_now m0 (frame10 c la # cs) [] st k d tm m" and "length b = 1500" and "\<forall>n. heap n"
    and "\<And>u a. m_now m0 cs [] st k d tm u \<Longrightarrow> ba_wf a \<Longrightarrow> ba_bytes a = frame10 c la \<Longrightarrow>
      \<exists>r. iec101_m_deal_10 (u\<lparr>c_array := a\<rparr>) (ba_data a) 6 = Some (r, (f u)\<lparr>c_array := a\<rparr>)"
    and "\<And>u. m_now m0 cs [] st k d tm u \<Longrightarrow> m_now m0 cs t1 st1 k1 d1 tm1 (f u)"
    and "\<And>u. m_now m0 cs t1 st1 k1 d1 tm1 u \<Longrightarrow> \<exists>u'. iec101_m_state_machine tc u = Some u' \<and> Q u'"
  shows "\<exists>b' m'. length b' = 1500 \<and> iec101_m_exec_round heap tc (b, m) = Some (b', m') \<and> Q m'"
  by (rule m_round_fixed [OF assms(1-4)]) (blast intro: assms(6) m_now_update(1) [OF assms(5)])+

lemma s_round_quiet:
  assumes "s_now s0 [] [] st k d tm bk s" and "length b = 1500"
    and "\<And>u. s_now s0 [] [] st k d tm bk u \<Longrightarrow> \<exists>u'. iec101_s_state_machine tc u = Some u' \<and> s_now s0 [] out st1 k1 d1 tm1 bk1 u'"
  shows "\<exists>b' s'. length b' = 1500 \<and> iec101_s_exec_round heap tc (b, s) = Some (b', s') \<and> s_now s0 [] out st1 k1 d1 tm1 bk1 s'"
  using slave.round_quiet [of s heap tc b] s_nowD [OF assms(1)] assms by fastforce

lemma s_round_10:
  assumes "s_now s0 (frame10 c la # cs) [] st k d tm bk s" and "length b = 1500" and "\<forall>n. heap n"
    and "\<And>u a. s_now s0 cs [] st k d tm bk u \<Longrightarrow> ba_wf a \<Longrightarrow> ba_bytes a = frame10 c la \<Longrightarrow>
      \<exists>r. iec101_s_deal_10 (u\<lparr>s_array := a\<rparr>) (ba_data a) 6 = Some (r, (f u)\<lparr>s_array := a\<rparr>)"
    and "\<And>u. s_now s0 cs [] st k d tm bk u \<Longrightarrow> s_now s0 cs t1 st1 k1 d1 tm1 bk1 (f u)"
    and "\<And>u. s_now s0 cs t1 st1 k1 d1 tm1 bk1 u \<Longrightarrow> \<exists>u'. iec101_s_state_machine tc u = Some u' \<and> s_now s0 cs out st2 k2 d2 tm2 bk2 u'"
  shows "\<exists>b' s'. length b' = 1500 \<and> iec101_s_exec_round heap tc (b, s) = Some (b', s') \<and> s_now s0 cs out st2 k2 d2 tm2 bk2 s'"
proof -
  let ?u = "s\<lparr>s_lnk := (s_lnk s)\<lparr>rx := cs\<rparr>\<rparr>"
  note d = s_nowD [OF assms(1)]
  have u: "s_now s0 cs [] st k d tm bk ?u" using s_now_update(8) [OF assms(1)] .
  obtain b' a where r: "length b' = 1500" "ba_wf a" "ba_bytes a = []"
    "iec101_s_exec_round heap tc (b, s) = do { s \<leftarrow> iec101_s_state_machine tc ((f ?u)\<lparr>s_array := a\<rparr>); Some (b', s) }"
    using slave.round_10 [of s c la cs b heap "f ?u" tc] d assms(2-3) assms(4) [OF u] by auto
  have "s_now s0 cs t1 st1 k1 d1 tm1 bk1 ((f ?u)\<lparr>s_array := a\<rparr>)" using s_now_update(1) [OF assms(5) [OF u] r(2,3)] .
  from assms(6) [OF this] r(1,4) show ?thesis by auto
qed

lemma s_round_68:
  assumes "s_now s0 (frame68 body # cs) [] st k d tm bk s" and "length b = 1500" and "\<forall>n. heap n" and "length body \<le> 249"
    and "\<And>u a. s_now s0 cs [] st k d tm bk u \<Longrightarrow> ba_wf a \<Longrightarrow> ba_bytes a = frame68 body \<Longrightarrow>
      \<exists>r. iec101_s_deal_68 heap (u\<lparr>s_array := a\<rparr>) (ba_data a) (length body + 6) = Some (r, (f u)\<lparr>s_array := a\<rparr>)"
    and "\<And>u. s_now s0 cs [] st k d tm bk u \<Longrightarrow> s_now s0 cs t1 st1 k1 d1 tm1 bk1 (f u)"
    and "\<And>u. s_now s0 cs t1 st1 k1 d1 tm1 bk1 u \<Longrightarrow> \<exists>u'. iec101_s_state_machine tc u = Some u' \<and> s_now s0 cs out st2 k2 d2 tm2 bk2 u'"
  shows "\<exists>b' s'. length b' = 1500 \<and> iec101_s_exec_round heap tc (b, s) = Some (b', s') \<and> s_now s0 cs out st2 k2 d2 tm2 bk2 s'"
proof -
  let ?u = "s\<lparr>s_lnk := (s_lnk s)\<lparr>rx := cs\<rparr>\<rparr>"
  note d = s_nowD [OF assms(1)]
  have u: "s_now s0 cs [] st k d tm bk ?u" using s_now_update(8) [OF assms(1)] .
  obtain b' a where r: "length b' = 1500" "ba_wf a" "ba_bytes a = []"
    "iec101_s_exec_round heap tc (b, s) = do { s \<leftarrow> iec101_s_state_machine tc ((f ?u)\<lparr>s_array := a\<rparr>); Some (b', s) }"
    using slave.round_68 [of s body cs b heap "f ?u" tc] d assms(2-4) assms(5) [OF u] by auto
  have "s_now s0 cs t1 st1 k1 d1 tm1 bk1 ((f ?u)\<lparr>s_array := a\<rparr>)" using s_now_update(1) [OF assms(6) [OF u] r(2,3)] .
  from assms(7) [OF this] r(1,4) show ?thesis by auto
qed

section \<open>The link comes up\<close>

text \<open>The line is open and empty and no byte of a frame is waiting.\<close>

definition m_rest :: "(proto_port, 'p, 'd) iec101m_t \<Rightarrow> bool" where
  "m_rest m \<longleftrightarrow> m_now m [] [] (c_stat m) (c_tack m) (c_app m) (c_time m) m"

definition s_rest :: "(proto_port, 'p, 'd) iec101s_t \<Rightarrow> bool" where
  "s_rest s \<longleftrightarrow> s_now s [] [] (s_stat s) (s_tack s) (s_app s) (s_time s) (s_yk_bak s) s"

definition up_stat :: Iec10xState_T where
  "up_stat = \<lparr>st_init = IEC10X_STA_LINK_IDLE, st_callall = IEC10X_STA_CALL_ALL_IDLE, st_callpulse = IEC10X_STA_CALL_PULSE_IDLE,
     st_yt = IEC10X_STA_YT_CMD_IDLE, st_yk = IEC10X_STA_YK_CMD_IDLE, st_test = IE10X_STA_TESTER_START\<rparr>"

definition tell_m :: "(proto_port, 'p, 'd) iec101m_t \<Rightarrow> Ie10xServeice_E \<Rightarrow> 'd \<Rightarrow> 'd" where
  "tell_m m ev d = (case c_serv_cb m of None \<Rightarrow> d | Some cb \<Rightarrow> cb (c_val_priv m) ev d)"

lemma m_serve_now:
  assumes "m_now m0 r t st k d tm m"
  shows "m_now m0 r t st k (tell_m m0 ev d) tm (iec101_m_serve m ev)"
  using m_now_update(4) [OF assms] assms m_nowD [OF assms]
  by (cases "c_serv_cb m0") (simp_all add: iec101_m_serve_def tell_m_def)

lemma s_serve_now:
  assumes "s_now s0 r t st k d tm bk s"
  shows "s_now s0 r t st k (tell101 s0 ev d) tm bk (iec101_s_serve s ev)"
  using s_now_update(4) [OF assms] assms s_nowD [OF assms]
  by (cases "s_serv_cb s0") (simp_all add: iec101_s_serve_def tell101_def)

lemma c_set_now:
  assumes "m_now m0 r t st k d tm m"
  shows "m_now m0 r t (st\<lparr>st_init := x\<rparr>) k d tm (c_set_init x m)" "m_now m0 r t (st\<lparr>st_callall := x\<rparr>) k d tm (c_set_callall x m)"
    "m_now m0 r t (st\<lparr>st_yk := x\<rparr>) k d tm (c_set_yk x m)"
  using m_now_update(2) [OF assms] m_nowD(2) [OF assms] by (simp_all add: c_set_defs)

lemma s_set_now:
  assumes "s_now s0 r t st k d tm bk s"
  shows "s_now s0 r t (st\<lparr>st_init := x\<rparr>) k d tm bk (s_set_init x s)" "s_now s0 r t (st\<lparr>st_yk := x\<rparr>) k d tm bk (s_set_yk x s)"
  using s_now_update(2) [OF assms] s_nowD(2) [OF assms] by (simp_all add: s_set_defs)

lemma m_reset_now:
  assumes "m_now m0 r t st k d tm m"
  shows "m_now m0 r t (up_stat\<lparr>st_init := IEC10X_STA_LINK_INIT\<rparr>) 0 d tm (iec101_m_reset_param m)"
  using m_now_update(2) [OF m_now_update(3) [OF assms, of 0], of "up_stat\<lparr>st_init := IEC10X_STA_LINK_INIT\<rparr>"]
  by (simp add: iec101_m_reset_param_def up_stat_def)

lemma s_reset_now:
  assumes "s_now s0 r t st k d tm bk s"
  shows "s_now s0 r t (up_stat\<lparr>st_init := IEC10X_STA_LINK_INIT\<rparr>) 0 d tm bk (iec101_s_reset_param s)"
  using s_now_update(2) [OF s_now_update(3) [OF assms, of 0], of "up_stat\<lparr>st_init := IEC10X_STA_LINK_INIT\<rparr>"]
  by (simp add: iec101_s_reset_param_def up_stat_def)

lemma s_machine_up:
  assumes "s_stat u = up_stat"
  shows "iec101_s_state_machine tc u = Some u"
  using assms by (simp add: iec101_s_state_machine_def iec101_s_state_machine_work_def iec101_s_state_machine_callall_def
      iec101_s_state_machine_callpulse_def iec101_s_state_machine_yt_def iec101_s_state_machine_yk_def up_stat_def)

lemma m_machines_up:
  assumes "c_stat u = up_stat"
  shows "iec101_m_state_machine_callall t u = Some u" "iec101_m_state_machine_callpulse t u = Some u" "iec101_m_state_machine_yt t u = Some u"
    "iec101_m_state_machine_yk t u = Some u"
  using assms by (simp_all add: iec101_m_state_machine_callall_def iec101_m_state_machine_callpulse_def iec101_m_state_machine_yt_def
      iec101_m_state_machine_yk_def up_stat_def)

text \<open>The eight rounds.\<close>

lemma m_opens:
  assumes "m_now m0 [] [] st k d tm m" and "st_init st = IEC10X_STA_LINK_INIT" and "length b = 1500"
  shows "\<exists>b' m'. length b' = 1500 \<and> iec101_m_exec_round heap tc (b, m) = Some (b', m') \<and>
    m_now m0 [] [] (up_stat\<lparr>st_init := IEC10X_STA_LINK_OPEN\<rparr>) 0 d tm m'"
proof (rule m_round_quiet [OF assms(1,3)])
  fix u assume u: "m_now m0 [] [] st k d tm u"
  have "iec101_m_state_machine tc u = Some (c_set_init IEC10X_STA_LINK_OPEN (iec101_m_reset_param u))"
    using m_nowD(2) [OF u] assms(2) by (simp add: iec101_m_state_machine_def iec101_m_state_machine_work_def c_set_defs)
  with c_set_now(1) [OF m_reset_now [OF u]] show "\<exists>u'. iec101_m_state_machine tc u = Some u' \<and>
    m_now m0 [] [] (up_stat\<lparr>st_init := IEC10X_STA_LINK_OPEN\<rparr>) 0 d tm u'" by force
qed

lemma s_opens:
  assumes "s_now s0 [] [] st k d tm bk s" and "st_init st = IEC10X_STA_LINK_INIT" and "length b = 1500"
  shows "\<exists>b' s'. length b' = 1500 \<and> iec101_s_exec_round heap tc (b, s) = Some (b', s') \<and>
    s_now s0 [] [] (up_stat\<lparr>st_init := IEC10X_STA_LINK_OPEN\<rparr>) 0 d tm bk s'"
proof (rule s_round_quiet [OF assms(1,3)])
  fix u assume u: "s_now s0 [] [] st k d tm bk u"
  have "iec101_s_state_machine tc u = Some (s_set_init IEC10X_STA_LINK_OPEN (iec101_s_reset_param u))"
    using s_nowD(2) [OF u] assms(2) by (simp add: iec101_s_state_machine_def iec101_s_state_machine_work_def s_set_defs)
  with s_set_now(1) [OF s_reset_now [OF u]] show "\<exists>u'. iec101_s_state_machine tc u = Some u' \<and>
    s_now s0 [] [] (up_stat\<lparr>st_init := IEC10X_STA_LINK_OPEN\<rparr>) 0 d tm bk u'" by force
qed

lemma m_asks_status:
  assumes "m_now m0 [] [] (up_stat\<lparr>st_init := IEC10X_STA_LINK_OPEN\<rparr>) 0 d tm m" and "length b = 1500"
  shows "\<exists>b' m'. length b' = 1500 \<and> iec101_m_exec_round heap tc (b, m) = Some (b', m') \<and>
    m_now m0 [] [frame10 0x49 (unat (c_addr m0))] (up_stat\<lparr>st_init := IEC10X_STA_LINK_CONNECT\<rparr>) 0 d tm m'"
proof (rule m_round_quiet [OF assms])
  fix u assume u: "m_now m0 [] [] (up_stat\<lparr>st_init := IEC10X_STA_LINK_OPEN\<rparr>) 0 d tm u"
  have "iec101_m_state_machine tc u = Some (c_set_init IEC10X_STA_LINK_CONNECT (m_sent [frame10 0x49 (unat (c_addr m0))] u))"
    using m_nowD [OF u]
    by (simp add: iec101_m_state_machine_def iec101_m_state_machine_work_def iec101_m_build_request_link_status_def m_stable_frame
        iec101_downs iec101_ctrls c_set_defs)
  with c_set_now(1) [OF m_now_update(7) [OF u]] show "\<exists>u'. iec101_m_state_machine tc u = Some u' \<and>
    m_now m0 [] [frame10 0x49 (unat (c_addr m0))] (up_stat\<lparr>st_init := IEC10X_STA_LINK_CONNECT\<rparr>) 0 d tm u'" by force
qed

lemma ctrl_fields:
  "iec101_ctrl_func 0x49 = 9" "iec101_ctrl_prm 0x49 = 1" "iec101_ctrl_func 0x0B = 11" "iec101_ctrl_prm 0x0B = 0" "iec101_ctrl_func 0x40 = 0"
  "iec101_ctrl_prm 0x40 = 1" "iec101_ctrl_func 0 = 0" "iec101_ctrl_prm 0 = 0" "iec101_ctrl_func 0x20 = 0" "iec101_ctrl_prm 0x20 = 0"
  "iec101_ctrl_func 0xD3 = 3" "iec101_ctrl_func 0x28 = 8"
  by (simp_all add: iec101_ctrl_func_def iec101_ctrl_prm_def)

lemma s_answers_status:
  assumes "s_now s0 [frame10 0x49 la] [] (up_stat\<lparr>st_init := IEC10X_STA_LINK_OPEN\<rparr>) 0 d tm bk s" and "length b = 1500" and "\<forall>n. heap n"
  shows "\<exists>b' s'. length b' = 1500 \<and> iec101_s_exec_round heap tc (b, s) = Some (b', s') \<and>
    s_now s0 [] [frame10 0x0B (unat (s_addr s0))] up_stat 0 (tell101 s0 IEC10X_CONNECTED d) tm bk s'"
proof (rule s_round_10 [OF assms])
  let ?f = "\<lambda>u. s_set_init IEC10X_STA_LINK_CONNECT_OK (sent101 [frame10 0x0B (unat (s_addr s0))] u)"
  fix u
  {
    fix a assume u: "s_now s0 [] [] (up_stat\<lparr>st_init := IEC10X_STA_LINK_OPEN\<rparr>) 0 d tm bk u" and a: "ba_wf a" "ba_bytes a = frame10 0x49 la"
    have "serial_open (u\<lparr>s_array := a\<rparr>)" using s_nowD(1) [OF u] by (simp add: serial_open_def)
    then show "\<exists>r. iec101_s_deal_10 (u\<lparr>s_array := a\<rparr>) (ba_data a) 6 = Some (r, (?f u)\<lparr>s_array := a\<rparr>)"
      using frame10_reads [OF a] s_nowD(8) [OF u]
      by (simp add: iec101_s_deal_10_def ctrl_fields iec101_ctrls iec101_s_build_link_status_ack_def stable_frame write_sent s_set_defs sent101_def)
  next
    assume u: "s_now s0 [] [] (up_stat\<lparr>st_init := IEC10X_STA_LINK_OPEN\<rparr>) 0 d tm bk u"
    show "s_now s0 [] [frame10 0x0B (unat (s_addr s0))] (up_stat\<lparr>st_init := IEC10X_STA_LINK_CONNECT_OK\<rparr>) 0 d tm bk (?f u)"
      using s_set_now(1) [OF s_now_update(7) [OF u]] by force
  next
    assume u: "s_now s0 [] [frame10 0x0B (unat (s_addr s0))] (up_stat\<lparr>st_init := IEC10X_STA_LINK_CONNECT_OK\<rparr>) 0 d tm bk u"
    let ?u' = "iec101_s_serve (s_set_init IEC10X_STA_LINK_IDLE u) IEC10X_CONNECTED"
    have n: "s_now s0 [] [frame10 0x0B (unat (s_addr s0))] up_stat 0 (tell101 s0 IEC10X_CONNECTED d) tm bk ?u'"
      using s_serve_now [OF s_set_now(1) [OF u]] by (simp add: up_stat_def)
    have "iec101_s_state_machine tc u = iec101_s_state_machine tc ?u'"
      using s_nowD(2) [OF u] s_nowD(2) [OF n] by (simp add: iec101_s_state_machine_def iec101_s_state_machine_work_def up_stat_def)
    with n s_machine_up [OF s_nowD(2) [OF n]]
    show "\<exists>u'. iec101_s_state_machine tc u = Some u' \<and>
      s_now s0 [] [frame10 0x0B (unat (s_addr s0))] up_stat 0 (tell101 s0 IEC10X_CONNECTED d) tm bk u'" by auto
  }
qed

lemma m_resets:
  assumes "m_now m0 [frame10 0x0B la] [] (up_stat\<lparr>st_init := IEC10X_STA_LINK_CONNECT\<rparr>) 0 d tm m" and "length b = 1500" and "\<forall>n. heap n"
  shows "\<exists>b' m'. length b' = 1500 \<and> iec101_m_exec_round heap tc (b, m) = Some (b', m') \<and>
    m_now m0 [] [frame10 0x40 (unat (c_addr m0))] (up_stat\<lparr>st_init := IEC10X_STA_LINK_CONNECT_OK\<rparr>) 0 d tm m'"
proof (rule m_round_10 [OF assms])
  let ?f = "\<lambda>u. c_set_init IEC10X_STA_LINK_CONNECT_OK (m_sent [frame10 0x40 (unat (c_addr m0))] u)"
  let ?now = "m_now m0 [] [frame10 0x40 (unat (c_addr m0))] (up_stat\<lparr>st_init := IEC10X_STA_LINK_CONNECT_OK\<rparr>) 0 d tm"
  fix u
  {
    fix a assume u: "m_now m0 [] [] (up_stat\<lparr>st_init := IEC10X_STA_LINK_CONNECT\<rparr>) 0 d tm u" and a: "ba_wf a" "ba_bytes a = frame10 0x0B la"
    show "\<exists>r. iec101_m_deal_10 (u\<lparr>c_array := a\<rparr>) (ba_data a) 6 = Some (r, (?f u)\<lparr>c_array := a\<rparr>)"
      using frame10_reads [OF a] m_nowD(1,8) [OF u]
      by (simp add: iec101_m_deal_10_def ctrl_fields iec101_ctrls iec101_downs iec101_m_build_reset_remote_link_def m_stable_frame
          c_set_defs m_sent_def)
  next
    assume u: "m_now m0 [] [] (up_stat\<lparr>st_init := IEC10X_STA_LINK_CONNECT\<rparr>) 0 d tm u"
    show "?now (?f u)" using c_set_now(1) [OF m_now_update(7) [OF u]] by force
  next
    assume u: "?now u"
    then show "\<exists>u'. iec101_m_state_machine tc u = Some u' \<and> ?now u'"
      using m_nowD(2,3) [OF u] by (intro exI [of _ u]) (simp add: iec101_m_state_machine_def iec101_m_state_machine_work_def)
  }
qed

lemma s_confirms:
  assumes "s_now s0 [frame10 0x40 la] [] up_stat 0 d tm bk s" and "length b = 1500" and "\<forall>n. heap n"
  shows "\<exists>b' s'. length b' = 1500 \<and> iec101_s_exec_round heap tc (b, s) = Some (b', s') \<and>
    s_now s0 [] [frame10 0 (unat (s_addr s0))] up_stat 0 d tm bk s'"
proof (rule s_round_10 [OF assms])
  let ?f = "\<lambda>u. sent101 [frame10 0 (unat (s_addr s0))] u"
  fix u
  {
    fix a assume u: "s_now s0 [] [] up_stat 0 d tm bk u" and a: "ba_wf a" "ba_bytes a = frame10 0x40 la"
    have "serial_open (u\<lparr>s_array := a\<rparr>)" using s_nowD(1) [OF u] by (simp add: serial_open_def)
    then show "\<exists>r. iec101_s_deal_10 (u\<lparr>s_array := a\<rparr>) (ba_data a) 6 = Some (r, (?f u)\<lparr>s_array := a\<rparr>)"
      using frame10_reads [OF a] s_nowD(8) [OF u]
      by (simp add: iec101_s_deal_10_def ctrl_fields iec101_ctrls iec101_s_build_request_confirm_def stable_frame write_sent sent101_def)
  next
    assume u: "s_now s0 [] [] up_stat 0 d tm bk u"
    show "s_now s0 [] [frame10 0 (unat (s_addr s0))] up_stat 0 d tm bk (?f u)" using s_now_update(7) [OF u] by force
  next
    assume u: "s_now s0 [] [frame10 0 (unat (s_addr s0))] up_stat 0 d tm bk u"
    with s_machine_up [OF s_nowD(2) [OF u]] show "\<exists>u'. iec101_s_state_machine tc u = Some u' \<and>
      s_now s0 [] [frame10 0 (unat (s_addr s0))] up_stat 0 d tm bk u'" by blast
  }
qed

text \<open>A confirmation only sets the flag.\<close>

lemma m_confirmed:
  assumes "m_now m0 r [] st k d tm u" and "ba_wf a" and "ba_bytes a = frame10 c la"
    and "iec101_ctrl_func c = 0" and "iec101_ctrl_prm c = 0"
  shows "\<exists>r. iec101_m_deal_10 (u\<lparr>c_array := a\<rparr>) (ba_data a) 6 = Some (r, (u\<lparr>c_tack := 1\<rparr>)\<lparr>c_array := a\<rparr>)"
  using frame10_reads [OF assms(2,3)] assms(4,5) by (simp add: iec101_m_deal_10_def iec101_ctrls)

lemma m_is_up:
  assumes "m_now m0 [frame10 0 la] [] (up_stat\<lparr>st_init := IEC10X_STA_LINK_CONNECT_OK\<rparr>) 0 d tm m" and "length b = 1500" and "\<forall>n. heap n"
  shows "\<exists>b' m'. length b' = 1500 \<and> iec101_m_exec_round heap tc (b, m) = Some (b', m') \<and>
    m_now m0 [] [] up_stat 0 (tell_m m0 IEC10X_CONNECTED d) tm m'"
proof (rule m_round_10 [OF assms, where f = "\<lambda>u. u\<lparr>c_tack := 1\<rparr>"])
  fix u
  {
    fix a assume u: "m_now m0 [] [] (up_stat\<lparr>st_init := IEC10X_STA_LINK_CONNECT_OK\<rparr>) 0 d tm u" and a: "ba_wf a" "ba_bytes a = frame10 0 la"
    show "\<exists>r. iec101_m_deal_10 (u\<lparr>c_array := a\<rparr>) (ba_data a) 6 = Some (r, u\<lparr>c_tack := 1, c_array := a\<rparr>)"
      using m_confirmed [OF u a] by (simp add: ctrl_fields)
  next
    assume "m_now m0 [] [] (up_stat\<lparr>st_init := IEC10X_STA_LINK_CONNECT_OK\<rparr>) 0 d tm u"
    from m_now_update(3) [OF this]
    show "m_now m0 [] [] (up_stat\<lparr>st_init := IEC10X_STA_LINK_CONNECT_OK\<rparr>) 1 d tm (u\<lparr>c_tack := 1\<rparr>)" .
  next
    assume u: "m_now m0 [] [] (up_stat\<lparr>st_init := IEC10X_STA_LINK_CONNECT_OK\<rparr>) 1 d tm u"
    let ?u' = "c_set_init IEC10X_STA_LINK_IDLE (iec101_m_serve (u\<lparr>c_tack := 0\<rparr>) IEC10X_CONNECTED)"
    have n: "m_now m0 [] [] up_stat 0 (tell_m m0 IEC10X_CONNECTED d) tm ?u'"
      using c_set_now(1) [OF m_serve_now [OF m_now_update(3) [OF u]], of IEC10X_STA_LINK_IDLE 0] by (simp add: up_stat_def)
    have "iec101_m_state_machine tc u = Some ?u'"
      using m_nowD(2,3) [OF u] m_machines_up [OF m_nowD(2) [OF n]] m_nowD(2) [OF n]
      by (simp add: iec101_m_state_machine_def iec101_m_state_machine_work_def up_stat_def)
    with n show "\<exists>u'. iec101_m_state_machine tc u = Some u' \<and> m_now m0 [] [] up_stat 0 (tell_m m0 IEC10X_CONNECTED d) tm u'" by blast
  }
qed

lemma s_stays_up:
  assumes "s_now s0 [] [] up_stat k d tm bk s" and "length b = 1500"
  shows "\<exists>b' s'. length b' = 1500 \<and> iec101_s_exec_round heap tc (b, s) = Some (b', s') \<and> s_now s0 [] [] up_stat k d tm bk s'"
proof (rule s_round_quiet [OF assms])
  fix u assume u: "s_now s0 [] [] up_stat k d tm bk u"
  with s_machine_up [OF s_nowD(2) [OF u]] show "\<exists>u'. iec101_s_state_machine tc u = Some u' \<and> s_now s0 [] [] up_stat k d tm bk u'" by blast
qed

text \<open>C38. Two freshly started stations on an open line are connected after four turns, whatever their clocks say: the master asks for the status of the
  link, is answered, resets the remote link and is confirmed; both applications are told that they are connected, once, both stations are idle, and
  nothing is left on the line. The addresses of the two stations need not agree.\<close>

theorem serial_link_comes_up:
  assumes "m_rest m" and "s_rest s" and "st_init (c_stat m) = IEC10X_STA_LINK_INIT" and "st_init (s_stat s) = IEC10X_STA_LINK_INIT"
    and "length mb = 1500" and "length sb = 1500" and "\<forall>n. heap n"
  shows "\<exists>mb' m' sb' s'. serial_turns heap [(a1, b1), (a2, b2), (a3, b3), (a4, b4)] ((mb, m), (sb, s)) = Some ((mb', m'), (sb', s')) \<and>
    m_now m [] [] up_stat 0 (tell_m m IEC10X_CONNECTED (c_app m)) (c_time m) m' \<and>
    s_now s [] [] up_stat 0 (tell101 s IEC10X_CONNECTED (s_app s)) (s_time s) (s_yk_bak s) s'"
proof -
  note mr = assms(1) [unfolded m_rest_def] and sr = assms(2) [unfolded s_rest_def]
  obtain mb1 m1 where m1: "length mb1 = 1500" "iec101_m_exec_round heap a1 (mb, m) = Some (mb1, m1)"
    "m_now m [] [] (up_stat\<lparr>st_init := IEC10X_STA_LINK_OPEN\<rparr>) 0 (c_app m) (c_time m) m1"
    using m_opens [OF mr assms(3,5)] by blast
  obtain n1 sb1 s1 where t1: "length sb1 = 1500" "serial_turn heap (a1, b1) ((mb, m), (sb, s)) = Some ((mb1, n1), (sb1, s1))"
    "m_now m [] [] (up_stat\<lparr>st_init := IEC10X_STA_LINK_OPEN\<rparr>) 0 (c_app m) (c_time m) n1"
    "s_now s [] [] (up_stat\<lparr>st_init := IEC10X_STA_LINK_OPEN\<rparr>) 0 (s_app s) (s_time s) (s_yk_bak s) s1"
    using serial_turn_now [OF m1(2,3) sr s_opens [where k = "s_tack s" and tc = b1 and d = "s_app s" and tm = "s_time s" and bk = "s_yk_bak s", OF _ assms(4,6)]] by auto
  obtain mb2 m2 where m2: "length mb2 = 1500" "iec101_m_exec_round heap a2 (mb1, n1) = Some (mb2, m2)"
    "m_now m [] [frame10 0x49 (unat (c_addr m))] (up_stat\<lparr>st_init := IEC10X_STA_LINK_CONNECT\<rparr>) 0 (c_app m) (c_time m) m2"
    using m_asks_status [OF t1(3) m1(1)] by blast
  obtain n2 sb2 s2 where t2: "length sb2 = 1500" "serial_turn heap (a2, b2) ((mb1, n1), (sb1, s1)) = Some ((mb2, n2), (sb2, s2))"
    "m_now m [frame10 0x0B (unat (s_addr s))] [] (up_stat\<lparr>st_init := IEC10X_STA_LINK_CONNECT\<rparr>) 0 (c_app m) (c_time m) n2"
    "s_now s [] [] up_stat 0 (tell101 s IEC10X_CONNECTED (s_app s)) (s_time s) (s_yk_bak s) s2"
    using serial_turn_now [OF m2(2,3) t1(4) s_answers_status [where la = "unat (c_addr m)" and tc = b2 and d = "s_app s" and tm = "s_time s" and bk = "s_yk_bak s", OF _ t1(1) assms(7)]] by auto
  obtain mb3 m3 where m3: "length mb3 = 1500" "iec101_m_exec_round heap a3 (mb2, n2) = Some (mb3, m3)"
    "m_now m [] [frame10 0x40 (unat (c_addr m))] (up_stat\<lparr>st_init := IEC10X_STA_LINK_CONNECT_OK\<rparr>) 0 (c_app m) (c_time m) m3"
    using m_resets [OF t2(3) m2(1) assms(7)] by blast
  obtain n3 sb3 s3 where t3: "length sb3 = 1500" "serial_turn heap (a3, b3) ((mb2, n2), (sb2, s2)) = Some ((mb3, n3), (sb3, s3))"
    "m_now m [frame10 0 (unat (s_addr s))] [] (up_stat\<lparr>st_init := IEC10X_STA_LINK_CONNECT_OK\<rparr>) 0 (c_app m) (c_time m) n3"
    "s_now s [] [] up_stat 0 (tell101 s IEC10X_CONNECTED (s_app s)) (s_time s) (s_yk_bak s) s3"
    using serial_turn_now [OF m3(2,3) t2(4) s_confirms [where la = "unat (c_addr m)" and tc = b3 and d = "tell101 s IEC10X_CONNECTED (s_app s)" and tm = "s_time s" and bk = "s_yk_bak s", OF _ t2(1) assms(7)]] by auto
  obtain mb4 m4 where m4: "length mb4 = 1500" "iec101_m_exec_round heap a4 (mb3, n3) = Some (mb4, m4)"
    "m_now m [] [] up_stat 0 (tell_m m IEC10X_CONNECTED (c_app m)) (c_time m) m4"
    using m_is_up [OF t3(3) m3(1) assms(7)] by blast
  obtain n4 sb4 s4 where t4: "serial_turn heap (a4, b4) ((mb3, n3), (sb3, s3)) = Some ((mb4, n4), (sb4, s4))"
    "m_now m [] [] up_stat 0 (tell_m m IEC10X_CONNECTED (c_app m)) (c_time m) n4"
    "s_now s [] [] up_stat 0 (tell101 s IEC10X_CONNECTED (s_app s)) (s_time s) (s_yk_bak s) s4"
    using serial_turn_now [OF m4(2,3) t3(4) s_stays_up [where tc = b4 and k = 0 and d = "tell101 s IEC10X_CONNECTED (s_app s)" and tm = "s_time s" and bk = "s_yk_bak s", OF _ t3(1)]] by auto
  show ?thesis using t1(2) t2(2) t3(2) t4 by auto
qed

lemma m_restI:
  "ba_wf (c_array m) \<Longrightarrow> ba_bytes (c_array m) = [] \<Longrightarrow> serial_line (c_link_ctx m) (c_lnk m) \<Longrightarrow> rx (c_lnk m) = [] \<Longrightarrow> tx (c_lnk m) = [] \<Longrightarrow> m_rest m"
  unfolding m_rest_def m_now_def
  by (intro exI [of _ "c_array m"] exI [of _ "c_lnk m"] exI [of _ "c_fcb_1 m"] exI [of _ "c_fcb_2 m"]) simp

lemma s_restI:
  "ba_wf (s_array s) \<Longrightarrow> ba_bytes (s_array s) = [] \<Longrightarrow> serial_line (s_link_ctx s) (s_lnk s) \<Longrightarrow> rx (s_lnk s) = [] \<Longrightarrow> tx (s_lnk s) = [] \<Longrightarrow> s_rest s"
  unfolding s_rest_def s_now_def by (intro exI [of _ "s_array s"] exI [of _ "s_lnk s"]) simp

lemma m_fresh:
  assumes "open_ok env"
  shows "\<exists>m0 m. wow_iec101_m_init pad (\<lambda>_. True) a True True True True p d = Some m0 \<and> wow_iec101_m_start m0 env True = Some (0, m) \<and> m_rest m \<and>
    st_init (c_stat m) = IEC10X_STA_LINK_INIT"
  using assms
  by (auto simp: wow_iec101_m_init_def wow_iec101_m_start_def wow_byte_array_new_def iec101_m_reset_param_def serial_line_def
      proto_port_uart_init_def uart_link_open_def new_port_def ba_wf_def ba_bytes_def intro!: m_restI)

lemma s_fresh:
  assumes "open_ok env"
  shows "\<exists>s0 s. wow_iec101_s_init pad (\<lambda>_. True) a True (replicate 6 True) True p d = Some s0 \<and> wow_iec101_s_start s0 env True = Some (0, s) \<and> s_rest s \<and>
    st_init (s_stat s) = IEC10X_STA_LINK_INIT"
proof -
  have "replicate 6 True = [True, True, True, True, True, True]" by (simp add: numeral_eq_Suc)
  with assms show ?thesis
    by (auto simp: wow_iec101_s_init_def wow_iec101_s_start_def wow_byte_array_new_def iec101_s_reset_param_def serial_line_def
        proto_port_uart_init_def uart_link_open_def new_port_def ba_wf_def ba_bytes_def intro!: s_restI)
qed

theorem serial_link_comes_up_witness:
  "\<exists>m0 m s0 s mb' m' sb' s'. wow_iec101_m_init 0 (\<lambda>_. True) 1 True True True True () () = Some m0 \<and>
     wow_iec101_m_start m0 \<lparr>open_ok = True, listen_ok = True, accept_cb_ok = True, connect_ok = True\<rparr> True = Some (0, m) \<and>
     wow_iec101_s_init 0 (\<lambda>_. True) 1 True (replicate 6 True) True () () = Some s0 \<and>
     wow_iec101_s_start s0 \<lparr>open_ok = True, listen_ok = True, accept_cb_ok = True, connect_ok = True\<rparr> True = Some (0, s) \<and>
     serial_turns (\<lambda>_. True) [(\<lambda>_. 1, \<lambda>_. 2), (\<lambda>_. 3, \<lambda>_. 4), (\<lambda>_. 5, \<lambda>_. 6), (\<lambda>_. 7, \<lambda>_. 8)]
       ((replicate 1500 0, m), (replicate 1500 0, s)) = Some ((mb', m'), (sb', s')) \<and>
     st_init (c_stat m') = IEC10X_STA_LINK_IDLE"
proof -
  let ?env = "\<lparr>open_ok = True, listen_ok = True, accept_cb_ok = True, connect_ok = True\<rparr>"
  obtain m0 m :: "(proto_port, unit, unit) iec101m_t" where
    m: "wow_iec101_m_init 0 (\<lambda>_. True) 1 True True True True () () = Some m0" "wow_iec101_m_start m0 ?env True = Some (0, m)" "m_rest m"
      "st_init (c_stat m) = IEC10X_STA_LINK_INIT"
    using m_fresh [of ?env 0 1 "()" "()"] by auto
  obtain s0 s :: "(proto_port, unit, unit) iec101s_t" where
    s: "wow_iec101_s_init 0 (\<lambda>_. True) 1 True (replicate 6 True) True () () = Some s0" "wow_iec101_s_start s0 ?env True = Some (0, s)" "s_rest s"
      "st_init (s_stat s) = IEC10X_STA_LINK_INIT"
    using s_fresh [of ?env 0 1 "()" "()"] by auto
  obtain mb' m' sb' s' where "serial_turns (\<lambda>_. True) [(\<lambda>_. 1, \<lambda>_. 2), (\<lambda>_. 3, \<lambda>_. 4), (\<lambda>_. 5, \<lambda>_. 6), (\<lambda>_. 7, \<lambda>_. 8)]
       ((replicate 1500 0, m), (replicate 1500 0, s)) = Some ((mb', m'), (sb', s'))"
    "m_now m [] [] up_stat 0 (tell_m m IEC10X_CONNECTED (c_app m)) (c_time m) m'"
    using serial_link_comes_up [OF m(3) s(3) m(4) s(4), of "replicate 1500 0" "replicate 1500 0" "\<lambda>_. True" "\<lambda>_. 1" "\<lambda>_. 2" "\<lambda>_. 3" "\<lambda>_. 4"
      "\<lambda>_. 5" "\<lambda>_. 6" "\<lambda>_. 7" "\<lambda>_. 8"] by (auto simp del: serial_turns.simps)
  moreover from m_nowD(2) [OF this(2)] have "st_init (c_stat m') = IEC10X_STA_LINK_IDLE" by (simp add: up_stat_def)
  ultimately show ?thesis using m(1,2) s(1,2) by blast
qed

end
