(* ===== verification/Iec101Invariant.thy ===== *)
theory Iec101Invariant
  imports Iec101Line
begin

text \<open>
  The states a serial IEC 101 station can get into. \<open>serial_step\<close> is everything that can happen to it: a round of the thread with any input,
  clock and heap, the calls of the API, bytes arriving and changes of the application. The second part says which nodes the
  configuration keeps.
\<close>

section \<open>Sending and calling back leaves the control state alone\<close>

definition same_ctl :: "('s, 'p, 'd) iec101s_t \<Rightarrow> ('s, 'p, 'd) iec101s_t \<Rightarrow> bool" where
  "same_ctl s s' \<longleftrightarrow> s_stat s' = s_stat s \<and> s_tack s' = s_tack s \<and> s_yk_bak s' = s_yk_bak s \<and> s_yt_bak s' = s_yt_bak s"

named_theorems ctl_intros \<open>operations that leave the control state alone\<close>

lemma same_ctl_refl [simp, ctl_intros]: "same_ctl s s"
  by (simp add: same_ctl_def)

lemma same_ctl_trans: "same_ctl s t \<Longrightarrow> same_ctl t u \<Longrightarrow> same_ctl s u"
  by (simp add: same_ctl_def)

lemma same_ctl_app [simp]: "same_ctl s (t\<lparr>s_app := d\<rparr>) = same_ctl s t" "same_ctl s (t\<lparr>s_lnk := l\<rparr>) = same_ctl s t"
  by (simp_all add: same_ctl_def)

lemma ctl_write: "iec101_s_write s m = Some (r, s') \<Longrightarrow> same_ctl s s'"
  by (auto simp: iec101_s_write_def bind_Some_iff)

lemma ctl_finish: "iec101_s_finish s b l = Some (r, s') \<Longrightarrow> same_ctl s s'"
  by (auto simp: iec101_s_finish_def bind_Some_iff Let_def split: if_splits dest: ctl_write)

lemma ctl_stable: "iec101_s_stable s acd func = Some (r, s') \<Longrightarrow> same_ctl s s'"
  by (auto simp: iec101_s_stable_def Let_def dest: ctl_write)

lemma ctl_fixed:
  "iec101_s_build_link_status_ack s = Some (r, s') \<Longrightarrow> same_ctl s s'"
  "iec101_s_build_request_confirm s = Some (r, s') \<Longrightarrow> same_ctl s s'"
  "iec101_s_build_request_user_nack s = Some (r, s') \<Longrightarrow> same_ctl s s'"
  "iec101_s_build_request_user_ack s = Some (r, s') \<Longrightarrow> same_ctl s s'"
  by (auto simp: iec101_s_build_link_status_ack_def iec101_s_build_request_confirm_def iec101_s_build_request_user_nack_def
      iec101_s_build_request_user_ack_def dest: ctl_stable)

lemma ctl_get: "iec101_s_get s node = (v, s') \<Longrightarrow> same_ctl s s'"
  by (auto simp: iec101_s_get_def split: option.splits prod.splits)

lemma ctl_yx_fill: "iec101_s_yx_fill nodes i n s buf ptr = Some (s', r) \<Longrightarrow> same_ctl s s'"
  by (induction nodes i n s buf ptr rule: iec101_s_yx_fill.induct)
    (auto simp: bind_Some_iff Let_def split: option.splits prod.splits dest: ctl_get intro: same_ctl_trans)

lemma ctl_yc_fill: "iec101_s_yc_fill nodes i n s buf ptr = Some (s', r) \<Longrightarrow> same_ctl s s'"
  by (induction nodes i n s buf ptr rule: iec101_s_yc_fill.induct)
    (auto simp: bind_Some_iff Let_def split: option.splits prod.splits if_splits dest: ctl_get intro: same_ctl_trans)

lemma ctl_ym_fill: "iec101_s_ym_fill nodes i n s buf ptr = Some (s', r) \<Longrightarrow> same_ctl s s'"
  by (induction nodes i n s buf ptr rule: iec101_s_ym_fill.induct)
    (auto simp: bind_Some_iff Let_def split: option.splits prod.splits dest: ctl_get intro: same_ctl_trans)

lemma ctl_report:
  assumes "\<And>nodes i n s buf ptr s' r. fill nodes i n s buf ptr = Some (s', r) \<Longrightarrow> same_ctl s s'"
    and "iec101_s_report fill ty s reason nodes = Some (r, s')"
  shows "same_ctl s s'"
  using assms(2)
  by (auto simp: iec101_s_report_def bind_Some_iff Let_def split: option.splits dest!: assms(1) ctl_finish intro: same_ctl_trans)

lemma ctl_reports:
  "iec101_s_build_yx s reason nodes = Some (r, s') \<Longrightarrow> same_ctl s s'"
  "iec101_s_build_yc s reason nodes = Some (r, s') \<Longrightarrow> same_ctl s s'"
  "iec101_s_build_ym s reason nodes = Some (r, s') \<Longrightarrow> same_ctl s s'"
  by (auto simp: iec101_s_build_yx_def iec101_s_build_yc_def iec101_s_build_ym_def
      intro: ctl_report [OF ctl_yx_fill] ctl_report [OF ctl_yc_fill] ctl_report [OF ctl_ym_fill])

lemma ctl_runs:
  assumes "\<And>x s r s'. build x s = Some (r, s') \<Longrightarrow> same_ctl s s'" and "iec101_s_send_runs build xs s = Some s'"
  shows "same_ctl s s'"
  using assms(2) by (induction xs arbitrary: s) (auto simp: bind_Some_iff dest!: assms(1) intro: same_ctl_trans)

lemma ctl_call:
  "iec101_s_build_call_ack s = Some (r, s') \<Longrightarrow> same_ctl s s'"
  "iec101_s_build_call_finsh s qoi = Some (r, s') \<Longrightarrow> same_ctl s s'"
  "iec101_s_build_yt_ack s reason = Some (r, s') \<Longrightarrow> same_ctl s s'"
  "iec101_s_build_yk_ack s reason = Some (r, s') \<Longrightarrow> same_ctl s s'"
  by (auto simp: iec101_s_build_call_ack_def iec101_s_build_call_finsh_def iec101_s_build_yt_ack_def iec101_s_build_yk_ack_def
      iec101_s_build_cmd_ack_def bind_Some_iff Let_def dest: ctl_finish)

lemma ctl_serve [simp]: "same_ctl s (iec101_s_serve t ev) = same_ctl s t"
  by (auto simp: iec101_s_serve_def split: option.split)

lemma serve_fields [simp]:
  "s_stat (iec101_s_serve s ev) = s_stat s" "s_tack (iec101_s_serve s ev) = s_tack s" "s_yk_bak (iec101_s_serve s ev) = s_yk_bak s"
  "s_yt_bak (iec101_s_serve s ev) = s_yt_bak s"
  by (auto simp: iec101_s_serve_def split: option.split)

lemma ctl_set [simp]: "same_ctl s (iec101_s_set t node v) = same_ctl s t" "same_ctl (iec101_s_set t node v) s = same_ctl t s"
  by (auto simp: iec101_s_set_def same_ctl_def split: option.split)

lemma ctl_yk_sq: "iec101_s_yk_sq rbuf msk addr ptr i n s = Some s' \<Longrightarrow> same_ctl s s'"
proof (induction n arbitrary: ptr i s)
  case (Suc n)
  then show ?case by (auto simp: bind_Some_iff Let_def split: if_splits dest: Suc.IH)
qed simp

lemma ctl_yk_single: "iec101_s_yk_single rbuf msk ptr n s = Some s' \<Longrightarrow> same_ctl s s'"
proof (induction n arbitrary: ptr s)
  case (Suc n)
  then show ?case by (auto simp: bind_Some_iff Let_def split: if_splits dest: Suc.IH)
qed simp

lemma ctl_yt_sq: "iec101_s_yt_sq rbuf w ty addr ptr i n s = Some (e, s') \<Longrightarrow> same_ctl s s'"
proof (induction n arbitrary: ptr i s)
  case (Suc n)
  then show ?case by (auto simp: bind_Some_iff Let_def split: if_splits dest: Suc.IH)
qed simp

lemma ctl_yt_single: "iec101_s_yt_single rbuf w conv ty ptr n s = Some (e, s') \<Longrightarrow> same_ctl s s'"
proof (induction n arbitrary: ptr s)
  case (Suc n)
  then show ?case by (auto simp: bind_Some_iff Let_def split: if_splits dest: Suc.IH)
qed simp

section \<open>The invariant\<close>

text \<open>The states of the machine of the set points; the last one is left behind by a point command.\<close>

definition yt_states :: "Iec10xStat_E set" where
  "yt_states = {IEC10X_STA_YT_CMD_IDLE, IEC10X_STA_YT_CMD_START, IEC10X_STA_YT_CMD_CONFIRM, IEC10X_STA_YT_CMD_FAILD, IEC10X_STA_YK_CMD_SUCCESS}"

definition inv101 :: "('s, 'p, 'd) iec101s_t \<Rightarrow> bool" where
  "inv101 s \<longleftrightarrow>
     st_init (s_stat s) \<in> {IEC10X_STA_LINK_INIT, IEC10X_STA_LINK_OPEN, IEC10X_STA_LINK_CONNECT, IEC10X_STA_LINK_CONNECT_OK, IEC10X_STA_LINK_IDLE} \<and>
     st_callpulse (s_stat s) = IEC10X_STA_CALL_PULSE_IDLE \<and>
     st_callall (s_stat s) \<in> {IEC10X_STA_CALL_ALL_IDLE, IEC10X_STA_CALL_ALL_START, IEC10X_STA_CALL_ALL_CONFIRM, IEC10X_STA_CALL_ALL_YX,
       IEC10X_STA_CALL_ALL_YC, IEC10X_STA_CALL_ALL_SUCCESS, IEC10X_STA_CALL_ALL_FAILD, IEC10X_STA_CALL_PULSE_START} \<and>
     st_yt (s_stat s) \<in> yt_states \<and>
     (st_yt (s_stat s) \<in> {IEC10X_STA_YT_CMD_START, IEC10X_STA_YT_CMD_CONFIRM} \<longrightarrow> s_yt_bak s \<noteq> None) \<and>
     st_yk (s_stat s) \<in> {IEC10X_STA_YK_CMD_IDLE, IEC10X_STA_YK_CMD_START, IEC10X_STA_YK_CMD_CONFIRM, IEC10X_STA_YK_CMD_EXEC, IEC10X_STA_YK_CMD_FAILD} \<and>
     (st_yk (s_stat s) \<in> {IEC10X_STA_YK_CMD_START, IEC10X_STA_YK_CMD_CONFIRM} \<longrightarrow> s_yk_bak s \<noteq> None) \<and>
     s_tack s \<in> {0, 1}"

lemma inv_ctl: "same_ctl s s' \<Longrightarrow> inv101 s \<Longrightarrow> inv101 s'"
  by (simp add: same_ctl_def inv101_def)

lemmas inv_fixed = ctl_fixed [THEN inv_ctl]
lemmas inv_call = ctl_call [THEN inv_ctl]

lemma inv101_reset: "inv101 (iec101_s_reset_param s)"
  by (simp add: inv101_def iec101_s_reset_param_def yt_states_def)

lemma inv_other [simp]:
  "inv101 (s\<lparr>s_array := a\<rparr>) = inv101 s" "inv101 (s\<lparr>s_lnk := l\<rparr>) = inv101 s" "inv101 (s\<lparr>s_app := d\<rparr>) = inv101 s" "inv101 (s\<lparr>s_time := tm\<rparr>) = inv101 s"
  "inv101 (s\<lparr>s_running := b\<rparr>) = inv101 s" "inv101 (s\<lparr>s_started := b\<rparr>) = inv101 s" "inv101 (s\<lparr>s_yx_list := r\<rparr>) = inv101 s"
  "inv101 (s\<lparr>s_yc_n_list := r\<rparr>) = inv101 s" "inv101 (s\<lparr>s_yc_f_list := r\<rparr>) = inv101 s" "inv101 (s\<lparr>s_ym_list := r\<rparr>) = inv101 s"
  "inv101 (s\<lparr>s_set_cb := f, s_set_priv := p\<rparr>) = inv101 s" "inv101 (s\<lparr>s_get_cb := g, s_get_priv := p\<rparr>) = inv101 s"
  "inv101 (s\<lparr>s_serv_cb := h, s_serv_priv := p\<rparr>) = inv101 s"
  by (simp_all add: inv101_def)

lemma inv101_serve [simp]: "inv101 (iec101_s_serve s ev) = inv101 s"
  by (simp add: inv101_def)

lemma inv_tack: "inv101 s \<Longrightarrow> x \<in> {0, 1} \<Longrightarrow> inv101 (s\<lparr>s_tack := x\<rparr>)"
  by (simp add: inv101_def)

lemma inv_callall:
  "inv101 s \<Longrightarrow> st \<in> {IEC10X_STA_CALL_ALL_IDLE, IEC10X_STA_CALL_ALL_START, IEC10X_STA_CALL_ALL_CONFIRM, IEC10X_STA_CALL_ALL_YX,
     IEC10X_STA_CALL_ALL_YC, IEC10X_STA_CALL_ALL_SUCCESS, IEC10X_STA_CALL_ALL_FAILD, IEC10X_STA_CALL_PULSE_START} \<Longrightarrow>
   inv101 (s_set_callall st s)"
  by (simp add: inv101_def s_set_defs)

lemma inv_yk_free: "inv101 s \<Longrightarrow> st \<in> {IEC10X_STA_YK_CMD_IDLE, IEC10X_STA_YK_CMD_EXEC, IEC10X_STA_YK_CMD_FAILD} \<Longrightarrow> inv101 (s_set_yk st s)"
  by (auto simp: inv101_def s_set_defs)

lemma inv101_init:
  "inv101 s \<Longrightarrow> st \<in> {IEC10X_STA_LINK_INIT, IEC10X_STA_LINK_OPEN, IEC10X_STA_LINK_CONNECT, IEC10X_STA_LINK_CONNECT_OK, IEC10X_STA_LINK_IDLE} \<Longrightarrow>
   inv101 (s_set_init st s)"
  by (simp add: inv101_def s_set_defs)

lemma inv_deal_10: "iec101_s_deal_10 s buf len = Some (r, s') \<Longrightarrow> inv101 s \<Longrightarrow> inv101 s'"
  by (auto simp: iec101_s_deal_10_def bind_Some_iff Let_def split: if_splits dest!: ctl_fixed dest: inv_ctl intro: inv101_init inv_tack)

text \<open>A set point ends in its first state with a copy of the command, and a command without a select bit takes the machine of the point
  commands into its execution.\<close>

lemma inv_yt_started:
  assumes "inv101 u"
  shows "inv101 ((s_set_yt IEC10X_STA_YT_CMD_START (if e then s_set_yk IEC10X_STA_YK_CMD_EXEC u else u))\<lparr>s_yt_bak := Some b\<rparr>)"
  using assms by (simp add: inv101_def s_set_defs yt_states_def)

lemma yt_result:
  assumes "iec101_s_asdu_yt heap s rbuf len = Some (r, s')"
  shows "s' = s \<or> s' = iec101_s_serve s IEC10X_YT_CMD_FAILD \<or>
    (\<exists>e u b. same_ctl s u \<and> s' = (s_set_yt IEC10X_STA_YT_CMD_START (if e then s_set_yk IEC10X_STA_YK_CMD_EXEC u else u))\<lparr>s_yt_bak := Some b\<rparr>)"
  using assms
  by (auto simp: iec101_s_asdu_yt_def bind_Some_iff Let_def split: if_splits dest!: ctl_yt_sq ctl_yt_single)

lemma inv_yt: "iec101_s_asdu_yt heap s rbuf len = Some (r, s') \<Longrightarrow> inv101 s \<Longrightarrow> inv101 s'"
  using yt_result [of heap s rbuf len r s'] inv_yt_started inv_ctl by fastforce

lemma inv_yk_select: "inv101 s \<Longrightarrow> inv101 ((s_set_yk IEC10X_STA_YK_CMD_START s)\<lparr>s_yk_bak := Some b\<rparr>)"
  by (auto simp: inv101_def s_set_defs)

lemma inv_yk:
  assumes "iec101_s_asdu_yk heap s rbuf len = Some (r, s')" and "inv101 s"
  shows "inv101 s'"
proof -
  have "inv101 (s_set_yk IEC10X_STA_YK_CMD_EXEC s)" using assms(2) by (rule inv_yk_free) simp
  then show ?thesis
    using assms inv_yk_select [OF assms(2)] inv_ctl [OF ctl_yk_sq] inv_ctl [OF ctl_yk_single]
    by (auto simp: iec101_s_asdu_yk_def bind_Some_iff Let_def split: if_splits)
qed

lemma inv_calls:
  "iec101_s_asdu_call_all s rbuf = Some (r, s') \<Longrightarrow> inv101 s \<Longrightarrow> inv101 s'"
  "iec101_s_asdu_call_pulse s rbuf = Some (r, s') \<Longrightarrow> inv101 s \<Longrightarrow> inv101 s'"
  by (auto simp: iec101_s_asdu_call_all_def iec101_s_asdu_call_pulse_def bind_Some_iff split: if_splits intro: inv_callall)

text \<open>A handler that keeps the invariant, along its branches.\<close>

definition keeps :: "('s, 'p, 'd) iec101_result \<Rightarrow> bool" where
  "keeps m \<longleftrightarrow> (\<forall>r s'. m = Some (r, s') \<longrightarrow> inv101 s')"

lemma keeps_ret: "inv101 s \<Longrightarrow> keeps (Some (r, s))" and keeps_if: "keeps m \<Longrightarrow> keeps m' \<Longrightarrow> keeps (if c then m else m')"
  and keeps_read: "(\<And>x. keeps (f x)) \<Longrightarrow> keeps (Option.bind n f)"
  by (auto simp: keeps_def bind_Some_iff)

lemma keeps_op: "keeps m \<Longrightarrow> (\<And>r s'. inv101 s' \<Longrightarrow> keeps (f (r, s'))) \<Longrightarrow> keeps (Option.bind m f)"
  by (auto simp: keeps_def bind_Some_iff)

lemma keeps_handlers:
  assumes "inv101 s"
  shows "keeps (iec101_s_asdu_call_all s buf)" "keeps (iec101_s_asdu_call_pulse s buf)" "keeps (iec101_s_build_request_confirm s)"
    "keeps (iec101_s_asdu_yk heap s buf len)" "keeps (iec101_s_asdu_yt heap s buf len)" "keeps (iec101_s_asdu_clock s)"
  using assms inv_calls inv_fixed(2) inv_yk inv_yt
  by (auto simp: keeps_def iec101_s_asdu_clock_def bind_Some_iff)

lemma keeps_deal_68: "inv101 s \<Longrightarrow> keeps (iec101_s_deal_68 heap s buf len)"
  unfolding iec101_s_deal_68_def Let_def
  by (intro keeps_if keeps_ret keeps_op [OF keeps_handlers(1)] keeps_op [OF keeps_handlers(2)] keeps_op [OF keeps_handlers(3)]
      keeps_op [OF keeps_handlers(4)] keeps_op [OF keeps_handlers(5)] keeps_op [OF keeps_handlers(6)] keeps_read | assumption | simp only: prod.case)+

lemma inv_deal_68: "iec101_s_deal_68 heap s buf len = Some (r, s') \<Longrightarrow> inv101 s \<Longrightarrow> inv101 s'"
  using keeps_deal_68 [of s heap buf len] by (auto simp: keeps_def)

lemma inv_drop: "iec101_s_drop n s = Some s' \<Longrightarrow> inv101 s \<Longrightarrow> inv101 s'"
  by (auto simp: iec101_s_drop_def bind_Some_iff)

lemma inv_frame_parse: "iec101_s_frame_parse heap s = Some s' \<Longrightarrow> inv101 s \<Longrightarrow> inv101 s'"
  by (auto simp: iec101_s_frame_parse_def iec101_s_exec_68_def iec101_s_exec_10_def bind_Some_iff Let_def split: if_splits
      dest: inv_drop inv_deal_68 inv_deal_10)

section \<open>The state machines\<close>

lemma inv_work: "iec101_s_state_machine_work s = Some s' \<Longrightarrow> inv101 s \<Longrightarrow> inv101 s'"
  by (auto simp: iec101_s_state_machine_work_def bind_Some_iff inv101_reset split: Iec10xStat_E.splits intro!: inv101_init)

lemma inv_timeouts:
  "inv101 s \<Longrightarrow> inv101 (callall_timeout t s)" "inv101 s \<Longrightarrow> inv101 (yk_timeout t s)"
  by (auto simp: callall_timeout_def yk_timeout_def intro: inv_callall inv_yk_free)

lemma inv_send_yx: "iec101_s_send_runs (\<lambda>r s. iec101_s_build_yx s q r) runs s = Some s' \<Longrightarrow> inv101 s \<Longrightarrow> inv101 s'"
  by (rule inv_ctl [OF ctl_runs]) (auto dest: ctl_reports)

lemma inv_send_yc: "iec101_s_send_runs (\<lambda>r s. iec101_s_build_yc s q r) runs s = Some s' \<Longrightarrow> inv101 s \<Longrightarrow> inv101 s'"
  by (rule inv_ctl [OF ctl_runs]) (auto dest: ctl_reports)

lemma inv_machine_callall:
  assumes "iec101_s_state_machine_callall t s = Some s'" and "inv101 s"
  shows "inv101 s'"
proof -
  note run = iec101_s_state_machine_callall_def bind_Some_iff
  have zero: "inv101 (u\<lparr>s_tack := 0\<rparr>)" if "inv101 u" for u :: "('a, 'b, 'c) iec101s_t" using that by (simp add: inv_tack)
  show ?thesis
  proof (cases "st_callall (s_stat s)")
    case IEC10X_STA_CALL_ALL_START
    then show ?thesis using assms by (auto simp: run intro!: inv_callall dest: inv_fixed)
  next
    case IEC10X_STA_CALL_ALL_CONFIRM
    then show ?thesis using assms by (auto simp: run split: if_splits intro!: inv_timeouts inv_callall zero dest: inv_call)
  next
    case IEC10X_STA_CALL_ALL_YX
    then show ?thesis using assms by (auto simp: run split: if_splits intro!: inv_timeouts inv_callall zero dest: inv_send_yx)
  next
    case IEC10X_STA_CALL_ALL_YC
    then show ?thesis using assms by (auto simp: run split: if_splits intro!: inv_timeouts inv_callall zero dest: inv_send_yc)
  next
    case IEC10X_STA_CALL_ALL_SUCCESS
    then show ?thesis using assms by (auto simp: run split: if_splits intro!: inv_callall zero dest: inv_call)
  next
    case IEC10X_STA_CALL_ALL_FAILD
    then show ?thesis using assms by (auto simp: run intro!: inv_callall)
  qed (use assms in \<open>simp_all add: run\<close>)
qed

lemma inv_machine_callpulse: "iec101_s_state_machine_callpulse t s = Some s' \<Longrightarrow> inv101 s \<Longrightarrow> inv101 s'"
  by (simp add: inv101_def iec101_s_state_machine_callpulse_def)

lemma inv_yt_free:
  "inv101 s \<Longrightarrow> st \<in> {IEC10X_STA_YT_CMD_IDLE, IEC10X_STA_YT_CMD_FAILD, IEC10X_STA_YK_CMD_SUCCESS} \<Longrightarrow> inv101 (s_set_yt st s)"
  by (auto simp: inv101_def s_set_defs yt_states_def)

lemma inv_yt_timeout: "inv101 s \<Longrightarrow> inv101 (yt_timeout t s)"
  by (auto simp: yt_timeout_def intro: inv_yt_free)

lemma inv_machine_yt:
  assumes "iec101_s_state_machine_yt t t' s = Some s'" and "inv101 s"
  shows "inv101 s'"
proof -
  note run = iec101_s_state_machine_yt_def bind_Some_iff
  have "st_yt (s_stat s) \<in> yt_states" using assms(2) by (simp add: inv101_def)
  then consider "st_yt (s_stat s) = IEC10X_STA_YT_CMD_IDLE" | "st_yt (s_stat s) = IEC10X_STA_YT_CMD_START"
    | "st_yt (s_stat s) = IEC10X_STA_YT_CMD_CONFIRM" | "st_yt (s_stat s) = IEC10X_STA_YT_CMD_FAILD" | "st_yt (s_stat s) = IEC10X_STA_YK_CMD_SUCCESS"
    by (auto simp: yt_states_def)
  then show ?thesis
  proof cases
    case 2
    obtain r s1 where "iec101_s_build_request_user_ack (s\<lparr>s_time := (s_time s)\<lparr>tm_yt := t\<rparr>\<rparr>) = Some (r, s1)"
      "s' = yt_timeout t' (s_set_yt IEC10X_STA_YT_CMD_CONFIRM s1)"
      using assms(1) 2 by (auto simp: run)
    moreover from ctl_fixed(4) [OF this(1)] have "inv101 (s_set_yt IEC10X_STA_YT_CMD_CONFIRM s1)"
      using assms(2) 2 by (auto simp: inv101_def same_ctl_def s_set_defs yt_states_def)
    ultimately show ?thesis by (simp add: inv_yt_timeout)
  next
    case 3
    then show ?thesis using assms
      by (auto simp: run split: if_splits intro!: inv_yt_timeout inv_tack dest: inv_call(3))
  next
    case 4
    then show ?thesis using assms by (auto simp: run intro!: inv_yt_free)
  qed (use assms in \<open>simp_all add: run\<close>)
qed

lemma inv_yk_timeout: "inv101 s \<Longrightarrow> inv101 (yk_timeout t s)"
  by (auto simp: yk_timeout_def intro: inv_yk_free)

lemma inv_machine_yk:
  assumes "iec101_s_state_machine_yk t t' s = Some s'" and "inv101 s"
  shows "inv101 s'"
proof -
  note run = iec101_s_state_machine_yk_def bind_Some_iff
  have "st_yk (s_stat s) \<in> {IEC10X_STA_YK_CMD_IDLE, IEC10X_STA_YK_CMD_START, IEC10X_STA_YK_CMD_CONFIRM, IEC10X_STA_YK_CMD_EXEC, IEC10X_STA_YK_CMD_FAILD}"
    using assms(2) by (simp add: inv101_def)
  then consider "st_yk (s_stat s) = IEC10X_STA_YK_CMD_IDLE" | "st_yk (s_stat s) = IEC10X_STA_YK_CMD_START"
    | "st_yk (s_stat s) = IEC10X_STA_YK_CMD_CONFIRM" | "st_yk (s_stat s) = IEC10X_STA_YK_CMD_EXEC" | "st_yk (s_stat s) = IEC10X_STA_YK_CMD_FAILD"
    by blast
  then show ?thesis
  proof cases
    case 1
    then show ?thesis using assms by (simp add: run)
  next
    case 2
    obtain r s1 where "iec101_s_build_request_user_ack (s\<lparr>s_time := (s_time s)\<lparr>tm_yk := t\<rparr>\<rparr>) = Some (r, s1)"
      "s' = yk_timeout t' (s_set_yk IEC10X_STA_YK_CMD_CONFIRM s1)"
      using assms(1) 2 by (auto simp: run)
    moreover from ctl_fixed(4) [OF this(1)] have "inv101 (s_set_yk IEC10X_STA_YK_CMD_CONFIRM s1)"
      using assms(2) 2 by (auto simp: inv101_def same_ctl_def s_set_defs)
    ultimately show ?thesis by (simp add: inv_yk_timeout)
  next
    case 3
    then show ?thesis using assms
      by (auto simp: run split: if_splits intro!: inv_yk_timeout inv_tack dest: inv_call(4))
  next
    case 4
    obtain r s1 where "iec101_s_build_request_user_ack s = Some (r, s1)" "s' = yk_timeout t ((s_set_yt IEC10X_STA_YK_CMD_SUCCESS s1)\<lparr>s_tack := 0\<rparr>)"
      using assms(1) 4 by (auto simp: run)
    moreover from ctl_fixed(4) [OF this(1)] have "inv101 ((s_set_yt IEC10X_STA_YK_CMD_SUCCESS s1)\<lparr>s_tack := 0\<rparr>)"
      using assms(2) by (auto simp: inv101_def same_ctl_def s_set_defs yt_states_def)
    ultimately show ?thesis by (simp add: inv_yk_timeout)
  next
    case 5
    have "inv101 (s_set_yk IEC10X_STA_YK_CMD_IDLE (s\<lparr>s_yk_bak := None\<rparr>))" using assms(2) by (simp add: inv101_def s_set_defs)
    moreover have "inv101 (s_set_yk st (iec101_s_serve u ev)) = inv101 (s_set_yk st u)" for st ev and u
      by (simp add: inv101_def s_set_defs)
    ultimately show ?thesis using assms(1) 5 by (auto simp: run)
  qed
qed

lemma inv_machine: "iec101_s_state_machine t s = Some s' \<Longrightarrow> inv101 s \<Longrightarrow> inv101 s'"
  by (clarsimp simp: iec101_s_state_machine_def bind_Some_iff split: if_splits)
    (meson inv_work inv_machine_callall inv_machine_callpulse inv_machine_yt inv_machine_yk)+

lemma inv_round: "iec101_s_exec_round heap t (rbuf, s) = Some (rbuf', s') \<Longrightarrow> inv101 s \<Longrightarrow> inv101 s'"
  by (auto simp: iec101_s_exec_round_def bind_Some_iff Let_def split: if_splits dest!: inv_frame_parse inv_machine)

section \<open>Everything that can happen to a station\<close>

lemma inv_spon: "iec101_s_spon ty obj s ptNode u8Count = Some (r, s') \<Longrightarrow> inv101 s \<Longrightarrow> inv101 s'"
  by (auto simp: iec101_s_spon_def bind_Some_iff Let_def split: option.splits if_splits dest: ctl_finish inv_ctl)

lemma inv_set_node_info: "wow_iec101_s_set_node_info ms s nodes = (r, s') \<Longrightarrow> inv101 s \<Longrightarrow> inv101 s'"
  by (auto simp: wow_iec101_s_set_node_info_def Let_def split: prod.splits option.splits)

lemma inv_start: "wow_iec101_s_start s env ok = Some (r, s') \<Longrightarrow> inv101 s \<Longrightarrow> inv101 s'"
  by (auto simp: wow_iec101_s_start_def bind_Some_iff Let_def split: if_splits)

lemma inv_init_station: "wow_iec101_s_init pad heap a par ms ok null d = Some s \<Longrightarrow> inv101 s"
  by (auto simp: wow_iec101_s_init_def bind_Some_iff inv101_reset split: if_splits)

text \<open>\<open>line\<close> and \<open>environment\<close> let the link and the application behave as they like between the calls.\<close>

inductive serial_step :: "(proto_port, 'p, 'd) iec101s_t \<Rightarrow> (proto_port, 'p, 'd) iec101s_t \<Rightarrow> bool" where
  round: "iec101_s_exec_round heap t (rbuf, s) = Some (rbuf', s') \<Longrightarrow> serial_step s s'"
| start: "wow_iec101_s_start s env ok = Some (r, s') \<Longrightarrow> serial_step s s'"
| nodes: "wow_iec101_s_set_node_info ms s ptNode = (r, s') \<Longrightarrow> serial_step s s'"
| set_handle: "wow_iec101_s_set_value_handle s f p = (r, s') \<Longrightarrow> serial_step s s'"
| get_handle: "wow_iec101_s_get_value_handle s g p = (r, s') \<Longrightarrow> serial_step s s'"
| service_handle: "wow_iec101_s_set_service_handle s h p = (r, s') \<Longrightarrow> serial_step s s'"
| yx_spon: "wow_iec101_s_build_yx_spon s xs c = Some (r, s') \<Longrightarrow> serial_step s s'"
| yc_spon: "wow_iec101_s_build_yc_spon s xs c = Some (r, s') \<Longrightarrow> serial_step s s'"
| line: "serial_step s (s\<lparr>s_lnk := l\<rparr>)"
| environment: "serial_step s (s\<lparr>s_app := d\<rparr>)"

inductive serial_reachable :: "(proto_port, 'p, 'd) iec101s_t \<Rightarrow> bool" where
  created: "wow_iec101_s_init pad heap a par ms ok null d = Some s \<Longrightarrow> serial_reachable s"
| step: "serial_reachable s \<Longrightarrow> serial_step s s' \<Longrightarrow> serial_reachable s'"

lemma inv_handles:
  "wow_iec101_s_set_value_handle s f p = (r, s') \<Longrightarrow> inv101 s \<Longrightarrow> inv101 s'"
  "wow_iec101_s_get_value_handle s g p = (r, s') \<Longrightarrow> inv101 s \<Longrightarrow> inv101 s'"
  "wow_iec101_s_set_service_handle s h p = (r, s') \<Longrightarrow> inv101 s \<Longrightarrow> inv101 s'"
  by (auto simp: wow_iec101_s_set_value_handle_def wow_iec101_s_get_value_handle_def wow_iec101_s_set_service_handle_def split: if_splits)

lemma inv_spons:
  "wow_iec101_s_build_yx_spon s xs c = Some (r, s') \<Longrightarrow> inv101 s \<Longrightarrow> inv101 s'"
  "wow_iec101_s_build_yc_spon s xs c = Some (r, s') \<Longrightarrow> inv101 s \<Longrightarrow> inv101 s'"
  unfolding wow_iec101_s_build_yx_spon_def wow_iec101_s_build_yc_spon_def by (fact inv_spon)+

lemma inv101_step: "serial_step s s' \<Longrightarrow> inv101 s \<Longrightarrow> inv101 s'"
proof (induction rule: serial_step.induct)
  case round
  then show ?case by (rule inv_round)
next
  case start
  then show ?case by (rule inv_start)
next
  case nodes
  then show ?case by (rule inv_set_node_info)
next
  case set_handle
  then show ?case by (rule inv_handles(1))
next
  case get_handle
  then show ?case by (rule inv_handles(2))
next
  case service_handle
  then show ?case by (rule inv_handles(3))
next
  case yx_spon
  then show ?case by (rule inv_spons(1))
next
  case yc_spon
  then show ?case by (rule inv_spons(2))
qed (simp_all only: inv_other)

lemma reachable_inv: "serial_reachable s \<Longrightarrow> inv101 s"
proof (induction rule: serial_reachable.induct)
  case created
  then show ?case by (rule inv_init_station)
next
  case step
  then show ?case by (blast intro: inv101_step)
qed

lemma inv_parts:
  assumes "inv101 s"
  shows "st_init (s_stat s) \<in> {IEC10X_STA_LINK_INIT, IEC10X_STA_LINK_OPEN, IEC10X_STA_LINK_CONNECT, IEC10X_STA_LINK_CONNECT_OK, IEC10X_STA_LINK_IDLE}"
    and "st_yk (s_stat s) \<in> {IEC10X_STA_YK_CMD_IDLE, IEC10X_STA_YK_CMD_START, IEC10X_STA_YK_CMD_CONFIRM, IEC10X_STA_YK_CMD_EXEC, IEC10X_STA_YK_CMD_FAILD}"
    and "st_yk (s_stat s) \<in> {IEC10X_STA_YK_CMD_START, IEC10X_STA_YK_CMD_CONFIRM} \<longrightarrow> s_yk_bak s \<noteq> None"
  by (insert assms, unfold inv101_def) (elim conjE, assumption)+

text \<open>C34. Whatever the master sends and the application does, a serial station never leaves the idle state of the counter
  interrogation, so that its state machine never answers one; neither a point command nor a set point ever gets into the state of success
  (nor a set point into that of execution); the link is never given up; and an acknowledgement is only due when there is a copy of the
  command to acknowledge. A history ends where behaviour is undefined or a loop does not end; set points and executing single commands
  are part of it when the compiler leaves at least eight unused bytes (\<open>s_pad\<close>) behind the structure they overrun.
\<close>

theorem serial_reachable_inv:
  assumes "serial_reachable s"
  shows "iec101_s_state_machine_callpulse t s = Some s \<and>
    st_yk (s_stat s) \<noteq> IEC10X_STA_YK_CMD_SUCCESS \<and>
    st_yt (s_stat s) \<notin> {IEC10X_STA_YT_CMD_EXEC, IEC10X_STA_YT_CMD_SUCCESS} \<and>
    st_init (s_stat s) \<notin> {IEC10X_STA_LINK_DISCONNECT, IEC10X_STA_LINK_CLOSE} \<and>
    (st_yk (s_stat s) = IEC10X_STA_YK_CMD_CONFIRM \<longrightarrow> s_yk_bak s \<noteq> None) \<and>
    (st_yt (s_stat s) = IEC10X_STA_YT_CMD_CONFIRM \<longrightarrow> s_yt_bak s \<noteq> None)"
proof -
  have i: "inv101 s" using assms by (rule reachable_inv)
  then have p: "st_callpulse (s_stat s) = IEC10X_STA_CALL_PULSE_IDLE" and y: "st_yt (s_stat s) \<in> yt_states"
    and b: "st_yt (s_stat s) = IEC10X_STA_YT_CMD_CONFIRM \<longrightarrow> s_yt_bak s \<noteq> None" by (simp_all add: inv101_def)
  from p have "iec101_s_state_machine_callpulse t s = Some s" by (simp add: iec101_s_state_machine_callpulse_def)
  moreover from y have "st_yt (s_stat s) \<notin> {IEC10X_STA_YT_CMD_EXEC, IEC10X_STA_YT_CMD_SUCCESS}" by (auto simp: yt_states_def)
  moreover have "st_yk (s_stat s) \<noteq> IEC10X_STA_YK_CMD_SUCCESS" "st_init (s_stat s) \<notin> {IEC10X_STA_LINK_DISCONNECT, IEC10X_STA_LINK_CLOSE}"
    "st_yk (s_stat s) = IEC10X_STA_YK_CMD_CONFIRM \<longrightarrow> s_yk_bak s \<noteq> None"
    using inv_parts [OF i] by auto
  ultimately show ?thesis using b by blast
qed

lemma new_station: "\<exists>s. wow_iec101_s_init pad (\<lambda>_. True) a True (replicate 6 True) True p d = Some s \<and> s_yx_list s = []"
proof -
  have "replicate 6 True = [True, True, True, True, True, True]" by (simp add: numeral_eq_Suc)
  then show ?thesis by (simp add: wow_iec101_s_init_def wow_byte_array_new_def iec101_s_reset_param_def Let_def)
qed

text \<open>With eight unused bytes behind the node, a set point of one value is handed to the application and waits for its
  acknowledgement, here while the link is still coming up.\<close>

lemma set_point_taken:
  assumes "s_now s0 [frame68 (body68 0x73 1 48 1 6 1 [7, 0, 42, 0, 0])] [] (up_stat\<lparr>st_init := IEC10X_STA_LINK_OPEN\<rparr>) k d tm bk s"
    and "length b = 1500" and "\<forall>n. heap n" and "s_pad s0 = 8"
  shows "\<exists>b' s'. iec101_s_exec_round heap tc (b, s) = Some (b', s') \<and> st_yt (s_stat s') = IEC10X_STA_YT_CMD_START \<and> s_yt_bak s' \<noteq> None \<and>
    s_app s' = s_app (iec101_s_set s \<lparr>node_mode = DEV_TYPE_YT, node_addr = 7, node_type = DATA_SINT_16\<rparr> 42)"
proof -
  let ?body = "body68 0x73 1 48 1 6 1 [7, 0, 42, 0, 0]"
  let ?node = "\<lparr>node_mode = DEV_TYPE_YT, node_addr = 7, node_type = DATA_SINT_16\<rparr>"
  let ?u = "s\<lparr>s_lnk := (s_lnk s)\<lparr>rx := []\<rparr>\<rparr>"
  let ?f = "\<lambda>u. (s_set_yt IEC10X_STA_YT_CMD_START (s_set_yk IEC10X_STA_YK_CMD_EXEC (iec101_s_set u ?node 42)))\<lparr>s_yt_bak := Some (take 11 (drop 7 (frame68 ?body)))\<rparr>"
  note d = s_nowD [OF assms(1)]
  have deal: "iec101_s_deal_68 heap (u\<lparr>s_array := a\<rparr>) (ba_data a) (length ?body + 6) = Some (0, (?f u)\<lparr>s_array := a\<rparr>)"
    if a: "ba_wf a" "ba_bytes a = frame68 ?body" and u: "s_pad u = 8" for u :: "(proto_port, 'a, 'b) iec101s_t" and a
  proof -
    note reads = frame68_reads [OF a]
    have r: "rd (ba_data a) 4 = Some 0x73" "rd (ba_data a) 7 = Some 48" "rd (ba_data a) 8 = Some 1" "rd (ba_data a) 9 = Some 6"
      "rdn (ba_data a) 12 2 = Some [7, 0]" "rdn (ba_data a) 14 2 = Some [42, 0]" "rd (ba_data a) 16 = Some 0"
      using reads(6) [of 0] reads(6) [of 3] reads(6) [of 4] reads(6) [of 5] reads(6) [of 12] reads(7) [of 8 2] reads(7) [of 10 2]
      by (simp_all add: body68_def lo8_def le_bytes_two)
    have c: "rdn (ba_data a) 7 11 = Some (take 11 (drop 7 (frame68 ?body)))" using array_block [OF a(1), of 7 11] a(2) by simp
    obtain z where "iec101_node_memset 8 = Some z" using node_memset_undefined [of 8] by auto
    with r c u show ?thesis
      using reads(1-5) assms(3)
      by (simp add: iec101_s_deal_68_def iec101_s_asdu_yt_def iec101_backup_def iec101_ctrl_func_def iec101_ctrls iec101_bytes iec101_fields
          iec10x_types iec10x_cots byte_simps IEC10X_C_CD_NA_1_def iec101_s_set_def s_set_defs split: option.split)
  qed
  have "s_pad ?u = 8" using assms(1,4) by (auto simp: s_now_def)
  then obtain b' a where r: "ba_wf a" "ba_bytes a = []"
    "iec101_s_exec_round heap tc (b, s) = do { s \<leftarrow> iec101_s_state_machine tc ((?f ?u)\<lparr>s_array := a\<rparr>); Some (b', s) }"
    using slave.round_68 [of s ?body "[]" b heap "?f ?u" tc] d assms(2,3) deal [of _ ?u] by auto
  have "st_init (s_stat s) = IEC10X_STA_LINK_OPEN" using d(2) by simp
  then have "iec101_s_state_machine tc ((?f ?u)\<lparr>s_array := a\<rparr>) = Some (s_set_init IEC10X_STA_LINK_CONNECT ((?f ?u)\<lparr>s_array := a\<rparr>))"
    by (simp add: iec101_s_state_machine_def iec101_s_state_machine_work_def s_set_defs iec101_s_set_def split: option.split)
  then show ?thesis using r(3) by (simp add: s_set_defs iec101_s_set_def split: option.split)
qed

text \<open>A new station is started, its link begins to come up, and a set point arrives.\<close>

lemma serial_reachable_inv_witness:
  "\<exists>s0 s b1 s1 b' s'. wow_iec101_s_init 8 (\<lambda>_. True) 1 True (replicate 6 True) True () () = Some s0 \<and>
     wow_iec101_s_start s0 \<lparr>open_ok = True, listen_ok = True, accept_cb_ok = True, connect_ok = True\<rparr> True = Some (0, s) \<and>
     iec101_s_exec_round (\<lambda>_. True) (\<lambda>_. 0) (replicate 1500 0, s) = Some (b1, s1) \<and>
     iec101_s_exec_round (\<lambda>_. True) (\<lambda>_. 0)
       (b1, s1\<lparr>s_lnk := (s_lnk s1)\<lparr>rx := [frame68 (body68 0x73 1 48 1 6 1 [7, 0, 42, 0, 0])]\<rparr>\<rparr>) = Some (b', s') \<and>
     st_yt (s_stat s') = IEC10X_STA_YT_CMD_START \<and> iec101_s_state_machine_callpulse 5 s' = Some s' \<and> st_yk (s_stat s') \<noteq> IEC10X_STA_YK_CMD_SUCCESS"
proof -
  let ?env = "\<lparr>open_ok = True, listen_ok = True, accept_cb_ok = True, connect_ok = True\<rparr>"
  let ?sp = "frame68 (body68 0x73 1 48 1 6 1 [7, 0, 42, 0, 0])"
  obtain s0 s :: "(proto_port, unit, unit) iec101s_t" where s: "wow_iec101_s_init 8 (\<lambda>_. True) 1 True (replicate 6 True) True () () = Some s0"
    "wow_iec101_s_start s0 ?env True = Some (0, s)" "s_rest s" "st_init (s_stat s) = IEC10X_STA_LINK_INIT"
    using s_fresh [of ?env 8 1 "()" "()"] by auto
  have pad: "s_pad s = 8"
    using s(1,2) by (auto simp: wow_iec101_s_init_def wow_iec101_s_start_def iec101_s_reset_param_def bind_Some_iff Let_def split: if_splits)
  obtain b1 s1 where r1: "length b1 = 1500" "iec101_s_exec_round (\<lambda>_. True) (\<lambda>_. 0) (replicate 1500 0, s) = Some (b1, s1)"
    "s_now s [] [] (up_stat\<lparr>st_init := IEC10X_STA_LINK_OPEN\<rparr>) 0 (s_app s) (s_time s) (s_yk_bak s) s1"
    using s_opens [OF s(3) [unfolded s_rest_def] s(4), of "replicate 1500 0" "\<lambda>_. True" "\<lambda>_. 0"] by auto
  let ?s1 = "s1\<lparr>s_lnk := (s_lnk s1)\<lparr>rx := [?sp]\<rparr>\<rparr>"
  have "s_now s [?sp] [] (up_stat\<lparr>st_init := IEC10X_STA_LINK_OPEN\<rparr>) 0 (s_app s) (s_time s) (s_yk_bak s) ?s1"
    using r1(3) by (rule s_now_update(8))
  from set_point_taken [OF this r1(1) _ pad, of "\<lambda>_. True" "\<lambda>_. 0"] obtain b' s' where
    r2: "iec101_s_exec_round (\<lambda>_. True) (\<lambda>_. 0) (b1, ?s1) = Some (b', s')" "st_yt (s_stat s') = IEC10X_STA_YT_CMD_START" by auto
  have "serial_reachable s1" using s(1,2) r1(2) by (blast intro: serial_reachable.intros serial_step.start serial_step.round)
  then have "serial_reachable s'" using r2(1) by (blast intro: serial_reachable.step serial_step.line serial_step.round)
  from serial_reachable_inv [OF this, of 5] s(1,2) r1(2) r2 show ?thesis by metis
qed

section \<open>The nodes a configuration keeps\<close>

lemma add_runs_skip:
  "\<forall>n \<in> set nodes. \<not> sel n \<Longrightarrow> iec101_s_add_runs sel limit ce ie ms nodes b runs = (None, ms, runs)"
  by (induction nodes) auto

lemma add_runs_ascending:
  "\<forall>n \<in> set nodes. sel n \<Longrightarrow> sorted_wrt (\<lambda>m n. node_addr m < node_addr n) nodes \<Longrightarrow>
   (nodes \<noteq> [] \<longrightarrow> b < int (unat (node_addr (hd nodes)))) \<Longrightarrow>
   iec101_s_add_runs sel limit ce ie (replicate (2 * length nodes) True @ ms) nodes b runs = (None, ms, runs @ replicate (length nodes) [])"
proof (induction nodes arbitrary: b runs)
  case (Cons n nodes)
  have "nodes \<noteq> [] \<longrightarrow> int (unat (node_addr n)) < int (unat (node_addr (hd nodes)))"
    using Cons.prems(2) by (cases nodes) (simp_all add: word_less_def)
  then show ?case using Cons.prems Cons.IH by (simp add: iec101_s_new_run_def)
qed simp

text \<open>C37. A table of status points in ascending order of address is accepted, but every node only opens a new run and none is put into one:
  the configured station has as many empty runs as nodes, and the status points an interrogation sends are none.
\<close>

theorem ascending_nodes_lost:
  assumes "sorted_wrt (\<lambda>m n. node_addr m < node_addr n) nodes" and "\<forall>n \<in> set nodes. node_mode n = DEV_TYPE_YX" and "s_yx_list s = []"
  shows "\<exists>s'. wow_iec101_s_set_node_info (replicate (2 * length nodes) True) s nodes = (0, s') \<and>
     s_yx_list s' = replicate (length nodes) [] \<and>
     iec101_s_send_runs (\<lambda>r s. iec101_s_build_yx s q r) (s_yx_list s') s' = Some s'"
proof -
  have a: "iec101_s_add_runs (\<lambda>n. node_mode n = DEV_TYPE_YX) 200 (-1) (- SLIST_CREATE_FAILED) (replicate (2 * length nodes) True) nodes (-1) [] =
      (None, [], replicate (length nodes) [])"
    using add_runs_ascending [of nodes "\<lambda>n. node_mode n = DEV_TYPE_YX" "-1" 200 "-1" "- SLIST_CREATE_FAILED" "[]" "[]"] assms(1,2)
    by (simp add: less_le_trans [OF _ unsigned_greater_eq])
  have skip: "iec101_s_add_runs sel limit ce ie [] nodes (-1) runs = (None, [], runs)" if "\<forall>n. node_mode n = DEV_TYPE_YX \<longrightarrow> \<not> sel n"
    for sel limit ce ie runs using that assms(2) by (intro add_runs_skip) blast
  show ?thesis using assms(3) by (simp add: wow_iec101_s_set_node_info_def a skip send_empty_runs)
qed

lemma ascending_nodes_lost_witness:
  "\<exists>s s' n1 n2. wow_iec101_s_init 0 (\<lambda>_. True) 1 True (replicate 6 True) True () () = Some s \<and>
     n1 = \<lparr>node_mode = DEV_TYPE_YX, node_addr = 1, node_type = DATA_SINT_8\<rparr> \<and>
     n2 = \<lparr>node_mode = DEV_TYPE_YX, node_addr = 2, node_type = DATA_SINT_8\<rparr> \<and>
     wow_iec101_s_set_node_info (replicate (2 * length [n1, n2]) True) s [n1, n2] = (0, s') \<and> s_yx_list s' = replicate (length [n1, n2]) []"
proof -
  define n1 n2 where n: "n1 = \<lparr>node_mode = DEV_TYPE_YX, node_addr = 1, node_type = DATA_SINT_8\<rparr>"
    "n2 = \<lparr>node_mode = DEV_TYPE_YX, node_addr = 2, node_type = DATA_SINT_8\<rparr>"
  obtain s where s: "wow_iec101_s_init 0 (\<lambda>_. True) 1 True (replicate 6 True) True () () = Some s" "s_yx_list s = []"
    using new_station [of 0 1 "()" "()"] by blast
  have "sorted_wrt (\<lambda>m n. node_addr m < node_addr n) [n1, n2]" "\<forall>m \<in> set [n1, n2]. node_mode m = DEV_TYPE_YX" by (simp_all add: n)
  from ascending_nodes_lost [OF this s(2)] s(1) n show ?thesis by blast
qed

end
