(* ===== verification/Iec101MasterInvariant.thy ===== *)
theory Iec101MasterInvariant
  imports Iec101Line
begin

text \<open>
  What the application of a serial controlling station is told. \<open>master_step\<close> is everything that can happen to the station while its application
  writes down the events it is told: rounds of the thread with any input, changes of the line, every call of the interface.
\<close>

section \<open>An application that writes down what it is told\<close>

type_synonym ('s, 'p) told101 = "('s, 'p, Ie10xServeice_E list) iec101m_t"

definition write_down :: "'p \<Rightarrow> Ie10xServeice_E \<Rightarrow> Ie10xServeice_E list \<Rightarrow> Ie10xServeice_E list" where
  "write_down p ev told = told @ [ev]"

definition ignore_value :: "'p \<Rightarrow> DevNodeInfo_T \<Rightarrow> DevValue_U \<Rightarrow> Ie10xServeice_E list \<Rightarrow> Ie10xServeice_E list" where
  "ignore_value p node v told = told"

definition never_told :: "Ie10xServeice_E set" where
  "never_told = {IEC10X_CALL_ALL_FAILD, IEC10X_CALL_PULSE_FAILD, IEC10X_DISCONNECTED}"

definition inv_m :: "('s, 'p) told101 \<Rightarrow> bool" where
  "inv_m s \<longleftrightarrow> st_init (c_stat s) \<noteq> IEC10X_STA_LINK_DISCONNECT \<and> st_init (c_stat s) \<noteq> IEC10X_STA_LINK_CLOSE \<and>
     st_callall (c_stat s) \<noteq> IEC10X_STA_CALL_ALL_FAILD \<and> st_callpulse (c_stat s) \<noteq> IEC10X_STA_CALL_PULSE_FAILD \<and>
     set (c_app s) \<inter> never_told = {} \<and> c_val_cb s \<in> {None, Some ignore_value} \<and> c_serv_cb s \<in> {None, Some write_down}"

named_theorems inv_m_intros

lemma inv_m_fields [simp]:
  "inv_m (s\<lparr>c_lnk := l\<rparr>) = inv_m s" "inv_m (s\<lparr>c_array := a\<rparr>) = inv_m s" "inv_m (s\<lparr>c_tack := k\<rparr>) = inv_m s"
  "inv_m (s\<lparr>c_time := tm\<rparr>) = inv_m s" "inv_m (s\<lparr>c_fcb_1 := f\<rparr>) = inv_m s" "inv_m (s\<lparr>c_fcb_2 := f\<rparr>) = inv_m s"
  "inv_m (s\<lparr>c_started := b\<rparr>) = inv_m s" "inv_m (s\<lparr>c_running := b\<rparr>) = inv_m s"
  by (simp_all add: inv_m_def)

lemma inv_m_set [inv_m_intros]:
  "inv_m s \<Longrightarrow> x \<noteq> IEC10X_STA_LINK_DISCONNECT \<Longrightarrow> x \<noteq> IEC10X_STA_LINK_CLOSE \<Longrightarrow> inv_m (c_set_init x s)"
  "inv_m s \<Longrightarrow> x \<noteq> IEC10X_STA_CALL_ALL_FAILD \<Longrightarrow> inv_m (c_set_callall x s)"
  "inv_m s \<Longrightarrow> x \<noteq> IEC10X_STA_CALL_PULSE_FAILD \<Longrightarrow> inv_m (c_set_callpulse x s)"
  "inv_m s \<Longrightarrow> inv_m (c_set_yt x s)" "inv_m s \<Longrightarrow> inv_m (c_set_yk x s)"
  by (simp_all add: inv_m_def c_set_defs)

lemma inv_m_value [inv_m_intros]: "inv_m s \<Longrightarrow> inv_m (iec101_m_value s node v)"
  by (auto simp: inv_m_def iec101_m_value_def ignore_value_def)

lemma inv_m_serve [inv_m_intros]: "inv_m s \<Longrightarrow> ev \<notin> never_told \<Longrightarrow> inv_m (iec101_m_serve s ev)"
  by (auto simp: inv_m_def iec101_m_serve_def write_down_def)

text \<open>The assertion that a result, when there is one, keeps the invariant; it is proved along the code.\<close>

definition keeps_m :: "('a \<times> ('s, 'p) told101) option \<Rightarrow> bool" where
  "keeps_m r \<longleftrightarrow> (\<forall>x s. r = Some (x, s) \<longrightarrow> inv_m s)"

definition keep_m :: "('s, 'p) told101 option \<Rightarrow> bool" where
  "keep_m r \<longleftrightarrow> (\<forall>s. r = Some s \<longrightarrow> inv_m s)"

lemma keeps_m_return [simp]: "keeps_m (Some (x, s)) = inv_m s" "keeps_m None" "keep_m (Some s) = inv_m s" "keep_m None"
  by (simp_all add: keeps_m_def keep_m_def)

text \<open>A read gives a number, a byte or some bytes.\<close>

lemma keep_m_reads:
  fixes n :: "nat option" and b :: "u8 option" and bs :: "bytes option" and i :: "int option"
  shows
  "(\<And>x. n = Some x \<Longrightarrow> keeps_m (f x)) \<Longrightarrow> keeps_m (Option.bind n f)" "(\<And>x. n = Some x \<Longrightarrow> keep_m (f' x)) \<Longrightarrow> keep_m (Option.bind n f')"
  "(\<And>x. b = Some x \<Longrightarrow> keeps_m (g x)) \<Longrightarrow> keeps_m (Option.bind b g)" "(\<And>x. b = Some x \<Longrightarrow> keep_m (g' x)) \<Longrightarrow> keep_m (Option.bind b g')"
  "(\<And>x. bs = Some x \<Longrightarrow> keeps_m (h x)) \<Longrightarrow> keeps_m (Option.bind bs h)" "(\<And>x. bs = Some x \<Longrightarrow> keep_m (h' x)) \<Longrightarrow> keep_m (Option.bind bs h')"
  "(\<And>x. i = Some x \<Longrightarrow> keep_m (k x)) \<Longrightarrow> keep_m (Option.bind i k)"
  by (auto simp: keeps_m_def keep_m_def bind_eq_Some_conv)

lemma keep_m_if:
  "(c \<Longrightarrow> keeps_m r) \<Longrightarrow> (\<not> c \<Longrightarrow> keeps_m r') \<Longrightarrow> keeps_m (if c then r else r')"
  "(c \<Longrightarrow> keep_m q) \<Longrightarrow> (\<not> c \<Longrightarrow> keep_m q') \<Longrightarrow> keep_m (if c then q else q')"
  by simp_all

lemma keep_m_bind:
  "keeps_m r \<Longrightarrow> (\<And>x s. inv_m s \<Longrightarrow> keeps_m (f x s)) \<Longrightarrow> keeps_m (do { (x, s) \<leftarrow> r; f x s })"
  "keeps_m r \<Longrightarrow> (\<And>x s. inv_m s \<Longrightarrow> keep_m (g x s)) \<Longrightarrow> keep_m (do { (x, s) \<leftarrow> r; g x s })"
  "keep_m q \<Longrightarrow> (\<And>s. inv_m s \<Longrightarrow> keeps_m (h s)) \<Longrightarrow> keeps_m (do { s \<leftarrow> q; h s })"
  "keep_m q \<Longrightarrow> (\<And>s. inv_m s \<Longrightarrow> keep_m (k s)) \<Longrightarrow> keep_m (do { s \<leftarrow> q; k s })"
  by (auto simp: keeps_m_def keep_m_def split: bind_splits)

lemmas keep_m_rules = keep_m_if keep_m_reads keep_m_bind

section \<open>Frames\<close>

lemma keeps_m_write [inv_m_intros]: "inv_m s \<Longrightarrow> keeps_m (iec101_m_write s msg)"
  by (auto simp: iec101_m_write_def keeps_m_def split: bind_splits)

lemma keeps_m_stable [inv_m_intros]: "inv_m s \<Longrightarrow> keeps_m (iec101_m_stable s fcb fcv func)"
  by (simp add: iec101_m_stable_def keeps_m_write Let_def)

lemma keeps_m_requests [inv_m_intros]:
  assumes "inv_m s"
  shows "keeps_m (iec101_m_build_request_user_ack s)" "keeps_m (iec101_m_build_request_user_data s)"
    "keeps_m (iec101_m_build_request_link_status s)" "keeps_m (iec101_m_build_reset_remote_link s)"
  using assms
  by (simp_all add: iec101_m_build_request_user_ack_def iec101_m_build_request_user_data_def iec101_m_build_request_link_status_def
      iec101_m_build_reset_remote_link_def keeps_m_stable Let_def)

lemma keeps_m_finish [inv_m_intros]: "inv_m s \<Longrightarrow> keeps_m (iec101_m_finish s buf l)"
  unfolding iec101_m_finish_def by (intro keep_m_reads keeps_m_write)

section \<open>Handlers\<close>

text \<open>The loops over the objects of a report hand every value to the application.\<close>

lemma keep_m_objects_sq [inv_m_intros]: "inv_m s \<Longrightarrow> keep_m (iec101_m_objects_sq rbuf mode ty w step addr ptr i n s)"
proof (induction n arbitrary: ptr i s)
  case (Suc n)
  then show ?case
    unfolding iec101_m_objects_sq.simps Let_def by (intro keep_m_reads Suc.IH inv_m_value)
qed simp

lemma keep_m_objects [inv_m_intros]: "inv_m s \<Longrightarrow> keep_m (iec101_m_objects rbuf mode ty w step ptr n s)"
proof (induction n arbitrary: ptr s)
  case (Suc n)
  then show ?case
    unfolding iec101_m_objects.simps Let_def by (intro keep_m_reads Suc.IH inv_m_value)
qed simp

lemma keep_m_report [inv_m_intros]: "inv_m s \<Longrightarrow> keep_m (iec101_m_report mode ty w step rbuf s)"
  unfolding iec101_m_report_def by (intro keep_m_rules inv_m_intros)

lemma keeps_m_ack [inv_m_intros]: "inv_m s \<Longrightarrow> keeps_m (do { (_, s) \<leftarrow> iec101_m_build_request_user_ack s; Some (0, s) })"
  by (intro keep_m_bind keeps_m_requests) simp_all

lemma keeps_m_yx [inv_m_intros]: "inv_m s \<Longrightarrow> keeps_m (iec101_m_asdu_yx s rbuf)"
  unfolding iec101_m_asdu_yx_def Let_def by (intro keep_m_rules inv_m_intros; simp add: inv_m_intros)

lemma keeps_m_yc [inv_m_intros]: "inv_m s \<Longrightarrow> keeps_m (iec101_m_asdu_yc s rbuf)"
  unfolding iec101_m_asdu_yc_def Let_def by (intro keep_m_rules inv_m_intros; simp add: inv_m_intros)

lemma keeps_m_ym [inv_m_intros]: "inv_m s \<Longrightarrow> keeps_m (iec101_m_asdu_ym s rbuf)"
  unfolding iec101_m_asdu_ym_def Let_def by (intro keep_m_rules inv_m_intros; simp add: inv_m_intros)

lemma keeps_m_yt_ack [inv_m_intros]: "inv_m s \<Longrightarrow> keeps_m (iec101_m_build_yt_ack s rbuf)"
  unfolding iec101_m_build_yt_ack_def Let_def by (intro keep_m_rules inv_m_intros; simp add: inv_m_intros)

lemma keeps_m_yk_ack [inv_m_intros]: "inv_m s \<Longrightarrow> keeps_m (iec101_m_build_yk_ack s rbuf)"
  unfolding iec101_m_build_yk_ack_def Let_def by (intro keep_m_rules inv_m_intros; simp add: inv_m_intros)

lemma keeps_m_yt [inv_m_intros]: "inv_m s \<Longrightarrow> keeps_m (iec101_m_asdu_yt s rbuf)"
  unfolding iec101_m_asdu_yt_def by (intro keep_m_rules inv_m_intros; simp add: inv_m_intros)

lemma keeps_m_yk [inv_m_intros]: "inv_m s \<Longrightarrow> keeps_m (iec101_m_asdu_yk s rbuf)"
  unfolding iec101_m_asdu_yk_def by (intro keep_m_rules inv_m_intros; simp add: inv_m_intros)

lemma keeps_m_call_all [inv_m_intros]: "inv_m s \<Longrightarrow> keeps_m (iec101_m_asdu_call_all s rbuf)"
  unfolding iec101_m_asdu_call_all_def by (intro keep_m_rules inv_m_intros; simp add: inv_m_intros)

lemma keeps_m_call_pulse [inv_m_intros]: "inv_m s \<Longrightarrow> keeps_m (iec101_m_asdu_call_pulse s rbuf)"
  unfolding iec101_m_asdu_call_pulse_def by (intro keep_m_rules inv_m_intros; simp add: inv_m_intros)

lemma keeps_m_deal_10 [inv_m_intros]: "inv_m s \<Longrightarrow> keeps_m (iec101_m_deal_10 s buf len)"
  unfolding iec101_m_deal_10_def Let_def by (intro keep_m_rules inv_m_intros; simp add: inv_m_intros)

lemma keeps_m_deal_68 [inv_m_intros]: "inv_m s \<Longrightarrow> keeps_m (iec101_m_deal_68 s buf len)"
  unfolding iec101_m_deal_68_def iec101_m_asdu_clock_def Let_def
  by (intro keep_m_rules inv_m_intros; simp add: inv_m_intros)

section \<open>State machines\<close>

lemma inv_m_reset [inv_m_intros]: "inv_m s \<Longrightarrow> inv_m (iec101_m_reset_param s)"
  by (simp add: inv_m_def iec101_m_reset_param_def)

lemma keep_m_poll [inv_m_intros]: "inv_m s \<Longrightarrow> keep_m (iec101_m_poll s)"
  unfolding iec101_m_poll_def by (intro keep_m_rules inv_m_intros; simp)

lemma keep_m_work [inv_m_intros]:
  assumes "inv_m s"
  shows "keep_m (iec101_m_state_machine_work t t' s)"
proof -
  have "st_init (c_stat s) \<noteq> IEC10X_STA_LINK_DISCONNECT" using assms by (simp add: inv_m_def)
  with assms show ?thesis
    unfolding iec101_m_state_machine_work_def
    by (cases "st_init (c_stat s)") (auto intro!: keep_m_bind inv_m_intros simp: never_told_def)
qed

lemma keep_m_callall [inv_m_intros]:
  assumes "inv_m s"
  shows "keep_m (iec101_m_state_machine_callall t s)"
proof -
  have "st_callall (c_stat s) \<noteq> IEC10X_STA_CALL_ALL_FAILD" using assms by (simp add: inv_m_def)
  with assms show ?thesis
    unfolding iec101_m_state_machine_callall_def Let_def
    by (cases "st_callall (c_stat s)") (auto intro!: keep_m_bind inv_m_intros simp: never_told_def)
qed

lemma keep_m_callpulse [inv_m_intros]:
  assumes "inv_m s"
  shows "keep_m (iec101_m_state_machine_callpulse t s)"
proof -
  have "st_callpulse (c_stat s) \<noteq> IEC10X_STA_CALL_PULSE_FAILD" using assms by (simp add: inv_m_def)
  with assms show ?thesis
    unfolding iec101_m_state_machine_callpulse_def Let_def
    by (cases "st_callpulse (c_stat s)") (auto intro!: keep_m_bind inv_m_intros simp: never_told_def)
qed

lemma keep_m_yt [inv_m_intros]: "inv_m s \<Longrightarrow> keep_m (iec101_m_state_machine_yt t s)"
  unfolding iec101_m_state_machine_yt_def Let_def
  by (cases "st_yt (c_stat s)") (auto intro!: keep_m_bind inv_m_intros simp: never_told_def)

lemma keep_m_yk [inv_m_intros]: "inv_m s \<Longrightarrow> keep_m (iec101_m_state_machine_yk t s)"
  unfolding iec101_m_state_machine_yk_def Let_def
  by (cases "st_yk (c_stat s)") (auto intro!: keep_m_bind inv_m_intros simp: never_told_def)

lemma keep_m_machine [inv_m_intros]: "inv_m s \<Longrightarrow> keep_m (iec101_m_state_machine t s)"
  unfolding iec101_m_state_machine_def by (intro keep_m_rules inv_m_intros; simp)

section \<open>Rounds\<close>

lemma keep_m_array: "inv_m s \<Longrightarrow> keep_m (do { (_, a) \<leftarrow> r; Some (s\<lparr>c_array := a\<rparr>) })"
  by (auto simp: keep_m_def split: bind_splits)

lemma keep_m_drop [inv_m_intros]: "inv_m s \<Longrightarrow> keep_m (iec101_m_drop n s)"
  unfolding iec101_m_drop_def by (rule keep_m_array)

lemma keep_m_exec_68 [inv_m_intros]: "inv_m s \<Longrightarrow> keep_m (iec101_m_exec_68 n s)"
  unfolding iec101_m_exec_68_def Let_def by (intro keep_m_rules inv_m_intros; simp)

lemma keep_m_exec_10 [inv_m_intros]: "inv_m s \<Longrightarrow> keep_m (iec101_m_exec_10 n s)"
  unfolding iec101_m_exec_10_def Let_def by (intro keep_m_rules inv_m_intros; simp)

lemma keep_m_parse [inv_m_intros]: "inv_m s \<Longrightarrow> keep_m (iec101_m_frame_parse s)"
  unfolding iec101_m_frame_parse_def by (intro keep_m_rules inv_m_intros; simp)

lemma inv_m_round:
  assumes "iec101_m_exec_round heap t (rbuf, s) = Some (rbuf', s')" and "inv_m s"
  shows "inv_m s'"
proof -
  from assms(1) obtain s1 s2 l where "iec101_m_frame_parse s1 = Some s2" "iec101_m_state_machine t s2 = Some s'"
    "s1 = s\<lparr>c_lnk := l\<rparr> \<or> (\<exists>a. s1 = s\<lparr>c_lnk := l, c_array := a\<rparr>)"
    by (auto simp: iec101_m_exec_round_def bind_eq_Some_conv Let_def split: if_splits prod.splits)
  moreover from this(3) assms(2) have "inv_m s1" by auto
  ultimately show ?thesis using keep_m_parse [of s1] keep_m_machine [of s2 t] by (simp add: keep_m_def)
qed

section \<open>The application\<close>

lemma inv_m_calls:
  assumes "inv_m s"
  shows "wow_iec101_m_build_call_all junk s = Some (r, s') \<Longrightarrow> inv_m s'" "wow_iec101_m_build_call_pulse junk s = Some (r, s') \<Longrightarrow> inv_m s'"
proof -
  have "keeps_m (wow_iec101_m_build_call_all junk s)" "keeps_m (wow_iec101_m_build_call_pulse junk s)"
    using assms unfolding wow_iec101_m_build_call_all_def wow_iec101_m_build_call_pulse_def iec101_m_build_call_def Let_def
    by (auto intro!: keep_m_rules inv_m_intros)
  then show "wow_iec101_m_build_call_all junk s = Some (r, s') \<Longrightarrow> inv_m s'" "wow_iec101_m_build_call_pulse junk s = Some (r, s') \<Longrightarrow> inv_m s'"
    by (simp_all add: keeps_m_def)
qed

lemma inv_m_cmd:
  assumes "inv_m s" and "\<And>u. inv_m u \<Longrightarrow> inv_m (begun u)" and "iec101_m_build_cmd ty obj begun s ptNode u8Count = Some (r, s')"
  shows "inv_m s'"
  using assms keeps_m_finish [OF assms(1)]
  by (auto simp: iec101_m_build_cmd_def keeps_m_def bind_eq_Some_conv split: option.splits if_splits prod.splits)

inductive master_step :: "(proto_port, 'p) told101 \<Rightarrow> (proto_port, 'p) told101 \<Rightarrow> bool" where
  round: "iec101_m_exec_round heap t (rbuf, s) = Some (rbuf', s') \<Longrightarrow> master_step s s'"
| start: "wow_iec101_m_start s env ok = Some (r, s') \<Longrightarrow> master_step s s'"
| value_handle: "wow_iec101_m_set_value_handle s (Some ignore_value) p = (r, s') \<Longrightarrow> master_step s s'"
| service_handle: "wow_iec101_m_set_service_handle s (Some write_down) p = (r, s') \<Longrightarrow> master_step s s'"
| call_all: "wow_iec101_m_build_call_all junk s = Some (r, s') \<Longrightarrow> master_step s s'"
| call_pulse: "wow_iec101_m_build_call_pulse junk s = Some (r, s') \<Longrightarrow> master_step s s'"
| point_command: "wow_iec101_m_build_yk s nodes c = Some (r, s') \<Longrightarrow> master_step s s'"
| set_point: "wow_iec101_m_build_yt s nodes c = Some (r, s') \<Longrightarrow> master_step s s'"
| line: "master_step s (s\<lparr>c_lnk := l\<rparr>)"

inductive master_reachable :: "(proto_port, 'p) told101 \<Rightarrow> bool" where
  created: "wow_iec101_m_init pad heap a par m_ok a_ok p_ok null [] = Some s \<Longrightarrow> master_reachable s"
| step: "master_reachable s \<Longrightarrow> master_step s s' \<Longrightarrow> master_reachable s'"

lemma inv_m_step: "master_step s s' \<Longrightarrow> inv_m s \<Longrightarrow> inv_m s'"
proof (induction rule: master_step.induct)
  case round
  then show ?case by (rule inv_m_round)
next
  case start
  then show ?case by (auto simp: wow_iec101_m_start_def bind_eq_Some_conv Let_def split: if_splits prod.splits)
next
  case value_handle
  then show ?case by (auto simp: wow_iec101_m_set_value_handle_def inv_m_def)
next
  case service_handle
  then show ?case by (auto simp: wow_iec101_m_set_service_handle_def inv_m_def)
next
  case call_all
  then show ?case by (blast intro: inv_m_calls)
next
  case call_pulse
  then show ?case by (blast intro: inv_m_calls)
next
  case point_command
  then show ?case unfolding wow_iec101_m_build_yk_def by (blast intro: inv_m_cmd inv_m_intros)
next
  case set_point
  then show ?case unfolding wow_iec101_m_build_yt_def by (blast intro: inv_m_cmd inv_m_intros)
qed simp

lemma reachable_inv_m: "master_reachable s \<Longrightarrow> inv_m s"
proof (induction rule: master_reachable.induct)
  case created
  then show ?case
    by (auto simp: wow_iec101_m_init_def iec101_m_reset_param_def inv_m_def bind_eq_Some_conv split: if_splits)
next
  case step
  then show ?case by (blast intro: inv_m_step)
qed

text \<open>C39. Whatever arrives on the line (reports of points, confirmations and garbage), whatever the clocks say and whatever the application asks
  for, a serial controlling station never tells its application that an interrogation has failed or that the link is lost: the time-outs of
  the interrogations do not lead into their failure states, and nothing leads into the states in which the link is given up. A history ends
  where behaviour is undefined or a loop does not end; reports of points are part of it when the compiler leaves at least eight unused bytes
  (\<open>c_pad\<close>) behind the structure they overrun. The application writes down the events it is told.\<close>

theorem master_never_reports_failure:
  assumes "master_reachable s"
  shows "IEC10X_CALL_ALL_FAILD \<notin> set (c_app s) \<and> IEC10X_CALL_PULSE_FAILD \<notin> set (c_app s) \<and> IEC10X_DISCONNECTED \<notin> set (c_app s) \<and>
    st_callall (c_stat s) \<noteq> IEC10X_STA_CALL_ALL_FAILD \<and> st_callpulse (c_stat s) \<noteq> IEC10X_STA_CALL_PULSE_FAILD \<and>
    st_init (c_stat s) \<notin> {IEC10X_STA_LINK_DISCONNECT, IEC10X_STA_LINK_CLOSE}"
  using reachable_inv_m [OF assms] by (auto simp: inv_m_def never_told_def)

text \<open>A report of one status point, with eight unused bytes behind the node: the station polls for more.\<close>

lemma m_point_reported:
  assumes "m_now m0 [up68 1 1 1 129 20 [5, 0, 5]] [] st k d tm m" and "st_init st = IEC10X_STA_LINK_INIT" and "length b = 1500" and "\<forall>n. heap n"
    and "c_pad m0 = 8" and "c_val_cb m0 = None"
  shows "\<exists>b' m'. length b' = 1500 \<and> iec101_m_exec_round heap tc (b, m) = Some (b', m') \<and>
    (\<exists>c. is_poll c \<and> m_now m0 [] [frame10 c (unat (c_addr m0))] (up_stat\<lparr>st_init := IEC10X_STA_LINK_OPEN\<rparr>) 0 d tm m')"
proof -
  let ?body = "body68 0x28 1 1 129 20 1 [5, 0, 5]"
  let ?f = "\<lambda>u. m_sent [frame10 (poll_ctrl u) (unat (c_addr u))] (u\<lparr>c_fcb_1 := NOT (c_fcb_1 u)\<rparr>)"
  have m: "m_now m0 [frame68 ?body] [] st k d tm m" using assms(1) by (simp add: up68_def)
  show ?thesis
  proof (rule m_round_variable [OF m assms(3,4), where f = ?f])
    fix u a assume u: "m_now m0 [] [] st k d tm u" and a: "ba_wf a" "ba_bytes a = frame68 ?body"
    note reads = frame68_reads [OF a]
    have r: "rd (ba_data a) 4 = Some 0x28" "rd (ba_data a) 7 = Some 1" "rd (ba_data a) 8 = Some 129" "rd (ba_data a) 9 = Some 20"
      "rdn (ba_data a) 12 2 = Some [5, 0]" "rdn (ba_data a) 14 1 = Some [5]"
      using reads(6) [of 0] reads(6) [of 3] reads(6) [of 4] reads(6) [of 5] reads(7) [of 8 2] reads(7) [of 10 1]
      by (simp_all add: body68_def lo8_def le_bytes_two)
    have o: "m_open (u\<lparr>c_array := a\<rparr>)" and p: "c_pad u = 8" "c_val_cb u = None"
      using m_nowD(1) [OF u] assms(5,6) u by (auto simp: m_now_def)
    have pad: "iec101_node_memset 8 \<noteq> None" by (simp add: node_memset_undefined)
    then obtain z where "iec101_node_memset (c_pad (u\<lparr>c_array := a\<rparr>)) = Some z" using p by auto
    then have "iec101_m_report DEV_TYPE_YX DATA_SINT_8 1 1 (ba_data a) (u\<lparr>c_array := a\<rparr>) = Some (u\<lparr>c_array := a\<rparr>)"
      using r p by (simp add: iec101_m_report_def iec101_fields iec101_m_value_def)
    then show "\<exists>r. iec101_m_deal_68 (u\<lparr>c_array := a\<rparr>) (ba_data a) (length ?body + 6) = Some (r, (?f u)\<lparr>c_array := a\<rparr>)"
      using reads(1-5) r o
      by (simp add: poll_sent m_sent_def poll_ctrl_def iec101_m_deal_68_def iec101_m_asdu_yx_def iec101_ctrl_func_def iec101_ctrls iec101_bytes
          iec101_fields iec10x_types iec10x_cots byte_simps lo8_def)
  next
    fix u a assume u: "m_now m0 [] [] st k d tm u" and a: "ba_wf a" "ba_bytes a = []"
    let ?u = "(?f u)\<lparr>c_array := a\<rparr>"
    have n: "m_now m0 [] [frame10 (poll_ctrl u) (unat (c_addr m0))] st k d tm ?u"
      using m_now_update(1) [OF m_now_update(7) [OF m_now_update(6) [OF u]] a] m_nowD(8) [OF u] by fastforce
    have "iec101_m_state_machine tc ?u = Some (c_set_init IEC10X_STA_LINK_OPEN (iec101_m_reset_param ?u))"
      using m_nowD(2) [OF n] assms(2) by (simp add: iec101_m_state_machine_def iec101_m_state_machine_work_def c_set_defs)
    with c_set_now(1) [OF m_reset_now [OF n], of IEC10X_STA_LINK_OPEN] poll_is_poll
    show "\<exists>u'. iec101_m_state_machine tc ?u = Some u' \<and>
      (\<exists>c. is_poll c \<and> m_now m0 [] [frame10 c (unat (c_addr m0))] (up_stat\<lparr>st_init := IEC10X_STA_LINK_OPEN\<rparr>) 0 d tm u')" by fastforce
  qed simp
qed

lemma listening_master:
  assumes "open_ok env"
  shows "\<exists>m0 m1 m. wow_iec101_m_init 8 (\<lambda>_. True) a True True True True p [] = Some m0 \<and>
    wow_iec101_m_set_service_handle m0 (Some write_down) p = (0, m1) \<and> wow_iec101_m_start m1 env True = Some (0, m) \<and>
    m_rest m \<and> st_init (c_stat m) = IEC10X_STA_LINK_INIT \<and> c_serv_cb m = Some write_down \<and> c_val_cb m = None \<and> c_pad m = 8 \<and> c_addr m = a"
  using assms
  by (auto simp: wow_iec101_m_init_def wow_iec101_m_set_service_handle_def wow_iec101_m_start_def wow_byte_array_new_def iec101_m_reset_param_def
      serial_line_def proto_port_uart_init_def uart_link_open_def new_port_def ba_wf_def ba_bytes_def intro!: m_restI)

theorem master_never_reports_failure_witness:
  "\<exists>m0 m1 m b m' c. wow_iec101_m_init 8 (\<lambda>_. True) 1 True True True True () [] = Some m0 \<and>
     wow_iec101_m_set_service_handle m0 (Some write_down) () = (0, m1) \<and>
     wow_iec101_m_start m1 \<lparr>open_ok = True, listen_ok = True, accept_cb_ok = True, connect_ok = True\<rparr> True = Some (0, m) \<and>
     iec101_m_exec_round (\<lambda>_. True) (\<lambda>_. 0) (replicate 1500 0, m\<lparr>c_lnk := (c_lnk m)\<lparr>rx := [up68 1 1 1 129 20 [5, 0, 5]]\<rparr>\<rparr>) = Some (b, m') \<and>
     is_poll c \<and> tx (c_lnk m') = [frame10 c 1] \<and> c_serv_cb m' = Some write_down \<and> IEC10X_CALL_ALL_FAILD \<notin> set (c_app m')"
proof -
  let ?env = "\<lparr>open_ok = True, listen_ok = True, accept_cb_ok = True, connect_ok = True\<rparr>"
  obtain m0 m1 m :: "(proto_port, unit) told101" where m: "wow_iec101_m_init 8 (\<lambda>_. True) 1 True True True True () [] = Some m0"
    "wow_iec101_m_set_service_handle m0 (Some write_down) () = (0, m1)" "wow_iec101_m_start m1 ?env True = Some (0, m)"
    and f: "m_rest m" "st_init (c_stat m) = IEC10X_STA_LINK_INIT" "c_serv_cb m = Some write_down" "c_val_cb m = None" "c_pad m = 8" "c_addr m = 1"
    using listening_master [of ?env 1 "()"] by auto
  let ?m = "m\<lparr>c_lnk := (c_lnk m)\<lparr>rx := [up68 1 1 1 129 20 [5, 0, 5]]\<rparr>\<rparr>"
  have "m_now m [up68 1 1 1 129 20 [5, 0, 5]] [] (c_stat m) (c_tack m) (c_app m) (c_time m) ?m"
    using f(1) unfolding m_rest_def by (rule m_now_update(8))
  from m_point_reported [OF this f(2) _ _ f(5,4), of "replicate 1500 0" "\<lambda>_. True" "\<lambda>_. 0"] f(6)
  obtain b m' c where r: "iec101_m_exec_round (\<lambda>_. True) (\<lambda>_. 0) (replicate 1500 0, ?m) = Some (b, m')" "is_poll c"
    "m_now m [] [frame10 c 1] (up_stat\<lparr>st_init := IEC10X_STA_LINK_OPEN\<rparr>) 0 (c_app m) (c_time m) m'" by auto
  have "master_reachable m" using m by (blast intro: master_reachable.intros master_step.service_handle master_step.start)
  then have "master_reachable m'"
    using r(1) by (blast intro: master_reachable.step master_step.line master_step.round)
  from master_never_reports_failure [OF this] m r(1,2) m_nowD(7) [OF r(3)] m_nowD(11) [OF r(3)] f(3) show ?thesis by metis
qed

end
