(* ===== verification/Iec101Stall.thy ===== *)
theory Iec101Stall
  imports Iec101Line
begin

text \<open>
  What becomes of a general interrogation on the serial line when there is nothing to report. The controlling station polls only in answer to a report,
  and the controlled one reports only in answer to a poll.
\<close>

section \<open>The controlling station\<close>

definition m_polled :: "(proto_port, 'p, 'd) iec101m_t \<Rightarrow> (proto_port, 'p, 'd) iec101m_t" where
  "m_polled u = m_sent [frame10 (poll_ctrl u) (unat (c_addr u))] (u\<lparr>c_fcb_1 := NOT (c_fcb_1 u)\<rparr>)"

lemma m_polled_now:
  assumes "m_now m0 r [] st k d tm u"
  shows "iec101_m_build_request_user_ack u = Some (0, m_polled u)"
    and "m_now m0 r [frame10 (poll_ctrl u) (unat (c_addr m0))] st k d tm (m_polled u)"
  using poll_sent [OF m_nowD(1) [OF assms]] m_now_update(7) [OF m_now_update(6) [OF assms]] m_nowD(8) [OF assms]
  by (simp_all add: m_polled_def)

lemma m_deal_confirmation:
  assumes "ba_wf a" and "ba_bytes a = up68 la acd 100 1 7 [0, 0, 20]"
    and "m_now m0 r [] st k d tm u"
  shows "iec101_m_deal_68 (u\<lparr>c_array := a\<rparr>) (ba_data a) 17 = Some (0, (m_polled (c_set_callall IEC10X_STA_CALL_ALL_YX u))\<lparr>c_array := a\<rparr>)"
proof -
  let ?c = "if acd = 1 then 0x28 else 0x08 :: u8"
  let ?body = "body68 ?c (unat la) 100 1 7 (unat la) [0, 0, 20]"
  note a = assms(1) assms(2) [unfolded up68_def]
  note reads = frame68_reads [OF a]
  have "rd (ba_data a) 4 = Some ?c" "rd (ba_data a) 7 = Some 100" "rd (ba_data a) 9 = Some 7" "rd (ba_data a) 14 = Some 20"
    "rdn (ba_data a) 12 2 = Some [0, 0]"
    using reads(6) [of 0] reads(6) [of 3] reads(6) [of 5] reads(6) [of 10] reads(7) [of 8 2]
      body68_objs [of ?c "unat la" 100 1 7 "unat la" "[0, 0, 20]" 2]
    by (simp_all add: body68_fields lo8_def)
  moreover have "iec101_ctrl_func ?c = 8" by (simp add: iec101_ctrl_func_def)
  moreover have "m_open ((c_set_callall IEC10X_STA_CALL_ALL_YX u)\<lparr>c_array := a\<rparr>)" using m_nowD(1) [OF assms(3)] by (simp add: c_set_defs)
  ultimately show ?thesis
    using reads(1-5)
    by (simp add: poll_sent m_polled_def m_sent_def poll_ctrl_def c_set_defs iec101_m_deal_68_def iec101_m_asdu_call_all_def iec101_ctrls iec101_bytes iec101_fields iec10x_types iec10x_cots byte_simps
      IEC10X_M_DP_NA_1_def IEC10X_M_DP_TB_1_def IEC10X_M_IT_TA_1_def)
qed

lemma m_machine_callall:
  assumes "c_stat u = up_stat\<lparr>st_callall := x\<rparr>" and "t 0 - tm_init (c_time u) \<le> 1000" and "iec101_m_state_machine_callall (t 2) u = Some u'"
    and "c_stat u' = up_stat\<lparr>st_callall := y\<rparr>"
  shows "iec101_m_state_machine t u = Some u'"
  using assms
  by (simp add: iec101_m_state_machine_def iec101_m_state_machine_work_def iec101_m_state_machine_callpulse_def iec101_m_state_machine_yt_def
      iec101_m_state_machine_yk_def up_stat_def IEC101_HEARTBEART_TIMEOUT_def)

lemma m_begins_call:
  assumes "m_now m0 [] out (up_stat\<lparr>st_callall := IEC10X_STA_CALL_ALL_START\<rparr>) k d tm m" and "length b = 1500" and "tc 0 - tm_init tm \<le> 1000"
  shows "\<exists>b' m'. length b' = 1500 \<and> iec101_m_exec_round heap tc (b, m) = Some (b', m') \<and>
    m_now m0 [] out (up_stat\<lparr>st_callall := IEC10X_STA_CALL_ALL_CONFIRM\<rparr>) k d (tm\<lparr>tm_callall := tc 2\<rparr>) m'"
proof (rule m_round_quiet [OF assms(1,2)])
  fix u assume u: "m_now m0 [] out (up_stat\<lparr>st_callall := IEC10X_STA_CALL_ALL_START\<rparr>) k d tm u"
  let ?u' = "c_set_callall IEC10X_STA_CALL_ALL_CONFIRM (u\<lparr>c_time := (c_time u)\<lparr>tm_callall := tc 2\<rparr>\<rparr>)"
  note f = m_nowD [OF u]
  have n: "m_now m0 [] out (up_stat\<lparr>st_callall := IEC10X_STA_CALL_ALL_CONFIRM\<rparr>) k d (tm\<lparr>tm_callall := tc 2\<rparr>) ?u'"
    using c_set_now(2) [OF m_now_update(5) [OF u]] f(5) by force
  have "iec101_m_state_machine_callall (tc 2) u = Some ?u'"
    using f(2) by (simp add: iec101_m_state_machine_callall_def)
  with m_machine_callall [OF f(2) _ _ m_nowD(2) [OF n]] n f(5) assms(3)
  show "\<exists>u'. iec101_m_state_machine tc u = Some u' \<and>
    m_now m0 [] out (up_stat\<lparr>st_callall := IEC10X_STA_CALL_ALL_CONFIRM\<rparr>) k d (tm\<lparr>tm_callall := tc 2\<rparr>) u'" by blast
qed

lemma m_polls:
  assumes "m_now m0 [frame10 0x20 la] [] (up_stat\<lparr>st_callall := IEC10X_STA_CALL_ALL_CONFIRM\<rparr>) 0 d tm m" and "length b = 1500" and "\<forall>n. heap n"
    and "tc 0 - tm_init tm \<le> 1000" and "tc 2 - tm_callall tm \<le> 30000"
  shows "\<exists>b' m'. length b' = 1500 \<and> iec101_m_exec_round heap tc (b, m) = Some (b', m') \<and> (\<exists>c. is_poll c \<and>
    m_now m0 [] [frame10 c (unat (c_addr m0))] (up_stat\<lparr>st_callall := IEC10X_STA_CALL_ALL_CONFIRM\<rparr>) 0 d tm m')"
proof (rule m_round_fixed [OF assms(1-3), where f = "\<lambda>u. u\<lparr>c_tack := 1\<rparr>"])
  let ?st = "up_stat\<lparr>st_callall := IEC10X_STA_CALL_ALL_CONFIRM\<rparr>"
  fix u a assume u: "m_now m0 [] [] ?st 0 d tm u" and a: "ba_wf a" "ba_bytes a = frame10 0x20 la"
  show "\<exists>r. iec101_m_deal_10 (u\<lparr>c_array := a\<rparr>) (ba_data a) 6 = Some (r, u\<lparr>c_tack := 1, c_array := a\<rparr>)"
    using m_confirmed [OF u a] by (simp add: ctrl_fields)
next
  let ?st = "up_stat\<lparr>st_callall := IEC10X_STA_CALL_ALL_CONFIRM\<rparr>"
  fix u a assume u: "m_now m0 [] [] ?st 0 d tm u" and a: "ba_wf a" "ba_bytes a = []"
  let ?v = "u\<lparr>c_tack := 1, c_array := a\<rparr>"
  have v: "m_now m0 [] [] ?st 1 d tm ?v" using m_now_update(1) [OF m_now_update(3) [OF u] a] .
  note f = m_nowD [OF v] and p = m_polled_now [OF v]
  let ?u' = "(m_polled ?v)\<lparr>c_tack := 0\<rparr>"
  have n: "m_now m0 [] [frame10 (poll_ctrl ?v) (unat (c_addr m0))] ?st 0 d tm ?u'" using m_now_update(3) [OF p(2)] .
  have "iec101_m_state_machine_callall (tc 2) ?v = Some ?u'"
    using f(2,3) p(1) m_nowD(5) [OF p(2)] assms(5) by (simp add: iec101_m_state_machine_callall_def iec101_m_poll_def IEC10X_CALL_ALL_TIMEOUT_def)
  with m_machine_callall [OF f(2) _ _ m_nowD(2) [OF n]] n f(5) assms(4) poll_is_poll
  show "\<exists>u'. iec101_m_state_machine tc ?v = Some u' \<and> (\<exists>c. is_poll c \<and> m_now m0 [] [frame10 c (unat (c_addr m0))] ?st 0 d tm u')" by blast
qed

text \<open>Nothing is under way at the master but an interrogation that waits for reports, in time or too late.\<close>

definition m_waits :: "(proto_port, 'p, 'd) iec101m_t \<Rightarrow> bytes list \<Rightarrow> bytes list \<Rightarrow> (proto_port, 'p, 'd) iec101m_t \<Rightarrow> bool" where
  "m_waits m0 r out m \<longleftrightarrow> (\<exists>x tm. x \<in> {IEC10X_STA_CALL_ALL_YX, IEC10X_STA_LINK_DISCONNECT} \<and>
     m_now m0 r out (up_stat\<lparr>st_callall := x\<rparr>) 0 (c_app m0) tm m)"

definition is_heartbeat :: "u8 \<Rightarrow> bool" where
  "is_heartbeat c \<longleftrightarrow> iec101_ctrl_func c = IEC101_CTRL_REQ_USR_DATA_2 \<and> iec101_ctrl_prm c = IEC101_CTRL_PRM_MASTER"

lemma m_heartbeat:
  assumes "m_now m0 r out st k d tm u"
  shows "\<exists>u' c. iec101_m_build_request_user_data u = Some (0, u') \<and> is_heartbeat c \<and> m_now m0 r (out @ [frame10 c (unat (c_addr m0))]) st k d tm u'"
proof -
  let ?c = "word_of_nat (91 + 32 * (unat (NOT (c_fcb_2 u)) mod 2)) :: u8"
  let ?v = "u\<lparr>c_fcb_2 := NOT (c_fcb_2 u)\<rparr>"
  obtain a l f1 f2 where m: "ba_wf a" "ba_bytes a = []" "serial_line (c_link_ctx m0) l" "rx l = r" "tx l = out"
    "u = m0\<lparr>c_array := a, c_lnk := l, c_stat := st, c_tack := k, c_app := d, c_fcb_1 := f1, c_fcb_2 := f2, c_time := tm\<rparr>"
    using assms by (auto simp: m_now_def)
  have v: "m_now m0 r out st k d tm ?v"
    unfolding m_now_def by (intro exI [of _ a] exI [of _ l] exI [of _ f1] exI [of _ "NOT f2"]) (simp add: m)
  have "unat (NOT (c_fcb_2 u)) mod 2 \<le> 1" by simp
  then have "iec101_m_build_request_user_data u = Some (0, m_sent [frame10 ?c (unat (c_addr m0))] ?v)"
    using m_nowD(1,8) [OF v] by (simp add: iec101_m_build_request_user_data_def m_stable_frame iec101_downs iec101_ctrls Let_def)
  moreover have "is_heartbeat ?c"
  proof -
    have "unat (NOT (c_fcb_2 u)) mod 2 = 0 \<or> unat (NOT (c_fcb_2 u)) mod 2 = 1" by auto
    then show ?thesis by (elim disjE) (simp_all add: is_heartbeat_def iec101_ctrl_func_def iec101_ctrl_prm_def iec101_ctrls)
  qed
  ultimately show ?thesis using m_now_update(7) [OF v] by blast
qed

lemma m_waits_callall:
  assumes "m_waits m0 r out u"
  shows "\<exists>u'. iec101_m_state_machine_callall t u = Some u' \<and> m_waits m0 r out u' \<and> c_time u' = c_time u"
proof -
  obtain x tm where x: "x \<in> {IEC10X_STA_CALL_ALL_YX, IEC10X_STA_LINK_DISCONNECT}" and u: "m_now m0 r out (up_stat\<lparr>st_callall := x\<rparr>) 0 (c_app m0) tm u"
    using assms by (auto simp: m_waits_def)
  let ?u' = "c_set_callall IEC10X_STA_LINK_DISCONNECT u"
  have "m_waits m0 r out ?u'" using c_set_now(2) [OF u, of IEC10X_STA_LINK_DISCONNECT] by (auto simp: m_waits_def)
  moreover have "c_time ?u' = c_time u" by (simp add: c_set_defs)
  moreover have "iec101_m_state_machine_callall t u = Some u \<or> iec101_m_state_machine_callall t u = Some ?u'"
    using x m_nowD(2) [OF u] by (auto simp: iec101_m_state_machine_callall_def)
  ultimately show ?thesis using assms by blast
qed

lemma m_waits_stat:
  assumes "m_waits m0 r out u"
  shows "st_init (c_stat u) = IEC10X_STA_LINK_IDLE" "st_callpulse (c_stat u) = IEC10X_STA_CALL_PULSE_IDLE"
    "st_yt (c_stat u) = IEC10X_STA_YT_CMD_IDLE" "st_yk (c_stat u) = IEC10X_STA_YK_CMD_IDLE"
  using assms by (auto simp: m_waits_def up_stat_def dest!: m_nowD(2))

lemma m_waits_machine:
  assumes "m_waits m0 r out u"
  shows "\<exists>u' hb. iec101_m_state_machine t u = Some u' \<and> m_waits m0 r (out @ hb) u' \<and>
    (hb = [] \<or> t 0 - tm_init (c_time u) > 1000 \<and> (\<exists>c. is_heartbeat c \<and> hb = [frame10 c (unat (c_addr m0))]))"
proof -
  obtain v hb where v: "iec101_m_state_machine_work (t 0) (t 1) u = Some v" "m_waits m0 r (out @ hb) v"
    "hb = [] \<or> t 0 - tm_init (c_time u) > 1000 \<and> (\<exists>c. is_heartbeat c \<and> hb = [frame10 c (unat (c_addr m0))])"
  proof (cases "t 0 - tm_init (c_time u) > 1000")
    case False
    then have "iec101_m_state_machine_work (t 0) (t 1) u = Some u"
      using m_waits_stat(1) [OF assms] by (simp add: iec101_m_state_machine_work_def IEC101_HEARTBEART_TIMEOUT_def)
    then show ?thesis using that [of u "[]"] assms by simp
  next
    case True
    obtain x tm where x: "x \<in> {IEC10X_STA_CALL_ALL_YX, IEC10X_STA_LINK_DISCONNECT}" and u: "m_now m0 r out (up_stat\<lparr>st_callall := x\<rparr>) 0 (c_app m0) tm u"
      using assms by (auto simp: m_waits_def)
    obtain u' c where b: "iec101_m_build_request_user_data u = Some (0, u')" "is_heartbeat c"
      "m_now m0 r (out @ [frame10 c (unat (c_addr m0))]) (up_stat\<lparr>st_callall := x\<rparr>) 0 (c_app m0) tm u'"
      using m_heartbeat [OF u] by blast
    let ?v = "u'\<lparr>c_time := (c_time u')\<lparr>tm_init := t 1\<rparr>\<rparr>"
    have "m_waits m0 r (out @ [frame10 c (unat (c_addr m0))]) ?v"
      unfolding m_waits_def using m_now_update(5) [OF b(3)] x by blast
    moreover have "iec101_m_state_machine_work (t 0) (t 1) u = Some ?v"
      using True b(1) m_waits_stat(1) [OF assms] by (simp add: iec101_m_state_machine_work_def IEC101_HEARTBEART_TIMEOUT_def)
    ultimately show ?thesis using that b(2) True by blast
  qed
  obtain w where w: "iec101_m_state_machine_callall (t 2) v = Some w" "m_waits m0 r (out @ hb) w"
    using m_waits_callall [OF v(2)] by blast
  have "iec101_m_state_machine t u = Some w"
    using v(1) w(1) m_waits_stat [OF v(2)] m_waits_stat [OF w(2)]
    by (simp add: iec101_m_state_machine_def iec101_m_state_machine_callpulse_def iec101_m_state_machine_yt_def iec101_m_state_machine_yk_def)
  then show ?thesis using w(2) v(3) by blast
qed

lemma m_confirmed_call:
  assumes "m_now m0 [up68 la acd 100 1 7 [0, 0, 20]] [] (up_stat\<lparr>st_callall := IEC10X_STA_CALL_ALL_CONFIRM\<rparr>) 0 (c_app m0) tm m"
    and "length b = 1500" and "\<forall>n. heap n" and "tc 0 - tm_init tm \<le> 1000"
  shows "\<exists>b' m'. length b' = 1500 \<and> iec101_m_exec_round heap tc (b, m) = Some (b', m') \<and>
    (\<exists>c. is_poll c \<and> m_waits m0 [] [frame10 c (unat (c_addr m0))] m')"
proof -
  let ?st = "up_stat\<lparr>st_callall := IEC10X_STA_CALL_ALL_CONFIRM\<rparr>" and ?f = "\<lambda>u. m_polled (c_set_callall IEC10X_STA_CALL_ALL_YX u)"
  let ?body = "body68 (if acd = 1 then 0x28 else 0x08) (unat la) 100 1 7 (unat la) [0, 0, 20]"
  have len: "length ?body = 11" by simp
  have frame: "up68 la acd 100 1 7 [0, 0, 20] = frame68 ?body" by (simp add: up68_def)
  show ?thesis
  proof (rule m_round_variable [OF assms(1) [unfolded frame] assms(2,3), where f = ?f], unfold len)
    fix u a assume "m_now m0 [] [] ?st 0 (c_app m0) tm u" and "ba_wf a" and "ba_bytes a = frame68 ?body"
    then show "\<exists>r. iec101_m_deal_68 (u\<lparr>c_array := a\<rparr>) (ba_data a) (11 + 6) = Some (r, (?f u)\<lparr>c_array := a\<rparr>)"
      using m_deal_confirmation [of a la acd m0 "[]" ?st 0 "c_app m0" tm u] frame by simp
  next
    fix u a assume u: "m_now m0 [] [] ?st 0 (c_app m0) tm u" and a: "ba_wf a" "ba_bytes a = []"
    let ?c = "poll_ctrl (c_set_callall IEC10X_STA_CALL_ALL_YX u)" and ?v = "(?f u)\<lparr>c_array := a\<rparr>"
    have v: "m_now m0 [] [frame10 ?c (unat (c_addr m0))] (up_stat\<lparr>st_callall := IEC10X_STA_CALL_ALL_YX\<rparr>) 0 (c_app m0) tm ?v"
      using m_now_update(1) [OF m_polled_now(2) [OF c_set_now(2) [OF u]] a, of IEC10X_STA_CALL_ALL_YX] by simp
    have "m_waits m0 [] [frame10 ?c (unat (c_addr m0))] ?v" unfolding m_waits_def using v by blast
    from m_waits_machine [OF this, of tc] m_nowD(5) [OF v] assms(4) poll_is_poll
    show "\<exists>u'. iec101_m_state_machine tc ?v = Some u' \<and> (\<exists>c. is_poll c \<and> m_waits m0 [] [frame10 c (unat (c_addr m0))] u')" by fastforce
  qed simp
qed

lemma m_waits_round:
  assumes "m_waits m0 r [] m" and "r = [] \<or> (\<exists>la. r = [frame10 9 la])" and "length b = 1500" and "\<forall>n. heap n"
  shows "\<exists>b' m' hb. length b' = 1500 \<and> iec101_m_exec_round heap tc (b, m) = Some (b', m') \<and> m_waits m0 [] hb m' \<and>
    (hb = [] \<or> (\<exists>c. is_heartbeat c \<and> hb = [frame10 c (unat (c_addr m0))]))"
proof -
  let ?Q = "\<lambda>m'. \<exists>hb. m_waits m0 [] hb m' \<and> (hb = [] \<or> (\<exists>c. is_heartbeat c \<and> hb = [frame10 c (unat (c_addr m0))]))"
  obtain x tm where x: "x \<in> {IEC10X_STA_CALL_ALL_YX, IEC10X_STA_LINK_DISCONNECT}" and m: "m_now m0 r [] (up_stat\<lparr>st_callall := x\<rparr>) 0 (c_app m0) tm m"
    using assms(1) by (auto simp: m_waits_def)
  have machine: "\<exists>u'. iec101_m_state_machine tc u = Some u' \<and> ?Q u'" if "m_now m0 [] [] (up_stat\<lparr>st_callall := x\<rparr>) 0 (c_app m0) tm u" for u
  proof -
    have "m_waits m0 [] [] u" unfolding m_waits_def using that x by blast
    from m_waits_machine [OF this, of tc] show ?thesis by auto
  qed
  have "\<exists>b' m'. length b' = 1500 \<and> iec101_m_exec_round heap tc (b, m) = Some (b', m') \<and> ?Q m'"
  proof (cases "r = []")
    case True
    show ?thesis using m [unfolded True] by (rule m_round_quiet [OF _ assms(3) machine])
  next
    case False
    then obtain la where "r = [frame10 9 la]" using assms(2) by blast
    note m = m [unfolded this]
    show ?thesis
    proof (rule m_round_fixed [OF m assms(3,4), where f = "\<lambda>u. u"])
      fix u a assume "ba_wf a" "ba_bytes a = frame10 9 la"
      from frame10_reads [OF this] show "\<exists>r. iec101_m_deal_10 (u\<lparr>c_array := a\<rparr>) (ba_data a) 6 = Some (r, u\<lparr>c_array := a\<rparr>)"
        by (simp add: iec101_m_deal_10_def iec101_ctrls iec101_ctrl_func_def iec101_ctrl_prm_def)
    next
      fix u a assume "m_now m0 [] [] (up_stat\<lparr>st_callall := x\<rparr>) 0 (c_app m0) tm u" "ba_wf a" "ba_bytes a = []"
      then show "\<exists>u'. iec101_m_state_machine tc (u\<lparr>c_array := a\<rparr>) = Some u' \<and> ?Q u'" by (intro machine m_now_update(1))
    qed
  qed
  then show ?thesis by blast
qed

section \<open>The controlled station\<close>

lemma s_machine_callall:
  assumes "s_stat u = up_stat\<lparr>st_callall := x\<rparr>" and "iec101_s_state_machine_callall (t 0) u = Some u'" and "s_stat u' = up_stat\<lparr>st_callall := y\<rparr>"
  shows "iec101_s_state_machine t u = Some u'"
  using assms by (simp add: iec101_s_state_machine_def iec101_s_state_machine_work_def iec101_s_state_machine_callpulse_def
      iec101_s_state_machine_yt_def iec101_s_state_machine_yk_def up_stat_def)

lemma s_set_callall_now:
  assumes "s_now s0 r t st k d tm bk s"
  shows "s_now s0 r t (st\<lparr>st_callall := x\<rparr>) k d tm bk (s_set_callall x s)"
  using s_now_update(2) [OF assms] s_nowD(2) [OF assms] by (simp add: s_set_defs)

lemma s_begins_call:
  assumes "s_now s0 [call68 c la num rs ca] [] up_stat k d tm bk s" and "length b = 1500" and "\<forall>n. heap n" and "is_user_data c" and "rs mod 64 = 6"
  shows "\<exists>b' s'. length b' = 1500 \<and> iec101_s_exec_round heap tc (b, s) = Some (b', s') \<and>
    s_now s0 [] [frame10 0x20 (unat (s_addr s0))] (up_stat\<lparr>st_callall := IEC10X_STA_CALL_ALL_CONFIRM\<rparr>) k d (tm\<lparr>tm_callall := tc 0\<rparr>) bk s'"
proof -
  let ?body = "body68 c la 100 num rs ca [0, 0, 20]" and ?f = "s_set_callall IEC10X_STA_CALL_ALL_START"
  have len: "length ?body = 11" by simp
  show ?thesis
  proof (rule s_round_68 [OF assms(1) [unfolded call68_def] assms(2,3), where f = ?f], unfold len)
    fix u a assume "ba_wf a" and "ba_bytes a = frame68 ?body"
    moreover have "(?f u)\<lparr>s_array := a\<rparr> = ?f (u\<lparr>s_array := a\<rparr>)" by (simp add: s_set_defs)
    ultimately show "\<exists>r. iec101_s_deal_68 heap (u\<lparr>s_array := a\<rparr>) (ba_data a) (11 + 6) = Some (r, (?f u)\<lparr>s_array := a\<rparr>)"
      using deal_call [of a c la num rs ca heap "u\<lparr>s_array := a\<rparr>"] assms(4,5) by (simp add: call68_def)
  next
    fix u assume "s_now s0 [] [] up_stat k d tm bk u"
    then show "s_now s0 [] [] (up_stat\<lparr>st_callall := IEC10X_STA_CALL_ALL_START\<rparr>) k d tm bk (?f u)" by (rule s_set_callall_now)
  next
    fix u assume u: "s_now s0 [] [] (up_stat\<lparr>st_callall := IEC10X_STA_CALL_ALL_START\<rparr>) k d tm bk u"
    let ?v = "sent101 [frame10 0x20 (unat (s_addr s0))] (u\<lparr>s_time := (s_time u)\<lparr>tm_callall := tc 0\<rparr>\<rparr>)"
    let ?u' = "s_set_callall IEC10X_STA_CALL_ALL_CONFIRM ?v"
    note f = s_nowD [OF u]
    have v: "s_now s0 [] [frame10 0x20 (unat (s_addr s0))] (up_stat\<lparr>st_callall := IEC10X_STA_CALL_ALL_START\<rparr>) k d (tm\<lparr>tm_callall := tc 0\<rparr>) bk ?v"
      using s_now_update(7) [OF s_now_update(5) [OF u]] f(5) by force
    have n: "s_now s0 [] [frame10 0x20 (unat (s_addr s0))] (up_stat\<lparr>st_callall := IEC10X_STA_CALL_ALL_CONFIRM\<rparr>) k d (tm\<lparr>tm_callall := tc 0\<rparr>) bk ?u'"
      using s_set_callall_now [OF v, of IEC10X_STA_CALL_ALL_CONFIRM] by simp
    have "serial_open (u\<lparr>s_time := (s_time u)\<lparr>tm_callall := tc 0\<rparr>\<rparr>)" using f(1) by (simp add: serial_open_def)
    then have "iec101_s_state_machine_callall (tc 0) u = Some ?u'"
      using f(2,8) by (simp add: iec101_s_state_machine_callall_def iec101_s_build_request_user_ack_def stable_frame iec101_ctrls write_sent)
    from s_machine_callall [where t = tc, OF f(2) this s_nowD(2) [OF n]] n
    show "\<exists>u'. iec101_s_state_machine tc u = Some u' \<and> s_now s0 [] [frame10 0x20 (unat (s_addr s0))]
      (up_stat\<lparr>st_callall := IEC10X_STA_CALL_ALL_CONFIRM\<rparr>) k d (tm\<lparr>tm_callall := tc 0\<rparr>) bk u'" by blast
  qed simp
qed

text \<open>A poll sets the flag; then the state machine answers it.\<close>

lemma s_polled:
  assumes "s_now s0 [frame10 c la] [] (up_stat\<lparr>st_callall := x\<rparr>) k d tm bk s" and "length b = 1500" and "\<forall>n. heap n" and "is_poll c"
    and "\<And>u. s_now s0 [] [] (up_stat\<lparr>st_callall := x\<rparr>) 1 d tm bk u \<Longrightarrow>
      \<exists>u'. iec101_s_state_machine_callall (tc 0) u = Some u' \<and> s_now s0 [] out (up_stat\<lparr>st_callall := y\<rparr>) 0 d tm bk u'"
  shows "\<exists>b' s'. length b' = 1500 \<and> iec101_s_exec_round heap tc (b, s) = Some (b', s') \<and> s_now s0 [] out (up_stat\<lparr>st_callall := y\<rparr>) 0 d tm bk s'"
proof (rule s_round_10 [OF assms(1-3), where f = "\<lambda>u. u\<lparr>s_tack := 1\<rparr>"])
  fix u a assume "ba_wf a" and "ba_bytes a = frame10 c la"
  from frame10_reads [OF this] assms(4)
  show "\<exists>r. iec101_s_deal_10 (u\<lparr>s_array := a\<rparr>) (ba_data a) 6 = Some (r, u\<lparr>s_tack := 1, s_array := a\<rparr>)"
    by (simp add: iec101_s_deal_10_def is_poll_def iec101_ctrls)
next
  fix u assume "s_now s0 [] [] (up_stat\<lparr>st_callall := x\<rparr>) k d tm bk u"
  then show "s_now s0 [] [] (up_stat\<lparr>st_callall := x\<rparr>) 1 d tm bk (u\<lparr>s_tack := 1\<rparr>)" by (rule s_now_update(3))
next
  fix u assume u: "s_now s0 [] [] (up_stat\<lparr>st_callall := x\<rparr>) 1 d tm bk u"
  from assms(5) [OF this] obtain u' where u': "iec101_s_state_machine_callall (tc 0) u = Some u'"
    "s_now s0 [] out (up_stat\<lparr>st_callall := y\<rparr>) 0 d tm bk u'" by blast
  from s_machine_callall [where t = tc, OF s_nowD(2) [OF u] u'(1) s_nowD(2) [OF u'(2)]] u'(2)
  show "\<exists>u'. iec101_s_state_machine tc u = Some u' \<and> s_now s0 [] out (up_stat\<lparr>st_callall := y\<rparr>) 0 d tm bk u'" by blast
qed

lemma s_confirms_call:
  assumes "s_now s0 [frame10 c la] [] (up_stat\<lparr>st_callall := IEC10X_STA_CALL_ALL_CONFIRM\<rparr>) k d tm bk s" and "length b = 1500" and "\<forall>n. heap n"
    and "is_poll c" and "tc 0 - tm_callall tm \<le> 30000"
  shows "\<exists>b' s'. length b' = 1500 \<and> iec101_s_exec_round heap tc (b, s) = Some (b', s') \<and>
    s_now s0 [] [up68 (s_addr s0) 1 100 1 7 [0, 0, 20]] (up_stat\<lparr>st_callall := IEC10X_STA_CALL_ALL_YX\<rparr>) 0 d tm bk s'"
proof (rule s_polled [OF assms(1-4)])
  fix u assume u: "s_now s0 [] [] (up_stat\<lparr>st_callall := IEC10X_STA_CALL_ALL_CONFIRM\<rparr>) 1 d tm bk u"
  let ?m = "up68 (s_addr s0) 1 100 1 7 [0, 0, 20]"
  let ?u' = "s_set_callall IEC10X_STA_CALL_ALL_YX ((sent101 [?m] u)\<lparr>s_tack := 0\<rparr>)"
  note f = s_nowD [OF u]
  have n: "s_now s0 [] [?m] (up_stat\<lparr>st_callall := IEC10X_STA_CALL_ALL_YX\<rparr>) 0 d tm bk ?u'"
    using s_set_callall_now [where x = IEC10X_STA_CALL_ALL_YX, OF s_now_update(3) [where k' = 0, OF s_now_update(7) [OF u]]] by force
  have "iec101_s_build_call_ack u = Some (0, sent101 [?m] u)"
    using write_sent [OF f(1), of ?m] f(8) by (simp add: call_ack_frame up68_def)
  then have "iec101_s_state_machine_callall (tc 0) u = Some ?u'"
    using f(2,3) s_nowD(5) [OF n] assms(5) by (simp add: iec101_s_state_machine_callall_def in_time IEC10X_CALL_ALL_TIMEOUT_def)
  with n show "\<exists>u'. iec101_s_state_machine_callall (tc 0) u = Some u' \<and>
    s_now s0 [] [?m] (up_stat\<lparr>st_callall := IEC10X_STA_CALL_ALL_YX\<rparr>) 0 d tm bk u'" by blast
qed

lemma s_reports_nothing:
  assumes "s_now s0 [frame10 c la] [] (up_stat\<lparr>st_callall := IEC10X_STA_CALL_ALL_YX\<rparr>) k d tm bk s" and "length b = 1500" and "\<forall>n. heap n"
    and "is_poll c" and "tc 0 - tm_callall tm \<le> 30000" and "\<forall>r \<in> set (s_yx_list s0). r = []"
  shows "\<exists>b' s'. length b' = 1500 \<and> iec101_s_exec_round heap tc (b, s) = Some (b', s') \<and>
    s_now s0 [] [] (up_stat\<lparr>st_callall := IEC10X_STA_CALL_ALL_YC\<rparr>) 0 d tm bk s'"
proof (rule s_polled [OF assms(1-4)])
  fix u assume u: "s_now s0 [] [] (up_stat\<lparr>st_callall := IEC10X_STA_CALL_ALL_YX\<rparr>) 1 d tm bk u"
  let ?u' = "s_set_callall IEC10X_STA_CALL_ALL_YC (u\<lparr>s_tack := 0\<rparr>)"
  note f = s_nowD [OF u]
  have n: "s_now s0 [] [] (up_stat\<lparr>st_callall := IEC10X_STA_CALL_ALL_YC\<rparr>) 0 d tm bk ?u'"
    using s_set_callall_now [where x = IEC10X_STA_CALL_ALL_YC, OF s_now_update(3) [where k' = 0, OF u]] by force
  have "(s_set_callall IEC10X_STA_CALL_ALL_YC u)\<lparr>s_tack := 0\<rparr> = ?u'" by (simp add: s_set_defs)
  then have "iec101_s_state_machine_callall (tc 0) u = Some ?u'"
    using f(2,3,18) s_nowD(5) [OF n] assms(5,6) by (simp add: iec101_s_state_machine_callall_def send_empty_runs in_time IEC10X_CALL_ALL_TIMEOUT_def)
  with n show "\<exists>u'. iec101_s_state_machine_callall (tc 0) u = Some u' \<and>
    s_now s0 [] [] (up_stat\<lparr>st_callall := IEC10X_STA_CALL_ALL_YC\<rparr>) 0 d tm bk u'" by blast
qed

text \<open>The station waits for the poll that would fetch its measurements, has just given up, or has told its application so.\<close>

definition s_waiting :: "(proto_port, 'p, 'd) iec101s_t \<Rightarrow> Iec10xStat_E \<Rightarrow> 'd \<Rightarrow> bool" where
  "s_waiting s0 x d \<longleftrightarrow> x \<in> {IEC10X_STA_CALL_ALL_YC, IEC10X_STA_CALL_ALL_FAILD} \<and> d = s_app s0 \<or>
     x = IEC10X_STA_CALL_ALL_IDLE \<and> d = tell101 s0 IEC10X_CALL_ALL_FAILD (s_app s0)"

definition s_waits :: "(proto_port, 'p, 'd) iec101s_t \<Rightarrow> (proto_port, 'p, 'd) iec101s_t \<Rightarrow> bool" where
  "s_waits s0 s \<longleftrightarrow> (\<exists>x d tm. s_waiting s0 x d \<and> s_now s0 [] [] (up_stat\<lparr>st_callall := x\<rparr>) 0 d tm (s_yk_bak s0) s)"

lemma s_waiting_machine:
  assumes "s_waiting s0 x d"
  shows "\<exists>y d'. s_waiting s0 y d' \<and> (\<forall>r out u. s_now s0 r out (up_stat\<lparr>st_callall := x\<rparr>) 0 d tm bk u \<longrightarrow>
    (\<exists>u'. iec101_s_state_machine t u = Some u' \<and> s_now s0 r out (up_stat\<lparr>st_callall := y\<rparr>) 0 d' tm bk u'))"
proof -
  let ?step = "\<lambda>y d'. \<forall>r out u. s_now s0 r out (up_stat\<lparr>st_callall := x\<rparr>) 0 d tm bk u \<longrightarrow>
    (\<exists>u'. iec101_s_state_machine_callall (t 0) u = Some u' \<and> s_now s0 r out (up_stat\<lparr>st_callall := y\<rparr>) 0 d' tm bk u')"
  have "\<exists>y d'. s_waiting s0 y d' \<and> ?step y d'"
  proof (cases "x = IEC10X_STA_CALL_ALL_FAILD")
    case True
    have "?step IEC10X_STA_CALL_ALL_IDLE (tell101 s0 IEC10X_CALL_ALL_FAILD d)"
    proof (intro allI impI)
      fix r out u assume u: "s_now s0 r out (up_stat\<lparr>st_callall := x\<rparr>) 0 d tm bk u"
      have "s_now s0 r out (up_stat\<lparr>st_callall := IEC10X_STA_CALL_ALL_IDLE\<rparr>) 0 (tell101 s0 IEC10X_CALL_ALL_FAILD d) tm bk
          (s_set_callall IEC10X_STA_CALL_ALL_IDLE (iec101_s_serve u IEC10X_CALL_ALL_FAILD))"
        using s_set_callall_now [OF s_serve_now [OF u], of IEC10X_STA_CALL_ALL_IDLE] by simp
      with s_nowD(2) [OF u] True show "\<exists>u'. iec101_s_state_machine_callall (t 0) u = Some u' \<and>
          s_now s0 r out (up_stat\<lparr>st_callall := IEC10X_STA_CALL_ALL_IDLE\<rparr>) 0 (tell101 s0 IEC10X_CALL_ALL_FAILD d) tm bk u'"
        by (simp add: iec101_s_state_machine_callall_def)
    qed
    with True assms show ?thesis by (auto simp: s_waiting_def)
  next
    case False
    define y where "y = (if x = IEC10X_STA_CALL_ALL_YC \<and> t 0 - tm_callall tm > 30000 then IEC10X_STA_CALL_ALL_FAILD else x)"
    have "?step y d"
    proof (intro allI impI)
      fix r out u assume u: "s_now s0 r out (up_stat\<lparr>st_callall := x\<rparr>) 0 d tm bk u"
      note f = s_nowD [OF u]
      have "iec101_s_state_machine_callall (t 0) u = Some (if y = x then u else s_set_callall y u)"
        using assms False f(2,3,5) by (auto simp: y_def s_waiting_def iec101_s_state_machine_callall_def callall_timeout_def IEC10X_CALL_ALL_TIMEOUT_def)
      moreover have "s_now s0 r out (up_stat\<lparr>st_callall := y\<rparr>) 0 d tm bk (if y = x then u else s_set_callall y u)"
        using u s_set_callall_now [OF u, of y] by simp
      ultimately show "\<exists>u'. iec101_s_state_machine_callall (t 0) u = Some u' \<and> s_now s0 r out (up_stat\<lparr>st_callall := y\<rparr>) 0 d tm bk u'" by blast
    qed
    moreover have "s_waiting s0 y d" using assms by (auto simp: s_waiting_def y_def)
    ultimately show ?thesis by blast
  qed
  then obtain y d' where y: "s_waiting s0 y d'" "?step y d'" by blast
  have "\<exists>u'. iec101_s_state_machine t u = Some u' \<and> s_now s0 r out (up_stat\<lparr>st_callall := y\<rparr>) 0 d' tm bk u'"
    if u: "s_now s0 r out (up_stat\<lparr>st_callall := x\<rparr>) 0 d tm bk u" for r out u
  proof -
    obtain u' where u': "iec101_s_state_machine_callall (t 0) u = Some u'" "s_now s0 r out (up_stat\<lparr>st_callall := y\<rparr>) 0 d' tm bk u'"
      using y(2) u by blast
    from s_machine_callall [where t = t, OF s_nowD(2) [OF u] u'(1) s_nowD(2) [OF u'(2)]] u'(2) show ?thesis by blast
  qed
  with y(1) show ?thesis by blast
qed

lemma s_waiting_round:
  assumes "s_waiting s0 x d" and "hb = [] \<or> (\<exists>c la. is_heartbeat c \<and> hb = [frame10 c la])" and "length b = 1500" and "\<forall>n. heap n"
  shows "\<exists>y d' ans. s_waiting s0 y d' \<and> (ans = [] \<or> (\<exists>la. ans = [frame10 9 la])) \<and>
    (\<forall>u. s_now s0 hb [] (up_stat\<lparr>st_callall := x\<rparr>) 0 d tm bk u \<longrightarrow> (\<exists>b' s'. length b' = 1500 \<and> iec101_s_exec_round heap tc (b, u) = Some (b', s') \<and>
       s_now s0 [] ans (up_stat\<lparr>st_callall := y\<rparr>) 0 d' tm bk s'))"
proof -
  obtain y d' where y: "s_waiting s0 y d'" and step: "\<And>r out u. s_now s0 r out (up_stat\<lparr>st_callall := x\<rparr>) 0 d tm bk u \<Longrightarrow>
      \<exists>u'. iec101_s_state_machine tc u = Some u' \<and> s_now s0 r out (up_stat\<lparr>st_callall := y\<rparr>) 0 d' tm bk u'"
    using s_waiting_machine [OF assms(1), of tm bk tc] by blast
  from assms(2) show ?thesis
  proof
    assume hb: "hb = []"
    have "\<exists>b' s'. length b' = 1500 \<and> iec101_s_exec_round heap tc (b, u) = Some (b', s') \<and> s_now s0 [] [] (up_stat\<lparr>st_callall := y\<rparr>) 0 d' tm bk s'"
      if "s_now s0 [] [] (up_stat\<lparr>st_callall := x\<rparr>) 0 d tm bk u" for u
      using that by (rule s_round_quiet [OF _ assms(3) step])
    with y hb show ?thesis by blast
  next
    assume "\<exists>c la. is_heartbeat c \<and> hb = [frame10 c la]"
    then obtain c la where hb: "is_heartbeat c" "hb = [frame10 c la]" by blast
    let ?m = "frame10 9 (unat (s_addr s0))"
    have "\<exists>b' s'. length b' = 1500 \<and> iec101_s_exec_round heap tc (b, s) = Some (b', s') \<and> s_now s0 [] [?m] (up_stat\<lparr>st_callall := y\<rparr>) 0 d' tm bk s'"
      if s: "s_now s0 hb [] (up_stat\<lparr>st_callall := x\<rparr>) 0 d tm bk s" for s
    proof (rule s_round_10 [OF s [unfolded hb(2)] assms(3,4), where f = "sent101 [?m]"])
      fix u a assume u: "s_now s0 [] [] (up_stat\<lparr>st_callall := x\<rparr>) 0 d tm bk u" and a: "ba_wf a" "ba_bytes a = frame10 c la"
      have "serial_open (u\<lparr>s_array := a\<rparr>)" using s_nowD(1) [OF u] by (simp add: serial_open_def)
      then show "\<exists>r. iec101_s_deal_10 (u\<lparr>s_array := a\<rparr>) (ba_data a) 6 = Some (r, (sent101 [?m] u)\<lparr>s_array := a\<rparr>)"
        using frame10_reads [OF a] s_nowD(8) [OF u] hb(1)
        by (simp add: iec101_s_deal_10_def is_heartbeat_def iec101_ctrls iec101_s_build_request_user_nack_def stable_frame write_sent sent101_def)
    next
      fix u assume "s_now s0 [] [] (up_stat\<lparr>st_callall := x\<rparr>) 0 d tm bk u"
      from s_now_update(7) [OF this, of "[?m]"] show "s_now s0 [] [?m] (up_stat\<lparr>st_callall := x\<rparr>) 0 d tm bk (sent101 [?m] u)" by simp
    qed (rule step)
    with y show ?thesis by blast
  qed
qed

section \<open>The interrogation\<close>

text \<open>What may be on its way to the master while both wait: the answer to a heartbeat.\<close>

definition both_wait ::
  "(proto_port, 'p, 'd) iec101m_t \<Rightarrow> (proto_port, 'q, 'e) iec101s_t \<Rightarrow> ('p, 'd, 'q, 'e) serial_pair \<Rightarrow> bool" where
  "both_wait m0 s0 st \<longleftrightarrow> length (fst (fst st)) = 1500 \<and> length (fst (snd st)) = 1500 \<and>
     (\<exists>r. (r = [] \<or> (\<exists>la. r = [frame10 9 la])) \<and> m_waits m0 r [] (snd (fst st))) \<and> s_waits s0 (snd (snd st))"

lemma both_wait_turn:
  assumes "both_wait m0 s0 st" and "\<forall>n. heap n"
  shows "\<exists>st'. serial_turn heap cl st = Some st' \<and> both_wait m0 s0 st'"
proof -
  obtain mb m sb s tc ts where st: "st = ((mb, m), (sb, s))" and cl: "cl = (tc, ts)" by (metis prod.collapse)
  obtain r where r: "r = [] \<or> (\<exists>la. r = [frame10 9 la])" "m_waits m0 r [] m" and len: "length mb = 1500" "length sb = 1500" and w: "s_waits s0 s"
    using assms(1) by (auto simp: both_wait_def st)
  obtain mb' m1 hb where m1: "length mb' = 1500" "iec101_m_exec_round heap tc (mb, m) = Some (mb', m1)" "m_waits m0 [] hb m1"
    "hb = [] \<or> (\<exists>c. is_heartbeat c \<and> hb = [frame10 c (unat (c_addr m0))])"
    using m_waits_round [OF r(2,1) len(1) assms(2)] by blast
  obtain x tm where x: "x \<in> {IEC10X_STA_CALL_ALL_YX, IEC10X_STA_LINK_DISCONNECT}"
    and now: "m_now m0 [] hb (up_stat\<lparr>st_callall := x\<rparr>) 0 (c_app m0) tm m1"
    using m1(3) by (auto simp: m_waits_def)
  obtain xs d tms where xs: "s_waiting s0 xs d" and s: "s_now s0 [] [] (up_stat\<lparr>st_callall := xs\<rparr>) 0 d tms (s_yk_bak s0) s"
    using w by (auto simp: s_waits_def)
  obtain y d' ans where y: "s_waiting s0 y d'" "ans = [] \<or> (\<exists>la. ans = [frame10 9 la])"
    and round: "\<And>u. s_now s0 hb [] (up_stat\<lparr>st_callall := xs\<rparr>) 0 d tms (s_yk_bak s0) u \<Longrightarrow> \<exists>b' s'. length b' = 1500 \<and>
      iec101_s_exec_round heap ts (sb, u) = Some (b', s') \<and> s_now s0 [] ans (up_stat\<lparr>st_callall := y\<rparr>) 0 d' tms (s_yk_bak s0) s'"
    using s_waiting_round [OF xs _ len(2) assms(2), of hb tms "s_yk_bak s0" ts] m1(4) by blast
  obtain m' sb' s' where t: "length sb' = 1500" "serial_turn heap (tc, ts) ((mb, m), (sb, s)) = Some ((mb', m'), (sb', s'))"
    "m_now m0 ans [] (up_stat\<lparr>st_callall := x\<rparr>) 0 (c_app m0) tm m'" "s_now s0 [] [] (up_stat\<lparr>st_callall := y\<rparr>) 0 d' tms (s_yk_bak s0) s'"
    using serial_turn_now [OF m1(2) now s round] by auto
  have "m_waits m0 ans [] m'" unfolding m_waits_def using x t(3) by blast
  moreover have "s_waits s0 s'" unfolding s_waits_def using y(1) t(4) by blast
  ultimately have "both_wait m0 s0 ((mb', m'), (sb', s'))" using m1(1) t(1) y(2) by (auto simp: both_wait_def)
  then show ?thesis using t(2) by (simp add: st cl)
qed

lemma both_wait_turns: "both_wait m0 s0 st \<Longrightarrow> \<forall>n. heap n \<Longrightarrow> \<exists>st'. serial_turns heap cls st = Some st' \<and> both_wait m0 s0 st'"
proof (induction cls arbitrary: st)
  case (Cons cl cls)
  from both_wait_turn [OF Cons.prems, of cl] obtain st1 where "serial_turn heap cl st = Some st1" "both_wait m0 s0 st1" by blast
  with Cons.IH [OF this(2) Cons.prems(2)] show ?case by simp
qed simp

lemma serial_call_sent:
  assumes "m_now m0 [] [] up_stat k d tm m"
  shows "\<exists>num rs m1. rs mod 64 = 6 \<and> wow_iec101_m_build_call_all junk m = Some (0, m1) \<and>
    m_now m0 [] [call68 0xD3 (unat (c_addr m0)) num rs (unat (c_addr m0))] (up_stat\<lparr>st_callall := IEC10X_STA_CALL_ALL_START\<rparr>) k d tm m1"
proof -
  let ?num = "(fst junk AND 0x80) OR 1" and ?rs = "(snd junk AND 0xC0) OR 6"
  let ?head = "iec101_m_begin m IEC10X_C_IC_NA_1 ?num ?rs"
  let ?v = "m_sent [down68 (c_addr m0) IEC10X_C_IC_NA_1 ?num ?rs [0, 0, 20]] m"
  have "do { buf \<leftarrow> wrn ?head 12 (le_bytes 2 0); buf \<leftarrow> wr buf 14 20; iec101_m_finish m buf 17 } =
      do { buf \<leftarrow> wrn ?head 12 [0, 0, 20]; iec101_m_finish m buf 17 }"
    by (simp add: wr_as_wrn le_bytes_two lo8_def wrn_wrn_k)
  also have "\<dots> = Some (0, ?v)"
    using m_send_objects [of m "[0, 0, 20]" 17 m IEC10X_C_IC_NA_1 ?num ?rs] m_nowD(1,8) [OF assms] by simp
  finally have "iec101_m_build_call IEC10X_C_IC_NA_1 IEC10X_COT_INTROGEN junk m = Some (0, ?v)"
    by (simp add: iec101_m_build_call_def iec10x_cots iec101_lens)
  then have b: "wow_iec101_m_build_call_all junk m = Some (0, c_set_callall IEC10X_STA_CALL_ALL_START ?v)"
    by (simp add: wow_iec101_m_build_call_all_def)
  have f: "down68 (c_addr m0) IEC10X_C_IC_NA_1 ?num ?rs [0, 0, 20] = call68 0xD3 (unat (c_addr m0)) (unat ?num) (unat ?rs) (unat (c_addr m0))"
    by (simp add: down68_def call68_def iec10x_types)
  have "take_bit 6 ?rs = 6" by (simp add: take_bit_or take_bit_and)
  moreover have "unat ?rs mod 64 = unat (take_bit 6 ?rs)" by (simp only: unsigned_take_bit_eq) (simp add: take_bit_eq_mod)
  ultimately have "unat ?rs mod 64 = 6" by simp
  moreover have "m_now m0 [] [down68 (c_addr m0) IEC10X_C_IC_NA_1 ?num ?rs [0, 0, 20]] (up_stat\<lparr>st_callall := IEC10X_STA_CALL_ALL_START\<rparr>) k d tm
      (c_set_callall IEC10X_STA_CALL_ALL_START ?v)"
    using c_set_now(2) [OF m_now_update(7) [OF assms]] by force
  ultimately show ?thesis using b f by metis
qed

text \<open>C40. A general interrogation of a serial station that has no status points never ends. Both stations are at rest and connected, with nothing on the
  line and no acknowledgement counted. The master sends the activation, polls once, is confirmed and polls again, in three turns that begin within the second before
  its next heartbeat is due and, at both stations, within the time-out of 30 seconds of the interrogation. The station has nothing to report, so
  that the master, which polls only in answer to a report, never polls for the rest. However many turns follow, at whatever times, the application of
  the master is told nothing and its station does not become idle again; the application of the station is told at most that the interrogation has
  failed.\<close>

theorem serial_interrogation_stalls:
  assumes "m_rest m" and "c_stat m = up_stat" and "c_tack m = 0" and "s_rest s" and "s_stat s = up_stat" and "s_tack s = 0"
    and "\<forall>r \<in> set (s_yx_list s). r = []" and "length mb = 1500" and "length sb = 1500" and "\<forall>n. heap n"
    and "\<forall>t \<in> {a1, a2, a3}. t 0 - tm_init (c_time m) \<le> 1000" and "a2 2 - a1 2 \<le> 30000" and "b2 0 - b1 0 \<le> 30000" and "b3 0 - b1 0 \<le> 30000"
  shows "\<exists>m1 mb' m' sb' s'. wow_iec101_m_build_call_all junk m = Some (0, m1) \<and>
    serial_turns heap ((a1, b1) # (a2, b2) # (a3, b3) # cls) ((mb, m1), (sb, s)) = Some ((mb', m'), (sb', s')) \<and>
    c_app m' = c_app m \<and> st_callall (c_stat m') \<noteq> IEC10X_STA_CALL_ALL_IDLE \<and>
    s_app s' \<in> {s_app s, tell101 s IEC10X_CALL_ALL_FAILD (s_app s)}"
proof -
  let ?confirm = "up_stat\<lparr>st_callall := IEC10X_STA_CALL_ALL_CONFIRM\<rparr>" and ?tm = "(c_time m)\<lparr>tm_callall := a1 2\<rparr>"
    and ?ts = "(s_time s)\<lparr>tm_callall := b1 0\<rparr>" and ?la = "unat (c_addr m)"
  have mr: "m_now m [] [] up_stat 0 (c_app m) (c_time m) m" and sr: "s_now s [] [] up_stat 0 (s_app s) (s_time s) (s_yk_bak s) s"
    using assms(1-6) by (simp_all add: m_rest_def s_rest_def)
  obtain num rs m1 where c: "rs mod 64 = 6" "wow_iec101_m_build_call_all junk m = Some (0, m1)"
    "m_now m [] [call68 0xD3 ?la num rs ?la] (up_stat\<lparr>st_callall := IEC10X_STA_CALL_ALL_START\<rparr>) 0 (c_app m) (c_time m) m1"
    using serial_call_sent [OF mr] by blast
  obtain mb1 u1 where u1: "length mb1 = 1500" "iec101_m_exec_round heap a1 (mb, m1) = Some (mb1, u1)"
    "m_now m [] [call68 0xD3 ?la num rs ?la] ?confirm 0 (c_app m) ?tm u1"
    using m_begins_call [OF c(3) assms(8)] assms(11) by blast
  have ud: "is_user_data 0xD3" by (simp add: is_user_data_def iec101_ctrl_func_def iec101_ctrls)
  obtain n1 sb1 s1 where t1: "length sb1 = 1500" "serial_turn heap (a1, b1) ((mb, m1), (sb, s)) = Some ((mb1, n1), (sb1, s1))"
    "m_now m [frame10 0x20 (unat (s_addr s))] [] ?confirm 0 (c_app m) ?tm n1" "s_now s [] [] ?confirm 0 (s_app s) ?ts (s_yk_bak s) s1"
    using serial_turn_now [OF u1(2,3) sr s_begins_call [where tc = b1 and la = "?la" and num = num and ca = "?la" and tm = "s_time s" and k = 0 and d = "s_app s" and bk = "s_yk_bak s", OF _ assms(9,10) ud c(1)]] by auto
  obtain mb2 u2 c2 where u2: "length mb2 = 1500" "iec101_m_exec_round heap a2 (mb1, n1) = Some (mb2, u2)" "is_poll c2"
    "m_now m [] [frame10 c2 ?la] ?confirm 0 (c_app m) ?tm u2"
    using m_polls [OF t1(3) u1(1) assms(10), of a2] assms(11,12) by auto
  have in2: "b2 0 - tm_callall ?ts \<le> 30000" and in3: "b3 0 - tm_callall ?ts \<le> 30000" using assms(13,14) by simp_all
  obtain n2 sb2 s2 where t2: "length sb2 = 1500" "serial_turn heap (a2, b2) ((mb1, n1), (sb1, s1)) = Some ((mb2, n2), (sb2, s2))"
    "m_now m [up68 (s_addr s) 1 100 1 7 [0, 0, 20]] [] ?confirm 0 (c_app m) ?tm n2"
    "s_now s [] [] (up_stat\<lparr>st_callall := IEC10X_STA_CALL_ALL_YX\<rparr>) 0 (s_app s) ?ts (s_yk_bak s) s2"
    using serial_turn_now [OF u2(2,4) t1(4) s_confirms_call [where tc = b2 and la = "?la" and tm = "?ts" and k = 0 and d = "s_app s" and bk = "s_yk_bak s", OF _ t1(1) assms(10) u2(3) in2]] by auto
  obtain mb3 u3 c3 where u3: "length mb3 = 1500" "iec101_m_exec_round heap a3 (mb2, n2) = Some (mb3, u3)" "is_poll c3" "m_waits m [] [frame10 c3 ?la] u3"
    using m_confirmed_call [OF t2(3) u2(1) assms(10), of a3] assms(11) by auto
  obtain x tm where x: "x \<in> {IEC10X_STA_CALL_ALL_YX, IEC10X_STA_LINK_DISCONNECT}"
    and now: "m_now m [] [frame10 c3 ?la] (up_stat\<lparr>st_callall := x\<rparr>) 0 (c_app m) tm u3"
    using u3(4) by (auto simp: m_waits_def)
  obtain n3 sb3 s3 where t3: "length sb3 = 1500" "serial_turn heap (a3, b3) ((mb2, n2), (sb2, s2)) = Some ((mb3, n3), (sb3, s3))"
    "m_now m [] [] (up_stat\<lparr>st_callall := x\<rparr>) 0 (c_app m) tm n3"
    "s_now s [] [] (up_stat\<lparr>st_callall := IEC10X_STA_CALL_ALL_YC\<rparr>) 0 (s_app s) ?ts (s_yk_bak s) s3"
    using serial_turn_now [OF u3(2) now t2(4) s_reports_nothing [where tc = b3 and la = "?la" and tm = "?ts" and k = 0 and d = "s_app s" and bk = "s_yk_bak s", OF _ t2(1) assms(10) u3(3) in3 assms(7)]] by auto
  have "m_waits m [] [] n3" "s_waits s s3" unfolding m_waits_def s_waits_def s_waiting_def using x t3(3,4) by blast+
  then have "both_wait m s ((mb3, n3), (sb3, s3))" using u3(1) t3(1) by (auto simp: both_wait_def)
  from both_wait_turns [OF this assms(10), of cls] obtain mb' m' sb' s' where
    r: "serial_turns heap cls ((mb3, n3), (sb3, s3)) = Some ((mb', m'), (sb', s'))" "both_wait m s ((mb', m'), (sb', s'))"
    by auto
  have "c_app m' = c_app m" "st_callall (c_stat m') \<noteq> IEC10X_STA_CALL_ALL_IDLE" "s_app s' \<in> {s_app s, tell101 s IEC10X_CALL_ALL_FAILD (s_app s)}"
    using r(2) by (auto simp: both_wait_def m_waits_def s_waits_def s_waiting_def dest: m_nowD(2,4) s_nowD(4))
  then show ?thesis using c(2) t1(2) t2(2) t3(2) r(1) by auto
qed

theorem serial_interrogation_stalls_witness:
  "\<exists>(m :: (proto_port, unit, unit) iec101m_t) (s :: (proto_port, unit, unit) iec101s_t) m1 mb' m' sb' s'. c_stat m = up_stat \<and> s_yx_list s = [[], []] \<and>
     wow_iec101_m_build_call_all (0, 0) m = Some (0, m1) \<and>
     serial_turns (\<lambda>_. True) ((\<lambda>_. 5, \<lambda>_. 7) # (\<lambda>_. 5, \<lambda>_. 7) # (\<lambda>_. 5, \<lambda>_. 7) # replicate 97 (\<lambda>_. 50000, \<lambda>_. 50000))
       ((replicate 1500 0, m1), (replicate 1500 0, s)) = Some ((mb', m'), (sb', s')) \<and>
     st_callall (c_stat m') \<noteq> IEC10X_STA_CALL_ALL_IDLE"
proof -
  let ?env = "\<lparr>open_ok = True, listen_ok = True, accept_cb_ok = True, connect_ok = True\<rparr>"
  obtain m0 :: "(proto_port, unit, unit) iec101m_t" where m0: "m_rest m0" using m_fresh [of ?env 0 1 "()" "()"] by auto
  obtain s0 :: "(proto_port, unit, unit) iec101s_t" where s0: "s_rest s0" using s_fresh [of ?env 0 1 "()" "()"] by auto
  let ?zero = "\<lparr>tm_init = 0, tm_callall = 0, tm_callpulse = 0, tm_yt = 0, tm_yk = 0, tm_test = 0, tm_timer = 0\<rparr>"
  let ?m = "m0\<lparr>c_stat := up_stat, c_tack := 0, c_time := ?zero\<rparr>" and ?s = "s0\<lparr>s_stat := up_stat, s_tack := 0, s_yx_list := [[], []]\<rparr>"
  have "m_rest ?m" by (rule m_restI) (use m_nowD [OF m0 [unfolded m_rest_def]] in simp_all)
  moreover have "s_rest ?s" by (rule s_restI) (use s_nowD [OF s0 [unfolded s_rest_def]] in simp_all)
  ultimately obtain m1 mb' m' sb' s' where "wow_iec101_m_build_call_all (0, 0) ?m = Some (0, m1)"
    "serial_turns (\<lambda>_. True) ((\<lambda>_. 5, \<lambda>_. 7) # (\<lambda>_. 5, \<lambda>_. 7) # (\<lambda>_. 5, \<lambda>_. 7) # replicate 97 (\<lambda>_. 50000, \<lambda>_. 50000))
       ((replicate 1500 0, m1), (replicate 1500 0, ?s)) = Some ((mb', m'), (sb', s'))"
    "st_callall (c_stat m') \<noteq> IEC10X_STA_CALL_ALL_IDLE"
    using serial_interrogation_stalls [of ?m ?s "replicate 1500 0" "replicate 1500 0" "\<lambda>_. True" "\<lambda>_. 5" "\<lambda>_. 5" "\<lambda>_. 5" "\<lambda>_. 7" "\<lambda>_. 7" "\<lambda>_. 7"
        "(0, 0)" "replicate 97 (\<lambda>_. 50000, \<lambda>_. 50000)"]
    by (auto simp del: serial_turns.simps)
  moreover have "c_stat ?m = up_stat" "s_yx_list ?s = [[], []]" by simp_all
  ultimately show ?thesis by blast
qed

end
