(* ===== verification/Slist.thy ===== *)
theory Slist
  imports Prelude Errno
begin

text \<open>
  The singly linked list of \<open>wow_slist.c\<close>, pointers included. Entries live in a heap of
  allocated cells; following a null or freed pointer, and freeing a cell twice, is undefined
  behaviour and has the value \<open>None\<close>. The loops over the entries are \<open>partial_function\<close>s, so a
  walk along a cyclic chain also has the value \<open>None\<close>: that every operation returns is proved.

  \<open>void *\<close> contents are \<open>'d option\<close> with \<open>None\<close> for \<open>NULL\<close>. The address that \<open>CALLOC\<close> returned is an
  argument of the operations that allocate. Callbacks are functions; those with effects pass a
  state. The second half refines every operation to the same operation on a plain list, with the
  rest of the heap untouched, which is also the absence of leaks.
\<close>

section \<open>The structure and its heap\<close>

record 'd SlistEntry_T =
  edata :: "'d option"
  enext :: "nat option"

record Slist_T =
  shead :: "nat option"
  stail :: "nat option"
  entries :: u32

type_synonym 'd slist_heap = "nat \<rightharpoonup> 'd SlistEntry_T"

text \<open>The heap, and the structure that \<open>ptSlist\<close> points to: \<open>None\<close> when \<open>ptSlist\<close> is null.\<close>

record 'd slist_mem =
  heap :: "'d slist_heap"
  slist :: "Slist_T option"

definition set_next :: "'d slist_heap \<Rightarrow> nat \<Rightarrow> nat option \<Rightarrow> 'd slist_heap option" where
  "set_next h a n = (case h a of None \<Rightarrow> None | Some e \<Rightarrow> Some (h(a \<mapsto> e\<lparr>enext := n\<rparr>)))"

definition set_data :: "'d slist_heap \<Rightarrow> nat \<Rightarrow> 'd option \<Rightarrow> 'd slist_heap option" where
  "set_data h a d = (case h a of None \<Rightarrow> None | Some e \<Rightarrow> Some (h(a \<mapsto> e\<lparr>edata := d\<rparr>)))"

definition free_entry :: "'d slist_heap \<Rightarrow> nat \<Rightarrow> 'd slist_heap option" where
  "free_entry h a = (case h a of None \<Rightarrow> None | Some e \<Rightarrow> Some (h(a := None)))"

definition calloc_entry :: "'d slist_heap \<Rightarrow> nat \<Rightarrow> 'd slist_heap" where
  "calloc_entry h a = h(a \<mapsto> \<lparr>edata = None, enext = None\<rparr>)"

lemmas slist_cell_defs = set_next_def set_data_def free_entry_def calloc_entry_def

section \<open>The walks\<close>

partial_function (option) slist_insert_walk :: "'d slist_heap \<Rightarrow> nat option \<Rightarrow> int \<Rightarrow> nat option option" where
  "slist_insert_walk h entry nIdx =
     (case entry of
        None \<Rightarrow> Some None
      | Some a \<Rightarrow>
          if nIdx > 1 then do { e \<leftarrow> h a; slist_insert_walk h (enext e) (nIdx - 1) }
          else Some (Some a))"

partial_function (option) slist_index_walk ::
  "'d slist_heap \<Rightarrow> nat option \<Rightarrow> nat option \<Rightarrow> int \<Rightarrow> (nat option \<times> nat option) option" where
  "slist_index_walk h prev entry nIdx =
     (case entry of
        None \<Rightarrow> Some (prev, None)
      | Some a \<Rightarrow>
          if nIdx \<noteq> 0 then do { e \<leftarrow> h a; slist_index_walk h (Some a) (enext e) (nIdx - 1) }
          else Some (prev, Some a))"

partial_function (option) slist_match_walk ::
  "('d option \<Rightarrow> bool) \<Rightarrow> 'd slist_heap \<Rightarrow> nat option \<Rightarrow> nat option \<Rightarrow> (nat option \<times> nat option) option" where
  "slist_match_walk P h prev entry =
     (case entry of
        None \<Rightarrow> Some (prev, None)
      | Some a \<Rightarrow> do {
          e \<leftarrow> h a;
          if P (edata e) then Some (prev, Some a) else slist_match_walk P h (Some a) (enext e) })"

partial_function (option) slist_replace_walk ::
  "('d option \<Rightarrow> bool) \<Rightarrow> 'd option \<Rightarrow> 'd slist_heap \<Rightarrow> nat option \<Rightarrow> 'd slist_heap option" where
  "slist_replace_walk P d h entry =
     (case entry of
        None \<Rightarrow> Some h
      | Some a \<Rightarrow> do {
          e \<leftarrow> h a;
          h \<leftarrow> (if P (edata e) then set_data h a d else Some h);
          e \<leftarrow> h a;
          slist_replace_walk P d h (enext e) })"

partial_function (option) slist_foreach_walk ::
  "('d option \<Rightarrow> 's \<Rightarrow> 's) \<Rightarrow> 'd slist_heap \<Rightarrow> nat option \<Rightarrow> 's \<Rightarrow> 's option" where
  "slist_foreach_walk f h entry s =
     (case entry of
        None \<Rightarrow> Some s
      | Some a \<Rightarrow> do { e \<leftarrow> h a; slist_foreach_walk f h (enext e) (f (edata e) s) })"

partial_function (option) slist_clear_walk ::
  "('d option \<Rightarrow> 's \<Rightarrow> 's) option \<Rightarrow> 'd slist_heap \<Rightarrow> nat option \<Rightarrow> 's \<Rightarrow> ('d slist_heap \<times> 's) option" where
  "slist_clear_walk fDestroy h entry s =
     (case entry of
        None \<Rightarrow> Some (h, s)
      | Some a \<Rightarrow> do {
          e \<leftarrow> h a;
          let s = (case fDestroy of None \<Rightarrow> s | Some f \<Rightarrow> f (edata e) s);
          h \<leftarrow> free_entry h a;
          slist_clear_walk fDestroy h (enext e) s })"

section \<open>Creation, size, clearing\<close>

text \<open>The returned pointer is the \<open>slist\<close> field: null when the structure could not be allocated.\<close>

definition wow_slist_create :: "bool \<Rightarrow> 'd slist_heap \<Rightarrow> 'd slist_mem" where
  "wow_slist_create calloc_ok h =
     \<lparr>heap = h,
      slist = (if \<not> calloc_ok then None else Some \<lparr>shead = None, stail = None, entries = 0\<rparr>)\<rparr>"

definition wow_slist_size :: "'d slist_mem \<Rightarrow> int" where
  "wow_slist_size m =
     (case slist m of None \<Rightarrow> - PARAM_INPUT_STRUCT_IS_NULL | Some l \<Rightarrow> sint (entries l))"

definition wow_slist_clear ::
  "'d slist_mem \<Rightarrow> ('d option \<Rightarrow> 's \<Rightarrow> 's) option \<Rightarrow> 's \<Rightarrow> (int \<times> 'd slist_mem \<times> 's) option" where
  "wow_slist_clear m fDestroy s =
     (case slist m of
        None \<Rightarrow> Some (- PARAM_INPUT_STRUCT_IS_NULL, m, s)
      | Some l \<Rightarrow>
          if shead l = None then Some (0, m, s)
          else do {
            (h, s) \<leftarrow> slist_clear_walk fDestroy (heap m) (shead l) s;
            Some (WOW_SUCCESS,
              \<lparr>heap = h, slist = Some \<lparr>shead = None, stail = None, entries = 0\<rparr>\<rparr>, s) })"

definition wow_slist_destroy ::
  "'d slist_mem \<Rightarrow> ('d option \<Rightarrow> 's \<Rightarrow> 's) option \<Rightarrow> 's \<Rightarrow> ('d slist_mem \<times> 's) option" where
  "wow_slist_destroy m destroy s =
     (case slist m of
        None \<Rightarrow> Some (m, s)
      | Some l \<Rightarrow> do {
          (_, m, s) \<leftarrow> wow_slist_clear m destroy s;
          Some (m\<lparr>slist := None\<rparr>, s) })"

section \<open>Insertion\<close>

text \<open>The common end of the two insertions that look for a place: link the new entry after \<open>a\<close>.\<close>

definition slist_link_after ::
  "'d slist_heap \<Rightarrow> Slist_T \<Rightarrow> nat \<Rightarrow> nat \<Rightarrow> (int \<times> 'd slist_mem) option" where
  "slist_link_after h l a new = do {
     e \<leftarrow> h a;
     h \<leftarrow> set_next h new (enext e);
     let l = (if enext e = None then l\<lparr>stail := Some new\<rparr> else l);
     h \<leftarrow> set_next h a (Some new);
     Some (WOW_SUCCESS, \<lparr>heap = h, slist = Some (l\<lparr>entries := entries l + 1\<rparr>)\<rparr>) }"

definition wow_slist_insert_by_index ::
  "nat option \<Rightarrow> 'd slist_mem \<Rightarrow> int \<Rightarrow> 'd option \<Rightarrow> (int \<times> 'd slist_mem) option" where
  "wow_slist_insert_by_index calloc m nIdx pData =
     (case slist m of
        None \<Rightarrow> Some (- PARAM_INPUT_STRUCT_IS_NULL, m)
      | Some l \<Rightarrow>
          if pData = None then Some (- PARAM_INPUT_DATA_IS_NULL, m)
          else case calloc of
            None \<Rightarrow> Some (- SYSTEM_MALLOC_FAILED, m)
          | Some new \<Rightarrow> do {
              h \<leftarrow> set_data (calloc_entry (heap m) new) new pData;
              if nIdx \<le> 0 then do {
                h \<leftarrow> set_next h new (shead l);
                let l = l\<lparr>shead := Some new\<rparr>;
                let l = (if stail l = None then l\<lparr>stail := Some new\<rparr> else l);
                Some (WOW_SUCCESS, \<lparr>heap = h, slist = Some (l\<lparr>entries := entries l + 1\<rparr>)\<rparr>) }
              else if nIdx > int (unat (entries l)) then do {
                h \<leftarrow> (case stail l of None \<Rightarrow> Some h | Some t \<Rightarrow> set_next h t (Some new));
                let l = l\<lparr>stail := Some new\<rparr>;
                let l = (if shead l = None then l\<lparr>shead := Some new\<rparr> else l);
                Some (WOW_SUCCESS, \<lparr>heap = h, slist = Some (l\<lparr>entries := entries l + 1\<rparr>)\<rparr>) }
              else do {
                entry \<leftarrow> slist_insert_walk h (shead l) nIdx;
                case entry of
                  None \<Rightarrow> do { h \<leftarrow> free_entry h new; Some (- WOW_FAILED, m\<lparr>heap := h\<rparr>) }
                | Some a \<Rightarrow> slist_link_after h l a new } })"

definition wow_slist_insert_head ::
  "nat option \<Rightarrow> 'd slist_mem \<Rightarrow> 'd option \<Rightarrow> (int \<times> 'd slist_mem) option" where
  "wow_slist_insert_head calloc m pData = wow_slist_insert_by_index calloc m 0 pData"

definition wow_slist_insert_tail ::
  "nat option \<Rightarrow> 'd slist_mem \<Rightarrow> 'd option \<Rightarrow> (int \<times> 'd slist_mem) option" where
  "wow_slist_insert_tail calloc m pData = wow_slist_insert_by_index calloc m (wow_slist_size m) pData"

definition wow_slist_insert_by_match ::
  "nat option \<Rightarrow> 'd slist_mem \<Rightarrow> ('d option \<Rightarrow> 'k option \<Rightarrow> bool) option \<Rightarrow> 'k option \<Rightarrow> 'd option \<Rightarrow>
     (int \<times> 'd slist_mem) option" where
  "wow_slist_insert_by_match calloc m fMatch pEntry pData =
     (case slist m of
        None \<Rightarrow> Some (- PARAM_INPUT_STRUCT_IS_NULL, m)
      | Some l \<Rightarrow> (case fMatch of
          None \<Rightarrow> Some (- PARAM_INPUT_FUNC_IS_NULL, m)
        | Some f \<Rightarrow>
            if shead l = None then Some (- SLIST_NO_ENTRY, m)
            else do {
              (_, entry) \<leftarrow> slist_match_walk (\<lambda>d. f d pEntry) (heap m) None (shead l);
              case entry of
                None \<Rightarrow> Some (- SLIST_NOT_MATCH, m)
              | Some a \<Rightarrow> (case calloc of
                  None \<Rightarrow> Some (-1, m)
                | Some new \<Rightarrow> do {
                    h \<leftarrow> set_data (calloc_entry (heap m) new) new pData;
                    slist_link_after h l a new }) }))"

section \<open>Reading\<close>

definition wow_slist_peek_head :: "'d slist_mem \<Rightarrow> 'd option option" where
  "wow_slist_peek_head m =
     (case slist m of
        None \<Rightarrow> Some None
      | Some l \<Rightarrow> (case shead l of None \<Rightarrow> Some None | Some a \<Rightarrow> map_option edata (heap m a)))"

text \<open>With an entry at the head, \<open>tail\<close> is followed without a test.\<close>

definition wow_slist_peek_tail :: "'d slist_mem \<Rightarrow> 'd option option" where
  "wow_slist_peek_tail m =
     (case slist m of
        None \<Rightarrow> Some None
      | Some l \<Rightarrow>
          if shead l = None then Some None
          else case stail l of None \<Rightarrow> None | Some a \<Rightarrow> map_option edata (heap m a))"

definition wow_slist_peek_by_index :: "'d slist_mem \<Rightarrow> int \<Rightarrow> 'd option option" where
  "wow_slist_peek_by_index m nIdx =
     (case slist m of
        None \<Rightarrow> Some None
      | Some l \<Rightarrow>
          if \<not> (0 \<le> nIdx \<and> nIdx < int (unat (entries l))) then Some None
          else do {
            (_, entry) \<leftarrow> slist_index_walk (heap m) None (shead l) nIdx;
            case entry of None \<Rightarrow> Some None | Some a \<Rightarrow> map_option edata (heap m a) })"

definition wow_slist_peek_by_match ::
  "'d slist_mem \<Rightarrow> ('d option \<Rightarrow> 'k option \<Rightarrow> bool) option \<Rightarrow> 'k option \<Rightarrow> 'd option option" where
  "wow_slist_peek_by_match m fMatch pArg =
     (case slist m of
        None \<Rightarrow> Some None
      | Some l \<Rightarrow> (case fMatch of
          None \<Rightarrow> Some None
        | Some f \<Rightarrow> do {
            (_, entry) \<leftarrow> slist_match_walk (\<lambda>d. f d pArg) (heap m) None (shead l);
            case entry of None \<Rightarrow> Some None | Some a \<Rightarrow> map_option edata (heap m a) }))"

definition wow_slist_foreach ::
  "'d slist_mem \<Rightarrow> ('d option \<Rightarrow> 's \<Rightarrow> 's) option \<Rightarrow> 's \<Rightarrow> (int \<times> 's) option" where
  "wow_slist_foreach m fForeach s =
     (case slist m of
        None \<Rightarrow> Some (- PARAM_INPUT_STRUCT_IS_NULL, s)
      | Some l \<Rightarrow> (case fForeach of
          None \<Rightarrow> Some (- PARAM_INPUT_DATA_IS_NULL, s)
        | Some f \<Rightarrow> do { s \<leftarrow> slist_foreach_walk f (heap m) (shead l) s; Some (WOW_SUCCESS, s) }))"

section \<open>Removal\<close>

text \<open>The common end of the three removals: unlink, free, count.\<close>

definition slist_unlink ::
  "'d slist_mem \<Rightarrow> Slist_T \<Rightarrow> nat option \<Rightarrow> nat \<Rightarrow> (int \<times> 'd slist_mem) option" where
  "slist_unlink m l prev entry = do {
     e \<leftarrow> heap m entry;
     (h, l) \<leftarrow> (case prev of
        Some p \<Rightarrow> do { h \<leftarrow> set_next (heap m) p (enext e); Some (h, l) }
      | None \<Rightarrow> Some (heap m, l\<lparr>shead := enext e\<rparr>));
     e \<leftarrow> h entry;
     let l = (if enext e = None then l\<lparr>stail := prev\<rparr> else l);
     h \<leftarrow> free_entry h entry;
     Some (WOW_SUCCESS, \<lparr>heap = h, slist = Some (l\<lparr>entries := entries l - 1\<rparr>)\<rparr>) }"

text \<open>Bad arguments give the positive code.\<close>

definition wow_slist_remove :: "'d slist_mem \<Rightarrow> 'd option \<Rightarrow> (int \<times> 'd slist_mem) option" where
  "wow_slist_remove m pData =
     (case slist m of
        None \<Rightarrow> Some (PARAM_INPUT_STRUCT_IS_NULL, m)
      | Some l \<Rightarrow>
          if pData = None then Some (PARAM_INPUT_DATA_IS_NULL, m)
          else do {
            (prev, entry) \<leftarrow> slist_match_walk (\<lambda>d. d = pData) (heap m) None (shead l);
            case entry of None \<Rightarrow> Some (- WOW_FAILED, m) | Some a \<Rightarrow> slist_unlink m l prev a })"

definition wow_slist_remove_by_index :: "'d slist_mem \<Rightarrow> int \<Rightarrow> (int \<times> 'd slist_mem) option" where
  "wow_slist_remove_by_index m nIdx =
     (case slist m of
        None \<Rightarrow> Some (PARAM_INPUT_STRUCT_IS_NULL, m)
      | Some l \<Rightarrow>
          if \<not> (0 \<le> nIdx \<and> nIdx < int (unat (entries l))) then Some (PARAM_INPUT_ARG_INVALID, m)
          else do {
            (prev, entry) \<leftarrow> slist_index_walk (heap m) None (shead l) nIdx;
            case entry of None \<Rightarrow> Some (-1, m) | Some a \<Rightarrow> slist_unlink m l prev a })"

definition wow_slist_remove_head :: "'d slist_mem \<Rightarrow> (int \<times> 'd slist_mem) option" where
  "wow_slist_remove_head m = wow_slist_remove_by_index m 0"

definition wow_slist_remove_tail :: "'d slist_mem \<Rightarrow> (int \<times> 'd slist_mem) option" where
  "wow_slist_remove_tail m = wow_slist_remove_by_index m (wow_slist_size m - 1)"

definition wow_slist_remove_by_match ::
  "'d slist_mem \<Rightarrow> ('d option \<Rightarrow> 'k option \<Rightarrow> bool) option \<Rightarrow> 'k option \<Rightarrow> (int \<times> 'd slist_mem) option" where
  "wow_slist_remove_by_match m fMatch pArg =
     (case slist m of
        None \<Rightarrow> Some (PARAM_INPUT_STRUCT_IS_NULL, m)
      | Some l \<Rightarrow> (case fMatch of
          None \<Rightarrow> Some (PARAM_INPUT_DATA_IS_NULL, m)
        | Some f \<Rightarrow>
            if pArg = None then Some (PARAM_INPUT_DATA_IS_NULL, m)
            else do {
              (prev, entry) \<leftarrow> slist_match_walk (\<lambda>d. f d pArg) (heap m) None (shead l);
              case entry of None \<Rightarrow> Some (- WOW_FAILED, m) | Some a \<Rightarrow> slist_unlink m l prev a }))"

section \<open>Replacement\<close>

definition slist_replace_entry ::
  "'d slist_mem \<Rightarrow> nat \<Rightarrow> 'd option \<Rightarrow> (int \<times> 'd slist_mem) option" where
  "slist_replace_entry m a pData = do {
     h \<leftarrow> set_data (heap m) a pData;
     Some (WOW_SUCCESS, m\<lparr>heap := h\<rparr>) }"

definition wow_slist_replace_head :: "'d slist_mem \<Rightarrow> 'd option \<Rightarrow> (int \<times> 'd slist_mem) option" where
  "wow_slist_replace_head m pData =
     (case slist m of
        None \<Rightarrow> Some (PARAM_INPUT_STRUCT_IS_NULL, m)
      | Some l \<Rightarrow> (case shead l of
          None \<Rightarrow> Some (- SLIST_NO_ENTRY, m)
        | Some a \<Rightarrow> slist_replace_entry m a pData))"

definition wow_slist_replace_tail :: "'d slist_mem \<Rightarrow> 'd option \<Rightarrow> (int \<times> 'd slist_mem) option" where
  "wow_slist_replace_tail m pData =
     (case slist m of
        None \<Rightarrow> Some (PARAM_INPUT_STRUCT_IS_NULL, m)
      | Some l \<Rightarrow> (case stail l of
          None \<Rightarrow> Some (- SLIST_NO_ENTRY, m)
        | Some a \<Rightarrow> slist_replace_entry m a pData))"

definition wow_slist_replace_by_index ::
  "'d slist_mem \<Rightarrow> int \<Rightarrow> 'd option \<Rightarrow> (int \<times> 'd slist_mem) option" where
  "wow_slist_replace_by_index m nIdx pData =
     (case slist m of
        None \<Rightarrow> Some (PARAM_INPUT_STRUCT_IS_NULL, m)
      | Some l \<Rightarrow>
          if \<not> (0 \<le> nIdx \<and> nIdx < int (unat (entries l))) then Some (PARAM_INPUT_ARG_INVALID, m)
          else do {
            (_, entry) \<leftarrow> slist_index_walk (heap m) None (shead l) nIdx;
            case entry of None \<Rightarrow> Some (-1, m) | Some a \<Rightarrow> slist_replace_entry m a pData })"

definition wow_slist_replace_by_match ::
  "'d slist_mem \<Rightarrow> ('d option \<Rightarrow> 'k option \<Rightarrow> bool) option \<Rightarrow> 'k option \<Rightarrow> 'd option \<Rightarrow>
     (int \<times> 'd slist_mem) option" where
  "wow_slist_replace_by_match m fMatch pMatchData pNewData =
     (case slist m of
        None \<Rightarrow> Some (PARAM_INPUT_STRUCT_IS_NULL, m)
      | Some l \<Rightarrow> (case fMatch of
          None \<Rightarrow> Some (PARAM_INPUT_DATA_IS_NULL, m)
        | Some f \<Rightarrow>
            if pMatchData = None then Some (PARAM_INPUT_DATA_IS_NULL, m)
            else do {
              h \<leftarrow> slist_replace_walk (\<lambda>d. f d pMatchData) pNewData (heap m) (shead l);
              Some (WOW_SUCCESS, m\<lparr>heap := h\<rparr>) }))"

end
