(* ===== verification/SlistRefine.thy ===== *)
theory SlistRefine
  imports Slist
begin

text \<open>
  The linked list of \<open>wow_slist.c\<close> implements a list. \<open>holds R ns m\<close> says that the structure of
  the memory \<open>m\<close> is a well-formed chain through the cells \<open>ns\<close> (address and content), with the
  right tail pointer and counter, and that the heap outside these cells is exactly \<open>R\<close>. Every
  operation keeps \<open>holds R\<close> with the same \<open>R\<close>: it touches no foreign cell, frees what it unlinks
  and loses nothing.
\<close>

section \<open>Chains\<close>

fun chain :: "'d slist_heap \<Rightarrow> nat option \<Rightarrow> (nat \<times> 'd option) list \<Rightarrow> nat option \<Rightarrow> bool" where
  "chain h p [] q \<longleftrightarrow> p = q"
| "chain h p ((a, d) # ns) q \<longleftrightarrow>
     p = Some a \<and> (\<exists>n. h a = Some \<lparr>edata = d, enext = n\<rparr> \<and> chain h n ns q)"

fun last_addr :: "nat option \<Rightarrow> (nat \<times> 'd option) list \<Rightarrow> nat option" where
  "last_addr p [] = p"
| "last_addr p (n # ns) = last_addr (Some (fst n)) ns"

definition outside :: "'d slist_heap \<Rightarrow> (nat \<times> 'd option) list \<Rightarrow> 'd slist_heap" where
  "outside h ns = h |` (- fst ` set ns)"

definition holds :: "'d slist_heap \<Rightarrow> (nat \<times> 'd option) list \<Rightarrow> 'd slist_mem \<Rightarrow> bool" where
  "holds R ns m \<longleftrightarrow>
     (\<exists>l. slist m = Some l \<and> chain (heap m) (shead l) ns None \<and> distinct (map fst ns) \<and>
       stail l = last_addr None ns \<and> entries l = of_nat (length ns) \<and> length ns < 2 ^ 31 \<and>
       outside (heap m) ns = R)"

lemma chain_append: "chain h p (xs @ ys) q \<longleftrightarrow> (\<exists>r. chain h p xs r \<and> chain h r ys q)"
  by (induction h p xs q rule: chain.induct) auto

lemma chain_upd [simp]: "a \<notin> fst ` set ns \<Longrightarrow> chain (h(a := v)) p ns q = chain h p ns q"
  by (induction h p ns q rule: chain.induct) auto

lemma chain_dom: "chain h p ns q \<Longrightarrow> fst ` set ns \<subseteq> dom h"
  by (induction h p ns q rule: chain.induct) auto

lemma last_addr_append [simp]: "last_addr p (xs @ ys) = last_addr (last_addr p xs) ys"
  by (induction xs arbitrary: p) auto

lemma last_addr_None_iff [simp]: "last_addr p ns = None \<longleftrightarrow> p = None \<and> ns = []"
  by (induction ns arbitrary: p) auto

lemma chain_head: "chain h p ns None \<Longrightarrow> p = None \<longleftrightarrow> ns = []"
  by (cases ns) auto

lemma outside_Nil [simp]: "outside h [] = h"
  by (simp add: outside_def restrict_map_def)

lemma outside_upd_in [simp]: "a \<in> fst ` set ns \<Longrightarrow> outside (h(a := v)) ns = outside h ns"
  by (auto simp: outside_def restrict_map_def fun_eq_iff)

lemma outside_cong_set: "fst ` set ns = fst ` set ns' \<Longrightarrow> outside h ns = outside h ns'"
  by (simp add: outside_def)

lemma outside_insert:
  "h a = None \<Longrightarrow> fst ` set ns' = insert a (fst ` set ns) \<Longrightarrow> outside h ns' = outside h ns"
  by (auto simp: outside_def restrict_map_def fun_eq_iff)

lemma outside_delete:
  "fst ` set ns' = insert a (fst ` set ns) \<Longrightarrow> outside (h(a := None)) ns = outside h ns'"
  by (auto simp: outside_def restrict_map_def fun_eq_iff)

section \<open>The walks over a chain\<close>

lemma insert_walk_chain:
  assumes "chain h p (xs @ (a, d) # ys) q"
  shows "slist_insert_walk h p (int (length xs) + 1) = Some (Some a)"
  using assms
proof (induction xs arbitrary: p)
  case Nil
  then show ?case by (subst slist_insert_walk.simps) simp
next
  case (Cons x xs)
  then show ?case by (cases x) (subst slist_insert_walk.simps, auto simp: add.commute)
qed

lemma index_walk_chain:
  assumes "chain h p (xs @ (a, d) # ys) q"
  shows "slist_index_walk h prev p (int (length xs)) = Some (last_addr prev xs, Some a)"
  using assms
proof (induction xs arbitrary: p prev)
  case Nil
  then show ?case by (subst slist_index_walk.simps) simp
next
  case (Cons x xs)
  then show ?case by (cases x) (subst slist_index_walk.simps, auto)
qed

lemma match_walk_found:
  assumes "chain h p (xs @ (a, d) # ys) q" and "\<forall>x \<in> snd ` set xs. \<not> P x" and "P d"
  shows "slist_match_walk P h prev p = Some (last_addr prev xs, Some a)"
  using assms
proof (induction xs arbitrary: p prev)
  case Nil
  then show ?case by (subst slist_match_walk.simps) auto
next
  case (Cons x xs)
  then show ?case by (cases x) (subst slist_match_walk.simps, auto)
qed

lemma match_walk_none:
  assumes "chain h p ns None" and "\<forall>x \<in> snd ` set ns. \<not> P x"
  shows "slist_match_walk P h prev p = Some (last_addr prev ns, None)"
  using assms
proof (induction ns arbitrary: p prev)
  case Nil
  then show ?case by (subst slist_match_walk.simps) auto
next
  case (Cons x xs)
  then show ?case by (cases x) (subst slist_match_walk.simps, auto)
qed

lemma foreach_walk_chain:
  assumes "chain h p ns None"
  shows "slist_foreach_walk f h p s = Some (fold f (map snd ns) s)"
  using assms
proof (induction ns arbitrary: p s)
  case Nil
  then show ?case by (subst slist_foreach_walk.simps) auto
next
  case (Cons x xs)
  then show ?case by (cases x) (subst slist_foreach_walk.simps, auto)
qed

lemma clear_walk_chain:
  assumes "chain h p ns None" and "distinct (map fst ns)"
  shows "slist_clear_walk fD h p s =
    Some (outside h ns, case fD of None \<Rightarrow> s | Some f \<Rightarrow> fold f (map snd ns) s)"
  using assms
proof (induction ns arbitrary: h p s)
  case Nil
  then show ?case by (subst slist_clear_walk.simps) (auto simp: outside_def split: option.splits)
next
  case (Cons x xs)
  obtain a d where x: "x = (a, d)" by (cases x)
  from Cons.prems obtain n where p: "p = Some a" and ha: "h a = Some \<lparr>edata = d, enext = n\<rparr>"
    and ch: "chain h n xs None" and a: "a \<notin> fst ` set xs" and ds: "distinct (map fst xs)"
    by (auto simp: x)
  have out: "outside (h(a := None)) xs = outside h (x # xs)"
    by (rule outside_delete) (simp add: x)
  have "chain (h(a := None)) n xs None" using ch a by (rule chain_upd [THEN iffD2, rotated])
  then have IH: "slist_clear_walk fD (h(a := None)) n t =
    Some (outside h (x # xs), case fD of None \<Rightarrow> t | Some f \<Rightarrow> fold f (map snd xs) t)" for t
    using Cons.IH ds by (simp only: out)
  show ?case
    by (subst slist_clear_walk.simps) (simp add: p x free_entry_def ha Let_def IH [unfolded x] split: option.splits)
qed

lemma replace_walk_chain:
  assumes "chain h p ns None" and "distinct (map fst ns)"
  shows "\<exists>h'. slist_replace_walk P d h p = Some h' \<and>
    chain h' p (map (\<lambda>(a, x). (a, if P x then d else x)) ns) None \<and>
    outside h' ns = outside h ns \<and> (\<forall>a. a \<notin> fst ` set ns \<longrightarrow> h' a = h a)"
  using assms
proof (induction ns arbitrary: h p)
  case Nil
  then show ?case by (subst slist_replace_walk.simps) auto
next
  case (Cons x xs)
  obtain a c where x: "x = (a, c)" by (cases x)
  from Cons.prems obtain n where p: "p = Some a" and ha: "h a = Some \<lparr>edata = c, enext = n\<rparr>"
    and ch: "chain h n xs None" and a: "a \<notin> fst ` set xs" and ds: "distinct (map fst xs)"
    by (auto simp: x)
  define g where "g = (if P c then h(a \<mapsto> \<lparr>edata = d, enext = n\<rparr>) else h)"
  have ga: "g a = Some \<lparr>edata = if P c then d else c, enext = n\<rparr>" by (simp add: g_def ha)
  have "chain g n xs None" using ch a by (simp add: g_def)
  with Cons.IH ds obtain h' where h': "slist_replace_walk P d g n = Some h'"
    "chain h' n (map (\<lambda>(a, x). (a, if P x then d else x)) xs) None"
    "\<forall>b. b \<notin> fst ` set xs \<longrightarrow> h' b = g b" by blast
  have "slist_replace_walk P d h p = slist_replace_walk P d g n"
    by (subst slist_replace_walk.simps) (auto simp: p ha set_data_def g_def)
  moreover have "h' a = g a" using h'(3) a by simp
  moreover have "outside h' (x # xs) = outside h (x # xs)"
    using h'(3) by (auto simp: outside_def restrict_map_def fun_eq_iff x g_def)
  ultimately show ?case using h' ga by (auto simp: p x g_def)
qed

section \<open>Counters\<close>

lemma unat_entries [simp]: "n < 2 ^ 31 \<Longrightarrow> unat (word_of_nat n :: u32) = n"
  by (simp add: unat_of_nat)

lemma sint_entries [simp]: "n < 2 ^ 31 \<Longrightarrow> sint (word_of_nat n :: u32) = int n"
  by (simp add: signed_of_nat signed_take_bit_int_eq_self)

lemma uint_entries [simp]: "n < 2 ^ 31 \<Longrightarrow> uint (word_of_nat n :: u32) = int n"
  by (simp add: unsigned_of_nat take_bit_nat_eq_self)

lemma size_holds: "holds R ns m \<Longrightarrow> wow_slist_size m = int (length ns)"
  by (auto simp: holds_def wow_slist_size_def)

section \<open>Linking and unlinking\<close>

lemma holds_link_after:
  assumes "holds R (xs @ (a, d) # ys) m" and "slist m = Some l" and "heap m new = None"
    and "Suc (length (xs @ (a, d) # ys)) < 2 ^ 31"
    and "h = (heap m)(new \<mapsto> \<lparr>edata = c, enext = None\<rparr>)"
  shows "\<exists>m'. slist_link_after h l a new = Some (WOW_SUCCESS, m') \<and>
    holds R (xs @ (a, d) # (new, c) # ys) m'"
proof -
  let ?ns = "xs @ (a, d) # ys" and ?ns' = "xs @ (a, d) # (new, c) # ys"
  from assms(1,2) have ch: "chain (heap m) (shead l) ?ns None" and ds: "distinct (map fst ?ns)"
    and tl: "stail l = last_addr None ?ns" and en: "entries l = of_nat (length ?ns)"
    and out: "outside (heap m) ?ns = R"
    by (auto simp: holds_def)
  have "new \<notin> fst ` set ?ns" using chain_dom [OF ch] assms(3) by auto
  then have new: "new \<notin> fst ` set ?ns" "new \<noteq> a" "new \<notin> fst ` set xs" "new \<notin> fst ` set ys"
    by auto
  from ch obtain n where pre: "chain (heap m) (shead l) xs (Some a)"
    and ha: "heap m a = Some \<lparr>edata = d, enext = n\<rparr>" and post: "chain (heap m) n ys None"
    by (auto simp: chain_append)
  let ?h = "(heap m)(new \<mapsto> \<lparr>edata = c, enext = n\<rparr>, a \<mapsto> \<lparr>edata = d, enext = Some new\<rparr>)"
  let ?l = "(if n = None then l\<lparr>stail := Some new\<rparr> else l)\<lparr>entries := entries l + 1\<rparr>"
  have a: "a \<notin> fst ` set xs" "a \<notin> fst ` set ys" using ds by auto
  have "slist_link_after h l a new = Some (WOW_SUCCESS, \<lparr>heap = ?h, slist = Some ?l\<rparr>)"
    using new ha by (auto simp: slist_link_after_def set_next_def assms(5))
  moreover have "chain ?h (shead l) ?ns' None"
    using pre post new a by (auto simp: chain_append)
  moreover have "distinct (map fst ?ns')" using ds new by auto
  moreover have "stail ?l = last_addr None ?ns'"
    using tl chain_head [OF post] by (cases ys) auto
  moreover have "outside ?h ?ns' = R"
  proof -
    have "fst ` set ?ns' = insert new (fst ` set ?ns)" by auto
    from outside_insert [where a = new and h = "heap m", OF assms(3) this] out show ?thesis by simp
  qed
  ultimately show ?thesis
    using en assms(4) by (cases n) (simp_all add: holds_def add.commute)
qed

lemma holds_unlink:
  assumes "holds R (xs @ (a, d) # ys) m" and "slist m = Some l"
  shows "\<exists>m'. slist_unlink m l (last_addr None xs) a = Some (WOW_SUCCESS, m') \<and> holds R (xs @ ys) m'"
proof -
  let ?ns = "xs @ (a, d) # ys"
  from assms have ch: "chain (heap m) (shead l) ?ns None" and ds: "distinct (map fst ?ns)"
    and tl: "stail l = last_addr None ?ns" and en: "entries l = of_nat (length ?ns)"
    and lt: "length ?ns < 2 ^ 31" and out: "outside (heap m) ?ns = R"
    by (auto simp: holds_def)
  from ch obtain n where pre: "chain (heap m) (shead l) xs (Some a)"
    and ha: "heap m a = Some \<lparr>edata = d, enext = n\<rparr>" and post: "chain (heap m) n ys None"
    by (auto simp: chain_append)
  have a: "a \<notin> fst ` set xs" "a \<notin> fst ` set ys" using ds by auto
  have tl': "n = None \<longleftrightarrow> ys = []" "ys \<noteq> [] \<Longrightarrow> n \<noteq> None" "\<And>p q. ys \<noteq> [] \<Longrightarrow> last_addr p ys = last_addr q ys"
    using chain_head [OF post] by (auto, cases ys, auto)
  show ?thesis
  proof (cases xs rule: rev_cases)
    case Nil
    have "outside ((heap m)(a := None)) ys = R"
      using out outside_delete [of ?ns a ys "heap m"] Nil by simp
    then show ?thesis
      using Nil pre post ha a ds en lt tl tl'
      by (cases ys) (auto simp: slist_unlink_def free_entry_def holds_def Let_def)
  next
    case (snoc zs b)
    obtain p c where b: "b = (p, c)" by (cases b)
    from pre have pre': "chain (heap m) (shead l) zs (Some p)"
      and hp: "heap m p = Some \<lparr>edata = c, enext = Some a\<rparr>"
      by (auto simp: snoc b chain_append)
    have p: "p \<noteq> a" "p \<notin> fst ` set zs" "p \<notin> fst ` set ys" using ds by (auto simp: snoc b)
    let ?h = "(heap m)(p \<mapsto> \<lparr>edata = c, enext = n\<rparr>, a := None)"
    let ?l = "(if n = None then l\<lparr>stail := Some p\<rparr> else l)\<lparr>entries := entries l - 1\<rparr>"
    have "slist_unlink m l (last_addr None xs) a = Some (WOW_SUCCESS, \<lparr>heap = ?h, slist = Some ?l\<rparr>)"
      using ha hp p by (auto simp: slist_unlink_def set_next_def free_entry_def snoc b)
    moreover have "chain ?h (shead l) (xs @ ys) None"
      using pre' post p a by (auto simp: snoc b chain_append fun_upd_twist)
    moreover have "stail ?l = last_addr None (xs @ ys)"
      using tl tl' by (cases ys) (auto simp: snoc b)
    moreover have "outside ?h (xs @ ys) = R"
    proof -
      have "fst ` set ?ns = insert a (fst ` set (xs @ ys))" by auto
      from outside_delete [where a = a, OF this, of "(heap m)(p \<mapsto> \<lparr>edata = c, enext = n\<rparr>)"] out
      show ?thesis by (simp add: snoc b)
    qed
    ultimately show ?thesis using ds en lt by (cases n) (simp_all add: holds_def)
  qed
qed

section \<open>The operations on a list\<close>

datatype ('d, 'k) slist_op =
    Insert_Head "'d option" | Insert_Tail "'d option" | Insert_At int "'d option"
  | Insert_Match "'d option \<Rightarrow> 'k option \<Rightarrow> bool" "'k option" "'d option"
  | Remove_Head | Remove_Tail | Remove_At int | Remove "'d option"
  | Remove_Match "'d option \<Rightarrow> 'k option \<Rightarrow> bool" "'k option"
  | Replace_Head "'d option" | Replace_Tail "'d option" | Replace_At int "'d option"
  | Replace_Match "'d option \<Rightarrow> 'k option \<Rightarrow> bool" "'k option" "'d option"
  | Clear

fun slist_exec :: "nat option \<Rightarrow> ('d, 'k) slist_op \<Rightarrow> 'd slist_mem \<Rightarrow> (int \<times> 'd slist_mem) option" where
  "slist_exec al (Insert_Head d) m = wow_slist_insert_head al m d"
| "slist_exec al (Insert_Tail d) m = wow_slist_insert_tail al m d"
| "slist_exec al (Insert_At i d) m = wow_slist_insert_by_index al m i d"
| "slist_exec al (Insert_Match f k d) m = wow_slist_insert_by_match al m (Some f) k d"
| "slist_exec al Remove_Head m = wow_slist_remove_head m"
| "slist_exec al Remove_Tail m = wow_slist_remove_tail m"
| "slist_exec al (Remove_At i) m = wow_slist_remove_by_index m i"
| "slist_exec al (Remove d) m = wow_slist_remove m d"
| "slist_exec al (Remove_Match f k) m = wow_slist_remove_by_match m (Some f) k"
| "slist_exec al (Replace_Head d) m = wow_slist_replace_head m d"
| "slist_exec al (Replace_Tail d) m = wow_slist_replace_tail m d"
| "slist_exec al (Replace_At i d) m = wow_slist_replace_by_index m i d"
| "slist_exec al (Replace_Match f k d) m = wow_slist_replace_by_match m (Some f) k d"
| "slist_exec al Clear m = map_option (\<lambda>(r, m, _). (r, m)) (wow_slist_clear m None ())"

text \<open>The same operations on a list of contents. \<open>ok\<close>: memory is available.\<close>

definition list_insert :: "bool \<Rightarrow> int \<Rightarrow> 'd option \<Rightarrow> 'd option list \<Rightarrow> int \<times> 'd option list" where
  "list_insert ok i d xs =
     (if d = None then (- PARAM_INPUT_DATA_IS_NULL, xs)
      else if \<not> ok then (- SYSTEM_MALLOC_FAILED, xs)
      else (0, take (nat i) xs @ d # drop (nat i) xs))"

definition list_remove :: "int \<Rightarrow> 'd option list \<Rightarrow> int \<times> 'd option list" where
  "list_remove i xs =
     (if 0 \<le> i \<and> i < int (length xs) then (0, take (nat i) xs @ drop (Suc (nat i)) xs)
      else (PARAM_INPUT_ARG_INVALID, xs))"

definition list_remove_first :: "('d option \<Rightarrow> bool) \<Rightarrow> 'd option list \<Rightarrow> int \<times> 'd option list" where
  "list_remove_first P xs =
     (case dropWhile (\<lambda>x. \<not> P x) xs of
        [] \<Rightarrow> (-1, xs) | _ # ys \<Rightarrow> (0, takeWhile (\<lambda>x. \<not> P x) xs @ ys))"

definition list_replace :: "int \<Rightarrow> int \<Rightarrow> 'd option \<Rightarrow> 'd option list \<Rightarrow> int \<times> 'd option list" where
  "list_replace err i d xs =
     (if 0 \<le> i \<and> i < int (length xs) then (0, xs[nat i := d]) else (err, xs))"

fun list_exec :: "bool \<Rightarrow> ('d, 'k) slist_op \<Rightarrow> 'd option list \<Rightarrow> int \<times> 'd option list" where
  "list_exec ok (Insert_Head d) xs = list_insert ok 0 d xs"
| "list_exec ok (Insert_Tail d) xs = list_insert ok (int (length xs)) d xs"
| "list_exec ok (Insert_At i d) xs = list_insert ok i d xs"
| "list_exec ok (Insert_Match f k d) xs =
     (if xs = [] then (- SLIST_NO_ENTRY, xs)
      else case dropWhile (\<lambda>x. \<not> f x k) xs of
        [] \<Rightarrow> (- SLIST_NOT_MATCH, xs)
      | x # ys \<Rightarrow> if \<not> ok then (-1, xs) else (0, takeWhile (\<lambda>x. \<not> f x k) xs @ x # d # ys))"
| "list_exec ok Remove_Head xs = list_remove 0 xs"
| "list_exec ok Remove_Tail xs = list_remove (int (length xs) - 1) xs"
| "list_exec ok (Remove_At i) xs = list_remove i xs"
| "list_exec ok (Remove d) xs =
     (if d = None then (PARAM_INPUT_DATA_IS_NULL, xs) else list_remove_first (\<lambda>x. x = d) xs)"
| "list_exec ok (Remove_Match f k) xs =
     (if k = None then (PARAM_INPUT_DATA_IS_NULL, xs) else list_remove_first (\<lambda>x. f x k) xs)"
| "list_exec ok (Replace_Head d) xs = list_replace (- SLIST_NO_ENTRY) 0 d xs"
| "list_exec ok (Replace_Tail d) xs = list_replace (- SLIST_NO_ENTRY) (int (length xs) - 1) d xs"
| "list_exec ok (Replace_At i d) xs = list_replace PARAM_INPUT_ARG_INVALID i d xs"
| "list_exec ok (Replace_Match f k d) xs =
     (if k = None then (PARAM_INPUT_DATA_IS_NULL, xs)
      else (0, map (\<lambda>x. if f x k then d else x) xs))"
| "list_exec ok Clear xs = (0, [])"

section \<open>Each operation refines its list operation\<close>

definition refines :: "'d slist_heap \<Rightarrow> (int \<times> 'd slist_mem) option \<Rightarrow> int \<times> 'd option list \<Rightarrow> bool" where
  "refines R out spec \<longleftrightarrow>
     (\<exists>m ns. out = Some (fst spec, m) \<and> holds R ns m \<and> map snd ns = snd spec)"

lemma refinesI: "out = Some (r, m) \<Longrightarrow> holds R ns m \<Longrightarrow> spec = (r, map snd ns) \<Longrightarrow> refines R out spec"
  by (auto simp: refines_def)

lemma refines_linked:
  assumes "\<exists>m'. out = Some (WOW_SUCCESS, m') \<and> holds R ns m'" and "spec = (0, map snd ns)"
  shows "refines R out spec"
  using assms by (auto simp: refines_def errnos)

text \<open>The new entry at the head, and behind the last one.\<close>

lemma holds_new_head:
  assumes "holds R ns m" and "slist m = Some l" and "heap m new = None" and "Suc (length ns) < 2 ^ 31"
  shows "holds R ((new, d) # ns)
    \<lparr>heap = (heap m)(new \<mapsto> \<lparr>edata = d, enext = shead l\<rparr>),
     slist = Some (l\<lparr>shead := Some new, stail := (if stail l = None then Some new else stail l),
       entries := entries l + 1\<rparr>)\<rparr>"
proof -
  have new: "new \<notin> fst ` set ns" using assms(1,3) chain_dom by (fastforce simp: holds_def)
  have "outside (heap m) ((new, d) # ns) = outside (heap m) ns"
    by (rule outside_insert [where a = new]) (use assms(3) in auto)
  then show ?thesis
    using assms new last_addr_None_iff [of _ "tl ns"]
    by (cases ns) (auto simp: holds_def add.commute simp flip: not_None_eq)
qed

lemma holds_new_tail:
  assumes "holds R (ns @ [(t, e)]) m" and "slist m = Some l" and "heap m new = None"
    and "Suc (Suc (length ns)) < 2 ^ 31"
  shows "holds R (ns @ [(t, e), (new, d)])
    \<lparr>heap = (heap m)(new \<mapsto> \<lparr>edata = d, enext = None\<rparr>, t \<mapsto> \<lparr>edata = e, enext = Some new\<rparr>),
     slist = Some (l\<lparr>stail := Some new, entries := entries l + 1\<rparr>)\<rparr>"
proof -
  have new: "new \<notin> fst ` set (ns @ [(t, e)])" using assms(1,3) chain_dom by (fastforce simp: holds_def)
  have "outside (heap m) (ns @ [(t, e), (new, d)]) = outside (heap m) (ns @ [(t, e)])"
    by (rule outside_insert [where a = new]) (use assms(3) in auto)
  then show ?thesis
    using assms new by (auto simp: holds_def add.commute chain_append)
qed

text \<open>The three ways to cut a chain: at a position, at the first match, at the last entry.\<close>

lemma cut_at:
  assumes "i < length ns"
  obtains xs a d ys where "ns = xs @ (a, d) # ys" and "length xs = i"
  using id_take_nth_drop [OF assms] assms
  by (metis length_take min.absorb4 surj_pair)

lemma cut_first:
  obtains "\<forall>x \<in> snd ` set ns. \<not> P x" "dropWhile (\<lambda>x. \<not> P x) (map snd ns) = []"
  | xs a d ys where "ns = xs @ (a, d) # ys" and "\<forall>x \<in> snd ` set xs. \<not> P x" and "P d"
    and "dropWhile (\<lambda>x. \<not> P x) (map snd ns) = d # map snd ys"
    and "takeWhile (\<lambda>x. \<not> P x) (map snd ns) = map snd xs"
proof (cases "\<forall>x \<in> snd ` set ns. \<not> P x")
  case True
  then show thesis using that(1) by (auto simp: dropWhile_eq_Nil_conv)
next
  case False
  then obtain xs x ys where x: "ns = xs @ x # ys" "P (snd x)" "\<forall>y \<in> set xs. \<not> P (snd y)"
    using split_list_first_prop [of ns "\<lambda>x. P (snd x)"] by auto
  obtain a d where "x = (a, d)" by (cases x)
  then show thesis
    using x that(2) [of xs a d ys]
    by (auto simp: dropWhile_append2 takeWhile_append2 dropWhile_append takeWhile_append)
qed

lemma fresh_not_in_list:
  assumes "holds R ns m" and "heap m a = None"
  shows "a \<notin> fst ` set ns"
  using assms chain_dom by (fastforce simp: holds_def)

lemma insert_by_index_refines:
  assumes "holds R ns m" and "\<forall>a. al = Some a \<longrightarrow> heap m a = None" and "Suc (length ns) < 2 ^ 31"
  shows "refines R (wow_slist_insert_by_index al m i d) (list_insert (al \<noteq> None) i d (map snd ns))"
proof (cases "d = None \<or> al = None")
  case True
  with assms(1) show ?thesis
    unfolding refines_def
    by (intro exI [of _ m] exI [of _ ns])
      (auto simp: wow_slist_insert_by_index_def list_insert_def holds_def)
next
  case False
  then obtain new c where al: "al = Some new" and d: "d = Some c" by auto
  with assms(2) have fresh: "heap m new = None" by simp
  from assms(1) obtain l where l: "slist m = Some l" and ch: "chain (heap m) (shead l) ns None"
    and ds: "distinct (map fst ns)" and tl: "stail l = last_addr None ns"
    and en: "entries l = of_nat (length ns)" and out: "outside (heap m) ns = R"
    by (auto simp: holds_def)
  then have un: "uint (entries l) = int (length ns)" using assms(3) by simp
  have new: "new \<notin> fst ` set ns" using fresh_not_in_list [OF assms(1) fresh] .
  let ?h = "(heap m)(new \<mapsto> \<lparr>edata = d, enext = None\<rparr>)"
  have h: "set_data (calloc_entry (heap m) new) new d = Some ?h"
    by (simp add: slist_cell_defs)
  show ?thesis
  proof (cases "i \<le> 0 \<or> i > int (length ns)")
    case True
    consider "i \<le> 0" | "i > int (length ns)" "ns = []" | zs t e where "i > int (length ns)" "ns = zs @ [(t, e)]"
      using True by (cases ns rule: rev_cases) auto
    then show ?thesis
    proof cases
      case 1
      show ?thesis
        by (rule refinesI [OF _ holds_new_head [OF assms(1) l fresh assms(3), of d]])
          (auto simp: wow_slist_insert_by_index_def l al d h [unfolded d] slist_cell_defs 1
            list_insert_def errnos)
    next
      case 2
      show ?thesis
        using ch tl un 2
        by (intro refinesI [OF _ holds_new_head [OF assms(1) l fresh assms(3), of d]])
          (auto simp: wow_slist_insert_by_index_def l al d h [unfolded d] list_insert_def errnos)
    next
      case 3
      have "heap m t = Some \<lparr>edata = e, enext = None\<rparr>" and "new \<noteq> t" and "shead l \<noteq> None"
        using ch new chain_head [OF ch] by (auto simp: 3 chain_append)
      then show ?thesis
        using assms tl 3 un
        by (intro refinesI [OF _ holds_new_tail [OF _ l fresh, of R zs t e d]])
          (auto simp: wow_slist_insert_by_index_def l al d h [unfolded d] set_next_def
            list_insert_def errnos Let_def)
    qed
  next
    case False
    then have "nat i - 1 < length ns" by auto
    then obtain xs a e ys where ns: "ns = xs @ (a, e) # ys" and len: "length xs = nat i - 1"
      by (rule cut_at)
    have i: "i = int (length xs) + 1" using False len by auto
    have "slist_insert_walk ?h (shead l) i = Some (Some a)"
      unfolding i using ch new by (intro insert_walk_chain [of _ _ _ _ e ys None]) (simp add: ns)
    moreover have "\<exists>m'. slist_link_after ?h l a new = Some (WOW_SUCCESS, m') \<and>
        holds R (xs @ (a, e) # (new, d) # ys) m'"
      using holds_link_after [of R xs a e ys m l new ?h d] assms l fresh by (simp add: ns)
    ultimately show ?thesis
      using False assms(3) by (intro refines_linked)
        (auto simp: wow_slist_insert_by_index_def l al d h [unfolded d] un list_insert_def ns i nat_add_distrib)
  qed
qed

lemma holdsE:
  assumes "holds R ns m"
  obtains l where "slist m = Some l" and "chain (heap m) (shead l) ns None"
    and "stail l = last_addr None ns" and "uint (entries l) = int (length ns)"
    and "sint (entries l) = int (length ns)" and "shead l = None \<longleftrightarrow> ns = []"
  using assms chain_head by (force simp: holds_def)

lemma insert_by_match_refines:
  assumes "holds R ns m" and "\<forall>a. al = Some a \<longrightarrow> heap m a = None" and "Suc (length ns) < 2 ^ 31"
  shows "refines R (wow_slist_insert_by_match al m (Some f) k d)
    (list_exec (al \<noteq> None) (Insert_Match f k d) (map snd ns))"
proof -
  obtain l where l: "slist m = Some l" and ch: "chain (heap m) (shead l) ns None"
    and hd: "shead l = None \<longleftrightarrow> ns = []"
    using assms(1) by (rule holdsE)
  show ?thesis
  proof (cases rule: cut_first [of ns "\<lambda>x. f x k"])
    case 1
    then show ?thesis
      using match_walk_none [OF ch 1(1)] assms(1) hd unfolding refines_def
      by (intro exI [of _ m] exI [of _ ns])
        (auto simp: wow_slist_insert_by_match_def l 1(2) simp del: dropWhile_eq_Nil_conv)
  next
    case (2 xs a e ys)
    note walk = match_walk_found [of "heap m" "shead l" xs a e ys None "\<lambda>x. f x k" None]
    show ?thesis
    proof (cases al)
      case None
      then show ?thesis
        using walk ch assms(1) hd 2 unfolding refines_def
        by (intro exI [of _ m] exI [of _ ns]) (auto simp: wow_slist_insert_by_match_def l)
    next
      case (Some new)
      then have fresh: "heap m new = None" using assms(2) by simp
      have "\<exists>m'. slist_link_after ((heap m)(new \<mapsto> \<lparr>edata = d, enext = None\<rparr>)) l a new =
          Some (WOW_SUCCESS, m') \<and> holds R (xs @ (a, e) # (new, d) # ys) m'"
        using holds_link_after [of R xs a e ys m l new _ d] assms l fresh 2 by simp
      then show ?thesis
        using walk ch hd 2 by (intro refines_linked)
          (auto simp: wow_slist_insert_by_match_def l Some slist_cell_defs)
    qed
  qed
qed

lemma remove_by_index_refines:
  assumes "holds R ns m"
  shows "refines R (wow_slist_remove_by_index m i) (list_remove i (map snd ns))"
proof -
  obtain l where l: "slist m = Some l" and ch: "chain (heap m) (shead l) ns None"
    and un: "uint (entries l) = int (length ns)"
    using assms by (rule holdsE)
  show ?thesis
  proof (cases "0 \<le> i \<and> i < int (length ns)")
    case False
    then show ?thesis
      using assms unfolding refines_def
      by (intro exI [of _ m] exI [of _ ns])
        (auto simp: wow_slist_remove_by_index_def list_remove_def l un)
  next
    case True
    then have "nat i < length ns" by auto
    then obtain xs a d ys where ns: "ns = xs @ (a, d) # ys" and len: "length xs = nat i"
      by (rule cut_at)
    have "slist_index_walk (heap m) None (shead l) i = Some (last_addr None xs, Some a)"
      using index_walk_chain [of "heap m" "shead l" xs a d ys None None] ch True by (simp add: ns len)
    moreover have "\<exists>m'. slist_unlink m l (last_addr None xs) a = Some (WOW_SUCCESS, m') \<and>
        holds R (xs @ ys) m'"
      using holds_unlink [of R xs a d ys m l] assms l by (simp add: ns)
    ultimately show ?thesis
      using True by (intro refines_linked)
        (auto simp: wow_slist_remove_by_index_def list_remove_def l un ns len [symmetric])
  qed
qed

lemma remove_first_refines:
  assumes "holds R ns m" and "slist m = Some l"
  shows "refines R
    (do { (prev, entry) \<leftarrow> slist_match_walk P (heap m) None (shead l);
          case entry of None \<Rightarrow> Some (- WOW_FAILED, m) | Some a \<Rightarrow> slist_unlink m l prev a })
    (list_remove_first P (map snd ns))"
proof -
  from assms have ch: "chain (heap m) (shead l) ns None" by (auto simp: holds_def)
  show ?thesis
  proof (cases rule: cut_first [of ns P])
    case 1
    then show ?thesis
      using match_walk_none [OF ch 1(1)] assms(1) unfolding refines_def
      by (intro exI [of _ m] exI [of _ ns])
        (auto simp: list_remove_first_def errnos 1(2) simp del: dropWhile_eq_Nil_conv)
  next
    case (2 xs a e ys)
    then show ?thesis
      using match_walk_found [of "heap m" "shead l" xs a e ys None P None] ch
        holds_unlink [of R xs a e ys m l] assms
      by (intro refines_linked) (auto simp: list_remove_first_def)
  qed
qed

lemma replace_entry_refines:
  assumes "holds R ns m" and "i < length ns" and "spec = (0, (map snd ns)[i := d])"
  shows "refines R (slist_replace_entry m (fst (ns ! i)) d) spec"
proof -
  obtain xs a e ys where ns: "ns = xs @ (a, e) # ys" and len: "length xs = i"
    using assms(2) by (rule cut_at)
  from assms(1) obtain l n where ch: "chain (heap m) (shead l) xs (Some a)" "chain (heap m) n ys None"
    and l: "slist m = Some l" and ha: "heap m a = Some \<lparr>edata = e, enext = n\<rparr>"
    by (auto simp: holds_def ns chain_append)
  have "holds R (xs @ (a, d) # ys) (m\<lparr>heap := (heap m)(a \<mapsto> \<lparr>edata = d, enext = n\<rparr>)\<rparr>)"
    using assms(1) ch l ha
    by (auto simp: holds_def ns chain_append outside_cong_set [of "xs @ (a, d) # ys" "xs @ (a, e) # ys"])
  then show ?thesis
    by (rule refinesI [rotated])
      (auto simp: slist_replace_entry_def set_data_def ha ns len [symmetric] nth_append list_update_append assms(3) errnos)
qed

lemma replace_by_index_refines:
  assumes "holds R ns m"
  shows "refines R (wow_slist_replace_by_index m i d)
    (list_replace PARAM_INPUT_ARG_INVALID i d (map snd ns))"
proof -
  obtain l where l: "slist m = Some l" and ch: "chain (heap m) (shead l) ns None"
    and un: "uint (entries l) = int (length ns)"
    using assms by (rule holdsE)
  show ?thesis
  proof (cases "0 \<le> i \<and> i < int (length ns)")
    case False
    then show ?thesis
      using assms unfolding refines_def
      by (intro exI [of _ m] exI [of _ ns])
        (auto simp: wow_slist_replace_by_index_def list_replace_def l un)
  next
    case True
    then have i: "nat i < length ns" by auto
    then obtain xs a e ys where ns: "ns = xs @ (a, e) # ys" and len: "length xs = nat i"
      by (rule cut_at)
    have "slist_index_walk (heap m) None (shead l) i = Some (last_addr None xs, Some (fst (ns ! nat i)))"
      using index_walk_chain [of "heap m" "shead l" xs a e ys None None] ch True len
      by (simp add: ns nth_append)
    with replace_entry_refines [OF assms i refl, of d] True show ?thesis
      by (auto simp: wow_slist_replace_by_index_def list_replace_def l un)
  qed
qed

lemma last_addr_nth: "ns \<noteq> [] \<Longrightarrow> last_addr p ns = Some (fst (ns ! (length ns - 1)))"
  by (induction ns arbitrary: p rule: rev_induct) (auto simp: nth_append)

lemma replace_match_refines:
  assumes "holds R ns m" and "slist m = Some l"
  shows "refines R
    (do { h \<leftarrow> slist_replace_walk P d (heap m) (shead l); Some (WOW_SUCCESS, m\<lparr>heap := h\<rparr>) })
    (0, map (\<lambda>x. if P x then d else x) (map snd ns))"
proof -
  from assms have ch: "chain (heap m) (shead l) ns None" and ds: "distinct (map fst ns)"
    by (auto simp: holds_def)
  let ?ns = "map (\<lambda>(a, x). (a, if P x then d else x)) ns"
  have addrs: "map fst ?ns = map fst ns" and last: "last_addr None ?ns = last_addr None ns"
    by (auto simp: last_addr_nth split_beta nth_append) (cases "ns = []"; simp add: last_addr_nth split_beta)
  from addrs have set: "fst ` set ?ns = fst ` set ns" by (metis set_map)
  from replace_walk_chain [OF ch ds, of P d] obtain h where
    "slist_replace_walk P d (heap m) (shead l) = Some h" "chain h (shead l) ?ns None"
    "outside h ns = outside (heap m) ns" by blast
  moreover from this have "holds R ?ns (m\<lparr>heap := h\<rparr>)"
    using assms addrs last outside_cong_set [OF set, of h] ds
    by (auto simp: holds_def simp del: map_map)
  ultimately show ?thesis
    by (intro refinesI [where m = "m\<lparr>heap := h\<rparr>" and ns = ?ns]) (auto simp: errnos split_beta)
qed

lemma clear_refines:
  assumes "holds R ns m"
  shows "wow_slist_clear m fD s = Some (0, \<lparr>heap = R, slist = Some \<lparr>shead = None, stail = None, entries = 0\<rparr>\<rparr>,
    case fD of None \<Rightarrow> s | Some f \<Rightarrow> fold f (map snd ns) s)"
proof -
  obtain l where l: "slist m = Some l" and ch: "chain (heap m) (shead l) ns None"
    and hd: "shead l = None \<longleftrightarrow> ns = []" and tl: "stail l = last_addr None ns"
    using assms by (rule holdsE)
  from assms have ds: "distinct (map fst ns)" and out: "outside (heap m) ns = R" by (auto simp: holds_def)
  show ?thesis
  proof (cases "ns = []")
    case True
    then show ?thesis
      using assms l hd by (cases m) (auto simp: wow_slist_clear_def holds_def outside_def split: option.splits)
  next
    case False
    then show ?thesis
      using clear_walk_chain [OF ch ds, of fD s] hd
      by (auto simp: wow_slist_clear_def l out errnos)
  qed
qed

lemma nat_pred: "nat (int n - 1) = n - 1"
  by linarith

lemma slist_exec_refines:
  assumes "holds R ns m" and "\<forall>a. al = Some a \<longrightarrow> heap m a = None" and "Suc (length ns) < 2 ^ 31"
  shows "refines R (slist_exec al op m) (list_exec (al \<noteq> None) op (map snd ns))"
proof -
  obtain l where l: "slist m = Some l" and tl: "stail l = last_addr None ns"
    and hd: "shead l = None \<longleftrightarrow> ns = []" and ch: "chain (heap m) (shead l) ns None"
    using assms(1) by (rule holdsE)
  have self: "refines R (Some (r, m)) (r, map snd ns)" for r
    using assms(1) by (auto simp: refines_def)
  have insert: "refines R (wow_slist_insert_by_index al m i d) (list_insert (al \<noteq> None) i d (map snd ns))" for i d
    using assms by (rule insert_by_index_refines)
  have rep_head: "refines R (wow_slist_replace_head m d) (list_replace (- SLIST_NO_ENTRY) 0 d (map snd ns))" for d
  proof (cases ns)
    case Nil
    then show ?thesis using hd self by (simp add: wow_slist_replace_head_def list_replace_def l)
  next
    case (Cons n ns')
    have "shead l = Some (fst (ns ! 0))" using ch by (cases n) (simp add: Cons)
    with replace_entry_refines [OF assms(1), of 0 _ d] Cons show ?thesis
      by (simp add: wow_slist_replace_head_def list_replace_def l)
  qed
  have rep_tail: "refines R (wow_slist_replace_tail m d)
      (list_replace (- SLIST_NO_ENTRY) (int (length (map snd ns)) - 1) d (map snd ns))" for d
  proof (cases "ns = []")
    case True
    then show ?thesis using tl self by (simp add: wow_slist_replace_tail_def list_replace_def l)
  next
    case False
    with replace_entry_refines [OF assms(1), of "length ns - 1" _ d] show ?thesis
      by (simp add: wow_slist_replace_tail_def list_replace_def l tl last_addr_nth nat_pred)
  qed
  show ?thesis
  proof (cases op)
    case (Insert_Match f k d)
    then show ?thesis using insert_by_match_refines [OF assms] by (simp only: slist_exec.simps(4))
  next
    case (Remove d)
    then show ?thesis
      using remove_first_refines [OF assms(1) l, of "\<lambda>x. x = d"] self
      by (auto simp: wow_slist_remove_def l)
  next
    case (Remove_Match f k)
    then show ?thesis
      using remove_first_refines [OF assms(1) l, of "\<lambda>x. f x k"] self
      by (auto simp: wow_slist_remove_by_match_def l)
  next
    case (Replace_Match f k d)
    then show ?thesis
      using replace_match_refines [OF assms(1) l, of "\<lambda>x. f x k" d] self
      by (auto simp: wow_slist_replace_by_match_def l)
  next
    case Clear
    have "holds R [] \<lparr>heap = R, slist = Some \<lparr>shead = None, stail = None, entries = 0\<rparr>\<rparr>"
      by (simp add: holds_def)
    then show ?thesis
      using clear_refines [OF assms(1), of None "()"] Clear by (auto simp: refines_def)
  qed (use insert rep_head rep_tail remove_by_index_refines [OF assms(1)]
      replace_by_index_refines [OF assms(1)] size_holds [OF assms(1)] in
      \<open>auto simp: wow_slist_insert_head_def wow_slist_insert_tail_def wow_slist_remove_head_def
         wow_slist_remove_tail_def\<close>)
qed

section \<open>Reading a list\<close>

lemma peek_by_index_holds:
  assumes "holds R ns m"
  shows "wow_slist_peek_by_index m i =
    Some (if 0 \<le> i \<and> i < int (length ns) then map snd ns ! nat i else None)"
proof -
  obtain l where l: "slist m = Some l" and ch: "chain (heap m) (shead l) ns None"
    and un: "uint (entries l) = int (length ns)"
    using assms by (rule holdsE)
  show ?thesis
  proof (cases "0 \<le> i \<and> i < int (length ns)")
    case True
    then have "nat i < length ns" by auto
    then obtain xs a d ys where ns: "ns = xs @ (a, d) # ys" and len: "length xs = nat i"
      by (rule cut_at)
    have "slist_index_walk (heap m) None (shead l) i = Some (last_addr None xs, Some a)"
      using index_walk_chain [of "heap m" "shead l" xs a d ys None None] ch True len by (simp add: ns)
    moreover have "map_option edata (heap m a) = Some d"
      using ch by (auto simp: ns chain_append)
    ultimately show ?thesis
      using True len un by (simp add: wow_slist_peek_by_index_def l ns nth_append)
  qed (auto simp: wow_slist_peek_by_index_def l un)
qed

lemma peek_by_match_holds:
  assumes "holds R ns m"
  shows "wow_slist_peek_by_match m (Some f) k =
    Some (case List.find (\<lambda>x. f x k) (map snd ns) of None \<Rightarrow> None | Some x \<Rightarrow> x)"
proof -
  obtain l where l: "slist m = Some l" and ch: "chain (heap m) (shead l) ns None"
    using assms by (rule holdsE)
  show ?thesis
  proof (cases rule: cut_first [of ns "\<lambda>x. f x k"])
    case 1
    then have "List.find (\<lambda>x. f x k) (map snd ns) = None" by (auto simp: find_None_iff)
    then show ?thesis
      using match_walk_none [OF ch 1(1)] by (simp add: wow_slist_peek_by_match_def l)
  next
    case (2 xs a d ys)
    have "map_option edata (heap m a) = Some d" using ch by (auto simp: 2 chain_append)
    moreover have "List.find (\<lambda>x. f x k) (map snd ns) = Some d"
      using 2 by (simp add: find_dropWhile comp_def)
    ultimately show ?thesis
      using match_walk_found [of "heap m" "shead l" xs a d ys None "\<lambda>x. f x k" None] ch 2
      by (simp add: wow_slist_peek_by_match_def l)
  qed
qed

lemma peek_ends_hold:
  assumes "holds R ns m"
  shows "wow_slist_peek_head m = Some (if ns = [] then None else hd (map snd ns))"
    and "wow_slist_peek_tail m = Some (if ns = [] then None else last (map snd ns))"
proof -
  obtain l where l: "slist m = Some l" and ch: "chain (heap m) (shead l) ns None"
    and tl: "stail l = last_addr None ns" and hd: "shead l = None \<longleftrightarrow> ns = []"
    using assms by (rule holdsE)
  show "wow_slist_peek_head m = Some (if ns = [] then None else hd (map snd ns))"
    using ch by (cases ns) (auto simp: wow_slist_peek_head_def l)
  show "wow_slist_peek_tail m = Some (if ns = [] then None else last (map snd ns))"
    using ch tl hd by (cases ns rule: rev_cases) (auto simp: wow_slist_peek_tail_def l chain_append)
qed

text \<open>What the station of \<open>wow_iec104s.c\<close> relies on: a counted list read by index. The loop
  \<open>for (i = 0; i < size(l); i++) visit(peek_by_index(l, i))\<close> visits the contents in order.\<close>

locale indexed_list =
  fixes content :: "'m \<Rightarrow> 'c list \<Rightarrow> bool"
    and size :: "'m \<Rightarrow> int"
    and peek :: "'m \<Rightarrow> int \<Rightarrow> 'c option"
  assumes size_content: "content m xs \<Longrightarrow> size m = int (length xs)"
    and peek_content: "content m xs \<Longrightarrow> i < length xs \<Longrightarrow> peek m (int i) = Some (xs ! i)"
begin

fun scan :: "'m \<Rightarrow> ('c \<Rightarrow> 's \<Rightarrow> 's) \<Rightarrow> nat \<Rightarrow> nat \<Rightarrow> 's \<Rightarrow> 's option" where
  "scan m visit i n s =
     (case n of
        0 \<Rightarrow> Some s
      | Suc k \<Rightarrow> do { c \<leftarrow> peek m (int i); scan m visit (Suc i) k (visit c s) })"

lemma scan_from:
  assumes "content m xs" and "i + n = length xs"
  shows "scan m visit i n s = Some (fold visit (drop i xs) s)"
  using assms(2)
proof (induction n arbitrary: i s)
  case 0
  then show ?case by simp
next
  case (Suc n)
  then have "i < length xs" by simp
  then have "drop i xs = xs ! i # drop (Suc i) xs" by (simp add: Cons_nth_drop_Suc)
  with Suc peek_content [OF assms(1)] show ?case by simp
qed

lemma scan_all:
  assumes "content m xs"
  shows "scan m visit 0 (nat (size m)) s = Some (fold visit xs s)"
  using scan_from [OF assms, of 0 "length xs"] size_content [OF assms] by simp

end

definition slist_content :: "'d slist_mem \<Rightarrow> 'd option list \<Rightarrow> bool" where
  "slist_content m xs \<longleftrightarrow> (\<exists>R ns. holds R ns m \<and> map snd ns = xs)"

interpretation indexed: indexed_list slist_content wow_slist_size wow_slist_peek_by_index
  by unfold_locales (auto simp: slist_content_def size_holds peek_by_index_holds)

section \<open>Histories of operations\<close>

text \<open>Each step carries whether memory is available; \<open>fresh\<close> chooses the address.\<close>

fun slist_run :: "('d slist_heap \<Rightarrow> nat) \<Rightarrow> (bool \<times> ('d, 'k) slist_op) list \<Rightarrow> 'd slist_mem \<Rightarrow>
    (int list \<times> 'd slist_mem) option" where
  "slist_run fresh [] m = Some ([], m)"
| "slist_run fresh ((ok, op) # ops) m = do {
     (r, m) \<leftarrow> slist_exec (if ok then Some (fresh (heap m)) else None) op m;
     (rs, m) \<leftarrow> slist_run fresh ops m;
     Some (r # rs, m) }"

fun list_run :: "(bool \<times> ('d, 'k) slist_op) list \<Rightarrow> 'd option list \<Rightarrow> int list \<times> 'd option list" where
  "list_run [] xs = ([], xs)"
| "list_run ((ok, op) # ops) xs =
     (let (r, xs) = list_exec ok op xs; (rs, xs) = list_run ops xs in (r # rs, xs))"

lemma finite_heap: "holds R ns m \<Longrightarrow> finite (dom R) \<Longrightarrow> finite (dom (heap m))"
proof -
  assume h: "holds R ns m" and R: "finite (dom R)"
  have "dom (heap m) \<subseteq> dom R \<union> fst ` set ns"
    using h by (auto simp: holds_def outside_def restrict_map_def split: if_splits)
  with R show "finite (dom (heap m))" by (meson finite_Un finite_imageI finite_set finite_subset)
qed

lemma cut_length: "dropWhile P xs = y # ys \<Longrightarrow> Suc (length (takeWhile P xs) + length ys) = length xs"
  by (metis add_Suc_right length_Cons length_append takeWhile_dropWhile_id)

lemma length_list_exec: "length (snd (list_exec ok op xs)) \<le> Suc (length xs)"
proof -
  have first: "length (snd (list_remove_first P xs)) \<le> length xs" for P
    by (auto simp: list_remove_first_def split: list.splits dest: cut_length)
  have ins: "length (snd (list_insert ok i d xs)) \<le> Suc (length xs)" for i d
    by (auto simp: list_insert_def)
  show ?thesis
  proof (cases op)
    case (Insert_Match f k d)
    then show ?thesis by (auto split: list.splits dest: cut_length)
  qed (use first ins in \<open>auto simp: list_remove_def list_replace_def le_SucI\<close>)
qed

lemma slist_run_refines:
  assumes "\<forall>h. finite (dom h) \<longrightarrow> h (fresh h) = None" and "finite (dom R)"
    and "holds R ns m" and "length ns + length ops < 2 ^ 31"
  shows "\<exists>m' ns'. slist_run fresh ops m = Some (fst (list_run ops (map snd ns)), m') \<and>
    holds R ns' m' \<and> map snd ns' = snd (list_run ops (map snd ns))"
  using assms(3,4)
proof (induction ops arbitrary: m ns)
  case Nil
  then show ?case by auto
next
  case (Cons x ops)
  obtain ok op where x: "x = (ok, op)" by (cases x)
  let ?al = "if ok then Some (fresh (heap m)) else None"
  have al: "\<forall>a. ?al = Some a \<longrightarrow> heap m a = None"
    using assms(1) finite_heap [OF Cons.prems(1) assms(2)] by simp
  have ok: "(?al \<noteq> None) = ok" by simp
  have "refines R (slist_exec ?al op m) (list_exec ok op (map snd ns))"
    using slist_exec_refines [OF Cons.prems(1) al, of op] Cons.prems(2) unfolding ok by simp
  then obtain m1 ns1 where 1: "slist_exec ?al op m = Some (fst (list_exec ok op (map snd ns)), m1)"
    "holds R ns1 m1" "map snd ns1 = snd (list_exec ok op (map snd ns))"
    by (auto simp: refines_def)
  have "length ns1 \<le> Suc (length ns)"
    using length_list_exec [of ok op "map snd ns"] 1(3) by (metis length_map)
  then have "length ns1 + length ops < 2 ^ 31" using Cons.prems(2) by simp
  from Cons.IH [OF 1(2) this] 1 show ?case
    by (auto simp: x split_beta Let_def)
qed

text \<open>C19. A list created in any heap behaves, over every history of insertions, removals,
  replacements and clearings, with memory available or not, as the same history on a plain list:
  the same return codes, and then the same size, the same contents at every index, at both ends,
  by match and in the order of a traversal. Every call returns and follows no bad pointer.
  Destroying the list hands each content to the destructor, in order, and leaves the heap exactly
  as it was before the creation: nothing leaked, nothing else touched.\<close>

theorem slist_refines_list:
  assumes "\<forall>h. finite (dom h) \<longrightarrow> h (fresh h) = None" and "finite (dom R)"
    and "length ops < 2 ^ 31" and "list_run ops [] = (rs, xs)"
  shows "\<exists>m. slist_run fresh ops (wow_slist_create True R) = Some (rs, m) \<and>
    wow_slist_size m = int (length xs) \<and>
    (\<forall>i. wow_slist_peek_by_index m i =
       Some (if 0 \<le> i \<and> i < int (length xs) then xs ! nat i else None)) \<and>
    wow_slist_peek_head m = Some (if xs = [] then None else hd xs) \<and>
    wow_slist_peek_tail m = Some (if xs = [] then None else last xs) \<and>
    (\<forall>f k. wow_slist_peek_by_match m (Some f) k =
       Some (case List.find (\<lambda>x. f x k) xs of None \<Rightarrow> None | Some x \<Rightarrow> x)) \<and>
    (\<forall>visit s. wow_slist_foreach m (Some visit) s = Some (0, fold visit xs s)) \<and>
    (\<forall>free s. wow_slist_destroy m (Some free) s = Some (\<lparr>heap = R, slist = None\<rparr>, fold free xs s))"
proof -
  have "holds R [] (wow_slist_create True R)"
    by (simp add: holds_def wow_slist_create_def)
  from slist_run_refines [OF assms(1,2) this, of ops] assms(3,4)
  obtain m ns where m: "slist_run fresh ops (wow_slist_create True R) = Some (rs, m)"
    and h: "holds R ns m" and xs: "map snd ns = xs" by auto
  have "ns = [] \<longleftrightarrow> xs = []" using xs by auto
  moreover obtain l where "slist m = Some l" and "chain (heap m) (shead l) ns None"
    using h by (rule holdsE)
  ultimately show ?thesis
    using m xs
    by (auto simp: size_holds [OF h] peek_by_index_holds [OF h] peek_by_match_holds [OF h]
        peek_ends_hold [OF h] clear_refines [OF h] foreach_walk_chain
        wow_slist_foreach_def wow_slist_destroy_def WOW_SUCCESS_def simp flip: length_map [of snd])
qed

definition demo_fresh :: "'d slist_heap \<Rightarrow> nat" where
  "demo_fresh h = Suc (Max (insert 0 (dom h)))"

lemma demo_fresh: "finite (dom h) \<Longrightarrow> h (demo_fresh h) = None"
  by (metis Max_ge demo_fresh_def domIff finite_insert insert_iff not_less_eq_eq order_refl)

definition demo_history :: "(bool \<times> (int, unit) slist_op) list" where
  "demo_history =
     [(True, Insert_Tail (Some 1)), (True, Insert_Head (Some 2)), (False, Insert_Tail (Some 3)),
      (True, Insert_At 1 (Some 4)), (True, Insert_Match (\<lambda>d k. d = Some 1) None None),
      (True, Remove_At 0), (True, Replace_Tail (Some 9)), (True, Remove (Some 7))]"

lemma slist_refines_list_witness:
  "\<exists>m. slist_run demo_fresh demo_history (wow_slist_create True [7 \<mapsto> \<lparr>edata = None, enext = Some 8\<rparr>]) =
     Some ([0, 0, -200, 0, 0, 0, 0, -1], m) \<and>
     wow_slist_size m = 3 \<and> wow_slist_peek_by_index m 1 = Some (Some 1) \<and>
     wow_slist_destroy m (Some (#)) [] =
       Some (\<lparr>heap = [7 \<mapsto> \<lparr>edata = None, enext = Some 8\<rparr>], slist = None\<rparr>, [Some 9, Some 1, Some 4])"
proof -
  have "list_run demo_history [] = ([0, 0, -200, 0, 0, 0, 0, -1], [Some 4, Some 1, Some 9])"
    by (simp add: demo_history_def list_insert_def list_remove_def list_replace_def
      list_remove_first_def errnos numeral_2_eq_2)
  from slist_refines_list [of demo_fresh "[7 \<mapsto> \<lparr>edata = None, enext = Some 8\<rparr>]", OF _ _ _ this]
  show ?thesis by (force simp: demo_fresh demo_history_def)
qed

end
