(* ===== verification/RingBuff.thy ===== *)
theory RingBuff
  imports SizeT Errno
begin

text \<open>
  The ring buffer of \<open>wow_ring_buff.c\<close>. The buffer is checked memory; \<open>start\<close> and \<open>end\<close> are
  \<open>size_t\<close>, \<open>length\<close> is an \<open>int\<close>, and the conversions between them are the ones C inserts.
  A null pointer argument is \<open>None\<close>. The structure behaves as a bounded queue of bytes that holds
  one byte less than its size.
\<close>

section \<open>The operations\<close>

record RingBuffer_T =
  rb_buffer :: bytes
  rb_length :: int
  rb_start :: size_t
  rb_end :: size_t

text \<open>Both allocations may fail. The buffer is cleared before its pointer is tested: clearing a null
  pointer is undefined. Inside: \<open>None\<close> is a null result.\<close>

definition wow_ringbuf_create :: "bool \<Rightarrow> bool \<Rightarrow> size_t \<Rightarrow> RingBuffer_T option option" where
  "wow_ringbuf_create calloc_ok malloc_ok snSize =
     (if \<not> calloc_ok then Some None
      else if \<not> malloc_ok then None
      else Some (Some \<lparr>rb_buffer = replicate (unat snSize) 0, rb_length = int_of_size snSize,
                       rb_start = 0, rb_end = 0\<rparr>))"

definition wow_ringbuf_destroy :: "RingBuffer_T option \<Rightarrow> RingBuffer_T option" where
  "wow_ringbuf_destroy pptRbuf = None"

definition wow_ringbuf_getFree :: "RingBuffer_T option \<Rightarrow> int" where
  "wow_ringbuf_getFree ptRbuf =
     (case ptRbuf of
        None \<Rightarrow> - PARAM_INPUT_STRUCT_IS_NULL
      | Some r \<Rightarrow>
          if rb_end r \<ge> rb_start r
          then int_of_size (size_of_int (rb_length r) - (rb_end r - rb_start r))
          else int_of_size (rb_start r - rb_end r))"

definition wow_ringbuf_getUsed :: "RingBuffer_T option \<Rightarrow> int" where
  "wow_ringbuf_getUsed ptRbuf =
     (case ptRbuf of
        None \<Rightarrow> - PARAM_INPUT_STRUCT_IS_NULL
      | Some r \<Rightarrow>
          if rb_end r \<ge> rb_start r
          then int_of_size (rb_end r - rb_start r)
          else int_of_size (size_of_int (rb_length r) - (rb_start r - rb_end r)))"

text \<open>\<open>memcpy\<close> of \<open>n\<close> bytes of \<open>src\<close> from \<open>off\<close> into the buffer at \<open>end\<close>, and the step of \<open>end\<close>.\<close>

definition ringbuf_put :: "RingBuffer_T \<Rightarrow> bytes \<Rightarrow> nat \<Rightarrow> size_t \<Rightarrow> RingBuffer_T option" where
  "ringbuf_put r src off n = do {
     xs \<leftarrow> rdn src off (unat n);
     buf \<leftarrow> wrn (rb_buffer r) (unat (rb_end r)) xs;
     e \<leftarrow> size_mod (rb_end r + n) (size_of_int (rb_length r));
     Some (r\<lparr>rb_buffer := buf, rb_end := e\<rparr>) }"

definition wow_ringbuf_write ::
  "RingBuffer_T option \<Rightarrow> bytes option \<Rightarrow> size_t \<Rightarrow> (int \<times> RingBuffer_T option) option" where
  "wow_ringbuf_write ptRbuf pdata snSize =
     (case ptRbuf of
        None \<Rightarrow> Some (- PARAM_INPUT_STRUCT_IS_NULL, ptRbuf)
      | Some r \<Rightarrow> (case pdata of
          None \<Rightarrow> Some (- PARAM_INPUT_DATA_IS_NULL, ptRbuf)
        | Some src \<Rightarrow>
            if \<not> snSize > 0 then Some (- PARAM_INPUT_ARG_INVALID, ptRbuf)
            else
              (let left = size_of_int (wow_ringbuf_getFree ptRbuf) in
               if \<not> left > snSize then Some (- RING_BUFFER_NO_SPACE, ptRbuf)
               else if size_of_int (rb_length r) - rb_end r < snSize then do {
                 let half_tail = int_of_size (size_of_int (rb_length r) - rb_end r);
                 r \<leftarrow> ringbuf_put r src 0 (size_of_int half_tail);
                 let half_head = int_of_size (snSize - size_of_int half_tail);
                 r \<leftarrow> ringbuf_put r src (nat half_tail) (size_of_int half_head);
                 Some (int_of_size snSize, Some r) }
               else do {
                 r \<leftarrow> ringbuf_put r src 0 snSize;
                 Some (int_of_size snSize, Some r) })))"

definition ringbuf_get :: "RingBuffer_T \<Rightarrow> bytes \<Rightarrow> nat \<Rightarrow> size_t \<Rightarrow> (bytes \<times> RingBuffer_T) option" where
  "ringbuf_get r dst off n = do {
     xs \<leftarrow> rdn (rb_buffer r) (unat (rb_start r)) (unat n);
     dst \<leftarrow> wrn dst off xs;
     s \<leftarrow> size_mod (rb_start r + n) (size_of_int (rb_length r));
     Some (dst, r\<lparr>rb_start := s\<rparr>) }"

text \<open>The destination buffer of the caller is an argument and a result.\<close>

definition wow_ringbuf_read ::
  "RingBuffer_T option \<Rightarrow> bytes option \<Rightarrow> size_t \<Rightarrow> (int \<times> bytes option \<times> RingBuffer_T option) option" where
  "wow_ringbuf_read ptRbuf pdata snSize =
     (case ptRbuf of
        None \<Rightarrow> Some (- PARAM_INPUT_STRUCT_IS_NULL, pdata, ptRbuf)
      | Some r \<Rightarrow> (case pdata of
          None \<Rightarrow> Some (- PARAM_INPUT_DATA_IS_NULL, pdata, ptRbuf)
        | Some dst \<Rightarrow>
            if \<not> snSize > 0 then Some (- PARAM_INPUT_ARG_INVALID, pdata, ptRbuf)
            else do {
              let used = size_of_int (wow_ringbuf_getUsed ptRbuf);
              let rlen = (if snSize < used then snSize else used);
              (dst, r) \<leftarrow>
                (if size_of_int (rb_length r) - rb_start r < rlen then do {
                   let half_tail = int_of_size (size_of_int (rb_length r) - rb_start r);
                   (dst, r) \<leftarrow> ringbuf_get r dst 0 (size_of_int half_tail);
                   let half_head = int_of_size (rlen - size_of_int half_tail);
                   ringbuf_get r dst (nat half_tail) (size_of_int half_head) }
                 else ringbuf_get r dst 0 rlen);
              let r = (if rb_start r = rb_end r \<or> wow_ringbuf_getUsed (Some r) = 0
                       then r\<lparr>rb_start := 0, rb_end := 0\<rparr> else r);
              Some (int_of_size rlen, Some dst, Some r) }))"

definition wow_ringbuf_clear :: "RingBuffer_T option \<Rightarrow> RingBuffer_T option" where
  "wow_ringbuf_clear ptRbuf =
     (case ptRbuf of None \<Rightarrow> None | Some r \<Rightarrow> Some (r\<lparr>rb_start := 0, rb_end := 0\<rparr>))"

section \<open>Abstraction\<close>

text \<open>\<open>ring s e buf\<close>: the bytes from position \<open>s\<close> up to \<open>e\<close>, around the end of the buffer.\<close>

definition ring :: "nat \<Rightarrow> nat \<Rightarrow> 'a list \<Rightarrow> 'a list" where
  "ring s e buf = (if s \<le> e then take (e - s) (drop s buf) else drop s buf @ take e buf)"

definition queued :: "nat \<Rightarrow> RingBuffer_T \<Rightarrow> bytes \<Rightarrow> bool" where
  "queued n r xs \<longleftrightarrow>
     0 < n \<and> n < 2 ^ 31 \<and> length (rb_buffer r) = n \<and> rb_length r = int n \<and>
     unat (rb_start r) < n \<and> unat (rb_end r) < n \<and>
     ring (unat (rb_start r)) (unat (rb_end r)) (rb_buffer r) = xs"

lemma length_ring:
  "s < n \<Longrightarrow> e < n \<Longrightarrow> length buf = n \<Longrightarrow>
   length (ring s e buf) = (if s \<le> e then e - s else n - (s - e))"
  by (auto simp: ring_def)

lemma queued_used:
  assumes "queued n r xs"
  shows "wow_ringbuf_getUsed (Some r) = int (length xs)" and "length xs < n"
  using assms length_ring [of "unat (rb_start r)" n "unat (rb_end r)" "rb_buffer r"]
  by (auto simp: queued_def wow_ringbuf_getUsed_def word_le_nat_alt size_simps)

lemma queued_free:
  assumes "queued n r xs"
  shows "wow_ringbuf_getFree (Some r) = int (n - length xs)"
  using assms length_ring [of "unat (rb_start r)" n "unat (rb_end r)" "rb_buffer r"]
  by (auto simp: queued_def wow_ringbuf_getFree_def word_le_nat_alt size_simps)

text \<open>Storing one run of bytes that does not cross the end of the buffer extends the ring.\<close>

lemma ring_store:
  assumes "s < n" "e < n" "length buf = n" "e + length xs \<le> n"
    and "length (ring s e buf) + length xs < n"
  shows "ring s ((e + length xs) mod n) (take e buf @ xs @ drop (e + length xs) buf) = ring s e buf @ xs"
proof (cases "e + length xs = n")
  case True
  with assms have "s \<le> e \<Longrightarrow> 0 < s" by (auto simp: ring_def)
  with True assms show ?thesis by (cases "s \<le> e") (auto simp: ring_def drop_take)
next
  case False
  with assms have m: "(e + length xs) mod n = e + length xs" by simp
  show ?thesis
  proof (cases "s \<le> e")
    case True
    then show ?thesis using assms m by (auto simp: ring_def drop_take)
  next
    case False
    with assms have "e + length xs < s" by (auto simp: ring_def)
    with False assms m show ?thesis by (auto simp: ring_def min_def)
  qed
qed

lemma ring_fetch:
  assumes "s < n" "e < n" "length buf = n" "s + k \<le> n" "k \<le> length (ring s e buf)"
  shows "ring ((s + k) mod n) e buf = drop k (ring s e buf)"
    and "take k (drop s buf) = take k (ring s e buf)"
proof -
  show "take k (drop s buf) = take k (ring s e buf)"
    using assms by (auto simp: ring_def min_def split: if_splits)
  show "ring ((s + k) mod n) e buf = drop k (ring s e buf)"
  proof (cases "s + k = n")
    case True
    with assms show ?thesis by (auto simp: ring_def)
  next
    case False
    with assms have "(s + k) mod n = s + k" by simp
    with assms show ?thesis by (auto simp: ring_def drop_take add.commute)
  qed
qed

lemma size_of_nat_sum: "word_of_nat (unat a + m) = a + (word_of_nat m :: size_t)"
  by simp

lemma put_queued:
  assumes "queued n r xs" and "off + m \<le> length src" and "unat (rb_end r) + m \<le> n"
    and "length xs + m < n"
  shows "\<exists>r'. ringbuf_put r src off (word_of_nat m) = Some r' \<and>
    queued n r' (xs @ take m (drop off src)) \<and> unat (rb_end r') = (unat (rb_end r) + m) mod n \<and>
    rb_length r' = int n"
proof -
  let ?e = "unat (rb_end r)" and ?ys = "take m (drop off src)"
  let ?buf = "take ?e (rb_buffer r) @ ?ys @ drop (?e + m) (rb_buffer r)"
  have m: "unat (word_of_nat m :: size_t) = m" and n: "unat (word_of_nat n :: size_t) = n"
    and le: "length ?ys = m"
    using assms by (auto simp: queued_def unat_size_of_nat)
  have e: "unat (rb_end r + word_of_nat m) = ?e + m"
    using assms m by (auto simp: queued_def unat_size_add)
  have mod: "size_mod (rb_end r + word_of_nat m) (size_of_int (rb_length r)) =
      Some (word_of_nat ((?e + m) mod n))"
    using assms n e by (auto simp: queued_def size_of_int_nat size_mod_small)
  have em: "unat (word_of_nat ((?e + m) mod n) :: size_t) = (?e + m) mod n"
    using assms by (intro unat_size_mod) (auto simp: queued_def)
  have "ringbuf_put r src off (word_of_nat m) =
      Some (r\<lparr>rb_buffer := ?buf, rb_end := word_of_nat ((?e + m) mod n)\<rparr>)"
    using assms m le mod by (simp add: ringbuf_put_def queued_def rdn_in wrn_in)
  moreover have "queued n (r\<lparr>rb_buffer := ?buf, rb_end := word_of_nat ((?e + m) mod n)\<rparr>) (xs @ ?ys)"
    using assms em le ring_store [of "unat (rb_start r)" n ?e "rb_buffer r" ?ys]
    by (auto simp: queued_def)
  ultimately show ?thesis using em assms by (auto simp: queued_def)
qed

lemma get_queued:
  assumes "queued n r xs" and "off + m \<le> length dst" and "unat (rb_start r) + m \<le> n"
    and "m \<le> length xs"
  shows "\<exists>r'. ringbuf_get r dst off (word_of_nat m) =
      Some (take off dst @ take m xs @ drop (off + m) dst, r') \<and>
    queued n r' (drop m xs) \<and> unat (rb_start r') = (unat (rb_start r) + m) mod n \<and>
    rb_length r' = int n"
proof -
  let ?s = "unat (rb_start r)"
  have m: "unat (word_of_nat m :: size_t) = m" and n: "unat (word_of_nat n :: size_t) = n"
    using assms by (auto simp: queued_def unat_size_of_nat)
  have e: "unat (rb_start r + word_of_nat m) = ?s + m"
    using assms m by (auto simp: queued_def unat_size_add)
  have mod: "size_mod (rb_start r + word_of_nat m) (size_of_int (rb_length r)) =
      Some (word_of_nat ((?s + m) mod n))"
    using assms n e by (auto simp: queued_def size_of_int_nat size_mod_small)
  have em: "unat (word_of_nat ((?s + m) mod n) :: size_t) = (?s + m) mod n"
    using assms by (intro unat_size_mod) (auto simp: queued_def)
  have fetch: "ring ((?s + m) mod n) (unat (rb_end r)) (rb_buffer r) = drop m xs"
    "take m (drop ?s (rb_buffer r)) = take m xs"
    using assms ring_fetch [of ?s n "unat (rb_end r)" "rb_buffer r" m] by (auto simp: queued_def)
  have "ringbuf_get r dst off (word_of_nat m) =
      Some (take off dst @ take m xs @ drop (off + m) dst, r\<lparr>rb_start := word_of_nat ((?s + m) mod n)\<rparr>)"
    using assms m mod fetch(2) by (simp add: ringbuf_get_def queued_def rdn_in wrn_in min_def)
  moreover have "queued n (r\<lparr>rb_start := word_of_nat ((?s + m) mod n)\<rparr>) (drop m xs)"
    using assms em fetch(1) by (auto simp: queued_def)
  ultimately show ?thesis using em assms by (auto simp: queued_def)
qed

section \<open>Writing and reading\<close>

lemma write_queued:
  assumes "queued n r xs" and "0 < k" and "k < 2 ^ 63" and "k \<le> length src"
  shows "\<exists>r'. wow_ringbuf_write (Some r) (Some src) (word_of_nat k) =
      Some (if length xs + k < n then int k else - RING_BUFFER_NO_SPACE, Some r') \<and>
    queued n r' (if length xs + k < n then xs @ take k src else xs)"
proof -
  have k: "unat (word_of_nat k :: size_t) = k" using assms by (simp add: unat_size_of_nat)
  have k0: "(word_of_nat k :: size_t) > 0" using assms by (simp add: size_of_nat_pos)
  have n: "0 < n" "n < 2 ^ 31" "unat (rb_end r) < n" "rb_length r = int n"
    using assms(1) by (auto simp: queued_def)
  have free: "size_of_int (wow_ringbuf_getFree (Some r)) = word_of_nat (n - length xs)"
    by (simp only: queued_free [OF assms(1)] size_of_int_nat)
  have freeu: "unat (word_of_nat (n - length xs) :: size_t) = n - length xs"
    using n by (intro unat_size_of_nat) auto
  have xs: "length xs < n" using queued_used(2) [OF assms(1)] .
  have left: "word_of_nat k < (word_of_nat (n - length xs) :: size_t) \<longleftrightarrow> length xs + k < n"
    using k freeu xs by (auto simp: word_less_nat_alt)
  obtain t where t: "t = n - unat (rb_end r)" by simp
  have tail: "unat (size_of_int (rb_length r) - rb_end r) = t"
    unfolding t using n by (simp add: size_of_int_nat unat_size_diff unat_size_of_nat)
  have tl: "size_of_int (rb_length r) - rb_end r = word_of_nat t" using arg_cong [OF tail, of "word_of_nat :: nat \<Rightarrow> size_t"] by (simp only: of_nat_unat ucast_id)
  have wrap: "size_of_int (rb_length r) - rb_end r < word_of_nat k \<longleftrightarrow> t < k"
    using k tail by (simp add: word_less_nat_alt)
  show ?thesis
  proof (cases "length xs + k < n")
    case False
    then show ?thesis
      using assms(1) k0 left by (auto simp: wow_ringbuf_write_def free)
  next
    case fits: True
    have kint: "int_of_size (word_of_nat k) = int k"
      by (rule int_of_size_eq [OF k]) (use fits n t in linarith)
    show ?thesis
    proof (cases "t < k")
      case False
      with n t have "unat (rb_end r) + k \<le> n" by linarith
      then obtain r' where "ringbuf_put r src 0 (word_of_nat k) = Some r'"
        "queued n r' (xs @ take k src)"
        using put_queued [OF assms(1), of 0 k src] assms(4) fits n by auto
      then show ?thesis
        using fits k0 left wrap False kint by (auto simp: wow_ringbuf_write_def free)
    next
      case True
      have le: "unat (rb_end r) + t = n" "t \<le> n" "0 < t" "k - t \<le> n" using n t fits by linarith+
      have half: "int_of_size (size_of_int (rb_length r) - rb_end r) = int t"
        by (rule int_of_size_eq [OF tail]) (use n t in linarith)
      have rest: "unat (word_of_nat k - word_of_nat t :: size_t) = k - t"
        using k True le n by (simp add: unat_size_diff unat_size_of_nat)
      have half': "int_of_size (word_of_nat k - word_of_nat t) = int (k - t)"
        by (rule int_of_size_eq [OF rest]) (use fits n t in linarith)
      obtain r1 where 1: "ringbuf_put r src 0 (word_of_nat t) = Some r1"
        "queued n r1 (xs @ take t src)" "unat (rb_end r1) = 0"
        using put_queued [OF assms(1), of 0 t src] assms(4) fits le True by auto
      obtain r2 where 2: "ringbuf_put r1 src t (word_of_nat (k - t)) = Some r2"
        "queued n r2 ((xs @ take t src) @ take (k - t) (drop t src))"
        using put_queued [OF 1(2), of t "k - t" src] assms(4) fits le True 1(3) by auto
      have "take k src = take t src @ take (k - t) (drop t src)"
        using True by (metis le_add_diff_inverse less_or_eq_imp_le take_add)
      then show ?thesis
        using fits k0 left wrap True kint 1(1) 2
        by (auto simp: wow_ringbuf_write_def free half size_of_int_nat half' Let_def simp del: of_nat_diff)
    qed
  qed
qed

lemma queued_reset: "queued n r [] \<Longrightarrow> queued n (r\<lparr>rb_start := 0, rb_end := 0\<rparr>) []"
  by (auto simp: queued_def ring_def)

lemma read_queued:
  assumes "queued n r xs" and "0 < k" and "k < 2 ^ 63" and "min k (length xs) \<le> length dst"
  shows "\<exists>r'. wow_ringbuf_read (Some r) (Some dst) (word_of_nat k) =
      Some (int (min k (length xs)), Some (take k xs @ drop (min k (length xs)) dst), Some r') \<and>
    queued n r' (drop k xs)"
proof -
  have k: "unat (word_of_nat k :: size_t) = k" using assms by (simp add: unat_size_of_nat)
  have k0: "(word_of_nat k :: size_t) > 0" using assms by (simp add: size_of_nat_pos)
  have n: "0 < n" "n < 2 ^ 31" "unat (rb_start r) < n" "rb_length r = int n"
    using assms(1) by (auto simp: queued_def)
  have xs: "length xs < n" using queued_used(2) [OF assms(1)] .
  have used: "size_of_int (wow_ringbuf_getUsed (Some r)) = word_of_nat (length xs)"
    by (simp only: queued_used(1) [OF assms(1)] size_of_int_nat)
  have usedu: "unat (word_of_nat (length xs) :: size_t) = length xs"
    using n xs by (intro unat_size_of_nat) auto
  obtain m where min: "m = min k (length xs)" by simp
  have rlen: "(if word_of_nat k < (word_of_nat (length xs) :: size_t) then word_of_nat k
      else word_of_nat (length xs)) = (word_of_nat m :: size_t)"
    using k usedu min by (auto simp: word_less_nat_alt)
  have m: "unat (word_of_nat m :: size_t) = m" using assms(3) min by (intro unat_size_of_nat) auto
  have mint: "int_of_size (word_of_nat m) = int m"
    by (rule int_of_size_eq [OF m]) (use n xs min in linarith)
  have xsm: "take m xs = take k xs" "drop m xs = drop k xs" unfolding min by (auto simp: min_def)
  obtain t where t: "t = n - unat (rb_start r)" by simp
  have tail: "unat (size_of_int (rb_length r) - rb_start r) = t"
    unfolding t using n by (simp add: size_of_int_nat unat_size_diff unat_size_of_nat)
  have wrap: "size_of_int (rb_length r) - rb_start r < word_of_nat m \<longleftrightarrow> t < m"
    using m tail by (simp add: word_less_nat_alt)
  have "\<exists>r'. (if size_of_int (rb_length r) - rb_start r < word_of_nat m then do {
        let half_tail = int_of_size (size_of_int (rb_length r) - rb_start r);
        (dst, r) \<leftarrow> ringbuf_get r dst 0 (size_of_int half_tail);
        let half_head = int_of_size (word_of_nat m - size_of_int half_tail);
        ringbuf_get r dst (nat half_tail) (size_of_int half_head) }
      else ringbuf_get r dst 0 (word_of_nat m)) = Some (take k xs @ drop m dst, r') \<and>
    queued n r' (drop k xs)"
  proof (cases "t < m")
    case False
    with n t have "unat (rb_start r) + m \<le> n" by linarith
    then obtain r' where "ringbuf_get r dst 0 (word_of_nat m) = Some (take m xs @ drop m dst, r')"
      "queued n r' (drop m xs)"
      using get_queued [OF assms(1), of 0 m dst] assms(4) min by auto
    then show ?thesis using False wrap xsm by auto
  next
    case True
    have le: "unat (rb_start r) + t = n" "t \<le> n" "0 < t" "m - t \<le> n" "m \<le> length xs" "m \<le> length dst"
      using n t min xs assms(4) by linarith+
    have half: "int_of_size (size_of_int (rb_length r) - rb_start r) = int t"
      by (rule int_of_size_eq [OF tail]) (use n t in linarith)
    have rest: "unat (word_of_nat m - word_of_nat t :: size_t) = m - t"
      using m True le n by (simp add: unat_size_diff unat_size_of_nat)
    have half': "int_of_size (word_of_nat m - word_of_nat t) = int (m - t)"
      by (rule int_of_size_eq [OF rest]) (use n xs min in linarith)
    obtain r1 where 1: "ringbuf_get r dst 0 (word_of_nat t) = Some (take t xs @ drop t dst, r1)"
      "queued n r1 (drop t xs)" "unat (rb_start r1) = 0"
      using get_queued [OF assms(1), of 0 t dst] le True by auto
    have lt: "length (take t xs) = t" using True le by auto
    obtain r2 where 2: "ringbuf_get r1 (take t xs @ drop t dst) t (word_of_nat (m - t)) =
        Some (take t xs @ take (m - t) (drop t xs) @ drop m dst, r2)"
      "queued n r2 (drop (m - t) (drop t xs))"
      using get_queued [OF 1(2), of t "m - t" "take t xs @ drop t dst"] le True 1(3) lt
        diff_le_mono [OF le(5), of t]
      by auto
    have "take m xs = take t xs @ take (m - t) (drop t xs)" "drop (m - t) (drop t xs) = drop m xs"
      using True take_add [of t "m - t" xs] by simp_all
    then show ?thesis
      using wrap True 1(1) 2 half half' xsm
      by (auto simp: size_of_int_nat Let_def simp del: of_nat_diff)
  qed
  then obtain r' where r': "(if size_of_int (rb_length r) - rb_start r < word_of_nat m then do {
        let half_tail = int_of_size (size_of_int (rb_length r) - rb_start r);
        (dst, r) \<leftarrow> ringbuf_get r dst 0 (size_of_int half_tail);
        let half_head = int_of_size (word_of_nat m - size_of_int half_tail);
        ringbuf_get r dst (nat half_tail) (size_of_int half_head) }
      else ringbuf_get r dst 0 (word_of_nat m)) = Some (take k xs @ drop m dst, r')"
    "queued n r' (drop k xs)" by blast
  let ?c = "rb_start r' = rb_end r' \<or> wow_ringbuf_getUsed (Some r') = 0"
  have empty: "drop k xs = []" if ?c
    using that queued_used(1) [OF r'(2)] r'(2) by (auto simp: queued_def ring_def)
  have "queued n (if ?c then r'\<lparr>rb_start := 0, rb_end := 0\<rparr> else r') (drop k xs)"
    using r'(2) empty queued_reset [of n r'] by auto
  then show ?thesis
    using k0 by (auto simp: wow_ringbuf_read_def used rlen r'(1) mint simp flip: min)
qed

section \<open>Histories\<close>

datatype ring_op = Write bytes | Read nat | Clear | Used | Free

text \<open>The result of a call, and for a read the bytes that were delivered.\<close>

definition ring_exec :: "ring_op \<Rightarrow> RingBuffer_T option \<Rightarrow> ((int \<times> bytes) \<times> RingBuffer_T option) option" where
  "ring_exec op r =
     (case op of
        Write d \<Rightarrow> map_option (\<lambda>(n, r). ((n, []), r)) (wow_ringbuf_write r (Some d) (word_of_nat (length d)))
      | Read k \<Rightarrow> map_option (\<lambda>(n, d, r). ((n, take (nat n) (the d)), r))
          (wow_ringbuf_read r (Some (replicate k 0)) (word_of_nat k))
      | Clear \<Rightarrow> Some ((0, []), wow_ringbuf_clear r)
      | Used \<Rightarrow> Some ((wow_ringbuf_getUsed r, []), r)
      | Free \<Rightarrow> Some ((wow_ringbuf_getFree r, []), r))"

fun ring_run :: "ring_op list \<Rightarrow> RingBuffer_T option \<Rightarrow> ((int \<times> bytes) list \<times> RingBuffer_T option) option" where
  "ring_run [] r = Some ([], r)"
| "ring_run (op # ops) r = do {
     (out, r) \<leftarrow> ring_exec op r;
     (outs, r) \<leftarrow> ring_run ops r;
     Some (out # outs, r) }"

text \<open>A first-in first-out queue that refuses a write which does not fit as a whole.\<close>

definition queue_exec :: "nat \<Rightarrow> ring_op \<Rightarrow> bytes \<Rightarrow> (int \<times> bytes) \<times> bytes" where
  "queue_exec n op xs =
     (case op of
        Write d \<Rightarrow>
          if d = [] then ((- PARAM_INPUT_ARG_INVALID, []), xs)
          else if length xs + length d < n then ((int (length d), []), xs @ d)
          else ((- RING_BUFFER_NO_SPACE, []), xs)
      | Read k \<Rightarrow>
          if k = 0 then ((- PARAM_INPUT_ARG_INVALID, []), xs)
          else ((int (min k (length xs)), take k xs), drop k xs)
      | Clear \<Rightarrow> ((0, []), [])
      | Used \<Rightarrow> ((int (length xs), []), xs)
      | Free \<Rightarrow> ((int (n - length xs), []), xs))"

fun queue_run :: "nat \<Rightarrow> ring_op list \<Rightarrow> bytes \<Rightarrow> (int \<times> bytes) list" where
  "queue_run n [] xs = []"
| "queue_run n (op # ops) xs = (let (out, xs) = queue_exec n op xs in out # queue_run n ops xs)"

fun op_size :: "ring_op \<Rightarrow> nat" where
  "op_size (Write d) = length d"
| "op_size (Read k) = k"
| "op_size _ = 0"

lemma ring_exec_queued:
  assumes "queued n r xs" and "op_size op < 2 ^ 63"
  shows "\<exists>r'. ring_exec op (Some r) = Some (fst (queue_exec n op xs), Some r') \<and>
    queued n r' (snd (queue_exec n op xs))"
proof (cases op)
  case (Write d)
  show ?thesis
  proof (cases "d = []")
    case True
    then show ?thesis
      using assms(1) Write by (simp add: ring_exec_def wow_ringbuf_write_def queue_exec_def)
  next
    case False
    with write_queued [OF assms(1), of "length d" d] assms(2) Write show ?thesis
      by (auto simp: ring_exec_def queue_exec_def)
  qed
next
  case (Read k)
  show ?thesis
  proof (cases "k = 0")
    case True
    then show ?thesis
      using assms(1) Read by (simp add: ring_exec_def wow_ringbuf_read_def queue_exec_def errnos)
  next
    case False
    with read_queued [OF assms(1), of k "replicate k 0"] assms(2) Read show ?thesis
      by (auto simp: ring_exec_def queue_exec_def min_def split: if_splits)
  qed
next
  case Clear
  then show ?thesis
    using assms(1) by (auto simp: ring_exec_def queue_exec_def wow_ringbuf_clear_def queued_def ring_def)
qed (use assms queued_used queued_free in \<open>auto simp: ring_exec_def queue_exec_def\<close>)

lemma ring_run_queued:
  assumes "queued n r xs" and "\<forall>op \<in> set ops. op_size op < 2 ^ 63"
  shows "\<exists>r'. ring_run ops (Some r) = Some (queue_run n ops xs, Some r')"
  using assms
proof (induction ops arbitrary: r xs)
  case Nil
  then show ?case by simp
next
  case (Cons op ops)
  from ring_exec_queued [OF Cons.prems(1), of op] Cons.prems(2) obtain r' where
    "ring_exec op (Some r) = Some (fst (queue_exec n op xs), Some r')"
    "queued n r' (snd (queue_exec n op xs))" by auto
  with Cons.IH [OF this(2)] Cons.prems(2) show ?case by (auto simp: split_beta Let_def)
qed

lemma create_queued:
  assumes "0 < n" and "n < 2 ^ 31"
  shows "\<exists>r. wow_ringbuf_create True True (word_of_nat n) = Some (Some r) \<and> queued n r []"
proof -
  have "unat (word_of_nat n :: size_t) = n" using assms by (simp add: unat_size_of_nat)
  with assms int_of_size_small [of "word_of_nat n"] show ?thesis
    by (simp add: wow_ringbuf_create_def queued_def ring_def)
qed

text \<open>C20. A ring buffer of \<open>n\<close> bytes is a queue: over every history of writes, reads, clearings
  and size queries, whatever their lengths and however often the data wraps around the end, each
  call returns what a first-in first-out queue with room for \<open>n - 1\<close> bytes returns, and each
  read delivers the bytes that such a queue delivers. No call leaves the buffer.\<close>

theorem ring_is_queue:
  assumes "0 < n" and "n < 2 ^ 31" and "\<forall>op \<in> set ops. op_size op < 2 ^ 63"
  shows "\<exists>r r'. wow_ringbuf_create True True (word_of_nat n) = Some (Some r) \<and>
    ring_run ops (Some r) = Some (queue_run n ops [], r')"
  using create_queued [OF assms(1,2)] ring_run_queued [OF _ assms(3)] by blast

lemma ring_is_queue_witness:
  "\<exists>r r'. wow_ringbuf_create True True 4 = Some (Some r) \<and>
    ring_run [Write [1, 2], Read 1, Write [3, 4], Write [5], Used, Read 9, Free] (Some r) =
      Some ([(2, []), (1, [1]), (2, []), (-10200, []), (3, []), (3, [2, 3, 4]), (4, [])], r')"
  using ring_is_queue [of 4 "[Write [1, 2], Read 1, Write [3, 4], Write [5], Used, Read 9, Free]"]
  by (simp add: queue_exec_def errnos)

text \<open>A ring buffer created with size zero cannot be read: the read divides by zero. A buffer
  whose memory cannot be allocated is cleared through the null pointer before it is tested.\<close>

theorem ring_create_undefined:
  assumes "0 < k" and "k < 2 ^ 63"
  shows "(\<exists>r. wow_ringbuf_create True True 0 = Some (Some r) \<and>
      wow_ringbuf_getFree (Some r) = 0 \<and>
      wow_ringbuf_read (Some r) (Some (replicate k 0)) (word_of_nat k) = None) \<and>
    wow_ringbuf_create True False snSize = None"
proof -
  let ?r = "\<lparr>rb_buffer = [], rb_length = 0, rb_start = 0, rb_end = 0\<rparr>"
  have 0: "int_of_size 0 = 0" "size_of_int 0 = 0" by (simp_all add: int_of_size_def size_of_int_def)
  have "wow_ringbuf_create True True 0 = Some (Some ?r)" by (simp add: wow_ringbuf_create_def 0)
  moreover have "wow_ringbuf_getFree (Some ?r) = 0" by (simp add: wow_ringbuf_getFree_def 0)
  moreover have "wow_ringbuf_getUsed (Some ?r) = 0" by (simp add: wow_ringbuf_getUsed_def 0)
  then have "wow_ringbuf_read (Some ?r) (Some (replicate k 0)) (word_of_nat k) = None"
    using size_of_nat_pos [OF assms]
    by (simp add: wow_ringbuf_read_def 0 ringbuf_get_def rdn_def wrn_def size_mod_def)
  ultimately show ?thesis by (auto simp: wow_ringbuf_create_def)
qed

lemma ring_create_undefined_witness:
  "(\<exists>r. wow_ringbuf_create True True 0 = Some (Some r) \<and>
      wow_ringbuf_getFree (Some r) = 0 \<and>
      wow_ringbuf_read (Some r) (Some (replicate 3 0)) 3 = None) \<and>
    wow_ringbuf_create True False 16 = None"
  using ring_create_undefined [of 3 16] by simp

end
