(* ===== verification/Base64.thy ===== *)
theory Base64
  imports SizeT Errno
begin

text \<open>
  Base64 encoding and decoding of \<open>wow_base64.c\<close>. Input and output are checked buffers, a null
  pointer is \<open>None\<close>; lengths and indices are \<open>uint32_t\<close>, written as naturals with the wrap-around of
  every sum that can overflow. Characters are bytes; 61 is the padding character.
\<close>

section \<open>The tables\<close>

definition g_encodingTable :: bytes where
  "g_encodingTable =
    [65, 66, 67, 68, 69, 70, 71, 72, 73, 74, 75, 76, 77, 78, 79, 80,
     81, 82, 83, 84, 85, 86, 87, 88, 89, 90, 97, 98, 99, 100, 101, 102,
     103, 104, 105, 106, 107, 108, 109, 110, 111, 112, 113, 114, 115, 116, 117, 118,
     119, 120, 121, 122, 48, 49, 50, 51, 52, 53, 54, 55, 56, 57, 43, 47]"

definition g_decodingTable :: bytes where
  "g_decodingTable =
    [0, 0, 0, 0, 0, 0, 0, 0, 0, 0, 0, 0, 0, 0, 0, 0,
     0, 0, 0, 0, 0, 0, 0, 0, 0, 0, 0, 0, 0, 0, 0, 0,
     0, 0, 0, 0, 0, 0, 0, 0, 0, 0, 0, 62, 0, 0, 0, 63,
     52, 53, 54, 55, 56, 57, 58, 59, 60, 61, 0, 0, 0, 0, 0, 0,
     0, 0, 1, 2, 3, 4, 5, 6, 7, 8, 9, 10, 11, 12, 13, 14,
     15, 16, 17, 18, 19, 20, 21, 22, 23, 24, 25, 0, 0, 0, 0, 0,
     0, 26, 27, 28, 29, 30, 31, 32, 33, 34, 35, 36, 37, 38, 39, 40,
     41, 42, 43, 44, 45, 46, 47, 48, 49, 50, 51, 0, 0, 0, 0, 0,
     0, 0, 0, 0, 0, 0, 0, 0, 0, 0, 0, 0, 0, 0, 0, 0,
     0, 0, 0, 0, 0, 0, 0, 0, 0, 0, 0, 0, 0, 0, 0, 0,
     0, 0, 0, 0, 0, 0, 0, 0, 0, 0, 0, 0, 0, 0, 0, 0,
     0, 0, 0, 0, 0, 0, 0, 0, 0, 0, 0, 0, 0, 0, 0, 0,
     0, 0, 0, 0, 0, 0, 0, 0, 0, 0, 0, 0, 0, 0, 0, 0,
     0, 0, 0, 0, 0, 0, 0, 0, 0, 0, 0, 0, 0, 0, 0, 0,
     0, 0, 0, 0, 0, 0, 0, 0, 0, 0, 0, 0, 0, 0, 0, 0,
     0, 0, 0, 0, 0, 0, 0, 0, 0, 0, 0, 0, 0, 0, 0, 0]"

definition g_modTable :: "nat list" where
  "g_modTable = [0, 2, 1]"

definition wrap32 :: "nat \<Rightarrow> nat" where
  "wrap32 n = n mod 2 ^ 32"

section \<open>Encoding\<close>

definition base64_octet :: "bytes \<Rightarrow> nat \<Rightarrow> nat \<Rightarrow> (u32 \<times> nat) option" where
  "base64_octet idata ilen i =
     (if i < ilen then do { x \<leftarrow> rd idata i; Some (ucast x, i + 1) } else Some (0, i))"

definition base64_put :: "bytes \<Rightarrow> nat \<Rightarrow> u32 \<Rightarrow> nat \<Rightarrow> bytes option" where
  "base64_put odata j triple shift = do {
     ch \<leftarrow> rd g_encodingTable (unat (drop_bit shift triple AND 0x3F));
     wr odata j ch }"

partial_function (option) base64_encode_loop ::
  "bytes \<Rightarrow> nat \<Rightarrow> nat \<Rightarrow> nat \<Rightarrow> bytes \<Rightarrow> bytes option" where
  "base64_encode_loop idata ilen i j odata =
     (if i < ilen then do {
        (octet_a, i) \<leftarrow> base64_octet idata ilen i;
        (octet_b, i) \<leftarrow> base64_octet idata ilen i;
        (octet_c, i) \<leftarrow> base64_octet idata ilen i;
        let triple = push_bit 16 octet_a + push_bit 8 octet_b + octet_c;
        odata \<leftarrow> base64_put odata j triple 18;
        odata \<leftarrow> base64_put odata (wrap32 (j + 1)) triple 12;
        odata \<leftarrow> base64_put odata (wrap32 (j + 2)) triple 6;
        odata \<leftarrow> base64_put odata (wrap32 (j + 3)) triple 0;
        base64_encode_loop idata ilen i (wrap32 (j + 4)) odata }
      else Some odata)"

text \<open>\<open>k\<close> padding characters from the end.\<close>

fun base64_pad :: "nat \<Rightarrow> nat \<Rightarrow> nat \<Rightarrow> bytes \<Rightarrow> bytes option" where
  "base64_pad len i 0 odata = Some odata"
| "base64_pad len i (Suc k) odata = do { odata \<leftarrow> wr odata (len - 1 - i) 61; base64_pad len (i + 1) k odata }"

definition wow_base64_encode ::
  "bytes option \<Rightarrow> u32 \<Rightarrow> bytes option \<Rightarrow> u32 \<Rightarrow> (int \<times> bytes option) option" where
  "wow_base64_encode pu8Idata u32Ilen pu8Odata u32Olen =
     (case (pu8Idata, pu8Odata) of
        (Some idata, Some odata) \<Rightarrow>
          if u32Ilen = 0 \<or> u32Olen = 0 then Some (-1, pu8Odata)
          else
            (let ilen = unat u32Ilen; len = wrap32 (4 * (wrap32 (ilen + 2) div 3)) in
             if \<not> unat u32Olen \<ge> len then Some (-1, pu8Odata)
             else do {
               odata \<leftarrow> base64_encode_loop idata ilen 0 0 odata;
               odata \<leftarrow> base64_pad len 0 (g_modTable ! (ilen mod 3)) odata;
               Some (sint (word_of_nat len :: u32), Some odata) })
      | _ \<Rightarrow> Some (-1, pu8Odata))"

section \<open>Decoding\<close>

definition base64_sextet :: "bytes \<Rightarrow> nat \<Rightarrow> (u32 \<times> nat) option" where
  "base64_sextet idata i = do {
     ch \<leftarrow> rd idata i;
     if ch = 61 then Some (0, i + 1)
     else do { x \<leftarrow> rd g_decodingTable (unat ch); Some (ucast x, i + 1) } }"

definition base64_get :: "nat \<Rightarrow> u32 \<Rightarrow> nat \<Rightarrow> nat \<times> bytes \<Rightarrow> (nat \<times> bytes) option" where
  "base64_get len triple shift = (\<lambda>(j, odata).
     if j < len then do { odata \<leftarrow> wr odata j (ucast (drop_bit shift triple AND 0xFF)); Some (j + 1, odata) }
     else Some (j, odata))"

partial_function (option) base64_decode_loop ::
  "bytes \<Rightarrow> nat \<Rightarrow> nat \<Rightarrow> nat \<Rightarrow> nat \<Rightarrow> bytes \<Rightarrow> bytes option" where
  "base64_decode_loop idata ilen len i j odata =
     (if i < ilen then do {
        (sextet_a, i) \<leftarrow> base64_sextet idata i;
        (sextet_b, i) \<leftarrow> base64_sextet idata i;
        (sextet_c, i) \<leftarrow> base64_sextet idata i;
        (sextet_d, i) \<leftarrow> base64_sextet idata i;
        let triple = push_bit 18 sextet_a + push_bit 12 sextet_b + push_bit 6 sextet_c + sextet_d;
        s \<leftarrow> base64_get len triple 16 (j, odata);
        s \<leftarrow> base64_get len triple 8 s;
        (j, odata) \<leftarrow> base64_get len triple 0 s;
        base64_decode_loop idata ilen len i j odata }
      else Some odata)"

definition wow_base64_decode ::
  "bytes option \<Rightarrow> u32 \<Rightarrow> bytes option \<Rightarrow> u32 \<Rightarrow> (int \<times> bytes option) option" where
  "wow_base64_decode pu8Idata u32Ilen pu8Odata u32Olen =
     (case (pu8Idata, pu8Odata) of
        (Some idata, Some odata) \<Rightarrow>
          if u32Ilen = 0 \<or> u32Olen = 0 then Some (-1, pu8Odata)
          else
            (let ilen = unat u32Ilen in
             if \<not> ilen mod 4 = 0 then Some (-1, pu8Odata)
             else do {
               let len = ilen div 4 * 3;
               c1 \<leftarrow> rd idata (ilen - 1);
               let len = (if c1 = 61 then len - 1 else len);
               c2 \<leftarrow> rd idata (ilen - 2);
               let len = (if c2 = 61 then len - 1 else len);
               if \<not> unat u32Olen \<ge> len then Some (-1, pu8Odata)
               else do {
                 odata \<leftarrow> base64_decode_loop idata ilen len 0 0 odata;
                 Some (sint (word_of_nat len :: u32), Some odata) } })
      | _ \<Rightarrow> Some (-1, pu8Odata))"

section \<open>The groups of three bytes\<close>

definition triple_of :: "u8 \<Rightarrow> u8 \<Rightarrow> u8 \<Rightarrow> nat" where
  "triple_of a b c = 65536 * unat a + 256 * unat b + unat c"

definition enc64 :: "nat \<Rightarrow> u8" where
  "enc64 k = g_encodingTable ! (k mod 64)"

lemma triple_of_bound: "triple_of a b c < 2 ^ 24"
  using unat_u8_bound [of a] unat_u8_bound [of b] unat_u8_bound [of c]
  by (simp add: triple_of_def del: unat_u8_bound)

lemma unat_shifts:
  assumes "65536 * x + 256 * y + z < 2 ^ 32"
  shows "push_bit 16 (word_of_nat x) + push_bit 8 (word_of_nat y) + word_of_nat z =
    (word_of_nat (65536 * x + 256 * y + z) :: u32)"
  by (simp add: push_bit_eq_mult mult.commute)

lemma triple_word: "push_bit 16 (ucast a) + push_bit 8 (ucast b) + ucast c =
    (word_of_nat (triple_of a b c) :: u32)"
  by (simp add: triple_of_def push_bit_eq_mult mult.commute)

lemma unat_triple: "unat (word_of_nat (triple_of a b c) :: u32) = triple_of a b c"
  using triple_of_bound [of a b c] by (simp add: unat_of_nat)

lemma unat_shift: "unat (drop_bit k t :: u32) = unat t div 2 ^ k"
  unfolding unat_drop_bit_eq by (rule drop_bit_eq_div)

lemma unat_take_bit: "unat (take_bit 6 w :: u32) = unat w mod 64" "unat (take_bit 8 w :: u32) = unat w mod 256"
  unfolding unsigned_take_bit_eq by (simp_all add: take_bit_eq_mod)

lemma unat_and_3F: "unat (drop_bit k t AND 0x3F :: u32) = unat t div 2 ^ k mod 64"
proof -
  have "drop_bit k t AND 0x3F = take_bit 6 (drop_bit k t)"
    by (simp add: take_bit_eq_mask mask_eq_exp_minus_1)
  then show ?thesis
    by (simp only: unat_take_bit unat_shift)
qed

lemma u8_of_mod: "(word_of_nat (n mod 256) :: u8) = word_of_nat n"
  by (simp add: word_of_nat_eq_iff take_bit_eq_mod)

lemma ucast_and_FF: "(ucast (drop_bit k t AND 0xFF :: u32) :: u8) = word_of_nat (unat t div 2 ^ k)"
proof -
  have "drop_bit k t AND 0xFF = take_bit 8 (drop_bit k t)"
    by (simp add: take_bit_eq_mask mask_eq_exp_minus_1)
  then have "unat (drop_bit k t AND 0xFF) = unat t div 2 ^ k mod 256"
    by (simp only: unat_take_bit unat_shift)
  then show ?thesis
    by (metis of_nat_unat u8_of_mod)
qed

text \<open>The four characters and the three bytes of a group; both directions on the tables.\<close>

lemma put_triple:
  assumes "j < length odata"
  shows "base64_put odata j (word_of_nat (triple_of a b c)) k =
    Some (odata[j := enc64 (triple_of a b c div 2 ^ k)])"
proof -
  have "length g_encodingTable = 64" by (simp add: g_encodingTable_def)
  then show ?thesis
    using assms by (simp add: base64_put_def unat_and_3F unat_triple rd_in wr_in enc64_def)
qed

lemma tables_inverse: "k < 64 \<Longrightarrow> rd g_decodingTable (unat (enc64 k)) = Some (word_of_nat k) \<and> enc64 k \<noteq> 61"
proof -
  have "\<forall>k \<in> set [0..<64]. rd g_decodingTable (unat (g_encodingTable ! k)) = Some (word_of_nat k) \<and>
      g_encodingTable ! k \<noteq> 61"
    by code_simp
  then show "k < 64 \<Longrightarrow> ?thesis" by (simp add: enc64_def)
qed

lemma sextets_triple:
  assumes "t < 2 ^ 24"
  shows "push_bit 18 (word_of_nat (t div 2 ^ 18 mod 64)) + push_bit 12 (word_of_nat (t div 2 ^ 12 mod 64)) +
    push_bit 6 (word_of_nat (t div 2 ^ 6 mod 64)) + word_of_nat (t mod 64) = (word_of_nat t :: u32)"
proof -
  have "t = t div 2 ^ 18 mod 64 * 2 ^ 18 + t div 2 ^ 12 mod 64 * 2 ^ 12 + t div 2 ^ 6 mod 64 * 2 ^ 6 + t mod 64"
  proof -
    have "t div 2 ^ 12 = t div 2 ^ 6 div 64" "t div 2 ^ 18 = t div 2 ^ 12 div 64"
      by (simp_all add: div_mult2_eq [symmetric])
    then have "t = t div 2 ^ 6 * 64 + t mod 64" "t div 2 ^ 6 = t div 2 ^ 12 * 64 + t div 2 ^ 6 mod 64"
      "t div 2 ^ 12 = t div 2 ^ 18 * 64 + t div 2 ^ 12 mod 64"
      by (simp_all only: div_mult_mod_eq) simp
    moreover have "t div 2 ^ 18 mod 64 = t div 2 ^ 18" using assms by (simp add: less_mult_imp_div_less)
    moreover have "m = q' * 2 ^ 18 + r2 * 2 ^ 12 + r1 * 2 ^ 6 + r0"
      if "m = p * 64 + r0" "p = q * 64 + r1" "q = q' * 64 + r2" for m p q q' r0 r1 r2 :: nat
      using that by simp
    ultimately show ?thesis by metis
  qed
  then have "(word_of_nat t :: u32) = word_of_nat (t div 2 ^ 18 mod 64 * 2 ^ 18 +
      t div 2 ^ 12 mod 64 * 2 ^ 12 + t div 2 ^ 6 mod 64 * 2 ^ 6 + t mod 64)"
    by (rule arg_cong)
  then show ?thesis by (simp add: push_bit_eq_mult)
qed

lemma bytes_triple:
  "word_of_nat (triple_of a b c div 2 ^ 16) = a" "word_of_nat (triple_of a b c div 2 ^ 8) = b"
  "word_of_nat (triple_of a b c) = c"
proof -
  let ?t = "triple_of a b c"
  have "?t div 2 ^ 16 mod 256 = unat a" "?t div 2 ^ 8 mod 256 = unat b" "?t mod 256 = unat c"
  proof -
    note u = unat_u8_bound [of a] unat_u8_bound [of b] unat_u8_bound [of c]
    have "?t div 65536 = unat a" "?t div 256 = 256 * unat a + unat b"
      using u by (auto simp: triple_of_def simp del: unat_u8_bound intro!: div_nat_eqI)
    moreover have "?t = 256 * (256 * unat a + unat b) + unat c" by (simp add: triple_of_def)
    moreover from this have "?t mod 256 = unat c" using u by (metis mod_less mod_mult_self4)
    ultimately show "?t div 2 ^ 16 mod 256 = unat a" "?t div 2 ^ 8 mod 256 = unat b" "?t mod 256 = unat c"
      using u by (simp_all del: unat_u8_bound)
  qed
  then have "(word_of_nat (?t div 2 ^ 16 mod 256) :: u8) = word_of_nat (unat a)"
    "(word_of_nat (?t div 2 ^ 8 mod 256) :: u8) = word_of_nat (unat b)"
    "(word_of_nat (?t mod 256) :: u8) = word_of_nat (unat c)" by simp_all
  then show "word_of_nat (?t div 2 ^ 16) = a" "word_of_nat (?t div 2 ^ 8) = b" "word_of_nat ?t = c"
    by (simp_all only: u8_of_mod of_nat_unat ucast_id)
qed

section \<open>The encoding as a function\<close>

definition quad :: "u8 \<Rightarrow> u8 \<Rightarrow> u8 \<Rightarrow> bytes" where
  "quad a b c = map (\<lambda>k. enc64 (triple_of a b c div 2 ^ k)) [18, 12, 6, 0]"

fun base64 :: "bytes \<Rightarrow> bytes" where
  "base64 [] = []"
| "base64 [a] = take 2 (quad a 0 0) @ [61, 61]"
| "base64 [a, b] = take 3 (quad a b 0) @ [61]"
| "base64 (a # b # c # xs) = quad a b c @ base64 xs"

text \<open>What the loop stores: the same before the padding replaces the last characters.\<close>

fun base64_raw :: "bytes \<Rightarrow> bytes" where
  "base64_raw [] = []"
| "base64_raw [a] = quad a 0 0"
| "base64_raw [a, b] = quad a b 0"
| "base64_raw (a # b # c # xs) = quad a b c @ base64_raw xs"

lemma length_quad [simp]: "length (quad a b c) = 4"
  by (simp add: quad_def)

lemma quads_Suc [simp]: "(5 + n) div 3 = Suc (Suc (Suc n) div 3)" for n :: nat
  by presburger

lemma length_base64_raw [simp]: "length (base64_raw xs) = 4 * ((length xs + 2) div 3)"
  by (induction xs rule: base64_raw.induct) auto

lemma length_base64 [simp]: "length (base64 xs) = 4 * ((length xs + 2) div 3)"
  by (induction xs rule: base64.induct) auto

lemma put_quad:
  assumes "length ys = 4"
  shows "(do {
      odata \<leftarrow> base64_put (out @ ys @ zs) (length out) (word_of_nat (triple_of a b c)) 18;
      odata \<leftarrow> base64_put odata (length out + 1) (word_of_nat (triple_of a b c)) 12;
      odata \<leftarrow> base64_put odata (length out + 2) (word_of_nat (triple_of a b c)) 6;
      odata \<leftarrow> base64_put odata (length out + 3) (word_of_nat (triple_of a b c)) 0;
      f odata }) = f (out @ quad a b c @ zs)"
proof -
  obtain w x y z where "ys = [w, x, y, z]"
    using assms by (auto simp: length_Suc_conv numeral_eq_Suc)
  then show ?thesis
    by (simp add: put_triple quad_def list_update_append numeral_2_eq_2 numeral_3_eq_3)
qed

lemma wrap32_small: "n < 2 ^ 32 \<Longrightarrow> wrap32 n = n"
  by (simp add: wrap32_def)

lemma encode_stop: "\<not> i < ilen \<Longrightarrow> base64_encode_loop d ilen i j odata = Some odata"
  by (subst base64_encode_loop.simps) simp

lemma encode_step:
  assumes "i < n" and "base64_octet d n i = Some (ucast a, i1)"
    and "base64_octet d n i1 = Some (ucast b, i2)" and "base64_octet d n i2 = Some (ucast c, i3)"
    and "length ys = 4" and "length out + 4 < 2 ^ 32"
  shows "base64_encode_loop d n i (length out) (out @ ys @ zs) =
    base64_encode_loop d n i3 (length out + 4) (out @ quad a b c @ zs)"
proof -
  have w: "wrap32 (length out + 1) = length out + 1" "wrap32 (length out + 2) = length out + 2"
    "wrap32 (length out + 3) = length out + 3" "wrap32 (length out + 4) = length out + 4"
    using assms(6) by (auto simp: wrap32_small)
  show ?thesis
    using assms(1)
    by (subst base64_encode_loop.simps)
      (simp only: assms(2-4) w triple_word put_quad [OF assms(5)] Let_def if_True prod.case Option.bind.bind_lunit)
qed

lemma octets:
  "base64_octet (pre @ a # xs) n (length pre) = (if length pre < n then Some (ucast a, Suc (length pre)) else Some (0, length pre))"
  "n \<le> i \<Longrightarrow> base64_octet d n i = Some (0, i)"
  "base64_octet (pre @ x # a # xs) n (Suc (length pre)) = (if Suc (length pre) < n then Some (ucast a, Suc (Suc (length pre))) else Some (0, Suc (length pre)))"
  "base64_octet (pre @ x # y # a # xs) n (Suc (Suc (length pre))) = (if Suc (Suc (length pre)) < n then Some (ucast a, Suc (Suc (Suc (length pre)))) else Some (0, Suc (Suc (length pre))))"
  by (auto simp: base64_octet_def rd_def nth_append)

lemma encode_loop:
  assumes "length ys = length (base64_raw xs)" and "length out + length ys < 2 ^ 32"
  shows "base64_encode_loop (pre @ xs) (length (pre @ xs)) (length pre) (length out) (out @ ys @ zs) =
    Some (out @ base64_raw xs @ zs)"
  using assms
proof (induction xs arbitrary: pre out ys rule: base64_raw.induct)
  case 1
  then show ?case by (simp add: encode_stop)
next
  case (2 a)
  then show ?case
    using encode_step [of "length pre" "length (pre @ [a])" "pre @ [a]" a "Suc (length pre)" 0 "Suc (length pre)" 0 "Suc (length pre)" ys out zs]
    by (simp add: octets encode_stop)
next
  case (3 a b)
  then show ?case
    using encode_step [of "length pre" "length (pre @ [a, b])" "pre @ [a, b]" a "Suc (length pre)" b
      "Suc (Suc (length pre))" 0 "Suc (Suc (length pre))" ys out zs]
    by (simp add: octets encode_stop)
next
  case (4 a b c xs)
  define y1 y2 where "y1 = take 4 ys" and "y2 = drop 4 ys"
  have ys: "length y1 = 4" "ys = y1 @ y2" "length y2 = length (base64_raw xs)"
    using 4(2) by (auto simp: y1_def y2_def)
  have IH: "base64_encode_loop ((pre @ [a, b, c]) @ xs) (length ((pre @ [a, b, c]) @ xs))
      (length (pre @ [a, b, c])) (length (out @ quad a b c)) ((out @ quad a b c) @ y2 @ zs) =
      Some ((out @ quad a b c) @ base64_raw xs @ zs)"
    using 4(2,3) ys by (intro "4.IH") auto
  show ?case
    using encode_step [of "length pre" "length (pre @ a # b # c # xs)" "pre @ a # b # c # xs" a "Suc (length pre)" b
      "Suc (Suc (length pre))" c "Suc (Suc (Suc (length pre)))" y1 out "y2 @ zs"] IH 4(3) ys
    by (simp add: octets add.commute)
qed

lemma mod3_Suc [simp]: "Suc (Suc (Suc n)) mod 3 = n mod 3"
  by presburger

lemma quad_list: "quad a b c = [enc64 (triple_of a b c div 2 ^ 18), enc64 (triple_of a b c div 2 ^ 12),
    enc64 (triple_of a b c div 2 ^ 6), enc64 (triple_of a b c)]"
  by (simp add: quad_def)

lemma pad_quad:
  "base64_pad (length pre + 4) 0 (Suc 0) (pre @ w # x # y # z # zs) = Some (pre @ w # x # y # 61 # zs)"
  "base64_pad (length pre + 4) 0 2 (pre @ w # x # y # z # zs) = Some (pre @ w # x # 61 # 61 # zs)"
proof -
  have "length pre + 4 - 1 - 0 = length pre + 3" "length pre + 4 - 1 - (0 + 1) = length pre + 2" by simp_all
  then show "base64_pad (length pre + 4) 0 (Suc 0) (pre @ w # x # y # z # zs) = Some (pre @ w # x # y # 61 # zs)"
    "base64_pad (length pre + 4) 0 2 (pre @ w # x # y # z # zs) = Some (pre @ w # x # 61 # 61 # zs)"
    unfolding numeral_2_eq_2
    by (simp_all only: base64_pad.simps) (simp_all add: wr_def list_update_append numeral_3_eq_3 numeral_2_eq_2)
qed

lemma four: "Suc (Suc (Suc (Suc n))) = n + 4"
  by simp

lemma pad_raw:
  "base64_pad (length pre + length (base64_raw xs)) 0 (g_modTable ! (length xs mod 3)) (pre @ base64_raw xs @ zs) =
   Some (pre @ base64 xs @ zs)"
proof (induction xs arbitrary: pre rule: base64_raw.induct)
  case 1
  then show ?case by (simp add: g_modTable_def)
next
  case (2 a)
  then show ?case
    using pad_quad(2) [of pre] by (simp add: g_modTable_def quad_list four)
next
  case (3 a b)
  then show ?case
    using pad_quad(1) [of pre] by (simp add: g_modTable_def quad_list four)
next
  case (4 a b c xs)
  from "4.IH" [of "pre @ quad a b c"] show ?case by (simp add: add.assoc)
qed

section \<open>Decoding an encoding\<close>

lemma ucast_small: "n < 256 \<Longrightarrow> (ucast (word_of_nat n :: u8) :: u32) = word_of_nat n"
proof -
  assume "n < 256"
  then have "unat (word_of_nat n :: u8) = n" by (simp add: unat_of_nat)
  then show ?thesis by (metis of_nat_unat)
qed

lemma sextet_enc64:
  assumes "i < length d"
  shows "d ! i = enc64 k \<Longrightarrow> base64_sextet d i = Some (word_of_nat (k mod 64), i + 1)"
    and "d ! i = 61 \<Longrightarrow> base64_sextet d i = Some (0, i + 1)"
proof -
  have k: "enc64 k = enc64 (k mod 64)" by (simp add: enc64_def)
  have "ucast (word_of_nat (k mod 64) :: u8) = (word_of_nat (k mod 64) :: u32)"
    by (rule ucast_small) (use mod_less_divisor [of 64 k] in linarith)
  then show "d ! i = enc64 k \<Longrightarrow> base64_sextet d i = Some (word_of_nat (k mod 64), i + 1)"
    using tables_inverse [of "k mod 64"] assms by (simp add: base64_sextet_def rd_in k)
  show "d ! i = 61 \<Longrightarrow> base64_sextet d i = Some (0, i + 1)"
    using assms by (simp add: base64_sextet_def rd_in)
qed

lemma get_byte:
  assumes "j < len \<longrightarrow> j < length odata"
  shows "base64_get len (word_of_nat (triple_of a b c)) 16 (j, odata) =
     Some (if j < len then (j + 1, odata[j := a]) else (j, odata))"
    and "base64_get len (word_of_nat (triple_of a b c)) 8 (j, odata) =
     Some (if j < len then (j + 1, odata[j := b]) else (j, odata))"
    and "base64_get len (word_of_nat (triple_of a b c)) 0 (j, odata) =
     Some (if j < len then (j + 1, odata[j := c]) else (j, odata))"
  using bytes_triple [of a b c] assms
  by (simp_all only: base64_get_def ucast_and_FF unat_triple power_0 div_by_1) (simp_all add: wr_in)

lemma decode_stop: "\<not> i < ilen \<Longrightarrow> base64_decode_loop d ilen len i j odata = Some odata"
  by (subst base64_decode_loop.simps) simp

lemma decode_step:
  assumes "i < n" and "t = triple_of a b c"
    and "base64_sextet d i = Some (word_of_nat (t div 2 ^ 18 mod 64), i + 1)"
    and "base64_sextet d (i + 1) = Some (word_of_nat (t div 2 ^ 12 mod 64), i + 2)"
    and "base64_sextet d (i + 2) = Some (word_of_nat (t div 2 ^ 6 mod 64), i + 3)"
    and "base64_sextet d (i + 3) = Some (word_of_nat (t mod 64), i + 4)"
  shows "base64_decode_loop d n len i j odata = do {
    s \<leftarrow> base64_get len (word_of_nat (triple_of a b c)) 16 (j, odata);
    s \<leftarrow> base64_get len (word_of_nat (triple_of a b c)) 8 s;
    (j, odata) \<leftarrow> base64_get len (word_of_nat (triple_of a b c)) 0 s;
    base64_decode_loop d n len (i + 4) j odata }"
proof -
  have "t < 2 ^ 24" using triple_of_bound assms(2) by simp
  from sextets_triple [OF this] show ?thesis
    using assms(1)
    by (subst base64_decode_loop.simps)
      (simp only: assms(3-6) Let_def if_True prod.case Option.bind.bind_lunit assms(2) [symmetric])
qed

lemma triple_low:
  "triple_of a 0 0 div 64 mod 64 = 0" "triple_of a 0 0 mod 64 = 0" "triple_of a b 0 mod 64 = 0"
  by (simp_all add: triple_of_def)

lemma get_three:
  fixes f :: "nat \<Rightarrow> bytes \<Rightarrow> bytes option"
  assumes "length ys = m" and "len = length out + m"
  shows "m = 1 \<Longrightarrow> do {
      s \<leftarrow> base64_get len (word_of_nat (triple_of a b c)) 16 (length out, out @ ys @ zs);
      s \<leftarrow> base64_get len (word_of_nat (triple_of a b c)) 8 s;
      (j, odata) \<leftarrow> base64_get len (word_of_nat (triple_of a b c)) 0 s;
      f j odata } = f (length out + 1) (out @ a # zs)"
    and "m = 2 \<Longrightarrow> do {
      s \<leftarrow> base64_get len (word_of_nat (triple_of a b c)) 16 (length out, out @ ys @ zs);
      s \<leftarrow> base64_get len (word_of_nat (triple_of a b c)) 8 s;
      (j, odata) \<leftarrow> base64_get len (word_of_nat (triple_of a b c)) 0 s;
      f j odata } = f (length out + 2) (out @ a # b # zs)"
    and "2 < m \<Longrightarrow> do {
      s \<leftarrow> base64_get len (word_of_nat (triple_of a b c)) 16 (length out, out @ ys @ zs);
      s \<leftarrow> base64_get len (word_of_nat (triple_of a b c)) 8 s;
      (j, odata) \<leftarrow> base64_get len (word_of_nat (triple_of a b c)) 0 s;
      f j odata } = f (Suc (Suc (Suc (length out)))) (out @ a # b # c # drop 3 ys @ zs)"
proof -
  assume "m = 1"
  then obtain y where "ys = [y]" using assms(1) by (auto simp: length_Suc_conv)
  then show "do {
      s \<leftarrow> base64_get len (word_of_nat (triple_of a b c)) 16 (length out, out @ ys @ zs);
      s \<leftarrow> base64_get len (word_of_nat (triple_of a b c)) 8 s;
      (j, odata) \<leftarrow> base64_get len (word_of_nat (triple_of a b c)) 0 s;
      f j odata } = f (length out + 1) (out @ a # zs)"
    using \<open>m = 1\<close> assms(2) by (simp add: get_byte)
next
  assume "m = 2"
  then obtain y z where "ys = [y, z]" using assms(1) by (auto simp: length_Suc_conv numeral_2_eq_2)
  then show "do {
      s \<leftarrow> base64_get len (word_of_nat (triple_of a b c)) 16 (length out, out @ ys @ zs);
      s \<leftarrow> base64_get len (word_of_nat (triple_of a b c)) 8 s;
      (j, odata) \<leftarrow> base64_get len (word_of_nat (triple_of a b c)) 0 s;
      f j odata } = f (length out + 2) (out @ a # b # zs)"
    using \<open>m = 2\<close> assms(2) by (simp add: get_byte list_update_append)
next
  assume "2 < m"
  then obtain x y z ws where "ys = x # y # z # ws" 
    using assms(1) by (metis One_nat_def Suc_1 Suc_leI length_Suc_conv less_imp_Suc_add add_Suc)
  then show "do {
      s \<leftarrow> base64_get len (word_of_nat (triple_of a b c)) 16 (length out, out @ ys @ zs);
      s \<leftarrow> base64_get len (word_of_nat (triple_of a b c)) 8 s;
      (j, odata) \<leftarrow> base64_get len (word_of_nat (triple_of a b c)) 0 s;
      f j odata } = f (Suc (Suc (Suc (length out)))) (out @ a # b # c # drop 3 ys @ zs)"
    using \<open>2 < m\<close> assms by (simp add: get_byte list_update_append numeral_3_eq_3)
qed

lemma decode_loop:
  assumes "length ys = length xs"
  shows "base64_decode_loop (pre @ base64 xs) (length (pre @ base64 xs)) (length out + length xs)
    (length pre) (length out) (out @ ys @ zs) = Some (out @ xs @ zs)"
  using assms
proof (induction xs arbitrary: pre out ys rule: base64.induct)
  case 1
  then show ?case by (simp add: decode_stop)
next
  case (2 a)
  then show ?case
    using get_three(1) [of ys 1 "length out + length [a]" out a 0 0 zs]
    by (subst decode_step [where t = "triple_of a 0 0" and a = a and b = 0 and c = 0])
      (auto simp: sextet_enc64 nth_append quad_list triple_low decode_stop)
next
  case (3 a b)
  then show ?case
    using get_three(2) [of ys 2 "length out + length [a, b]" out a b 0 zs]
    by (subst decode_step [where t = "triple_of a b 0" and a = a and b = b and c = 0])
      (auto simp: sextet_enc64 nth_append quad_list triple_low decode_stop)
next
  case (4 a b c xs)
  let ?n = "length pre + 4 + length (base64 xs)"
  have l: "length (pre @ base64 (a # b # c # xs)) = ?n" by simp
  have ws: "length (drop 3 ys) = length xs" using 4(2) by simp
  have "base64_decode_loop (pre @ base64 (a # b # c # xs)) ?n (length out + length (a # b # c # xs))
      (length pre) (length out) (out @ ys @ zs) =
    base64_decode_loop (pre @ base64 (a # b # c # xs)) ?n (length out + length (a # b # c # xs))
      (length pre + 4) (Suc (Suc (Suc (length out)))) (out @ a # b # c # drop 3 ys @ zs)"
    using get_three(3) [of ys "length ys" "length out + length (a # b # c # xs)" out a b c zs] 4(2)
    by (subst decode_step [where t = "triple_of a b c" and a = a and b = b and c = c])
      (auto simp: sextet_enc64 nth_append quad_list)
  then show ?case
    using "4.IH" [OF ws, of "pre @ quad a b c" "out @ [a, b, c]"] unfolding l by (simp add: add.assoc)
qed

section \<open>Round trip\<close>

lemma enc64_not_pad: "enc64 k \<noteq> 61"
  using tables_inverse [of "k mod 64"] by (simp add: enc64_def)

lemma last_chars:
  assumes "xs \<noteq> []"
  shows "base64 xs ! (length (base64 xs) - 1) = 61 \<longleftrightarrow> length xs mod 3 \<noteq> 0"
    and "base64 xs ! (length (base64 xs) - 2) = 61 \<longleftrightarrow> length xs mod 3 = 1"
  using assms
proof (induction xs rule: base64.induct)
  case (4 a b c xs)
  have len: "xs \<noteq> [] \<Longrightarrow> length (base64 (a # b # c # xs)) - 1 = length (quad a b c) + (length (base64 xs) - 1)"
    "xs \<noteq> [] \<Longrightarrow> length (base64 (a # b # c # xs)) - 2 = length (quad a b c) + (length (base64 xs) - 2)"
    by (cases xs; simp)+
  {
    case 1
    show ?case
    proof (cases "xs = []")
      case False
      then show ?thesis using "4.IH"(1) unfolding len(1) [OF False] unfolding base64.simps nth_append_length_plus by simp
    qed (simp add: quad_list enc64_not_pad)
  next
    case 2
    show ?case
    proof (cases "xs = []")
      case False
      then show ?thesis using "4.IH"(2) unfolding len(2) [OF False] unfolding base64.simps nth_append_length_plus by simp
    qed (simp add: quad_list enc64_not_pad)
  }
qed (auto simp: quad_list enc64_not_pad)

lemma round3: "(n + 2) div 3 * 3 - (if n mod 3 \<noteq> 0 then 1 else 0) - (if n mod 3 = 1 then 1 else 0) = (n :: nat)"
proof -
  obtain q r where n: "n = 3 * q + r" and "r < 3"
    by (metis mod_less_divisor mult_div_mod_eq zero_less_numeral)
  then consider "r = 0" | "r = 1" | "r = 2" by linarith
  moreover have "n mod 3 = r" using n \<open>r < 3\<close> by simp
  moreover have "(n + 2) div 3 = q + (r + 2) div 3" unfolding n by simp
  ultimately show ?thesis using n by cases simp_all
qed

text \<open>C21. Base64 encoding into a buffer that is large enough stores the RFC 4648 encoding, leaves the
  rest of the buffer alone and returns its length, and decoding those characters gives back the
  bytes and their number: for every input of up to 2^29 bytes, padded or not.\<close>

theorem base64_roundtrip:
  assumes "xs \<noteq> []" and "length xs < 2 ^ 29"
    and "length (base64 xs) \<le> unat olen" and "unat olen = length out"
    and "length xs \<le> unat dlen" and "unat dlen = length dst"
  shows "wow_base64_encode (Some xs) (word_of_nat (length xs)) (Some out) olen =
      Some (int (length (base64 xs)), Some (base64 xs @ drop (length (base64 xs)) out)) \<and>
    wow_base64_decode (Some (base64 xs)) (word_of_nat (length (base64 xs))) (Some dst) dlen =
      Some (int (length xs), Some (xs @ drop (length xs) dst))"
proof -
  let ?n = "length xs" and ?m = "length (base64 xs)"
  have n: "0 < ?n" "0 < ?m" "?m < 2 ^ 31" "?m = 4 * ((?n + 2) div 3)" "?m \<ge> 4" "?n \<le> ?m"
    using assms(1,2) by (auto simp flip: length_greater_0_conv)
  have "unat (word_of_nat k :: u32) = k" "sint (word_of_nat k :: u32) = int k" if "k < 2 ^ 31" for k
    using that by (simp_all add: unat_of_nat signed_of_nat signed_take_bit_int_eq_self)
  from this(1) [of ?n] this(2) [of ?n] this(1) [OF n(3)] this(2) [OF n(3)] assms(2)
  have un: "unat (word_of_nat ?n :: u32) = ?n" "unat (word_of_nat ?m :: u32) = ?m"
    and sn: "sint (word_of_nat ?n :: u32) = int ?n" "sint (word_of_nat ?m :: u32) = int ?m"
    by simp_all
  have w0: "word_of_nat ?n \<noteq> (0 :: u32)" "word_of_nat ?m \<noteq> (0 :: u32)" "olen \<noteq> 0" "dlen \<noteq> 0"
    using un n assms(3,5) by (metis unat_0 less_numeral_extra(3) le_zero_eq)+
  have len: "wrap32 (4 * (wrap32 (?n + 2) div 3)) = ?m"
    using n assms(2) by (simp add: wrap32_small)
  have raw: "length (base64_raw xs) = ?m" by simp
  have "base64_encode_loop xs ?n 0 0 out = Some (base64_raw xs @ drop ?m out)"
    using encode_loop [of "take ?m out" xs "[]" "[]" "drop ?m out"] n(3) assms(3,4) raw by simp
  moreover have "base64_pad ?m 0 (g_modTable ! (?n mod 3)) (base64_raw xs @ drop ?m out) =
      Some (base64 xs @ drop ?m out)"
    using pad_raw [of "[]" xs "drop ?m out"] raw by simp
  ultimately have "wow_base64_encode (Some xs) (word_of_nat ?n) (Some out) olen =
      Some (int ?m, Some (base64 xs @ drop ?m out))"
    using w0 assms(3) sn
    by (simp only: wow_base64_encode_def prod.case option.case un len Let_def if_False simp_thms
        Option.bind.bind_lunit)
  moreover have "wow_base64_decode (Some (base64 xs)) (word_of_nat ?m) (Some dst) dlen =
      Some (int ?n, Some (xs @ drop ?n dst))"
  proof -
    let ?c1 = "base64 xs ! (?m - 1)" and ?c2 = "base64 xs ! (?m - 2)"
    have rds: "rd (base64 xs) (?m - 1) = Some ?c1" "rd (base64 xs) (?m - 2) = Some ?c2"
      using n by (auto intro!: rd_in)
    have m4: "?m mod 4 = 0" "?m div 4 * 3 = (?n + 2) div 3 * 3" using n(4) by auto
    let ?l = "?m div 4 * 3 - (if ?n mod 3 \<noteq> 0 then 1 else 0)"
    have len1: "(if ?c1 = 61 then ?m div 4 * 3 - 1 else ?m div 4 * 3) = ?l"
      using last_chars(1) [OF assms(1)] by simp
    have "?l - (if ?n mod 3 = 1 then 1 else 0) = ?n"
      unfolding m4(2) by (rule round3)
    then have len2: "(if ?c2 = 61 then ?l - 1 else ?l) = ?n"
      unfolding last_chars(2) [OF assms(1)] by (cases "?n mod 3 = 1") (simp_all only: if_True if_False diff_zero simp_thms)
    have "base64_decode_loop (base64 xs) ?m ?n 0 0 dst = Some (xs @ drop ?n dst)"
      using decode_loop [of "take ?n dst" xs "[]" "[]" "drop ?n dst"] assms(5,6) by simp
    then show ?thesis
      using w0 m4(1) sn assms(5)
      by (simp only: wow_base64_decode_def prod.case option.case un rds len1 len2 Let_def if_False simp_thms
          Option.bind.bind_lunit)
  qed
  ultimately show ?thesis ..
qed

lemma base64_roundtrip_witness:
  "wow_base64_encode (Some [77, 97]) 2 (Some (replicate 5 0)) 5 = Some (4, Some [84, 87, 69, 61, 0]) \<and>
   wow_base64_decode (Some [84, 87, 69, 61]) 4 (Some (replicate 2 0)) 2 = Some (2, Some [77, 97])"
proof -
  have "base64 [77, 97] = [84, 87, 69, 61]"
    by (simp add: quad_list triple_of_def enc64_def g_encodingTable_def)
  with base64_roundtrip [of "[77, 97]" 5 "replicate 5 0" 2 "replicate 2 0"] show ?thesis
    by simp
qed

end
