(* ===== verification/Hex.thy ===== *)
theory Hex
  imports SizeT Errno
begin

text \<open>
  Hexadecimal text of \<open>wow_hex.c\<close>: printing bytes and parsing them back. Characters are bytes, a
  null pointer is \<open>None\<close>; the loop counter is an \<open>int\<close>, whose overflow is undefined.
\<close>

section \<open>Printing\<close>

definition hexval :: "bytes" where
  "hexval = [48, 49, 50, 51, 52, 53, 54, 55, 56, 57, 97, 98, 99, 100, 101, 102]"

partial_function (option) hex_print_loop :: "bytes \<Rightarrow> nat \<Rightarrow> nat \<Rightarrow> bytes \<Rightarrow> bytes option" where
  "hex_print_loop idata ilen i odata =
     (if i < ilen then do {
        x \<leftarrow> rd idata i;
        h \<leftarrow> rd hexval (unat (drop_bit 4 x AND 0xF));
        odata \<leftarrow> wr odata (i * 2) h;
        l \<leftarrow> rd hexval (unat (x AND 0x0F));
        odata \<leftarrow> wr odata (i * 2 + 1) l;
        i \<leftarrow> int_succ i;
        hex_print_loop idata ilen i odata }
      else Some odata)"

definition ByteArray2HexStr ::
  "bytes option \<Rightarrow> size_t \<Rightarrow> bytes option \<Rightarrow> size_t \<Rightarrow> (int \<times> bytes option) option" where
  "ByteArray2HexStr pu8Idata snIlen pu8Odata snOlen =
     (case (pu8Idata, pu8Odata) of
        (Some idata, Some odata) \<Rightarrow>
          if \<not> snOlen \<ge> 2 * snIlen then Some (- PARAM_INPUT_ARG_INVALID, pu8Odata)
          else do {
            odata \<leftarrow> hex_print_loop idata (unat snIlen) 0 odata;
            Some (WOW_SUCCESS, Some odata) }
      | _ \<Rightarrow> Some (- PARAM_INPUT_DATA_IS_NULL, pu8Odata))"

section \<open>Parsing\<close>

text \<open>The value of a digit; \<open>char\<close> is signed, so bytes from 128 on are below every digit.\<close>

definition hex_digit :: "u8 \<Rightarrow> u8 option" where
  "hex_digit c =
     (let ch = sint c in
      if 48 \<le> ch \<and> ch \<le> 57 then Some (c - 48)
      else if 65 \<le> ch \<and> ch \<le> 70 then Some (c - 65 + 10)
      else if 97 \<le> ch \<and> ch \<le> 102 then Some (c - 97 + 10)
      else None)"

text \<open>\<open>True\<close>: all digits were valid. What was stored before a bad digit stays.\<close>

partial_function (option) hex_parse_loop :: "bytes \<Rightarrow> nat \<Rightarrow> nat \<Rightarrow> bytes \<Rightarrow> (bool \<times> bytes) option" where
  "hex_parse_loop idata n i odata =
     (if i < n then do {
        c1 \<leftarrow> rd idata (i * 2);
        case hex_digit c1 of
          None \<Rightarrow> Some (False, odata)
        | Some h \<Rightarrow> do {
            odata \<leftarrow> wr odata i h;
            c2 \<leftarrow> rd idata (i * 2 + 1);
            case hex_digit c2 of
              None \<Rightarrow> Some (False, odata)
            | Some l \<Rightarrow> do {
                x \<leftarrow> rd odata i;
                odata \<leftarrow> wr odata i (push_bit 4 x + l);
                i \<leftarrow> int_succ i;
                hex_parse_loop idata n i odata } } }
      else Some (True, odata))"

definition HexStr2ByteArray ::
  "bytes option \<Rightarrow> size_t \<Rightarrow> bytes option \<Rightarrow> size_t \<Rightarrow> (int \<times> bytes option) option" where
  "HexStr2ByteArray pu8Idata snIlen pu8Odata snOlen =
     (case (pu8Idata, pu8Odata) of
        (Some idata, Some odata) \<Rightarrow>
          if \<not> snOlen \<ge> snIlen div 2 then Some (- PARAM_INPUT_ARG_INVALID, pu8Odata)
          else do {
            (ok, odata) \<leftarrow> hex_parse_loop idata (unat snIlen div 2) 0 odata;
            Some (if ok then WOW_SUCCESS else - PARAM_INPUT_DATA_ERROR, Some odata) }
      | _ \<Rightarrow> Some (- PARAM_INPUT_DATA_IS_NULL, pu8Odata))"

section \<open>One byte\<close>

definition hex_of :: "u8 \<Rightarrow> bytes" where
  "hex_of x = [hexval ! (unat x div 16), hexval ! (unat x mod 16)]"

lemma unat_shift4: "unat (drop_bit 4 x) = unat x div 16" for x :: u8
  unfolding unat_drop_bit_eq by (simp add: drop_bit_eq_div)

lemma hex_nibbles: "unat (drop_bit 4 x AND 0xF) = unat x div 16" "unat (x AND 0x0F) = unat x mod 16"
  for x :: u8
proof -
  have m: "y AND 0xF = take_bit 4 y" for y :: u8 by (simp add: take_bit_eq_mask mask_eq_exp_minus_1)
  have t: "unat (take_bit 4 y) = unat y mod 16" for y :: u8
    unfolding unsigned_take_bit_eq by (simp add: take_bit_eq_mod)
  note d = unat_shift4
  have "unat x div 16 < 16" using unat_u8_bound [of x] by (simp del: unat_u8_bound)
  then show "unat (drop_bit 4 x AND 0xF) = unat x div 16" unfolding m t d by simp
  show "unat (x AND 0x0F) = unat x mod 16" unfolding m t by simp
qed

lemma hex_digit_hexval: "k < 16 \<Longrightarrow> hex_digit (hexval ! k) = Some (word_of_nat k)"
proof -
  have "\<forall>k \<in> set [0..<16]. hex_digit (hexval ! k) = Some (word_of_nat k)" by code_simp
  then show "k < 16 \<Longrightarrow> ?thesis" by simp
qed

lemma nibbles_byte: "push_bit 4 (word_of_nat (unat x div 16)) + word_of_nat (unat x mod 16) = (x :: u8)"
proof -
  have "(word_of_nat (16 * (unat x div 16) + unat x mod 16) :: u8) = word_of_nat (unat x)"
    by (simp only: mult_div_mod_eq)
  moreover have "push_bit 4 (word_of_nat a) + word_of_nat b = (word_of_nat (16 * a + b) :: u8)" for a b
    by (simp add: push_bit_eq_mult mult.commute)
  ultimately show ?thesis by (simp only: of_nat_unat ucast_id)
qed

section \<open>The loops\<close>

lemma length_hexval [simp]: "length hexval = 16"
  by (simp add: hexval_def)

lemma hex_print_loop_text:
  assumes "length ys = 2 * length xs" and "length out = 2 * length pre" and "length (pre @ xs) < 2 ^ 31"
  shows "hex_print_loop (pre @ xs) (length (pre @ xs)) (length pre) (out @ ys @ zs) =
    Some (out @ concat (map hex_of xs) @ zs)"
  using assms
proof (induction xs arbitrary: pre out ys)
  case Nil
  then show ?case by (subst hex_print_loop.simps) simp
next
  case (Cons x xs)
  then obtain u v ws where ys: "ys = u # v # ws" and ws: "length ws = 2 * length xs"
    by (auto simp: length_Suc_conv)
  have d: "unat x div 16 < 16" using unat_u8_bound [of x] by (simp del: unat_u8_bound)
  have "hex_print_loop (pre @ x # xs) (length (pre @ x # xs)) (length pre) (out @ ys @ zs) =
      hex_print_loop ((pre @ [x]) @ xs) (length ((pre @ [x]) @ xs)) (length (pre @ [x]))
        ((out @ hex_of x) @ ws @ zs)"
    using Cons.prems d
    by (subst hex_print_loop.simps)
      (simp add: rd_def wr_def hex_nibbles unat_shift4 ys hex_of_def list_update_append int_succ_Some mult.commute)
  also have "\<dots> = Some ((out @ hex_of x) @ concat (map hex_of xs) @ zs)"
    using Cons.prems ws by (intro Cons.IH) (auto simp: hex_of_def)
  finally show ?case by simp
qed

text \<open>Pairs of digits, from the left; a trailing odd character is ignored.\<close>

fun hex_bytes :: "bytes \<Rightarrow> bytes option" where
  "hex_bytes (c1 # c2 # cs) = do {
     h \<leftarrow> hex_digit c1;
     l \<leftarrow> hex_digit c2;
     xs \<leftarrow> hex_bytes cs;
     Some ((push_bit 4 h + l) # xs) }"
| "hex_bytes _ = Some []"

lemma hex_bytes_text: "hex_bytes (concat (map hex_of xs)) = Some xs"
proof (induction xs)
  case (Cons x xs)
  have "unat x div 16 < 16" using unat_u8_bound [of x] by (simp del: unat_u8_bound)
  with Cons show ?case by (simp add: hex_of_def hex_digit_hexval nibbles_byte)
qed simp

lemma hex_parse_loop_bytes:
  assumes "length ys = length cs div 2" and "length pre = 2 * length out"
    and "length out + length cs div 2 < 2 ^ 31"
  shows "\<exists>r. hex_parse_loop (pre @ cs) (length out + length cs div 2) (length out) (out @ ys @ zs) = Some r \<and>
    (case hex_bytes cs of None \<Rightarrow> \<not> fst r | Some xs \<Rightarrow> r = (True, out @ xs @ zs))"
  using assms
proof (induction cs arbitrary: pre out ys rule: hex_bytes.induct)
  case (1 c1 c2 cs)
  then obtain y ws where ys: "ys = y # ws" and ws: "length ws = length cs div 2"
    by (auto simp: length_Suc_conv)
  note s = rd_def wr_def ys list_update_append int_succ_Some mult.commute nth_append
  show ?case
  proof (cases "hex_digit c1")
    case None
    then show ?thesis using "1.prems" by (subst hex_parse_loop.simps) (simp add: s)
  next
    case h: (Some h)
    show ?thesis
    proof (cases "hex_digit c2")
      case None
      then show ?thesis using "1.prems" h by (subst hex_parse_loop.simps) (simp add: s)
    next
      case l: (Some l)
      have "hex_parse_loop (pre @ c1 # c2 # cs) (length out + length (c1 # c2 # cs) div 2) (length out) (out @ ys @ zs) =
        hex_parse_loop ((pre @ [c1, c2]) @ cs) (length (out @ [push_bit 4 h + l]) + length cs div 2)
          (length (out @ [push_bit 4 h + l])) ((out @ [push_bit 4 h + l]) @ ws @ zs)"
        using "1.prems" h l by (subst hex_parse_loop.simps) (simp add: s)
      moreover obtain r where "hex_parse_loop ((pre @ [c1, c2]) @ cs) (length (out @ [push_bit 4 h + l]) + length cs div 2)
          (length (out @ [push_bit 4 h + l])) ((out @ [push_bit 4 h + l]) @ ws @ zs) = Some r"
        "case hex_bytes cs of None \<Rightarrow> \<not> fst r | Some xs \<Rightarrow> r = (True, (out @ [push_bit 4 h + l]) @ xs @ zs)"
        using "1.IH" [OF h l ws, of "pre @ [c1, c2]" "out @ [push_bit 4 h + l]"] "1.prems" by auto
      ultimately show ?thesis using h l by (auto split: option.splits)
    qed
  qed
qed (subst hex_parse_loop.simps, simp)+

section \<open>Parsing what was not printed\<close>

definition hex_char :: "u8 \<Rightarrow> bool" where
  "hex_char c \<longleftrightarrow> 48 \<le> c \<and> c \<le> 57 \<or> 65 \<le> c \<and> c \<le> 70 \<or> 97 \<le> c \<and> c \<le> 102"

definition hex_lower :: "u8 \<Rightarrow> u8" where
  "hex_lower c = (if 65 \<le> c \<and> c \<le> 70 then c + 32 else c)"

lemma all_u8: "(\<forall>c. P c) \<longleftrightarrow> (\<forall>n \<in> set [0..<256]. P (word_of_nat n :: u8))"
proof
  assume a: "\<forall>n \<in> set [0..<256]. P (word_of_nat n)"
  show "\<forall>c. P c"
  proof
    fix c :: u8
    have "unat c \<in> set [0..<256]" using unat_u8_bound [of c] by simp
    from bspec [OF a this] show "P c" by (simp only: of_nat_unat ucast_id)
  qed
qed simp

lemma hex_digit_char: "(hex_digit c = None) = (\<not> hex_char c)"
  and hex_digit_lower: "hex_digit c = Some h \<Longrightarrow> unat h < 16 \<and> hexval ! unat h = hex_lower c"
proof -
  have "\<forall>c. case hex_digit c of None \<Rightarrow> \<not> hex_char c | Some h \<Rightarrow> hex_char c \<and> unat h < 16 \<and> hexval ! unat h = hex_lower c"
    unfolding all_u8 by code_simp
  from spec [OF this, of c] show "(hex_digit c = None) = (\<not> hex_char c)"
    "hex_digit c = Some h \<Longrightarrow> unat h < 16 \<and> hexval ! unat h = hex_lower c"
    by (auto split: option.splits)
qed

lemma hex_of_digits:
  assumes "hex_digit c1 = Some h" and "hex_digit c2 = Some l"
  shows "hex_of (push_bit 4 h + l) = [hex_lower c1, hex_lower c2]"
proof -
  note d = hex_digit_lower [OF assms(1)] hex_digit_lower [OF assms(2)]
  have "push_bit 4 h + l = (word_of_nat (16 * unat h + unat l) :: u8)"
    by (simp add: push_bit_eq_mult mult.commute)
  moreover have "16 * unat h + unat l < 256" using d by linarith
  ultimately have "unat (push_bit 4 h + l) = 16 * unat h + unat l" by (simp only: unat_of_nat) simp
  then show ?thesis using d by (simp add: hex_of_def)
qed

text \<open>The digits that are read: all of a text of even length, all but the last character of one of odd length.\<close>

definition hex_body :: "bytes \<Rightarrow> bytes" where
  "hex_body cs = take (2 * (length cs div 2)) cs"

lemma hex_body_Cons [simp]: "hex_body (c1 # c2 # cs) = c1 # c2 # hex_body cs" "hex_body [] = []" "hex_body [c] = []"
  by (simp_all add: hex_body_def)

lemma hex_bytes_None: "(hex_bytes cs = None) = (\<not> list_all hex_char (hex_body cs))"
proof (induction cs rule: hex_bytes.induct)
  case (1 c1 c2 cs)
  then show ?case
    using hex_digit_char [of c1] hex_digit_char [of c2]
    by (cases "hex_digit c1"; cases "hex_digit c2"; cases "hex_bytes cs") auto
qed simp_all

lemma hex_bytes_Some: "hex_bytes cs = Some xs \<Longrightarrow> length xs = length cs div 2 \<and> concat (map hex_of xs) = map hex_lower (hex_body cs)"
  by (induction cs arbitrary: xs rule: hex_bytes.induct) (auto simp: bind_eq_Some_conv hex_of_digits)

text \<open>C22. Hexadecimal text and bytes in both directions. \<open>ByteArray2HexStr\<close> stores two digits per byte and leaves the rest of the
  buffer alone; \<open>HexStr2ByteArray\<close> on these digits returns the bytes. Of any characters \<open>cs\<close> it reads the first \<open>2 * (length cs div 2)\<close>
  characters, ignoring the last one when their number is odd. If they are all digits, of either case, it returns 0, and the bytes it
  stores print as these digits in lower case, the rest of the buffer being left alone; otherwise it returns the error. The bytes are fewer
  than \<open>2 ^ 30\<close> and the text shorter than \<open>2 ^ 31\<close>, and the buffers are large enough but shorter than \<open>2 ^ 32\<close>.\<close>

theorem hex_roundtrip:
  assumes "length xs < 2 ^ 30" and "2 * length xs \<le> length out" and "length xs \<le> length dst"
    and "length out < 2 ^ 32" and "length dst < 2 ^ 32" and "length cs div 2 \<le> length dst" and "length cs < 2 ^ 31"
  shows "ByteArray2HexStr (Some xs) (word_of_nat (length xs)) (Some out) (word_of_nat (length out)) =
      Some (0, Some (concat (map hex_of xs) @ drop (2 * length xs) out)) \<and>
    HexStr2ByteArray (Some (concat (map hex_of xs))) (word_of_nat (2 * length xs)) (Some dst) (word_of_nat (length dst)) =
      Some (0, Some (xs @ drop (length xs) dst)) \<and>
    (if list_all hex_char (hex_body cs)
     then \<exists>ys. HexStr2ByteArray (Some cs) (word_of_nat (length cs)) (Some dst) (word_of_nat (length dst)) =
         Some (0, Some (ys @ drop (length ys) dst)) \<and>
       length ys = length cs div 2 \<and> concat (map hex_of ys) = map hex_lower (hex_body cs)
     else \<exists>d. HexStr2ByteArray (Some cs) (word_of_nat (length cs)) (Some dst) (word_of_nat (length dst)) =
         Some (- PARAM_INPUT_DATA_ERROR, d))"
proof -
  have u: "unat (word_of_nat k :: size_t) = k" if "k < 2 ^ 32" for k
    using that by (simp add: unat_size_of_nat)
  have sizes: "(word_of_nat (length out) :: size_t) \<ge> 2 * word_of_nat (length xs)"
    "(word_of_nat (length dst) :: size_t) \<ge> word_of_nat (2 * length xs) div 2"
    "(word_of_nat (length dst) :: size_t) \<ge> word_of_nat (length cs) div 2"
    using assms u [of "2 * length xs"] by (simp_all add: word_le_nat_alt unat_div u)
  have len: "length (concat (map hex_of xs)) = 2 * length xs"
    by (induction xs) (auto simp: hex_of_def)
  have "hex_print_loop xs (length xs) 0 out = Some (concat (map hex_of xs) @ drop (2 * length xs) out)"
    using hex_print_loop_text [of "take (2 * length xs) out" xs "[]" "[]" "drop (2 * length xs) out"] assms by simp
  then have 1: "ByteArray2HexStr (Some xs) (word_of_nat (length xs)) (Some out) (word_of_nat (length out)) =
      Some (0, Some (concat (map hex_of xs) @ drop (2 * length xs) out))"
    using sizes assms by (simp add: ByteArray2HexStr_def u WOW_SUCCESS_def)
  have parse: "\<exists>r. hex_parse_loop t (length t div 2) 0 dst = Some r \<and>
      (case hex_bytes t of None \<Rightarrow> \<not> fst r | Some ys \<Rightarrow> r = (True, ys @ drop (length t div 2) dst))"
    if "length t div 2 \<le> length dst" "length t < 2 ^ 31" for t
    using hex_parse_loop_bytes [of "take (length t div 2) dst" t "[]" "[]" "drop (length t div 2) dst"] that
      le_less_trans [OF div_le_dividend [of "length t" 2]]
    by (cases "hex_bytes t") auto
  have 2: "HexStr2ByteArray (Some (concat (map hex_of xs))) (word_of_nat (2 * length xs)) (Some dst)
      (word_of_nat (length dst)) = Some (0, Some (xs @ drop (length xs) dst))"
    using parse [of "concat (map hex_of xs)"] sizes assms u [of "2 * length xs"]
    by (auto simp: HexStr2ByteArray_def hex_bytes_text len WOW_SUCCESS_def)
  obtain r where r: "hex_parse_loop cs (length cs div 2) 0 dst = Some r"
    "case hex_bytes cs of None \<Rightarrow> \<not> fst r | Some ys \<Rightarrow> r = (True, ys @ drop (length cs div 2) dst)"
    using parse [of cs] assms by auto
  have "HexStr2ByteArray (Some cs) (word_of_nat (length cs)) (Some dst) (word_of_nat (length dst)) =
      Some (if fst r then 0 else - PARAM_INPUT_DATA_ERROR, Some (snd r))"
    using sizes assms r(1) by (simp add: HexStr2ByteArray_def u WOW_SUCCESS_def split_beta)
  then have 3: "if list_all hex_char (hex_body cs)
     then \<exists>ys. HexStr2ByteArray (Some cs) (word_of_nat (length cs)) (Some dst) (word_of_nat (length dst)) =
         Some (0, Some (ys @ drop (length ys) dst)) \<and>
       length ys = length cs div 2 \<and> concat (map hex_of ys) = map hex_lower (hex_body cs)
     else \<exists>d. HexStr2ByteArray (Some cs) (word_of_nat (length cs)) (Some dst) (word_of_nat (length dst)) =
         Some (- PARAM_INPUT_DATA_ERROR, d)"
    using r(2) hex_bytes_None [of cs] hex_bytes_Some [of cs]
    by (cases "hex_bytes cs") (auto intro!: exI [of _ "the (hex_bytes cs)"])
  with 1 2 show ?thesis by blast
qed

lemma hex_roundtrip_witness:
  "ByteArray2HexStr (Some [0xA5, 7]) 2 (Some (replicate 5 0)) 5 = Some (0, Some [97, 53, 48, 55, 0]) \<and>
   HexStr2ByteArray (Some [97, 53, 48, 55]) 4 (Some (replicate 3 0)) 3 = Some (0, Some [0xA5, 7, 0]) \<and>
   (\<exists>ys. HexStr2ByteArray (Some [65, 66, 71]) 3 (Some (replicate 3 0)) 3 = Some (0, Some (ys @ [0, 0])) \<and> concat (map hex_of ys) = [97, 98])"
proof -
  have "concat (map hex_of [0xA5, 7]) = [97, 53, 48, 55]" by code_simp
  moreover have "hex_body [65, 66, 71] = [65, 66]" "list_all hex_char [65, 66]" "map hex_lower [65, 66] = [97, 98]"
    by (simp_all add: hex_body_def hex_char_def hex_lower_def)
  moreover have "replicate 2 (0 :: u8) = [0, 0]" by (simp add: numeral_2_eq_2)
  ultimately show ?thesis
    using hex_roundtrip [of "[0xA5, 7]" "replicate 5 0" "replicate 3 0" "[65, 66, 71]"] by auto
qed

end
