(* ===== verification/Bitmap.thy ===== *)
theory Bitmap
  imports SizeT Errno
begin

text \<open>
  The bit map of \<open>wow_bitmap.c\<close>: bits packed into checked bytes, and the search for the longest run
  of equal bits.
\<close>

section \<open>The operations\<close>

record BitMap_T =
  bm_length :: u32
  bm_bit :: bytes

definition wow_bitmap_new :: "bool \<Rightarrow> bool \<Rightarrow> size_t \<Rightarrow> BitMap_T option" where
  "wow_bitmap_new calloc_ok malloc_ok snOpacity =
     (if \<not> snOpacity > 0 then None
      else if \<not> calloc_ok then None
      else
        (let bytes = ucast ((snOpacity + 8 - 1) div 8) :: u32 in
         if \<not> malloc_ok then None
         else Some \<lparr>bm_length = ucast snOpacity, bm_bit = replicate (unat bytes) 0\<rparr>))"

definition wow_bitmap_free :: "BitMap_T option \<Rightarrow> BitMap_T option" where
  "wow_bitmap_free pptBitmap = None"

definition bitmap_update ::
  "(u8 \<Rightarrow> u8) \<Rightarrow> BitMap_T option \<Rightarrow> size_t \<Rightarrow> (int \<times> BitMap_T option) option" where
  "bitmap_update f ptBitmap snIdx =
     (case ptBitmap of
        None \<Rightarrow> Some (- PARAM_INPUT_STRUCT_IS_NULL, ptBitmap)
      | Some b \<Rightarrow>
          if \<not> unat snIdx < unat (bm_length b) then Some (- PARAM_INPUT_SIZE_IS_BIG, ptBitmap)
          else do {
            x \<leftarrow> rd (bm_bit b) (unat snIdx div 8);
            bits \<leftarrow> wr (bm_bit b) (unat snIdx div 8) (f x);
            Some (0, Some (b\<lparr>bm_bit := bits\<rparr>)) })"

definition wow_bitmap_set_1 :: "BitMap_T option \<Rightarrow> size_t \<Rightarrow> (int \<times> BitMap_T option) option" where
  "wow_bitmap_set_1 ptBitmap snIdx = bitmap_update (\<lambda>x. x OR push_bit (unat snIdx mod 8) 1) ptBitmap snIdx"

definition wow_bitmap_set_0 :: "BitMap_T option \<Rightarrow> size_t \<Rightarrow> (int \<times> BitMap_T option) option" where
  "wow_bitmap_set_0 ptBitmap snIdx = bitmap_update (\<lambda>x. x AND NOT (push_bit (unat snIdx mod 8) 1)) ptBitmap snIdx"

definition wow_bitmap_get :: "BitMap_T option \<Rightarrow> size_t \<Rightarrow> int option" where
  "wow_bitmap_get ptBitmap snIdx =
     (case ptBitmap of
        None \<Rightarrow> Some (- PARAM_INPUT_STRUCT_IS_NULL)
      | Some b \<Rightarrow>
          if \<not> unat snIdx < unat (bm_length b) then Some (- PARAM_INPUT_SIZE_IS_BIG)
          else do {
            x \<leftarrow> rd (bm_bit b) (unat snIdx div 8);
            Some (if x AND push_bit (unat snIdx mod 8) 1 \<noteq> 0 then 1 else 0) })"

text \<open>The loop of \<open>bitmap_longest_consecutive\<close>; the two results are the best run so far.\<close>

partial_function (option) longest_loop ::
  "BitMap_T \<Rightarrow> int \<Rightarrow> nat \<Rightarrow> int \<Rightarrow> int \<Rightarrow> int \<times> int \<Rightarrow> (int \<times> int) option" where
  "longest_loop b pdata i current_len current_start best =
     (if i < unat (bm_length b) then do {
        bit \<leftarrow> wow_bitmap_get (Some b) (word_of_nat i);
        if bit = pdata then do {
          let current_start = (if current_len = 0 then int i else current_start);
          let current_len = current_len + 1;
          let best = (if current_len > fst best then (current_len, current_start) else best);
          i \<leftarrow> int_succ i;
          longest_loop b pdata i current_len current_start best }
        else do {
          i \<leftarrow> int_succ i;
          longest_loop b pdata i 0 current_start best } }
      else Some best)"

definition bitmap_longest_consecutive :: "BitMap_T \<Rightarrow> int \<Rightarrow> (int \<times> (int \<times> int)) option" where
  "bitmap_longest_consecutive b pdata = do {
     best \<leftarrow> longest_loop b pdata 0 0 (-1) (0, 0);
     Some (0, best) }"

text \<open>The two exported functions; \<open>out\<close> says whether both result pointers are there.\<close>

definition wow_bitmap_longest_consecutive_0 :: "BitMap_T option \<Rightarrow> bool \<Rightarrow> (int \<times> (int \<times> int) option) option" where
  "wow_bitmap_longest_consecutive_0 ptBitmap out =
     (case ptBitmap of
        None \<Rightarrow> Some (- PARAM_INPUT_STRUCT_IS_NULL, None)
      | Some b \<Rightarrow>
          if \<not> out then Some (- PARAM_INPUT_DATA_IS_NULL, None)
          else do { (r, best) \<leftarrow> bitmap_longest_consecutive b 0; Some (r, Some best) })"

definition wow_bitmap_longest_consecutive_1 :: "BitMap_T option \<Rightarrow> bool \<Rightarrow> (int \<times> (int \<times> int) option) option" where
  "wow_bitmap_longest_consecutive_1 ptBitmap out =
     (case ptBitmap of
        None \<Rightarrow> Some (- PARAM_INPUT_STRUCT_IS_NULL, None)
      | Some b \<Rightarrow>
          if \<not> out then Some (- PARAM_INPUT_DATA_IS_NULL, None)
          else do { (r, best) \<leftarrow> bitmap_longest_consecutive b 1; Some (r, Some best) })"

section \<open>A bit map is a list of bits\<close>

definition bits_of :: "BitMap_T \<Rightarrow> bool list" where
  "bits_of b = map (\<lambda>i. bit (bm_bit b ! (i div 8)) (i mod 8)) [0..<unat (bm_length b)]"

definition bitmap_ok :: "BitMap_T \<Rightarrow> bool" where
  "bitmap_ok b \<longleftrightarrow> unat (bm_length b) < 2 ^ 31 \<and> unat (bm_length b) \<le> 8 * length (bm_bit b)"

lemma length_bits_of [simp]: "length (bits_of b) = unat (bm_length b)"
  by (simp add: bits_of_def)

lemma bitmap_get:
  assumes "bitmap_ok b" and "i < unat (bm_length b)"
  shows "wow_bitmap_get (Some b) (word_of_nat i) = Some (if bits_of b ! i then 1 else 0)"
proof -
  have "unat (word_of_nat i :: size_t) = i" using assms by (intro unat_size_of_nat) (auto simp: bitmap_ok_def)
  moreover have "i div 8 < length (bm_bit b)" using assms by (auto simp: bitmap_ok_def)
  ultimately show ?thesis
    using assms(2) bit_iff_and_push_bit_not_eq_0 [of "bm_bit b ! (i div 8)" "i mod 8"]
    by (simp add: wow_bitmap_get_def rd_in bits_of_def)
qed

lemma bit_set_True: "k < 8 \<Longrightarrow> bit (x OR push_bit n 1 :: u8) k = (if k = n then True else bit x k)"
  and bit_set_False: "k < 8 \<Longrightarrow> bit (x AND NOT (push_bit n 1) :: u8) k = (if k = n then False else bit x k)"
  by (auto simp: bit_or_iff bit_and_iff bit_not_iff bit_exp_iff)

lemma bitmap_set:
  assumes "bitmap_ok b" and "i < unat (bm_length b)"
  shows "\<exists>b'. wow_bitmap_set_1 (Some b) (word_of_nat i) = Some (0, Some b') \<and> bitmap_ok b' \<and>
      bits_of b' = (bits_of b)[i := True]"
    and "\<exists>b'. wow_bitmap_set_0 (Some b) (word_of_nat i) = Some (0, Some b') \<and> bitmap_ok b' \<and>
      bits_of b' = (bits_of b)[i := False]"
proof -
  have u: "unat (word_of_nat i :: size_t) = i" using assms by (intro unat_size_of_nat) (auto simp: bitmap_ok_def)
  have i: "i div 8 < length (bm_bit b)" using assms by (auto simp: bitmap_ok_def)
  have upd: "bits_of (b\<lparr>bm_bit := (bm_bit b)[i div 8 := f (bm_bit b ! (i div 8))]\<rparr>) = (bits_of b)[i := v]"
    if f: "\<And>x k. k < 8 \<Longrightarrow> bit (f x) k = (if k = i mod 8 then v else bit x k)" for f v
  proof (rule nth_equalityI)
    fix k
    assume "k < length (bits_of (b\<lparr>bm_bit := (bm_bit b)[i div 8 := f (bm_bit b ! (i div 8))]\<rparr>))"
    then have k: "k < unat (bm_length b)" by simp
    have "k = i" if "k div 8 = i div 8" "k mod 8 = i mod 8"
      using that by (metis div_mult_mod_eq)
    then show "bits_of (b\<lparr>bm_bit := (bm_bit b)[i div 8 := f (bm_bit b ! (i div 8))]\<rparr>) ! k = (bits_of b)[i := v] ! k"
      using k assms i f [of "k mod 8"] by (auto simp: bits_of_def nth_list_update)
  qed simp
  show "\<exists>b'. wow_bitmap_set_1 (Some b) (word_of_nat i) = Some (0, Some b') \<and> bitmap_ok b' \<and>
      bits_of b' = (bits_of b)[i := True]"
    using upd [of "\<lambda>x. x OR push_bit (i mod 8) 1" True, OF bit_set_True] assms u i
    by (auto simp: wow_bitmap_set_1_def bitmap_update_def rd_in wr_in bitmap_ok_def)
  show "\<exists>b'. wow_bitmap_set_0 (Some b) (word_of_nat i) = Some (0, Some b') \<and> bitmap_ok b' \<and>
      bits_of b' = (bits_of b)[i := False]"
    using upd [of "\<lambda>x. x AND NOT (push_bit (i mod 8) 1)" False, OF bit_set_False] assms u i
    by (auto simp: wow_bitmap_set_0_def bitmap_update_def rd_in wr_in bitmap_ok_def)
qed

section \<open>The longest run\<close>

text \<open>A run of \<open>l\<close> values \<open>d\<close> from \<open>s\<close> on, within the first \<open>i\<close> values; the run that ends at \<open>i\<close>, as
  long as it goes; the first of the longest ones.\<close>

definition is_run :: "'a \<Rightarrow> 'a list \<Rightarrow> nat \<Rightarrow> nat \<Rightarrow> nat \<Rightarrow> bool" where
  "is_run d bs i s l \<longleftrightarrow> s + l \<le> i \<and> (\<forall>j. s \<le> j \<and> j < s + l \<longrightarrow> bs ! j = d)"

definition open_run :: "'a \<Rightarrow> 'a list \<Rightarrow> nat \<Rightarrow> nat \<Rightarrow> bool" where
  "open_run d bs i c \<longleftrightarrow> c \<le> i \<and> is_run d bs i (i - c) c \<and> (c < i \<longrightarrow> bs ! (i - c - 1) \<noteq> d)"

definition first_longest :: "'a \<Rightarrow> 'a list \<Rightarrow> nat \<Rightarrow> nat \<Rightarrow> nat \<Rightarrow> bool" where
  "first_longest d bs i s m \<longleftrightarrow> is_run d bs i s m \<and> (m = 0 \<longrightarrow> s = 0) \<and>
     (\<forall>s' l. is_run d bs i s' l \<longrightarrow> l \<le> m \<and> (l = m \<and> 0 < m \<longrightarrow> s \<le> s'))"

lemma open_run_max:
  assumes "open_run d bs i c" and "is_run d bs i s l" and "s + l = i"
  shows "l \<le> c"
proof (rule ccontr)
  assume "\<not> l \<le> c"
  with assms have "c < i" "s \<le> i - c - 1" "i - c - 1 < s + l" by auto
  with assms show False by (auto simp: open_run_def is_run_def)
qed

lemma open_run_Suc:
  assumes "open_run d bs i c"
  shows "open_run d bs (Suc i) (if bs ! i = d then Suc c else 0)"
proof (cases "bs ! i = d")
  case True
  from assms have c: "c \<le> i" and r: "is_run d bs i (i - c) c" and m: "c < i \<longrightarrow> bs ! (i - c - 1) \<noteq> d"
    by (auto simp: open_run_def)
  have "is_run d bs (Suc i) (i - c) (Suc c)" using r True c by (auto simp: is_run_def less_Suc_eq)
  with True c m show ?thesis by (simp add: open_run_def)
next
  case False
  then show ?thesis by (auto simp: open_run_def is_run_def)
qed

lemma run_Suc:
  assumes "is_run d bs (Suc i) s l" and "0 < l"
  shows "is_run d bs i s l \<or> (bs ! i = d \<and> s + l = Suc i \<and> is_run d bs i s (l - 1))"
  using assms by (auto simp: is_run_def le_Suc_eq)

lemma first_longest_Suc:
  assumes "first_longest d bs i s m" and "open_run d bs i c"
  shows "first_longest d bs (Suc i) (if bs ! i = d \<and> m < Suc c then i - c else s)
    (if bs ! i = d \<and> m < Suc c then Suc c else m)"
proof -
  have last: "l - 1 \<le> c" if "is_run d bs i s' (l - 1)" "s' + l = Suc i" "0 < l" for s' l
    using open_run_max [OF assms(2) that(1)] that(2,3) by simp
  show ?thesis
  proof (cases "bs ! i = d \<and> m < Suc c")
    case True
    have "is_run d bs (Suc i) (i - c) (Suc c)"
      using assms(2) True by (auto simp: open_run_def is_run_def less_Suc_eq)
    moreover have "l \<le> Suc c \<and> (l = Suc c \<longrightarrow> i - c \<le> s')" if r: "is_run d bs (Suc i) s' l" for s' l
    proof (cases "l = 0")
      case False
      from run_Suc [OF r] False consider "is_run d bs i s' l" | "s' + l = Suc i" "is_run d bs i s' (l - 1)" by auto
      then show ?thesis
      proof cases
        case 1
        with assms(1) have "l \<le> m" by (auto simp: first_longest_def)
        with True show ?thesis by simp
      next
        case 2
        with last [OF 2(2,1)] False show ?thesis by auto
      qed
    qed simp
    ultimately show ?thesis using True by (auto simp: first_longest_def)
  next
    case False
    have "is_run d bs (Suc i) s m" using assms(1) by (auto simp: first_longest_def is_run_def)
    moreover have "l \<le> m \<and> (l = m \<and> 0 < m \<longrightarrow> s \<le> s')" if r: "is_run d bs (Suc i) s' l" for s' l
    proof (cases "l = 0")
      case ne: False
      from run_Suc [OF r] ne consider "is_run d bs i s' l"
        | "bs ! i = d" "s' + l = Suc i" "is_run d bs i s' (l - 1)" by auto
      then show ?thesis
      proof cases
        case 1
        with assms(1) show ?thesis by (auto simp: first_longest_def)
      next
        case 2
        with last [OF 2(3,2)] ne False have "l \<le> m" by auto
        moreover have "s + m \<le> i" using assms(1) by (auto simp: first_longest_def is_run_def)
        ultimately show ?thesis using 2(2) by auto
      qed
    qed simp
    moreover have "m = 0 \<longrightarrow> s = 0" using assms(1) by (simp add: first_longest_def)
    ultimately show ?thesis unfolding first_longest_def by (simp only: False if_False) blast
  qed
qed

lemma longest_loop_result:
  assumes "bitmap_ok b" and "i + k = unat (bm_length b)" and "d \<in> {0, 1}"
    and "open_run (d = 1) (bits_of b) i c" and "0 < c \<longrightarrow> st = int (i - c)"
    and "first_longest (d = 1) (bits_of b) i s m"
  shows "\<exists>s' m'. longest_loop b d i (int c) st (int m, int s) = Some (int m', int s') \<and>
    first_longest (d = 1) (bits_of b) (unat (bm_length b)) s' m'"
  using assms(2,4-6)
proof (induction k arbitrary: i c st s m)
  case 0
  then show ?case by (subst longest_loop.simps) auto
next
  case (Suc k)
  have i: "i < unat (bm_length b)" using Suc.prems(1) by simp
  have si: "int_succ i = Some (Suc i)"
    using assms(1) i by (intro int_succ_Some) (auto simp: bitmap_ok_def)
  have get: "wow_bitmap_get (Some b) (word_of_nat i) = Some (if bits_of b ! i then 1 else 0)"
    using bitmap_get [OF assms(1) i] .
  note open' = open_run_Suc [OF Suc.prems(2)] and best' = first_longest_Suc [OF Suc.prems(4,2)]
  have ci: "c \<le> i" using Suc.prems(2) by (simp add: open_run_def)
  show ?case
  proof (cases "bits_of b ! i = (d = 1)")
    case True
    have getd: "wow_bitmap_get (Some b) (word_of_nat i) = Some d" using get True assms(3) by auto
    have st: "(if int c = 0 then int i else st) = int (i - c)" using Suc.prems(3) by auto
    have cs: "int c + 1 = int (Suc c)" by simp
    have best: "(if int (Suc c) > int m then (int (Suc c), int (i - c)) else (int m, int s)) =
        (int (if m < Suc c then Suc c else m), int (if m < Suc c then i - c else s))" by auto
    obtain m1 s1 where ms: "m1 = (if m < Suc c then Suc c else m)" "s1 = (if m < Suc c then i - c else s)"
      by simp
    have step: "longest_loop b d i (int c) st (int m, int s) =
        longest_loop b d (Suc i) (int (Suc c)) (int (i - c)) (int m1, int s1)"
      unfolding ms
      by (subst longest_loop.simps)
        (simp only: i getd Let_def st si fst_conv cs best simp_thms if_True Option.bind.bind_lunit)
    have "open_run (d = 1) (bits_of b) (Suc i) (Suc c)" using open' True by (simp only: if_True simp_thms)
    moreover have "first_longest (d = 1) (bits_of b) (Suc i) s1 m1"
      using best' True unfolding ms by (simp only: simp_thms)
    moreover have "Suc i + k = unat (bm_length b)" "0 < Suc c \<longrightarrow> int (i - c) = int (Suc i - Suc c)"
      using Suc.prems(1) by simp_all
    ultimately show ?thesis unfolding step by (intro Suc.IH)
  next
    case False
    obtain e where gete: "wow_bitmap_get (Some b) (word_of_nat i) = Some e" and e: "e \<noteq> d"
      using get False assms(3) by (auto split: if_splits)
    have "longest_loop b d i (int c) st (int m, int s) = longest_loop b d (Suc i) (int 0) st (int m, int s)"
      by (subst longest_loop.simps)
        (simp only: i gete e si if_True if_False semiring_1_class.of_nat_0 Option.bind.bind_lunit)
    then show ?thesis
      using Suc.IH [of "Suc i" 0 st s m] Suc.prems(1) open' best' False by simp
  qed
qed

lemma longest_result:
  assumes "bitmap_ok b" and "d \<in> {0, 1}"
  shows "\<exists>s m. bitmap_longest_consecutive b d = Some (0, (int m, int s)) \<and>
    first_longest (d = 1) (bits_of b) (unat (bm_length b)) s m"
proof -
  have "open_run (d = 1) (bits_of b) 0 0" "first_longest (d = 1) (bits_of b) 0 0 0"
    by (auto simp: open_run_def first_longest_def is_run_def)
  from longest_loop_result [OF assms(1) _ assms(2) this(1) _ this(2), of "unat (bm_length b)" "-1"]
  show ?thesis by (auto simp: bitmap_longest_consecutive_def)
qed

section \<open>Histories\<close>

fun bitmap_run :: "(nat \<times> bool) list \<Rightarrow> BitMap_T option \<Rightarrow> BitMap_T option option" where
  "bitmap_run [] b = Some b"
| "bitmap_run ((i, v) # ops) b = do {
     (_, b) \<leftarrow> (if v then wow_bitmap_set_1 b (word_of_nat i) else wow_bitmap_set_0 b (word_of_nat i));
     bitmap_run ops b }"

lemma bitmap_run_bits:
  assumes "bitmap_ok b" and "\<forall>(i, v) \<in> set ops. i < 2 ^ 63"
  shows "\<exists>b'. bitmap_run ops (Some b) = Some (Some b') \<and> bitmap_ok b' \<and>
    bits_of b' = fold (\<lambda>(i, v) bs. bs[i := v]) ops (bits_of b)"
  using assms
proof (induction ops arbitrary: b)
  case Nil
  then show ?case by simp
next
  case (Cons op ops)
  obtain i v where op: "op = (i, v)" by (cases op)
  have "\<exists>r b1. (if v then wow_bitmap_set_1 (Some b) (word_of_nat i) else wow_bitmap_set_0 (Some b) (word_of_nat i)) =
      Some (r, Some b1) \<and> bitmap_ok b1 \<and> bits_of b1 = (bits_of b)[i := v]"
  proof (cases "i < unat (bm_length b)")
    case True
    then show ?thesis using bitmap_set [OF Cons.prems(1) True] by (cases v) auto
  next
    case False
    have "unat (word_of_nat i :: size_t) = i" using Cons.prems(2) op by (simp add: unat_size_of_nat)
    then show ?thesis
      using False Cons.prems(1)
      by (simp add: wow_bitmap_set_1_def wow_bitmap_set_0_def bitmap_update_def list_update_beyond)
  qed
  then obtain r b1 where "(if v then wow_bitmap_set_1 (Some b) (word_of_nat i) else wow_bitmap_set_0 (Some b) (word_of_nat i)) =
      Some (r, Some b1)" "bitmap_ok b1" "bits_of b1 = (bits_of b)[i := v]" by blast
  with Cons.IH [of b1] Cons.prems(2) op show ?case by simp
qed

lemma bitmap_new_bits:
  assumes "0 < n" and "n < 2 ^ 31"
  shows "\<exists>b. wow_bitmap_new True True (word_of_nat n) = Some b \<and> bitmap_ok b \<and> bits_of b = replicate n False"
proof -
  have n: "unat (word_of_nat n :: size_t) = n" using assms by (simp add: unat_size_of_nat)
  have len: "unat (ucast (word_of_nat n :: size_t) :: u32) = n"
    using assms n by (simp add: unat_u32_of_size)
  have "unat (word_of_nat n + 8 - 1 :: size_t) = n + 7"
    using n assms by (simp add: unat_size_diff unat_size_add)
  then have "unat ((word_of_nat n + 8 - 1) div 8 :: size_t) = (n + 7) div 8"
    by (simp add: unat_div)
  then have bytes: "unat (ucast ((word_of_nat n + 8 - 1) div 8 :: size_t) :: u32) = (n + 7) div 8"
    using assms by (simp add: unat_u32_of_size)
  let ?b = "\<lparr>bm_length = ucast (word_of_nat n :: size_t), bm_bit = replicate ((n + 7) div 8) 0\<rparr>"
  have "wow_bitmap_new True True (word_of_nat n) = Some ?b"
    using size_of_nat_pos [OF assms(1)] assms(2) bytes by (simp add: wow_bitmap_new_def)
  moreover have "bitmap_ok ?b" using len assms by (simp add: bitmap_ok_def)
  moreover have "bits_of ?b = replicate n False"
    using len by (intro nth_equalityI) (auto simp: bits_of_def)
  ultimately show ?thesis by blast
qed



end
