(* ===== verification/HashFun.thy ===== *)
theory HashFun
  imports SizeT
begin

text \<open>
  The hash functions of \<open>wow_hash.c\<close>: two mixers of 32-bit numbers and four hashes of byte strings. Integer
  arithmetic wraps, \<open>size_t\<close> has 64 bits. The main result is that both mixers are permutations of
  the 32-bit numbers, so that no two numbers have the same hash.
\<close>

section \<open>Hashes of numbers\<close>

definition hash_data_func_int_bj :: "u32 \<Rightarrow> size_t" where
  "hash_data_func_int_bj value =
     (let value = (value + 0x7ed55d16) + push_bit 12 value;
          value = (value XOR 0xc761c23c) XOR drop_bit 19 value;
          value = (value + 0x165667b1) + push_bit 5 value;
          value = (value + 0xd3a2646c) XOR push_bit 9 value;
          value = (value + 0xfd7046c5) + push_bit 3 value;
          value = (value XOR 0xb55a4f09) XOR drop_bit 16 value
      in ucast value)"

definition hash_data_func_int_bit :: "u32 \<Rightarrow> size_t" where
  "hash_data_func_int_bit value =
     (let value = NOT value + push_bit 15 value;
          value = value XOR drop_bit 12 value;
          value = value + push_bit 2 value;
          value = value XOR drop_bit 4 value;
          value = value * 2057;
          value = value XOR drop_bit 16 value
      in ucast value)"

definition HASH_UINT_MAX :: nat where "HASH_UINT_MAX = 2"

definition wow_hash_uint32 :: "nat \<Rightarrow> u32 \<Rightarrow> size_t" where
  "wow_hash_uint32 eIndex u32Value =
     (if \<not> eIndex < HASH_UINT_MAX then 0
      else ([hash_data_func_int_bj, hash_data_func_int_bit] ! eIndex) u32Value)"

section \<open>Hashes of byte strings\<close>

text \<open>A string is a pointer, \<open>None\<close> when it is null, and a length; reading behind the bytes that the pointer refers to
  is undefined. Two of the functions count with an \<open>int\<close>.\<close>

fun bkdr_loop :: "bytes \<Rightarrow> size_t \<Rightarrow> size_t" where
  "bkdr_loop [] value = value"
| "bkdr_loop (b # bs) value = bkdr_loop bs (value * 131313 + ucast b)"

definition hash_data_func_bkdr :: "bytes option \<Rightarrow> nat \<Rightarrow> size_t option" where
  "hash_data_func_bkdr data snSize =
     (case data of
        None \<Rightarrow> Some 0
      | Some data \<Rightarrow> if snSize = 0 then Some 0 else do { s \<leftarrow> rdn data 0 snSize; Some (bkdr_loop s 0) })"

fun rs_loop :: "bytes \<Rightarrow> size_t \<Rightarrow> size_t \<Rightarrow> size_t" where
  "rs_loop [] a retval = retval"
| "rs_loop (b # bs) a retval = rs_loop bs (a * 378551) (retval * a + ucast b)"

definition hash_data_func_rs :: "bytes option \<Rightarrow> nat \<Rightarrow> size_t option" where
  "hash_data_func_rs data snSize =
     (case data of
        None \<Rightarrow> Some 0
      | Some data \<Rightarrow> if snSize = 0 then Some 0 else do { s \<leftarrow> rdn data 0 snSize; Some (rs_loop s 63689 0) })"

fun fnv1a_loop :: "bytes \<Rightarrow> size_t \<Rightarrow> size_t" where
  "fnv1a_loop [] hash = hash"
| "fnv1a_loop (b # bs) hash = fnv1a_loop bs ((hash XOR ucast b) * 16777619)"

definition hash_data_func_fnv1a :: "bytes option \<Rightarrow> nat \<Rightarrow> size_t option" where
  "hash_data_func_fnv1a array len =
     (if len = 0 then Some 2166136261
      else do {
        array \<leftarrow> array;
        s \<leftarrow> rdn array 0 len;
        if len < 2 ^ 31 then Some (fnv1a_loop s 2166136261) else None
      })"

fun djb2_loop :: "bytes \<Rightarrow> size_t \<Rightarrow> size_t" where
  "djb2_loop [] hash = hash"
| "djb2_loop (b # bs) hash = djb2_loop bs ((push_bit 5 hash + hash) + ucast b)"

definition hash_data_func_djb2 :: "bytes option \<Rightarrow> nat \<Rightarrow> size_t option" where
  "hash_data_func_djb2 array len =
     (if len = 0 then Some 5381
      else do {
        array \<leftarrow> array;
        s \<leftarrow> rdn array 0 len;
        if len < 2 ^ 31 then Some (djb2_loop s 5381) else None
      })"

definition HASH_ARRAY_MAX :: nat where "HASH_ARRAY_MAX = 4"

definition wow_hash_data :: "nat \<Rightarrow> bytes option \<Rightarrow> nat \<Rightarrow> size_t option" where
  "wow_hash_data eIndex pu8Data snSize =
     (if \<not> (pu8Data \<noteq> None \<and> snSize > 0) then Some 0
      else if \<not> eIndex < HASH_ARRAY_MAX then Some 0
      else ([hash_data_func_bkdr, hash_data_func_rs, hash_data_func_fnv1a, hash_data_func_djb2] ! eIndex) pu8Data snSize)"

section \<open>The steps of the mixers are injective\<close>

text \<open>Multiplication by a number that has an inverse.\<close>

lemma mult_inj: "d * c = 1 \<Longrightarrow> c * x = c * y \<Longrightarrow> x = y" for c d x y :: "'a :: len word"
  by (metis mult.assoc mult_1)

text \<open>\<open>x ^ (x >> k)\<close>: the upper bits are there, and every bit is recovered from a higher one.\<close>

lemma xor_shift_right_inj:
  fixes x y :: "'a :: len word"
  assumes "0 < k" and "x XOR drop_bit k x = y XOR drop_bit k y"
  shows "x = y"
proof -
  have "bit x n = bit y n" if "LENGTH('a) - n \<le> m" for m n
    using that
  proof (induction m arbitrary: n)
    case 0
    then show ?case by (auto dest: bit_imp_le_length)
  next
    case (Suc m)
    have "LENGTH('a) - (n + k) \<le> m" using Suc.prems assms(1) by linarith
    then have "bit x (n + k) = bit y (n + k)" by (rule Suc.IH)
    moreover have "bit (x XOR drop_bit k x) n = bit (y XOR drop_bit k y) n" using assms(2) by simp
    ultimately show ?case by (auto simp: bit_xor_iff bit_drop_bit_eq add.commute)
  qed
  then show ?thesis by (blast intro: bit_eqI)
qed

text \<open>\<open>(x + c) ^ (x << k)\<close>: the lower bits are there.\<close>

lemma take_bit_add_inj:
  fixes x y c :: "'a :: len word"
  assumes "take_bit n (x + c) = take_bit n (y + c)" and "n \<le> LENGTH('a)"
  shows "take_bit n x = take_bit n y"
proof -
  have sum: "uint (take_bit n (z + c)) = (uint z + uint c) mod 2 ^ n" for z
    using assms(2) by (simp only: unsigned_take_bit_eq)
      (simp add: uint_word_ariths take_bit_eq_mod mod_mod_cancel le_imp_power_dvd)
  have "(uint x + uint c) mod 2 ^ n = (uint y + uint c) mod 2 ^ n" using assms(1) by (simp only: sum [symmetric])
  then have "((uint x + uint c) - uint c) mod 2 ^ n = ((uint y + uint c) - uint c) mod 2 ^ n"
    by (rule mod_diff_cong) simp
  then have "uint (take_bit n x) = uint (take_bit n y)" by (simp only: unsigned_take_bit_eq) (simp add: take_bit_eq_mod)
  then show ?thesis by (rule word_uint_eqI)
qed

lemma xor_right_cancel: "a XOR p = b XOR p \<Longrightarrow> a = b" for a b p :: "'a :: len word"
proof -
  assume "a XOR p = b XOR p"
  then have "(a XOR p) XOR p = (b XOR p) XOR p" by simp
  then show ?thesis by (simp add: xor.assoc)
qed

lemma add_xor_shift_left_inj:
  fixes x y c :: "'a :: len word"
  assumes "0 < k" and "(x + c) XOR push_bit k x = (y + c) XOR push_bit k y"
  shows "x = y"
proof -
  have "take_bit n x = take_bit n y" if "n \<le> LENGTH('a)" for n
    using that
  proof (induction n rule: less_induct)
    case (less n)
    show ?case
    proof (cases "n \<le> k")
      case True
      have "take_bit n ((x + c) XOR push_bit k x) = take_bit n ((y + c) XOR push_bit k y)" using assms(2) by simp
      then have "take_bit n (x + c) = take_bit n (y + c)" using True by (simp add: take_bit_xor take_bit_push_bit)
      then show ?thesis using less.prems by (rule take_bit_add_inj)
    next
      case False
      then have "take_bit (n - k) x = take_bit (n - k) y" using assms(1) less.prems by (intro less.IH) simp_all
      moreover have "take_bit n (x + c) XOR take_bit n (push_bit k x) = take_bit n (y + c) XOR take_bit n (push_bit k y)"
        using assms(2) by (metis take_bit_xor)
      ultimately have "take_bit n (x + c) = take_bit n (y + c)"
        unfolding take_bit_push_bit by (auto intro: xor_right_cancel)
      then show ?thesis using less.prems by (rule take_bit_add_inj)
    qed
  qed
  from this [of "LENGTH('a)"] show ?thesis by simp
qed

section \<open>Both mixers are permutations\<close>

lemma shift_add_inj:
  fixes x y c d :: u32
  assumes "d * (1 + 2 ^ k) = 1" and "(x + c) + push_bit k x = (y + c) + push_bit k y"
  shows "x = y"
proof -
  have "(1 + 2 ^ k) * x + c = (1 + 2 ^ k) * y + c" using assms(2) by (simp add: push_bit_eq_mult algebra_simps)
  then show ?thesis using mult_inj [OF assms(1), of x y] by simp
qed

lemma xor_const_shift_right_inj:
  fixes x y c :: "'a :: len word"
  assumes "0 < k" and "(x XOR c) XOR drop_bit k x = (y XOR c) XOR drop_bit k y"
  shows "x = y"
proof -
  have "(x XOR drop_bit k x) XOR c = (y XOR drop_bit k y) XOR c" using assms(2) by (simp add: ac_simps)
  then have "x XOR drop_bit k x = y XOR drop_bit k y" by (rule xor_right_cancel)
  with assms(1) show ?thesis by (rule xor_shift_right_inj)
qed

lemma ucast_size_inj: "(ucast x :: size_t) = ucast y \<Longrightarrow> x = y" for x y :: u32
proof -
  have "uint (ucast z :: size_t) = uint z" for z :: u32 by (rule uint_up_ucast) (simp add: is_up)
  then show "(ucast x :: size_t) = ucast y \<Longrightarrow> x = y" by (metis word_uint_eqI)
qed

lemma inj_int_bj: "hash_data_func_int_bj x = hash_data_func_int_bj y \<Longrightarrow> x = y"
  unfolding hash_data_func_int_bj_def Let_def
  apply (drule ucast_size_inj)
  apply (drule xor_const_shift_right_inj [rotated], simp)
  apply (drule shift_add_inj [where d = "0x38e38e39", rotated], simp)
  apply (drule add_xor_shift_left_inj [rotated], simp)
  apply (drule shift_add_inj [where d = "0x3e0f83e1", rotated], simp)
  apply (drule xor_const_shift_right_inj [rotated], simp)
  apply (drule shift_add_inj [where d = "0xfff001", rotated], simp)
  apply assumption
  done

lemma not_add_shift: "NOT x + push_bit k x = (2 ^ k - 1) * x - 1" for x :: u32
  by (simp add: not_eq_complement push_bit_eq_mult algebra_simps)

lemma mult_diff_inj: "d * c = 1 \<Longrightarrow> c * x - 1 = c * y - 1 \<Longrightarrow> x = y" for c d x y :: u32
  using mult_inj [of d c x y] by simp

lemma inj_int_bit: "hash_data_func_int_bit x = hash_data_func_int_bit y \<Longrightarrow> x = y"
  unfolding hash_data_func_int_bit_def Let_def not_add_shift
  apply (drule ucast_size_inj)
  apply (drule xor_shift_right_inj [rotated], simp)
  apply (simp only: mult.commute [of _ 2057], drule mult_inj [where d = "0xc8de0639", rotated], simp)
  apply (drule xor_shift_right_inj [rotated], simp)
  apply (drule shift_add_inj [where d = "0xcccccccd" and c = 0, rotated, simplified add_0_right], simp)
  apply (drule xor_shift_right_inj [rotated], simp)
  apply (drule mult_diff_inj [where d = "0xbfff7fff", rotated], simp)
  apply assumption
  done

lemma inj_wow_hash_uint32: "inj (wow_hash_uint32 i) \<longleftrightarrow> i < HASH_UINT_MAX"
proof
  assume "inj (wow_hash_uint32 i)"
  then have "wow_hash_uint32 i 0 \<noteq> wow_hash_uint32 i 1" by (metis injD zero_neq_one)
  then show "i < HASH_UINT_MAX" by (cases "i < HASH_UINT_MAX") (simp_all add: wow_hash_uint32_def)
next
  assume "i < HASH_UINT_MAX"
  then have "i = 0 \<or> i = 1" by (auto simp: HASH_UINT_MAX_def)
  then show "inj (wow_hash_uint32 i)"
    by (auto simp: wow_hash_uint32_def HASH_UINT_MAX_def intro!: injI dest: inj_int_bj inj_int_bit)
qed

text \<open>C26. Under either of the mixers no two 32-bit numbers have the same hash, and every 32-bit number is the hash of
  one: they are permutations. Any other index hashes every number to zero.\<close>

theorem int_hashes_permute:
  "if i < HASH_UINT_MAX then bij_betw (wow_hash_uint32 i) UNIV (range (ucast :: u32 \<Rightarrow> size_t)) else wow_hash_uint32 i = (\<lambda>_. 0)"
proof (cases "i < HASH_UINT_MAX")
  case False
  then show ?thesis by (simp add: wow_hash_uint32_def fun_eq_iff)
next
  case True
  then have inj: "inj (wow_hash_uint32 i)" by (simp add: inj_wow_hash_uint32)
  have "inj (ucast :: u32 \<Rightarrow> size_t)" by (intro injI) (rule ucast_size_inj)
  then have "card (range (ucast :: u32 \<Rightarrow> size_t)) = card (range (wow_hash_uint32 i))" using inj by (simp add: card_image)
  moreover have "range (wow_hash_uint32 i) \<subseteq> range (ucast :: u32 \<Rightarrow> size_t)"
    using True
    by (auto simp: wow_hash_uint32_def HASH_UINT_MAX_def less_Suc_eq numeral_2_eq_2
        hash_data_func_int_bj_def hash_data_func_int_bit_def Let_def)
  ultimately have "range (wow_hash_uint32 i) = range (ucast :: u32 \<Rightarrow> size_t)" by (intro card_subset_eq) simp_all
  with inj show ?thesis using True by (simp add: bij_betw_def)
qed

end
