(* ===== verification/Element.thy ===== *)
theory Element
  imports HashFun Errno
begin

text \<open>
  The element types of the containers, \<open>wow_iot/src/element\<close>: for each type a table of functions that hash, compare,
  store and read back the elements that a container keeps.

  Elements travel as \<open>void*\<close>: a number is cast to a pointer, a text is passed by its address. A \<open>voidp\<close> is therefore
  either a number (\<open>Num 0\<close> is the null pointer) or the address of a text, which is
  represented by the text itself without its terminator. Using the one where the code expects the other is undefined, as is every
  access through a pointer that an unchecked failed allocation leaves (\<open>None\<close>).
\<close>

datatype voidp = Num size_t | Text bytes

abbreviation NULL :: voidp where "NULL \<equiv> Num 0"

text \<open>What a container keeps of an element in its memory, a slot, is read and written by the functions of the
  table only; it is a \<open>voidp\<close> as well. The functions that store get the old slot and whether the allocation they may
  make succeeds.\<close>

record Element_T =
  el_type :: nat
  el_size :: nat
  fHash :: "nat \<Rightarrow> voidp \<Rightarrow> size_t option"
  fComp :: "voidp \<Rightarrow> voidp \<Rightarrow> int option"
  fData :: "voidp \<Rightarrow> voidp"
  fFree :: "voidp \<Rightarrow> voidp"
  fRepl :: "bool \<Rightarrow> voidp \<Rightarrow> voidp \<Rightarrow> voidp option"
  fCopy :: "bool \<Rightarrow> voidp \<Rightarrow> voidp \<Rightarrow> voidp option"
  fDupl :: "bool \<Rightarrow> voidp \<Rightarrow> voidp \<Rightarrow> voidp option"

section \<open>Numbers\<close>

text \<open>\<open>(size_t)p\<close>. The address of a text is not determined.\<close>

fun p2size :: "voidp \<Rightarrow> size_t option" where
  "p2size (Num w) = Some w"
| "p2size (Text t) = None"

definition element_uint8_hash :: "nat \<Rightarrow> voidp \<Rightarrow> size_t option" where
  "element_uint8_hash index data = do { w \<leftarrow> p2size data; Some (wow_hash_uint32 index (ucast w)) }"

definition element_uint8_comp :: "voidp \<Rightarrow> voidp \<Rightarrow> int option" where
  "element_uint8_comp ldata rdata =
     do {
       l \<leftarrow> p2size ldata;
       r \<leftarrow> p2size rdata;
       let l = (ucast l :: u8);
       let r = (ucast r :: u8);
       Some (if l < r then -1 else if l > r then 1 else 0)
     }"

fun element_uint8_data :: "voidp \<Rightarrow> voidp" where
  "element_uint8_data (Num w) = Num (ucast (ucast w :: u8))"
| "element_uint8_data (Text t) = Text t"

definition element_uint8_free :: "voidp \<Rightarrow> voidp" where
  "element_uint8_free buff = Num 0"

definition element_uint8_copy :: "bool \<Rightarrow> voidp \<Rightarrow> voidp \<Rightarrow> voidp option" where
  "element_uint8_copy ok buff data = do { w \<leftarrow> p2size data; Some (Num (ucast (ucast w :: u8))) }"

definition element_uint16_hash :: "nat \<Rightarrow> voidp \<Rightarrow> size_t option" where
  "element_uint16_hash index data = do { w \<leftarrow> p2size data; Some (wow_hash_uint32 index (ucast w)) }"

definition element_uint16_comp :: "voidp \<Rightarrow> voidp \<Rightarrow> int option" where
  "element_uint16_comp ldata rdata =
     do {
       l \<leftarrow> p2size ldata;
       r \<leftarrow> p2size rdata;
       let l = (ucast l :: u16);
       let r = (ucast r :: u16);
       Some (if l < r then -1 else if l > r then 1 else 0)
     }"

fun element_uint16_data :: "voidp \<Rightarrow> voidp" where
  "element_uint16_data (Num w) = Num (ucast (ucast w :: u16))"
| "element_uint16_data (Text t) = Text t"

definition element_uint16_free :: "voidp \<Rightarrow> voidp" where
  "element_uint16_free buff = Num 0"

definition element_uint16_copy :: "bool \<Rightarrow> voidp \<Rightarrow> voidp \<Rightarrow> voidp option" where
  "element_uint16_copy ok buff data = do { w \<leftarrow> p2size data; Some (Num (ucast (ucast w :: u16))) }"

definition element_uint32_hash :: "nat \<Rightarrow> voidp \<Rightarrow> size_t option" where
  "element_uint32_hash index data = do { w \<leftarrow> p2size data; Some (wow_hash_uint32 index (ucast w)) }"

definition element_uint32_comp :: "voidp \<Rightarrow> voidp \<Rightarrow> int option" where
  "element_uint32_comp ldata rdata =
     do {
       l \<leftarrow> p2size ldata;
       r \<leftarrow> p2size rdata;
       let l = (ucast l :: u32);
       let r = (ucast r :: u32);
       Some (if l < r then -1 else if l > r then 1 else 0)
     }"

fun element_uint32_data :: "voidp \<Rightarrow> voidp" where
  "element_uint32_data (Num w) = Num (ucast (ucast w :: u32))"
| "element_uint32_data (Text t) = Text t"

definition element_uint32_free :: "voidp \<Rightarrow> voidp" where
  "element_uint32_free buff = Num 0"

definition element_uint32_copy :: "bool \<Rightarrow> voidp \<Rightarrow> voidp \<Rightarrow> voidp option" where
  "element_uint32_copy ok buff data = do { w \<leftarrow> p2size data; Some (Num (ucast (ucast w :: u32))) }"

section \<open>Pointers\<close>

text \<open>Only the address counts.\<close>

definition element_ptr_hash :: "nat \<Rightarrow> voidp \<Rightarrow> size_t option" where
  "element_ptr_hash index data = do { w \<leftarrow> p2size data; Some (wow_hash_uint32 index (ucast w)) }"

definition element_ptr_comp :: "voidp \<Rightarrow> voidp \<Rightarrow> int option" where
  "element_ptr_comp ldata rdata =
     do {
       l \<leftarrow> p2size ldata;
       r \<leftarrow> p2size rdata;
       Some (if l < r then -1 else if l > r then 1 else 0)
     }"

definition element_ptr_data :: "voidp \<Rightarrow> voidp" where
  "element_ptr_data buff = buff"

definition element_ptr_free :: "voidp \<Rightarrow> voidp" where
  "element_ptr_free buff = buff"

definition element_ptr_repl :: "bool \<Rightarrow> voidp \<Rightarrow> voidp \<Rightarrow> voidp option" where
  "element_ptr_repl ok buff data = Some data"

definition element_ptr_copy :: "bool \<Rightarrow> voidp \<Rightarrow> voidp \<Rightarrow> voidp option" where
  "element_ptr_copy ok buff data = Some data"

section \<open>Texts\<close>

definition element_str_hash :: "nat \<Rightarrow> voidp \<Rightarrow> size_t option" where
  "element_str_hash index data =
     (case data of Text t \<Rightarrow> wow_hash_data index (Some t) (length t) | Num w \<Rightarrow> None)"

text \<open>Only the sign of \<open>strcmp\<close> is determined.\<close>

fun strcmp :: "bytes \<Rightarrow> bytes \<Rightarrow> int" where
  "strcmp [] [] = 0"
| "strcmp [] (b # bs) = -1"
| "strcmp (a # as) [] = 1"
| "strcmp (a # as) (b # bs) = (if a < b then -1 else if a > b then 1 else strcmp as bs)"

definition element_str_comp :: "voidp \<Rightarrow> voidp \<Rightarrow> int option" where
  "element_str_comp ldata rdata =
     (if \<not> (ldata \<noteq> NULL \<and> rdata \<noteq> NULL) then Some (-1)
      else case (ldata, rdata) of (Text l, Text r) \<Rightarrow> Some (strcmp l r) | _ \<Rightarrow> None)"

definition element_str_data :: "voidp \<Rightarrow> voidp" where
  "element_str_data buff = buff"

definition element_str_free :: "voidp \<Rightarrow> voidp" where
  "element_str_free buff = NULL"

text \<open>\<open>buff = (void*)data\<close> assigns the parameter; the slot keeps what it had.\<close>

definition element_str_copy :: "bool \<Rightarrow> voidp \<Rightarrow> voidp \<Rightarrow> voidp option" where
  "element_str_copy ok buff data = Some buff"

text \<open>\<open>while (*p && *q) *p++ = *q++\<close>: what was written, and what is left of the old and of the new text.\<close>

fun str_repl_walk :: "bytes \<Rightarrow> bytes \<Rightarrow> bytes \<Rightarrow> bytes \<times> bytes \<times> bytes" where
  "str_repl_walk copied (a # p) (b # q) = str_repl_walk (copied @ [b]) p q"
| "str_repl_walk copied p q = (copied, p, q)"

definition element_str_repl :: "bool \<Rightarrow> voidp \<Rightarrow> voidp \<Rightarrow> voidp option" where
  "element_str_repl ok buff data =
     (if data = NULL then Some buff
      else case (buff, data) of
        (Text cstr, Text s) \<Rightarrow>
          (let (copied, p, q) = str_repl_walk [] cstr s in
           if p = [] \<and> q \<noteq> [] then (if ok then Some (Text (copied @ q)) else None)
           else Some (Text copied))
      | _ \<Rightarrow> None)"

definition element_str_dupl :: "bool \<Rightarrow> voidp \<Rightarrow> voidp \<Rightarrow> voidp option" where
  "element_str_dupl ok buff data =
     (if data = NULL then Some buff
      else case data of Text t \<Rightarrow> (if ok then Some (Text t) else None) | Num w \<Rightarrow> None)"

section \<open>The tables\<close>

definition ELEMENT_TYPE_UINT8 :: nat where "ELEMENT_TYPE_UINT8 = 1"
definition ELEMENT_TYPE_UINT16 :: nat where "ELEMENT_TYPE_UINT16 = 2"
definition ELEMENT_TYPE_UINT32 :: nat where "ELEMENT_TYPE_UINT32 = 3"
definition ELEMENT_TYPE_STR :: nat where "ELEMENT_TYPE_STR = 4"
definition ELEMENT_TYPE_PTR :: nat where "ELEMENT_TYPE_PTR = 5"
definition ELEMENT_TYPE_MAX :: nat where "ELEMENT_TYPE_MAX = 6"

lemmas element_types = ELEMENT_TYPE_UINT8_def ELEMENT_TYPE_UINT16_def ELEMENT_TYPE_UINT32_def
  ELEMENT_TYPE_STR_def ELEMENT_TYPE_PTR_def ELEMENT_TYPE_MAX_def

definition ele_uint8 :: Element_T where
  "ele_uint8 = \<lparr>el_type = ELEMENT_TYPE_UINT8, el_size = 1, fHash = element_uint8_hash, fComp = element_uint8_comp,
     fData = element_uint8_data, fFree = element_uint8_free, fRepl = element_uint8_copy,
     fCopy = element_uint8_copy, fDupl = element_uint8_copy\<rparr>"

definition ele_uint16 :: Element_T where
  "ele_uint16 = \<lparr>el_type = ELEMENT_TYPE_UINT16, el_size = 2, fHash = element_uint16_hash, fComp = element_uint16_comp,
     fData = element_uint16_data, fFree = element_uint16_free, fRepl = element_uint16_copy,
     fCopy = element_uint16_copy, fDupl = element_uint16_copy\<rparr>"

definition ele_uint32 :: Element_T where
  "ele_uint32 = \<lparr>el_type = ELEMENT_TYPE_UINT32, el_size = 4, fHash = element_uint32_hash, fComp = element_uint32_comp,
     fData = element_uint32_data, fFree = element_uint32_free, fRepl = element_uint32_copy,
     fCopy = element_uint32_copy, fDupl = element_uint32_copy\<rparr>"

definition ele_str :: Element_T where
  "ele_str = \<lparr>el_type = ELEMENT_TYPE_STR, el_size = 8, fHash = element_str_hash, fComp = element_str_comp,
     fData = element_str_data, fFree = element_str_free, fRepl = element_str_repl,
     fCopy = element_str_copy, fDupl = element_str_dupl\<rparr>"

definition ele_ptr :: Element_T where
  "ele_ptr = \<lparr>el_type = ELEMENT_TYPE_PTR, el_size = 8, fHash = element_ptr_hash, fComp = element_ptr_comp,
     fData = element_ptr_data, fFree = element_ptr_free, fRepl = element_ptr_repl,
     fCopy = element_ptr_copy, fDupl = element_ptr_copy\<rparr>"

definition wow_element_ops :: "nat \<Rightarrow> Element_T option" where
  "wow_element_ops eType =
     (if eType = ELEMENT_TYPE_UINT8 then Some ele_uint8
      else if eType = ELEMENT_TYPE_UINT16 then Some ele_uint16
      else if eType = ELEMENT_TYPE_UINT32 then Some ele_uint32
      else if eType = ELEMENT_TYPE_STR then Some ele_str
      else if eType = ELEMENT_TYPE_PTR then Some ele_ptr
      else None)"

definition wow_element_hashItem :: "nat \<Rightarrow> int" where
  "wow_element_hashItem eType =
     (if eType \<in> {ELEMENT_TYPE_UINT8, ELEMENT_TYPE_UINT16, ELEMENT_TYPE_UINT32} then int HASH_UINT_MAX - 1
      else if eType \<in> {ELEMENT_TYPE_STR, ELEMENT_TYPE_PTR} then int HASH_ARRAY_MAX - 1
      else -1)"

definition wow_element_maxItem :: "nat \<Rightarrow> size_t" where
  "wow_element_maxItem eType =
     (if eType = ELEMENT_TYPE_UINT8 then 0xFF
      else if eType = ELEMENT_TYPE_UINT16 then 0xFFFF
      else if eType \<in> {ELEMENT_TYPE_UINT32, ELEMENT_TYPE_STR, ELEMENT_TYPE_PTR} then 0xFFFFFFFF
      else 0)"

section \<open>What a container relies on\<close>

text \<open>\<open>ok p\<close>: the pointer is an element that the type can represent. Such an element is stored and read back
  unchanged, has a hash, and compares equal to itself only.\<close>

locale element =
  fixes el :: Element_T and ok :: "voidp \<Rightarrow> bool"
  assumes data: "ok p \<Longrightarrow> fData el p = p"
    and dupl: "ok p \<Longrightarrow> fDupl el True s p = Some p"
    and repl: "ok s \<Longrightarrow> ok p \<Longrightarrow> fRepl el True s p = Some p"
    and hash: "ok p \<Longrightarrow> \<exists>h. fHash el 0 p = Some h"
    and comp: "ok p \<Longrightarrow> ok q \<Longrightarrow> \<exists>c. fComp el p q = Some c \<and> (c = 0 \<longleftrightarrow> p = q)"
begin

definition hash_of :: "voidp \<Rightarrow> size_t" where
  "hash_of p = the (fHash el 0 p)"

lemma hash_Some: "ok p \<Longrightarrow> fHash el 0 p = Some (hash_of p)"
  using hash [of p] by (auto simp: hash_of_def)

end

fun num_below :: "nat \<Rightarrow> voidp \<Rightarrow> bool" where
  "num_below n (Num w) = (unat w < n)"
| "num_below n (Text t) = False"

fun is_text :: "voidp \<Rightarrow> bool" where
  "is_text (Text t) = True"
| "is_text (Num w) = False"

lemma num_below_E: "num_below n p \<Longrightarrow> (\<And>w. p = Num w \<Longrightarrow> unat w < n \<Longrightarrow> P) \<Longrightarrow> P"
  by (cases p) auto

lemma is_text_E: "is_text p \<Longrightarrow> (\<And>t. p = Text t \<Longrightarrow> P) \<Longrightarrow> P"
  by (cases p) auto

text \<open>A number that fits survives the cast to the width of the element.\<close>

lemma ucast_fits: "unat w < 2 ^ LENGTH('b) \<Longrightarrow> LENGTH('b) \<le> 64 \<Longrightarrow> ucast (ucast w :: 'b :: len word) = w" for w :: size_t
proof -
  assume w: "unat w < 2 ^ LENGTH('b)" and l: "LENGTH('b) \<le> 64"
  have "ucast (ucast w :: 'b word) = take_bit LENGTH('b) w"
    using l by (intro bit_word_eqI) (auto simp: bit_ucast_iff bit_take_bit_iff)
  moreover have "unat (take_bit LENGTH('b) w) = unat w"
    using w by (simp only: unsigned_take_bit_eq take_bit_nat_eq_self)
  ultimately show ?thesis by (simp only: word_unat_eq_iff)
qed

lemma ucast_fits_eq:
  "unat v < 2 ^ LENGTH('b) \<Longrightarrow> unat w < 2 ^ LENGTH('b) \<Longrightarrow> LENGTH('b) \<le> 64 \<Longrightarrow>
   (ucast v :: 'b :: len word) = ucast w \<longleftrightarrow> v = w" for v w :: size_t
  by (metis ucast_fits)

interpretation uint8: element ele_uint8 "num_below 256"
  by unfold_locales
    (auto elim!: num_below_E simp: ele_uint8_def element_uint8_copy_def element_uint8_hash_def element_uint8_comp_def Let_def
      ucast_fits [where 'b = 8] ucast_fits_eq [where 'b = 8] not_less_iff_gr_or_eq)

interpretation uint16: element ele_uint16 "num_below 65536"
  by unfold_locales
    (auto elim!: num_below_E simp: ele_uint16_def element_uint16_copy_def element_uint16_hash_def element_uint16_comp_def Let_def
      ucast_fits [where 'b = 16] ucast_fits_eq [where 'b = 16] not_less_iff_gr_or_eq)

interpretation uint32: element ele_uint32 "num_below (2 ^ 32)"
  by unfold_locales
    (auto elim!: num_below_E simp: ele_uint32_def element_uint32_copy_def element_uint32_hash_def element_uint32_comp_def Let_def
      ucast_fits [where 'b = 32] ucast_fits_eq [where 'b = 32] not_less_iff_gr_or_eq)

interpretation ptr: element ele_ptr "num_below (2 ^ 64)"
  by unfold_locales
    (auto elim!: num_below_E simp: ele_ptr_def element_ptr_copy_def element_ptr_repl_def element_ptr_hash_def element_ptr_comp_def
      element_ptr_data_def not_less_iff_gr_or_eq)

lemma strcmp_0: "strcmp s t = 0 \<longleftrightarrow> s = t"
  by (induction s t rule: strcmp.induct) (auto simp: not_less_iff_gr_or_eq)

lemma str_repl_walk:
  "str_repl_walk c p q = (c', p', q') \<Longrightarrow> c' @ (if p' = [] then q' else []) = c @ q"
  by (induction c p q rule: str_repl_walk.induct) (auto split: if_splits)

interpretation str: element ele_str is_text
proof
  fix p q s :: voidp
  show "is_text p \<Longrightarrow> fData ele_str p = p" by (simp add: ele_str_def element_str_data_def)
  show "is_text p \<Longrightarrow> fDupl ele_str True s p = Some p"
    by (auto elim!: is_text_E simp: ele_str_def element_str_dupl_def)
  show "is_text p \<Longrightarrow> \<exists>h. fHash ele_str 0 p = Some h"
    by (auto elim!: is_text_E simp: ele_str_def element_str_hash_def wow_hash_data_def HASH_ARRAY_MAX_def
        hash_data_func_bkdr_def rdn_def)
  show "is_text p \<Longrightarrow> is_text q \<Longrightarrow> \<exists>c. fComp ele_str p q = Some c \<and> (c = 0 \<longleftrightarrow> p = q)"
    by (auto elim!: is_text_E simp: ele_str_def element_str_comp_def strcmp_0)
  show "is_text s \<Longrightarrow> is_text p \<Longrightarrow> fRepl ele_str True s p = Some p"
    by (auto elim!: is_text_E simp: ele_str_def element_str_repl_def dest!: str_repl_walk split: prod.split)
qed

end
