(* ===== verification/HashMap.thy ===== *)
theory HashMap
  imports Element
begin

text \<open>
  The hash map of \<open>wow_hash_map.c\<close> and the hash set on top of it: an array of 16 buckets, each an allocated
  list of items that is searched from its head. The main result is that the map behaves as a finite
  map as long as no bucket gets a ninth key; growing a bucket writes outside the memory that
  was allocated for it.
\<close>

section \<open>State\<close>

text \<open>A bucket is the pairs of slots in use (\<open>size\<close> is their number) and the number of items that its memory has room for.\<close>

record HashMapItemList_T =
  l_items :: "(voidp \<times> voidp) list"
  l_maxn :: nat

record HashMap_T =
  hash_list :: "HashMapItemList_T option list"
  hash_size :: nat
  item_step :: nat
  item_size :: nat
  item_maxn :: nat
  item_grow :: nat
  ele_key :: Element_T
  ele_val :: Element_T

definition HASH_MAP_ITEM_SIZE_DEFAULT :: nat where "HASH_MAP_ITEM_SIZE_DEFAULT = 8"
definition HASH_MAP_BUCKET_SIZE_DEFAULT :: nat where "HASH_MAP_BUCKET_SIZE_DEFAULT = 16"

text \<open>\<open>sizeof(HashMapItemList_T)\<close>, two \<open>size_t\<close>.\<close>

definition sizeof_HashMapItemList_T :: nat where "sizeof_HashMapItemList_T = 16"

text \<open>Whether the allocations of an insertion succeed: the list, the copy of the key, the copy of the value.\<close>

record alloc_env =
  a_list :: bool
  a_key :: bool
  a_val :: bool

definition heap_ok :: alloc_env where
  "heap_ok = \<lparr>a_list = True, a_key = True, a_val = True\<rparr>"

section \<open>Items\<close>

definition hash_map_index_make :: "size_t \<Rightarrow> size_t \<Rightarrow> size_t" where
  "hash_map_index_make buck item = push_bit 16 (item AND 0xffff) OR (buck AND 0xffff)"

definition hash_map_index_buck :: "size_t \<Rightarrow> size_t" where
  "hash_map_index_buck index = index AND 0xffff"

definition hash_map_index_item :: "size_t \<Rightarrow> size_t" where
  "hash_map_index_item index = drop_bit 16 index AND 0xffff"

fun hash_map_find_loop :: "Element_T \<Rightarrow> voidp \<Rightarrow> (voidp \<times> voidp) list \<Rightarrow> nat \<Rightarrow> nat option option" where
  "hash_map_find_loop ek key [] i = Some None"
| "hash_map_find_loop ek key (item # items) i =
     do {
       c \<leftarrow> fComp ek key (fData ek (fst item));
       if c = 0 then Some (Some i) else hash_map_find_loop ek key items (i + 1)
     }"

text \<open>The bucket, and the item if there is one.\<close>

definition hash_map_item_find :: "HashMap_T \<Rightarrow> voidp \<Rightarrow> (nat \<times> nat option) option" where
  "hash_map_item_find hash_map key =
     do {
       h \<leftarrow> fHash (ele_key hash_map) 0 key;
       let buck = unat h mod (hash_size hash_map - 1);
       list \<leftarrow> rd (hash_list hash_map) buck;
       case list of
         None \<Rightarrow> Some (buck, None)
       | Some l \<Rightarrow> do { r \<leftarrow> hash_map_find_loop (ele_key hash_map) key (l_items l) 0; Some (buck, r) }
     }"

definition hash_map_item_at :: "HashMap_T \<Rightarrow> nat \<Rightarrow> nat \<Rightarrow> (voidp \<times> voidp) option option" where
  "hash_map_item_at hash_map buck item =
     do {
       list \<leftarrow> rd (hash_list hash_map) buck;
       case list of
         None \<Rightarrow> Some None
       | Some l \<Rightarrow>
           if \<not> item < length (l_items l) then Some None
           else do {
             (k, v) \<leftarrow> rd (l_items l) item;
             Some (Some (fData (ele_key hash_map) k, fData (ele_val hash_map) v))
           }
     }"

definition hash_map_itor_remove :: "HashMap_T \<Rightarrow> size_t \<Rightarrow> (int \<times> HashMap_T) option" where
  "hash_map_itor_remove hash_map itor =
     (let buck = unat (hash_map_index_buck itor);
          item = unat (hash_map_index_item itor)
      in
      if \<not> (buck \<noteq> 0 \<and> item \<noteq> 0) then Some (-1, hash_map)
      else if \<not> buck - 1 < hash_size hash_map then Some (-1, hash_map)
      else do {
        list \<leftarrow> rd (hash_list hash_map) (buck - 1);
        case list of
          None \<Rightarrow> Some (-1, hash_map)
        | Some l \<Rightarrow>
            if \<not> (l_items l \<noteq> [] \<and> item - 1 < length (l_items l)) then Some (-1, hash_map)
            else do {
              (k, v) \<leftarrow> rd (l_items l) (item - 1);
              items \<leftarrow> wr (l_items l) (item - 1) (fFree (ele_key hash_map) k, fFree (ele_val hash_map) v);
              list \<leftarrow> (if length items > 1
                then Some (Some (l\<lparr>l_items := take (item - 1) items @ drop item items\<rparr>))
                else Some None);
              lists \<leftarrow> wr (hash_list hash_map) (buck - 1) list;
              Some (0, hash_map\<lparr>hash_list := lists, item_size := item_size hash_map - 1\<rparr>)
            }
      })"

section \<open>The API\<close>

text \<open>The first component of the result is \<open>None\<close> when \<open>NULL\<close> is returned. A type that is not in the enumeration but below its
  end has no table, and its size is read all the same.\<close>

definition wow_hash_map_create :: "nat \<Rightarrow> nat \<Rightarrow> bool \<Rightarrow> bool \<Rightarrow> HashMap_T option option" where
  "wow_hash_map_create eKtype eVtype calloc_ok lists_ok =
     (if \<not> (eKtype < ELEMENT_TYPE_MAX \<and> eVtype < ELEMENT_TYPE_MAX) then Some None
      else if \<not> calloc_ok then Some None
      else if \<not> lists_ok then Some None
      else do {
        k \<leftarrow> wow_element_ops eKtype;
        v \<leftarrow> wow_element_ops eVtype;
        Some (Some \<lparr>hash_list = replicate HASH_MAP_BUCKET_SIZE_DEFAULT None, hash_size = HASH_MAP_BUCKET_SIZE_DEFAULT,
          item_step = el_size k + el_size v, item_size = 0, item_maxn = 0, item_grow = HASH_MAP_ITEM_SIZE_DEFAULT,
          ele_key = k, ele_val = v\<rparr>)
      })"

definition wow_hash_map_clear :: "HashMap_T \<Rightarrow> HashMap_T" where
  "wow_hash_map_clear ptHashMap =
     ptHashMap\<lparr>hash_list := replicate (length (hash_list ptHashMap)) None, item_size := 0, item_maxn := 0\<rparr>"

text \<open>The handle of a map after its memory has been returned.\<close>

definition wow_hash_map_destroy :: "HashMap_T option \<Rightarrow> HashMap_T option" where
  "wow_hash_map_destroy pptHashMap = (case pptHashMap of None \<Rightarrow> None | Some hash_map \<Rightarrow> None)"

definition wow_hash_map_get :: "HashMap_T \<Rightarrow> voidp \<Rightarrow> voidp option" where
  "wow_hash_map_get ptHashMap pKey =
     (if pKey = NULL then Some NULL
      else do {
        (buck, item) \<leftarrow> hash_map_item_find ptHashMap pKey;
        case item of
          None \<Rightarrow> Some NULL
        | Some item \<Rightarrow> do {
            r \<leftarrow> hash_map_item_at ptHashMap buck item;
            Some (case r of None \<Rightarrow> NULL | Some (k, d) \<Rightarrow> d)
          }
      })"

text \<open>Room for \<open>item_grow\<close> further items. The memory of the list has \<open>sizeof(HashMapItemList_T) + maxn * step\<close> bytes; the pointer
  arithmetic of the call of \<open>memset\<close> counts in units of \<open>sizeof(HashMapItemList_T)\<close>.\<close>

definition hash_map_grow :: "HashMap_T \<Rightarrow> bool \<Rightarrow> nat \<Rightarrow> HashMapItemList_T \<Rightarrow> (int \<times> HashMap_T) option" where
  "hash_map_grow ptHashMap ok buck l =
     (let maxn = l_maxn l + item_grow ptHashMap;
          bytes = sizeof_HashMapItemList_T + maxn * item_step ptHashMap
      in
      if \<not> ok then Some (- SYSTEM_MALLOC_FAILED, ptHashMap)
      else if sizeof_HashMapItemList_T * (sizeof_HashMapItemList_T + maxn * item_step ptHashMap)
              + item_grow ptHashMap * item_step ptHashMap \<le> bytes
      then do {
        lists \<leftarrow> wr (hash_list ptHashMap) buck (Some (l\<lparr>l_maxn := maxn\<rparr>));
        Some (0, ptHashMap\<lparr>hash_list := lists, item_maxn := item_maxn ptHashMap + item_grow ptHashMap\<rparr>)
      }
      else None)"

definition hash_map_append :: "HashMap_T \<Rightarrow> alloc_env \<Rightarrow> nat \<Rightarrow> voidp \<Rightarrow> voidp \<Rightarrow> (int \<times> HashMap_T) option" where
  "hash_map_append ptHashMap env buck pKey pVal =
     do {
       k \<leftarrow> fDupl (ele_key ptHashMap) (a_key env) NULL pKey;
       v \<leftarrow> fDupl (ele_val ptHashMap) (a_val env) NULL pVal;
       list \<leftarrow> rd (hash_list ptHashMap) buck;
       l \<leftarrow> list;
       lists \<leftarrow> wr (hash_list ptHashMap) buck (Some (l\<lparr>l_items := l_items l @ [(k, v)]\<rparr>));
       Some (0, ptHashMap\<lparr>hash_list := lists, item_size := item_size ptHashMap + 1\<rparr>)
     }"

definition wow_hash_map_insert :: "alloc_env \<Rightarrow> HashMap_T \<Rightarrow> voidp \<Rightarrow> voidp \<Rightarrow> (int \<times> HashMap_T) option" where
  "wow_hash_map_insert env ptHashMap pKey pVal =
     (if \<not> (pKey \<noteq> NULL \<and> pVal \<noteq> NULL) then Some (- PARAM_INPUT_DATA_IS_NULL, ptHashMap)
      else do {
        (buck, ret) \<leftarrow> hash_map_item_find ptHashMap pKey;
        list \<leftarrow> rd (hash_list ptHashMap) buck;
        case ret of
          Some item \<Rightarrow> do {
            l \<leftarrow> list;
            (k, d) \<leftarrow> rd (l_items l) item;
            d \<leftarrow> fRepl (ele_val ptHashMap) (a_val env) d pVal;
            items \<leftarrow> wr (l_items l) item (k, d);
            lists \<leftarrow> wr (hash_list ptHashMap) buck (Some (l\<lparr>l_items := items\<rparr>));
            Some (0, ptHashMap\<lparr>hash_list := lists\<rparr>)
          }
        | None \<Rightarrow>
            (case list of
               Some l \<Rightarrow>
                 if length (l_items l) \<ge> l_maxn l
                 then do {
                   (ret, hm) \<leftarrow> hash_map_grow ptHashMap (a_list env) buck l;
                   if ret \<noteq> 0 then Some (ret, hm) else hash_map_append hm env buck pKey pVal
                 }
                 else hash_map_append ptHashMap env buck pKey pVal
             | None \<Rightarrow>
                 if \<not> a_list env then Some (0, ptHashMap)
                 else do {
                   k \<leftarrow> fDupl (ele_key ptHashMap) (a_key env) NULL pKey;
                   v \<leftarrow> fDupl (ele_val ptHashMap) (a_val env) NULL pVal;
                   lists \<leftarrow> wr (hash_list ptHashMap) buck (Some \<lparr>l_items = [(k, v)], l_maxn = item_grow ptHashMap\<rparr>);
                   Some (0, ptHashMap\<lparr>hash_list := lists, item_maxn := item_maxn ptHashMap + item_grow ptHashMap,
                     item_size := item_size ptHashMap + 1\<rparr>)
                 })
      })"

definition wow_hash_map_remove :: "HashMap_T \<Rightarrow> voidp \<Rightarrow> HashMap_T option" where
  "wow_hash_map_remove ptHashMap pKey =
     (if pKey = NULL then Some ptHashMap
      else do {
        (buck, ret) \<leftarrow> hash_map_item_find ptHashMap pKey;
        case ret of
          None \<Rightarrow> Some ptHashMap
        | Some item \<Rightarrow> do {
            (_, hm) \<leftarrow> hash_map_itor_remove ptHashMap (hash_map_index_make (word_of_nat (buck + 1)) (word_of_nat (item + 1)));
            Some hm
          }
      })"

definition wow_hash_map_size :: "HashMap_T \<Rightarrow> nat" where
  "wow_hash_map_size ptHashMap = item_size ptHashMap"

text \<open>The callback gets the value of an item and the private argument, here the state \<open>'c\<close> behind it.\<close>

fun hash_map_foreach_items :: "HashMap_T \<Rightarrow> (voidp \<Rightarrow> 'c \<Rightarrow> 'c) \<Rightarrow> nat \<Rightarrow> nat \<Rightarrow> nat \<Rightarrow> 'c \<Rightarrow> 'c option" where
  "hash_map_foreach_items hm cb i j 0 c = Some c"
| "hash_map_foreach_items hm cb i j (Suc n) c =
     do {
       r \<leftarrow> hash_map_item_at hm i j;
       hash_map_foreach_items hm cb i (j + 1) n (case r of None \<Rightarrow> c | Some (k, d) \<Rightarrow> cb d c)
     }"

fun hash_map_foreach_lists :: "HashMap_T \<Rightarrow> (voidp \<Rightarrow> 'c \<Rightarrow> 'c) \<Rightarrow> nat \<Rightarrow> nat \<Rightarrow> 'c \<Rightarrow> 'c option" where
  "hash_map_foreach_lists hm cb i 0 c = Some c"
| "hash_map_foreach_lists hm cb i (Suc n) c =
     do {
       list \<leftarrow> rd (hash_list hm) i;
       c \<leftarrow> (case list of None \<Rightarrow> Some c | Some l \<Rightarrow> hash_map_foreach_items hm cb i 0 (length (l_items l)) c);
       hash_map_foreach_lists hm cb (i + 1) n c
     }"

definition wow_hash_map_foreach :: "HashMap_T \<Rightarrow> (voidp \<Rightarrow> 'c \<Rightarrow> 'c) option \<Rightarrow> 'c \<Rightarrow> 'c option" where
  "wow_hash_map_foreach ptHashMap fCallBack pArg =
     (case fCallBack of None \<Rightarrow> Some pArg | Some cb \<Rightarrow> hash_map_foreach_lists ptHashMap cb 0 (hash_size ptHashMap) pArg)"

section \<open>The hash set\<close>

definition wow_hash_set_create :: "nat \<Rightarrow> bool \<Rightarrow> bool \<Rightarrow> HashMap_T option option" where
  "wow_hash_set_create eType = wow_hash_map_create eType ELEMENT_TYPE_UINT8"

definition wow_hash_set_destroy :: "HashMap_T option \<Rightarrow> HashMap_T option" where
  "wow_hash_set_destroy pptHashSet = wow_hash_map_destroy pptHashSet"

definition wow_hash_set_clear :: "HashMap_T \<Rightarrow> HashMap_T" where
  "wow_hash_set_clear ptHashSet = wow_hash_map_clear ptHashSet"

definition wow_hash_set_get :: "HashMap_T \<Rightarrow> voidp \<Rightarrow> int option" where
  "wow_hash_set_get ptHashSet pData = do { pair \<leftarrow> wow_hash_map_get ptHashSet pData; Some (if pair \<noteq> NULL then 0 else -1) }"

definition wow_hash_set_insert :: "alloc_env \<Rightarrow> HashMap_T \<Rightarrow> voidp \<Rightarrow> (int \<times> HashMap_T) option" where
  "wow_hash_set_insert env ptHashSet pData = wow_hash_map_insert env ptHashSet pData (Num 1)"

definition wow_hash_set_remove :: "HashMap_T \<Rightarrow> voidp \<Rightarrow> HashMap_T option" where
  "wow_hash_set_remove ptHashSet pData = wow_hash_map_remove ptHashSet pData"

definition wow_hash_set_size :: "HashMap_T \<Rightarrow> nat" where
  "wow_hash_set_size ptHashSet = wow_hash_map_size ptHashSet"

end
