(* ===== verification/HashMapRefine.thy ===== *)
theory HashMapRefine
  imports HashMap
begin

text \<open>
  The hash map refines a finite map, and the hash set a finite set. The contract of the map is proved once
  over the contract of the elements, and the set is a client of the map's contract.
\<close>

section \<open>Association lists in buckets\<close>

definition hashed :: "('k \<Rightarrow> nat) \<Rightarrow> ('k \<times> 'v) list list \<Rightarrow> bool" where
  "hashed h xss \<longleftrightarrow> (\<forall>i < length xss. distinct (map fst (xss ! i)) \<and> (\<forall>k \<in> fst ` set (xss ! i). h k = i))"

lemma hashedD:
  assumes "hashed h xss" and "i < length xss"
  shows "distinct (map fst (xss ! i))" and "k \<in> fst ` set (xss ! i) \<Longrightarrow> h k = i"
  using assms by (auto simp: hashed_def)

lemma keys_of_concat: "k \<in> fst ` set (concat xss) \<longleftrightarrow> (\<exists>i < length xss. k \<in> fst ` set (xss ! i))"
proof -
  have "k \<in> fst ` set (concat xss) \<longleftrightarrow> (\<exists>xs \<in> set xss. k \<in> fst ` set xs)" by force
  then show ?thesis by (metis in_set_conv_nth)
qed

lemma map_of_concat_only:
  "j < length xss \<Longrightarrow> (\<And>i. i < length xss \<Longrightarrow> i \<noteq> j \<Longrightarrow> k \<notin> fst ` set (xss ! i)) \<Longrightarrow>
   map_of (concat xss) k = map_of (xss ! j) k"
proof (induction xss arbitrary: j)
  case Nil
  then show ?case by simp
next
  case (Cons xs xss)
  show ?case
  proof (cases j)
    case 0
    have "k \<notin> fst ` set (xss ! i)" if "i < length xss" for i using Cons.prems(2) [of "Suc i"] that 0 by simp
    then have "map_of (concat xss) k = None" unfolding map_of_eq_None_iff keys_of_concat by blast
    then show ?thesis using 0 by (simp add: map_add_def split: option.split)
  next
    case (Suc j')
    have "k \<notin> fst ` set xs" using Cons.prems(2) [of 0] Suc by simp
    then have "map_of xs k = None" by (simp add: map_of_eq_None_iff)
    moreover have "k \<notin> fst ` set (xss ! i)" if "i < length xss" "i \<noteq> j'" for i
      using Cons.prems(2) [of "Suc i"] that Suc by simp
    then have "map_of (concat xss) k = map_of (xss ! j') k" using Cons.prems(1) Suc by (intro Cons.IH) simp_all
    ultimately show ?thesis using Suc by (simp add: map_add_def split: option.split)
  qed
qed

lemma map_of_buckets: "hashed h xss \<Longrightarrow> h k < length xss \<Longrightarrow> map_of (concat xss) k = map_of (xss ! h k) k"
  by (rule map_of_concat_only) (auto simp: hashed_def)

lemma hashed_update:
  assumes "hashed h xss" and "distinct (map fst ys)" and "\<And>k. k \<in> fst ` set ys \<Longrightarrow> h k = b"
  shows "hashed h (xss[b := ys])"
  unfolding hashed_def
proof (intro allI impI)
  fix i assume i: "i < length (xss[b := ys])"
  show "distinct (map fst (xss[b := ys] ! i)) \<and> (\<forall>k \<in> fst ` set (xss[b := ys] ! i). h k = i)"
  proof (cases "i = b")
    case True
    then show ?thesis using i assms(2,3) by simp
  next
    case False
    then show ?thesis using i hashedD [OF assms(1), of i] by simp
  qed
qed

lemma map_of_buckets_update:
  assumes "hashed h xss" and "h k < length xss" and "distinct (map fst ys)" and "\<And>k'. k' \<in> fst ` set ys \<Longrightarrow> h k' = h k"
    and "map_of ys = (map_of (xss ! h k))(k := r)" and "\<And>k'. h k' < length xss"
  shows "map_of (concat (xss[h k := ys])) = (map_of (concat xss))(k := r)"
proof
  fix k'
  have "hashed h (xss[h k := ys])" using assms(1,3,4) by (rule hashed_update)
  then have "map_of (concat (xss[h k := ys])) k' = map_of (xss[h k := ys] ! h k') k'"
    using assms(6) by (intro map_of_buckets) simp_all
  moreover have "map_of (concat xss) k' = map_of (xss ! h k') k'" using assms(1,6) by (rule map_of_buckets)
  ultimately show "map_of (concat (xss[h k := ys])) k' = ((map_of (concat xss))(k := r)) k'"
    using assms(2,5) by (simp add: nth_list_update)
qed

lemma length_concat_update:
  "b < length xss \<Longrightarrow> length (concat (xss[b := ys])) + length (xss ! b) = length (concat xss) + length ys"
proof (induction xss arbitrary: b)
  case Nil
  then show ?case by simp
next
  case (Cons xs xss)
  show ?case
  proof (cases b)
    case 0
    then show ?thesis by simp
  next
    case (Suc b')
    then have "length (concat (xss[b' := ys])) + length (xss ! b') = length (concat xss) + length ys"
      using Cons by simp
    then show ?thesis using Suc by simp
  qed
qed

lemma distinct_buckets: "hashed h xss \<Longrightarrow> distinct (map fst (concat xss))"
proof (induction xss arbitrary: h rule: rev_induct)
  case Nil
  then show ?case by simp
next
  case (snoc xs xss)
  have "hashed h xss" using snoc.prems by (auto simp: hashed_def nth_append split: if_splits)
  moreover have "distinct (map fst xs)" "\<And>k. k \<in> fst ` set xs \<Longrightarrow> h k = length xss"
    using hashedD [OF snoc.prems, of "length xss"] by simp_all
  moreover have "h k < length xss" if "k \<in> fst ` set (concat xss)" for k
    using that hashedD(2) [OF \<open>hashed h xss\<close>] unfolding keys_of_concat by auto
  ultimately show ?case using snoc.IH by (auto dest: less_imp_neq)
qed

lemma keys_of_bucket:
  assumes "hashed h xss" and "b < length xss"
  shows "{k \<in> dom (map_of (concat xss)). h k = b} = fst ` set (xss ! b)"
proof -
  have "k \<in> fst ` set (concat xss) \<and> h k = b \<longleftrightarrow> k \<in> fst ` set (xss ! b)" for k
    using hashedD(2) [OF assms(1)] assms(2) unfolding keys_of_concat by auto
  then show ?thesis by (auto simp: dom_map_of_conv_image_fst)
qed

text \<open>Replacing, adding and removing an item.\<close>

lemma map_of_list_update:
  "distinct (map fst xs) \<Longrightarrow> i < length xs \<Longrightarrow> map_of (xs[i := (fst (xs ! i), v)]) k = ((map_of xs)(fst (xs ! i) \<mapsto> v)) k"
proof (induction xs arbitrary: i)
  case Nil
  then show ?case by simp
next
  case (Cons x xs)
  show ?case
  proof (cases i)
    case 0
    then show ?thesis by simp
  next
    case (Suc j)
    then have "fst (xs ! j) \<in> fst ` set xs" using Cons.prems by simp
    moreover have "fst x \<notin> fst ` set xs" using Cons.prems(1) by simp
    ultimately have "fst x \<noteq> fst (xs ! j)" by metis
    then show ?thesis using Cons Suc by auto
  qed
qed

lemma map_of_snoc: "k \<notin> fst ` set xs \<Longrightarrow> map_of (xs @ [(k, v)]) = (map_of xs)(k \<mapsto> v)"
  by (induction xs) (auto simp: fun_eq_iff)

lemma distinct_removed: "distinct xs \<Longrightarrow> i < length xs \<Longrightarrow> distinct (take i xs @ drop (Suc i) xs)"
  by (subst (asm) id_take_nth_drop [of i xs]) auto

lemma map_of_removed:
  "distinct (map fst xs) \<Longrightarrow> i < length xs \<Longrightarrow>
   map_of (take i xs @ drop (Suc i) xs) k = ((map_of xs)(fst (xs ! i) := None)) k"
proof (induction xs arbitrary: i)
  case Nil
  then show ?case by simp
next
  case (Cons x xs)
  show ?case
  proof (cases i)
    case 0
    have "map_of xs (fst x) = None" using Cons.prems(1) by (simp add: map_of_eq_None_iff)
    then show ?thesis using 0 by simp
  next
    case (Suc j)
    then have "fst (xs ! j) \<in> fst ` set xs" using Cons.prems by simp
    moreover have "fst x \<notin> fst ` set xs" using Cons.prems(1) by simp
    ultimately have "fst x \<noteq> fst (xs ! j)" by metis
    moreover have "map_of (take j xs @ drop (Suc j) xs) k = ((map_of xs)(fst (xs ! j) := None)) k"
      using Cons Suc by simp
    ultimately show ?thesis using Suc by (auto simp: map_add_def split: option.split)
  qed
qed

section \<open>The operations on a map of elements\<close>

text \<open>The iterator that the removal uses packs the position of an item into one word.\<close>

lemma hash_map_index:
  assumes "unat b < 65536" and "unat i < 65536"
  shows "hash_map_index_buck (hash_map_index_make b i) = b" and "hash_map_index_item (hash_map_index_make b i) = i"
proof -
  have m: "x AND 0xffff = take_bit 16 x" for x :: size_t by (simp add: take_bit_eq_mask mask_eq_exp_minus_1)
  have t: "take_bit 16 x = x" if "unat x < 65536" for x :: size_t
  proof -
    have "unat (take_bit 16 x) = take_bit 16 (unat x)" by (rule unsigned_take_bit_eq)
    also have "... = unat x" using that by (intro take_bit_nat_eq_self) simp
    finally show ?thesis by (rule unsigned_word_eqI)
  qed
  have "bit (take_bit 16 (push_bit 16 (take_bit 16 i) OR take_bit 16 b)) n = bit (take_bit 16 b) n" for n
    by (auto simp: bit_simps)
  then have "take_bit 16 (push_bit 16 (take_bit 16 i) OR take_bit 16 b) = take_bit 16 b" by (rule bit_eqI)
  then show "hash_map_index_buck (hash_map_index_make b i) = b"
    using assms by (simp only: hash_map_index_buck_def hash_map_index_make_def m t)
  have "bit (take_bit 16 (drop_bit 16 (push_bit 16 (take_bit 16 i) OR take_bit 16 b))) n = bit (take_bit 16 i) n" for n
    by (auto simp: bit_simps)
  then have "take_bit 16 (drop_bit 16 (push_bit 16 (take_bit 16 i) OR take_bit 16 b)) = take_bit 16 i" by (rule bit_eqI)
  then show "hash_map_index_item (hash_map_index_make b i) = i"
    using assms by (simp only: hash_map_index_item_def hash_map_index_make_def m t)
qed

definition items_of :: "HashMapItemList_T option \<Rightarrow> (voidp \<times> voidp) list" where
  "items_of list = (case list of None \<Rightarrow> [] | Some l \<Rightarrow> l_items l)"

lemma items_of_simps [simp]: "items_of None = []" "items_of (Some l) = l_items l"
  by (simp_all add: items_of_def)

definition list_ok :: "HashMapItemList_T option \<Rightarrow> bool" where
  "list_ok list \<longleftrightarrow> (case list of None \<Rightarrow> True | Some l \<Rightarrow> l_maxn l = 8 \<and> l_items l \<noteq> [] \<and> length (l_items l) \<le> 8)"

lemma list_ok_simps [simp]:
  "list_ok None" "list_ok (Some l) \<longleftrightarrow> l_maxn l = 8 \<and> l_items l \<noteq> [] \<and> length (l_items l) \<le> 8"
  by (simp_all add: list_ok_def)

text \<open>The entries of a map, bucket by bucket.\<close>

definition entries :: "HashMap_T \<Rightarrow> (voidp \<times> voidp) list list" where
  "entries hm = map items_of (hash_list hm)"

section \<open>Histories\<close>

datatype map_op = OpInsert voidp voidp | OpRemove voidp | OpGet voidp | OpSize | OpClear

datatype map_result = ResInt int | ResPtr voidp | ResSize nat | ResVoid

fun map_step :: "map_op \<Rightarrow> HashMap_T \<Rightarrow> (map_result \<times> HashMap_T) option" where
  "map_step (OpInsert k v) hm = do { (r, hm) \<leftarrow> wow_hash_map_insert heap_ok hm k v; Some (ResInt r, hm) }"
| "map_step (OpRemove k) hm = do { hm \<leftarrow> wow_hash_map_remove hm k; Some (ResVoid, hm) }"
| "map_step (OpGet k) hm = do { p \<leftarrow> wow_hash_map_get hm k; Some (ResPtr p, hm) }"
| "map_step OpSize hm = Some (ResSize (wow_hash_map_size hm), hm)"
| "map_step OpClear hm = Some (ResVoid, wow_hash_map_clear hm)"

fun map_run :: "map_op list \<Rightarrow> HashMap_T \<Rightarrow> (map_result list \<times> HashMap_T) option" where
  "map_run [] hm = Some ([], hm)"
| "map_run (op # ops) hm = do { (r, hm) \<leftarrow> map_step op hm; (rs, hm) \<leftarrow> map_run ops hm; Some (r # rs, hm) }"

text \<open>The same on a finite map.\<close>

fun spec_step :: "map_op \<Rightarrow> (voidp \<rightharpoonup> voidp) \<Rightarrow> map_result \<times> (voidp \<rightharpoonup> voidp)" where
  "spec_step (OpInsert k v) m =
     (if k = NULL \<or> v = NULL then (ResInt (- PARAM_INPUT_DATA_IS_NULL), m) else (ResInt 0, m(k \<mapsto> v)))"
| "spec_step (OpRemove k) m = (ResVoid, m(k := None))"
| "spec_step (OpGet k) m = (ResPtr (case m k of None \<Rightarrow> NULL | Some v \<Rightarrow> v), m)"
| "spec_step OpSize m = (ResSize (card (dom m)), m)"
| "spec_step OpClear m = (ResVoid, Map.empty)"

fun spec_run :: "map_op list \<Rightarrow> (voidp \<rightharpoonup> voidp) \<Rightarrow> map_result list \<times> (voidp \<rightharpoonup> voidp)" where
  "spec_run [] m = ([], m)"
| "spec_run (op # ops) m = (let (r, m) = spec_step op m; (rs, m) = spec_run ops m in (r # rs, m))"

text \<open>The elements of a history are of the types of the map, and the keys that it inserts.\<close>

fun op_typed :: "(voidp \<Rightarrow> bool) \<Rightarrow> (voidp \<Rightarrow> bool) \<Rightarrow> map_op \<Rightarrow> bool" where
  "op_typed kok vok (OpInsert k v) = (k = NULL \<or> v = NULL \<or> kok k \<and> vok v)"
| "op_typed kok vok (OpRemove k) = (k = NULL \<or> kok k)"
| "op_typed kok vok (OpGet k) = (k = NULL \<or> kok k)"
| "op_typed kok vok OpSize = True"
| "op_typed kok vok OpClear = True"

fun op_keys :: "map_op \<Rightarrow> voidp set" where
  "op_keys (OpInsert k v) = (if k = NULL \<or> v = NULL then {} else {k})"
| "op_keys op = {}"

lemma finite_op_keys: "finite (\<Union>op \<in> set ops. op_keys op)"
proof -
  have "finite (op_keys op)" for op by (cases op) auto
  then show ?thesis by simp
qed

definition bucket_of :: "Element_T \<Rightarrow> voidp \<Rightarrow> nat" where
  "bucket_of el k = unat (the (fHash el 0 k)) mod 15"

locale keyed = K: element kel kok + V: element vel vok for kel kok vel vok
begin

definition bucket :: "voidp \<Rightarrow> nat" where
  "bucket k = bucket_of kel k"

lemma bucket_eq: "bucket k = unat (K.hash_of k) mod 15"
  by (simp add: bucket_def bucket_of_def K.hash_of_def)

lemma bucket_less [simp]: "bucket k < 15" "bucket k < 16" "bucket k < 65535"
proof -
  show b: "bucket k < 15" by (simp add: bucket_def bucket_of_def)
  show "bucket k < 16" "bucket k < 65535" using b by simp_all
qed

definition shaped :: "HashMap_T \<Rightarrow> bool" where
  "shaped hm \<longleftrightarrow> ele_key hm = kel \<and> ele_val hm = vel \<and> hash_size hm = 16 \<and> item_grow hm = 8 \<and>
     length (hash_list hm) = 16 \<and> (\<forall>l \<in> set (hash_list hm). list_ok l)"

lemma shapedD:
  assumes "shaped hm"
  shows "ele_key hm = kel" "ele_val hm = vel" "hash_size hm = 16" "item_grow hm = 8" "length (hash_list hm) = 16"
    and "l \<in> set (hash_list hm) \<Longrightarrow> list_ok l"
  using assms by (simp_all add: shaped_def)

definition rep :: "HashMap_T \<Rightarrow> (voidp \<rightharpoonup> voidp) \<Rightarrow> bool" where
  "rep hm m \<longleftrightarrow> shaped hm \<and> hashed bucket (entries hm) \<and>
     (\<forall>kv \<in> set (concat (entries hm)). kok (fst kv) \<and> vok (snd kv) \<and> snd kv \<noteq> NULL) \<and>
     m = map_of (concat (entries hm)) \<and> item_size hm = length (concat (entries hm))"

lemma repD:
  assumes "rep hm m"
  shows "shaped hm" and "hashed bucket (entries hm)" and "m = map_of (concat (entries hm))"
    and "kv \<in> set (concat (entries hm)) \<Longrightarrow> kok (fst kv) \<and> vok (snd kv) \<and> snd kv \<noteq> NULL"
    and "item_size hm = length (concat (entries hm))" and "length (entries hm) = 16"
  using assms by (auto simp: rep_def entries_def shaped_def)

lemma in_bucket:
  assumes "rep hm m" and "i < 16" and "kv \<in> set (entries hm ! i)"
  shows "kv \<in> set (concat (entries hm))" and "kok (fst kv)" and "vok (snd kv)" and "snd kv \<noteq> NULL"
    and "bucket (fst kv) = i"
proof -
  note r = repD [OF assms(1)]
  have "entries hm ! i \<in> set (entries hm)" using r(6) assms(2) by simp
  then show c: "kv \<in> set (concat (entries hm))" using assms(3) by auto
  show "kok (fst kv)" "vok (snd kv)" "snd kv \<noteq> NULL" using r(4) [OF c] by simp_all
  show "bucket (fst kv) = i" by (rule hashedD(2) [OF r(2)]) (use r(6) assms in simp_all)
qed

lemma rd_bucket: "shaped hm \<Longrightarrow> i < 16 \<Longrightarrow> rd (hash_list hm) i = Some (hash_list hm ! i)"
  by (simp add: shaped_def rd_in)

lemma entries_nth: "shaped hm \<Longrightarrow> i < 16 \<Longrightarrow> entries hm ! i = items_of (hash_list hm ! i)"
  by (simp add: shaped_def entries_def)

lemma rep_lookup: "rep hm m \<Longrightarrow> m k = map_of (entries hm ! bucket k) k"
  using repD [of hm m] map_of_buckets [of bucket "entries hm" k] by simp

lemma item_at:
  assumes "rep hm m" and "i < 16" and "j < length (entries hm ! i)"
  shows "hash_map_item_at hm i j = Some (Some (entries hm ! i ! j))"
proof -
  note r = repD [OF assms(1)] and b = in_bucket [OF assms(1,2) nth_mem [OF assms(3)]]
  have "fData kel (fst (entries hm ! i ! j)) = fst (entries hm ! i ! j)"
    "fData vel (snd (entries hm ! i ! j)) = snd (entries hm ! i ! j)" using b by (simp_all add: K.data V.data)
  then show ?thesis using assms(2,3) entries_nth [OF r(1) assms(2)]
    by (cases "hash_list hm ! i")
      (simp_all add: hash_map_item_at_def shapedD [OF r(1)] rd_bucket [OF r(1)] rd_in split_beta)
qed

lemma find_loop:
  assumes "\<And>kv. kv \<in> set items \<Longrightarrow> kok (fst kv)" and "kok key"
  shows "\<exists>r. hash_map_find_loop kel key items i = Some r \<and>
    (case r of None \<Rightarrow> key \<notin> fst ` set items | Some n \<Rightarrow> \<exists>j < length items. n = i + j \<and> fst (items ! j) = key)"
  using assms(1)
proof (induction items arbitrary: i)
  case Nil
  then show ?case by simp
next
  case (Cons x items)
  have x: "kok (fst x)" using Cons.prems by simp
  obtain c where c: "fComp kel key (fData kel (fst x)) = Some c" "c = 0 \<longleftrightarrow> key = fst x"
    using K.comp [OF assms(2) x] K.data [OF x] by auto
  obtain r where r: "hash_map_find_loop kel key items (i + 1) = Some r"
      "case r of None \<Rightarrow> key \<notin> fst ` set items | Some n \<Rightarrow> \<exists>j < length items. n = i + 1 + j \<and> fst (items ! j) = key"
    using Cons.IH [of "i + 1"] Cons.prems by auto
  show ?case
  proof (cases "key = fst x")
    case True
    then show ?thesis using c by auto
  next
    case False
    then show ?thesis using c r by (cases r) force+
  qed
qed

lemma item_find:
  assumes "rep hm m" and "kok k"
  shows "\<exists>r. hash_map_item_find hm k = Some (bucket k, r) \<and>
    (case r of None \<Rightarrow> k \<notin> fst ` set (entries hm ! bucket k)
     | Some j \<Rightarrow> j < length (entries hm ! bucket k) \<and> fst (entries hm ! bucket k ! j) = k)"
proof -
  note r = repD [OF assms(1)]
  obtain res where f: "hash_map_find_loop kel k (entries hm ! bucket k) 0 = Some res"
      "case res of None \<Rightarrow> k \<notin> fst ` set (entries hm ! bucket k)
       | Some n \<Rightarrow> \<exists>j < length (entries hm ! bucket k). n = 0 + j \<and> fst (entries hm ! bucket k ! j) = k"
    using find_loop [of "entries hm ! bucket k" k 0] in_bucket(2) [OF assms(1) bucket_less(2)] assms(2) by blast
  then have res: "hash_map_find_loop kel k (entries hm ! bucket k) 0 = Some res"
      "case res of None \<Rightarrow> k \<notin> fst ` set (entries hm ! bucket k)
       | Some j \<Rightarrow> j < length (entries hm ! bucket k) \<and> fst (entries hm ! bucket k ! j) = k"
    by (auto split: option.splits)
  have "hash_map_item_find hm k = Some (bucket k, res)"
    using res(1) entries_nth [OF r(1), of "bucket k"]
    by (cases "hash_list hm ! bucket k")
      (simp_all add: hash_map_item_find_def shapedD [OF r(1)] rd_bucket [OF r(1)] K.hash_Some [OF assms(2)]
          bucket_eq [symmetric])
  then show ?thesis using res(2) by blast
qed

text \<open>Replacing the bucket of a key by one with the same keys up to that key.\<close>

lemma rep_update:
  assumes r: "rep hm m" and l: "list_ok l" "distinct (map fst (items_of l))"
    and e: "\<And>kv. kv \<in> set (items_of l) \<Longrightarrow> kv \<in> set (entries hm ! bucket k) \<or> fst kv = k \<and> kok k \<and> vok (snd kv) \<and> snd kv \<noteq> NULL"
    and m: "map_of (items_of l) = (map_of (entries hm ! bucket k))(k := v)"
    and hm': "hash_list hm' = (hash_list hm)[bucket k := l]" "ele_key hm' = ele_key hm" "ele_val hm' = ele_val hm"
      "hash_size hm' = hash_size hm" "item_grow hm' = item_grow hm"
      "item_size hm' + length (entries hm ! bucket k) = item_size hm + length (items_of l)"
  shows "rep hm' (m(k := v))"
proof -
  note R = repD [OF r]
  have n: "entries hm' = (entries hm)[bucket k := items_of l]" by (simp add: entries_def hm'(1) map_update)
  have k: "\<And>k'. k' \<in> fst ` set (items_of l) \<Longrightarrow> bucket k' = bucket k"
    using e in_bucket(5) [OF r bucket_less(2)] by blast
  have "set (hash_list hm') \<subseteq> insert l (set (hash_list hm))" by (simp add: hm'(1) set_update_subset_insert)
  then have "shaped hm'" using R(1) l(1) hm' by (auto simp: shaped_def)
  moreover have "hashed bucket (entries hm')" unfolding n by (rule hashed_update [OF R(2) l(2) k])
  moreover have "map_of (concat (entries hm')) = (map_of (concat (entries hm)))(k := v)"
    unfolding n using map_of_buckets_update [OF R(2) _ l(2) k m] R(6) by simp
  moreover have "kok (fst kv) \<and> vok (snd kv) \<and> snd kv \<noteq> NULL" if "kv \<in> set (concat (entries hm'))" for kv
  proof -
    have "set (entries hm') \<subseteq> insert (items_of l) (set (entries hm))" by (simp add: n set_update_subset_insert)
    then have "kv \<in> set (items_of l) \<or> kv \<in> set (concat (entries hm))" using that by auto
    then show ?thesis using e [of kv] R(4) [of kv] in_bucket(2-4) [OF r bucket_less(2), of kv k] by blast
  qed
  moreover have "item_size hm' = length (concat (entries hm'))"
    using length_concat_update [of "bucket k" "entries hm" "items_of l"] R(5,6) hm'(6) unfolding n by simp
  ultimately show ?thesis using R(3) by (simp add: rep_def)
qed

lemma get_rep:
  assumes "rep hm m" and "kok k" and "k \<noteq> NULL"
  shows "wow_hash_map_get hm k = Some (case m k of None \<Rightarrow> NULL | Some v \<Rightarrow> v)"
proof -
  note r = repD [OF assms(1)]
  obtain res where f: "hash_map_item_find hm k = Some (bucket k, res)"
    and c: "case res of None \<Rightarrow> k \<notin> fst ` set (entries hm ! bucket k)
       | Some j \<Rightarrow> j < length (entries hm ! bucket k) \<and> fst (entries hm ! bucket k ! j) = k"
    using item_find [OF assms(1,2)] by blast
  show ?thesis
  proof (cases res)
    case None
    then have "m k = None" using c rep_lookup [OF assms(1), of k] by (simp add: map_of_eq_None_iff)
    then show ?thesis using None f assms(3) by (simp add: wow_hash_map_get_def)
  next
    case (Some j)
    let ?e = "entries hm ! bucket k"
    have j: "j < length ?e" "fst (?e ! j) = k" using c Some by auto
    have d: "distinct (map fst ?e)" using hashedD(1) [OF r(2)] r(6) by simp
    have "(k, snd (?e ! j)) \<in> set ?e" using nth_mem [OF j(1)] j(2) by (metis prod.collapse)
    then have mk: "m k = Some (snd (?e ! j))"
      using map_of_is_SomeI [OF d] rep_lookup [OF assms(1), of k] by simp
    then show ?thesis using f Some assms(3) item_at [OF assms(1) bucket_less(2) j(1)]
      by (simp add: wow_hash_map_get_def split_beta)
  qed
qed

lemma insert_found:
  assumes r: "rep hm m" and k: "kok k" "k \<noteq> NULL" and v: "vok v" "v \<noteq> NULL"
    and f: "hash_map_item_find hm k = Some (bucket k, Some j)"
    and j: "j < length (entries hm ! bucket k)" "fst (entries hm ! bucket k ! j) = k"
  shows "\<exists>hm'. wow_hash_map_insert heap_ok hm k v = Some (0, hm') \<and> rep hm' (m(k \<mapsto> v))"
proof -
  let ?e = "entries hm ! bucket k"
  note R = repD [OF r] and S = shapedD [OF repD(1) [OF r]]
  have E: "?e = items_of (hash_list hm ! bucket k)" by (rule entries_nth [OF R(1)]) simp
  then obtain l where l: "hash_list hm ! bucket k = Some l" "l_items l = ?e"
    using j(1) by (cases "hash_list hm ! bucket k") auto
  have "Some l \<in> set (hash_list hm)" using l(1) S(5) by (metis bucket_less(2) nth_mem)
  then have lok: "list_ok (Some l)" by (rule S(6))
  have "vok (snd (?e ! j))" using in_bucket(3) [OF r bucket_less(2) nth_mem [OF j(1)]] .
  then have rv: "fRepl vel True (snd (?e ! j)) v = Some v" using v by (intro V.repl)
  define l' where "l' = Some (l\<lparr>l_items := ?e[j := (k, v)]\<rparr>)"
  define hm' where "hm' = hm\<lparr>hash_list := (hash_list hm)[bucket k := l']\<rparr>"
  have "wow_hash_map_insert heap_ok hm k v = Some (0, hm')"
    using f k(2) v(2) l j rv
    by (simp add: wow_hash_map_insert_def heap_ok_def rd_bucket [OF R(1)] S rd_in wr_in split_beta l'_def hm'_def)
  moreover have "rep hm' (m(k \<mapsto> v))"
  proof (rule rep_update [OF r, where l = l'])
    have d: "distinct (map fst ?e)" using hashedD(1) [OF R(2)] R(6) by simp
    show "list_ok l'" using lok l(2) by (simp add: l'_def)
    have fm: "map fst (?e[j := (k, v)]) = map fst ?e" using j by (simp add: map_update list_update_same_conv)
    then show "distinct (map fst (items_of l'))" using d by (simp add: l'_def)
    show "kv \<in> set ?e \<or> fst kv = k \<and> kok k \<and> vok (snd kv) \<and> snd kv \<noteq> NULL" if "kv \<in> set (items_of l')" for kv
      using that set_update_subset_insert [of ?e j "(k, v)"] k v by (auto simp: l'_def)
    show "map_of (items_of l') = (map_of ?e)(k \<mapsto> v)"
      using map_of_list_update [OF d j(1), of v] j(2) by (auto simp: l'_def)
  qed (simp_all add: hm'_def l'_def)
  ultimately show ?thesis by blast
qed

text \<open>How many keys share the bucket of a key.\<close>

definition crowd :: "(voidp \<rightharpoonup> voidp) \<Rightarrow> voidp \<Rightarrow> nat" where
  "crowd m k = card {k' \<in> dom m. bucket k' = bucket k}"

lemma crowd_length: "rep hm m \<Longrightarrow> crowd m k = length (entries hm ! bucket k)"
  using keys_of_bucket [OF repD(2), of hm m "bucket k"] repD(3,6) [of hm m] hashedD(1) [OF repD(2), of hm m "bucket k"]
  by (simp add: crowd_def) (metis distinct_card length_map set_map)

lemma insert_new:
  assumes r: "rep hm m" and k: "kok k" "k \<noteq> NULL" and v: "vok v" "v \<noteq> NULL"
    and f: "hash_map_item_find hm k = Some (bucket k, None)" "k \<notin> fst ` set (entries hm ! bucket k)"
    and c: "crowd m k < 8"
  shows "\<exists>hm'. wow_hash_map_insert heap_ok hm k v = Some (0, hm') \<and> rep hm' (m(k \<mapsto> v))"
proof -
  let ?e = "entries hm ! bucket k" and ?old = "hash_list hm ! bucket k"
  note R = repD [OF r] and S = shapedD [OF repD(1) [OF r]]
  have E: "?e = items_of ?old" by (rule entries_nth [OF R(1)]) simp
  have "?old \<in> set (hash_list hm)" using S(5) by simp
  then have lok: "list_ok ?old" by (rule S(6))
  have n: "length ?e < 8" using c crowd_length [OF r, of k] by simp
  have d: "fDupl kel True NULL k = Some k" "fDupl vel True NULL v = Some v" using k v by (simp_all add: K.dupl V.dupl)
  define l' where "l' = Some \<lparr>l_items = ?e @ [(k, v)], l_maxn = 8\<rparr>"
  obtain hm' where i: "wow_hash_map_insert heap_ok hm k v = Some (0, hm')"
    and hm': "hash_list hm' = (hash_list hm)[bucket k := l']" "ele_key hm' = ele_key hm" "ele_val hm' = ele_val hm"
      "hash_size hm' = hash_size hm" "item_grow hm' = item_grow hm" "item_size hm' = item_size hm + 1"
  proof (cases ?old)
    case None
    then show ?thesis using that f(1) k(2) v(2) d E
      by (simp add: wow_hash_map_insert_def heap_ok_def rd_bucket [OF R(1)] S wr_in l'_def)
  next
    case (Some l)
    then have u: "l\<lparr>l_items := x\<rparr> = \<lparr>l_items = x, l_maxn = 8\<rparr>" for x using lok by (cases l) simp
    show ?thesis using that Some f(1) k(2) v(2) d E n lok
      by (simp add: u wow_hash_map_insert_def hash_map_append_def heap_ok_def rd_bucket [OF R(1)] S wr_in l'_def)
  qed
  moreover have "rep hm' (m(k \<mapsto> v))"
  proof (rule rep_update [OF r, where l = l'])
    show "list_ok l'" using n by (simp add: l'_def)
    show "distinct (map fst (items_of l'))" using hashedD(1) [OF R(2), of "bucket k"] R(6) f(2) by (simp add: l'_def)
    show "kv \<in> set ?e \<or> fst kv = k \<and> kok k \<and> vok (snd kv) \<and> snd kv \<noteq> NULL" if "kv \<in> set (items_of l')" for kv
      using that k v by (auto simp: l'_def)
    show "map_of (items_of l') = (map_of ?e)(k \<mapsto> v)" using map_of_snoc [OF f(2), of v] by (simp add: l'_def)
    show "item_size hm' + length ?e = item_size hm + length (items_of l')" using hm'(6) by (simp add: l'_def)
  qed (simp_all add: hm')
  ultimately show ?thesis by blast
qed

lemma insert_rep:
  assumes "rep hm m" and "kok k" "k \<noteq> NULL" and "vok v" "v \<noteq> NULL" and "m k \<noteq> None \<or> crowd m k < 8"
  shows "\<exists>hm'. wow_hash_map_insert heap_ok hm k v = Some (0, hm') \<and> rep hm' (m(k \<mapsto> v))"
proof -
  obtain r where f: "hash_map_item_find hm k = Some (bucket k, r)"
    and c: "case r of None \<Rightarrow> k \<notin> fst ` set (entries hm ! bucket k)
       | Some j \<Rightarrow> j < length (entries hm ! bucket k) \<and> fst (entries hm ! bucket k ! j) = k"
    using item_find [OF assms(1,2)] by blast
  show ?thesis
  proof (cases r)
    case None
    then have "m k = None" using c rep_lookup [OF assms(1), of k] by (simp add: map_of_eq_None_iff)
    then show ?thesis using insert_new [OF assms(1-5)] f c None assms(6) by simp
  next
    case (Some j)
    then show ?thesis using insert_found [OF assms(1-5), of j] f c by simp
  qed
qed

text \<open>A ninth key: the memory behind the list is cleared instead of its new part.\<close>

lemma insert_ninth:
  assumes "rep hm m" and "kok k" "k \<noteq> NULL" and "v \<noteq> NULL" and "m k = None" and "crowd m k = 8"
  shows "wow_hash_map_insert heap_ok hm k v = None"
proof -
  note R = repD [OF assms(1)] and S = shapedD [OF repD(1) [OF assms(1)]]
  have E: "entries hm ! bucket k = items_of (hash_list hm ! bucket k)" by (rule entries_nth [OF R(1)]) simp
  obtain r where f: "hash_map_item_find hm k = Some (bucket k, r)"
    and c: "case r of None \<Rightarrow> k \<notin> fst ` set (entries hm ! bucket k)
       | Some j \<Rightarrow> j < length (entries hm ! bucket k) \<and> fst (entries hm ! bucket k ! j) = k"
    using item_find [OF assms(1,2)] by blast
  have new: "k \<notin> fst ` set (entries hm ! bucket k)"
    using assms(5) rep_lookup [OF assms(1), of k] by (simp add: map_of_eq_None_iff)
  have "r = None"
  proof (rule ccontr)
    assume "r \<noteq> None"
    then obtain j where "j < length (entries hm ! bucket k)" "fst (entries hm ! bucket k ! j) = k" using c by auto
    then have "k \<in> fst ` set (entries hm ! bucket k)" by (metis image_eqI nth_mem)
    then show False using new by simp
  qed
  have n: "length (items_of (hash_list hm ! bucket k)) = 8" using assms(6) crowd_length [OF assms(1), of k] E by simp
  then obtain l where l: "hash_list hm ! bucket k = Some l" by (cases "hash_list hm ! bucket k") auto
  then have "Some l \<in> set (hash_list hm)" using S(5) by (metis bucket_less(2) nth_mem)
  then have "l_maxn l = 8" using S(6) by fastforce
  then show ?thesis using f \<open>r = None\<close> l n assms(3,4)
    by (simp add: wow_hash_map_insert_def rd_bucket [OF R(1)] hash_map_grow_def sizeof_HashMapItemList_T_def heap_ok_def S)
qed

lemma itor_remove:
  assumes "unat (hash_map_index_buck itor) = Suc b" and "unat (hash_map_index_item itor) = Suc j"
    and "shaped hm" and "b < 16" and "hash_list hm ! b = Some l" and "j < length (l_items l)"
  shows "hash_map_itor_remove hm itor =
    Some (0, hm\<lparr>hash_list := (hash_list hm)[b := if length (l_items l) > 1
        then Some (l\<lparr>l_items := take j (l_items l) @ drop (Suc j) (l_items l)\<rparr>) else None],
      item_size := item_size hm - 1\<rparr>)"
proof -
  note S = shapedD [OF assms(3)]
  have "l_items l \<noteq> []" using assms(6) by auto
  then show ?thesis using assms
    by (auto simp: hash_map_itor_remove_def rd_bucket [OF assms(3)] S(3,5) rd_in wr_in split_beta)
qed

lemma remove_rep:
  assumes r: "rep hm m" and k: "kok k" "k \<noteq> NULL"
  shows "\<exists>hm'. wow_hash_map_remove hm k = Some hm' \<and> rep hm' (m(k := None))"
proof -
  let ?e = "entries hm ! bucket k" and ?old = "hash_list hm ! bucket k"
  note R = repD [OF r] and S = shapedD [OF repD(1) [OF r]]
  have E: "?e = items_of ?old" by (rule entries_nth [OF R(1)]) simp
  obtain q where f: "hash_map_item_find hm k = Some (bucket k, q)"
    and c: "case q of None \<Rightarrow> k \<notin> fst ` set ?e | Some j \<Rightarrow> j < length ?e \<and> fst (?e ! j) = k"
    using item_find [OF r k(1)] by blast
  show ?thesis
  proof (cases q)
    case None
    then have "m k = None" using c rep_lookup [OF r, of k] by (simp add: map_of_eq_None_iff)
    then have "m(k := None) = m" by auto
    then show ?thesis using f None k(2) r by (simp add: wow_hash_map_remove_def)
  next
    case (Some j)
    then have j: "j < length ?e" "fst (?e ! j) = k" using c by simp_all
    then obtain l where l: "?old = Some l" "l_items l = ?e" using E by (cases ?old) auto
    have "Some l \<in> set (hash_list hm)" using l(1) S(5) by (metis bucket_less(2) nth_mem)
    then have lok: "list_ok (Some l)" by (rule S(6))
    define l' where "l' = (if length ?e > 1 then Some (l\<lparr>l_items := take j ?e @ drop (Suc j) ?e\<rparr>) else None)"
    define hm' where "hm' = hm\<lparr>hash_list := (hash_list hm)[bucket k := l'], item_size := item_size hm - 1\<rparr>"
    have jl: "j < 8" using j(1) lok l(2) by simp
    have d: "distinct (map fst ?e)" using hashedD(1) [OF R(2)] R(6) by simp
    have it: "items_of l' = take j ?e @ drop (Suc j) ?e" using j(1) by (auto simp: l'_def)
    have u: "unat (word_of_nat (n + 1) :: size_t) = Suc n" if "n < 65535" for n
      using unat_size_of_nat [of "n + 1"] that by simp
    define itor where "itor = hash_map_index_make (word_of_nat (bucket k + 1)) (word_of_nat (j + 1))"
    have "unat (word_of_nat (bucket k + 1) :: size_t) < 65536" "unat (word_of_nat (j + 1) :: size_t) < 65536"
      using jl u [of "bucket k"] u [of j] bucket_less [of k] by linarith+
    then have "hash_map_index_buck itor = word_of_nat (bucket k + 1)" "hash_map_index_item itor = word_of_nat (j + 1)"
      unfolding itor_def by (rule hash_map_index)+
    then have "unat (hash_map_index_buck itor) = Suc (bucket k)" "unat (hash_map_index_item itor) = Suc j"
      using u jl by simp_all
    then have "hash_map_itor_remove hm itor = Some (0, hm')"
      unfolding hm'_def l'_def using itor_remove [OF _ _ R(1) bucket_less(2) l(1), of itor j] j(1) l(2) by simp
    then have "wow_hash_map_remove hm k = Some hm'"
      using f Some k(2) by (simp add: wow_hash_map_remove_def itor_def)
    moreover have "rep hm' (m(k := None))"
    proof (rule rep_update [OF r, where l = l'])
      show "list_ok l'" using lok l(2) j(1) by (auto simp: l'_def)
      have "map fst (items_of l') = take j (map fst ?e) @ drop (Suc j) (map fst ?e)" by (simp add: it take_map drop_map)
      then show "distinct (map fst (items_of l'))"
        using distinct_removed [OF d, of j] j(1) by simp
      show "kv \<in> set ?e \<or> fst kv = k \<and> kok k \<and> vok (snd kv) \<and> snd kv \<noteq> NULL" if "kv \<in> set (items_of l')" for kv
        using that by (auto simp: it dest: in_set_takeD in_set_dropD)
      show "map_of (items_of l') = (map_of ?e)(k := None)" using map_of_removed [OF d j(1)] j(2) by (simp add: it fun_eq_iff)
      have "length ?e \<le> length (concat (entries hm))" using length_concat_update [of "bucket k" "entries hm" "[]"] R(6) by simp
      then show "item_size hm' + length ?e = item_size hm + length (items_of l')"
        using R(5) j(1) by (simp add: hm'_def it)
    qed (simp_all add: hm'_def)
    ultimately show ?thesis by blast
  qed
qed

lemma size_rep:
  assumes "rep hm m"
  shows "wow_hash_map_size hm = card (dom m)"
proof -
  note r = repD [OF assms]
  have "card (set (map fst (concat (entries hm)))) = length (map fst (concat (entries hm)))"
    by (rule distinct_card [OF distinct_buckets [OF r(2)]])
  then show ?thesis by (simp only: wow_hash_map_size_def r(3,5) dom_map_of_conv_image_fst list.set_map length_map)
qed

lemma clear_rep: "rep hm m \<Longrightarrow> rep (wow_hash_map_clear hm) Map.empty"
  using repD(1) [of hm m]
  by (auto simp: rep_def shaped_def wow_hash_map_clear_def entries_def hashed_def list_ok_def)

text \<open>The values go to the callback bucket by bucket, in the order of the items.\<close>

lemma foreach_items:
  assumes "rep hm m" and "i < 16"
  shows "j + n = length (entries hm ! i) \<Longrightarrow>
    hash_map_foreach_items hm cb i j n c = Some (fold cb (map snd (drop j (entries hm ! i))) c)"
proof (induction n arbitrary: j c)
  case 0
  then show ?case by simp
next
  case (Suc n)
  then have j: "j < length (entries hm ! i)" by simp
  have "drop j (entries hm ! i) = entries hm ! i ! j # drop (Suc j) (entries hm ! i)" by (rule Cons_nth_drop_Suc [OF j, symmetric])
  then show ?case using Suc.IH [of "Suc j"] Suc.prems item_at [OF assms j] by (simp add: split_beta)
qed

lemma foreach_lists:
  assumes "rep hm m"
  shows "i + n = 16 \<Longrightarrow> hash_map_foreach_lists hm cb i n c = Some (fold cb (map snd (concat (drop i (entries hm)))) c)"
proof (induction n arbitrary: i c)
  case 0
  then show ?case using repD(6) [OF assms] by simp
next
  case (Suc n)
  note r = repD [OF assms]
  have i: "i < 16" using Suc.prems by simp
  have "drop i (entries hm) = entries hm ! i # drop (Suc i) (entries hm)" using i r(6) by (simp add: Cons_nth_drop_Suc)
  then show ?case using Suc.IH [of "Suc i"] Suc.prems foreach_items [OF assms i, of 0 "length (entries hm ! i)" cb c] entries_nth [OF r(1) i]
    by (cases "hash_list hm ! i") (simp_all add: rd_bucket [OF r(1) i])
qed

lemma foreach_rep:
  assumes "rep hm m"
  shows "\<exists>kvs. distinct (map fst kvs) \<and> map_of kvs = m \<and>
    (\<forall>cb c. wow_hash_map_foreach hm (Some cb) c = Some (fold cb (map snd kvs) c))"
  using repD(3) [OF assms] distinct_buckets [OF repD(2) [OF assms]]
  by (intro exI [of _ "concat (entries hm)"])
    (simp add: wow_hash_map_foreach_def foreach_lists [OF assms] shapedD [OF repD(1) [OF assms]])

section \<open>Every history\<close>

lemma rep_empty:
  "rep \<lparr>hash_list = replicate 16 None, hash_size = 16, item_step = n, item_size = 0, item_maxn = 0, item_grow = 8,
     ele_key = kel, ele_val = vel\<rparr> Map.empty"
  by (auto simp: rep_def shaped_def entries_def hashed_def)

lemma step_rep:
  assumes r: "rep hm m" and t: "op_typed kok vok op" and K: "dom m \<union> op_keys op \<subseteq> A" "finite A" and n: "NULL \<notin> dom m"
    and c: "\<And>b. card {k \<in> A. bucket k = b} \<le> 8"
  shows "\<exists>hm'. map_step op hm = Some (fst (spec_step op m), hm') \<and> rep hm' (snd (spec_step op m))"
proof (cases op)
  case (OpInsert k v)
  show ?thesis
  proof (cases "k = NULL \<or> v = NULL")
    case True
    then show ?thesis using r OpInsert by (auto simp: wow_hash_map_insert_def)
  next
    case False
    have "crowd m k < 8" if "m k = None"
    proof -
      have "insert k {k' \<in> dom m. bucket k' = bucket k} \<subseteq> {k' \<in> A. bucket k' = bucket k}"
        using K(1) OpInsert False by auto
      then have "card (insert k {k' \<in> dom m. bucket k' = bucket k}) \<le> card {k' \<in> A. bucket k' = bucket k}"
        using K(2) by (intro card_mono) simp_all
      also have "... \<le> 8" by (rule c)
      finally have le: "card (insert k {k' \<in> dom m. bucket k' = bucket k}) \<le> 8" .
      have "finite {k' \<in> dom m. bucket k' = bucket k}" using finite_subset [OF _ K(2), of "dom m"] K(1) by simp
      moreover have "k \<notin> {k' \<in> dom m. bucket k' = bucket k}" using that by auto
      ultimately have "card (insert k {k' \<in> dom m. bucket k' = bucket k}) = Suc (crowd m k)"
        unfolding crowd_def by (rule card_insert_disjoint)
      then show ?thesis using le by simp
    qed
    then show ?thesis using insert_rep [OF r, of k v] t OpInsert False by fastforce
  qed
next
  case (OpRemove k)
  show ?thesis
  proof (cases "k = NULL")
    case True
    then have "m(k := None) = m" using n by (auto simp: fun_eq_iff)
    then show ?thesis using r OpRemove True by (simp add: wow_hash_map_remove_def)
  next
    case False
    then show ?thesis using remove_rep [OF r, of k] t OpRemove by fastforce
  qed
next
  case (OpGet k)
  show ?thesis
  proof (cases "k = NULL")
    case True
    then have "m k = None" using n by auto
    then show ?thesis using r OpGet True by (simp add: wow_hash_map_get_def)
  next
    case False
    then show ?thesis using get_rep [OF r, of k] t OpGet r by simp
  qed
next
  case OpSize
  then show ?thesis using size_rep [OF r] r by simp
next
  case OpClear
  then show ?thesis using clear_rep [OF r] by simp
qed

lemma run_rep:
  assumes "rep hm m" and "\<And>op. op \<in> set ops \<Longrightarrow> op_typed kok vok op" and "dom m \<union> (\<Union>op \<in> set ops. op_keys op) \<subseteq> A"
    and "finite A" and "NULL \<notin> A" and c: "\<And>b. card {k \<in> A. bucket k = b} \<le> 8"
  shows "\<exists>hm'. map_run ops hm = Some (fst (spec_run ops m), hm') \<and> rep hm' (snd (spec_run ops m))"
  using assms(1-3)
proof (induction ops arbitrary: hm m)
  case Nil
  then show ?case by simp
next
  case (Cons op ops)
  have "op_typed kok vok op" "dom m \<union> op_keys op \<subseteq> A" "NULL \<notin> dom m" using Cons.prems(2,3) assms(5) by auto
  then obtain hm1 where s: "map_step op hm = Some (fst (spec_step op m), hm1)" "rep hm1 (snd (spec_step op m))"
    using step_rep [OF Cons.prems(1) _ _ assms(4) _ c] by blast
  have "dom (snd (spec_step op m)) \<subseteq> dom m \<union> op_keys op" by (cases op) (auto split: if_splits)
  then have "dom (snd (spec_step op m)) \<union> (\<Union>op \<in> set ops. op_keys op) \<subseteq> A" using Cons.prems(3) by auto
  from Cons.IH [OF s(2) _ this] obtain hm2 where "map_run ops hm1 = Some (fst (spec_run ops (snd (spec_step op m))), hm2)"
      "rep hm2 (snd (spec_run ops (snd (spec_step op m))))" using Cons.prems(2) by auto
  then show ?case using s(1) by (simp add: split_beta Let_def)
qed

end

end
