(* ===== verification/HashHistory.thy ===== *)
theory HashHistory
  imports HashMapRefine
begin

text \<open>
  Whole histories of the hash map and the hash set, for maps between any two of the five element types.
\<close>

definition elem_ok :: "nat \<Rightarrow> voidp \<Rightarrow> bool" where
  "elem_ok t p =
     (if t = ELEMENT_TYPE_UINT8 then num_below 256 p
      else if t = ELEMENT_TYPE_UINT16 then num_below 65536 p
      else if t = ELEMENT_TYPE_UINT32 then num_below (2 ^ 32) p
      else if t = ELEMENT_TYPE_STR then is_text p
      else if t = ELEMENT_TYPE_PTR then num_below (2 ^ 64) p
      else False)"

lemma wow_element_ops_cases:
  assumes "wow_element_ops t = Some el"
  shows "element el (elem_ok t)" and "t < ELEMENT_TYPE_MAX"
proof -
  have "element el (elem_ok t) \<and> t < ELEMENT_TYPE_MAX"
    using assms uint8.element_axioms uint16.element_axioms uint32.element_axioms str.element_axioms ptr.element_axioms
    by (auto simp: wow_element_ops_def elem_ok_def [abs_def] element_types split: if_splits)
  then show "element el (elem_ok t)" and "t < ELEMENT_TYPE_MAX" by simp_all
qed

text \<open>Maps of the types that the library is built with most often: text to number, number to pointer.\<close>

interpretation text_map: keyed ele_str is_text ele_uint32 "num_below (2 ^ 32)"
  by (rule keyed.intro) unfold_locales

interpretation pointer_map: keyed ele_uint32 "num_below (2 ^ 32)" ele_ptr "num_below (2 ^ 64)"
  by (rule keyed.intro) unfold_locales

lemma keyed_types:
  "wow_element_ops kt = Some kel \<Longrightarrow> wow_element_ops vt = Some vel \<Longrightarrow> keyed kel (elem_ok kt) vel (elem_ok vt)"
  by (intro keyed.intro wow_element_ops_cases)

section \<open>The hash map\<close>

lemma hash_map_history:
  assumes "wow_element_ops kt = Some kel" and "wow_element_ops vt = Some vel"
    and "\<And>op. op \<in> set ops \<Longrightarrow> op_typed (elem_ok kt) (elem_ok vt) op"
    and "\<And>b. card {k \<in> (\<Union>op \<in> set ops. op_keys op). bucket_of kel k = b} \<le> 8"
  shows "\<exists>hm hm'. wow_hash_map_create kt vt True True = Some (Some hm) \<and>
    map_run ops hm = Some (fst (spec_run ops Map.empty), hm') \<and>
    keyed.rep kel (elem_ok kt) vel (elem_ok vt) hm' (snd (spec_run ops Map.empty))"
proof -
  have K: "keyed kel (elem_ok kt) vel (elem_ok vt)" using assms(1,2) by (rule keyed_types)
  note b = keyed.bucket_def [OF K]
  obtain hm where c: "wow_hash_map_create kt vt True True = Some (Some hm)"
      and r: "keyed.rep kel (elem_ok kt) vel (elem_ok vt) hm Map.empty"
    using keyed.rep_empty [OF K] assms(1,2) wow_element_ops_cases(2)
    by (simp add: wow_hash_map_create_def HASH_MAP_BUCKET_SIZE_DEFAULT_def HASH_MAP_ITEM_SIZE_DEFAULT_def)
  have n: "NULL \<notin> (\<Union>op \<in> set ops. op_keys op)"
  proof
    assume "NULL \<in> (\<Union>op \<in> set ops. op_keys op)"
    then obtain op where "NULL \<in> op_keys op" by blast
    then show False by (cases op) (auto split: if_splits)
  qed
  show ?thesis using keyed.run_rep [OF K r assms(3) _ finite_op_keys n] assms(4) c by (simp add: b)
qed

lemma few_keys:
  assumes "length ops \<le> 8"
  shows "card {k \<in> (\<Union>op \<in> set ops. op_keys op). P k} \<le> 8"
proof -
  have one: "card (op_keys op) \<le> 1" for op by (cases op) auto
  have "card {k \<in> (\<Union>op \<in> set ops. op_keys op). P k} \<le> card (\<Union>op \<in> set ops. op_keys op)"
    by (intro card_mono finite_op_keys) auto
  also have "... \<le> (\<Sum>op \<in> set ops. card (op_keys op))" by (rule card_UN_le) simp
  also have "... \<le> card (set ops)" using sum_mono [of "set ops" "\<lambda>op. card (op_keys op)" "\<lambda>_. 1"] one by simp
  also have "... \<le> length ops" by (rule card_length)
  finally show ?thesis using assms by simp
qed

text \<open>C24. The hash map is a finite map. After its creation for any two element types, every history of insertions,
  removals, look-ups, size queries and clearings with elements of those types gives the results of the same history on a
  finite map, null pointers included, and in the end the callback of \<open>foreach\<close> is called with the value of each
  key once. The keys inserted by the history must not crowd: at most eight may fall into one bucket.\<close>

theorem hash_map_is_map:
  assumes "wow_element_ops kt = Some kel" and "wow_element_ops vt = Some vel"
    and "\<forall>op \<in> set ops. op_typed (elem_ok kt) (elem_ok vt) op"
    and "\<forall>b. card {k \<in> (\<Union>op \<in> set ops. op_keys op). bucket_of kel k = b} \<le> 8"
  shows "\<exists>hm hm' kvs. wow_hash_map_create kt vt True True = Some (Some hm) \<and>
    map_run ops hm = Some (fst (spec_run ops Map.empty), hm') \<and>
    distinct (map fst kvs) \<and> map_of kvs = snd (spec_run ops Map.empty) \<and>
    (\<forall>(cb :: voidp \<Rightarrow> 'c \<Rightarrow> 'c) c. wow_hash_map_foreach hm' (Some cb) c = Some (fold cb (map snd kvs) c))"
proof -
  obtain hm hm' where c: "wow_hash_map_create kt vt True True = Some (Some hm)"
      "map_run ops hm = Some (fst (spec_run ops Map.empty), hm')"
      and r: "keyed.rep kel (elem_ok kt) vel (elem_ok vt) hm' (snd (spec_run ops Map.empty))"
    using hash_map_history [OF assms(1,2)] assms(3,4) by blast
  obtain kvs where "distinct (map fst kvs)" "map_of kvs = snd (spec_run ops Map.empty)"
      "\<forall>(cb :: voidp \<Rightarrow> 'c \<Rightarrow> 'c) c. wow_hash_map_foreach hm' (Some cb) c = Some (fold cb (map snd kvs) c)"
    using keyed.foreach_rep [OF keyed_types [OF assms(1,2)] r] by blast
  then show ?thesis using c by blast
qed

theorem hash_map_is_map_witness:
  "\<exists>hm hm' kvs. wow_hash_map_create ELEMENT_TYPE_STR ELEMENT_TYPE_UINT32 True True = Some (Some hm) \<and>
    map_run [OpInsert (Text [107]) (Num 5), OpInsert (Text [107, 50]) (Num 6), OpInsert (Text [107]) (Num 7), OpRemove (Text [107, 50]),
        OpGet (Text [107]), OpGet (Text [107, 50]), OpInsert (Text []) NULL, OpSize] hm =
      Some ([ResInt 0, ResInt 0, ResInt 0, ResVoid, ResPtr (Num 7), ResPtr NULL, ResInt (-102), ResSize 1], hm') \<and>
    distinct (map fst kvs) \<and> map_of kvs = [Text [107] \<mapsto> Num 7] \<and>
    (\<forall>cb c. wow_hash_map_foreach hm' (Some cb) c = Some (fold cb (map snd kvs) (c :: nat)))"
proof -
  let ?ops = "[OpInsert (Text [107]) (Num 5), OpInsert (Text [107, 50]) (Num 6), OpInsert (Text [107]) (Num 7), OpRemove (Text [107, 50]),
        OpGet (Text [107]), OpGet (Text [107, 50]), OpInsert (Text []) NULL, OpSize]"
  have t: "wow_element_ops ELEMENT_TYPE_STR = Some ele_str" "wow_element_ops ELEMENT_TYPE_UINT32 = Some ele_uint32"
    by (simp_all add: wow_element_ops_def element_types)
  have "\<forall>op \<in> set ?ops. op_typed (elem_ok ELEMENT_TYPE_STR) (elem_ok ELEMENT_TYPE_UINT32) op"
    by (simp add: elem_ok_def element_types)
  moreover have "\<forall>b. card {k \<in> (\<Union>op \<in> set ?ops. op_keys op). bucket_of ele_str k = b} \<le> 8"
    by (intro allI few_keys) simp
  moreover have "[Text [107] \<mapsto> Num 5, Text [107, 50] \<mapsto> Num 6, Text [107] \<mapsto> Num 7](Text [107, 50] := None) = [Text [107] \<mapsto> Num 7]"
    by (auto simp: fun_eq_iff)
  then have "spec_run ?ops Map.empty =
      ([ResInt 0, ResInt 0, ResInt 0, ResVoid, ResPtr (Num 7), ResPtr NULL, ResInt (-102), ResSize 1], [Text [107] \<mapsto> Num 7])"
    by (simp add: PARAM_INPUT_DATA_IS_NULL_def card_insert_if)
  ultimately show ?thesis using hash_map_is_map [OF t, of ?ops] by simp
qed

lemma spec_run_typed:
  assumes "\<forall>op \<in> set ops. op_typed kok vok op" and "\<forall>v \<in> ran m. v \<noteq> NULL \<and> vok v"
    and "\<forall>k \<in> dom m. kok k"
  shows "\<forall>p. ResPtr p \<in> set (fst (spec_run ops m)) \<longrightarrow> p = NULL \<or> vok p" and "\<forall>v \<in> ran (snd (spec_run ops m)). v \<noteq> NULL \<and> vok v"
  using assms
proof (induction ops arbitrary: m)
  case Nil
  { case 1 show ?case by simp }
  { case 2 then show ?case by simp }
next
  case (Cons op ops)
  have s: "ResPtr p = fst (spec_step op m) \<Longrightarrow> p = NULL \<or> vok p" "\<forall>v \<in> ran (snd (spec_step op m)). v \<noteq> NULL \<and> vok v"
      "\<forall>k \<in> dom (snd (spec_step op m)). kok k"
    if "\<forall>op \<in> set (op # ops). op_typed kok vok op" "\<forall>v \<in> ran m. v \<noteq> NULL \<and> vok v" "\<forall>k \<in> dom m. kok k" for p m
    using that by (cases op; auto simp: ran_def split: if_splits option.splits)+
  { case 1 show ?case using Cons.IH(1) [OF _ s(2,3) [OF 1]] s(1) [OF 1] 1(1) by (auto simp: split_beta Let_def) }
  { case 2 show ?case using Cons.IH(2) [OF _ s(2,3) [OF 2]] 2(1) by (simp add: split_beta Let_def) }
qed



lemma map_run_append:
  "map_run (ops @ ops') hm = do { (rs, hm) \<leftarrow> map_run ops hm; (rs', hm) \<leftarrow> map_run ops' hm; Some (rs @ rs', hm) }"
  by (induction ops arbitrary: hm) (auto simp: split_beta bind_eq_None_conv split: bind_splits)

text \<open>C25. A ninth key in one bucket is undefined behaviour: when a history has left eight keys in the bucket of a further
  key, inserting that key clears memory outside the list that was just enlarged.\<close>

theorem hash_map_ninth_key:
  assumes "wow_element_ops kt = Some kel" and "wow_element_ops vt = Some vel"
    and "\<forall>op \<in> set ops. op_typed (elem_ok kt) (elem_ok vt) op"
    and "\<forall>b. card {k \<in> (\<Union>op \<in> set ops. op_keys op). bucket_of kel k = b} \<le> 8"
    and "m = snd (spec_run ops Map.empty)" and "elem_ok kt k" and "k \<noteq> NULL" and "v \<noteq> NULL" and "m k = None"
    and "card {k' \<in> dom m. bucket_of kel k' = bucket_of kel k} = 8"
  shows "\<exists>hm. wow_hash_map_create kt vt True True = Some (Some hm) \<and> map_run (ops @ [OpInsert k v]) hm = None"
proof -
  have K: "keyed kel (elem_ok kt) vel (elem_ok vt)" using assms(1,2) by (rule keyed_types)
  obtain hm hm' where c: "wow_hash_map_create kt vt True True = Some (Some hm)"
      "map_run ops hm = Some (fst (spec_run ops Map.empty), hm')"
      and r: "keyed.rep kel (elem_ok kt) vel (elem_ok vt) hm' m"
    using hash_map_history [OF assms(1,2)] assms(3-5) by blast
  have "keyed.crowd kel m k = 8" using assms(10) by (simp add: keyed.crowd_def [OF K] keyed.bucket_def [OF K])
  then have "wow_hash_map_insert heap_ok hm' k v = None" by (rule keyed.insert_ninth [OF K r assms(6-9)])
  then show ?thesis using c by (simp add: map_run_append)
qed

theorem hash_map_ninth_key_witness:
  "\<exists>hm. wow_hash_map_create ELEMENT_TYPE_UINT32 ELEMENT_TYPE_PTR True True = Some (Some hm) \<and>
    map_run (map (\<lambda>n. OpInsert (Num n) (Num 5)) [1, 7, 9, 26, 49, 59, 74, 79] @ [OpInsert (Num 82) (Num 5)]) hm = None"
proof -
  let ?ks = "[1, 7, 9, 26, 49, 59, 74, 79] :: size_t list"
  let ?ops = "map (\<lambda>n. OpInsert (Num n) (Num 5)) ?ks"
  have t: "wow_element_ops ELEMENT_TYPE_UINT32 = Some ele_uint32" "wow_element_ops ELEMENT_TYPE_PTR = Some ele_ptr"
    by (simp_all add: wow_element_ops_def element_types)
  have b: "bucket_of ele_uint32 (Num n) = 10" if "n \<in> set (82 # ?ks)" for n
    using that by (auto simp: bucket_of_def ele_uint32_def element_uint32_hash_def wow_hash_uint32_def HASH_UINT_MAX_def
        hash_data_func_int_bj_def Let_def)
  have ty: "\<forall>op \<in> set ?ops. op_typed (elem_ok ELEMENT_TYPE_UINT32) (elem_ok ELEMENT_TYPE_PTR) op"
    by (simp add: elem_ok_def element_types)
  have few: "\<forall>b. card {k \<in> (\<Union>op \<in> set ?ops. op_keys op). bucket_of ele_uint32 k = b} \<le> 8"
    by (intro allI few_keys) simp
  have d: "dom (snd (spec_run ?ops Map.empty)) = Num ` set ?ks" by auto
  then have "{k' \<in> dom (snd (spec_run ?ops Map.empty)). bucket_of ele_uint32 k' = bucket_of ele_uint32 (Num 82)} = Num ` set ?ks"
    using b by auto
  moreover have "card (Num ` set ?ks) = 8" by (simp add: card_insert_if)
  ultimately have full: "card {k' \<in> dom (snd (spec_run ?ops Map.empty)). bucket_of ele_uint32 k' = bucket_of ele_uint32 (Num 82)} = 8"
    by (simp only:)
  show ?thesis
    by (rule hash_map_ninth_key [OF t ty few refl _ _ _ _ full]) (simp_all add: elem_ok_def element_types)
qed

section \<open>The hash set\<close>

datatype set_op = SetInsert voidp | SetRemove voidp | SetGet voidp | SetSize | SetClear

fun set_step :: "set_op \<Rightarrow> HashMap_T \<Rightarrow> (map_result \<times> HashMap_T) option" where
  "set_step (SetInsert d) hs = do { (r, hs) \<leftarrow> wow_hash_set_insert heap_ok hs d; Some (ResInt r, hs) }"
| "set_step (SetRemove d) hs = do { hs \<leftarrow> wow_hash_set_remove hs d; Some (ResVoid, hs) }"
| "set_step (SetGet d) hs = do { r \<leftarrow> wow_hash_set_get hs d; Some (ResInt r, hs) }"
| "set_step SetSize hs = Some (ResSize (wow_hash_set_size hs), hs)"
| "set_step SetClear hs = Some (ResVoid, wow_hash_set_clear hs)"

fun set_run :: "set_op list \<Rightarrow> HashMap_T \<Rightarrow> (map_result list \<times> HashMap_T) option" where
  "set_run [] hs = Some ([], hs)"
| "set_run (op # ops) hs = do { (r, hs) \<leftarrow> set_step op hs; (rs, hs) \<leftarrow> set_run ops hs; Some (r # rs, hs) }"

fun set_spec_step :: "set_op \<Rightarrow> voidp set \<Rightarrow> map_result \<times> voidp set" where
  "set_spec_step (SetInsert d) S =
     (if d = NULL then (ResInt (- PARAM_INPUT_DATA_IS_NULL), S) else (ResInt 0, insert d S))"
| "set_spec_step (SetRemove d) S = (ResVoid, S - {d})"
| "set_spec_step (SetGet d) S = (ResInt (if d \<in> S then 0 else -1), S)"
| "set_spec_step SetSize S = (ResSize (card S), S)"
| "set_spec_step SetClear S = (ResVoid, {})"

fun set_spec_run :: "set_op list \<Rightarrow> voidp set \<Rightarrow> map_result list \<times> voidp set" where
  "set_spec_run [] S = ([], S)"
| "set_spec_run (op # ops) S = (let (r, S) = set_spec_step op S; (rs, S) = set_spec_run ops S in (r # rs, S))"

text \<open>The set is a client of the map: it maps its elements to the number 1.\<close>

fun map_op_of :: "set_op \<Rightarrow> map_op" where
  "map_op_of (SetInsert d) = OpInsert d (Num 1)"
| "map_op_of (SetRemove d) = OpRemove d"
| "map_op_of (SetGet d) = OpGet d"
| "map_op_of SetSize = OpSize"
| "map_op_of SetClear = OpClear"

fun set_result :: "map_result \<Rightarrow> map_result" where
  "set_result (ResPtr p) = ResInt (if p \<noteq> NULL then 0 else -1)"
| "set_result r = r"

lemma set_step_map: "set_step op hs = do { (r, hs) \<leftarrow> map_step (map_op_of op) hs; Some (set_result r, hs) }"
  by (cases op) (simp_all add: wow_hash_set_insert_def wow_hash_set_remove_def wow_hash_set_get_def
      wow_hash_set_size_def wow_hash_set_clear_def case_prod_unfold)

lemma set_run_map: "set_run ops hs = do { (rs, hs) \<leftarrow> map_run (map map_op_of ops) hs; Some (map set_result rs, hs) }"
  by (induction ops arbitrary: hs) (simp_all add: set_step_map split_beta)

definition ones :: "voidp set \<Rightarrow> voidp \<rightharpoonup> voidp" where
  "ones S = (\<lambda>d. if d \<in> S then Some (Num 1) else None)"

lemma set_spec_step_map:
  "spec_step (map_op_of op) (ones S) =
     (case set_spec_step op S of (r, S') \<Rightarrow> (fst (spec_step (map_op_of op) (ones S)), ones S')) \<and>
   set_result (fst (spec_step (map_op_of op) (ones S))) = fst (set_spec_step op S)"
  by (cases op) (auto simp: ones_def fun_eq_iff dom_def)

lemma set_spec_run_map:
  "map set_result (fst (spec_run (map map_op_of ops) (ones S))) = fst (set_spec_run ops S)"
proof (induction ops arbitrary: S)
  case Nil
  then show ?case by simp
next
  case (Cons op ops)
  have "spec_step (map_op_of op) (ones S) = (fst (spec_step (map_op_of op) (ones S)), ones (snd (set_spec_step op S)))"
      "set_result (fst (spec_step (map_op_of op) (ones S))) = fst (set_spec_step op S)"
    using set_spec_step_map [of op S] by (simp_all add: split_beta)
  then show ?case using Cons.IH by (simp add: split_beta Let_def) (metis fst_conv snd_conv)
qed

text \<open>C18. The hash set is a finite set: after its creation, and with memory for every allocation, every history of insertions, removals, membership tests, size
  queries and clearings with elements of its type gives the results of the same history on a finite set, as long as no
  more than eight of the inserted elements share a bucket.\<close>

theorem hash_set_is_set:
  assumes "wow_element_ops t = Some el"
    and "\<forall>op \<in> set ops. op_typed (elem_ok t) (elem_ok ELEMENT_TYPE_UINT8) (map_op_of op)"
    and "\<forall>b. card {d \<in> (\<Union>op \<in> set ops. op_keys (map_op_of op)). bucket_of el d = b} \<le> 8"
  shows "\<exists>hs hs'. wow_hash_set_create t True True = Some (Some hs) \<and>
    set_run ops hs = Some (fst (set_spec_run ops {}), hs')"
proof -
  have "ones {} = Map.empty" by (simp add: ones_def)
  then have "map set_result (fst (spec_run (map map_op_of ops) Map.empty)) = fst (set_spec_run ops {})"
    using set_spec_run_map [of ops "{}"] by simp
  moreover have "wow_element_ops ELEMENT_TYPE_UINT8 = Some ele_uint8" by (simp add: wow_element_ops_def)
  ultimately show ?thesis using hash_map_history [OF assms(1), of ELEMENT_TYPE_UINT8 ele_uint8 "map map_op_of ops"] assms(2,3)
    by (fastforce simp: wow_hash_set_create_def set_run_map)
qed

theorem hash_set_is_set_witness:
  "\<exists>hs hs'. wow_hash_set_create ELEMENT_TYPE_UINT16 True True = Some (Some hs) \<and>
    set_run [SetInsert (Num 300), SetInsert (Num 7), SetInsert (Num 300), SetRemove (Num 7), SetGet (Num 300), SetGet (Num 7), SetSize] hs =
      Some ([ResInt 0, ResInt 0, ResInt 0, ResVoid, ResInt 0, ResInt (-1), ResSize 1], hs')"
proof -
  let ?ops = "[SetInsert (Num 300), SetInsert (Num 7), SetInsert (Num 300), SetRemove (Num 7), SetGet (Num 300), SetGet (Num 7), SetSize]"
  have t: "wow_element_ops ELEMENT_TYPE_UINT16 = Some ele_uint16" by (simp add: wow_element_ops_def element_types)
  have ty: "\<forall>op \<in> set ?ops. op_typed (elem_ok ELEMENT_TYPE_UINT16) (elem_ok ELEMENT_TYPE_UINT8) (map_op_of op)"
    by (simp add: elem_ok_def element_types)
  have few: "\<forall>b. card {d \<in> (\<Union>op \<in> set ?ops. op_keys (map_op_of op)). bucket_of ele_uint16 d = b} \<le> 8"
    using few_keys [of "map map_op_of ?ops"] by simp
  have "fst (set_spec_run ?ops {}) = [ResInt 0, ResInt 0, ResInt 0, ResVoid, ResInt 0, ResInt (-1), ResSize 1]"
    by (simp add: card_insert_if)
  then show ?thesis using hash_set_is_set [OF t ty few] by simp
qed

end
