(* ===== verification/Str.thy ===== *)
theory Str
  imports SizeT Errno
begin

text \<open>
  The text functions of \<open>wow_str.c\<close>: splitting, joining, prefix and suffix tests, and replacing a pattern. A text is the
  list of its characters without the terminator, a null pointer is \<open>None\<close>.

  Replacing contains loops that need not end. It is a partial function: \<open>None\<close> is a call that never
  returns, and a call that returns is either undefined behaviour or has a result.
\<close>

datatype 'a outcome = Undefined | Returned 'a

section \<open>Splitting and joining\<close>

text \<open>\<open>strsep\<close> of the C library: the token up to the next delimiter and the rest behind it.\<close>

fun strsep :: "bytes \<Rightarrow> bytes option \<Rightarrow> bytes option \<times> bytes option" where
  "strsep delim None = (None, None)"
| "strsep delim (Some s) =
     (let token = takeWhile (\<lambda>c. c \<notin> set delim) s in
      (Some token, if length token = length s then None else Some (drop (length token + 1) s)))"

text \<open>The first loop counts the tokens, the second one copies that many. \<open>dup i\<close> tells whether the copy of token \<open>i\<close> can be
  allocated.\<close>

lemma takeWhile_shorter: "length (takeWhile P s) \<noteq> length s \<Longrightarrow> length (takeWhile P s) < length s"
  using length_takeWhile_le [of P s] by linarith

function count_loop :: "bytes \<Rightarrow> bytes option \<Rightarrow> bytes option \<Rightarrow> nat \<Rightarrow> nat option" where
  "count_loop delim None copy n = Some n"
| "count_loop delim (Some token) copy n =
     do { n \<leftarrow> int_succ n; let (token, copy) = strsep delim copy; count_loop delim token copy n }"
  by pat_completeness auto
termination
  by (relation "measure (\<lambda>(_, token, copy, _). (if token = None then 0 else 1) + (case copy of None \<Rightarrow> 0 | Some c \<Rightarrow> length c + 1))")
    (auto split: option.splits if_splits simp: Let_def dest!: takeWhile_shorter)

fun copy_loop :: "bytes \<Rightarrow> (nat \<Rightarrow> bool) \<Rightarrow> nat \<Rightarrow> nat \<Rightarrow> bytes option \<Rightarrow> bytes option \<Rightarrow> bytes option list option" where
  "copy_loop delim dup i 0 token copy = Some []"
| "copy_loop delim dup i (Suc n) token copy =
     do {
       t \<leftarrow> token;
       let (token, copy) = strsep delim copy;
       rest \<leftarrow> copy_loop delim dup (i + 1) n token copy;
       Some ((if dup i then Some t else None) # rest)
     }"

text \<open>The result is the returned pointer, an array that ends with a null pointer, and \<open>*pnCount\<close>. Three allocations
  come first: a copy to count in, the array, a copy to split.\<close>

definition wow_str_split ::
  "bytes option \<Rightarrow> bytes option \<Rightarrow> bool \<Rightarrow> bool \<Rightarrow> bool \<Rightarrow> (nat \<Rightarrow> bool) \<Rightarrow> (bytes option list option \<times> nat option) option" where
  "wow_str_split pcStr pcDelim copy_ok array_ok copy2_ok dup =
     (case (pcStr, pcDelim) of
        (Some s, Some delim) \<Rightarrow>
          if \<not> copy_ok then Some (None, Some 0)
          else do {
            let (token, copy) = strsep delim (Some s);
            n \<leftarrow> count_loop delim token copy 0;
            if \<not> array_ok then Some (None, Some 0)
            else if \<not> copy2_ok then Some (None, Some 0)
            else do {
              let (token, copy) = strsep delim (Some s);
              a \<leftarrow> copy_loop delim dup 0 n token copy;
              Some (Some (a @ [None]), Some n)
            }
          }
      | _ \<Rightarrow> Some (None, None))"

text \<open>\<open>strncpy(p, result, length); strncat(p, temStr, length)\<close> into \<open>length\<close> bytes.\<close>

definition combine_into :: "nat \<Rightarrow> bytes \<Rightarrow> bytes \<Rightarrow> bytes option" where
  "combine_into len result temStr =
     (let p = take len result; q = p @ take len temStr in
      if length p < len \<and> length q + 1 \<le> len then Some q else None)"

text \<open>\<open>while (--nAmount > 0)\<close>; taking an argument that was not passed is undefined. \<open>ok i\<close> answers the allocation for
  argument \<open>i\<close>.\<close>

fun combine_loop :: "(nat \<Rightarrow> bool) \<Rightarrow> nat \<Rightarrow> nat \<Rightarrow> bytes option list \<Rightarrow> nat \<Rightarrow> bytes \<Rightarrow> bytes option option" where
  "combine_loop ok i 0 args len result = Some (Some result)"
| "combine_loop ok i (Suc n) [] len result = None"
| "combine_loop ok i (Suc n) (None # args) len result = combine_loop ok (i + 1) n args len result"
| "combine_loop ok i (Suc n) (Some temStr # args) len result =
     (let len = len + length temStr in
      if \<not> ok i then Some None
      else do { p \<leftarrow> combine_into len result temStr; combine_loop ok (i + 1) n args len p })"

definition wow_str_combine :: "(nat \<Rightarrow> bool) \<Rightarrow> int \<Rightarrow> bytes option \<Rightarrow> bytes option list \<Rightarrow> bytes option option" where
  "wow_str_combine ok nAmount str1 args =
     (case str1 of
        None \<Rightarrow> Some None
      | Some s \<Rightarrow>
          if \<not> length s \<ge> 1 then Some None
          else if \<not> nAmount > 0 then Some None
          else if \<not> ok 0 then Some None
          else combine_loop ok 1 (nat nAmount - 1) args (length s + 1) s)"

section \<open>Prefixes and suffixes\<close>

definition wow_str_has_suffix :: "bytes option \<Rightarrow> bytes option \<Rightarrow> int" where
  "wow_str_has_suffix pcStr pcSuffix =
     (case (pcStr, pcSuffix) of
        (Some s, Some suf) \<Rightarrow>
          if length s < length suf then 0
          else if drop (length s - length suf) s = suf then 1 else 0
      | _ \<Rightarrow> - PARAM_INPUT_DATA_IS_NULL)"

definition wow_str_has_prefix :: "bytes option \<Rightarrow> bytes option \<Rightarrow> int" where
  "wow_str_has_prefix pcStr pcSuffix =
     (case (pcStr, pcSuffix) of
        (Some s, Some pre) \<Rightarrow> if take (length pre) s = pre then 1 else 0
      | _ \<Rightarrow> - PARAM_INPUT_DATA_IS_NULL)"

section \<open>Replacing\<close>

text \<open>\<open>while (old < size) old = (old * 1.5)\<close>. The arguments are \<open>int\<close>s, for which the product is exact.\<close>

partial_function (option) getLen_loop :: "nat \<Rightarrow> nat \<Rightarrow> nat option" where
  "getLen_loop old sz = (if old < sz then getLen_loop (old * 3 div 2) sz else Some old)"

definition getLen :: "nat \<Rightarrow> nat \<Rightarrow> nat option" where
  "getLen old sz = getLen_loop (if old = 1 then 2 else old) sz"

definition INT_LIMIT :: nat where "INT_LIMIT = 2 ^ 31"

text \<open>The buffer, \<open>None\<close> after a failed allocation, and \<open>*curSize\<close>; \<open>heap n\<close> tells whether \<open>n\<close> bytes can be allocated. A
  reallocation keeps the old bytes. A length that an \<open>int\<close> cannot hold becomes negative, a request for almost \<open>2 ^ 64\<close> bytes that no
  heap meets.\<close>

definition resized :: "bytes \<Rightarrow> nat \<Rightarrow> bytes" where
  "resized buf n = take n buf @ replicate (n - length buf) 0"

definition ensureSpace :: "(nat \<Rightarrow> bool) \<Rightarrow> bytes \<Rightarrow> nat \<Rightarrow> nat \<Rightarrow> (bytes option \<times> nat) option" where
  "ensureSpace heap dest curSize sz =
     (if curSize < sz
      then do {
        n \<leftarrow> getLen curSize sz;
        Some (if n < INT_LIMIT \<and> heap n then Some (resized dest n) else None, n)
      }
      else Some (Some dest, curSize))"

text \<open>\<open>strstr\<close>: where the first occurrence of the pattern begins.\<close>

fun strstr :: "bytes \<Rightarrow> bytes \<Rightarrow> nat option" where
  "strstr [] p = (if p = [] then Some 0 else None)"
| "strstr (c # s) p = (if take (length p) (c # s) = p then Some 0 else map_option Suc (strstr s p))"

text \<open>The loop; \<open>s\<close> is what is left of the text. Sizes are \<open>int\<close>s whose overflow is undefined.\<close>

partial_function (option) replace_loop ::
  "(nat \<Rightarrow> bool) \<Rightarrow> bytes \<Rightarrow> bytes \<Rightarrow> bytes \<Rightarrow> nat \<Rightarrow> bytes \<Rightarrow> nat \<Rightarrow> bytes option outcome option" where
  "replace_loop heap pat rep s start dest newLen =
     (case strstr s pat of
        None \<Rightarrow>
          let sz = length s + start + 1 in
          if sz \<ge> INT_LIMIT then Some Undefined
          else Option.bind (ensureSpace heap dest newLen sz) (\<lambda>(d, newLen).
            case d of
              None \<Rightarrow> Some (Returned None)
            | Some dest \<Rightarrow>
                (case wrn dest start (s @ [0]) of
                   None \<Rightarrow> Some Undefined
                 | Some dest \<Rightarrow> Some (Returned (Some dest))))
      | Some len \<Rightarrow>
          let sz = start + len + length rep + 1 in
          if sz \<ge> INT_LIMIT then Some Undefined
          else Option.bind (ensureSpace heap dest newLen sz) (\<lambda>(d, newLen).
            case d of
              None \<Rightarrow> Some (Returned None)
            | Some dest \<Rightarrow>
                (case wrn dest start (take len s) of
                   None \<Rightarrow> Some Undefined
                 | Some dest \<Rightarrow>
                     (case wrn dest (start + len) rep of
                        None \<Rightarrow> Some Undefined
                      | Some dest \<Rightarrow>
                          replace_loop heap pat rep (drop (len + length pat) s) (start + len + length rep) dest newLen))))"

text \<open>A text so long that an \<open>int\<close> cannot hold its length is left out. The returned pointer refers to the buffer.\<close>

definition wow_str_replace ::
  "(nat \<Rightarrow> bool) \<Rightarrow> bytes option \<Rightarrow> bytes option \<Rightarrow> bytes option \<Rightarrow> bytes option outcome option" where
  "wow_str_replace heap pcStr pPattern pcRep =
     (case (pcStr, pPattern, pcRep) of
        (Some s, Some pat, Some rep) \<Rightarrow>
          if length s \<ge> INT_LIMIT - 1 \<or> length pat \<ge> INT_LIMIT \<or> length rep \<ge> INT_LIMIT then Some Undefined
          else if \<not> heap (length s + 1) then Some (Returned None)
          else replace_loop heap pat rep s 0 (replicate (length s + 1) 0) (length s)
      | _ \<Rightarrow> Some (Returned None))"

definition wow_str_free :: "bytes option option \<Rightarrow> bytes option option" where
  "wow_str_free ppStr = (case ppStr of None \<Rightarrow> None | Some _ \<Rightarrow> Some None)"


section \<open>Growing the buffer\<close>

lemma getLen_loop_grows:
  "2 \<le> old \<Longrightarrow> \<exists>n. getLen_loop old sz = Some n \<and> sz \<le> n \<and> (old < sz \<longrightarrow> 2 * n < 3 * sz)"
proof (induction "sz - old" arbitrary: old rule: less_induct)
  case less
  show ?case
  proof (cases "old < sz")
    case True
    have more: "2 \<le> old * 3 div 2" "old < old * 3 div 2" using less.prems by linarith+
    then have "sz - old * 3 div 2 < sz - old" using True by linarith
    then obtain n where n: "getLen_loop (old * 3 div 2) sz = Some n" "sz \<le> n" "old * 3 div 2 < sz \<longrightarrow> 2 * n < 3 * sz"
      using less.hyps [OF _ more(1)] by blast
    have "2 * n < 3 * sz"
    proof (cases "old * 3 div 2 < sz")
      case False
      then have "n = old * 3 div 2" using n(1) by (simp add: getLen_loop.simps)
      then show ?thesis using True by linarith
    qed (use n in simp)
    then show ?thesis using n(1,2) True by (subst getLen_loop.simps) simp
  qed (subst getLen_loop.simps, simp)
qed

lemma getLen_loop_zero: "0 < sz \<Longrightarrow> getLen_loop 0 sz = None"
proof -
  have "old = 0 \<longrightarrow> sz = 0" if "getLen_loop old sz = Some n" for old n
    using _ that by (rule getLen_loop.raw_induct) (auto split: if_splits)
  then show "0 < sz \<Longrightarrow> getLen_loop 0 sz = None" by (cases "getLen_loop 0 sz") auto
qed

lemma getLen_grows:
  assumes "0 < old"
  obtains n where "getLen old sz = Some n" "sz \<le> n" "old < sz \<longrightarrow> 2 * n < 3 * sz \<or> n = 2"
proof (cases "old = 1")
  case True
  then show thesis using getLen_loop_grows [of 2 sz] that by (auto simp: getLen_def getLen_loop.simps [of 2] split: if_splits)
next
  case False
  then show thesis using getLen_loop_grows [of old sz] assms that by (auto simp: getLen_def)
qed

lemma ensureSpace_returns:
  "0 < cur \<Longrightarrow> 0 < sz \<Longrightarrow> \<exists>d n. ensureSpace heap dest cur sz = Some (d, n) \<and> 0 < n"
  by (rule getLen_grows [of cur sz]) (auto simp: ensureSpace_def)

lemma ensureSpace_grants:
  assumes "0 < cur" and "cur \<le> length dest" and "3 * sz < 2 * INT_LIMIT" and "\<forall>k < INT_LIMIT. heap k"
  obtains b n where "ensureSpace heap dest cur sz = Some (Some b, n)" "0 < n" "sz \<le> n" "n \<le> length b"
    "take cur b = take cur dest"
proof (cases "cur < sz")
  case True
  obtain n where n: "getLen cur sz = Some n" "sz \<le> n" "cur < sz \<longrightarrow> 2 * n < 3 * sz \<or> n = 2"
    using getLen_grows [OF assms(1)] by metis
  then have "n < INT_LIMIT" using True assms(3) by (auto simp: INT_LIMIT_def)
  then have "ensureSpace heap dest cur sz = Some (Some (resized dest n), n)"
    using True n assms(4) by (simp add: ensureSpace_def)
  then show thesis using True n assms by (intro that [of "resized dest n" n]) (auto simp: resized_def)
qed (use assms in \<open>auto intro!: that simp: ensureSpace_def\<close>)

section \<open>When replacing returns\<close>

lemma strstr_Nil [simp]: "strstr s [] = Some 0"
  by (cases s) auto

lemma replace_loop_stuck: "0 < newLen \<Longrightarrow> replace_loop heap [] [] s 0 dest newLen = None"
proof -
  have stuck: "pat = [] \<longrightarrow> rep = [] \<longrightarrow> start = 0 \<longrightarrow> newLen = 0"
    if "replace_loop heap pat rep s start dest newLen = Some y" for pat rep s start dest newLen y
    using _ that
    by (rule replace_loop.raw_induct) (auto simp: Let_def INT_LIMIT_def ensureSpace_def wrn_def split: if_splits)
  then show "0 < newLen \<Longrightarrow> replace_loop heap [] [] s 0 dest newLen = None"
    by (cases "replace_loop heap [] [] s 0 dest newLen") (use stuck in blast)+
qed

lemma replace_loop_returns:
  assumes "pat \<noteq> [] \<or> rep \<noteq> []" and "0 < newLen"
  shows "replace_loop heap pat rep s start dest newLen \<noteq> None"
  using assms(2)
proof (induction "if pat = [] then INT_LIMIT - start else length s" arbitrary: s start dest newLen rule: less_induct)
  case less
  show ?case
  proof (cases "strstr s pat")
    case None
    obtain d n where "ensureSpace heap dest newLen (length s + start + 1) = Some (d, n)"
      using ensureSpace_returns [OF less.prems] by (metis add_gr_0 zero_less_one)
    then show ?thesis using None by (subst replace_loop.simps) (simp add: Let_def split: option.split)
  next
    case (Some len)
    let ?sz = "start + len + length rep + 1"
    have "pat = [] \<longrightarrow> rep \<noteq> []" using assms(1) by simp
    moreover have "pat \<noteq> [] \<longrightarrow> s \<noteq> []" using Some by (auto split: if_splits)
    ultimately have "(if pat = [] then INT_LIMIT - (start + len + length rep) else length (drop (len + length pat) s)) <
        (if pat = [] then INT_LIMIT - start else length s)" if "?sz < INT_LIMIT"
      using that by (auto simp: neq_Nil_conv)
    then have IH: "?sz < INT_LIMIT \<Longrightarrow> 0 < n \<Longrightarrow>
        \<exists>y. replace_loop heap pat rep (drop (len + length pat) s) (start + len + length rep) b n = Some y" for b n
      using less.hyps by blast
    obtain d n where "ensureSpace heap dest newLen ?sz = Some (d, n)" "0 < n"
      using ensureSpace_returns [OF less.prems] by (metis add_gr_0 zero_less_one)
    then show ?thesis using Some IH
      by (subst replace_loop.simps) (simp add: Let_def split: option.split)
  qed
qed

section \<open>What replacing computes\<close>

text \<open>The occurrences from left to right, none of them overlapping the one before.\<close>

function replaced :: "bytes \<Rightarrow> bytes \<Rightarrow> bytes \<Rightarrow> bytes" where
  "replaced pat rep [] = []"
| "replaced pat rep (c # s) =
     (if pat \<noteq> [] \<and> take (length pat) (c # s) = pat then rep @ replaced pat rep (drop (length pat) (c # s))
      else c # replaced pat rep s)"
  by pat_completeness auto
termination by (relation "measure (\<lambda>(_, _, s). length s)") (auto simp: neq_Nil_conv)

lemma replaced_absent: "strstr s pat = None \<Longrightarrow> replaced pat rep s = s"
  by (induction s) (auto split: if_splits)

lemma replaced_first:
  assumes "pat \<noteq> []"
  shows "strstr s pat = Some len \<Longrightarrow>
    replaced pat rep s = take len s @ rep @ replaced pat rep (drop (len + length pat) s) \<and> len + length pat \<le> length s"
proof (induction s arbitrary: len)
  case (Cons c s)
  show ?case
  proof (cases "take (length pat) (c # s) = pat")
    case True
    then have "length (take (length pat) (c # s)) = length pat" by (simp only:)
    then have "length pat \<le> length (c # s)" by simp
    then show ?thesis using True Cons.prems assms by auto
  next
    case False
    then show ?thesis using Cons assms by auto
  qed
qed (use assms in simp)

lemma replace_loop_replaces:
  assumes pat: "pat \<noteq> []" and heap: "\<forall>k < INT_LIMIT. heap k"
  shows "start \<le> newLen \<Longrightarrow> 0 < newLen \<Longrightarrow> newLen \<le> length dest \<Longrightarrow>
    3 * (start + length (replaced pat rep s) + 1) < 2 * INT_LIMIT \<Longrightarrow>
    \<exists>buf. replace_loop heap pat rep s start dest newLen = Some (Returned (Some buf)) \<and>
      take (start + length (replaced pat rep s) + 1) buf = take start dest @ replaced pat rep s @ [0]"
proof (induction "length s" arbitrary: s start dest newLen rule: less_induct)
  case less
  show ?case
  proof (cases "strstr s pat")
    case None
    let ?sz = "length s + start + 1"
    have sz: "3 * ?sz < 2 * INT_LIMIT" using less.prems(4) by (simp add: replaced_absent [OF None])
    obtain b n where e: "ensureSpace heap dest newLen ?sz = Some (Some b, n)"
      "?sz \<le> n" "n \<le> length b" "take newLen b = take newLen dest"
      using ensureSpace_grants [OF less.prems(2,3) sz heap] by metis
    have "take start b = take start dest"
      using arg_cong [OF e(4), of "take start"] less.prems(1) by (simp add: min_def)
    moreover have "start \<le> length dest" using less.prems by linarith
    ultimately show ?thesis using None e sz
      by (subst replace_loop.simps) (auto simp: Let_def wrn_def replaced_absent)
  next
    case (Some len)
    let ?sz = "start + len + length rep + 1"
    define rest where "rest = drop (len + length pat) s"
    have r: "replaced pat rep s = take len s @ rep @ replaced pat rep rest" and len: "len + length pat \<le> length s"
      using replaced_first [OF pat Some] by (auto simp: rest_def)
    have sz: "3 * ?sz < 2 * INT_LIMIT" using less.prems(4) len by (simp add: r)
    obtain b n where e: "ensureSpace heap dest newLen ?sz = Some (Some b, n)"
      "0 < n" "?sz \<le> n" "n \<le> length b" "take newLen b = take newLen dest"
      using ensureSpace_grants [OF less.prems(2,3) sz heap] by metis
    define b' where "b' = take start b @ take len s @ rep @ drop (start + len + length rep) b"
    have "take start b = take start dest"
      using arg_cong [OF e(5), of "take start"] less.prems(1) by (simp add: min_def)
    then have b': "length b' = length b" "take (start + len + length rep) b' = take start dest @ take len s @ rep"
      using e(3,4) len less.prems(1,3) by (auto simp: b'_def)
    have "replace_loop heap pat rep s start dest newLen =
        replace_loop heap pat rep rest (start + len + length rep) b' n"
      using Some e sz len
      by (subst replace_loop.simps) (simp add: Let_def wrn_def b'_def rest_def ac_simps)
    moreover have "length rest < length s" using len pat by (auto simp: rest_def neq_Nil_conv)
    ultimately show ?thesis
      using less.hyps [of rest "start + len + length rep" n b'] e b' less.prems(4) len by (auto simp: r add.assoc)
  qed
qed

section \<open>What splitting computes\<close>

text \<open>The tokens, and a text put together from tokens and the delimiters between them.\<close>

fun tokens :: "bytes \<Rightarrow> bytes \<Rightarrow> bytes list" where
  "tokens delim [] = [[]]"
| "tokens delim (c # s) =
     (if c \<in> set delim then [] # tokens delim s
      else case tokens delim s of t # ts \<Rightarrow> (c # t) # ts)"

fun weave :: "bytes list \<Rightarrow> bytes \<Rightarrow> bytes" where
  "weave [] ds = []"
| "weave (t # ts) [] = t @ concat ts"
| "weave (t # ts) (d # ds) = t @ d # weave ts ds"

lemma tokens_nonempty [simp]: "tokens delim s \<noteq> []"
  by (induction s) (auto split: list.split)

lemma tokens_sound:
  "(\<forall>t \<in> set (tokens delim s). set t \<inter> set delim = {}) \<and>
   length (tokens delim s) = length (filter (\<lambda>c. c \<in> set delim) s) + 1 \<and>
   weave (tokens delim s) (filter (\<lambda>c. c \<in> set delim) s) = s"
proof (induction s)
  case (Cons c s)
  then obtain t ts where "tokens delim s = t # ts" by (cases "tokens delim s") auto
  then show ?case using Cons.IH by (cases "filter (\<lambda>c. c \<in> set delim) s") auto
qed simp

lemma tokens_strsep:
  "tokens delim s = (case strsep delim (Some s) of (t, None) \<Rightarrow> [the t] | (t, Some r) \<Rightarrow> the t # tokens delim r)"
proof (induction s)
  case (Cons c s)
  then show ?case by (cases "length (takeWhile (\<lambda>c. c \<notin> set delim) s) = length s") (auto simp: Let_def)
qed simp

lemma count_loop_tokens:
  assumes "strsep delim (Some s) = (t, copy)" and "n + length (tokens delim s) < 2 ^ 31"
  shows "count_loop delim t copy n = Some (n + length (tokens delim s))"
  using assms
proof (induction "length s" arbitrary: s t copy n rule: less_induct)
  case less
  show ?case
  proof (cases copy)
    case None
    then show ?thesis using less.prems tokens_strsep [of delim s] by (auto simp: Let_def int_succ_Some)
  next
    case (Some r)
    then have r: "length r < length s" and t: "tokens delim s = the t # tokens delim r" "t \<noteq> None"
      using less.prems(1) tokens_strsep [of delim s] by (auto simp: Let_def split: if_splits dest!: takeWhile_shorter)
    obtain t' copy' where e: "strsep delim (Some r) = (t', copy')" by (cases "strsep delim (Some r)")
    then show ?thesis using less.hyps [OF r e, of "Suc n"] less.prems(2) t Some
      by (auto simp: int_succ_Some simp del: strsep.simps)
  qed
qed

lemma copy_loop_tokens:
  assumes "strsep delim (Some s) = (t, copy)"
  shows "copy_loop delim (\<lambda>_. True) i (length (tokens delim s)) t copy = Some (map Some (tokens delim s))"
  using assms
proof (induction "length s" arbitrary: s t copy i rule: less_induct)
  case less
  show ?case
  proof (cases copy)
    case None
    then show ?thesis using less.prems tokens_strsep [of delim s] by (auto simp: Let_def)
  next
    case (Some r)
    then have r: "length r < length s" and t: "tokens delim s = the t # tokens delim r" "t \<noteq> None"
      using less.prems(1) tokens_strsep [of delim s] by (auto simp: Let_def split: if_splits dest!: takeWhile_shorter)
    obtain t' copy' where e: "strsep delim (Some r) = (t', copy')" by (cases "strsep delim (Some r)")
    then show ?thesis using less.hyps [OF r e, of "Suc i"] t Some
      by (auto simp del: strsep.simps)
  qed
qed

section \<open>What joining computes\<close>

text \<open>Null arguments are skipped.\<close>

definition joined :: "bytes option list \<Rightarrow> bytes" where
  "joined args = concat (map (\<lambda>a. case a of None \<Rightarrow> [] | Some t \<Rightarrow> t) args)"

lemma combine_loop_joins:
  "n \<le> length args \<Longrightarrow> length r < len \<Longrightarrow> combine_loop (\<lambda>_. True) i n args len r = Some (Some (r @ joined (take n args)))"
proof (induction "\<lambda>_ :: nat. True" i n args len r rule: combine_loop.induct)
  case (4 i n temStr args len r)
  then have "combine_into (len + length temStr) r temStr = Some (r @ temStr)"
    by (simp add: combine_into_def Let_def)
  then show ?case using 4 by (simp add: joined_def)
qed (auto simp: joined_def)

lemma combine_joins:
  "s \<noteq> [] \<Longrightarrow> length args = n \<Longrightarrow> wow_str_combine (\<lambda>_. True) (int n + 1) (Some s) args = Some (Some (s @ joined args))"
  by (auto simp: wow_str_combine_def combine_loop_joins Suc_le_eq)

section \<open>The properties\<close>

text \<open>C28. Replacing every occurrence of a pattern, given the memory for a first buffer, never returns exactly for the empty
  text (whatever is looked for) and for an empty pattern with an empty replacement. On every other input it comes to an end.\<close>

theorem replace_diverges_iff:
  assumes "heap (length s + 1)" and "length s < INT_LIMIT - 1" and "length pat < INT_LIMIT" and "length rep < INT_LIMIT - 1"
  shows "wow_str_replace heap (Some s) (Some pat) (Some rep) = None \<longleftrightarrow> s = [] \<or> (pat = [] \<and> rep = [])"
proof -
  have c: "wow_str_replace heap (Some s) (Some pat) (Some rep) =
      replace_loop heap pat rep s 0 (replicate (length s + 1) 0) (length s)"
    using assms by (auto simp: wow_str_replace_def)
  have "replace_loop heap pat rep [] 0 dest 0 = None" for dest
    using assms(4) by (subst replace_loop.simps)
      (auto simp: Let_def ensureSpace_def getLen_def getLen_loop_zero INT_LIMIT_def)
  then show ?thesis
    using c replace_loop_stuck [of "length s" heap s "replicate (length s + 1) 0"]
      replace_loop_returns [of pat rep "length s" heap s 0 "replicate (length s + 1) 0"]
    by (cases "s = []"; cases "pat = [] \<and> rep = []") auto
qed

theorem replace_diverges_iff_witness:
  "wow_str_replace (\<lambda>_. True) (Some []) (Some [97]) (Some [98]) = None \<and>
   wow_str_replace (\<lambda>_. True) (Some [97]) (Some []) (Some []) = None \<and>
   wow_str_replace (\<lambda>_. True) (Some [97]) (Some []) (Some [98]) \<noteq> None"
  using replace_diverges_iff [of "\<lambda>_. True" "[]" "[97]" "[98]"] replace_diverges_iff [of "\<lambda>_. True" "[97]" "[]" "[]"]
    replace_diverges_iff [of "\<lambda>_. True" "[97]" "[]" "[98]"]
  by (simp add: INT_LIMIT_def)

text \<open>C29. Replacing a non-empty pattern in a non-empty text returns a buffer that begins with the text in which the occurrences,
  found from left to right without overlap, are replaced, and a terminator. The memory suffices, and the result is short
  enough that a buffer half as long again has a length an \<open>int\<close> can hold.\<close>

theorem replace_replaces:
  assumes "s \<noteq> []" and "pat \<noteq> []" and "\<forall>k < INT_LIMIT. heap k" and "length s < INT_LIMIT - 1"
    and "length pat < INT_LIMIT" and "length rep < INT_LIMIT"
    and "3 * (length (replaced pat rep s) + 1) < 2 * INT_LIMIT"
  shows "\<exists>buf. wow_str_replace heap (Some s) (Some pat) (Some rep) = Some (Returned (Some buf)) \<and>
    take (length (replaced pat rep s) + 1) buf = replaced pat rep s @ [0]"
proof -
  have "wow_str_replace heap (Some s) (Some pat) (Some rep) =
      replace_loop heap pat rep s 0 (replicate (length s + 1) 0) (length s)"
    using assms by (auto simp: wow_str_replace_def)
  then show ?thesis
    using replace_loop_replaces [of pat heap 0 "length s" "replicate (length s + 1) 0" rep s] assms by simp
qed

theorem replace_replaces_witness:
  "\<exists>buf. wow_str_replace (\<lambda>_. True) (Some [97, 97, 98]) (Some [97, 97]) (Some [99]) = Some (Returned (Some buf)) \<and>
    take 3 buf = [99, 98, 0]"
  using replace_replaces [of "[97, 97, 98]" "[97, 97]" "\<lambda>_. True" "[99]"]
  by (simp add: INT_LIMIT_def numeral_3_eq_3)

text \<open>Splitting returns the tokens and a null pointer behind them, and the number of the tokens. No token contains a
  delimiter, there is one token more than delimiters in the text, and the tokens with the delimiters between them are the
  text again.\<close>

theorem split_weaves:
  assumes "length s < 2 ^ 31 - 1"
  shows "\<exists>ts. wow_str_split (Some s) (Some delim) True True True (\<lambda>_. True) = Some (Some (map Some ts @ [None]), Some (length ts)) \<and>
    (\<forall>t \<in> set ts. set t \<inter> set delim = {}) \<and>
    length ts = length (filter (\<lambda>c. c \<in> set delim) s) + 1 \<and> weave ts (filter (\<lambda>c. c \<in> set delim) s) = s"
proof -
  obtain t copy where e: "strsep delim (Some s) = (t, copy)" by (cases "strsep delim (Some s)")
  have "length (tokens delim s) < 2 ^ 31"
    using tokens_sound [of delim s] length_filter_le [of "\<lambda>c. c \<in> set delim" s] assms by linarith
  then have "wow_str_split (Some s) (Some delim) True True True (\<lambda>_. True) =
      Some (Some (map Some (tokens delim s) @ [None]), Some (length (tokens delim s)))"
    using count_loop_tokens [OF e, of 0] copy_loop_tokens [OF e] e by (simp add: wow_str_split_def del: strsep.simps)
  then show ?thesis using tokens_sound [of delim s] by blast
qed

theorem split_weaves_witness:
  "\<exists>ts. wow_str_split (Some [97, 44, 44, 98]) (Some [44, 59]) True True True (\<lambda>_. True) =
      Some (Some (map Some ts @ [None]), Some (length ts)) \<and>
    (\<forall>t \<in> set ts. set t \<inter> {44, 59} = {}) \<and> length ts = 3 \<and> weave ts [44, 44] = [97, 44, 44, 98]"
  using split_weaves [of "[97, 44, 44, 98]" "[44, 59]"] by (simp add: numeral_3_eq_3)

end
