(* ===== verification/ByteOrder.thy ===== *)
theory ByteOrder
  imports Prelude
begin

text \<open>
  The inline functions and macros of \<open>wow_byte.h\<close>: numbers of 16, 32 and 64 bits in either byte order, floats by their
  32 bits, and the packing of bits into bytes. A pointer is a buffer and an offset.
\<close>

type_synonym u64 = "64 word"

section \<open>Reading and writing numbers\<close>

definition byte_get_16_le :: "bytes \<Rightarrow> nat \<Rightarrow> u16 option" where
  "byte_get_16_le buf p = do { b1 \<leftarrow> rd buf (p + 1); b0 \<leftarrow> rd buf p; Some (push_bit 8 (ucast b1) OR ucast b0) }"

definition byte_get_16_be :: "bytes \<Rightarrow> nat \<Rightarrow> u16 option" where
  "byte_get_16_be buf p = do { b0 \<leftarrow> rd buf p; b1 \<leftarrow> rd buf (p + 1); Some (push_bit 8 (ucast b0) OR ucast b1) }"

definition byte_get_32_le :: "bytes \<Rightarrow> nat \<Rightarrow> u32 option" where
  "byte_get_32_le buf p =
     do {
       b3 \<leftarrow> rd buf (p + 3); b2 \<leftarrow> rd buf (p + 2); b1 \<leftarrow> rd buf (p + 1); b0 \<leftarrow> rd buf p;
       Some (push_bit 24 (ucast b3) OR push_bit 16 (ucast b2) OR push_bit 8 (ucast b1) OR ucast b0)
     }"

definition byte_get_32_be :: "bytes \<Rightarrow> nat \<Rightarrow> u32 option" where
  "byte_get_32_be buf p =
     do {
       b0 \<leftarrow> rd buf p; b1 \<leftarrow> rd buf (p + 1); b2 \<leftarrow> rd buf (p + 2); b3 \<leftarrow> rd buf (p + 3);
       Some (push_bit 24 (ucast b0) OR push_bit 16 (ucast b1) OR push_bit 8 (ucast b2) OR ucast b3)
     }"

definition byte_get_64_le :: "bytes \<Rightarrow> nat \<Rightarrow> u64 option" where
  "byte_get_64_le buf p =
     do {
       b7 \<leftarrow> rd buf (p + 7); b6 \<leftarrow> rd buf (p + 6); b5 \<leftarrow> rd buf (p + 5); b4 \<leftarrow> rd buf (p + 4);
       b3 \<leftarrow> rd buf (p + 3); b2 \<leftarrow> rd buf (p + 2); b1 \<leftarrow> rd buf (p + 1); b0 \<leftarrow> rd buf p;
       Some (push_bit 56 (ucast b7) OR push_bit 48 (ucast b6) OR push_bit 40 (ucast b5) OR push_bit 32 (ucast b4)
         OR push_bit 24 (ucast b3) OR push_bit 16 (ucast b2) OR push_bit 8 (ucast b1) OR ucast b0)
     }"

definition byte_get_64_be :: "bytes \<Rightarrow> nat \<Rightarrow> u64 option" where
  "byte_get_64_be buf p =
     do {
       b0 \<leftarrow> rd buf p; b1 \<leftarrow> rd buf (p + 1); b2 \<leftarrow> rd buf (p + 2); b3 \<leftarrow> rd buf (p + 3);
       b4 \<leftarrow> rd buf (p + 4); b5 \<leftarrow> rd buf (p + 5); b6 \<leftarrow> rd buf (p + 6); b7 \<leftarrow> rd buf (p + 7);
       Some (push_bit 56 (ucast b0) OR push_bit 48 (ucast b1) OR push_bit 40 (ucast b2) OR push_bit 32 (ucast b3)
         OR push_bit 24 (ucast b4) OR push_bit 16 (ucast b5) OR push_bit 8 (ucast b6) OR ucast b7)
     }"

definition byte_set_u16_le :: "bytes \<Rightarrow> nat \<Rightarrow> u16 \<Rightarrow> bytes option" where
  "byte_set_u16_le buf p x = do { buf \<leftarrow> wr buf p (ucast x); wr buf (p + 1) (ucast (drop_bit 8 x)) }"

definition byte_set_u16_be :: "bytes \<Rightarrow> nat \<Rightarrow> u16 \<Rightarrow> bytes option" where
  "byte_set_u16_be buf p x = do { buf \<leftarrow> wr buf p (ucast (drop_bit 8 x)); wr buf (p + 1) (ucast x) }"

definition byte_set_u32_le :: "bytes \<Rightarrow> nat \<Rightarrow> u32 \<Rightarrow> bytes option" where
  "byte_set_u32_le buf p x =
     do {
       buf \<leftarrow> wr buf p (ucast x); buf \<leftarrow> wr buf (p + 1) (ucast (drop_bit 8 x));
       buf \<leftarrow> wr buf (p + 2) (ucast (drop_bit 16 x)); wr buf (p + 3) (ucast (drop_bit 24 x))
     }"

definition byte_set_u32_be :: "bytes \<Rightarrow> nat \<Rightarrow> u32 \<Rightarrow> bytes option" where
  "byte_set_u32_be buf p x =
     do {
       buf \<leftarrow> wr buf p (ucast (drop_bit 24 x)); buf \<leftarrow> wr buf (p + 1) (ucast (drop_bit 16 x));
       buf \<leftarrow> wr buf (p + 2) (ucast (drop_bit 8 x)); wr buf (p + 3) (ucast x)
     }"

definition byte_set_u64_le :: "bytes \<Rightarrow> nat \<Rightarrow> u64 \<Rightarrow> bytes option" where
  "byte_set_u64_le buf p x =
     do {
       buf \<leftarrow> wr buf p (ucast x); buf \<leftarrow> wr buf (p + 1) (ucast (drop_bit 8 x));
       buf \<leftarrow> wr buf (p + 2) (ucast (drop_bit 16 x)); buf \<leftarrow> wr buf (p + 3) (ucast (drop_bit 24 x));
       buf \<leftarrow> wr buf (p + 4) (ucast (drop_bit 32 x)); buf \<leftarrow> wr buf (p + 5) (ucast (drop_bit 40 x));
       buf \<leftarrow> wr buf (p + 6) (ucast (drop_bit 48 x)); wr buf (p + 7) (ucast (drop_bit 56 x))
     }"

definition byte_set_u64_be :: "bytes \<Rightarrow> nat \<Rightarrow> u64 \<Rightarrow> bytes option" where
  "byte_set_u64_be buf p x =
     do {
       buf \<leftarrow> wr buf p (ucast (drop_bit 56 x)); buf \<leftarrow> wr buf (p + 1) (ucast (drop_bit 48 x));
       buf \<leftarrow> wr buf (p + 2) (ucast (drop_bit 40 x)); buf \<leftarrow> wr buf (p + 3) (ucast (drop_bit 32 x));
       buf \<leftarrow> wr buf (p + 4) (ucast (drop_bit 24 x)); buf \<leftarrow> wr buf (p + 5) (ucast (drop_bit 16 x));
       buf \<leftarrow> wr buf (p + 6) (ucast (drop_bit 8 x)); wr buf (p + 7) (ucast x)
     }"

section \<open>Exchanging bytes\<close>

definition byte_swap_u16 :: "u16 \<Rightarrow> u16" where
  "byte_swap_u16 x = drop_bit 8 x OR push_bit 8 x"

definition byte_swap_u24 :: "u32 \<Rightarrow> u32" where
  "byte_swap_u24 x = drop_bit 16 x OR (x AND 0x0000ff00) OR push_bit 16 x"

definition byte_swap_u32 :: "u32 \<Rightarrow> u32" where
  "byte_swap_u32 x =
     (let x = (push_bit 8 x AND 0xff00ff00) OR (drop_bit 8 x AND 0x00ff00ff) in drop_bit 16 x OR push_bit 16 x)"

text \<open>The union splits a 64-bit number into its two halves.\<close>

definition byte_swap_u64 :: "u64 \<Rightarrow> u64" where
  "byte_swap_u64 x =
     (let w0 = ucast x; w1 = ucast (drop_bit 32 x); r0 = byte_swap_u32 w1; r1 = byte_swap_u32 w0
      in ucast r0 OR push_bit 32 (ucast r1))"

section \<open>Floats\<close>

text \<open>A float is its 32 bits, which is all \<open>memcpy\<close> moves.\<close>

definition U8_2_U32 :: "u8 \<Rightarrow> u8 \<Rightarrow> u8 \<Rightarrow> u8 \<Rightarrow> u32" where
  "U8_2_U32 b1 b2 b3 b4 =
     push_bit 24 (ucast b1 AND 0x000000ff) OR push_bit 16 (ucast b2 AND 0x000000ff)
       OR push_bit 8 (ucast b3 AND 0x000000ff) OR push_bit 0 (ucast b4 AND 0x000000ff)"

definition byte_get_float_abcd :: "bytes \<Rightarrow> nat \<Rightarrow> u32 option" where
  "byte_get_float_abcd buf p =
     do { b0 \<leftarrow> rd buf p; b1 \<leftarrow> rd buf (p + 1); b2 \<leftarrow> rd buf (p + 2); b3 \<leftarrow> rd buf (p + 3); Some (U8_2_U32 b0 b1 b2 b3) }"

definition byte_get_float_cdab :: "bytes \<Rightarrow> nat \<Rightarrow> u32 option" where
  "byte_get_float_cdab buf p =
     do { b2 \<leftarrow> rd buf (p + 2); b3 \<leftarrow> rd buf (p + 3); b0 \<leftarrow> rd buf p; b1 \<leftarrow> rd buf (p + 1); Some (U8_2_U32 b2 b3 b0 b1) }"

definition byte_set_float_abcd :: "bytes \<Rightarrow> nat \<Rightarrow> u32 \<Rightarrow> bytes option" where
  "byte_set_float_abcd buf p i =
     do {
       buf \<leftarrow> wr buf p (ucast (drop_bit 24 i)); buf \<leftarrow> wr buf (p + 1) (ucast (drop_bit 16 i));
       buf \<leftarrow> wr buf (p + 2) (ucast (drop_bit 8 i)); wr buf (p + 3) (ucast i)
     }"

definition byte_set_float_cdab :: "bytes \<Rightarrow> nat \<Rightarrow> u32 \<Rightarrow> bytes option" where
  "byte_set_float_cdab buf p i =
     do {
       buf \<leftarrow> wr buf p (ucast (drop_bit 24 i)); buf \<leftarrow> wr buf (p + 1) (ucast (drop_bit 16 i));
       buf \<leftarrow> wr buf (p + 2) (ucast (drop_bit 8 i)); wr buf (p + 3) (ucast i)
     }"

section \<open>Bits and bytes\<close>

text \<open>The inner loop runs for the bits \<open>j\<close> of a byte while there is room for the result.\<close>

fun bits_of_byte :: "u8 \<Rightarrow> nat \<Rightarrow> nat \<Rightarrow> nat \<Rightarrow> nat \<Rightarrow> bytes \<Rightarrow> (nat \<times> bytes) option" where
  "bits_of_byte b 0 j pos nBitLen bits = Some (pos, bits)"
| "bits_of_byte b (Suc n) j pos nBitLen bits =
     (if pos < nBitLen
      then do {
        bits \<leftarrow> wr bits pos (if b AND push_bit j 1 \<noteq> 0 then 1 else 0);
        bits_of_byte b n (j + 1) (pos + 1) nBitLen bits
      }
      else Some (pos, bits))"

fun bytes_to_bits_loop :: "bytes \<Rightarrow> nat \<Rightarrow> nat \<Rightarrow> nat \<Rightarrow> nat \<Rightarrow> bytes \<Rightarrow> bytes option" where
  "bytes_to_bits_loop bs 0 i pos nBitLen bits = Some bits"
| "bytes_to_bits_loop bs (Suc n) i pos nBitLen bits =
     do {
       b \<leftarrow> (if pos < nBitLen then rd bs i else Some 0);
       (pos, bits) \<leftarrow> bits_of_byte b 8 0 pos nBitLen bits;
       bytes_to_bits_loop bs n (i + 1) pos nBitLen bits
     }"

definition bytes_to_bits :: "bytes \<Rightarrow> u32 \<Rightarrow> bytes \<Rightarrow> u32 \<Rightarrow> bytes option" where
  "bytes_to_bits bs nByteLen bits nBitLen = bytes_to_bits_loop bs (unat nByteLen) 0 0 (unat nBitLen) bits"

fun byte_of_bits :: "bytes \<Rightarrow> nat \<Rightarrow> nat \<Rightarrow> nat \<Rightarrow> nat \<Rightarrow> u8 \<Rightarrow> (nat \<times> u8) option" where
  "byte_of_bits bits 0 j pos nBitLen b = Some (pos, b)"
| "byte_of_bits bits (Suc n) j pos nBitLen b =
     (if pos < nBitLen
      then do {
        x \<leftarrow> rd bits pos;
        byte_of_bits bits n (j + 1) (pos + 1) nBitLen (if x \<noteq> 0 then b OR push_bit j 1 else b AND NOT (push_bit j 1))
      }
      else Some (pos, b))"

fun bits_to_bytes_loop :: "bytes \<Rightarrow> nat \<Rightarrow> nat \<Rightarrow> nat \<Rightarrow> nat \<Rightarrow> bytes \<Rightarrow> bytes option" where
  "bits_to_bytes_loop bits 0 i pos nBitLen bs = Some bs"
| "bits_to_bytes_loop bits (Suc n) i pos nBitLen bs =
     do {
       bs \<leftarrow> wr bs i 0;
       (pos, b) \<leftarrow> byte_of_bits bits 8 0 pos nBitLen 0;
       bs \<leftarrow> wr bs i b;
       bits_to_bytes_loop bits n (i + 1) pos nBitLen bs
     }"

definition bits_to_bytes :: "bytes \<Rightarrow> u32 \<Rightarrow> bytes \<Rightarrow> u32 \<Rightarrow> bytes option" where
  "bits_to_bytes bits nBitLen bs nByteLen = bits_to_bytes_loop bits (unat nByteLen) 0 0 (unat nBitLen) bs"


section \<open>A number is a block of bytes\<close>

named_theorems block_simps \<open>a number moved byte by byte is moved as a block\<close>

lemma wr_wrn: "wr buf p x = wrn buf p [x]"
  by (auto simp: wr_def wrn_def upd_conv_take_nth_drop Suc_le_eq)

lemma wr_last: "p' = p \<Longrightarrow> wr buf p' x = wrn buf p [x]"
  by (simp add: wr_wrn)

lemma wr_chain:
  assumes "p' = p" and "\<And>b. f b = wrn b (p + 1) xs"
  shows "Option.bind (wr buf p' x) f = wrn buf p (x # xs)"
proof -
  have "take (p + 1) (buf[p := x]) = take p buf @ [x]" if "p < length buf"
    using that by (simp add: upd_conv_take_nth_drop)
  then show ?thesis
    by (auto simp: assms wr_def wrn_def)
qed

lemma byte_set_u16_block [block_simps]:
  "byte_set_u16_le buf p x = wrn buf p [ucast x, ucast (drop_bit 8 x)]"
  "byte_set_u16_be buf p x = wrn buf p [ucast (drop_bit 8 x), ucast x]"
  unfolding byte_set_u16_le_def byte_set_u16_be_def
  by ((rule wr_chain, simp)+, rule wr_last, simp)+

lemma byte_set_u32_block [block_simps]:
  "byte_set_u32_le buf p y = wrn buf p [ucast y, ucast (drop_bit 8 y), ucast (drop_bit 16 y), ucast (drop_bit 24 y)]"
  "byte_set_u32_be buf p y = wrn buf p [ucast (drop_bit 24 y), ucast (drop_bit 16 y), ucast (drop_bit 8 y), ucast y]"
  "byte_set_float_abcd buf p y = wrn buf p [ucast (drop_bit 24 y), ucast (drop_bit 16 y), ucast (drop_bit 8 y), ucast y]"
  "byte_set_float_cdab buf p y = wrn buf p [ucast (drop_bit 24 y), ucast (drop_bit 16 y), ucast (drop_bit 8 y), ucast y]"
  unfolding byte_set_u32_le_def byte_set_u32_be_def byte_set_float_abcd_def byte_set_float_cdab_def
  by ((rule wr_chain, simp)+, rule wr_last, simp)+

lemma byte_set_u64_block [block_simps]:
  "byte_set_u64_le buf p z = wrn buf p [ucast z, ucast (drop_bit 8 z), ucast (drop_bit 16 z), ucast (drop_bit 24 z),
     ucast (drop_bit 32 z), ucast (drop_bit 40 z), ucast (drop_bit 48 z), ucast (drop_bit 56 z)]"
  "byte_set_u64_be buf p z = wrn buf p [ucast (drop_bit 56 z), ucast (drop_bit 48 z), ucast (drop_bit 40 z),
     ucast (drop_bit 32 z), ucast (drop_bit 24 z), ucast (drop_bit 16 z), ucast (drop_bit 8 z), ucast z]"
  unfolding byte_set_u64_le_def byte_set_u64_be_def
  by ((rule wr_chain, simp)+, rule wr_last, simp)+

lemma rd_of_rdn: "rdn buf p n = Some bs \<Longrightarrow> i < n \<Longrightarrow> rd buf (p + i) = Some (bs ! i)"
  by (auto simp: rdn_def rd_def split: if_splits)

text \<open>The bytes of a number, read back.\<close>

lemma join_byte: "push_bit n (ucast (ucast (drop_bit n x) :: u8)) OR (x AND mask n) = x AND mask (n + 8)" for x :: "'a :: len word"
  by (rule bit_word_eqI) (auto simp: bit_simps)

lemma low_byte: "8 \<le> LENGTH('a) \<Longrightarrow> ucast (ucast x :: u8) = x AND mask 8" for x :: "'a :: len word"
  by (rule bit_word_eqI) (auto simp: bit_simps)

lemmas join_bytes = join_byte [where n = 8, simplified] join_byte [where n = 16, simplified] join_byte [where n = 24, simplified]
  join_byte [where n = 32, simplified] join_byte [where n = 40, simplified] join_byte [where n = 48, simplified]
  join_byte [where n = 56, simplified]

lemma and_mask_all: "LENGTH('a) \<le> n \<Longrightarrow> x AND mask n = x" for x :: "'a :: len word"
  by (rule bit_word_eqI) (auto simp: bit_simps)

lemma join_u16: "push_bit 8 (ucast (ucast (drop_bit 8 x) :: u8)) OR ucast (ucast x :: u8) = x" for x :: u16
proof -
  have "ucast (ucast x :: u8) = x AND mask 8" by (rule low_byte) simp
  then show ?thesis by (simp only: join_bytes) (rule and_mask_all, simp)
qed

lemma join_u32:
  "push_bit 24 (ucast (ucast (drop_bit 24 x) :: u8)) OR push_bit 16 (ucast (ucast (drop_bit 16 x) :: u8)) OR
   push_bit 8 (ucast (ucast (drop_bit 8 x) :: u8)) OR ucast (ucast x :: u8) = x" for x :: u32
proof -
  have "ucast (ucast x :: u8) = x AND mask 8" by (rule low_byte) simp
  then show ?thesis by (simp only: join_bytes) (rule and_mask_all, simp)
qed

lemma join_u64:
  "push_bit 56 (ucast (ucast (drop_bit 56 x) :: u8)) OR push_bit 48 (ucast (ucast (drop_bit 48 x) :: u8)) OR
   push_bit 40 (ucast (ucast (drop_bit 40 x) :: u8)) OR push_bit 32 (ucast (ucast (drop_bit 32 x) :: u8)) OR
   push_bit 24 (ucast (ucast (drop_bit 24 x) :: u8)) OR push_bit 16 (ucast (ucast (drop_bit 16 x) :: u8)) OR
   push_bit 8 (ucast (ucast (drop_bit 8 x) :: u8)) OR ucast (ucast x :: u8) = x" for x :: u64
proof -
  have "ucast (ucast x :: u8) = x AND mask 8" by (rule low_byte) simp
  then show ?thesis by (simp only: join_bytes) (rule and_mask_all, simp)
qed

section \<open>Packing bits\<close>

definition bit01 :: "u8 \<Rightarrow> nat \<Rightarrow> u8" where
  "bit01 b j = (if bit b j then 1 else 0)"

lemma bits_of_byte_block:
  "pos + n \<le> L \<Longrightarrow> L \<le> length bits \<Longrightarrow>
   bits_of_byte b n j pos L bits = Some (pos + n, take pos bits @ map (bit01 b) [j..<j + n] @ drop (pos + n) bits)"
proof (induction n arbitrary: j pos bits)
  case (Suc n)
  have "take (Suc pos) (bits[pos := x]) = take pos bits @ [x]" for x
    using Suc.prems by (simp add: upd_conv_take_nth_drop)
  moreover have "[j..<j + Suc n] = j # [Suc j..<Suc j + n]" by (simp add: upt_conv_Cons)
  ultimately show ?case
    using Suc.prems Suc.IH [of "Suc pos" "bits[pos := bit01 b j]" "Suc j"]
    by (simp add: mem_simps bit01_def and_exp_eq_0_iff_not_bit flip: push_bit_eq_mult)
qed simp

lemma byte_of_bits_block:
  "pos + n \<le> L \<Longrightarrow> L \<le> length bits \<Longrightarrow> \<exists>c. byte_of_bits bits n j pos L b = Some (pos + n, c) \<and>
     (\<forall>k. bit c k \<longleftrightarrow> k < 8 \<and> (if j \<le> k \<and> k < j + n then bits ! (pos + (k - j)) \<noteq> 0 else bit b k))"
proof (induction n arbitrary: j pos b)
  case 0
  then show ?case by (auto dest: bit_imp_le_length)
next
  case (Suc n)
  let ?b = "if bits ! pos \<noteq> 0 then b OR push_bit j 1 else b AND NOT (push_bit j 1)"
  obtain c where c: "byte_of_bits bits n (Suc j) (Suc pos) L ?b = Some (Suc pos + n, c)"
    "\<forall>k. bit c k \<longleftrightarrow> k < 8 \<and> (if Suc j \<le> k \<and> k < Suc j + n then bits ! (Suc pos + (k - Suc j)) \<noteq> 0 else bit ?b k)"
    using Suc.IH [of "Suc pos" "Suc j" ?b] Suc.prems by auto
  have "bit c k \<longleftrightarrow> k < 8 \<and> (if j \<le> k \<and> k < j + Suc n then bits ! (pos + (k - j)) \<noteq> 0 else bit b k)" for k
  proof (cases "k = j")
    case False
    then show ?thesis using c(2) by (auto simp: bit_simps Suc_diff_Suc le_Suc_eq)
  qed (use c(2) in \<open>auto simp: bit_simps\<close>)
  then show ?case using c(1) Suc.prems by (auto simp: mem_simps)
qed

lemma bytes_to_bits_loop_block:
  "8 * (i + n) \<le> L \<Longrightarrow> L \<le> length bits \<Longrightarrow> i + n \<le> length bs \<Longrightarrow>
   bytes_to_bits_loop bs n i (8 * i) L bits =
     Some (take (8 * i) bits @ concat (map (\<lambda>b. map (bit01 b) [0..<8]) (take n (drop i bs))) @ drop (8 * (i + n)) bits)"
proof (induction n arbitrary: i bits)
  case (Suc n)
  let ?bits = "take (8 * i) bits @ map (bit01 (bs ! i)) [0..<8] @ drop (8 * i + 8) bits"
  have "bits_of_byte (bs ! i) 8 0 (8 * i) L bits = Some (8 * i + 8, ?bits)"
    using Suc.prems bits_of_byte_block [of "8 * i" 8 L bits "bs ! i" 0] by simp
  moreover have "bytes_to_bits_loop bs n (Suc i) (8 * i + 8) L ?bits =
      Some (take (8 * i + 8) ?bits @ concat (map (\<lambda>b. map (bit01 b) [0..<8]) (take n (drop (Suc i) bs))) @
        drop (8 * (Suc i + n)) ?bits)"
    using Suc.IH [of "Suc i" ?bits] Suc.prems by (simp del: upt_rec_numeral add: algebra_simps)
  moreover have "take (Suc n) (drop i bs) = bs ! i # take n (drop (Suc i) bs)"
    using Suc.prems by (simp flip: Cons_nth_drop_Suc)
  ultimately show ?case using Suc.prems by (simp add: mem_simps algebra_simps del: upt_rec_numeral)
qed simp

lemma bits_to_bytes_loop_block:
  "8 * (i + n) \<le> L \<Longrightarrow> L \<le> length bits \<Longrightarrow> i + n \<le> length bs \<Longrightarrow> i + n \<le> length src \<Longrightarrow>
   \<forall>k < n. \<forall>m < 8. bits ! (8 * (i + k) + m) = bit01 (src ! (i + k)) m \<Longrightarrow>
   bits_to_bytes_loop bits n i (8 * i) L bs = Some (take i bs @ take n (drop i src) @ drop (i + n) bs)"
proof (induction n arbitrary: i bs)
  case (Suc n)
  obtain c where c: "byte_of_bits bits 8 0 (8 * i) L 0 = Some (8 * i + 8, c)"
    "\<forall>k. bit c k \<longleftrightarrow> k < 8 \<and> (if 0 \<le> k \<and> k < 0 + 8 then bits ! (8 * i + (k - 0)) \<noteq> 0 else bit (0 :: u8) k)"
    using byte_of_bits_block [of "8 * i" 8 L bits 0 0] Suc.prems by auto
  have src: "bits ! (8 * i + m) = bit01 (src ! i) m" if "m < 8" for m
    using Suc.prems(5) [rule_format, of 0 m] that by simp
  have "c = src ! i"
    by (rule bit_word_eqI) (simp add: c(2) src bit01_def)
  moreover have "bits_to_bytes_loop bits n (Suc i) (8 * i + 8) L (bs[i := c]) =
      Some (take (Suc i) (bs[i := c]) @ take n (drop (Suc i) src) @ drop (Suc i + n) (bs[i := c]))"
    using Suc.IH [of "Suc i" "bs[i := c]"] Suc.prems(1-4) Suc.prems(5) [rule_format, of "Suc k" for k]
    by (simp add: algebra_simps)
  moreover have "take (Suc n) (drop i src) = src ! i # take n (drop (Suc i) src)"
    using Suc.prems by (simp flip: Cons_nth_drop_Suc)
  ultimately show ?case using Suc.prems c(1) by (simp add: mem_simps upd_conv_take_nth_drop algebra_simps)
qed simp

lemma nth_concat_bytes:
  "k < length bs \<Longrightarrow> m < 8 \<Longrightarrow> concat (map (\<lambda>b. map (bit01 b) [0..<8]) bs) ! (8 * k + m) = bit01 (bs ! k) m"
proof (induction bs arbitrary: k)
  case (Cons b bs)
  then show ?case by (cases k) (simp_all add: nth_append del: upt_rec_numeral)
qed simp

lemma length_concat_bytes [simp]: "length (concat (map (\<lambda>b. map (bit01 b) [0..<8]) bs)) = 8 * length bs"
  by (induction bs) (simp_all del: upt_rec_numeral)

text \<open>Spreading the bits of \<open>n\<close> bytes over an array with one element per bit, least significant bit first, and packing that
  array again gives the bytes back. Both functions write nothing but the elements they are asked for.\<close>

theorem bits_roundtrip:
  assumes "length src < 2 ^ 28" and "8 * length src \<le> length bits" and "length src \<le> length dst"
  shows "\<exists>packed. bytes_to_bits src (of_nat (length src)) bits (of_nat (8 * length src)) =
      Some (packed @ drop (8 * length src) bits) \<and>
    length packed = 8 * length src \<and> (\<forall>k < length src. \<forall>j < 8. packed ! (8 * k + j) = bit01 (src ! k) j) \<and>
    bits_to_bytes packed (of_nat (8 * length src)) dst (of_nat (length src)) = Some (src @ drop (length src) dst)"
proof -
  let ?packed = "concat (map (\<lambda>b. map (bit01 b) [0..<8]) src)"
  have "unat (word_of_nat k :: u32) = k" if "k < 2 ^ 32" for k
    using that by (simp add: unat_of_nat)
  note u = this [of "length src"] this [of "8 * length src"]
  then show ?thesis
    using assms u bytes_to_bits_loop_block [of 0 "length src" "8 * length src" bits src]
      bits_to_bytes_loop_block [of 0 "length src" "8 * length src" ?packed dst src]
    by (intro exI [of _ ?packed])
      (simp add: bytes_to_bits_def bits_to_bytes_def nth_concat_bytes del: upt_rec_numeral of_nat_mult)
qed

theorem bits_roundtrip_witness:
  "\<exists>packed. bytes_to_bits [0xa5] 1 (replicate 9 7) 8 = Some (packed @ [7]) \<and> length packed = 8 \<and>
    packed ! 0 = 1 \<and> packed ! 1 = 0 \<and> bits_to_bytes packed 8 [9, 9] 1 = Some [0xa5, 9]"
  using bits_roundtrip [of "[0xa5]" "replicate 9 7" "[9, 9]"] by (auto simp: bit01_def)

end
