(* ===== verification/TypeConv.thy ===== *)
theory TypeConv
  imports ByteOrder Errno SizeT
begin

text \<open>
  Arrays of numbers to arrays of bytes and back, pairs of 16-bit registers to 32-bit numbers and back: the second half of
  \<open>wow_type.c\<close>. A float is its 32 bits. A null pointer is \<open>None\<close>; the result is the return value and the
  destination array afterwards.

  The functions without a suffix ask \<open>wow_cpu.h\<close> for the byte order of the machine, which is one of the two that are
  told apart; the branches for a machine that is neither are never taken.
\<close>

datatype byte_order = BIG_ENDIAN | LITTLE_ENDIAN

text \<open>A product of two \<open>int\<close>s; leaving the range of \<open>int\<close> is undefined. The quotient truncates.\<close>

definition int_mul :: "int \<Rightarrow> int \<Rightarrow> int option" where
  "int_mul a b = (if - (2 ^ 31) \<le> a * b \<and> a * b < 2 ^ 31 then Some (a * b) else None)"

definition int_div :: "int \<Rightarrow> int \<Rightarrow> int" where
  "int_div a b = (if a < 0 then - (- a div b) else a div b)"

section \<open>The loops\<close>

text \<open>\<open>for (i = 0; i < nSlen; i++) put(dst + w * i, src[i])\<close>\<close>

fun set_loop :: "(bytes \<Rightarrow> nat \<Rightarrow> 'a \<Rightarrow> bytes option) \<Rightarrow> nat \<Rightarrow> 'a list \<Rightarrow> nat \<Rightarrow> nat \<Rightarrow> bytes \<Rightarrow> bytes option" where
  "set_loop put w src i 0 dst = Some dst"
| "set_loop put w src i (Suc n) dst = do { x \<leftarrow> rd src i; dst \<leftarrow> put dst (w * i) x; set_loop put w src (i + 1) n dst }"

text \<open>\<open>for (i = 0; i < nSlen / w; i++) dst[i] = get(src + stride * i)\<close>\<close>

fun get_loop :: "(bytes \<Rightarrow> nat \<Rightarrow> 'a option) \<Rightarrow> nat \<Rightarrow> bytes \<Rightarrow> nat \<Rightarrow> nat \<Rightarrow> 'a list \<Rightarrow> 'a list option" where
  "get_loop get stride src i 0 dst = Some dst"
| "get_loop get stride src i (Suc n) dst =
     do { x \<leftarrow> get src (stride * i); dst \<leftarrow> wr dst i x; get_loop get stride src (i + 1) n dst }"

text \<open>The functions that write bytes share their shape; those for 64-bit numbers and floats do not check the source for
  null.\<close>

definition to_char ::
  "(bytes \<Rightarrow> nat \<Rightarrow> 'a \<Rightarrow> bytes option) \<Rightarrow> int \<Rightarrow> 'a list option \<Rightarrow> int \<Rightarrow> bytes option \<Rightarrow> int \<Rightarrow> (int \<times> bytes option) option" where
  "to_char put w src nSlen pu8Data nDlen =
     (case pu8Data of
        None \<Rightarrow> Some (- PARAM_INPUT_DATA_IS_NULL, pu8Data)
      | Some dst \<Rightarrow>
          do {
            m \<leftarrow> int_mul nSlen w;
            if \<not> nDlen \<ge> m then Some (- PARAM_INPUT_ARG_INVALID, pu8Data)
            else if nSlen \<le> 0 then Some (WOW_SUCCESS, pu8Data)
            else do { s \<leftarrow> src; dst \<leftarrow> set_loop put (nat w) s 0 (nat nSlen) dst; Some (WOW_SUCCESS, Some dst) }
          })"

definition to_char_checked ::
  "(bytes \<Rightarrow> nat \<Rightarrow> 'a \<Rightarrow> bytes option) \<Rightarrow> int \<Rightarrow> 'a list option \<Rightarrow> int \<Rightarrow> bytes option \<Rightarrow> int \<Rightarrow> (int \<times> bytes option) option" where
  "to_char_checked put w src nSlen pu8Data nDlen =
     (if src = None then Some (- PARAM_INPUT_DATA_IS_NULL, pu8Data) else to_char put w src nSlen pu8Data nDlen)"

definition of_char ::
  "(bytes \<Rightarrow> nat \<Rightarrow> 'a option) \<Rightarrow> int \<Rightarrow> nat \<Rightarrow> bytes option \<Rightarrow> int \<Rightarrow> 'a list option \<Rightarrow> int \<Rightarrow> (int \<times> 'a list option) option" where
  "of_char get w stride pu8Data nSlen pData nDlen =
     (case (pu8Data, pData) of
        (Some src, Some dst) \<Rightarrow>
          if \<not> nDlen \<ge> int_div nSlen w then Some (- PARAM_INPUT_ARG_INVALID, pData)
          else do { dst \<leftarrow> get_loop get stride src 0 (nat (int_div nSlen w)) dst; Some (WOW_SUCCESS, Some dst) }
      | _ \<Rightarrow> Some (- PARAM_INPUT_DATA_IS_NULL, pData))"

section \<open>Numbers to bytes\<close>

definition short2char_le :: "u16 list option \<Rightarrow> int \<Rightarrow> bytes option \<Rightarrow> int \<Rightarrow> (int \<times> bytes option) option" where
  "short2char_le = to_char_checked byte_set_u16_le 2"

definition short2char_be :: "u16 list option \<Rightarrow> int \<Rightarrow> bytes option \<Rightarrow> int \<Rightarrow> (int \<times> bytes option) option" where
  "short2char_be = to_char_checked byte_set_u16_be 2"

definition short2char :: "byte_order \<Rightarrow> u16 list option \<Rightarrow> int \<Rightarrow> bytes option \<Rightarrow> int \<Rightarrow> (int \<times> bytes option) option" where
  "short2char cpu = to_char_checked (case cpu of BIG_ENDIAN \<Rightarrow> byte_set_u16_be | LITTLE_ENDIAN \<Rightarrow> byte_set_u16_le) 2"

definition int2char_le :: "u32 list option \<Rightarrow> int \<Rightarrow> bytes option \<Rightarrow> int \<Rightarrow> (int \<times> bytes option) option" where
  "int2char_le = to_char_checked byte_set_u32_le 4"

definition int2char_be :: "u32 list option \<Rightarrow> int \<Rightarrow> bytes option \<Rightarrow> int \<Rightarrow> (int \<times> bytes option) option" where
  "int2char_be = to_char_checked byte_set_u32_be 4"

definition int2char :: "byte_order \<Rightarrow> u32 list option \<Rightarrow> int \<Rightarrow> bytes option \<Rightarrow> int \<Rightarrow> (int \<times> bytes option) option" where
  "int2char cpu = to_char_checked (case cpu of BIG_ENDIAN \<Rightarrow> byte_set_u32_be | LITTLE_ENDIAN \<Rightarrow> byte_set_u32_le) 4"

definition long2char_le :: "u64 list option \<Rightarrow> int \<Rightarrow> bytes option \<Rightarrow> int \<Rightarrow> (int \<times> bytes option) option" where
  "long2char_le = to_char byte_set_u64_le 8"

definition long2char_be :: "u64 list option \<Rightarrow> int \<Rightarrow> bytes option \<Rightarrow> int \<Rightarrow> (int \<times> bytes option) option" where
  "long2char_be = to_char byte_set_u64_be 8"

definition long2char :: "byte_order \<Rightarrow> u64 list option \<Rightarrow> int \<Rightarrow> bytes option \<Rightarrow> int \<Rightarrow> (int \<times> bytes option) option" where
  "long2char cpu = to_char (case cpu of BIG_ENDIAN \<Rightarrow> byte_set_u64_be | LITTLE_ENDIAN \<Rightarrow> byte_set_u64_le) 8"

definition float2char_le :: "u32 list option \<Rightarrow> int \<Rightarrow> bytes option \<Rightarrow> int \<Rightarrow> (int \<times> bytes option) option" where
  "float2char_le = to_char byte_set_u32_le 4"

definition float2char_be :: "u32 list option \<Rightarrow> int \<Rightarrow> bytes option \<Rightarrow> int \<Rightarrow> (int \<times> bytes option) option" where
  "float2char_be = to_char byte_set_u32_be 4"

definition float2char :: "byte_order \<Rightarrow> u32 list option \<Rightarrow> int \<Rightarrow> bytes option \<Rightarrow> int \<Rightarrow> (int \<times> bytes option) option" where
  "float2char cpu = to_char (case cpu of BIG_ENDIAN \<Rightarrow> byte_set_u32_be | LITTLE_ENDIAN \<Rightarrow> byte_set_u32_le) 4"

section \<open>Bytes to numbers\<close>

definition char2short_le :: "bytes option \<Rightarrow> int \<Rightarrow> u16 list option \<Rightarrow> int \<Rightarrow> (int \<times> u16 list option) option" where
  "char2short_le = of_char byte_get_16_le 2 2"

definition char2short_be :: "bytes option \<Rightarrow> int \<Rightarrow> u16 list option \<Rightarrow> int \<Rightarrow> (int \<times> u16 list option) option" where
  "char2short_be = of_char byte_get_16_be 2 2"

definition char2short :: "byte_order \<Rightarrow> bytes option \<Rightarrow> int \<Rightarrow> u16 list option \<Rightarrow> int \<Rightarrow> (int \<times> u16 list option) option" where
  "char2short cpu = of_char (case cpu of BIG_ENDIAN \<Rightarrow> byte_get_16_be | LITTLE_ENDIAN \<Rightarrow> byte_get_16_le) 2 2"

definition char2int_le :: "bytes option \<Rightarrow> int \<Rightarrow> u32 list option \<Rightarrow> int \<Rightarrow> (int \<times> u32 list option) option" where
  "char2int_le = of_char byte_get_32_le 4 4"

definition char2int_be :: "bytes option \<Rightarrow> int \<Rightarrow> u32 list option \<Rightarrow> int \<Rightarrow> (int \<times> u32 list option) option" where
  "char2int_be = of_char byte_get_32_be 4 4"

definition char2int :: "byte_order \<Rightarrow> bytes option \<Rightarrow> int \<Rightarrow> u32 list option \<Rightarrow> int \<Rightarrow> (int \<times> u32 list option) option" where
  "char2int cpu = of_char (case cpu of BIG_ENDIAN \<Rightarrow> byte_get_32_be | LITTLE_ENDIAN \<Rightarrow> byte_get_32_le) 4 4"

text \<open>The functions for 64-bit numbers do not advance in the source.\<close>

definition char2long_le :: "bytes option \<Rightarrow> int \<Rightarrow> u64 list option \<Rightarrow> int \<Rightarrow> (int \<times> u64 list option) option" where
  "char2long_le = of_char byte_get_64_le 8 0"

definition char2long_be :: "bytes option \<Rightarrow> int \<Rightarrow> u64 list option \<Rightarrow> int \<Rightarrow> (int \<times> u64 list option) option" where
  "char2long_be = of_char byte_get_64_be 8 0"

definition char2long :: "byte_order \<Rightarrow> bytes option \<Rightarrow> int \<Rightarrow> u64 list option \<Rightarrow> int \<Rightarrow> (int \<times> u64 list option) option" where
  "char2long cpu = of_char (case cpu of BIG_ENDIAN \<Rightarrow> byte_get_64_be | LITTLE_ENDIAN \<Rightarrow> byte_get_64_le) 8 0"

definition char2float_le :: "bytes option \<Rightarrow> int \<Rightarrow> u32 list option \<Rightarrow> int \<Rightarrow> (int \<times> u32 list option) option" where
  "char2float_le = of_char byte_get_32_le 4 4"

definition char2float_be :: "bytes option \<Rightarrow> int \<Rightarrow> u32 list option \<Rightarrow> int \<Rightarrow> (int \<times> u32 list option) option" where
  "char2float_be = of_char byte_get_32_be 4 4"

definition char2float :: "byte_order \<Rightarrow> bytes option \<Rightarrow> int \<Rightarrow> u32 list option \<Rightarrow> int \<Rightarrow> (int \<times> u32 list option) option" where
  "char2float cpu = of_char (case cpu of BIG_ENDIAN \<Rightarrow> byte_get_32_be | LITTLE_ENDIAN \<Rightarrow> byte_get_32_le) 4 4"

section \<open>Registers\<close>

text \<open>Every function of this group checks that the destination has twice as many elements as the numbers it is asked to
  convert, in whichever direction it goes. The split of a 32-bit number writes the low half at \<open>2 * i\<close> and the high half
  behind it, or the other way round.\<close>

fun split32_loop :: "bool \<Rightarrow> u32 list \<Rightarrow> nat \<Rightarrow> nat \<Rightarrow> nat \<Rightarrow> u16 list \<Rightarrow> u16 list option" where
  "split32_loop low_first src stride i 0 dst = Some dst"
| "split32_loop low_first src stride i (Suc n) dst =
     do {
       x \<leftarrow> rd src (stride * i);
       let lo = ucast (x AND 0x0000ffff);
       let hi = ucast (drop_bit 16 x);
       dst \<leftarrow> wr dst (2 * i) (if low_first then lo else hi);
       dst \<leftarrow> wr dst (2 * i + 1) (if low_first then hi else lo);
       split32_loop low_first src stride (i + 1) n dst
     }"

definition split32 :: "bool \<Rightarrow> nat \<Rightarrow> u32 list option \<Rightarrow> int \<Rightarrow> u16 list option \<Rightarrow> int \<Rightarrow> (int \<times> u16 list option) option" where
  "split32 low_first stride src sDlen pu16Data nDlen =
     (case pu16Data of
        None \<Rightarrow> Some (- PARAM_INPUT_DATA_IS_NULL, pu16Data)
      | Some dst \<Rightarrow>
          do {
            m \<leftarrow> int_mul sDlen 2;
            if \<not> nDlen \<ge> m then Some (- PARAM_INPUT_ARG_INVALID, pu16Data)
            else if sDlen \<le> 0 then Some (WOW_SUCCESS, pu16Data)
            else do { s \<leftarrow> src; dst \<leftarrow> split32_loop low_first s stride 0 (nat sDlen) dst; Some (WOW_SUCCESS, Some dst) }
          })"

definition uint32_to_uint16_le :: "u32 list option \<Rightarrow> int \<Rightarrow> u16 list option \<Rightarrow> int \<Rightarrow> (int \<times> u16 list option) option" where
  "uint32_to_uint16_le src sDlen dst nDlen =
     (if src = None then Some (- PARAM_INPUT_DATA_IS_NULL, dst) else split32 True 1 src sDlen dst nDlen)"

text \<open>The big-endian variant does not check the source.\<close>

definition uint32_to_uint16_be :: "u32 list option \<Rightarrow> int \<Rightarrow> u16 list option \<Rightarrow> int \<Rightarrow> (int \<times> u16 list option) option" where
  "uint32_to_uint16_be src sDlen dst nDlen = split32 False 1 src sDlen dst nDlen"

text \<open>The result of the variant is dropped; here the checks have passed already.\<close>

definition uint32_to_uint16 :: "byte_order \<Rightarrow> u32 list option \<Rightarrow> int \<Rightarrow> u16 list option \<Rightarrow> int \<Rightarrow> (int \<times> u16 list option) option" where
  "uint32_to_uint16 cpu src sDlen dst nDlen =
     (if src = None \<or> dst = None then Some (- PARAM_INPUT_DATA_IS_NULL, dst)
      else do {
        m \<leftarrow> int_mul sDlen 2;
        if \<not> nDlen \<ge> m then Some (- PARAM_INPUT_ARG_INVALID, dst)
        else do {
          (_, dst) \<leftarrow> (case cpu of BIG_ENDIAN \<Rightarrow> uint32_to_uint16_be src sDlen dst nDlen
                                 | LITTLE_ENDIAN \<Rightarrow> uint32_to_uint16_le src sDlen dst nDlen);
          Some (WOW_SUCCESS, dst)
        }
      })"

text \<open>A float is fetched from \<open>pfValue + i * sizeof(float)\<close>: pointer arithmetic counts floats, so the stride is four
  floats.\<close>

definition float_to_uint16_le :: "u32 list option \<Rightarrow> int \<Rightarrow> u16 list option \<Rightarrow> int \<Rightarrow> (int \<times> u16 list option) option" where
  "float_to_uint16_le src sDlen dst nDlen =
     (if src = None then Some (- PARAM_INPUT_DATA_IS_NULL, dst) else split32 True 4 src sDlen dst nDlen)"

definition float_to_uint16_be :: "u32 list option \<Rightarrow> int \<Rightarrow> u16 list option \<Rightarrow> int \<Rightarrow> (int \<times> u16 list option) option" where
  "float_to_uint16_be src sDlen dst nDlen =
     (if src = None then Some (- PARAM_INPUT_DATA_IS_NULL, dst) else split32 False 4 src sDlen dst nDlen)"

definition float_to_uint16 :: "byte_order \<Rightarrow> u32 list option \<Rightarrow> int \<Rightarrow> u16 list option \<Rightarrow> int \<Rightarrow> (int \<times> u16 list option) option" where
  "float_to_uint16 cpu src sDlen dst nDlen =
     (if src = None \<or> dst = None then Some (- PARAM_INPUT_DATA_IS_NULL, dst)
      else do {
        m \<leftarrow> int_mul sDlen 2;
        if \<not> nDlen \<ge> m then Some (- PARAM_INPUT_ARG_INVALID, dst)
        else do {
          (_, dst) \<leftarrow> (case cpu of BIG_ENDIAN \<Rightarrow> float_to_uint16_be src sDlen dst nDlen
                                 | LITTLE_ENDIAN \<Rightarrow> float_to_uint16_le src sDlen dst nDlen);
          Some (WOW_SUCCESS, dst)
        }
      })"

text \<open>The shift of a register by 16 is done in \<open>int\<close>; its bits are kept, as the compilers for the supported machines
  define it. Two registers make a number, written at the element \<open>at i\<close> of the destination.\<close>

fun join32_loop :: "bool \<Rightarrow> u16 list \<Rightarrow> (nat \<Rightarrow> nat) \<Rightarrow> nat \<Rightarrow> nat \<Rightarrow> u32 list \<Rightarrow> u32 list option" where
  "join32_loop low_first src at i 0 dst = Some dst"
| "join32_loop low_first src at i (Suc n) dst =
     do {
       x \<leftarrow> rd src (2 * i);
       y \<leftarrow> rd src (2 * i + 1);
       dst \<leftarrow> wr dst (at i)
         (if low_first then (ucast x AND 0x0000ffff) OR push_bit 16 (ucast y) else push_bit 16 (ucast x) OR (ucast y AND 0x0000ffff));
       join32_loop low_first src at (i + 1) n dst
     }"

definition join32 :: "bool \<Rightarrow> (nat \<Rightarrow> nat) \<Rightarrow> u16 list option \<Rightarrow> int \<Rightarrow> u32 list option \<Rightarrow> int \<Rightarrow> (int \<times> u32 list option) option" where
  "join32 low_first at pu16Data sDlen pValue nDlen =
     (case (pu16Data, pValue) of
        (Some src, Some dst) \<Rightarrow>
          do {
            m \<leftarrow> int_mul sDlen 2;
            if \<not> nDlen \<ge> m then Some (- PARAM_INPUT_ARG_INVALID, pValue)
            else do { dst \<leftarrow> join32_loop low_first src at 0 (nat sDlen) dst; Some (WOW_SUCCESS, Some dst) }
          }
      | _ \<Rightarrow> Some (- PARAM_INPUT_DATA_IS_NULL, pValue))"

text \<open>Every number goes to \<open>*pu32Value\<close>.\<close>

definition uint16_to_uint32_le :: "u16 list option \<Rightarrow> int \<Rightarrow> u32 list option \<Rightarrow> int \<Rightarrow> (int \<times> u32 list option) option" where
  "uint16_to_uint32_le = join32 True (\<lambda>_. 0)"

definition uint16_to_uint32_be :: "u16 list option \<Rightarrow> int \<Rightarrow> u32 list option \<Rightarrow> int \<Rightarrow> (int \<times> u32 list option) option" where
  "uint16_to_uint32_be = join32 False (\<lambda>_. 0)"

definition uint16_to_uint32 :: "byte_order \<Rightarrow> u16 list option \<Rightarrow> int \<Rightarrow> u32 list option \<Rightarrow> int \<Rightarrow> (int \<times> u32 list option) option" where
  "uint16_to_uint32 cpu src sDlen dst nDlen =
     (if src = None \<or> dst = None then Some (- PARAM_INPUT_DATA_IS_NULL, dst)
      else do {
        (_, dst) \<leftarrow> (case cpu of BIG_ENDIAN \<Rightarrow> uint16_to_uint32_be src sDlen dst nDlen
                               | LITTLE_ENDIAN \<Rightarrow> uint16_to_uint32_le src sDlen dst nDlen);
        Some (WOW_SUCCESS, dst)
      })"

definition uint16_to_float_le :: "u16 list option \<Rightarrow> int \<Rightarrow> u32 list option \<Rightarrow> int \<Rightarrow> (int \<times> u32 list option) option" where
  "uint16_to_float_le = join32 True (\<lambda>i. 4 * i)"

definition uint16_to_float_be :: "u16 list option \<Rightarrow> int \<Rightarrow> u32 list option \<Rightarrow> int \<Rightarrow> (int \<times> u32 list option) option" where
  "uint16_to_float_be = join32 False (\<lambda>i. 4 * i)"

definition uint16_to_float :: "byte_order \<Rightarrow> u16 list option \<Rightarrow> int \<Rightarrow> u32 list option \<Rightarrow> int \<Rightarrow> (int \<times> u32 list option) option" where
  "uint16_to_float cpu src sDlen dst nDlen =
     (if src = None \<or> dst = None then Some (- PARAM_INPUT_DATA_IS_NULL, dst)
      else do {
        (_, dst) \<leftarrow> (case cpu of BIG_ENDIAN \<Rightarrow> uint16_to_float_be src sDlen dst nDlen
                               | LITTLE_ENDIAN \<Rightarrow> uint16_to_float_le src sDlen dst nDlen);
        Some (WOW_SUCCESS, dst)
      })"

section \<open>Encodings\<close>

text \<open>Everything the array conversions need of a pair of access functions: the one writes the encoding of a number as a block
  of \<open>w\<close> bytes, the other reads such a block.\<close>

locale codec =
  fixes get :: "bytes \<Rightarrow> nat \<Rightarrow> 'n option" and put :: "bytes \<Rightarrow> nat \<Rightarrow> 'n \<Rightarrow> bytes option" and w :: nat and enc :: "'n \<Rightarrow> bytes"
  assumes put_block: "put buf p x = wrn buf p (enc x)"
    and enc_length: "length (enc x) = w"
    and get_block: "rdn buf p w = Some (enc x) \<Longrightarrow> get buf p = Some x"
    and width: "0 < w"
begin

lemma set_loop_block:
  "i + n \<le> length src \<Longrightarrow> w * (i + n) \<le> length dst \<Longrightarrow>
   set_loop put w src i n dst = Some (take (w * i) dst @ concat (map enc (take n (drop i src))) @ drop (w * (i + n)) dst)"
proof (induction n arbitrary: i dst)
  case (Suc n)
  let ?dst = "take (w * i) dst @ enc (src ! i) @ drop (w * i + w) dst"
  have l: "w * i + w + w * n \<le> length dst" using Suc.prems(2) by (simp add: algebra_simps)
  then have "put dst (w * i) (src ! i) = Some ?dst" by (simp add: put_block wrn_def enc_length)
  moreover have "length ?dst = length dst" using l by (simp add: enc_length)
  moreover have "take (w * i + w) ?dst = take (w * i) dst @ enc (src ! i)" using l by (simp add: enc_length)
  moreover have "drop (w * i + w + k) ?dst = drop (w * i + w + k) dst" for k
    using l by (simp add: enc_length add.commute add.left_commute)
  moreover have "take (Suc n) (drop i src) = src ! i # take n (drop (Suc i) src)"
    using Suc.prems by (simp flip: Cons_nth_drop_Suc)
  ultimately show ?case
    using Suc.IH [of "Suc i" ?dst] Suc.prems by (simp add: mem_simps algebra_simps enc_length)
qed simp

lemma get_loop_block:
  "i + n \<le> length xs \<Longrightarrow> i + n \<le> length dst \<Longrightarrow> \<forall>k < n. rdn src (w * (i + k)) w = Some (enc (xs ! (i + k))) \<Longrightarrow>
   get_loop get w src i n dst = Some (take i dst @ take n (drop i xs) @ drop (i + n) dst)"
proof (induction n arbitrary: i dst)
  case (Suc n)
  have "get src (w * i) = Some (xs ! i)" using Suc.prems(3) [rule_format, of 0] by (simp add: get_block)
  moreover have "take (Suc n) (drop i xs) = xs ! i # take n (drop (Suc i) xs)"
    using Suc.prems by (simp flip: Cons_nth_drop_Suc)
  ultimately show ?case
    using Suc.IH [of "Suc i" "dst[i := xs ! i]"] Suc.prems(1,2) Suc.prems(3) [rule_format, of "Suc k" for k]
    by (simp add: mem_simps upd_conv_take_nth_drop add.commute [of n i])
qed simp

lemma get_loop_stuck:
  "i + n \<le> length dst \<Longrightarrow> rdn src 0 w = Some (enc x) \<Longrightarrow>
   get_loop get 0 src i n dst = Some (take i dst @ replicate n x @ drop (i + n) dst)"
  by (induction n arbitrary: i dst) (auto simp: get_block mem_simps upd_conv_take_nth_drop add.commute)

lemma rdn_concat:
  "k < length xs \<Longrightarrow> rdn (concat (map enc xs) @ rest) (w * k) w = Some (enc (xs ! k))"
proof (induction xs arbitrary: k)
  case (Cons x xs)
  have skip: "rdn (enc x @ ys) (w + p) n = rdn ys p n" for ys p n
    by (auto simp: rdn_def enc_length)
  show ?case
  proof (cases k)
    case 0
    then show ?thesis by (simp add: rdn_def enc_length)
  next
    case (Suc k')
    then show ?thesis using Cons skip [of "concat (map enc xs) @ rest" "w * k'" w] by simp
  qed
qed simp

lemma enc_length_concat: "length (concat (map enc xs)) = w * length xs"
  by (induction xs) (simp_all add: enc_length)

text \<open>The whole functions.\<close>

lemma to_char_writes:
  assumes "w * length xs < 2 ^ 31" and "int (w * length xs) \<le> nDlen" and "w * length xs \<le> length dst"
  shows "to_char put (int w) (Some xs) (int (length xs)) (Some dst) nDlen =
    Some (WOW_SUCCESS, Some (concat (map enc xs) @ drop (w * length xs) dst))"
proof -
  have "int (length xs) * int w < 2 ^ 31" using assms(1) by (simp add: mult.commute flip: of_nat_mult)
  moreover have "- (2 ^ 31) \<le> int (length xs) * int w" by (rule order_trans [of _ 0]) simp_all
  ultimately show ?thesis
    using assms set_loop_block [of 0 "length xs" xs dst] by (auto simp: to_char_def int_mul_def mult.commute)
qed

lemma int_div_width: "int_div (int (w * n)) (int w) = int n"
  using width by (auto simp: int_div_def mult_less_0_iff)

lemma of_char_reads:
  assumes "int (length xs) \<le> nDlen" and "length xs \<le> length ys"
  shows "of_char get (int w) w (Some (concat (map enc xs) @ rest)) (int (w * length xs)) (Some ys) nDlen =
    Some (WOW_SUCCESS, Some (xs @ drop (length xs) ys))"
  using assms get_loop_block [of 0 "length xs" xs ys "concat (map enc xs) @ rest"]
  by (simp add: of_char_def int_div_width rdn_concat del: of_nat_mult)

lemma of_char_stuck:
  assumes "int (length xs) \<le> nDlen" and "length xs \<le> length ys"
  shows "of_char get (int w) 0 (Some (concat (map enc xs) @ rest)) (int (w * length xs)) (Some ys) nDlen =
    Some (WOW_SUCCESS, Some (replicate (length xs) (hd xs) @ drop (length xs) ys))"
proof (cases "xs = []")
  case False
  then have "rdn (concat (map enc xs) @ rest) 0 w = Some (enc (hd xs))"
    using rdn_concat [of 0 xs rest] by (simp add: hd_conv_nth)
  then show ?thesis
    using assms get_loop_stuck [of 0 "length xs" ys "concat (map enc xs) @ rest" "hd xs"]
    by (simp add: of_char_def int_div_width del: of_nat_mult)
qed (use assms in \<open>simp add: of_char_def int_div_def\<close>)

end

definition bytes16 :: "byte_order \<Rightarrow> u16 \<Rightarrow> bytes" where
  "bytes16 cpu x = (let le = [ucast x, ucast (drop_bit 8 x)] in case cpu of LITTLE_ENDIAN \<Rightarrow> le | BIG_ENDIAN \<Rightarrow> rev le)"

definition bytes32 :: "byte_order \<Rightarrow> u32 \<Rightarrow> bytes" where
  "bytes32 cpu x =
     (let le = map (\<lambda>k. ucast (drop_bit (8 * k) x)) [0, 1, 2, 3] in case cpu of LITTLE_ENDIAN \<Rightarrow> le | BIG_ENDIAN \<Rightarrow> rev le)"

definition bytes64 :: "byte_order \<Rightarrow> u64 \<Rightarrow> bytes" where
  "bytes64 cpu x =
     (let le = map (\<lambda>k. ucast (drop_bit (8 * k) x)) [0, 1, 2, 3, 4, 5, 6, 7]
      in case cpu of LITTLE_ENDIAN \<Rightarrow> le | BIG_ENDIAN \<Rightarrow> rev le)"

lemma rd_first: "rdn buf p (Suc n) = Some bs \<Longrightarrow> rd buf p = Some (bs ! 0)"
  using rd_of_rdn [of buf p "Suc n" bs 0] by simp

lemmas codec_simps = block_simps bytes16_def bytes32_def bytes64_def join_u16 join_u32 join_u64

interpretation short_codec: codec
    "case cpu of BIG_ENDIAN \<Rightarrow> byte_get_16_be | LITTLE_ENDIAN \<Rightarrow> byte_get_16_le"
    "case cpu of BIG_ENDIAN \<Rightarrow> byte_set_u16_be | LITTLE_ENDIAN \<Rightarrow> byte_set_u16_le" 2 "bytes16 cpu" for cpu
proof
  fix buf p x assume r: "rdn buf p 2 = Some (bytes16 cpu x)"
  have "rd buf p = Some (bytes16 cpu x ! 0)" "rd buf (p + 1) = Some (bytes16 cpu x ! 1)"
    using rd_of_rdn [OF r, of 0] rd_of_rdn [OF r, of 1] by simp_all
  then show "(case cpu of BIG_ENDIAN \<Rightarrow> byte_get_16_be | LITTLE_ENDIAN \<Rightarrow> byte_get_16_le) buf p = Some x"
    by (simp add: byte_get_16_be_def byte_get_16_le_def codec_simps split: byte_order.split)
qed (simp_all add: codec_simps Let_def split: byte_order.split)

interpretation int_codec: codec
    "case cpu of BIG_ENDIAN \<Rightarrow> byte_get_32_be | LITTLE_ENDIAN \<Rightarrow> byte_get_32_le"
    "case cpu of BIG_ENDIAN \<Rightarrow> byte_set_u32_be | LITTLE_ENDIAN \<Rightarrow> byte_set_u32_le" 4 "bytes32 cpu" for cpu
proof
  fix buf p x assume r: "rdn buf p 4 = Some (bytes32 cpu x)"
  have "rd buf p = Some (bytes32 cpu x ! 0)" "rd buf (p + 1) = Some (bytes32 cpu x ! 1)"
    "rd buf (p + 2) = Some (bytes32 cpu x ! 2)" "rd buf (p + 3) = Some (bytes32 cpu x ! 3)"
    using rd_of_rdn [OF r, of 0] rd_of_rdn [OF r, of 1] rd_of_rdn [OF r, of 2] rd_of_rdn [OF r, of 3] by simp_all
  then show "(case cpu of BIG_ENDIAN \<Rightarrow> byte_get_32_be | LITTLE_ENDIAN \<Rightarrow> byte_get_32_le) buf p = Some x"
    by (simp add: byte_get_32_be_def byte_get_32_le_def codec_simps split: byte_order.split)
qed (simp_all add: codec_simps Let_def split: byte_order.split)

interpretation long_codec: codec
    "case cpu of BIG_ENDIAN \<Rightarrow> byte_get_64_be | LITTLE_ENDIAN \<Rightarrow> byte_get_64_le"
    "case cpu of BIG_ENDIAN \<Rightarrow> byte_set_u64_be | LITTLE_ENDIAN \<Rightarrow> byte_set_u64_le" 8 "bytes64 cpu" for cpu
proof
  fix buf p x assume r: "rdn buf p 8 = Some (bytes64 cpu x)"
  have "rd buf p = Some (bytes64 cpu x ! 0)" "rd buf (p + 1) = Some (bytes64 cpu x ! 1)"
    "rd buf (p + 2) = Some (bytes64 cpu x ! 2)" "rd buf (p + 3) = Some (bytes64 cpu x ! 3)"
    "rd buf (p + 4) = Some (bytes64 cpu x ! 4)" "rd buf (p + 5) = Some (bytes64 cpu x ! 5)"
    "rd buf (p + 6) = Some (bytes64 cpu x ! 6)" "rd buf (p + 7) = Some (bytes64 cpu x ! 7)"
    using rd_of_rdn [OF r, of 0] rd_of_rdn [OF r, of 1] rd_of_rdn [OF r, of 2] rd_of_rdn [OF r, of 3]
      rd_of_rdn [OF r, of 4] rd_of_rdn [OF r, of 5] rd_of_rdn [OF r, of 6] rd_of_rdn [OF r, of 7] by simp_all
  then show "(case cpu of BIG_ENDIAN \<Rightarrow> byte_get_64_be | LITTLE_ENDIAN \<Rightarrow> byte_get_64_le) buf p = Some x"
    by (simp add: byte_get_64_be_def byte_get_64_le_def codec_simps split: byte_order.split)
qed (simp_all add: codec_simps Let_def split: byte_order.split)

section \<open>Registers, one number each\<close>

definition registers :: "bool \<Rightarrow> u32 \<Rightarrow> u16 list" where
  "registers low_first x =
     (if low_first then [ucast x, ucast (drop_bit 16 x)] else [ucast (drop_bit 16 x), ucast x])"

lemma ffff: "(0xffff :: u32) = mask 16"
  by (simp add: mask_eq_exp_minus_1)

lemma low_half: "(ucast (x AND 0xffff) :: u16) = ucast x" for x :: u32
  unfolding ffff by (rule bit_word_eqI) (auto simp: bit_simps)

lemma join_halves:
  "(ucast (ucast x :: u16) AND 0xffff) OR push_bit 16 (ucast (ucast (drop_bit 16 x) :: u16)) = x"
  "push_bit 16 (ucast (ucast (drop_bit 16 x) :: u16)) OR (ucast (ucast x :: u16) AND 0xffff) = x" for x :: u32
  unfolding ffff by (rule bit_word_eqI, auto simp: bit_simps)+

lemma split32_loop_block:
  "i + n \<le> length src \<Longrightarrow> 2 * (i + n) \<le> length dst \<Longrightarrow>
   split32_loop low_first src 1 i n dst =
     Some (take (2 * i) dst @ concat (map (registers low_first) (take n (drop i src))) @ drop (2 * (i + n)) dst)"
proof (induction n arbitrary: i dst)
  case (Suc n)
  let ?dst = "take (2 * i) dst @ registers low_first (src ! i) @ drop (2 * i + 2) dst"
  let ?x = "if low_first then ucast (src ! i AND 0xffff) else ucast (drop_bit 16 (src ! i)) :: u16"
  let ?y = "if low_first then ucast (drop_bit 16 (src ! i)) else ucast (src ! i AND 0xffff) :: u16"
  have "dst[2 * i := ?x, 2 * i + 1 := ?y] = ?dst"
    using Suc.prems by (auto simp: upd_conv_take_nth_drop registers_def low_half)
  moreover have "split32_loop low_first src 1 (Suc i) n ?dst =
      Some (take (2 * Suc i) ?dst @ concat (map (registers low_first) (take n (drop (Suc i) src))) @ drop (2 * (Suc i + n)) ?dst)"
    using Suc.prems by (intro Suc.IH) (auto simp: registers_def)
  moreover have "take (2 * Suc i) ?dst = take (2 * i) dst @ registers low_first (src ! i)"
    "drop (2 * (Suc i + n)) ?dst = drop (2 * (i + Suc n)) dst"
    using Suc.prems by (auto simp: registers_def algebra_simps)
  moreover have "take (Suc n) (drop i src) = src ! i # take n (drop (Suc i) src)"
    using Suc.prems by (simp flip: Cons_nth_drop_Suc)
  ultimately show ?case using Suc.prems by (simp add: mem_simps Let_def)
qed simp

lemma join32_loop_last:
  "length xs = i + n \<Longrightarrow> dst \<noteq> [] \<Longrightarrow> \<forall>k < length xs. src ! (2 * k) = registers lf (xs ! k) ! 0 \<and> src ! (2 * k + 1) = registers lf (xs ! k) ! 1 \<Longrightarrow>
   2 * length xs \<le> length src \<Longrightarrow>
   join32_loop lf src (\<lambda>_. 0) i n dst = Some (if n = 0 then dst else dst[0 := last xs])"
proof (induction n arbitrary: i dst)
  case (Suc n)
  let ?v = "if lf then (ucast (src ! (2 * i)) AND 0xffff) OR push_bit 16 (ucast (src ! (2 * i + 1)))
    else push_bit 16 (ucast (src ! (2 * i))) OR (ucast (src ! (2 * i + 1)) AND 0xffff) :: u32"
  have "?v = xs ! i" using Suc.prems(3) [rule_format, of i] Suc.prems(1) by (simp add: registers_def join_halves)
  moreover have "n = 0 \<Longrightarrow> xs ! i = last xs" using Suc.prems(1) by (cases xs) (auto simp: last_conv_nth)
  ultimately show ?case
    using Suc.IH [of "Suc i" "dst[0 := xs ! i]"] Suc.prems by (auto simp: mem_simps)
qed simp

section \<open>The properties\<close>

text \<open>C31. Arrays of 16-bit and 32-bit numbers and of floats are stored as the bytes of their elements, lowest first on a little-endian
  machine and highest first on a big-endian one, and nothing behind them is touched; reading the bytes back gives the
  numbers.\<close>

theorem arrays_roundtrip:
  assumes "4 * length xs < 2 ^ 31" and "4 * length ys < 2 ^ 31"
    and "4 * length xs \<le> length dst" and "4 * length ys \<le> length dst" and "int (length dst) \<le> nDlen"
    and "length xs \<le> length xs'" and "length ys \<le> length ys'"
    and "int (length xs) \<le> m" and "int (length ys) \<le> m"
  shows "\<exists>b16 b32. b16 = concat (map (bytes16 cpu) xs) @ drop (2 * length xs) dst \<and>
      b32 = concat (map (bytes32 cpu) ys) @ drop (4 * length ys) dst \<and>
      short2char cpu (Some xs) (int (length xs)) (Some dst) nDlen = Some (WOW_SUCCESS, Some b16) \<and>
      int2char cpu (Some ys) (int (length ys)) (Some dst) nDlen = Some (WOW_SUCCESS, Some b32) \<and>
      float2char cpu (Some ys) (int (length ys)) (Some dst) nDlen = Some (WOW_SUCCESS, Some b32) \<and>
      char2short cpu (Some b16) (int (2 * length xs)) (Some xs') m = Some (WOW_SUCCESS, Some (xs @ drop (length xs) xs')) \<and>
      char2int cpu (Some b32) (int (4 * length ys)) (Some ys') m = Some (WOW_SUCCESS, Some (ys @ drop (length ys) ys')) \<and>
      char2float cpu (Some b32) (int (4 * length ys)) (Some ys') m = Some (WOW_SUCCESS, Some (ys @ drop (length ys) ys'))"
  using assms short_codec.to_char_writes [of xs nDlen dst cpu] int_codec.to_char_writes [of ys nDlen dst cpu]
    short_codec.of_char_reads [of xs m xs' cpu] int_codec.of_char_reads [of ys m ys' cpu]
  by (simp add: short2char_def int2char_def float2char_def char2short_def char2int_def char2float_def to_char_checked_def)

theorem arrays_roundtrip_witness:
  "short2char BIG_ENDIAN (Some [0x1234]) 1 (Some [0, 0, 0, 0, 0]) 5 = Some (WOW_SUCCESS, Some [0x12, 0x34, 0, 0, 0]) \<and>
   char2int LITTLE_ENDIAN (Some [1, 0, 0, 0, 7]) 4 (Some [9, 9]) 2 = Some (WOW_SUCCESS, Some [1, 9])"
  using arrays_roundtrip [of "[0x1234]" "[1]" "[0, 0, 0, 0, 0]" 5 "[0]" "[9, 9]" 2 BIG_ENDIAN]
    arrays_roundtrip [of "[0x1234]" "[1]" "[0, 0, 0, 0, 7]" 5 "[0]" "[9, 9]" 2 LITTLE_ENDIAN]
  by (simp add: bytes16_def bytes32_def)

text \<open>An array of 64-bit numbers is stored as its bytes, but reading it back gives the first number at every place.\<close>

theorem longs_read_first:
  assumes "8 * length zs < 2 ^ 31" and "8 * length zs \<le> length dst" and "int (length dst) \<le> nDlen"
    and "length zs \<le> length zs'" and "int (length zs) \<le> m"
  shows "\<exists>b64. b64 = concat (map (bytes64 cpu) zs) @ drop (8 * length zs) dst \<and>
      long2char cpu (Some zs) (int (length zs)) (Some dst) nDlen = Some (WOW_SUCCESS, Some b64) \<and>
      char2long cpu (Some b64) (int (8 * length zs)) (Some zs') m =
        Some (WOW_SUCCESS, Some (replicate (length zs) (hd zs) @ drop (length zs) zs'))"
  using assms long_codec.to_char_writes [of zs nDlen dst cpu] long_codec.of_char_stuck [of zs m zs' cpu]
  by (simp add: long2char_def char2long_def)

theorem longs_read_first_witness:
  "long2char LITTLE_ENDIAN (Some [1, 2]) 2 (Some (replicate 16 9)) 16 =
     Some (WOW_SUCCESS, Some [1, 0, 0, 0, 0, 0, 0, 0, 2, 0, 0, 0, 0, 0, 0, 0]) \<and>
   char2long LITTLE_ENDIAN (Some [1, 0, 0, 0, 0, 0, 0, 0, 2, 0, 0, 0, 0, 0, 0, 0]) 16 (Some [0, 0]) 2 =
     Some (WOW_SUCCESS, Some [1, 1])"
  using longs_read_first [of "[1, 2]" "replicate 16 9" 16 "[0, 0]" 2 LITTLE_ENDIAN] by (simp add: bytes64_def)

text \<open>Splitting 32-bit numbers into pairs of registers stores every number in the order of the machine. Putting the
  registers together again stores only the last number, in the first element of the destination.\<close>

theorem registers_keep_last:
  assumes "xs \<noteq> []" and "2 * length xs < 2 ^ 31" and "2 * length xs \<le> length dst" and "int (length dst) \<le> nDlen"
    and "ys \<noteq> []" and "2 * int (length xs) \<le> m"
  shows "\<exists>regs. regs = concat (map (registers (cpu = LITTLE_ENDIAN)) xs) @ drop (2 * length xs) dst \<and>
      uint32_to_uint16 cpu (Some xs) (int (length xs)) (Some dst) nDlen = Some (WOW_SUCCESS, Some regs) \<and>
      uint16_to_uint32 cpu (Some regs) (int (length xs)) (Some ys) m = Some (WOW_SUCCESS, Some (ys[0 := last xs]))"
proof -
  define regs where "regs = concat (map (registers (cpu = LITTLE_ENDIAN)) xs) @ drop (2 * length xs) dst"
  have mul: "int_mul (int (length xs)) 2 = Some (int (length xs) * 2)"
    using assms(2) by (simp add: int_mul_def)
  have split: "split32_loop (cpu = LITTLE_ENDIAN) xs 1 0 (length xs) dst = Some regs"
    using split32_loop_block [of 0 "length xs" xs dst "cpu = LITTLE_ENDIAN"] assms by (simp add: regs_def)
  have at: "(concat (map (registers lf) zs) @ rest) ! (2 * k) = registers lf (zs ! k) ! 0 \<and>
      (concat (map (registers lf) zs) @ rest) ! (2 * k + 1) = registers lf (zs ! k) ! 1" if "k < length zs" for lf zs rest k
    using that
  proof (induction zs arbitrary: k)
    case (Cons z zs)
    then show ?case by (cases k) (auto simp: registers_def)
  qed simp
  have len: "length (concat (map (registers lf) zs)) = 2 * length zs" for lf zs
    by (induction zs) (simp_all add: registers_def)
  have join: "join32_loop (cpu = LITTLE_ENDIAN) regs (\<lambda>_. 0) 0 (length xs) ys = Some (ys[0 := last xs])"
    using join32_loop_last [of xs 0 "length xs" ys regs "cpu = LITTLE_ENDIAN"] at [of _ xs] assms len
    by (simp add: regs_def)
  show ?thesis
    using assms split join mul
    by (intro exI [of _ regs], cases cpu)
      (simp_all add: regs_def uint32_to_uint16_def uint32_to_uint16_be_def uint32_to_uint16_le_def split32_def
        uint16_to_uint32_def uint16_to_uint32_be_def uint16_to_uint32_le_def join32_def)
qed

theorem registers_keep_last_witness:
  "\<exists>regs. uint32_to_uint16 LITTLE_ENDIAN (Some [0x10002, 0x30004]) 2 (Some [0, 0, 0, 0]) 4 = Some (WOW_SUCCESS, Some regs) \<and>
     uint16_to_uint32 LITTLE_ENDIAN (Some regs) 2 (Some [0, 0]) 4 = Some (WOW_SUCCESS, Some [0x30004, 0])"
  using registers_keep_last [of "[0x10002, 0x30004]" "[0, 0, 0, 0]" 4 "[0, 0]" 4 LITTLE_ENDIAN] by simp

text \<open>Converting two or more pairs of registers to floats runs past a destination of exactly the size that the check
  demands.\<close>

theorem registers_to_floats_overflow:
  assumes "2 \<le> n" and "n < 2 ^ 30" and "length src = 2 * n" and "length dst < 4 * n - 3"
  shows "uint16_to_float cpu (Some src) (int n) (Some dst) (2 * int n) = None"
proof -
  have "join32_loop lf src ((*) 4) i k ds = None" if "i + k = n" "length ds < 4 * n - 3" "0 < k" for lf i k ds
    using that
  proof (induction k arbitrary: i ds)
    case (Suc k)
    show ?case
    proof (cases "4 * i < length ds")
      case True
      moreover from this have "0 < k" using Suc.prems by (cases k) auto
      ultimately show ?thesis using Suc.prems Suc.IH [of "Suc i"] assms(3) by (simp add: mem_simps)
    qed (use Suc.prems assms(3) in \<open>simp add: mem_simps wr_def\<close>)
  qed simp
  note this [of 0 n dst]
  moreover have "int_mul (int n) 2 = Some (2 * int n)" using assms(2) by (simp add: int_mul_def mult.commute)
  ultimately show ?thesis
    using assms by (cases cpu)
      (simp_all add: uint16_to_float_def uint16_to_float_be_def uint16_to_float_le_def join32_def)
qed

theorem registers_to_floats_overflow_witness:
  "uint16_to_float LITTLE_ENDIAN (Some [1, 2, 3, 4]) 2 (Some [0, 0, 0, 0]) 4 = None"
  using registers_to_floats_overflow [of 2 "[1, 2, 3, 4]" "[0, 0, 0, 0]" LITTLE_ENDIAN] by simp

end
