(* ===== verification/NumText.thy ===== *)
theory NumText
  imports ByteOrder Errno
begin

text \<open>
  Numbers and their digits: the first half of \<open>wow_type.c\<close> (texts in base 2, 10 and 16 to integers of 16, 32 and 64
  bits) and its BCD conversions. A text is the list of its bytes without the terminator; a null pointer is \<open>None\<close>. The
  result is the return value and the number stored, \<open>None\<close> when nothing is stored.

  \<open>isspace\<close> and \<open>isdigit\<close> are those of the C locale.
\<close>

definition isspace :: "u8 \<Rightarrow> bool" where "isspace c \<longleftrightarrow> c \<in> {9, 10, 11, 12, 13, 32}"
definition isdigit2 :: "u8 \<Rightarrow> bool" where "isdigit2 c \<longleftrightarrow> c = 48 \<or> c = 49"
definition isdigit10 :: "u8 \<Rightarrow> bool" where "isdigit10 c \<longleftrightarrow> 48 \<le> c \<and> c \<le> 57"

section \<open>Parsing\<close>

text \<open>\<open>sign\<close> and the text behind the blanks and the sign.\<close>

definition parse_sign :: "bytes \<Rightarrow> bool \<times> bytes" where
  "parse_sign s =
     (let s = dropWhile isspace s in
      case s of c # t \<Rightarrow> if c = 45 then (True, t) else if c = 43 then (False, t) else (False, s) | [] \<Rightarrow> (False, s))"

text \<open>The two bytes of a prefix, \<open>0\<close> and a letter in either case.\<close>

definition skip_prefix :: "u8 \<Rightarrow> u8 \<Rightarrow> bytes \<Rightarrow> bytes" where
  "skip_prefix lower upper s =
     (case s of c # d # t \<Rightarrow> if c = 48 \<and> (d = lower \<or> d = upper) then t else s | _ \<Rightarrow> s)"

text \<open>The binary digits are collected in 32 bits; the negation is done in 32 bits as well.\<close>

fun S2_loop :: "u32 \<Rightarrow> bytes \<Rightarrow> u32" where
  "S2_loop val [] = val"
| "S2_loop val (ch # s) = (if \<not> isdigit2 ch then val else S2_loop (push_bit 1 val + (ucast ch - 48)) s)"

definition S2toU64_impl :: "bytes \<Rightarrow> u64" where
  "S2toU64_impl s =
     (let (sign, s) = parse_sign s; s = skip_prefix 98 66 s; s = dropWhile (\<lambda>c. c = 48) s; val = S2_loop 0 s
      in ucast (if sign then NOT val + 1 else val))"

fun S10_loop :: "u64 \<Rightarrow> bytes \<Rightarrow> u64" where
  "S10_loop val [] = val"
| "S10_loop val (ch # s) = (if \<not> isdigit10 ch then val else S10_loop (val * 10 + (ucast ch - 48)) s)"

definition S10toU64_impl :: "bytes \<Rightarrow> u64" where
  "S10toU64_impl s =
     (let (sign, s) = parse_sign s; s = dropWhile (\<lambda>c. c = 48) s; val = S10_loop 0 s
      in if sign then NOT val + 1 else val)"

fun S16_loop :: "u64 \<Rightarrow> bytes \<Rightarrow> u64" where
  "S16_loop val [] = val"
| "S16_loop val (ch # s) =
     (if isdigit10 ch then S16_loop (push_bit 4 val + (ucast ch - 48)) s
      else if ch > 97 - 1 \<and> ch < 102 + 1 then S16_loop (push_bit 4 val + (ucast ch - 97) + 10) s
      else if ch > 65 - 1 \<and> ch < 70 + 1 then S16_loop (push_bit 4 val + (ucast ch - 65) + 10) s
      else val)"

definition S16toU64_impl :: "bytes \<Rightarrow> u64" where
  "S16toU64_impl s =
     (let (sign, s) = parse_sign s; s = skip_prefix 120 88 s; s = dropWhile (\<lambda>c. c = 48) s; val = S16_loop 0 s
      in if sign then NOT val + 1 else val)"

text \<open>The public functions differ in the width of what they store. \<open>dst_ok\<close> is false for a null destination.\<close>

definition store_number :: "(bytes \<Rightarrow> u64) \<Rightarrow> bytes option \<Rightarrow> bool \<Rightarrow> int \<times> 'w :: len word option" where
  "store_number parse pcStr dst_ok =
     (case pcStr of
        Some s \<Rightarrow> if dst_ok then (WOW_SUCCESS, Some (ucast (parse s))) else (- PARAM_INPUT_DATA_IS_NULL, None)
      | None \<Rightarrow> (- PARAM_INPUT_DATA_IS_NULL, None))"

definition S2toU64 :: "bytes option \<Rightarrow> bool \<Rightarrow> int \<times> u64 option" where "S2toU64 = store_number S2toU64_impl"
definition S10toU64 :: "bytes option \<Rightarrow> bool \<Rightarrow> int \<times> u64 option" where "S10toU64 = store_number S10toU64_impl"
definition S16toU64 :: "bytes option \<Rightarrow> bool \<Rightarrow> int \<times> u64 option" where "S16toU64 = store_number S16toU64_impl"
definition S2toU32 :: "bytes option \<Rightarrow> bool \<Rightarrow> int \<times> u32 option" where "S2toU32 = store_number S2toU64_impl"
definition S10toU32 :: "bytes option \<Rightarrow> bool \<Rightarrow> int \<times> u32 option" where "S10toU32 = store_number S10toU64_impl"
definition S16toU32 :: "bytes option \<Rightarrow> bool \<Rightarrow> int \<times> u32 option" where "S16toU32 = store_number S16toU64_impl"
definition S2toU16 :: "bytes option \<Rightarrow> bool \<Rightarrow> int \<times> u16 option" where "S2toU16 = store_number S2toU64_impl"
definition S10toU16 :: "bytes option \<Rightarrow> bool \<Rightarrow> int \<times> u16 option" where "S10toU16 = store_number S10toU64_impl"
definition S16toU16 :: "bytes option \<Rightarrow> bool \<Rightarrow> int \<times> u16 option" where "S16toU16 = store_number S16toU64_impl"

text \<open>The prefix decides the base.\<close>

definition str2u64 :: "bytes option \<Rightarrow> bool \<Rightarrow> int \<times> u64 option" where
  "str2u64 pcStr dst_ok =
     (case pcStr of
        Some s \<Rightarrow>
          if dst_ok then
            (let p = dropWhile isspace s;
                 p = (case p of c # t \<Rightarrow> if c = 45 \<or> c = 43 then t else p | [] \<Rightarrow> p)
             in case p of
                  c # d # _ \<Rightarrow>
                    if c = 48 then
                      if d = 120 \<or> d = 88 then S16toU64 pcStr dst_ok
                      else if d = 98 \<or> d = 66 then S2toU64 pcStr dst_ok
                      else S10toU64 pcStr dst_ok
                    else S10toU64 pcStr dst_ok
                | _ \<Rightarrow> S10toU64 pcStr dst_ok)
          else (- PARAM_INPUT_DATA_IS_NULL, None)
      | None \<Rightarrow> (- PARAM_INPUT_DATA_IS_NULL, None))"

section \<open>BCD\<close>

text \<open>A nibble of \<open>0xf\<close> ends the number; any other that is no digit is an error, after its character has been stored. The
  result is the return value and the destination. Lengths are not negative.\<close>

fun BCD_loop :: "bytes \<Rightarrow> nat \<Rightarrow> nat \<Rightarrow> bytes \<Rightarrow> (int \<times> bytes) option" where
  "BCD_loop bcd i 0 out = Some (WOW_SUCCESS, out)"
| "BCD_loop bcd i (Suc n) out =
     do {
       b \<leftarrow> rd bcd i;
       let cBCD = drop_bit 4 b;
       if 0x0f = cBCD then Some (WOW_SUCCESS, out)
       else do {
         out \<leftarrow> wr out (2 * i) (cBCD + 48);
         if \<not> isdigit10 (cBCD + 48) then Some (-1, out)
         else do {
           let cBCD = b AND 0x0f;
           if 0x0f = cBCD then Some (WOW_SUCCESS, out)
           else do {
             out \<leftarrow> wr out (2 * i + 1) (cBCD + 48);
             if \<not> isdigit10 (cBCD + 48) then Some (-1, out)
             else BCD_loop bcd (i + 1) n out
           }
         }
       }
     }"

definition BCD2String :: "bytes option \<Rightarrow> nat \<Rightarrow> bytes option \<Rightarrow> nat \<Rightarrow> (int \<times> bytes option) option" where
  "BCD2String pu8BcdData nBcdLen pu8StrData nStrLen =
     (case (pu8BcdData, pu8StrData) of
        (Some bcd, Some out) \<Rightarrow>
          if \<not> 2 * nBcdLen \<le> nStrLen then Some (- PARAM_INPUT_SIZE_IS_SMALL, pu8StrData)
          else do { (r, out) \<leftarrow> BCD_loop bcd 0 nBcdLen out; Some (r, Some out) }
      | _ \<Rightarrow> Some (- PARAM_INPUT_DATA_IS_NULL, pu8StrData))"

text \<open>\<open>i\<close> counts pairs of digits.\<close>

function String2BCD_loop :: "bytes \<Rightarrow> nat \<Rightarrow> nat \<Rightarrow> bytes \<Rightarrow> (int \<times> bytes) option" where
  "String2BCD_loop str nStrLen i bcd =
     (if i < nStrLen
      then do {
        c \<leftarrow> rd str i;
        if \<not> isdigit10 c then Some (-1, bcd)
        else do {
          bcd \<leftarrow> wr bcd (i div 2) (c - 48);
          b \<leftarrow> rd bcd (i div 2);
          bcd \<leftarrow> wr bcd (i div 2) (push_bit 4 b);
          if i + 1 \<ge> nStrLen then Some (WOW_SUCCESS, bcd)
          else do {
            d \<leftarrow> rd str (i + 1);
            if \<not> isdigit10 d then Some (-1, bcd)
            else do {
              b \<leftarrow> rd bcd (i div 2);
              bcd \<leftarrow> wr bcd (i div 2) (b + (d - 48));
              String2BCD_loop str nStrLen (i + 2) bcd
            }
          }
        }
      }
      else Some (WOW_SUCCESS, bcd))"
  by pat_completeness auto
termination by (relation "measure (\<lambda>(_, n, i, _). n - i)") auto

declare String2BCD_loop.simps [simp del]

definition String2BCD :: "bytes option \<Rightarrow> nat \<Rightarrow> bytes option \<Rightarrow> nat \<Rightarrow> (int \<times> bytes option) option" where
  "String2BCD pu8StrData nStrLen pu8BcdData nBcdLen =
     (case (pu8StrData, pu8BcdData) of
        (Some str, Some bcd) \<Rightarrow>
          if \<not> 2 * nBcdLen \<ge> nStrLen then Some (- PARAM_INPUT_SIZE_IS_SMALL, pu8BcdData)
          else do { (r, bcd) \<leftarrow> String2BCD_loop str nStrLen 0 bcd; Some (r, Some bcd) }
      | _ \<Rightarrow> Some (- PARAM_INPUT_DATA_IS_NULL, pu8BcdData))"

section \<open>The value of a text\<close>

datatype base = BIN | DEC | HEX

definition radix :: "base \<Rightarrow> nat" where
  "radix b = (case b of BIN \<Rightarrow> 2 | DEC \<Rightarrow> 10 | HEX \<Rightarrow> 16)"

definition is_digit :: "base \<Rightarrow> u8 \<Rightarrow> bool" where
  "is_digit b c = (case b of BIN \<Rightarrow> c \<in> {48, 49} | DEC \<Rightarrow> 48 \<le> c \<and> c \<le> 57
     | HEX \<Rightarrow> 48 \<le> c \<and> c \<le> 57 \<or> 97 \<le> c \<and> c \<le> 102 \<or> 65 \<le> c \<and> c \<le> 70)"

definition digit_value :: "u8 \<Rightarrow> nat" where
  "digit_value c = (if c \<le> 57 then unat c - 48 else if c \<le> 70 then unat c - 55 else unat c - 87)"

definition text_value :: "base \<Rightarrow> bytes \<Rightarrow> nat" where
  "text_value b ds = foldl (\<lambda>v d. radix b * v + digit_value d) 0 ds"

definition prefixes :: "base \<Rightarrow> bytes list" where
  "prefixes b = (case b of BIN \<Rightarrow> [[48, 98], [48, 66]] | DEC \<Rightarrow> [[]] | HEX \<Rightarrow> [[48, 120], [48, 88]])"

text \<open>What the three loops share: a digit is added in the width of the accumulator, anything else ends the number.\<close>

locale digits =
  fixes loop :: "'w :: len word \<Rightarrow> bytes \<Rightarrow> 'w word" and b :: base
  assumes loop_end: "loop v [] = v"
    and loop_stop: "\<not> is_digit b c \<Longrightarrow> loop v (c # s) = v"
    and loop_digit: "is_digit b c \<Longrightarrow> loop v (c # s) = loop (of_nat (radix b) * v + of_nat (digit_value c)) s"
begin

lemma loop_foldl:
  "\<forall>d \<in> set ds. is_digit b d \<Longrightarrow> rest = [] \<or> \<not> is_digit b (hd rest) \<Longrightarrow>
   loop (of_nat v) (ds @ rest) = of_nat (foldl (\<lambda>v d. radix b * v + digit_value d) v ds)"
proof (induction ds arbitrary: v)
  case Nil
  then show ?case by (cases rest) (simp_all add: loop_end loop_stop)
next
  case (Cons d ds)
  then show ?case using Cons.IH [of "radix b * v + digit_value d"] by (simp add: loop_digit)
qed

lemma loop_zeros: "loop 0 (dropWhile (\<lambda>c. c = 48) s) = loop 0 s"
proof (induction s)
  case (Cons c s)
  have "is_digit b 48" by (simp add: is_digit_def split: base.split)
  then show ?case using Cons by (simp add: loop_digit digit_value_def)
qed simp

lemma loop_value:
  "\<forall>d \<in> set ds. is_digit b d \<Longrightarrow> rest = [] \<or> \<not> is_digit b (hd rest) \<Longrightarrow>
   loop 0 (dropWhile (\<lambda>c. c = 48) (ds @ rest)) = of_nat (text_value b ds)"
  using loop_foldl [of ds rest 0] by (simp add: loop_zeros text_value_def)

end

lemma digit_to_word:
  "48 \<le> c \<Longrightarrow> c \<le> 57 \<Longrightarrow> ucast c - 48 = (of_nat (digit_value c) :: 'w :: len word)"
  "65 \<le> c \<Longrightarrow> c \<le> 70 \<Longrightarrow> ucast c - 65 + 10 = (of_nat (digit_value c) :: 'w :: len word)"
  "97 \<le> c \<Longrightarrow> c \<le> 102 \<Longrightarrow> ucast c - 97 + 10 = (of_nat (digit_value c) :: 'w :: len word)"
proof -
  have u: "(ucast c :: 'w word) = of_nat (unat c)" by simp
  show "48 \<le> c \<Longrightarrow> c \<le> 57 \<Longrightarrow> ucast c - 48 = (of_nat (digit_value c) :: 'w :: len word)"
    by (simp only: u digit_value_def) (simp add: word_le_nat_alt of_nat_diff del: of_nat_unat)
  show "65 \<le> c \<Longrightarrow> c \<le> 70 \<Longrightarrow> ucast c - 65 + 10 = (of_nat (digit_value c) :: 'w :: len word)"
    by (simp only: u digit_value_def) (simp add: word_le_nat_alt of_nat_diff del: of_nat_unat)
  show "97 \<le> c \<Longrightarrow> c \<le> 102 \<Longrightarrow> ucast c - 97 + 10 = (of_nat (digit_value c) :: 'w :: len word)"
    by (simp only: u digit_value_def) (simp add: word_le_nat_alt of_nat_diff del: of_nat_unat)
qed

interpretation binary: digits S2_loop BIN
proof
  show "S2_loop v (c # s) = S2_loop (of_nat (radix BIN) * v + of_nat (digit_value c)) s" if "is_digit BIN c" for v c s
  proof -
    have c: "48 \<le> c" "c \<le> 57" "isdigit2 c" using that by (auto simp: is_digit_def isdigit2_def)
    show ?thesis using c(3) by (simp add: digit_to_word(1) [OF c(1,2)] radix_def push_bit_eq_mult mult.commute)
  qed
qed (auto simp: is_digit_def isdigit2_def)

interpretation decimal: digits S10_loop DEC
proof
  show "S10_loop v (c # s) = S10_loop (of_nat (radix DEC) * v + of_nat (digit_value c)) s" if "is_digit DEC c" for v c s
    using that by (auto simp: is_digit_def isdigit10_def digit_to_word radix_def mult.commute)
qed (auto simp: is_digit_def isdigit10_def)

interpretation hexadecimal: digits S16_loop HEX
proof
  show "S16_loop v (c # s) = S16_loop (of_nat (radix HEX) * v + of_nat (digit_value c)) s" if d: "is_digit HEX c" for v c s
  proof -
    consider "48 \<le> c" "c \<le> 57" | "65 \<le> c" "c \<le> 70" | "97 \<le> c" "c \<le> 102"
      using d by (auto simp: is_digit_def)
    then show ?thesis
    proof cases
      case 1
      then show ?thesis by (simp add: isdigit10_def digit_to_word(1) radix_def push_bit_eq_mult mult.commute)
    next
      case 2
      have "push_bit 4 v + (ucast c - 65) + 10 = of_nat (radix HEX) * v + of_nat (digit_value c)"
        by (simp only: digit_to_word(2) [OF 2, symmetric]) (simp add: radix_def push_bit_eq_mult)
      moreover have "\<not> isdigit10 c" "\<not> (c > 97 - 1 \<and> c < 102 + 1)" "c > 65 - 1 \<and> c < 70 + 1"
        using 2 by (auto simp: isdigit10_def word_le_nat_alt word_less_nat_alt)
      ultimately show ?thesis by (simp only: S16_loop.simps if_False if_True simp_thms)
    next
      case 3
      have "push_bit 4 v + (ucast c - 97) + 10 = of_nat (radix HEX) * v + of_nat (digit_value c)"
        by (simp only: digit_to_word(3) [OF 3, symmetric]) (simp add: radix_def push_bit_eq_mult)
      moreover have "\<not> isdigit10 c" "c > 97 - 1 \<and> c < 102 + 1"
        using 3 by (auto simp: isdigit10_def word_le_nat_alt word_less_nat_alt)
      ultimately show ?thesis by (simp only: S16_loop.simps if_False if_True simp_thms)
    qed
  qed
qed (auto simp: is_digit_def isdigit10_def word_le_nat_alt word_less_nat_alt)

text \<open>The common head of the texts.\<close>

lemma parse_sign_text:
  assumes "\<forall>c \<in> set ws. isspace c" and "sg \<in> {[], [43], [45]}" and "body \<noteq> []" and "\<not> isspace (hd body)" "hd body \<notin> {43, 45}"
  shows "parse_sign (ws @ sg @ body) = (sg = [45], body)"
    and "dropWhile isspace (ws @ sg @ body) = sg @ body"
proof -
  have "dropWhile isspace (sg @ body) = sg @ body"
    using assms(2-5) by (cases body) (auto simp: isspace_def)
  then show "dropWhile isspace (ws @ sg @ body) = sg @ body" using assms(1) by (induction ws) auto
  then show "parse_sign (ws @ sg @ body) = (sg = [45], body)"
    using assms(2-5) by (cases body) (auto simp: parse_sign_def Let_def)
qed

text \<open>What is stored: the number in two's complement, of a text in base 2 only the lowest 32 bits.\<close>

definition stored_value :: "base \<Rightarrow> bool \<Rightarrow> bytes \<Rightarrow> u64" where
  "stored_value b neg ds =
     (let i = (if neg then - int (text_value b ds) else int (text_value b ds))
      in if b = BIN then ucast (word_of_int i :: u32) else word_of_int i)"

lemma negated: "NOT v + 1 = - v" for v :: "'a :: len word"
  by (simp add: not_eq_complement)

text \<open>C30. A text of blanks, an optional sign, the prefix of a base, at least one digit of that base and anything that does not
  go on with a digit is read as its value with the sign, modulo \<open>2 ^ 64\<close>. In base 2 the value is reduced modulo
  \<open>2 ^ 32\<close> first, so a negative binary number is stored as a positive one.\<close>

theorem str2u64_value:
  assumes "\<forall>c \<in> set ws. isspace c" and "sg \<in> {[], [43], [45]}" and "pre \<in> set (prefixes b)"
    and "ds \<noteq> []" and "\<forall>d \<in> set ds. is_digit b d" and "rest = [] \<or> \<not> is_digit b (hd rest)"
    and "b = DEC \<Longrightarrow> take 2 (ds @ rest) \<notin> set (prefixes BIN @ prefixes HEX)"
  shows "str2u64 (Some (ws @ sg @ pre @ ds @ rest)) True = (WOW_SUCCESS, Some (stored_value b (sg = [45]) ds))"
proof -
  let ?body = "pre @ ds @ rest"
  have "is_digit b (hd ds)" using assms(4,5) by simp
  then have "?body \<noteq> [] \<and> \<not> isspace (hd ?body) \<and> hd ?body \<notin> {43, 45}"
    using assms(3,4) by (auto simp: prefixes_def is_digit_def isspace_def split: base.splits)
  then have head: "parse_sign (ws @ sg @ ?body) = (sg = [45], ?body)" "dropWhile isspace (ws @ sg @ ?body) = sg @ ?body"
    "hd ?body \<notin> {43, 45}" "?body \<noteq> []"
    using parse_sign_text [OF assms(1,2), of ?body] by auto
  then have p: "(case sg @ ?body of c # t \<Rightarrow> if c = 45 \<or> c = 43 then t else sg @ ?body | [] \<Rightarrow> sg @ ?body) = ?body"
    using assms(2) head(3,4) by (cases ?body) auto
  have u: "str2u64 (Some (ws @ sg @ ?body)) True =
      (case ?body of
         c # d # _ \<Rightarrow>
           if c = 48 then
             if d = 120 \<or> d = 88 then S16toU64 (Some (ws @ sg @ ?body)) True
             else if d = 98 \<or> d = 66 then S2toU64 (Some (ws @ sg @ ?body)) True
             else S10toU64 (Some (ws @ sg @ ?body)) True
           else S10toU64 (Some (ws @ sg @ ?body)) True
       | _ \<Rightarrow> S10toU64 (Some (ws @ sg @ ?body)) True)"
    by (simp only: str2u64_def option.case if_True Let_def head(2) p)
  show ?thesis
  proof (cases b)
    case BIN
    then show ?thesis
      using assms(3) head p binary.loop_value [of ds rest] assms(5,6) BIN
      by (auto simp: u S2toU64_def store_number_def S2toU64_impl_def prefixes_def skip_prefix_def stored_value_def
          negated Let_def)
  next
    case HEX
    then show ?thesis
      using assms(3) head p hexadecimal.loop_value [of ds rest] assms(5,6) HEX
      by (auto simp: u S16toU64_def store_number_def S16toU64_impl_def prefixes_def skip_prefix_def stored_value_def
          negated Let_def)
  next
    case DEC
    then have "str2u64 (Some (ws @ sg @ ?body)) True = S10toU64 (Some (ws @ sg @ ?body)) True"
    proof (cases ?body)
      case (Cons c t)
      have "pre = []" using assms(3) DEC by (simp add: prefixes_def)
      show ?thesis
      proof (cases t)
        case Nil
        then show ?thesis using Cons u by simp
      next
        case c: (Cons d t')
        have "take 2 (ds @ rest) = [c, d]" using Cons c \<open>pre = []\<close> by (simp del: take_append)
        then have "[c, d] \<notin> set (prefixes BIN @ prefixes HEX)" using assms(7) [OF DEC] by (simp only: not_False_eq_True)
        then show ?thesis using Cons c u by (auto simp: prefixes_def)
      qed
    qed (use head in simp)
    then show ?thesis
      using assms(3) head p decimal.loop_value [of ds rest] assms(5,6) DEC
      by (auto simp: S10toU64_def store_number_def S10toU64_impl_def prefixes_def stored_value_def negated Let_def)
  qed
qed

theorem str2u64_value_witness:
  "str2u64 (Some [32, 45, 49, 50, 120]) True = (WOW_SUCCESS, Some (- 12)) \<and>
   str2u64 (Some [48, 88, 102, 70]) True = (WOW_SUCCESS, Some 255) \<and>
   str2u64 (Some [45, 48, 98, 49]) True = (WOW_SUCCESS, Some 0xffffffff)"
  using str2u64_value [of "[32]" "[45]" "[]" DEC "[49, 50]" "[120]"]
    str2u64_value [of "[]" "[]" "[48, 88]" HEX "[102, 70]" "[]"]
    str2u64_value [of "[]" "[45]" "[48, 98]" BIN "[49]" "[]"]
  by (simp add: isspace_def prefixes_def is_digit_def stored_value_def text_value_def radix_def digit_value_def
      unsigned_minus_1_eq_mask mask_eq_exp_minus_1)

section \<open>BCD and back\<close>

lemma digit_value_range:
  "isdigit10 c \<Longrightarrow> \<exists>n < 10. c = 48 + of_nat n"
  by (intro exI [of _ "unat c - 48"]) (auto simp: isdigit10_def word_le_nat_alt of_nat_diff)

lemma nibbles:
  assumes "isdigit10 c" "isdigit10 d"
  shows "drop_bit 4 (push_bit 4 (c - 48) + (d - 48)) = c - 48" "(push_bit 4 (c - 48) + (d - 48)) AND 0x0f = d - 48"
    "c - 48 \<noteq> 0x0f"
proof -
  obtain m n where "c = 48 + of_nat m" "m < 10" "d = 48 + of_nat n" "n < 10"
    using assms digit_value_range by metis
  moreover from this have "m \<in> {0, 1, 2, 3, 4, 5, 6, 7, 8, 9}" "n \<in> {0, 1, 2, 3, 4, 5, 6, 7, 8, 9}" by auto
  ultimately show "drop_bit 4 (push_bit 4 (c - 48) + (d - 48)) = c - 48" "(push_bit 4 (c - 48) + (d - 48)) AND 0x0f = d - 48"
    "c - 48 \<noteq> 0x0f" by auto
qed

lemma BCD_loop_digits:
  "\<forall>c \<in> set ds. isdigit10 c \<Longrightarrow> length ds = 2 * (i + n) \<Longrightarrow> length out \<ge> 2 * (i + n) \<Longrightarrow> i + n \<le> length bcd \<Longrightarrow>
   \<forall>k < i + n. bcd ! k = push_bit 4 (ds ! (2 * k) - 48) + (ds ! (2 * k + 1) - 48) \<Longrightarrow>
   BCD_loop bcd i n out = Some (WOW_SUCCESS, take (2 * i) out @ drop (2 * i) ds @ drop (2 * (i + n)) out)"
proof (induction n arbitrary: i out)
  case (Suc n)
  let ?c = "ds ! (2 * i)" and ?d = "ds ! (2 * i + 1)"
  have digits: "isdigit10 ?c" "isdigit10 ?d" using Suc.prems(1,2) by auto
  have b: "bcd ! i = push_bit 4 (?c - 48) + (?d - 48)" using Suc.prems(5) by simp
  let ?out = "out[2 * i := ?c, 2 * i + 1 := ?d]"
  have "BCD_loop bcd i (Suc n) out = BCD_loop bcd (Suc i) n ?out"
    using Suc.prems(3,4) digits nibbles [OF digits] nibbles [OF digits(2,1)]
    by (simp add: mem_simps b Let_def)
  also have "\<dots> = Some (WOW_SUCCESS, take (2 * Suc i) ?out @ drop (2 * Suc i) ds @ drop (2 * (Suc i + n)) ?out)"
    using Suc.prems by (intro Suc.IH) auto
  also have "take (2 * Suc i) ?out = take (2 * i) out @ [?c, ?d]"
    using Suc.prems(3) by (simp add: upd_conv_take_nth_drop)
  finally show ?case
    using Suc.prems(2) Cons_nth_drop_Suc [of "2 * i" ds] Cons_nth_drop_Suc [of "2 * i + 1" ds] by simp
qed simp

definition packed_digits :: "bytes \<Rightarrow> bytes" where
  "packed_digits ds = map (\<lambda>k. push_bit 4 (ds ! (2 * k) - 48) + (ds ! (2 * k + 1) - 48)) [0..<length ds div 2]"

lemma String2BCD_loop_digits:
  "\<forall>c \<in> set ds. isdigit10 c \<Longrightarrow> length ds = 2 * (i + n) \<Longrightarrow> i + n \<le> length bcd \<Longrightarrow>
   String2BCD_loop ds (length ds) (2 * i) bcd =
     Some (WOW_SUCCESS, take i bcd @ map (\<lambda>k. push_bit 4 (ds ! (2 * k) - 48) + (ds ! (2 * k + 1) - 48)) [i..<i + n] @ drop (i + n) bcd)"
proof (induction n arbitrary: i bcd)
  case (Suc n)
  let ?f = "\<lambda>k. push_bit 4 (ds ! (2 * k) - 48) + (ds ! (2 * k + 1) - 48)"
  have digits: "isdigit10 (ds ! (2 * i))" "isdigit10 (ds ! (2 * i + 1))" using Suc.prems(1,2) by auto
  have "String2BCD_loop ds (length ds) (2 * i) bcd = String2BCD_loop ds (length ds) (2 * Suc i) (bcd[i := ?f i])"
    using Suc.prems(2,3) digits by (subst String2BCD_loop.simps) (simp add: mem_simps)
  also have "\<dots> = Some (WOW_SUCCESS, take (Suc i) (bcd[i := ?f i]) @ map ?f [Suc i..<Suc i + n] @ drop (Suc i + n) (bcd[i := ?f i]))"
    using Suc.prems by (intro Suc.IH) auto
  also have "take (Suc i) (bcd[i := ?f i]) = take i bcd @ [?f i]"
    using Suc.prems(3) by (simp add: upd_conv_take_nth_drop)
  moreover have "[i..<i + Suc n] = i # [Suc i..<Suc i + n]" by (simp add: upt_conv_Cons)
  ultimately show ?case by (simp del: upt_Suc)
qed (simp add: String2BCD_loop.simps)

text \<open>A text of an even number of digits is stored as one byte for two digits, the first one in the upper nibble, and those
  bytes are turned into the text again. Nothing else of either destination changes.\<close>

theorem bcd_roundtrip:
  assumes "\<forall>c \<in> set ds. isdigit10 c" and "length ds = 2 * n" and "n \<le> length bcd" and "n \<le> nBcdLen"
    and "2 * n \<le> length out" and "2 * n \<le> nStrLen"
  shows "String2BCD (Some ds) (2 * n) (Some bcd) nBcdLen = Some (WOW_SUCCESS, Some (packed_digits ds @ drop n bcd)) \<and>
    BCD2String (Some (packed_digits ds @ drop n bcd)) n (Some out) nStrLen = Some (WOW_SUCCESS, Some (ds @ drop (2 * n) out))"
  using assms String2BCD_loop_digits [of ds 0 n bcd] BCD_loop_digits [of ds 0 n out "packed_digits ds @ drop n bcd"]
  by (simp add: String2BCD_def BCD2String_def packed_digits_def nth_append)

theorem bcd_roundtrip_witness:
  "String2BCD (Some [49, 50]) 2 (Some [0, 0]) 2 = Some (WOW_SUCCESS, Some [0x12, 0]) \<and>
   BCD2String (Some [0x12, 0]) 1 (Some [0, 0]) 2 = Some (WOW_SUCCESS, Some [49, 50])"
  using bcd_roundtrip [of "[49, 50]" 1 "[0, 0]" 2 "[0, 0]" 2] by (simp add: isdigit10_def packed_digits_def)

end
