(* ===== verification/Spec2Isabelle.thy ===== *)
theory Spec2Isabelle
  imports ModbusSession Iec104Invariant Iec104Exchange Iec101Exchange Iec101Invariant Iec101MasterInvariant Iec101Stall SlistRefine RingBuff Base64 Hex Bitmap HashHistory Str TypeConv NumText ByteArray
begin

text \<open>
  A verification development for \<open>wow_linux\<close>, a C framework for gateways of power automation on Linux.

  \<^bold>\<open>The program.\<close> \<open>wow_base\<close> is the library below everything: linked lists, ring buffer, byte array, text and number
  conversions, locks, threads, timers, sockets. \<open>wow_iot\<close> is built on it: checksums, Base64, containers, and the field-bus
  protocols Modbus (master and slave, RTU and TCP) and IEC 60870-5 over TCP (104) and over a serial line (101), each with a controlled and a
  controlling station. A protocol
  stack owns a port (\<open>wow_proto_port.c\<close>), a table of functions over a serial line or a socket, runs one service thread,
  and talks to the application through callbacks that read and write its data points. The theories model these
  protocol stacks from the port up, the parts of both libraries that they use, and the data structures that
  other applications build on.

  \<^bold>\<open>Conventions\<close> (theory \<open>Prelude\<close>). A buffer is a list of bytes of fixed length; every load, store and copy is checked, and an access
  outside the buffer, a read of a freed structure or a loop that never ends is the value \<open>None\<close>. So a theorem that
  a call returns \<open>Some\<close> says that the C code has defined behaviour there. \<open>uint8_t\<close> to \<open>uint64_t\<close> are words of
  that width and wrap; \<open>int\<close> is an integer with its conversions written out (\<open>SizeT\<close>). Error codes are those of \<open>Errno\<close>. Memory allocation,
  clock readings and the chunks that a read of the line delivers are arguments, so that theorems hold for every
  behaviour of them. The application's callbacks are functions on an application state.

  \<^bold>\<open>Theories and sources.\<close>

  \<^item> \<open>Crc\<close>: \<open>encrypt/wow_crc.c\<close>, sixteen checksums as two shift registers; linearity, mirroring, detection of every burst within
    two bytes.
  \<^item> \<open>Port\<close>: \<open>protocol/wow_proto_port.c\<close>, three links with open, send, receive and close, and the callbacks of a connection.
  \<^item> \<open>ModbusCtx\<close>: \<open>modbus_rtu.c\<close>, \<open>modbus_tcp.c\<close>, \<open>modbus_internal.h\<close>, the two function tables as one record of functions. The
    locale of a transport states what the rest relies on, and is interpreted by both tables.
  \<^item> \<open>ModbusRecv\<close>, \<open>ModbusSlave\<close>, \<open>ModbusServe\<close>: \<open>wow_modbus_s.c\<close>, reception of a frame from arbitrarily cut chunks, the reply to every function
    code, and the service thread: it refines a specification of a device and is safe on every input.
  \<^item> \<open>ModbusMaster\<close>, \<open>ModbusExchange\<close>, \<open>ModbusSession\<close>: \<open>wow_modbus_m.c\<close>, alone against a peer and against the slave of the theories above.
  \<^item> \<open>Iec104Base\<close>: \<open>iec10x_base.h\<close>, \<open>iec104_base.h\<close>, \<open>wow_iec10x.h\<close>, the layout of frames. \<open>Iec104Slave\<close>, \<open>Iec104Api\<close>: \<open>wow_iec104s.c\<close>, builders, handlers
    and API of the controlled station. \<open>Iec104Report\<close> and \<open>Iec104Interrogation\<close> say what it sends, \<open>Iec104Command\<close> what it does with
    commands, \<open>Iec104Link\<close> how it receives, starts and loses a connection, \<open>Iec104Invariant\<close> which states it can reach.
  \<^item> \<open>Iec104Master\<close>: \<open>wow_iec104m.c\<close>. \<open>Iec104Delivery\<close> says what it makes of the frames of a station, \<open>Iec104Exchange\<close> runs both stations together.
  \<^item> \<open>Iec101Base\<close>: \<open>iec101_base.h\<close>, fixed and variable frames. \<open>Iec101Frames\<close>: how a station reads frames from the line, as locales that both
    stations interpret. \<open>Iec101Slave\<close>, \<open>Iec101Machine\<close>, \<open>Iec101Api\<close>: \<open>wow_iec101s.c\<close>, the serial controlled station that is
    polled. \<open>Iec101Report\<close> says what its builders send (one locale, interpreted for status points, measurements and counters), \<open>Iec101Station\<close> how it finds
    frames in the received bytes, \<open>Iec101Exchange\<close> how interrogations and commands end, \<open>Iec101Invariant\<close> which states it can reach.
  \<^item> \<open>Iec101Master\<close>, \<open>Iec101MasterApi\<close>: \<open>wow_iec101m.c\<close>, the serial controlling station. \<open>Iec101MasterInvariant\<close> says what its application is never told,
    \<open>Iec101Line\<close> runs both serial stations on one line until they are connected, \<open>Iec101Stall\<close> follows an interrogation between them.
  \<^item> \<open>Slist\<close>, \<open>SlistRefine\<close>: \<open>list/wow_slist.c\<close> on a heap of entries, and its refinement of lists.
  \<^item> \<open>RingBuff\<close>: \<open>utils/wow_ring_buff.c\<close>, a queue. \<open>ByteArray\<close>: \<open>utils/wow_byte_array.c\<close>, a list of bytes. \<open>Bitmap\<close>: \<open>algorithm/wow_bitmap.c\<close>, a
    list of bits.
  \<^item> \<open>Element\<close>, \<open>HashFun\<close>, \<open>HashMap\<close>, \<open>HashMapRefine\<close>, \<open>HashHistory\<close>: \<open>element/\<close>, \<open>hash/\<close>. The elements are a locale, the map is
    proved over it and is itself the contract the set is proved over; both are interpreted on every element type.
  \<^item> \<open>Base64\<close>, \<open>Hex\<close>, \<open>Str\<close>, \<open>ByteOrder\<close>, \<open>TypeConv\<close>, \<open>NumText\<close>: \<open>wow_base64.c\<close>, \<open>wow_hex.c\<close>, \<open>wow_str.c\<close>, \<open>wow_byte.h\<close> and \<open>wow_type.c\<close>; round trips,
    values and termination.

  \<^bold>\<open>What the lemmas show.\<close> For the protocols: functional behaviour of every handler, safety of the receive paths, the
  abstract device or list of nodes that a station refines, and whole exchanges of two stations, from the
  API of one to the callbacks of the other. For the containers: refinement of lists, queues, finite maps and
  sets over whole histories of operations (an \<open>_op\<close> datatype, an \<open>_exec\<close> on the code's structure and one on the abstract
  value). Where the code is wrong, a theorem states exactly when: the overruns of long writes and long spontaneous
  reports, the confirmed switch-on that is executed again in every round, as long as the numbers of the connection last, the serial
  commands that are undefined or reported as failed, the long frame that stops a serial station, the node tables it loses, the serial interrogation that
  never ends and the failures its master never reports, the ninth key of a hash bucket, the text replacement that never returns.
  Where a statement about the protocols holds within limits only, its text names them: 48 floats in an interrogation over TCP, consecutive
  addresses for what the controlling station makes of it, numbers below 32768 on a connection, and runs of 127 points, 79 integers or
  47 floats over the serial line.

  \<^bold>\<open>Bounds and fuel.\<close> No definition has fuel. Loops over a buffer recurse over the bytes left, with a measure where the step is larger than
  one. Loops of the code with no bound of their own (Modbus reception, the walks over linked entries, the loops that double
  a buffer) are partial functions whose endless run is \<open>None\<close>, and the theorems about them show \<open>Some\<close>. The service threads are
  iterated over a list of rounds, so statements about \<open>n\<close> rounds hold for every \<open>n\<close>.

  \<^bold>\<open>Undefined behaviour in histories.\<close> A statement on every history of a station speaks of the histories whose behaviour is
  defined. Two points decide how many these are. The serial stations clear a node structure of eight bytes with the size of a value,
  sixteen: in an executed single command, a set point and every report. What this overwrites depends on the compiler, and the
  number of bytes it leaves unused behind the structure is the field \<open>s_pad\<close> or \<open>c_pad\<close> of the station: with less than eight the call is \<open>None\<close>, with
  eight or more it goes on. The statements hold for every number, and the histories with commands, set points and reports are
  among those they speak of. The send counter of a station over TCP is an \<open>int\<close> that is never reset while the connection lasts: the
  definitions take it as an integer, and a history ends before it would leave the range. The \<open>int\<close> counters of the byte array are bounded in
  its definitions, and its \<open>size_t\<close> arithmetic wraps.

  \<^bold>\<open>Small differences.\<close> A connection delivers finitely many chunks, so a loop that reads until nothing is left ends. The callback that
  \<open>eth_link_aceept_cb\<close> runs when a client connects is the operation \<open>iec104_s_connected\<close> of the station. The parser of the controlling
  station over TCP counts with natural numbers where the code has \<open>uint16_t\<close> and \<open>int16_t\<close>: its thread hands over at most 1500 bytes. A send of length 0
  appends an empty chunk to what was sent.

  \<^bold>\<open>Not modelled.\<close> Sockets, files, threads, locks, timers and the logging of every module are calls of the operating
  system with little logic of their own; a mutex protects each round of a service thread, so a round is one step. The vendored
  parts (cJSON, ezxml, iniparser, quadsort, libshmcache, sqlite) and their wrappers are third-party code. \<open>str2double\<close> needs floating-point arithmetic, which the library theories used here do not
  have; floats are their 32 bits everywhere.
\<close>

end
